(* ===== verification/Py_Core.thy ===== *)
theory Py_Core
  imports Main "HOL-Library.Word" "HOL-Library.Sublist"
begin

text \<open>
  The Python vocabulary the other theories share.

  \<^item> Python integers are \<^typ>\<open>int\<close>; \<open>^\<close>, \<open>&\<close>, \<open>|\<close>, \<open><<\<close>, \<open>>>\<close> are \<open>XOR\<close>, \<open>AND\<close>,
    \<open>OR\<close>, \<^const>\<open>push_bit\<close> and \<^const>\<open>drop_bit\<close> on them, which agree with Python on negative
    integers too.
  \<^item> A \<open>bytes\<close> or \<open>bytearray\<close> value is a list of 8-bit words; reading one element gives the
    integer \<^term>\<open>uint b\<close>.
  \<^item> A raised exception is the left value of a sum.  Only the exceptions the modelled code
    raises or catches are listed.
  \<^item> Slices, \<open>int.from_bytes\<close>, \<open>int.to_bytes\<close>, \<open>struct\<close> half words, \<open>str.find\<close> and
    the other methods of the standard library are written out for the arguments the source uses.
\<close>

unbundle bit_operations_syntax

named_theorems res_simps \<open>unfolding of the exception plumbing\<close>
named_theorems byte_simps \<open>lengths and elements of byte strings\<close>

section \<open>Exceptions as values\<close>

datatype exn =
    ValueError string
  | RuntimeError string
  | SystemExit string
  | RoundTripError string
  | KeyError
  | IndexError
  | TypeError
  | AttributeError
  | OverflowError
  | StructError
  | QueueEmpty
  | AssertionError

type_synonym 'a res = "exn + 'a"

definition rbind :: "'a res \<Rightarrow> ('a \<Rightarrow> 'b res) \<Rightarrow> 'b res" where
  "rbind m f = (case m of Inl e \<Rightarrow> Inl e | Inr x \<Rightarrow> f x)"

definition rmap :: "('a \<Rightarrow> 'b) \<Rightarrow> 'a res \<Rightarrow> 'b res" where
  "rmap f m = (case m of Inl e \<Rightarrow> Inl e | Inr x \<Rightarrow> Inr (f x))"

text \<open>A list comprehension whose element expression may raise: the first exception wins.\<close>

fun rmap_list :: "('a \<Rightarrow> 'b res) \<Rightarrow> 'a list \<Rightarrow> 'b list res" where
  "rmap_list f [] = Inr []"
| "rmap_list f (x # xs) = rbind (f x) (\<lambda>y. rbind (rmap_list f xs) (\<lambda>ys. Inr (y # ys)))"

text \<open>A loop over a list whose body may raise.\<close>

fun rfold :: "('s \<Rightarrow> 'a \<Rightarrow> 's res) \<Rightarrow> 's \<Rightarrow> 'a list \<Rightarrow> 's res" where
  "rfold f s [] = Inr s"
| "rfold f s (x # xs) = rbind (f s x) (\<lambda>s'. rfold f s' xs)"

abbreviation returns :: "'a res \<Rightarrow> bool" where
  "returns m \<equiv> \<exists>x. m = Inr x"

lemma rbind_Inr [simp, res_simps]: "rbind (Inr x) f = f x"
  by (simp add: rbind_def)

lemma rbind_Inl [simp, res_simps]: "rbind (Inl e) f = Inl e"
  by (simp add: rbind_def)

lemma rmap_Inr [simp, res_simps]: "rmap f (Inr x) = Inr (f x)"
  by (simp add: rmap_def)

lemma rmap_Inl [simp, res_simps]: "rmap f (Inl e) = Inl e"
  by (simp add: rmap_def)

lemma rbind_eq_Inr: "rbind m f = Inr y \<longleftrightarrow> (\<exists>x. m = Inr x \<and> f x = Inr y)"
  by (cases m) auto

lemma rbind_eq_Inl: "rbind m f = Inl e \<longleftrightarrow> m = Inl e \<or> (\<exists>x. m = Inr x \<and> f x = Inl e)"
  by (cases m) auto

lemma rmap_eq_Inr: "rmap f m = Inr y \<longleftrightarrow> (\<exists>x. m = Inr x \<and> f x = y)"
  by (cases m) auto

lemma rmap_list_Inr: "(\<And>x. x \<in> set xs \<Longrightarrow> f x = Inr (g x)) \<Longrightarrow> rmap_list f xs = Inr (map g xs)"
  by (induction xs) auto

lemma rmap_list_length: "rmap_list f xs = Inr ys \<Longrightarrow> length ys = length xs"
  by (induction xs arbitrary: ys) (auto simp: rbind_eq_Inr)

lemma rmap_list_append:
  "rmap_list f (xs @ ys) = rbind (rmap_list f xs) (\<lambda>us. rbind (rmap_list f ys) (\<lambda>vs. Inr (us @ vs)))"
proof (induction xs)
  case Nil
  then show ?case by (cases "rmap_list f ys") auto
next
  case (Cons x xs)
  then show ?case
    by (cases "f x"; cases "rmap_list f xs"; cases "rmap_list f ys") auto
qed

lemma rfold_append: "rfold f s (xs @ ys) = rbind (rfold f s xs) (\<lambda>s'. rfold f s' ys)"
  by (induction xs arbitrary: s) (simp_all add: rbind_def split: sum.splits)

lemma rfold_invariant:
  assumes "\<forall>s x s'. I s \<longrightarrow> x \<in> set xs \<longrightarrow> f s x = Inr s' \<longrightarrow> I s'"
    and "I s" and "rfold f s xs = Inr s'"
  shows "I s'"
  using assms
proof (induction xs arbitrary: s)
  case (Cons x xs)
  from Cons.prems(3) obtain t where t: "f s x = Inr t" "rfold f t xs = Inr s'"
    unfolding rfold.simps rbind_eq_Inr by blast
  have "I t" using Cons.prems(1,2) t(1) by (meson list.set_intros(1))
  moreover have "\<forall>s x s'. I s \<longrightarrow> x \<in> set xs \<longrightarrow> f s x = Inr s' \<longrightarrow> I s'"
    using Cons.prems(1) by (meson list.set_intros(2))
  ultimately show ?case using Cons.IH t(2) by blast
qed simp

text \<open>\<open>xs[i]\<close> with \<open>0 \<le> i\<close>.\<close>

definition item :: "'a list \<Rightarrow> nat \<Rightarrow> 'a res" where
  "item xs i = (if i < length xs then Inr (xs ! i) else Inl IndexError)"

section \<open>Slices\<close>

text \<open>\<open>xs[a:b]\<close> and \<open>xs[a:b] = ys\<close> for \<open>0 \<le> a\<close> and \<open>0 \<le> b\<close>: an assignment may change the length.\<close>

definition slice :: "nat \<Rightarrow> nat \<Rightarrow> 'a list \<Rightarrow> 'a list" where
  "slice a b xs = take (b - a) (drop a xs)"

definition slice_set :: "nat \<Rightarrow> nat \<Rightarrow> 'a list \<Rightarrow> 'a list \<Rightarrow> 'a list" where
  "slice_set a b ys xs = take a xs @ ys @ drop (max a b) xs"

lemma length_slice [simp, byte_simps]: "length (slice a b xs) = min (b - a) (length xs - a)"
  by (simp add: slice_def min.commute)

lemma nth_slice: "i < b - a \<Longrightarrow> a + i < length xs \<Longrightarrow> slice a b xs ! i = xs ! (a + i)"
  by (simp add: slice_def)

lemma length_slice_set [simp]:
  "a \<le> b \<Longrightarrow> b \<le> length xs \<Longrightarrow> length ys = b - a \<Longrightarrow> length (slice_set a b ys xs) = length xs"
  by (simp add: slice_set_def)

lemma nth_slice_set:
  "a \<le> b \<Longrightarrow> b \<le> length xs \<Longrightarrow> length ys = b - a \<Longrightarrow> i < length xs \<Longrightarrow>
   slice_set a b ys xs ! i = (if a \<le> i \<and> i < b then ys ! (i - a) else xs ! i)"
  by (auto simp: slice_set_def nth_append max_def)

lemma slice_slice_set_same:
  "a \<le> b \<Longrightarrow> b \<le> length xs \<Longrightarrow> length ys = b - a \<Longrightarrow> slice a b (slice_set a b ys xs) = ys"
  by (simp add: slice_def slice_set_def)

lemma slice_slice_set_disjoint:
  assumes "a \<le> b" "b \<le> length xs" "length ys = b - a" "d \<le> a \<or> b \<le> c" "d \<le> length xs"
  shows "slice c d (slice_set a b ys xs) = slice c d xs"
  by (rule nth_equalityI) (use assms in \<open>auto simp: nth_slice nth_slice_set\<close>)

section \<open>Bytes and integers\<close>

type_synonym byte = "8 word"
type_synonym bytes = "8 word list"

text \<open>\<open>int.from_bytes(bs, "big")\<close> and \<open>int.from_bytes(bs, "little")\<close>.\<close>

fun from_be_acc :: "int \<Rightarrow> bytes \<Rightarrow> int" where
  "from_be_acc acc [] = acc"
| "from_be_acc acc (b # bs) = from_be_acc (acc * 256 + uint b) bs"

definition from_be :: "bytes \<Rightarrow> int" where
  "from_be bs = from_be_acc 0 bs"

fun from_le :: "bytes \<Rightarrow> int" where
  "from_le [] = 0"
| "from_le (b # bs) = uint b + 256 * from_le bs"

text \<open>\<open>v.to_bytes(n, "big")\<close> and \<open>v.to_bytes(n, "little")\<close> raise on a value that does not fit.\<close>

fun le_bytes :: "nat \<Rightarrow> int \<Rightarrow> bytes" where
  "le_bytes 0 v = []"
| "le_bytes (Suc n) v = word_of_int v # le_bytes n (v div 256)"

definition to_le :: "nat \<Rightarrow> int \<Rightarrow> bytes res" where
  "to_le n v = (if 0 \<le> v \<and> v < 256 ^ n then Inr (le_bytes n v) else Inl OverflowError)"

definition to_be :: "nat \<Rightarrow> int \<Rightarrow> bytes res" where
  "to_be n v = (if 0 \<le> v \<and> v < 256 ^ n then Inr (rev (le_bytes n v)) else Inl OverflowError)"

lemma length_le_bytes [simp, byte_simps]: "length (le_bytes n v) = n"
  by (induction n arbitrary: v) auto

lemma from_le_bytes: "0 \<le> v \<Longrightarrow> v < 256 ^ n \<Longrightarrow> from_le (le_bytes n v) = v"
proof (induction n arbitrary: v)
  case (Suc n)
  then have "from_le (le_bytes n (v div 256)) = v div 256" by (intro Suc.IH) auto
  then show ?case by (simp add: uint_word_of_int take_bit_eq_mod)
qed auto

lemma from_be_acc_snoc: "from_be_acc acc (bs @ [b]) = from_be_acc acc bs * 256 + uint b"
  by (induction bs arbitrary: acc) auto

lemma from_be_rev: "from_be (rev bs) = from_le bs"
  by (induction bs) (auto simp: from_be_def from_be_acc_snoc)

lemma from_be_to_be: "to_be n v = Inr bs \<Longrightarrow> from_be bs = v \<and> length bs = n"
  by (auto simp: to_be_def from_be_rev from_le_bytes split: if_splits)

lemma from_le_bound: "0 \<le> from_le bs \<and> from_le bs < 256 ^ length bs"
proof (induction bs)
  case (Cons b bs)
  have "uint b < 256" using uint_lt2p [of b] by simp
  with Cons show ?case by auto
qed auto

lemma from_be_bound: "0 \<le> from_be bs \<and> from_be bs < 256 ^ length bs"
  using from_le_bound [of "rev bs"] by (simp add: from_be_rev [symmetric])

lemma le_bytes_from_le: "le_bytes (length bs) (from_le bs) = bs"
proof (induction bs)
  case (Cons b bs)
  have b: "0 \<le> uint b" "uint b < 256" using uint_lt2p [of b] by auto
  then have "(uint b + 256 * from_le bs) div 256 = from_le bs" by simp
  moreover have "word_of_int (uint b + 256 * from_le bs) = b"
  proof -
    have "uint (word_of_int (uint b + 256 * from_le bs) :: byte) = uint b"
      unfolding uint_word_of_int using b by simp
    then show ?thesis by (rule word_uint_eqI)
  qed
  ultimately show ?case using Cons by (simp del: of_int_add of_int_mult)
qed auto

lemma to_be_from_be: "to_be (length bs) (from_be bs) = Inr bs"
  using from_be_bound [of bs] le_bytes_from_le [of "rev bs"]
  by (simp add: to_be_def from_be_rev [symmetric])

lemma byte_bound: "uint (b :: byte) < 256" "0 \<le> uint (b :: byte)"
  using uint_lt2p [of b] by auto

text \<open>\<open>struct.pack('>nH', ...)\<close> and \<open>struct.unpack('>nH', ...)\<close>.\<close>

fun be_words :: "bytes \<Rightarrow> int list" where
  "be_words (h # l # bs) = (push_bit 8 (uint h) OR uint l) # be_words bs"
| "be_words _ = []"

definition unpack_be16 :: "nat \<Rightarrow> bytes \<Rightarrow> int list res" where
  "unpack_be16 n bs = (if length bs = 2 * n then Inr (be_words bs) else Inl StructError)"

definition pack_be16 :: "int list \<Rightarrow> bytes res" where
  "pack_be16 ws = (if \<forall>w \<in> set ws. 0 \<le> w \<and> w \<le> 0xffff
     then Inr (concat (map (\<lambda>w. [word_of_int (drop_bit 8 w), word_of_int w]) ws))
     else Inl StructError)"

abbreviation u16 :: "int \<Rightarrow> bool" where
  "u16 w \<equiv> 0 \<le> w \<and> w \<le> 0xffff"

text \<open>\<open>sum(data)\<close> of bytes.\<close>

definition byte_sum :: "bytes \<Rightarrow> int" where
  "byte_sum bs = sum_list (map uint bs)"

lemma byte_sum_simps [simp]:
  "byte_sum [] = 0" "byte_sum (b # bs) = uint b + byte_sum bs"
  "byte_sum (xs @ ys) = byte_sum xs + byte_sum ys"
  by (simp_all add: byte_sum_def)

lemma byte_sum_nonneg: "0 \<le> byte_sum bs"
  by (induction bs) (simp_all add: byte_bound)

text \<open>\<open>hay.find(pat, start)\<close>: the first offset at or after \<open>start\<close> where \<open>pat\<close> occurs.\<close>

fun find_at :: "nat \<Rightarrow> 'a list \<Rightarrow> 'a list \<Rightarrow> nat option" where
  "find_at k pat [] = (if pat = [] then Some k else None)"
| "find_at k pat (x # xs) = (if prefix pat (x # xs) then Some k else find_at (Suc k) pat xs)"

definition find_sub :: "'a list \<Rightarrow> 'a list \<Rightarrow> nat \<Rightarrow> nat option" where
  "find_sub pat hay start =
     (if length hay < start then None else find_at start pat (drop start hay))"

abbreviation contains_sub :: "'a list \<Rightarrow> 'a list \<Rightarrow> bool" where
  "contains_sub pat hay \<equiv> find_sub pat hay 0 \<noteq> None"

lemma find_at_bounds: "find_at k pat hay = Some i \<Longrightarrow> k \<le> i \<and> i + length pat \<le> k + length hay"
proof (induction k pat hay rule: find_at.induct)
  case (2 k pat x xs)
  then show ?case by (auto split: if_splits dest!: prefix_length_le)
qed (auto split: if_splits)

lemma find_sub_bounds: "find_sub pat hay start = Some i \<Longrightarrow> start \<le> i \<and> i + length pat \<le> length hay"
  using find_at_bounds [of start pat "drop start hay" i]
  by (auto simp: find_sub_def split: if_splits)

section \<open>Bits of Python integers\<close>

lemma bit_and_nonzero: "x AND push_bit n 1 \<noteq> 0 \<longleftrightarrow> bit x n" for x :: int
proof
  assume "bit x n"
  then have "bit (x AND push_bit n 1) n" by (simp add: bit_simps)
  then show "x AND push_bit n 1 \<noteq> 0" by (metis bit_0_eq bot_apply bot_bool_def)
next
  assume "x AND push_bit n 1 \<noteq> 0"
  then obtain m where "bit (x AND push_bit n 1) m" by (metis bit_eqI bit_0_eq bot_apply bot_bool_def)
  then show "bit x n" by (auto simp: bit_simps bit_1_iff)
qed

lemma u16_take_bit: "u16 w \<longleftrightarrow> take_bit 16 w = w" for w :: int
  by (auto simp: take_bit_int_eq_self_iff)

lemma u16_bit: "u16 w \<Longrightarrow> 16 \<le> n \<Longrightarrow> \<not> bit w n" for w :: int
  by (metis bit_take_bit_iff not_le u16_take_bit)

text \<open>Integers assembled bit by bit, as \<open>sum(... << k for k in range(n))\<close> does.\<close>

definition from_bits :: "nat \<Rightarrow> (nat \<Rightarrow> bool) \<Rightarrow> int" where
  "from_bits n P = sum_list (map (\<lambda>k. push_bit k (of_bool (P k))) [0..<n])"

lemma from_bits_horner: "from_bits n P = horner_sum of_bool 2 (map P [0..<n])"
proof (induction n)
  case (Suc n)
  then show ?case by (simp add: from_bits_def horner_sum_append push_bit_eq_mult mult.commute)
qed (simp add: from_bits_def)

lemma bit_from_bits [simp]: "bit (from_bits n P) k \<longleftrightarrow> k < n \<and> P k"
  by (auto simp: from_bits_horner bit_horner_sum_bit_iff)

lemma from_bits_take_bit [simp]: "take_bit n (from_bits n P) = from_bits n P"
  by (rule bit_eqI) (auto simp: bit_take_bit_iff)

lemma drop_bit_and_1: "drop_bit k x AND 1 = of_bool (bit x k)" for x :: int
  by (simp add: and_one_eq bit_iff_odd_drop_bit mod_2_eq_odd)

lemma from_bits_cong: "(\<And>k. k < n \<Longrightarrow> P k = Q k) \<Longrightarrow> from_bits n P = from_bits n Q"
  by (rule bit_eqI) auto

lemma concat_pairs_nth:
  "i < length xs \<Longrightarrow> concat (map (\<lambda>x. [f x, g x]) xs) ! (2 * i) = f (xs ! i)
    \<and> concat (map (\<lambda>x. [f x, g x]) xs) ! (2 * i + 1) = g (xs ! i)"
proof (induction xs arbitrary: i)
  case (Cons x xs)
  then show ?case by (cases i) auto
qed simp

lemma length_concat_pairs: "length (concat (map (\<lambda>x. [f x, g x]) xs)) = 2 * length xs"
  by (induction xs) auto

lemma map_enumerate:
  "map (\<lambda>(i, x). f i x) (zip [0..<length xs] xs) = map (\<lambda>i. f i (xs ! i)) [0..<length xs]"
  by (rule nth_equalityI) auto

end
