(* ===== verification/Byte_Vectors.thy ===== *)
theory Byte_Vectors
  imports Py_Core
begin

text \<open>
  Integers as little-endian byte vectors.  The word arithmetic of the ROM4 tools moves whole bytes:
  written with \<^const>\<open>from_le\<close>, every \<open>XOR\<close>, shift by eight and mask of the code becomes an
  operation on a list of bytes that the simplifier computes (the collection \<open>byte_vector\<close>).
\<close>

named_theorems byte_vector \<open>byte-vector normal form of integer expressions\<close>

fun bxor :: "bytes \<Rightarrow> bytes \<Rightarrow> bytes" where
  "bxor [] ys = ys"
| "bxor (x # xs) [] = x # xs"
| "bxor (x # xs) (y # ys) = (x XOR y) # bxor xs ys"

lemma bit_byte_lt: "bit (b :: byte) n \<Longrightarrow> n < 8"
  using bit_imp_le_length [of b n] by simp

lemma uint_plus_256: "uint (b :: byte) + 256 * x = push_bit 8 x OR uint b"
proof -
  have "push_bit 8 x + uint b = push_bit 8 x OR uint b"
  proof (rule disjunctive_add)
    fix n
    show "\<not> bit (push_bit 8 x) n \<or> \<not> bit (uint b) n"
      using bit_byte_lt [of b n] by (auto simp: bit_simps)
  qed
  then show ?thesis by (simp add: push_bit_eq_mult)
qed

lemma bit_from_le_Cons:
  "bit (from_le (b # bs)) n = (if n < 8 then bit b n else bit (from_le bs) (n - 8))"
  using bit_byte_lt [of b n] by (auto simp: uint_plus_256 bit_simps)

lemma bit_from_le: "bit (from_le bs) n = (n < 8 * length bs \<and> bit (bs ! (n div 8)) (n mod 8))"
proof (induction bs arbitrary: n)
  case (Cons b bs)
  show ?case
  proof (cases "n < 8")
    case False
    then obtain m where "n = m + 8" using le_Suc_ex by (metis add.commute not_le)
    moreover have "(m + 8) div 8 = Suc (m div 8)" by simp
    ultimately show ?thesis using Cons [of m] by (simp add: bit_from_le_Cons del: from_le.simps)
  qed (simp add: bit_from_le_Cons del: from_le.simps)
qed simp

lemma from_le_xor [byte_vector]: "from_le xs XOR from_le ys = from_le (bxor xs ys)"
proof (induction xs ys rule: bxor.induct)
  case (3 x xs y ys)
  show ?case
  proof (rule bit_eqI)
    fix n
    have "bit (from_le xs XOR from_le ys) (n - 8) = bit (from_le (bxor xs ys)) (n - 8)"
      by (simp only: 3)
    then show "bit (from_le (x # xs) XOR from_le (y # ys)) n
        = bit (from_le (bxor (x # xs) (y # ys))) n"
      by (simp add: bit_xor_iff bit_from_le_Cons del: from_le.simps)
  qed
qed simp_all

fun bor :: "bytes \<Rightarrow> bytes \<Rightarrow> bytes" where
  "bor [] ys = ys"
| "bor (x # xs) [] = x # xs"
| "bor (x # xs) (y # ys) = (x OR y) # bor xs ys"

lemma from_le_or [byte_vector]: "from_le xs OR from_le ys = from_le (bor xs ys)"
proof (induction xs ys rule: bor.induct)
  case (3 x xs y ys)
  show ?case
  proof (rule bit_eqI)
    fix n
    have "bit (from_le xs OR from_le ys) (n - 8) = bit (from_le (bor xs ys)) (n - 8)"
      by (simp only: 3)
    then show "bit (from_le (x # xs) OR from_le (y # ys)) n
        = bit (from_le (bor (x # xs) (y # ys))) n"
      by (simp add: bit_or_iff bit_from_le_Cons del: from_le.simps)
  qed
qed simp_all

lemma from_le_not16 [byte_vector]: "from_le [l, h] XOR 0xffff = from_le [NOT l, NOT h]"
proof -
  have "from_le [255, 255] = 0xffff" by simp
  then have "from_le [l, h] XOR 0xffff = from_le (bxor [l, h] [255, 255])"
    by (simp only: from_le_xor [symmetric])
  moreover have "b XOR 255 = NOT b" for b :: byte
  proof -
    have "(255 :: byte) = - 1" by simp
    then show ?thesis by (simp only: bit.xor_one_right)
  qed
  ultimately show ?thesis by (simp del: from_le.simps)
qed

lemma from_le_push [byte_vector]: "push_bit 8 (from_le xs) = from_le (0 # xs)"
  by (simp add: push_bit_eq_mult)

lemma from_le_drop [byte_vector]: "drop_bit 8 (from_le (x # xs)) = from_le xs"
  by (rule bit_eqI) (simp add: bit_simps bit_from_le_Cons add.commute del: from_le.simps)

lemma from_le_drop16 [byte_vector]: "drop_bit 16 (from_le (x # y # xs)) = from_le xs"
proof -
  have "drop_bit 16 (from_le (x # y # xs)) = drop_bit 8 (drop_bit 8 (from_le (x # y # xs)))"
    by (simp add: drop_bit_drop_bit del: from_le.simps)
  then show ?thesis by (simp only: from_le_drop)
qed

lemma from_le_push16 [byte_vector]: "push_bit 16 (from_le xs) = from_le (0 # 0 # xs)"
  by (simp add: push_bit_eq_mult)

lemma from_le_take: "take_bit (8 * n) (from_le xs) = from_le (take n xs)"
  by (rule bit_eqI) (auto simp: bit_simps bit_from_le nth_take less_mult_imp_div_less mult.commute)

lemma from_le_and16 [byte_vector]: "from_le xs AND 0xffff = from_le (take 2 xs)"
proof -
  have "(0xffff :: int) = mask 16" by (simp add: mask_eq_exp_minus_1)
  then have "from_le xs AND 0xffff = take_bit 16 (from_le xs)" by (simp add: take_bit_eq_mask)
  also have "\<dots> = from_le (take 2 xs)" using from_le_take [of 2 xs] by simp
  finally show ?thesis .
qed

lemma from_le_and32 [byte_vector]: "from_le xs AND 0xffffffff = from_le (take 4 xs)"
proof -
  have "(0xffffffff :: int) = mask 32" by (simp add: mask_eq_exp_minus_1)
  then have "from_le xs AND 0xffffffff = take_bit 32 (from_le xs)" by (simp add: take_bit_eq_mask)
  also have "\<dots> = from_le (take 4 xs)" using from_le_take [of 4 xs] by simp
  finally show ?thesis .
qed

lemma from_le_and24 [byte_vector]: "from_le xs AND 0xffffff = from_le (take 3 xs)"
proof -
  have "(0xffffff :: int) = mask 24" by (simp add: mask_eq_exp_minus_1)
  then have "from_le xs AND 0xffffff = take_bit 24 (from_le xs)" by (simp add: take_bit_eq_mask)
  also have "\<dots> = from_le (take 3 xs)" using from_le_take [of 3 xs] by simp
  finally show ?thesis .
qed

lemma from_le_pad: "from_le (xs @ [0]) = from_le xs"
  by (induction xs) auto

lemma from_le_inj: "length xs = length ys \<Longrightarrow> from_le xs = from_le ys \<longleftrightarrow> xs = ys"
  by (metis le_bytes_from_le)

lemma be_words_Cons [byte_vector]: "be_words (h # l # bs) = from_le [l, h] # be_words bs"
  by (simp add: uint_plus_256)

lemma u16_from_le: "u16 (from_le [l, h])"
  using from_le_bound [of "[l, h]"] by simp

lemma u16_bytes: "u16 w \<Longrightarrow> w = from_le [word_of_int w, word_of_int (drop_bit 8 w)]"
proof -
  assume w: "u16 w"
  then have "from_le (le_bytes 2 w) = w" by (intro from_le_bytes) auto
  then show ?thesis by (simp add: numeral_2_eq_2 drop_bit_eq_div)
qed

lemma be_words_append: "even (length xs) \<Longrightarrow> be_words (xs @ ys) = be_words xs @ be_words ys"
  by (induction xs rule: be_words.induct) auto

lemma length_be_words [simp]: "length (be_words bs) = length bs div 2"
  by (induction bs rule: be_words.induct) auto

lemma be_words_u16: "w \<in> set (be_words bs) \<Longrightarrow> u16 w"
  by (induction bs rule: be_words.induct)
    (auto simp: be_words_Cons u16_from_le simp del: be_words.simps(1) from_le.simps)

text \<open>Every list of 16-bit words is the big-endian reading of a byte string, and \<open>struct\<close> packs it back.\<close>

lemma words_as_bytes: "\<forall>w \<in> set ws. u16 w \<Longrightarrow> \<exists>bs. length bs = 2 * length ws \<and> be_words bs = ws"
proof (induction ws)
  case (Cons w ws)
  then obtain bs where "length bs = 2 * length ws" "be_words bs = ws" by auto
  then have "length (word_of_int (drop_bit 8 w) # word_of_int w # bs) = 2 * length (w # ws)"
    and "be_words (word_of_int (drop_bit 8 w) # word_of_int w # bs) = w # ws"
    using u16_bytes [of w] Cons.prems by (auto simp: be_words_Cons simp del: be_words.simps(1) from_le.simps)
  then show ?case by blast
qed simp

lemma be_words_bytes:
  "even (length bs) \<Longrightarrow>
   concat (map (\<lambda>w. [word_of_int (drop_bit 8 w), word_of_int w]) (be_words bs)) = bs"
proof (induction bs rule: be_words.induct)
  case (1 h l bs)
  have "word_of_int (drop_bit 8 (from_le [l, h])) = h"
    by (simp only: from_le_drop) simp
  moreover have "word_of_int (from_le [l, h]) = l"
    using le_bytes_from_le [of "[l, h]"] by simp
  ultimately show ?case using 1
    by (simp add: be_words_Cons del: be_words.simps(1) from_le.simps)
qed simp_all

lemma pack_be_words:
  assumes "even (length bs)"
  shows "pack_be16 (be_words bs) = Inr bs"
proof -
  have "\<forall>w \<in> set (be_words bs). 0 \<le> w \<and> w \<le> 0xffff" by (intro ballI be_words_u16)
  then show ?thesis unfolding pack_be16_def be_words_bytes [OF assms] by (rule if_P)
qed

lemma be_words_inj:
  assumes "length xs = length ys" "even (length xs)" "be_words xs = be_words ys"
  shows "xs = ys"
  using assms be_words_bytes [of xs] be_words_bytes [of ys] by metis

text \<open>From here on byte vectors and word lists stay folded unless a proof unfolds them.\<close>

declare from_le.simps(2) [simp del] be_words.simps(1) [simp del]

lemmas xor_cancel = xor.assoc xor.commute xor.left_commute xor_self_eq bit.xor_left_self

end
