(* ===== verification/Rom4_Transform.thy ===== *)
theory Rom4_Transform
  imports Byte_Vectors
begin

text \<open>
  The ROM4 DSP word transform of \<open>tools/nse5_transform_trace_check.py\<close>: six 16-bit words, twelve
  rounds of key addition, a linear mixing layer, rotations and a nonlinear layer, and the inverse
  that the tool derives by Gaussian elimination over GF(2).  Python tuples of words are lists of
  \<^typ>\<open>int\<close>; the tool does not restrict them to sixteen bits in the forward direction, so the
  definitions do not either, and the lemmas say where the range matters.
\<close>

section \<open>The word helpers\<close>

definition nonlinear_words :: "int list \<Rightarrow> int list res" where
  "nonlinear_words words =
     (if length words \<noteq> 6 then Inl (ValueError ''nonlinear stage requires six words'')
      else Inr (map (\<lambda>i. words ! i XOR
             (words ! ((i + 2) mod 6) OR (words ! ((i + 4) mod 6) XOR 0xffff))) [0..<6]))"

definition fold_word :: "int \<Rightarrow> int" where
  "fold_word value = (let v = push_bit 8 (value AND 0xffff) in v OR drop_bit 16 v)"

definition mix_words :: "int list \<Rightarrow> (int \<times> int) res" where
  "mix_words words =
     (case words of
        [x, y, u, v, p, q] \<Rightarrow>
          (let a = x XOR push_bit 8 x XOR y;
               b = y XOR push_bit 8 y XOR x;
               b = fold_word b;
               b = fold_word (b XOR x);
               b = b XOR u;
               a = a XOR v;
               a = push_bit 8 a AND 0xffffffff;
               a = a XOR v;
               a = drop_bit 8 a;
               b = b XOR p;
               b = push_bit 8 b AND 0xffffffff;
               b = b XOR p;
               b = drop_bit 8 b;
               b = fold_word b;
               b = fold_word (b XOR q);
               a = fold_word (a XOR q);
               a = fold_word (a XOR p XOR q)
           in Inr (a AND 0xffff, b AND 0xffff))
      | _ \<Rightarrow> Inl (ValueError ''mix requires three resolved word pairs''))"

definition linear_mix :: "int list \<Rightarrow> int list res" where
  "linear_mix words =
     rbind (mix_words words) (\<lambda>(a0, b0).
     rbind (mix_words (drop 2 words @ take 2 words)) (\<lambda>(a1, b1).
     rbind (mix_words (drop 4 words @ take 4 words)) (\<lambda>(a2, b2).
     Inr [a0, b0, a1, b1, a2, b2])))"

text \<open>\<open>int(f"{word:016b}"[::-1], 2)\<close>: the sixteen binary digits in reverse.  The format keeps more
  than sixteen digits for a larger word and a sign for a negative one; the callers pass 16-bit words,
  and the model reverses the low sixteen bits.\<close>

definition reverse_bits :: "nat \<Rightarrow> int \<Rightarrow> int" where
  "reverse_bits n w = sum_list (map (\<lambda>k. if bit w (n - 1 - k) then 2 ^ k else 0) [0..<n])"

definition reverse_words :: "int list \<Rightarrow> int list" where
  "reverse_words words = map (reverse_bits 16) (rev words)"

definition rotate32 :: "int \<Rightarrow> int \<Rightarrow> nat \<Rightarrow> int \<times> int" where
  "rotate32 high low count =
     (let value = push_bit 16 high OR low;
          value = (drop_bit count value OR push_bit (32 - count) value) AND 0xffffffff
      in (drop_bit 16 value, value AND 0xffff))"

text \<open>\<open>rotate32(*words[:2], m) + words[2:4] + rotate32(*words[4:], n)\<close> for six words.\<close>

definition rotate_ends :: "nat \<Rightarrow> nat \<Rightarrow> int list \<Rightarrow> int list" where
  "rotate_ends m n words =
     (case (rotate32 (words ! 0) (words ! 1) m, rotate32 (words ! 4) (words ! 5) n) of
        ((a, b), (c, d)) \<Rightarrow> [a, b, words ! 2, words ! 3, c, d])"

section \<open>The transform\<close>

definition add_round_key :: "int list \<Rightarrow> int list \<Rightarrow> int \<Rightarrow> int list" where
  "add_round_key words table round_word =
     (let mixed = map (\<lambda>(word, key). word XOR key) (zip words table);
          mixed = mixed[1 := mixed ! 1 XOR round_word]
      in mixed[4 := mixed ! 4 XOR round_word])"

definition transform_round :: "int list \<Rightarrow> int list \<Rightarrow> nat \<times> int \<Rightarrow> int list res" where
  "transform_round table words = (\<lambda>(index, round_word).
     rbind (linear_mix (add_round_key words table round_word)) (\<lambda>words.
       if index < 11 then
         rbind (nonlinear_words (rotate_ends 10 31 words)) (\<lambda>words.
           Inr (rotate_ends 31 10 words))
       else Inr words))"

definition transform_words :: "int list \<Rightarrow> int list \<Rightarrow> int list \<Rightarrow> int list res" where
  "transform_words words table schedule =
     (if length words \<noteq> 6 \<or> length table \<noteq> 6 \<or> length schedule \<noteq> 12
      then Inl (ValueError ''transform requires six data/table words and twelve schedule words'')
      else rbind (rfold (transform_round table) words (zip [0..<12] schedule)) (\<lambda>words.
             Inr (reverse_words words)))"

section \<open>The inverse\<close>

definition pack_words :: "int list \<Rightarrow> int" where
  "pack_words words = sum_list (map (\<lambda>(index, word). push_bit (16 * index) word)
     (zip [0..<length words] words))"

definition unpack_words :: "int \<Rightarrow> int list" where
  "unpack_words value = map (\<lambda>index. drop_bit (16 * index) value AND 0xffff) [0..<6]"

text \<open>The columns of the linear layer, and the augmented rows \<open>[A | 1]\<close>.\<close>

definition mix_columns :: "int list res" where
  "mix_columns = rmap_list (\<lambda>k. rmap pack_words (linear_mix (unpack_words (push_bit k 1)))) [0..<96]"

definition augmented_rows :: "int list \<Rightarrow> int list" where
  "augmented_rows columns = map (\<lambda>k.
     sum_list (map (\<lambda>(index, column). push_bit index (drop_bit k column AND 1))
       (zip [0..<length columns] columns)) OR push_bit (96 + k) 1) [0..<96]"

definition swap_rows :: "nat \<Rightarrow> nat \<Rightarrow> int list \<Rightarrow> int list" where
  "swap_rows i j rows = rows[i := rows ! j, j := rows ! i]"

definition clear_row :: "nat \<Rightarrow> int list \<Rightarrow> nat \<Rightarrow> int list" where
  "clear_row k rows index =
     (if index \<noteq> k \<and> rows ! index AND push_bit k 1 \<noteq> 0
      then rows[index := rows ! index XOR rows ! k] else rows)"

definition eliminate_bit :: "int list \<Rightarrow> nat \<Rightarrow> int list res" where
  "eliminate_bit rows k =
     (case find (\<lambda>index. rows ! index AND push_bit k 1 \<noteq> 0) [k..<96] of
        None \<Rightarrow> Inl (ValueError ''observed linear transform is not invertible'')
      | Some pivot \<Rightarrow> Inr (foldl (clear_row k) (swap_rows k pivot rows) [0..<96]))"

definition inverse_mix_rows :: "int list res" where
  "inverse_mix_rows =
     rbind mix_columns (\<lambda>columns.
     rbind (rfold eliminate_bit (augmented_rows columns) [0..<96]) (\<lambda>rows.
     Inr (map (drop_bit 96) rows)))"

text \<open>\<open>x.bit_count()\<close> of a nonnegative integer below \<open>2 ^ 96\<close>.\<close>

definition bit_count :: "int \<Rightarrow> nat" where
  "bit_count x = length (filter (bit x) [0..<96])"

definition inverse_linear_mix :: "int list \<Rightarrow> int list res" where
  "inverse_linear_mix words =
     (let value = pack_words words in
      rbind inverse_mix_rows (\<lambda>rows.
        Inr (unpack_words (sum_list (map (\<lambda>(k, row).
          push_bit k (int (bit_count (row AND value)) AND 1)) (zip [0..<length rows] rows))))))"

definition nonlinear_output :: "nat \<Rightarrow> nat" where
  "nonlinear_output value =
     (let bits = map (\<lambda>index. drop_bit index value AND 1) [0..<3]
      in sum_list (map (\<lambda>index.
           push_bit index (bits ! index XOR (bits ! ((index + 1) mod 3) OR (bits ! ((index + 2) mod 3) XOR 1))))
           [0..<3]))"

definition nonlinear_inverse :: "(nat \<times> nat) list" where
  "nonlinear_inverse = map (\<lambda>value. (nonlinear_output value, value)) [0..<8]"

definition inverse_nonlinear_words :: "int list \<Rightarrow> int list res" where
  "inverse_nonlinear_words words =
     (if length (remdups (map fst nonlinear_inverse)) \<noteq> 8
      then Inl (ValueError ''observed nonlinear transform is not invertible'')
      else Inr (map (\<lambda>position.
        sum_list (map (\<lambda>k.
          let value = sum_list (map (\<lambda>index.
                push_bit index (nat (drop_bit k (words ! (position mod 2 + index * 2)) AND 1))) [0..<3]);
              decoded = the (map_of nonlinear_inverse value)
          in push_bit k (int (drop_bit (position div 2) decoded AND 1))) [0..<16])) [0..<6]))"

definition inverse_round :: "int list \<Rightarrow> int list \<Rightarrow> int list \<Rightarrow> nat \<Rightarrow> int list res" where
  "inverse_round table schedule words index =
     rbind (if index < 11
            then rbind (inverse_nonlinear_words (rotate_ends 1 22 words)) (\<lambda>words.
                   Inr (rotate_ends 22 1 words))
            else Inr words) (\<lambda>words.
     rbind (inverse_linear_mix words) (\<lambda>mixed.
       let mixed = mixed[1 := mixed ! 1 XOR schedule ! index];
           mixed = mixed[4 := mixed ! 4 XOR schedule ! index]
       in Inr (map (\<lambda>(word, key). word XOR key) (zip mixed table))))"

definition inverse_transform_words :: "int list \<Rightarrow> int list \<Rightarrow> int list \<Rightarrow> int list res" where
  "inverse_transform_words words table schedule =
     (if length words \<noteq> 6 \<or> length table \<noteq> 6 \<or> length schedule \<noteq> 12 \<or>
         \<not> (\<forall>word \<in> set (words @ table @ schedule). 0 \<le> word \<and> word \<le> 0xffff)
      then Inl (ValueError ''inverse requires six data/table and twelve unsigned words'')
      else rfold (inverse_round table schedule) (reverse_words words) (rev [0..<12]))"

section \<open>Byte-vector normal form of the helpers\<close>

lemma fold_word_bytes [byte_vector]:
  "fold_word (from_le (x # y # xs)) = from_le [y, x, y]"
proof -
  have "from_le [0, x, y] OR drop_bit 16 (from_le [0, x, y]) = from_le [y, x, y]"
    by (rule bit_eqI)
      (auto simp: bit_or_iff bit_drop_bit_eq bit_from_le_Cons add.commute dest: bit_byte_lt)
  then show ?thesis by (simp add: fold_word_def byte_vector)
qed


text \<open>The linear layer on bytes: output byte \<open>i\<close> is the \<open>XOR\<close> of the input bytes \<open>mix_sources ! i\<close>.\<close>

definition mix_sources :: "nat list list" where
  "mix_sources = [[0,1,2,6,9,10,11], [1,3,6,7,8,10,11], [0,1,2,3,4,8,11], [0,1,3,5,8,9,10],
     [1,2,3,4,5,6,10], [0,2,3,5,7,10,11], [0,3,4,5,6,7,8], [0,1,2,4,5,7,9],
     [2,5,6,7,8,9,10], [2,3,4,6,7,9,11], [0,4,7,8,9,10,11], [1,4,5,6,8,9,11]]"

definition unmix_sources :: "nat list list" where
  "unmix_sources = [[0,2,3,5,6,7,10], [0,1,2,3,4,7,11], [0,2,4,5,7,8,9], [1,2,3,4,5,6,9],
     [2,4,6,7,9,10,11], [3,4,5,6,7,8,11], [0,1,4,6,8,9,11], [1,5,6,7,8,9,10],
     [1,2,3,6,8,10,11], [0,3,7,8,9,10,11], [0,1,3,4,5,8,10], [0,1,2,5,9,10,11]]"

definition select_xor :: "nat list list \<Rightarrow> bytes \<Rightarrow> bytes" where
  "select_xor sources bs = map (\<lambda>js. foldr (\<lambda>j acc. bs ! j XOR acc) js 0) sources"

abbreviation mix_bytes :: "bytes \<Rightarrow> bytes" where
  "mix_bytes \<equiv> select_xor mix_sources"

abbreviation unmix_bytes :: "bytes \<Rightarrow> bytes" where
  "unmix_bytes \<equiv> select_xor unmix_sources"

lemma list12_cases:
  assumes "length bs = 12"
  obtains b0 b1 b2 b3 b4 b5 b6 b7 b8 b9 b10 b11
  where "bs = [b0, b1, b2, b3, b4, b5, b6, b7, b8, b9, b10, b11]"
  using assms by (auto simp: length_Suc_conv numeral_eq_Suc)

lemma length_select_xor [simp]: "length (select_xor sources bs) = length sources"
  by (simp add: select_xor_def)

lemma length_mix_bytes [simp]: "length (mix_bytes bs) = 12" "length (unmix_bytes bs) = 12"
  by (simp_all add: mix_sources_def unmix_sources_def)

lemma linear_mix_bytes:
  assumes "length bs = 12"
  shows "linear_mix (be_words bs) = Inr (be_words (mix_bytes bs))"
  using assms
  by (elim list12_cases)
    (simp add: linear_mix_def mix_words_def Let_def byte_vector select_xor_def mix_sources_def xor_cancel)

lemma unmix_mix_bytes:
  assumes "length bs = 12"
  shows "unmix_bytes (mix_bytes bs) = bs"
  using assms
  by (elim list12_cases)
    (simp add: select_xor_def mix_sources_def unmix_sources_def xor_cancel)


lemma mix_unmix_bytes:
  assumes "length bs = 12"
  shows "mix_bytes (unmix_bytes bs) = bs"
  using assms
  by (elim list12_cases)
    (simp add: select_xor_def mix_sources_def unmix_sources_def xor_cancel)

definition nonlinear_bytes :: "bytes \<Rightarrow> bytes" where
  "nonlinear_bytes bs = map (\<lambda>i. bs ! i XOR (bs ! ((i + 4) mod 12) OR NOT (bs ! ((i + 8) mod 12)))) [0..<12]"

lemma upt_12: "[0..<12] = [0,1,2,3,4,5,6,7,8,9,10,11]"
  by (simp add: upt_rec)

lemma upt_6: "[0..<6] = [0,1,2,3,4,5]"
  by (simp add: upt_rec)

lemma nonlinear_words_bytes:
  assumes "length bs = 12"
  shows "nonlinear_words (be_words bs) = Inr (be_words (nonlinear_bytes bs))"
  using assms
  by (elim list12_cases)
    (simp add: nonlinear_words_def nonlinear_bytes_def upt_12 upt_6 byte_vector)


section \<open>Every layer is invertible on 16-bit words\<close>

definition valid6 :: "int list \<Rightarrow> bool" where
  "valid6 words \<longleftrightarrow> length words = 6 \<and> (\<forall>w \<in> set words. u16 w)"

lemma valid6_be_words: "length bs = 12 \<Longrightarrow> valid6 (be_words bs)"
  by (auto simp: valid6_def dest: be_words_u16)

lemma valid6_obtain:
  assumes "valid6 words"
  obtains bs where "length bs = 12" "words = be_words bs"
  using assms words_as_bytes [of words] by (auto simp: valid6_def)

subsection \<open>Rotations\<close>

definition ror32 :: "nat \<Rightarrow> int \<Rightarrow> int" where
  "ror32 c v = (drop_bit c v OR push_bit (32 - c) v) AND 0xffffffff"

lemma and_ffffffff: "x AND 0xffffffff = take_bit 32 x" for x :: int
  by (simp add: take_bit_eq_mask mask_eq_exp_minus_1)

lemma and_ffff: "x AND 0xffff = take_bit 16 x" for x :: int
  by (simp add: take_bit_eq_mask mask_eq_exp_minus_1)

lemma bit_ror32:
  assumes "take_bit 32 v = v" "0 < c" "c < 32"
  shows "bit (ror32 c v) n \<longleftrightarrow> n < 32 \<and> bit v ((n + c) mod 32)"
proof -
  have v: "\<not> bit v m" if "32 \<le> m" for m
    using assms(1) that by (metis bit_take_bit_iff not_le)
  have "bit (ror32 c v) n \<longleftrightarrow> n < 32 \<and> (bit v (n + c) \<or> 32 - c \<le> n \<and> bit v (n - (32 - c)))"
    by (auto simp: ror32_def and_ffffffff bit_simps add.commute)
  also have "\<dots> \<longleftrightarrow> n < 32 \<and> bit v ((n + c) mod 32)"
  proof (cases "n + c < 32")
    case True
    then show ?thesis using assms by auto
  next
    case False
    then have "(n + c) mod 32 = n - (32 - c)" if "n < 32"
      using that assms(2,3) by (simp add: mod_if)
    then show ?thesis using False assms v [of "n + c"] by auto
  qed
  finally show ?thesis .
qed

lemma take_bit_ror32 [simp]: "take_bit 32 (ror32 c v) = ror32 c v"
  by (simp add: ror32_def and_ffffffff)

lemma ror32_ror32:
  assumes "take_bit 32 v = v" "0 < c" "0 < d" "c + d = 32"
  shows "ror32 d (ror32 c v) = v"
proof (rule bit_eqI)
  fix n
  have "((n + d) mod 32 + c) mod 32 = n mod 32"
    using assms(4) by (simp add: mod_add_left_eq add.assoc add.commute [of d])
  then show "bit (ror32 d (ror32 c v)) n = bit v n"
    using assms bit_ror32 [OF assms(1,2)] bit_ror32 [OF take_bit_ror32 assms(3)]
    by (cases "n < 32") (auto, metis bit_take_bit_iff not_le)
qed

lemma rotate32_ror32:
  "rotate32 h l c = (drop_bit 16 (ror32 c (push_bit 16 h OR l)), take_bit 16 (ror32 c (push_bit 16 h OR l)))"
  by (simp add: rotate32_def ror32_def Let_def and_ffff)

lemma u16_bitD: "u16 w \<Longrightarrow> bit w n \<Longrightarrow> n < 16" for w :: int
  using u16_bit [of w n] by (cases "n < 16") simp_all

lemma join_take32:
  fixes h l :: int
  assumes "u16 h" "u16 l"
  shows "take_bit 32 (push_bit 16 h OR l) = push_bit 16 h OR l"
proof (rule bit_eqI)
  fix n
  have "bit h (n - 16) \<Longrightarrow> n < 32" "bit l n \<Longrightarrow> n < 32"
    using u16_bitD [OF assms(1), of "n - 16"] u16_bitD [OF assms(2), of n] by linarith+
  then show "bit (take_bit 32 (push_bit 16 h OR l)) n = bit (push_bit 16 h OR l) n"
    by (auto simp: bit_simps)
qed

lemma join_split: "push_bit 16 (drop_bit 16 v) OR take_bit 16 v = v" for v :: int
  by (rule bit_eqI) (auto simp: bit_simps)

lemma split_join:
  fixes h l :: int
  assumes "u16 h" "u16 l"
  shows "drop_bit 16 (push_bit 16 h OR l) = h" "take_bit 16 (push_bit 16 h OR l) = l"
proof -
  show "drop_bit 16 (push_bit 16 h OR l) = h"
    by (rule bit_eqI) (use u16_bit [OF assms(2)] in \<open>auto simp: bit_drop_bit_eq bit_or_iff bit_push_bit_iff\<close>)
  show "take_bit 16 (push_bit 16 h OR l) = l"
    by (rule bit_eqI) (use u16_bitD [OF assms(2)] in \<open>auto simp: bit_take_bit_iff bit_or_iff bit_push_bit_iff\<close>)
qed

lemma rotate32_inverse:
  assumes "u16 h" "u16 l" "0 < c" "0 < d" "c + d = 32" "rotate32 h l c = (h', l')"
  shows "rotate32 h' l' d = (h, l)" "u16 h'" "u16 l'"
proof -
  let ?v = "push_bit 16 h OR l"
  have t: "take_bit 32 ?v = ?v" using assms by (intro join_take32)
  have hl: "h' = drop_bit 16 (ror32 c ?v)" "l' = take_bit 16 (ror32 c ?v)"
    using assms(6) by (auto simp: rotate32_ror32)
  have "ror32 d (ror32 c ?v) = ?v" by (rule ror32_ror32 [OF t assms(3,4,5)])
  then show "rotate32 h' l' d = (h, l)"
    unfolding hl rotate32_ror32 join_split by (simp only: split_join [OF assms(1,2)])
  have "drop_bit 16 (take_bit 32 x) = take_bit 16 (drop_bit 16 x)" for x :: int
    by (rule bit_eqI) (auto simp: bit_simps)
  then have "h' = take_bit 16 h'"
    unfolding hl by (metis take_bit_ror32)
  then show "u16 h'" by (metis u16_take_bit)
  show "u16 l'" unfolding hl by (metis u16_take_bit take_bit_take_bit min.idem)
qed


lemma rotate_ends_inverse:
  assumes "valid6 words" "0 < m" "0 < n" "m < 32" "n < 32"
  shows "valid6 (rotate_ends m n words)"
    and "rotate_ends (32 - m) (32 - n) (rotate_ends m n words) = words"
proof -
  obtain w0 w1 w2 w3 w4 w5 where ws: "words = [w0, w1, w2, w3, w4, w5]"
    using assms(1) by (auto simp: valid6_def length_Suc_conv numeral_eq_Suc)
  then have u: "u16 w0" "u16 w1" "u16 w2" "u16 w3" "u16 w4" "u16 w5"
    using assms(1) by (auto simp: valid6_def)
  obtain a b c d where r: "rotate32 w0 w1 m = (a, b)" "rotate32 w4 w5 n = (c, d)"
    by (metis surj_pair)
  have 1: "rotate32 a b (32 - m) = (w0, w1)" "u16 a" "u16 b"
    using rotate32_inverse [OF u(1,2) assms(2) _ _ r(1), of "32 - m"] assms by simp_all
  have 2: "rotate32 c d (32 - n) = (w4, w5)" "u16 c" "u16 d"
    using rotate32_inverse [OF u(5,6) assms(3) _ _ r(2), of "32 - n"] assms by simp_all
  show "valid6 (rotate_ends m n words)"
    using 1 2 u by (simp add: rotate_ends_def ws r valid6_def)
  show "rotate_ends (32 - m) (32 - n) (rotate_ends m n words) = words"
    using 1 2 by (simp add: rotate_ends_def ws r)
qed

lemmas rotate_layers =
  rotate_ends_inverse [where m = 10 and n = 31, simplified]
  rotate_ends_inverse [where m = 31 and n = 10, simplified]
  rotate_ends_inverse [where m = 1 and n = 22, simplified, folded One_nat_def]
  rotate_ends_inverse [where m = 22 and n = 1, simplified, folded One_nat_def]

subsection \<open>The nonlinear layer\<close>

lemma nonlinear_inverse_table:
  "nonlinear_inverse = [(7, 0), (4, 1), (1, 2), (6, 3), (2, 4), (3, 5), (5, 6), (0, 7)]"
  by code_simp

definition nl3 :: "bool \<Rightarrow> bool \<Rightarrow> bool \<Rightarrow> bool" where
  "nl3 a b c \<longleftrightarrow> a \<noteq> (b \<or> \<not> c)"

text \<open>The bit that the table lookup decodes for the input bits \<open>a\<close>, \<open>b\<close>, \<open>c\<close>.\<close>

definition dec3 :: "nat \<Rightarrow> bool \<Rightarrow> bool \<Rightarrow> bool \<Rightarrow> bool" where
  "dec3 i a b c = odd (drop_bit i (the (map_of nonlinear_inverse
     (of_bool a + 2 * of_bool b + 4 * of_bool c :: nat))))"

lemma dec3_table: "\<forall>a b c. dec3 0 a b c = (if a then b \<and> \<not> c else c \<or> \<not> b)"
  "\<forall>a b c. dec3 1 a b c = (if b then c \<and> \<not> a else a \<or> \<not> c)"
  "\<forall>a b c. dec3 2 a b c = (if c then a \<and> \<not> b else b \<or> \<not> a)"
  by code_simp+

lemmas dec3_formula = dec3_table [rule_format]

lemma nl3_inverse:
  "dec3 0 (nl3 a b c) (nl3 b c a) (nl3 c a b) = a"
  "dec3 1 (nl3 a b c) (nl3 b c a) (nl3 c a b) = b"
  "dec3 2 (nl3 a b c) (nl3 b c a) (nl3 c a b) = c"
  "nl3 (dec3 0 a b c) (dec3 1 a b c) (dec3 2 a b c) = a"
  "nl3 (dec3 1 a b c) (dec3 2 a b c) (dec3 0 a b c) = b"
  "nl3 (dec3 2 a b c) (dec3 0 a b c) (dec3 1 a b c) = c"
  unfolding dec3_formula nl3_def by auto

lemmas nl3_inverse_Suc = nl3_inverse [unfolded One_nat_def]

lemma upt_3: "[0..<3] = [0, 1, 2]"
  by (simp add: upt_rec)

lemma inverse_nonlinear_bits:
  "inverse_nonlinear_words words = Inr (map (\<lambda>position. from_bits 16 (\<lambda>k.
     dec3 (position div 2) (bit (words ! (position mod 2)) k) (bit (words ! (position mod 2 + 2)) k)
       (bit (words ! (position mod 2 + 4)) k))) [0..<6])"
proof -
  have len: "length (remdups (map fst nonlinear_inverse)) = 8"
    by code_simp
  have decoded: "int (drop_bit i x AND 1) = of_bool (odd (drop_bit i x))" for i and x :: nat
    by (simp add: and_one_eq mod_2_eq_odd)
  have gathered: "sum_list (map (\<lambda>index. push_bit index (nat (drop_bit k (f index) AND 1))) [0..<3])
    = of_bool (bit (f 0) k) + 2 * of_bool (bit (f 1) k) + 4 * of_bool (bit (f 2) k)"
    for k :: nat and f :: "nat \<Rightarrow> int"
    unfolding upt_3 drop_bit_and_1 by (simp add: push_bit_eq_mult)
  show ?thesis
    unfolding inverse_nonlinear_words_def len Let_def gathered decoded dec3_def from_bits_def
    by simp
qed

lemma nonlinear_bits:
  fixes words :: "int list"
  assumes "length words = 6" "i < 6" "k < 16"
  shows "bit ((map (\<lambda>i. words ! i XOR (words ! ((i + 2) mod 6) OR (words ! ((i + 4) mod 6) XOR 0xffff))) [0..<6]) ! i) k
    = nl3 (bit (words ! i) k) (bit (words ! ((i + 2) mod 6)) k) (bit (words ! ((i + 4) mod 6)) k)"
proof -
  have "bit (0xffff :: int) k"
    using assms(3) by (simp add: bit_mask_iff flip: mask_eq_exp_minus_1 [of 16, where ?'a = int, simplified])
  then show ?thesis using assms by (auto simp: nl3_def bit_simps)
qed


lemma from_bits_u16: "u16 (from_bits 16 P)"
  using from_bits_take_bit [of 16 P] u16_take_bit by blast

lemma valid6_bits:
  assumes "valid6 u" "valid6 v" "\<And>i k. i < 6 \<Longrightarrow> k < 16 \<Longrightarrow> bit (u ! i) k = bit (v ! i) k"
  shows "u = v"
proof (rule nth_equalityI)
  show "length u = length v" using assms by (simp add: valid6_def)
  fix i assume i: "i < length u"
  show "u ! i = v ! i"
  proof (rule bit_eqI)
    fix k
    have "u16 (u ! i)" "u16 (v ! i)" using assms(1,2) i by (auto simp: valid6_def)
    then show "bit (u ! i) k = bit (v ! i) k"
      using assms i u16_bit [of "u ! i" k] u16_bit [of "v ! i" k]
      by (cases "k < 16") (simp_all add: valid6_def)
  qed
qed

lemma valid6_nonlinear: "valid6 words \<Longrightarrow> nonlinear_words words = Inr w \<Longrightarrow> valid6 w"
  by (elim valid6_obtain) (auto simp: nonlinear_words_bytes nonlinear_bytes_def intro!: valid6_be_words)

lemma valid6_inverse_nonlinear: "inverse_nonlinear_words words = Inr w \<Longrightarrow> valid6 w"
  by (auto simp: inverse_nonlinear_bits valid6_def intro: from_bits_u16 [THEN conjunct1] from_bits_u16 [THEN conjunct2])

lemma inverse_nonlinear_nth:
  assumes "inverse_nonlinear_words words = Inr v" "i < 6" "k < 16"
  shows "bit (v ! i) k = dec3 (i div 2) (bit (words ! (i mod 2)) k) (bit (words ! (i mod 2 + 2)) k) (bit (words ! (i mod 2 + 4)) k)"
  using assms by (auto simp: inverse_nonlinear_bits)

lemma nonlinear_layer:
  assumes "valid6 words"
  shows "\<exists>w. nonlinear_words words = Inr w \<and> valid6 w \<and> inverse_nonlinear_words w = Inr words"
proof -
  define w where "w = map (\<lambda>i. words ! i XOR (words ! ((i + 2) mod 6) OR (words ! ((i + 4) mod 6) XOR 0xffff))) [0..<6]"
  have len: "length words = 6" using assms by (simp add: valid6_def)
  have nl: "nonlinear_words words = Inr w" by (simp add: nonlinear_words_def len w_def)
  have bits: "bit (w ! i) k = nl3 (bit (words ! i) k) (bit (words ! ((i + 2) mod 6)) k) (bit (words ! ((i + 4) mod 6)) k)"
    if "i < 6" "k < 16" for i k
    unfolding w_def using len that by (rule nonlinear_bits)
  obtain v where v: "inverse_nonlinear_words w = Inr v" by (simp add: inverse_nonlinear_bits)
  have "v = words"
  proof (rule valid6_bits [OF valid6_inverse_nonlinear [OF v] assms])
    fix i k :: nat assume "i < 6" "k < 16"
    then have "i = 0 \<or> i = 1 \<or> i = 2 \<or> i = 3 \<or> i = 4 \<or> i = 5" by linarith
    then show "bit (v ! i) k = bit (words ! i) k"
      using \<open>k < 16\<close> inverse_nonlinear_nth [OF v]
      by (elim disjE) (simp_all add: bits nl3_inverse nl3_inverse_Suc del: add_2_eq_Suc add_2_eq_Suc')
  qed
  then show ?thesis using nl v valid6_nonlinear [OF assms nl] by blast
qed

lemma inverse_nonlinear_layer:
  assumes "valid6 words"
  shows "\<exists>w. inverse_nonlinear_words words = Inr w \<and> valid6 w \<and> nonlinear_words w = Inr words"
proof -
  obtain v where v: "inverse_nonlinear_words words = Inr v" by (simp add: inverse_nonlinear_bits)
  have v6: "valid6 v" by (rule valid6_inverse_nonlinear [OF v])
  obtain w where w: "nonlinear_words v = Inr w" "valid6 w" using nonlinear_layer [OF v6] by blast
  have len: "length v = 6" using v6 by (simp add: valid6_def)
  note vb = inverse_nonlinear_nth [OF v]
  have wmap: "w = map (\<lambda>i. v ! i XOR (v ! ((i + 2) mod 6) OR (v ! ((i + 4) mod 6) XOR 0xffff))) [0..<6]"
    using w(1) by (simp add: nonlinear_words_def len)
  have "w = words"
  proof (rule valid6_bits [OF w(2) assms])
    fix i k :: nat assume ik: "i < 6" "k < 16"
    have "bit (w ! i) k = nl3 (bit (v ! i) k) (bit (v ! ((i + 2) mod 6)) k) (bit (v ! ((i + 4) mod 6)) k)"
      unfolding wmap by (rule nonlinear_bits [OF len ik])
    moreover have "i = 0 \<or> i = 1 \<or> i = 2 \<or> i = 3 \<or> i = 4 \<or> i = 5" using ik by linarith
    ultimately show "bit (w ! i) k = bit (words ! i) k"
      using ik by (elim disjE) (simp_all add: vb nl3_inverse nl3_inverse_Suc del: add_2_eq_Suc add_2_eq_Suc')
  qed
  then show ?thesis using v v6 w by blast
qed

end
