(* ===== verification/Rom4_Inverse.thy ===== *)
theory Rom4_Inverse
  imports Rom4_Transform
begin

text \<open>
  The Gaussian elimination of \<open>_inverse_mix_rows\<close> computes the inverse of the linear layer, so
  \<open>inverse_linear_mix\<close> inverts \<open>linear_mix\<close>, and hence \<open>inverse_transform_words\<close> inverts
  \<open>transform_words\<close>, in both directions.  A 96-bit vector is an integer; \<open>par r v\<close> is the inner
  product of two vectors over GF(2).
\<close>

section \<open>Inner products over GF(2)\<close>

definition par :: "int \<Rightarrow> int \<Rightarrow> bool" where
  "par r v = odd (card {j. j < 96 \<and> bit r j \<and> bit v j})"

lemma odd_card_symdiff:
  assumes "finite A" "finite B"
  shows "odd (card {x. (x \<in> A) \<noteq> (x \<in> B)}) \<longleftrightarrow> (odd (card A) \<noteq> odd (card B))"
proof -
  have eq: "{x. (x \<in> A) \<noteq> (x \<in> B)} = (A - B) \<union> (B - A)" by auto
  have "card {x. (x \<in> A) \<noteq> (x \<in> B)} = card (A - B) + card (B - A)"
    unfolding eq using assms by (intro card_Un_disjoint) auto
  moreover have "card A = card (A - B) + card (A \<inter> B)" "card B = card (B - A) + card (A \<inter> B)"
    using assms by (metis card_Diff_subset_Int card_mono Int_lower1 finite_Int le_add_diff_inverse2,
        metis card_Diff_subset_Int card_mono Int_commute Int_lower1 finite_Int le_add_diff_inverse2)
  ultimately show ?thesis by auto
qed

lemma par_xor_left: "par (r XOR s) v \<longleftrightarrow> (par r v \<noteq> par s v)"
proof -
  have "{j. j < 96 \<and> bit (r XOR s) j \<and> bit v j} =
      {x. (x \<in> {j. j < 96 \<and> bit r j \<and> bit v j}) \<noteq> (x \<in> {j. j < 96 \<and> bit s j \<and> bit v j})}"
    by (auto simp: bit_xor_iff)
  then show ?thesis unfolding par_def by (subst odd_card_symdiff [symmetric]) auto
qed

lemma par_commute: "par r v = par v r"
  unfolding par_def by (rule arg_cong [where f = "\<lambda>A. odd (card A)"]) auto

lemma par_xor_right: "par r (v XOR w) \<longleftrightarrow> (par r v \<noteq> par r w)"
  using par_xor_left by (simp add: par_commute [of r])

lemma par_unit: "k < 96 \<Longrightarrow> par (push_bit k 1) v = bit v k"
proof -
  assume k: "k < 96"
  have "{j. j < 96 \<and> bit (push_bit k 1 :: int) j \<and> bit v j} = (if bit v k then {k} else {})"
    using k by (auto simp: bit_exp_iff)
  then show ?thesis by (simp add: par_def)
qed

lemma bit_count_par: "odd (bit_count (r AND v)) = par r v"
proof -
  have "length (filter (bit (r AND v)) [0..<96]) = card (set (filter (bit (r AND v)) [0..<96]))"
    by (intro distinct_card [symmetric] distinct_filter) simp
  also have "set (filter (bit (r AND v)) [0..<96]) = {j. j < 96 \<and> bit r j \<and> bit v j}"
    by (auto simp: bit_and_iff)
  finally show ?thesis by (simp add: bit_count_def par_def)
qed

lemma par_take_bit: "par r (take_bit 96 v) = par r v"
  unfolding par_def by (rule arg_cong [where f = "\<lambda>A. odd (card A)"]) (auto simp: bit_take_bit_iff)

section \<open>Vectors of twelve bytes\<close>

lemma length_sources [simp]: "length mix_sources = 12" "length unmix_sources = 12"
  by (simp_all add: mix_sources_def unmix_sources_def)

fun swap_pairs :: "'a list \<Rightarrow> 'a list" where
  "swap_pairs (x # y # zs) = y # x # swap_pairs zs"
| "swap_pairs zs = zs"

definition vec :: "bytes \<Rightarrow> int" where
  "vec bs = from_le (swap_pairs bs)"

lemma swap_swap_pairs [simp]: "swap_pairs (swap_pairs xs) = xs"
  by (induction xs rule: swap_pairs.induct) auto

lemma length_swap_pairs [simp]: "length (swap_pairs xs) = length xs"
  by (induction xs rule: swap_pairs.induct) auto

lemma vec_of_int:
  obtains bs where "length bs = 12" "take_bit 96 v = vec bs"
proof
  have "take_bit 96 v = from_le (le_bytes 12 (take_bit 96 v))"
    by (rule from_le_bytes [symmetric]) (simp_all add: take_bit_eq_mod)
  then show "take_bit 96 v = vec (swap_pairs (le_bytes 12 (take_bit 96 v)))" by (simp add: vec_def)
qed simp

lemma vec_bit: "length bs = 12 \<Longrightarrow> bit (vec bs) k \<Longrightarrow> k < 96"
  by (simp add: vec_def bit_from_le)

lemma take_bit_vec [simp]: "length bs = 12 \<Longrightarrow> take_bit 96 (vec bs) = vec bs"
  by (rule bit_eqI) (auto simp: bit_take_bit_iff dest: vec_bit)

lemma from_le_drop_bytes: "drop_bit (8 * n) (from_le xs) = from_le (drop n xs)"
  by (rule bit_eqI) (auto simp: bit_drop_bit_eq bit_from_le)

lemmas from_le_drops = from_le_drop_bytes [where n = 2, simplified] from_le_drop_bytes [where n = 4, simplified]
  from_le_drop_bytes [where n = 6, simplified] from_le_drop_bytes [where n = 8, simplified]
  from_le_drop_bytes [where n = 10, simplified]

lemma unpack_vec: "length bs = 12 \<Longrightarrow> unpack_words (vec bs) = be_words bs"
  by (elim list12_cases)
    (simp add: unpack_words_def upt_6 vec_def from_le_drops byte_vector)

lemma pack_be_vec: "length bs = 12 \<Longrightarrow> pack_words (be_words bs) = vec bs"
  by (elim list12_cases)
    (simp add: pack_words_def upt_6 vec_def byte_vector push_bit_eq_mult, simp add: from_le.simps)

lemma unpack_take_bit: "unpack_words (take_bit 96 v) = unpack_words v"
  unfolding unpack_words_def and_ffff
  by (rule map_cong [OF refl], rule bit_eqI) (auto simp: bit_simps)

section \<open>The linear layer as a matrix\<close>

definition F :: "int \<Rightarrow> int" where
  "F v = (case linear_mix (unpack_words v) of Inr ws \<Rightarrow> pack_words ws | Inl _ \<Rightarrow> 0)"

lemma F_take_bit: "F (take_bit 96 v) = F v"
  by (simp add: F_def unpack_take_bit)

lemma F_vec: "length bs = 12 \<Longrightarrow> F (vec bs) = vec (mix_bytes bs)"
  by (simp add: F_def unpack_vec linear_mix_bytes pack_be_vec)

lemma linear_mix_F: "linear_mix (unpack_words v) = Inr (unpack_words (F v))"
proof -
  obtain bs where bs: "length bs = 12" "take_bit 96 v = vec bs" by (rule vec_of_int)
  then have "linear_mix (unpack_words (vec bs)) = Inr (unpack_words (F (vec bs)))"
    by (simp add: unpack_vec linear_mix_bytes F_vec)
  then show ?thesis by (simp add: bs(2) [symmetric] F_take_bit unpack_take_bit)
qed

lemma vec_xor: "length xs = 12 \<Longrightarrow> length ys = 12 \<Longrightarrow> vec xs XOR vec ys = vec (bxor xs ys)"
  by (elim list12_cases) (simp add: vec_def byte_vector)

lemma length_bxor [simp]: "length (bxor xs ys) = max (length xs) (length ys)"
  by (induction xs ys rule: bxor.induct) auto

lemma mix_bytes_xor:
  "length xs = 12 \<Longrightarrow> length ys = 12 \<Longrightarrow> mix_bytes (bxor xs ys) = bxor (mix_bytes xs) (mix_bytes ys)"
  by (elim list12_cases) (simp add: select_xor_def mix_sources_def xor_cancel)

lemma F_xor: "F (v XOR w) = F v XOR F w"
proof -
  obtain xs where xs: "length xs = 12" "take_bit 96 v = vec xs" by (rule vec_of_int)
  obtain ys where ys: "length ys = 12" "take_bit 96 w = vec ys" by (rule vec_of_int)
  have "F (v XOR w) = F (take_bit 96 v XOR take_bit 96 w)"
    by (simp only: F_take_bit take_bit_xor [symmetric])
  also have "\<dots> = F (take_bit 96 v) XOR F (take_bit 96 w)"
    unfolding xs(2) ys(2) using xs(1) ys(1) by (simp add: vec_xor F_vec mix_bytes_xor)
  finally show ?thesis by (simp only: F_take_bit)
qed

lemma F_zero: "F 0 = 0"
  using F_xor [of 0 0] by simp

lemma F_injective: "F v = 0 \<Longrightarrow> take_bit 96 v = 0"
proof -
  assume F0: "F v = 0"
  obtain xs where xs: "length xs = 12" "take_bit 96 v = vec xs" by (rule vec_of_int)
  obtain zs :: bytes where zs: "length zs = 12" "take_bit 96 0 = vec zs" by (rule vec_of_int)
  have "vec (mix_bytes xs) = F v" using xs by (metis F_vec F_take_bit)
  also have "\<dots> = vec (mix_bytes zs)" using F0 F_zero zs by (metis F_vec take_bit_of_0)
  finally have "unmix_bytes (mix_bytes xs) = unmix_bytes (mix_bytes zs)"
    by (metis from_le_inj length_mix_bytes(1) length_swap_pairs swap_swap_pairs vec_def)
  then have "xs = zs" using xs zs by (simp add: unmix_mix_bytes)
  then show "take_bit 96 v = 0" using xs zs by simp
qed

lemma bit_F: "bit (F v) k \<Longrightarrow> k < 96"
proof -
  assume k: "bit (F v) k"
  obtain xs where xs: "length xs = 12" "take_bit 96 v = vec xs" by (rule vec_of_int)
  have "F v = vec (mix_bytes xs)" using xs by (metis F_vec F_take_bit)
  then show "k < 96" using k vec_bit [of "mix_bytes xs"] by simp
qed


lemma take_bit_Suc_xor: "take_bit (Suc n) v = take_bit n v XOR (if bit v n then push_bit n 1 else 0)" for v :: int
  by (rule bit_eqI) (auto simp: bit_simps less_Suc_eq)

lemma F_columns: "bit (F (take_bit n v)) k = odd (card {j. j < n \<and> bit v j \<and> bit (F (push_bit j 1)) k})"
proof (induction n)
  case 0
  then show ?case by (simp add: F_zero)
next
  case (Suc n)
  have split: "{j. j < Suc n \<and> bit v j \<and> bit (F (push_bit j 1)) k} =
      (if bit v n \<and> bit (F (push_bit n 1)) k then insert n {j. j < n \<and> bit v j \<and> bit (F (push_bit j 1)) k}
       else {j. j < n \<and> bit v j \<and> bit (F (push_bit j 1)) k})"
    by (auto simp: less_Suc_eq)
  have "bit (F (take_bit (Suc n) v)) k = (bit (F (take_bit n v)) k \<noteq> (bit v n \<and> bit (F (push_bit n 1)) k))"
    by (simp add: take_bit_Suc_xor F_xor F_zero bit_xor_iff)
  then show ?case unfolding split using Suc by simp
qed

definition columns :: "int list" where
  "columns = map (\<lambda>k. F (push_bit k 1)) [0..<96]"

lemma mix_columns_eq: "mix_columns = Inr columns"
  unfolding mix_columns_def columns_def
proof (rule rmap_list_Inr)
  fix k
  obtain ws where "linear_mix (unpack_words (push_bit k 1)) = Inr ws" using linear_mix_F by blast
  then show "rmap pack_words (linear_mix (unpack_words (push_bit k 1))) = Inr (F (push_bit k 1))"
    by (simp only: F_def rmap_Inr sum.case)
qed

lemma row_low:
  "sum_list (map (\<lambda>(index, column). push_bit index (drop_bit k column AND 1)) (zip [0..<length columns] columns))
   = from_bits 96 (\<lambda>j. bit (F (push_bit j 1)) k)"
proof -
  have "length columns = 96" by (simp add: columns_def)
  then have "map (\<lambda>i. push_bit i (drop_bit k (columns ! i) AND 1)) [0..<length columns]
      = map (\<lambda>j. push_bit j (of_bool (bit (F (push_bit j 1)) k))) [0..<96]"
    unfolding drop_bit_and_1 by (intro map_cong) (simp_all add: columns_def)
  then show ?thesis unfolding map_enumerate from_bits_def by (rule arg_cong)
qed

lemma augmented_rows_nth:
  "k < 96 \<Longrightarrow> augmented_rows columns ! k = from_bits 96 (\<lambda>j. bit (F (push_bit j 1)) k) OR push_bit (96 + k) 1"
  unfolding augmented_rows_def row_low by simp

lemma length_augmented_rows: "length (augmented_rows columns) = 96"
  by (simp add: augmented_rows_def)

section \<open>Invariants of the elimination\<close>

text \<open>Every row states a true equation between \<open>v\<close> and \<open>F v\<close>; a vector orthogonal to all rows is
  zero; and the columns treated so far are unit columns.\<close>

definition rows_sound :: "int list \<Rightarrow> bool" where
  "rows_sound rows \<longleftrightarrow> length rows = 96 \<and> (\<forall>r \<in> set rows. \<forall>v. par r v = par (drop_bit 96 r) (F v))"

definition rows_span :: "int list \<Rightarrow> bool" where
  "rows_span rows \<longleftrightarrow> (\<forall>v. (\<forall>r \<in> set rows. \<not> par r v) \<longrightarrow> take_bit 96 v = 0)"

definition unit_columns :: "nat \<Rightarrow> int list \<Rightarrow> bool" where
  "unit_columns k rows \<longleftrightarrow> (\<forall>i < 96. \<forall>j < k. bit (rows ! i) j = (i = j))"

lemma initial_rows_sound: "rows_sound (augmented_rows columns)"
proof -
  have "par (augmented_rows columns ! k) v = par (drop_bit 96 (augmented_rows columns ! k)) (F v)"
    if k: "k < 96" for k v
  proof -
    have "drop_bit 96 (augmented_rows columns ! k) = push_bit k 1"
      unfolding augmented_rows_nth [OF k] by (rule bit_eqI) (auto simp: bit_simps)
    moreover have "par (augmented_rows columns ! k) v = bit (F v) k"
      unfolding F_take_bit [of v, symmetric] F_columns augmented_rows_nth [OF k] par_def
      by (rule arg_cong [where f = "\<lambda>A. odd (card A)"]) (auto simp: bit_simps)
    ultimately show ?thesis using k by (simp only: par_unit)
  qed
  then show ?thesis
    by (auto simp: rows_sound_def length_augmented_rows in_set_conv_nth)
qed

lemma initial_rows_span: "rows_span (augmented_rows columns)"
  unfolding rows_span_def
proof (intro allI impI)
  fix v
  assume none: "\<forall>r \<in> set (augmented_rows columns). \<not> par r v"
  have "\<not> bit (F v) k" for k
  proof (cases "k < 96")
    case True
    then have r: "augmented_rows columns ! k \<in> set (augmented_rows columns)"
      by (simp add: length_augmented_rows)
    have "bit (F v) k = par (augmented_rows columns ! k) v"
      unfolding F_take_bit [of v, symmetric] F_columns augmented_rows_nth [OF True] par_def
      by (rule arg_cong [where f = "\<lambda>A. odd (card A)"]) (auto simp: bit_simps)
    then show ?thesis using none r by simp
  next
    case False
    then show ?thesis using bit_F by blast
  qed
  then have "F v = 0" by (intro bit_eqI) simp
  then show "take_bit 96 v = 0" by (rule F_injective)
qed


lemma and_exp_eq_0: "x AND 2 ^ k = 0 \<longleftrightarrow> \<not> bit x k" for x :: int
  using bit_and_nonzero [of x k] by auto

lemma clear_row_nth:
  assumes "length rows = 96" "k < 96"
  shows "n \<le> 96 \<Longrightarrow> length (foldl (clear_row k) rows [0..<n]) = 96 \<and>
    (\<forall>i < 96. foldl (clear_row k) rows [0..<n] ! i =
       (if i < n \<and> i \<noteq> k \<and> bit (rows ! i) k then rows ! i XOR rows ! k else rows ! i))"
proof (induction n)
  case (Suc n)
  then show ?case using assms
    by (auto simp: clear_row_def and_exp_eq_0 nth_list_update less_Suc_eq)
qed (use assms in simp)

lemma pivot_exists:
  assumes "rows_span rows" "unit_columns k rows" "length rows = 96" "k < 96"
  shows "\<exists>i. k \<le> i \<and> i < 96 \<and> bit (rows ! i) k"
proof (rule ccontr)
  assume none: "\<not> ?thesis"
  define v where "v = from_bits 96 (\<lambda>j. j = k \<or> j < k \<and> bit (rows ! j) k)"
  have "\<not> par (rows ! i) v" if i: "i < 96" for i
  proof -
    have "{j. j < 96 \<and> bit (rows ! i) j \<and> bit v j} = (if i < k \<and> bit (rows ! i) k then {i, k} else {})"
      using none assms(2,4) i by (auto simp: v_def unit_columns_def not_less)
    then show ?thesis by (simp add: par_def)
  qed
  then have "take_bit 96 v = 0"
    using assms(1,3) unfolding rows_span_def by (metis in_set_conv_nth)
  moreover have "bit (take_bit 96 v) k" using assms(4) by (simp add: v_def)
  ultimately show False by simp
qed

lemma find_upt_Some:
  assumes "\<exists>i. k \<le> i \<and> i < n \<and> P i"
  obtains p where "find P [k..<n] = Some p" "k \<le> p" "p < n" "P p"
proof -
  have "find P [k..<n] \<noteq> None" using assms by (auto simp: find_None_iff)
  then obtain p where p: "find P [k..<n] = Some p" by auto
  moreover have "P p" "p \<in> set [k..<n]" using p by (auto simp: find_Some_iff)
  ultimately show ?thesis using that by auto
qed

lemma eliminate_bit_step:
  assumes inv: "rows_sound rows" "rows_span rows" "unit_columns k rows" and k: "k < 96"
  shows "\<exists>rows'. eliminate_bit rows k = Inr rows' \<and> rows_sound rows' \<and> rows_span rows' \<and> unit_columns (Suc k) rows'"
proof -
  have len: "length rows = 96" using inv(1) by (simp add: rows_sound_def)
  obtain p where p: "find (\<lambda>index. rows ! index AND push_bit k 1 \<noteq> 0) [k..<96] = Some p" "k \<le> p" "p < 96"
      "rows ! p AND push_bit k 1 \<noteq> 0"
    using pivot_exists [OF inv(2,3) len k] by (elim find_upt_Some [rotated]) (auto simp: and_exp_eq_0)
  define sw where "sw = swap_rows k p rows"
  define rows' where "rows' = foldl (clear_row k) sw [0..<96]"
  have sw_nth: "sw ! i = rows ! (if i = k then p else if i = p then k else i)" if "i < 96" for i
    using that p k len by (auto simp: sw_def swap_rows_def nth_list_update)
  have sw_len: "length sw = 96" by (simp add: sw_def swap_rows_def len)
  have sw_set: "set sw = set rows"
    unfolding sw_def swap_rows_def using set_swap [of k rows p] len k p by simp
  have rows'_len: "length rows' = 96"
    and rows'_nth: "i < 96 \<Longrightarrow> rows' ! i = (if i \<noteq> k \<and> bit (sw ! i) k then sw ! i XOR sw ! k else sw ! i)" for i
    using clear_row_nth [OF sw_len k, of 96] by (simp_all add: rows'_def)
  have swk: "bit (sw ! k) k" using sw_nth [OF k] p(4) by (simp add: and_exp_eq_0)
  have sw_unit: "bit (sw ! i) j = (i = j)" if "i < 96" "j < k" for i j
    using inv(3) that p k by (auto simp: sw_nth unit_columns_def)
  have "eliminate_bit rows k = Inr rows'"
    unfolding eliminate_bit_def p(1) rows'_def sw_def by simp
  moreover have "rows_sound rows'"
  proof -
    have sound: "par (sw ! i) v = par (drop_bit 96 (sw ! i)) (F v)" if "i < 96" for i v
      using inv(1) that sw_set sw_len by (metis nth_mem rows_sound_def)
    have "par (rows' ! i) v = par (drop_bit 96 (rows' ! i)) (F v)" if "i < 96" for i v
      using sound [OF that, of v] sound [OF k, of v] rows'_nth [OF that]
      by (auto simp: par_xor_left drop_bit_xor)
    then show ?thesis by (auto simp: rows_sound_def rows'_len in_set_conv_nth)
  qed
  moreover have "rows_span rows'"
    unfolding rows_span_def
  proof (intro allI impI)
    fix v assume none: "\<forall>r \<in> set rows'. \<not> par r v"
    then have none': "\<not> par (rows' ! i) v" if "i < 96" for i using that rows'_len by simp
    have "\<not> par (sw ! k) v" using none' [OF k] rows'_nth [OF k] by simp
    then have "\<not> par (sw ! i) v" if "i < 96" for i
      using none' [OF that] rows'_nth [OF that] by (auto simp: par_xor_left split: if_splits)
    then have "\<forall>r \<in> set sw. \<not> par r v" using sw_len by (auto simp: in_set_conv_nth)
    then show "take_bit 96 v = 0" using inv(2) sw_set by (auto simp: rows_span_def)
  qed
  moreover have "unit_columns (Suc k) rows'"
    unfolding unit_columns_def
  proof (intro allI impI)
    fix i j assume ij: "i < (96 :: nat)" "j < Suc k"
    show "bit (rows' ! i) j = (i = j)"
      using ij swk sw_unit [OF ij(1), of j] sw_unit [OF k, of j] rows'_nth [OF ij(1)]
      by (auto simp: bit_xor_iff less_Suc_eq)
  qed
  ultimately show ?thesis by blast
qed

lemma elimination:
  "n \<le> 96 \<Longrightarrow> \<exists>rows. rfold eliminate_bit (augmented_rows columns) [0..<n] = Inr rows \<and>
     rows_sound rows \<and> rows_span rows \<and> unit_columns n rows"
proof (induction n)
  case 0
  then show ?case using initial_rows_sound initial_rows_span by (simp add: unit_columns_def)
next
  case (Suc n)
  then obtain rows where r: "rfold eliminate_bit (augmented_rows columns) [0..<n] = Inr rows"
    "rows_sound rows" "rows_span rows" "unit_columns n rows" by auto
  obtain rows' where "eliminate_bit rows n = Inr rows'" "rows_sound rows'" "rows_span rows'" "unit_columns (Suc n) rows'"
    using eliminate_bit_step [OF r(2,3,4)] Suc.prems by auto
  then show ?case using r(1) by (simp add: rfold_append)
qed


lemma unit_row_par:
  assumes "unit_columns 96 rows" "i < 96"
  shows "par (rows ! i) v = bit v i"
proof -
  have "{j. j < 96 \<and> bit (rows ! i) j \<and> bit v j} = (if bit v i then {i} else {})"
    using assms by (auto simp: unit_columns_def)
  then show ?thesis by (simp add: par_def)
qed

lemma inverse_linear_mix_F: "inverse_linear_mix (unpack_words (F v)) = Inr (unpack_words v)"
proof -
  obtain rows where rows: "rfold eliminate_bit (augmented_rows columns) [0..<96] = Inr rows"
    "rows_sound rows" "unit_columns 96 rows"
    using elimination [of 96] by auto
  have len: "length rows = 96" using rows(2) by (simp add: rows_sound_def)
  define high where "high = map (drop_bit 96) rows"
  have high_len: "length high = 96" by (simp add: high_def len)
  have packed: "pack_words (unpack_words (F v)) = F v"
  proof -
    obtain bs where bs: "length bs = 12" "take_bit 96 (F v) = vec bs" by (rule vec_of_int)
    have "take_bit 96 (F v) = F v" by (rule bit_eqI) (auto simp: bit_take_bit_iff dest: bit_F)
    then show ?thesis using bs by (metis unpack_vec pack_be_vec)
  qed
  have bits: "odd (bit_count (high ! i AND F v)) = bit v i" if "i < 96" for i
    unfolding bit_count_par using rows(2) that len unit_row_par [OF rows(3) that]
    by (simp add: high_def rows_sound_def)
  have "sum_list (map (\<lambda>(k, row). push_bit k (int (bit_count (row AND F v)) AND 1)) (zip [0..<length high] high))
      = from_bits 96 (bit v)"
  proof -
    have "map (\<lambda>i. push_bit i (int (bit_count (high ! i AND F v)) AND 1)) [0..<length high]
        = map (\<lambda>i. push_bit i (of_bool (bit v i))) [0..<96]"
      unfolding high_len by (intro map_cong) (auto simp: bits [symmetric] and_one_eq mod_2_eq_odd)
    then show ?thesis unfolding map_enumerate from_bits_def by (rule arg_cong)
  qed
  moreover have "unpack_words (from_bits 96 (bit v)) = unpack_words v"
  proof -
    have "from_bits 96 (bit v) = take_bit 96 v" by (rule bit_eqI) (auto simp: bit_take_bit_iff)
    then show ?thesis by (simp add: unpack_take_bit)
  qed
  ultimately show ?thesis
    unfolding inverse_linear_mix_def Let_def packed inverse_mix_rows_def mix_columns_eq
    by (simp add: rows(1) high_def)
qed

lemma unpack_valid6: "valid6 (unpack_words v)"
proof -
  obtain bs where "length bs = 12" "take_bit 96 v = vec bs" by (rule vec_of_int)
  then show ?thesis by (metis unpack_take_bit unpack_vec valid6_be_words)
qed

lemma linear_layer:
  assumes "valid6 words"
  shows "\<exists>w. linear_mix words = Inr w \<and> valid6 w \<and> inverse_linear_mix w = Inr words"
proof -
  obtain bs where bs: "length bs = 12" "words = be_words bs" using assms by (rule valid6_obtain)
  then have "words = unpack_words (vec bs)" by (simp add: unpack_vec)
  then show ?thesis using linear_mix_F [of "vec bs"] inverse_linear_mix_F [of "vec bs"] 
    valid6_be_words [OF bs(1)] unpack_valid6 by (metis bs(2))
qed

lemma inverse_linear_layer:
  assumes "valid6 words"
  shows "\<exists>w. inverse_linear_mix words = Inr w \<and> valid6 w \<and> linear_mix w = Inr words"
proof -
  obtain bs where bs: "length bs = 12" "words = be_words bs" using assms by (rule valid6_obtain)
  let ?w = "be_words (unmix_bytes bs)"
  have "valid6 ?w" by (intro valid6_be_words) simp
  moreover have "linear_mix ?w = Inr words" by (simp add: linear_mix_bytes bs mix_unmix_bytes)
  ultimately show ?thesis using linear_layer [of ?w] by auto
qed

section \<open>Iterated invertible layers\<close>

text \<open>The contract between a keyed cipher and its rounds: on valid states each round returns, keeps
  validity, and is undone by its inverse round.  The client lemmas run a whole key schedule.\<close>

locale invertible_rounds =
  fixes valid :: "'s \<Rightarrow> bool"
    and key_ok :: "'k \<Rightarrow> bool"
    and forward :: "'k \<Rightarrow> 's \<Rightarrow> 's res"
    and backward :: "'k \<Rightarrow> 's \<Rightarrow> 's res"
  assumes forward_backward:
      "key_ok k \<Longrightarrow> valid s \<Longrightarrow> \<exists>t. forward k s = Inr t \<and> valid t \<and> backward k t = Inr s"
    and backward_forward:
      "key_ok k \<Longrightarrow> valid s \<Longrightarrow> \<exists>t. backward k s = Inr t \<and> valid t \<and> forward k t = Inr s"
begin

lemma run_backward:
  "\<forall>k \<in> set ks. key_ok k \<Longrightarrow> valid s \<Longrightarrow>
   \<exists>t. rfold (\<lambda>s k. forward k s) s ks = Inr t \<and> valid t \<and> rfold (\<lambda>s k. backward k s) t (rev ks) = Inr s"
proof (induction ks arbitrary: s)
  case (Cons k ks)
  then obtain u where u: "forward k s = Inr u" "valid u" "backward k u = Inr s"
    using forward_backward [of k s] by auto
  then obtain t where "rfold (\<lambda>s k. forward k s) u ks = Inr t" "valid t"
    "rfold (\<lambda>s k. backward k s) t (rev ks) = Inr u"
    using Cons.IH [of u] Cons.prems by auto
  then show ?case using u by (simp add: rfold_append)
qed simp

lemma run_forward:
  "\<forall>k \<in> set ks. key_ok k \<Longrightarrow> valid s \<Longrightarrow>
   \<exists>t. rfold (\<lambda>s k. backward k s) s (rev ks) = Inr t \<and> valid t \<and> rfold (\<lambda>s k. forward k s) t ks = Inr s"
proof (induction ks arbitrary: s rule: rev_induct)
  case (snoc k ks)
  then obtain u where u: "backward k s = Inr u" "valid u" "forward k u = Inr s"
    using backward_forward [of k s] by auto
  then obtain t where "rfold (\<lambda>s k. backward k s) u (rev ks) = Inr t" "valid t"
    "rfold (\<lambda>s k. forward k s) t ks = Inr u"
    using snoc.IH [of u] snoc.prems by auto
  then show ?case using u by (simp add: rfold_append)
qed simp

end

text \<open>A round key of the transform: the table, the schedule and the round number.\<close>

type_synonym round_key = "int list \<times> int list \<times> nat"

definition round_key_ok :: "round_key \<Rightarrow> bool" where
  "round_key_ok = (\<lambda>(table, schedule, index).
     valid6 table \<and> length schedule = 12 \<and> (\<forall>w \<in> set schedule. u16 w) \<and> index < 12)"

definition forward_round :: "round_key \<Rightarrow> int list \<Rightarrow> int list res" where
  "forward_round = (\<lambda>(table, schedule, index) words. transform_round table words (index, schedule ! index))"

definition backward_round :: "round_key \<Rightarrow> int list \<Rightarrow> int list res" where
  "backward_round = (\<lambda>(table, schedule, index) words. inverse_round table schedule words index)"


lemma u16_xor: "u16 a \<Longrightarrow> u16 b \<Longrightarrow> u16 (a XOR b)" for a b :: int
  by (metis take_bit_xor u16_take_bit)

lemma valid6_Cons:
  assumes "valid6 words"
  obtains a b c d e f where "words = [a, b, c, d, e, f]" "u16 a" "u16 b" "u16 c" "u16 d" "u16 e" "u16 f"
  using assms by (auto simp: valid6_def length_Suc_conv numeral_eq_Suc)

definition strip_round_key :: "int list \<Rightarrow> int list \<Rightarrow> int \<Rightarrow> int list" where
  "strip_round_key words table round_word =
     (let mixed = words[1 := words ! 1 XOR round_word];
          mixed = mixed[4 := mixed ! 4 XOR round_word]
      in map (\<lambda>(word, key). word XOR key) (zip mixed table))"

lemma key_layer:
  assumes "valid6 words" "valid6 table" "u16 r"
  shows "valid6 (add_round_key words table r)" "valid6 (strip_round_key words table r)"
    and "strip_round_key (add_round_key words table r) table r = words"
    and "add_round_key (strip_round_key words table r) table r = words"
  using assms
  by (elim valid6_Cons; simp add: valid6_def add_round_key_def strip_round_key_def Let_def u16_xor xor_cancel)+

lemma round_forward:
  assumes "round_key_ok k" "valid6 s"
  shows "\<exists>t. forward_round k s = Inr t \<and> valid6 t \<and> backward_round k t = Inr s"
proof -
  obtain table schedule index where k: "k = (table, schedule, index)" by (metis surj_pair)
  have ok: "valid6 table" "u16 (schedule ! index)" "index < 12"
    using assms(1) by (auto simp: round_key_ok_def k)
  obtain m where m: "linear_mix (add_round_key s table (schedule ! index)) = Inr m" "valid6 m"
    "inverse_linear_mix m = Inr (add_round_key s table (schedule ! index))"
    using linear_layer [OF key_layer(1) [OF assms(2) ok(1,2)]] by blast
  show ?thesis
  proof (cases "index < 11")
    case True
    obtain n where n: "nonlinear_words (rotate_ends 10 31 m) = Inr n" "valid6 n"
      "inverse_nonlinear_words n = Inr (rotate_ends 10 31 m)"
      using nonlinear_layer [OF rotate_layers(1) [OF m(2)]] by blast
    show ?thesis
      using True m n rotate_layers(2) [OF m(2)] rotate_layers(3,4) [OF n(2)] key_layer(3) [OF assms(2) ok(1,2)]
      by (simp add: k forward_round_def backward_round_def transform_round_def inverse_round_def
          strip_round_key_def)
  next
    case False
    then show ?thesis using m key_layer(3) [OF assms(2) ok(1,2)]
      by (simp add: k forward_round_def backward_round_def transform_round_def inverse_round_def
          strip_round_key_def)
  qed
qed

lemma round_backward:
  assumes "round_key_ok k" "valid6 s"
  shows "\<exists>t. backward_round k s = Inr t \<and> valid6 t \<and> forward_round k t = Inr s"
proof -
  obtain table schedule index where k: "k = (table, schedule, index)" by (metis surj_pair)
  have ok: "valid6 table" "u16 (schedule ! index)" "index < 12"
    using assms(1) by (auto simp: round_key_ok_def k)
  show ?thesis
  proof (cases "index < 11")
    case True
    obtain n where n: "inverse_nonlinear_words (rotate_ends 1 22 s) = Inr n" "valid6 n"
      "nonlinear_words n = Inr (rotate_ends 1 22 s)"
      using inverse_nonlinear_layer [OF rotate_layers(5) [OF assms(2)]] by blast
    obtain m where m: "inverse_linear_mix (rotate_ends 22 1 n) = Inr m" "valid6 m"
      "linear_mix m = Inr (rotate_ends 22 1 n)"
      using inverse_linear_layer [OF rotate_layers(7) [OF n(2)]] by blast
    show ?thesis
      using True m n rotate_layers(6) [OF assms(2)] rotate_layers(8) [OF n(2)] key_layer(2,4) [OF m(2) ok(1,2)]
      by (simp add: k forward_round_def backward_round_def transform_round_def inverse_round_def
          strip_round_key_def)
  next
    case False
    obtain m where m: "inverse_linear_mix s = Inr m" "valid6 m" "linear_mix m = Inr s"
      using inverse_linear_layer [OF assms(2)] by blast
    then show ?thesis using False key_layer(2,4) [OF m(2) ok(1,2)]
      by (simp add: k forward_round_def backward_round_def transform_round_def inverse_round_def
          strip_round_key_def)
  qed
qed

interpretation rom4: invertible_rounds valid6 round_key_ok forward_round backward_round
  by unfold_locales (simp_all add: round_forward round_backward)

section \<open>The complete transform\<close>

definition schedule_keys :: "int list \<Rightarrow> int list \<Rightarrow> round_key list" where
  "schedule_keys table schedule = map (\<lambda>index. (table, schedule, index)) [0..<12]"

lemma upt_12_zip: "length schedule = 12 \<Longrightarrow> zip [0..<12] schedule = map (\<lambda>i. (i, schedule ! i)) [0..<12]"
  by (rule nth_equalityI) auto

lemma rfold_map: "rfold f s (map g xs) = rfold (\<lambda>s x. f s (g x)) s xs"
  by (induction xs arbitrary: s) (simp_all add: rbind_def split: sum.splits)

lemma transform_rounds:
  "length schedule = 12 \<Longrightarrow> rfold (transform_round table) words (zip [0..<12] schedule)
     = rfold (\<lambda>s k. forward_round k s) words (schedule_keys table schedule)"
  by (simp add: upt_12_zip schedule_keys_def rfold_map forward_round_def)

lemma inverse_rounds:
  "rfold (inverse_round table schedule) words (rev [0..<12])
     = rfold (\<lambda>s k. backward_round k s) words (rev (schedule_keys table schedule))"
  by (simp add: schedule_keys_def rfold_map backward_round_def rev_map)

lemma schedule_keys_ok:
  "valid6 table \<Longrightarrow> length schedule = 12 \<Longrightarrow> \<forall>w \<in> set schedule. u16 w \<Longrightarrow>
   \<forall>k \<in> set (schedule_keys table schedule). round_key_ok k"
  by (auto simp: schedule_keys_def round_key_ok_def)

lemma reverse_bits_from_bits: "reverse_bits 16 w = from_bits 16 (\<lambda>k. bit w (15 - k))"
  unfolding reverse_bits_def from_bits_def
  by (rule arg_cong [where f = sum_list]) (auto simp: push_bit_eq_mult)

lemma reverse_words_involution:
  assumes "valid6 words"
  shows "valid6 (reverse_words words)" "reverse_words (reverse_words words) = words"
proof -
  show 1: "valid6 (reverse_words words)"
    using assms from_bits_u16 by (auto simp: valid6_def reverse_words_def reverse_bits_from_bits)
  have "reverse_bits 16 (reverse_bits 16 w) = w" if "u16 w" for w
  proof (rule bit_eqI)
    fix n show "bit (reverse_bits 16 (reverse_bits 16 w)) n = bit w n"
      by (cases "n < 16") (use u16_bit [OF that] in \<open>auto simp: reverse_bits_from_bits\<close>)
  qed
  then show "reverse_words (reverse_words words) = words"
    using assms by (auto simp: valid6_def reverse_words_def rev_map intro!: map_idI)
qed

lemma range_check:
  "valid6 words \<Longrightarrow> valid6 table \<Longrightarrow> length schedule = 12 \<Longrightarrow> \<forall>w \<in> set schedule. u16 w \<Longrightarrow>
   inverse_transform_words words table schedule =
     rfold (inverse_round table schedule) (reverse_words words) (rev [0..<12])"
  unfolding inverse_transform_words_def valid6_def by (simp add: ball_Un)

lemma transform_inverse:
  assumes "valid6 words" "valid6 table" "length schedule = 12" "\<forall>w \<in> set schedule. u16 w"
  shows "\<exists>code. transform_words words table schedule = Inr code \<and> valid6 code \<and>
           inverse_transform_words code table schedule = Inr words"
proof -
  obtain t where t: "rfold (\<lambda>s k. forward_round k s) words (schedule_keys table schedule) = Inr t" "valid6 t"
      "rfold (\<lambda>s k. backward_round k s) t (rev (schedule_keys table schedule)) = Inr words"
    using rom4.run_backward [OF schedule_keys_ok [OF assms(2-4)] assms(1)] by blast
  have "transform_words words table schedule = Inr (reverse_words t)"
    using assms t(1) by (simp add: transform_words_def valid6_def transform_rounds)
  moreover have "inverse_transform_words (reverse_words t) table schedule = Inr words"
    using reverse_words_involution [OF t(2)] t(3) assms(2-4) by (simp add: range_check inverse_rounds)
  ultimately show ?thesis using reverse_words_involution(1) [OF t(2)] by blast
qed

lemma inverse_transform:
  assumes "valid6 code" "valid6 table" "length schedule = 12" "\<forall>w \<in> set schedule. u16 w"
  shows "\<exists>words. inverse_transform_words code table schedule = Inr words \<and> valid6 words \<and>
           transform_words words table schedule = Inr code"
proof -
  note rev = reverse_words_involution [OF assms(1)]
  obtain t where t: "rfold (\<lambda>s k. backward_round k s) (reverse_words code) (rev (schedule_keys table schedule)) = Inr t"
      "valid6 t" "rfold (\<lambda>s k. forward_round k s) t (schedule_keys table schedule) = Inr (reverse_words code)"
    using rom4.run_forward [OF schedule_keys_ok [OF assms(2-4)] rev(1)] by blast
  have "transform_words t table schedule = Inr code"
    using assms t(2,3) rev by (simp add: transform_words_def valid6_def transform_rounds)
  moreover have "inverse_transform_words code table schedule = Inr t"
    using t(1) assms by (simp add: range_check inverse_rounds)
  ultimately show ?thesis using t(2) by blast
qed

end
