(* ===== verification/Interfaces.thy ===== *)
theory Interfaces
  imports Byte_Vectors
begin

text \<open>
  The contracts that several components share, as locales: an encoder with its decoder, a pair of
  mutually inverse codecs, an involutive pad, and a handler whose steps keep an invariant.  Each is
  interpreted on the model's own definitions in the theory that provides them.
\<close>

section \<open>Encoder and decoder\<close>

text \<open>\<open>decode\<close> restores what \<open>encode\<close> wrote, for every value the encoder accepts.\<close>

locale record_codec =
  fixes plain_ok :: "'a \<Rightarrow> bool" and code_ok :: "'b \<Rightarrow> bool"
    and encode :: "'a \<Rightarrow> 'b res" and decode :: "'b \<Rightarrow> 'a res"
  assumes encode_decode: "plain_ok x \<Longrightarrow> \<exists>y. encode x = Inr y \<and> code_ok y \<and> decode y = Inr x"
begin

lemma encode_returns: "plain_ok x \<Longrightarrow> returns (encode x)"
  using encode_decode by blast

lemma encode_then_decode: "plain_ok x \<Longrightarrow> rbind (encode x) decode = Inr x"
  using encode_decode by fastforce

lemma encode_injective:
  assumes "plain_ok x" "plain_ok y" "encode x = encode y"
  shows "x = y"
proof -
  obtain u v where "encode x = Inr u" "decode u = Inr x" "encode y = Inr v" "decode v = Inr y"
    using assms(1,2) encode_decode by blast
  with assms(3) show ?thesis by simp
qed

lemma decode_of_encoding: "plain_ok x \<Longrightarrow> encode x = Inr y \<Longrightarrow> code_ok y \<and> decode y = Inr x"
  using encode_decode by fastforce

end

locale record_bijection = record_codec +
  assumes decode_encode: "code_ok y \<Longrightarrow> \<exists>x. decode y = Inr x \<and> plain_ok x \<and> encode x = Inr y"
begin

lemma decode_returns: "code_ok y \<Longrightarrow> returns (decode y)"
  using decode_encode by blast

lemma decode_then_encode: "code_ok y \<Longrightarrow> rbind (decode y) encode = Inr y"
  using decode_encode by fastforce

lemma decode_injective:
  assumes "code_ok x" "code_ok y" "decode x = decode y"
  shows "x = y"
proof -
  obtain u v where "decode x = Inr u" "encode u = Inr x" "decode y = Inr v" "encode v = Inr y"
    using assms(1,2) decode_encode by blast
  with assms(3) show ?thesis by simp
qed

lemma encode_iff_decode: "plain_ok x \<Longrightarrow> code_ok y \<Longrightarrow> encode x = Inr y \<longleftrightarrow> decode y = Inr x"
  using encode_decode decode_encode by fastforce

end

section \<open>Handlers that keep an invariant\<close>

text \<open>\<open>handle s e\<close> answers one event with the outputs and the next state.\<close>

fun run_events :: "('s \<Rightarrow> 'e \<Rightarrow> ('s \<times> 'o list) res) \<Rightarrow> 's \<Rightarrow> 'e list \<Rightarrow> ('s \<times> 'o list) res" where
  "run_events handle s [] = Inr (s, [])"
| "run_events handle s (e # es) = rbind (handle s e) (\<lambda>(s1, out).
     rbind (run_events handle s1 es) (\<lambda>(s2, outs). Inr (s2, out @ outs)))"

lemma run_events_append:
  "run_events handle s (xs @ ys) =
     rbind (run_events handle s xs) (\<lambda>(s1, o1). rbind (run_events handle s1 ys) (\<lambda>(s2, o2). Inr (s2, o1 @ o2)))"
  by (induction xs arbitrary: s) (auto simp: rbind_def split: sum.splits prod.splits)

locale handler =
  fixes inv :: "'s \<Rightarrow> bool" and handle :: "'s \<Rightarrow> 'e \<Rightarrow> ('s \<times> 'o list) res"
  assumes handle_inv: "inv s \<Longrightarrow> handle s e = Inr (s', out) \<Longrightarrow> inv s'"
begin

lemma run_inv: "inv s \<Longrightarrow> run_events handle s es = Inr (s', out) \<Longrightarrow> inv s'"
proof (induction es arbitrary: s out)
  case (Cons e es)
  then obtain s1 o1 where h: "handle s e = Inr (s1, o1)"
    by (auto simp: rbind_eq_Inr)
  with Cons.prems obtain o2 where "run_events handle s1 es = Inr (s', o2)"
    by (auto simp: rbind_eq_Inr)
  then show ?case using Cons.IH handle_inv [OF Cons.prems(1) h] by blast
qed simp

end

section \<open>Involutive pads\<close>

text \<open>Exclusive-or with a pad of the record's length: applying it twice gives the record back.\<close>

definition xor_bytes :: "bytes \<Rightarrow> bytes \<Rightarrow> bytes" where
  "xor_bytes xs ys = map (\<lambda>(x, y). x XOR y) (zip xs ys)"

lemma length_xor_bytes [simp, byte_simps]: "length (xor_bytes xs ys) = min (length xs) (length ys)"
  by (simp add: xor_bytes_def)

lemma nth_xor_bytes: "i < length xs \<Longrightarrow> i < length ys \<Longrightarrow> xor_bytes xs ys ! i = xs ! i XOR ys ! i"
  by (simp add: xor_bytes_def)

lemma xor_bytes_involution: "length xs \<le> length pad \<Longrightarrow> xor_bytes (xor_bytes xs pad) pad = xs"
  by (rule nth_equalityI) (simp_all add: nth_xor_bytes xor.assoc)

lemma xor_bytes_take: "xor_bytes xs ys = xor_bytes xs (take (length xs) ys)"
  by (rule nth_equalityI) (simp_all add: nth_xor_bytes)

end
