(* ===== verification/Rom4_Records.thy ===== *)
theory Rom4_Records
  imports Rom4_Inverse Interfaces
begin

text \<open>
  The record codecs over the ROM4 transform: the MSID codec (\<open>tools/dct3_msid_codec.py\<close>), the lock
  record codec and the retained pad (\<open>tools/dct3_rom4_record_codec.py\<close>), and the packet preparation
  of the MCU (\<open>tools/nse5_pmm_stage.py\<close>).
\<close>

section \<open>The MSID codec\<close>

definition decoder_tables :: "int \<rightharpoonup> bytes" where
  "decoder_tables = [
     0x82 \<mapsto> [0x9f, 0x7a, 0xad, 0x34, 0xe7, 0x79, 0x27, 0x73, 0x4e, 0x41, 0x0d, 0x26],
     0x83 \<mapsto> [0x50, 0xf3, 0x65, 0x25, 0xd2, 0xb1, 0xc1, 0xb6, 0x09, 0xae, 0xff, 0x4c]]"

definition decode_schedule :: "int list" where
  "decode_schedule = map (\<lambda>value. uint value * 0x101)
     ([0xd0, 0x16, 0x2c, 0x58, 0xb0, 0x71, 0xe2, 0xd5, 0x5a, 0x67, 0xce, 0x8d] :: bytes)"

definition msid_table :: "int \<Rightarrow> int list res" where
  "msid_table family =
     (case decoder_tables family of
        None \<Rightarrow> Inl (ValueError ''unsupported MSID family; no automatic handset selection'')
      | Some table \<Rightarrow> unpack_be16 6 table)"

definition decode_msid :: "bytes \<Rightarrow> bytes res" where
  "decode_msid msid =
     (if length msid \<noteq> 13
      then Inl (ValueError ''MSID must contain one family byte and twelve codec bytes'')
      else rbind (unpack_be16 6 (drop 1 msid)) (\<lambda>data.
           rbind (msid_table (uint (msid ! 0))) (\<lambda>table.
           rbind (transform_words data table decode_schedule) pack_be16)))"

text \<open>\<open>bytes([family])\<close> raises outside \<open>0..255\<close>; a family of the table never does.\<close>

definition encode_msid :: "bytes \<Rightarrow> int \<Rightarrow> bytes res" where
  "encode_msid plain family =
     (if length plain \<noteq> 12
      then Inl (ValueError ''MSID plaintext must contain exactly twelve bytes'')
      else rbind (unpack_be16 6 plain) (\<lambda>data.
           rbind (msid_table family) (\<lambda>table.
           rbind (inverse_transform_words data table decode_schedule) (\<lambda>words.
           rbind (if 0 \<le> family \<and> family < 256 then Inr [word_of_int family]
                  else Inl (ValueError ''bytes must be in range(0, 256)'')) (\<lambda>head.
           rbind (pack_be16 words) (\<lambda>body. Inr (head @ body)))))))"

section \<open>The lock record codec\<close>

definition lock_table_82 :: bytes where
  "lock_table_82 = [0xd1, 0xa2, 0x5f, 0xeb, 0x4f, 0xf0, 0x2d, 0x7b, 0x0f, 0x4c, 0xe1, 0xc3]"

definition encode_schedule :: "int list" where
  "encode_schedule = map (\<lambda>value. uint value * 0x101)
     ([0xb1, 0x73, 0xe6, 0x5a, 0xab, 0x47, 0x8e, 0x0d, 0x1a, 0x34, 0x68, 0x0b] :: bytes)"

definition chip_table :: "bytes \<Rightarrow> bytes \<Rightarrow> bytes" where
  "chip_table base chip =
     map (\<lambda>(index, v). v XOR (if index < 4 then chip ! index else 0)) (zip [0..<length base] base)"

definition decode_record :: "bytes \<Rightarrow> bytes \<Rightarrow> bytes res" where
  "decode_record encoded chip =
     (if length encoded \<noteq> 12 \<or> length chip \<noteq> 4
      then Inl (ValueError ''record/chip must contain twelve/four bytes'')
      else rbind (unpack_be16 6 encoded) (\<lambda>data.
           rbind (unpack_be16 6 (chip_table lock_table_82 chip)) (\<lambda>table.
           rbind (inverse_transform_words data table encode_schedule) pack_be16)))"

definition encode_record :: "bytes \<Rightarrow> bytes \<Rightarrow> bytes res" where
  "encode_record plain chip =
     (if length plain \<noteq> 12 \<or> length chip \<noteq> 4
      then Inl (ValueError ''record/chip must contain twelve/four bytes'')
      else rbind (unpack_be16 6 plain) (\<lambda>data.
           rbind (unpack_be16 6 (chip_table lock_table_82 chip)) (\<lambda>table.
           rbind (transform_words data table encode_schedule) pack_be16)))"

section \<open>The retained pad\<close>

text \<open>\<open>work[index:index + 2] = (work[index] * work[index + 1]).to_bytes(2, 'little')\<close> for
  every even index.\<close>

definition square_pairs :: "bytes \<Rightarrow> bytes res" where
  "square_pairs work =
     rfold (\<lambda>work index. rbind (to_le 2 (uint (work ! index) * uint (work ! (index + 1)))) (\<lambda>product.
       Inr (slice_set index (index + 2) product work))) work (map (\<lambda>k. 2 * k) [0..<length work div 2])"

definition reversed_complement :: "byte \<Rightarrow> byte" where
  "reversed_complement v =
     word_of_int (foldl (\<lambda>acc k. push_bit 1 acc OR (1 XOR (drop_bit k (uint v) AND 1))) 0 [0..<8])"

definition retained_record_transform :: "bytes \<Rightarrow> bytes \<Rightarrow> bytes res" where
  "retained_record_transform record identity_record =
     (if length record \<noteq> 24 \<or> length identity_record \<noteq> 12
      then Inl (ValueError ''request/identity record must contain twenty-four/twelve bytes'')
      else rbind (square_pairs (identity_record @ identity_record)) (\<lambda>work.
           Inr (xor_bytes record (map reversed_complement (rev work)))))"

section \<open>Packet preparation of the MCU\<close>

text \<open>\<open>int(f"{byte:08b}"[::-1], 2) ^ 0xff\<close>.\<close>

definition complement_reversed :: "byte \<Rightarrow> byte" where
  "complement_reversed b = word_of_int (reverse_bits 8 (uint b) XOR 0xff)"

definition stage_block :: "bytes \<Rightarrow> bytes \<Rightarrow> bytes res" where
  "stage_block storage block =
     (if length storage \<noteq> 12 \<or> length block \<noteq> 24
      then Inl (ValueError ''packet preparation requires 12 storage bytes and 24 block bytes'')
      else rbind (rmap_list (\<lambda>k. to_le 2 (uint (storage ! (2 * k)) * uint (storage ! (2 * k + 1)))) [0..<6])
        (\<lambda>parts. let products = concat parts @ concat parts
                 in Inr (xor_bytes block (map complement_reversed (rev products)))))"

record pmm_stage =
  pmm_storage :: bytes
  pmm_block :: bytes
  pmm_staged :: bytes
  request_14 :: bytes
  request_15 :: bytes
  request_16 :: bytes

text \<open>The values of the returned dictionary before \<open>.hex()\<close>.\<close>

definition inspect_pmm :: "bytes \<Rightarrow> pmm_stage res" where
  "inspect_pmm img =
     (if length img < 0x5e \<or> slice 6 12 img \<noteq> [0x45, 0x45, 0x50, 0x52, 0x4f, 0x4d]
      then Inl (ValueError ''expected acquired NSE-5 EEPROM flash record header'')
      else let storage = slice 0x26 0x32 img; block = slice 0x46 0x5e img in
        rbind (stage_block storage block) (\<lambda>staged.
        rbind (stage_block storage block) (\<lambda>request.
          Inr \<lparr> pmm_storage = storage, pmm_block = block, pmm_staged = staged,
                request_14 = slice 0x3a 0x46 img,
                request_15 = slice 0x26 0x32 img @ slice 0x32 0x3a img,
                request_16 = request \<rparr>)))"

section \<open>The codecs invert each other\<close>

lemma schedules_u16:
  "length decode_schedule = 12" "\<forall>w \<in> set decode_schedule. u16 w"
  "length encode_schedule = 12" "\<forall>w \<in> set encode_schedule. u16 w"
  by (simp_all add: decode_schedule_def encode_schedule_def)

lemma unpack_12: "length bs = 12 \<Longrightarrow> unpack_be16 6 bs = Inr (be_words bs)"
  by (simp add: unpack_be16_def)

lemma valid6_pack: "valid6 ws \<Longrightarrow> \<exists>bs. length bs = 12 \<and> be_words bs = ws \<and> pack_be16 ws = Inr bs"
proof -
  assume v: "valid6 ws"
  then obtain bs where "length bs = 2 * length ws" "be_words bs = ws"
    using words_as_bytes [of ws] by (auto simp: valid6_def)
  then show ?thesis using v pack_be_words [of bs] by (auto simp: valid6_def)
qed

lemma msid_table_families:
  "family = 0x82 \<or> family = 0x83 \<Longrightarrow> \<exists>table. msid_table family = Inr table \<and> valid6 table"
  by (auto simp: msid_table_def decoder_tables_def unpack_be16_def valid6_def be_words.simps)

lemma length_chip_table [simp]: "length (chip_table base chip) = length base"
  by (simp add: chip_table_def)

lemma length_lock_table [simp]: "length lock_table_82 = 12"
  by (simp add: lock_table_82_def)

text \<open>A code word is a family byte and twelve bytes.\<close>

definition msid_ok :: "int \<Rightarrow> bytes \<Rightarrow> bool" where
  "msid_ok family msid \<longleftrightarrow> length msid = 13 \<and> msid ! 0 = word_of_int family"

lemma msid_code_forward:
  assumes "family = 0x82 \<or> family = 0x83" "length plain = 12"
  shows "\<exists>msid. encode_msid plain family = Inr msid \<and> msid_ok family msid \<and> decode_msid msid = Inr plain"
proof -
  obtain table where t: "msid_table family = Inr table" "valid6 table"
    using msid_table_families [OF assms(1)] by blast
  obtain ws where ws: "inverse_transform_words (be_words plain) table decode_schedule = Inr ws" "valid6 ws"
      "transform_words ws table decode_schedule = Inr (be_words plain)"
    using inverse_transform [OF valid6_be_words [OF assms(2)] t(2) schedules_u16(1,2)] by blast
  obtain body where b: "length body = 12" "be_words body = ws" "pack_be16 ws = Inr body"
    using valid6_pack [OF ws(2)] by blast
  have "encode_msid plain family = Inr (word_of_int family # body)"
    using assms t ws b by (auto simp: encode_msid_def unpack_12)
  moreover have "decode_msid (word_of_int family # body) = Inr plain"
    using assms t ws b by (auto simp: decode_msid_def unpack_12 pack_be_words)
  ultimately show ?thesis using b by (simp add: msid_ok_def)
qed

lemma msid_code_backward:
  assumes "family = 0x82 \<or> family = 0x83" "msid_ok family msid"
  shows "\<exists>plain. decode_msid msid = Inr plain \<and> length plain = 12 \<and> encode_msid plain family = Inr msid"
proof -
  obtain table where t: "msid_table family = Inr table" "valid6 table"
    using msid_table_families [OF assms(1)] by blast
  obtain body where m: "msid = word_of_int family # body" "length body = 12"
    using assms(2) by (cases msid) (auto simp: msid_ok_def)
  obtain ws where ws: "transform_words (be_words body) table decode_schedule = Inr ws" "valid6 ws"
      "inverse_transform_words ws table decode_schedule = Inr (be_words body)"
    using transform_inverse [OF valid6_be_words [OF m(2)] t(2) schedules_u16(1,2)] by blast
  obtain plain where p: "length plain = 12" "be_words plain = ws" "pack_be16 ws = Inr plain"
    using valid6_pack [OF ws(2)] by blast
  have "decode_msid msid = Inr plain"
    using assms(1) m t ws p by (auto simp: decode_msid_def unpack_12)
  moreover have "encode_msid plain family = Inr msid"
    using assms(1) m t ws p by (auto simp: encode_msid_def unpack_12 pack_be_words)
  ultimately show ?thesis using p by blast
qed

interpretation msid82: record_bijection "\<lambda>plain. length plain = 12" "msid_ok 0x82" "\<lambda>plain. encode_msid plain 0x82" decode_msid
  by unfold_locales (simp_all add: msid_code_forward msid_code_backward)

interpretation msid83: record_bijection "\<lambda>plain. length plain = 12" "msid_ok 0x83" "\<lambda>plain. encode_msid plain 0x83" decode_msid
  by unfold_locales (simp_all add: msid_code_forward msid_code_backward)

lemma record_code_forward:
  assumes "length chip = 4" "length plain = 12"
  shows "\<exists>code. encode_record plain chip = Inr code \<and> length code = 12 \<and> decode_record code chip = Inr plain"
proof -
  let ?table = "be_words (chip_table lock_table_82 chip)"
  have t: "valid6 ?table" by (simp add: valid6_be_words)
  obtain ws where ws: "transform_words (be_words plain) ?table encode_schedule = Inr ws" "valid6 ws"
      "inverse_transform_words ws ?table encode_schedule = Inr (be_words plain)"
    using transform_inverse [OF valid6_be_words [OF assms(2)] t schedules_u16(3,4)] by blast
  obtain code where c: "length code = 12" "be_words code = ws" "pack_be16 ws = Inr code"
    using valid6_pack [OF ws(2)] by blast
  show ?thesis
    using assms ws c by (auto simp: encode_record_def decode_record_def unpack_12 pack_be_words)
qed

lemma record_code_backward:
  assumes "length chip = 4" "length code = 12"
  shows "\<exists>plain. decode_record code chip = Inr plain \<and> length plain = 12 \<and> encode_record plain chip = Inr code"
proof -
  let ?table = "be_words (chip_table lock_table_82 chip)"
  have t: "valid6 ?table" by (simp add: valid6_be_words)
  obtain ws where ws: "inverse_transform_words (be_words code) ?table encode_schedule = Inr ws" "valid6 ws"
      "transform_words ws ?table encode_schedule = Inr (be_words code)"
    using inverse_transform [OF valid6_be_words [OF assms(2)] t schedules_u16(3,4)] by blast
  obtain plain where p: "length plain = 12" "be_words plain = ws" "pack_be16 ws = Inr plain"
    using valid6_pack [OF ws(2)] by blast
  show ?thesis
    using assms ws p by (auto simp: encode_record_def decode_record_def unpack_12 pack_be_words)
qed

text \<open>The chip field of the record codec is a parameter; the interpretation takes the four bytes
  that the profile tools derive, and the lemmas above hold for every chip.\<close>

interpretation lock: record_bijection "\<lambda>plain. length plain = 12" "\<lambda>code. length code = 12"
    "\<lambda>plain. encode_record plain (map word_of_int [c0, c1, c2, c3])"
    "\<lambda>code. decode_record code (map word_of_int [c0, c1, c2, c3])" for c0 c1 c2 c3
  by unfold_locales (simp_all add: record_code_forward record_code_backward)

section \<open>One pad in three routines\<close>

lemma fold_bits: "bit (foldl (\<lambda>acc k. push_bit 1 acc OR of_bool (P k)) (0 :: int) [0..<m]) n \<longleftrightarrow> n < m \<and> P (m - 1 - n)"
proof (induction m arbitrary: n)
  case (Suc m)
  let ?f = "foldl (\<lambda>acc k. push_bit 1 acc OR of_bool (P k)) (0 :: int)"
  have "bit (?f [0..<Suc m]) n \<longleftrightarrow> (if n = 0 then P m else bit (?f [0..<m]) (n - 1))"
    by (auto simp: bit_or_iff bit_push_bit_iff bit_of_bool_iff simp del: One_nat_def push_bit_Suc)
  then show ?case using Suc.IH [of "n - 1"] by (cases n) auto
qed simp

lemma xor_of_bool: "1 XOR of_bool p = (of_bool (\<not> p) :: int)"
  by (cases p) simp_all

lemma bit_uint_byte: "bit (uint (b :: byte)) n = bit b n"
  using bit_byte_lt [of b n] by (auto simp: bit_uint_iff)

lemma bit_reversed_complement: "bit (reversed_complement b) n \<longleftrightarrow> n < 8 \<and> \<not> bit b (7 - n)"
proof -
  have "reversed_complement b = word_of_int (foldl (\<lambda>acc k. push_bit 1 acc OR of_bool (\<not> bit b k)) 0 [0..<8])"
    unfolding reversed_complement_def drop_bit_and_1 xor_of_bool bit_uint_byte ..
  then show ?thesis by (simp only: bit_word_of_int_iff fold_bits) simp
qed

lemma reverse_bits_8: "reverse_bits 8 v = from_bits 8 (\<lambda>k. bit v (7 - k))"
  unfolding reverse_bits_def from_bits_def
  by (rule arg_cong [where f = sum_list]) (auto simp: push_bit_eq_mult)

lemma bit_255: "bit (0xff :: int) n \<longleftrightarrow> n < 8"
  by (simp add: bit_mask_iff flip: mask_eq_exp_minus_1 [of 8, where ?'a = int, simplified])

lemma complement_reversed_eq: "complement_reversed = reversed_complement"
  by (rule ext, rule bit_word_eqI)
    (auto simp: bit_reversed_complement complement_reversed_def bit_word_of_int_iff reverse_bits_8
      bit_xor_iff bit_255 bit_uint_iff)

fun pair_products :: "bytes \<Rightarrow> bytes" where
  "pair_products (a # b # bs) = le_bytes 2 (uint a * uint b) @ pair_products bs"
| "pair_products _ = []"

lemma pair_products_nth:
  "concat (map (\<lambda>k. le_bytes 2 (uint (bs ! (2 * k)) * uint (bs ! (2 * k + 1)))) [0..<length bs div 2]) = pair_products bs"
proof (induction bs rule: pair_products.induct)
  case (1 a b bs)
  have "[0..<length (a # b # bs) div 2] = 0 # map Suc [0..<length bs div 2]"
    by (simp add: map_Suc_upt upt_conv_Cons del: upt_Suc)
  then show ?case using 1 by (simp add: comp_def del: upt_Suc)
qed simp_all

lemma product_fits: "to_le 2 (uint (a :: byte) * uint (b :: byte)) = Inr (le_bytes 2 (uint a * uint b))"
proof -
  have "uint a * uint b \<le> 255 * 255" using byte_bound [of a] byte_bound [of b] by (intro mult_mono) auto
  then show ?thesis by (simp add: to_le_def)
qed

lemma length_pair_products [simp]: "even (length bs) \<Longrightarrow> length (pair_products bs) = length bs"
  by (induction bs rule: pair_products.induct) auto

lemma square_pairs_eq:
  assumes "even (length work)"
  shows "square_pairs work = Inr (pair_products work)"
proof -
  define prods where "prods n = concat (map (\<lambda>k. le_bytes 2 (uint (work ! (2 * k)) * uint (work ! (2 * k + 1)))) [0..<n])" for n
  have len: "length (prods n) = 2 * n" for n
    by (simp add: prods_def length_concat comp_def sum_list_triv)
  have "rfold (\<lambda>work index. rbind (to_le 2 (uint (work ! index) * uint (work ! (index + 1)))) (\<lambda>product.
       Inr (slice_set index (index + 2) product work))) work (map (\<lambda>k. 2 * k) [0..<n]) =
     Inr (prods n @ drop (2 * n) work)" if "2 * n \<le> length work" for n
    using that
  proof (induction n)
    case 0
    then show ?case by (simp add: prods_def)
  next
    case (Suc n)
    have "(prods n @ drop (2 * n) work) ! (2 * n) = work ! (2 * n)"
      "(prods n @ drop (2 * n) work) ! (2 * n + 1) = work ! (2 * n + 1)"
      using Suc.prems by (simp_all add: nth_append len)
    then show ?case using Suc
      by (simp add: rfold_append product_fits slice_set_def len) (simp add: prods_def)
  qed
  from this [of "length work div 2"] show ?thesis
    using assms pair_products_nth [of work] by (simp add: square_pairs_def prods_def)
qed

lemma pair_products_append: "even (length xs) \<Longrightarrow> pair_products (xs @ ys) = pair_products xs @ pair_products ys"
  by (induction xs rule: pair_products.induct) auto

lemma retained_eq:
  "length record = 24 \<Longrightarrow> length identity = 12 \<Longrightarrow>
   retained_record_transform record identity =
     Inr (xor_bytes record (map reversed_complement (rev (pair_products identity @ pair_products identity))))"
  by (simp add: retained_record_transform_def square_pairs_eq pair_products_append)

lemma stage_block_eq:
  "length block = 24 \<Longrightarrow> length storage = 12 \<Longrightarrow>
   stage_block storage block =
     Inr (xor_bytes block (map reversed_complement (rev (pair_products storage @ pair_products storage))))"
  using pair_products_nth [of storage]
  by (simp add: stage_block_def product_fits rmap_list_Inr complement_reversed_eq)

end
