(* ===== verification/Profile_5110.thy ===== *)
theory Profile_5110
  imports Rom4_Records
begin

text \<open>
  The NSE-1 EEPROM profile of \<open>tools/make_5110_eeprom_profile.py\<close>.  The tool has its own byte-wise
  round codec; the theory shows that it computes the ROM4 word transform, so that the records it
  writes are those the record codecs read back.  Functions that share a name with another tool carry
  the suffix \<open>_5110\<close>.
\<close>

section \<open>The byte codec\<close>

definition perm :: "nat list list" where
  "perm = [[1, 4, 8, 9, 11], [5, 6, 10, 8, 9], [3, 1, 6, 10, 11],
     [0, 7, 8, 10, 11], [0, 1, 3, 5, 8], [2, 0, 1, 9, 10],
     [2, 3, 5, 7, 10], [0, 2, 3, 4, 11], [0, 4, 5, 7, 9],
     [1, 2, 4, 5, 6], [2, 6, 7, 9, 11], [3, 4, 6, 7, 8]]"

definition encod :: bytes where
  "encod = [0xb1, 0x73, 0xe6, 0x5a, 0xab, 0x47, 0x8e, 0x0d, 0x1a, 0x34, 0x68, 0x0b]"

definition decod :: bytes where
  "decod = [0xd0, 0x16, 0x2c, 0x58, 0xb0, 0x71, 0xe2, 0xd5, 0x5a, 0x67, 0xce, 0x8d]"

definition msid_dec_82 :: bytes where
  "msid_dec_82 = [0x9f, 0x7a, 0xad, 0x34, 0xe7, 0x79, 0x27, 0x73, 0x4e, 0x41, 0x0d, 0x26]"

definition flash_enc_82 :: bytes where
  "flash_enc_82 = [0x4f, 0xb9, 0x6c, 0x27, 0x02, 0xdd, 0x77, 0xdd, 0x06, 0xe3, 0xe2, 0xdf]"

definition lock_enc_82 :: bytes where
  "lock_enc_82 = [0xd1, 0xa2, 0x5f, 0xeb, 0x4f, 0xf0, 0x2d, 0x7b, 0x0f, 0x4c, 0xe1, 0xc3]"

definition imei_enc_82 :: bytes where
  "imei_enc_82 = [0x0b, 0xae, 0xfc, 0x8c, 0xc7, 0xfc, 0x79, 0x2a, 0xc1, 0x94, 0xc2, 0x37]"

definition msid_bytes :: bytes where
  "msid_bytes = [0x82, 0x64, 0xb0, 0x00, 0xeb, 0x8f, 0x45, 0x7e, 0x16, 0x8b, 0xd2, 0xd3, 0x2a]"

definition imei14 :: string where
  "imei14 = ''49054410901987''"

definition sum16 :: "bytes \<Rightarrow> int" where
  "sum16 data = byte_sum data AND 0xFFFF"

definition bit_reverse :: "byte \<Rightarrow> byte" where
  "bit_reverse v = word_of_int (reverse_bits 8 (uint v))"

definition reverse_buffer :: "bytes \<Rightarrow> bytes" where
  "reverse_buffer data = map bit_reverse (rev data)"

text \<open>The masked value is below \<open>2 ^ 32\<close>, so \<open>to_bytes(4, "big")\<close> does not raise.\<close>

definition rotate_right32 :: "nat \<Rightarrow> nat \<Rightarrow> bytes \<Rightarrow> bytes" where
  "rotate_right32 offset count data =
     (let v = from_be (slice offset (offset + 4) data);
          count = count mod 32;
          v = (drop_bit count v OR push_bit (32 - count) v) AND 0xFFFFFFFF
      in slice_set offset (offset + 4) (rev (le_bytes 4 v)) data)"

text \<open>The scatter loop of \<open>mix\<close>: the buffer, the flags and the parity of all bytes.\<close>

definition scatter_step :: "byte \<Rightarrow> bytes \<times> bool list \<Rightarrow> nat \<Rightarrow> bytes \<times> bool list" where
  "scatter_step v = (\<lambda>(work, seen) destination.
     (work[destination := if seen ! destination then work ! destination XOR v else v],
      seen[destination := True]))"

definition scatter :: "bytes \<Rightarrow> bytes \<times> bool list \<times> byte" where
  "scatter data = foldl (\<lambda>(work, seen, parity) (source_index, destinations).
       case foldl (scatter_step (data ! source_index)) (work, seen) destinations of
         (work, seen) \<Rightarrow> (work, seen, parity XOR data ! source_index))
     (replicate 12 0, replicate 12 False, 0) (zip [0..<12] perm)"

definition codec_mix :: "bytes \<Rightarrow> bytes \<Rightarrow> nat \<Rightarrow> bytes \<Rightarrow> bytes" where
  "codec_mix table schedule round_index data =
     (let data = foldl (\<lambda>data index. data[index := data ! index XOR table ! index]) data [0..<12];
          data = foldl (\<lambda>data index. data[index := data ! index XOR schedule ! round_index]) data [2, 3, 8, 9]
      in case scatter data of (work, seen, parity) \<Rightarrow>
           foldl (\<lambda>data index. data[index := work ! index XOR parity]) data [0..<12])"

definition codec_round :: "bytes \<Rightarrow> bytes \<Rightarrow> bytes \<Rightarrow> nat \<Rightarrow> bytes" where
  "codec_round table schedule data round_index =
     (let data = codec_mix table schedule round_index data;
          data = rotate_right32 0 10 data;
          old = rotate_right32 8 31 data;
          data = foldl (\<lambda>data index. data[index := old ! index XOR
                   (old ! ((index + 4) mod 12) OR NOT (old ! ((index + 8) mod 12)))]) old [0..<12];
          data = rotate_right32 8 10 data
      in rotate_right32 0 31 data)"

text \<open>A source, table or schedule of fewer than twelve bytes raises \<open>IndexError\<close> in the first round
  that reads past its end; nothing is returned before.\<close>

definition round_codec :: "bytes \<Rightarrow> bytes \<Rightarrow> bytes \<Rightarrow> bytes res" where
  "round_codec source table schedule =
     (if length source < 12 \<or> length table < 12 \<or> length schedule < 12 then Inl IndexError
      else Inr (reverse_buffer (codec_mix table schedule 11
             (foldl (codec_round table schedule) source [0..<11]))))"

section \<open>The records\<close>

definition decode_msid_5110 :: "bytes \<Rightarrow> (bytes \<times> bytes \<times> bytes) res" where
  "decode_msid_5110 msid =
     (if length msid \<noteq> 13 \<or> msid ! 0 \<noteq> 0x82
      then Inl (ValueError ''NSE-1 profile requires an algorithm-0x82 MSID'')
      else rbind (round_codec (drop 1 msid) msid_dec_82 decod) (\<lambda>decoded.
        Inr (take 4 decoded, slice 4 8 decoded, drop 8 decoded)))"

text \<open>\<open>cobba[index]\<close> raises when the chip field is shorter than the four bytes used.\<close>

definition encode_record_5110 :: "bytes \<Rightarrow> bytes \<Rightarrow> bytes \<Rightarrow> bytes res" where
  "encode_record_5110 plain table cobba =
     (if length cobba < min 4 (length table) then Inl IndexError
      else round_codec plain (chip_table table cobba) encod)"

definition digit_value :: "char \<Rightarrow> int res" where
  "digit_value c = (if 48 \<le> (of_char c :: int) \<and> of_char c \<le> (57 :: int) then Inr (of_char c - 48)
     else Inl (ValueError ''invalid literal for int()''))"

definition imei_record :: "string \<Rightarrow> bytes \<Rightarrow> bytes res" where
  "imei_record imei cobba =
     rbind (rmap_list (\<lambda>k.
       rbind (rbind (item imei (2 * k)) digit_value) (\<lambda>high.
       rbind (rbind (item imei (2 * k + 1)) digit_value) (\<lambda>low.
         Inr (word_of_int (push_bit 4 high OR low))))) [0..<7]) (\<lambda>packed.
     let plain = slice_set 2 9 packed [0x79, 0x29, 0, 0, 0, 0, 0, 0, 0, 0xff, 0, 0]
     in encode_record_5110 plain imei_enc_82 cobba)"

definition simlock_step :: "bytes \<Rightarrow> nat \<Rightarrow> bytes" where
  "simlock_step work index =
     (let product = uint (work ! (index * 2)) * uint (work ! (index * 2 + 1));
          work = work[index * 2 := word_of_int (product AND 0xFF)]
      in work[index * 2 + 1 := word_of_int (drop_bit 8 product)])"

definition simlock_pad :: "bytes \<Rightarrow> bytes res" where
  "simlock_pad record12 =
     (let work = record12 @ record12 in
      if length work < 24 then Inl IndexError
      else let work = foldl simlock_step work [0..<12]
           in Inr (map (\<lambda>index. bit_reverse (NOT (work ! (23 - index)))) [0..<12]))"

definition flash_fields :: "bytes \<Rightarrow> bytes" where
  "flash_fields flash_plain =
     foldl (\<lambda>plain index.
         let plain = plain[index := plain ! index XOR ([0x17, 0xca, 0x60, 0x89] ! index)]
         in plain[4 + index := plain ! index XOR 0xFF]) flash_plain [0..<4]"

definition lock_part1 :: bytes where
  "lock_part1 = [0xff, 0xff, 0xff, 0xff, 0xff, 0x0f, 0, 0, 0, 0x78, 0x54, 0xc2]"

definition lock_part2 :: bytes where
  "lock_part2 = [0, 0, 0, 0, 0, 0, 0, 0, 0x08, 0x7c, 0x54, 0xc2]"

definition provision_low_records :: "bytes \<Rightarrow> bytes res" where
  "provision_low_records img =
     rbind (decode_msid_5110 msid_bytes) (\<lambda>(flash_crc, cobba, identity_hash).
     rbind (imei_record imei14 cobba) (\<lambda>imei_rec.
     let img = slice_set 0x00 0x0C imei_rec img;
         flash_plain = slice_set 8 12 (replicate 4 0) (flash_fields (flash_crc @ cobba @ identity_hash)) in
     rbind (encode_record_5110 flash_plain flash_enc_82 cobba) (\<lambda>flash_rec.
     let img = slice_set 0x14 0x20 flash_rec img in
     rbind (simlock_pad imei_rec) (\<lambda>pad.
     rbind (encode_record_5110 lock_part1 lock_enc_82 cobba) (\<lambda>encoded1.
     rbind (encode_record_5110 lock_part2 lock_enc_82 cobba) (\<lambda>encoded2.
     let img = slice_set 0x20 0x2C (xor_bytes encoded1 pad) img
     in Inr (slice_set 0x2C 0x38 (xor_bytes encoded2 pad) img)))))))"

text \<open>The image keeps its \<open>0x800\<close> bytes, so every index below is in range.\<close>

definition factory_flash_offset :: nat where "factory_flash_offset = 0xAADB4"

definition tune_sum :: "bytes \<Rightarrow> int" where
  "tune_sum img = (byte_sum (slice 0x040 0x11E img) - uint (img ! 0x074) - uint (img ! 0x075)) AND 0xFFFF"

definition build_profile_5110 :: "bytes \<Rightarrow> bytes \<Rightarrow> bytes res" where
  "build_profile_5110 eeprom flash =
     (if length eeprom \<noteq> 0x800 then Inl (ValueError ''NSE-1 EEPROM must be 2048 bytes'')
      else if length flash < factory_flash_offset + 8
      then Inl (ValueError ''NSE-1 flash is too short for the factory key'')
      else rbind (provision_low_records eeprom) (\<lambda>img.
        let identity = slice 0x00C (0x00C + 8) img;
            serial = [0x39, 0x30, 0x31, 0x39, 0x38, 0x37, 0x31, 0];
            key = slice factory_flash_offset (factory_flash_offset + 8) flash;
            derived = xor_bytes (xor_bytes identity serial) key;
            img = slice_set 0x304 (0x304 + 8) derived img;
            img = slice_set 0x32C (0x32C + 8) derived img;
            img = img[0x334 := 1];
            img = img[0x335 := 1];
            img = img[0x29E := 0];
            img = img[0x2C7 := 0xFF] in
        rbind (to_be 2 (tune_sum img)) (\<lambda>tune.
        let img = slice_set 0x11E (0x11E + 2) tune img in
        rbind (to_be 2 (sum16 (take 0x03E img))) (\<lambda>check.
        Inr (slice_set 0x03E (0x03E + 2) check img)))))"

section \<open>The byte codec is the word transform\<close>

lemma scatter_mix:
  assumes "length data = 12"
  shows "case scatter data of (work, seen, parity) \<Rightarrow> map (\<lambda>index. work ! index XOR parity) [0..<12] = mix_bytes data"
  using assms
  by (elim list12_cases)
    (simp add: scatter_def perm_def scatter_step_def upt_12 select_xor_def mix_sources_def xor_cancel)

definition keyed_bytes :: "bytes \<Rightarrow> byte \<Rightarrow> bytes \<Rightarrow> bytes" where
  "keyed_bytes table v data = map (\<lambda>index. data ! index XOR table ! index XOR
     (if index \<in> {2, 3, 8, 9} then v else 0)) [0..<12]"

lemma codec_mix_eq:
  assumes "length data = 12"
  shows "codec_mix table schedule k data = mix_bytes (keyed_bytes table (schedule ! k) data)"
proof -
  have fill: "foldl (\<lambda>data index. data[index := f index]) d [0..<12] = map f [0..<12]"
    if "length d = 12" for f and d :: bytes
    using that by (elim list12_cases) (simp add: upt_12)
  have keys: "foldl (\<lambda>data index. data[index := data ! index XOR schedule ! k])
      (foldl (\<lambda>data index. data[index := data ! index XOR table ! index]) data [0..<12]) [2, 3, 8, 9]
    = keyed_bytes table (schedule ! k) data" (is "?k = _")
    using assms by (elim list12_cases) (simp add: upt_12 keyed_bytes_def xor.assoc)
  have "length ?k = 12" unfolding keys by (simp add: keyed_bytes_def)
  then show ?thesis unfolding codec_mix_def Let_def
    using scatter_mix [of ?k] unfolding keys by (auto simp: fill split: prod.splits)
qed

text \<open>The four bytes of a rotated word.\<close>

definition rotated4 :: "nat \<Rightarrow> byte \<Rightarrow> byte \<Rightarrow> byte \<Rightarrow> byte \<Rightarrow> bytes" where
  "rotated4 n a b c d = rev (le_bytes 4 ((drop_bit n (from_le [d, c, b, a]) OR
     push_bit (32 - n) (from_le [d, c, b, a])) AND 0xFFFFFFFF))"

lemma from_be_4: "from_be [a, b, c, d] = from_le [d, c, b, a]"
  using from_be_rev [of "[d, c, b, a]"] by simp

lemma list4_cases:
  assumes "length bs = 4"
  obtains p q r s where "bs = [p, q, r, s]"
  using assms by (auto simp: length_Suc_conv numeral_eq_Suc)

lemma and_ffffffff_bounds: "0 \<le> x AND 0xFFFFFFFF" "x AND 0xFFFFFFFF < 256 ^ 4" for x :: int
  using take_bit_int_less_exp [of 32 x] by (simp_all add: and_ffffffff)

lemma rotated4_obtain:
  obtains p q r s where "rotated4 n a b c d = [p, q, r, s]"
    "rotate32 (from_le [b, a]) (from_le [d, c]) n = (from_le [q, p], from_le [s, r])"
proof -
  let ?v = "from_le [d, c, b, a]"
  let ?w = "(drop_bit n ?v OR push_bit (32 - n) ?v) AND 0xFFFFFFFF"
  have "rotated4 n a b c d = rev (le_bytes 4 ?w)" by (simp only: rotated4_def)
  moreover obtain s r q p where w: "le_bytes 4 ?w = [s, r, q, p]"
    by (rule list4_cases [of "le_bytes 4 ?w"]) simp_all
  ultimately have bytes: "rotated4 n a b c d = [p, q, r, s]" by simp
  have "0 \<le> ?w" "?w < 256 ^ 4" by (rule and_ffffffff_bounds)+
  then have "?w = from_le [s, r, q, p]" using from_le_bytes [of ?w 4] w by simp
  moreover have "push_bit 16 (from_le [b, a]) OR from_le [d, c] = ?v" by (simp add: byte_vector)
  ultimately have "rotate32 (from_le [b, a]) (from_le [d, c]) n = (from_le [q, p], from_le [s, r])"
    unfolding rotate32_def Let_def by (simp only: from_le_drop16 from_le_and16) simp
  with bytes that show thesis by blast
qed

lemma length_rotated4 [simp]: "length (rotated4 n a b c d) = 4"
  by (simp add: rotated4_def)

lemma rotate_right32_front:
  "n < 32 \<Longrightarrow> rotate_right32 0 n (a # b # c # d # rest) = rotated4 n a b c d @ rest"
  by (simp add: rotate_right32_def slice_def slice_set_def from_be_4 rotated4_def Let_def del: le_bytes.simps)

lemma rotate_right32_back:
  "n < 32 \<Longrightarrow> length front = 8 \<Longrightarrow>
   rotate_right32 8 n (front @ [a, b, c, d]) = front @ rotated4 n a b c d"
  by (simp add: rotate_right32_def slice_def slice_set_def from_be_4 rotated4_def Let_def del: le_bytes.simps)

lemma rotate_ends_bytes:
  assumes "length data = 12" "m < 32" "n < 32"
  shows "be_words (rotate_right32 0 m (rotate_right32 8 n data)) = rotate_ends m n (be_words data)"
    and "rotate_right32 0 m (rotate_right32 8 n data) = rotate_right32 8 n (rotate_right32 0 m data)"
    and "length (rotate_right32 0 m (rotate_right32 8 n data)) = 12"
proof -
  obtain b0 b1 b2 b3 b4 b5 b6 b7 b8 b9 b10 b11
    where d: "data = [b0, b1, b2, b3, b4, b5, b6, b7, b8, b9, b10, b11]"
    using assms(1) by (rule list12_cases)
  obtain p q r s where f: "rotated4 m b0 b1 b2 b3 = [p, q, r, s]"
    "rotate32 (from_le [b1, b0]) (from_le [b3, b2]) m = (from_le [q, p], from_le [s, r])"
    by (rule rotated4_obtain)
  obtain p' q' r' s' where g: "rotated4 n b8 b9 b10 b11 = [p', q', r', s']"
    "rotate32 (from_le [b9, b8]) (from_le [b11, b10]) n = (from_le [q', p'], from_le [s', r'])"
    by (rule rotated4_obtain)
  have tail: "rotate_right32 8 n data = [b0, b1, b2, b3, b4, b5, b6, b7, p', q', r', s']"
    using rotate_right32_back [OF assms(3), of "[b0, b1, b2, b3, b4, b5, b6, b7]"] by (simp add: d g)
  have front: "rotate_right32 0 m data = [p, q, r, s, b4, b5, b6, b7, b8, b9, b10, b11]"
    using rotate_right32_front [OF assms(2)] by (simp add: d f)
  have both: "rotate_right32 0 m (rotate_right32 8 n data) = [p, q, r, s, b4, b5, b6, b7, p', q', r', s']"
    using rotate_right32_front [OF assms(2)] by (simp add: tail f)
  have both': "rotate_right32 8 n (rotate_right32 0 m data) = [p, q, r, s, b4, b5, b6, b7, p', q', r', s']"
    using rotate_right32_back [OF assms(3), of "[p, q, r, s, b4, b5, b6, b7]"] by (simp add: front g)
  show "be_words (rotate_right32 0 m (rotate_right32 8 n data)) = rotate_ends m n (be_words data)"
    unfolding both by (simp add: rotate_ends_def d byte_vector f g)
  show "rotate_right32 0 m (rotate_right32 8 n data) = rotate_right32 8 n (rotate_right32 0 m data)"
    unfolding both both' ..
  show "length (rotate_right32 0 m (rotate_right32 8 n data)) = 12"
    unfolding both by simp
qed

lemma length_nonlinear_bytes [simp]: "length (nonlinear_bytes bs) = 12"
  by (simp add: nonlinear_bytes_def)

lemma codec_round_bytes:
  assumes "length data = 12"
  shows "codec_round table schedule data k = rotate_right32 0 31 (rotate_right32 8 10
      (nonlinear_bytes (rotate_right32 8 31 (rotate_right32 0 10 (codec_mix table schedule k data)))))"
proof -
  have fill: "foldl (\<lambda>data index. data[index := f index]) d [0..<12] = map f [0..<12]"
    if "length d = 12" for f and d :: bytes
    using that by (elim list12_cases) (simp add: upt_12)
  have "length (rotate_right32 8 31 (rotate_right32 0 10 (codec_mix table schedule k data))) = 12"
    using rotate_ends_bytes(2,3) [of "codec_mix table schedule k data" 10 31] assms
    by (simp add: codec_mix_eq)
  then show ?thesis
    by (simp add: codec_round_def Let_def fill nonlinear_bytes_def)
qed

text \<open>The key addition in words: the schedule byte repeated in both halves.\<close>

lemma keyed_bytes_words:
  assumes "length data = 12" "length table = 12"
  shows "be_words (keyed_bytes table v data) = add_round_key (be_words data) (be_words table) (uint v * 0x101)"
proof -
  have "uint v * 0x101 = from_le [v, v]" by (simp add: from_le.simps)
  with assms show ?thesis
    by (elim list12_cases)
      (simp add: keyed_bytes_def upt_12 add_round_key_def Let_def byte_vector xor.assoc)
qed

lemma length_keyed_bytes [simp]: "length (keyed_bytes table v data) = 12"
  by (simp add: keyed_bytes_def)

lemma codec_round_words:
  assumes "length data = 12" "length table = 12" "k < 11"
  shows "transform_round (be_words table) (be_words data) (k, uint (schedule ! k) * 0x101)
       = Inr (be_words (codec_round table schedule data k))"
    and "length (codec_round table schedule data k) = 12"
proof -
  let ?mixed = "codec_mix table schedule k data"
  let ?rot = "rotate_right32 8 31 (rotate_right32 0 10 ?mixed)"
  have mixed: "length ?mixed = 12"
    "linear_mix (add_round_key (be_words data) (be_words table) (uint (schedule ! k) * 0x101)) = Inr (be_words ?mixed)"
    using assms keyed_bytes_words [OF assms(1,2), of "schedule ! k"]
      linear_mix_bytes [of "keyed_bytes table (schedule ! k) data"] by (simp_all add: codec_mix_eq)
  note rot = rotate_ends_bytes [OF mixed(1), of 10 31, simplified]
  have rot12: "length ?rot = 12" and rotw: "be_words ?rot = rotate_ends 10 31 (be_words ?mixed)"
    using rot by simp_all
  note rot' = rotate_ends_bytes [of "nonlinear_bytes ?rot" 31 10, simplified]
  show "transform_round (be_words table) (be_words data) (k, uint (schedule ! k) * 0x101)
       = Inr (be_words (codec_round table schedule data k))"
    using assms(3) mixed(2) nonlinear_words_bytes [OF rot12] rotw rot'(1)
    by (simp add: transform_round_def codec_round_bytes [OF assms(1)])
  show "length (codec_round table schedule data k) = 12"
    using rot'(3) by (simp add: codec_round_bytes [OF assms(1)])
qed

lemma codec_rounds_words:
  assumes "length data = 12" "length table = 12" "n \<le> 11"
  shows "length (foldl (codec_round table schedule) data [0..<n]) = 12 \<and>
    rfold (transform_round (be_words table)) (be_words data) (map (\<lambda>k. (k, uint (schedule ! k) * 0x101)) [0..<n])
      = Inr (be_words (foldl (codec_round table schedule) data [0..<n]))"
  using assms(3)
proof (induction n)
  case (Suc n)
  then show ?case
    using codec_round_words [OF _ assms(2), of "foldl (codec_round table schedule) data [0..<n]" n schedule]
    by (simp add: rfold_append)
qed (simp add: assms)

lemma reverse_bits_pair: "reverse_bits 16 (from_le [l, h]) = from_le [bit_reverse h, bit_reverse l]"
proof (rule bit_eqI)
  fix n
  have "bit (bit_reverse b) k \<longleftrightarrow> k < 8 \<and> bit b (7 - k)" for b k
    by (auto simp: bit_reverse_def bit_word_of_int_iff reverse_bits_8 bit_uint_byte)
  then show "bit (reverse_bits 16 (from_le [l, h])) n = bit (from_le [bit_reverse h, bit_reverse l]) n"
    by (auto simp: reverse_bits_from_bits bit_from_le_Cons dest: bit_byte_lt)
qed

lemma reverse_buffer_words: "length data = 12 \<Longrightarrow> be_words (reverse_buffer data) = reverse_words (be_words data)"
  by (elim list12_cases) (simp add: reverse_buffer_def reverse_words_def byte_vector reverse_bits_pair)

theorem round_codec_words:
  assumes "length source = 12" "length table = 12" "length schedule = 12"
  shows "\<exists>out. round_codec source table schedule = Inr out \<and> length out = 12 \<and>
     transform_words (be_words source) (be_words table) (map (\<lambda>v. uint v * 0x101) schedule) = Inr (be_words out)"
proof -
  let ?s = "map (\<lambda>v. uint v * 0x101) schedule"
  let ?d = "foldl (codec_round table schedule) source [0..<11]"
  have d: "length ?d = 12"
    "rfold (transform_round (be_words table)) (be_words source) (map (\<lambda>k. (k, uint (schedule ! k) * 0x101)) [0..<11]) = Inr (be_words ?d)"
    using codec_rounds_words [OF assms(1,2), of 11 schedule] by simp_all
  have "zip [0..<12] ?s = map (\<lambda>k. (k, uint (schedule ! k) * 0x101)) [0..<11] @ [(11, uint (schedule ! 11) * 0x101)]"
  proof -
    have "[0..<12] = [0..<11] @ [11 :: nat]" using upt_Suc_append [of 0 11] by simp
    then show ?thesis using upt_12_zip [of ?s] assms(3) by simp
  qed
  moreover have "transform_round (be_words table) (be_words ?d) (11, uint (schedule ! 11) * 0x101)
      = Inr (be_words (codec_mix table schedule 11 ?d))"
    using keyed_bytes_words [OF d(1) assms(2), of "schedule ! 11"]
      linear_mix_bytes [of "keyed_bytes table (schedule ! 11) ?d"]
    by (simp add: transform_round_def codec_mix_eq [OF d(1)])
  moreover have "length (codec_mix table schedule 11 ?d) = 12" by (simp add: codec_mix_eq [OF d(1)])
  ultimately show ?thesis
    using assms d reverse_buffer_words [of "codec_mix table schedule 11 ?d"]
    by (simp add: round_codec_def transform_words_def rfold_append reverse_buffer_def)
qed

end
