(* ===== verification/Profile_5110_Props.thy ===== *)
theory Profile_5110_Props
  imports Profile_5110
begin

text \<open>
  What the NSE-1 profile promises: its byte codec is the record codec of the other tools, both
  checksums hold over the finished image, the two lock records are readable with the retained pad
  and the chip field of the MSID, and the image keeps its size.
\<close>

section \<open>The same codec as the other tools\<close>

lemma schedule_5110:
  "map (\<lambda>v. uint v * 0x101) encod = encode_schedule" "map (\<lambda>v. uint v * 0x101) decod = decode_schedule"
  "length encod = 12" "length decod = 12" "lock_enc_82 = lock_table_82"
  "msid_table 0x82 = Inr (be_words msid_dec_82)" "length msid_dec_82 = 12"
  by (simp_all add: encod_def decod_def encode_schedule_def decode_schedule_def lock_enc_82_def
      lock_table_82_def msid_table_def decoder_tables_def msid_dec_82_def unpack_be16_def)

lemma table_lengths [simp]: "length flash_enc_82 = 12" "length imei_enc_82 = 12" "length lock_enc_82 = 12"
  by (simp_all add: flash_enc_82_def imei_enc_82_def lock_enc_82_def)

lemma encode_record_5110_returns:
  assumes "length plain = 12" "length table = 12" "length cobba = 4"
  shows "\<exists>out. encode_record_5110 plain table cobba = Inr out \<and> length out = 12"
  using round_codec_words [of plain "chip_table table cobba" encod] assms
  by (auto simp: encode_record_5110_def schedule_5110)

lemma encode_record_agree:
  assumes "length plain = 12" "length cobba = 4"
  shows "encode_record_5110 plain lock_enc_82 cobba = encode_record plain cobba"
proof -
  obtain out where "round_codec plain (chip_table lock_table_82 cobba) encod = Inr out" "length out = 12"
    "transform_words (be_words plain) (be_words (chip_table lock_table_82 cobba)) encode_schedule = Inr (be_words out)"
    using round_codec_words [of plain "chip_table lock_table_82 cobba" encod] assms
    by (auto simp: schedule_5110)
  then show ?thesis using assms
    by (simp add: encode_record_5110_def encode_record_def unpack_12 pack_be_words schedule_5110)
qed

lemma decode_msid_agree:
  assumes "length msid = 13" "msid ! 0 = 0x82"
  shows "\<exists>plain. decode_msid msid = Inr plain \<and> length plain = 12 \<and>
     decode_msid_5110 msid = Inr (take 4 plain, slice 4 8 plain, drop 8 plain)"
proof -
  obtain out where out: "round_codec (drop 1 msid) msid_dec_82 decod = Inr out" "length out = 12"
    "transform_words (be_words (drop 1 msid)) (be_words msid_dec_82) decode_schedule = Inr (be_words out)"
    using round_codec_words [of "drop 1 msid" msid_dec_82 decod] assms by (auto simp: schedule_5110)
  have "decode_msid msid = Inr out"
    using assms out by (simp add: decode_msid_def unpack_12 schedule_5110 pack_be_words)
  then show ?thesis using assms out by (auto simp: decode_msid_5110_def)
qed

section \<open>The pad of the lock records\<close>

lemma bit_reverse_not: "bit_reverse (NOT v) = reversed_complement v"
  by (rule bit_word_eqI)
    (auto simp: bit_reverse_def bit_word_of_int_iff reverse_bits_8 bit_uint_byte bit_reversed_complement bit_not_iff)

lemma simlock_step_pairs:
  assumes "length front = 2 * n"
  shows "simlock_step (front @ a # b # rest) n = front @ le_bytes 2 (uint a * uint b) @ rest"
proof -
  have "word_of_int (x AND 0xFF) = (word_of_int x :: byte)" for x
    by (rule bit_word_eqI) (auto simp: bit_word_of_int_iff bit_and_iff bit_255)
  then show ?thesis using assms
    by (simp add: simlock_step_def Let_def nth_append list_update_append mult.commute numeral_2_eq_2 drop_bit_eq_div)
qed

lemma simlock_steps: "even (length work) \<Longrightarrow> length work = 2 * n \<Longrightarrow> foldl simlock_step work [0..<n] = pair_products work"
proof -
  assume work: "even (length work)" "length work = 2 * n"
  have "foldl simlock_step work [0..<k] = pair_products (take (2 * k) work) @ drop (2 * k) work" if "k \<le> n" for k
    using that
  proof (induction k)
    case (Suc k)
    then obtain a b rest where ab: "drop (2 * k) work = a # b # rest"
      using work(2) by (cases "drop (2 * k) work"; cases "tl (drop (2 * k) work)") (auto dest: arg_cong [where f = length])
    then have "take (2 * Suc k) work = take (2 * k) work @ [a, b]" "drop (2 * Suc k) work = rest"
      using append_take_drop_id [of "2 * k" work] take_add [of "2 * k" 2 work] drop_drop [of 2 "2 * k" work]
      by (auto simp: add.commute)
    moreover have "even (length (take (2 * k) work))" "length (take (2 * k) work) = 2 * k"
      using Suc.prems work(2) by simp_all
    ultimately show ?case using Suc ab simlock_step_pairs [of "pair_products (take (2 * k) work)" k a b rest]
      by (simp add: pair_products_append)
  qed simp
  from this [of n] work show ?thesis by simp
qed

lemma simlock_pad_eq:
  assumes "length r = 12"
  shows "simlock_pad r = Inr (map reversed_complement (rev (pair_products r)))"
proof -
  have steps: "foldl simlock_step (r @ r) [0..<12] = pair_products r @ pair_products r"
    using simlock_steps [of "r @ r" 12] assms by (simp add: pair_products_append)
  have "map (\<lambda>index. bit_reverse (NOT ((pair_products r @ pair_products r) ! (23 - index)))) [0..<12]
    = map reversed_complement (rev (pair_products r))"
    by (rule nth_equalityI) (use assms in \<open>auto simp: bit_reverse_not rev_nth nth_append\<close>)
  then show ?thesis using assms by (simp add: simlock_pad_def Let_def steps)
qed

section \<open>The finished image\<close>

lemma msid_fields:
  obtains fc cobba ih where "decode_msid_5110 msid_bytes = Inr (fc, cobba, ih)"
    "length fc = 4" "length cobba = 4" "length ih = 4"
  using decode_msid_agree [of msid_bytes] by (auto simp: msid_bytes_def)

lemma imei_record_returns:
  assumes "length cobba = 4"
  shows "\<exists>r. imei_record imei14 cobba = Inr r \<and> length r = 12"
proof -
  have digits: "rmap_list (\<lambda>k. rbind (rbind (item imei14 (2 * k)) digit_value) (\<lambda>high.
       rbind (rbind (item imei14 (2 * k + 1)) digit_value) (\<lambda>low.
         Inr (word_of_int (push_bit 4 high OR low) :: byte)))) [0..<7] =
       Inr [0x49, 0x05, 0x44, 0x10, 0x90, 0x19, 0x87]"
    by (simp add: imei14_def item_def digit_value_def upt_rec)
  show ?thesis unfolding imei_record_def digits
    using encode_record_5110_returns [OF _ table_lengths(2) assms] by (simp add: slice_set_def)
qed

lemma length_flash_fields [simp]: "length (flash_fields bs) = length bs"
  by (simp add: flash_fields_def Let_def upt_rec)

lemma provision_layout:
  assumes "length img = 0x800"
  obtains fc cobba ih identity flash_rec e1 e2 pad out
  where "decode_msid_5110 msid_bytes = Inr (fc, cobba, ih)" "length cobba = 4"
    "imei_record imei14 cobba = Inr identity" "length identity = 12"
    "simlock_pad identity = Inr pad" "length pad = 12" "length flash_rec = 12"
    "encode_record lock_part1 cobba = Inr e1" "length e1 = 12" "decode_record e1 cobba = Inr lock_part1"
    "encode_record lock_part2 cobba = Inr e2" "length e2 = 12" "decode_record e2 cobba = Inr lock_part2"
    "out = slice_set 0x2C 0x38 (xor_bytes e2 pad) (slice_set 0x20 0x2C (xor_bytes e1 pad)
       (slice_set 0x14 0x20 flash_rec (slice_set 0x00 0x0C identity img)))"
    "provision_low_records img = Inr out"
proof -
  obtain fc cobba ih where m: "decode_msid_5110 msid_bytes = Inr (fc, cobba, ih)"
    "length fc = 4" "length cobba = 4" "length ih = 4" by (rule msid_fields)
  obtain identity where i: "imei_record imei14 cobba = Inr identity" "length identity = 12"
    using imei_record_returns [OF m(3)] by blast
  obtain pad where p: "simlock_pad identity = Inr pad" "length pad = 12"
    using simlock_pad_eq [OF i(2)] i(2) by simp
  obtain flash_rec where f: "encode_record_5110 (slice_set 8 12 (replicate 4 0) (flash_fields (fc @ cobba @ ih))) flash_enc_82 cobba = Inr flash_rec"
    "length flash_rec = 12"
    using encode_record_5110_returns [OF _ table_lengths(1) m(3), of "slice_set 8 12 (replicate 4 0) (flash_fields (fc @ cobba @ ih))"] m
    by auto
  obtain e1 where e1: "encode_record lock_part1 cobba = Inr e1" "length e1 = 12" "decode_record e1 cobba = Inr lock_part1"
    using record_code_forward [OF m(3), of lock_part1] by (auto simp: lock_part1_def)
  obtain e2 where e2: "encode_record lock_part2 cobba = Inr e2" "length e2 = 12" "decode_record e2 cobba = Inr lock_part2"
    using record_code_forward [OF m(3), of lock_part2] by (auto simp: lock_part2_def)
  have "encode_record_5110 lock_part1 lock_enc_82 cobba = Inr e1" "encode_record_5110 lock_part2 lock_enc_82 cobba = Inr e2"
    using e1 e2 m(3) by (simp_all add: encode_record_agree lock_part1_def lock_part2_def)
  then show thesis
    using that m i p f e1 e2 by (simp add: provision_low_records_def Let_def lock_part1_def lock_part2_def)
qed

lemma sum16_bound: "0 \<le> sum16 bs \<and> sum16 bs < 256 ^ 2"
  using take_bit_int_less_exp [of 16 "byte_sum bs"] by (simp add: sum16_def and_ffff)

lemma tune_sum_bound: "0 \<le> tune_sum img \<and> tune_sum img < 256 ^ 2"
  using take_bit_int_less_exp [of 16] by (simp add: tune_sum_def and_ffff)

lemma to_be_2: "0 \<le> v \<Longrightarrow> v < 256 ^ 2 \<Longrightarrow> \<exists>bs. to_be 2 v = Inr bs \<and> length bs = 2 \<and> from_be bs = v"
  using from_be_to_be [of 2 v] by (auto simp: to_be_def)

text \<open>The image before its two checksums.\<close>

definition faid_image :: "bytes \<Rightarrow> bytes \<Rightarrow> bytes" where
  "faid_image derived img =
     (slice_set 0x32C 0x334 derived (slice_set 0x304 0x30C derived img))[0x334 := 1, 0x335 := 1, 0x29E := 0, 0x2C7 := 0xFF]"

lemma faid_image_simps:
  assumes "length img = 0x800" "length derived = 8"
  shows "length (faid_image derived img) = 0x800"
    "slice 0x304 0x30C (faid_image derived img) = derived" "slice 0x32C 0x334 (faid_image derived img) = derived"
    "b \<le> 0x29E \<Longrightarrow> slice a b (faid_image derived img) = slice a b img"
proof -
  show len: "length (faid_image derived img) = 0x800" using assms by (simp add: faid_image_def)
  have nth: "faid_image derived img ! i = (if i = 0x2C7 then 0xFF else if i = 0x29E then 0
      else if i = 0x335 \<or> i = 0x334 then 1 else if 0x32C \<le> i \<and> i < 0x334 then derived ! (i - 0x32C)
      else if 0x304 \<le> i \<and> i < 0x30C then derived ! (i - 0x304) else img ! i)" if "i < 0x800" for i
    using assms that by (simp add: faid_image_def nth_list_update nth_slice_set)
  show "slice 0x304 0x30C (faid_image derived img) = derived"
    by (rule nth_equalityI) (use assms len in \<open>auto simp: nth_slice nth\<close>)
  show "slice 0x32C 0x334 (faid_image derived img) = derived"
    by (rule nth_equalityI) (use assms len in \<open>auto simp: nth_slice nth\<close>)
  show "slice a b (faid_image derived img) = slice a b img" if "b \<le> 0x29E"
    by (rule nth_equalityI) (use assms len that in \<open>auto simp: nth_slice nth\<close>)
qed

lemma build_layout:
  assumes "length eeprom = 0x800" "factory_flash_offset + 8 \<le> length flash"
    "provision_low_records eeprom = Inr low" "length low = 0x800"
  obtains derived img tune check out where
    "derived = xor_bytes (xor_bytes (slice 0x0C 0x14 low) [0x39, 0x30, 0x31, 0x39, 0x38, 0x37, 0x31, 0])
       (slice factory_flash_offset (factory_flash_offset + 8) flash)" "length derived = 8"
    "img = faid_image derived low" "length tune = 2" "length check = 2"
    "from_be tune = tune_sum img" "from_be check = sum16 (take 0x3E (slice_set 0x11E 0x120 tune img))"
    "out = slice_set 0x3E 0x40 check (slice_set 0x11E 0x120 tune img)"
    "build_profile_5110 eeprom flash = Inr out"
proof -
  define derived where "derived = xor_bytes (xor_bytes (slice 0x0C 0x14 low) [0x39, 0x30, 0x31, 0x39, 0x38, 0x37, 0x31, 0])
       (slice factory_flash_offset (factory_flash_offset + 8) flash)"
  have d: "length derived = 8" using assms by (simp add: derived_def)
  obtain tune where t: "to_be 2 (tune_sum (faid_image derived low)) = Inr tune" "length tune = 2" "from_be tune = tune_sum (faid_image derived low)"
    using to_be_2 tune_sum_bound by blast
  obtain check where c: "to_be 2 (sum16 (take 0x3E (slice_set 0x11E 0x120 tune (faid_image derived low)))) = Inr check"
    "length check = 2" "from_be check = sum16 (take 0x3E (slice_set 0x11E 0x120 tune (faid_image derived low)))"
    using to_be_2 sum16_bound by blast
  have "build_profile_5110 eeprom flash = Inr (slice_set 0x3E 0x40 check (slice_set 0x11E 0x120 tune (faid_image derived low)))"
    using assms t(1) c(1) by (simp add: build_profile_5110_def Let_def derived_def faid_image_def)
  then show thesis using that derived_def d t c by blast
qed

lemma low_image:
  assumes "length eeprom = 0x800" "provision_low_records eeprom = Inr low"
  shows "length low = 0x800"
  by (rule provision_layout [OF assms(1)]) (use assms in auto)

lemma slice_take: "b \<le> n \<Longrightarrow> slice a b (take n xs) = slice a b xs"
  by (simp add: slice_def drop_take)

lemma take_slice: "take n xs = slice 0 n xs"
  by (simp add: slice_def)

lemma slice_set_chain:
  assumes "length img = 0x800" "length tune = 2" "length check = 2"
  defines "out \<equiv> slice_set 0x3E 0x40 check (slice_set 0x11E 0x120 tune img)"
  shows "length out = 0x800" "slice 0x3E 0x40 out = check" "slice 0x11E 0x120 out = tune"
    "\<And>a b. b \<le> 0x3E \<Longrightarrow> slice a b out = slice a b img"
    "slice 0x40 0x11E out = slice 0x40 0x11E img" "slice 0x304 0x30C out = slice 0x304 0x30C img"
    "slice 0x32C 0x334 out = slice 0x32C 0x334 img" "\<And>i. 0x120 \<le> i \<Longrightarrow> i < 0x800 \<Longrightarrow> out ! i = img ! i"
    "out ! 0x74 = img ! 0x74" "out ! 0x75 = img ! 0x75"
  using assms by (simp_all add: out_def slice_slice_set_same slice_slice_set_disjoint nth_slice_set)

text \<open>C4: for an EEPROM of the right size and a long enough flash image the profile
  is built; it keeps the size, its record checksum and its tuning checksum both agree with the bytes they
  cover, the two copies of the factory-identity record are the identity field combined with the serial and
  the factory key, and the flag bytes are set.\<close>

theorem profile_5110_image:
  assumes "length eeprom = 0x800" "factory_flash_offset + 8 \<le> length flash"
  shows "\<exists>img. build_profile_5110 eeprom flash = Inr img \<and> length img = 0x800 \<and>
    sum16 (take 0x3E img) = from_be (slice 0x3E 0x40 img) \<and>
    tune_sum img = from_be (slice 0x11E 0x120 img) \<and>
    slice 0x304 0x30C img = xor_bytes (xor_bytes (slice 0x0C 0x14 img) [0x39, 0x30, 0x31, 0x39, 0x38, 0x37, 0x31, 0])
      (slice factory_flash_offset (factory_flash_offset + 8) flash) \<and>
    slice 0x32C 0x334 img = slice 0x304 0x30C img \<and>
    img ! 0x334 = 1 \<and> img ! 0x335 = 1 \<and> img ! 0x29E = 0 \<and> img ! 0x2C7 = 0xFF"
proof -
  obtain low where low: "provision_low_records eeprom = Inr low"
    using provision_layout [OF assms(1)] by blast
  have len: "length low = 0x800" by (rule low_image [OF assms(1) low])
  obtain derived img tune check out where b:
    "derived = xor_bytes (xor_bytes (slice 0x0C 0x14 low) [0x39, 0x30, 0x31, 0x39, 0x38, 0x37, 0x31, 0])
       (slice factory_flash_offset (factory_flash_offset + 8) flash)" "length derived = 8"
    "img = faid_image derived low" "length tune = 2" "length check = 2"
    "from_be tune = tune_sum img" "from_be check = sum16 (take 0x3E (slice_set 0x11E 0x120 tune img))"
    "out = slice_set 0x3E 0x40 check (slice_set 0x11E 0x120 tune img)"
    "build_profile_5110 eeprom flash = Inr out"
    by (rule build_layout [OF assms low len])
  note f = faid_image_simps [OF len b(2), folded b(3)]
  note c = slice_set_chain [OF f(1) b(4,5), folded b(8)]
  have "tune_sum out = tune_sum img" by (simp add: tune_sum_def c)
  moreover have "take 0x3E out = take 0x3E (slice_set 0x11E 0x120 tune img)"
    unfolding take_slice using c(4) f(1) b(4) by (simp add: slice_slice_set_disjoint)
  moreover have "out ! 0x334 = 1" "out ! 0x335 = 1" "out ! 0x29E = 0" "out ! 0x2C7 = 0xFF"
    using len b(2) by (simp_all add: c(8)) (simp_all add: b(3) faid_image_def nth_list_update)
  ultimately show ?thesis using b f c by (intro exI [of _ out]) simp
qed

theorem profile_5110_image_witness:
  "\<exists>img. build_profile_5110 (replicate 0x800 0) (replicate (factory_flash_offset + 8) 0) = Inr img \<and> length img = 0x800"
  using profile_5110_image [of "replicate 0x800 0" "replicate (factory_flash_offset + 8) 0"] by auto

lemma build_returns: "\<exists>img. build_profile_5110 (replicate 0x800 0) (replicate (factory_flash_offset + 8) 0) = Inr img"
proof -
  have len: "length (replicate 0x800 (0 :: byte)) = 0x800" by simp
  obtain low where low: "provision_low_records (replicate 0x800 0) = Inr low"
    using provision_layout [OF len] by blast
  show ?thesis by (rule build_layout [OF len _ low low_image [OF len low]]) auto
qed

text \<open>whatever EEPROM and flash the profile is built from, removing the retained
  pad of the identity record from the two lock records in the image (the MCU's transform in the record codec)
  and decoding them with the chip field of the MSID gives back the two plain lock records.\<close>

theorem profile_5110_lock_records:
  assumes "build_profile_5110 eeprom flash = Inr img"
  shows "\<exists>fc cobba ih. decode_msid_5110 msid_bytes = Inr (fc, cobba, ih) \<and>
    rbind (retained_record_transform (slice 0x20 0x38 img) (slice 0 0x0C img)) (\<lambda>records.
      rbind (decode_record (take 12 records) cobba) (\<lambda>p1.
      rbind (decode_record (drop 12 records) cobba) (\<lambda>p2. Inr (p1, p2)))) = Inr (lock_part1, lock_part2)"
proof -
  have size: "length eeprom = 0x800" "factory_flash_offset + 8 \<le> length flash"
    using assms by (auto simp: build_profile_5110_def split: if_splits)
  obtain fc cobba ih identity flash_rec e1 e2 pad low where p:
    "decode_msid_5110 msid_bytes = Inr (fc, cobba, ih)" "length cobba = 4"
    "imei_record imei14 cobba = Inr identity" "length identity = 12"
    "simlock_pad identity = Inr pad" "length pad = 12" "length flash_rec = 12"
    "encode_record lock_part1 cobba = Inr e1" "length e1 = 12" "decode_record e1 cobba = Inr lock_part1"
    "encode_record lock_part2 cobba = Inr e2" "length e2 = 12" "decode_record e2 cobba = Inr lock_part2"
    "low = slice_set 0x2C 0x38 (xor_bytes e2 pad) (slice_set 0x20 0x2C (xor_bytes e1 pad)
       (slice_set 0x14 0x20 flash_rec (slice_set 0x00 0x0C identity eeprom)))"
    "provision_low_records eeprom = Inr low"
    by (rule provision_layout [OF size(1)])
  have len: "length low = 0x800" by (rule low_image [OF size(1) p(15)])
  obtain derived mid tune check where b: "length derived = 8"
    "mid = faid_image derived low" "length tune = 2" "length check = 2"
    "img = slice_set 0x3E 0x40 check (slice_set 0x11E 0x120 tune mid)"
    using build_layout [OF size p(15) len] assms by (metis sum.inject(2))
  note f = faid_image_simps [OF len b(1), folded b(2)]
  have keep: "slice i j img = slice i j low" if "j \<le> 0x3E" for i j
    using slice_set_chain(4) [OF f(1) b(3,4) that] f(4) [of j i] that by (simp add: b(5))
  have id: "slice 0 0x0C img = identity"
    using size(1) p(4,6,7,9,12) by (simp add: keep p(14) slice_slice_set_disjoint slice_slice_set_same)
  have "slice 0x20 0x38 low = slice 0x20 0x2C low @ slice 0x2C 0x38 low"
    using len by (simp add: slice_def take_drop [symmetric] flip: take_add [of 12 12 "drop 32 low", simplified])
  moreover have "slice 0x20 0x2C low = xor_bytes e1 pad" "slice 0x2C 0x38 low = xor_bytes e2 pad"
    using size(1) p(4,6,7,9,12) by (simp_all add: p(14) slice_slice_set_disjoint slice_slice_set_same)
  ultimately have locks: "slice 0x20 0x38 img = xor_bytes e1 pad @ xor_bytes e2 pad" by (simp add: keep)
  have pad: "pad = map reversed_complement (rev (pair_products identity))"
    using p(4,5) by (simp add: simlock_pad_eq)
  have "retained_record_transform (xor_bytes e1 pad @ xor_bytes e2 pad) identity
      = Inr (xor_bytes (xor_bytes e1 pad @ xor_bytes e2 pad) (pad @ pad))"
    using p(4,6,9,12) by (simp add: retained_eq pad)
  also have "xor_bytes (xor_bytes e1 pad @ xor_bytes e2 pad) (pad @ pad) = e1 @ e2"
  proof -
    have "xor_bytes (xor_bytes e1 pad @ xor_bytes e2 pad) (pad @ pad)
        = xor_bytes (xor_bytes e1 pad) pad @ xor_bytes (xor_bytes e2 pad) pad"
      using p(6,9,12) by (simp add: xor_bytes_def)
    then show ?thesis using p(6,9,12) by (simp add: xor_bytes_involution)
  qed
  finally show ?thesis using p locks id by simp
qed

theorem profile_5110_lock_records_witness:
  "\<exists>img records p1 p2 cobba. build_profile_5110 (replicate 0x800 0) (replicate (factory_flash_offset + 8) 0) = Inr img \<and>
     retained_record_transform (slice 0x20 0x38 img) (slice 0 0x0C img) = Inr records \<and>
     decode_record (take 12 records) cobba = Inr lock_part1 \<and> decode_record (drop 12 records) cobba = Inr lock_part2"
proof -
  obtain img where img: "build_profile_5110 (replicate 0x800 0) (replicate (factory_flash_offset + 8) 0) = Inr img"
    using build_returns by blast
  from profile_5110_lock_records [OF img] img show ?thesis
    by (auto simp: rbind_eq_Inr)
qed

end
