(* ===== verification/Rom4_Props.thy ===== *)
theory Rom4_Props
  imports Rom4_Records Profile_5110_Props
begin

text \<open>
  The properties of the ROM4 transform and of the record codecs over it.
\<close>

text \<open>C1: on six 16-bit words, with a 16-bit table and schedule, the transform of the DSP
  and the inverse that the tool derives by Gaussian elimination undo each other, in both orders; so
  neither the "not invertible" branches nor the range check of the inverse is ever taken.\<close>

theorem transform_bijection:
  assumes "length words = 6" "length table = 6" "length schedule = 12"
    and "\<forall>w \<in> set (words @ table @ schedule). 0 \<le> w \<and> w \<le> 0xffff"
  shows "rbind (transform_words words table schedule) (\<lambda>code. inverse_transform_words code table schedule) = Inr words \<and>
    rbind (inverse_transform_words words table schedule) (\<lambda>plain. transform_words plain table schedule) = Inr words"
proof -
  have v: "valid6 words" "valid6 table" "\<forall>w \<in> set schedule. u16 w"
    using assms by (auto simp: valid6_def)
  show ?thesis
    using transform_inverse [OF v(1,2) assms(3) v(3)] inverse_transform [OF v(1,2) assms(3) v(3)] by auto
qed

theorem transform_bijection_witness:
  "rbind (transform_words [1, 2, 3, 4, 5, 0xffff] [0, 0, 0, 0, 0, 7] (replicate 12 0x101))
     (\<lambda>code. inverse_transform_words code [0, 0, 0, 0, 0, 7] (replicate 12 0x101)) = Inr [1, 2, 3, 4, 5, 0xffff]"
  by (rule transform_bijection [THEN conjunct1]) simp_all

text \<open>For both families with a table, encoding any twelve bytes gives an MSID of thirteen bytes
  with the family in front that decodes to the same twelve bytes, and decoding any thirteen-byte MSID of
  the family gives twelve bytes that encode to the same MSID.\<close>

theorem msid_roundtrip:
  assumes "family = 0x82 \<or> family = 0x83"
  shows "(length plain = 12 \<longrightarrow> (\<exists>msid. encode_msid plain family = Inr msid \<and> length msid = 13 \<and>
      msid ! 0 = word_of_int family \<and> decode_msid msid = Inr plain)) \<and>
    (length msid = 13 \<and> msid ! 0 = word_of_int family \<longrightarrow>
      rbind (decode_msid msid) (\<lambda>plain. encode_msid plain family) = Inr msid)"
  using assms msid82.encode_decode [of plain] msid83.encode_decode [of plain]
    msid82.decode_then_encode [of msid] msid83.decode_then_encode [of msid]
  by (auto simp: msid_ok_def)

theorem msid_roundtrip_witness:
  "\<exists>msid. encode_msid [0,1,2,3,4,5,6,7,8,9,10,11] 0x82 = Inr msid \<and> length msid = 13 \<and>
      msid ! 0 = 0x82 \<and> decode_msid msid = Inr [0,1,2,3,4,5,6,7,8,9,10,11]"
  using msid_roundtrip [where family = "0x82" and plain = "[0,1,2,3,4,5,6,7,8,9,10,11]"]
  by (simp)

text \<open>for every four-byte chip field the lock-record encoder is a bijection on twelve-byte
  records with the decoder as its inverse, and wrong lengths are rejected by both.\<close>

theorem lock_record_roundtrip:
  "if length block = 12 \<and> length chip = 4
   then rbind (encode_record block chip) (\<lambda>code. decode_record code chip) = Inr block \<and>
        rbind (decode_record block chip) (\<lambda>plain. encode_record plain chip) = Inr block
   else encode_record block chip = Inl (ValueError ''record/chip must contain twelve/four bytes'') \<and>
        decode_record block chip = Inl (ValueError ''record/chip must contain twelve/four bytes'')"
proof (cases "length block = 12 \<and> length chip = 4")
  case True
  then show ?thesis
    using record_code_forward [of chip block] record_code_backward [of chip block] by auto
qed (auto simp: encode_record_def decode_record_def)

lemma xor_bytes_zero: "length ys = n \<Longrightarrow> xor_bytes (replicate n 0) ys = ys"
  by (rule nth_equalityI) (simp_all add: nth_xor_bytes)

text \<open>the retained transform of the block codec and the packet preparation of the MCU compute
  the same function, it is its own inverse, and the pad of the NSE-1 profile is its first half.\<close>

theorem retained_pad:
  assumes "length block = 24" "length identity = 12"
  shows "stage_block identity block = retained_record_transform block identity \<and>
    rbind (retained_record_transform block identity) (\<lambda>staged. retained_record_transform staged identity) = Inr block \<and>
    simlock_pad identity = rmap (take 12) (retained_record_transform (replicate 24 0) identity)"
  using assms by (simp add: retained_eq stage_block_eq xor_bytes_involution simlock_pad_eq xor_bytes_zero)

theorem retained_pad_witness:
  "rbind (retained_record_transform (replicate 24 7) (replicate 12 9)) (\<lambda>staged. retained_record_transform staged (replicate 12 9))
     = Inr (replicate 24 7)"
  using retained_pad [of "replicate 24 7" "replicate 12 9"] by simp

text \<open>C2: the byte-wise codec of the NSE-1 profile tool computes the ROM4 word transform,
  with each schedule byte repeated in both halves of its word.\<close>

theorem round_codec_equivalence:
  assumes "length source = 12" "length table = 12" "length schedule = 12"
  shows "\<exists>out. round_codec source table schedule = Inr out \<and> length out = 12 \<and>
     transform_words (be_words source) (be_words table) (map (\<lambda>v. uint v * 0x101) schedule) = Inr (be_words out)"
  using assms by (rule round_codec_words)

theorem round_codec_equivalence_witness:
  "\<exists>out. round_codec (replicate 12 1) lock_table_82 encod = Inr out \<and> length out = 12"
  using round_codec_equivalence [of "replicate 12 1" lock_table_82 encod] by (auto simp: encod_def)

end
