(* ===== verification/Py_Text.thy ===== *)
theory Py_Text
  imports Byte_Vectors "HOL-Library.Char_ord"
begin

text \<open>
  Python text: a string is a list of characters (the logs, listings and tables the tools read are
  ASCII).  Number formatting and parsing, \<open>bytes.hex\<close> and \<open>bytes.fromhex\<close>, \<open>str.split\<close>,
  \<open>str.splitlines\<close>, \<open>str.strip\<close> and membership, each for the arguments the sources use.
\<close>

section \<open>Digits\<close>

definition hex_char :: "nat \<Rightarrow> char" where
  "hex_char n = (''0123456789abcdef'') ! n"

definition char_code :: "char \<Rightarrow> nat" where
  "char_code c = of_char c"

definition digit_of :: "char \<Rightarrow> nat option" where
  "digit_of c =
     (let n = char_code c in
      if 48 \<le> n \<and> n \<le> 57 then Some (n - 48)
      else if 97 \<le> n \<and> n \<le> 102 then Some (n - 87)
      else if 65 \<le> n \<and> n \<le> 70 then Some (n - 55) else None)"

lemma digit_of_hex_char: "n < 16 \<Longrightarrow> digit_of (hex_char n) = Some n"
proof -
  have "\<forall>n \<in> set [0..<16]. digit_of (hex_char n) = Some n" by code_simp
  then show "n < 16 \<Longrightarrow> ?thesis" by simp
qed

text \<open>\<open>format(n, 'd')\<close>, \<open>'x'\<close> and \<open>'b'\<close> of a nonnegative integer.\<close>

function digits :: "nat \<Rightarrow> nat \<Rightarrow> string" where
  "digits b n = (if b < 2 \<or> n < b then [hex_char n] else digits b (n div b) @ [hex_char (n mod b)])"
  by pat_completeness auto
termination by (relation "measure snd") auto

declare digits.simps [simp del]

lemma digits_small: "n < b \<Longrightarrow> digits b n = [hex_char n]"
  by (simp add: digits.simps)

lemma digits_step: "2 \<le> b \<Longrightarrow> b \<le> n \<Longrightarrow> digits b n = digits b (n div b) @ [hex_char (n mod b)]"
  by (simp add: digits.simps [of b n])

definition zfill :: "nat \<Rightarrow> string \<Rightarrow> string" where
  "zfill w s = replicate (w - length s) CHR ''0'' @ s"

definition fmt_d :: "int \<Rightarrow> string" where
  "fmt_d v = (if v < 0 then ''-'' @ digits 10 (nat (- v)) else digits 10 (nat v))"

definition fmt_x :: "nat \<Rightarrow> int \<Rightarrow> string" where
  "fmt_x w v = zfill w (digits 16 (nat v))"

text \<open>\<open>int(s, base)\<close> of a string of digits; the callers pass digits only.\<close>

fun parse_acc :: "nat \<Rightarrow> nat \<Rightarrow> string \<Rightarrow> nat option" where
  "parse_acc b acc [] = Some acc"
| "parse_acc b acc (c # cs) =
     (case digit_of c of
        None \<Rightarrow> None
      | Some d \<Rightarrow> if d < b then parse_acc b (acc * b + d) cs else None)"

definition parse_digits :: "nat \<Rightarrow> string \<Rightarrow> nat option" where
  "parse_digits b s = (if s = [] then None else parse_acc b 0 s)"

definition int_of :: "nat \<Rightarrow> string \<Rightarrow> int res" where
  "int_of b s = (case parse_digits b s of
     None \<Rightarrow> Inl (ValueError ''invalid literal for int()'') | Some n \<Rightarrow> Inr (int n))"

lemma parse_acc_snoc:
  "parse_acc b acc (cs @ [c]) = Option.bind (parse_acc b acc cs) (\<lambda>n.
     case digit_of c of None \<Rightarrow> None | Some d \<Rightarrow> if d < b then Some (n * b + d) else None)"
  by (induction cs arbitrary: acc) (auto split: option.splits)

lemma digits_nonempty [simp]: "digits b n \<noteq> []"
  by (subst digits.simps) simp

lemma parse_acc_digits: "2 \<le> b \<Longrightarrow> b \<le> 16 \<Longrightarrow> parse_acc b 0 (digits b n) = Some n"
proof (induction n rule: less_induct)
  case (less n)
  show ?case
  proof (cases "n < b")
    case True
    with less.prems show ?thesis by (simp add: digits_small digit_of_hex_char)
  next
    case False
    then have "n div b < n" using less.prems by simp
    moreover have "n mod b < b" using less.prems by simp
    moreover from this have "n mod b < 16" using less.prems by linarith
    ultimately show ?thesis using False less
      by (simp add: digits_step parse_acc_snoc digit_of_hex_char)
  qed
qed

lemma parse_zeros: "0 < b \<Longrightarrow> parse_acc b 0 (replicate k CHR ''0'' @ s) = parse_acc b 0 s"
proof (induction k)
  case (Suc k)
  have "digit_of CHR ''0'' = Some 0" by code_simp
  with Suc show ?case by simp
qed simp

lemma parse_format: "2 \<le> b \<Longrightarrow> b \<le> 16 \<Longrightarrow> parse_digits b (zfill w (digits b n)) = Some n"
  by (simp add: parse_digits_def zfill_def parse_zeros parse_acc_digits)

lemma parse_fmt_d: "0 \<le> v \<Longrightarrow> int_of 10 (fmt_d v) = Inr v"
  using parse_format [of 10 0 "nat v"] by (simp add: int_of_def fmt_d_def zfill_def)

lemma parse_fmt_x: "0 \<le> v \<Longrightarrow> int_of 16 (fmt_x w v) = Inr v"
  by (simp add: int_of_def fmt_x_def parse_format)

section \<open>Hexadecimal bytes\<close>

definition hex_byte :: "byte \<Rightarrow> string" where
  "hex_byte b = [hex_char (unat b div 16), hex_char (unat b mod 16)]"

definition bytes_hex :: "bytes \<Rightarrow> string" where
  "bytes_hex bs = concat (map hex_byte bs)"

text \<open>\<open>bytes.fromhex\<close> without the white space it skips: the callers pass digits only.\<close>

fun from_hex :: "string \<Rightarrow> bytes res" where
  "from_hex [] = Inr []"
| "from_hex [c] = Inl (ValueError ''non-hexadecimal number found in fromhex() arg'')"
| "from_hex (c # d # cs) =
     (case (digit_of c, digit_of d) of
        (Some h, Some l) \<Rightarrow> rmap (\<lambda>bs. of_nat (16 * h + l) # bs) (from_hex cs)
      | _ \<Rightarrow> Inl (ValueError ''non-hexadecimal number found in fromhex() arg''))"

lemma unat_byte: "unat (b :: byte) < 256"
  using unsigned_less [of b, where ?'a = nat] by simp

lemma from_hex_byte: "from_hex (hex_byte b @ cs) = rmap (\<lambda>bs. b # bs) (from_hex cs)"
proof -
  have "unat b div 16 < 16" using unat_byte [of b] by (simp add: div_less_iff_less_mult)
  moreover have "(of_nat (16 * (unat b div 16) + unat b mod 16) :: byte) = b" by (simp del: of_nat_add of_nat_mult)
  ultimately show ?thesis by (simp add: hex_byte_def digit_of_hex_char)
qed

lemma from_hex_bytes_hex: "from_hex (bytes_hex bs) = Inr bs"
proof (induction bs)
  case (Cons b bs)
  have "bytes_hex (b # bs) = hex_byte b @ bytes_hex bs" by (simp add: bytes_hex_def)
  then show ?case using Cons by (simp only: from_hex_byte) simp
qed (simp add: bytes_hex_def)

lemma length_bytes_hex: "length (bytes_hex bs) = 2 * length bs"
  by (induction bs) (simp_all add: bytes_hex_def hex_byte_def)

lemma bytes_hex_inj: "bytes_hex xs = bytes_hex ys \<longleftrightarrow> xs = ys"
  by (metis from_hex_bytes_hex sum.inject(2))

section \<open>Splitting and searching\<close>

text \<open>\<open>s.split(sep)\<close> for a one-character separator: \<open>split_on\<close> of the empty string is one empty part.\<close>

fun split_on :: "'a \<Rightarrow> 'a list \<Rightarrow> 'a list list" where
  "split_on sep [] = [[]]"
| "split_on sep (c # cs) =
     (case split_on sep cs of
        [] \<Rightarrow> [[c]]
      | part # parts \<Rightarrow> if c = sep then [] # part # parts else (c # part) # parts)"

fun join_with :: "'a list \<Rightarrow> 'a list list \<Rightarrow> 'a list" where
  "join_with sep [] = []"
| "join_with sep [part] = part"
| "join_with sep (part # parts) = part @ sep @ join_with sep parts"

lemma split_on_nonempty [simp]: "split_on sep cs \<noteq> []"
  by (induction cs) (auto split: list.splits)

lemma join_split_on: "join_with [sep] (split_on sep cs) = cs"
proof (induction cs)
  case (Cons c cs)
  then show ?case by (cases "split_on sep cs" rule: list.exhaust; cases "tl (split_on sep cs)") auto
qed simp

lemma split_on_part: "sep \<notin> set part \<Longrightarrow> split_on sep (part @ sep # cs) = part # split_on sep cs"
  by (induction part) (auto split: list.splits)

lemma split_on_last: "sep \<notin> set part \<Longrightarrow> split_on sep part = [part]"
  by (induction part) auto

lemma split_on_join_with: "\<forall>part \<in> set parts. sep \<notin> set part \<Longrightarrow> parts \<noteq> [] \<Longrightarrow> split_on sep (join_with [sep] parts) = parts"
  by (induction "[sep]" parts rule: join_with.induct) (auto simp: split_on_part split_on_last)

text \<open>\<open>s.splitlines()\<close> for text whose only line ends are \<open>\n\<close>: no empty line after the last one.\<close>

definition splitlines :: "string \<Rightarrow> string list" where
  "splitlines s = (let parts = split_on CHR 0x0A s in if last parts = [] then butlast parts else parts)"

text \<open>White space among the characters up to U+00FF, and \<open>s.strip()\<close>.\<close>

definition is_space :: "char \<Rightarrow> bool" where
  "is_space c \<longleftrightarrow> c \<in> {CHR '' '', CHR 0x09, CHR 0x0A, CHR 0x0B, CHR 0x0C, CHR 0x0D, CHR 0x1C, CHR 0x1D, CHR 0x1E, CHR 0x1F,
     CHR 0x85, CHR 0xA0}"

definition strip :: "string \<Rightarrow> string" where
  "strip s = rev (dropWhile is_space (rev (dropWhile is_space s)))"

text \<open>\<open>sub in s\<close>, \<open>s.count(sub)\<close> of a nonempty \<open>sub\<close> and \<open>s.index(sub)\<close>.\<close>

abbreviation in_text :: "string \<Rightarrow> string \<Rightarrow> bool" where
  "in_text sub s \<equiv> contains_sub sub s"

function count_sub :: "'a list \<Rightarrow> 'a list \<Rightarrow> nat" where
  "count_sub sub s =
     (if s = [] \<or> sub = [] then 0
      else if prefix sub s then Suc (count_sub sub (drop (length sub) s)) else count_sub sub (tl s))"
  by pat_completeness auto
termination by (relation "measure (\<lambda>(sub, s). length s)") auto

declare count_sub.simps [simp del]

definition index_sub :: "'a list \<Rightarrow> 'a list \<Rightarrow> nat res" where
  "index_sub sub s = (case find_sub sub s 0 of
     None \<Rightarrow> Inl (ValueError ''substring not found'') | Some i \<Rightarrow> Inr i)"

lemma find_at_prefix: "find_at k pat hay = Some i \<Longrightarrow> k \<le> i \<and> prefix pat (drop (i - k) hay)"
proof (induction k pat hay rule: find_at.induct)
  case (2 k pat x xs)
  show ?case
  proof (cases "prefix pat (x # xs)")
    case False
    with 2 have "Suc k \<le> i" "prefix pat (drop (i - Suc k) xs)" by auto
    moreover have "drop (i - k) (x # xs) = drop (i - Suc k) xs" using \<open>Suc k \<le> i\<close> by (simp add: drop_Cons' Suc_diff_le)
    ultimately show ?thesis by simp
  qed (use 2 in auto)
qed (auto split: if_splits)

lemma find_sub_prefix: "find_sub pat hay start = Some i \<Longrightarrow> prefix pat (drop i hay)"
  using find_at_prefix [of start pat "drop start hay" i]
  by (auto simp: find_sub_def split: if_splits)

lemma find_at_None: "find_at k pat hay = None \<Longrightarrow> j \<le> length hay \<Longrightarrow> \<not> prefix pat (drop j hay)"
proof (induction k pat hay arbitrary: j rule: find_at.induct)
  case (2 k pat x xs)
  then show ?case by (cases j) (auto split: if_splits)
qed (auto split: if_splits)

end
