(* ===== verification/Storage.thy ===== *)
theory Storage
  imports Interfaces Py_Text
begin

text \<open>
  Readers of the handsets' persistent structures: the startup copy records
  (\<open>tools/dct3_startup_records.py\<close>), the linked PMM catalogue (\<open>tools/dct3_pmm_catalog.py\<close>) and
  the PMM write journal (\<open>tools/nse5_pmm_journal.py\<close>).  Each is a loop over offsets of an image; the
  termination proofs show that every offset moves forward.
\<close>

section \<open>Startup copy records\<close>

lemma align4: "(x AND NOT 3 :: int) = 4 * (x div 4)"
proof -
  have "x AND NOT 3 = push_bit 2 (drop_bit 2 x)"
  proof (rule bit_eqI)
    fix n
    have "bit (3 :: int) n \<longleftrightarrow> n < 2"
      by (simp add: bit_mask_iff flip: mask_eq_exp_minus_1 [of 2, where ?'a = int, simplified])
    then show "bit (x AND NOT 3) n = bit (push_bit 2 (drop_bit 2 x)) n"
      by (cases "n < 2") (auto simp: bit_simps le_Suc_ex simp del: add_2_eq_Suc add_2_eq_Suc')
  qed
  then show ?thesis by (simp add: push_bit_eq_mult drop_bit_eq_div)
qed

lemmas align4' = align4 [simplified]

type_synonym startup_record = "int \<times> int \<times> bytes"

definition read_be32 :: "bytes \<Rightarrow> int \<Rightarrow> int" where
  "read_be32 img offset = from_be (slice (nat offset) (nat offset + 4) img)"

lemma read_be32_nonneg: "0 \<le> read_be32 img offset"
  using from_be_bound by (simp add: read_be32_def)

function startup_loop :: "bytes \<Rightarrow> int \<Rightarrow> startup_record list \<Rightarrow> int \<Rightarrow> (startup_record list \<times> int) res" where
  "startup_loop img image_base records cursor =
     (if cursor < 0 \<or> cursor + 4 > int (length img)
      then Inl (ValueError ''truncated startup size/terminator'')
      else let size = read_be32 img cursor in
        if size = 0 then Inr (records, image_base + cursor + 4)
        else if cursor + 8 > int (length img) \<or> size > int (length img) - cursor - 8
        then Inl (ValueError ''truncated startup record'')
        else let destination = read_be32 img (cursor + 4) in
          if destination + size > 0x100000000 then Inl (ValueError ''startup destination overflow'')
          else let start = cursor + 8 in
            startup_loop img image_base
              (records @ [(image_base + start, destination, slice (nat start) (nat (start + size)) img)])
              ((start + size + 3) AND NOT 3))"
  by pat_completeness auto
termination
proof (relation "measure (\<lambda>(img, image_base, records, cursor). nat (int (length img) - cursor))", simp)
  fix img :: bytes and image_base cursor size destination start :: int and records :: "startup_record list"
  assume *: "\<not> (cursor < 0 \<or> cursor + 4 > int (length img))" "size = read_be32 img cursor" "start = cursor + 8"
  then have "0 \<le> size" by (simp add: read_be32_nonneg)
  then have "cursor < 4 * ((start + size + 3) div 4)" using *(3) by linarith
  then show "((img, image_base,
         records @ [(image_base + start, destination, slice (nat start) (nat (start + size)) img)],
         (start + size + 3) AND NOT 3), img, image_base, records, cursor)
      \<in> measure (\<lambda>(img, image_base, records, cursor). nat (int (length img) - cursor))"
    using *(1) by (simp add: align4')
qed

declare startup_loop.simps [simp del]

definition decode_startup_records :: "bytes \<Rightarrow> int \<Rightarrow> int \<Rightarrow> (startup_record list \<times> int) res" where
  "decode_startup_records img image_base table_address = startup_loop img image_base [] (table_address - image_base)"

text \<open>\<open>result[low - address:high - address] = ...\<close> and the same range of \<open>covered\<close>.\<close>

definition cover_record :: "int \<Rightarrow> nat \<Rightarrow> bytes \<times> bytes \<Rightarrow> startup_record \<Rightarrow> bytes \<times> bytes" where
  "cover_record address extent = (\<lambda>(result, covered) (source, destination, payload).
     let low = max address destination;
         high = min (address + int extent) (destination + int (length payload)) in
     if low < high
     then (slice_set (nat (low - address)) (nat (high - address))
             (slice (nat (low - destination)) (nat (high - destination)) payload) result,
           slice_set (nat (low - address)) (nat (high - address)) (replicate (nat (high - low)) 1) covered)
     else (result, covered))"

definition initialized_bytes :: "startup_record list \<Rightarrow> int \<Rightarrow> nat \<Rightarrow> bytes res" where
  "initialized_bytes records address extent =
     (case foldl (cover_record address extent) (replicate extent 0, replicate extent 0) records of
        (result, covered) \<Rightarrow>
          if \<forall>c \<in> set covered. c \<noteq> 0 then Inr result
          else Inl (ValueError ''uncovered startup destination''))"

text \<open>The specification: the last record that covers an address owns its byte.\<close>

fun last_writer :: "startup_record list \<Rightarrow> int \<Rightarrow> byte option" where
  "last_writer [] a = None"
| "last_writer ((source, destination, payload) # records) a =
     (case last_writer records a of
        Some b \<Rightarrow> Some b
      | None \<Rightarrow> if destination \<le> a \<and> a < destination + int (length payload)
                then Some (payload ! nat (a - destination)) else None)"

lemma last_writer_snoc:
  "last_writer (records @ [(source, destination, payload)]) a =
     (if destination \<le> a \<and> a < destination + int (length payload)
      then Some (payload ! nat (a - destination)) else last_writer records a)"
  by (induction records) (auto split: option.splits)

lemma cover_record_nth:
  assumes "length result = extent" "length covered = extent" "i < extent"
    and s_def: "s = cover_record address extent (result, covered) (source, destination, payload)"
    and hit_def: "hit \<longleftrightarrow> destination \<le> address + int i \<and> address + int i < destination + int (length payload)"
  shows "length (fst s) = extent" "length (snd s) = extent"
    "fst s ! i = (if hit then payload ! nat (address + int i - destination) else result ! i)"
    "snd s ! i = (if hit then 1 else covered ! i)"
proof -
  define low high where "low = max address destination" and "high = min (address + int extent) (destination + int (length payload))"
  have whole: "s = (if low < high then
      (slice_set (nat (low - address)) (nat (high - address))
         (slice (nat (low - destination)) (nat (high - destination)) payload) result,
       slice_set (nat (low - address)) (nat (high - address)) (replicate (nat (high - low)) 1) covered)
      else (result, covered))"
    unfolding s_def cover_record_def low_def high_def Let_def by simp
  have hit: "hit \<longleftrightarrow> low \<le> address + int i \<and> address + int i < high"
    using assms(3) by (auto simp: hit_def low_def high_def)
  have "length (fst s) = extent \<and> length (snd s) = extent \<and>
    fst s ! i = (if hit then payload ! nat (address + int i - destination) else result ! i) \<and>
    snd s ! i = (if hit then 1 else covered ! i)"
  proof (cases "low < high")
    case False
    then show ?thesis using assms(1-3) hit by (auto simp: whole)
  next
    case True
    let ?a = "nat (low - address)" and ?b = "nat (high - address)"
    have bounds: "?a \<le> ?b" "?b \<le> extent" "low \<ge> address" "low \<ge> destination" "high \<le> destination + int (length payload)"
      using True by (auto simp: low_def high_def)
    have len: "length (slice (nat (low - destination)) (nat (high - destination)) payload) = ?b - ?a"
      using bounds True by (simp add: nat_diff_distrib' min_def) linarith
    have idx: "?a \<le> i \<and> i < ?b \<longleftrightarrow> hit" using bounds True by (auto simp: hit)
    have pay: "slice (nat (low - destination)) (nat (high - destination)) payload ! (i - ?a)
        = payload ! nat (address + int i - destination)" if hit
    proof -
      have e: "nat (low - destination) + (i - ?a) = nat (address + int i - destination)"
        using that bounds unfolding hit by linarith
      have "i - ?a < nat (high - destination) - nat (low - destination)" using that bounds unfolding hit by linarith
      moreover have "nat (low - destination) + (i - ?a) < length payload" unfolding e using that by (simp add: hit_def) linarith
      ultimately show ?thesis by (simp add: nth_slice e)
    qed
    have s: "s = (slice_set ?a ?b (slice (nat (low - destination)) (nat (high - destination)) payload) result,
        slice_set ?a ?b (replicate (nat (high - low)) 1) covered)"
      using True by (simp add: whole)
    have len': "length (replicate (nat (high - low)) (1 :: byte)) = ?b - ?a" using bounds by simp
    show ?thesis unfolding s using bounds assms(1-3) len len' pay idx
      by (simp add: nth_slice_set) (metis idx diff_less_mono nth_replicate)
  qed
  then show "length (fst s) = extent" "length (snd s) = extent"
    "fst s ! i = (if hit then payload ! nat (address + int i - destination) else result ! i)"
    "snd s ! i = (if hit then 1 else covered ! i)" by blast+
qed

lemma cover_records:
  assumes "i < extent"
  shows "case foldl (cover_record address extent) (replicate extent 0, replicate extent 0) records of (result, covered) \<Rightarrow>
    length result = extent \<and> length covered = extent \<and>
    (case last_writer records (address + int i) of None \<Rightarrow> covered ! i = 0 | Some b \<Rightarrow> covered ! i = 1 \<and> result ! i = b)"
proof (induction records rule: rev_induct)
  case Nil
  then show ?case using assms by simp
next
  case (snoc r records)
  obtain source destination payload where r: "r = (source, destination, payload)" by (metis surj_pair)
  obtain result covered where f: "foldl (cover_record address extent) (replicate extent 0, replicate extent 0) records = (result, covered)"
    by (metis surj_pair)
  note step = cover_record_nth [of result extent covered i _ address source destination payload, OF _ _ _ refl refl]
  show ?case using snoc assms step by (auto simp: f r last_writer_snoc split: prod.splits option.splits)
qed

lemma initialized_bytes_iff:
  "initialized_bytes records address extent = Inr bs \<longleftrightarrow>
     length bs = extent \<and> (\<forall>i < extent. last_writer records (address + int i) = Some (bs ! i))"
proof -
  obtain result covered where f: "foldl (cover_record address extent) (replicate extent 0, replicate extent 0) records = (result, covered)"
    by (metis surj_pair)
  have c: "length result = extent \<and> length covered = extent \<and>
      (case last_writer records (address + int i) of None \<Rightarrow> covered ! i = 0 | Some b \<Rightarrow> covered ! i = 1 \<and> result ! i = b)"
    if "i < extent" for i
    using cover_records [OF that, where address = address and records = records] by (simp add: f)
  have len: "length result = extent \<and> length covered = extent"
  proof (cases extent)
    case 0
    have "foldl (cover_record address 0) ([], []) records = ([], [])" for records
    proof (induction records)
      case (Cons r records)
      have "cover_record address 0 ([], []) r = ([], [])"
        by (cases r) (simp add: cover_record_def Let_def)
      with Cons show ?case by simp
    qed simp
    with f 0 show ?thesis by simp
  qed (use c in blast)
  have c1: "last_writer records (address + int i) = None \<longleftrightarrow> covered ! i = 0" if "i < extent" for i
    using c [OF that] by (auto split: option.splits)
  have c2: "result ! i = b" if "i < extent" "last_writer records (address + int i) = Some b" for i b
    using c [OF that(1)] that(2) by simp
  have all: "(\<forall>c \<in> set covered. c \<noteq> 0) \<longleftrightarrow> (\<forall>i < extent. \<exists>b. last_writer records (address + int i) = Some b)"
  proof -
    have "covered ! i \<noteq> 0 \<longleftrightarrow> (\<exists>b. last_writer records (address + int i) = Some b)" if "i < extent" for i
      using c1 [OF that] by (cases "last_writer records (address + int i)") simp_all
    then show ?thesis unfolding all_set_conv_all_nth using len by simp
  qed
  show ?thesis
  proof
    assume "initialized_bytes records address extent = Inr bs"
    then have bs: "bs = result" and cov: "\<forall>i < extent. \<exists>b. last_writer records (address + int i) = Some b"
      using all by (auto simp: initialized_bytes_def f split: if_splits)
    have "last_writer records (address + int i) = Some (bs ! i)" if "i < extent" for i
      using cov c2 [OF that] that bs by metis
    then show "length bs = extent \<and> (\<forall>i < extent. last_writer records (address + int i) = Some (bs ! i))"
      using len bs by blast
  next
    assume bs: "length bs = extent \<and> (\<forall>i < extent. last_writer records (address + int i) = Some (bs ! i))"
    then have "result = bs" using len c2 by (intro nth_equalityI) auto
    moreover have "\<forall>c \<in> set covered. c \<noteq> 0" using all bs by blast
    ultimately show "initialized_bytes records address extent = Inr bs" by (simp add: initialized_bytes_def f)
  qed
qed

section \<open>The startup record format\<close>

text \<open>A record as the linker writes it: size, destination, payload, padding to a word.\<close>

definition pad4 :: "nat \<Rightarrow> nat" where
  "pad4 n = (4 - n mod 4) mod 4"

lemma pad4_cases:
  obtains q r where "n = 4 * q + r" "r < 4" "pad4 n = (if r = 0 then 0 else 4 - r)"
  by (rule that [of "n div 4" "n mod 4"]) (auto simp: pad4_def)

lemma pad4_align:
  assumes "n mod 4 = 0"
  shows "4 * ((int n + 8 + int m + 3) div 4) = int (n + (8 + m + pad4 m))"
proof -
  obtain k where k: "n = 4 * k" using assms by auto
  obtain q r where m: "m = 4 * q + r" "r < 4" "pad4 m = (if r = 0 then 0 else 4 - r)" by (rule pad4_cases)
  have "r = 0 \<or> r = 1 \<or> r = 2 \<or> r = 3" using m(2) by linarith
  moreover have "int n + 8 + int m + 3 = 4 * (int k + int q + 2) + (int r + 3)" by (simp add: k m(1))
  then have "(int n + 8 + int m + 3) div 4 = int k + int q + 2 + (int r + 3) div 4" by simp
  ultimately show ?thesis unfolding m(3) by (auto simp: k m(1))
qed

lemma pad4_mod:
  assumes "n mod 4 = 0"
  shows "(n + (8 + m + pad4 m)) mod 4 = 0"
proof -
  have "int (n + (8 + m + pad4 m)) mod 4 = 0" unfolding pad4_align [OF assms, symmetric] by simp
  then show ?thesis by (metis int_ops(1) nat_int_comparison(1) zmod_int of_nat_numeral)
qed

definition startup_entry :: "int \<times> bytes \<Rightarrow> bytes" where
  "startup_entry = (\<lambda>(destination, payload).
     rev (le_bytes 4 (int (length payload))) @ rev (le_bytes 4 destination) @ payload @ replicate (pad4 (length payload)) 0)"

definition startup_entry_ok :: "int \<times> bytes \<Rightarrow> bool" where
  "startup_entry_ok = (\<lambda>(destination, payload).
     payload \<noteq> [] \<and> int (length payload) < 0x100000000 \<and> 0 \<le> destination \<and> destination < 0x100000000 \<and> destination + int (length payload) \<le> 0x100000000)"

fun located :: "int \<Rightarrow> (int \<times> bytes) list \<Rightarrow> startup_record list" where
  "located a [] = []"
| "located a ((destination, payload) # entries) =
     (a + 8, destination, payload) # located (a + int (length (startup_entry (destination, payload)))) entries"

lemma read_be32_at:
  assumes "drop n img = rev (le_bytes 4 v) @ rest" "0 \<le> v" "v < 0x100000000"
  shows "read_be32 img (int n) = v"
proof -
  have "slice n (n + 4) img = rev (le_bytes 4 v)" by (simp add: slice_def assms(1))
  then show ?thesis using assms by (simp add: read_be32_def from_be_rev from_le_bytes)
qed

lemma startup_loop_entries:
  assumes "\<forall>e \<in> set entries. startup_entry_ok e" "n mod 4 = 0"
    "drop n img = concat (map startup_entry entries) @ replicate 4 0 @ rest" "n \<le> length img"
  shows "startup_loop img base records (int n) =
    Inr (records @ located (base + int n) entries, base + int n + int (length (concat (map startup_entry entries))) + 4)"
  using assms
proof (induction entries arbitrary: n records)
  case Nil
  have "rev (le_bytes 4 0) = replicate 4 0" by (simp add: numeral_eq_Suc)
  then have "read_be32 img (int n) = 0" using Nil(3) read_be32_at [of n img 0 rest] by simp
  moreover have "length (drop n img) = 4 + length rest" using Nil(3) by simp
  then have "int n + 4 \<le> int (length img)" using Nil(4) by simp
  ultimately show ?case by (simp add: startup_loop.simps)
next
  case (Cons e entries)
  obtain d p where e: "e = (d, p)" by (metis surj_pair)
  have ok: "p \<noteq> []" "int (length p) < 0x100000000" "0 \<le> d" "d < 0x100000000" "d + int (length p) \<le> 0x100000000"
    using Cons.prems(1) by (auto simp: e startup_entry_ok_def)
  have dn: "drop n img = rev (le_bytes 4 (int (length p))) @ rev (le_bytes 4 d) @ p @ replicate (pad4 (length p)) 0 @
      concat (map startup_entry entries) @ replicate 4 0 @ rest"
    using Cons.prems(3) by (simp add: e startup_entry_def)
  have len: "n + (8 + length p + pad4 (length p)) + 4 \<le> length img"
  proof -
    have "length (drop n img) = 8 + length p + pad4 (length p) + length (concat (map startup_entry entries)) + 4 + length rest"
      unfolding dn by simp
    then show ?thesis using Cons.prems(4) by simp
  qed
  have size: "read_be32 img (int n) = int (length p)"
    by (rule read_be32_at [OF dn]) (use ok in auto)
  have d4: "drop (n + 4) img = rev (le_bytes 4 d) @ p @ replicate (pad4 (length p)) 0 @
      concat (map startup_entry entries) @ replicate 4 0 @ rest"
    using arg_cong [OF dn, of "drop 4"] by (simp add: add.commute)
  have dest: "read_be32 img (int n + 4) = d"
    using read_be32_at [OF d4 ok(3,4)] by (simp add: add.commute)
  have d8: "drop (n + 8) img = p @ replicate (pad4 (length p)) 0 @ concat (map startup_entry entries) @ replicate 4 0 @ rest"
    using arg_cong [OF d4, of "drop 4"] by (simp add: add.commute)
  have pay: "slice (nat (int n + 8)) (nat (int n + 8 + int (length p))) img = p"
    by (simp add: slice_def nat_add_distrib d8)
  let ?m = "n + (8 + length p + pad4 (length p))"
  have next_cursor: "(int n + 8 + int (length p) + 3) AND NOT 3 = int ?m"
    unfolding align4 by (rule pad4_align [OF Cons.prems(2)])
  have "drop ?m img = concat (map startup_entry entries) @ replicate 4 0 @ rest"
    using arg_cong [OF d8, of "drop (length p + pad4 (length p))"] by (simp add: ac_simps)
  moreover have "?m mod 4 = 0" by (rule pad4_mod [OF Cons.prems(2)])
  ultimately have IH: "startup_loop img base r (int ?m) =
      Inr (r @ located (base + int ?m) entries, base + int ?m + int (length (concat (map startup_entry entries))) + 4)" for r
    using Cons.IH [of ?m r] Cons.prems(1) len by simp
  show ?case
    apply (subst startup_loop.simps)
    unfolding size dest pay next_cursor IH Let_def
    using ok len by (simp add: e startup_entry_def algebra_simps)
qed

section \<open>The PMM catalogue\<close>

record catalog_entry =
  entry_offset :: nat
  entry_type :: int
  entry_index :: int
  entry_flags :: bytes
  entry_payload :: bytes
  entry_next :: nat

definition catalog_magic :: bytes where
  "catalog_magic = [0x50, 0x4d, 0x4d, 0x43, 0x41, 0x54]"

definition fmt_hex :: "nat \<Rightarrow> string" where
  "fmt_hex n = ''0x'' @ digits 16 n"

definition entry_error :: "int \<Rightarrow> int \<Rightarrow> string \<Rightarrow> exn" where
  "entry_error kind index what = ValueError (''entry '' @ fmt_x 4 kind @ ''/'' @ fmt_x 4 index @ what)"

text \<open>The body of the \<open>while\<close> loop of \<open>parse_catalog\<close> at one offset: no entry at an erased word.\<close>

definition read_entry :: "bytes \<Rightarrow> nat \<Rightarrow> catalog_entry option res" where
  "read_entry img offset =
     (if offset + 12 > length img
      then Inl (ValueError (''PMMCAT entry header exceeds image at '' @ fmt_hex offset))
      else if slice offset (offset + 2) img = [0xff, 0xff] then Inr None
      else let kind = from_be (slice offset (offset + 2) img);
               index = from_be (slice (offset + 2) (offset + 4) img);
               flags = slice (offset + 4) (offset + 8) img;
               len = nat (from_be (slice (offset + 8) (offset + 10) img));
               next_offset = nat (from_be (slice (offset + 10) (offset + 12) img));
               payload_start = offset + 12;
               payload_end = payload_start + len in
        if payload_end > length img then Inl (entry_error kind index '' exceeds image'')
        else if next_offset \<noteq> 0 \<and> next_offset \<noteq> 0xffff \<and> next_offset \<noteq> payload_end
        then Inl (entry_error kind index ('' next '' @ fmt_hex next_offset @ '' != end '' @ fmt_hex payload_end))
        else Inr (Some \<lparr> entry_offset = offset, entry_type = kind, entry_index = index, entry_flags = flags,
                   entry_payload = slice payload_start payload_end img, entry_next = next_offset \<rparr>))"

definition entry_ok :: "bytes \<Rightarrow> nat \<Rightarrow> catalog_entry \<Rightarrow> bool" where
  "entry_ok img offset e \<longleftrightarrow> entry_offset e = offset \<and>
     (let payload_end = offset + 12 + length (entry_payload e) in
        payload_end \<le> length img \<and> entry_payload e = slice (offset + 12) payload_end img \<and>
        (entry_next e = 0 \<or> entry_next e = 0xffff \<or> entry_next e = payload_end))"

lemma read_entry_ok:
  assumes "read_entry img offset = Inr (Some e)"
  shows "entry_ok img offset e"
proof -
  let ?len = "nat (from_be (slice (offset + 8) (offset + 10) img))"
  let ?next = "nat (from_be (slice (offset + 10) (offset + 12) img))"
  have e: "entry_offset e = offset" "entry_payload e = slice (offset + 12) (offset + 12 + ?len) img"
    "entry_next e = ?next" and ok: "offset + 12 + ?len \<le> length img"
    "?next = 0 \<or> ?next = 0xffff \<or> ?next = offset + 12 + ?len"
    using assms by (auto simp: read_entry_def Let_def split: if_splits)
  have "length (entry_payload e) = ?len" using ok(1) by (simp add: e(2))
  then show ?thesis unfolding entry_ok_def Let_def using e ok by metis
qed

text \<open>The \<open>while\<close> loop; \<open>seen\<close> is its set of visited offsets.\<close>

function catalog_loop :: "bytes \<Rightarrow> nat set \<Rightarrow> catalog_entry list \<Rightarrow> nat \<Rightarrow> catalog_entry list res" where
  "catalog_loop img seen entries offset =
     (if offset = 0 \<or> offset = 0xffff then Inr entries
      else if offset \<in> seen then Inl (ValueError (''PMMCAT record loop at '' @ fmt_hex offset))
      else case read_entry img offset of
             Inl e \<Rightarrow> Inl e
           | Inr None \<Rightarrow> Inr entries
           | Inr (Some e) \<Rightarrow> catalog_loop img (insert offset seen) (entries @ [e]) (entry_next e))"
  by pat_completeness auto
termination
proof (relation "measure (\<lambda>(img, seen, entries, offset).
        if offset = 0 \<or> offset = 0xffff then 0 else Suc (length img - offset))", simp)
  fix img seen offset entries b e
  assume *: "\<not> (offset = 0 \<or> offset = 0xffff)" "read_entry img offset = Inr b" "b = Some e"
  from read_entry_ok [of img offset e] *
  have "entry_next e = 0 \<or> entry_next e = 0xffff \<or> (offset < entry_next e \<and> entry_next e \<le> length img)"
    by (auto simp: entry_ok_def Let_def)
  then show "((img, insert offset seen, entries @ [e], entry_next e), img, seen, entries, offset)
     \<in> measure (\<lambda>(img, seen, entries, offset). if offset = 0 \<or> offset = 0xffff then 0 else Suc (length img - offset))"
    using *(1) by auto
qed

declare catalog_loop.simps [simp del]

definition parse_catalog :: "bytes \<Rightarrow> catalog_entry list res" where
  "parse_catalog img =
     (if slice 6 12 img \<noteq> catalog_magic then Inl (ValueError ''PMMCAT magic missing at offset 0x06'')
      else catalog_loop img {} [] 0x20)"

text \<open>\<open>except ValueError: pass\<close>; every other exception would propagate.\<close>

function find_catalogs_from :: "bytes \<Rightarrow> (nat \<times> catalog_entry list) list \<Rightarrow> nat \<Rightarrow> (nat \<times> catalog_entry list) list res" where
  "find_catalogs_from img catalogs start =
     (case find_sub catalog_magic img start of
        None \<Rightarrow> Inr catalogs
      | Some magic \<Rightarrow>
          if 6 \<le> magic
          then (case parse_catalog (drop (magic - 6) img) of
                  Inr entries \<Rightarrow> find_catalogs_from img (catalogs @ [(magic - 6, entries)]) (magic + 6)
                | Inl (ValueError message) \<Rightarrow> find_catalogs_from img catalogs (magic + 6)
                | Inl e \<Rightarrow> Inl e)
          else find_catalogs_from img catalogs (magic + 6))"
  by pat_completeness auto
termination
  by (relation "measure (\<lambda>(img, catalogs, start). Suc (length img) - start)")
    (auto dest!: find_sub_bounds simp: catalog_magic_def)

declare find_catalogs_from.simps [simp del]

definition find_catalogs :: "bytes \<Rightarrow> (nat \<times> catalog_entry list) list res" where
  "find_catalogs img = find_catalogs_from img [] 0"

text \<open>A chain of entries: every entry lies in the image and the next one starts where it ends.\<close>

fun entry_chain :: "bytes \<Rightarrow> nat \<Rightarrow> catalog_entry list \<Rightarrow> bool" where
  "entry_chain img offset [] \<longleftrightarrow> True"
| "entry_chain img offset (e # es) \<longleftrightarrow> entry_ok img offset e \<and>
     (es \<noteq> [] \<longrightarrow> entry_next e = offset + 12 + length (entry_payload e)) \<and>
     entry_chain img (entry_next e) es"

definition loop_message :: "nat \<Rightarrow> exn" where
  "loop_message offset = ValueError (''PMMCAT record loop at '' @ fmt_hex offset)"

text \<open>Offsets only grow, so the loop guard is never the one that stops the walk.\<close>

lemma read_entry_error: "read_entry img offset = Inl e \<Longrightarrow> (\<exists>message. e = ValueError message) \<and> (\<forall>n. e \<noteq> loop_message n)"
  by (auto simp: read_entry_def Let_def loop_message_def entry_error_def split: if_splits)

lemma catalog_loop_spec:
  assumes "\<forall>o' \<in> seen. o' < offset \<or> offset = 0 \<or> offset = 0xffff"
  shows "case catalog_loop img seen entries offset of
     Inr es \<Rightarrow> (\<exists>tail. es = entries @ tail \<and> entry_chain img offset tail)
   | Inl e \<Rightarrow> (\<exists>message. e = ValueError message) \<and> (\<forall>n. e \<noteq> loop_message n)"
  using assms
proof (induction img seen entries offset rule: catalog_loop.induct)
  case (1 img seen entries offset)
  show ?case
  proof (cases "offset = 0 \<or> offset = 0xffff")
    case True
    then show ?thesis by (simp add: catalog_loop.simps)
  next
    case False
    have fresh: "offset \<notin> seen" using "1.prems" False by auto
    show ?thesis
    proof (cases "read_entry img offset")
      case (Inl e)
      then show ?thesis using False fresh read_entry_error by (simp add: catalog_loop.simps [of img seen])
    next
      case (Inr r)
      show ?thesis
      proof (cases r)
        case None
        then show ?thesis using False fresh Inr by (simp add: catalog_loop.simps [of img seen])
      next
        case (Some e)
        have ok: "entry_ok img offset e" by (rule read_entry_ok) (simp add: Inr Some)
        have step: "catalog_loop img seen entries offset = catalog_loop img (insert offset seen) (entries @ [e]) (entry_next e)"
          using False fresh Inr Some by (simp add: catalog_loop.simps [of img seen])
        have ahead: "entry_next e = 0 \<or> entry_next e = 0xffff \<or> offset < entry_next e"
          using ok by (auto simp: entry_ok_def Let_def)
        have stop: "catalog_loop img (insert offset seen) (entries @ [e]) (entry_next e) = Inr (entries @ [e])"
          if "entry_next e = 0 \<or> entry_next e = 0xffff"
          using that by (simp add: catalog_loop.simps)
        have IH: "case catalog_loop img (insert offset seen) (entries @ [e]) (entry_next e) of
            Inr es \<Rightarrow> \<exists>tail. es = (entries @ [e]) @ tail \<and> entry_chain img (entry_next e) tail
          | Inl e \<Rightarrow> (\<exists>message. e = ValueError message) \<and> (\<forall>n. e \<noteq> loop_message n)"
          by (rule "1.IH" [OF _ _ Inr Some]) (use False fresh ahead "1.prems" in auto)
        show ?thesis unfolding step
        proof (cases "catalog_loop img (insert offset seen) (entries @ [e]) (entry_next e)")
          case (Inl x)
          then show "case catalog_loop img (insert offset seen) (entries @ [e]) (entry_next e) of
            Inr es \<Rightarrow> \<exists>tail. es = entries @ tail \<and> entry_chain img offset tail
          | Inl e \<Rightarrow> (\<exists>message. e = ValueError message) \<and> (\<forall>n. e \<noteq> loop_message n)" using IH by simp
        next
          case (Inr es)
          then obtain tail where t: "es = entries @ e # tail" "entry_chain img (entry_next e) tail" using IH by auto
          have "tail \<noteq> [] \<Longrightarrow> entry_next e = offset + 12 + length (entry_payload e)"
            using stop Inr t(1) ok by (auto simp: entry_ok_def Let_def)
          then show "case catalog_loop img (insert offset seen) (entries @ [e]) (entry_next e) of
            Inr es \<Rightarrow> \<exists>tail. es = entries @ tail \<and> entry_chain img offset tail
          | Inl e \<Rightarrow> (\<exists>message. e = ValueError message) \<and> (\<forall>n. e \<noteq> loop_message n)"
            using Inr t ok by auto
        qed
      qed
    qed
  qed
qed

lemma parse_catalog_spec:
  "case parse_catalog img of
     Inr es \<Rightarrow> slice 6 12 img = catalog_magic \<and> entry_chain img 0x20 es
   | Inl e \<Rightarrow> (\<exists>message. e = ValueError message) \<and> (\<forall>n. e \<noteq> loop_message n)"
  using catalog_loop_spec [where seen = "{}" and offset = "0x20" and img = img and entries = "[]"]
  by (auto simp: parse_catalog_def loop_message_def split: sum.splits)

lemma find_at_first: "find_at k pat hay = Some i \<Longrightarrow> j < i - k \<Longrightarrow> \<not> prefix pat (drop j hay)"
proof (induction k pat hay arbitrary: j rule: find_at.induct)
  case (2 k pat x xs)
  then show ?case by (cases j) (auto split: if_splits)
qed (auto split: if_splits)

lemma find_sub_first:
  assumes "find_sub pat hay start = Some i" "start \<le> j" "j < i"
  shows "\<not> prefix pat (drop j hay)"
  using find_at_first [of start pat "drop start hay" i "j - start"] assms
  by (auto simp: find_sub_def split: if_splits)

lemma find_sub_none:
  assumes "find_sub pat hay start = None" "start \<le> j" "j \<le> length hay"
  shows "\<not> prefix pat (drop j hay)"
  using find_at_None [of start pat "drop start hay" "j - start"] assms
  by (auto simp: find_sub_def split: if_splits)

definition magic_at :: "bytes \<Rightarrow> nat \<Rightarrow> bool" where
  "magic_at img k \<longleftrightarrow> k \<le> length img \<and> prefix catalog_magic (drop k img)"

lemma magic_apart:
  assumes "magic_at img k" "k < j" "j < k + 6"
  shows "\<not> magic_at img j"
proof
  assume "magic_at img j"
  then obtain t where t: "drop j img = catalog_magic @ t" by (auto simp: magic_at_def prefix_def)
  obtain u where u: "drop k img = catalog_magic @ u" using assms(1) by (auto simp: magic_at_def prefix_def)
  obtain i where i: "j = k + i" "0 < i" "i < 6"
    using assms(2,3) by (metis add_less_cancel_left less_imp_add_positive)
  have "drop j img = drop i (catalog_magic @ u)" using i(1) by (metis u drop_drop add.commute)
  moreover have "i = 1 \<or> i = 2 \<or> i = 3 \<or> i = 4 \<or> i = 5" using i by linarith
  ultimately show False unfolding t by (auto simp: catalog_magic_def)
qed

definition catalogs_before :: "bytes \<Rightarrow> nat \<Rightarrow> (nat \<times> catalog_entry list) set" where
  "catalogs_before img n = {(base, es). base + 6 < n \<and> magic_at img (base + 6) \<and> parse_catalog (drop base img) = Inr es}"

lemma catalogs_before_step:
  assumes "find_sub catalog_magic img start = Some magic"
  shows "catalogs_before img (magic + 6) = catalogs_before img start \<union>
    (if 6 \<le> magic then {(magic - 6, es) | es. parse_catalog (drop (magic - 6) img) = Inr es} else {})"
proof -
  have m: "magic_at img magic" "start \<le> magic"
    using find_sub_prefix [OF assms] find_sub_bounds [OF assms] by (auto simp: magic_at_def)
  have "magic_at img (base + 6) \<and> base + 6 < magic + 6 \<longleftrightarrow> magic_at img (base + 6) \<and> base + 6 < start \<or> base + 6 = magic" for base
    using magic_apart [OF m(1), of "base + 6"] find_sub_first [OF assms, of "base + 6"] m
    by (auto simp: magic_at_def) (metis magic_at_def not_less not_less_iff_gr_or_eq)+
  then show ?thesis unfolding catalogs_before_def by force
qed

lemma find_catalogs_from_spec:
  assumes "set catalogs = catalogs_before img start"
  shows "\<exists>cs. find_catalogs_from img catalogs start = Inr cs \<and>
    set cs = {(base, es). magic_at img (base + 6) \<and> parse_catalog (drop base img) = Inr es}"
  using assms
proof (induction img catalogs start rule: find_catalogs_from.induct)
  case (1 img catalogs start)
  show ?case
  proof (cases "find_sub catalog_magic img start")
    case None
    then have "\<And>k. magic_at img k \<Longrightarrow> k < start"
      using find_sub_none [OF None] by (meson magic_at_def not_less)
    then have "catalogs_before img start = {(base, es). magic_at img (base + 6) \<and> parse_catalog (drop base img) = Inr es}"
      by (auto simp: catalogs_before_def)
    then show ?thesis using None "1.prems" by (simp add: find_catalogs_from.simps [of img catalogs])
  next
    case (Some magic)
    note step = catalogs_before_step [OF Some]
    show ?thesis
    proof (cases "6 \<le> magic")
      case False
      then show ?thesis using "1.IH"(3) [OF Some False] "1.prems" Some step
        by (simp add: find_catalogs_from.simps [of img catalogs])
    next
      case True
      show ?thesis
      proof (cases "parse_catalog (drop (magic - 6) img)")
        case (Inr entries)
        then have "set (catalogs @ [(magic - 6, entries)]) = catalogs_before img (magic + 6)"
          using "1.prems" step True by auto
        then show ?thesis using "1.IH"(2) [OF Some True Inr] Some True Inr
          by (simp add: find_catalogs_from.simps [of img catalogs])
      next
        case (Inl e)
        then obtain message where e: "e = ValueError message"
          using parse_catalog_spec [of "drop (magic - 6) img"] by auto
        have "set catalogs = catalogs_before img (magic + 6)" using "1.prems" step True Inl by auto
        then show ?thesis using "1.IH"(1) [OF Some True Inl e] Some True Inl e
          by (simp add: find_catalogs_from.simps [of img catalogs])
      qed
    qed
  qed
qed

section \<open>Properties\<close>

text \<open>a table of well-formed startup records, written by the linker's format at a word-aligned
  place of any image and closed by a zero word, decodes to exactly those records in order, each with the
  address its payload was loaded from, and to the address behind the terminator.\<close>

theorem startup_roundtrip:
  assumes "\<forall>e \<in> set entries. startup_entry_ok e" "length before mod 4 = 0"
  shows "decode_startup_records (before @ concat (map startup_entry entries) @ replicate 4 0 @ rest)
      base (base + int (length before)) =
    Inr (located (base + int (length before)) entries,
         base + int (length before) + int (length (concat (map startup_entry entries))) + 4)"
  using startup_loop_entries [OF assms, of _ rest base "[]"] by (simp add: decode_startup_records_def)

theorem startup_roundtrip_witness:
  "decode_startup_records (concat (map startup_entry [(0x20000, [1, 2, 3]), (0x20001, [9])]) @ replicate 4 0 @ [7])
     0x200000 0x200000 = Inr ([(0x200008, 0x20000, [1, 2, 3]), (0x200014, 0x20001, [9])], 0x20001c)"
proof -
  have "\<forall>e \<in> set [(0x20000, [1, 2, 3]), (0x20001, [9])]. startup_entry_ok e" by (simp add: startup_entry_ok_def)
  from startup_roundtrip [OF this, of "[]" "[7]" "0x200000"] show ?thesis
    by (simp add: startup_entry_def pad4_def)
qed

text \<open>Reading initialized memory gives, for each address of the range, the byte of the
  last record that covers it, and raises when some address is covered by none.\<close>

theorem initialized_last_writer:
  "initialized_bytes records address extent =
     (case those (map (\<lambda>i. last_writer records (address + int i)) [0..<extent]) of
        Some bs \<Rightarrow> Inr bs
      | None \<Rightarrow> Inl (ValueError ''uncovered startup destination''))"
proof -
  have those_iff: "those xs = Some ys \<longleftrightarrow> length ys = length xs \<and> (\<forall>i < length xs. xs ! i = Some (ys ! i))" for xs and ys :: bytes
  proof (induction xs arbitrary: ys)
    case (Cons x xs)
    then show ?case by (cases x; cases ys) (auto simp: nth_Cons' less_Suc_eq_0_disj)
  qed auto
  show ?thesis
  proof (cases "those (map (\<lambda>i. last_writer records (address + int i)) [0..<extent])")
    case (Some bs)
    then have "initialized_bytes records address extent = Inr bs"
      unfolding initialized_bytes_iff those_iff by simp
    then show ?thesis unfolding Some by simp
  next
    case None
    have "initialized_bytes records address extent \<noteq> Inr bs" for bs
      unfolding initialized_bytes_iff
    proof
      assume "length bs = extent \<and> (\<forall>i < extent. last_writer records (address + int i) = Some (bs ! i))"
      then have "those (map (\<lambda>i. last_writer records (address + int i)) [0..<extent]) = Some bs"
        unfolding those_iff by simp
      with None show False by simp
    qed
    moreover have "initialized_bytes records address extent = Inl (ValueError ''uncovered startup destination'') \<or>
        (\<exists>bs. initialized_bytes records address extent = Inr bs)"
      by (simp add: initialized_bytes_def split: prod.splits)
    ultimately show ?thesis unfolding None by simp
  qed
qed

text \<open>C10: parsing a catalogue either yields a chain of entries that lie inside the image, each starting
  where the one before it ends, or raises one of the format errors; the error for a record loop is never
  raised, because an accepted link always points forward.\<close>

theorem catalog_walk:
  "case parse_catalog img of
     Inr es \<Rightarrow> slice 6 12 img = catalog_magic \<and> entry_chain img 0x20 es
   | Inl e \<Rightarrow> (\<exists>message. e = ValueError message) \<and> (\<forall>n. e \<noteq> loop_message n)"
  by (rule parse_catalog_spec)

text \<open>the search returns normally on every image and finds exactly the offsets with the magic
  whose catalogue parses, each with its entries.\<close>

theorem find_catalogs_complete:
  "\<exists>cs. find_catalogs img = Inr cs \<and>
     set cs = {(base, es). magic_at img (base + 6) \<and> parse_catalog (drop base img) = Inr es}"
  unfolding find_catalogs_def by (rule find_catalogs_from_spec) (simp add: catalogs_before_def)

end
