(* ===== verification/Journal.thy ===== *)
theory Journal
  imports Interfaces Py_Text
begin

text \<open>
  Replay of the PMM write journal (\<open>tools/nse5_pmm_journal.py\<close>): a sector of variable-length write
  records is applied to a cache.  The reader is total: its cursor moves forward in the sector.
\<close>

section \<open>The replay loop\<close>

record journal_write =
  write_record :: nat
  write_source :: nat
  write_destination :: nat
  write_length :: nat

type_synonym journal_state = "bytes \<times> journal_write list \<times> nat"

definition read_be16 :: "bytes \<Rightarrow> nat \<Rightarrow> nat" where
  "read_be16 img offset = nat (from_be (slice offset (offset + 2) img))"

text \<open>\<open>(length + 1) & ~1\<close>.\<close>

definition even_length :: "nat \<Rightarrow> nat" where
  "even_length n = (n + 1) div 2 * 2"

text \<open>The length of the record and the offset behind it, read at the offset behind the header.\<close>

definition journal_length :: "bytes \<Rightarrow> nat \<Rightarrow> nat \<Rightarrow> nat \<Rightarrow> (nat \<times> nat) res" where
  "journal_length img sector_size header cursor =
     (let len = drop_bit 10 header in
      if len = 0
      then if cursor + 2 > sector_size then Inl (ValueError ''truncated extended journal length'')
           else Inr (read_be16 img cursor, cursor + 2)
      else Inr (len, cursor))"

text \<open>One record at \<open>cursor\<close>: its end when the journal stops there, otherwise the next state.\<close>

definition journal_record :: "bytes \<Rightarrow> nat \<Rightarrow> nat \<Rightarrow> journal_state \<Rightarrow> journal_state option res" where
  "journal_record img cache_size sector_size = (\<lambda>(cache, writes, cursor).
     let start = cursor;
         header = read_be16 img cursor in
     if header = 0xFFFF \<or> header AND 0x200 \<noteq> 0 then Inr None
     else rbind (journal_length img sector_size header (cursor + 2)) (\<lambda>(len, cursor).
       if header AND 0x100 \<noteq> 0 then Inl (ValueError ''deletion record requires a separate contract'')
       else if cursor + 2 > sector_size then Inl (ValueError ''truncated journal destination'')
       else let destination = read_be16 img cursor; cursor = cursor + 2 in
         if len = 0 \<or> cursor + len > sector_size \<or> destination + len > cache_size
         then Inl (ValueError ''journal write exceeds the observed sector/cache'')
         else Inr (Some
           (slice_set destination (destination + len) (slice cursor (cursor + len) img) cache,
            writes @ [\<lparr> write_record = start, write_source = cursor, write_destination = destination, write_length = len \<rparr>],
            cursor + even_length len))))"

lemma journal_length_forward: "journal_length img sector_size header cursor = Inr (len, cursor') \<Longrightarrow> cursor \<le> cursor'"
  by (auto simp: journal_length_def Let_def split: if_splits)

lemma journal_record_obtain:
  assumes "journal_record img cache_size sector_size (cache, writes, cursor) = Inr (Some s')"
  obtains c1 destination len where "cursor + 2 \<le> c1" "0 < len" "c1 + 2 + len \<le> sector_size"
    "destination + len \<le> cache_size"
    "s' = (slice_set destination (destination + len) (slice (c1 + 2) (c1 + 2 + len) img) cache,
        writes @ [\<lparr> write_record = cursor, write_source = c1 + 2, write_destination = destination, write_length = len \<rparr>],
        c1 + 2 + even_length len)"
proof -
  obtain len c1 where l: "journal_length img sector_size (read_be16 img cursor) (cursor + 2) = Inr (len, c1)"
    using assms by (auto simp: journal_record_def Let_def rbind_eq_Inr split: if_splits)
  show thesis
    by (rule that [OF journal_length_forward [OF l], of len "read_be16 img c1"])
      (use assms l in \<open>auto simp: journal_record_def Let_def split: if_splits\<close>)
qed

lemma even_length_ge: "n \<le> even_length n"
  unfolding even_length_def by presburger

lemma journal_record_forward:
  "journal_record img cache_size sector_size (cache, writes, cursor) = Inr (Some (cache', writes', cursor')) \<Longrightarrow> cursor < cursor'"
  by (erule journal_record_obtain) (use even_length_ge in auto)

function replay_loop :: "bytes \<Rightarrow> nat \<Rightarrow> nat \<Rightarrow> journal_state \<Rightarrow> (bytes \<times> journal_write list \<times> nat) res" where
  "replay_loop img cache_size sector_size (cache, writes, cursor) =
     (if cursor + 2 \<le> sector_size
      then (case journal_record img cache_size sector_size (cache, writes, cursor) of
              Inl e \<Rightarrow> Inl e
            | Inr None \<Rightarrow> Inr (cache, writes, cursor)
            | Inr (Some state) \<Rightarrow> replay_loop img cache_size sector_size state)
      else Inl (ValueError ''journal has no in-sector termination''))"
  by pat_completeness auto
termination
  by (relation "measure (\<lambda>(img, cache_size, sector_size, cache, writes, cursor). sector_size - cursor)")
    (auto dest: journal_record_forward)

declare replay_loop.simps [simp del]

definition replay :: "bytes \<Rightarrow> nat \<Rightarrow> nat \<Rightarrow> nat \<Rightarrow> (bytes \<times> journal_write list \<times> nat) res" where
  "replay img cache_size sector_size version =
     (if sector_size < 0x22 \<or> length img < sector_size \<or> slice 6 12 img \<noteq> [0x45, 0x45, 0x50, 0x52, 0x4f, 0x4d]
      then Inl (ValueError ''expected a complete EEPROM journal sector'')
      else if read_be16 img 0x18 \<noteq> version
      then Inl (ValueError ''sector is not accepted by the startup reader'')
      else replay_loop img cache_size sector_size (replicate cache_size 0, [], 0x20))"

section \<open>What a replay means\<close>

definition apply_write :: "bytes \<Rightarrow> bytes \<Rightarrow> journal_write \<Rightarrow> bytes" where
  "apply_write img cache w =
     slice_set (write_destination w) (write_destination w + write_length w)
       (slice (write_source w) (write_source w + write_length w) img) cache"

definition write_ok :: "nat \<Rightarrow> nat \<Rightarrow> journal_write \<Rightarrow> bool" where
  "write_ok cache_size sector_size w \<longleftrightarrow> 0 < write_length w \<and>
     write_record w < write_source w \<and> write_source w + write_length w \<le> sector_size \<and>
     write_destination w + write_length w \<le> cache_size"

text \<open>The invariant of the loop: the cache is the zeroed cache with the listed writes applied, every
  write is in bounds, and the records follow each other.\<close>

definition replay_inv :: "bytes \<Rightarrow> nat \<Rightarrow> nat \<Rightarrow> journal_state \<Rightarrow> bool" where
  "replay_inv img cache_size sector_size = (\<lambda>(cache, writes, cursor).
     length cache = cache_size \<and> cache = foldl (apply_write img) (replicate cache_size 0) writes \<and>
     (\<forall>w \<in> set writes. write_ok cache_size sector_size w \<and> write_source w + write_length w \<le> cursor) \<and>
     sorted_wrt (\<lambda>v w. write_source v + write_length v \<le> write_record w) writes)"

lemma journal_record_inv:
  assumes "journal_record img cache_size sector_size s = Inr (Some s')" "replay_inv img cache_size sector_size s"
    "sector_size \<le> length img"
  shows "replay_inv img cache_size sector_size s'"
proof -
  obtain cache writes cursor where s: "s = (cache, writes, cursor)" by (metis surj_pair)
  obtain cursor1 destination len where r: "cursor + 2 \<le> cursor1" "0 < len"
    "cursor1 + 2 + len \<le> sector_size" "destination + len \<le> cache_size"
    and s': "s' = (slice_set destination (destination + len) (slice (cursor1 + 2) (cursor1 + 2 + len) img) cache,
        writes @ [\<lparr> write_record = cursor, write_source = cursor1 + 2, write_destination = destination, write_length = len \<rparr>],
        cursor1 + 2 + even_length len)"
    by (rule journal_record_obtain [OF assms(1) [unfolded s]])
  have "len \<le> even_length len" by (rule even_length_ge)
  then show ?thesis using assms(2,3) r unfolding s s' replay_inv_def
    by (auto simp: apply_write_def write_ok_def sorted_wrt_append)
qed

lemma replay_loop_inv:
  assumes "replay_loop img cache_size sector_size s = Inr out" "replay_inv img cache_size sector_size s" "sector_size \<le> length img"
  shows "replay_inv img cache_size sector_size out \<and> snd (snd out) + 2 \<le> sector_size"
  using assms
proof (induction img cache_size sector_size s rule: replay_loop.induct)
  case (1 img cache_size sector_size cache writes cursor)
  from "1.prems"(1) have fits: "cursor + 2 \<le> sector_size"
    by (auto simp: replay_loop.simps split: if_splits)
  show ?case
  proof (cases "journal_record img cache_size sector_size (cache, writes, cursor)")
    case (Inl e)
    then show ?thesis using "1.prems"(1) fits by (simp add: replay_loop.simps)
  next
    case (Inr r)
    show ?thesis
    proof (cases r)
      case None
      then show ?thesis using "1.prems" fits Inr by (auto simp: replay_loop.simps)
    next
      case (Some s')
      have "replay_loop img cache_size sector_size s' = Inr out"
        using "1.prems"(1) fits Inr Some by (simp add: replay_loop.simps [of img cache_size sector_size cache])
      moreover have "replay_inv img cache_size sector_size s'"
        using journal_record_inv Inr Some "1.prems" by blast
      ultimately show ?thesis using "1.IH" [OF fits Inr Some] "1.prems"(3) by blast
    qed
  qed
qed

lemma replay_facts:
  assumes "replay img cache_size sector_size version = Inr (cache, writes, stop)"
  shows "cache = foldl (apply_write img) (replicate cache_size 0) writes \<and> length cache = cache_size \<and>
    (\<forall>w \<in> set writes. write_ok cache_size sector_size w \<and> write_source w + write_length w \<le> stop) \<and>
    sorted_wrt (\<lambda>v w. write_source v + write_length v \<le> write_record w) writes \<and> stop + 2 \<le> sector_size
    \<and> sector_size \<le> length img"
proof -
  have loop: "replay_loop img cache_size sector_size (replicate cache_size 0, [], 0x20) = Inr (cache, writes, stop)"
    and len: "sector_size \<le> length img"
    using assms by (auto simp: replay_def split: if_splits)
  have "replay_inv img cache_size sector_size (replicate cache_size 0, [], 0x20)" by (simp add: replay_inv_def)
  from replay_loop_inv [OF loop this len] len show ?thesis by (auto simp: replay_inv_def)
qed

text \<open>A replay that returns has applied exactly the writes it lists, in order, to a zeroed cache of
  the given size; every write lies inside the sector and the cache, no two records overlap, and the
  journal stopped inside the sector.\<close>

theorem journal_replay:
  assumes "replay img cache_size sector_size version = Inr (cache, writes, stop)"
  shows "cache = foldl (apply_write img) (replicate cache_size 0) writes \<and> length cache = cache_size \<and>
    (\<forall>w \<in> set writes. write_ok cache_size sector_size w) \<and>
    sorted_wrt (\<lambda>v w. write_source v + write_length v \<le> write_record w) writes \<and> stop + 2 \<le> sector_size"
  using replay_facts [OF assms] by blast

definition sample_journal :: bytes where
  "sample_journal = [0,0,0,0,0,0, 0x45,0x45,0x50,0x52,0x4f,0x4d] @ replicate 12 0 @ [0, 1] @ replicate 6 0 @
     [0x0c, 0x00, 0x00, 0x05, 0xaa, 0xbb, 0xcc, 0x00] @ [0xff, 0xff] @ replicate 22 0"

lemma sample_words:
  "read_be16 sample_journal 0x20 = 0x0c00" "read_be16 sample_journal 0x22 = 5"
  "read_be16 sample_journal 0x28 = 0xffff" "read_be16 sample_journal 0x18 = 1"
  "slice 6 12 sample_journal = [0x45, 0x45, 0x50, 0x52, 0x4f, 0x4d]" "length sample_journal = 0x40"
  "slice 0x24 0x27 sample_journal = [0xaa, 0xbb, 0xcc]"
  by (simp_all add: read_be16_def sample_journal_def slice_def from_be_def)

lemma sample_records:
  "journal_record sample_journal 16 0x30 (cache, writes, 0x20) =
     Inr (Some (slice_set 5 8 [0xaa, 0xbb, 0xcc] cache, writes @ [\<lparr> write_record = 0x20, write_source = 0x24,
       write_destination = 5, write_length = 3 \<rparr>], 0x28))"
  "journal_record sample_journal 16 0x30 (cache, writes, 0x28) = Inr None"
  by (simp_all add: journal_record_def journal_length_def sample_words even_length_def)

lemma sample_journal_replay:
  "replay sample_journal 16 0x30 1 =
     Inr (slice_set 5 8 [0xaa, 0xbb, 0xcc] (replicate 16 0),
       [\<lparr> write_record = 0x20, write_source = 0x24, write_destination = 5, write_length = 3 \<rparr>], 0x28)"
  by (simp add: replay_def sample_words replay_loop.simps [of _ _ _ _ _ "0x20"] replay_loop.simps [of _ _ _ _ _ "0x28"] sample_records)

theorem journal_replay_witness:
  "foldl (apply_write sample_journal) (replicate 16 0)
     [\<lparr> write_record = 0x20, write_source = 0x24, write_destination = 5, write_length = 3 \<rparr>] =
   [0, 0, 0, 0, 0, 0xaa, 0xbb, 0xcc, 0, 0, 0, 0, 0, 0, 0, 0]"
proof -
  have "slice_set 5 8 [0xaa, 0xbb, 0xcc] (replicate 16 0) =
      ([0, 0, 0, 0, 0, 0xaa, 0xbb, 0xcc, 0, 0, 0, 0, 0, 0, 0, 0] :: bytes)" by code_simp
  with journal_replay [OF sample_journal_replay] show ?thesis by (simp only:)
qed

end
