(* ===== verification/Sim_Card.thy ===== *)
theory Sim_Card
  imports Interfaces Py_Text
begin

text \<open>
  The persistent image of the laboratory SIM: its construction (\<open>tools/make_sim_card_profile.py\<close>),
  the validation of a phonebook update (\<open>tools/sim_phonebook_check.py\<close>) and the fixed-dialling
  extension (\<open>tools/sim_fdn_profile.py\<close>).  Error messages are kept without the values formatted into
  them.
\<close>

section \<open>The card profile\<close>

definition adn_size :: nat where "adn_size = 50 * 32"
definition loci_size :: nat where "loci_size = 11"
definition kc_size :: nat where "kc_size = 9"
definition bcch_size :: nat where "bcch_size = 16"
definition sms_record_size :: nat where "sms_record_size = 176"
definition sms_records :: nat where "sms_records = 10"
definition smsp_record_size :: nat where "smsp_record_size = 44"
definition smsp_records :: nat where "smsp_records = 2"

definition chv1 :: bytes where "chv1 = [0x31, 0x32, 0x33, 0x34, 0xff, 0xff, 0xff, 0xff]"
definition chv2 :: bytes where "chv2 = [0x35, 0x36, 0x37, 0x38, 0xff, 0xff, 0xff, 0xff]"
definition puk1 :: bytes where "puk1 = [0x31, 0x32, 0x33, 0x34, 0x35, 0x36, 0x37, 0x38]"
definition puk2 :: bytes where "puk2 = [0x38, 0x37, 0x36, 0x35, 0x34, 0x33, 0x32, 0x31]"

definition make_profile :: "bool \<Rightarrow> bytes" where
  "make_profile pin_enabled =
     (let img = replicate adn_size 0xff;
          loci = (replicate loci_size 0xff)[loci_size - 1 := 0x01];
          img = img @ loci;
          kc = (replicate kc_size 0xff)[kc_size - 1 := 0x07];
          img = img @ kc;
          img = img @ replicate bcch_size 0xff;
          img = img @ concat (replicate sms_records (0 # replicate (sms_record_size - 1) 0xff));
          smsp = (replicate (smsp_record_size * smsp_records) 0xff)[16 := 0xFD];
          smsp = slice_set 29 36 [0x06, 0x91, 0x21, 0x43, 0x65, 0x87, 0x09] smsp;
          img = img @ smsp;
          img = img @ chv1 @ chv2 @ puk1 @ puk2;
          img = img @ [3, 3, 10, 10, if pin_enabled then 1 else 0]
      in img @ [0, 0, 0])"

definition make_current_profile :: "bool \<Rightarrow> bytes" where
  "make_current_profile pin_enabled = make_profile pin_enabled @ [0x00, 0xf1, 0x10] @ replicate 43 0xff"

section \<open>The phonebook check\<close>

definition record_length :: nat where "record_length = 32"
definition record_count :: nat where "record_count = 50"
definition adn_length :: nat where "adn_length = record_length * record_count"
definition pre_sms_nvram_length :: nat where "pre_sms_nvram_length = adn_length"
definition pre_chv_nvram_length :: nat where
  "pre_chv_nvram_length = adn_length + 11 + 9 + 16 + (10 * 176) + (2 * 44)"
definition pre_acm_nvram_length :: nat where
  "pre_acm_nvram_length = pre_chv_nvram_length + (2 * 8) + (2 * 8) + 2 + 2 + 1"
definition pre_plmn_nvram_length :: nat where "pre_plmn_nvram_length = pre_acm_nvram_length + 3"
definition pre_smss_nvram_length :: nat where "pre_smss_nvram_length = pre_plmn_nvram_length + 36"
definition pre_aoc_nvram_length :: nat where "pre_aoc_nvram_length = pre_smss_nvram_length + 2"
definition current_nvram_length :: nat where "current_nvram_length = pre_aoc_nvram_length + 3 + 5"

definition supported_nvram_lengths :: "nat set" where
  "supported_nvram_lengths = {pre_sms_nvram_length, pre_chv_nvram_length, pre_acm_nvram_length,
     pre_plmn_nvram_length, pre_smss_nvram_length, pre_aoc_nvram_length, current_nvram_length}"

definition contact_record :: "bytes \<Rightarrow> bytes" where
  "contact_record name = slice_set 18 22 [0x03, 0x81, 0x21, 0xF3] (slice_set 0 (length name) name (replicate record_length 0xff))"

definition validate_phonebook_storage :: "bytes \<Rightarrow> bytes \<Rightarrow> unit res" where
  "validate_phonebook_storage img expected_name =
     (if length img \<notin> supported_nvram_lengths then Inl (ValueError ''SIM NVRAM has an unexpected length'')
      else if expected_name = [] \<or> length expected_name > 18
      then Inl (ValueError ''expected contact name must contain 1 to 18 bytes'')
      else if take record_length img \<noteq> contact_record expected_name
      then Inl (ValueError ''record 1 is not the expected GSM 11.11 record'')
      else if drop record_length (take adn_length img) \<noteq> replicate (adn_length - record_length) 0xff
      then Inl (ValueError ''the fixture modified more than one ADN record'')
      else Inr ())"

definition validate_phonebook :: "string \<Rightarrow> bytes \<Rightarrow> bytes \<Rightarrow> unit res" where
  "validate_phonebook trace img expected_name =
     (if \<not> in_text ''ins=dc p1=01 p2=04 p3=20 selected=6f3a'' trace
      then Inl (ValueError ''firmware did not issue absolute UPDATE RECORD for EF_ADN record 1'')
      else if \<not> in_text ''update fid=6f3a record=1 length=32'' trace
      then Inl (ValueError ''card did not commit the firmware EF_ADN update'')
      else validate_phonebook_storage img expected_name)"

section \<open>The fixed-dialling extension\<close>

definition fdn_header :: bytes where "fdn_header = [0x46, 0x44, 0x4e, 0x01]"
definition fdn_record_length :: nat where "fdn_record_length = 32"
definition fdn_record_count :: nat where "fdn_record_count = 10"
definition extended_length :: nat where
  "extended_length = current_nvram_length + 8 + fdn_record_length * fdn_record_count"

definition extend_card :: "bytes \<Rightarrow> bool \<Rightarrow> bytes res" where
  "extend_card base adn_access_when_invalid =
     (if length base \<noteq> current_nvram_length then Inl (ValueError ''complete base card required'')
      else Inr (base @ fdn_header @ [1, 1, if adn_access_when_invalid then 1 else 0, 0] @
             replicate (fdn_record_length * fdn_record_count) 0xff))"

definition expected_validity_card :: "bytes \<Rightarrow> int \<Rightarrow> bytes res" where
  "expected_validity_card before phase =
     (if phase \<notin> {0, 1, 2, 3} \<or> length before \<noteq> extended_length \<or> slice 3570 3575 before \<noteq> [0x46, 0x44, 0x4e, 0x01, 0x01]
      then Inl (ValueError ''known phase and extended FDN card required'')
      else if before ! 3575 \<noteq> (if phase \<in> {0, 3} then 1 else 0)
      then Inl (ValueError ''initial FDN validity differs'')
      else if phase \<in> {0, 2} then Inr (before[3575 := if phase = 0 then 0 else 1]) else Inr before)"

section \<open>Layout\<close>

lemmas sizes = adn_size_def loci_size_def kc_size_def bcch_size_def sms_record_size_def sms_records_def
  smsp_record_size_def smsp_records_def chv1_def chv2_def puk1_def puk2_def

lemmas nvram_lengths = adn_length_def record_length_def record_count_def pre_sms_nvram_length_def
  pre_chv_nvram_length_def pre_acm_nvram_length_def pre_plmn_nvram_length_def pre_smss_nvram_length_def
  pre_aoc_nvram_length_def current_nvram_length_def fdn_record_length_def fdn_record_count_def extended_length_def

lemma length_make_profile: "length (make_profile pin) = 3524"
  by (simp add: make_profile_def Let_def sizes length_concat sum_list_replicate)

lemma length_current_profile: "length (make_current_profile pin) = current_nvram_length"
  by (simp add: make_current_profile_def length_make_profile nvram_lengths)

lemma take_adn_profile: "take adn_length (make_profile pin) = replicate adn_length 0xff"
  by (simp add: make_profile_def Let_def sizes nvram_lengths)

lemma length_contact_record: "name \<noteq> [] \<Longrightarrow> length name \<le> 18 \<Longrightarrow> length (contact_record name) = 32"
  by (simp add: contact_record_def record_length_def)

text \<open>\<open>UPDATE RECORD\<close> number \<open>n\<close> of EF_ADN, as the card commits it.\<close>

definition update_record :: "nat \<Rightarrow> bytes \<Rightarrow> bytes \<Rightarrow> bytes" where
  "update_record n r img = slice_set (n * record_length) (n * record_length + record_length) r img"

lemma phonebook_storage_iff:
  "validate_phonebook_storage img name = Inr () \<longleftrightarrow>
     length img \<in> supported_nvram_lengths \<and> name \<noteq> [] \<and> length name \<le> 18 \<and>
     img = contact_record name @ replicate (adn_length - record_length) 0xff @ drop adn_length img"
  (is "_ \<longleftrightarrow> ?r")
proof -
  have len: "adn_length \<le> length img" if "length img \<in> supported_nvram_lengths"
    using that by (auto simp: supported_nvram_lengths_def nvram_lengths)
  have "take record_length img = take record_length (take adn_length img)" by (simp add: nvram_lengths)
  then have split: "img = take record_length img @ drop record_length (take adn_length img) @ drop adn_length img"
    by (metis append.assoc append_take_drop_id)
  show ?thesis
  proof
    assume "validate_phonebook_storage img name = Inr ()"
    then show ?r using split
      by (auto simp: validate_phonebook_storage_def split: if_splits)
  next
    assume r: ?r
    then have "length (contact_record name) = record_length" by (simp add: length_contact_record record_length_def)
    moreover obtain tail where img: "img = contact_record name @ replicate (adn_length - record_length) 0xff @ tail"
      using r by blast
    ultimately have "take record_length img = contact_record name"
      "drop record_length (take adn_length img) = replicate (adn_length - record_length) 0xff"
      by (simp_all add: nvram_lengths)
    with r show "validate_phonebook_storage img name = Inr ()" by (simp add: validate_phonebook_storage_def)
  qed
qed

section \<open>Properties\<close>

text \<open>a phonebook check succeeds exactly for an image of a supported length in which record 1 is
  the contact and every other phonebook record is erased.\<close>

theorem phonebook_check_exact:
  "validate_phonebook_storage img name = Inr () \<longleftrightarrow>
     length img \<in> supported_nvram_lengths \<and> name \<noteq> [] \<and> length name \<le> 18 \<and>
     img = contact_record name @ replicate (adn_length - record_length) 0xff @ drop adn_length img"
  by (rule phonebook_storage_iff)

lemma profile_parts: "\<exists>rest. make_current_profile pin = replicate adn_length 0xff @ rest"
  by (metis append_take_drop_id make_current_profile_def append.assoc take_adn_profile)

lemma update_first:
  assumes "length r = record_length"
  shows "update_record 0 r (replicate adn_length 0xff @ rest) = r @ replicate (adn_length - record_length) 0xff @ rest"
  by (simp add: update_record_def slice_set_def nvram_lengths)

text \<open>On a freshly made card of either PIN setting, writing the contact as record 1 of EF_ADN makes
  the phonebook check succeed, and on the untouched card it fails.\<close>

theorem fresh_card_update:
  assumes "name \<noteq> []" "length name \<le> 18"
  shows "validate_phonebook_storage (update_record 0 (contact_record name) (make_current_profile pin)) name = Inr () \<and>
    validate_phonebook_storage (make_current_profile pin) name \<noteq> Inr ()"
proof -
  obtain rest where rest: "make_current_profile pin = replicate adn_length 0xff @ rest" using profile_parts by blast
  have c: "length (contact_record name) = record_length" using length_contact_record [OF assms] by (simp add: record_length_def)
  have len: "length (replicate adn_length (0xff :: byte) @ rest) = current_nvram_length"
    using length_current_profile [of pin] by (simp only: rest)
  have up: "update_record 0 (contact_record name) (make_current_profile pin)
      = contact_record name @ replicate (adn_length - record_length) 0xff @ rest"
    unfolding rest by (rule update_first [OF c])
  have "length (contact_record name @ replicate (adn_length - record_length) 0xff @ rest) = current_nvram_length"
    using len c by (simp add: nvram_lengths)
  then have "validate_phonebook_storage (update_record 0 (contact_record name) (make_current_profile pin)) name = Inr ()"
    unfolding up phonebook_storage_iff using assms c by (simp add: supported_nvram_lengths_def) (simp add: nvram_lengths)
  moreover have "contact_record name ! 18 = 0x03"
    using assms by (simp add: contact_record_def nth_slice_set record_length_def)
  then have "take record_length (make_current_profile pin) \<noteq> contact_record name"
    unfolding rest by (auto simp: nvram_lengths dest!: arg_cong [where f = "\<lambda>xs. xs ! 18"])
  then have "validate_phonebook_storage (make_current_profile pin) name \<noteq> Inr ()"
    by (simp add: validate_phonebook_storage_def)
  ultimately show ?thesis by blast
qed

theorem fresh_card_update_witness:
  "validate_phonebook_storage (update_record 0 (contact_record [0x41, 0x44, 0x41]) (make_current_profile True)) [0x41, 0x44, 0x41] = Inr ()"
  using fresh_card_update [of "[0x41, 0x44, 0x41]" True] by simp

text \<open>the fixed-dialling extension accepts a freshly made card, and the four validity phases run in order on
  the extended card return it to where it started; each phase changes at most the validity byte.\<close>

theorem fdn_phases:
  "\<exists>c. extend_card (make_current_profile pin) access = Inr c \<and> length c = extended_length \<and>
     rfold (\<lambda>c phase. expected_validity_card c phase) c [0, 1, 2, 3] = Inr c \<and>
     rmap_list (expected_validity_card c) [0, 3] = Inr [c[3575 := 0], c] \<and>
     (\<forall>phase. expected_validity_card (c[3575 := 0]) phase =
        (if phase = 1 then Inr (c[3575 := 0]) else if phase = 2 then Inr c
         else if phase = 0 \<or> phase = 3 then Inl (ValueError ''initial FDN validity differs'')
         else Inl (ValueError ''known phase and extended FDN card required'')))"
proof -
  define p where "p = make_current_profile pin"
  have p: "length p = 3570" using length_current_profile [of pin] by (simp add: p_def nvram_lengths)
  define c where "c = p @ fdn_header @ [1, 1, if access then 1 else 0, 0] @ replicate (fdn_record_length * fdn_record_count) 0xff"
  have ext: "extend_card (make_current_profile pin) access = Inr c"
    using p by (simp add: extend_card_def c_def p_def nvram_lengths)
  have len: "length c = extended_length" using p by (simp add: c_def fdn_header_def nvram_lengths)
  have head: "slice 3570 3575 (c[3575 := b]) = [0x46, 0x44, 0x4e, 0x01, 0x01]" for b
    using p by (simp add: slice_def c_def fdn_header_def list_update_append)
  have at: "c ! 3575 = 1" using p by (simp add: c_def fdn_header_def nth_append)
  have c1: "c[3575 := 1] = c" using at by (metis list_update_id)
  have at': "c[3575 := b] ! 3575 = b" for b using len by (simp add: nvram_lengths)
  have phase: "expected_validity_card (c[3575 := b]) k =
      (if k \<notin> {0, 1, 2, 3} then Inl (ValueError ''known phase and extended FDN card required'')
       else if b \<noteq> (if k \<in> {0, 3} then 1 else 0) then Inl (ValueError ''initial FDN validity differs'')
       else if k \<in> {0, 2} then Inr (c[3575 := if k = 0 then 0 else 1]) else Inr (c[3575 := b]))" for b k
    using len head at' by (simp add: expected_validity_card_def)
  note phase1 = phase [of 1, unfolded c1]
  show ?thesis
    by (intro exI [of _ c] conjI ext len) (simp_all add: phase phase1 c1)
qed

end
