(* ===== verification/Eeprom_3210.thy ===== *)
theory Eeprom_3210
  imports Interfaces Py_Text
begin

text \<open>
  The synthetic 3210 EEPROM profile of \<open>tools/make_eeprom_profile.py\<close>: descriptors and the fallback
  constructor are located in the flash image, the records they own are provisioned, and the two
  checksums are written and validated.  A \<open>bytearray\<close> that a function changes in place is passed and
  returned; text arguments are ASCII.  Error messages are kept without the formatted values.
\<close>

section \<open>Constants\<close>

definition eeprom_size :: nat where "eeprom_size = 0x4000"
definition flash_base :: int where "flash_base = 0x200000"
definition security_xor :: bytes where "security_xor = [0x00, 0xFF, 0xFF, 0xFF]"
definition fallback_record_key :: int where "fallback_record_key = 0x0757"
definition fallback_record_length :: nat where "fallback_record_length = 400"
definition games_record_default :: "byte option list" where
  "games_record_default = [Some 0, Some 0, Some 0, None]"

definition display_profile_defaults :: "byte option list list" where
  "display_profile_defaults =
     [[Some 0x00, Some 0x09, Some 0x01, Some 0x34, Some 0x01, Some 0x04, Some 0x01, Some 0x01, Some 0x00, None, None, None],
      [Some 0x01, Some 0x08, Some 0x01, Some 0x34, Some 0x01, Some 0x04, None, Some 0x01, Some 0x00, None, None, None],
      [Some 0x00, Some 0x09, Some 0x01, Some 0x34, Some 0x01, Some 0x04, Some 0x01, Some 0x01, Some 0x00, None, None, None]]"

definition sum16_3210 :: "bytes \<Rightarrow> int" where
  "sum16_3210 data = byte_sum data AND 0xFFFF"

definition write_be32 :: "nat \<Rightarrow> int \<Rightarrow> bytes \<Rightarrow> bytes res" where
  "write_be32 offset v img = rbind (to_be 4 v) (\<lambda>bs. Inr (slice_set offset (offset + 4) bs img))"

definition write_be16 :: "nat \<Rightarrow> int \<Rightarrow> bytes \<Rightarrow> bytes res" where
  "write_be16 offset v img = rbind (to_be 2 v) (\<lambda>bs. Inr (slice_set offset (offset + 2) bs img))"

section \<open>Locating records in the flash image\<close>

definition descriptor_at :: "bytes \<Rightarrow> int \<Rightarrow> nat \<Rightarrow> nat \<Rightarrow> nat option" where
  "descriptor_at flash key len offset =
     (if from_be (slice offset (offset + 4) flash) \<noteq> key then None
      else let location_length = from_be (slice (offset + 4) (offset + 8) flash);
               location = drop_bit 16 location_length in
        if location_length AND 0xFFFF = int len \<and> location + int len \<le> int eeprom_size
        then Some (nat location) else None)"

text \<open>\<open>range(0, len(flash) - 7, 4)\<close>.\<close>

definition find_nv_descriptor :: "bytes \<Rightarrow> int \<Rightarrow> nat \<Rightarrow> nat res" where
  "find_nv_descriptor flash key len =
     (case List.map_filter (descriptor_at flash key len) (map (\<lambda>k. 4 * k) [0..<(length flash - 7 + 3) div 4]) of
        [location] \<Rightarrow> Inr location
      | _ \<Rightarrow> Inl (ValueError ''NV descriptor has no single usable match''))"

record fallback_layout =
  fb_constructor :: int
  fb_header_source :: int
  fb_body_source :: int
  fb_location :: nat

definition fallback_pattern :: "(int \<times> int) list" where
  "fallback_pattern =
     [(0x1c20, 0xffff), (0x4900, 0xff00), (0x2209, 0xffff),
      (0xf000, 0xf800), (0xf800, 0xf800), (0x4900, 0xff00),
      (0x2009, 0xffff), (0x1900, 0xffff), (0x22ff, 0xffff),
      (0x3288, 0xffff), (0xf000, 0xf800), (0xf800, 0xf800),
      (0x2000, 0xffff), (0x9000, 0xffff), (0x1c20, 0xffff),
      (0x4900, 0xff00), (0x4a00, 0xff00), (0x1c2b, 0xffff),
      (0xf000, 0xf800), (0xf800, 0xf800)]"

definition literal :: "bytes \<Rightarrow> nat \<Rightarrow> int \<Rightarrow> int res" where
  "literal flash offset instruction =
     (let pool = (offset + 4) div 4 * 4 + nat (instruction AND 255) * 4 in
      if pool + 4 > length flash then Inl (ValueError ''fallback constructor literal is outside flash'')
      else Inr (from_be (slice pool (pool + 4) flash)))"

text \<open>The payload bytes of the constructor are read through the byte-lane swap of the flash image.\<close>

definition lane_index :: "int \<Rightarrow> nat \<Rightarrow> nat" where
  "lane_index source i = nat ((source - flash_base + int i) XOR 1)"

definition payload_outside :: "bytes \<Rightarrow> int \<Rightarrow> nat \<Rightarrow> bool" where
  "payload_outside flash source count \<longleftrightarrow> source < flash_base \<or> (\<exists>i \<in> set [0..<count]. lane_index source i \<ge> length flash)"

definition half_words :: "bytes \<Rightarrow> nat \<Rightarrow> nat \<Rightarrow> int list" where
  "half_words flash offset n = be_words (slice offset (offset + 2 * n) flash)"

definition selector_ok :: "bytes \<Rightarrow> nat \<Rightarrow> bool" where
  "selector_ok flash offset =
     (let selector = half_words flash (offset - 0x3e) 4;
          branch = selector ! 3;
          displacement = (branch AND 255) - (if branch AND 128 \<noteq> 0 then 256 else 0);
          target = int offset - 0x38 + 4 + displacement * 2;
          prologue = half_words flash (offset - 0x56) 4
      in take 3 selector = [0x2500, 0x1c28, 0x2800] \<and> branch AND 0xff00 = 0xd000 \<and> target = int offset \<and>
         prologue = [0xb530, 0xb081, 0x20ff, 0x3091])"

definition fallback_match :: "bytes \<Rightarrow> nat \<Rightarrow> fallback_layout list res" where
  "fallback_match flash anchor =
     (let offset = anchor - 4 in
      if anchor \<ge> 0x56 + 4 \<and> even offset \<and> offset + 40 \<le> length flash
      then let words = half_words flash offset 20 in
        if (\<forall>(word, v, mask) \<in> set (zip words fallback_pattern). word AND mask = v) \<and> selector_ok flash offset
        then rbind (literal flash (offset + 30) (words ! 15)) (\<lambda>key.
          if key = fallback_record_key
          then rbind (literal flash (offset + 2) (words ! 1)) (\<lambda>header.
               rbind (literal flash (offset + 10) (words ! 5)) (\<lambda>body.
                 if payload_outside flash header 9 \<or> payload_outside flash body 391
                 then Inl (ValueError ''fallback payload source is outside flash'')
                 else rbind (find_nv_descriptor flash fallback_record_key fallback_record_length) (\<lambda>location.
                   Inr [\<lparr> fb_constructor = flash_base + int offset - 0x56, fb_header_source = header,
                          fb_body_source = body, fb_location = location \<rparr>])))
          else Inr [])
        else Inr []
      else Inr [])"

text \<open>\<open>anchor = flash.find(b'\x22\x09', anchor + 1)\<close> until it finds nothing.\<close>

function fallback_loop :: "bytes \<Rightarrow> fallback_layout list \<Rightarrow> nat \<Rightarrow> fallback_layout list res" where
  "fallback_loop flash matches start =
     (case find_sub [0x22, 0x09] flash start of
        None \<Rightarrow> Inr matches
      | Some anchor \<Rightarrow>
          (case fallback_match flash anchor of
             Inl e \<Rightarrow> Inl e
           | Inr found \<Rightarrow> fallback_loop flash (matches @ found) (anchor + 1)))"
  by pat_completeness auto
termination
  by (relation "measure (\<lambda>(flash, matches, start). Suc (length flash) - start)") (auto dest!: find_sub_bounds)

declare fallback_loop.simps [simp del]

definition find_fallback_layout :: "bytes \<Rightarrow> fallback_layout res" where
  "find_fallback_layout flash =
     rbind (fallback_loop flash [] 0) (\<lambda>matches.
       case matches of
         [layout] \<Rightarrow> Inr layout
       | _ \<Rightarrow> Inl (ValueError ''NV fallback constructor has no single usable match''))"

definition fallback_record :: "bytes \<Rightarrow> fallback_layout \<Rightarrow> bytes res" where
  "fallback_record flash layout =
     (if payload_outside flash (fb_header_source layout) 9 \<or> payload_outside flash (fb_body_source layout) 391
      then Inl (ValueError ''fallback payload source is outside flash'')
      else Inr (map (\<lambda>i. flash ! lane_index (fb_header_source layout) i) [0..<9] @
                map (\<lambda>i. flash ! lane_index (fb_body_source layout) i) [0..<391]))"

section \<open>Checksums\<close>

definition config_sum :: "bytes \<Rightarrow> int" where
  "config_sum img = (byte_sum (slice 0x0120 0x0244 img) - uint (img ! 0x0154) - uint (img ! 0x0155)) AND 0xFFFF"

definition validate_checksums :: "bytes \<Rightarrow> unit res" where
  "validate_checksums img =
     (if length img \<noteq> eeprom_size then Inl (ValueError ''EEPROM profile must contain exactly 16384 bytes'')
      else if sum16_3210 (take (0x0120 - 2) img) \<noteq> from_be (slice 0x011C 0x0120 img)
      then Inl (ValueError ''tune/security checksum mismatch'')
      else if config_sum img \<noteq> from_be (slice 0x0244 0x0246 img)
      then Inl (ValueError ''config checksum mismatch'')
      else Inr ())"

section \<open>Identity and security records\<close>

definition is_digit :: "char \<Rightarrow> bool" where
  "is_digit c \<longleftrightarrow> 48 \<le> char_code c \<and> char_code c \<le> 57"

definition isdigit :: "string \<Rightarrow> bool" where
  "isdigit s \<longleftrightarrow> s \<noteq> [] \<and> (\<forall>c \<in> set s. is_digit c)"

definition digit_int :: "char \<Rightarrow> nat" where
  "digit_int c = char_code c - 48"

definition imei_total :: "string \<Rightarrow> nat" where
  "imei_total s = foldl (\<lambda>total (index, digit).
     let v = (if odd index then digit * 2 else digit) in total + v div 10 + v mod 10) 0
     (zip [0..<length s] (map digit_int s))"

definition imei_check_digit :: "string \<Rightarrow> string res" where
  "imei_check_digit first_fourteen =
     (if length first_fourteen \<noteq> 14 \<or> \<not> isdigit first_fourteen
      then Inl (ValueError ''IMEI identity must contain exactly fourteen digits'')
      else Inr (digits 10 (nat ((- int (imei_total first_fourteen)) mod 10))))"

definition provision_security_state :: "bytes \<Rightarrow> string \<Rightarrow> string \<Rightarrow> bytes res" where
  "provision_security_state img identity security_code =
     (if length identity \<noteq> 15 then Inl (ValueError ''formatted identity must contain exactly fifteen characters'')
      else if length security_code \<noteq> 5 \<or> \<not> isdigit security_code
      then Inl (ValueError ''security code must contain exactly five digits'')
      else let d = (\<lambda>i. digit_int (security_code ! i));
               code_bcd = [of_nat (d 0 * 16 + d 1), of_nat (d 2 * 16 + d 3), of_nat (d 4 * 16)];
               img = slice_set 0x0110 0x0113 code_bcd img;
               packed_code = 5 # code_bcd;
               encrypted = map (\<lambda>index. packed_code ! index XOR of_nat (char_code (identity ! (11 + index))) XOR
                             security_xor ! index) [0..<4];
               identity_sum = sum16_3210 (map (\<lambda>c. of_nat (char_code c)) identity @ [0x11]) in
        rbind (to_be 2 identity_sum) (\<lambda>stored.
          Inr (slice_set 0x06C8 0x06D0 (encrypted @ [0, 0] @ stored) img)))"

definition provision_security_identity :: "bytes \<Rightarrow> string \<Rightarrow> string \<Rightarrow> bytes res" where
  "provision_security_identity img first_fourteen security_code =
     (if length security_code \<noteq> 5 \<or> \<not> isdigit security_code
      then Inl (ValueError ''security code must contain exactly five digits'')
      else rbind (imei_check_digit first_fourteen) (\<lambda>check.
        let identity = first_fourteen @ check;
            identity_bcd = map (\<lambda>k. of_nat (digit_int (first_fourteen ! (2 * k)) * 16 + digit_int (first_fourteen ! (2 * k + 1)))) [0..<7] @ [0];
            img = slice_set 0x000C 0x0014 identity_bcd img
        in provision_security_state img identity security_code))"

section \<open>The profile\<close>

definition fallback_patches :: "(nat \<times> byte) list" where
  "fallback_patches =
     [(0x0150, 0x30), (0x0151, 0x00), (0x0152, 0x80), (0x0153, 0x90), (0x0170, 0x01), (0x0171, 0x00),
      (0x048C, 0x0A), (0x048D, 0x00), (0x048E, 0x0A), (0x048F, 0x80), (0x0394, 0x0A), (0x0395, 0x00),
      (0x0396, 0x0A), (0x0397, 0x80), (0x0398, 0x09), (0x0399, 0x00), (0x039A, 0x00), (0x039B, 0x00)]"

definition apply_patches :: "(nat \<times> byte) list \<Rightarrow> bytes \<Rightarrow> bytes" where
  "apply_patches patches img = foldl (\<lambda>img (address, v). img[address := v]) img patches"

text \<open>\<open>for field, value in enumerate(record): if value is not None: image[offset + field] = value\<close>;
  the extent checks of the caller keep every index inside the image.\<close>

definition write_fields :: "nat \<Rightarrow> byte option list \<Rightarrow> bytes \<Rightarrow> bytes" where
  "write_fields offset entries img = foldl (\<lambda>img (field, v).
     case v of None \<Rightarrow> img | Some b \<Rightarrow> img[offset + field := b]) img (zip [0..<length entries] entries)"

definition write_displays :: "nat \<Rightarrow> bytes \<Rightarrow> bytes" where
  "write_displays display_profile img = foldl (\<lambda>img (variant, entries).
     write_fields (display_profile + variant * 12) entries img) img
     (zip [0..<length display_profile_defaults] display_profile_defaults)"

definition write_games :: "nat \<Rightarrow> nat \<Rightarrow> bytes \<Rightarrow> bytes res" where
  "write_games games_record games_end img =
     (let games_bytes = int games_end - int games_record in
      if games_bytes \<le> 0 \<or> games_bytes mod 4 \<noteq> 0 \<or> games_bytes > 5 * 4
      then Inl (ValueError ''unsupported games NV record extent'')
      else Inr (foldl (\<lambda>img variant. write_fields (games_record + variant * 4) games_record_default img) img
             [0..<nat (games_bytes div 4)]))"

definition provision_identity :: "string option \<Rightarrow> string option \<Rightarrow> bytes \<Rightarrow> bytes res" where
  "provision_identity provisioned erased_code img =
     (case (provisioned, erased_code) of
        (Some prefix14, Some code) \<Rightarrow>
          Inl (ValueError ''choose either a provisioned identity or erased-identity security code'')
      | (Some prefix14, None) \<Rightarrow> provision_security_identity img prefix14 ''12345''
      | (None, Some code) \<Rightarrow> provision_security_state img (replicate 15 CHR ''?'') code
      | (None, None) \<Rightarrow> Inr img)"

definition write_checksums :: "bytes \<Rightarrow> bytes res" where
  "write_checksums img =
     (let img = slice_set 0x011C 0x0120 (replicate 4 0) img in
      rbind (write_be32 0x011C (sum16_3210 (take (0x0120 - 2) img)) img) (\<lambda>img.
      rbind (write_be16 0x0244 (config_sum img) img) (\<lambda>img.
      let img = foldl (\<lambda>img (start, finish). slice_set start finish (replicate (finish - start) 0) img) img
            [(0x02E0, 0x02EC), (0x0310, 0x0314), (0x0330, 0x0338)] in
      rbind (validate_checksums img) (\<lambda>_. Inr img))))"

definition build_profile_3210 :: "bytes \<Rightarrow> string option \<Rightarrow> string option \<Rightarrow> bytes res" where
  "build_profile_3210 flash provisioned_identity erased_identity_security_code =
     (let img = replicate eeprom_size 0xFF in
      rbind (find_fallback_layout flash) (\<lambda>fallback.
      rbind (fallback_record flash fallback) (\<lambda>payload.
      let img = slice_set (fb_location fallback) (fb_location fallback + fallback_record_length) payload img;
          img = apply_patches fallback_patches img in
      rbind (find_nv_descriptor flash 0x0749 12) (\<lambda>display_profile.
      if display_profile + length display_profile_defaults * 12 > eeprom_size
      then Inl (ValueError ''display profile variants extend outside EEPROM'')
      else let img = write_displays display_profile img in
        rbind (find_nv_descriptor flash 0x074C 4) (\<lambda>games_record.
        rbind (find_nv_descriptor flash 0x0757 400) (\<lambda>games_end.
        rbind (write_games games_record games_end img) (\<lambda>img.
        rbind (provision_identity provisioned_identity erased_identity_security_code img) write_checksums)))))))"

section \<open>The checksums always validate\<close>

lemma and_16_bound: "0 \<le> x AND 0xFFFF \<and> x AND 0xFFFF < 65536" for x :: int
  using take_bit_int_less_exp [of 16 x] take_bit_eq_mask [of 16 x] by (simp add: mask_eq_exp_minus_1)

lemma sum16_3210_bound: "0 \<le> sum16_3210 bs \<and> sum16_3210 bs < 65536"
  using and_16_bound [of "byte_sum bs"] by (simp add: sum16_3210_def)

lemma config_sum_bound: "0 \<le> config_sum img \<and> config_sum img < 65536"
  unfolding config_sum_def by (rule and_16_bound)

lemma le_bytes_4_low: "0 \<le> v \<Longrightarrow> v < 65536 \<Longrightarrow> \<exists>l h. le_bytes 4 v = [l, h, 0, 0]"
  by (simp add: numeral_eq_Suc div_pos_pos_trivial zdiv_zmult2_eq [symmetric] flip: zdiv_zmult2_eq)

lemma to_be_4_low:
  assumes "0 \<le> v" "v < 65536"
  obtains h l where "to_be 4 v = Inr [0, 0, h, l]" "from_be [0, 0, h, l] = v"
proof -
  obtain l h where "le_bytes 4 v = [l, h, 0, 0]" using le_bytes_4_low [OF assms] by blast
  then have "to_be 4 v = Inr [0, 0, h, l]" using assms by (simp add: to_be_def)
  then show thesis using that from_be_to_be by blast
qed

lemma byte_sum_slice_cong: "slice a b xs = slice a b ys \<Longrightarrow> byte_sum (slice a b xs) = byte_sum (slice a b ys)"
  by simp

lemma write_checksums_valid:
  assumes "length img = eeprom_size"
  shows "\<exists>out. write_checksums img = Inr out \<and> length out = eeprom_size \<and> validate_checksums out = Inr () \<and>
    slice 0 0x11C out = slice 0 0x11C img \<and> slice 0x120 0x244 out = slice 0x120 0x244 img \<and>
    slice 0x6C8 0x6D0 out = slice 0x6C8 0x6D0 img"
proof -
  have len: "length img = 0x4000" using assms by (simp add: eeprom_size_def)
  define z where "z = slice_set 0x011C 0x0120 (replicate 4 0) img"
  have z: "length z = 0x4000" using len by (simp add: z_def)
  obtain h l where w: "to_be 4 (sum16_3210 (take 0x11E z)) = Inr [0, 0, h, l]"
    "from_be [0, 0, h, l] = sum16_3210 (take 0x11E z)"
    using to_be_4_low sum16_3210_bound by blast
  define t where "t = slice_set 0x011C 0x0120 [0, 0, h, l] z"
  have t: "length t = 0x4000" using z by (simp add: t_def)
  obtain c where c: "to_be 2 (config_sum t) = Inr c" "length c = 2" "from_be c = config_sum t"
    using config_sum_bound [of t] from_be_to_be [of 2 "config_sum t"] by (auto simp: to_be_def)
  define u where "u = slice_set 0x0244 0x0246 c t"
  define out where "out = foldl (\<lambda>img (start, finish). slice_set start finish (replicate (finish - start) 0) img) u
      [(0x02E0, 0x02EC), (0x0310, 0x0314), (0x0330, 0x0338)]"
  have u: "length u = 0x4000" using t c by (simp add: u_def)
  have lo: "length out = 0x4000" using u by (simp add: out_def)
  have keep: "slice a b out = slice a b u" if "b \<le> 0x2E0 \<or> 0x338 \<le> a \<and> b \<le> 0x4000" for a b
    using that u by (auto simp: out_def slice_slice_set_disjoint)
  have keep_u: "slice a b u = slice a b t" if "b \<le> 0x244 \<or> 0x246 \<le> a \<and> b \<le> 0x4000" for a b
    using that t c by (auto simp: u_def slice_slice_set_disjoint)
  have keep_t: "slice a b t = slice a b img" if "b \<le> 0x11C \<or> 0x120 \<le> a \<and> b \<le> 0x4000" for a b
    using that z len by (auto simp: t_def z_def slice_slice_set_disjoint)
  have "take 0x11E t = take 0x11E z"
    using z len by (simp add: t_def z_def slice_set_def numeral_2_eq_2)
  then have tune: "sum16_3210 (take 0x11E out) = from_be (slice 0x11C 0x120 out)"
    using keep [of "0x11E" 0] keep_u [of "0x11E" 0] keep [of "0x120" "0x11C"] keep_u [of "0x120" "0x11C"] w(2) z
    by (simp add: slice_def [of 0] t_def slice_slice_set_same)
  have nths: "out ! i = t ! i" if "i < 0x244" for i
    using that t u c by (simp add: out_def u_def nth_slice_set)
  have conf: "config_sum out = from_be (slice 0x244 0x246 out)"
  proof -
    have "config_sum out = config_sum t"
      using keep [of "0x244" "0x120"] keep_u [of "0x244" "0x120"] by (simp add: config_sum_def nths)
    also have "\<dots> = from_be (slice 0x244 0x246 out)"
      using keep [of "0x246" "0x244"] c t by (simp add: u_def slice_slice_set_same)
    finally show ?thesis .
  qed
  have valid: "validate_checksums out = Inr ()"
    using lo tune conf by (simp add: validate_checksums_def eeprom_size_def)
  have "write_checksums img = Inr out"
    using valid w(1) c(1)
    by (simp add: write_checksums_def Let_def write_be32_def write_be16_def flip: z_def t_def u_def)
      (simp add: out_def)
  then show ?thesis using lo valid keep keep_u keep_t by (auto simp: eeprom_size_def)
qed

section \<open>The identity\<close>

definition luhn_value :: "nat \<Rightarrow> nat \<Rightarrow> nat" where
  "luhn_value index digit = (let v = (if odd index then digit * 2 else digit) in v div 10 + v mod 10)"

lemma imei_total_sum: "imei_total s = (\<Sum>i < length s. luhn_value i (digit_int (s ! i)))"
proof -
  have "foldl (\<lambda>total (index, digit). let v = (if odd index then digit * 2 else digit) in total + v div 10 + v mod 10) n xs
      = n + (\<Sum>(i, d) \<leftarrow> xs. luhn_value i d)" for n xs
    by (induction xs arbitrary: n) (auto simp: luhn_value_def Let_def)
  moreover have "zip [0..<length s] (map digit_int s) = map (\<lambda>i. (i, digit_int (s ! i))) [0..<length s]"
    by (rule nth_equalityI) auto
  ultimately show ?thesis
    by (simp add: imei_total_def comp_def interv_sum_list_conv_sum_set_nat atLeast0LessThan)
qed

lemma luhn_value_inj:
  assumes "d < 10" "e < 10" "luhn_value i d mod 10 = luhn_value i e mod 10"
  shows "d = e"
proof -
  have "\<forall>d \<in> set [0..<10]. \<forall>e \<in> set [0..<10]. \<forall>i \<in> set [0, 1 :: nat]. luhn_value i d mod 10 = luhn_value i e mod 10 \<longrightarrow> d = e"
    by code_simp
  moreover have "luhn_value i = luhn_value (i mod 2)" by (simp add: luhn_value_def fun_eq_iff)
  moreover have "i mod 2 \<in> set [0, 1]" by auto
  ultimately show ?thesis using assms by (metis atLeastLessThan_iff atLeastLessThan_upt zero_le)
qed

lemma digit_int_bound: "is_digit c \<Longrightarrow> digit_int c < 10"
  unfolding is_digit_def digit_int_def by linarith

lemma minus_mod_10: "x < 10 \<Longrightarrow> (10 - x) mod 10 = (if x = 0 then 0 else 10 - x)" for x :: nat
  by simp

lemma check_digit_mod: "nat ((- int t) mod 10) = (10 - t mod 10) mod 10"
proof -
  have r: "t mod 10 < 10" by simp
  have "int t mod 10 = int (t mod 10)" by (simp add: zmod_int)
  then have "(- int t) mod 10 = (if t mod 10 = 0 then 0 else 10 - int (t mod 10))"
    by (simp add: zmod_zminus1_eq_if)
  moreover have "nat (10 - int (t mod 10)) = 10 - t mod 10" using r by linarith
  ultimately show ?thesis by (simp only: minus_mod_10 [OF r]) simp
qed

lemma check_digit_char:
  assumes "length s = 14" "isdigit s"
  shows "imei_check_digit s = Inr [hex_char ((10 - imei_total s mod 10) mod 10)]"
  using assms by (simp add: imei_check_digit_def check_digit_mod digits_small)

lemma hex_char_inj: "m < 16 \<Longrightarrow> n < 16 \<Longrightarrow> hex_char m = hex_char n \<Longrightarrow> m = n"
  by (metis digit_of_hex_char option.inject)

lemma complement10_inj:
  assumes "(10 - a mod 10) mod 10 = (10 - b mod 10) mod 10"
  shows "a mod 10 = b mod (10 :: nat)"
proof -
  have a: "a mod 10 < 10" and b: "b mod 10 < 10" by simp_all
  show ?thesis using assms a b unfolding minus_mod_10 [OF a] minus_mod_10 [OF b] by (auto split: if_splits)
qed

lemma up_to_10: "a + (10 - a mod 10) = 10 * (a div 10 + 1)" for a :: nat
proof -
  define q r where "q = a div 10" and "r = a mod 10"
  have "a = 10 * q + r" "r < 10" by (simp_all add: q_def r_def)
  then show ?thesis unfolding q_def [symmetric] r_def [symmetric] by simp
qed

lemma complement10_sum: "(a + (10 - a mod 10) mod 10) mod 10 = (0 :: nat)"
proof -
  have "(a + (10 - a mod 10) mod 10) mod 10 = (a + (10 - a mod 10)) mod 10" by (simp only: mod_add_right_eq)
  then show ?thesis unfolding up_to_10 by simp
qed

lemma mod_add_cong_nat_cancel:
  assumes "(a + k) mod 10 = (b + k) mod (10 :: nat)"
  shows "a mod 10 = b mod 10"
proof -
  have "(a + (k + (10 - k mod 10))) mod 10 = (b + (k + (10 - k mod 10))) mod 10"
    using mod_add_cong [OF assms refl, of "10 - k mod 10"] by (simp only: add.assoc)
  then show ?thesis unfolding up_to_10 by (simp only: mod_mult_self2)
qed

section \<open>Every record stays inside the image\<close>

lemma find_nv_descriptor_bound: "find_nv_descriptor flash key len = Inr location \<Longrightarrow> location + len \<le> eeprom_size"
proof -
  assume f: "find_nv_descriptor flash key len = Inr location"
  let ?m = "List.map_filter (descriptor_at flash key len) (map (\<lambda>k. 4 * k) [0..<(length flash - 7 + 3) div 4])"
  have "?m = [location]"
    using f by (simp add: find_nv_descriptor_def split: list.splits)
  then have "location \<in> set ?m" by simp
  then obtain offset where "descriptor_at flash key len offset = Some location"
    by (auto simp: map_filter_def)
  then obtain v where "location = nat v" "v + int len \<le> int eeprom_size"
    and "v = drop_bit 16 (from_be (slice (offset + 4) (offset + 8) flash))"
    by (auto simp: descriptor_at_def Let_def split: if_splits)
  moreover from this(3) have "0 \<le> v" using from_be_bound by simp
  ultimately show ?thesis by linarith
qed

lemma length_apply_patches [simp]: "length (apply_patches patches img) = length img"
  by (induction patches arbitrary: img) (auto simp: apply_patches_def)

lemma length_write_fields [simp]: "length (write_fields offset es img) = length img"
proof -
  have "length (foldl (\<lambda>img (field, v). case v of None \<Rightarrow> img | Some b \<Rightarrow> img[offset + field := b]) img xs) = length img" for xs :: "(nat \<times> byte option) list"
    by (induction xs arbitrary: img) (auto split: option.splits)
  then show ?thesis by (simp add: write_fields_def)
qed

lemma length_write_displays [simp]: "length (write_displays n img) = length img"
proof -
  have "length (foldl (\<lambda>img (variant, es). write_fields (n + variant * 12) es img) img xs) = length img" for xs
    by (induction xs arbitrary: img) auto
  then show ?thesis by (simp add: write_displays_def)
qed

lemma length_write_games: "write_games g e img = Inr out \<Longrightarrow> length out = length img"
proof -
  have "length (foldl (\<lambda>img variant. write_fields (g + variant * 4) games_record_default img) img xs) = length img" for xs
    by (induction xs arbitrary: img) auto
  then show "write_games g e img = Inr out \<Longrightarrow> ?thesis"
    by (auto simp: write_games_def Let_def split: if_splits)
qed

lemma length_fallback_record: "fallback_record flash layout = Inr payload \<Longrightarrow> length payload = 400"
  by (auto simp: fallback_record_def split: if_splits)

lemma fallback_match_location:
  "fallback_match flash anchor = Inr found \<Longrightarrow> layout \<in> set found \<Longrightarrow>
   find_nv_descriptor flash fallback_record_key fallback_record_length = Inr (fb_location layout)"
  by (auto simp: fallback_match_def Let_def rbind_eq_Inr split: if_splits)

lemma fallback_loop_location:
  assumes "fallback_loop flash matches start = Inr found" "layout \<in> set found"
    "\<forall>l \<in> set matches. find_nv_descriptor flash fallback_record_key fallback_record_length = Inr (fb_location l)"
  shows "find_nv_descriptor flash fallback_record_key fallback_record_length = Inr (fb_location layout)"
  using assms
proof (induction flash matches start rule: fallback_loop.induct)
  case (1 flash matches start)
  then show ?case
    by (cases "find_sub [0x22, 0x09] flash start"; cases "fallback_match flash (the (find_sub [0x22, 0x09] flash start))")
      (auto simp: fallback_loop.simps [of flash matches] dest: fallback_match_location)
qed

lemma fallback_layout_bound:
  assumes "find_fallback_layout flash = Inr layout"
  shows "fb_location layout + 400 \<le> eeprom_size"
proof -
  have "fallback_loop flash [] 0 = Inr [layout]"
  proof -
    obtain ms where ms: "fallback_loop flash [] 0 = Inr ms"
      "(case ms of [layout] \<Rightarrow> Inr layout | _ \<Rightarrow> Inl (ValueError ''NV fallback constructor has no single usable match'')) = Inr layout"
      using assms by (auto simp: find_fallback_layout_def rbind_eq_Inr)
    then have "ms = [layout]" by (auto split: list.splits)
    with ms(1) show ?thesis by simp
  qed
  then have "find_nv_descriptor flash fallback_record_key fallback_record_length = Inr (fb_location layout)"
    using fallback_loop_location [of flash "[]" 0 "[layout]" layout] by simp
  from find_nv_descriptor_bound [OF this] show ?thesis by (simp add: fallback_record_length_def)
qed

lemma provision_security_state_spec:
  assumes "length img = eeprom_size" "length identity = 15" "length code = 5" "isdigit code"
  shows "\<exists>out. provision_security_state img identity code = Inr out \<and> length out = eeprom_size \<and>
    (\<forall>i < 4. out ! (0x6C8 + i) XOR of_nat (char_code (identity ! (11 + i))) XOR security_xor ! i = (5 # slice 0x110 0x113 out) ! i) \<and>
    slice 0x110 0x113 out = [of_nat (digit_int (code ! 0) * 16 + digit_int (code ! 1)),
      of_nat (digit_int (code ! 2) * 16 + digit_int (code ! 3)), of_nat (digit_int (code ! 4) * 16)] \<and>
    from_be (slice 0x6CE 0x6D0 out) = sum16_3210 (map (\<lambda>c. of_nat (char_code c)) identity @ [0x11]) \<and>
    slice 0 0x110 out = slice 0 0x110 img"
proof -
  let ?code = "[of_nat (digit_int (code ! 0) * 16 + digit_int (code ! 1)), of_nat (digit_int (code ! 2) * 16 + digit_int (code ! 3)), of_nat (digit_int (code ! 4) * 16)] :: bytes"
  let ?sum = "sum16_3210 (map (\<lambda>c. of_nat (char_code c)) identity @ [0x11])"
  let ?enc = "map (\<lambda>index. (5 # ?code) ! index XOR of_nat (char_code (identity ! (11 + index))) XOR security_xor ! index) [0..<4]"
  obtain stored where st: "to_be 2 ?sum = Inr stored" "length stored = 2" "from_be stored = ?sum"
    using sum16_3210_bound from_be_to_be [of 2 ?sum] by (auto simp: to_be_def)
  define mid where "mid = slice_set 0x110 0x113 ?code img"
  define out where "out = slice_set 0x6C8 0x6D0 (?enc @ [0, 0] @ stored) mid"
  have len: "length img = 0x4000" "length mid = 0x4000" "length out = 0x4000"
    using assms(1) st(2) by (simp_all add: mid_def out_def eeprom_size_def)
  have "provision_security_state img identity code = Inr out"
    using assms(2-4) st(1) by (simp add: provision_security_state_def Let_def out_def mid_def)
  moreover have code: "slice 0x110 0x113 out = ?code"
    using len st(2) by (simp add: out_def mid_def slice_slice_set_disjoint slice_slice_set_same)
  moreover have "slice 0x6CE 0x6D0 out = stored"
    using len(2) st(2) by (simp add: out_def slice_def slice_set_def)
  moreover have "out ! (0x6C8 + i) = ?enc ! i" if "i < 4" for i
    using len(2) st(2) that by (simp add: out_def nth_slice_set nth_append)
  then have "\<forall>i < 4. out ! (0x6C8 + i) XOR of_nat (char_code (identity ! (11 + i))) XOR security_xor ! i = (5 # slice 0x110 0x113 out) ! i"
    unfolding code by (simp add: xor_cancel)
  moreover have "slice 0 0x110 out = slice 0 0x110 img"
    using len st(2) by (simp add: out_def mid_def slice_slice_set_disjoint)
  ultimately show ?thesis using len st(3) by (simp add: eeprom_size_def)
qed

lemma length_provision_state: "length img = eeprom_size \<Longrightarrow> provision_security_state img identity code = Inr out \<Longrightarrow> length out = eeprom_size"
  using provision_security_state_spec [of img identity code]
  by (auto simp: provision_security_state_def split: if_splits)

lemma length_provision_security:
  assumes "length img = eeprom_size" "provision_security_identity img prefix14 code = Inr out"
  shows "length out = eeprom_size"
proof -
  obtain check img' where "provision_security_state img' (prefix14 @ check) code = Inr out" "length img' = eeprom_size"
    using assms by (auto simp: provision_security_identity_def Let_def rbind_eq_Inr eeprom_size_def split: if_splits)
  then show ?thesis by (metis length_provision_state)
qed

lemma length_provision_identity:
  "length img = eeprom_size \<Longrightarrow> provision_identity p e img = Inr out \<Longrightarrow> length out = eeprom_size"
  by (auto simp: provision_identity_def dest: length_provision_security length_provision_state split: option.splits)

section \<open>Properties\<close>

text \<open>a profile that is built has the size of the EEPROM and passes the checksum validation.\<close>

theorem profile_3210_valid:
  "case build_profile_3210 flash provisioned erased of
     Inr img \<Rightarrow> length img = eeprom_size \<and> validate_checksums img = Inr ()
   | Inl e \<Rightarrow> True"
proof (cases "build_profile_3210 flash provisioned erased")
  case (Inr img)
  then obtain layout payload img1 img2 where l: "find_fallback_layout flash = Inr layout"
    "fallback_record flash layout = Inr payload"
    and w: "\<exists>dp g e. write_games g e (write_displays dp (apply_patches fallback_patches
        (slice_set (fb_location layout) (fb_location layout + fallback_record_length) payload (replicate eeprom_size 0xFF)))) = Inr img1"
    "provision_identity provisioned erased img1 = Inr img2" "write_checksums img2 = Inr img"
    by (auto simp: build_profile_3210_def Let_def rbind_eq_Inr split: if_splits) blast
  have "length payload = 400" by (rule length_fallback_record [OF l(2)])
  then have "length img1 = eeprom_size"
    using w(1) fallback_layout_bound [OF l(1)] by (auto dest!: length_write_games simp: fallback_record_length_def)
  then have "length img2 = eeprom_size" using w(2) by (rule length_provision_identity)
  from write_checksums_valid [OF this] w(3) Inr show ?thesis by auto
qed simp

text \<open>writing the two checksums into any image of the right size succeeds: the validation at
  the end of the build never raises, and the summed regions and the security record keep their bytes.\<close>

theorem checksums_always_validate:
  assumes "length img = eeprom_size"
  shows "\<exists>out. write_checksums img = Inr out \<and> length out = eeprom_size \<and> validate_checksums out = Inr () \<and>
    slice 0 0x11C out = slice 0 0x11C img \<and> slice 0x120 0x244 out = slice 0x120 0x244 img \<and>
    slice 0x6C8 0x6D0 out = slice 0x6C8 0x6D0 img"
  using assms by (rule write_checksums_valid)

theorem checksums_always_validate_witness:
  "\<exists>out. write_checksums (replicate eeprom_size 0xFF) = Inr out \<and> validate_checksums out = Inr ()"
  using checksums_always_validate [of "replicate eeprom_size 0xFF"] by auto

text \<open>Provisioning an identity stores its BCD digits, and a verifier record from which the identity's
  last characters and the fixed mask give back the stored security code.\<close>

theorem security_record:
  assumes "length img = eeprom_size" "length s = 14" "isdigit s" "length code = 5" "isdigit code"
  shows "\<exists>check out. imei_check_digit s = Inr [check] \<and> provision_security_identity img s code = Inr out \<and>
    length out = eeprom_size \<and>
    slice 0x0C 0x14 out = map (\<lambda>k. of_nat (digit_int (s ! (2 * k)) * 16 + digit_int (s ! (2 * k + 1)))) [0..<7] @ [0] \<and>
    (\<forall>i < 4. out ! (0x6C8 + i) XOR of_nat (char_code ((s @ [check]) ! (11 + i))) XOR security_xor ! i = (5 # slice 0x110 0x113 out) ! i) \<and>
    slice 0x110 0x113 out = [of_nat (digit_int (code ! 0) * 16 + digit_int (code ! 1)),
      of_nat (digit_int (code ! 2) * 16 + digit_int (code ! 3)), of_nat (digit_int (code ! 4) * 16)]"
proof -
  let ?c = "hex_char ((10 - imei_total s mod 10) mod 10)"
  let ?bcd = "map (\<lambda>k. of_nat (digit_int (s ! (2 * k)) * 16 + digit_int (s ! (2 * k + 1)))) [0..<7] @ [0]"
  let ?mid = "slice_set 0x0C 0x14 ?bcd img"
  have c: "imei_check_digit s = Inr [?c]" by (rule check_digit_char [OF assms(2,3)])
  have len: "length img = 0x4000" "length ?mid = eeprom_size" using assms(1) by (simp_all add: eeprom_size_def)
  obtain out where o: "provision_security_state ?mid (s @ [?c]) code = Inr out" "length out = eeprom_size"
    "\<forall>i < 4. out ! (0x6C8 + i) XOR of_nat (char_code ((s @ [?c]) ! (11 + i))) XOR security_xor ! i = (5 # slice 0x110 0x113 out) ! i"
    "slice 0x110 0x113 out = [of_nat (digit_int (code ! 0) * 16 + digit_int (code ! 1)),
      of_nat (digit_int (code ! 2) * 16 + digit_int (code ! 3)), of_nat (digit_int (code ! 4) * 16)]"
    "slice 0 0x110 out = slice 0 0x110 ?mid"
    using provision_security_state_spec [OF len(2) _ assms(4,5), of "s @ [?c]"] assms(2) by auto
  have "provision_security_identity img s code = Inr out"
    using assms(4,5) c o(1) by (simp add: provision_security_identity_def Let_def)
  moreover have "slice 0x0C 0x14 out = ?bcd"
  proof -
    have "slice 0x0C 0x14 out = slice 0x0C 0x14 (slice 0 0x110 out)" by (simp add: slice_def drop_take)
    also have "\<dots> = slice 0x0C 0x14 ?mid" unfolding o(5) by (simp add: slice_def drop_take)
    also have "\<dots> = ?bcd" by (rule slice_slice_set_same) (simp_all add: len)
    finally show ?thesis .
  qed
  ultimately show ?thesis using c o by blast
qed

theorem security_record_witness:
  "\<exists>check out. imei_check_digit ''49054410901987'' = Inr [check] \<and>
     provision_security_identity (replicate eeprom_size 0xFF) ''49054410901987'' ''12345'' = Inr out \<and>
     slice 0x110 0x113 out = [0x12, 0x34, 0x50]"
  using security_record [of "replicate eeprom_size 0xFF" "''49054410901987''" "''12345''"]
  by (force simp: isdigit_def is_digit_def char_code_def digit_int_def)

text \<open>the check digit is the Luhn digit of the fourteen, so that the weighted sum with it is a
  multiple of ten, and changing any single one of the fourteen digits changes it.\<close>

theorem imei_check_digit_detects:
  assumes "length s = 14" "isdigit s" "i < 14" "is_digit c" "c \<noteq> s ! i"
  shows "\<exists>d e. imei_check_digit s = Inr [hex_char d] \<and> (imei_total s + d) mod 10 = 0 \<and>
    imei_check_digit (s[i := c]) = Inr [hex_char e] \<and> hex_char d \<noteq> hex_char e"
proof -
  let ?t = "s[i := c]"
  have t: "length ?t = 14" "isdigit ?t"
    using assms by (auto simp: isdigit_def dest!: set_update_subset_insert [THEN subsetD])
  have si: "is_digit (s ! i)" using assms by (simp add: isdigit_def)
  have rest: "(\<Sum>j \<in> {..<14} - {i}. luhn_value j (digit_int (?t ! j))) = (\<Sum>j \<in> {..<14} - {i}. luhn_value j (digit_int (s ! j)))"
    by (rule sum.cong) auto
  have "imei_total s = luhn_value i (digit_int (s ! i)) + (\<Sum>j \<in> {..<14} - {i}. luhn_value j (digit_int (s ! j)))"
    using assms by (simp add: imei_total_sum sum.remove [of _ i])
  moreover have "imei_total ?t = luhn_value i (digit_int c) + (\<Sum>j \<in> {..<14} - {i}. luhn_value j (digit_int (s ! j)))"
    using assms rest by (simp add: imei_total_sum sum.remove [of _ i])
  moreover have "digit_int c \<noteq> digit_int (s ! i)"
  proof -
    have "char_code c \<noteq> char_code (s ! i)" using assms(5) by (simp add: char_code_def)
    then show ?thesis using assms(4) si by (auto simp: digit_int_def is_digit_def)
  qed
  then have "luhn_value i (digit_int c) mod 10 \<noteq> luhn_value i (digit_int (s ! i)) mod 10"
    using luhn_value_inj digit_int_bound assms(4) si by metis
  ultimately have "imei_total ?t mod 10 \<noteq> imei_total s mod 10" by (metis mod_add_cong_nat_cancel)
  then have ne: "(10 - imei_total s mod 10) mod 10 \<noteq> (10 - imei_total ?t mod 10) mod 10"
    using complement10_inj by metis
  have "hex_char ((10 - imei_total s mod 10) mod 10) \<noteq> hex_char ((10 - imei_total ?t mod 10) mod 10)"
  proof
    have bound: "(10 - a mod 10) mod 10 < 16" for a :: nat
      using mod_less_divisor [of 10 "10 - a mod 10"] by linarith
    assume "hex_char ((10 - imei_total s mod 10) mod 10) = hex_char ((10 - imei_total ?t mod 10) mod 10)"
    with ne show False using hex_char_inj [OF bound bound] by blast
  qed
  moreover have "(imei_total s + (10 - imei_total s mod 10) mod 10) mod 10 = 0" by (rule complement10_sum)
  ultimately show ?thesis
    using check_digit_char [OF assms(1,2)] check_digit_char [OF t] by metis
qed

theorem imei_check_digit_detects_witness:
  "\<exists>d e. imei_check_digit ''49054410901987'' = Inr [hex_char d] \<and>
     imei_check_digit ''49054410901980'' = Inr [hex_char e] \<and> hex_char d \<noteq> hex_char e"
  using imei_check_digit_detects [of "''49054410901987''" 13 "CHR ''0''"]
  by (force simp: isdigit_def is_digit_def char_code_def)

end
