(* ===== verification/Py_Json.thy ===== *)
theory Py_Json
  imports Py_Text
begin

text \<open>
  Decoded JSON as the bridges see it.  A message is a dictionary, a partial map from keys; a reply is
  the association list that \<open>json.dumps\<close> writes in order.  Only what the sources distinguish is kept:
  Python counts \<open>bool\<close> as an \<open>int\<close> in comparisons (\<open>True == 1\<close>), \<open>isinstance\<close> tests tell them
  apart, and a float is kept as the integer it equals, if any.  Strings are lists of characters.
\<close>

datatype json =
    JNull
  | JBool bool
  | JInt int
  | JFloat "int option"
  | JStr string
  | JList "json list"
  | JObj "(string \<times> json) list"

type_synonym message = "string \<rightharpoonup> json"
type_synonym reply = "(string \<times> json) list"

text \<open>\<open>message.get(key)\<close>: a missing key gives \<open>None\<close>.\<close>

definition get_key :: "message \<Rightarrow> string \<Rightarrow> json" where
  "get_key m k = (case m k of None \<Rightarrow> JNull | Some v \<Rightarrow> v)"

text \<open>\<open>value == n\<close> and \<open>value == epoch\<close> for an \<open>int\<close> or \<open>None\<close>.\<close>

fun eq_int :: "json \<Rightarrow> int \<Rightarrow> bool" where
  "eq_int (JBool b) n \<longleftrightarrow> of_bool b = n"
| "eq_int (JInt i) n \<longleftrightarrow> i = n"
| "eq_int (JFloat f) n \<longleftrightarrow> f = Some n"
| "eq_int _ n \<longleftrightarrow> False"

definition eq_opt_int :: "json \<Rightarrow> int option \<Rightarrow> bool" where
  "eq_opt_int v o' = (case o' of None \<Rightarrow> v = JNull | Some n \<Rightarrow> eq_int v n)"

definition eq_str :: "json \<Rightarrow> string \<Rightarrow> bool" where
  "eq_str v s \<longleftrightarrow> v = JStr s"

text \<open>\<open>isinstance(v, int) and not isinstance(v, bool)\<close>, \<open>isinstance(v, str)\<close>.\<close>

fun as_int :: "json \<Rightarrow> int option" where
  "as_int (JInt n) = Some n"
| "as_int _ = None"

fun as_str :: "json \<Rightarrow> string option" where
  "as_str (JStr s) = Some s"
| "as_str _ = None"

text \<open>\<open>bytes.fromhex(s)\<close> does not raise: it skips ASCII white space before each byte.\<close>

definition hex_space :: "char \<Rightarrow> bool" where
  "hex_space c \<longleftrightarrow> c \<in> {CHR '' '', CHR 0x09, CHR 0x0A, CHR 0x0B, CHR 0x0C, CHR 0x0D}"

fun fromhex_ws :: "string \<Rightarrow> bytes option" where
  "fromhex_ws [] = Some []"
| "fromhex_ws (c # cs) =
     (if hex_space c then fromhex_ws cs
      else case cs of
             [] \<Rightarrow> None
           | d # ds \<Rightarrow>
               (case (digit_of c, digit_of d) of
                  (Some h, Some l) \<Rightarrow> map_option (\<lambda>bs. of_nat (16 * h + l) # bs) (fromhex_ws ds)
                | _ \<Rightarrow> None))"

lemma hex_space_no_digit: "hex_space c \<Longrightarrow> digit_of c = None"
proof -
  have "\<forall>c \<in> {CHR '' '', CHR 0x09, CHR 0x0A, CHR 0x0B, CHR 0x0C, CHR 0x0D}. digit_of c = None" by code_simp
  then show "hex_space c \<Longrightarrow> ?thesis" by (auto simp: hex_space_def)
qed

lemma fromhex_ws_byte: "fromhex_ws (hex_byte b @ cs) = map_option (\<lambda>bs. b # bs) (fromhex_ws cs)"
proof -
  have "unat b div 16 < 16" using unat_byte [of b] by (simp add: div_less_iff_less_mult)
  moreover have "(of_nat (16 * (unat b div 16) + unat b mod 16) :: byte) = b" by (simp del: of_nat_add of_nat_mult)
  moreover have "\<not> hex_space (hex_char (unat b div 16))"
    using \<open>unat b div 16 < 16\<close> digit_of_hex_char hex_space_no_digit by force
  ultimately show ?thesis by (simp add: hex_byte_def digit_of_hex_char)
qed

lemma fromhex_ws_bytes_hex: "fromhex_ws (bytes_hex bs) = Some bs"
proof (induction bs)
  case (Cons b bs)
  have "bytes_hex (b # bs) = hex_byte b @ bytes_hex bs" by (simp add: bytes_hex_def)
  then show ?case using Cons by (simp only: fromhex_ws_byte) simp
qed (simp add: bytes_hex_def)

lemma fromhex_ws_length: "fromhex_ws cs = Some bs \<Longrightarrow> 2 * length bs + length (filter hex_space cs) = length cs"
proof (induction cs arbitrary: bs rule: fromhex_ws.induct)
  case (2 c cs)
  show ?case
  proof (cases "hex_space c")
    case False
    then obtain d ds h l bs' where d: "cs = d # ds" "digit_of d = Some l" "fromhex_ws ds = Some bs'" "bs = of_nat (16 * h + l) # bs'"
      using "2.prems" by (auto split: list.splits option.splits)
    then have "\<not> hex_space d" using hex_space_no_digit by force
    have "2 * length bs' + length (filter hex_space ds) = length ds"
      using "2.IH"(2) [OF False d(1)] "2.prems" False d by (auto split: option.splits)
    then show ?thesis using False d(1,4) \<open>\<not> hex_space d\<close> by simp
  qed (use 2 in simp)
qed simp

end
