(* ===== verification/Gsm7_Text.thy ===== *)
theory Gsm7_Text
  imports Interfaces
begin

text \<open>
  The GSM 03.38 packer of \<open>tools/gsm7_text.py\<close>.  A Python string is the list of its code points, a
  septet a natural number; the packed bytes are returned before \<open>.hex()\<close>.  The reader that TS 23.038
  prescribes for the receiving side is the specification: it recovers what was packed.
\<close>

section \<open>The tables\<close>

definition default_alphabet :: "nat list" where
  "default_alphabet =
    [0x40, 0xa3, 0x24, 0xa5, 0xe8, 0xe9, 0xf9, 0xec, 0xf2, 0xc7, 0x0a, 0xd8, 0xf8, 0x0d, 0xc5, 0xe5,
     0x394, 0x5f, 0x3a6, 0x393, 0x39b, 0x3a9, 0x3a0, 0x3a8, 0x3a3, 0x398, 0x39e, 0x1b, 0xc6, 0xe6, 0xdf, 0xc9] @
    [0x20, 0x21, 0x22, 0x23, 0xa4] @ [0x25..<0x40] @
    [0xa1] @ [0x41..<0x5b] @ [0xc4, 0xd6, 0xd1, 0xdc, 0xa7] @
    [0xbf] @ [0x61..<0x7b] @ [0xe4, 0xf6, 0xf1, 0xfc, 0xe0]"

text \<open>A dictionary comprehension keeps the last value of a repeated key.\<close>

definition default_codes :: "nat \<rightharpoonup> nat" where
  "default_codes = map_of (rev (filter (\<lambda>(character, index). character \<noteq> 0x1b)
     (zip default_alphabet [0..<length default_alphabet])))"

definition extension_codes :: "nat \<rightharpoonup> nat" where
  "extension_codes = map_of
     [(0x0c, 0x0a), (0x5e, 0x14), (0x7b, 0x28), (0x7d, 0x29), (0x5c, 0x2f),
      (0x5b, 0x3c), (0x7e, 0x3d), (0x5d, 0x3e), (0x7c, 0x40), (0x20ac, 0x65)]"

section \<open>The encoder\<close>

fun text_septets :: "nat list \<Rightarrow> nat list option" where
  "text_septets [] = Some []"
| "text_septets (character # text) =
     (case default_codes character of
        Some code \<Rightarrow> map_option (\<lambda>rest. code # rest) (text_septets text)
      | None \<Rightarrow>
          (case extension_codes character of
             Some code \<Rightarrow> map_option (\<lambda>rest. 0x1b # code # rest) (text_septets text)
           | None \<Rightarrow> None))"

definition ussd_padding :: "nat list \<Rightarrow> nat list" where
  "ussd_padding septets =
     (let count = length septets in
      if count mod 8 = 7 \<or> (count \<noteq> 0 \<and> count mod 8 = 0 \<and> last septets = 0x0d)
      then septets @ [0x0d] else septets)"

text \<open>\<open>while bits >= 8\<close>.\<close>

function pack_flush :: "int \<Rightarrow> nat \<Rightarrow> bytes \<Rightarrow> int \<times> nat \<times> bytes" where
  "pack_flush accumulator bits packed =
     (if bits \<ge> 8
      then pack_flush (drop_bit 8 accumulator) (bits - 8) (packed @ [word_of_int (accumulator AND 0xff)])
      else (accumulator, bits, packed))"
  by pat_completeness auto
termination by (relation "measure (\<lambda>(accumulator, bits, packed). bits)") auto

declare pack_flush.simps [simp del]

lemma pack_flush_small: "bits < 8 \<Longrightarrow> pack_flush accumulator bits packed = (accumulator, bits, packed)"
  by (simp add: pack_flush.simps)

definition pack_step :: "int \<times> nat \<times> bytes \<Rightarrow> nat \<Rightarrow> int \<times> nat \<times> bytes" where
  "pack_step = (\<lambda>(accumulator, bits, packed) v.
     pack_flush (accumulator OR push_bit bits (int v)) (bits + 7) packed)"

definition pack_septets :: "nat list \<Rightarrow> bytes" where
  "pack_septets septets =
     (case foldl pack_step (0, 0, []) septets of (accumulator, bits, packed) \<Rightarrow>
        if bits \<noteq> 0 then packed @ [word_of_int (accumulator AND 0xff)] else packed)"

definition encode_text :: "nat list \<Rightarrow> bool \<Rightarrow> (bytes \<times> nat) option" where
  "encode_text text ussd =
     (case text_septets text of
        None \<Rightarrow> None
      | Some septets \<Rightarrow>
          let count = length septets;
              septets = if ussd then ussd_padding septets else septets
          in Some (pack_septets septets, count))"

section \<open>The reader of TS 23.038\<close>

definition unpack_septets :: "nat \<Rightarrow> bytes \<Rightarrow> nat list" where
  "unpack_septets count packed = map (\<lambda>i. nat (drop_bit (7 * i) (from_le packed) AND 0x7f)) [0..<count]"

definition extension_chars :: "nat \<rightharpoonup> nat" where
  "extension_chars = map_of
     [(0x0a, 0x0c), (0x14, 0x5e), (0x28, 0x7b), (0x29, 0x7d), (0x2f, 0x5c),
      (0x3c, 0x5b), (0x3d, 0x7e), (0x3e, 0x5d), (0x40, 0x7c), (0x65, 0x20ac)]"

fun septets_text :: "nat list \<Rightarrow> nat list option" where
  "septets_text [] = Some []"
| "septets_text (code # rest) =
     (if code = 0x1b
      then (case rest of
              [] \<Rightarrow> None
            | ext # rest' \<Rightarrow> (case extension_chars ext of
                  None \<Rightarrow> None
                | Some character \<Rightarrow> map_option (\<lambda>text. character # text) (septets_text rest')))
      else if code < length default_alphabet
      then map_option (\<lambda>text. default_alphabet ! code # text) (septets_text rest)
      else None)"

text \<open>A USSD string has no length: the receiver reads every septet that fits, and drops a carriage
  return that ends on an octet boundary.\<close>

definition ussd_read :: "bytes \<Rightarrow> nat list" where
  "ussd_read packed =
     (let septets = unpack_septets (8 * length packed div 7) packed in
      if septets \<noteq> [] \<and> length septets mod 8 = 0 \<and> last septets = 0x0d then butlast septets else septets)"

section \<open>The tables agree\<close>

lemma default_codes_entry:
  assumes "default_codes c = Some s"
  shows "s \<noteq> 0x1b \<and> s < 128 \<and> default_alphabet ! s = c"
proof -
  have "\<forall>(c, s) \<in> set (rev (filter (\<lambda>(character, index). character \<noteq> 0x1b)
      (zip default_alphabet [0..<length default_alphabet]))). s \<noteq> 0x1b \<and> s < 128 \<and> default_alphabet ! s = c"
    by code_simp
  then show ?thesis using map_of_SomeD [OF assms [unfolded default_codes_def]] by blast
qed

lemma length_alphabet: "length default_alphabet = 128"
  by code_simp

lemma extension_codes_entry:
  assumes "extension_codes c = Some s"
  shows "s < 128 \<and> extension_chars s = Some c"
proof -
  have "\<forall>(c, s) \<in> set [(0x0c, 0x0a), (0x5e, 0x14), (0x7b, 0x28), (0x7d, 0x29), (0x5c, 0x2f),
      (0x5b, 0x3c), (0x7e, 0x3d), (0x5d, 0x3e), (0x7c, 0x40), (0x20ac, 0x65)]. s < 128 \<and> extension_chars s = Some c"
    by code_simp
  then show ?thesis using map_of_SomeD [OF assms [unfolded extension_codes_def]] by blast
qed

lemma septets_bound: "text_septets chars = Some septets \<Longrightarrow> s \<in> set septets \<Longrightarrow> s < 128"
  by (induction chars arbitrary: septets)
    (auto split: option.splits dest: default_codes_entry extension_codes_entry)

lemma septets_text_roundtrip: "text_septets chars = Some septets \<Longrightarrow> septets_text septets = Some chars"
  by (induction chars arbitrary: septets)
    (auto split: option.splits simp: length_alphabet dest!: default_codes_entry extension_codes_entry)

section \<open>Packing\<close>

fun septet_stream :: "nat list \<Rightarrow> int" where
  "septet_stream [] = 0"
| "septet_stream (s # septets) = int s + 128 * septet_stream septets"

lemma septet_stream_append: "septet_stream (xs @ ys) = septet_stream xs + 128 ^ length xs * septet_stream ys"
  by (induction xs) (auto simp: algebra_simps)

lemma septet_stream_nonneg: "0 \<le> septet_stream xs"
  by (induction xs) auto

lemma or_push_plus:
  fixes a v :: int
  assumes "0 \<le> a" "a < 2 ^ n"
  shows "a OR push_bit n v = a + 2 ^ n * v"
proof -
  have "take_bit n a = a" using assms by (simp add: take_bit_int_eq_self_iff)
  then have "a + push_bit n v = a OR push_bit n v"
    by (intro disjunctive_add) (metis bit_push_bit_iff bit_take_bit_iff not_le)
  then show ?thesis by (simp add: push_bit_eq_mult mult.commute)
qed

lemma from_le_snoc: "from_le (xs @ [b]) = from_le xs + 256 ^ length xs * uint b"
  by (induction xs) (auto simp: algebra_simps from_le.simps)

lemma byte_low: "uint (word_of_int (x AND 0xff) :: byte) = x mod 256"
proof -
  have "x AND 0xff = take_bit 8 x" by (simp add: take_bit_eq_mask mask_eq_exp_minus_1)
  then show ?thesis by (simp add: uint_word_of_int take_bit_eq_mod)
qed

lemma pack_loop:
  assumes "\<forall>s \<in> set septets. s < 128"
  shows "\<exists>a k packed. foldl pack_step (0, 0, []) septets = (a, k, packed) \<and> k < 8 \<and> 0 \<le> a \<and> a < 2 ^ k \<and>
    8 * length packed + k = 7 * length septets \<and>
    from_le packed + 256 ^ length packed * a = septet_stream septets"
  using assms
proof (induction septets rule: rev_induct)
  case (snoc s septets)
  then obtain a k packed where IH: "foldl pack_step (0, 0, []) septets = (a, k, packed)" "k < 8" "0 \<le> a" "a < 2 ^ k"
    "8 * length packed + k = 7 * length septets" "from_le packed + 256 ^ length packed * a = septet_stream septets"
    by auto
  have s: "int s < 128" using snoc.prems by simp
  let ?a = "a + 2 ^ k * int s"
  have a: "0 \<le> ?a" "?a < 2 ^ (k + 7)"
  proof -
    have "2 ^ k * int s \<le> 2 ^ k * 127" using s by (intro mult_left_mono) auto
    then have "?a < 2 ^ k + 2 ^ k * 127" using IH(4) by linarith
    then show "?a < 2 ^ (k + 7)" by (simp add: power_add)
  qed (use IH(3) in simp)
  have pow: "(256 :: int) ^ length packed * 2 ^ k = 128 ^ length septets"
  proof -
    have "(256 :: int) ^ length packed * 2 ^ k = 2 ^ (8 * length packed + k)" by (simp add: power_add power_mult)
    also have "\<dots> = 128 ^ length septets" by (simp add: IH(5) power_mult)
    finally show ?thesis .
  qed
  have stream: "from_le packed + 256 ^ length packed * ?a = septet_stream (septets @ [s])"
    using IH(6) pow by (simp add: septet_stream_append algebra_simps)
  have step: "foldl pack_step (0, 0, []) (septets @ [s]) = pack_flush ?a (k + 7) packed"
    using IH by (simp add: pack_step_def or_push_plus)
  show ?case
  proof (cases "k = 0")
    case True
    then show ?thesis using step a stream IH(5) by (simp add: pack_flush.simps)
  next
    case False
    then have "pack_flush ?a (k + 7) packed = (?a div 256, k - 1, packed @ [word_of_int (?a AND 0xff)])"
      using IH(2) by (simp add: pack_flush.simps [of _ "k + 7"] pack_flush_small drop_bit_eq_div)
    moreover have "?a div 256 < 2 ^ (k - 1)"
    proof -
      have "(2 :: int) ^ (k + 7) = 2 ^ (k - 1) * 256" using False by (cases k) (simp_all add: power_add)
      then show ?thesis using a by (simp add: div_less_iff_less_mult)
    qed
    moreover have "from_le (packed @ [word_of_int (?a AND 0xff)]) + 256 ^ Suc (length packed) * (?a div 256)
        = septet_stream (septets @ [s])"
    proof -
      have "?a mod 256 + 256 * (?a div 256) = ?a" by simp
      then show ?thesis unfolding stream [symmetric]
        by (simp only: from_le_snoc byte_low power_Suc) (simp only: distrib_left [symmetric] mult.assoc mult.left_commute [of 256] add.assoc)
    qed
    ultimately show ?thesis using step a False IH(2,5)
      by (auto simp: pos_imp_zdiv_nonneg_iff)
  qed
qed simp

lemma pack_septets_stream:
  assumes "\<forall>s \<in> set septets. s < 128"
  shows "from_le (pack_septets septets) = septet_stream septets"
    and "length (pack_septets septets) = (7 * length septets + 7) div 8"
proof -
  obtain a k packed where p: "foldl pack_step (0, 0, []) septets = (a, k, packed)" "k < 8" "0 \<le> a" "a < 2 ^ k"
    "8 * length packed + k = 7 * length septets" "from_le packed + 256 ^ length packed * a = septet_stream septets"
    using pack_loop [OF assms] by blast
  have "a < 256"
  proof -
    have "(2 :: int) ^ k \<le> 2 ^ 8" using p(2) by (intro power_increasing) auto
    then show ?thesis using p(4) by simp
  qed
  moreover have "a = 0" if "k = 0" using p(3,4) that by simp
  ultimately show "from_le (pack_septets septets) = septet_stream septets"
    using p by (cases "k = 0") (simp_all add: pack_septets_def from_le_snoc byte_low order_antisym)
  show "length (pack_septets septets) = (7 * length septets + 7) div 8"
    using p by (cases "k = 0") (auto simp: pack_septets_def)
qed

lemma stream_nth:
  "\<forall>s \<in> set septets. s < 128 \<Longrightarrow> i < length septets \<Longrightarrow>
   drop_bit (7 * i) (septet_stream septets) AND 0x7f = int (septets ! i)"
proof (induction septets arbitrary: i)
  case (Cons s septets)
  have and7: "x AND 0x7f = x mod 128" for x :: int
    using take_bit_eq_mask [of 7 x] by (simp add: take_bit_eq_mod mask_eq_exp_minus_1)
  show ?case
  proof (cases i)
    case 0
    then show ?thesis using Cons.prems by (simp add: and7)
  next
    case (Suc j)
    have "drop_bit (7 * i) (septet_stream (s # septets)) = drop_bit (7 * j) (drop_bit 7 (septet_stream (s # septets)))"
      using Suc by (simp add: drop_bit_drop_bit add.commute)
    also have "drop_bit 7 (septet_stream (s # septets)) = septet_stream septets"
      using Cons.prems by (simp add: drop_bit_eq_div)
    finally show ?thesis using Cons Suc by simp
  qed
qed simp

lemma unpack_pack:
  assumes "\<forall>s \<in> set septets. s < 128"
  shows "unpack_septets (length septets) (pack_septets septets) = septets"
  by (rule nth_equalityI) (use assms in \<open>simp_all add: unpack_septets_def pack_septets_stream stream_nth\<close>)

section \<open>What the receiver recovers\<close>

lemma encode_text_Some:
  "encode_text chars ussd = Some (packed, count) \<longleftrightarrow>
   (\<exists>septets. text_septets chars = Some septets \<and> count = length septets \<and>
      packed = pack_septets (if ussd then ussd_padding septets else septets))"
  by (auto simp: encode_text_def Let_def split: option.splits)

lemma sms_text_roundtrip:
  assumes "encode_text chars False = Some (packed, count)"
  shows "septets_text (unpack_septets count packed) = Some chars" "length packed = (7 * count + 7) div 8"
proof -
  obtain septets where s: "text_septets chars = Some septets" "count = length septets" "packed = pack_septets septets"
    using assms by (auto simp: encode_text_Some)
  have "\<forall>s \<in> set septets. s < 128" using s(1) septets_bound by blast
  then show "septets_text (unpack_septets count packed) = Some chars" "length packed = (7 * count + 7) div 8"
    using s by (simp_all add: unpack_pack pack_septets_stream septets_text_roundtrip)
qed

text \<open>The encoder and its reader as a codec: packing never merges two texts.\<close>

definition encode_text_res :: "nat list \<Rightarrow> (bytes \<times> nat) res" where
  "encode_text_res chars = (case encode_text chars False of None \<Rightarrow> Inl TypeError | Some p \<Rightarrow> Inr p)"

definition decode_text_res :: "bytes \<times> nat \<Rightarrow> nat list res" where
  "decode_text_res = (\<lambda>(packed, count).
     case septets_text (unpack_septets count packed) of None \<Rightarrow> Inl TypeError | Some chars \<Rightarrow> Inr chars)"

interpretation gsm7: record_codec "\<lambda>chars. text_septets chars \<noteq> None"
    "\<lambda>(packed, count). length packed = (7 * count + 7) div 8" encode_text_res decode_text_res
proof
  fix chars :: "nat list"
  assume "text_septets chars \<noteq> None"
  then obtain packed count where "encode_text chars False = Some (packed, count)"
    by (auto simp: encode_text_def)
  then show "\<exists>y. encode_text_res chars = Inr y \<and> (case y of (packed, count) \<Rightarrow> length packed = (7 * count + 7) div 8) \<and>
      decode_text_res y = Inr chars"
    using sms_text_roundtrip [of chars packed count] by (simp add: encode_text_res_def decode_text_res_def)
qed

lemma padded_bound: "\<forall>s \<in> set septets. s < 128 \<Longrightarrow> \<forall>s \<in> set (ussd_padding septets). s < 128"
  by (auto simp: ussd_padding_def Let_def)

lemma padded_mod: "length (ussd_padding septets) mod 8 \<noteq> 7"
  by (auto simp: ussd_padding_def Let_def mod_Suc split: if_splits)

lemma capacity: "n mod 8 \<noteq> 7 \<Longrightarrow> 8 * ((7 * n + 7) div 8) div 7 = n" for n :: nat
proof -
  define q r where "q = n div 8" and "r = n mod 8"
  then have n: "n = 8 * q + r" and "r < 8" by simp_all
  have "(7 * n + 7) div 8 = 7 * q + (7 * r + 7) div 8" unfolding n by simp
  then have *: "8 * ((7 * n + 7) div 8) div 7 = 8 * q + 8 * ((7 * r + 7) div 8) div 7" by simp
  assume "n mod 8 \<noteq> 7"
  with \<open>r < 8\<close> have "r \<in> {0, 1, 2, 3, 4, 5, 6}" by (auto simp: r_def [symmetric])
  then have "8 * q + 8 * ((7 * r + 7) div 8) div 7 = n" by (auto simp: n)
  then show ?thesis using * by simp
qed

lemma ussd_read_septets:
  assumes "\<forall>s \<in> set septets. s < 128"
  shows "ussd_read (pack_septets (ussd_padding septets)) =
    (if septets \<noteq> [] \<and> length septets mod 8 = 0 \<and> last septets = 0x0d then septets @ [0x0d] else septets)"
proof -
  let ?p = "ussd_padding septets"
  have "unpack_septets (8 * length (pack_septets ?p) div 7) (pack_septets ?p) = ?p"
    using padded_bound [OF assms] padded_mod [of septets] by (simp add: pack_septets_stream capacity unpack_pack)
  then show ?thesis
    by (auto simp: ussd_read_def Let_def ussd_padding_def mod_Suc split: if_splits)
qed

text \<open>C9: for a text the alphabet can express, the packed bytes and the septet count let the
  receiver recover exactly the text, and the byte count is the least that holds the septets; a character
  outside the two tables makes the encoder give up.\<close>

theorem sms_roundtrip:
  "case encode_text chars False of
     Some (packed, count) \<Rightarrow> septets_text (unpack_septets count packed) = Some chars \<and> length packed = (7 * count + 7) div 8
   | None \<Rightarrow> \<exists>c \<in> set chars. default_codes c = None \<and> extension_codes c = None"
proof (cases "encode_text chars False")
  case None
  have "text_septets cs = None \<Longrightarrow> \<exists>c \<in> set cs. default_codes c = None \<and> extension_codes c = None" for cs
    by (induction cs) (auto split: option.splits)
  with None show ?thesis by (auto simp: encode_text_def split: option.splits)
qed (use sms_text_roundtrip in auto)

text \<open>a USSD receiver, which reads every septet that fits and drops a carriage return on an octet
  boundary, recovers the septets of the text without a spurious '@'; the only change is a second carriage
  return after a text whose own last character is one on an octet boundary.\<close>

theorem ussd_roundtrip:
  assumes "encode_text chars True = Some (packed, count)"
  shows "\<exists>septets. text_septets chars = Some septets \<and> count = length septets \<and>
    ussd_read packed =
      (if septets \<noteq> [] \<and> length septets mod 8 = 0 \<and> last septets = 0x0d then septets @ [0x0d] else septets)"
proof -
  obtain septets where s: "text_septets chars = Some septets" "count = length septets"
    "packed = pack_septets (ussd_padding septets)"
    using assms by (auto simp: encode_text_Some)
  have "\<forall>s \<in> set septets. s < 128" using s(1) septets_bound by blast
  then show ?thesis using s by (simp add: ussd_read_septets)
qed

theorem ussd_roundtrip_witness:
  "\<exists>packed. encode_text [0x2a, 0x31, 0x30, 0x30, 0x23, 0x41, 0x42] True = Some (packed, 7) \<and>
     ussd_read packed = [0x2a, 0x31, 0x30, 0x30, 0x23, 0x41, 0x42]"
proof -
  have s: "text_septets [0x2a, 0x31, 0x30, 0x30, 0x23, 0x41, 0x42] = Some [0x2a, 0x31, 0x30, 0x30, 0x23, 0x41, 0x42]"
    by code_simp
  then obtain packed where p: "encode_text [0x2a, 0x31, 0x30, 0x30, 0x23, 0x41, 0x42] True = Some (packed, 7)"
    by (auto simp: encode_text_def)
  show ?thesis using ussd_roundtrip [OF p] s p by simp
qed

end
