(* ===== verification/Call_Bridge.thy ===== *)
theory Call_Bridge
  imports Py_Json Gsm7_Text Interfaces
begin

text \<open>
  The loopback telephone endpoint of \<open>tools/dct3_call_bridge.py\<close>: the state machine of
  \<open>LoopbackProtocol\<close>, the session loop that drives it from websocket messages and a hang-up timer, the
  reconnecting run and the validation of the command line.  Texts that the packer reads are code
  points; every other string is a list of characters.
\<close>

section \<open>The protocol state\<close>

datatype call_phase = Idle | Requested | Queued | Paging | Alerting | Connected | Ended
datatype call_direction = Outgoing | Incoming

record bridge_stats =
  calls :: int
  sms :: int
  uplink_frames :: int
  downlink_frames :: int
  bad_frames :: int
  sequence_gaps :: int

record loopback =
  epoch :: "int option"
  request_id :: "int option"
  call_digits :: string
  phase :: call_phase
  next_uplink_sequence :: "int option"
  next_downlink_sequence :: int
  stats :: bridge_stats
  direction :: call_direction
  sms_request_id :: "int option"
  network_registered :: bool

definition initial_loopback :: loopback where
  "initial_loopback = \<lparr> epoch = None, request_id = None, call_digits = '''', phase = Idle,
     next_uplink_sequence = None, next_downlink_sequence = 0,
     stats = \<lparr> calls = 0, sms = 0, uplink_frames = 0, downlink_frames = 0, bad_frames = 0, sequence_gaps = 0 \<rparr>,
     direction = Outgoing, sms_request_id = None, network_registered = False \<rparr>"

definition frame_hex_length :: nat where "frame_hex_length = 66"
definition protocol_version :: int where "protocol_version = 1"

fun direction_name :: "call_direction \<Rightarrow> string" where
  "direction_name Outgoing = ''outgoing''"
| "direction_name Incoming = ''incoming''"

definition pack_gsm7 :: "nat list \<Rightarrow> bool \<Rightarrow> string option" where
  "pack_gsm7 chars ussd = map_option (\<lambda>(packed, count). bytes_hex packed) (encode_text chars ussd)"

definition active :: "loopback \<Rightarrow> bool" where
  "active s \<longleftrightarrow> request_id s \<noteq> None \<and> phase s \<noteq> Ended"

definition call_termination :: "loopback \<Rightarrow> int \<Rightarrow> reply option" where
  "call_termination s hangup_cause =
     (case (epoch s, request_id s) of
        (Some e, Some r) \<Rightarrow>
          if active s
          then Some [(''type'', JStr (direction_name (direction s) @ ''_call_terminate'')), (''epoch'', JInt e),
                     (''request_id'', JInt r), (''cause'', JInt hangup_cause)]
          else None
      | _ \<Rightarrow> None)"

section \<open>The message handlers\<close>

definition message_identity :: "message \<Rightarrow> (int \<times> int) option" where
  "message_identity m =
     (case (as_int (get_key m ''epoch''), as_int (get_key m ''request_id'')) of
        (Some e, Some r) \<Rightarrow> if r \<le> 0 then None else Some (e, r)
      | _ \<Rightarrow> None)"

definition matches :: "loopback \<Rightarrow> message \<Rightarrow> bool" where
  "matches s m = (case message_identity m of
     None \<Rightarrow> False | Some (e, r) \<Rightarrow> epoch s = Some e \<and> request_id s = Some r)"

definition handle_request :: "loopback \<Rightarrow> message \<Rightarrow> loopback \<times> reply list" where
  "handle_request s m =
     (case (message_identity m, as_str (get_key m ''digits'')) of
        (Some (e, r), Some d) \<Rightarrow>
          let is_new_call = (request_id s = None \<or> Some r \<noteq> request_id s \<or> phase s = Ended);
              s = s\<lparr> epoch := Some e, request_id := Some r, call_digits := d, phase := Requested,
                     next_uplink_sequence := None, next_downlink_sequence := 0 \<rparr>;
              s = (if is_new_call then s\<lparr> stats := (stats s)\<lparr> calls := calls (stats s) + 1 \<rparr> \<rparr> else s)
          in (s, [[(''type'', JStr ''outgoing_call_decision''), (''epoch'', JInt e), (''request_id'', JInt r),
                   (''decision'', JStr ''connect'')]])
      | _ \<Rightarrow> (s, []))"

definition phase_of :: "json \<Rightarrow> call_phase option" where
  "phase_of v =
     (if eq_str v ''queued'' then Some Queued else if eq_str v ''paging'' then Some Paging
      else if eq_str v ''alerting'' then Some Alerting else if eq_str v ''connected'' then Some Connected
      else if eq_str v ''ended'' then Some Ended else None)"

definition handle_state :: "loopback \<Rightarrow> message \<Rightarrow> loopback" where
  "handle_state s m =
     (if \<not> matches s m then s
      else case phase_of (get_key m ''phase'') of
             None \<Rightarrow> s
           | Some p \<Rightarrow>
               let s = s\<lparr> phase := p \<rparr> in
               if p = Connected
               then (case as_int (get_key m ''media_downlink_sequence'') of
                       None \<Rightarrow> s | Some n \<Rightarrow> s\<lparr> next_downlink_sequence := n \<rparr>)
               else if p = Ended then s\<lparr> next_uplink_sequence := None \<rparr> else s)"

definition handle_media :: "loopback \<Rightarrow> message \<Rightarrow> loopback \<times> reply option" where
  "handle_media s m =
     (if phase s \<noteq> Connected \<or> \<not> matches s m then (s, None)
      else case (as_int (get_key m ''sequence''), as_int (get_key m ''emulation_time_us''), as_str (get_key m ''frame'')) of
             (Some sequence, Some time_us, Some frame) \<Rightarrow>
               if length frame \<noteq> frame_hex_length \<or> fromhex_ws frame = None then (s, None)
               else let st = stats s;
                        st = (if next_uplink_sequence s \<noteq> None \<and> Some sequence \<noteq> next_uplink_sequence s
                              then st\<lparr> sequence_gaps := sequence_gaps st + 1 \<rparr> else st);
                        st = st\<lparr> uplink_frames := uplink_frames st + 1 \<rparr>;
                        s = s\<lparr> next_uplink_sequence := Some (sequence + 1) \<rparr> in
                 if get_key m ''good'' \<noteq> JBool True
                 then (s\<lparr> stats := st\<lparr> bad_frames := bad_frames st + 1 \<rparr> \<rparr>, None)
                 else (s\<lparr> stats := st\<lparr> downlink_frames := downlink_frames st + 1 \<rparr>,
                          next_downlink_sequence := next_downlink_sequence s + 1 \<rparr>,
                       Some [(''type'', JStr (direction_name (direction s) @ ''_call_media_downlink'')),
                             (''epoch'', JInt (the (epoch s))), (''request_id'', JInt (the (request_id s))),
                             (''sequence'', JInt (next_downlink_sequence s)), (''source_time_us'', JInt time_us),
                             (''frame'', JStr frame)])
           | _ \<Rightarrow> (s, None))"

definition media_replies :: "loopback \<times> reply option \<Rightarrow> loopback \<times> reply list" where
  "media_replies = (\<lambda>(s, downlink). (s, case downlink of None \<Rightarrow> [] | Some d \<Rightarrow> [d]))"

definition host_network :: "nat list" where
  "host_network = map char_code ''Host network''"

definition handle_ready :: "loopback \<Rightarrow> message \<Rightarrow> loopback \<times> reply list" where
  "handle_ready s m =
     (if \<not> eq_int (get_key m ''protocol_version'') protocol_version then (s, [])
      else (case as_int (get_key m ''epoch'') of
              Some e \<Rightarrow> (s\<lparr> epoch := Some e \<rparr>, []) | None \<Rightarrow> (s, [])))"

definition handle_network :: "loopback \<Rightarrow> message \<Rightarrow> loopback \<times> reply list" where
  "handle_network s m =
     (if eq_opt_int (get_key m ''epoch'') (epoch s)
      then (s\<lparr> network_registered := (get_key m ''registered'' = JBool True) \<rparr>, []) else (s, []))"

definition handle_sms :: "loopback \<Rightarrow> message \<Rightarrow> loopback \<times> reply list" where
  "handle_sms s m =
     (case message_identity m of
        None \<Rightarrow> (s, [])
      | Some (e, r) \<Rightarrow>
          (s\<lparr> sms_request_id := Some r, stats := (stats s)\<lparr> sms := sms (stats s) + 1 \<rparr> \<rparr>,
           [[(''type'', JStr ''outgoing_sms_decision''), (''epoch'', JInt e), (''request_id'', JInt r),
             (''decision'', JStr ''accept'')]]))"

definition handle_ussd :: "loopback \<Rightarrow> message \<Rightarrow> loopback \<times> reply list" where
  "handle_ussd s m =
     (case (message_identity m, pack_gsm7 host_network True) of
        (Some (e, r), Some response) \<Rightarrow>
          (s, [[(''type'', JStr ''outgoing_ussd_response''), (''epoch'', JInt e), (''request_id'', JInt r),
                (''outcome'', JStr ''success''), (''dcs'', JInt 0x0f), (''data'', JStr response)]])
      | _ \<Rightarrow> (s, []))"

definition handle_message :: "loopback \<Rightarrow> message \<Rightarrow> loopback \<times> reply list" where
  "handle_message s m =
     (let kind = get_key m ''type'' in
      if eq_str kind ''call_adapter_ready'' then handle_ready s m
      else if eq_str kind ''network_state'' then handle_network s m
      else if eq_str kind ''outgoing_call'' then handle_request s m
      else if eq_str kind ''outgoing_sms'' then handle_sms s m
      else if eq_str kind ''outgoing_ussd'' then handle_ussd s m
      else if eq_str kind ''outgoing_call_state'' then (handle_state s m, [])
      else if eq_str kind ''outgoing_call_media_uplink'' then media_replies (handle_media s m)
      else if eq_str kind ''incoming_call_state'' then (handle_state s m, [])
      else if eq_str kind ''incoming_call_media_uplink'' then media_replies (handle_media s m)
      else (s, []))"

definition incoming_request :: "loopback \<Rightarrow> string \<Rightarrow> int \<Rightarrow> loopback \<times> reply option" where
  "incoming_request s caller rid =
     (case epoch s of
        None \<Rightarrow> (s, None)
      | Some e \<Rightarrow>
          (s\<lparr> direction := Incoming, request_id := Some rid, call_digits := caller, phase := Requested,
              next_uplink_sequence := None, next_downlink_sequence := 0,
              stats := (stats s)\<lparr> calls := calls (stats s) + 1 \<rparr> \<rparr>,
           Some [(''type'', JStr ''incoming_call''), (''epoch'', JInt e), (''request_id'', JInt rid), (''caller'', JStr caller)]))"

definition incoming_sms_request :: "loopback \<Rightarrow> string \<Rightarrow> nat list \<Rightarrow> int \<Rightarrow> reply option" where
  "incoming_sms_request s sender chars rid =
     (case (epoch s, encode_text chars False) of
        (Some e, Some (packed, septet_count)) \<Rightarrow>
          if 1 \<le> septet_count \<and> septet_count \<le> 160
          then Some [(''type'', JStr ''incoming_sms''), (''epoch'', JInt e), (''request_id'', JInt rid), (''sender'', JStr sender),
                     (''alphabet'', JStr ''gsm7''), (''user_data_length'', JInt (int septet_count)),
                     (''user_data'', JStr (bytes_hex packed))]
          else None
      | _ \<Rightarrow> None)"

definition incoming_ussd_request :: "loopback \<Rightarrow> nat list \<Rightarrow> int \<Rightarrow> reply option" where
  "incoming_ussd_request s chars rid =
     (case (epoch s, encode_text chars True) of
        (Some e, Some (packed, septet_count)) \<Rightarrow>
          if septet_count = 0 \<or> length (bytes_hex packed) > 320 then None
          else Some [(''type'', JStr ''incoming_ussd''), (''epoch'', JInt e), (''request_id'', JInt rid),
                     (''dcs'', JInt 0x0f), (''data'', JStr (bytes_hex packed))]
      | _ \<Rightarrow> None)"

section \<open>The session loop\<close>

record bridge_args =
  hangup_after :: "int option"
  incoming_caller :: "string option"
  incoming_sms :: "nat list option"
  incoming_ussd :: "nat list option"
  incoming_sms_sender :: "string option"
  cause :: int
  once :: bool
  report_every :: int
  require_frames :: int

text \<open>The loop between two awaits.  \<open>hangup_armed\<close> says that \<open>hangup_deadline\<close> is set; the clock that
  decides when \<open>wait_for\<close> times out is the environment's, so a time-out is an event.\<close>

record session =
  protocol :: loopback
  hangup_armed :: bool
  ingress_sent :: bool

datatype session_event = TimedOut | Received message
datatype session_result = Continue | Return bool | Raise exn

definition ingress_request :: "bridge_args \<Rightarrow> loopback \<Rightarrow> loopback \<times> reply option" where
  "ingress_request args s =
     (case incoming_caller args of
        Some caller \<Rightarrow> incoming_request s caller 1
      | None \<Rightarrow>
          (case incoming_sms args of
             Some chars \<Rightarrow> (s, incoming_sms_request s (case incoming_sms_sender args of None \<Rightarrow> '''' | Some n \<Rightarrow> n) chars 1)
           | None \<Rightarrow> (s, incoming_ussd_request s (the (incoming_ussd args)) 1)))"

definition wants_ingress :: "bridge_args \<Rightarrow> bool" where
  "wants_ingress args \<longleftrightarrow> incoming_caller args \<noteq> None \<or> incoming_sms args \<noteq> None \<or> incoming_ussd args \<noteq> None"

definition session_step :: "bridge_args \<Rightarrow> session \<Rightarrow> session_event \<Rightarrow> session \<times> reply list \<times> session_result" where
  "session_step args st event =
     (case event of
        TimedOut \<Rightarrow>
          (st\<lparr> hangup_armed := False \<rparr>,
           (case call_termination (protocol st) (cause args) of None \<Rightarrow> [] | Some t \<Rightarrow> [t]), Continue)
      | Received m \<Rightarrow>
          let old_phase = phase (protocol st);
              (p, replies) = handle_message (protocol st) m in
          if wants_ingress args \<and> network_registered p \<and> \<not> ingress_sent st
          then (case ingress_request args p of
                  (p, None) \<Rightarrow> (st\<lparr> protocol := p \<rparr>, replies, Continue)
                | (p, Some request) \<Rightarrow> (st\<lparr> protocol := p, ingress_sent := True \<rparr>, replies @ [request], Continue))
          else if eq_str (get_key m ''type'') ''incoming_sms_state'' \<and> eq_str (get_key m ''phase'') ''delivered''
          then (st\<lparr> protocol := p\<lparr> stats := (stats p)\<lparr> sms := sms (stats p) + 1 \<rparr> \<rparr> \<rparr>, replies, Return (once args))
          else if eq_str (get_key m ''type'') ''incoming_ussd_state'' \<and> eq_str (get_key m ''phase'') ''delivered''
          then (st\<lparr> protocol := p \<rparr>, replies, Return (once args))
          else if phase p \<noteq> old_phase
          then let st = st\<lparr> protocol := p, hangup_armed := (if phase p = Connected \<and> hangup_after args \<noteq> None then True else hangup_armed st) \<rparr> in
               if phase p = Ended
               then if downlink_frames (stats p) < require_frames args
                    then (st, replies, Raise (RuntimeError ''call ended before the required media crossed the bridge''))
                    else (st, replies, Return (once args))
               else (st, replies, Continue)
          else (st\<lparr> protocol := p \<rparr>, replies, Continue))"

text \<open>\<open>connected_session\<close> on the events of one connection; running out of events stands for the
  closed connection.\<close>

fun run_session :: "bridge_args \<Rightarrow> session \<Rightarrow> session_event list \<Rightarrow> session \<times> reply list \<times> session_result" where
  "run_session args st [] = (st, [], Continue)"
| "run_session args st (event # events) =
     (case session_step args st event of
        (st, replies, Continue) \<Rightarrow>
          (case run_session args st events of (st', later, r) \<Rightarrow> (st', replies @ later, r))
      | (st, replies, r) \<Rightarrow> (st, replies, r))"

text \<open>\<open>run\<close>: each connection starts a new session around the same protocol object, until a session
  returns true.\<close>

fun run_bridge :: "bridge_args \<Rightarrow> loopback \<Rightarrow> session_event list list \<Rightarrow> loopback \<times> session_result" where
  "run_bridge args p [] = (p, Continue)"
| "run_bridge args p (events # connections) =
     (case run_session args \<lparr> protocol = p, hangup_armed = False, ingress_sent = False \<rparr> events of
        (st, replies, Return True) \<Rightarrow> (protocol st, Return True)
      | (st, replies, Raise e) \<Rightarrow> (protocol st, Raise e)
      | (st, replies, _) \<Rightarrow> run_bridge args (protocol st) connections)"

section \<open>The command line\<close>

definition decimal_number :: "string \<Rightarrow> bool" where
  "decimal_number s \<longleftrightarrow> s \<noteq> [] \<and> (\<forall>c \<in> set s. 48 \<le> char_code c \<and> char_code c \<le> 57) \<and> 1 \<le> length s \<and> length s \<le> 20"

text \<open>The checks of \<open>main\<close> in order; the first that fails ends the program with its message.\<close>

definition check_args :: "bridge_args \<Rightarrow> string option" where
  "check_args args =
     (if (case hangup_after args of None \<Rightarrow> False | Some t \<Rightarrow> t \<le> 0) then Some ''--hangup-after must be positive''
      else if (case incoming_caller args of None \<Rightarrow> False | Some c \<Rightarrow> \<not> decimal_number c)
      then Some ''--incoming-caller must contain 1..20 decimal digits''
      else if 1 < length (filter id [incoming_caller args \<noteq> None, incoming_sms args \<noteq> None, incoming_ussd args \<noteq> None])
      then Some ''choose one incoming call, SMS or USSD request''
      else if (case incoming_sms args of None \<Rightarrow> False
               | Some chars \<Rightarrow> (case encode_text chars False of None \<Rightarrow> True | Some (packed, n) \<Rightarrow> \<not> (1 \<le> n \<and> n \<le> 160)))
      then Some ''--incoming-sms must fit 1..160 GSM default/extension septets''
      else if (case incoming_ussd args of None \<Rightarrow> False
               | Some chars \<Rightarrow> (case encode_text chars True of None \<Rightarrow> True
                   | Some (packed, n) \<Rightarrow> n = 0 \<or> length (bytes_hex packed) > 320))
      then Some ''--incoming-ussd must fit a nonempty GSM 7-bit string in 160 octets''
      else if (case incoming_sms_sender args of None \<Rightarrow> False | Some c \<Rightarrow> \<not> decimal_number c)
      then Some ''--incoming-sms-sender must contain 1..20 decimal digits''
      else if \<not> (1 \<le> cause args \<and> cause args \<le> 0x7f) then Some ''--cause must be in the GSM range 1..127''
      else if report_every args \<le> 0 then Some ''--report-every must be positive''
      else if require_frames args < 0 then Some ''--require-frames must not be negative''
      else None)"

section \<open>The invariant\<close>

text \<open>Every counted uplink frame was either bad or answered, gaps are counted among them, and a call
  that left the idle phase has its epoch and request.\<close>

definition loopback_inv :: "loopback \<Rightarrow> bool" where
  "loopback_inv s \<longleftrightarrow>
     uplink_frames (stats s) = bad_frames (stats s) + downlink_frames (stats s) \<and>
     0 \<le> bad_frames (stats s) \<and> 0 \<le> downlink_frames (stats s) \<and>
     0 \<le> sequence_gaps (stats s) \<and> sequence_gaps (stats s) \<le> uplink_frames (stats s) \<and>
     0 \<le> calls (stats s) \<and> 0 \<le> sms (stats s) \<and>
     (phase s \<noteq> Idle \<longleftrightarrow> request_id s \<noteq> None) \<and> (phase s \<noteq> Idle \<longrightarrow> epoch s \<noteq> None)"

lemma initial_inv: "loopback_inv initial_loopback"
  by (simp add: loopback_inv_def initial_loopback_def)

lemma phase_of_not_idle: "phase_of v = Some p \<Longrightarrow> p \<noteq> Idle"
  by (auto simp: phase_of_def split: if_splits)

lemma handle_request_inv: "loopback_inv s \<Longrightarrow> loopback_inv (fst (handle_request s m))"
  by (auto simp: loopback_inv_def handle_request_def Let_def split: option.splits)

lemma handle_state_inv: "loopback_inv s \<Longrightarrow> loopback_inv (handle_state s m)"
  by (auto simp: loopback_inv_def handle_state_def Let_def matches_def dest: phase_of_not_idle split: option.splits)

lemma handle_media_inv: "loopback_inv s \<Longrightarrow> loopback_inv (fst (handle_media s m))"
  by (auto simp: loopback_inv_def handle_media_def Let_def split: option.splits if_splits)

lemma fst_media_replies: "fst (media_replies p) = fst p"
  by (simp add: media_replies_def split: prod.splits)

lemma small_handlers_inv:
  assumes "loopback_inv s"
  shows "loopback_inv (fst (handle_ready s m))" "loopback_inv (fst (handle_network s m))"
    "loopback_inv (fst (handle_sms s m))" "loopback_inv (fst (handle_ussd s m))"
  using assms by (auto simp: handle_ready_def handle_network_def handle_sms_def handle_ussd_def loopback_inv_def split: option.splits)

lemma handle_message_inv: "loopback_inv s \<Longrightarrow> loopback_inv (fst (handle_message s m))"
  by (simp add: handle_message_def Let_def fst_media_replies handle_request_inv handle_state_inv handle_media_inv small_handlers_inv)

interpretation loopback: handler loopback_inv "\<lambda>s m. Inr (handle_message s m)"
  by unfold_locales (metis fst_conv handle_message_inv sum.inject(2))

section \<open>Media\<close>

text \<open>A media message of the current call with the given sequence number, time, frame and quality.\<close>

definition media_message :: "string \<Rightarrow> int \<Rightarrow> int \<Rightarrow> int \<Rightarrow> int \<Rightarrow> string \<Rightarrow> json \<Rightarrow> message" where
  "media_message kind e r sequence time_us frame good =
     [''type'' \<mapsto> JStr kind, ''epoch'' \<mapsto> JInt e, ''request_id'' \<mapsto> JInt r, ''sequence'' \<mapsto> JInt sequence,
      ''emulation_time_us'' \<mapsto> JInt time_us, ''frame'' \<mapsto> JStr frame, ''good'' \<mapsto> good]"

definition downlink_message :: "loopback \<Rightarrow> int \<Rightarrow> int \<Rightarrow> int \<Rightarrow> int \<Rightarrow> string \<Rightarrow> reply" where
  "downlink_message s e r sequence time_us frame =
     [(''type'', JStr (direction_name (direction s) @ ''_call_media_downlink'')), (''epoch'', JInt e),
      (''request_id'', JInt r), (''sequence'', JInt sequence), (''source_time_us'', JInt time_us), (''frame'', JStr frame)]"

lemma handle_media_cases:
  assumes "handle_media s m = (s', Some d)"
  obtains e r sequence time_us frame bs where
    "phase s = Connected" "epoch s = Some e" "request_id s = Some r" "message_identity m = Some (e, r)"
    "get_key m ''sequence'' = JInt sequence" "get_key m ''emulation_time_us'' = JInt time_us"
    "get_key m ''frame'' = JStr frame" "length frame = frame_hex_length" "fromhex_ws frame = Some bs"
    "get_key m ''good'' = JBool True" "d = downlink_message s e r (next_downlink_sequence s) time_us frame"
    "next_downlink_sequence s' = next_downlink_sequence s + 1"
    "next_uplink_sequence s' = Some (sequence + 1)"
    "downlink_frames (stats s') = downlink_frames (stats s) + 1"
proof -
  have c: "phase s = Connected" "matches s m"
    using assms by (auto simp: handle_media_def split: if_splits)
  then obtain e r where er: "message_identity m = Some (e, r)" "epoch s = Some e" "request_id s = Some r"
    by (auto simp: matches_def split: option.splits)
  have int: "v = JInt n" if "as_int v = Some n" for v n using that by (cases v) auto
  have str: "v = JStr n" if "as_str v = Some n" for v n using that by (cases v) auto
  obtain sequence time_us frame where k: "as_int (get_key m ''sequence'') = Some sequence"
    "as_int (get_key m ''emulation_time_us'') = Some time_us" "as_str (get_key m ''frame'') = Some frame"
    "length frame = frame_hex_length" "fromhex_ws frame \<noteq> None"
    using assms c by (auto simp: handle_media_def split: option.splits if_splits)
  have good: "get_key m ''good'' = JBool True"
    using assms c k by (auto simp: handle_media_def Let_def split: if_splits)
  show thesis
    by (rule that [of e r sequence time_us frame "the (fromhex_ws frame)"])
      (use assms c er k good int str in \<open>auto simp: handle_media_def Let_def downlink_message_def split: if_splits\<close>)
qed

lemma handle_media_good:
  assumes "phase s = Connected" "epoch s = Some e" "request_id s = Some r" "0 < r"
    "length frame = frame_hex_length" "fromhex_ws frame \<noteq> None"
  shows "handle_media s (media_message kind e r sequence time_us frame (JBool True)) =
    (s\<lparr> stats := (stats s)\<lparr> sequence_gaps := sequence_gaps (stats s) +
            of_bool (next_uplink_sequence s \<noteq> None \<and> next_uplink_sequence s \<noteq> Some sequence),
          uplink_frames := uplink_frames (stats s) + 1, downlink_frames := downlink_frames (stats s) + 1 \<rparr>,
        next_uplink_sequence := Some (sequence + 1), next_downlink_sequence := next_downlink_sequence s + 1 \<rparr>,
     Some (downlink_message s e r (next_downlink_sequence s) time_us frame))"
  using assms
  by (auto simp: handle_media_def media_message_def matches_def message_identity_def get_key_def Let_def downlink_message_def)

text \<open>The answers to a stretch of media: the same frames with consecutive sequence numbers.\<close>

fun echoes :: "loopback \<Rightarrow> int \<Rightarrow> int \<Rightarrow> int \<Rightarrow> (int \<times> string) list \<Rightarrow> reply list" where
  "echoes s e r n [] = []"
| "echoes s e r n ((time_us, frame) # frames) = downlink_message s e r n time_us frame # echoes s e r (n + 1) frames"

fun media_stretch :: "string \<Rightarrow> int \<Rightarrow> int \<Rightarrow> int \<Rightarrow> (int \<times> string) list \<Rightarrow> message list" where
  "media_stretch kind e r n [] = []"
| "media_stretch kind e r n ((time_us, frame) # frames) =
     media_message kind e r n time_us frame (JBool True) # media_stretch kind e r (n + 1) frames"

definition frames_ok :: "(int \<times> string) list \<Rightarrow> bool" where
  "frames_ok frames \<longleftrightarrow> (\<forall>(t, f) \<in> set frames. length f = frame_hex_length \<and> fromhex_ws f \<noteq> None)"

lemma echoes_cong: "direction s = direction s' \<Longrightarrow> echoes s e r n frames = echoes s' e r n frames"
  by (induction frames arbitrary: n) (auto simp: downlink_message_def)

lemma media_dispatch:
  assumes "get_key m ''type'' = JStr kind"
    "kind = ''outgoing_call_media_uplink'' \<or> kind = ''incoming_call_media_uplink''"
  shows "handle_message s m = media_replies (handle_media s m)"
  using assms by (auto simp: handle_message_def eq_str_def Let_def)

lemma media_stretch_run:
  assumes "kind = ''outgoing_call_media_uplink'' \<or> kind = ''incoming_call_media_uplink''"
    "phase s = Connected" "epoch s = Some e" "request_id s = Some r" "0 < r" "frames_ok frames"
    "next_uplink_sequence s = None \<or> next_uplink_sequence s = Some n"
  shows "\<exists>s'. run_events (\<lambda>s m. Inr (handle_message s m)) s (media_stretch kind e r n frames) =
      Inr (s', echoes s e r (next_downlink_sequence s) frames) \<and>
    stats s' = (stats s)\<lparr> uplink_frames := uplink_frames (stats s) + int (length frames),
                          downlink_frames := downlink_frames (stats s) + int (length frames) \<rparr> \<and>
    next_downlink_sequence s' = next_downlink_sequence s + int (length frames)"
  using assms
proof (induction frames arbitrary: s n)
  case (Cons tf frames)
  obtain t f where tf: "tf = (t, f)" by (metis surj_pair)
  have ok: "length f = frame_hex_length" "fromhex_ws f \<noteq> None" "frames_ok frames"
    using Cons.prems(6) by (auto simp: frames_ok_def tf)
  define s1 where "s1 = s\<lparr> stats := (stats s)\<lparr> sequence_gaps := sequence_gaps (stats s),
          uplink_frames := uplink_frames (stats s) + 1, downlink_frames := downlink_frames (stats s) + 1 \<rparr>,
        next_uplink_sequence := Some (n + 1), next_downlink_sequence := next_downlink_sequence s + 1 \<rparr>"
  have gap: "of_bool (next_uplink_sequence s \<noteq> None \<and> next_uplink_sequence s \<noteq> Some n) = (0 :: int)"
    using Cons.prems(7) by auto
  have media: "handle_media s (media_message kind e r n t f (JBool True)) =
      (s1, Some (downlink_message s e r (next_downlink_sequence s) t f))"
    using handle_media_good [OF Cons.prems(2-5) ok(1,2), of kind n t] by (simp only: gap s1_def add_0_right)
  have kind: "get_key (media_message kind e r n t f (JBool True)) ''type'' = JStr kind"
    by (simp add: get_key_def media_message_def)
  have step: "handle_message s (media_message kind e r n t f (JBool True)) = (s1, [downlink_message s e r (next_downlink_sequence s) t f])"
    using media_dispatch [OF kind Cons.prems(1)] by (simp add: media media_replies_def)
  obtain s' where s': "run_events (\<lambda>s m. Inr (handle_message s m)) s1 (media_stretch kind e r (n + 1) frames) =
      Inr (s', echoes s1 e r (next_downlink_sequence s1) frames)"
    "stats s' = (stats s1)\<lparr> uplink_frames := uplink_frames (stats s1) + int (length frames),
                          downlink_frames := downlink_frames (stats s1) + int (length frames) \<rparr>"
    "next_downlink_sequence s' = next_downlink_sequence s1 + int (length frames)"
    using Cons.IH [of s1 "n + 1"] Cons.prems ok by (auto simp: s1_def)
  have "echoes s1 e r (next_downlink_sequence s1) frames = echoes s e r (next_downlink_sequence s + 1) frames"
    using echoes_cong [of s1 s] by (simp add: s1_def)
  then show ?case using s' step by (simp add: tf s1_def)
qed simp

section \<open>Sessions\<close>

text \<open>The requests that a session starts by itself.\<close>

definition is_ingress :: "reply \<Rightarrow> bool" where
  "is_ingress reply \<longleftrightarrow> map_of reply ''type'' \<in> {Some (JStr ''incoming_call''), Some (JStr ''incoming_sms''), Some (JStr ''incoming_ussd'')}"

lemma direction_not_ingress:
  "direction_name d @ ''_call_media_downlink'' \<notin> {''incoming_call'', ''incoming_sms'', ''incoming_ussd''}"
  "direction_name d @ ''_call_terminate'' \<notin> {''incoming_call'', ''incoming_sms'', ''incoming_ussd''}"
  by (cases d; simp)+

lemma is_ingress_Cons [simp]:
  "is_ingress ((''type'', JStr t) # rest) \<longleftrightarrow> t \<in> {''incoming_call'', ''incoming_sms'', ''incoming_ussd''}"
  by (simp add: is_ingress_def)

lemma handle_media_no_ingress: "handle_media s m = (s', Some d) \<Longrightarrow> \<not> is_ingress d"
  by (elim handle_media_cases) (use direction_not_ingress in \<open>auto simp: downlink_message_def\<close>)

lemma media_no_ingress: "filter is_ingress (snd (media_replies (handle_media s m))) = []"
  using handle_media_no_ingress [of s m]
  by (auto simp: media_replies_def split: prod.splits option.splits)

lemma request_no_ingress: "filter is_ingress (snd (handle_request s m)) = []"
  by (simp add: handle_request_def Let_def split: option.splits)

lemma small_handlers_no_ingress:
  "filter is_ingress (snd (handle_ready s m)) = []" "filter is_ingress (snd (handle_network s m)) = []"
  "filter is_ingress (snd (handle_sms s m)) = []" "filter is_ingress (snd (handle_ussd s m)) = []"
  by (simp_all add: handle_ready_def handle_network_def handle_sms_def handle_ussd_def split: option.splits)

lemma handle_message_no_ingress: "filter is_ingress (snd (handle_message s m)) = []"
  by (simp add: handle_message_def Let_def media_no_ingress request_no_ingress small_handlers_no_ingress)

lemma termination_no_ingress: "call_termination s c = Some t \<Longrightarrow> \<not> is_ingress t"
  using direction_not_ingress by (auto simp: call_termination_def split: option.splits if_splits)

lemma session_step_ingress:
  assumes "session_step args st event = (st', replies, r)"
  shows "length (filter is_ingress replies) + of_bool (ingress_sent st) \<le> of_bool (ingress_sent st')"
proof (cases event)
  case TimedOut
  then show ?thesis using assms termination_no_ingress
    by (auto simp: session_step_def split: option.splits)
next
  case (Received m)
  obtain p reps where h: "handle_message (protocol st) m = (p, reps)" by (metis surj_pair)
  have n: "filter is_ingress reps = []" using handle_message_no_ingress [of "protocol st" m] by (simp add: h)
  show ?thesis using assms n
    by (auto simp: session_step_def Received h Let_def split: option.splits prod.splits if_splits)
qed

lemma run_session_ingress:
  "run_session args st events = (st', replies, r) \<Longrightarrow>
   length (filter is_ingress replies) + of_bool (ingress_sent st) \<le> of_bool (ingress_sent st')"
proof (induction events arbitrary: st replies)
  case (Cons e events)
  obtain st1 r1 res where s1: "session_step args st e = (st1, r1, res)" by (metis surj_pair)
  obtain st2 r2 res2 where s2: "run_session args st1 events = (st2, r2, res2)" by (metis surj_pair)
  note step = session_step_ingress [OF s1]
  show ?case
  proof (cases res)
    case Continue
    then have "replies = r1 @ r2" "st2 = st'" using Cons.prems by (simp_all add: s1 s2)
    moreover have "length (filter is_ingress r2) + of_bool (ingress_sent st1) \<le> of_bool (ingress_sent st2)"
      using Cons.IH [of st1 r2] Continue Cons.prems s1 s2 by simp
    ultimately show ?thesis using step by simp
  qed (use Cons.prems s1 step in simp_all)
qed simp

lemma run_session_raise:
  "run_session args st events = (st', replies, Raise x) \<Longrightarrow>
   x = RuntimeError ''call ended before the required media crossed the bridge'' \<and>
   phase (protocol st') = Ended \<and> downlink_frames (stats (protocol st')) < require_frames args"
proof (induction events arbitrary: st replies)
  case (Cons e events)
  obtain st1 r1 res where s1: "session_step args st e = (st1, r1, res)" by (metis surj_pair)
  obtain st2 r2 res2 where s2: "run_session args st1 events = (st2, r2, res2)" by (metis surj_pair)
  have "x = RuntimeError ''call ended before the required media crossed the bridge'' \<and>
     phase (protocol st1) = Ended \<and> downlink_frames (stats (protocol st1)) < require_frames args" if "res = Raise x"
    using s1 that by (auto simp: session_step_def Let_def split: session_event.splits option.splits prod.splits if_splits)
  then show ?case using Cons s1 s2 by (cases res) auto
qed simp

text \<open>Only the answer to media carries a frame.\<close>

lemma other_no_frame:
  "reply \<in> set (snd (handle_ready s m)) \<Longrightarrow> map_of reply ''frame'' = None"
  "reply \<in> set (snd (handle_network s m)) \<Longrightarrow> map_of reply ''frame'' = None"
  "reply \<in> set (snd (handle_sms s m)) \<Longrightarrow> map_of reply ''frame'' = None"
  "reply \<in> set (snd (handle_ussd s m)) \<Longrightarrow> map_of reply ''frame'' = None"
  "reply \<in> set (snd (handle_request s m)) \<Longrightarrow> map_of reply ''frame'' = None"
  by (auto simp: handle_ready_def handle_network_def handle_sms_def handle_ussd_def handle_request_def Let_def
      split: option.splits if_splits)

lemma frame_reply:
  assumes "handle_message s m = (s', replies)" "reply \<in> set replies" "map_of reply ''frame'' = Some v"
  shows "media_replies (handle_media s m) = (s', replies)"
proof -
  have "reply \<in> set (snd (handle_message s m))" using assms by simp
  then show ?thesis using assms(1,3) other_no_frame [of reply s m]
    by (auto simp: handle_message_def Let_def split: if_splits)
qed

section \<open>Properties\<close>

text \<open>after any messages from the start, every counted uplink frame was either bad or answered,
  sequence gaps are counted among the uplink frames, and a call outside the idle phase has an epoch
  and a request.\<close>

theorem bridge_frame_accounting:
  assumes "run_events (\<lambda>s m. Inr (handle_message s m)) initial_loopback messages = Inr (s, replies)"
  shows "uplink_frames (stats s) = bad_frames (stats s) + downlink_frames (stats s) \<and>
    0 \<le> bad_frames (stats s) \<and> 0 \<le> downlink_frames (stats s) \<and> sequence_gaps (stats s) \<le> uplink_frames (stats s) \<and>
    (phase s \<noteq> Idle \<longrightarrow> epoch s \<noteq> None \<and> request_id s \<noteq> None)"
  using loopback.run_inv [OF initial_inv assms] by (simp add: loopback_inv_def)

theorem bridge_frame_accounting_witness:
  "\<exists>s replies. run_events (\<lambda>s m. Inr (handle_message s m)) initial_loopback
     [[''type'' \<mapsto> JStr ''outgoing_call'', ''epoch'' \<mapsto> JInt 3, ''request_id'' \<mapsto> JInt 7, ''digits'' \<mapsto> JStr ''112'']] = Inr (s, replies) \<and>
     uplink_frames (stats s) = bad_frames (stats s) + downlink_frames (stats s)"
proof -
  obtain s replies where r: "run_events (\<lambda>s m. Inr (handle_message s m)) initial_loopback
     [[''type'' \<mapsto> JStr ''outgoing_call'', ''epoch'' \<mapsto> JInt 3, ''request_id'' \<mapsto> JInt 7, ''digits'' \<mapsto> JStr ''112'']] = Inr (s, replies)"
    by (cases "handle_message initial_loopback [''type'' \<mapsto> JStr ''outgoing_call'', ''epoch'' \<mapsto> JInt 3, ''request_id'' \<mapsto> JInt 7, ''digits'' \<mapsto> JStr ''112'']") simp
  from bridge_frame_accounting [OF r] r show ?thesis by blast
qed

text \<open>C12: a reply that carries a speech frame is the single answer to a media message of the connected
  call with the same epoch and request; it repeats the frame of that message, 66 characters that
  decode as hexadecimal, under the next downlink sequence number, which then advances by one.\<close>

theorem media_echo_safe:
  assumes "handle_message s m = (s', replies)" "reply \<in> set replies" "map_of reply ''frame'' = Some v"
  shows "\<exists>e r time_us frame bs. phase s = Connected \<and> epoch s = Some e \<and> request_id s = Some r \<and>
    message_identity m = Some (e, r) \<and> get_key m ''frame'' = v \<and> v = JStr frame \<and> length frame = frame_hex_length \<and>
    fromhex_ws frame = Some bs \<and> get_key m ''good'' = JBool True \<and>
    replies = [downlink_message s e r (next_downlink_sequence s) time_us frame] \<and>
    next_downlink_sequence s' = next_downlink_sequence s + 1"
proof -
  have "\<exists>d. handle_media s m = (s', Some d) \<and> replies = [d]"
    using frame_reply [OF assms] assms(2) by (auto simp: media_replies_def split: prod.splits option.splits)
  then obtain d where d: "handle_media s m = (s', Some d)" "replies = [d]" by blast
  show ?thesis
  proof (rule handle_media_cases [OF d(1)])
    fix e r sequence time_us frame bs
    assume c: "phase s = Connected" "epoch s = Some e" "request_id s = Some r" "message_identity m = Some (e, r)"
      "get_key m ''frame'' = JStr frame" "length frame = frame_hex_length" "fromhex_ws frame = Some bs"
      "get_key m ''good'' = JBool True" "d = downlink_message s e r (next_downlink_sequence s) time_us frame"
      "next_downlink_sequence s' = next_downlink_sequence s + 1"
    have "v = JStr frame" using assms(2,3) d(2) c(9) by (simp add: downlink_message_def)
    with c d(2) show ?thesis by blast
  qed
qed

definition connected_example :: loopback where
  "connected_example = initial_loopback\<lparr> epoch := Some 1, request_id := Some 2, phase := Connected, next_downlink_sequence := 40 \<rparr>"

lemma connected_example_media:
  "length frame = frame_hex_length \<Longrightarrow> fromhex_ws frame \<noteq> None \<Longrightarrow>
   \<exists>s'. handle_message connected_example (media_message ''outgoing_call_media_uplink'' 1 2 9 100 frame (JBool True)) =
     (s', [downlink_message connected_example 1 2 40 100 frame])"
  using handle_media_good [of connected_example 1 2 frame "''outgoing_call_media_uplink''" 9 100]
  by (simp add: media_dispatch [of _ "''outgoing_call_media_uplink''"] get_key_def media_message_def media_replies_def
      connected_example_def)

lemma zero_frame: "length (bytes_hex (replicate 33 0)) = frame_hex_length" "fromhex_ws (bytes_hex (replicate 33 0)) \<noteq> None"
  by (simp_all add: length_bytes_hex frame_hex_length_def fromhex_ws_bytes_hex)

theorem media_echo_safe_witness:
  "\<exists>s' replies. handle_message connected_example
       (media_message ''outgoing_call_media_uplink'' 1 2 9 100 (bytes_hex (replicate 33 0)) (JBool True)) = (s', replies) \<and>
     next_downlink_sequence s' = 41"
proof -
  obtain s' where s': "handle_message connected_example
      (media_message ''outgoing_call_media_uplink'' 1 2 9 100 (bytes_hex (replicate 33 0)) (JBool True)) =
      (s', [downlink_message connected_example 1 2 40 100 (bytes_hex (replicate 33 0))])"
    using connected_example_media [OF zero_frame] by blast
  have "map_of (downlink_message connected_example 1 2 40 100 (bytes_hex (replicate 33 0))) ''frame'' = Some (JStr (bytes_hex (replicate 33 0)))"
    by (simp add: downlink_message_def)
  from media_echo_safe [OF s' _ this] s' show ?thesis by (auto simp: connected_example_def)
qed

text \<open>a stretch of good frames of the connected call, with consecutive sequence numbers, is echoed
  frame by frame in order under consecutive downlink numbers; every frame is counted once in each
  direction and no gap is counted.\<close>

theorem media_stretch_echoed:
  assumes "kind = ''outgoing_call_media_uplink'' \<or> kind = ''incoming_call_media_uplink''"
    "phase s = Connected" "epoch s = Some e" "request_id s = Some r" "0 < r" "frames_ok frames"
    "next_uplink_sequence s = None \<or> next_uplink_sequence s = Some n"
  shows "\<exists>s'. run_events (\<lambda>s m. Inr (handle_message s m)) s (media_stretch kind e r n frames) =
      Inr (s', echoes s e r (next_downlink_sequence s) frames) \<and>
    stats s' = (stats s)\<lparr> uplink_frames := uplink_frames (stats s) + int (length frames),
                          downlink_frames := downlink_frames (stats s) + int (length frames) \<rparr> \<and>
    next_downlink_sequence s' = next_downlink_sequence s + int (length frames)"
  using assms by (rule media_stretch_run)

theorem media_stretch_echoed_witness:
  "\<exists>s'. run_events (\<lambda>s m. Inr (handle_message s m)) connected_example
      (media_stretch ''outgoing_call_media_uplink'' 1 2 5 (replicate 50 (0, bytes_hex (replicate 33 0)))) =
      Inr (s', echoes connected_example 1 2 40 (replicate 50 (0, bytes_hex (replicate 33 0)))) \<and>
    next_downlink_sequence s' = 90"
  using media_stretch_echoed [of "''outgoing_call_media_uplink''" connected_example 1 2 "replicate 50 (0, bytes_hex (replicate 33 0))" 5]
    zero_frame by (auto simp: connected_example_def initial_loopback_def frames_ok_def)

text \<open>a session starts at most one call, short message or USSD of its own, however long it runs.\<close>

theorem session_ingress_once:
  "case run_session args \<lparr> protocol = p, hangup_armed = False, ingress_sent = False \<rparr> events of
     (st', replies, r) \<Rightarrow> length (filter is_ingress replies) \<le> 1"
proof -
  obtain st' replies r where run: "run_session args \<lparr> protocol = p, hangup_armed = False, ingress_sent = False \<rparr> events = (st', replies, r)"
    by (metis surj_pair)
  have "of_bool (ingress_sent st') \<le> (1 :: nat)" by simp
  with run_session_ingress [OF run] show ?thesis by (simp add: run)
qed

text \<open>Arguments that pass the command-line checks and ask for an incoming call, message or USSD
  always yield the request once the epoch is known, and a text request carries exactly the given text.\<close>

theorem validated_ingress_builds:
  assumes "check_args args = None" "wants_ingress args" "epoch p = Some e"
  shows "\<exists>p' request. ingress_request args p = (p', Some request) \<and> is_ingress request \<and>
    (\<forall>chars. incoming_caller args = None \<and> incoming_sms args = Some chars \<longrightarrow>
      (\<exists>packed n. map_of request ''user_data'' = Some (JStr (bytes_hex packed)) \<and>
         map_of request ''user_data_length'' = Some (JInt (int n)) \<and> n \<le> 160 \<and>
         septets_text (unpack_septets n packed) = Some chars))"
proof (cases "incoming_caller args")
  case (Some c)
  then show ?thesis using assms(3)
    by (auto simp: ingress_request_def incoming_request_def is_ingress_def)
next
  case None
  show ?thesis
  proof (cases "incoming_sms args")
    case (Some chars)
    have "\<not> (case encode_text chars False of None \<Rightarrow> True | Some (packed, n) \<Rightarrow> \<not> (1 \<le> n \<and> n \<le> 160))"
      using assms(1) Some by (simp add: check_args_def split: if_splits)
    then obtain packed n where enc: "encode_text chars False = Some (packed, n)" "1 \<le> n" "n \<le> 160"
      by (auto split: option.splits)
    then show ?thesis using assms(3) None Some sms_text_roundtrip(1) [OF enc(1)]
      by (auto simp: ingress_request_def incoming_sms_request_def is_ingress_def)
  next
    case sms: None
    then obtain chars where u: "incoming_ussd args = Some chars"
      using assms(2) None by (auto simp: wants_ingress_def)
    have "\<not> (case encode_text chars True of None \<Rightarrow> True | Some (packed, n) \<Rightarrow> n = 0 \<or> length (bytes_hex packed) > 320)"
      using assms(1) sms u by (simp add: check_args_def split: if_splits)
    then show ?thesis using assms(3) None sms u
      by (auto simp: ingress_request_def incoming_ussd_request_def is_ingress_def split: option.splits)
  qed
qed

definition sms_args :: bridge_args where
  "sms_args = \<lparr> hangup_after = None, incoming_caller = None, incoming_sms = Some [0x48, 0x69], incoming_ussd = None,
     incoming_sms_sender = Some ''5551234'', cause = 16, once = True, report_every = 250, require_frames = 0 \<rparr>"

theorem validated_ingress_builds_witness:
  "\<exists>p' request. ingress_request sms_args connected_example = (p', Some request) \<and> is_ingress request"
proof -
  have "text_septets [0x48, 0x69] = Some [0x48, 0x69]" by code_simp
  then have "check_args sms_args = None"
    by (simp add: check_args_def sms_args_def encode_text_def decimal_number_def char_code_def)
  from validated_ingress_builds [OF this, of connected_example 1] show ?thesis
    by (auto simp: wants_ingress_def sms_args_def connected_example_def)
qed

text \<open>the only error a session raises is the one for a call that ended with fewer answered frames than
  required.\<close>

theorem session_failure:
  "case run_session args st events of
     (st', replies, Raise x) \<Rightarrow> x = RuntimeError ''call ended before the required media crossed the bridge'' \<and>
       phase (protocol st') = Ended \<and> downlink_frames (stats (protocol st')) < require_frames args
   | _ \<Rightarrow> True"
  using run_session_raise [of args st events] by (auto split: prod.splits session_result.splits)

lemma media_answer:
  assumes "phase s = Connected" "epoch s = Some e" "request_id s = Some r" "0 < r"
    "kind = ''outgoing_call_media_uplink'' \<or> kind = ''incoming_call_media_uplink''" "fromhex_ws frame = Some bs"
  shows "snd (handle_message s (media_message kind e r n t frame (JBool True))) =
    (if length frame = frame_hex_length then [downlink_message s e r (next_downlink_sequence s) t frame] else [])"
proof -
  have kind: "get_key (media_message kind e r n t frame (JBool True)) ''type'' = JStr kind"
    by (simp add: get_key_def media_message_def)
  show ?thesis
  proof (cases "length frame = frame_hex_length")
    case True
    then show ?thesis using handle_media_good [OF assms(1-4) True, of kind n t] assms(6)
      by (simp add: media_dispatch [OF kind assms(5)] media_replies_def)
  next
    case False
    then have "snd (handle_media s (media_message kind e r n t frame (JBool True))) = None"
      by (auto simp: handle_media_def media_message_def get_key_def Let_def)
    with False show ?thesis by (simp add: media_dispatch [OF kind assms(5)] media_replies_def split_beta)
  qed
qed

lemma fromhex_ws_blanks: "fromhex_ws (replicate k CHR '' '' @ cs) = fromhex_ws cs"
  by (induction k) (simp_all add: hex_space_def)

text \<open>C13: The length test counts the 66 characters of the text, not the 33 bytes of the frame, and
  \<open>bytes.fromhex\<close> skips white space.  In every connected call a good frame that decodes is answered exactly when
  its blanks and twice its bytes make 66: any number of bytes below 33 is echoed once blanks pad its
  text to 66 characters, and the same bytes without the blanks are refused.\<close>

theorem spaced_frame_echoed:
  assumes "phase s = Connected" "epoch s = Some e" "request_id s = Some r" "0 < r"
    "kind = ''outgoing_call_media_uplink'' \<or> kind = ''incoming_call_media_uplink''" "fromhex_ws frame = Some bs"
  shows "snd (handle_message s (media_message kind e r n t frame (JBool True))) =
      (if length (filter hex_space frame) + 2 * length bs = 66
       then [downlink_message s e r (next_downlink_sequence s) t frame] else []) \<and>
    fromhex_ws (replicate k CHR '' '' @ bytes_hex bs) = Some bs \<and>
    snd (handle_message s (media_message kind e r n t (replicate k CHR '' '' @ bytes_hex bs) (JBool True))) =
      (if k + 2 * length bs = 66
       then [downlink_message s e r (next_downlink_sequence s) t (replicate k CHR '' '' @ bytes_hex bs)] else [])"
proof -
  have blanks: "fromhex_ws (replicate k CHR '' '' @ bytes_hex bs) = Some bs"
    by (simp add: fromhex_ws_blanks fromhex_ws_bytes_hex)
  with media_answer [OF assms, of n t] media_answer [OF assms(1-5) blanks, of n t] fromhex_ws_length [OF assms(6)]
  show ?thesis by (simp add: frame_hex_length_def length_bytes_hex add.commute mult.commute)
qed

theorem spaced_frame_echoed_witness:
  "snd (handle_message connected_example
      (media_message ''outgoing_call_media_uplink'' 1 2 9 100 (''  '' @ bytes_hex (replicate 32 0)) (JBool True))) =
     [downlink_message connected_example 1 2 40 100 (''  '' @ bytes_hex (replicate 32 0))] \<and>
   snd (handle_message connected_example
      (media_message ''outgoing_call_media_uplink'' 1 2 9 100 (bytes_hex (replicate 32 0)) (JBool True))) = []"
proof -
  have s: "phase connected_example = Connected" "epoch connected_example = Some 1" "request_id connected_example = Some 2"
    "next_downlink_sequence connected_example = 40" by (simp_all add: connected_example_def)
  note at = spaced_frame_echoed [OF s(1-3) _ disjI1 [OF refl] fromhex_ws_bytes_hex [of "replicate 32 0"], of 9 100]
  from at [of 2] at [of 0] show ?thesis by (simp add: s numeral_2_eq_2 connected_example_def)
qed

end
