(* ===== verification/Py_Dict.thy ===== *)
theory Py_Dict
  imports Py_Text "HOL-Library.AList"
begin

text \<open>
  A Python dictionary whose keys are inserted, updated and iterated is an association list in
  insertion order with distinct keys: \<open>d.get(k)\<close> is \<^const>\<open>map_of\<close>, \<open>d[k] = v\<close> is
  \<^const>\<open>AList.update\<close>, which keeps the place of a present key and appends a new one.  Also here:
  SHA-256 of the standard library's \<open>hashlib\<close>, written out.
\<close>

section \<open>Dictionaries\<close>

type_synonym ('k, 'v) dict = "('k \<times> 'v) list"

definition dict_set :: "'k \<Rightarrow> 'v \<Rightarrow> ('k, 'v) dict \<Rightarrow> ('k, 'v) dict" where
  "dict_set = AList.update"

definition dict_wf :: "('k, 'v) dict \<Rightarrow> bool" where
  "dict_wf d \<longleftrightarrow> distinct (map fst d)"

lemma map_of_dict_set [simp]: "map_of (dict_set k v d) = (map_of d)(k \<mapsto> v)"
  by (simp add: dict_set_def update_conv')

lemma dict_set_wf [simp]: "dict_wf d \<Longrightarrow> dict_wf (dict_set k v d)"
  by (simp add: dict_wf_def dict_set_def distinct_update)

lemma dict_wf_Nil [simp]: "dict_wf []"
  by (simp add: dict_wf_def)

lemma keys_dict_set: "fst ` set (dict_set k v d) = insert k (fst ` set d)"
  by (simp add: dict_set_def dom_update)

lemma dict_length: "dict_wf d \<Longrightarrow> length d = card (fst ` set d)"
  by (metis dict_wf_def distinct_card length_map list.set_map)

lemma length_dict_set:
  "dict_wf d \<Longrightarrow> length (dict_set k v d) = (if map_of d k = None then Suc (length d) else length d)"
  by (simp add: dict_length keys_dict_set map_of_eq_None_iff insert_absorb)

lemma dict_wf_iff: "dict_wf d \<Longrightarrow> (k, v) \<in> set d \<longleftrightarrow> map_of d k = Some v"
  by (simp add: dict_wf_def)

text \<open>Writing a list of values to consecutive keys.\<close>

fun dict_write :: "int \<Rightarrow> 'v list \<Rightarrow> (int, 'v) dict \<Rightarrow> (int, 'v) dict" where
  "dict_write a [] d = d"
| "dict_write a (v # vs) d = dict_write (a + 1) vs (dict_set a v d)"

lemma dict_write_wf [simp]: "dict_wf d \<Longrightarrow> dict_wf (dict_write a vs d)"
  by (induction vs arbitrary: a d) auto

lemma map_of_dict_write:
  "map_of (dict_write a vs d) x =
     (if a \<le> x \<and> x < a + int (length vs) then Some (vs ! nat (x - a)) else map_of d x)"
proof (induction vs arbitrary: a d x)
  case (Cons v vs)
  show ?case
  proof (cases "x = a")
    case False
    have "nat (x - a) = Suc (nat (x - (a + 1)))" if "a + 1 \<le> x" using that by simp
    then show ?thesis using False Cons by auto
  qed (simp add: Cons)
qed auto

section \<open>Little-endian half words\<close>

definition pack_le16 :: "int list \<Rightarrow> bytes res" where
  "pack_le16 ws = (if \<forall>w \<in> set ws. 0 \<le> w \<and> w \<le> 0xffff
     then Inr (concat (map (\<lambda>w. [word_of_int w, word_of_int (drop_bit 8 w)]) ws))
     else Inl StructError)"

section \<open>SHA-256\<close>

definition sha_k :: "32 word list" where
  "sha_k = [
    0x428a2f98, 0x71374491, 0xb5c0fbcf, 0xe9b5dba5, 0x3956c25b, 0x59f111f1, 0x923f82a4, 0xab1c5ed5,
    0xd807aa98, 0x12835b01, 0x243185be, 0x550c7dc3, 0x72be5d74, 0x80deb1fe, 0x9bdc06a7, 0xc19bf174,
    0xe49b69c1, 0xefbe4786, 0x0fc19dc6, 0x240ca1cc, 0x2de92c6f, 0x4a7484aa, 0x5cb0a9dc, 0x76f988da,
    0x983e5152, 0xa831c66d, 0xb00327c8, 0xbf597fc7, 0xc6e00bf3, 0xd5a79147, 0x06ca6351, 0x14292967,
    0x27b70a85, 0x2e1b2138, 0x4d2c6dfc, 0x53380d13, 0x650a7354, 0x766a0abb, 0x81c2c92e, 0x92722c85,
    0xa2bfe8a1, 0xa81a664b, 0xc24b8b70, 0xc76c51a3, 0xd192e819, 0xd6990624, 0xf40e3585, 0x106aa070,
    0x19a4c116, 0x1e376c08, 0x2748774c, 0x34b0bcb5, 0x391c0cb3, 0x4ed8aa4a, 0x5b9cca4f, 0x682e6ff3,
    0x748f82ee, 0x78a5636f, 0x84c87814, 0x8cc70208, 0x90befffa, 0xa4506ceb, 0xbef9a3f7, 0xc67178f2]"

definition sha_init :: "32 word list" where
  "sha_init = [0x6a09e667, 0xbb67ae85, 0x3c6ef372, 0xa54ff53a, 0x510e527f, 0x9b05688c, 0x1f83d9ab, 0x5be0cd19]"

definition sha_pad :: "bytes \<Rightarrow> bytes" where
  "sha_pad m = m @ [0x80] @ replicate ((119 - length m mod 64) mod 64) 0
     @ rev (le_bytes 8 (8 * int (length m)))"

fun sha_words :: "bytes \<Rightarrow> 32 word list" where
  "sha_words (a # b # c # d # bs) = word_of_int (from_be [a, b, c, d]) # sha_words bs"
| "sha_words _ = []"

text \<open>The message schedule, newest word first.\<close>

definition sha_next :: "32 word list \<Rightarrow> 32 word list" where
  "sha_next ws = (let
       x = ws ! 14; y = ws ! 1;
       s0 = word_rotr 7 x XOR word_rotr 18 x XOR drop_bit 3 x;
       s1 = word_rotr 17 y XOR word_rotr 19 y XOR drop_bit 10 y
     in (ws ! 15 + s0 + ws ! 6 + s1) # ws)"

definition sha_schedule :: "bytes \<Rightarrow> 32 word list" where
  "sha_schedule block = rev ((sha_next ^^ 48) (rev (sha_words block)))"

fun sha_round :: "32 word list \<Rightarrow> 32 word \<times> 32 word \<Rightarrow> 32 word list" where
  "sha_round [a, b, c, d, e, f, g, h] (k, w) = (let
       s1 = word_rotr 6 e XOR word_rotr 11 e XOR word_rotr 25 e;
       ch = (e AND f) XOR (NOT e AND g);
       t1 = h + s1 + ch + k + w;
       s0 = word_rotr 2 a XOR word_rotr 13 a XOR word_rotr 22 a;
       maj = (a AND b) XOR (a AND c) XOR (b AND c)
     in [t1 + s0 + maj, a, b, c, d + t1, e, f, g])"
| "sha_round s _ = s"

definition sha_block :: "32 word list \<Rightarrow> bytes \<Rightarrow> 32 word list" where
  "sha_block s block = map2 (+) s (foldl sha_round s (zip sha_k (sha_schedule block)))"

fun chunks64 :: "nat \<Rightarrow> bytes \<Rightarrow> bytes list" where
  "chunks64 0 bs = []"
| "chunks64 (Suc n) bs = take 64 bs # chunks64 n (drop 64 bs)"

definition sha256 :: "bytes \<Rightarrow> bytes" where
  "sha256 m = (let p = sha_pad m in
     concat (map (\<lambda>w. rev (le_bytes 4 (uint w))) (foldl sha_block sha_init (chunks64 (length p div 64) p))))"

text \<open>\<open>hashlib.sha256(m).hexdigest()\<close>.\<close>

definition sha256_hex :: "bytes \<Rightarrow> string" where
  "sha256_hex m = bytes_hex (sha256 m)"

lemma sha_pad_blocks: "length (sha_pad m) mod 64 = 0"
proof -
  define r q where "r = length m mod 64" and "q = length m div 64"
  have len: "length m = 64 * q + r" and "r < 64" by (auto simp: r_def q_def)
  have pad: "(r + 9 + (119 - r) mod 64) mod 64 = 0"
  proof (cases "r < 56")
    case True
    then have "(119 - r) mod 64 = 55 - r" by (simp add: le_mod_geq)
    with True show ?thesis by simp
  next
    case False
    then have "(119 - r) mod 64 = 119 - r" using \<open>r < 64\<close> by (intro mod_less) linarith
    with False \<open>r < 64\<close> show ?thesis by simp
  qed
  have "(64 * q + (r + 9 + (119 - r) mod 64)) mod 64 = 0" using pad by (simp only: mod_mult_self4)
  then show ?thesis using len \<open>r < 64\<close> by (simp add: sha_pad_def mod_less add_ac)
qed

end
