(* ===== verification/A00_Container.thy ===== *)
theory A00_Container
  imports Interfaces Py_Dict
begin

text \<open>
  The A00 container of the MU4 player and the C54x serial-boot streams in it
  (\<open>tools/noki5510_a00_inventory.py\<close>): segments with a marker, a length, a payload and an
  exclusive-or checksum; inside a payload, count/XPC/PC section records ended by a zero count; and
  the map from program word addresses to words that loading the sections leaves.  Report
  dictionaries are records with one field per key.
\<close>

section \<open>Reading half words\<close>

definition read16 :: "bytes \<Rightarrow> nat \<Rightarrow> nat" where
  "read16 img offset = nat (from_be (slice offset (offset + 2) img))"

definition read32 :: "bytes \<Rightarrow> nat \<Rightarrow> nat" where
  "read32 img offset = nat (from_be (slice offset (offset + 4) img))"

definition iter_words :: "bytes \<Rightarrow> int list res" where
  "iter_words bs = (if even (length bs) then Inr (be_words bs) else Inl StructError)"

section \<open>C initialization tables\<close>

record cinit_row =
  ci_offset :: nat
  ci_words :: nat
  ci_destination :: nat
  ci_sha :: string
  ci_values :: "string list option"

record cinit_report =
  cr_records :: "cinit_row list"
  cr_coverage :: nat
  cr_scope :: string

definition cinit_row_of :: "bytes \<Rightarrow> nat \<Rightarrow> nat \<Rightarrow> cinit_row" where
  "cinit_row_of img start count =
     (let payload = slice (start + 4) (start + 4 + count * 2) img in
      \<lparr>ci_offset = start, ci_words = count, ci_destination = read16 img (start + 2),
       ci_sha = sha256_hex payload,
       ci_values = (if count \<le> 32 then Some (map (fmt_x 4) (be_words payload)) else None)\<rparr>)"

function cinit_loop :: "bytes \<Rightarrow> nat \<Rightarrow> cinit_row list \<Rightarrow> cinit_report res" where
  "cinit_loop img offset rows =
     (if offset + 2 \<le> length img then
        let count = read16 img offset in
        if count = 0 then
          if offset + 2 \<noteq> length img then Inl (ValueError ''bytes follow C initialization terminator'')
          else Inr \<lparr>cr_records = rows, cr_coverage = offset + 2,
            cr_scope = ''static startup data writes; no execution or physical memory mapping inferred''\<rparr>
        else if offset + 2 + 2 + count * 2 > length img
        then Inl (ValueError ''C initialization record exceeds input'')
        else if read16 img (offset + 2) + count > 0x10000
        then Inl (ValueError ''C initialization destination wraps 16-bit data space'')
        else cinit_loop img (offset + 4 + count * 2) (rows @ [cinit_row_of img offset count])
      else Inl (ValueError ''missing C initialization terminator''))"
  by pat_completeness auto
termination by (relation "measure (\<lambda>(img, offset, rows). length img - offset)") auto

declare cinit_loop.simps [simp del]

definition cinit_inventory :: "bytes \<Rightarrow> cinit_report res" where
  "cinit_inventory img =
     (if odd (length img) then Inl (ValueError ''odd-length C initialization table'')
      else cinit_loop img 0 [])"

section \<open>Destinations of section records\<close>

record section_row =
  row_offset :: nat
  row_words :: nat
  row_address :: int
  row_sha :: string

record page_row =
  pg_page :: int
  pg_write :: nat
  pg_unique :: nat
  pg_first :: int
  pg_last :: int

record dest_state =
  ds_seen :: "(int, int) dict"
  ds_pages :: "(int, page_row) dict"
  ds_same :: nat
  ds_changed :: nat
  ds_crossing :: nat

record dest_report =
  dr_write :: nat
  dr_unique :: nat
  dr_same :: nat
  dr_changed :: nat
  dr_crossing :: nat
  dr_pages :: "page_row list"
  dr_scope :: string

definition fresh_page :: "int \<Rightarrow> page_row" where
  "fresh_page destination =
     \<lparr>pg_page = drop_bit 16 destination, pg_write = 0, pg_unique = 0, pg_first = destination, pg_last = destination\<rparr>"

definition touch_page :: "bool \<Rightarrow> int \<Rightarrow> page_row \<Rightarrow> page_row" where
  "touch_page new destination row = row\<lparr>
     pg_write := pg_write row + 1,
     pg_first := min (pg_first row) destination,
     pg_last := max (pg_last row) destination,
     pg_unique := pg_unique row + of_bool new\<rparr>"

definition place_word :: "dest_state \<Rightarrow> int \<times> int \<Rightarrow> dest_state" where
  "place_word st = (\<lambda>(destination, word).
     let page = drop_bit 16 destination;
         row = (case map_of (ds_pages st) page of None \<Rightarrow> fresh_page destination | Some row \<Rightarrow> row);
         old = map_of (ds_seen st) destination
     in st\<lparr>
       ds_pages := dict_set page (touch_page (old = None) destination row) (ds_pages st),
       ds_same := ds_same st + of_bool (old = Some word),
       ds_changed := ds_changed st + of_bool (old \<noteq> None \<and> old \<noteq> Some word),
       ds_seen := dict_set destination word (ds_seen st)\<rparr>)"

definition section_writes :: "bytes \<Rightarrow> section_row \<Rightarrow> (int \<times> int) list res" where
  "section_writes img sec = rmap
     (\<lambda>ws. map (\<lambda>(index, word). (row_address sec + int index, word)) (zip [0..<length ws] ws))
     (iter_words (slice (row_offset sec + 6) (row_offset sec + 6 + row_words sec * 2) img))"

definition place_section :: "bytes \<Rightarrow> dest_state \<Rightarrow> section_row \<Rightarrow> dest_state res" where
  "place_section img st sec =
     (let address = row_address sec; count = int (row_words sec) in
      if address + count > 0x800000 then Inl (ValueError ''section extent exceeds 23-bit program address space'')
      else let st1 = st\<lparr>ds_crossing := ds_crossing st + of_bool (drop_bit 16 address \<noteq> drop_bit 16 (address + count - 1))\<rparr>
      in rmap (foldl place_word st1) (section_writes img sec))"

definition empty_dest :: dest_state where
  "empty_dest = \<lparr>ds_seen = [], ds_pages = [], ds_same = 0, ds_changed = 0, ds_crossing = 0\<rparr>"

definition destination_inventory :: "bytes \<Rightarrow> section_row list \<Rightarrow> dest_report res" where
  "destination_inventory img sections = rmap (\<lambda>st.
     \<lparr>dr_write = sum_list (map row_words sections), dr_unique = length (ds_seen st),
      dr_same = ds_same st, dr_changed = ds_changed st, dr_crossing = ds_crossing st,
      dr_pages = map (\<lambda>page. the (map_of (ds_pages st) page)) (sort (map fst (ds_pages st))),
      dr_scope = ''linear destination extents; repeated values compared with preceding record write; no flattened image or physical aliasing inferred''\<rparr>)
     (rfold (place_section img) empty_dest sections)"

section \<open>Section streams and serial boot tables\<close>

record stream_report =
  st_sections :: "section_row list"
  st_coverage :: nat
  st_destinations :: dest_report

record boot_report = stream_report +
  bt_format :: string
  bt_compatibility :: "string list"
  bt_entry :: int
  bt_scope :: string

definition section_row_of :: "bytes \<Rightarrow> nat \<Rightarrow> nat \<Rightarrow> section_row" where
  "section_row_of img start count =
     \<lparr>row_offset = start, row_words = count,
      row_address = push_bit 16 (int (read16 img (start + 2))) OR int (read16 img (start + 4)),
      row_sha = sha256_hex (slice (start + 6) (start + 6 + count * 2) img)\<rparr>"

function section_loop :: "bytes \<Rightarrow> nat \<Rightarrow> section_row list \<Rightarrow> (section_row list \<times> nat) res" where
  "section_loop img offset sections =
     (if offset + 2 \<le> length img then
        let count = read16 img offset in
        if count = 0 then
          if offset + 2 \<noteq> length img then Inl (ValueError ''bytes follow serial boot terminator'')
          else Inr (sections, offset + 2)
        else if offset + 2 + 4 + count * 2 > length img then Inl (ValueError ''serial boot section exceeds input'')
        else if read16 img (offset + 2) > 0x7f then Inl (ValueError ''section XPC exceeds seven bits'')
        else section_loop img (offset + 6 + count * 2) (sections @ [section_row_of img offset count])
      else Inl (ValueError ''missing serial boot terminator''))"
  by pat_completeness auto
termination by (relation "measure (\<lambda>(img, offset, rows). length img - offset)") auto

declare section_loop.simps [simp del]

definition section_inventory :: "bytes \<Rightarrow> nat \<Rightarrow> stream_report res" where
  "section_inventory img offset =
     (if odd (length img) then Inl (ValueError ''odd-length section stream'')
      else rbind (section_loop img offset []) (\<lambda>(sections, coverage).
        rmap (\<lambda>d. \<lparr>st_sections = sections, st_coverage = coverage, st_destinations = d\<rparr>)
          (destination_inventory img sections)))"

definition boot_signature :: "bytes \<Rightarrow> bool" where
  "boot_signature img \<longleftrightarrow> slice 0 2 img = [0x08, 0xaa] \<or> slice 0 2 img = [0x10, 0xaa]"

definition serial_boot_inventory :: "bytes \<Rightarrow> boot_report res" where
  "serial_boot_inventory img =
     (if length img < 16 \<or> odd (length img) then Inl (ValueError ''truncated or odd-length serial boot table'')
      else let words = be_words (slice 0 14 img) in
        if words ! 0 \<notin> {0x08aa, 0x10aa} then Inl (ValueError ''unknown serial boot signature'')
        else if words ! 5 > 0x7f then Inl (ValueError ''entry XPC exceeds seven bits'')
        else rmap (\<lambda>r. stream_report.extend r
          \<lparr>bt_format = ''C54x serial boot, SPRA602F figure 11'',
           bt_compatibility = map (fmt_x 4) (slice 1 5 words),
           bt_entry = push_bit 16 (words ! 5) OR words ! 6,
           bt_scope = ''static word addresses; DA150 execution and peripheral map unvalidated''\<rparr>)
          (section_inventory img 14))"

section \<open>The container\<close>

record integrity =
  ig_xor :: int
  ig_stored :: int
  ig_matches :: bool
  ig_following :: string
  ig_scope :: string

record segment_row =
  sg_offset :: nat
  sg_marker :: string
  sg_bytes :: nat
  sg_sha :: string
  sg_first :: string
  sg_trailer :: string
  sg_integrity :: integrity
  sg_serial :: "boot_report option"
  sg_stream :: "stream_report option"

record container =
  ct_bytes :: nat
  ct_sha :: string
  ct_segments :: "segment_row list"
  ct_coverage :: nat
  ct_scope :: string
  ct_destinations :: "dest_report option"

definition markers :: "nat list" where
  "markers = [0xaa55, 0xaa22, 0xaa44, 0xaa88, 0xaabb, 0xaadd, 0xaa99]"

definition payload_xor :: "bytes \<Rightarrow> int" where
  "payload_xor payload = fold (\<lambda>b v. v XOR uint b) payload 0"

definition segment_integrity :: "bytes \<Rightarrow> bytes \<Rightarrow> integrity" where
  "segment_integrity payload trailer =
     (let stored = int (read16 trailer 0); calculated = payload_xor payload in
      \<lparr>ig_xor = calculated, ig_stored = stored, ig_matches = (stored = calculated),
       ig_following = fmt_x 4 (int (read16 trailer 2)),
       ig_scope = ''InitDisk 3229/34a5/32a7 payload-only XOR; following word is not part of checksum''\<rparr>)"

definition segment_base :: "bytes \<Rightarrow> nat \<Rightarrow> nat \<Rightarrow> nat \<Rightarrow> segment_row" where
  "segment_base img offset marker extent =
     (let stop = offset + 6 + extent; payload = slice (offset + 6) stop img; trailer = slice stop (stop + 4) img in
      \<lparr>sg_offset = offset, sg_marker = fmt_x 4 (int marker), sg_bytes = extent,
       sg_sha = sha256_hex payload, sg_first = bytes_hex (take 16 payload), sg_trailer = bytes_hex trailer,
       sg_integrity = segment_integrity payload trailer, sg_serial = None, sg_stream = None\<rparr>)"

text \<open>The grammar of the payload: the boot table in the first segment, section streams in the later
  ones of a container that begins with a boot table, and nothing otherwise.\<close>

definition segment_grammar :: "segment_row list \<Rightarrow> nat \<Rightarrow> bytes \<Rightarrow> segment_row \<Rightarrow> segment_row res" where
  "segment_grammar segments offset payload row =
     (if offset = 0 \<and> boot_signature payload
      then rmap (\<lambda>r. row\<lparr>sg_serial := Some r\<rparr>) (serial_boot_inventory payload)
      else if offset \<noteq> 0 \<and> sg_serial (hd segments) \<noteq> None
      then rmap (\<lambda>r. row\<lparr>sg_stream := Some r\<rparr>) (section_inventory payload 0)
      else Inr row)"

function inventory_loop :: "bytes \<Rightarrow> nat \<Rightarrow> segment_row list \<Rightarrow> (segment_row list \<times> nat) res" where
  "inventory_loop img offset segments =
     (if offset < length img then
        if length img - offset < 10 then Inl (ValueError ''truncated segment header/trailer'')
        else let marker = read16 img offset; extent = read32 img (offset + 2); stop = offset + 6 + extent in
          if marker \<notin> set markers then Inl (ValueError (''unknown segment marker at '' @ fmt_x 0 (int offset)))
          else if stop + 4 > length img then Inl (ValueError ''segment length exceeds container'')
          else case segment_grammar segments offset (slice (offset + 6) stop img) (segment_base img offset marker extent) of
              Inl e \<Rightarrow> Inl e
            | Inr row \<Rightarrow> inventory_loop img (stop + 4) (segments @ [row])
      else Inr (segments, offset))"
  by pat_completeness auto
termination by (relation "measure (\<lambda>(img, offset, rows). length img - offset)") auto

declare inventory_loop.simps [simp del]

definition segment_stream :: "segment_row \<Rightarrow> stream_report option" where
  "segment_stream row = (case sg_serial row of Some r \<Rightarrow> Some (stream_report.truncate r) | None \<Rightarrow> sg_stream row)"

definition moved_sections :: "segment_row \<Rightarrow> section_row list" where
  "moved_sections row = (case segment_stream row of None \<Rightarrow> []
     | Some r \<Rightarrow> map (\<lambda>sec. sec\<lparr>row_offset := sg_offset row + 6 + row_offset sec\<rparr>) (st_sections r))"

definition inventory :: "bytes \<Rightarrow> container res" where
  "inventory img = rbind (inventory_loop img 0 []) (\<lambda>(segments, offset).
     if segments = [] \<or> sg_marker (hd segments) \<noteq> ''aa55'' then Inl (ValueError ''missing initial aa55 segment'')
     else let report = \<lparr>ct_bytes = length img, ct_sha = sha256_hex img, ct_segments = segments, ct_coverage = offset,
         ct_scope = ''container and section extents plus InitDisk payload checksum; following trailer word semantics, overlay selection and DA150 execution unvalidated'',
         ct_destinations = None\<rparr> in
       if list_all (\<lambda>row. segment_stream row \<noteq> None) segments
       then rmap (\<lambda>d. report\<lparr>ct_destinations := Some d\<rparr>)
         (destination_inventory img (concat (map moved_sections segments)))
       else Inr report)"

section \<open>Extraction\<close>

definition select_one :: "('a \<Rightarrow> bool) \<Rightarrow> 'a list \<Rightarrow> string \<Rightarrow> 'a res" where
  "select_one P xs msg = (case filter P xs of [x] \<Rightarrow> Inr x | _ \<Rightarrow> Inl (ValueError msg))"

definition extract_segment :: "bytes \<Rightarrow> string option \<Rightarrow> bytes res" where
  "extract_segment img marker =
     rbind (inventory img) (\<lambda>report.
     rbind (select_one (\<lambda>s. Some (sg_marker s) = marker) (ct_segments report)
              ''segment marker must select exactly one segment'') (\<lambda>segment.
     if \<not> ig_matches (sg_integrity segment) then Inl (ValueError ''original segment payload checksum mismatch'')
     else Inr (slice (sg_offset segment) (sg_offset segment + 10 + sg_bytes segment) img)))"

definition section_source :: "bytes \<Rightarrow> string option \<Rightarrow> (stream_report \<times> bytes) res" where
  "section_source img marker =
     (if boot_signature img then
        if marker \<noteq> None then Inl (ValueError ''standalone boot stream has no segment marker'')
        else rmap (\<lambda>r. (stream_report.truncate r, img)) (serial_boot_inventory img)
      else
        rbind (inventory img) (\<lambda>report.
        rbind (select_one (\<lambda>s. Some (sg_marker s) = marker) (ct_segments report)
                 ''select exactly one container segment marker'') (\<lambda>segment.
        case segment_stream segment of
          None \<Rightarrow> Inl (ValueError ''segment section grammar is unvalidated'')
        | Some r \<Rightarrow> Inr (r, slice (sg_offset segment + 6) (sg_offset segment + 6 + sg_bytes segment) img))))"

definition extract_section :: "bytes \<Rightarrow> int \<Rightarrow> string option \<Rightarrow> bytes res" where
  "extract_section img address marker =
     rbind (section_source img marker) (\<lambda>(report, payload).
     rbind (select_one (\<lambda>s. row_address s = address) (st_sections report)
              ''select exactly one section destination word address'') (\<lambda>sec.
     let data = slice (row_offset sec + 6) (row_offset sec + 6 + row_words sec * 2) payload in
     if sha256_hex data \<noteq> row_sha sec then Inl (ValueError ''extracted section hash mismatch'')
     else Inr data))"

section \<open>The uploaded words\<close>

type_synonym word_image = "(int, int) dict"

definition upload_section :: "bytes \<Rightarrow> word_image \<Rightarrow> section_row \<Rightarrow> word_image res" where
  "upload_section payload words sec =
     rmap (foldl (\<lambda>d (target, word). dict_set target word d) words) (section_writes payload sec)"

definition uploaded_word_image :: "bytes \<Rightarrow> string \<Rightarrow> word_image res" where
  "uploaded_word_image img marker =
     rbind (extract_segment img (Some marker)) (\<lambda>segment.
     let payload = slice 6 (length segment - 4) segment in
     rbind (if marker = ''aa55'' then rmap stream_report.truncate (serial_boot_inventory payload)
            else section_inventory payload 0) (\<lambda>report.
     rfold (upload_section payload) [] (st_sections report)))"

record call_census =
  cc_segment :: string
  cc_range :: "int \<times> int"
  cc_covered :: nat
  cc_requested :: int
  cc_candidates :: "(int \<times> int) list"
  cc_missing :: nat
  cc_page_end :: nat
  cc_scope :: string

definition in_range :: "int \<Rightarrow> int \<Rightarrow> word_image \<Rightarrow> int list" where
  "in_range start stop words = filter (\<lambda>a. start \<le> a \<and> a < stop) (map fst words)"

definition is_fcall :: "int \<Rightarrow> bool" where
  "is_fcall opcode \<longleftrightarrow> opcode AND 0xff80 = 0xf980"

definition census_step :: "word_image \<Rightarrow> int \<Rightarrow> call_census \<Rightarrow> int \<Rightarrow> call_census" where
  "census_step words stop c address =
     (let opcode = the (map_of words address) in
      if \<not> is_fcall opcode then c
      else if address AND 0xffff = 0xffff then c\<lparr>cc_page_end := cc_page_end c + 1\<rparr>
      else case map_of words (address + 1) of
          None \<Rightarrow> c\<lparr>cc_missing := cc_missing c + 1\<rparr>
        | Some low \<Rightarrow>
            if address + 1 \<ge> stop then c\<lparr>cc_missing := cc_missing c + 1\<rparr>
            else c\<lparr>cc_candidates := cc_candidates c @ [(address, push_bit 16 (opcode AND 0x7f) OR low)]\<rparr>)"

definition range_check :: "int \<Rightarrow> int \<Rightarrow> unit res" where
  "range_check start stop =
     (if 0x10000 \<le> start \<and> start < stop \<and> stop \<le> 0x800000 then Inr ()
      else Inl (ValueError ''program range must be nonempty extended word addresses''))"

definition program_call_census :: "bytes \<Rightarrow> int \<Rightarrow> int \<Rightarrow> string \<Rightarrow> call_census res" where
  "program_call_census img start stop marker =
     rbind (range_check start stop) (\<lambda>_.
     rmap (\<lambda>words. foldl (census_step words stop)
         \<lparr>cc_segment = marker, cc_range = (start, stop), cc_covered = length (in_range start stop words),
          cc_requested = stop - start, cc_candidates = [], cc_missing = 0, cc_page_end = 0,
          cc_scope = ''immediate FCALL encoding candidates only; data/operand false positives, '' @
            ''indirect calls, other call encodings and physical aliasing unresolved''\<rparr>
         (sort (in_range start stop words)))
       (uploaded_word_image img marker))"

definition extract_program_range :: "bytes \<Rightarrow> int \<Rightarrow> int \<Rightarrow> string \<Rightarrow> bool \<Rightarrow> bytes res" where
  "extract_program_range img start stop marker little_endian =
     rbind (range_check start stop) (\<lambda>_.
     rbind (uploaded_word_image img marker) (\<lambda>uploaded.
     let words = filter (\<lambda>(a, v). start \<le> a \<and> a < stop) uploaded in
     if int (length words) \<noteq> stop - start then Inl (ValueError ''program range contains missing words'')
     else let values = map (\<lambda>address. the (map_of words address)) [start..stop - 1] in
       if little_endian then pack_le16 values else pack_be16 values))"

section \<open>Tables embedded in an overlay\<close>

definition read_run :: "word_image \<Rightarrow> int \<Rightarrow> nat \<Rightarrow> int list res" where
  "read_run words cursor n = rmap_list (\<lambda>i. case map_of words (cursor + int i) of
     None \<Rightarrow> Inl (ValueError ''C initialization table contains missing words'') | Some v \<Rightarrow> Inr v) [0..<n]"

definition run_length :: "int \<Rightarrow> nat" where
  "run_length count = (if count = 0 then 1 else nat count + 2)"

lemma later_keys_card:
  fixes a b :: int
  assumes "finite A" "a \<in> A" "a < b"
  shows "card {x \<in> A. b \<le> x} < card {x \<in> A. a \<le> x}"
proof (rule psubset_card_mono)
  have "a \<in> {x \<in> A. a \<le> x}" "a \<notin> {x \<in> A. b \<le> x}" using assms by auto
  moreover have "{x \<in> A. b \<le> x} \<subseteq> {x \<in> A. a \<le> x}" using assms(3) by auto
  ultimately show "{x \<in> A. b \<le> x} \<subset> {x \<in> A. a \<le> x}" by blast
qed (use assms(1) in simp)

function cinit_table :: "word_image \<Rightarrow> int \<Rightarrow> int list \<Rightarrow> (int list \<times> int) res" where
  "cinit_table words cursor table =
     (case map_of words cursor of
        None \<Rightarrow> Inl (ValueError ''C initialization table contains missing words or no terminator'')
      | Some count \<Rightarrow>
          (case read_run words cursor (run_length count) of
             Inl e \<Rightarrow> Inl e
           | Inr run \<Rightarrow>
               let table = table @ run; cursor = cursor + int (run_length count) in
               if count = 0 then Inr (table, cursor) else cinit_table words cursor table))"
  by pat_completeness auto
termination
proof (relation "measure (\<lambda>(words, cursor, table). card {a \<in> fst ` set words. cursor \<le> a})", goal_cases)
  case (2 words cursor table count run table' cursor')
  have "cursor \<in> fst ` set words" using 2(1) by (force dest: map_of_SomeD)
  moreover have "cursor < cursor'" using 2(4) by (simp add: run_length_def)
  ultimately have "card {a \<in> fst ` set words. cursor' \<le> a} < card {a \<in> fst ` set words. cursor \<le> a}"
    by (intro later_keys_card) auto
  then show ?case by simp
qed simp

declare cinit_table.simps [simp del]

record program_cinit_report = cinit_report +
  pc_segment :: string
  pc_range :: "int \<times> int"
  pc_initialized :: nat
  pc_unique :: nat

definition initialized_addresses :: "cinit_row \<Rightarrow> nat list" where
  "initialized_addresses row = [ci_destination row..<ci_destination row + ci_words row]"

definition program_cinit_inventory :: "bytes \<Rightarrow> int \<Rightarrow> string \<Rightarrow> program_cinit_report res" where
  "program_cinit_inventory img start marker =
     (if \<not> (0x10000 \<le> start \<and> start < 0x800000)
      then Inl (ValueError ''C initialization table requires an extended word address'')
      else rbind (uploaded_word_image img marker) (\<lambda>words.
        rbind (cinit_table words start []) (\<lambda>(table, cursor).
        rbind (pack_be16 table) (\<lambda>packed.
        rmap (\<lambda>report. cinit_report.extend report
          \<lparr>pc_segment = marker, pc_range = (start, cursor),
           pc_initialized = sum_list (map ci_words (cr_records report)),
           pc_unique = length (remdups (concat (map initialized_addresses (cr_records report))))\<rparr>)
          (cinit_inventory packed)))))"

end
