(* ===== verification/A00_Props.thy ===== *)
theory A00_Props
  imports A00_Container "HOL-Library.Multiset"
begin

text \<open>
  Properties of the A00 container reader.  The wire format is written down as an encoder
  (\<open>section_wire\<close>, \<open>stream_wire\<close>, \<open>segment_wire\<close>); reading back what it wrote gives every section at
  its place, and the uploaded image is the last-writer reading of the sections.
\<close>

section \<open>The wire format\<close>

abbreviation be2 :: "int \<Rightarrow> bytes" where
  "be2 v \<equiv> rev (le_bytes 2 v)"

definition section_wire :: "int \<times> bytes \<Rightarrow> bytes" where
  "section_wire = (\<lambda>(a, p). be2 (int (length p div 2)) @ be2 (drop_bit 16 a) @ be2 (take_bit 16 a) @ p)"

definition section_ok :: "int \<times> bytes \<Rightarrow> bool" where
  "section_ok = (\<lambda>(a, p). p \<noteq> [] \<and> even (length p) \<and> length p div 2 \<le> 0xffff
     \<and> 0 \<le> a \<and> a + int (length p div 2) \<le> 0x800000)"

definition stream_wire :: "(int \<times> bytes) list \<Rightarrow> bytes" where
  "stream_wire secs = concat (map section_wire secs) @ [0, 0]"

fun placed :: "nat \<Rightarrow> (int \<times> bytes) list \<Rightarrow> section_row list" where
  "placed n [] = []"
| "placed n ((a, p) # secs) =
     \<lparr>row_offset = n, row_words = length p div 2, row_address = a, row_sha = sha256_hex p\<rparr> # placed (n + 6 + length p) secs"

definition writes_at :: "int \<Rightarrow> bytes \<Rightarrow> (int \<times> int) list" where
  "writes_at a p = map (\<lambda>(index, word). (a + int index, word)) (zip [0..<length (be_words p)] (be_words p))"

text \<open>The specification of the upload: the last section that covers an address owns its word.\<close>

fun word_owner :: "(int \<times> bytes) list \<Rightarrow> int \<Rightarrow> int option" where
  "word_owner [] x = None"
| "word_owner ((a, p) # secs) x =
     (case word_owner secs x of
        Some w \<Rightarrow> Some w
      | None \<Rightarrow> if a \<le> x \<and> x < a + int (length p div 2) then Some (be_words p ! nat (x - a)) else None)"

section \<open>Reading sections back\<close>

lemma join_halves: "push_bit 16 (drop_bit 16 a) OR take_bit 16 a = a" for a :: int
  by (rule bit_eqI) (auto simp: bit_simps)

lemma le_bytes_2: "le_bytes 2 v = [word_of_int v, word_of_int (v div 256)]"
  by (simp add: numeral_2_eq_2)

lemma drop_step: "drop n img = xs @ ys \<Longrightarrow> drop (n + length xs) img = ys"
  by (metis add.commute append_eq_conv_conj drop_drop)

lemma drop_step': "drop n img = xs @ ys \<Longrightarrow> length xs = k \<Longrightarrow> drop (n + k) img = ys"
  using drop_step by blast

lemma slice_step: "drop n img = xs @ ys \<Longrightarrow> length xs = k \<Longrightarrow> slice n (n + k) img = xs"
  by (simp add: slice_def)

lemma drop_wire: "drop n img = be2 u @ be2 v @ be2 w @ ys \<Longrightarrow> drop (n + 6) img = ys"
  using drop_step' [of n img "be2 u @ be2 v @ be2 w" ys 6] by simp

lemma drop_be4: "drop n img = be2 u @ be2 v @ ys \<Longrightarrow> drop (n + 4) img = ys"
  using drop_step' [of n img "be2 u @ be2 v" ys 4] by simp

lemma read16_at:
  assumes "drop n img = be2 v @ rest" "0 \<le> v" "v < 0x10000"
  shows "read16 img n = nat v"
proof -
  have "slice n (n + 2) img = be2 v" by (simp add: slice_def assms(1))
  then show ?thesis using assms by (simp add: read16_def from_be_rev from_le_bytes)
qed

lemma section_wire_eq:
  "section_wire (a, p) = be2 (int (length p div 2)) @ be2 (drop_bit 16 a) @ be2 (take_bit 16 a) @ p"
  by (simp add: section_wire_def)

lemma section_wire_length: "length (section_wire (a, p)) = 6 + length p"
  by (simp add: section_wire_def)

lemma section_loop_stream:
  assumes "\<forall>s \<in> set secs. section_ok s"
    and "drop n img = concat (map section_wire secs) @ [0, 0]" and "n \<le> length img"
  shows "section_loop img n rows = Inr (rows @ placed n secs, length img)"
  using assms
proof (induction secs arbitrary: n rows)
  case Nil
  have "be2 0 = [0, 0]" by (simp add: numeral_2_eq_2)
  then have "read16 img n = 0" using read16_at [of n img 0 "[]"] Nil(2) by simp
  moreover have "length img = n + 2" using arg_cong [OF Nil(2), of length] Nil(3) by simp
  ultimately show ?case by (simp add: section_loop.simps)
next
  case (Cons s secs)
  obtain a p where s: "s = (a, p)" by (metis surj_pair)
  have ok: "p \<noteq> []" "even (length p)" "length p div 2 \<le> 0xffff" "0 \<le> a" "a + int (length p div 2) \<le> 0x800000"
    using Cons.prems(1) by (auto simp: s section_ok_def)
  have d0: "drop n img = be2 (int (length p div 2)) @ be2 (drop_bit 16 a) @ be2 (take_bit 16 a) @ p
      @ concat (map section_wire secs) @ [0, 0]"
    using Cons.prems(2) by (simp only: s list.map concat.simps section_wire_eq append_assoc)
  have d2: "drop (n + 2) img = be2 (drop_bit 16 a) @ be2 (take_bit 16 a) @ p @ concat (map section_wire secs) @ [0, 0]"
    by (rule drop_step' [OF d0]) simp
  have d4: "drop (n + 4) img = be2 (take_bit 16 a) @ p @ concat (map section_wire secs) @ [0, 0]"
    by (rule drop_be4 [OF d0])
  have d6: "drop (n + 6) img = p @ concat (map section_wire secs) @ [0, 0]"
    by (rule drop_wire [OF d0])
  have dn: "drop (n + 6 + length p) img = concat (map section_wire secs) @ [0, 0]"
    by (rule drop_step [OF d6])
  have len: "length img = n + 6 + length p + length (concat (map section_wire secs)) + 2"
    using arg_cong [OF d0, of length] Cons.prems(3) by simp
  have "a < 0x800000" using ok by (cases p) auto
  then have xpc: "0 \<le> drop_bit 16 a" "drop_bit 16 a < 0x80" using ok(4) by (simp_all add: drop_bit_eq_div)
  have pc: "0 \<le> take_bit 16 a" "take_bit 16 a < 0x10000" by (simp_all add: take_bit_eq_mod)
  have r0: "read16 img n = length p div 2" by (subst read16_at [OF d0]) (use ok in auto)
  have r2: "read16 img (n + 2) = nat (drop_bit 16 a)" by (rule read16_at [OF d2]) (use xpc in auto)
  have r4: "read16 img (n + 4) = nat (take_bit 16 a)" by (rule read16_at [OF d4]) (use pc in auto)
  have two: "length p div 2 * 2 = length p" using ok(2) by simp
  have row: "section_row_of img n (length p div 2) =
      \<lparr>row_offset = n, row_words = length p div 2, row_address = a, row_sha = sha256_hex p\<rparr>"
    using xpc pc by (simp add: section_row_of_def r2 r4 join_halves slice_def two d6 del: add_2_eq_Suc')
  have "length p div 2 \<noteq> 0" using ok(1,2) by (cases p) (auto elim: evenE)
  moreover have "\<not> nat (drop_bit 16 a) > 0x7f" using xpc by simp
  moreover have "section_loop img (n + 6 + length p) (rows @ [section_row_of img n (length p div 2)]) =
      Inr ((rows @ [section_row_of img n (length p div 2)]) @ placed (n + 6 + length p) secs, length img)"
    by (rule Cons.IH) (use Cons.prems(1) dn len in auto)
  ultimately show ?case
    by (subst section_loop.simps) (simp add: r0 r2 two len row s Let_def del: add_2_eq_Suc')
qed

lemma section_writes_placed:
  assumes "drop (n + 6) img = p @ rest" "even (length p)"
  shows "section_writes img \<lparr>row_offset = n, row_words = length p div 2, row_address = a, row_sha = sha\<rparr> = Inr (writes_at a p)"
proof -
  have "slice (n + 6) (n + 6 + length p) img = p" by (rule slice_step [OF assms(1)]) simp
  then show ?thesis using assms(2) by (simp add: section_writes_def iter_words_def writes_at_def)
qed

lemma dict_writes_at:
  "map_of (foldl (\<lambda>d (target, word). dict_set target word d) d (writes_at a p)) x =
     (if a \<le> x \<and> x < a + int (length p div 2) then Some (be_words p ! nat (x - a)) else map_of d x)"
proof -
  have "foldl (\<lambda>d (target, word). dict_set target word d) d (map (\<lambda>(i, w). (a + int i, w)) (zip [0..<length ws] ws))
      = dict_write a ws d" for ws :: "int list"
  proof -
    have "foldl (\<lambda>d (target, word). dict_set target word d) d (map (\<lambda>(i, w). (a + int i, w)) (zip [k..<k + length ws] ws))
      = dict_write (a + int k) ws d" for k
    proof (induction ws arbitrary: d k)
      case (Cons w ws)
      have "[k..<k + length (w # ws)] = k # [Suc k..<Suc k + length ws]"
        by (subst upt_conv_Cons) simp_all
      then show ?case using Cons.IH [of _ "Suc k"] by (simp add: algebra_simps)
    qed simp
    from this [of 0] show ?thesis by simp
  qed
  from this [of "be_words p"] show ?thesis unfolding writes_at_def by (simp only: map_of_dict_write length_be_words)
qed

definition upload_all :: "word_image \<Rightarrow> (int \<times> bytes) list \<Rightarrow> word_image" where
  "upload_all = foldl (\<lambda>d (a, p). foldl (\<lambda>d (target, word). dict_set target word d) d (writes_at a p))"

lemma upload_all_owner:
  "map_of (upload_all d secs) x = (case word_owner secs x of Some w \<Rightarrow> Some w | None \<Rightarrow> map_of d x)"
proof (induction secs arbitrary: d)
  case (Cons s secs)
  obtain a p where "s = (a, p)" by (metis surj_pair)
  then show ?case using Cons by (auto simp: upload_all_def dict_writes_at split: option.splits)
qed (simp add: upload_all_def)

lemma upload_placed:
  assumes "\<forall>s \<in> set secs. section_ok s" "drop n img = concat (map section_wire secs) @ rest"
  shows "rfold (upload_section img) d (placed n secs) = Inr (upload_all d secs)"
  using assms
proof (induction secs arbitrary: n d)
  case (Cons s secs)
  obtain a p where s: "s = (a, p)" by (metis surj_pair)
  have "drop n img = section_wire (a, p) @ concat (map section_wire secs) @ rest" using Cons.prems(2) by (simp add: s)
  then have d6: "drop (n + 6) img = p @ concat (map section_wire secs) @ rest"
    by (intro drop_wire) (simp only: section_wire_eq append_assoc)
  have dn: "drop (n + 6 + length p) img = concat (map section_wire secs) @ rest"
    by (rule drop_step [OF d6])
  have "even (length p)" using Cons.prems(1) by (simp add: s section_ok_def)
  then have "upload_section img d \<lparr>row_offset = n, row_words = length p div 2, row_address = a, row_sha = sha256_hex p\<rparr>
      = Inr (foldl (\<lambda>d (target, word). dict_set target word d) d (writes_at a p))"
    unfolding upload_section_def by (subst section_writes_placed [OF d6]) simp_all
  moreover have "rfold (upload_section img) e (placed (n + 6 + length p) secs) = Inr (upload_all e secs)" for e
    by (rule Cons.IH) (use Cons.prems(1) dn in auto)
  ultimately show ?case by (simp add: s upload_all_def)
qed (simp add: upload_all_def)

section \<open>Accounting of the destinations\<close>

definition page_sum :: "(page_row \<Rightarrow> nat) \<Rightarrow> (int, page_row) dict \<Rightarrow> nat" where
  "page_sum f pages = sum_list (map (f \<circ> snd) pages)"

lemma page_sum_set:
  "dict_wf pages \<Longrightarrow>
   page_sum f (dict_set k v pages) + (case map_of pages k of None \<Rightarrow> 0 | Some old \<Rightarrow> f old) = page_sum f pages + f v"
proof (induction pages)
  case (Cons row pages)
  then show ?case
    by (cases row; cases "fst row = k") (auto simp: page_sum_def dict_set_def dict_wf_def)
qed (simp add: page_sum_def dict_set_def)

definition accounted :: "dest_state \<Rightarrow> bool" where
  "accounted st \<longleftrightarrow> dict_wf (ds_seen st) \<and> dict_wf (ds_pages st)
     \<and> page_sum pg_write (ds_pages st) = length (ds_seen st) + ds_same st + ds_changed st
     \<and> page_sum pg_unique (ds_pages st) = length (ds_seen st)"

lemma touch_page_sums [simp]:
  "pg_write (touch_page new a row) = Suc (pg_write row)"
  "pg_unique (touch_page new a row) = pg_unique row + of_bool new"
  "pg_write (fresh_page a) = 0" "pg_unique (fresh_page a) = 0"
  by (simp_all add: touch_page_def fresh_page_def)

lemma place_word_accounted:
  assumes "accounted st"
  shows "accounted (place_word st w)"
    and "page_sum pg_write (ds_pages (place_word st w)) = Suc (page_sum pg_write (ds_pages st))"
proof -
  obtain a v where w: "w = (a, v)" by (metis surj_pair)
  have wf: "dict_wf (ds_seen st)" "dict_wf (ds_pages st)" using assms by (simp_all add: accounted_def)
  let ?row = "case map_of (ds_pages st) (drop_bit 16 a) of None \<Rightarrow> fresh_page a | Some row \<Rightarrow> row"
  let ?new = "touch_page (map_of (ds_seen st) a = None) a ?row"
  have pages: "ds_pages (place_word st w) = dict_set (drop_bit 16 a) ?new (ds_pages st)"
    by (simp add: place_word_def w Let_def)
  have wr: "page_sum pg_write (ds_pages (place_word st w)) = Suc (page_sum pg_write (ds_pages st))"
    using page_sum_set [OF wf(2), of pg_write "drop_bit 16 a" ?new]
    by (simp add: pages split: option.splits)
  have un: "page_sum pg_unique (ds_pages (place_word st w)) =
      page_sum pg_unique (ds_pages st) + of_bool (map_of (ds_seen st) a = None)"
    using page_sum_set [OF wf(2), of pg_unique "drop_bit 16 a" ?new]
    by (cases "map_of (ds_seen st) a = None") (simp_all add: pages split: option.splits)
  have seen: "length (ds_seen (place_word st w)) = length (ds_seen st) + of_bool (map_of (ds_seen st) a = None)"
    by (simp add: place_word_def w Let_def length_dict_set [OF wf(1)])
  have rest: "ds_same (place_word st w) + ds_changed (place_word st w) =
      ds_same st + ds_changed st + of_bool (map_of (ds_seen st) a \<noteq> None)"
    by (simp add: place_word_def w Let_def)
  show "page_sum pg_write (ds_pages (place_word st w)) = Suc (page_sum pg_write (ds_pages st))" by (rule wr)
  have "dict_wf (ds_seen (place_word st w))" "dict_wf (ds_pages (place_word st w))"
    using wf by (simp_all add: place_word_def w Let_def)
  then show "accounted (place_word st w)"
    using assms wr un seen rest by (cases "map_of (ds_seen st) a = None") (auto simp: accounted_def)
qed

lemma place_words_accounted:
  "accounted st \<Longrightarrow> accounted (foldl place_word st ws) \<and>
     page_sum pg_write (ds_pages (foldl place_word st ws)) = page_sum pg_write (ds_pages st) + length ws"
  by (induction ws arbitrary: st) (simp_all add: place_word_accounted)

definition row_inside :: "bytes \<Rightarrow> section_row \<Rightarrow> bool" where
  "row_inside img sec \<longleftrightarrow> row_offset sec + 6 + row_words sec * 2 \<le> length img"

lemma section_writes_inside:
  assumes "row_inside img sec"
  obtains ws where "section_writes img sec = Inr ws" "length ws = row_words sec"
proof -
  have "length (slice (row_offset sec + 6) (row_offset sec + 6 + row_words sec * 2) img) = row_words sec * 2"
    using assms by (simp add: row_inside_def)
  then show ?thesis by (intro that) (auto simp: section_writes_def iter_words_def)
qed

lemma place_section_accounted:
  assumes "accounted st" "row_inside img sec" "place_section img st sec = Inr st'"
  shows "accounted st' \<and> page_sum pg_write (ds_pages st') = page_sum pg_write (ds_pages st) + row_words sec"
proof -
  obtain ws where ws: "section_writes img sec = Inr ws" "length ws = row_words sec"
    using section_writes_inside [OF assms(2)] by blast
  obtain k where k: "st' = foldl place_word (st\<lparr>ds_crossing := k\<rparr>) ws"
    using assms(3) ws(1) by (auto simp: place_section_def Let_def split: if_splits)
  have "accounted (st\<lparr>ds_crossing := k\<rparr>)" using assms(1) by (simp add: accounted_def)
  from place_words_accounted [OF this, of ws] show ?thesis by (simp add: k ws(2))
qed

lemma place_sections_accounted:
  assumes "accounted st" "\<forall>sec \<in> set secs. row_inside img sec" "rfold (place_section img) st secs = Inr st'"
  shows "accounted st' \<and> page_sum pg_write (ds_pages st') = page_sum pg_write (ds_pages st) + sum_list (map row_words secs)"
  using assms
proof (induction secs arbitrary: st)
  case (Cons sec secs)
  obtain s1 where s1: "place_section img st sec = Inr s1" "rfold (place_section img) s1 secs = Inr st'"
    using Cons.prems(3) by (auto simp: rbind_eq_Inr)
  with Cons place_section_accounted [OF Cons.prems(1) _ s1(1)] show ?case by auto
qed simp

lemma page_sum_sorted:
  assumes "dict_wf pages"
  shows "sum_list (map f (map (\<lambda>page. the (map_of pages page)) (sort (map fst pages)))) = page_sum f pages"
proof -
  let ?g = "\<lambda>page. f (the (map_of pages page))"
  have "mset (map ?g (sort (map fst pages))) = mset (map ?g (map fst pages))"
    by (simp only: mset_map mset_sort)
  then have "sum_list (map ?g (sort (map fst pages))) = sum_list (map ?g (map fst pages))"
    by (metis sum_mset_sum_list)
  moreover have "map ?g (map fst pages) = map (f \<circ> snd) pages"
    using assms by (auto simp: dict_wf_def dest: map_of_is_SomeI)
  ultimately show ?thesis by (simp only: page_sum_def map_map comp_def)
qed

lemma section_loop_inside:
  assumes "section_loop img offset rows = Inr (secs, n)" "\<forall>sec \<in> set rows. row_inside img sec"
  shows "(\<forall>sec \<in> set secs. row_inside img sec) \<and> n = length img"
  using assms
proof (induction img offset rows rule: section_loop.induct)
  case (1 img offset rows)
  let ?count = "read16 img offset"
  have in_bounds: "offset + 2 \<le> length img" using "1.prems"(1) by (auto simp: section_loop.simps [of img offset] split: if_splits)
  show ?case
  proof (cases "?count = 0")
    case True
    then show ?thesis using "1.prems" in_bounds by (auto simp: section_loop.simps [of img offset] split: if_splits)
  next
    case False
    have unfolded: "section_loop img offset rows =
      (if offset + 2 + 4 + ?count * 2 > length img then Inl (ValueError ''serial boot section exceeds input'')
       else if read16 img (offset + 2) > 0x7f then Inl (ValueError ''section XPC exceeds seven bits'')
       else section_loop img (offset + 6 + ?count * 2) (rows @ [section_row_of img offset ?count]))"
      by (subst section_loop.simps) (simp only: in_bounds False Let_def if_True if_False)
    have ok: "\<not> offset + 2 + 4 + ?count * 2 > length img" "\<not> read16 img (offset + 2) > 0x7f"
      and next_loop: "section_loop img (offset + 6 + ?count * 2) (rows @ [section_row_of img offset ?count]) = Inr (secs, n)"
      using "1.prems"(1) unfolding unfolded by (simp_all split: if_splits del: add_2_eq_Suc')
    have "row_inside img (section_row_of img offset ?count)" using ok(1) by (simp add: row_inside_def section_row_of_def)
    then have "\<forall>sec \<in> set (rows @ [section_row_of img offset ?count]). row_inside img sec" using "1.prems"(2) by auto
    from "1.IH" [OF in_bounds refl False ok next_loop this] show ?thesis .
  qed
qed

text \<open>C25: For every section stream that \<open>section_inventory\<close> accepts, the
  destination report balances: the words written are the distinct destinations plus the repeated writes
  of the same value plus the repeated writes of another value, and the per-page rows add up to the
  words written and to the distinct destinations.\<close>

theorem destination_accounting:
  assumes "section_inventory img offset = Inr r"
  shows "dr_write (st_destinations r) = dr_unique (st_destinations r) + dr_same (st_destinations r) + dr_changed (st_destinations r)
    \<and> sum_list (map pg_write (dr_pages (st_destinations r))) = dr_write (st_destinations r)
    \<and> sum_list (map pg_unique (dr_pages (st_destinations r))) = dr_unique (st_destinations r)"
proof -
  obtain secs n d where l: "section_loop img offset [] = Inr (secs, n)"
    and d: "destination_inventory img secs = Inr d" "st_destinations r = d"
    using assms by (auto simp: section_inventory_def rbind_eq_Inr rmap_eq_Inr split: if_splits)
  obtain st where st: "rfold (place_section img) empty_dest secs = Inr st"
    and dr: "dr_write d = sum_list (map row_words secs)" "dr_unique d = length (ds_seen st)" "dr_same d = ds_same st"
      "dr_changed d = ds_changed st"
      "dr_pages d = map (\<lambda>page. the (map_of (ds_pages st) page)) (sort (map fst (ds_pages st)))"
    using d(1) by (auto simp: destination_inventory_def rmap_eq_Inr)
  have "accounted empty_dest" by (simp add: accounted_def empty_dest_def page_sum_def)
  from place_sections_accounted [OF this _ st] section_loop_inside [OF l]
  have acc: "accounted st" "page_sum pg_write (ds_pages st) = sum_list (map row_words secs)"
    by (auto simp: empty_dest_def page_sum_def)
  then have sums: "sum_list (map f (dr_pages d)) = page_sum f (ds_pages st)" for f
    unfolding dr(5) by (intro page_sum_sorted) (simp add: accounted_def)
  show ?thesis unfolding d(2) sums using acc by (simp add: dr accounted_def)
qed

section \<open>A container on the wire\<close>

text \<open>A segment is its marker, a header (the seven words of a boot table, or nothing), the sections of
  its stream and the two bytes after the checksum.\<close>

type_synonym segment = "int \<times> bytes \<times> (int \<times> bytes) list \<times> bytes"

definition segment_payload :: "segment \<Rightarrow> bytes" where
  "segment_payload = (\<lambda>(m, header, secs, sync). header @ stream_wire secs)"

definition segment_wire :: "segment \<Rightarrow> bytes" where
  "segment_wire sg = (case sg of (m, header, secs, sync) \<Rightarrow>
     be2 m @ rev (le_bytes 4 (int (length (segment_payload sg)))) @ segment_payload sg
       @ be2 (payload_xor (segment_payload sg)) @ sync)"

definition boot_header :: "bytes \<Rightarrow> bool" where
  "boot_header header \<longleftrightarrow> length header = 14 \<and> boot_signature header \<and> be_words header ! 5 \<le> 0x7f"

definition segment_ok :: "segment \<Rightarrow> bool" where
  "segment_ok = (\<lambda>(m, header, secs, sync). nat m \<in> set markers \<and> 0 \<le> m
     \<and> (\<forall>s \<in> set secs. section_ok s) \<and> length sync = 2
     \<and> length (header @ stream_wire secs) < 0x100000000)"

definition container_ok :: "segment list \<Rightarrow> bool" where
  "container_ok segs \<longleftrightarrow> segs \<noteq> [] \<and> fst (hd segs) = 0xaa55 \<and> boot_header (fst (snd (hd segs)))
     \<and> (\<forall>sg \<in> set (tl segs). fst (snd sg) = []) \<and> (\<forall>sg \<in> set segs. segment_ok sg) \<and> distinct (map fst segs)"

definition container_wire :: "segment list \<Rightarrow> bytes" where
  "container_wire segs = concat (map segment_wire segs)"

fun rows_at :: "nat \<Rightarrow> segment_row list \<Rightarrow> segment list \<Rightarrow> bool" where
  "rows_at n [] [] \<longleftrightarrow> True"
| "rows_at n (r # rs) ((m, header, secs, sync) # segs) \<longleftrightarrow>
     sg_offset r = n \<and> sg_marker r = fmt_x 4 m \<and> sg_bytes r = length header + length (stream_wire secs)
     \<and> ig_matches (sg_integrity r)
     \<and> (\<exists>rep. segment_stream r = Some rep \<and> st_sections rep = placed (length header) secs)
     \<and> rows_at (n + 10 + (length header + length (stream_wire secs))) rs segs"
| "rows_at n _ _ \<longleftrightarrow> False"

lemma payload_xor_bound: "0 \<le> payload_xor p \<and> payload_xor p < 256"
proof -
  have "0 \<le> v \<and> v < 256 \<Longrightarrow> 0 \<le> fold (\<lambda>b v. v XOR uint b) p v \<and> fold (\<lambda>b v. v XOR uint b) p v < 256" for v
  proof (induction p arbitrary: v)
    case (Cons b p)
    have "take_bit 8 (v XOR uint b) = v XOR uint b"
      using Cons.prems byte_bound [of b] by (simp add: take_bit_xor take_bit_int_eq_self)
    then have "0 \<le> v XOR uint b \<and> v XOR uint b < 256" 
      unfolding take_bit_int_eq_self_iff by simp
    then show ?case using Cons.IH by simp
  qed simp
  then show ?thesis by (simp add: payload_xor_def)
qed

lemma placed_inside:
  "drop n img = concat (map section_wire secs) @ rest \<Longrightarrow> n \<le> length img \<Longrightarrow> \<forall>s \<in> set secs. section_ok s
   \<Longrightarrow> \<forall>r \<in> set (placed n secs). row_inside img r \<and> row_address r + int (row_words r) \<le> 0x800000"
proof (induction secs arbitrary: n)
  case (Cons s secs)
  obtain a p where s: "s = (a, p)" by (metis surj_pair)
  have d0: "drop n img = be2 (int (length p div 2)) @ be2 (drop_bit 16 a) @ be2 (take_bit 16 a) @ p
      @ concat (map section_wire secs) @ rest"
    using Cons.prems(1) by (simp only: s list.map concat.simps section_wire_eq append_assoc)
  have dn: "drop (n + 6 + length p) img = concat (map section_wire secs) @ rest"
    by (rule drop_step [OF drop_wire [OF d0]])
  have len: "n + 6 + length p \<le> length img" using arg_cong [OF d0, of length] Cons.prems(2) by simp
  have "even (length p)" "a + int (length p div 2) \<le> 0x800000" using Cons.prems(3) by (auto simp: s section_ok_def)
  then show ?case using Cons.IH [OF dn len] Cons.prems(3) len by (auto simp: s row_inside_def)
qed simp

lemma destination_inventory_returns:
  assumes "\<forall>r \<in> set secs. row_inside img r \<and> row_address r + int (row_words r) \<le> 0x800000"
  shows "\<exists>d. destination_inventory img secs = Inr d"
proof -
  have "\<exists>st'. rfold (place_section img) st secs = Inr st'" for st
    using assms
  proof (induction secs arbitrary: st)
    case (Cons r secs)
    obtain ws where "section_writes img r = Inr ws" using section_writes_inside Cons.prems by (metis list.set_intros(1))
    then have "\<exists>s1. place_section img st r = Inr s1" using Cons.prems by (auto simp: place_section_def Let_def)
    then show ?case using Cons by auto
  qed simp
  then show ?thesis by (auto simp: destination_inventory_def rmap_eq_Inr)
qed

lemma section_inventory_stream:
  assumes "\<forall>s \<in> set secs. section_ok s" "even (length header)" "img = header @ stream_wire secs"
  obtains r where "section_inventory img (length header) = Inr r" "st_sections r = placed (length header) secs"
proof -
  have d: "drop (length header) img = concat (map section_wire secs) @ [0, 0]" by (simp add: assms(3) stream_wire_def)
  have l: "section_loop img (length header) [] = Inr ([] @ placed (length header) secs, length img)"
    by (rule section_loop_stream [OF assms(1) d]) (simp add: assms(3))
  obtain dr where "destination_inventory img (placed (length header) secs) = Inr dr"
    using destination_inventory_returns placed_inside [OF d _ assms(1)] assms(3) by fastforce
  moreover have "even (length (concat (map section_wire secs)))"
    using assms(1) by (induction secs) (auto simp: section_wire_length section_ok_def)
  then have "even (length img)" using assms(2,3) by (simp add: stream_wire_def)
  ultimately show ?thesis using l by (intro that) (auto simp: section_inventory_def)
qed

lemma serial_boot_stream:
  assumes "\<forall>s \<in> set secs. section_ok s" "boot_header header" "img = header @ stream_wire secs"
  obtains r where "serial_boot_inventory img = Inr r" "st_sections (stream_report.truncate r) = placed 14 secs"
proof -
  have h: "length header = 14" "boot_signature header" "be_words header ! 5 \<le> 0x7f"
    using assms(2) by (auto simp: boot_header_def)
  obtain rep where rep: "section_inventory img 14 = Inr rep" "st_sections rep = placed 14 secs"
    using section_inventory_stream [OF assms(1) _ assms(3)] h(1) by auto
  then have "even (length img)" by (auto simp: section_inventory_def split: if_splits)
  moreover have words: "be_words (slice 0 14 img) = be_words header" using h(1) by (simp add: assms(3) slice_def)
  have "length img \<ge> 16" using h(1) by (simp add: assms(3) stream_wire_def)
  moreover have "be_words header ! 0 \<in> {0x08aa, 0x10aa}"
  proof -
    obtain x y rest where "header = x # y # rest" using h(1) by (cases header; cases "tl header") auto
    moreover have "from_le [0xaa, 0x08] = 0x08aa" "from_le [0xaa, 0x10] = 0x10aa" by (simp_all add: from_le.simps)
    ultimately show ?thesis using h(2) by (auto simp: boot_signature_def slice_def be_words_Cons)
  qed
  ultimately show ?thesis using rep h(3)
    by (intro that [of "stream_report.extend rep _"]) (auto simp: serial_boot_inventory_def words Let_def stream_report.defs)
qed

lemma segment_fields:
  assumes "drop n img = segment_wire (m, header, secs, sync) @ rest" and "segment_ok (m, header, secs, sync)"
  defines "p \<equiv> header @ stream_wire secs"
  shows "read16 img n = nat m" and "read32 img (n + 2) = length p"
    and "slice (n + 6) (n + 6 + length p) img = p"
    and "slice (n + 6 + length p) (n + 6 + length p + 4) img = be2 (payload_xor p) @ sync"
    and "drop (n + 10 + length p) img = rest"
proof -
  have ok: "0 \<le> m" "nat m \<in> set markers" "length sync = 2" "length p < 0x100000000"
    using assms(2) by (auto simp: segment_ok_def p_def)
  have "m < 0x10000" using ok(1,2) by (auto simp: markers_def)
  have d0: "drop n img = be2 m @ rev (le_bytes 4 (int (length p))) @ p @ be2 (payload_xor p) @ sync @ rest"
    using assms(1) by (simp add: segment_wire_def segment_payload_def p_def)
  then show "read16 img n = nat m" using read16_at ok(1) \<open>m < 0x10000\<close> by blast
  have d2: "drop (n + 2) img = rev (le_bytes 4 (int (length p))) @ p @ be2 (payload_xor p) @ sync @ rest"
    by (rule drop_step' [OF d0]) simp
  have d6: "drop (n + 6) img = p @ be2 (payload_xor p) @ sync @ rest"
    using drop_step' [of n img "be2 m @ rev (le_bytes 4 (int (length p)))" _ 6] d0 by simp
  have dp: "drop (n + 6 + length p) img = (be2 (payload_xor p) @ sync) @ rest"
    using drop_step [OF d6] by simp
  have "slice (n + 2) (n + 2 + 4) img = rev (le_bytes 4 (int (length p)))" by (rule slice_step [OF d2]) simp
  then show "read32 img (n + 2) = length p" using ok(4) by (simp add: read32_def from_be_rev from_le_bytes)
  show "slice (n + 6) (n + 6 + length p) img = p" by (rule slice_step [OF d6]) simp
  show "slice (n + 6 + length p) (n + 6 + length p + 4) img = be2 (payload_xor p) @ sync"
    by (rule slice_step [OF dp]) (simp add: ok(3))
  show "drop (n + 10 + length p) img = rest"
    using drop_step' [OF dp, of 4] ok(3) by (simp add: ac_simps)
qed

lemma segment_integrity_wire: "length sync = 2 \<Longrightarrow> ig_matches (segment_integrity p (be2 (payload_xor p) @ sync))"
proof -
  have "read16 (be2 (payload_xor p) @ sync) 0 = nat (payload_xor p)"
    by (rule read16_at) (use payload_xor_bound [of p] in auto)
  then show ?thesis using payload_xor_bound [of p] by (simp add: segment_integrity_def Let_def)
qed

lemma inventory_loop_step:
  assumes "drop n img = segment_wire (m, header, secs, sync) @ rest" "segment_ok (m, header, secs, sync)"
    and grammar: "if n = 0 then boot_header header else header = [] \<and> sg_serial (hd rows) \<noteq> None"
  shows "\<exists>r. inventory_loop img n rows = inventory_loop img (n + 10 + (length header + length (stream_wire secs))) (rows @ [r])
    \<and> rows_at n [r] [(m, header, secs, sync)] \<and> (n = 0 \<longrightarrow> sg_serial r \<noteq> None)"
proof -
  define p where "p = header @ stream_wire secs"
  note f = segment_fields [OF assms(1,2), folded p_def]
  have ok: "nat m \<in> set markers" "0 \<le> m" "length sync = 2" "\<forall>s \<in> set secs. section_ok s"
    using assms(2) by (auto simp: segment_ok_def)
  have len: "n + 10 + length p \<le> length img" "n < length img"
  proof -
    have "length (drop n img) = 10 + length p + length rest"
      unfolding assms(1) by (simp add: segment_wire_def segment_payload_def p_def ok(3))
    then show "n + 10 + length p \<le> length img" "n < length img" by auto
  qed
  let ?base = "segment_base img n (nat m) (length p)"
  have base: "sg_offset ?base = n" "sg_marker ?base = fmt_x 4 m" "sg_bytes ?base = length p"
    "ig_matches (sg_integrity ?base)" "sg_serial ?base = None" "sg_stream ?base = None"
    unfolding segment_base_def Let_def f(3,4) using segment_integrity_wire [OF ok(3)] ok(2) by simp_all
  obtain r where r: "segment_grammar rows n p ?base = Inr r"
      "sg_offset r = n" "sg_marker r = fmt_x 4 m" "sg_bytes r = length p" "ig_matches (sg_integrity r)"
      "\<exists>rep. segment_stream r = Some rep \<and> st_sections rep = placed (length header) secs" "n = 0 \<Longrightarrow> sg_serial r \<noteq> None"
  proof (cases "n = 0")
    case True
    then have h: "boot_header header" "length header = 14" using grammar by (auto simp: boot_header_def)
    obtain b where b: "serial_boot_inventory p = Inr b" "st_sections (stream_report.truncate b) = placed 14 secs"
      using serial_boot_stream [OF ok(4) h(1) p_def] by blast
    have "boot_signature p" using h by (simp add: boot_header_def boot_signature_def p_def slice_def)
    then show ?thesis using b base h(2) True
      by (intro that [of "?base\<lparr>sg_serial := Some b\<rparr>"]) (auto simp: segment_grammar_def segment_stream_def)
  next
    case False
    then have h: "header = []" "sg_serial (hd rows) \<noteq> None" using grammar by auto
    obtain b where b: "section_inventory p 0 = Inr b" "st_sections b = placed 0 secs"
      using section_inventory_stream [of secs header p] ok(4) h(1) p_def by auto
    then show ?thesis using base h False
      by (intro that [of "?base\<lparr>sg_stream := Some b\<rparr>"]) (auto simp: segment_grammar_def segment_stream_def)
  qed
  have "inventory_loop img n rows = inventory_loop img (n + 6 + length p + 4) (rows @ [r])"
  proof -
    have "\<not> length img - n < 10" "\<not> n + 6 + length p + 4 > length img" using len(1) by auto
    then show ?thesis
      using len(2) ok(1) f(1-3) r(1) by (subst inventory_loop.simps) (simp only: Let_def if_True if_False not_not not_True_eq_False sum.case)
  qed
  then show ?thesis using r
    by (intro exI [of _ r]) (simp add: p_def ac_simps)
qed

lemma inventory_loop_overlays:
  assumes "drop n img = concat (map segment_wire segs)" "n \<le> length img" "n \<noteq> 0"
    and "\<forall>sg \<in> set segs. segment_ok sg \<and> fst (snd sg) = []" and "rows \<noteq> []" "sg_serial (hd rows) \<noteq> None"
  shows "\<exists>rs. inventory_loop img n rows = Inr (rows @ rs, length img) \<and> rows_at n rs segs"
  using assms
proof (induction segs arbitrary: n rows)
  case Nil
  then have "n = length img" by simp
  then show ?case by (intro exI [of _ "[]"]) (simp add: inventory_loop.simps)
next
  case (Cons sg segs)
  obtain m secs sync where sg: "sg = (m, [], secs, sync)" using Cons.prems(4) by (cases sg) auto
  have d: "drop n img = segment_wire (m, [], secs, sync) @ concat (map segment_wire segs)" using Cons.prems(1) by (simp add: sg)
  have ok: "segment_ok (m, [], secs, sync)" using Cons.prems(4) by (simp add: sg)
  obtain r where r: "inventory_loop img n rows = inventory_loop img (n + 10 + (length ([] :: bytes) + length (stream_wire secs))) (rows @ [r])"
      "rows_at n [r] [(m, [], secs, sync)]"
    using inventory_loop_step [OF d ok, of rows] Cons.prems(3,6) by auto
  have dn: "drop (n + 10 + length (stream_wire secs)) img = concat (map segment_wire segs)"
    using segment_fields(5) [OF d ok] by simp
  have "length (drop n img) = 10 + length (stream_wire secs) + length (concat (map segment_wire segs))"
    unfolding d using ok by (simp add: segment_wire_def segment_payload_def segment_ok_def)
  then have "n + 10 + length (stream_wire secs) \<le> length img" by simp
  then have "\<exists>rs. inventory_loop img (n + 10 + length (stream_wire secs)) (rows @ [r]) = Inr ((rows @ [r]) @ rs, length img)
      \<and> rows_at (n + 10 + length (stream_wire secs)) rs segs"
    by (rule Cons.IH [OF dn]) (use Cons.prems(4-6) in simp_all)
  then obtain rs where "inventory_loop img (n + 10 + length (stream_wire secs)) (rows @ [r]) = Inr ((rows @ [r]) @ rs, length img)"
      "rows_at (n + 10 + length (stream_wire secs)) rs segs"
    by blast
  then show ?case using r by (intro exI [of _ "r # rs"]) (simp add: sg)
qed

lemma rows_at_stream:
  "rows_at n rs segs \<Longrightarrow> list_all (\<lambda>r. segment_stream r \<noteq> None) rs"
  by (induction n rs segs rule: rows_at.induct) auto

lemma moved_sections_inside:
  assumes "drop n img = segment_wire (m, header, secs, sync) @ rest" "segment_ok (m, header, secs, sync)"
    and "rows_at n [r] [(m, header, secs, sync)]" and "n \<le> length img"
  shows "\<forall>sec \<in> set (moved_sections r). row_inside img sec \<and> row_address sec + int (row_words sec) \<le> 0x800000"
proof -
  define p where "p = header @ stream_wire secs"
  obtain rep where rep: "segment_stream r = Some rep" "st_sections rep = placed (length header) secs" "sg_offset r = n"
    using assms(3) by auto
  have dh: "drop (length header) p = concat (map section_wire secs) @ [0, 0]" by (simp add: p_def stream_wire_def)
  have "\<forall>s \<in> set secs. section_ok s" using assms(2) by (simp add: segment_ok_def)
  from placed_inside [OF dh _ this]
  have inside: "\<forall>sec \<in> set (placed (length header) secs). row_inside p sec \<and> row_address sec + int (row_words sec) \<le> 0x800000"
    by (simp add: p_def)
  have "n + 10 + length p \<le> length img"
  proof -
    have "length (drop n img) = 10 + length p + length rest"
      unfolding assms(1) using assms(2) by (simp add: segment_wire_def segment_payload_def p_def segment_ok_def)
    then show ?thesis by simp
  qed
  then show ?thesis using inside by (auto simp: moved_sections_def rep row_inside_def)
qed

lemma rows_at_inside:
  assumes "drop n img = concat (map segment_wire segs)" "n \<le> length img" "\<forall>sg \<in> set segs. segment_ok sg" "rows_at n rs segs"
  shows "\<forall>sec \<in> set (concat (map moved_sections rs)). row_inside img sec \<and> row_address sec + int (row_words sec) \<le> 0x800000"
  using assms
proof (induction n rs segs rule: rows_at.induct)
  case (2 n r rs m header secs sync segs)
  have d: "drop n img = segment_wire (m, header, secs, sync) @ concat (map segment_wire segs)" using 2(2) by simp
  have ok: "segment_ok (m, header, secs, sync)" using 2(4) by simp
  have dn: "drop (n + 10 + (length header + length (stream_wire secs))) img = concat (map segment_wire segs)"
    using segment_fields(5) [OF d ok] by simp
  have "length (drop n img) = 10 + (length header + length (stream_wire secs)) + length (concat (map segment_wire segs))"
    unfolding d using ok by (simp add: segment_wire_def segment_payload_def segment_ok_def)
  then have "n + 10 + (length header + length (stream_wire secs)) \<le> length img" by simp
  then show ?case
    using 2(1) [OF dn] 2(4,5) moved_sections_inside [OF d ok _ 2(3), of r] by auto
qed auto

lemma fmt_x_inj: "0 \<le> u \<Longrightarrow> 0 \<le> v \<Longrightarrow> fmt_x w u = fmt_x w v \<longleftrightarrow> u = v"
  by (metis parse_fmt_x sum.inject(2))

lemma inventory_container:
  assumes "container_ok segs"
  obtains c where "inventory (container_wire segs) = Inr c" "rows_at 0 (ct_segments c) segs"
proof -
  define img where "img = container_wire segs"
  obtain m header secs sync segs' where segs: "segs = (m, header, secs, sync) # segs'"
    using assms by (cases segs) (auto simp: container_ok_def)
  have h: "m = 0xaa55" "boot_header header" "\<forall>sg \<in> set segs'. segment_ok sg \<and> fst (snd sg) = []"
    "segment_ok (m, header, secs, sync)" "\<forall>sg \<in> set segs. segment_ok sg"
    using assms by (auto simp: container_ok_def segs)
  have d: "drop 0 img = segment_wire (m, header, secs, sync) @ concat (map segment_wire segs')"
    by (simp add: img_def container_wire_def segs)
  let ?n = "0 + 10 + (length header + length (stream_wire secs))"
  obtain r where r: "inventory_loop img 0 [] = inventory_loop img ?n ([] @ [r])"
      "rows_at 0 [r] [(m, header, secs, sync)]" "sg_serial r \<noteq> None"
    using inventory_loop_step [OF d h(4), of "[]"] h(2) by auto
  have dn: "drop ?n img = concat (map segment_wire segs')" using segment_fields(5) [OF d h(4)] by simp
  have len: "?n \<le> length img"
    using h(4) by (simp add: img_def container_wire_def segs segment_wire_def segment_payload_def segment_ok_def)
  obtain rs where rs: "inventory_loop img ?n ([] @ [r]) = Inr (([] @ [r]) @ rs, length img)" "rows_at ?n rs segs'"
    using inventory_loop_overlays [OF dn len _ h(3), of "[] @ [r]"] r(3) by auto
  have rows: "rows_at 0 (r # rs) segs" using r(2) rs(2) by (simp add: segs)
  have "\<forall>sec \<in> set (concat (map moved_sections (r # rs))). row_inside img sec \<and> row_address sec + int (row_words sec) \<le> 0x800000"
    by (rule rows_at_inside [OF _ _ h(5) rows]) (simp_all add: img_def container_wire_def)
  from destination_inventory_returns [OF this]
  obtain dst where "destination_inventory img (concat (map moved_sections (r # rs))) = Inr dst" by blast
  moreover have "fmt_x 4 0xaa55 = ''aa55''"
    by (simp add: fmt_x_def zfill_def digits_step digits_small hex_char_def)
  moreover have "sg_marker r = fmt_x 4 0xaa55" using r(2) h(1) by simp
  moreover have "inventory_loop img 0 [] = Inr (r # rs, length img)" using r(1) rs(1) by simp
  ultimately have "inventory img = Inr
      \<lparr>ct_bytes = length img, ct_sha = sha256_hex img, ct_segments = r # rs, ct_coverage = length img,
       ct_scope = ''container and section extents plus InitDisk payload checksum; following trailer word semantics, overlay selection and DA150 execution unvalidated'',
       ct_destinations = Some dst\<rparr>"
    unfolding inventory_def using rows_at_stream [OF rows]
    by (simp only: rbind_Inr rmap_Inr prod.case Let_def list.sel if_True if_False simp_thms list.distinct container.update_convs)
  then have "\<exists>c. inventory img = Inr c \<and> ct_segments c = r # rs" by simp
  then show ?thesis using rows that by (auto simp: img_def)
qed

lemma rows_at_select:
  assumes "rows_at n rs segs" "distinct (map fst segs)" "\<forall>sg \<in> set segs. segment_ok sg"
    and "drop n img = concat (map segment_wire segs)" and "(m, header, secs, sync) \<in> set segs"
  obtains r k rest where "filter (\<lambda>s. Some (sg_marker s) = Some (fmt_x 4 m)) rs = [r]"
    "rows_at k [r] [(m, header, secs, sync)]" "drop k img = segment_wire (m, header, secs, sync) @ rest"
proof -
  have m0: "0 \<le> m" using assms(3,5) by (auto simp: segment_ok_def)
  have none: "filter (\<lambda>s. Some (sg_marker s) = Some (fmt_x 4 m)) rs = []"
    if "rows_at n rs segs" "m \<notin> fst ` set segs" "\<forall>sg \<in> set segs. segment_ok sg" for n rs segs
    using that by (induction n rs segs rule: rows_at.induct) (auto simp: fmt_x_inj m0 segment_ok_def)
  have "\<exists>r k rest. filter (\<lambda>s. Some (sg_marker s) = Some (fmt_x 4 m)) rs = [r] \<and>
    rows_at k [r] [(m, header, secs, sync)] \<and> drop k img = segment_wire (m, header, secs, sync) @ rest"
    using assms
  proof (induction n rs segs rule: rows_at.induct)
    case (2 n r rs m' header' secs' sync' segs)
    have ok: "segment_ok (m', header', secs', sync')" using 2(4) by simp
    have d: "drop n img = segment_wire (m', header', secs', sync') @ concat (map segment_wire segs)" using 2(5) by simp
    show ?case
    proof (cases "m = m'")
      case True
      then have e: "(m, header, secs, sync) = (m', header', secs', sync')" using 2(3,6) by (force dest: image_eqI [of _ fst])
      have "filter (\<lambda>s. Some (sg_marker s) = Some (fmt_x 4 m)) rs = []"
        by (rule none) (use 2(2-4) True in auto)
      then have "filter (\<lambda>s. Some (sg_marker s) = Some (fmt_x 4 m)) (r # rs) = [r]" using 2(2) True by simp
      moreover have "rows_at n [r] [(m, header, secs, sync)]" using 2(2) unfolding e by simp
      ultimately show ?thesis using d unfolding e by blast
    next
      case False
      have dn: "drop (n + 10 + (length header' + length (stream_wire secs'))) img = concat (map segment_wire segs)"
        using segment_fields(5) [OF d ok] by simp
      have "sg_marker r \<noteq> fmt_x 4 m" using 2(2) False m0 ok by (auto simp: fmt_x_inj segment_ok_def)
      then show ?thesis using 2(1) [OF _ _ _ dn] 2(2-4,6) False by auto
    qed
  qed auto
  then show ?thesis using that by blast
qed

section \<open>The uploaded image is the last-writer reading\<close>

lemma extract_segment_wire:
  assumes "container_ok segs" "(m, header, secs, sync) \<in> set segs"
  shows "extract_segment (container_wire segs) (Some (fmt_x 4 m)) = Inr (segment_wire (m, header, secs, sync))"
proof -
  define img where "img = container_wire segs"
  define p where "p = header @ stream_wire secs"
  have oks: "\<forall>sg \<in> set segs. segment_ok sg" "distinct (map fst segs)" and ok: "segment_ok (m, header, secs, sync)"
    using assms by (auto simp: container_ok_def)
  have sync: "length sync = 2" "\<forall>s \<in> set secs. section_ok s" "0 \<le> m" using ok by (auto simp: segment_ok_def)
  obtain c where c: "inventory img = Inr c" "rows_at 0 (ct_segments c) segs"
    using inventory_container [OF assms(1)] by (auto simp: img_def)
  obtain r k rest where r: "filter (\<lambda>s. Some (sg_marker s) = Some (fmt_x 4 m)) (ct_segments c) = [r]"
      "rows_at k [r] [(m, header, secs, sync)]" "drop k img = segment_wire (m, header, secs, sync) @ rest"
    using rows_at_select [OF c(2) oks(2,1) _ assms(2), of img] by (auto simp: img_def container_wire_def)
  have wire: "segment_wire (m, header, secs, sync) = be2 m @ rev (le_bytes 4 (int (length p))) @ p @ be2 (payload_xor p) @ sync"
    by (simp add: segment_wire_def segment_payload_def p_def)
  then have len: "length (segment_wire (m, header, secs, sync)) = 10 + length p" by (simp add: sync)
  have "slice k (k + (10 + length p)) img = segment_wire (m, header, secs, sync)" by (rule slice_step [OF r(3) len])
  then show ?thesis
    unfolding img_def [symmetric] using c(1) r(1,2) by (simp add: extract_segment_def select_one_def p_def ac_simps)
qed

lemma upload_segment:
  assumes "container_ok segs" "(m, header, secs, sync) \<in> set segs"
  shows "uploaded_word_image (container_wire segs) (fmt_x 4 m) = Inr (upload_all [] secs)"
proof -
  define img where "img = container_wire segs"
  define p where "p = header @ stream_wire secs"
  have ok: "segment_ok (m, header, secs, sync)" using assms by (auto simp: container_ok_def)
  have sync: "length sync = 2" "\<forall>s \<in> set secs. section_ok s" "0 \<le> m" using ok by (auto simp: segment_ok_def)
  have wire: "segment_wire (m, header, secs, sync) = be2 m @ rev (le_bytes 4 (int (length p))) @ p @ be2 (payload_xor p) @ sync"
    by (simp add: segment_wire_def segment_payload_def p_def)
  then have len: "length (segment_wire (m, header, secs, sync)) = 10 + length p" by (simp add: sync)
  note seg = extract_segment_wire [OF assms, folded img_def]
  have pay: "slice 6 (length (segment_wire (m, header, secs, sync)) - 4) (segment_wire (m, header, secs, sync)) = p"
    unfolding len unfolding wire by (simp add: slice_def)
  have marker: "fmt_x 4 m = ''aa55'' \<longleftrightarrow> m = 0xaa55"
  proof -
    have "fmt_x 4 0xaa55 = ''aa55''" by (simp add: fmt_x_def zfill_def digits_step digits_small hex_char_def)
    then show ?thesis using fmt_x_inj [of m "0xaa55" 4] sync(3) by simp
  qed
  obtain hd_sg tl_sgs where segs: "segs = hd_sg # tl_sgs" using assms(2) by (cases segs) auto
  have first: "m = 0xaa55 \<longleftrightarrow> (m, header, secs, sync) = hd_sg"
  proof -
    have "fst hd_sg = 0xaa55" using assms(1) by (simp add: segs container_ok_def)
    moreover have "distinct (map fst segs)" using assms(1) by (simp add: container_ok_def)
    then have "fst hd_sg \<notin> fst ` set tl_sgs" by (simp add: segs)
    moreover have "(m, header, secs, sync) = hd_sg \<or> (m, header, secs, sync) \<in> set tl_sgs" using assms(2) by (simp add: segs)
    ultimately show ?thesis by (metis fst_conv image_eqI)
  qed
  have d: "drop (length header) p = concat (map section_wire secs) @ [0, 0]" by (simp add: p_def stream_wire_def)
  show ?thesis
  proof (cases "m = 0xaa55")
    case True
    then have h: "boot_header header" "length header = 14" using first assms(1) by (auto simp: segs container_ok_def boot_header_def)
    obtain b where "serial_boot_inventory p = Inr b" "st_sections (stream_report.truncate b) = placed 14 secs"
      using serial_boot_stream [OF sync(2) h(1) p_def] by blast
    moreover have aa55: "fmt_x 4 m = ''aa55''" using True marker by simp
    ultimately show ?thesis using upload_placed [OF sync(2) d]
      unfolding uploaded_word_image_def img_def [symmetric] aa55 seg [unfolded aa55]
      by (simp add: pay Let_def h(2))
  next
    case False
    then have "(m, header, secs, sync) \<in> set tl_sgs" using first assms(2) by (auto simp: segs)
    moreover have "\<forall>sg \<in> set tl_sgs. fst (snd sg) = []" using assms(1) by (simp add: segs container_ok_def)
    ultimately have h: "header = []" by force
    obtain b where "section_inventory p 0 = Inr b" "st_sections b = placed 0 secs"
      using section_inventory_stream [of secs header p] sync(2) h p_def by auto
    moreover have "rfold (upload_section p) [] (placed 0 secs) = Inr (upload_all [] secs)"
      using upload_placed [OF sync(2) d] h by simp
    ultimately show ?thesis using False marker
      by (simp add: uploaded_word_image_def img_def [symmetric] seg pay Let_def)
  qed
qed

text \<open>C23: Reading one overlay back from a well-formed container (a boot segment
  followed by overlays, each a stream of section records with its checksum) gives exactly the memory
  that loading the sections of that segment in order leaves: every address holds the word of the last
  section that covers it, and nothing else is mapped.\<close>

theorem uploaded_image_owner:
  assumes "container_ok segs" "(m, header, secs, sync) \<in> set segs"
  shows "\<exists>words. uploaded_word_image (container_wire segs) (fmt_x 4 m) = Inr words \<and> map_of words = word_owner secs"
  using upload_segment [OF assms] upload_all_owner [of "[]" secs] by (auto split: option.splits)

definition sample_container :: "segment list" where
  "sample_container =
     [(0xaa55, [0x08, 0xaa, 0, 0, 0, 0, 0, 0, 0, 0, 0, 0, 0x0e, 0x41], [(0x100, [0x12, 0x34])], [0x88, 0x88]),
      (0xaa22, [], [(0x29000, [0xf9, 0x82, 0xc8, 0x24]), (0x29001, [0xc9, 0x02])], [0x88, 0x88])]"

lemma sample_container_ok: "container_ok sample_container"
  by (simp add: container_ok_def sample_container_def segment_ok_def section_ok_def boot_header_def boot_signature_def
      markers_def slice_def be_words_Cons from_le.simps stream_wire_def section_wire_def)

theorem uploaded_image_owner_witness:
  "\<exists>words. uploaded_word_image (container_wire sample_container) (fmt_x 4 0xaa22) = Inr words
     \<and> map_of words = word_owner [(0x29000, [0xf9, 0x82, 0xc8, 0x24]), (0x29001, [0xc9, 0x02])]"
  by (rule uploaded_image_owner [OF sample_container_ok]) (simp add: sample_container_def)

section \<open>The payload checksum\<close>

lemma payload_xor_append: "payload_xor (xs @ b # ys) = payload_xor (xs @ ys) XOR uint b"
proof -
  have "fold (\<lambda>b v. v XOR uint b) ys (v XOR w) = fold (\<lambda>b v. v XOR uint b) ys v XOR w" for v w :: int
  proof (induction ys arbitrary: v)
    case (Cons a ys)
    have "(v XOR w) XOR uint a = (v XOR uint a) XOR w" by (simp add: ac_simps)
    then show ?case by (simp only: fold.simps comp_apply Cons.IH)
  qed simp
  then show ?thesis by (simp add: payload_xor_def)
qed

lemma select_one_Inr: "select_one P xs msg = Inr x \<longleftrightarrow> filter P xs = [x]"
  by (auto simp: select_one_def split: list.splits)

definition row_true :: "bytes \<Rightarrow> segment_row \<Rightarrow> bool" where
  "row_true img r \<longleftrightarrow> sg_offset r + 10 + sg_bytes r \<le> length img
     \<and> sg_integrity r = segment_integrity (slice (sg_offset r + 6) (sg_offset r + 6 + sg_bytes r) img)
         (slice (sg_offset r + 6 + sg_bytes r) (sg_offset r + 6 + sg_bytes r + 4) img)"

lemma segment_grammar_row:
  assumes "segment_grammar rows n p row = Inr r"
  shows "sg_offset r = sg_offset row \<and> sg_marker r = sg_marker row \<and> sg_bytes r = sg_bytes row \<and> sg_integrity r = sg_integrity row"
  using assms by (auto simp: segment_grammar_def rmap_eq_Inr split: if_splits)

lemma inventory_loop_unfold:
  assumes "n < length img"
  shows "inventory_loop img n rows =
      (if length img - n < 10 then Inl (ValueError ''truncated segment header/trailer'')
       else if read16 img n \<notin> set markers then Inl (ValueError (''unknown segment marker at '' @ fmt_x 0 (int n)))
       else if n + 6 + read32 img (n + 2) + 4 > length img then Inl (ValueError ''segment length exceeds container'')
       else case segment_grammar rows n (slice (n + 6) (n + 6 + read32 img (n + 2)) img)
             (segment_base img n (read16 img n) (read32 img (n + 2))) of
           Inl e \<Rightarrow> Inl e | Inr row \<Rightarrow> inventory_loop img (n + 6 + read32 img (n + 2) + 4) (rows @ [row]))"
  by (subst inventory_loop.simps) (simp only: assms Let_def if_True)

lemma inventory_loop_true:
  assumes "inventory_loop img n rows = Inr (rs, k)" "\<forall>r \<in> set rows. row_true img r"
  shows "\<forall>r \<in> set rs. row_true img r"
  using assms
proof (induction img n rows rule: inventory_loop.induct)
  case (1 img n rows)
  show ?case
  proof (cases "n < length img")
    case True
    let ?m = "read16 img n" and ?l = "read32 img (n + 2)"
    note unfolded = inventory_loop_unfold [OF True, of rows]
    have guards: "\<not> length img - n < 10" "\<not> ?m \<notin> set markers" "\<not> n + 6 + ?l + 4 > length img"
      using "1.prems"(1) unfolding unfolded by (simp_all split: if_splits del: add_2_eq_Suc')
    obtain row where row: "segment_grammar rows n (slice (n + 6) (n + 6 + ?l) img) (segment_base img n ?m ?l) = Inr row"
      and next_loop: "inventory_loop img (n + 6 + ?l + 4) (rows @ [row]) = Inr (rs, k)"
      using "1.prems"(1) unfolding unfolded by (auto split: if_splits sum.splits simp del: add_2_eq_Suc')
    have "row_true img row"
      using guards(3) segment_grammar_row [OF row] by (simp add: row_true_def segment_base_def Let_def)
    then have "\<forall>r \<in> set (rows @ [row]). row_true img r" using "1.prems"(2) by auto
    from "1.IH" [OF True guards(1) refl refl refl guards(2,3) row next_loop this] show ?thesis .
  qed (use "1.prems" in \<open>simp add: inventory_loop.simps\<close>)
qed

text \<open>Where the segments lie depends on their markers and lengths alone: the frames (offset, marker,
  length) of an image are determined by it, and a byte changed inside a payload moves none of them.\<close>

definition frame_of :: "segment_row \<Rightarrow> nat \<times> string \<times> nat" where
  "frame_of r = (sg_offset r, sg_marker r, sg_bytes r)"

fun framed :: "bytes \<Rightarrow> nat \<Rightarrow> (nat \<times> string \<times> nat) list \<Rightarrow> bool" where
  "framed img n [] \<longleftrightarrow> length img \<le> n"
| "framed img n ((k, m, l) # fs) \<longleftrightarrow> n < length img \<and> k = n \<and> m = fmt_x 4 (int (read16 img n))
     \<and> l = read32 img (n + 2) \<and> framed img (n + 6 + l + 4) fs"

lemma framed_ConsD:
  assumes "framed img n ((k, m, l) # fs)"
  shows "n < length img" "k = n" "m = fmt_x 4 (int (read16 img n))" "l = read32 img (n + 2)" "framed img (n + 6 + l + 4) fs"
  using assms unfolding framed.simps by blast+

lemma framed_unique: "framed img n fs \<Longrightarrow> framed img n fs' \<Longrightarrow> fs = fs'"
proof (induction fs arbitrary: n fs')
  case Nil
  then show ?case by (cases fs') auto
next
  case (Cons f fs)
  obtain k m l where f: "f = (k, m, l)" by (metis surj_pair)
  note here = framed_ConsD [OF Cons.prems(1) [unfolded f]]
  obtain k' m' l' gs where fs': "fs' = (k', m', l') # gs" using Cons.prems(2) here(1) by (cases fs') auto
  note there = framed_ConsD [OF Cons.prems(2) [unfolded fs']]
  have head: "(k', m', l') = f" using here(2-4) there(2-4) by (simp only: f)
  then have "framed img (n + 6 + l + 4) gs" using there(5) by (simp only: f prod.inject)
  from Cons.IH [OF here(5) this] head show ?case by (simp only: fs')
qed

lemma framed_from: "framed img n fs \<Longrightarrow> (k, m, l) \<in> set fs \<Longrightarrow> n \<le> k"
proof (induction fs arbitrary: n)
  case (Cons f fs)
  obtain k' m' l' where f: "f = (k', m', l')" by (metis surj_pair)
  note here = framed_ConsD [OF Cons.prems(1) [unfolded f]]
  show ?case
  proof (cases "(k, m, l) \<in> set fs")
    case True
    from Cons.IH [OF here(5) True] show ?thesis by simp
  qed (use Cons.prems(2) here(2) in \<open>simp add: f\<close>)
qed simp

lemma slice_list_update_outside: "p < i \<or> j \<le> p \<Longrightarrow> slice i j (img[p := b]) = slice i j img"
  by (cases "p < i") (auto simp: slice_def drop_update_cancel drop_update_swap)

lemma read_update_outside:
  "p < n \<or> n + 2 \<le> p \<Longrightarrow> read16 (img[p := b]) n = read16 img n"
  "p < n \<or> n + 4 \<le> p \<Longrightarrow> read32 (img[p := b]) n = read32 img n"
  unfolding read16_def read32_def by (subst slice_list_update_outside, simp_all)+

lemma framed_update_before: "framed img n fs \<Longrightarrow> p < n \<Longrightarrow> framed (img[p := b]) n fs"
proof (induction fs arbitrary: n)
  case (Cons f fs)
  obtain k m l where f: "f = (k, m, l)" by (metis surj_pair)
  note here = framed_ConsD [OF Cons.prems(1) [unfolded f]]
  have reads: "read16 (img[p := b]) n = read16 img n" "read32 (img[p := b]) (n + 2) = read32 img (n + 2)"
    using Cons.prems(2) by (simp_all add: read_update_outside)
  have "framed (img[p := b]) (n + 6 + l + 4) fs" using Cons.prems(2) by (intro Cons.IH [OF here(5)]) simp
  then show ?case unfolding f framed.simps reads length_list_update using here(1-4) by blast
qed simp

lemma framed_update:
  "framed img n fs \<Longrightarrow> (k, m, l) \<in> set fs \<Longrightarrow> k + 6 \<le> p \<Longrightarrow> p < k + 6 + l \<Longrightarrow> framed (img[p := b]) n fs"
proof (induction fs arbitrary: n)
  case (Cons f fs)
  obtain k' m' l' where f: "f = (k', m', l')" by (metis surj_pair)
  note here = framed_ConsD [OF Cons.prems(1) [unfolded f]]
  have n: "n + 6 \<le> p" using framed_from [OF Cons.prems(1,2)] Cons.prems(3) by simp
  have reads: "read16 (img[p := b]) n = read16 img n" "read32 (img[p := b]) (n + 2) = read32 img (n + 2)"
    using n by (simp_all add: read_update_outside)
  have "framed (img[p := b]) (n + 6 + l' + 4) fs"
  proof (cases "(k, m, l) \<in> set fs")
    case True
    show ?thesis by (rule Cons.IH [OF here(5) True Cons.prems(3,4)])
  next
    case False
    then have "p < n + 6 + l' + 4" using Cons.prems(2,4) here(2) by (auto simp: f)
    then show ?thesis by (rule framed_update_before [OF here(5)])
  qed
  then show ?case unfolding f framed.simps reads length_list_update using here(1-4) by blast
qed simp

lemma inventory_loop_framed:
  assumes "inventory_loop img n rows = Inr (rs, k)"
  shows "\<exists>new. rs = rows @ new \<and> framed img n (map frame_of new)"
  using assms
proof (induction img n rows rule: inventory_loop.induct)
  case (1 img n rows)
  show ?case
  proof (cases "n < length img")
    case True
    let ?m = "read16 img n" and ?l = "read32 img (n + 2)"
    note unfolded = inventory_loop_unfold [OF True, of rows]
    have guards: "\<not> length img - n < 10" "\<not> ?m \<notin> set markers" "\<not> n + 6 + ?l + 4 > length img"
      using "1.prems"(1) unfolding unfolded by (simp_all split: if_splits del: add_2_eq_Suc')
    obtain row where row: "segment_grammar rows n (slice (n + 6) (n + 6 + ?l) img) (segment_base img n ?m ?l) = Inr row"
      and next_loop: "inventory_loop img (n + 6 + ?l + 4) (rows @ [row]) = Inr (rs, k)"
      using "1.prems"(1) unfolding unfolded by (auto split: if_splits sum.splits simp del: add_2_eq_Suc')
    from "1.IH" [OF True guards(1) refl refl refl guards(2,3) row next_loop]
    obtain new where new: "rs = (rows @ [row]) @ new" "framed img (n + 6 + ?l + 4) (map frame_of new)" by blast
    have "frame_of row = (n, fmt_x 4 (int ?m), ?l)"
      using segment_grammar_row [OF row] by (simp add: frame_of_def segment_base_def Let_def del: add_2_eq_Suc')
    then show ?thesis using new True by (intro exI [of _ "row # new"]) (simp del: add_2_eq_Suc')
  qed (use "1.prems" in \<open>simp add: inventory_loop.simps\<close>)
qed

lemma inventory_rows:
  assumes "inventory img = Inr c"
  shows "\<forall>r \<in> set (ct_segments c). row_true img r" and "framed img 0 (map frame_of (ct_segments c))"
proof -
  obtain k where k: "inventory_loop img 0 [] = Inr (ct_segments c, k)"
    using assms by (auto simp: inventory_def rbind_eq_Inr rmap_eq_Inr Let_def split: if_splits)
  show "\<forall>r \<in> set (ct_segments c). row_true img r" by (rule inventory_loop_true [OF k]) simp
  show "framed img 0 (map frame_of (ct_segments c))" using inventory_loop_framed [OF k] by simp
qed

lemma filter_frames:
  assumes "map frame_of xs = map frame_of ys" "filter (\<lambda>s. Some (sg_marker s) = marker) xs = [r]"
  obtains r' where "filter (\<lambda>s. Some (sg_marker s) = marker) ys = [r']" "frame_of r' = frame_of r"
proof -
  have f: "map frame_of (filter (\<lambda>s. Some (sg_marker s) = marker) zs) = filter (\<lambda>(k, m, l). Some m = marker) (map frame_of zs)"
    for zs by (induction zs) (auto simp: frame_of_def)
  have "map frame_of (filter (\<lambda>s. Some (sg_marker s) = marker) ys) = [frame_of r]"
    unfolding f assms(1) [symmetric] using f [of xs] assms(2) by simp
  then show thesis using that by (auto simp: map_eq_Cons_conv)
qed

lemma extract_segment_checksum:
  assumes "extract_segment img marker = Inr seg"
  shows "10 \<le> length seg \<and> int (read16 seg (length seg - 4)) = payload_xor (slice 6 (length seg - 4) seg)"
proof -
  obtain c r where c: "inventory img = Inr c" "filter (\<lambda>s. Some (sg_marker s) = marker) (ct_segments c) = [r]"
    and m: "ig_matches (sg_integrity r)" and seg: "seg = slice (sg_offset r) (sg_offset r + 10 + sg_bytes r) img"
    using assms by (auto simp: extract_segment_def rbind_eq_Inr select_one_Inr split: if_splits)
  have "\<forall>r \<in> set (ct_segments c). row_true img r" by (rule inventory_rows(1) [OF c(1)])
  moreover have "r \<in> set (ct_segments c)" using c(2) by (metis filter_is_subset list.set_intros(1) subsetD)
  ultimately have t: "row_true img r" by blast
  let ?o = "sg_offset r" and ?n = "sg_bytes r"
  have le: "?o + 10 + ?n \<le> length img" using t by (simp add: row_true_def)
  then have len: "length seg = 10 + ?n" by (simp add: seg)
  have pay: "slice 6 (length seg - 4) seg = slice (?o + 6) (?o + 6 + ?n) img"
    unfolding len by (simp add: seg slice_def take_drop ac_simps)
  have "read16 seg (length seg - 4) = read16 (slice (?o + 6 + ?n) (?o + 6 + ?n + 4) img) 0"
    unfolding len by (simp add: read16_def seg slice_def take_drop ac_simps)
  then show ?thesis unfolding pay using m t len by (simp add: row_true_def segment_integrity_def Let_def)
qed

lemma payload_xor_update:
  assumes "i < length p" "payload_xor (p[i := b]) = payload_xor p"
  shows "p[i := b] = p"
proof -
  have p: "p = take i p @ p ! i # drop (Suc i) p" using assms(1) by (simp add: id_take_nth_drop)
  have "p[i := b] = take i p @ b # drop (Suc i) p" using assms(1) by (simp add: upd_conv_take_nth_drop)
  then have "payload_xor (take i p @ drop (Suc i) p) XOR uint b = payload_xor (take i p @ drop (Suc i) p) XOR uint (p ! i)"
    using assms(2) p by (metis payload_xor_append)
  then have "uint b = uint (p ! i)" by (metis xor.assoc xor.left_neutral xor_self_eq)
  then have "b = p ! i" by (rule word_uint_eqI)
  then show ?thesis by simp
qed

lemma segment_integrity_update:
  assumes "row_true img r" "ig_matches (sg_integrity r)" "row_true (img[sg_offset r + 6 + i := b]) r'"
    and "frame_of r' = frame_of r" "i < sg_bytes r" "b \<noteq> img ! (sg_offset r + 6 + i)"
  shows "\<not> ig_matches (sg_integrity r')"
proof
  assume m': "ig_matches (sg_integrity r')"
  let ?o = "sg_offset r" and ?n = "sg_bytes r" and ?p = "sg_offset r + 6 + i"
  let ?pay = "slice (?o + 6) (?o + 6 + ?n) img" and ?tr = "slice (?o + 6 + ?n) (?o + 6 + ?n + 4) img"
  have le: "?o + 10 + ?n \<le> length img" using assms(1) by (simp add: row_true_def)
  have f: "sg_offset r' = ?o" "sg_bytes r' = ?n" using assms(4) by (simp_all add: frame_of_def)
  have tr: "slice (?o + 6 + ?n) (?o + 6 + ?n + 4) (img[?p := b]) = ?tr" using assms(5) by (intro slice_list_update_outside) simp
  have pay: "slice (?o + 6) (?o + 6 + ?n) (img[?p := b]) = ?pay[i := b]"
    using assms(5) by (simp add: slice_def drop_update_swap take_update_swap)
  have x: "int (read16 ?tr 0) = payload_xor ?pay"
    using assms(1,2) by (simp add: row_true_def segment_integrity_def Let_def)
  have y: "int (read16 ?tr 0) = payload_xor (?pay[i := b])"
    using assms(3) m' unfolding row_true_def f tr pay by (simp add: segment_integrity_def Let_def)
  have i: "i < length ?pay" using assms(5) le by simp
  have "?pay[i := b] = ?pay" by (rule payload_xor_update [OF i trans [OF y [symmetric] x]])
  then have "?pay ! i = b" using i by (metis nth_list_update_eq)
  then show False using assms(5,6) le by (simp add: nth_slice)
qed

text \<open>C24: The receiver checksum protects the payload of every segment that can be extracted: change one
  byte of it, anywhere in the image, to another value, and \<open>extract_segment\<close> raises on the changed image:
  either the reader of the whole container refuses it, with that error, or the segment is refused with the
  error of the checksum.  It never returns a segment.\<close>

theorem single_byte_detected:
  assumes "inventory img = Inr report" "row \<in> set (ct_segments report)"
    and "extract_segment img (Some (sg_marker row)) = Inr seg"
    and "i < sg_bytes row" "b \<noteq> img ! (sg_offset row + 6 + i)"
  shows "extract_segment (img[sg_offset row + 6 + i := b]) (Some (sg_marker row)) =
    (case inventory (img[sg_offset row + 6 + i := b]) of
       Inl e \<Rightarrow> Inl e
     | Inr report' \<Rightarrow> Inl (ValueError ''original segment payload checksum mismatch''))"
proof (cases "inventory (img[sg_offset row + 6 + i := b])")
  case (Inr c)
  let ?o = "sg_offset row" and ?n = "sg_bytes row" and ?p = "sg_offset row + 6 + i"
  obtain r where r: "filter (\<lambda>s. Some (sg_marker s) = Some (sg_marker row)) (ct_segments report) = [r]"
      and m: "ig_matches (sg_integrity r)"
    using assms(1,3) by (auto simp: extract_segment_def select_one_Inr rbind_eq_Inr split: if_splits)
  have "row \<in> set (filter (\<lambda>s. Some (sg_marker s) = Some (sg_marker row)) (ct_segments report))" using assms(2) by simp
  then have row: "r = row" unfolding r by simp
  have t: "row_true img row" using inventory_rows(1) [OF assms(1)] assms(2) by blast
  have "(?o, sg_marker row, ?n) \<in> set (map frame_of (ct_segments report))" using assms(2) by (force simp: frame_of_def)
  then have "framed (img[?p := b]) 0 (map frame_of (ct_segments report))"
    by (rule framed_update [OF inventory_rows(2) [OF assms(1)]]) (use assms(4) in simp_all)
  then have "map frame_of (ct_segments report) = map frame_of (ct_segments c)"
    using framed_unique inventory_rows(2) [OF Inr] by blast
  from filter_frames [OF this r] obtain r' where r':
    "filter (\<lambda>s. Some (sg_marker s) = Some (sg_marker row)) (ct_segments c) = [r']" "frame_of r' = frame_of row"
    unfolding row by blast
  then have "r' \<in> set (ct_segments c)" by (metis filter_is_subset list.set_intros(1) subsetD)
  then have t': "row_true (img[?p := b]) r'" using inventory_rows(1) [OF Inr] by blast
  have "\<not> ig_matches (sg_integrity r')"
    using segment_integrity_update [OF t m [unfolded row] t' r'(2) assms(4,5)] .
  then show ?thesis using Inr r'(1) by (simp add: extract_segment_def select_one_def)
qed (simp add: extract_segment_def)

theorem single_byte_detected_witness:
  "extract_segment (container_wire sample_container) (Some (fmt_x 4 0xaa22)) =
     Inr (segment_wire (0xaa22, [], [(0x29000, [0xf9, 0x82, 0xc8, 0x24]), (0x29001, [0xc9, 0x02])], [0x88, 0x88])) \<and>
   (\<exists>e. extract_segment ((container_wire sample_container)[46 := 0]) (Some (fmt_x 4 0xaa22)) = Inl e)"
proof -
  have e: "extract_segment (container_wire sample_container) (Some (fmt_x 4 0xaa22)) =
     Inr (segment_wire (0xaa22, [], [(0x29000, [0xf9, 0x82, 0xc8, 0x24]), (0x29001, [0xc9, 0x02])], [0x88, 0x88]))"
    by (rule extract_segment_wire [OF sample_container_ok]) (simp add: sample_container_def)
  obtain c where c: "inventory (container_wire sample_container) = Inr c" "rows_at 0 (ct_segments c) sample_container"
    using inventory_container [OF sample_container_ok] by blast
  obtain r1 r2 where rs: "ct_segments c = [r1, r2]" "sg_marker r2 = fmt_x 4 0xaa22" "sg_offset r2 = 34" "6 < sg_bytes r2"
    using c(2) by (auto simp: sample_container_def stream_wire_def section_wire_def elim!: rows_at.elims)
  have "container_wire sample_container ! 46 = 0xf9"
    by (simp add: container_wire_def sample_container_def segment_wire_def segment_payload_def stream_wire_def
        section_wire_def nth_append le_bytes_2)
  then show ?thesis using single_byte_detected [OF c(1), of r2 _ 6 0] e rs
    by (auto split: sum.splits)
qed

section \<open>Program ranges\<close>

lemma section_writes_u16:
  assumes "section_writes p sec = Inr ws"
  shows "\<forall>w \<in> snd ` set ws. u16 w"
proof -
  define x where "x = be_words (slice (row_offset sec + 6) (row_offset sec + 6 + row_words sec * 2) p)"
  have "ws = map (\<lambda>(index, word). (row_address sec + int index, word)) (zip [0..<length x] x)"
    using assms unfolding section_writes_def iter_words_def x_def [symmetric] by (simp add: rmap_def split: if_splits)
  moreover have "\<forall>w \<in> set x. u16 w" unfolding x_def by (intro ballI be_words_u16)
  ultimately show ?thesis by (auto dest!: set_zip_rightD)
qed

definition u16_image :: "word_image \<Rightarrow> bool" where
  "u16_image d \<longleftrightarrow> dict_wf d \<and> (\<forall>a v. map_of d a = Some v \<longrightarrow> u16 v)"

lemma u16_image_set: "u16_image d \<Longrightarrow> u16 w \<Longrightarrow> u16_image (dict_set a w d)"
  by (simp add: u16_image_def)

lemma u16_image_writes: "\<forall>w \<in> snd ` set ws. u16 w \<Longrightarrow> u16_image d \<Longrightarrow>
    u16_image (foldl (\<lambda>d (target, word). dict_set target word d) d ws)"
  by (induction ws arbitrary: d) (auto simp: u16_image_set)

lemma uploaded_wf: "uploaded_word_image img marker = Inr words \<Longrightarrow> u16_image words"
proof -
  have step: "rfold (upload_section p) d secs = Inr d' \<Longrightarrow> u16_image d \<Longrightarrow> u16_image d'" for p d secs d'
  proof (induction secs arbitrary: d)
    case (Cons sec secs)
    obtain d1 where d1: "upload_section p d sec = Inr d1" "rfold (upload_section p) d1 secs = Inr d'"
      using Cons.prems(1) by (auto simp: rbind_eq_Inr)
    obtain ws where ws: "section_writes p sec = Inr ws" "d1 = foldl (\<lambda>d (target, word). dict_set target word d) d ws"
      using d1(1) unfolding upload_section_def rmap_eq_Inr by blast
    have "u16_image d1"
      unfolding ws(2) by (rule u16_image_writes [OF section_writes_u16 [OF ws(1)] Cons.prems(2)])
    then show ?case using Cons.IH d1(2) by blast
  qed simp
  assume "uploaded_word_image img marker = Inr words"
  then obtain p secs where "rfold (upload_section p) [] secs = Inr words"
    unfolding uploaded_word_image_def rbind_eq_Inr Let_def by blast
  from step [OF this] show ?thesis by (simp add: u16_image_def)
qed

end
