(* ===== verification/A00_Ranges.thy ===== *)
theory A00_Ranges
  imports A00_Props
begin

text \<open>
  What the readers of an uploaded image return: the exact words of a program range, the census of
  immediate far calls, and the walk over an embedded C initialization table, which never reads a word
  twice and so ends.  Then the meaning of an upload for any image: what the reader accepts is the wire form of
  sections, and the words are what those sections leave.
\<close>

section \<open>Exporting a range\<close>

lemma in_range_count:
  assumes "dict_wf words" "start < stop"
  shows "int (length (filter (\<lambda>(a, v). start \<le> a \<and> a < stop) words)) = stop - start \<longleftrightarrow>
    (\<forall>a. start \<le> a \<and> a < stop \<longrightarrow> map_of words a \<noteq> None)"
proof -
  let ?f = "filter (\<lambda>(a, v). start \<le> a \<and> a < stop) words"
  have keys: "fst ` set ?f = fst ` set words \<inter> {start..<stop}" by force
  have "map fst ?f = filter (\<lambda>a. start \<le> a \<and> a < stop) (map fst words)"
    by (induction words) auto
  then have "dict_wf ?f" using assms(1) by (simp add: dict_wf_def)
  then have "length ?f = card (fst ` set words \<inter> {start..<stop})" unfolding keys [symmetric] by (rule dict_length)
  moreover have "card (fst ` set words \<inter> {start..<stop}) = card {start..<stop} \<longleftrightarrow> {start..<stop} \<subseteq> fst ` set words"
    by (metis Int_lower2 card_subset_eq finite_atLeastLessThan_int inf.absorb_iff2)
  moreover have "{start..<stop} \<subseteq> fst ` set words \<longleftrightarrow> (\<forall>a. start \<le> a \<and> a < stop \<longrightarrow> map_of words a \<noteq> None)"
    by (force simp: map_of_eq_None_iff)
  ultimately show ?thesis using assms(2) by (auto simp: of_nat_eq_iff)
qed

lemma pack_be16_words:
  assumes "\<forall>w \<in> set ws. u16 w"
  shows "\<exists>bs. pack_be16 ws = Inr bs \<and> length bs = 2 * length ws \<and> be_words bs = ws"
proof -
  obtain bs where "length bs = 2 * length ws" "be_words bs = ws" using words_as_bytes [OF assms] by blast
  then show ?thesis using pack_be_words [of bs] by auto
qed

lemma packed_range_exact:
  assumes cs: "length cs = 2 * nat (stop - start)" "be_words cs = vs" and r: "start < stop"
    and get: "\<And>i. int i < stop - start \<Longrightarrow> map_of words (start + int i) = Some (vs ! i)"
  shows "bs = cs \<longleftrightarrow> int (length bs) = 2 * (stop - start)
    \<and> (\<forall>i. int i < stop - start \<longrightarrow> map_of words (start + int i) = Some (be_words bs ! i))"
proof
  assume h: "int (length bs) = 2 * (stop - start)
    \<and> (\<forall>i. int i < stop - start \<longrightarrow> map_of words (start + int i) = Some (be_words bs ! i))"
  then have "int (length bs) = int (length cs)" using cs(1) r by simp
  then have l: "length bs = length cs" by simp
  have "be_words bs = be_words cs"
  proof (rule nth_equalityI)
    fix i assume "i < length (be_words bs)"
    then have "int (2 * i) < int (length bs)" by simp
    then have "int i < stop - start" using h by simp
    then show "be_words bs ! i = be_words cs ! i" unfolding cs(2) using h get by fastforce
  qed (simp add: l)
  then show "bs = cs" using be_words_inj [of bs cs] l cs(1) by simp
qed (use cs r get in auto)

lemma range_values:
  assumes "\<forall>a. start \<le> a \<and> a < stop \<longrightarrow> map_of words a \<noteq> None" and "\<forall>a v. map_of words a = Some v \<longrightarrow> u16 v"
  obtains cs where "pack_be16 (map (\<lambda>a. the (map_of (filter (\<lambda>(a, v). start \<le> a \<and> a < stop) words) a)) [start..stop - 1]) = Inr cs"
    "length cs = 2 * nat (stop - start)"
    "\<And>i. int i < stop - start \<Longrightarrow> map_of words (start + int i) = Some (be_words cs ! i)"
proof -
  let ?vs = "map (\<lambda>a. the (map_of (filter (\<lambda>(a, v). start \<le> a \<and> a < stop) words) a)) [start..stop - 1]"
  have fm: "map_of (filter (\<lambda>(a, v). start \<le> a \<and> a < stop) words) a = map_of words a" if "start \<le> a" "a < stop" for a
    using that by (induction words) auto
  have vs: "?vs ! i = the (map_of words (start + int i))" if "int i < stop - start" for i
    using that by (subst nth_map) (simp_all add: fm nth_upto)
  have "\<forall>w \<in> set ?vs. u16 w" using assms by (fastforce simp: fm)
  then obtain cs where cs: "pack_be16 ?vs = Inr cs" "length cs = 2 * length ?vs" "be_words cs = ?vs"
    using pack_be16_words by blast
  have "map_of words (start + int i) = Some (be_words cs ! i)" if "int i < stop - start" for i
    unfolding cs(3) vs [OF that] using that assms(1) by auto
  then show thesis using that cs by simp
qed

text \<open>C26: Exporting a program range succeeds exactly when every address of the range
  was uploaded, and then the exported bytes are the uploaded words in address order; a range that is
  empty, low, too high or has a hole is an error.\<close>

theorem program_range_exact:
  assumes "uploaded_word_image img marker = Inr words"
  shows "extract_program_range img start stop marker False = Inr bs \<longleftrightarrow>
    0x10000 \<le> start \<and> start < stop \<and> stop \<le> 0x800000 \<and> int (length bs) = 2 * (stop - start)
    \<and> (\<forall>i. int i < stop - start \<longrightarrow> map_of words (start + int i) = Some (be_words bs ! i))"
proof (cases "0x10000 \<le> start \<and> start < stop \<and> stop \<le> 0x800000")
  case True
  have wf: "dict_wf words" "\<forall>a v. map_of words a = Some v \<longrightarrow> u16 v"
    using uploaded_wf [OF assms] by (auto simp: u16_image_def)
  let ?in = "filter (\<lambda>(a, v). start \<le> a \<and> a < stop) words"
  define full where "full \<longleftrightarrow> (\<forall>a. start \<le> a \<and> a < stop \<longrightarrow> map_of words a \<noteq> None)"
  have "int (length ?in) = stop - start \<longleftrightarrow> full"
    using True in_range_count [OF wf(1), of start stop] unfolding full_def by blast
  then have e: "extract_program_range img start stop marker False =
      (if full then pack_be16 (map (\<lambda>a. the (map_of ?in a)) [start..stop - 1]) else Inl (ValueError ''program range contains missing words''))"
    using True assms by (simp add: extract_program_range_def range_check_def Let_def)
  show ?thesis
  proof (cases full)
    case True
    obtain cs where "pack_be16 (map (\<lambda>a. the (map_of ?in a)) [start..stop - 1]) = Inr cs" "length cs = 2 * nat (stop - start)"
      "\<And>i. int i < stop - start \<Longrightarrow> map_of words (start + int i) = Some (be_words cs ! i)"
      using range_values [OF _ wf(2)] True unfolding full_def by blast
    then show ?thesis
      using e True \<open>0x10000 \<le> start \<and> _\<close> packed_range_exact [of cs stop start "be_words cs" words bs] by auto
  next
    case False
    then obtain a where a: "start \<le> a" "a < stop" "map_of words a = None" by (auto simp: full_def)
    then have "start + int (nat (a - start)) = a" "int (nat (a - start)) < stop - start" by auto
    then have "\<not> (\<forall>i. int i < stop - start \<longrightarrow> map_of words (start + int i) = Some (be_words bs ! i))"
      using a(3) by (metis option.distinct(1))
    then show ?thesis using e False by auto
  qed
qed (auto simp: extract_program_range_def range_check_def)

section \<open>The call census\<close>

text \<open>The addresses of the range that hold the first word of an immediate far call.\<close>

definition call_sites :: "word_image \<Rightarrow> int \<Rightarrow> int \<Rightarrow> int set" where
  "call_sites words start stop = {a. start \<le> a \<and> a < stop \<and> (\<exists>v. map_of words a = Some v \<and> is_fcall v)}"

definition census_ok :: "word_image \<Rightarrow> int \<Rightarrow> int list \<Rightarrow> call_census \<Rightarrow> bool" where
  "census_ok words stop done_sites c \<longleftrightarrow>
     length (cc_candidates c) + cc_missing c + cc_page_end c = length (filter (\<lambda>a. is_fcall (the (map_of words a))) done_sites)
     \<and> map fst (cc_candidates c) = filter (\<lambda>a. is_fcall (the (map_of words a)) \<and> a AND 0xffff \<noteq> 0xffff
          \<and> map_of words (a + 1) \<noteq> None \<and> a + 1 < stop) done_sites"

lemma census_step_ok:
  assumes "census_ok words stop sites c"
  shows "census_ok words stop (sites @ [a]) (census_step words stop c a)"
  using assms by (auto simp: census_ok_def census_step_def Let_def split: option.splits)

lemma census_fold_ok:
  "census_ok words stop sites c \<Longrightarrow> census_ok words stop (sites @ as) (foldl (census_step words stop) c as)"
proof (induction as arbitrary: sites c)
  case (Cons a as)
  from Cons.IH [OF census_step_ok [OF Cons.prems, of a]] show ?case by simp
qed simp

lemma in_range_keys:
  assumes "dict_wf words"
  shows "distinct (sort (in_range start stop words))" and "set (sort (in_range start stop words)) = {a. start \<le> a \<and> a < stop \<and> map_of words a \<noteq> None}"
  using assms by (auto simp: in_range_def dict_wf_def map_of_eq_None_iff)

text \<open>The census accounts for every immediate far-call opcode of the range once:
  the candidates, the opcodes at the end of a page and those without an operand word add up to the
  opcodes in the range.\<close>

theorem call_census_partition:
  assumes "uploaded_word_image img marker = Inr words" "program_call_census img start stop marker = Inr c"
  shows "length (cc_candidates c) + cc_missing c + cc_page_end c = card (call_sites words start stop)"
proof -
  have wf: "dict_wf words" using uploaded_wf [OF assms(1)] by (simp add: u16_image_def)
  let ?keys = "sort (in_range start stop words)"
  obtain c0 where c0: "c = foldl (census_step words stop) c0 ?keys" "cc_candidates c0 = []" "cc_missing c0 = 0" "cc_page_end c0 = 0"
    using assms by (auto simp: program_call_census_def rbind_eq_Inr)
  have "census_ok words stop [] c0" by (simp add: census_ok_def c0)
  from census_fold_ok [OF this, of ?keys]
  have "length (cc_candidates c) + cc_missing c + cc_page_end c = length (filter (\<lambda>a. is_fcall (the (map_of words a))) ?keys)"
    by (simp add: census_ok_def c0(1))
  also have "\<dots> = card (set (filter (\<lambda>a. is_fcall (the (map_of words a))) ?keys))"
    using in_range_keys(1) [OF wf] by (metis distinct_card distinct_filter)
  also have "set (filter (\<lambda>a. is_fcall (the (map_of words a))) ?keys) = call_sites words start stop"
    using in_range_keys(2) [OF wf] by (auto simp: call_sites_def)
  finally show ?thesis .
qed

theorem call_census_partition_witness:
  "\<exists>c words. program_call_census (container_wire sample_container) 0x29000 0x29004 (fmt_x 4 0xaa22) = Inr c
     \<and> length (cc_candidates c) + cc_missing c + cc_page_end c = card (call_sites words 0x29000 0x29004)"
proof -
  have u: "uploaded_word_image (container_wire sample_container) (fmt_x 4 0xaa22)
      = Inr (upload_all [] [(0x29000, [0xf9, 0x82, 0xc8, 0x24]), (0x29001, [0xc9, 0x02])])"
    by (rule upload_segment [OF sample_container_ok]) (simp add: sample_container_def)
  then obtain c where "program_call_census (container_wire sample_container) 0x29000 0x29004 (fmt_x 4 0xaa22) = Inr c"
    by (simp add: program_call_census_def range_check_def)
  with call_census_partition [OF u this] show ?thesis by blast
qed

theorem destination_accounting_witness:
  "\<exists>r. section_inventory (stream_wire [(0x29000, [0xf9, 0x82])]) 0 = Inr r \<and>
     dr_write (st_destinations r) = dr_unique (st_destinations r) + dr_same (st_destinations r) + dr_changed (st_destinations r)"
proof -
  obtain r where "section_inventory (stream_wire [(0x29000, [0xf9, 0x82])]) 0 = Inr r"
    using section_inventory_stream [of "[(0x29000, [0xf9, 0x82])]" "[]" "stream_wire [(0x29000, [0xf9, 0x82])]"]
    by (auto simp: section_ok_def)
  with destination_accounting [OF this] show ?thesis by blast
qed

section \<open>Embedded C initialization tables\<close>

lemma read_run_keys:
  "read_run words cursor n = Inr run \<Longrightarrow> length run = n \<and> (\<forall>i < n. cursor + int i \<in> fst ` set words)"
proof -
  assume r: "read_run words cursor n = Inr run"
  have "rmap_list (\<lambda>i. case map_of words (cursor + int i) of
      None \<Rightarrow> Inl (ValueError ''C initialization table contains missing words'') | Some v \<Rightarrow> Inr v) is = Inr run
      \<Longrightarrow> \<forall>i \<in> set is. cursor + int i \<in> fst ` set words" for "is" run
  proof (induction "is" arbitrary: run)
    case (Cons i "is")
    obtain v where v: "map_of words (cursor + int i) = Some v"
      using Cons.prems by (cases "map_of words (cursor + int i)") simp_all
    then have "cursor + int i \<in> fst ` set words" by (force dest: map_of_SomeD)
    then show ?case using Cons.IH Cons.prems v by (auto simp: rbind_eq_Inr)
  qed simp
  from this [OF r [unfolded read_run_def]] show ?thesis
    using rmap_list_length [OF r [unfolded read_run_def]] by auto
qed

lemma cinit_table_keys:
  assumes "cinit_table words cursor table = Inr (table', cursor')"
  shows "cursor \<le> cursor' \<and> int (length table') = int (length table) + (cursor' - cursor) \<and> {cursor..<cursor'} \<subseteq> fst ` set words"
  using assms
proof (induction words cursor table rule: cinit_table.induct)
  case (1 words cursor table)
  obtain count where c1: "map_of words cursor = Some count"
    using "1.prems" by (cases "map_of words cursor") (simp_all add: cinit_table.simps [of words cursor])
  obtain run where c2: "read_run words cursor (run_length count) = Inr run"
    using "1.prems" by (cases "read_run words cursor (run_length count)") (simp_all add: cinit_table.simps [of words cursor] c1)
  note c = c1 c2
  have step: "cinit_table words cursor table =
      (if count = 0 then Inr (table @ run, cursor + int (run_length count))
       else cinit_table words (cursor + int (run_length count)) (table @ run))"
    by (subst cinit_table.simps) (simp add: c Let_def)
  have run: "length run = run_length count" "{cursor..<cursor + int (run_length count)} \<subseteq> fst ` set words"
  proof -
    show "length run = run_length count" using read_run_keys [OF c(2)] by simp
    show "{cursor..<cursor + int (run_length count)} \<subseteq> fst ` set words"
    proof
      fix a assume "a \<in> {cursor..<cursor + int (run_length count)}"
      then have "nat (a - cursor) < run_length count" "cursor + int (nat (a - cursor)) = a" by auto
      then show "a \<in> fst ` set words" using read_run_keys [OF c(2)] by metis
    qed
  qed
  show ?case
  proof (cases "count = 0")
    case True
    then have "table' = table @ run" "cursor' = cursor + int (run_length count)" using "1.prems" unfolding step by simp_all
    then show ?thesis using run by auto
  next
    case False
    then have "cinit_table words (cursor + int (run_length count)) (table @ run) = Inr (table', cursor')"
      using "1.prems" unfolding step by simp
    from "1.IH" [OF c refl refl False this]
    have next_part: "cursor + int (run_length count) \<le> cursor'"
        "int (length table') = int (length (table @ run)) + (cursor' - (cursor + int (run_length count)))"
        "{cursor + int (run_length count)..<cursor'} \<subseteq> fst ` set words" by auto
    have "{cursor..<cursor'} = {cursor..<cursor + int (run_length count)} \<union> {cursor + int (run_length count)..<cursor'}"
      using next_part(1) by auto
    then show ?thesis using run next_part by auto
  qed
qed


definition sample_table :: word_image where
  "sample_table = [(0x28000, 1), (0x28001, 0x374d), (0x28002, 11), (0x28003, 0)]"


theorem program_range_exact_witness:
  "extract_program_range (container_wire sample_container) 0x29000 0x29003 (fmt_x 4 0xaa22) False
     = Inr [0xf9, 0x82, 0xc9, 0x02, 0, 0]
   \<longleftrightarrow> 0x10000 \<le> (0x29000 :: int) \<and> 0x29000 < (0x29003 :: int) \<and> 0x29003 \<le> (0x800000 :: int) \<and> int (length [0xf9, 0x82, 0xc9, 0x02, 0, 0 :: byte]) = 2 * (0x29003 - 0x29000)
     \<and> (\<forall>i. int i < 0x29003 - 0x29000 \<longrightarrow>
          map_of (upload_all [] [(0x29000, [0xf9, 0x82, 0xc8, 0x24]), (0x29001, [0xc9, 0x02])]) (0x29000 + int i)
          = Some (be_words [0xf9, 0x82, 0xc9, 0x02, 0, 0] ! i))"
  by (rule program_range_exact, rule upload_segment [OF sample_container_ok]) (simp add: sample_container_def)

section \<open>What an upload means\<close>

text \<open>Reading backwards: every stream the reader accepts is the wire form of sections, so an upload that
  succeeds can be stated over the sections that the payload spells out.\<close>

lemma drop_be2:
  assumes "n + 2 \<le> length img"
  shows "drop n img = be2 (int (read16 img n)) @ drop (n + 2) img"
proof -
  let ?bs = "slice n (n + 2) img"
  have len: "length (rev ?bs) = 2" using assms by simp
  have "int (read16 img n) = from_le (rev ?bs)"
    using from_be_bound [of ?bs] from_be_rev [of "rev ?bs"] by (simp add: read16_def)
  then have "be2 (int (read16 img n)) = ?bs" using le_bytes_from_le [of "rev ?bs"] len by simp
  then show ?thesis using append_take_drop_id [of 2 "drop n img"] by (simp add: slice_def add.commute)
qed

lemma joined_halves:
  assumes "0 \<le> y" "y < (0x10000 :: int)"
  shows "drop_bit 16 (push_bit 16 x OR y) = x" "take_bit 16 (push_bit 16 x OR y) = y"
proof -
  have y: "take_bit 16 y = y" using assms by (simp add: take_bit_int_eq_self)
  have "drop_bit 16 y = 0" using assms by (simp add: drop_bit_eq_div)
  moreover have "drop_bit 16 (push_bit 16 x) = x" by (simp add: drop_bit_eq_div push_bit_eq_mult)
  ultimately show "drop_bit 16 (push_bit 16 x OR y) = x" by (simp add: drop_bit_or)
  show "take_bit 16 (push_bit 16 x OR y) = y" by (simp add: take_bit_or take_bit_push_bit y)
qed

lemma read16_bound: "read16 img n < 0x10000"
proof -
  have "from_be (slice n (n + 2) img) < 256 ^ length (slice n (n + 2) img)" using from_be_bound by blast
  also have "\<dots> \<le> 256 ^ 2" by (rule power_increasing) simp_all
  finally show ?thesis by (simp add: read16_def)
qed

definition stream_section :: "int \<times> bytes \<Rightarrow> bool" where
  "stream_section = (\<lambda>(a, p). p \<noteq> [] \<and> even (length p) \<and> length p div 2 \<le> 0xffff \<and> 0 \<le> a)"

lemma section_at:
  fixes img n
  defines "c \<equiv> read16 img n"
  defines "s \<equiv> (row_address (section_row_of img n c), slice (n + 6) (n + 6 + c * 2) img)"
  assumes "c \<noteq> 0" "n + 6 + c * 2 \<le> length img"
  shows "drop n img = section_wire s @ drop (n + 6 + c * 2) img" "stream_section s"
    "placed n [s] = [section_row_of img n c]" "length (snd s) = c * 2"
proof -
  let ?x = "int (read16 img (n + 2))" and ?y = "int (read16 img (n + 4))"
  show len: "length (snd s) = c * 2" using assms(4) by (simp add: s_def)
  have a: "fst s = push_bit 16 ?x OR ?y" by (simp add: s_def section_row_of_def)
  have y: "0 \<le> ?y" "?y < 0x10000" using read16_bound [of img "n + 4"] by simp_all
  have wire: "section_wire s = be2 (int c) @ be2 ?x @ be2 ?y @ slice (n + 6) (n + 6 + c * 2) img"
    using len a joined_halves [OF y, of ?x] by (simp add: section_wire_def split_beta) (simp add: s_def)
  have "drop n img = be2 (int c) @ drop (n + 2) img" unfolding c_def by (rule drop_be2) (use assms(4) in simp)
  also have "drop (n + 2) img = be2 ?x @ drop (n + 4) img"
    using drop_be2 [of "n + 2" img] assms(4) by (simp add: numeral_eq_Suc)
  also have "drop (n + 4) img = be2 ?y @ drop (n + 6) img"
    using drop_be2 [of "n + 4" img] assms(4) by (simp add: numeral_eq_Suc)
  also have "drop (n + 6) img = slice (n + 6) (n + 6 + c * 2) img @ drop (n + 6 + c * 2) img"
    using append_take_drop_id [of "c * 2" "drop (n + 6) img"] by (simp add: slice_def ac_simps)
  finally show "drop n img = section_wire s @ drop (n + 6 + c * 2) img" unfolding wire append_assoc .
  have "c < 0x10000" unfolding c_def by (rule read16_bound)
  moreover have "0 \<le> fst s" unfolding a by (simp add: or_nonnegative_int_iff)
  ultimately show "stream_section s" using len assms(3) by (auto simp: stream_section_def split_beta)
  show "placed n [s] = [section_row_of img n c]"
    using len a by (cases s) (simp add: section_row_of_def s_def)
qed

lemma section_loop_wire:
  assumes "section_loop img n rows = Inr (rs, k)"
  shows "\<exists>secs. rs = rows @ placed n secs \<and> drop n img = stream_wire secs \<and> (\<forall>s \<in> set secs. stream_section s) \<and> n + 2 \<le> length img"
  using assms
proof (induction img n rows rule: section_loop.induct)
  case (1 img n rows)
  let ?c = "read16 img n"
  have in_bounds: "n + 2 \<le> length img" using "1.prems"(1) by (auto simp: section_loop.simps [of img n] split: if_splits)
  show ?case
  proof (cases "?c = 0")
    case True
    have "be2 0 = [0, 0]" by (simp add: numeral_2_eq_2)
    moreover have "rs = rows" "length img = n + 2"
      using "1.prems" True in_bounds by (auto simp: section_loop.simps [of img n] split: if_splits)
    ultimately show ?thesis using drop_be2 [OF in_bounds] True
      by (intro exI [of _ "[]"]) (simp add: stream_wire_def)
  next
    case False
    have unfolded: "section_loop img n rows =
      (if n + 2 + 4 + ?c * 2 > length img then Inl (ValueError ''serial boot section exceeds input'')
       else if read16 img (n + 2) > 0x7f then Inl (ValueError ''section XPC exceeds seven bits'')
       else section_loop img (n + 6 + ?c * 2) (rows @ [section_row_of img n ?c]))"
      by (subst section_loop.simps) (simp only: in_bounds False Let_def if_True if_False)
    have ok: "\<not> n + 2 + 4 + ?c * 2 > length img" "\<not> read16 img (n + 2) > 0x7f"
      and next_loop: "section_loop img (n + 6 + ?c * 2) (rows @ [section_row_of img n ?c]) = Inr (rs, k)"
      using "1.prems"(1) unfolding unfolded by (simp_all split: if_splits del: add_2_eq_Suc')
    have inside: "n + 6 + ?c * 2 \<le> length img" using ok(1) by simp
    note sec = section_at [OF False inside]
    define s where "s = (row_address (section_row_of img n ?c), slice (n + 6) (n + 6 + ?c * 2) img)"
    from "1.IH" [OF in_bounds refl False ok next_loop] obtain secs where secs:
      "rs = (rows @ [section_row_of img n ?c]) @ placed (n + 6 + ?c * 2) secs"
      "drop (n + 6 + ?c * 2) img = stream_wire secs" "\<forall>s \<in> set secs. stream_section s" by blast
    have "placed n (s # secs) = [section_row_of img n ?c] @ placed (n + 6 + ?c * 2) secs"
      using sec(3,4) unfolding s_def [symmetric] by (cases s) simp
    moreover have "drop n img = stream_wire (s # secs)"
      using sec(1) secs(2) unfolding s_def [symmetric] by (simp add: stream_wire_def)
    ultimately show ?thesis using sec(2) secs in_bounds unfolding s_def [symmetric]
      by (intro exI [of _ "s # secs"]) simp
  qed
qed

lemma destinations_in_space:
  assumes "destination_inventory img secs = Inr d"
  shows "\<forall>r \<in> set secs. row_address r + int (row_words r) \<le> 0x800000"
proof -
  have "rfold (place_section img) st secs = Inr st' \<Longrightarrow> \<forall>r \<in> set secs. row_address r + int (row_words r) \<le> 0x800000"
    for st st'
    by (induction secs arbitrary: st) (auto simp: rbind_eq_Inr place_section_def Let_def split: if_splits)
  then show ?thesis using assms by (auto simp: destination_inventory_def rmap_eq_Inr)
qed

lemma placed_rows: "(a, p) \<in> set secs \<Longrightarrow> \<exists>r \<in> set (placed n secs). row_address r = a \<and> row_words r = length p div 2"
  by (induction n secs rule: placed.induct) auto

lemma section_inventory_wire:
  assumes "section_inventory img n = Inr r"
  obtains secs where "st_sections r = placed n secs" "drop n img = stream_wire secs" "\<forall>s \<in> set secs. section_ok s" "n \<le> length img"
proof -
  obtain rs k d where l: "section_loop img n [] = Inr (rs, k)" "destination_inventory img rs = Inr d" "st_sections r = rs"
    using assms by (auto simp: section_inventory_def rbind_eq_Inr rmap_eq_Inr split: if_splits)
  obtain secs where secs: "rs = placed n secs" "drop n img = stream_wire secs" "\<forall>s \<in> set secs. stream_section s" "n + 2 \<le> length img"
    using section_loop_wire [OF l(1)] by auto
  have "section_ok (a, p)" if "(a, p) \<in> set secs" for a p
    using placed_rows [OF that, of n] destinations_in_space [OF l(2)] secs(1,3) that
    by (auto simp: section_ok_def stream_section_def)
  then show thesis using that secs l(3) by (metis add_leE surj_pair)
qed

lemma uploaded_sections:
  assumes "uploaded_word_image img marker = Inr words"
  obtains seg header secs where "extract_segment img (Some marker) = Inr seg"
    "slice 6 (length seg - 4) seg = header @ stream_wire secs" "length header = (if marker = ''aa55'' then 14 else 0)"
    "\<forall>s \<in> set secs. section_ok s" "map_of words = word_owner secs"
proof -
  obtain seg report where seg: "extract_segment img (Some marker) = Inr seg"
    and rep: "(if marker = ''aa55'' then rmap stream_report.truncate (serial_boot_inventory (slice 6 (length seg - 4) seg))
        else section_inventory (slice 6 (length seg - 4) seg) 0) = Inr report"
    and up: "rfold (upload_section (slice 6 (length seg - 4) seg)) [] (st_sections report) = Inr words"
    using assms unfolding uploaded_word_image_def rbind_eq_Inr Let_def by blast
  define p where "p = slice 6 (length seg - 4) seg"
  define n where "n = (if marker = ''aa55'' then 14 else 0 :: nat)"
  obtain r where r: "section_inventory p n = Inr r" "st_sections report = st_sections r"
  proof (cases "marker = ''aa55''")
    case True
    then obtain b where b: "serial_boot_inventory p = Inr b" "report = stream_report.truncate b"
      using rep by (auto simp: p_def [symmetric] rmap_eq_Inr)
    then obtain r where "section_inventory p 14 = Inr r" "st_sections b = st_sections r"
      by (auto simp: serial_boot_inventory_def rmap_eq_Inr Let_def stream_report.defs split: if_splits)
    then show thesis using that b True by (simp add: n_def stream_report.defs)
  next
    case False
    then show thesis using that rep by (simp add: n_def p_def)
  qed
  obtain secs where secs: "st_sections r = placed n secs" "drop n p = stream_wire secs" "\<forall>s \<in> set secs. section_ok s" "n \<le> length p"
    by (rule section_inventory_wire [OF r(1)])
  have "rfold (upload_section p) [] (placed n secs) = Inr (upload_all [] secs)"
    using upload_placed [OF secs(3), of n p "[0, 0]"] secs(2) by (simp add: stream_wire_def)
  then have words: "words = upload_all [] secs" using up r(2) secs(1) by (simp add: p_def)
  have "map_of words = word_owner secs"
    unfolding words using upload_all_owner [of "[]" secs] by (auto split: option.splits)
  moreover have "p = take n p @ stream_wire secs" using secs(2) by (metis append_take_drop_id)
  ultimately show thesis using that [OF seg, of "take n p" secs] secs(3,4) by (simp add: p_def [symmetric] n_def)
qed

lemma word_owner_address:
  assumes "word_owner secs x = Some w" "\<forall>s \<in> set secs. section_ok s"
  shows "0 \<le> x \<and> x < 0x800000"
  using assms by (induction secs) (auto simp: section_ok_def split: option.splits if_splits)

text \<open>C40: Whatever the container and the marker, an upload that returns words returns the memory that the
  segment spells out: the segment under that marker was extracted, its stored checksum is the exclusive or of
  its payload, the payload is the wire form of a list of well-formed sections (after the 14 bytes of the
  table in the boot segment), every address holds the word of the last section that covers it and no
  other address is mapped; the addresses are distinct and 23 bits wide, the words 16 bits.\<close>

theorem uploaded_words_typed:
  "case uploaded_word_image img marker of
     Inl e \<Rightarrow> True
   | Inr words \<Rightarrow>
       distinct (map fst words) \<and> list_all (\<lambda>(a, w). 0 \<le> a \<and> a < 0x800000 \<and> u16 w) words \<and>
       (\<exists>seg header secs. extract_segment img (Some marker) = Inr seg
          \<and> slice 6 (length seg - 4) seg = header @ stream_wire secs
          \<and> length header = (if marker = ''aa55'' then 14 else 0) \<and> list_all section_ok secs
          \<and> int (read16 seg (length seg - 4)) = payload_xor (header @ stream_wire secs)
          \<and> map_of words = word_owner secs)"
proof (cases "uploaded_word_image img marker")
  case (Inr words)
  obtain seg header secs where up: "extract_segment img (Some marker) = Inr seg"
    "slice 6 (length seg - 4) seg = header @ stream_wire secs" "length header = (if marker = ''aa55'' then 14 else 0)"
    "\<forall>s \<in> set secs. section_ok s" "map_of words = word_owner secs"
    using uploaded_sections [OF Inr] by blast
  have wf: "distinct (map fst words)" "\<And>a v. map_of words a = Some v \<Longrightarrow> u16 v"
    using uploaded_wf [OF Inr] by (auto simp: u16_image_def dict_wf_def)
  have "0 \<le> a \<and> a < 0x800000 \<and> u16 v" if "(a, v) \<in> set words" for a v
    using map_of_is_SomeI [OF wf(1) that] wf(2) word_owner_address [OF _ up(4)] up(5) by auto
  then have "list_all (\<lambda>(a, w). 0 \<le> a \<and> a < 0x800000 \<and> u16 w) words" by (auto simp: list_all_iff)
  moreover have "int (read16 seg (length seg - 4)) = payload_xor (header @ stream_wire secs)"
    using extract_segment_checksum [OF up(1)] up(2) by simp
  moreover have "list_all section_ok secs" using up(4) by (simp add: list_all_iff)
  ultimately show ?thesis using Inr wf(1) up(1-3,5) by (simp only: sum.case) blast
qed simp

end
