(* ===== verification/Mu4_Image.thy ===== *)
theory Mu4_Image
  imports A00_Ranges Py_Json
begin

text \<open>
  What the checks of \<open>tools/mu4_context_contract.py\<close> share.  An uploaded image is the dictionary from
  program word addresses to words that \<^const>\<open>uploaded_word_image\<close> returns; a check pins spans of words
  (a base address and the words from there), takes a census of the addresses that hold a literal or of
  the immediate calls of a target, and returns a report, a JSON value, or raises \<open>ValueError\<close>.
\<close>

type_synonym span = "int \<times> int list"

section \<open>Pinned spans\<close>

text \<open>\<open>any(words.get(base + offset) != word for offset, word in enumerate(witness))\<close> negated.\<close>

fun holds :: "word_image \<Rightarrow> int \<Rightarrow> int list \<Rightarrow> bool" where
  "holds words a [] \<longleftrightarrow> True"
| "holds words a (w # ws) \<longleftrightarrow> map_of words a = Some w \<and> holds words (a + 1) ws"

text \<open>The first address at which the image differs from the span.\<close>

fun mismatch :: "word_image \<Rightarrow> int \<Rightarrow> int list \<Rightarrow> int option" where
  "mismatch words a [] = None"
| "mismatch words a (w # ws) = (if map_of words a = Some w then mismatch words (a + 1) ws else Some a)"

definition all_hold :: "word_image \<Rightarrow> span list \<Rightarrow> bool" where
  "all_hold words spans \<longleftrightarrow> list_all (\<lambda>(base, ws). holds words base ws) spans"

definition pin_words :: "span list \<Rightarrow> int" where
  "pin_words spans = int (sum_list (map (\<lambda>(base, ws). length ws) spans))"

text \<open>The three ways the checks report a difference: with a fixed message, with the address of the first
  different word, and with the base of the first different span.\<close>

definition need :: "word_image \<Rightarrow> span list \<Rightarrow> string \<Rightarrow> unit res" where
  "need words spans msg = (if all_hold words spans then Inr () else Inl (ValueError msg))"

fun need_at :: "word_image \<Rightarrow> span list \<Rightarrow> string \<Rightarrow> unit res" where
  "need_at words [] msg = Inr ()"
| "need_at words ((base, ws) # spans) msg =
     (case mismatch words base ws of
        Some a \<Rightarrow> Inl (ValueError (msg @ fmt_x 6 a))
      | None \<Rightarrow> need_at words spans msg)"

fun need_base :: "word_image \<Rightarrow> span list \<Rightarrow> string \<Rightarrow> unit res" where
  "need_base words [] msg = Inr ()"
| "need_base words ((base, ws) # spans) msg =
     (if holds words base ws then need_base words spans msg else Inl (ValueError (msg @ fmt_x 6 base)))"

definition ensure :: "unit res \<Rightarrow> 'a res \<Rightarrow> 'a res" where
  "ensure check rest = rbind check (\<lambda>_. rest)"

definition demand :: "bool \<Rightarrow> string \<Rightarrow> unit res" where
  "demand ok msg = (if ok then Inr () else Inl (ValueError msg))"

section \<open>Censuses\<close>

text \<open>\<open>sorted(address for address, value in words.items() if value == literal)\<close> and the addresses of
  immediate calls with the target as their second word.\<close>

definition hits :: "int \<Rightarrow> word_image \<Rightarrow> int list" where
  "hits literal words = sort (map fst (filter (\<lambda>(a, v). v = literal) words))"

definition call_hits :: "int list \<Rightarrow> int \<Rightarrow> word_image \<Rightarrow> int list" where
  "call_hits opcodes target words =
     sort (map fst (filter (\<lambda>(a, v). v \<in> set opcodes \<and> map_of words (a + 1) = Some target) words))"

definition hex6 :: "int list \<Rightarrow> json" where
  "hex6 addresses = JList (map (\<lambda>a. JStr (fmt_x 6 a)) addresses)"

definition j_int :: "int \<Rightarrow> json" where "j_int n = JInt n"

definition word_count :: "word_image \<Rightarrow> int" where
  "word_count words = int (length words)"

text \<open>\<open>report[key]\<close> of an integer entry.\<close>

definition report_int :: "string \<Rightarrow> json \<Rightarrow> int" where
  "report_int key report = (case report of
     JObj entries \<Rightarrow> (case map_of entries key of Some (JInt n) \<Rightarrow> n | _ \<Rightarrow> 0)
   | _ \<Rightarrow> 0)"

definition report_get :: "string \<Rightarrow> json \<Rightarrow> json" where
  "report_get key report = (case report of
     JObj entries \<Rightarrow> (case map_of entries key of Some v \<Rightarrow> v | None \<Rightarrow> JNull)
   | _ \<Rightarrow> JNull)"

text \<open>\<open>Counter(...)\<close>: how often each value occurs, in the order of first occurrence.\<close>

definition counter :: "'a list \<Rightarrow> ('a \<times> nat) list" where
  "counter xs = map (\<lambda>x. (x, count_list xs x)) (rev (remdups (rev xs)))"

definition j_counts :: "(string \<times> nat) list \<Rightarrow> (string \<times> json) list" where
  "j_counts counts = map (\<lambda>(key, n). (key, JInt (int n))) counts"

definition range65536 :: "int list" where
  "range65536 = map int [0..<65536]"

section \<open>Facts\<close>

lemma mismatch_None: "mismatch words a ws = None \<longleftrightarrow> holds words a ws"
  by (induction words a ws rule: holds.induct) auto

lemma holds_iff: "holds words a ws \<longleftrightarrow> (\<forall>i < length ws. map_of words (a + int i) = Some (ws ! i))"
proof (induction words a ws rule: holds.induct)
  case (2 words a w ws)
  have "(\<forall>i < length (w # ws). map_of words (a + int i) = Some ((w # ws) ! i))
    \<longleftrightarrow> map_of words a = Some w \<and> (\<forall>i < length ws. map_of words (a + 1 + int i) = Some (ws ! i))"
    by (auto simp: less_Suc_eq_0_disj nth_Cons' add.assoc)
  then show ?case using 2 by simp
qed simp

lemma holds_append: "holds words a (xs @ ys) \<longleftrightarrow> holds words a xs \<and> holds words (a + int (length xs)) ys"
  by (induction xs arbitrary: a) (auto simp: add.assoc)

lemma all_hold_simps [simp]:
  "all_hold words [] \<longleftrightarrow> True"
  "all_hold words ((base, ws) # spans) \<longleftrightarrow> holds words base ws \<and> all_hold words spans"
  "all_hold words (xs @ ys) \<longleftrightarrow> all_hold words xs \<and> all_hold words ys"
  by (simp_all add: all_hold_def)

lemma need_Inr [simp]: "need words spans msg = Inr u \<longleftrightarrow> all_hold words spans"
  by (simp add: need_def)

lemma need_at_Inr [simp]: "need_at words spans msg = Inr u \<longleftrightarrow> all_hold words spans"
  by (induction words spans msg rule: need_at.induct) (auto simp: mismatch_None [symmetric] split: option.splits)

lemma need_base_Inr [simp]: "need_base words spans msg = Inr u \<longleftrightarrow> all_hold words spans"
  by (induction words spans msg rule: need_base.induct) auto

lemma ensure_Inr [simp]: "ensure check rest = Inr r \<longleftrightarrow> check = Inr () \<and> rest = Inr r"
  by (auto simp: ensure_def rbind_eq_Inr)

lemma demand_Inr [simp]: "demand ok msg = Inr u \<longleftrightarrow> ok"
  by (simp add: demand_def)

lemma hits_set: "dict_wf words \<Longrightarrow> set (hits v words) = {a. map_of words a = Some v}"
  by (auto simp: hits_def dict_wf_iff image_iff)

lemma call_hits_set:
  "dict_wf words \<Longrightarrow> set (call_hits ops target words)
     = {a. (\<exists>v \<in> set ops. map_of words a = Some v) \<and> map_of words (a + 1) = Some target}"
  by (auto simp: call_hits_def dict_wf_iff image_iff)

end
