(* ===== verification/Mu4_Reference.thy ===== *)
theory Mu4_Reference
  imports Mu4_Image
begin

text \<open>
  The reference models of \<open>tools/mu4_context_contract.py\<close>: what the tool claims the pinned firmware
  routines compute.  Operands are Python integers with the range checks of the source; a dictionary a
  function returns is a record, or a JSON value where a report embeds it.
\<close>

abbreviation fail :: "string \<Rightarrow> 'a res" where
  "fail msg \<equiv> Inl (ValueError msg)"

section \<open>The table transform\<close>

definition reference_nibble :: "int \<Rightarrow> int \<Rightarrow> int res" where
  "reference_nibble v selector =
     (if \<not> (0 \<le> v \<and> v \<le> 0xffff) \<or> \<not> (0 \<le> selector \<and> selector \<le> 3)
      then fail ''nibble selector outside recovered scalar domain''
      else Inr (drop_bit (nat (4 * (3 - selector))) v AND 15))"

definition mix_tables :: "int list list \<Rightarrow> int list \<Rightarrow> int" where
  "mix_tables tables d =
     ((((tables ! 0 ! nat (d ! 0) + tables ! 1 ! nat (d ! 1)) XOR tables ! 2 ! nat (d ! 2))
       + tables ! 3 ! nat (d ! 3)) AND 0xffff)"

definition table_round :: "int list list \<Rightarrow> int \<times> int \<Rightarrow> int \<Rightarrow> (int \<times> int) res" where
  "table_round tables = (\<lambda>(left, right) key.
     let left = left XOR key in
     rmap (\<lambda>d. (right XOR mix_tables tables d, left)) (rmap_list (reference_nibble left) [0, 1, 2, 3]))"

definition reference_transform_block :: "int \<Rightarrow> int \<Rightarrow> int list \<Rightarrow> bool \<Rightarrow> (int \<times> int) res" where
  "reference_transform_block left right state backward =
     (if length state \<noteq> 82 \<or> \<not> (\<forall>w \<in> set (left # right # state). u16 w)
      then fail ''transform block outside recovered word/state domain''
      else let keys = (if backward then rev (slice 0 18 state) else slice 0 18 state);
               tables = map (\<lambda>index. slice (18 + index * 16) (34 + index * 16) state) [0..<4]
      in rmap (\<lambda>(left, right). (right XOR keys ! 17, left XOR keys ! 16))
           (rfold (table_round tables) (left, right) (take 16 keys)))"

definition window_step :: "int list \<Rightarrow> bool \<Rightarrow> bytes \<Rightarrow> nat \<Rightarrow> bytes res" where
  "window_step state backward result offset =
     (let words = map (\<lambda>i. from_le (slice (offset + i) (offset + i + 2) result)) [0, 2] in
      rbind (reference_transform_block (words ! 0) (words ! 1) state backward) (\<lambda>(a, b).
      rbind (to_le 2 a) (\<lambda>low. rbind (to_le 2 b) (\<lambda>high.
      Inr (slice_set offset (offset + 4) (low @ high) result)))))"

definition reference_recording_windows :: "bytes \<Rightarrow> int list \<Rightarrow> bool \<Rightarrow> bytes res" where
  "reference_recording_windows source state backward =
     (if length source mod 32 \<noteq> 0 \<or> length state \<noteq> 82 \<or> \<not> (\<forall>w \<in> set state. u16 w)
      then fail ''recording-window model needs complete aligned chunks and word state''
      else rfold (window_step state backward) source (map (\<lambda>i. 32 * i) [0..<length source div 32]))"

section \<open>Record headers\<close>

definition RECORD_HEADER_WIDTHS :: "nat list" where
  "RECORD_HEADER_WIDTHS = [12, 1, 2, 1, 2, 4, 1, 3, 1, 1, 1, 1, 13, 11, 2]"

fun header_bits :: "(int \<times> nat) list \<Rightarrow> string res" where
  "header_bits [] = Inr []"
| "header_bits ((v, width) # rest) =
     (if \<not> (0 \<le> v \<and> v < 2 ^ width) then fail ''recording header field outside its width''
      else rmap (\<lambda>bits. zfill width (digits 2 (nat v)) @ bits) (header_bits rest))"

definition reference_recording_header :: "int list \<Rightarrow> bytes res" where
  "reference_recording_header values =
     (if length values \<noteq> length RECORD_HEADER_WIDTHS then fail ''recording header requires fifteen fields''
      else rbind (header_bits (zip values RECORD_HEADER_WIDTHS)) (\<lambda>bits.
        rbind (int_of 2 bits) (to_be 7)))"

section \<open>Branches of the playback path\<close>

definition reference_flag_context :: "int \<Rightarrow> int res" where
  "reference_flag_context selector =
     (if \<not> (0 \<le> selector \<and> selector < 4) then fail ''flag-context selector outside recovered two-bit domain''
      else Inr (of_bool (selector \<noteq> 2)))"

definition post_flag_route :: "int \<Rightarrow> int \<Rightarrow> string res" where
  "post_flag_route flag indirect_word =
     (if flag \<notin> {0, 1} \<or> \<not> u16 indirect_word then fail ''post-flag route outside one-bit/16-bit domain''
      else if flag = 0 then Inr ''skip''
      else if indirect_word \<noteq> 0 then Inr ''conditional_parser'' else Inr ''restore'')"

definition reference_byte_count :: "int \<Rightarrow> int res" where
  "reference_byte_count bits =
     (if \<not> (1 \<le> bits \<and> bits \<le> 0xffff) then fail ''byte-amount prefix outside recovered positive domain''
      else Inr ((bits + 7) div 8))"

section \<open>Fixed-point arithmetic\<close>

definition poly_high :: "int \<Rightarrow> int" where
  "poly_high a = (let high = drop_bit 16 a AND 0x1ffff in
     if high AND 0x10000 \<noteq> 0 then high - 0x20000 else high)"

definition signed40 :: "int \<Rightarrow> int" where
  "signed40 b = (if b AND push_bit 39 1 \<noteq> 0 then b - push_bit 40 1 else b)"

definition signed16 :: "int \<Rightarrow> int" where
  "signed16 t = (if t AND 0x8000 \<noteq> 0 then t - 0x10000 else t)"

definition reference_poly_step :: "int \<Rightarrow> int \<Rightarrow> int \<Rightarrow> int \<Rightarrow> int \<Rightarrow> (int \<times> int \<times> bool) res" where
  "reference_poly_step a b t coefficient st1 =
     (if \<not> (0 \<le> a \<and> a < push_bit 40 1 \<and> 0 \<le> b \<and> b < push_bit 40 1 \<and> (\<forall>v \<in> {t, coefficient, st1}. u16 v))
      then fail ''POLY operand outside word/accumulator domain''
      else let
        raw_sum = ((poly_high a * signed16 t * (if st1 AND 0x40 \<noteq> 0 then 2 else 1) + signed40 b + 0x8000) div 0x10000) * 0x10000;
        overflow = (\<not> (- 0x80000000 \<le> raw_sum \<and> raw_sum \<le> 0x7fffffff));
        limited = (if overflow \<and> st1 AND 0x200 \<noteq> 0 then max (- 0x80000000) (min 0x7fffffff raw_sum) else raw_sum);
        extended = (if coefficient AND 0x8000 \<noteq> 0 \<and> st1 AND 0x100 \<noteq> 0 then coefficient - 0x10000 else coefficient)
      in Inr (limited AND (push_bit 40 1 - 1), (extended * 0x10000) AND (push_bit 40 1 - 1), overflow))"

definition reference_output_scale :: "int \<Rightarrow> int \<Rightarrow> int res" where
  "reference_output_scale sample coefficient =
     (if \<not> u16 sample \<or> \<not> u16 coefficient then fail ''output scale operands must be 16-bit bus words''
      else let product = signed16 sample * signed16 coefficient in
        Inr (max (- 32768) (min 32767 (drop_bit 12 product)) AND 0xffff))"

record pcm_word =
  pcm_shifted :: int
  pcm_value :: int

definition reference_pcm_conversion :: "int \<Rightarrow> pcm_word res" where
  "reference_pcm_conversion raw =
     (if \<not> (0 \<le> raw \<and> raw < push_bit 40 1) \<or> drop_bit 32 raw \<notin> {0, 255}
         \<or> (drop_bit 32 raw = 255 \<and> raw AND 0x80000000 = 0)
      then fail ''expected a zero/sign-extended 32-bit DLD input''
      else let low = raw AND 0xffffffff;
               v = (if low AND 0x80000000 \<noteq> 0 then low - push_bit 32 1 else low);
               shifted = drop_bit 14 (v + 8192)
      in Inr \<lparr>pcm_shifted = shifted, pcm_value = max (- 32767) (min 32767 shifted) AND 0xffff\<rparr>)"

section \<open>The bit reader\<close>

record bit_window =
  bw_value :: int
  bw_remaining :: int
  bw_reservoir :: int
  bw_index :: int

definition reference_bit_window :: "int \<Rightarrow> int \<Rightarrow> int \<Rightarrow> int \<Rightarrow> int \<Rightarrow> bit_window res" where
  "reference_bit_window remaining reservoir index next_word width =
     (if \<not> (0 \<le> remaining \<and> remaining \<le> 32 \<and> 0 \<le> reservoir \<and> reservoir \<le> 0xffffffff
            \<and> u16 index \<and> u16 next_word \<and> 0 \<le> width \<and> width \<le> 16)
      then fail ''bit window outside recovered scalar domain''
      else let
        (reservoir, index, remaining) =
          (if remaining \<le> 16
           then ((push_bit 16 reservoir OR next_word) AND 0xffffffff, (index + 1) AND 0xffff, remaining + 16)
           else (reservoir, index, remaining));
        remaining = remaining - width
      in Inr \<lparr>bw_value = drop_bit (nat remaining) reservoir AND (push_bit (nat width) 1 - 1),
             bw_remaining = remaining, bw_reservoir = reservoir, bw_index = index\<rparr>)"

section \<open>Workers, lanes and publications\<close>

record lane_walk =
  ln_count_address :: int
  ln_publication_entry :: int
  ln_link_address :: int

definition reference_context_lane :: "int \<Rightarrow> int \<Rightarrow> lane_walk res" where
  "reference_context_lane base lane =
     (if \<not> u16 base \<or> lane \<notin> {0, 1} then fail ''context lane requires an unsigned base and lane0/1''
      else let entry = (base + (if lane = 0 then 20 else 4)) AND 0xffff;
               ar2 = foldl (\<lambda>ar2 delta. (ar2 + delta) AND 0xffff) entry [- 1, - 1, 1, 1, 3, 1]
      in Inr \<lparr>ln_count_address = (base + (if lane = 0 then 6 else 22)) AND 0xffff,
             ln_publication_entry = entry, ln_link_address = ar2\<rparr>)"

record publication =
  pu_publish :: bool
  pu_refresh_input :: bool
  pu_reset_call :: bool
  pu_clear_1310 :: bool
  pu_set_12fa :: bool
  pu_clear_aa55 :: bool

definition reference_exchange_publication :: "int \<Rightarrow> int \<Rightarrow> int \<Rightarrow> int \<Rightarrow> publication res" where
  "reference_exchange_publication status flag remaining amount =
     (if \<not> (\<forall>v \<in> {status, flag, remaining, amount}. u16 v) then fail ''exchange publication requires unsigned words''
      else let publish = (status \<noteq> 0); refresh = (publish \<and> flag \<noteq> 0);
               reset = (refresh \<and> (remaining = 0 \<or> amount = 0))
      in Inr \<lparr>pu_publish = publish, pu_refresh_input = refresh, pu_reset_call = reset,
             pu_clear_1310 = reset, pu_set_12fa = reset, pu_clear_aa55 = publish\<rparr>)"

record reservation =
  rv_eligible :: bool
  rv_acquire :: bool
  rv_count :: int
  rv_flag :: int

definition reference_worker_reservation :: "int \<Rightarrow> int \<Rightarrow> reservation res" where
  "reference_worker_reservation held amount =
     (if held \<notin> {0, 1} \<or> \<not> u16 amount then fail ''reservation model requires literal flag0/1 and unsigned count''
      else let eligible = (held \<noteq> 0 \<or> amount \<noteq> 0); acquire = (eligible \<and> held = 0)
      in Inr \<lparr>rv_eligible = eligible, rv_acquire = acquire, rv_count = amount - of_bool acquire,
             rv_flag = (if acquire then 1 else held)\<rparr>)"

definition reference_decoder_return_route :: "int \<Rightarrow> string res" where
  "reference_decoder_return_route r =
     (if \<not> u16 r then fail ''decoder result must be an unsigned word''
      else Inr (if r = 0 then ''result_zero_group'' else if r = 2 then ''result_two_group'' else ''refresh_only''))"

record local_gate =
  lg_available :: int
  lg_threshold :: int
  lg_route :: string
  lg_scope :: string

definition reference_decoder_local_gate :: "int \<Rightarrow> int \<Rightarrow> int \<Rightarrow> int \<Rightarrow> int \<Rightarrow> local_gate res" where
  "reference_decoder_local_gate cursor limit threshold_flag activity context_activity =
     (if \<not> (\<forall>v \<in> {cursor, limit, threshold_flag, activity, context_activity}. u16 v)
      then fail ''decoder gate requires five unsigned words''
      else let available = (limit - cursor) AND 0xffff;
               threshold = (if threshold_flag \<noteq> 0 then 0 else 0x400);
               route = (if available < threshold then ''insufficient_input''
                        else if activity OR context_activity = 0 then ''inactive'' else ''call_method_13'')
      in Inr \<lparr>lg_available = available, lg_threshold = threshold, lg_route = route,
             lg_scope = ''Local gate after buffer refresh only; counter units and earlier lifecycle branches are not inferred''\<rparr>)"

section \<open>Files, copies and measurements\<close>

record size_update =
  su_words :: int
  su_bytes :: int
  su_extent :: int

fun size_updates :: "int \<Rightarrow> int list \<Rightarrow> size_update list" where
  "size_updates extent [] = []"
| "size_updates extent (amount # amounts) =
     (let extent = extent + 2 * amount in
      \<lparr>su_words = amount, su_bytes = 2 * amount, su_extent = extent\<rparr> # size_updates extent amounts)"

definition reference_metadata_size_updates :: "int \<Rightarrow> int \<Rightarrow> size_update list res" where
  "reference_metadata_size_updates file_bytes old_tag_bytes =
     (if \<not> (50 \<le> old_tag_bytes \<and> old_tag_bytes \<le> 0x7ffe) \<or> old_tag_bytes mod 2 \<noteq> 0
         \<or> \<not> (old_tag_bytes + 10 \<le> file_bytes \<and> file_bytes \<le> 0x7fffffff - old_tag_bytes - 110)
      then fail ''metadata size model requires an even admitted tag and nonoverflowing file extent''
      else Inr (size_updates file_bytes (replicate (nat (old_tag_bytes div 2)) 1 @ [5, 50])))"

definition native_adts_sync_word :: "int \<Rightarrow> bool res" where
  "native_adts_sync_word word =
     (if \<not> u16 word then fail ''expected unsigned first ADTS word'' else Inr (drop_bit 1 word = 0x7ffc))"

record copy_result =
  cp_count :: int
  cp_source_after :: int
  cp_destination_after :: int
  cp_source_exhausted :: bool
  cp_destination_full :: bool

definition reference_copy_adapter :: "int \<Rightarrow> int \<Rightarrow> int \<Rightarrow> int \<Rightarrow> copy_result res" where
  "reference_copy_adapter source_extent source_cursor destination_extent destination_cursor =
     (if \<not> (\<forall>v \<in> {source_extent, source_cursor, destination_extent, destination_cursor}. 0 \<le> v \<and> v \<le> 0x7fff)
         \<or> source_cursor > source_extent \<or> destination_cursor > destination_extent
      then fail ''copy adapter requires nonnegative signed-word extents and bounded cursors''
      else let source_remaining = source_extent - source_cursor;
               destination_remaining = destination_extent - destination_cursor;
               amount = min source_remaining destination_remaining
      in Inr \<lparr>cp_count = amount, cp_source_after = source_cursor + amount,
             cp_destination_after = destination_cursor + amount,
             cp_source_exhausted = (source_remaining \<le> destination_remaining),
             cp_destination_full = (destination_remaining \<le> source_remaining)\<rparr>)"

definition measurement_result :: "int \<Rightarrow> int \<Rightarrow> int res" where
  "measurement_result left right =
     (if \<not> (\<forall>v \<in> {left, right}. 0 \<le> v \<and> v \<le> 0x7FFFFFFF)
      then fail ''measurement energies must be nonsaturating nonnegative 32-bit sums''
      else Inr (if right < 10000000 then 0x20 else if left < 10000000 then 0x1F else 1))"

section \<open>Refills\<close>

text \<open>\<open>None\<close> of the source is \<^const>\<open>None\<close>; a request is its input number and payload.\<close>

definition reference_refill_control :: "int \<Rightarrow> int \<Rightarrow> int \<Rightarrow> (int \<times> int) option res" where
  "reference_refill_control reply pending16 pending17 =
     (if \<not> (\<forall>w \<in> {reply, pending16, pending17}. u16 w) then fail ''refill control words must be 16-bit''
      else if reply AND 0x8000 = 0 then Inr None
      else if pending16 \<noteq> 0 then Inr (Some (0x16, pending16))
      else if pending17 \<noteq> 0 then Inr (Some (0x17, pending17))
      else Inr None)"

record refill_result =
  rf_handled :: bool
  rf_field6 :: int
  rf_pending :: int
  rf_last_supplied :: "int option"
  rf_reply :: int

definition reference_refill_completion :: "int \<Rightarrow> int \<Rightarrow> int \<Rightarrow> refill_result res" where
  "reference_refill_completion pending supplied field6 =
     (if \<not> (\<forall>w \<in> {pending, supplied, field6}. u16 w) then fail ''completion operands must be 16-bit''
      else if pending = 0
      then Inr \<lparr>rf_handled = False, rf_field6 = field6, rf_pending = 0, rf_last_supplied = None, rf_reply = 0x8000\<rparr>
      else Inr \<lparr>rf_handled = True, rf_field6 = (field6 + supplied) AND 0xffff, rf_pending = 0,
             rf_last_supplied = Some supplied, rf_reply = 0x8012\<rparr>)"

section \<open>Routes of the resident image\<close>

definition rel_copy_destination :: "int \<Rightarrow> int \<Rightarrow> int res" where
  "rel_copy_destination stack8 bk =
     (if \<not> u16 stack8 \<or> \<not> u16 bk then fail ''REL copy inputs must be 16-bit words''
      else Inr ((bk + 2 * stack8) AND 0xFFFF))"

definition resident_wake_countdown :: "int \<Rightarrow> int \<Rightarrow> int res" where
  "resident_wake_countdown current argument =
     (if \<not> u16 current \<or> \<not> u16 argument then fail ''countdown model requires unsigned 16-bit inputs''
      else Inr (max current (argument div 10)))"

definition idle_route :: "int \<Rightarrow> string res" where
  "idle_route flag =
     (if \<not> u16 flag then fail ''idle flag must be an unsigned 16-bit word''
      else Inr (if flag \<noteq> 0 then ''skip_setup'' else ''initialize_before_idle''))"

definition restored_intm :: "int \<Rightarrow> string res" where
  "restored_intm saved_status =
     (if \<not> u16 saved_status then fail ''saved ST1 must be an unsigned 16-bit word''
      else Inr (if saved_status AND 0x0800 \<noteq> 0 then ''masked'' else ''unmasked''))"

definition worker_route :: "int \<Rightarrow> string res" where
  "worker_route control_word =
     (if \<not> u16 control_word then fail ''worker control must be an unsigned 16-bit word''
      else Inr (if control_word \<noteq> 0 then ''skip_worker_body'' else ''enter_worker_body''))"

definition MASK :: int where
  "MASK = 0xC004"

definition route_for_status :: "int \<Rightarrow> string res" where
  "route_for_status status =
     (if \<not> u16 status then fail ''status must be an unsigned 16-bit word''
      else Inr (if (status AND MASK) XOR MASK \<noteq> 0 then ''skip_worker'' else ''call_worker''))"

record restart =
  rs_continuation :: int
  rs_track :: int
  rs_advanced :: bool
  rs_lifecycle :: int
  rs_notification :: int
  rs_extra_call :: "string option"

definition resident_cleanup_restart :: "int \<Rightarrow> int \<Rightarrow> int \<Rightarrow> int \<Rightarrow> restart res" where
  "resident_cleanup_restart continuation mode current tracks =
     (if \<not> (\<forall>v \<in> {continuation, mode, current, tracks}. u16 v) \<or> \<not> (1 \<le> current \<and> current \<le> tracks)
      then fail ''restart model requires word fields and a valid track index''
      else let next_track = (current + 1) AND 0xffff;
               next_track = (if (next_track - tracks - 1) AND 0xffff = 0 then 1 else next_track)
      in Inr \<lparr>rs_continuation = (if continuation = 4 then 4 else 6),
             rs_track = (if mode = 3 then current else next_track),
             rs_advanced = (mode \<noteq> 3), rs_lifecycle = 7,
             rs_notification = (if mode = 3 then 0x0d else 9),
             rs_extra_call = (if mode = 3 then Some ''03999f'' else None)\<rparr>)"

record cleanup_route =
  cl_cleanup :: bool
  cl_state :: int
  cl_extra_call :: "string option"
  cl_loader_index :: "int option"

definition rel_cleanup_route :: "int \<Rightarrow> int \<Rightarrow> cleanup_route res" where
  "rel_cleanup_route lifecycle control =
     (if \<not> u16 lifecycle \<or> \<not> u16 control then fail ''lifecycle and control must be 16-bit words''
      else if lifecycle \<noteq> 4
      then Inr \<lparr>cl_cleanup = False, cl_state = lifecycle, cl_extra_call = None, cl_loader_index = None\<rparr>
      else let branch_to_state5 = (control = 1 \<or> (control - 2) AND 0xFFFF \<noteq> 0)
      in Inr \<lparr>cl_cleanup = True, cl_state = (if branch_to_state5 then 5 else 2),
             cl_extra_call = (if branch_to_state5 then None else Some ''039005''), cl_loader_index = Some 0\<rparr>)"

end
