(* ===== verification/Mu4_Transform.thy ===== *)
theory Mu4_Transform
  imports Mu4_Reference
begin

text \<open>
  The table transform is a Feistel network: running it with the key list reversed undoes it, so the
  recording windows that the tool transforms one way are restored by the other.
\<close>

section \<open>Feistel rounds\<close>

definition feistel_round :: "(int \<Rightarrow> int) \<Rightarrow> int \<times> int \<Rightarrow> int \<Rightarrow> int \<times> int" where
  "feistel_round f = (\<lambda>(left, right) key. (right XOR f (left XOR key), left XOR key))"

lemma feistel_reverse:
  assumes "length ks = n + 2" "foldl (feistel_round f) (l, r) (take n ks) = (l', r')"
  shows "foldl (feistel_round f) (r' XOR ks ! (n + 1), l' XOR ks ! n) (rev (drop 2 ks)) = (r XOR ks ! 1, l XOR ks ! 0)"
  using assms
proof (induction n arbitrary: ks l r)
  case (Suc n)
  obtain k ks' where ks: "ks = k # ks'" "length ks' = n + 2" using Suc.prems(1) by (cases ks) auto
  let ?l = "r XOR f (l XOR k)" and ?r = "l XOR k"
  have "foldl (feistel_round f) (?l, ?r) (take n ks') = (l', r')"
    using Suc.prems(2) by (simp add: ks feistel_round_def)
  from Suc.IH [OF ks(2) this]
  have IH: "foldl (feistel_round f) (r' XOR ks' ! (n + 1), l' XOR ks' ! n) (rev (drop 2 ks')) = (?r XOR ks' ! 1, ?l XOR ks' ! 0)" .
  have "drop 1 ks' = ks' ! 1 # drop 2 ks'" using ks(2) by (simp add: Cons_nth_drop_Suc numeral_2_eq_2)
  then have "rev (drop 2 ks) = rev (drop 2 ks') @ [ks' ! 1]" by (simp add: ks numeral_2_eq_2)
  then have "foldl (feistel_round f) (r' XOR ks ! (Suc n + 1), l' XOR ks ! Suc n) (rev (drop 2 ks))
      = feistel_round f (?r XOR ks' ! 1, ?l XOR ks' ! 0) (ks' ! 1)"
    using IH by (simp add: ks)
  also have "\<dots> = (?l XOR ks' ! 0 XOR f ?r, ?r)" by (simp add: feistel_round_def xor.assoc)
  also have "\<dots> = (r XOR ks' ! 0, ?r)" by (simp add: ac_simps xor_cancel)
  finally show ?case by (simp add: ks)
qed (auto simp: numeral_2_eq_2)

section \<open>The transform without its range checks\<close>

definition mix_word :: "int list list \<Rightarrow> int \<Rightarrow> int" where
  "mix_word tables left = mix_tables tables (map (\<lambda>s. drop_bit (nat (4 * (3 - s))) left AND 15) [0, 1, 2, 3])"

lemma half_xor: "u16 a \<Longrightarrow> u16 b \<Longrightarrow> u16 (a XOR b)" for a b :: int
  by (simp only: u16_take_bit take_bit_xor)

lemma low16_take: "x AND 0xffff = take_bit 16 x" for x :: int
  by (simp add: take_bit_eq_mask mask_eq_exp_minus_1)

lemma u16_and_ffff: "u16 (x AND 0xffff)" for x :: int
  unfolding low16_take by (simp add: take_bit_eq_mod)

lemma mix_word_u16: "u16 (mix_word tables left)"
  unfolding mix_word_def mix_tables_def by (rule u16_and_ffff)

lemma transform_round_pure:
  "u16 l \<Longrightarrow> u16 k \<Longrightarrow> table_round tables (l, r) k = Inr (feistel_round (mix_word tables) (l, r) k)"
  using half_xor [of l k]
  by (simp add: table_round_def feistel_round_def reference_nibble_def Let_def mix_word_def)

lemma transform_rounds_pure:
  assumes "u16 l" "u16 r" "\<forall>k \<in> set ks. u16 k"
  shows "rfold (table_round tables) (l, r) ks = Inr (foldl (feistel_round (mix_word tables)) (l, r) ks)
    \<and> u16 (fst (foldl (feistel_round (mix_word tables)) (l, r) ks)) \<and> u16 (snd (foldl (feistel_round (mix_word tables)) (l, r) ks))"
  using assms
proof (induction ks arbitrary: l r)
  case (Cons k ks)
  have "feistel_round (mix_word tables) (l, r) k = (r XOR mix_word tables (l XOR k), l XOR k)" by (simp add: feistel_round_def)
  moreover have "u16 (r XOR mix_word tables (l XOR k))" by (rule half_xor [OF Cons.prems(2) mix_word_u16])
  moreover have "u16 (l XOR k)" using Cons.prems by (intro half_xor) auto
  ultimately show ?case
    using Cons.IH [of "r XOR mix_word tables (l XOR k)" "l XOR k"] Cons.prems transform_round_pure [of l k tables r] by simp
qed simp

definition state_ok :: "int list \<Rightarrow> bool" where
  "state_ok state \<longleftrightarrow> length state = 82 \<and> (\<forall>w \<in> set state. u16 w)"

definition block_keys :: "int list \<Rightarrow> bool \<Rightarrow> int list" where
  "block_keys state backward = (if backward then rev (take 18 state) else take 18 state)"

definition block_mix :: "int list \<Rightarrow> int \<Rightarrow> int" where
  "block_mix state = mix_word (map (\<lambda>index. slice (18 + index * 16) (34 + index * 16) state) [0..<4])"

definition pure_block :: "int list \<Rightarrow> bool \<Rightarrow> int \<times> int \<Rightarrow> int \<times> int" where
  "pure_block state backward p = (case foldl (feistel_round (block_mix state)) p (take 16 (block_keys state backward)) of
     (left, right) \<Rightarrow> (right XOR block_keys state backward ! 17, left XOR block_keys state backward ! 16))"

lemma block_keys_u16: "state_ok state \<Longrightarrow> length (block_keys state b) = 18 \<and> (\<forall>k \<in> set (block_keys state b). u16 k)"
  by (auto simp: state_ok_def block_keys_def dest: in_set_takeD)

lemma transform_block_pure:
  assumes "state_ok state" "u16 l" "u16 r"
  shows "reference_transform_block l r state b = Inr (pure_block state b (l, r))"
    and "u16 (fst (pure_block state b (l, r))) \<and> u16 (snd (pure_block state b (l, r)))"
proof -
  let ?ks = "block_keys state b"
  have ks: "length ?ks = 18" "\<forall>k \<in> set ?ks. u16 k" using block_keys_u16 [OF assms(1)] by auto
  have "\<forall>k \<in> set (take 16 ?ks). u16 k" using ks(2) by (auto dest: in_set_takeD)
  note rounds = transform_rounds_pure [OF assms(2,3) this, of "map (\<lambda>index. slice (18 + index * 16) (34 + index * 16) state) [0..<4]", folded block_mix_def]
  have keys: "(if b then rev (slice 0 18 state) else slice 0 18 state) = ?ks" by (simp add: block_keys_def slice_def)
  have "length state = 82" "\<forall>w \<in> set (l # r # state). u16 w" using assms by (auto simp: state_ok_def)
  then show "reference_transform_block l r state b = Inr (pure_block state b (l, r))"
    using rounds unfolding reference_transform_block_def keys Let_def
    by (simp add: pure_block_def case_prod_unfold)
  have "u16 (?ks ! 17)" "u16 (?ks ! 16)" using ks by (auto simp: all_set_conv_all_nth)
  then show "u16 (fst (pure_block state b (l, r))) \<and> u16 (snd (pure_block state b (l, r)))"
    using rounds by (simp add: pure_block_def case_prod_unfold half_xor del: One_nat_def)
qed

lemma pure_block_reverse:
  assumes "state_ok state"
  shows "pure_block state (\<not> b) (pure_block state b p) = p"
proof -
  let ?ks = "block_keys state b"
  have len: "length ?ks = 16 + 2" using block_keys_u16 [OF assms] by simp
  have other: "block_keys state (\<not> b) = rev ?ks" by (simp add: block_keys_def)
  have ends: "rev ?ks ! 17 = ?ks ! 0" "rev ?ks ! 16 = ?ks ! 1" "take 16 (rev ?ks) = rev (drop 2 ?ks)"
    using len by (simp_all add: rev_nth take_rev)
  obtain l r where p: "p = (l, r)" by (metis surj_pair)
  obtain l' r' where f: "foldl (feistel_round (block_mix state)) (l, r) (take 16 ?ks) = (l', r')" by (metis surj_pair)
  have first: "pure_block state b p = (r' XOR ?ks ! 17, l' XOR ?ks ! 16)" by (simp add: pure_block_def p f)
  from feistel_reverse [OF len f]
  have "foldl (feistel_round (block_mix state)) (r' XOR ?ks ! 17, l' XOR ?ks ! 16) (take 16 (rev ?ks)) = (r XOR ?ks ! 1, l XOR ?ks ! 0)"
    unfolding ends by simp
  then show ?thesis unfolding first by (simp add: pure_block_def other ends p xor.assoc)
qed

text \<open>C28: With any state of 82 words, the table transform maps every pair of words to a
  pair of words, and running it in the other direction gives the pair back.\<close>

theorem transform_reverses:
  assumes "state_ok state" "u16 l" "u16 r"
  shows "\<exists>l' r'. reference_transform_block l r state backward = Inr (l', r') \<and> u16 l' \<and> u16 r'
    \<and> reference_transform_block l' r' state (\<not> backward) = Inr (l, r)"
proof -
  obtain l' r' where p: "pure_block state backward (l, r) = (l', r')" by (metis surj_pair)
  have "reference_transform_block l r state backward = Inr (l', r')" "u16 l'" "u16 r'"
    using transform_block_pure [OF assms, of backward] by (simp_all add: p)
  moreover have "reference_transform_block l' r' state (\<not> backward) = Inr (l, r)"
    using transform_block_pure(1) [OF assms(1) \<open>u16 l'\<close> \<open>u16 r'\<close>, of "\<not> backward"] pure_block_reverse [OF assms(1), of backward "(l, r)"]
    by (simp add: p)
  ultimately show ?thesis by blast
qed

lemma sample_state_ok: "state_ok (replicate 82 7)"
  by (simp add: state_ok_def)

theorem transform_reverses_witness:
  "\<exists>l' r'. reference_transform_block 0x1234 0xffff (replicate 82 7) True = Inr (l', r') \<and> u16 l' \<and> u16 r'
    \<and> reference_transform_block l' r' (replicate 82 7) (\<not> True) = Inr (0x1234, 0xffff)"
  by (rule transform_reverses [OF sample_state_ok]) simp_all

section \<open>Windows of a recording\<close>

definition pure_window :: "int list \<Rightarrow> bool \<Rightarrow> bytes \<Rightarrow> bytes" where
  "pure_window state backward bs =
     (case pure_block state backward (from_le (take 2 bs), from_le (drop 2 bs)) of
        (x, y) \<Rightarrow> le_bytes 2 x @ le_bytes 2 y)"

definition edit_windows :: "(bytes \<Rightarrow> bytes) \<Rightarrow> nat \<Rightarrow> bytes \<Rightarrow> bytes" where
  "edit_windows g n xs = foldl (\<lambda>r i. slice_set (32 * i) (32 * i + 4) (g (slice (32 * i) (32 * i + 4) r)) r) xs [0..<n]"

lemma u16_two_bytes: "length bs = 2 \<Longrightarrow> u16 (from_le bs)"
  using from_le_bound [of bs] by auto

lemma pure_window_length: "length (pure_window state b bs) = 4"
  by (simp add: pure_window_def split: prod.splits)

lemma pure_window_reverse:
  assumes "state_ok state" "length bs = 4"
  shows "pure_window state (\<not> b) (pure_window state b bs) = bs"
proof -
  let ?a = "from_le (take 2 bs)" and ?c = "from_le (drop 2 bs)"
  have u: "u16 ?a" "u16 ?c" using assms(2) by (simp_all add: u16_two_bytes)
  obtain x y where p: "pure_block state b (?a, ?c) = (x, y)" by (metis surj_pair)
  have xy: "u16 x" "u16 y" using transform_block_pure(2) [OF assms(1) u, of b] by (simp_all add: p)
  have "pure_block state (\<not> b) (x, y) = (?a, ?c)" using pure_block_reverse [OF assms(1), of b "(?a, ?c)"] by (simp add: p)
  moreover have "from_le (le_bytes 2 x) = x" "from_le (le_bytes 2 y) = y" using xy by (auto intro!: from_le_bytes)
  moreover have "le_bytes 2 ?a = take 2 bs" "le_bytes 2 ?c = drop 2 bs"
    using le_bytes_from_le [of "take 2 bs"] le_bytes_from_le [of "drop 2 bs"] assms(2) by simp_all
  ultimately show ?thesis by (simp add: pure_window_def p)
qed

lemma window_step_pure:
  assumes "state_ok state" "o' + 4 \<le> length r"
  shows "window_step state b r o' = Inr (slice_set o' (o' + 4) (pure_window state b (slice o' (o' + 4) r)) r)"
proof -
  let ?bs = "slice o' (o' + 4) r"
  have parts: "slice (o' + 0) (o' + 0 + 2) r = take 2 ?bs" "slice (o' + 2) (o' + 2 + 2) r = drop 2 ?bs"
    using assms(2) by (simp_all add: slice_def drop_take add.commute min_def)
  have u: "u16 (from_le (take 2 ?bs))" "u16 (from_le (drop 2 ?bs))" using assms(2) by (simp_all add: u16_two_bytes)
  obtain x y where p: "pure_block state b (from_le (take 2 ?bs), from_le (drop 2 ?bs)) = (x, y)" by (metis surj_pair)
  have "u16 x" "u16 y" using transform_block_pure(2) [OF assms(1) u, of b] by (simp_all add: p)
  then have "to_le 2 x = Inr (le_bytes 2 x)" "to_le 2 y = Inr (le_bytes 2 y)" by (simp_all add: to_le_def)
  moreover have "map (\<lambda>i. from_le (slice (o' + i) (o' + i + 2) r)) [0, 2] = [from_le (take 2 ?bs), from_le (drop 2 ?bs)]"
    using parts by (simp del: add_2_eq_Suc')
  ultimately show ?thesis
    unfolding window_step_def using transform_block_pure(1) [OF assms(1) u, of b] by (simp add: p pure_window_def)
qed

lemma edit_windows_Suc:
  "edit_windows g (Suc n) xs = (let r = edit_windows g n xs in slice_set (32 * n) (32 * n + 4) (g (slice (32 * n) (32 * n + 4) r)) r)"
  by (simp add: edit_windows_def Let_def)

lemma edit_windows_nth:
  assumes "\<And>bs. length bs = 4 \<Longrightarrow> length (g bs) = 4" "32 * n \<le> length xs"
  shows "length (edit_windows g n xs) = length xs \<and> (\<forall>j < length xs. edit_windows g n xs ! j =
    (if j div 32 < n \<and> j mod 32 < 4 then g (slice (32 * (j div 32)) (32 * (j div 32) + 4) xs) ! (j mod 32) else xs ! j))"
  using assms(2)
proof (induction n)
  case (Suc n)
  let ?r = "edit_windows g n xs" and ?w = "slice (32 * n) (32 * n + 4)"
  have IH: "length ?r = length xs" "\<And>j. j < length xs \<Longrightarrow> ?r ! j =
    (if j div 32 < n \<and> j mod 32 < 4 then g (slice (32 * (j div 32)) (32 * (j div 32) + 4) xs) ! (j mod 32) else xs ! j)"
    using Suc by simp_all
  have same: "?w ?r = ?w xs"
  proof (rule nth_equalityI)
    fix i assume "i < length (?w ?r)"
    then have i: "i < 4" "32 * n + i < length xs" using Suc.prems IH(1) by simp_all
    then have "(32 * n + i) div 32 = n" by simp
    then show "?w ?r ! i = ?w xs ! i" using i IH by (simp add: nth_slice)
  qed (simp add: IH(1))
  have e: "edit_windows g (Suc n) xs = slice_set (32 * n) (32 * n + 4) (g (?w xs)) ?r"
    by (simp add: edit_windows_Suc same)
  have "length (?w xs) = 4" using Suc.prems by simp
  then have g4: "length (g (?w xs)) = 4" by (rule assms(1))
  have nth: "edit_windows g (Suc n) xs ! j = (if 32 * n \<le> j \<and> j < 32 * n + 4 then g (?w xs) ! (j - 32 * n) else ?r ! j)"
    if "j < length xs" for j
    unfolding e using that Suc.prems g4 IH(1) by (subst nth_slice_set) simp_all
  show ?case
  proof (intro conjI allI impI)
    show "length (edit_windows g (Suc n) xs) = length xs" unfolding e using Suc.prems g4 IH(1) by simp
    fix j assume j: "j < length xs"
    have jd: "j = 32 * (j div 32) + j mod 32" by simp
    show "edit_windows g (Suc n) xs ! j =
      (if j div 32 < Suc n \<and> j mod 32 < 4 then g (slice (32 * (j div 32)) (32 * (j div 32) + 4) xs) ! (j mod 32) else xs ! j)"
    proof (cases "j div 32 = n")
      case True
      then have "32 * n \<le> j \<and> j < 32 * n + 4 \<longleftrightarrow> j mod 32 < 4" "j - 32 * n = j mod 32" using jd by linarith+
      then show ?thesis using nth [OF j] IH(2) [OF j] True by simp
    next
      case False
      then have "\<not> (32 * n \<le> j \<and> j < 32 * n + 4)" by auto
      then have "edit_windows g (Suc n) xs ! j = ?r ! j" using nth [OF j] by (simp only: if_False)
      moreover have "j div 32 < Suc n \<longleftrightarrow> j div 32 < n" using False by auto
      ultimately show ?thesis using IH(2) [OF j] by simp
    qed
  qed
qed (simp add: edit_windows_def)

lemma edit_windows_reverse:
  assumes g: "\<And>bs. length bs = 4 \<Longrightarrow> length (g bs) = 4" and h: "\<And>bs. length bs = 4 \<Longrightarrow> length (h bs) = 4"
    and hg: "\<And>bs. length bs = 4 \<Longrightarrow> h (g bs) = bs" and n: "32 * n \<le> length xs"
  shows "edit_windows h n (edit_windows g n xs) = xs"
proof (rule nth_equalityI)
  note e = edit_windows_nth [of g, OF g n]
  then have n': "32 * n \<le> length (edit_windows g n xs)" using n by simp
  note d = edit_windows_nth [of h, OF h n']
  show "length (edit_windows h n (edit_windows g n xs)) = length xs" using e d by simp
  fix j assume "j < length (edit_windows h n (edit_windows g n xs))"
  then have j: "j < length xs" using e d by simp
  let ?q = "j div 32"
  show "edit_windows h n (edit_windows g n xs) ! j = xs ! j"
  proof (cases "?q < n \<and> j mod 32 < 4")
    case True
    then have room: "32 * ?q + 4 \<le> length xs" using n by linarith
    have "slice (32 * ?q) (32 * ?q + 4) (edit_windows g n xs) = g (slice (32 * ?q) (32 * ?q + 4) xs)"
    proof (rule nth_equalityI)
      show l: "length (slice (32 * ?q) (32 * ?q + 4) (edit_windows g n xs)) = length (g (slice (32 * ?q) (32 * ?q + 4) xs))"
        using room e by (simp add: g)
      fix i assume "i < length (slice (32 * ?q) (32 * ?q + 4) (edit_windows g n xs))"
      then have i: "i < 4" using e room by simp
      then have "(32 * ?q + i) div 32 = ?q" "(32 * ?q + i) mod 32 = i" by simp_all
      then show "slice (32 * ?q) (32 * ?q + 4) (edit_windows g n xs) ! i = g (slice (32 * ?q) (32 * ?q + 4) xs) ! i"
        using i e room True by (simp add: nth_slice)
    qed
    then have "edit_windows h n (edit_windows g n xs) ! j = h (g (slice (32 * ?q) (32 * ?q + 4) xs)) ! (j mod 32)"
      using d e j True by simp
    also have "h (g (slice (32 * ?q) (32 * ?q + 4) xs)) = slice (32 * ?q) (32 * ?q + 4) xs" using room by (intro hg) simp
    also have "slice (32 * ?q) (32 * ?q + 4) xs ! (j mod 32) = xs ! (32 * ?q + j mod 32)"
      using True room j by (intro nth_slice) auto
    finally show ?thesis by simp
  qed (use d e j in auto)
qed

lemma recording_windows_pure:
  assumes "state_ok state" "length source mod 32 = 0"
  shows "reference_recording_windows source state b = Inr (edit_windows (pure_window state b) (length source div 32) source)"
proof -
  have "rfold (window_step state b) source (map (\<lambda>i. 32 * i) [0..<n]) = Inr (edit_windows (pure_window state b) n source)"
    if "32 * n \<le> length source" for n
    using that
  proof (induction n)
    case (Suc n)
    have len: "length (edit_windows (pure_window state b) n source) = length source"
      using edit_windows_nth [of "pure_window state b" n source] pure_window_length Suc.prems by simp
    then have "window_step state b (edit_windows (pure_window state b) n source) (32 * n)
        = Inr (edit_windows (pure_window state b) (Suc n) source)"
      using window_step_pure [OF assms(1), of "32 * n"] Suc.prems by (simp add: edit_windows_Suc Let_def)
    then show ?case using Suc by (simp add: rfold_append)
  qed (simp add: edit_windows_def)
  moreover have "32 * (length source div 32) \<le> length source" by simp
  ultimately show ?thesis using assms by (auto simp: reference_recording_windows_def state_ok_def)
qed

text \<open>Transforming the windows of a recording of whole 32-byte chunks
  always succeeds, changes no byte outside the first four of each chunk, and the transform of the other
  direction restores the recording.\<close>

theorem recording_windows_roundtrip:
  assumes "state_ok state" "length source mod 32 = 0"
  shows "\<exists>out. reference_recording_windows source state backward = Inr out \<and> length out = length source
    \<and> (\<forall>j < length source. 4 \<le> j mod 32 \<longrightarrow> out ! j = source ! j)
    \<and> reference_recording_windows out state (\<not> backward) = Inr source"
proof -
  let ?n = "length source div 32"
  let ?out = "edit_windows (pure_window state backward) ?n source"
  have n: "32 * ?n \<le> length source" by simp
  note e = edit_windows_nth [of "pure_window state backward", OF pure_window_length n]
  have "edit_windows (pure_window state (\<not> backward)) ?n ?out = source"
    by (rule edit_windows_reverse) (simp_all add: pure_window_length pure_window_reverse [OF assms(1)])
  moreover have "length ?out = length source" using e by simp
  ultimately show ?thesis
    using recording_windows_pure [OF assms] recording_windows_pure [OF assms(1), of ?out] assms(2) e
    by (intro exI [of _ ?out]) auto
qed

theorem recording_windows_roundtrip_witness:
  "\<exists>out. reference_recording_windows (replicate 64 0xff) (replicate 82 7) False = Inr out \<and> length out = length (replicate 64 (0xff :: byte))
    \<and> (\<forall>j < length (replicate 64 (0xff :: byte)). 4 \<le> j mod 32 \<longrightarrow> out ! j = replicate 64 0xff ! j)
    \<and> reference_recording_windows out (replicate 82 7) (\<not> False) = Inr (replicate 64 0xff)"
  by (rule recording_windows_roundtrip [OF sample_state_ok]) simp

end
