(* ===== verification/Mu4_Models.thy ===== *)
theory Mu4_Models
  imports Mu4_Reference
begin

text \<open>
  What the scalar reference models compute: the header packing and its inverse, the bit reader as a
  reader of a stream of bits, the rounding conversions, the copy adapter as a loop that ends, the size
  bookkeeping of a metadata rewrite and the track restart.
\<close>

section \<open>Record headers\<close>

text \<open>The reader of a packed header: the fields from the last to the first.\<close>

fun unpack_fields :: "nat list \<Rightarrow> int \<Rightarrow> int list" where
  "unpack_fields [] n = []"
| "unpack_fields (w # ws) n = (drop_bit (sum_list ws) n) # unpack_fields ws (take_bit (sum_list ws) n)"

definition header_fields :: "bytes \<Rightarrow> int list" where
  "header_fields bs = unpack_fields RECORD_HEADER_WIDTHS (from_be bs)"

fun packed :: "(int \<times> nat) list \<Rightarrow> int" where
  "packed [] = 0"
| "packed ((v, w) # rest) = v * 2 ^ sum_list (map snd rest) + packed rest"

definition field_ok :: "int \<times> nat \<Rightarrow> bool" where
  "field_ok = (\<lambda>(v, w). 0 \<le> v \<and> v < 2 ^ w)"

lemma packed_bound: "\<forall>f \<in> set fs. field_ok f \<Longrightarrow> 0 \<le> packed fs \<and> packed fs < 2 ^ sum_list (map snd fs)"
proof (induction fs)
  case (Cons f fs)
  obtain v w where f: "f = (v, w)" by (metis surj_pair)
  have v: "0 \<le> v" "v + 1 \<le> 2 ^ w" using Cons.prems by (auto simp: f field_ok_def)
  have p: "0 \<le> packed fs" "packed fs < 2 ^ sum_list (map snd fs)" using Cons by auto
  have "(v + 1) * 2 ^ sum_list (map snd fs) \<le> 2 ^ w * (2 ^ sum_list (map snd fs) :: int)" using v by (intro mult_right_mono) auto
  then show ?case using v p by (simp add: f power_add algebra_simps)
qed simp

lemma unpack_packed: "\<forall>f \<in> set fs. field_ok f \<Longrightarrow> unpack_fields (map snd fs) (packed fs) = map fst fs"
proof (induction fs)
  case (Cons f fs)
  obtain v w where f: "f = (v, w)" by (metis surj_pair)
  have p: "0 \<le> packed fs" "packed fs < 2 ^ sum_list (map snd fs)" using packed_bound Cons.prems by auto
  then show ?case using Cons by (simp add: f drop_bit_eq_div take_bit_eq_mod)
qed simp

lemma parse_acc_append:
  "parse_acc b acc (xs @ ys) = Option.bind (parse_acc b acc xs) (\<lambda>n. parse_acc b n ys)"
  by (induction xs arbitrary: acc) (auto split: option.splits)

lemma parse_acc_shift: "parse_acc b acc s = Some n \<Longrightarrow> parse_acc b (acc + c) s = Some (n + c * b ^ length s)"
proof (induction s arbitrary: acc n c)
  case (Cons x s)
  then obtain d where d: "digit_of x = Some d" "d < b" "parse_acc b (acc * b + d) s = Some n"
    by (auto split: option.splits if_splits)
  have "(acc + c) * b + d = acc * b + d + c * b" by (simp add: algebra_simps)
  then show ?case using Cons.IH [OF d(3), of "c * b"] d by (simp add: algebra_simps)
qed simp

lemma digits_length:
  assumes "n < 2 ^ w" "0 < w"
  shows "length (digits 2 n) \<le> w"
  using assms
proof (induction w arbitrary: n)
  case (Suc w)
  show ?case
  proof (cases "n < 2")
    case False
    then have "0 < w" "n div 2 < 2 ^ w" using Suc.prems by (cases w; auto)+
    then show ?thesis using Suc.IH False by (simp add: digits_step)
  qed (use Suc in \<open>simp add: digits_small\<close>)
qed simp

lemma header_bits_parse:
  assumes "\<forall>f \<in> set fs. field_ok f \<and> 0 < snd f"
  shows "\<exists>bits. header_bits fs = Inr bits \<and> length bits = sum_list (map snd fs) \<and> parse_acc 2 0 bits = Some (nat (packed fs))"
  using assms
proof (induction fs)
  case (Cons f fs)
  obtain v w where f: "f = (v, w)" by (metis surj_pair)
  have v: "0 \<le> v" "v < 2 ^ w" "0 < w" using Cons.prems by (auto simp: f field_ok_def)
  obtain bits where bits: "header_bits fs = Inr bits" "length bits = sum_list (map snd fs)" "parse_acc 2 0 bits = Some (nat (packed fs))"
    using Cons by auto
  let ?field = "zfill w (digits 2 (nat v))"
  have "nat v < 2 ^ w" using v by (simp add: nat_less_iff)
  then have len: "length ?field = w" using digits_length v(3) by (simp add: zfill_def)
  have "parse_digits 2 ?field = Some (nat v)" using parse_format by simp
  then have "parse_acc 2 0 ?field = Some (nat v)" by (simp add: parse_digits_def split: if_splits)
  then have "parse_acc 2 0 (?field @ bits) = Some (nat (packed fs) + nat v * 2 ^ length bits)"
    using parse_acc_shift [OF bits(3), of "nat v"] by (simp add: parse_acc_append)
  moreover have "nat (packed (f # fs)) = nat (packed fs) + nat v * 2 ^ length bits"
    using v packed_bound [of fs] Cons.prems by (simp add: f bits(2) nat_add_distrib nat_mult_distrib nat_power_eq)
  ultimately show ?case using bits len v by (simp add: f)
qed simp

lemma packed_unpack:
  assumes "0 \<le> n" "n < 2 ^ sum_list ws"
  shows "length (unpack_fields ws n) = length ws \<and> packed (zip (unpack_fields ws n) ws) = n
    \<and> (\<forall>f \<in> set (zip (unpack_fields ws n) ws). field_ok f)"
  using assms
proof (induction ws n rule: unpack_fields.induct)
  case (2 w ws n)
  let ?s = "sum_list ws"
  have t: "0 \<le> take_bit ?s n" "take_bit ?s n < 2 ^ ?s" by simp_all
  note IH = "2.IH" [OF t]
  have "2 ^ ?s * (n div 2 ^ ?s) = n - n mod 2 ^ ?s" by (simp add: minus_mod_eq_mult_div)
  moreover have "n < 2 ^ ?s * 2 ^ w" using "2.prems"(2) by (simp add: power_add mult.commute)
  moreover have "0 \<le> n mod 2 ^ ?s" by simp
  ultimately have "2 ^ ?s * (n div 2 ^ ?s) < 2 ^ ?s * 2 ^ w" by linarith
  then have "drop_bit ?s n < 2 ^ w" by (simp add: drop_bit_eq_div)
  moreover have "n = n div 2 ^ ?s * 2 ^ ?s + n mod 2 ^ ?s" by (rule div_mult_mod_eq [symmetric])
  ultimately show ?case using IH "2.prems"(1) by (simp add: field_ok_def drop_bit_eq_div take_bit_eq_mod pos_imp_zdiv_nonneg_iff)
qed simp

lemma reference_header_fields:
  assumes "length values = 15" "\<forall>f \<in> set (zip values RECORD_HEADER_WIDTHS). field_ok f"
  shows "reference_recording_header values = to_be 7 (packed (zip values RECORD_HEADER_WIDTHS))"
proof -
  let ?fs = "zip values RECORD_HEADER_WIDTHS"
  have w: "length RECORD_HEADER_WIDTHS = 15" "sum_list RECORD_HEADER_WIDTHS = 56" "\<forall>w \<in> set RECORD_HEADER_WIDTHS. 0 < w"
    by (simp_all add: RECORD_HEADER_WIDTHS_def)
  have snds: "map snd ?fs = RECORD_HEADER_WIDTHS" using assms(1) w(1) by simp
  have ok: "\<forall>f \<in> set ?fs. field_ok f \<and> 0 < snd f" using assms(2) w(3) by (auto dest: set_zip_rightD)
  obtain bits where bits: "header_bits ?fs = Inr bits" "length bits = 56" "parse_acc 2 0 bits = Some (nat (packed ?fs))"
    using header_bits_parse [OF ok] by (auto simp: snds w)
  have "0 \<le> packed ?fs" using packed_bound [of ?fs] assms(2) by blast
  then have "int_of 2 bits = Inr (packed ?fs)" using bits by (auto simp: int_of_def parse_digits_def)
  then show ?thesis using assms(1) w(1) bits(1) by (simp add: reference_recording_header_def)
qed

lemma header_bits_ok: "header_bits fs = Inr bits \<Longrightarrow> \<forall>f \<in> set fs. field_ok f"
proof (induction fs arbitrary: bits)
  case (Cons f fs)
  obtain v w where f: "f = (v, w)" by (metis surj_pair)
  have "field_ok f" and "\<exists>bits'. header_bits fs = Inr bits'"
    using Cons.prems by (auto simp: f field_ok_def rmap_eq_Inr split: if_splits)
  with Cons.IH show ?case by auto
qed simp

text \<open>Packing fifteen field values into a header and reading the seven bytes
  by the field widths are inverse to each other: the packing returns the bytes exactly when they are
  seven and read back as the values.\<close>

theorem recording_header_roundtrip:
  "reference_recording_header values = Inr bs \<longleftrightarrow> length bs = 7 \<and> header_fields bs = values"
proof -
  have w: "length RECORD_HEADER_WIDTHS = 15" "sum_list RECORD_HEADER_WIDTHS = 56"
    by (simp_all add: RECORD_HEADER_WIDTHS_def)
  show ?thesis
  proof
    assume r: "reference_recording_header values = Inr bs"
    then have len: "length values = 15"
      and ok: "\<forall>f \<in> set (zip values RECORD_HEADER_WIDTHS). field_ok f"
      using header_bits_ok by (auto simp: reference_recording_header_def w rbind_eq_Inr split: if_splits)
    from r have "to_be 7 (packed (zip values RECORD_HEADER_WIDTHS)) = Inr bs"
      using reference_header_fields [OF len ok] by simp
    then show "length bs = 7 \<and> header_fields bs = values"
      using from_be_to_be unpack_packed [OF ok] len w(1) by (auto simp: header_fields_def)
  next
    assume h: "length bs = 7 \<and> header_fields bs = values"
    have "0 \<le> from_be bs" "from_be bs < 2 ^ 56" using from_be_bound [of bs] h by auto
    from packed_unpack [of "from_be bs" RECORD_HEADER_WIDTHS, unfolded w, OF this]
    have "length values = 15" "packed (zip values RECORD_HEADER_WIDTHS) = from_be bs"
      "\<forall>f \<in> set (zip values RECORD_HEADER_WIDTHS). field_ok f"
      using h by (auto simp: header_fields_def)
    then show "reference_recording_header values = Inr bs"
      using reference_header_fields to_be_from_be [of bs] h by simp
  qed
qed

section \<open>The bit reader\<close>

text \<open>The reader's state stands for a list of bits, the most significant first: the unread low bits of
  the reservoir.  \<open>msb_bits n v\<close> are the low \<open>n\<close> bits of \<open>v\<close>.\<close>

definition msb_bits :: "nat \<Rightarrow> int \<Rightarrow> bool list" where
  "msb_bits n v = map (\<lambda>k. bit v (n - 1 - k)) [0..<n]"

lemma msb_bits_nth: "k < n \<Longrightarrow> msb_bits n v ! k = bit v (n - 1 - k)"
  by (simp add: msb_bits_def)

lemma length_msb_bits [simp]: "length (msb_bits n v) = n"
  by (simp add: msb_bits_def)

lemma msb_bits_append:
  "msb_bits m u @ msb_bits n v = msb_bits (m + n) (push_bit n u OR take_bit n v)"
proof (rule nth_equalityI)
  fix k assume k: "k < length (msb_bits m u @ msb_bits n v)"
  then show "(msb_bits m u @ msb_bits n v) ! k = msb_bits (m + n) (push_bit n u OR take_bit n v) ! k"
  proof (cases "k < m")
    case True
    then have e: "m + n - 1 - k = (m - 1 - k) + n" by simp
    have "bit (push_bit n u OR take_bit n v) ((m - 1 - k) + n) = bit u (m - 1 - k)" by (simp add: bit_simps)
    then show ?thesis using True k by (simp only: nth_append msb_bits_nth length_append length_msb_bits if_True e)
  next
    case False
    moreover from this k have e: "m + n - 1 - k = n - 1 - (k - m)" "k - m < n" by simp_all
    moreover have "n - 1 - (k - m) < n" using e(2) by simp
    then have "bit (push_bit n u OR take_bit n v) (n - 1 - (k - m)) = bit v (n - 1 - (k - m))" by (simp add: bit_simps)
    ultimately show ?thesis using k by (simp only: nth_append msb_bits_nth length_append length_msb_bits if_False e(1))
  qed
qed simp

lemma msb_bits_take: "w \<le> n \<Longrightarrow> take w (msb_bits n v) = msb_bits w (drop_bit (n - w) v)"
  by (rule nth_equalityI) (auto simp: msb_bits_nth bit_simps intro!: arg_cong [where f = "bit v"])

lemma msb_bits_drop: "w \<le> n \<Longrightarrow> drop w (msb_bits n v) = msb_bits (n - w) v"
  by (rule nth_equalityI) (auto simp: msb_bits_nth intro!: arg_cong [where f = "bit v"])

lemma msb_bits_cong: "(\<And>k. k < n \<Longrightarrow> bit u k = bit v k) \<Longrightarrow> msb_bits n u = msb_bits n v"
  by (rule nth_equalityI) (auto simp: msb_bits_nth)

lemma msb_bits_eq: "take_bit n u = u \<Longrightarrow> take_bit n v = v \<Longrightarrow> msb_bits n u = msb_bits n v \<Longrightarrow> u = v"
proof (rule bit_eqI)
  fix k assume *: "take_bit n u = u" "take_bit n v = v" "msb_bits n u = msb_bits n v"
  show "bit u k = bit v k"
  proof (cases "k < n")
    case True
    then have "msb_bits n u ! (n - 1 - k) = bit u k" "msb_bits n v ! (n - 1 - k) = bit v k" by (simp_all add: msb_bits_nth)
    then show ?thesis using *(3) by simp
  next
    case False
    then show ?thesis using *(1,2) by (metis bit_take_bit_iff)
  qed
qed

definition unread :: "int \<Rightarrow> int \<Rightarrow> bool list" where
  "unread remaining reservoir = msb_bits (nat remaining) reservoir"

lemma bit_window_fill:
  fixes remaining reservoir next_word :: int
  assumes ok: "0 \<le> remaining" "remaining \<le> 32" "0 \<le> reservoir" "reservoir \<le> 0xffffffff" "u16 next_word"
  defines "res \<equiv> if remaining \<le> 16 then (push_bit 16 reservoir OR next_word) AND 0xffffffff else reservoir"
    and "rem \<equiv> if remaining \<le> 16 then remaining + 16 else remaining"
  shows "unread remaining reservoir @ (if remaining \<le> 16 then msb_bits 16 next_word else []) = msb_bits (nat rem) res"
    and "0 \<le> res \<and> res \<le> 0xffffffff" and "16 \<le> rem" and "rem \<le> 32"
proof -
  have f32: "x AND 0xffffffff = take_bit 32 x" for x :: int
    by (simp add: take_bit_eq_mask mask_eq_exp_minus_1)
  show "unread remaining reservoir @ (if remaining \<le> 16 then msb_bits 16 next_word else []) = msb_bits (nat rem) res"
  proof (cases "remaining \<le> 16")
    case True
    have n: "nat rem = nat remaining + 16" using True ok by (simp add: rem_def nat_add_distrib)
    have "bit (push_bit 16 reservoir OR take_bit 16 next_word) k = bit res k" if "k < nat remaining + 16" for k
    proof -
      have "take_bit 16 next_word = next_word" using ok(5) by (simp only: u16_take_bit)
      moreover have "k < 32" using that True by simp
      ultimately show ?thesis using True by (simp add: res_def f32 bit_simps)
    qed
    then have "msb_bits (nat remaining + 16) (push_bit 16 reservoir OR take_bit 16 next_word) = msb_bits (nat rem) res"
      unfolding n by (rule msb_bits_cong)
    then show ?thesis using True by (simp add: unread_def msb_bits_append)
  qed (simp add: unread_def res_def rem_def)
  have "take_bit 32 x \<le> 0xffffffff" for x :: int
    using take_bit_int_less_exp [of 32 x] by (simp del: take_bit_int_less_exp)
  then show "0 \<le> res \<and> res \<le> 0xffffffff" using ok(3,4) by (simp add: res_def f32 del: take_bit_or)
qed (use ok in \<open>auto simp: rem_def\<close>)

text \<open>C31: The bit reader takes the next bits of the stream: with the unread bits of
  the reservoir, followed by the next word when sixteen or fewer are left, as the stream, the value
  returned is its first \<open>width\<close> bits and the new state stands for the rest.\<close>

theorem bit_window_reads_stream:
  assumes "reference_bit_window remaining reservoir index next_word width = Inr r"
  shows "msb_bits (nat width) (bw_value r) @ unread (bw_remaining r) (bw_reservoir r)
      = unread remaining reservoir @ (if remaining \<le> 16 then msb_bits 16 next_word else [])
    \<and> 0 \<le> bw_value r \<and> bw_value r < 2 ^ nat width
    \<and> 0 \<le> bw_remaining r \<and> bw_remaining r \<le> 32 \<and> 0 \<le> bw_reservoir r \<and> bw_reservoir r \<le> 0xffffffff"
proof -
  have ok: "0 \<le> remaining" "remaining \<le> 32" "0 \<le> reservoir" "reservoir \<le> 0xffffffff" "u16 next_word" "0 \<le> width" "width \<le> 16"
    using assms by (auto simp: reference_bit_window_def split: if_splits)
  define res rem where "res = (if remaining \<le> 16 then (push_bit 16 reservoir OR next_word) AND 0xffffffff else reservoir)"
    and "rem = (if remaining \<le> 16 then remaining + 16 else remaining)"
  note fill = bit_window_fill [OF ok(1-5), folded res_def rem_def]
  have r: "bw_value r = drop_bit (nat (rem - width)) res AND (push_bit (nat width) 1 - 1)"
      "bw_remaining r = rem - width" "bw_reservoir r = res"
    using assms ok by (auto simp: reference_bit_window_def Let_def res_def rem_def split: if_splits)
  have mask: "x AND (push_bit n 1 - 1) = take_bit n x" for x :: int and n
    by (simp add: take_bit_eq_mask mask_eq_exp_minus_1 push_bit_of_1)
  have w: "nat width \<le> nat rem" "nat rem - nat width = nat (rem - width)" using fill(3,4) ok by (auto simp: nat_diff_distrib)
  have "msb_bits (nat width) (bw_value r) = take (nat width) (msb_bits (nat rem) res)"
    unfolding msb_bits_take [OF w(1)] w(2) r(1) mask by (rule msb_bits_cong) (simp add: bit_simps)
  moreover have "unread (bw_remaining r) (bw_reservoir r) = drop (nat width) (msb_bits (nat rem) res)"
    unfolding msb_bits_drop [OF w(1)] w(2) r(2,3) unread_def ..
  moreover have "0 \<le> bw_value r \<and> bw_value r < 2 ^ nat width" unfolding r(1) mask by simp
  ultimately show ?thesis unfolding fill(1) using fill(2-4) r(2,3) ok by auto
qed

theorem bit_window_reads_stream_witness:
  "msb_bits (nat 5) 0 @ unread 27 0x5b21234 = unread 16 0x5b2 @ (if (16 :: int) \<le> 16 then msb_bits 16 0x1234 else [])"
proof -
  have "reference_bit_window 16 0x5b2 7 0x1234 5 = Inr \<lparr>bw_value = 0, bw_remaining = 27, bw_reservoir = 0x5b21234, bw_index = 8\<rparr>"
    by (simp add: reference_bit_window_def)
  from bit_window_reads_stream [OF this] show ?thesis by simp
qed

section \<open>Rounding conversions\<close>

lemma drop_bit_bounds: "2 ^ n * drop_bit n v \<le> v \<and> v < 2 ^ n * drop_bit n v + 2 ^ n" for v :: int
proof -
  have "v = drop_bit n v * 2 ^ n + v mod 2 ^ n" unfolding drop_bit_eq_div by (rule div_mult_mod_eq [symmetric])
  moreover have "0 \<le> v mod 2 ^ n" "v mod 2 ^ n < 2 ^ n" by simp_all
  ultimately show ?thesis by (simp only: mult.commute) linarith
qed

lemma and_ffff_take: "x AND 0xffff = take_bit 16 x" for x :: int
  by (simp add: take_bit_eq_mask mask_eq_exp_minus_1)

text \<open>The signed reading of a 16-bit word and of a 32-bit double word.\<close>

definition signed_word :: "nat \<Rightarrow> int \<Rightarrow> int" where
  "signed_word n v = (if bit v (n - 1) then v - 2 ^ n else v)"

lemma and_bit: "x AND 2 ^ n \<noteq> 0 \<longleftrightarrow> bit x n" for x :: int
  using bit_and_nonzero [of x n] by (simp add: push_bit_of_1)

lemma pcm_low:
  assumes "reference_pcm_conversion raw = Inr r"
  shows "pcm_shifted r = drop_bit 14 (signed_word 32 (take_bit 32 raw) + 8192)
    \<and> pcm_value r = take_bit 16 (max (- 32767) (min 32767 (pcm_shifted r)))"
proof -
  have f32: "x AND 0xffffffff = take_bit 32 x" for x :: int
    by (simp add: take_bit_eq_mask mask_eq_exp_minus_1)
  have "x AND 0x80000000 \<noteq> 0 \<longleftrightarrow> bit x 31" for x :: int using and_bit [of x 31] by simp
  then have sign: "(if take_bit 32 raw AND 0x80000000 \<noteq> 0 then take_bit 32 raw - push_bit 32 1 else take_bit 32 raw)
      = signed_word 32 (take_bit 32 raw)"
    by (simp add: signed_word_def push_bit_of_1)
  have "r = (let shifted = drop_bit 14 (signed_word 32 (take_bit 32 raw) + 8192)
      in \<lparr>pcm_shifted = shifted, pcm_value = take_bit 16 (max (- 32767) (min 32767 shifted))\<rparr>)"
    using assms unfolding reference_pcm_conversion_def f32 and_ffff_take Let_def sign
    by (metis sum.distinct(1) sum.inject(2))
  then show ?thesis by (simp add: Let_def)
qed

text \<open>The PCM conversion divides the signed 32-bit sample by 16384, rounds to the
  nearest integer with halves upwards, clamps to the symmetric 16-bit range and returns the two's
  complement word: the signed word is the rounded quotient whenever that lies within the range.\<close>

theorem pcm_conversion_rounds:
  assumes "reference_pcm_conversion raw = Inr r"
  shows "let v = signed_word 32 (take_bit 32 raw) in
    2 * v < 2 * 16384 * pcm_shifted r + 16384 \<and> 2 * 16384 * pcm_shifted r \<le> 2 * v + 16384
    \<and> signed_word 16 (pcm_value r) = max (- 32767) (min 32767 (pcm_shifted r))"
proof -
  define v q where "v = signed_word 32 (take_bit 32 raw)" and "q = pcm_shifted r"
  have q: "q = drop_bit 14 (v + 8192)" "pcm_value r = take_bit 16 (max (- 32767) (min 32767 q))"
    using pcm_low [OF assms] by (simp_all add: v_def q_def)
  have "16384 * q \<le> v + 8192" "v + 8192 < 16384 * q + 16384"
    using drop_bit_bounds [of 14 "v + 8192"] by (simp_all add: q(1))
  moreover have "signed_word 16 (take_bit 16 c) = c" if "- 32767 \<le> c" "c \<le> 32767" for c :: int
  proof (cases "0 \<le> c")
    case True
    then have "take_bit 16 c = c" using that by (simp add: take_bit_int_eq_self)
    moreover have "\<not> bit c 15" using True that by (simp add: bit_iff_odd)
    ultimately show ?thesis by (simp add: signed_word_def)
  next
    case False
    have "c mod 65536 = (c + 65536) mod 65536" by simp
    also have "\<dots> = c + 65536" using False that by (intro mod_pos_pos_trivial) auto
    finally have t: "take_bit 16 c = c + 65536" by (simp add: take_bit_eq_mod)
    moreover have "bit (c + 65536) 15"
    proof -
      have "(c + 65536) div 32768 = 1" using False that by (intro int_div_pos_eq [where r = "c + 32768"]) auto
      then show ?thesis by (simp add: bit_iff_odd)
    qed
    ultimately show ?thesis by (simp add: signed_word_def)
  qed
  ultimately show ?thesis by (simp add: Let_def v_def [symmetric] q_def [symmetric] q(2))
qed

theorem pcm_conversion_rounds_witness:
  "let v = signed_word 32 (take_bit 32 0xffffffffe0) in
    2 * v < 2 * 16384 * 0 + 16384 \<and> 2 * 16384 * 0 \<le> 2 * v + 16384 \<and> signed_word 16 0 = max (- 32767) (min 32767 0)"
proof -
  have "reference_pcm_conversion 0xffffffffe0 = Inr \<lparr>pcm_shifted = 0, pcm_value = 0\<rparr>"
    by (simp add: reference_pcm_conversion_def Let_def)
  from pcm_conversion_rounds [OF this] show ?thesis by simp
qed

section \<open>Copies, sizes and restarts\<close>

text \<open>Within its domain one pass of the copy adapter never moves a cursor
  past its extent, advances both cursors by the same count, and always finishes at least one side; the
  two flags say exactly which.\<close>

theorem copy_adapter_finishes_a_side:
  assumes "reference_copy_adapter se sc de dc = Inr r"
  shows "cp_source_after r \<le> se \<and> cp_destination_after r \<le> de \<and> 0 \<le> cp_count r
    \<and> cp_source_after r - sc = cp_count r \<and> cp_destination_after r - dc = cp_count r
    \<and> cp_source_exhausted r = (cp_source_after r = se) \<and> cp_destination_full r = (cp_destination_after r = de)
    \<and> (cp_source_exhausted r \<or> cp_destination_full r)"
  using assms by (auto simp: reference_copy_adapter_def Let_def min_def split: if_splits)

theorem copy_adapter_finishes_a_side_witness:
  "let r = \<lparr>cp_count = 3, cp_source_after = 5, cp_destination_after = 3, cp_source_exhausted = True, cp_destination_full = False\<rparr>
   in cp_source_after r \<le> 5 \<and> cp_destination_after r \<le> 9"
proof -
  have "reference_copy_adapter 5 2 9 0 = Inr \<lparr>cp_count = 3, cp_source_after = 5, cp_destination_after = 3,
      cp_source_exhausted = True, cp_destination_full = False\<rparr>"
    by (simp add: reference_copy_adapter_def Let_def)
  from copy_adapter_finishes_a_side [OF this] show ?thesis by simp
qed

lemma size_updates_Nil [simp]: "size_updates e us = [] \<longleftrightarrow> us = []"
  by (cases us) (simp_all add: Let_def)

lemma size_updates_last:
  "us \<noteq> [] \<Longrightarrow> su_extent (last (size_updates e us)) = e + 2 * sum_list us"
proof (induction us arbitrary: e)
  case (Cons u us)
  then show ?case by (cases "us = []") (simp_all add: Let_def algebra_simps)
qed simp

lemma size_updates_bounds:
  "\<forall>u \<in> set us. 0 < u \<Longrightarrow> \<forall>s \<in> set (size_updates e us). e < su_extent s \<and> su_extent s \<le> e + 2 * sum_list us"
proof (induction us arbitrary: e)
  case (Cons u us)
  then have "0 \<le> sum_list us" by (intro sum_list_nonneg) (auto intro: less_imp_le)
  then show ?case using Cons.IH [of "e + 2 * u"] Cons.prems by (force simp: Let_def algebra_simps)
qed simp

lemma size_updates_sorted:
  "\<forall>u \<in> set us. 0 < u \<Longrightarrow> sorted_wrt (<) (map su_extent (size_updates e us))"
proof (induction us arbitrary: e)
  case (Cons u us)
  then show ?case using size_updates_bounds [of us "e + 2 * u"] by (simp add: Let_def)
qed simp

text \<open>Rewriting a tag in place makes the accounted file extent grow by the old tag
  and the 110 bytes of the new header and tag, through strictly larger extents that never leave the
  positive 32-bit range.\<close>

theorem metadata_extent_grows:
  assumes "reference_metadata_size_updates file_bytes old_tag_bytes = Inr us"
  shows "su_extent (last us) = file_bytes + old_tag_bytes + 110 \<and> sorted_wrt (<) (map su_extent us)
    \<and> (\<forall>s \<in> set us. file_bytes < su_extent s \<and> su_extent s \<le> 0x7fffffff)"
proof -
  let ?cs = "replicate (nat (old_tag_bytes div 2)) 1 @ [5, 50] :: int list"
  have ok: "50 \<le> old_tag_bytes" "old_tag_bytes mod 2 = 0" "file_bytes \<le> 0x7fffffff - old_tag_bytes - 110"
    and us: "us = size_updates file_bytes ?cs"
    using assms by (auto simp: reference_metadata_size_updates_def split: if_splits)
  have even: "2 * (old_tag_bytes div 2) = old_tag_bytes" using ok(2) by auto
  have "sum_list ?cs = old_tag_bytes div 2 + 55" using ok(1) by (simp add: sum_list_replicate)
  then have sum: "2 * sum_list ?cs = old_tag_bytes + 110" using even by simp
  have pos: "\<forall>u \<in> set ?cs. 0 < u" by auto
  have "su_extent (last us) = file_bytes + 2 * sum_list ?cs" unfolding us by (rule size_updates_last) simp
  moreover have "\<forall>s \<in> set us. file_bytes < su_extent s \<and> su_extent s \<le> file_bytes + 2 * sum_list ?cs"
    unfolding us by (rule size_updates_bounds [OF pos])
  moreover have "sorted_wrt (<) (map su_extent us)" unfolding us by (rule size_updates_sorted [OF pos])
  ultimately show ?thesis using ok(3) unfolding sum by auto
qed

theorem metadata_extent_grows_witness:
  "\<exists>us. reference_metadata_size_updates 1000 50 = Inr us \<and> su_extent (last us) = 1000 + 50 + 110"
proof -
  obtain us where "reference_metadata_size_updates 1000 50 = Inr us" by (simp add: reference_metadata_size_updates_def)
  with metadata_extent_grows [OF this] show ?thesis by blast
qed

text \<open>A sequence of restarts, each from the track the one before selected.\<close>

fun restarts :: "int \<Rightarrow> int \<Rightarrow> int \<Rightarrow> nat \<Rightarrow> int \<Rightarrow> int res" where
  "restarts continuation mode tracks 0 current = Inr current"
| "restarts continuation mode tracks (Suc n) current =
     rbind (resident_cleanup_restart continuation mode current tracks) (\<lambda>r.
       restarts continuation mode tracks n (rs_track r))"

lemma restart_next:
  assumes "u16 continuation" "u16 mode" "mode \<noteq> 3" "1 \<le> current" "current \<le> tracks" "tracks \<le> 0xffff"
  shows "\<exists>r. resident_cleanup_restart continuation mode current tracks = Inr r
    \<and> rs_track r = (if current = tracks then 1 else current + 1)"
proof -
  have ok: "\<forall>v \<in> {continuation, mode, current, tracks}. u16 v" using assms by auto
  have f: "x AND 0xffff = x mod 65536" for x :: int unfolding and_ffff_take by (simp add: take_bit_eq_mod)
  have wrap: "((current + 1) mod 65536 - tracks - 1) mod 65536 = (current - tracks) mod 65536"
    by (simp add: mod_simps algebra_simps)
  have "(current - tracks) mod 65536 = 0 \<longleftrightarrow> current = tracks"
  proof
    assume "(current - tracks) mod 65536 = 0"
    then have "(current - tracks + 65536) mod 65536 = 0" by simp
    show "current = tracks"
    proof (rule ccontr)
      assume "current \<noteq> tracks"
      then have "(current - tracks + 65536) mod 65536 = current - tracks + 65536"
        using assms by (intro mod_pos_pos_trivial) auto
      then show False using assms \<open>(current - tracks + 65536) mod 65536 = 0\<close> by linarith
    qed
  qed simp
  moreover have "(current + 1) mod 65536 = current + 1" if "current \<noteq> tracks"
    using that assms by (intro mod_pos_pos_trivial) auto
  ultimately show ?thesis using assms ok wrap by (auto simp: resident_cleanup_restart_def f Let_def)
qed

text \<open>Unless the mode keeps the track, a run of restarts goes round the tracks in
  order: after \<open>n\<close> of them the track is \<open>n\<close> places further, counted modulo the number of tracks.  So
  every track is reached, and the index never leaves the valid range, even at 65535 tracks.\<close>

theorem restarts_cycle_tracks:
  assumes "u16 continuation" "u16 mode" "mode \<noteq> 3" "1 \<le> current" "current \<le> tracks" "tracks \<le> 0xffff"
  shows "restarts continuation mode tracks n current = Inr ((current - 1 + int n) mod tracks + 1)"
  using assms
proof (induction n arbitrary: current)
  case (Suc n)
  obtain r where r: "resident_cleanup_restart continuation mode current tracks = Inr r"
      "rs_track r = (if current = tracks then 1 else current + 1)"
    using restart_next [OF Suc.prems] by blast
  have "1 \<le> rs_track r" "rs_track r \<le> tracks" using Suc.prems r(2) by auto
  from Suc.IH [OF Suc.prems(1-3) this Suc.prems(6)]
  have "restarts continuation mode tracks (Suc n) current = Inr ((rs_track r - 1 + int n) mod tracks + 1)"
    by (simp add: r(1))
  moreover have "(rs_track r - 1 + int n) mod tracks = (current - 1 + int (Suc n)) mod tracks"
  proof (cases "current = tracks")
    case True
    have "current - 1 + int (Suc n) = int n + tracks" using True by simp
    then show ?thesis using r(2) True by simp
  qed (simp add: r(2))
  ultimately show ?case by simp
qed simp

theorem restarts_cycle_tracks_witness:
  "restarts 2 0 0xffff 3 0xffff = Inr ((0xffff - 1 + int 3) mod 0xffff + 1)"
  by (rule restarts_cycle_tracks) simp_all

end
