(* ===== verification/Mu4_Words.thy ===== *)
theory Mu4_Words
  imports Mu4_Models
begin

text \<open>
  The witness tables of \<open>tools/mu4_context_contract.py\<close>, each a base address with words or a list of
  spans, and the readers of an uploaded image that only its checks use.  The tables are the source's,
  word for word; a dictionary from bases to words is the list of its items.
\<close>

section \<open>Readers of an image\<close>

text \<open>\<open>words[a]\<close>.\<close>

definition word_at :: "word_image \<Rightarrow> int \<Rightarrow> int res" where
  "word_at words a = (case map_of words a of None \<Rightarrow> Inl KeyError | Some v \<Rightarrow> Inr v)"

text \<open>\<open>words.get(a)\<close> with a test and a message that ends with the address.\<close>

definition fetch :: "word_image \<Rightarrow> int \<Rightarrow> (int \<Rightarrow> bool) \<Rightarrow> string \<Rightarrow> int res" where
  "fetch words a ok msg = (case map_of words a of
     None \<Rightarrow> Inl (ValueError (msg @ fmt_x 6 a))
   | Some v \<Rightarrow> if ok v then Inr v else Inl (ValueError (msg @ fmt_x 6 a)))"

definition span_of :: "span list \<Rightarrow> int \<Rightarrow> int list" where
  "span_of spans base = (case map_of spans base of None \<Rightarrow> [] | Some ws \<Rightarrow> ws)"

definition span_set :: "(string \<times> span list) list \<Rightarrow> string \<Rightarrow> span list" where
  "span_set sets marker = (case map_of sets marker of None \<Rightarrow> [] | Some spans \<Rightarrow> spans)"

text \<open>\<open>images[marker]\<close> after the markers have been checked.\<close>

definition segment_words :: "(string, word_image) dict \<Rightarrow> string \<Rightarrow> word_image" where
  "segment_words images marker = (case map_of images marker of None \<Rightarrow> [] | Some words \<Rightarrow> words)"

text \<open>The SHA-256 of a region, its words big-endian; a missing word has its own message.\<close>

definition be_word :: "word_image \<Rightarrow> string \<Rightarrow> int \<Rightarrow> bytes res" where
  "be_word words msg a = (case map_of words a of
     None \<Rightarrow> Inl (ValueError msg)
   | Some v \<Rightarrow> if 0 \<le> v \<and> v \<le> 0xffff then Inr [word_of_int (drop_bit 8 v), word_of_int v] else Inl OverflowError)"

definition region_digest :: "word_image \<Rightarrow> int \<Rightarrow> int \<Rightarrow> string \<Rightarrow> string res" where
  "region_digest words start stop msg =
     rmap (\<lambda>parts. sha256_hex (concat parts)) (rmap_list (be_word words msg) [start..stop - 1])"

text \<open>\<open>Counter(f(v) for v in range(65536))\<close>.\<close>

definition tally :: "(int \<Rightarrow> 'a res) \<Rightarrow> ('a \<times> nat) list res" where
  "tally f = rmap counter (rmap_list f range65536)"

definition count_of :: "'a \<Rightarrow> ('a \<times> nat) list \<Rightarrow> int" where
  "count_of x counts = (case map_of counts x of None \<Rightarrow> 0 | Some n \<Rightarrow> int n)"

section \<open>Inventories over all images\<close>

definition literal_inventory :: "(string, word_image) dict \<Rightarrow> int \<Rightarrow> (string \<times> int list) list \<Rightarrow> bool" where
  "literal_inventory images literal expected \<longleftrightarrow>
     list_all (\<lambda>(marker, addresses). hits literal (segment_words images marker) = addresses) expected"

definition call_inventory :: "(string, word_image) dict \<Rightarrow> int list \<Rightarrow> int \<Rightarrow> (string \<times> int list) list \<Rightarrow> bool" where
  "call_inventory images opcodes target expected \<longleftrightarrow>
     list_all (\<lambda>(marker, addresses). call_hits opcodes target (segment_words images marker) = addresses) expected"

definition mapped_counts :: "(string, word_image) dict \<Rightarrow> json" where
  "mapped_counts images = JObj (map (\<lambda>(marker, words). (marker, JInt (word_count words))) images)"

definition literal_hits :: "(string, word_image) dict \<Rightarrow> int \<Rightarrow> json" where
  "literal_hits images literal = JObj (map (\<lambda>(marker, words). (marker, hex6 (hits literal words))) images)"

definition literal_calls :: "(string, word_image) dict \<Rightarrow> int list \<Rightarrow> int \<Rightarrow> json" where
  "literal_calls images opcodes target =
     JObj (map (\<lambda>(marker, words). (marker, hex6 (call_hits opcodes target words))) images)"

section \<open>Fields of instructions and rows of reports\<close>

definition signed_shift :: "int \<Rightarrow> int" where
  "signed_shift extension = (let shift = extension AND 31 in if shift AND 16 \<noteq> 0 then shift - 32 else shift)"

definition j_opt_str :: "string option \<Rightarrow> json" where
  "j_opt_str v = (case v of None \<Rightarrow> JNull | Some s \<Rightarrow> JStr s)"

definition j_restart :: "restart \<Rightarrow> json" where
  "j_restart r = JObj [(''continuation'', JInt (rs_continuation r)), (''track'', JInt (rs_track r)),
     (''index_advanced'', JBool (rs_advanced r)), (''lifecycle'', JInt (rs_lifecycle r)),
     (''notification'', JInt (rs_notification r)), (''extra_call'', j_opt_str (rs_extra_call r))]"

definition j_cleanup :: "cleanup_route \<Rightarrow> json" where
  "j_cleanup r = JObj [(''cleanup'', JBool (cl_cleanup r)), (''state'', JInt (cl_state r)),
     (''extra_call'', j_opt_str (cl_extra_call r)),
     (''loader_index'', case cl_loader_index r of None \<Rightarrow> JNull | Some n \<Rightarrow> JInt n)]"

section \<open>The witness tables\<close>

text \<open>Of \<open>tools/mu4_clock_contract.py\<close>.\<close>

definition SOURCE_SHA256 :: string where
  "SOURCE_SHA256 = ''65118e00dfd8d78726a45e781e2c7c96714228ec025bc5ccb141d445d85db094''"

definition BASE :: int where
  "BASE = 0x23d73"

definition BIT_WINDOW_BASE :: int where
  "BIT_WINDOW_BASE = 0x2510c"

definition NIBBLE_BASE :: int where
  "NIBBLE_BASE = 0x2c62b"

definition BYTE_COUNT_BASE :: int where
  "BYTE_COUNT_BASE = 0x2ab09"

definition ESCAPE_STORE_BASE :: int where
  "ESCAPE_STORE_BASE = 0x3bdb6"

definition POLY_CALLER_BASE :: int where
  "POLY_CALLER_BASE = 0x260b3"

definition SQUARE_LOOP_BASE :: int where
  "SQUARE_LOOP_BASE = 0x260cd"

definition REGISTER_PRODUCT_BASE :: int where
  "REGISTER_PRODUCT_BASE = 0x25b0d"

definition REGISTER_PRODUCT_WITNESS :: "int list" where
  "REGISTER_PRODUCT_WITNESS =
     [0x1024, 0xf010, 0x0003, 0x880e, 0xf062, 0x0010, 0xf461, 0xf48c, 0x801d]"

definition SQUARE_LOOP_WITNESS :: "int list" where
  "SQUARE_LOOP_WITNESS =
     [0x771a, 0x0002, 0xf272, 0x60ee, 0x7715, 0x1179, 0x7714, 0x1176, 0xe800, 0xa610, 0xf451, 0x3882, 0x8294,
     0x8084]"

definition POLY_CALLER_WITNESS :: "int list" where
  "POLY_CALLER_WITNESS =
     [0x30f8, 0x1170, 0x7712, 0xc22a, 0x4492, 0x4592, 0xec02, 0x3692, 0x4ef8, 0x1174]"

definition ESCAPE_STORE_WITNESS :: "int list" where
  "ESCAPE_STORE_WITNESS =
     [0x1106, 0x08f8, 0x000b, 0xf843, 0xbdd2, 0xf640, 0x10f8, 0x0008, 0x4e0a, 0x560a, 0x7002, 0x0011, 0x4e00]"

definition BYTE_COUNT_WITNESS :: "int list" where
  "BYTE_COUNT_WITNESS =
     [0x10e1, 5, 0xf010, 1, 0x7102, 0x0011, 0x4808, 0xf47d, 0xf000, 1, 0x4808, 0x4ee1, 6]"

definition SERVICE_GATE_BASE :: int where
  "SERVICE_GATE_BASE = 0x204c1"

definition SERVICE_GATE_WITNESS :: "int list" where
  "SERVICE_GATE_WITNESS =
     [0x10e1, 6, 0xf845, 0x04d2, 0x44f8, 0x15d9, 0x3ce1, 0x16, 0x82f8, 0x12, 0xf495, 0xf495, 0x6c82, 0x04d2,
     0x76f8, 0xaa56, 1, 0x10f8, 0xaa56, 0xf845, 0x05ae]"

definition POST_FLAG_BASE :: int where
  "POST_FLAG_BASE = 0x2532e"

definition POST_FLAG_WITNESS :: "int list" where
  "POST_FLAG_WITNESS =
     [0xe801, 0xf982, 0x510c, 0x80f8, 0xba66, 0x10f8, 8, 0xf845, 0x5343, 0x1081, 0xf844, 0x533f, 0xe800, 0xf982,
     0x4538, 0xf073, 0x5343, 0xf020, 0xba66, 0xf982, 0x5232]"

definition FLAG_CONTEXT_BASE :: int where
  "FLAG_CONTEXT_BASE = 0x25f94"

definition FLAG_CONTEXT_WITNESS :: "int list" where
  "FLAG_CONTEXT_WITNESS =
     [0x4a11, 0xeeff, 0xf495, 0x7104, 0x13, 0x7105, 0x12, 0x8811, 0x6ce3, 0xfffe, 0x5fae, 0x7681, 0, 0x76e1, 4, 8,
     0x10e2, 4, 0x80e1, 6, 0x10e2, 5, 0x80e1, 7, 0xf073, 0x5fbe, 0x7681, 1, 0x76e1, 4, 1, 0x10e2, 2, 0x80e1, 6,
     0x10e2, 3, 0x80e1, 7, 0x76e1, 9, 1, 0xee01, 0x8a11, 0xf4e4]"

definition RECORD_HEADER_BASE :: int where
  "RECORD_HEADER_BASE = 0x3a930"

definition RECORD_WINDOW_BASE :: int where
  "RECORD_WINDOW_BASE = 0x3ee2b"

definition RECORD_WINDOW_WITNESS :: "int list" where
  "RECORD_WINDOW_WITNESS =
     [0x4a11, 0xeeed, 0xf495, 0x8002, 0x101b, 0x001a, 0x7118, 0x0011, 0x4808, 0x4e0a, 0x4e00, 0x5681, 0xf983,
     0xe69b, 0xf6b8, 0x4e04]"

definition NIBBLE_WITNESS :: "int list" where
  "NIBBLE_WITNESS =
     [0x4a11, 0xeeff, 0xf495, 0x8000, 0xe803, 0xf6b8, 0x0804, 0x8004, 0x7100, 0x0011, 0x6f04, 0x0c82, 0x1004,
     0xf484, 0x880e, 0xee01, 0x1481, 0x8a11, 0xf030, 0x000f, 0xf495, 0xf495, 0xf4e4]"

definition BIT_WINDOW_WITNESS :: "int list" where
  "BIT_WINDOW_WITNESS =
     [0xed00, 0xf6b6, 0xf6b7, 0xf7b8, 0xf6b9, 0x4a08, 0x7712, 0xa854, 0x1182, 0xf310, 0x0010, 0xfa4e, 0x512e,
     0x7713, 0xa858, 0x7714, 0xb331, 0x7715, 0xb332, 0x1085, 0x0084, 0x8815, 0x5783, 0xf74f, 0xf741, 0x1285,
     0xf2a0, 0x4e83, 0xe901, 0x0184, 0x8184, 0xe910, 0x0182, 0x8182, 0x1182, 0x0900, 0x8182, 0x8a10, 0xf300,
     0xfff0, 0xf784, 0x890e, 0x5683, 0xf48f, 0xf450, 0x32f8, 0x0010, 0xe901, 0xf782, 0xf310, 0x0001, 0xf280,
     0xf030, 0xffff, 0xf4e4]"

definition FILTER_PARENT_WITNESSES :: "span list" where
  "FILTER_PARENT_WITNESSES =
     [(0x2a10c, [0x4a11, 0x4a16, 0x4a17, 0x4a07, 0x8811, 0x1006, 0x8816, 0x1107, 0x8917, 0xf620, 0xf845, 0xa123]),
     (0x2a12c, [0xf982, 0xa139, 0x481d, 0xf030, 0xfffe, 0xf495, 0xf495, 0x881d]), (0x2a139, [0x6fe1, 0x0001,
     0x0d5a, 0x8910, 0x4be1, 0x0004, 0xf495, 0x4a10, 0x11e1, 0x0003, 0x8913, 0x6101, 0x0001, 0xf820, 0xa22e,
     0x6101, 0xfffe, 0xfa30, 0xa152, 0xe800, 0xf495, 0xf273, 0xa22e, 0x8001, 0xf495]), (0xc72a, [0x0002, 0xa10c]),
     (0x2a138, [0xf4e4]), (0x2a152, [0x6101]), (0x2a22e, [0x11e1]), (0x2a2c6, [0x771a]), (0x205d0, [0x7711, 0xaa4e,
     0x7000, 0x0011, 0x10f8, 0xaa5c, 0xf982, 0x9891, 0x7000, 0x0011, 0x10f8, 0xaa5d, 0xf982, 0x9891, 0x1002,
     0x8000, 0x8001, 0x10f8, 0xaa5c, 0xf982, 0x988e, 0x1003, 0x8000, 0x8001, 0x10f8, 0xaa5d, 0xf982, 0x988e]),
     (0x2988e, [0xe909, 0xf882, 0x98b8]), (0x298b8, [0x8812, 0xf845, 0x98c4, 0xf741, 0x0182, 0x8912, 0xf495,
     0xf495, 0x5782, 0xf84d, 0x98c4, 0xf5e6, 0xf020, 0xffff, 0xf4e4]), (0x205a5, [0x10f8, 0xaa5a, 0xf982, 0x98a9,
     0x8811, 0xf495, 0xf495, 0x6c81, 0x05b3, 0x76f8, 0xaa56, 0x0000, 0xf073, 0x05f8, 0x71e7, 0x0012, 0xba9c,
     0x10f8, 0xaa5e]), (0x298a9, [0xe90f, 0xf882, 0x98b8]), (0x2a315, [0x4a11, 0xeeff, 0x8811, 0xf495, 0xf495,
     0x10e1, 0x000d, 0xee01, 0x8a11, 0xf4e4]), (0xc70e, [0x0002, 0xa315])]"

definition FILTER_CALL_SITES :: "int list" where
  "FILTER_CALL_SITES =
     [0x2a23c, 0x2a246, 0x2a250, 0x2a25a, 0x2a264]"

definition OUTPUT_PROCESSING_BASE :: int where
  "OUTPUT_PROCESSING_BASE = 0x2a2c6"

definition OUTPUT_PROCESSING_WITNESS :: "int list" where
  "OUTPUT_PROCESSING_WITNESS =
     [0x771a, 0x003f, 0x7710, 0x0001, 0xf072, 0xa2e9, 0xe900, 0x941e, 0x3087, 0x8c83, 0x2892, 0xa78d, 0xb081,
     0xa701, 0xf45f, 0xf75f, 0xa743, 0xb00f, 0xa7e4, 0xa743, 0xb003, 0xa724, 0xf610, 0xf442, 0xf584, 0x8184,
     0x8385, 0xa583, 0xf604, 0x2584, 0xf614, 0x6f87, 0x0c0f, 0x2187, 0xf603, 0x8297, 0xf4e4]"

definition OUTPUT_SCALE_WITNESSES :: "span list" where
  "OUTPUT_SCALE_WITNESSES =
     [(0x29fa6, [0xf6b9, 0xf7b8, 0xf6b6, 0x491d, 0xf340, 0x0021, 0xf495, 0xf495, 0x891d]), (0x29fc6, [0x771a,
     0x003f]), (0x29fea, [0xf072, 0x9fee, 0xa4b0, 0x6f91, 0x0c64, 0x6c8f, 0x9fc6])]"

definition PLAYBACK_SWITCH_CALLS :: "int list" where
  "PLAYBACK_SWITCH_CALLS =
     [0x2018b, 0x201de, 0x201ec, 0x2023d, 0x20375]"

definition RECORDER_MAC_BASE :: int where
  "RECORDER_MAC_BASE = 0x3ba16"

definition RECORDER_MAC_WITNESS :: "int list" where
  "RECORDER_MAC_WITNESS =
     [0x7109, 0x0012, 0x10e2, 0x0001, 0x6582, 0x0009, 0x4816, 0xf600, 0x8812, 0xf495, 0xf7b8]"

definition COPY_ADAPTER_WITNESSES :: "span list" where
  "COPY_ADAPTER_WITNESSES =
     [(0x2a31f, [0x4a11, 0xeeff, 0x8814, 0xf495, 0xf7b8, 0x56e4, 0x0004, 0x54e4, 0x0002, 0xf844, 0xa369]),
     (0x2a32a, [0x10e4, 0x0007, 0x08e4, 0x0008, 0x8812, 0x10e4, 0x000b, 0x08e4, 0x000c, 0x11f8, 0x0012, 0x09f8,
     0x0008, 0xf84e, 0xa33d, 0x76e4, 0x0009, 0x0001, 0xe721, 0x11f8, 0x0008, 0x09f8, 0x0012, 0xf84e, 0xa347,
     0x76e4, 0x000d, 0x0001, 0x8811]), (0x2a347, [0x11e4, 0x0008, 0xf640, 0x00e4, 0x0006, 0x8813]), (0x2a34d,
     [0x4811, 0xf600, 0x80e4, 0x0008]), (0x2a351, [0x11e4, 0x000c, 0xf640, 0x00e4, 0x000a, 0x8812]), (0x2a357,
     [0x4811, 0xf600, 0x80e4, 0x000c]), (0x2a35b, [0x10f8, 0x0011, 0xf847, 0xa36d, 0x4811, 0xf010, 0x0001, 0x881a,
     0xf495, 0xf072, 0xa366, 0xe598, 0xf073, 0xa36d])]"

definition DECODER_OUTPUT_WITNESSES :: "span list" where
  "DECODER_OUTPUT_WITNESSES =
     [(0x23d73, [0x710d, 0x0011, 0x7181, 0xb332, 0x76f8, 0xb331, 0x0000]), (0x23de5, [0xf982, 0x4610, 0x800f,
     0xf073, 0x3def, 0xf7b8, 0xf495, 0xf020, 0xffff, 0x800f, 0x10f8, 0xb331, 0x8010, 0x710f, 0x0011, 0x6c81,
     0x3e59]), (0x23e09, [0x7105, 0x0017, 0x100c, 0xf010, 0x0001, 0x8811, 0x1006, 0x800c, 0xf020, 0x0400, 0x8011,
     0x710c, 0x0012, 0x7600, 0x000e, 0x5692, 0x700c, 0x0012, 0xf982, 0x48a6, 0x8099, 0x7600, 0x000e, 0x5697,
     0xf982, 0x48a6, 0x80e1, 0x0400, 0x7111, 0x0012, 0x6eea, 0xffff, 0x3e14, 0x7011, 0x0012])]"

definition DECODER_DISPATCH_WITNESSES :: "span list" where
  "DECODER_DISPATCH_WITNESSES =
     [(0xc6a0, [0x0002, 0x3d5d]), (0x29879, [0xe90d, 0xf882, 0x98b8]), (0x298b8, [0x8812, 0xf845, 0x98c4, 0xf741,
     0x0182, 0x8912, 0xf495, 0xf495, 0x5782, 0xf84d, 0x98c4, 0xf5e6, 0xf020, 0xffff, 0xf4e4]), (0x2936d, [0x10f8,
     0x1310, 0xf845, 0x9375, 0x7711, 0, 0xf073, 0x9377, 0x7711, 0x0400]), (0x293a2, [0x10f8, 0x15e9, 0xf982,
     0x96ac, 0x10f8, 0x15e9, 0xf982, 0x973c, 0x8812, 0xf495, 0xe710, 0xf5aa, 0xf830, 0x940b, 0x7211, 0x15d9,
     0x4811, 0x1ae6, 0x0016, 0xf845, 0x940b]), (0x293c6, [0x10e6, 0x0012, 0x8001, 0x7000, 0x15e9, 0x10f8, 0x15eb,
     0xf982, 0x9879, 0x8811]), (0x23d5d, [0x4a11, 0x4a16, 0x4a17, 0xeeed, 0x8816, 0x1019, 0x800c, 0x1018, 0x800d,
     0x10e6, 2, 0x8006, 0x10e6, 3, 0x8005, 0x100c, 0x8004, 0x100d, 0xf982, 0x973c]), (0x2973c, [0x4a11, 0xeeff,
     0x8811, 0xf495, 0xf495, 0x10e1, 1, 0x0881, 0xee01, 0x8a11, 0xf4e4]), (0x23e2c, [0x10e6, 1, 0xf982, 0x9f2b]),
     (0x29f2b, [0xe90c, 0xf882, 0x98b8])]"

definition PLAYBACK_INFO_QUERY_WITNESSES :: "span list" where
  "PLAYBACK_INFO_QUERY_WITNESSES =
     [(0x20973, [0xeefe, 0x76f8, 0x130f, 0, 0xf020, 0x1307, 0x8000, 0x10f8, 0x15ea, 0xf982, 0x9882, 0xee02, 0xf495,
     0xf4e4]), (0x29882, [0xe90b, 0xf882, 0x98b8]), (0x27823, [0x76f8, 0x15eb, 0xaaac, 0x76f8, 0x15ea, 0x9cf8]),
     (0x2744b, [1, 0x9cf8, 0xc738]), (0xc738, [0xc738]), (0xc744, [2, 0x9c84]), (0xc74e, [0, 0]), (0x298b8,
     [0x8812, 0xf845, 0x98c4, 0xf741, 0x0182, 0x8912, 0xf495, 0xf495, 0x5782, 0xf84d, 0x98c4, 0xf5e6, 0xf020,
     0xffff])]"

definition DECODER_METHOD_PREFIX_BASE :: int where
  "DECODER_METHOD_PREFIX_BASE = 0xc686"

definition DECODER_RETURN_BASE :: int where
  "DECODER_RETURN_BASE = 0x293cf"

definition WORKER_RESERVATION_WITNESSES :: "span list" where
  "WORKER_RESERVATION_WITNESSES =
     [(0x293b0, [0x7211, 0x15d9, 0x4811, 0x1ae6, 0x16, 0xf845, 0x940b, 0x10f8, 0x15d8, 0xf844, 0x93be, 0x76f8,
     0x15d8, 1, 0x6c81, 0x93c6, 0x4816, 0xf982, 0x44a, 0x76f8, 0x15d9, 1]), (0x2044a, [0xf6be, 0x8812, 0xf495,
     0xf495, 0xf274, 0x182, 0x6dea, 0x16, 0xf7be, 0xf4e4]), (0x20182, [0x6b82, 0xffff, 0x108a, 0xfa45, 0x18f,
     0x718a, 0x13, 0x4a12, 0xe734, 0xf074, 0x478, 0x8a12, 0xf495]), (0x29321, [0x7211, 0x15d9]), (0x29334, [0x76f8,
     0x15d9, 1]), (0x2935c, [0x76f8, 0x15d9, 0]), (0x293e1, [0x76f8, 0x15d9, 0]), (0x201c7, [0x7192, 0x13, 0x6d92,
     0x6b83, 1]), (0x27058, [9, 0xd797, 0, 0, 0x0800, 0xaa85, 0xd7b0, 0, 0, 0xd7ac, 0x054f]), (SERVICE_GATE_BASE,
     SERVICE_GATE_WITNESS)]"

definition CONTEXT_LANE_CALLS :: "span list" where
  "CONTEXT_LANE_CALLS =
     [(0x44a, [0x204a6, 0x27a99, 0x29332, 0x293c1]), (0x454, [0x205f3, 0x27a9c, 0x2935a, 0x293ed]), (0x461,
     [0x20508, 0x27a9f, 0x28fee]), (0x46b, [0x204bc, 0x20581, 0x2059c, 0x28feb])]"

definition CONTEXT_LANE_WITNESSES :: "span list" where
  "CONTEXT_LANE_WITNESSES =
     WORKER_RESERVATION_WITNESSES ! 1 #
     [(0x20454, [0xf6be, 0x8812, 0xf495, 0xf495, 0xf495, 0xf495, 0x6dea, 0x13, 0x4492, 0xf074, 0x1b3, 0xf7be,
     0xf4e4]), (0x20461, [0xf6be, 0x8812, 0xf495, 0xf495, 0xf274, 0x182, 0x6dea, 6, 0xf7be, 0xf4e4]), (0x2046b,
     [0xf6be, 0x8812, 0xf495, 0xf495, 0xf495, 0xf495, 0x4482, 0xf274, 0x1b3, 0x6dea, 4, 0xf7be, 0xf4e4]), (0x201b3,
     [0xf7b8, 0x718a, 0x13, 0x6d8a, 0x1a92, 0xf540, 0x8093, 0x8293, 0x1283, 0x809a, 0x6dea, 3, 0x1292, 0xf845,
     0x1c7, 0x4a12, 0x6d8a, 0xf074, 0x198, 0x8a12, 0x7192, 0x13, 0x6d92, 0x6b83, 1, 0xe723]), (0x28fe6, [0x10f8,
     0xaaa2, 0xf845, 0x8fed, 0x4811, 0xf982, 0x46b, 0x4811, 0xf982, 0x461, 0x76f8, 0xaaa2, 1, 0x76f8, 0xaaa4, 0,
     0x76f8, 0xaaa3, 0])]
     @ concat (map (\<lambda>(target, sites). map (\<lambda>site. (site, [0xf982, target])) sites) CONTEXT_LANE_CALLS)"

definition EXCHANGE_PUBLICATION_WITNESSES :: "span list" where
  "EXCHANGE_PUBLICATION_WITNESSES =
     [(0x20545, [0x10f8, 0xaa5a, 0xf982, 0x989d, 0x10f8, 0xaa5b, 0xf982, 0x989d, 0x10f8, 0xaa5a, 0xf982, 0x98a6,
     0xf495, 0x4808, 0xf845, 0x586, 0x10f8, 0x1310, 0xf845, 0x580, 0x10f8, 0x15e9, 0xf982, 0x96ac, 0x10f8, 0x15e9,
     0x7716, 0, 0xf982, 0x973c, 0x8812, 0xf495, 0xf495, 0x6c82, 0x56a, 0x7716, 1, 0x11e1, 0x16, 0xe800, 0xf84c,
     0x570, 0xe801, 0x4916, 0xf2a0, 0x10f8, 8, 0xf845, 0x580, 0x10f8, 0x15e7, 0xf982, 0x969e, 0x76f8, 0x1310, 0,
     0x76f8, 0x12fa, 1, 0x4811, 0xf982, 0x46b, 0x76f8, 0xaa55, 0]), (0x2989d, [0xe90b, 0xf882, 0x98b8, 0xe90c,
     0xf882, 0x98b8, 0xe90d, 0xf882, 0x98b8, 0xe90e, 0xf882, 0x98b8]), (0xc70c, [2, 0xa30b]), (0x2a30b, [0x4a11,
     0xeeff, 0x8811, 0xf495, 0xf495, 0x10e1, 9, 0xee01, 0x8a11, 0xf4e4]), (0x2973c, [0x4a11, 0xeeff, 0x8811,
     0xf495, 0xf495, 0x10e1, 1, 0x0881, 0xee01, 0x8a11, 0xf4e4])]"

definition DECODER_RETURN_WITNESS :: "int list" where
  "DECODER_RETURN_WITNESS =
     [0x8811, 0x71e6, 0x12, 0xba9c, 0xf020, 0x15ee, 0x8000, 0x10f8, 0x15eb, 0xf982, 0x9873, 0x10f8, 0x15f0, 0x6ff8,
     0x15f0, 0xc81, 0x6c81, 0x93f1, 0x76f8, 0x15d9, 0, 0x76f8, 0x15f1, 1, 0x10f8, 0x15ef, 0x6fe6, 0x13, 0xc81,
     0x4816, 0xf982, 0x454, 0xf073, 0x93fe, 0x6ce1, 0xfffe, 0x93fe, 0x10f8, 0x15ea, 0xf982, 0x9885, 0x10f8, 0x15eb,
     0xf982, 0x9876, 0xf982, 0x61e, 0x10f8, 0x15e9, 0xf982, 0x96ac, 0xf073, 0x940b]"

definition DECODER_RETURN_WRAPPERS :: "span list" where
  "DECODER_RETURN_WRAPPERS =
     [(0x29873, [0xe909, 0xf882, 0x98b8]), (0x29876, [0xe90b, 0xf882, 0x98b8]), (0x29885, [0xe90c, 0xf882,
     0x98b8])]"

definition DECODER_METHOD_PREFIX :: "int list" where
  "DECODER_METHOD_PREFIX =
     [0xc686, 0, 0, 0, 0, 0, 0, 0, 0, 0, 0, 0, 2, 0x3d27, 0, 0, 0, 0, 2, 0x3e64, 2, 0x3ef8, 2, 0x3d41, 2, 0x3d5a,
     2, 0x3d5d]"

definition DECODER_POST_FRAME_BASE :: int where
  "DECODER_POST_FRAME_BASE = 0x23d5a"

definition DECODER_POST_FRAME :: "int list" where
  "DECODER_POST_FRAME =
     [0xf495, 0xf495, 0xf4e4]"

definition DECODER_INFO_PREFIX_BASE :: int where
  "DECODER_INFO_PREFIX_BASE = 0x23e64"

definition DECODER_INFO_PREFIX :: "int list" where
  "DECODER_INFO_PREFIX =
     [0x4a11, 0xeefb, 0xf495, 0x7108, 0x0014, 0x8811, 0x76e4, 1, 0x0400, 0x10e1, 1, 0x80e4, 10]"

definition DECODER_INFO_RESTORE_BASE :: int where
  "DECODER_INFO_RESTORE_BASE = 0x23ef8"

definition DECODER_INFO_RESTORE :: "int list" where
  "DECODER_INFO_RESTORE =
     [0x4a11, 0xeeff, 0xf495, 0x7104, 0x0012, 0x8811, 0x10e2, 10, 0x80e1, 1, 0xee01, 0x8a11, 0xf4e4]"

definition DECODER_INFO_BODY :: "int list" where
  "DECODER_INFO_BODY =
     (DECODER_INFO_PREFIX @ [0x7712, 0, 0x10f8, 0xba4f, 0xf845, 0x3e7d, 0x10f8, 0xba51, 0xf844, 0x3e7d, 0x7712, 1,
     0x70e4, 3, 0x0012, 0x6c82, 0x3e99, 0xf6b8, 0xf495, 0xf020, 0xac44, 0x4ee4, 6, 0xf062, 1, 0xf040, 0xf400,
     0x4ee4, 4, 0x76e4, 2, 0x0485, 0x76e4, 8, 2, 0x76e4, 9, 0, 0xf073, 0x3ef5, 0x62f8, 0xa89e, 6, 0x8812, 0xf495,
     0xf495, 0x56e2, 0xc152, 0x4ee4, 6, 0x10f8, 0xba4e, 0xf845, 0x3eb1, 0x57f8, 0xa874, 0xf7b8, 0xf640, 0xf468,
     0xf478, 0xf845, 0x3eb1, 0x4fe4, 4, 0x71e1, 4, 0x0012, 0x6c82, 0x3ebb, 0x76e4, 3, 0, 0xf073, 0x3ee4, 0xf7b8,
     0x10f8, 0x0012, 0x4e00, 0x56e4, 6, 0xf980, 0x2096, 0xf7b8, 0xf468, 0xf478, 0xf57b, 0xf3f6, 0xf3f0, 0xf600,
     0xf47a, 0x4e02, 0x7712, 0xc6a2, 0x7713, 0x000e, 0x5602, 0x5702, 0x58e2, 2, 0x5582, 0xf468, 0xf768, 0xf478,
     0xf778, 0xf520, 0xf84b, 0x3ee1, 0x6dea, 2, 0x6ceb, 0xffff, 0x3ed0, 0x5682, 0x4ee4, 4, 0xe860, 0x4e00, 0x56e4,
     4, 0xf982, 0x9bdd, 0xf000, 1, 0x80e4, 2, 0x70e4, 8, 0xa89c, 0x10e1, 8, 0x80e4, 9, 0xee05, 0x8a11, 0xf4e4])"

definition DECODER_INFO_LEVEL_BASE :: int where
  "DECODER_INFO_LEVEL_BASE = 0xc6a2"

definition DECODER_INFO_LEVELS :: "int list" where
  "DECODER_INFO_LEVELS =
     [8000, 16000, 24000, 32000, 40000, 48000, 56000, 64000, 80000, 128000, 160000, 192000, 256000, 320000, 384000,
     0x7fffffff]"

definition DECODER_INFO_HELPER_VECTOR :: "int list" where
  "DECODER_INFO_HELPER_VECTOR =
     [0xf880, 0x3518]"

definition DECODER_INFO_HELPER_BODY :: "int list" where
  "DECODER_INFO_HELPER_BODY =
     [0xf495, 0x4a0b, 0x4a0c, 0x4a0d, 0x4a0e, 0xeefc, 0xf495, 0x4e00, 0x310b, 0x440a, 0x3501, 0x240b, 0xf76f,
     0xf601, 0xee04, 0x8a0e, 0x8a0d, 0x8a0c, 0x8a0b, 0xf4e4]"

definition DECODER_INFO_DIVIDE_BASE :: int where
  "DECODER_INFO_DIVIDE_BASE = 0x29bdd"

definition DECODER_INFO_DIVIDE :: "int list" where
  "DECODER_INFO_DIVIDE =
     [0xf495, 0x4a0b, 0x4a0c, 0x4a0d, 0xeefd, 0xf7b8, 0xf468, 0xf478, 0x4508, 0xf1c0, 0x8300, 0xf485, 0x5708,
     0xf785, 0x4f08, 0xf520, 0xf84d, 0x9bfd, 0xf84e, 0x9c01, 0xf982, 0x9c62, 0x6100, 0x8000, 0xf820, 0x9bf8,
     0xf484, 0xee03, 0x8a0d, 0x8a0c, 0x8a0b, 0xf4e4, 0xf273, 0x9bf3, 0xe801, 0xf495, 0xf273, 0x9bf8, 0xf420,
     0xf495]"

definition DECODER_INFO_DIVIDE_WORKER_BASE :: int where
  "DECODER_INFO_DIVIDE_WORKER_BASE = 0x29c62"

definition DECODER_INFO_DIVIDE_WORKER :: "int list" where
  "DECODER_INFO_DIVIDE_WORKER =
     [0xf495, 0x4a11, 0xeeff, 0xf6b8, 0xf273, 0x9c6b, 0x7711, 0x001f, 0x6d89, 0xf0e1, 0xf808, 0x9c6a, 0xe901,
     0x550c, 0xf84b, 0x9c76, 0xf273, 0x9c77, 0xf040, 1, 0x530c, 0x6c89, 0x9c7c, 0xee01, 0x8a11, 0xf4e4, 0xf3e1,
     0xf0e1, 0xf808, 0x9c6f, 0xf273, 0x9c6f, 0xf340, 1]"

definition PLAYBACK_BUFFER_REFRESH_BASE :: int where
  "PLAYBACK_BUFFER_REFRESH_BASE = 0x296ac"

definition PLAYBACK_BUFFER_REFRESH_WITNESS :: "int list" where
  "PLAYBACK_BUFFER_REFRESH_WITNESS =
     [0x4a11, 0x4a16, 0x4a17, 0xeefd, 0x8816, 0xf495, 0xf495, 0x71e6, 0x0008, 0x0017, 0x71e6, 0x0009, 0x0011,
     0x4811, 0xf845, 0x96e1, 0x71e1, 0x0001, 0x0011, 0x71e6, 0x0005, 0x0013, 0xe710, 0xf6ab, 0xf820, 0x96e1,
     0x4911, 0x4813, 0xf620, 0x8002, 0x4913, 0x10e6, 0x0006, 0x71e6, 0x0005, 0x0012, 0xf620, 0x7000, 0x0012,
     0x8001, 0xfb82, 0x99cc, 0xf495, 0x4811, 0x1102, 0x10e6, 0x0006, 0xf620, 0x80e6, 0x0006, 0x70e6, 0x0005,
     0x0011, 0x4817, 0xf845, 0x9737, 0x71e6, 0x0001, 0x0012, 0xf6b8, 0x4812, 0x08e7, 0x0005, 0xf844, 0x96ff,
     0x7186, 0x0010, 0xf7aa, 0xf830, 0x96f6, 0x56e7, 0x000a, 0x4ee6, 0x000a, 0x71e7, 0x0006, 0x0012, 0x70e7,
     0x0005, 0x0012, 0x70e6, 0x0001, 0x0012, 0x71e6, 0x0007, 0x0011, 0x71e6, 0x0006, 0x0014, 0x7186, 0x0013,
     0xe737, 0x4914, 0x4817, 0xf620, 0x8817, 0xf7b8, 0x10f8, 0x0017, 0x08f8, 0x0011, 0xf847, 0x9737, 0x4911,
     0x4817, 0xf620, 0x8817, 0x4814, 0x00f8, 0x0011, 0x8811, 0x4913, 0x4812, 0x7186, 0x0014, 0xf620, 0x8812,
     0x7000, 0x0014, 0x7001, 0x0012, 0xfb82, 0x99cc, 0xf495, 0x4811, 0xf495, 0x70e6, 0x0003, 0x0011, 0x7086,
     0x0011, 0x4917, 0x10e6, 0x0001, 0xf620, 0x80e6, 0x0001, 0x80e6, 0x0004, 0xee03, 0x8a17, 0x8a16, 0x8a11,
     0xf4e4]"

definition PCM_CONVERSION_WITNESSES :: "span list" where
  "PCM_CONVERSION_WITNESSES =
     [(0x248a6, [0xeefc, 0xf495, 0x1106, 0x7600, 0, 0xf784, 0x7602, 0, 0x8101, 0xf982, 0x4e38, 0xf7b8, 0xf540,
     0xf768, 0xf778, 0xf84b, 0x48c4, 0xf540, 0xf768, 0xf778, 0xf6b8, 0xf495, 0xf310, 0x8000, 0xf84b, 0x48cf,
     0xf020, 0x7fff, 0xf073, 0x48cf, 0xf540, 0xf768, 0xf778, 0xf310, 0x8001, 0xf84a, 0x48cf, 0xf062, 0xffff,
     0xf040, 0x8001, 0xee04, 0xf495, 0xf4e4]), (0x24e38, [0x4a11, 0xeefd, 0xf495, 0x7107, 0x0012, 0x7106, 0x0011,
     0x7108, 0x0013, 0x4911, 0x01f8, 0x0012, 0x7000, 0x0011, 0x8101, 0xf982, 0x4d43, 0x7001, 0x0013, 0x7000,
     0x0011, 0xf982, 0x4d43, 0xee03, 0x8a11, 0xf4e4]), (0x24d43, [0x4a11, 0xeefd, 0xf495, 0x1106, 0x8102, 0x7107,
     0x0012, 0x4912, 0x0902, 0x8911, 0x11f8, 0x0012, 0x7102, 0x0012, 0x09f8, 0x0012, 0xf84d, 0x4d7f, 0xf7b8,
     0x11f8, 0x0011, 0xf84f, 0x4d60, 0x7000, 0x0011, 0xf982, 0xa7fb, 0xf073, 0x4d7f, 0x6ce1, 0x0001, 0x4d6a,
     0xf000, 1, 0xf468, 0xf478, 0xf47f, 0xf073, 0x4d7f, 0x11f8, 0x0011, 0xf310, 0xffe2, 0xf84f, 0x4d7e, 0x4911,
     0xf793, 0xf784, 0x8100, 0xf982, 0xa807, 0xf7b8, 0xf000, 1, 0xf468, 0xf478, 0xf47f, 0xf073, 0x4d7f, 0xe800,
     0xee03, 0x8a11, 0xf4e4]), (0x2a807, [0xf7b8, 0xf468, 0xf478, 0x6102, 0x0010, 0xfa30, 0xa815, 0x6002, 0,
     0xf830, 0xa819, 0xf470, 0x6902, 0x0010, 0x3202, 0xf6e4, 0xf482, 0xf495, 0xf4e4])]"

definition MONO_OUTPUT_BASE :: int where
  "MONO_OUTPUT_BASE = 0x23df6"

definition MONO_OUTPUT_WITNESS :: "int list" where
  "MONO_OUTPUT_WITNESS =
     [0x60f8, 0xa89c, 1, 0xf820, 0x3dfd, 0x1006, 0x8005]"

definition DECODER_FRAMING_BASE :: int where
  "DECODER_FRAMING_BASE = 0x23d73"

definition DECODER_INPUT_DESCRIPTOR_WITNESSES :: "span list" where
  "DECODER_INPUT_DESCRIPTOR_WITNESSES =
     [(0x2973c, [0x4a11, 0xeeff, 0x8811, 0xf495, 0xf495, 0x10e1, 1, 0x0881, 0xee01, 0x8a11, 0xf4e4]), (0x23d6e,
     [0x100d, 0xf982, 0x973c, 0x80f8, 0xb330]), (0x23def, [0x10f8, 0xb331, 0x8010]), (0x23e59, [0x710d, 0x0011,
     0x1010, 0x0081, 0x8081, 0x100f, 0xee13, 0x8a17, 0x8a16, 0x8a11, 0xf4e4])]"

definition DECODER_INPUT_RESERVE_BASE :: int where
  "DECODER_INPUT_RESERVE_BASE = 0x24425"

definition DECODER_INPUT_RESERVE_WITNESS :: "int list" where
  "DECODER_INPUT_RESERVE_WITNESS =
     [0x6ff8, 0xb331, 0x0d00, 0x81f8, 0xb331, 0x7210, 0xb330, 0x8912, 0x6de8, 0xfff8, 0xf6aa, 0xf820, 0x4438,
     0xf520, 0x81f8, 0xb331, 0xe800, 0xf073, 0x443c]"

definition POCP_COUNT_WITNESSES :: "span list" where
  "POCP_COUNT_WITNESSES =
     [(0x2adb2, [0xeefc, 0xf495, 0x8002, 0xe810, 0x4e00, 0x1002, 0xf982, 0xad94, 0xee04, 0xe810, 0xf495, 0xf495,
     0xf4e4]), (0x2aea5, [0x715d, 0x0011, 0x7710, 0x0200, 0x7181, 0x0011, 0xf5a9, 0xf820, 0xaeba, 0x715d, 0x0011,
     0x7681, 0x0200, 0xf7b8, 0xf495, 0xf062, 0x8004, 0xf273, 0xaf83, 0xf040, 0x0006]), (0x2aeff, [0xe8ff, 0x715d,
     0x0011, 0x1381, 0xf280, 0x715c, 0x0011, 0x80e1, 8, 0x715d, 0x0011, 0x1281, 0xf1f8, 0xe8ff, 0xf280, 0x715c,
     0x0011, 0x80e1, 9, 0x715d, 0x0011, 0x1281, 0xf1f0, 0xe8ff, 0xf280, 0x715c, 0x0011, 0x80e1, 10, 0x715d, 0x0011,
     0x1281, 0xf1f0, 0xf3f8, 0xe8ff, 0x715c, 0x0011, 0xf280, 0x80e1, 11]), (0x2af27, [0x105c, 0xfb82, 0xadb2,
     0xf000, 0x0010, 0xf540, 0x4e04, 0xe8ff, 0xf280, 0x715c, 0x0011, 0xf6b8, 0x80e1, 12, 0x5604, 0xf1f8, 0xe8ff,
     0xf280, 0x715c, 0x0011, 0x80e1, 13, 0x5604, 0xf1f0, 0xe8ff, 0x715c, 0x0011, 0xf280, 0x80e1, 14, 0x5604,
     0xf1f0, 0xf3f8, 0xe8ff, 0xf280, 0xf7b8, 0x715c, 0x0011, 0x80e1, 15])]"

definition RECORDER_STOP_FRONTEND :: "span list" where
  "RECORDER_STOP_FRONTEND =
     [(0x285dc, [0x76f8, 0x3750, 0, 0x60f8, 0x3762, 8, 0xf820, 0x85e7, 0xe80a, 0xf073, 0x85e8, 0xe809, 0x80f8,
     0x3762, 0x7105, 0x3763, 0xf983, 0x84fc, 0xf983, 0x86ec]), (0x384fc, [0xeefe, 0x76f8, 0xedc3, 0, 0xe800,
     0x7600, 0, 0x7601, 1, 0xf983, 0x92ae, 0xee02, 0xf495, 0xf4e4]), (0x386ec, [0xeefe, 0xf020, 0x0500, 0x7600,
     0x0080, 0xf983, 0x88ad, 0x7600, 9, 0xf020, 0x0a00, 0xf983, 0x88ad, 0xee02, 0xf495, 0xf4e4]), (0x388ad,
     [0x4a11, 0xeeff, 0xf495, 0x1104, 0x7711, 0x0048, 0x7681, 1, 0x61e1, 1, 2, 0xf820, 0x88b5, 0xf1a0, 0x7712,
     0x0043, 0x8182, 0xf020, 0x0218, 0xf983, 0x9333, 0x61e1, 1, 2, 0xf820, 0x88c2, 0xee01, 0x8a11, 0xf4e4]),
     (0x392ae, [0x4a11, 0xeefd, 0xf495, 0x1106, 0x7107, 0x0012, 0x7711, 0xfd85, 0x7681, 3, 0x80e1, 1, 0x81e1, 2,
     0x70e1, 3, 0x0012, 0x4811, 0x7600, 4, 0xf983, 0x95e6, 0xee03, 0x8a11, 0xf4e4]), (0x39443, [0x7711, 0xfd85,
     0x6081, 0x8009, 0xf830, 0x944c, 0x4811, 0xf073, 0x947f, 0x60f8, 0xfd86, 1, 0xf820, 0x9476, 0x76f8, 0x3750, 0,
     0xf7b8, 0x7211, 0x3762, 0x10f8, 0x0011, 0xf010, 8, 0xf845, 0x9465, 0x6ce1, 0xfff9, 0x9468, 0x76f8, 0x3762,
     0x0010, 0xf073, 0x9468, 0x76f8, 0x3762, 0x0011, 0x76f8, 0x373e, 2, 0xf983, 0x86ec, 0x7600, 1, 0xf020, 0x3aea,
     0xf980, 0x2082, 0xe800, 0xf980, 0x2080])]"

definition RECORDER_STOP_MAILBOX :: "span list" where
  "RECORDER_STOP_MAILBOX =
     [(0x395ac, [0x8812, 0xf495, 0x7713, 0x0080, 0xec0f, 0xe598, 0xf495, 0xf495, 0xf4e4]), (0x395b5, [0x4a11,
     0xeeff, 0xf495, 0x7104, 0x0014, 0x1105, 0x8813, 0xf300, 0x000f, 0x8911, 0xe80f, 0x771a, 0x000f, 0xf072,
     0x95d7, 0xf7b8, 0x11f8, 0x0008, 0x09f8, 0x0014, 0xf84b, 0x95ce, 0xe900, 0xf073, 0x95d4, 0x4913, 0xf500,
     0x8912, 0xf495, 0xf495, 0x1182, 0x8181, 0x6d89, 0xf010, 1, 0xee01, 0x8a11, 0xf4e4]), (0x395e6, [0x4a11,
     0x4a16, 0xeefe, 0xf495, 0x7106, 0x0016, 0x8811, 0xf073, 0x95f1, 0xf982, 0x1f2f, 0xf982, 0x1f24, 0x61f8,
     0x0080, 0x8000, 0xf820, 0x95ef, 0xf020, 0x0080, 0x7000, 0x0016, 0x8001, 0x4811, 0xf983, 0x95b5, 0x56f8,
     0xefe6, 0xf845, 0x9605, 0xf4e7, 0xf982, 0x1f2f, 0xee02, 0x8a16, 0x8a11, 0xf4e4]), (0x3962f, [0x4ef8, 0xefe6,
     0xe801, 0xf495, 0xf495, 0xf4e4]), (0x708a, [0xf062, 3, 0xf040, 0x8c13, 0xf983, 0x962f, 0xf495, 0xf495,
     0xf4e4]), (0x2064, [0x4a1e, 0xf495, 0xf883, 0x8ad2]), (0x38c13, [0x76f8, 0x05cd, 1, 0xf7d9, 0xf495, 0xf495,
     0xf4e4]), (0x38b0d, [0x7102, 0x0012, 0x10f8, 0x0012, 0xf010, 0x0012, 0xf846, 0x8b2c, 0x10f8, 0x0012, 0xf010,
     0x0012, 0xf845, 0x8b74, 0x7710, 2, 0xf4aa, 0xf830, 0x8bd8, 0x7710, 3, 0xf4aa, 0xf830, 0x8bbf]), (0x38bbf,
     [0x76f8, 0x05ea, 0, 0x76f8, 0x05ce, 0, 0x1003, 0xe900, 0xf844, 0x8bca, 0xe901, 0x81f8, 0x05eb, 0x10f8, 0x05eb,
     0xf845, 0x8bd3, 0x76f8, 0x05f3, 1, 0x76f8, 0x05f0, 0, 0xf073, 0x8be4]), (0x38be4, [0x6902, 0x8000, 0x4818,
     0x7000, 0x0011, 0xf000, 2, 0xf982, 0x9736]), (0x38a66, [0x10f8, 0x05f3, 0xf844, 0x8a9b]), (0x38a9b, [0x10f8,
     0x05f1, 0xf844, 0x8aa4, 0x76f8, 0x05f2, 1, 0xf073, 0x8acf, 0x7602, 0x0016, 0x7603, 0, 0x76f8, 0x05f3, 0,
     0x7711, 2, 0xf073, 0x8ac6]), (0x389ef, [0x10f8, 0x05f0, 0xf844, 0x8a09, 0x10f8, 0x05eb, 0xf844, 0x89fe,
     0xf7b8, 0xf020, 0x02f8, 0x08f8, 0x05ed, 0xf842, 0x8a09, 0x76f8, 0x05ed, 0, 0x76f8, 0x05ee, 0, 0x76f8, 0x05eb,
     0, 0xf073, 0x8a13]), (0x38f52, [0x10f8, 0x05eb, 0xf844, 0x8ff7]), (0x38ff7, [0xe800, 0xf983, 0x89cf, 0xf020,
     0x05e6, 0xf983, 0x9766, 0x10f8, 0x05f4, 0xf983, 0xe30c])]"

definition METADATA_EXTENT_WITNESSES :: "(string \<times> span list) list" where
  "METADATA_EXTENT_WITNESSES =
     [(''aa22'', [(0x28394, [0x7712, 0x1784, 0xec31, 0x7692, 0]), (0x28420, [0xe800, 0x4e00, 0x1031, 0x8002, 0x4811,
     0xf980, 0x2092, 0xf6b8, 0xf495, 0x5632, 0xf0ff, 0x4e32, 0xf0e0, 0xf845, 0x8445, 0x7716, 0, 0x1031, 0x7000,
     0x0017, 0x7601, 1, 0x8002, 0x4811, 0xf983, 0xc2c2, 0xf7b8, 0x6d96, 0x11f8, 0x0016, 0xf6b8, 0xf495, 0x5632,
     0xf3e0, 0xf520, 0xf84b, 0x8431, 0x102e]), (0x28455, [0xe800, 0x4e00, 0x1031, 0x8002, 0x4811, 0xf980, 0x2092,
     0x7618, 0x4944, 0x7619, 0x3303, 0x761a, 0, 0x761b, 0, 0x1030, 0x801c, 0x7600, 5, 0x4818, 0xf000, 0x0018,
     0xf982, 0x86db, 0x4818, 0xf000, 0x0018, 0x8000, 0x1031, 0x8002, 0x7601, 5, 0x4811, 0xf983, 0xc2c2, 0x1031,
     0x8002, 0x7000, 0x0017, 0x7601, 0x0032, 0x4811, 0xf983, 0xc2c2, 0xf073, 0x8513]), (0x3c3f6, [0x4817, 0xf0e1,
     0xf495, 0x4808, 0x50e1, 0x0012, 0x4ee1, 0x0012, 0xe800]), (0x3c421, [0x6b04, 0x000e, 0x1104, 0xf200, 1,
     0x8004, 0x4816, 0xf600, 0x8812, 0x10e1, 0x0013, 0x8082, 0xf6b8, 0x56e1, 0x0012, 0xf1f0, 0x4816, 0x0004,
     0x8812, 0xf495, 0xf495, 0x8182]), (0x38eab, [0xf020, 0x1444, 0x8011, 0x61f8, 0x1451, 0x0010, 0xf830, 0x8efb,
     0xf7b8, 0x10f8, 0x0011, 0xf010, 1, 0xf845, 0x8ee6, 0x6c81, 0x8efb, 0x100c, 0x8000, 0x7002, 0x0016, 0x100b,
     0x7604, 0, 0x8001, 0x100a, 0x8003, 0x1011, 0xf982, 0x8385])]), (''aa55'', [(0x33ea, [0x4a11, 0x4a16, 0xeefa,
     0x8811, 0x560a, 0x4e02, 0x710c, 0x0016, 0x10e1, 0x0011, 0x80e1, 0x0016, 0x80e1, 0x0014, 0x76e1, 0x0015, 0,
     0xf6b8])])]"

definition DECODER_FRAMING_WITNESS :: "int list" where
  "DECODER_FRAMING_WITNESS =
     [0x710d, 0x0011, 0x7181, 0xb332, 0x76f8, 0xb331, 0x0000, 0x10f8, 0xba50, 0xf844, 0x3da0, 0x76f8, 0xba4f,
     0x0001, 0x76f8, 0xba4e, 0x0000, 0x7181, 0x0011, 0x6081, 0x4144, 0xf820, 0x3da0, 0x60e1, 0x0001, 0x4946,
     0xf820, 0x3da0, 0x76f8, 0xba4e, 0x0001, 0x76f8, 0xba4f, 0x0000, 0x10f8, 0xba44, 0xf844, 0x3da0, 0xf982,
     0x41f2, 0xf982, 0x542b, 0x76f8, 0xba44, 0x0001]"

definition DECODER_ALIGNMENT_BASE :: int where
  "DECODER_ALIGNMENT_BASE = 0x2542b"

definition DECODER_ALIGNMENT_WITNESS :: "int list" where
  "DECODER_ALIGNMENT_WITNESS =
     [0xeefe, 0x10f8, 0xa854, 0xf7b8, 0xf540, 0x8000, 0xe807, 0x11f8, 0x000b, 0xf493, 0xf77e, 0xf773, 0x0100,
     0xf280, 0x1100, 0xf520, 0xf640, 0xf982, 0x510c, 0xee02, 0xf495, 0xf4e4]"

definition DECODER_RESET_BASE :: int where
  "DECODER_RESET_BASE = 0x23d41"

definition DECODER_RESET_WITNESS :: "int list" where
  "DECODER_RESET_WITNESS =
     [0x4a11, 0xeeff, 0x8811, 0xf982, 0x45d7, 0xf982, 0x56cf, 0x76f8, 0xba50, 0, 0x76f8, 0xba44, 0, 0x76e1, 4, 0,
     0x76e1, 5, 0, 0xe800, 0x4ee1, 6, 0xee01, 0x8a11, 0xf4e4]"

definition DECODER_BIT_RESET_BASE :: int where
  "DECODER_BIT_RESET_BASE = 0x256cf"

definition DECODER_BIT_RESET_WITNESS :: "int list" where
  "DECODER_BIT_RESET_WITNESS =
     [0xe800, 0x4ef8, 0xa858, 0x76f8, 0xa854, 0, 0x76f8, 0xa85a, 0, 0xf495, 0xf495, 0xf4e4]"

definition DECODER_POINTER_RECORD_BASE :: int where
  "DECODER_POINTER_RECORD_BASE = 0x273db"

definition DECODER_POINTER_RECORD_WITNESS :: "int list" where
  "DECODER_POINTER_RECORD_WITNESS =
     [2, 0xb333, 0xaaec, 0xaaec, 2, 0xb335, 0xac36, 0xacc1, 2, 0xb337, 0xad4c, 0xae3e, 2, 0xb339, 0xab64, 0xabcd]"

definition DECODER_CHANNEL_RESET_BASE :: int where
  "DECODER_CHANNEL_RESET_BASE = 0x245d7"

definition DECODER_CHANNEL_RESET_WITNESS :: "int list" where
  "DECODER_CHANNEL_RESET_WITNESS =
     [0x4a11, 0xeeff, 0x76f8, 0xa8c7, 0, 0x76f8, 0xa85e, 1, 0x76f8, 0xa85f, 0xffff, 0x7711, 0xa89c, 0x76e1, 1, 1,
     0x76e1, 2, 3, 0x76f8, 0xb333, 0xaaec, 0x4811, 0xf000, 3, 0x8811, 0xf495, 0x7712, 0xb335, 0x771a, 1, 0xf072,
     0x4600, 0x7681, 0, 0x7192, 0x13, 0x76e3, 3, 0, 0x6de9, 6, 0x7711, 0xaf2f, 0x771a, 0x1ff, 0xf072, 0x460b,
     0x7699, 0, 0x76e1, 0x200, 0, 0xe800, 0xee01, 0x8a11, 0xf4e4]"

definition DECODER_CONSTRUCTOR_BASE :: int where
  "DECODER_CONSTRUCTOR_BASE = 0x23d27"

definition DECODER_CONSTRUCTOR_WITNESS :: "int list" where
  "DECODER_CONSTRUCTOR_WITNESS =
     [0x4a11, 0xeeff, 0xf495, 0x7104, 0x12, 0x7106, 0x13, 0x8811, 0x10e3, 1, 0x80e1, 1, 0x10e2, 9, 0x80e1, 2,
     0x10e2, 14, 0x80e1, 3, 0x4811, 0xf982, 0x3d41, 0xee01, 0x8a11, 0xf4e4]"

definition DECODER_CONFIGURATION_WITNESSES :: "span list" where
  "DECODER_CONFIGURATION_WITNESSES =
     [(0xd43b, [2, 0, 10, 0, 2, 1, 0xaaac, 10, 0, 2, 1, 0xe800, 10, 0, 2, 1, 0xf000]), (0x2786b, [0xf020, 0xaaac,
     0x7600, 0xd43d, 0x7601, 0, 0x7602, 0xd43b, 0xf982, 0x9870]), (0x29870, [0xe906, 0xf882, 0x98b8])]"

definition CATALOGUE_MEDIA_WITNESSES :: "span list" where
  "CATALOGUE_MEDIA_WITNESSES =
     [(0xbff3, [0x52, 0x45, 0x4c, 0, 0x4c, 0x53, 0x45, 0]), (0x39494, [0x1028, 0x8000, 0xf020, 0xbff3, 0xf982,
     0xe36f, 0x10f8, 8, 0xf845, 0x94a9, 0x1028, 0x8000, 0xf020, 0xbff7, 0xf982, 0xe36f, 0x8812, 0xf495, 0xf495,
     0x6c82, 0x9570])]"

definition DECODER_SYNC_BASE :: int where
  "DECODER_SYNC_BASE = 0x24457"

definition DECODER_SYNC_WITNESS :: "int list" where
  "DECODER_SYNC_WITNESS =
     [0xe80f, 0xf982, 0x510c, 0xf7b8, 0x11f8, 0x11, 0xf300, 0xf, 0x4f02, 0xf468, 0xf478, 0xf010, 0x7ffc, 0xf845,
     0x4486]"

definition DECODER_MAPPED_ALU_BASE :: int where
  "DECODER_MAPPED_ALU_BASE = 0x2558f"

definition DECODER_MAPPED_ALU_WITNESS :: "int list" where
  "DECODER_MAPPED_ALU_WITNESS =
     [0x6ff8, 0x16, 0x0d00, 0x8912, 0x6ff8, 0x19, 0x0d00, 0x8911, 0x7314, 0x0e]"

definition DMA_PAUSE_WITNESSES :: "(string \<times> int \<times> int list) list" where
  "DMA_PAUSE_WITNESSES =
     [(''aa22'', 0x290b7, [0x7711, 0x0054, 0x6881, 0xfff7, 0xe800, 0xf982, 0x97be, 0x7711, 0x0054, 0x6981,
     0x0008]), (''aa99'', 0x27944, [0x7712, 0x0054, 0x6882, 0xfff7, 0xe800, 0xf982, 0x7b92, 0x7712, 0x0054, 0x6982,
     0x0008])]"

definition MEASUREMENT_RESPONSE_BASE :: int where
  "MEASUREMENT_RESPONSE_BASE = 0x3b01d"

definition MEASUREMENT_RESPONSE_WITNESS :: "int list" where
  "MEASUREMENT_RESPONSE_WITNESS =
     [0x7608, 0x0002, 0x760a, 0x0068, 0x760b, 0x0001, 0xf062, 0x0098, 0xf7b8, 0xf040, 0x9680, 0x54f8, 0xb64a,
     0xf847, 0xb02e, 0x760b, 0x001f, 0xf062, 0x0098, 0xf040, 0x9680, 0x54f8, 0xb64c, 0xf847, 0xb038, 0x760b,
     0x0020]"

definition REL_CLEANUP_BASE :: int where
  "REL_CLEANUP_BASE = 0x2956f"

definition REL_CLEANUP_WITNESS :: "int list" where
  "REL_CLEANUP_WITNESS =
     [0x60f8, 0x373e, 0x0004, 0xf820, 0x959d, 0xf7b8, 0x7212, 0x3742, 0x10f8, 0x0012, 0xf010, 0x0001, 0xf845,
     0x958e, 0x6ce2, 0xfffe, 0x958e, 0x76f8, 0x373e, 0x0002, 0x4818, 0x7600, 0x0001, 0x7601, 0x001a, 0xf000,
     0x0014, 0xf983, 0x9005, 0xf073, 0x9591, 0x76f8, 0x373e, 0x0005, 0xe801, 0xf982, 0x9189, 0x7600, 0x0001,
     0xf020, 0x3aea, 0xf980, 0x2082, 0xe800, 0xf980, 0x2080]"

definition REL_RELOAD_API :: "int list" where
  "REL_RELOAD_API =
     [0xf880, 0x3538]"

definition PLAYBACK_CLEANUP_INGRESS :: "span list" where
  "PLAYBACK_CLEANUP_INGRESS =
     [(0x27887, [0x76f8, 0xaa1a, 0x0001]), (0x29438, [0x1004, 0x11f8, 0x0008, 0xf310, 0x0011, 0xf84d, 0x9471,
     0x11f8, 0x0008, 0xf310, 0x0016, 0xf84d, 0x9458, 0x10f8, 0x0008, 0xf010, 0x0017, 0xf844, 0x95af, 0x7105,
     0xaa1a, 0x7604, 0x8017, 0x4818, 0x7600, 0x0001, 0xf000, 0x0004, 0xf982, 0x929c, 0xf073, 0x95af]), (0x29471,
     [0x1005, 0x8066, 0x7107, 0x0011, 0x7108, 0x0016, 0x7604, 0x8011, 0x7109, 0xaa1e, 0x7600, 0x0001, 0x4818,
     0xf000, 0x0004, 0xf982, 0x929c, 0x76f8, 0xaa1b, 0x0000]), (0x294a7, [0x56f8, 0x371a, 0x4e6a, 0xf0ff, 0x4e6c,
     0x4ef8, 0xaa22]), (0x294bb, [0x566c, 0xf7b8, 0x11f8, 0x0011, 0x53f8, 0xa9f6, 0xf3e0, 0xf520, 0xf84a, 0x94ea,
     0xf6b8, 0xf495, 0x566a, 0x54f8, 0xa9f6, 0xf847, 0x94fb]), (0x294ea, [0x566c, 0x08f8, 0xa9f7, 0x8811, 0x76f8,
     0xaa1c, 0x0001, 0x566a, 0x4ef8, 0xa9f6, 0xf073, 0x94fb, 0x566a, 0x4ef8, 0xa9f6, 0x7711, 0x0000, 0x7712,
     0x0001]), (0x294fd, [0x60f8, 0xaa1a, 0x0001, 0xf830, 0x956f])]"

definition PLAYBACK_INPUT_UNITS_AA55 :: "span list" where
  "PLAYBACK_INPUT_UNITS_AA55 =
     [(0x2086, [0xf880, 0x32d3]), (0x2090, [0xf880, 0x32fa]), (0x2ed8, [0x880e, 0xf495, 0xf066, 0x002c, 0xf000,
     0x36b0, 0x8811, 0xf495, 0xf495, 0x56e1, 0x0012, 0x4e0a]), (0x32ee, [0xf072, 0x32f4, 0x1386, 0xf678, 0xf3e8,
     0xf1a0, 0x8196]), (0x3349, [0x1102, 0x7001, 0x0016, 0x6f00, 0x0d81, 0xf980, 0x208a, 0x1103, 0x0104, 0x8912,
     0xf495, 0xf495, 0x8082, 0x6b02, 0x0001, 0x10e1, 0x0015, 0xf000, 0x0001, 0x8812, 0x80e1, 0x0015, 0x1004,
     0xf000, 0x0001, 0x8004, 0x6cef, 0xffff, 0x3321])]"

definition PLAYBACK_INPUT_UNITS_AA99 :: "span list" where
  "PLAYBACK_INPUT_UNITS_AA99 =
     [(0x2788a, [0xe800, 0x4ef8, 0xa9f6]), (0x292cc, [0x4a11, 0xeefd, 0xf540, 0x7107, 0x0011, 0x1006, 0x7108,
     0x0012, 0x7001, 0x0012, 0x7000, 0x0011, 0xf5e7, 0xee03, 0x8a11, 0xf4e4]), (0x29473, [0x7107, 0x0011, 0x7108,
     0x0016]), (0x294a7, [0x56f8, 0x371a, 0x4e6a, 0xf0ff, 0x4e6c, 0x4ef8, 0xaa22]), (0x295cd, [0x4a11, 0xeefb,
     0xf495, 0x7109, 0x0011, 0x1108, 0x8000, 0x7002, 0x0011, 0x8101, 0xf020, 0x3708, 0xf980, 0x2090, 0xee05,
     0x8a11, 0xf4e4, 0x4a11, 0xeefb, 0xf495, 0x7109, 0x0011, 0x1108, 0x8000, 0x7002, 0x0011, 0x8101, 0xf020,
     0x3708, 0xf980, 0x2086, 0xee05, 0x8a11, 0xf4e4])]"

definition PLAYBACK_REFILL_CONTROL :: "span list" where
  "PLAYBACK_REFILL_CONTROL =
     [(0x2065a, [0x6102, 0x8000, 0xf820, 0x073d, 0x7211, 0x12fb, 0xf495, 0x6c81, 0x0727, 0x7211, 0x12fc, 0xf495,
     0x6c81, 0x071c]), (0x20704, [0x80f8, 0x15e2, 0x7004, 0x0017, 0x8106, 0x7602, 0x0011, 0x7007, 0x15e1, 0x7711,
     0x0006, 0xf073, 0x0733]), (0x2071c, [0x7003, 0x0011, 0x7602, 0x0017, 0x76f8, 0x12fc, 0x0000, 0x7711, 0x0002,
     0xf073, 0x0733, 0x7003, 0x0011, 0x7602, 0x0016, 0x76f8, 0x15e0, 0x0000, 0x76f8, 0x12fb, 0x0000, 0x7711,
     0x0002, 0x4816, 0xf982, 0x0443, 0x4818, 0x7000, 0x0011, 0xf000, 0x0002, 0xf982, 0x9629]), (0x29264, [0x8812,
     0xf495, 0x7713, 0x0090, 0xec0f, 0xe598, 0xf495, 0xf495, 0xf4e4]), (0x29502, [0xf7b8, 0x10f8, 0x0011, 0x4e68,
     0x10f8, 0x0012, 0xf845, 0x953e, 0x56f8, 0x3726, 0x4ef8, 0xa9f6, 0x76f8, 0xaa1c, 0x0000, 0x7602, 0x3aea,
     0x4e00, 0xf020, 0x3708, 0xf980, 0x2092]), (0x2953e, [0x5668, 0x50f8, 0xa9f6, 0x4e68, 0x7604, 0x0012, 0x7005,
     0x0011, 0x10f8, 0x0016, 0xf844, 0x954c, 0x7716, 0xffff, 0x7006, 0x0016, 0x7007, 0xaa1d, 0x106e, 0xf000,
     0x007a, 0x7601, 0x0008, 0x8000, 0x4818, 0xf000, 0x0008, 0xf982, 0x99cc, 0x7010, 0xaa1c, 0xf6b8, 0xf495,
     0x5668, 0x8011, 0xf0f0, 0x8012, 0x7600, 0x000f, 0x4818, 0xf000, 0x0004, 0xf982, 0x92a7, 0x76f8, 0xaa1d,
     0x0000, 0xf073, 0x95a8])]"

definition PLAYBACK_PENDING_CONTROL :: "span list" where
  "PLAYBACK_PENDING_CONTROL =
     [(0x22064, [0x4a1e, 0xf495, 0xf882, 0x0742]), (0x20742, [0xf495, 0x4a08, 0x4a09, 0x4a0a, 0x4a0b]), (0x20981,
     [0x76f8, 0x12f8, 1, 0xf7d9, 0xf495, 0xf495, 0xf4e4]), (0x278cd, [0xf062, 2, 0xf040, 0x0981, 0xf982, 0x92f0,
     0xf495, 0xf495, 0xf4e4]), (0x292f0, [0x4ef8, 0xaa7e, 0xe801, 0xf495, 0xf495, 0xf4e4]), (0x292a7, [0x4a11,
     0x4a16, 0xeefe, 0xf495, 0x7106, 0x0016, 0x8811, 0xf073, 0x92b2, 0xf982, 0x042f, 0xf982, 0x0424, 0x61f8,
     0x0080, 0x8000, 0xf820, 0x92b0, 0xf020, 0x0080, 0x7000, 0x0016, 0x8001, 0x4811, 0xf982, 0x9276, 0x56f8,
     0xaa7e, 0xf845, 0x92c6, 0xf4e7, 0xf982, 0x042f, 0xee02, 0x8a16, 0x8a11, 0xf4e4]), (0x20769, [0x4a08, 0xeeed,
     0x7211, 0x12f7, 0xf495, 0x6c81, 0x0952, 0x76f8, 0x12f7, 1, 0x76f8, 0x12f8, 0, 0x4818, 0xf000, 2, 0xf982,
     0x960c, 0x7716, 1, 0x7717, 0, 0xf7b8, 0x7102, 0x0011]), (0x207bc, [0x10f8, 0x0011, 0xf010, 0x0017, 0xf846,
     0x07d9, 0x10f8, 0x0011, 0xf010, 0x0017, 0xf845, 0x07f5, 0x7710, 0x0014, 0xf4a9, 0xf830, 0x0825, 0x7710,
     0x0015, 0xf4a9, 0xf830, 0x0804, 0x7710, 0x0016, 0xf4a9, 0xf830, 0x07fa, 0xf073, 0x0866]), (0x207f5, [0x76f8,
     0x12fc, 1, 0xf073, 0x093d, 0x76f8, 0x12fa, 1, 0x76f8, 0x15db, 1, 0x7103, 0x12fb, 0xf073, 0x093d]), (0x29458,
     [0xe781, 0x6de9, 5, 0x1081, 0x7604, 0x8016, 0xf982, 0x91d3, 0xf020, 0x3708, 0x7601, 9, 0x8000, 0x4811, 0xf982,
     0x99cc, 0x4818, 0x7600, 0x000a, 0xf000, 4, 0xf982, 0x929c, 0xf073, 0x95af]), (0x291d3, [0xf495, 0xf495,
     0xf4e4]), (0x299cc, [0x8813, 0x4a11, 0xeeff, 0xe730, 0x7104, 0x0014, 0xf6ac, 0xfa30, 0x99ef, 0x1105, 0xe732,
     0x4814, 0x00f8, 0x000b, 0x8811, 0x4813, 0x00f8, 0x000b, 0x490b, 0xfa4d, 0x99f9, 0xf495, 0x8812, 0xf310, 1,
     0x891a, 0xf495, 0xf072, 0x99ec, 0x10e9, 0xffff, 0x80ea, 0xffff, 0xf073, 0x99f9, 0x490b, 0xf84d, 0x99f9,
     0xf310, 1, 0x891a, 0xf495, 0xf072, 0x99f8, 0xe5a8, 0xee01, 0x4813, 0x8a11, 0xf495, 0xf4e4])]"

definition PLAYBACK_PENDING16_PRODUCERS :: "span list" where
  "PLAYBACK_PENDING16_PRODUCERS =
     [(0x20780, [0x7102, 0x0011, 0x10f8, 0x0011, 0xf010, 0x0013, 0xf846, 0x07bc, 0x10f8, 0x0011, 0xf010, 0x0013,
     0xf845, 0x083c, 0x10f8, 0x0011, 0xf010, 4, 0xf846, 0x07ab, 0x10f8, 0x0011, 0xf010, 4, 0xf845, 0x08ad, 0x7710,
     1, 0xf4a9, 0xf830, 0x0907, 0x7710, 2, 0xf4a9, 0xf830, 0x08f0, 0x7710, 3, 0xf4a9, 0xf830, 0x08ce, 0xf073,
     0x0866]), (0x208ce, [0xe800, 0x80f8, 0x15da, 0x80f8, 0x12f9, 0xe900, 0x1003, 0xf844, 0x08d8, 0xe901, 0x81f8,
     0x15db, 0x10f8, 0x12fd, 0xf845, 0x08e8, 0x10f8, 0x15db, 0xf845, 0x08e8, 0x71f8, 0x15de, 0x15db, 0x76f8,
     0x12fb, 3, 0x6004, 1, 0xf820, 0x093d, 0x7717, 1, 0xf073, 0x093d]), (0x20907, [0xe800, 0x80f8, 0x15da, 0x80f8,
     0x12f9, 0x76f8, 0x15db, 1, 0x76f8, 0x15e1, 0, 0x76f8, 0x12fc, 0, 0x76f8, 0x12fb, 3, 0x76f8, 0x15e0, 0, 0x7711,
     0xaa4c, 0x76e1, 2, 0, 0x76e1, 3, 0, 0x76e1, 4, 0, 0x76e1, 5, 0, 0x76e1, 6, 0, 0x76f8, 0xaa53, 0x001e, 0x76f8,
     0x12fd, 0, 0x7602, 0x8000, 0x4818, 0xf000, 2, 0x7600, 1, 0xf982, 0x929c, 0x7602, 0x8001]), (0x2065e, [0x7211,
     0x12fb]), (0x2072e, [0x76f8, 0x12fb, 0]), (0x20800, [0x7103, 0x12fb]), (0x278ba, [0x76f8, 0x12fb, 0])]"

definition PLAYBACK_INPUT3_SENDERS :: "span list" where
  "PLAYBACK_INPUT3_SENDERS =
     [(0x2905d, [0x4a11, 0xeefd, 0xf495, 0x1106, 0x7107, 0x0012, 0x7711, 0xba56, 0x7681, 3, 0x80e1, 1, 0x81e1, 2,
     0x70e1, 3, 0x0012, 0x4811, 0x7600, 4, 0xf982, 0x92a7, 0xee03, 0x8a11, 0xf4e4]), (0x38ba8, [0x10f8, 0x3767,
     0x08e6, 2, 0xf844, 0x8bba, 0x10f8, 0x3766, 0x08f8, 0x1187, 0xf844, 0x8bba, 0xf7b8, 0xe828, 0x08f8, 0x1188,
     0xf843, 0x8f85]), (0x38bf1, [0xf110, 0x0029, 0xf062, 2, 0x11f8, 0x000b, 0xf040, 0x3d09, 0xf600, 0x7ef8,
     0x0008, 0xf4e2]), (0x23d10, [0x8d03]), (0x38d03, [0x7105, 0x3763, 0x60f8, 0x1189, 2, 0xf830, 0x8d72, 0x60f8,
     0x1189, 3, 0xf830, 0x8d4b, 0x60f8, 0x1189, 4, 0xf830, 0x8d3b, 0x60f8, 0x1189, 0x0010, 0xf830, 0x8d2a]),
     (0x38d3b, [0x76f8, 0x3762, 3, 0x76f8, 0x3750, 0, 0xe800, 0x4ef8, 0x375e, 0xe801, 0x4ef8, 0x3760, 0xf982,
     0x8498, 0xf073, 0x8f85, 0xf982, 0x846f]), (0x2846f, [0x4a11, 0xeefd, 0x60f8, 0xa825, 1, 0xf820, 0x8494,
     0x76f8, 0xa825, 2, 0xe801, 0xf982, 0x9189]), (0x2847c, [0x7600, 0, 0x7601, 1, 0xe801, 0xf982, 0x905d]),
     (0x28498, [0xeeaa, 0x76f8, 0xa825, 0, 0x76f8, 0x375c, 0, 0xe800, 0x7600, 0, 0x7601, 1, 0xf982, 0x905d]),
     (0x28591, [0xeefe, 0x76f8, 0xa825, 0, 0xe800, 0x7600, 0, 0x7601, 1, 0xf982, 0x905d, 0xee02, 0xf495, 0xf4e4])]"

definition PLAYBACK_REFILL_COMPLETION :: "span list" where
  "PLAYBACK_REFILL_COMPLETION =
     [(0x207b5, [0x7710, 0x0012, 0xf4a9, 0xf830, 0x0862]), (0x20862, [0x10f8, 0x15e0, 0xf844, 0x086a, 0x7602,
     0x8000, 0xf073, 0x093d, 0x7103, 0x15df, 0x10f8, 0x15e7, 0x7000, 0x15df, 0xf982, 0x976d, 0x1210, 0xf1ef,
     0x120f, 0xf3e1, 0xf2a0, 0x4ef8, 0xaad0, 0x10f8, 0x15e7, 0xf982, 0x9752, 0xf495, 0x4808, 0x58f8, 0xaad0,
     0x4ef8, 0xaad0, 0x4e00, 0x10f8, 0x15e7, 0xf982, 0x978c, 0x76f8, 0x15e0, 0x0000]), (0x2093d, [0x6902, 0x8000,
     0x4818, 0x7000, 0x0016, 0xf000, 0x0002, 0xf982, 0x961e, 0x10f8, 0x0017, 0xf845, 0x094d]), (0x2960c, [0x8812,
     0xf495, 0x7713, 0x0080, 0xec0f, 0xe598, 0xf495, 0xf495, 0xf4e4]), (0x2976d, [0x4a11, 0xeeff, 0x8811, 0xf495,
     0x1004, 0x00e1, 0x0006, 0x80e1, 0x0006, 0xee01, 0x8a11, 0xf4e4])]"

definition PLAYBACK_FINAL_INPUT_WITNESSES :: "span list" where
  "PLAYBACK_FINAL_INPUT_WITNESSES =
     [(0x294cc, [0x10f8, 0x3733, 0xf845, 0x94d6, 0xf062, 2, 0xf040, 0x95cd, 0xf073, 0x94da, 0xf062, 2, 0xf040,
     0x95de, 0x1166, 0x7001, 0x0011, 0x7602, 0x3aea, 0x8100, 0xf982, 0x92cc, 0x8812, 0xf020, 0x36b0, 0x806e,
     0x6c82, 0x94fd]), (0x29500, [0xf830, 0x956f, 0xf7b8, 0x10f8, 0x0011, 0x4e68, 0x10f8, 0x0012, 0xf845, 0x953e]),
     (0x2950a, [0x56f8, 0x3726, 0x4ef8, 0xa9f6, 0x76f8, 0xaa1c, 0, 0x7602, 0x3aea, 0x4e00, 0xf020, 0x3708, 0xf980,
     0x2092, 0x7166, 0x0012, 0x10f8, 0x3733, 0xf845, 0x9524, 0xf062, 2, 0xf040, 0x95cd, 0xf073, 0x9528, 0xf062, 2,
     0xf040, 0x95de, 0xf120, 0x3aea, 0x7000, 0x0012, 0x7001, 0x0011, 0x8102, 0xf982, 0x92cc, 0xf120, 0x36b0,
     0x816e, 0x10f8, 8, 0xf845, 0x953e, 0x7600, 0, 0xf020, 0x05a5, 0xf982, 0x91c2]), (0x29563, [0x7600, 0x000f,
     0x4818, 0xf000, 4, 0xf982, 0x92a7, 0x76f8, 0xaa1d, 0, 0xf073, 0x95a8]), (0x2959d, [0x7604, 0x0016, 0x7605, 9,
     0x4818, 0x7600, 2, 0xf000, 4, 0xf982, 0x92a7])]"

definition WITNESS :: "int list" where
  "WITNESS =
     [0xeeff, 0x4a06, 0x4a07, 0xf6be, 0xf6b9, 0x4a08, 0x4a09, 0x4a0a, 0x4a0b, 0x4a0c, 0x4a0d, 0xea00, 0x577c,
     0xf300, 0x0001, 0x4f7c, 0x487e, 0xf030, MASK, 0xf050, MASK, 0xfa44, 0x3d9a, 0x467f, 0xf495, 0x4a10, 0x4a12,
     0x4a13, 0x4a0e, 0x7131, 0x0012, 0xf274, 0x3dbc, 0x770e, 0x0006, 0x8a0e, 0x8a13, 0x8a12, 0x8a10, 0x1036,
     0xf7be, 0x8a0d, 0x8a0c, 0x8a0b, 0x8006, 0x8a0a, 0x8a09, 0x8a08, 0x8a07, 0x8a06, 0xfc00]"

definition WORKER_BASE :: int where
  "WORKER_BASE = 0x23dbc"

definition WORKER_WITNESS :: "int list" where
  "WORKER_WITNESS =
     [0xfd00, 0x4a07, 0xfd00, 0xf7bb, 0x7192, 0x0010, 0x1092, 0xf844, 0x3ddb]"

definition WORKER_TAIL_BASE :: int where
  "WORKER_TAIL_BASE = 0x23ddb"

definition WORKER_TAIL_WITNESS :: "int list" where
  "WORKER_TAIL_WITNESS =
     [0x8a08, 0xf030, 0x0800, 0xf495, 0xfe00, 0xfd45, 0xf6bb]"

definition WORKER_COPY_BASE :: int where
  "WORKER_COPY_BASE = 0x23dc5"

definition WORKER_COPY_WITNESS :: "int list" where
  "WORKER_COPY_WITNESS =
     [0x6b82, 0x0002, 0x4b92, 0x7182, 0x0013, 0x8b93]"

definition WORKER_LOGIC_BASE :: int where
  "WORKER_LOGIC_BASE = 0x23dd5"

definition WORKER_LOGIC_WITNESS :: "int list" where
  "WORKER_LOGIC_WITNESS =
     [0xf000, 0x0004, 0x1892, 0x1a8a, 0x6d8a, 0x8082]"

definition FULL_WORKER_WITNESS :: "int list" where
  "FULL_WORKER_WITNESS =
     (((((WORKER_WITNESS @ WORKER_COPY_WITNESS) @ [0x8393, 0x8193, 0xf4ab, 0x8c93]) @ [0x108a, 0x6d8a, 0xfd30,
     0x8082, 0x6dea, 0x0003]) @ WORKER_LOGIC_WITNESS) @ WORKER_TAIL_WITNESS)"

definition TIMER_VECTOR_BASE :: int where
  "TIMER_VECTOR_BASE = 0x2204c"

definition TIMER_VECTOR_WITNESS :: "int list" where
  "TIMER_VECTOR_WITNESS =
     [0x4a1e, 0xf495, 0xf882, 0x3d73]"

definition TIMER_RETURN_BASE :: int where
  "TIMER_RETURN_BASE = 0x24044"

definition IDLE_BASE :: int where
  "IDLE_BASE = 0x298d0"

definition IDLE_WITNESS :: "int list" where
  "IDLE_WITNESS =
     [0x4a11, 0xeeff, 0x10f8, 0xa531, 0xf844, 0x98e9, 0x7711, 0x0025, 0x7681, 0x0001, 0x7711, 0x0026, 0x7681,
     0x0020, 0x7711, 0x0000, 0x6881, 0xfff7, 0x7711, 0x0000, 0x6981, 0x08c0, 0x76f8, 0xa531, 0x0001, 0xf4e1,
     0xee01, 0x8a11, 0xf4e4]"

definition IDLE_WRAPPER_BASE :: int where
  "IDLE_WRAPPER_BASE = 0x23d2f"

definition IDLE_WRAPPER_WITNESS :: "int list" where
  "IDLE_WRAPPER_WITNESS =
     [0x4918, 0x68f8, 0x0018, 0xfffe, 0xf7be, 0xf495, 0x4a0b, 0x4a0b, 0xf982, 0x98d0, 0xf6be, 0x8a18, 0xf495,
     0xf495, 0xfc00]"

definition BOOTSTRAP_BASE :: int where
  "BOOTSTRAP_BASE = 0xff80"

definition BOOTSTRAP_WITNESS :: "int list" where
  "BOOTSTRAP_WITNESS =
     [0x771d, 0xffc8, 0x7710, 0x0060, 0xf070, 0xff20, 0x7c90, 0x0060, 0x771d, 0xffe8, 0xf880, 0x0e41]"

definition BOOT_MEMORY_SHIFT_BASE :: int where
  "BOOT_MEMORY_SHIFT_BASE = 0x3291"

definition BOOT_MEMORY_SHIFT_WITNESS :: "int list" where
  "BOOT_MEMORY_SHIFT_WITNESS =
     [0x6fe6, 0x0010, 0x0d48]"

definition BOOT_BLOCK_REPEAT_BASE :: int where
  "BOOT_BLOCK_REPEAT_BASE = 0x32ec"

definition BOOT_BLOCK_REPEAT_WITNESS :: "int list" where
  "BOOT_BLOCK_REPEAT_WITNESS =
     [0x891a, 0xf495, 0xf072, 0x32f4, 0x1386, 0xf678, 0xf3e8, 0xf1a0, 0x8196]"

definition REL_REPEAT_BASE :: int where
  "REL_REPEAT_BASE = 0x2610c"

definition REL_REPEAT_WITNESS :: "int list" where
  "REL_REPEAT_WITNESS =
     [0x4a11, 0xeeff, 0xf7b8, 0x771a, 0x0006, 0x8811, 0xf272, 0x6120, 0x7600, 0x0001, 0xfb82, 0x510c, 0xe801,
     0xf495, 0xfa44, 0x611f, 0xe901, 0x1000, 0x8091, 0x0100, 0x8100, 0x8181, 0xee01, 0x8a11, 0xf4e4]"

definition REL_CALLEE_BASE :: int where
  "REL_CALLEE_BASE = 0x2510c"

definition REL_CALLEE_WITNESS :: "int list" where
  "REL_CALLEE_WITNESS =
     [0xed00, 0xf6b6, 0xf6b7, 0xf7b8, 0xf6b9, 0x4a08, 0x7712, 0xa854, 0x1182, 0xf310, 0x0010, 0xfa4e, 0x512e,
     0x7713, 0xa858, 0x7714, 0xb331, 0x7715, 0xb332, 0x1085, 0x0084, 0x8815, 0x5783, 0xf74f, 0xf741, 0x1285,
     0xf2a0, 0x4e83, 0xe901, 0x0184, 0x8184, 0xe910, 0x0182, 0x8182, 0x1182, 0x0900, 0x8182, 0x8a10, 0xf300,
     0xfff0, 0xf784, 0x890e, 0x5683, 0xf48f, 0xf450, 0x32f8, 0x0010, 0xe901, 0xf782, 0xf310, 0x0001, 0xf280,
     0xf030, 0xffff, 0xf4e4]"

definition REL_AR_STORE_BASE :: int where
  "REL_AR_STORE_BASE = 0x25fdc"

definition REL_AR_STORE_WITNESS :: "int list" where
  "REL_AR_STORE_WITNESS =
     [0x8814, 0x6ff8, 0x0015, 0x0c81, 0xf495, 0x11e4, 0xc22e, 0x8192, 0x57e5, 0xc2ae, 0xfd30, 0xf784, 0x4f93]"

definition REL_COPY_ENTRY_BASE :: int where
  "REL_COPY_ENTRY_BASE = 0x24542"

definition REL_COPY_ENTRY_WITNESS :: "int list" where
  "REL_COPY_ENTRY_WITNESS =
     [0x4a11, 0x4a16, 0x4a17, 0xeef7, 0xf495, 0x710e, 0x0019, 0x710f, 0x0011]"

definition REL_COPY_DEPENDENCY_BASE :: int where
  "REL_COPY_DEPENDENCY_BASE = 0x2459a"

definition REL_COPY_DEPENDENCY_WITNESS :: "int list" where
  "REL_COPY_DEPENDENCY_WITNESS =
     [0x7106, 0x0011, 0x7008, 0x0011, 0x1008, 0x0007]"

definition REL_COPY_BASE :: int where
  "REL_COPY_BASE = 0x245a0"

definition REL_COPY_WITNESS :: "int list" where
  "REL_COPY_WITNESS =
     [0x8008, 0x4819, 0x6f08, 0x0c01, 0x8810, 0x1000, 0xf601, 0x8811, 0x480e, 0x0806, 0xf500, 0xf010, 0x0001,
     0x881a, 0xf495, 0xf072, 0x45b2, 0x5691, 0x4e90]"

definition RESIDENT_IDLE3 :: "span list" where
  "RESIDENT_IDLE3 =
     [(0x28914, [0x4a00, 0x4a01, 0x7700, 0x0004, 0xf495, 0x7758, 0x0000, 0x61f8, 0x0058, 0x0001, 0xf830, 0x891b,
     0x7758, 0x0000, 0xf5e1, 0xf495, 0xf495, 0x8a01, 0x8a00, 0xf495, 0xf495, 0xf4e4]), (0x3ac07, [0x7711, 0x0000,
     0x6981, 0x0004, 0xf982, 0x8914, 0xf020, 0x07d0, 0xf983, 0xacdf])]"

definition RESIDENT_WAKE_TAIL :: "span list" where
  "RESIDENT_WAKE_TAIL =
     [(0x3ac03, [0x10f8, 0xb582, 0xf844, 0xac11]), (0x3ac0d, [0xf020, 0x07d0, 0xf983, 0xacdf, 0x76f8, 0xb558,
     0x0000]), (0x3acdf, [0x4a11, 0xeefd, 0xf495, 0x7600, 0x000a, 0xf980, 0x2098, 0x8811, 0x7210, 0xb582, 0xf495,
     0xf6a9, 0xf820, 0xacef, 0x7311, 0xb582, 0xee03, 0x8a11, 0xf4e4]), (0x3a8c9, [0x10f8, 0xb582, 0xf845, 0xa8d0,
     0x6bf8, 0xb582, 0xffff, 0x60f8, 0xbb94, 0x0002, 0xf820, 0xa8da, 0x6bf8, 0xb582, 0x0001])]"

definition RESIDENT_WAKE_DIVIDE :: "span list" where
  "RESIDENT_WAKE_DIVIDE =
     [(0x2098, [0xf880, 0x352c]), (0x352c, [0xf6b8, 0x4808, 0xec0f, 0x1e02, 0xf4e4])]"

definition RESIDENT_RESTART_WITNESS :: "span list" where
  "RESIDENT_RESTART_WITNESS =
     [(0x3a92b, [0x7212, 0x373e, 0xf7b8, 0x4812, 0x11f8, 8, 0xf310, 6, 0xf84e, 0xa94f]), (0x3a935, [0x11f8, 8,
     0xf310, 5, 0xf84a, 0xa95b]), (0x3a95b, [0x10f8, 0x12, 0xf010, 5, 0xf845, 0xa987]), (0x3a987, [0x60f8, 0x3762,
     4, 0xf830, 0xa98f, 0x76f8, 0x3762, 6, 0x60f8, 0x3740, 3, 0xf830, 0xa9aa, 0xe809, 0xf982, 0x921f, 0x6bf8,
     0x3765, 1, 0x44f8, 0x3765, 0x40f8, 0x3768, 0x82f8, 0x12, 0xf495, 0xf495, 0x6ce2, 0xffff, 0xa9af, 0x76f8,
     0x3765, 1, 0xf073, 0xa9af, 0xf983, 0x999f, 0xe80d, 0xf982, 0x921f, 0x68f8, 0x3732, 0xffef, 0x76f8, 0x373e, 7,
     0xf073, 0xaacc])]"

section \<open>The POCP count writer\<close>

text \<open>The spans are those of the playback overlay; in the resident overlay they lie \<open>0xa3c\<close> words lower and
  so do the four branch targets inside them.\<close>

definition pocp_value :: "int \<Rightarrow> int \<Rightarrow> nat \<times> int \<Rightarrow> int" where
  "pocp_value delta base entry = (case entry of (offset, v) \<Rightarrow>
     let v = (if base = 0x2aea5 \<and> offset \<in> {8, 18} then v - delta else v) in
     if (base = 0x2adb2 \<and> offset = 7) \<or> (base = 0x2af27 \<and> offset = 2) then v - delta else v)"

definition pocp_count_words :: "string \<Rightarrow> span list res" where
  "pocp_count_words marker =
     (if marker \<notin> {''aa22'', ''aa99''} then Inl (ValueError ''unsupported POCP writer overlay'')
      else let delta = (if marker = ''aa22'' then 0xa3c else 0) in
        Inr (map (\<lambda>(base, ws). (base - delta, map (pocp_value delta base) (enumerate 0 ws))) POCP_COUNT_WITNESSES))"

end
