(* ===== verification/Mu4_Playback.thy ===== *)
theory Mu4_Playback
  imports Mu4_Words
begin

text \<open>
  The checks of \<open>tools/mu4_context_contract.py\<close> on the playback image \<open>aa99\<close> and the recorder image \<open>aa88\<close> up to the worker lanes: pinned helpers, transforms, literal censuses.
  Each pins spans of the image, may demand a census, and returns its report.
\<close>

definition decode_recording_window_arguments :: "word_image \<Rightarrow> json res" where
  "decode_recording_window_arguments words =
     ensure (need words [(RECORD_WINDOW_BASE,
       RECORD_WINDOW_WITNESS)] ''AA88 recording-window prefix changed or absent'') (
     Inr (JObj [(''entry'', JStr ''03ee2b''), (''last_word'', JStr ''03ee3a''), (''pinned_words'', JInt 16), (''span'',
     JStr ''LD SP(1b),A; ADD SP(1a),A; retain low word and pass as double word''), (''cursor'',
     JStr ''MVDK SP(18),AR1; DLD *AR1,A; FCALL 03e69b''), (''observed_frame_words_16_1b'', JList [JStr ''0000'',
     JStr ''0020'', JStr ''ffa0'', JStr ''0000'', JStr ''001c'', JStr ''0004'']), (''scope'',
     JStr ''Prefix and observed caller frame; not complete modulo helper, partial-tail or offset-ownership acceptance'')]))"

definition header_block_ok :: "word_image \<Rightarrow> nat \<Rightarrow> int \<Rightarrow> bool" where
  "header_block_ok words index width = (let base = RECORD_HEADER_BASE + 10 * int index in
     holds words base [0xf7b8, 0x10e6, 0x227 + int index]
     \<and> (holds words (base + 3) [0x7602, width, 0x4e00] \<or> holds words (base + 3) [0x4e00, 0x7602, width])
     \<and> holds words (base + 6) [0xfb83, 0xacc5, 0xf495, 0x4811])"

definition header_field :: "word_image \<Rightarrow> nat \<times> int \<Rightarrow> json res" where
  "header_field words field = (case field of (index, width) \<Rightarrow>
     if header_block_ok words index width
     then Inr (JObj [(''field'', JInt (int index)), (''source_offset'', JStr (fmt_x 4 (0x227 + int index))),
                     (''width'', JInt width), (''call'', JStr (fmt_x 6 (RECORD_HEADER_BASE + 10 * int index + 6)))])
     else Inl (ValueError (''AA88 header-writer field '' @ fmt_d (int index) @ '' changed or absent'')))"

definition decode_recording_header_writer :: "word_image \<Rightarrow> json res" where
  "decode_recording_header_writer words =
     rbind (rmap_list (header_field words) (enumerate 0 (map int RECORD_HEADER_WIDTHS))) (\<lambda>fields.
     Inr (JObj [(''entry'', JStr ''03a930''), (''last_word'', JStr ''03a9c5''), (''pinned_words'', JInt 150),
     (''fields'', JList fields), (''total_bits'', JInt (int (sum_list RECORD_HEADER_WIDTHS))), (''writer'',
     JStr ''03acc5''), (''arguments'', JStr ''32-bit value at caller SP(0..1), width at SP(2), receiver A''),
     (''scope'', JStr ''Header field/call grammar only; not CPU packing, file offsets or AAC payload validity'')]))"

definition decode_flag_context :: "word_image \<Rightarrow> json res" where
  "decode_flag_context words =
     ensure (need words [(FLAG_CONTEXT_BASE, FLAG_CONTEXT_WITNESS)] ''AA99 flag-context helper changed or absent'') (
     Inr (JObj [(''entry'', JStr ''025f94''), (''last_word'', JStr ''025fc0''), (''pinned_words'', JInt 45),
     (''selector'', JStr ''MVDK *SP(4),AR3; BANZ *(AR3-2),025fae''), (''selector_2'',
     JStr ''store 0 through AR1 and 8 at receiver+4''), (''other_selector'',
     JStr ''store 1 through AR1 and 1 at receiver+4''), (''scope'',
     JStr ''Complete local helper; field/codec names and input parsing remain unproved'')]))"

definition decode_post_flag_branch :: "word_image \<Rightarrow> json res" where
  "decode_post_flag_branch words =
     ensure (need words [(POST_FLAG_BASE, POST_FLAG_WITNESS)] ''AA99 post-flag branch changed or absent'') (
     Inr (JObj [(''entry'', JStr ''02532e''), (''last_word'', JStr ''025342''), (''pinned_words'', JInt 21),
     (''request'', JStr ''LD #1,A; FCALL 02510c; STL A,ba66''), (''zero_flag'', JStr ''BC AEQ skips to 025343''),
     (''nonzero_flag'', JStr ''LD *AR1,A; BC ANEQ selects 02533f''), (''zero_indirect_word'',
     JStr ''LD #0,A; FCALL 024538 at 02533b''), (''nonzero_indirect_word'', JStr ''LD #ba66,A; FCALL 025232''),
     (''scope'', JStr ''Local branch only; AR1 field semantics, stream alignment and codec validity unproved'')]))"

definition decode_service_gate :: "word_image \<Rightarrow> json res" where
  "decode_service_gate words =
     ensure (need words [(SERVICE_GATE_BASE, SERVICE_GATE_WITNESS)] ''AA99 processing-latch gate changed or absent'') (
     ensure (demand (map (map_of words) [0x20499..0x2049c] = map Some [0x7211, 0xaa59, 0x7217,
       0xaa60]) ''AA99 service receiver loads changed or absent'') (
     Inr (JObj [(''entry'', JStr ''0204c1''), (''last_word'', JStr ''0204d5''), (''pinned_words'', JInt 25),
     (''receiver'', JStr ''MVDM aa59,AR1; MVDM aa60,AR7 (memory to register, not stores)''), (''first_skip'',
     JStr ''receiver word 6 equals zero''), (''sum'',
     JStr ''ADD receiver word 22,16 to LD 15d9,16; STH result to AR2''), (''second_skip'',
     JStr ''BANZ AR2 nonzero skips aa56=1''), (''tail'',
     JStr ''LD aa56,A; BC AEQ,05ae bypasses processing when zero''), (''scope'',
     JStr ''Pinned local source; no flag ownership, producer closure or codec/audio acceptance'')])))"

definition decode_byte_count_prefix :: "word_image \<Rightarrow> json res" where
  "decode_byte_count_prefix words =
     ensure (need words [(BYTE_COUNT_BASE, BYTE_COUNT_WITNESS)] ''AA99 byte-count prefix changed or absent'') (
     Inr (JObj [(''entry'', JStr ''02ab09''), (''last_word'', JStr ''02ab15''), (''pinned_words'', JInt 13),
     (''formula_domain'', JStr ''positive 16-bit bit count''), (''formula'', JStr ''ceil(bits / 8)''),
     (''dependency'', JStr ''f000 0001 ADD followed by 4808 LDM AL,A''), (''destination'',
     JStr ''double word at AR1+6; low count at AR1+7''), (''scope'',
     JStr ''Original scalar prefix, not all constructor branches or initializer argument ownership'')]))"

definition decode_escape_store_prefix :: "word_image \<Rightarrow> json res" where
  "decode_escape_store_prefix words =
     ensure (need words [(ESCAPE_STORE_BASE, ESCAPE_STORE_WITNESS)] ''AA88 escape store/load prefix changed or absent'') (
     Inr (JObj [(''entry'', JStr ''03bdb6''), (''last_word'', JStr ''03bdc2''), (''pinned_words'', JInt 13),
     (''dependency'', JStr ''DST A,*SP(a) followed by DLD *SP(a),A''), (''scope'',
     JStr ''Original source prefix; execution and pending-write bypass require the isolated CPU fixture'')]))"

definition decode_poly_caller :: "word_image \<Rightarrow> json res" where
  "decode_poly_caller words =
     ensure (need words [(POLY_CALLER_BASE, POLY_CALLER_WITNESS)] ''AA99 polynomial caller changed or absent'') (
     Inr (JObj [(''entry'', JStr ''0260b3''), (''last_word'', JStr ''0260bc''), (''pinned_words'', JInt 10),
     (''sequence'',
     JStr ''LD 1170,T; STM c22a,AR2; LD *AR2+,16,A; LD *AR2+,16,B; RPT #2; POLY *AR2+; DST A,1174''), (''scope'',
     JStr ''Original sequential source, not proof of dynamic predecessor execution or complete decoder validity'')]))"

definition decode_square_loop :: "word_image \<Rightarrow> json res" where
  "decode_square_loop words =
     ensure (need words [(SQUARE_LOOP_BASE, SQUARE_LOOP_WITNESS)] ''AA99 square-accumulate block changed or absent'') (
     Inr (JObj [(''entry'', JStr ''0260cd''), (''last_word'', JStr ''0260da''), (''pinned_words'', JInt 14),
     (''operation'', JStr ''0260d8: SQURA *AR2,A''), (''scope'',
     JStr ''Original RPTB setup and local square source; not full loop or execution acceptance'')]))"

definition decode_register_product_caller :: "word_image \<Rightarrow> json res" where
  "decode_register_product_caller words =
     ensure (need words [(REGISTER_PRODUCT_BASE,
       REGISTER_PRODUCT_WITNESS)] ''AA99 accumulator/T product caller changed or absent'') (
     Inr (JObj [(''entry'', JStr ''025b0d''), (''last_word'', JStr ''025b15''), (''pinned_words'', JInt 9),
     (''operation'', JStr ''025b14: MPYA A''), (''scope'',
     JStr ''Original local source and T producer; not dynamic operand ownership or complete decoder acceptance'')]))"

definition decode_nibble_selector :: "word_image \<Rightarrow> json res" where
  "decode_nibble_selector words =
     ensure (need words [(NIBBLE_BASE, NIBBLE_WITNESS)] ''AA99 nibble-selector source witness changed or absent'') (
     Inr (JObj [(''entry'', JStr ''02c62b''), (''last_word'', JStr ''02c641''), (''pinned_words'', JInt 23),
     (''selector_domain'', JList [JInt 0, JInt 3]), (''shift'', JStr ''4 * (3 - selector)''), (''dependency'',
     JStr ''6f04 0c82 shifted store followed immediately by 1004 load''), (''scope'',
     JStr ''Scalar contract for complete original helper; not cipher or native playback acceptance'')]))"

definition decode_prefix_transform :: "word_image \<Rightarrow> json res" where
  "decode_prefix_transform words =
     rbind (region_digest words 0x2c9ac 0x2cd14 ''incomplete AA99 prefix-transform source'') (\<lambda>digest.
     ensure (demand (digest = ''472e17feff646a45de1ff5ab4c3d46cc0183297d5dff813032fc4741f6acb192'') ''AA99 prefix-transform source changed'') (
     Inr (JObj [(''entry'', JStr ''02c9ac''), (''last_word'', JStr ''02cd13''), (''pinned_words'', JInt 872),
     (''sha256_be_words'', JStr digest), (''state_base'', JStr ''b9de''), (''state_words'', JInt 82), (''rounds'',
     JInt 16), (''half_bits'', JInt 16), (''table_entries'', JList [JInt 16, JInt 16, JInt 16, JInt 16]),
     (''scope'',
     JStr ''Scalar transform model; not key initialization, packaging, cipher identification or playback acceptance'')])))"

definition decode_recording_prefix_transform :: "word_image \<Rightarrow> json res" where
  "decode_recording_prefix_transform words =
     ensure (need words [(0x3f0e6, NIBBLE_WITNESS)] ''AA88 recording nibble selector changed or absent'') (
     rbind (region_digest words 0x3f0fd 0x3f467 ''incomplete AA88 recording transform source'') (\<lambda>digest.
     ensure (demand (digest = ''b257221beee04b41a239bb4627de4ef051788fcf753ac510785d4a59e707b5e4'') ''AA88 recording transform source changed'') (
     Inr (JObj [(''entry'', JStr ''03f0fd''), (''last_word'', JStr ''03f466''), (''pinned_words'', JInt 874),
     (''sha256_be_words'', JStr digest), (''nibble_entry'', JStr ''03f0e6''), (''state_base'', JStr ''fc6c''),
     (''state_words'', JInt 82), (''observed_data_caller_return'', JStr ''03ee95''), (''scope'',
     JStr ''Mapped forward block under captured state; not header generation, state initialization or valid full encoding'')]))))"

definition transform_copy_base :: "string \<Rightarrow> int option" where
  "transform_copy_base segment = map_of [(''aa88'', 0x3e438), (''aa99'', 0x2d01a)] segment"

definition transform_copy_words :: "int \<Rightarrow> int list" where
  "transform_copy_words base =
     [0x1303, 0x7102, 0x0012, 0xfa4d, (base + 14) AND 0xffff, 0xf495, 0x8813, 0xf310, 0x0001, 0x891a, 0xf495,
      0xf072, (base + 13) AND 0xffff, 0xe589, 0xf495, 0xf495, 0xf4e4]"

definition decode_transform_copy :: "word_image \<Rightarrow> string \<Rightarrow> json res" where
  "decode_transform_copy words seg =
     rbind (case transform_copy_base seg of None \<Rightarrow> Inl (ValueError ''unsupported transform copy overlay'') | Some b \<Rightarrow> Inr b) (\<lambda>base.
     ensure (need words [(base, transform_copy_words base)] ''original transform-copy source changed or absent'') (
     Inr (JObj [(''entry'', JStr (fmt_x 6 (base))), (''pinned_words'', JInt (int (length (transform_copy_words base)))),
     (''operation'', JStr ''MVDD Xmem,Ymem copy, not fill''), (''cpl1_far_call_arguments'', JObj [(''destination'',
     JStr ''A -> AR3''), (''source'', JStr ''*SP(2) -> AR2''), (''count'', JStr ''*SP(3) -> B'')]), (''loop'',
     JStr ''nonzero count: BRC=count-1, RPTB over e589''), (''scope'',
     JStr ''Source grammar; not caller intent, retained argument ownership or allocation/key-length validity'')])))"

definition decode_bit_window :: "word_image \<Rightarrow> json res" where
  "decode_bit_window words =
     ensure (need words [(BIT_WINDOW_BASE, BIT_WINDOW_WITNESS)] ''AA99 bit-reader source witness changed or absent'') (
     Inr (JObj [(''segment'', JStr ''aa99''), (''entry'', JStr ''02510c''), (''return'', JStr ''025142''),
     (''pinned_words'', JInt (int (length BIT_WINDOW_WITNESS))), (''remaining'', JStr ''00a854''),
     (''reservoir_high_low'', JList [JStr ''00a858'', JStr ''00a859'']), (''index'', JStr ''00b331''), (''base'',
     JStr ''00b332''), (''refill_branch'', JStr ''025117 BCD BGT''), (''refill_when'', JStr ''remaining <= 16''),
     (''model_width_domain'', JList [JInt 0, JInt 16]), (''model_remaining_domain'', JList [JInt 0, JInt 32]),
     (''scope'',
     JStr ''Pinned scalar source and bounded reference model; not all callers, retained operands, CPU acceptance or codec validity'')]))"

definition decode_output_scale :: "word_image \<Rightarrow> json res" where
  "decode_output_scale words =
     ensure (need words OUTPUT_SCALE_WITNESSES ''AA99 signed output-scaling setup/kernel changed or absent'') (
     Inr (JObj [(''segment'', JStr ''aa99''), (''entry'', JStr ''029fa2''), (''kernel'', JStr ''029fea..029fee''),
     (''pinned_words'', JInt (pin_words OUTPUT_SCALE_WITNESSES)), (''iterations_per_block'', JInt 64), (''sample'',
     JStr ''MPY *AR5+,*AR2,A''), (''output'', JStr ''STH A,4,*AR1+''), (''FRCT'', JInt 0), (''SXM'', JInt 1),
     (''SST'', JInt 1), (''reference'', JStr ''clamp_s16((signed16(sample)*signed16(coefficient)) >> 12)''),
     (''scope'', JStr ''Pinned mode setup and kernel; coefficient-update policy and all callers not decoded'')]))"

definition decode_output_processing :: "word_image \<Rightarrow> json res" where
  "decode_output_processing words =
     ensure (need words [(OUTPUT_PROCESSING_BASE,
       OUTPUT_PROCESSING_WITNESS)] ''AA99 output-processing kernel changed or absent'') (
     ensure (need words (map (\<lambda>site. (site, [0xfb82,
       0xa2c6])) FILTER_CALL_SITES) ''AA99 output-processing parent call changed or absent'') (
     ensure (need words (map (\<lambda>site. (site + 2, [0x6def,
       0xffc0])) (tl FILTER_CALL_SITES)) ''AA99 output-processing sample rewind changed or absent'') (
     Inr (JObj [(''segment'', JStr ''aa99''), (''entry'', JStr ''02a2c6''), (''return_instruction'', JStr ''02a2ea''),
     (''pinned_words'', JInt ((int (length OUTPUT_PROCESSING_WITNESS) + 18))), (''block_repeat_end'',
     JStr ''02a2e9''), (''repeat_counter'', JInt 63), (''iterations'', JInt 64), (''sample_read'',
     JStr ''02a2ce LD *AR7,T''), (''sample_write'', JStr ''02a2e9 STH A,*AR7+''), (''passes_per_parent'', JInt 5),
     (''between_pass_sample_rewind'', JInt ((- 64))), (''arithmetic'',
     JStr ''Fixed-point multiply/accumulate with persistent state writes through AR3/AR4/AR5''), (''scope'',
     JStr ''Pinned kernel, loop and parent call geometry; not independent arithmetic, coefficient meaning, runtime pass ownership or analog output'')]))))"

definition control_literals :: "span list" where
  "control_literals =
     [(0x0495, [0x2716a]), (0xaa59, [0x2049a, 0x27a0e, 0x27a2e]), (0xaa56, [0x204b4, 0x204d0, 0x204d3, 0x205af,
     0x27a05])]"

definition control_witnesses :: "span list" where
  "control_witnesses =
     [(0x27167, [0x0006, 0x804a, 0x0002, 0x0495, 0xd7b8, 0xd796, 0x0001, 0x054f, 0x0002]), (0x27a04, [0x76f8,
     0xaa56, 0x0000]), (0x27a0d, [0x76f8, 0xaa59, 0xd796]), (0x20419, [0xf6be, 0x4a06, 0x8812, 0x46f8, 0x007f,
     0xf495, 0xf074, 0x02d7, 0x8a06, 0xf7be, 0xf4e4]), (0x27079, [0x0006, 0xd7b0, 0x0002, 0x0419, 0x0000, 0x8044,
     0x0001, 0x054f]), (0x20478, [0x10e4, 0x0004, 0xf844, 0x0483, 0x6d94, 0x1394, 0x1094, 0x7194, 0x0012, 0xf5e3,
     0xfc00, 0x4918, 0x68f8, 0x0018, 0xfffe, 0xf7be, 0xf495, 0x4a0b, 0xf495, 0x4594, 0x1b94, 0x4b94, 0x1094,
     0xf5e7, 0xf6be, 0xee01, 0x8a18, 0xf495, 0xfc00]), (0x20454, [0xf6be, 0x8812, 0xf495, 0xf495, 0xf495, 0xf495,
     0x6dea, 0x0013, 0x4492, 0xf074, 0x01b3, 0xf7be, 0xf4e4]), (0x2046b, [0xf6be, 0x8812, 0xf495, 0xf495, 0xf495,
     0xf495, 0x4482, 0xf274, 0x01b3, 0x6dea, 0x0004, 0xf7be, 0xf4e4])]"

definition playback_control_literal_census :: "word_image \<Rightarrow> json res" where
  "playback_control_literal_census words =
     ensure (need words control_witnesses ''AA99 playback control witness changed or absent'') (
     ensure (demand (map (\<lambda>(literal, _). (literal,
       hits literal words)) control_literals = control_literals) ''AA99 playback control literal census changed'') (
     let switch_calls = call_hits [0xF074, 0xF274, 0xF982, 0xFB82] 0x0478 words in (
     ensure (demand (switch_calls = PLAYBACK_SWITCH_CALLS) ''AA99 context-switch immediate call census changed'') (
     Inr (JObj [(''segment'', JStr ''aa99''), (''mapped_words_scanned'', JInt (word_count words)), (''literal_hits'',
     JObj (map (\<lambda>(literal, addresses). (fmt_x 4 literal, hex6 addresses)) control_literals)),
     (''initialization_record'', JStr ''027167''), (''destination'', JStr ''00804a''), (''initialized_values'',
     JList [JStr ''0002'', JStr ''0495'', JStr ''d7b8'', JStr ''d796'', JStr ''0001'', JStr ''054f'']),
     (''initial_control_area'', JStr ''00d796''), (''context_switch_candidate'', JList [JStr ''020478'',
     JStr ''020494'']), (''immediate_switch_call_candidates'', hex6 switch_calls),
     (''service_helpers_calling_0201b3'', JList [JStr ''020454'', JStr ''02046b'']), (''enqueue_wrapper'',
     JStr ''020419''), (''enqueue_wrapper_call'', JStr ''02041f''), (''activation_descriptor_initialization'',
     JObj [(''source'', JStr ''027079''), (''destination'', JStr ''00d7b0''), (''values'', JList [JStr ''0002'',
     JStr ''0419'', JStr ''0000'', JStr ''8044'', JStr ''0001'', JStr ''054f''])]), (''scope'',
     JStr ''Exact literals and pinned initialization only; not instruction classification, computed aliases, record interpreter, resume contract or decoded audio'')])))))"

definition decode_filter_parent :: "word_image \<Rightarrow> json res" where
  "decode_filter_parent words =
     ensure (need_at words (FILTER_PARENT_WITNESSES @ map (\<lambda>site. (site, [0xFB82,
       0xA2C6])) FILTER_CALL_SITES) ''AA99 filter-parent witness changed or absent at '') (
     let found = hits 0xA2C6 words in (
     ensure (demand (found = map (\<lambda>site. site + 1) FILTER_CALL_SITES) ''AA99 filter-target literal census changed'') (
     Inr (JObj [(''segment'', JStr ''aa99''), (''mapped_words_scanned'', JInt (word_count words)), (''pinned_words'',
     JInt (pin_words FILTER_PARENT_WITNESSES + 10)), (''target'', JStr ''02a2c6''), (''literal_hits'',
     JInt (int (length found))), (''delayed_call_sites'', hex6 FILTER_CALL_SITES), (''call_form'',
     JStr ''FCALLD 02:a2c6, SPRU172C page 4-57''), (''parent_entry'', JStr ''02a10c''), (''internal_entry'',
     JStr ''02a139''), (''internal_call'', JStr ''02a12c''), (''far_pointer_reference'', JStr ''00c72a''),
     (''branch_destinations'', JList [JStr ''02a22e'', JStr ''02a152'']), (''dispatch'', JObj [(''site'',
     JStr ''0205d0''), (''receiver_references'', JList [JStr ''00aa5c'', JStr ''00aa5d'']), (''method9_entry'',
     JStr ''02988e''), (''resolver'', JStr ''0298b8'')]), (''upstream_selector'', JObj [(''site'',
     JStr ''0205ac''), (''taken_entry'', JStr ''0205b3''), (''fallthrough'', JStr ''0205ae''),
     (''receiver_reference'', JStr ''00aa5a''), (''method15_entry'', JStr ''0298a9''), (''for_header_c6f0'',
     JObj [(''getter'', JStr ''02a315''), (''field'', JInt 13), (''far_pointer_reference'', JStr ''00c70e'')])]),
     (''scope'',
     JStr ''Pinned source relationships and complete literal census within supplied AA99 words only; not computed/indirect caller closure, branch decisions, subsystem identity or decoded audio'')]))))"

definition decode_recorder_memory_mac :: "word_image \<Rightarrow> json res" where
  "decode_recorder_memory_mac words =
     ensure (need_at words [(RECORDER_MAC_BASE, RECORDER_MAC_WITNESS)] ''recorder MAC witness changed or absent at '') (
     Inr (JObj [(''segment'', JStr ''aa88''), (''pinned_words'', JInt (int (length RECORDER_MAC_WITNESS))),
     (''instruction'', JStr ''03ba1a''), (''opcode'', JStr ''6582''), (''literal'', JInt 9), (''operation'',
     JStr ''MAC *AR2,#9,A,B''), (''t_publication'', JStr ''Read''), (''reference'',
     JStr ''SPRU172C MAC syntax 4, page 4-82''), (''scope'',
     JStr ''Original instruction provenance and syntax only; this static witness establishes neither staged execution nor recording acceptance'')]))"

definition decode_worker_reservation :: "word_image \<Rightarrow> json res" where
  "decode_worker_reservation words =
     ensure (need words WORKER_RESERVATION_WITNESSES ''worker reservation source changed or absent'') (
     let found = hits 0x15d9 words in (
     ensure (demand (found = [0x204c6, 0x29322, 0x29335, 0x2935d, 0x293b1, 0x293c4,
       0x293e2]) ''worker15d9 literal census changed'') (
     let counter_hits = hits 0xd7ac words in (
     ensure (demand (counter_hits = [0x27061]) ''worker counter pointer literal census changed'') (
     Inr (JObj [(''pinned_words'', JInt (pin_words WORKER_RESERVATION_WITNESSES)), (''mapped_words_scanned'',
     JInt (word_count words)), (''literal_references'', hex6 found), (''direct_literal_writes'', JObj [(''029334'',
     JInt 1), (''02935c'', JInt 0), (''0293c3'', JInt 1), (''0293e1'', JInt 0)]), (''gate'',
     JStr ''15d9 OR context[22] must be nonzero''), (''acquisition'',
     JStr ''If15d9 is zero after the gate, call02044a(context), then write15d9=1''), (''helper'',
     JObj [(''wrapper'', JStr ''02044a..020453; delayed MAR places AR2 at context+22 before020182''), (''prefix'',
     JStr ''decrement word[AR2], load updated count while decrementing AR2''), (''callback'',
     JStr ''nonzero updated count calls020478 before the common02018f continuation''), (''scope'',
     JStr ''Pinned prefix only; callback/continuation effects and physical queue capacity remain open'')]),
     (''retention'',
     JStr ''A nonzero15d9 bypasses a fresh count acquisition; the decoded zero-result path clears it''),
     (''increment'', JStr ''0201ca ADDM #1,*AR3; runtime target ownership must be established separately''),
     (''increment_pointer'', JObj [(''load'', JStr ''0201c7 MVDK *AR2+,AR3;0201c9 MAR *AR2+''),
     (''literal_references'', hex6 counter_hits), (''initialization_candidate'', JObj [(''source'',
     JStr ''027058''), (''count'', JInt 9), (''destination'', JStr ''d797''), (''values'', JList [JStr ''0000'',
     JStr ''0000'', JStr ''0800'', JStr ''aa85'', JStr ''d7b0'', JStr ''0000'', JStr ''0000'', JStr ''d7ac'',
     JStr ''054f'']), (''pointer_destination'', JStr ''d79e''), (''pointer_source'', JStr ''027061'')]),
     (''scope'',
     JStr ''Single mapped literal in initialization data; runtime descriptor source address and initialization interpretation remain unproved'')]),
     (''scope'',
     JStr ''Local counted-context reservation contract and exact literal census; not all computed writers, full helper call effects, downstream ownership, physical units or EOF/drain completion'')]))))))"

definition decode_context_lanes :: "word_image \<Rightarrow> json res" where
  "decode_context_lanes words =
     ensure (need words CONTEXT_LANE_WITNESSES ''context lane source changed or absent'') (
     let calls = map (\<lambda>(target, _). (target, call_hits [0xf074, 0xf274, 0xf982,
       0xfb82] target words)) CONTEXT_LANE_CALLS in (
     ensure (demand (calls = CONTEXT_LANE_CALLS) ''context lane immediate-call census changed'') (
     Inr (JObj [(''pinned_words'', JInt (pin_words CONTEXT_LANE_WITNESSES)), (''mapped_words_scanned'',
     JInt (word_count words)), (''immediate_call_candidates'', JObj (map (\<lambda>(target,
     sites). (fmt_x 6 target, hex6 sites)) calls)), (''lanes'', JList [JObj [(''count_offset'', JInt 6),
     (''acquire_wrapper'', JStr ''020461''), (''publish_wrapper'', JStr ''020454''), (''publish_entry_offset'',
     JInt 20), (''link_offset'', JInt 24)], JObj [(''count_offset'', JInt 22), (''acquire_wrapper'',
     JStr ''02044a''), (''publish_wrapper'', JStr ''02046b''), (''publish_entry_offset'', JInt 4),
     (''link_offset'', JInt 8)]]), (''helper'',
     JStr ''0201b3 reaches the0201c7 link load at entry_AR2+4; optional020198 call preserves AR2 on the stack''),
     (''paired_caller'', JObj [(''entry'', JStr ''028fe6''), (''condition'', JStr ''aaa2 != 0 calls02046b(AR1)''),
     (''unconditional'', JStr ''020461(AR1)''), (''after'', JList [JStr ''aaa2 <- 1'', JStr ''aaa4 <- 0'',
     JStr ''aaa3 <- 0'']), (''scope'',
     JStr ''Local source branch, not runtime context ownership or flag lifecycle'')]), (''precondition'',
     JStr ''Local address derivation assumes called helpers return normally; callbacks and full memory effects are not modeled''),
     (''scope'',
     JStr ''Two source-defined context lanes and exact syntactic immediate-call candidates; not all computed callers, physical rings, sample units, capacity, runtime wrapper ownership, scheduling or EOF policy'')]))))"

end
