(* ===== verification/Mu4_Decoder.thy ===== *)
theory Mu4_Decoder
  imports Mu4_Playback
begin

text \<open>
  The checks of \<open>tools/mu4_context_contract.py\<close> on the decoder: return dispatch, method tables, information bodies, framing, alignment, constructor and reset.
  Each pins spans of the image, may demand a census, and returns its report.
\<close>

definition decode_exchange_publication :: "word_image \<Rightarrow> json res" where
  "decode_exchange_publication words =
     ensure (need words EXCHANGE_PUBLICATION_WITNESSES ''exchange publication source changed or absent'') (
     Inr (JObj [(''pinned_words'', JInt (pin_words EXCHANGE_PUBLICATION_WITNESSES)), (''entry'', JStr ''020545''),
     (''process'', JStr ''method11 on aa5a and aa5b, then method14 on aa5a''), (''publish'',
     JStr ''nonzero method14 low-word result reaches020581 ->02046b(AR1), then aa55=0; zero skips to020586''),
     (''selected_table_condition'', JObj [(''table'', JStr ''c6f0''), (''method14_pointer'',
     JStr ''c70c ->02a30b''), (''getter'',
     JStr ''object[9], the source-exhausted field under the copy-adapter contract''), (''scope'',
     JStr ''Conditional table interpretation; late aa5a runtime binding is not proved'')]), (''flag1310'',
     JStr ''zero bypasses the refresh/reset subsection, not publication''), (''nonzero_flag'',
     JStr ''refresh15e9 through0296ac, query end-cursor via02973c; if that result is zero OR AR1[22] is zero, call02969e(15e7), clear1310 and set12fa=1''),
     (''scope'',
     JStr ''Local branch and explicit stores conditional on normal helper returns; not helper memory effects, runtime branch selection, EOF flag semantics, physical units or drain completion'')]))"

definition decode_decoder_return_dispatch :: "word_image \<Rightarrow> json res" where
  "decode_decoder_return_dispatch words =
     ensure (need words ([(DECODER_RETURN_BASE,
       DECODER_RETURN_WITNESS)] @ DECODER_RETURN_WRAPPERS) ''decoder return dispatcher or wrapper changed'') (
     Inr (JObj [(''entry'', JStr ''0293cf''), (''last_word'', JStr ''029403''), (''pinned_words'', JInt 62),
     (''retained_return'',
     JStr ''AR1 <- A; selected metadata method9 preserves AR1 under decoder_info_helpers ABI''),
     (''common_before_branch'', JList [JStr ''method9 on object15eb with record15ee'',
     JStr ''15f0 <- low16(15f0 << 1)'']), (''zero'', JObj [(''branch'', JStr ''0293df falls through''),
     (''writes'', JList [JStr ''15d9 <- 0'', JStr ''15f1 <- 1'', JStr ''context[19] <- low16(record15ef << 1)'']),
     (''call'', JStr ''020454''), (''then'', JStr ''0293fe'')]), (''two'', JObj [(''branch'',
     JStr ''0293f1 tests low16(AR1-2) == 0''), (''calls'', JList [JStr ''method12 on object15ea'',
     JStr ''method11 on object15eb'', JStr ''02061e''])]), (''other'', JObj [(''branch'',
     JStr ''0293f1 tests low16(AR1-2) != 0''), (''then'', JStr ''0293fe''), (''includes'',
     JStr ''ffff; no zero-result stores or result2 control calls'')]), (''common_tail'',
     JStr ''refresh input object15e9 through0296ac, then branch02940b''), (''scope'',
     JStr ''Static local return routing with retained-AR1 ABI; not native worker invocation, all callee effects, retry scheduling, EOF/drain policy or complete playback'')]))"

definition decode_decoder_info_body :: "word_image \<Rightarrow> word_image \<Rightarrow> json res" where
  "decode_decoder_info_body words bootstrap =
     (let levels = concat (map (\<lambda>v. [drop_bit 16 v, v AND 0xffff]) DECODER_INFO_LEVELS) in (
     ensure (need words [(DECODER_INFO_PREFIX_BASE, DECODER_INFO_BODY), (DECODER_INFO_LEVEL_BASE,
       levels)] ''decoder info body, numeric table or bootstrap helper changed'') (
     ensure (need bootstrap [(0x2096, DECODER_INFO_HELPER_VECTOR), (0x3518,
       DECODER_INFO_HELPER_BODY)] ''decoder info body, numeric table or bootstrap helper changed'') (
     Inr (JObj [(''method'', JInt 9), (''entry'', JStr ''023e64''), (''last_word'', JStr ''023ef7''), (''body_words'',
     JInt (int (length DECODER_INFO_BODY))), (''pinned_words'',
     JInt ((((int (length DECODER_INFO_BODY) + int (length levels)) + 2) + int (length DECODER_INFO_HELPER_BODY)))),
     (''local_record_writes'', JList [JInt 1, JInt 2, JInt 3, JInt 4, JInt 5, JInt 6, JInt 7, JInt 8, JInt 9,
     JInt 10]), (''local_object_reads'', JList [JInt 1, JInt 4, JInt 8]), (''fallback'', JObj [(''condition'',
     JStr ''BA4F == 0 or BA51 != 0''), (''record_fields'', JObj [(''1'', JInt 0x400), (''2'', JInt 0x485), (''3'',
     JInt 0), (''4..5'', JInt 128000), (''6..7'', JInt 44100), (''8'', JInt 2), (''9'', JInt 0), (''10'',
     JStr ''object[1]'')])]), (''active'', JObj [(''record3'',
     JStr ''BA4F != 0 and BA51 == 0; later cleared if object[4] == 0''), (''record6'',
     JStr ''MPY A89E,#6 -> AR2; DLD *AR2(C152); offset depends on incoming multiplier status (FRCT included)''),
     (''optional_record4'', JStr ''A874 double word when BA4E and its signed low32 projection are nonzero''),
     (''numeric_table'', JObj [(''base'', JStr ''00c6a2''), (''values'', JList (map JInt DECODER_INFO_LEVELS)),
     (''loop'', JStr ''AR2 starts C6A2, AR3 starts14; compare adjacent double words, advance by2'')]), (''tail'',
     JStr ''record[2] <- helper029bdd(record[4..5],96)+1; record[8] <- A89C; record[9] <- object[8]'')]),
     (''calls'', JList [JObj [(''site'', JStr ''023ec1''), (''target'', JStr ''002096''), (''source'',
     JStr ''AA55 trampoline2096 -> 003518''), (''witness_words'', JInt 22)], JObj [(''site'', JStr ''023ee8''),
     (''target'', JStr ''029bdd''), (''source'', JStr ''AA99'')]]), (''scope'',
     JStr ''Complete local body/table and first helper source identity; metadata-oriented local flow, not native execution, helper arithmetic closure, whole-call write closure or absence of all EOF/drain controls'')])))))"

definition decode_decoder_info_helpers :: "word_image \<Rightarrow> word_image \<Rightarrow> json res" where
  "decode_decoder_info_helpers words bootstrap =
     rbind (decode_decoder_info_body words bootstrap) (\<lambda>body.
     ensure (need words [(DECODER_INFO_DIVIDE_BASE, DECODER_INFO_DIVIDE), (DECODER_INFO_DIVIDE_WORKER_BASE,
       DECODER_INFO_DIVIDE_WORKER)] ''decoder info division wrapper/worker changed'') (
     Inr (JObj [(''method'', JInt 9), (''pinned_words'', JInt (report_int ''pinned_words'' body + 74)),
     (''preconditions'', JList [JStr ''CPL=1 stack-relative direct operands'',
     JStr ''valid disjoint caller stack and metadata record in ordinary RAM'']), (''helper3518'', JObj [(''entry'',
     JStr ''003518''), (''last_word'', JStr ''00352b''), (''words'', JInt 20), (''operations'',
     JList [JStr ''preserve four MMRs; FRAME -4; save A double word to stack'',
     JStr ''MPYA/MACA/MPYU cross products; combine through B shift and ADD'',
     JStr ''FRAME +4; restore MMRs; FRET'']), (''memory'',
     JStr ''caller/local stack and MMRs only; no further calls'')]), (''helper29bdd'', JObj [(''entry'',
     JStr ''029bdd''), (''last_word'', JStr ''029c04''), (''words'', JInt 40), (''operations'',
     JList [JStr ''normalize incoming A to signed32 and retain operand-sign XOR'',
     JStr ''ABS both arguments; write absolute divisor to caller stack'',
     JStr ''equal-operand result1; larger-divisor result0; otherwise call029c62'',
     JStr ''conditionally negate quotient; restore local frame/MMRs; FRET'']), (''only_call'',
     JStr ''029bf1 -> 029c62'')]), (''worker29c62'', JObj [(''entry'', JStr ''029c62''), (''last_word'',
     JStr ''029c83''), (''words'', JInt 34), (''operations'',
     JList [JStr ''preserve AR1; clear SXM; initialize loop counter31 in delayed branch'',
     JStr ''shift A until carry, decrementing AR1'',
     JStr ''subtract/add divisor from caller stack and shift quotient/remainder'',
     JStr ''restore frame/AR1; FRET'']), (''memory'',
     JStr ''stack-relative DADD/DSUB at offset12; no calls, ports or payload pointers'')]), (''conclusion'',
     JStr ''Under the declared ABI, method9 and its closed local call tree update metadata/stack/MMRs only; no input-descriptor advancement, decoded-sample production or deferred-output drain''),
     (''scope'',
     JStr ''Static control/memory-access closure, not native method9 invocation, exact arithmetic over all operands/statuses, physical timing or closure over every other EOF control'')])))"

text \<open>\<open>f'{words[base + 2 * index] << 16 | words[base + 2 * index + 1]:06x}'\<close>.\<close>

definition method_pointer :: "word_image \<Rightarrow> int \<Rightarrow> (string \<times> json) res" where
  "method_pointer words index =
     rbind (word_at words (DECODER_METHOD_PREFIX_BASE + 2 * index)) (\<lambda>page.
     rbind (word_at words (DECODER_METHOD_PREFIX_BASE + 2 * index + 1)) (\<lambda>low.
       Inr (fmt_d index, JStr (fmt_x 6 (push_bit 16 page OR low)))))"

definition decode_decoder_method_prefix :: "word_image \<Rightarrow> json res" where
  "decode_decoder_method_prefix words =
     ensure (need words [(DECODER_METHOD_PREFIX_BASE, DECODER_METHOD_PREFIX), (DECODER_POST_FRAME_BASE,
       DECODER_POST_FRAME), (DECODER_INFO_PREFIX_BASE, DECODER_INFO_PREFIX), (DECODER_INFO_RESTORE_BASE,
       DECODER_INFO_RESTORE)] ''decoder method prefix or post-frame no-op changed'') (
     rbind (rmap_list (method_pointer words) [1..13]) (\<lambda>methods.
     Inr (JObj [(''table'', JStr ''00c686''), (''pinned_words'',
     JInt (int (length DECODER_METHOD_PREFIX + length DECODER_POST_FRAME + length DECODER_INFO_PREFIX + length DECODER_INFO_RESTORE))),
     (''methods'', JObj methods), (''post_frame'', JObj [(''method'', JInt 12), (''entry'', JStr ''023d5a''),
     (''instructions'', JList [JStr ''NOP'', JStr ''NOP'', JStr ''FRET'']), (''data_effects'',
     JStr ''return-stack consumption only; no payload/object access, sample production or buffer advancement'')]),
     (''info_prefix'', JObj [(''method'', JInt 9), (''entry'', JStr ''023e64''), (''object'', JStr ''A -> AR1''),
     (''record'', JStr ''caller SP[0] -> AR4''), (''operations'',
     JStr ''record[1] <- 0400; record[10] <- object[1]''), (''scope'',
     JStr ''First13-word sub-contract; complete local body is decoder_info_body'')]), (''info_restore'',
     JObj [(''method'', JInt 10), (''entry'', JStr ''023ef8''), (''object'', JStr ''A -> AR1''), (''record'',
     JStr ''caller SP[0] -> AR2''), (''operations'', JStr ''object[1] <- record[10]''), (''scope'',
     JStr ''Complete13-word body; no call, sample loop or EOF predicate'')]), (''scope'',
     JStr ''Original table prefix through method13, complete methods10/12 and method9 prefix; not a proven table bound, all other method bodies or absence of all EOF/drain controls'')])))"

definition decode_playback_buffer_refresh :: "word_image \<Rightarrow> json res" where
  "decode_playback_buffer_refresh words =
     ensure (need words [(PLAYBACK_BUFFER_REFRESH_BASE,
       PLAYBACK_BUFFER_REFRESH_WITNESS)] ''playback buffer refresh witness changed or absent'') (
     let copy = span_of PLAYBACK_PENDING_CONTROL 0x299cc in (
     ensure (need words [(0x299cc, copy)] ''playback refresh copy-helper ABI changed or absent'') (
     Inr (JObj [(''entry'', JStr ''0296ac''), (''last_word'', JStr ''02973b''), (''pinned_words'',
     JInt (144 + int (length copy))), (''receiver'', JStr ''R in A -> AR6; U=R[8], D=R[9]''), (''copy_abi'',
     JStr ''0299cc: destination A, source caller SP[0], count caller SP[1]''), (''downstream'', JObj [(''guard'',
     JStr ''D != 0 and unsigned R[5] > D[1]''), (''copy'', JStr ''R[5] -> D[1], count R[6]-R[5]''), (''updates'',
     JStr ''R[6] -= R[5]-D[1]; R[5] = D[1]'')]), (''upstream'', JObj [(''guard'', JStr ''U != 0''),
     (''synchronization'', JStr ''if R[1] == U[5]: optionally copy U[10..11], then R[1] = U[6] and U[5] = U[6]''),
     (''compact_guard'', JStr ''SXM=1: sign_extend16((R[0]-R[6]) & ffff) - sign_extend16(R[7]) > 0''), (''copy'',
     JStr ''R[0] -> R[6]+R[7], count updated R[1]-R[0]''), (''updates'',
     JStr ''R[0] and R[3] become R[6]+R[7]; subtract excess from R[1] and copy it to R[4]'')]),
     (''payload_operations'', JStr ''Two conditional memmove calls at 0296d4 and 029725; no payload zero-fill''),
     (''scope'',
     JStr ''Complete local refresh and copy-helper source; not live descriptor ownership, all upstream writers, physical storage padding or EOF/drain policy'')]))))"

definition decode_playback_info_query :: "word_image \<Rightarrow> json res" where
  "decode_playback_info_query words =
     ensure (need_at words PLAYBACK_INFO_QUERY_WITNESSES ''playback information query witness changed at '') (
     Inr (JObj [(''pinned_words'', JInt (pin_words PLAYBACK_INFO_QUERY_WITNESSES)), (''query'',
     JStr ''020973 clears 130f, passes destination 1307 to method 11 through 15ea''), (''selected_object'',
     JStr ''027823 sets 15eb=aaac and 15ea=9cf8''), (''initial_table'',
     JStr ''original C-init 02744b sets object 9cf8 table to c738''), (''method_11'',
     JStr ''c738 + 2*11 = c74e: zero far pointer''), (''missing_method'',
     JStr ''0298b8 returns ffff for zero far pointer; it does not call a metadata writer''), (''flag_literals'',
     hex6 (hits 0x1310 words)), (''scope'',
     JStr ''Selected initial table and local query/dispatcher spans; not table immutability, indirect writer closure, metadata layout or an EOF operation'')]))"

definition adjacent_pairs :: "word_image \<Rightarrow> int list" where
  "adjacent_pairs words = filter (\<lambda>a. map_of words (a + 1) \<noteq> None) (map fst words)"

definition decode_decoder_dispatch :: "word_image \<Rightarrow> json res" where
  "decode_decoder_dispatch words =
     ensure (need_base words DECODER_DISPATCH_WITNESSES ''decoder dispatch witness changed or absent at '') (
     let adjacent = adjacent_pairs words in (
     let far_refs = sort (filter (\<lambda>a. map_of words a = Some 2 \<and> map_of words (a + 1) = Some 0x3d5d) adjacent) in (
     let direct = sort (filter (\<lambda>a. map_of words a \<in> {Some 0xf982, Some 0xfb82,
       Some 0xf882} \<and> map_of words (a + 1) = Some 0x9879) adjacent) in (
     Inr (JObj [(''segment'', JStr ''aa99''), (''pinned_words'', JInt (pin_words DECODER_DISPATCH_WITNESSES)),
     (''method'', JInt 13), (''selected_table_pointer'', JStr ''00c6a0''), (''body'', JStr ''023d5d''),
     (''wrapper'', JStr ''029879''), (''common_dispatch'', JStr ''0298b8''), (''selected_callsite'',
     JStr ''0293cd''), (''receiver_reference'', JStr ''15eb''), (''input_object_reference'', JStr ''15e9''),
     (''availability_helper'', JObj [(''entry'', JStr ''02973c''), (''operation'',
     JStr ''low16(object[1] - object[0])'')]), (''local_gate'', JObj [(''compare'', JStr ''0293ad''), (''branch'',
     JStr ''0293ae''), (''skip_target'', JStr ''02940b''), (''condition'',
     JStr ''unsigned AR2 < AR0; CMPR CC=1,AR2''), (''threshold'', JStr ''1310 != 0 selects zero; otherwise 0400''),
     (''activity'', JStr ''15d9 OR context[0x16] must be nonzero at 0293b5'')]), (''post_frame'', JObj [(''call'',
     JStr ''023e2e''), (''wrapper'', JStr ''029f2b''), (''virtual_method'', JInt 12)]), (''census'',
     JObj [(''mapped_words'', JInt (word_count words)), (''adjacent_pairs'', JInt (int (length adjacent))),
     (''encoded_far_reference_candidates'', hex6 far_refs), (''recognized_direct_wrapper_candidates'',
     hex6 direct), (''scope'',
     JStr ''Contiguous word pairs and FCALL/FCALLD/FB forms only; not code/data classification or complete indirect-call closure'')]),
     (''scope'',
     JStr ''Pinned local software dispatch gates; no physical counter units, runtime operand ownership or session-termination cause'')])))))"

definition decode_pcm_conversion :: "word_image \<Rightarrow> json res" where
  "decode_pcm_conversion words =
     ensure (need_at words PCM_CONVERSION_WITNESSES ''PCM conversion witness changed or absent at '') (
     Inr (JObj [(''segment'', JStr ''aa99''), (''pinned_words'', JInt (pin_words PCM_CONVERSION_WITNESSES)), (''entry'',
     JStr ''0248a6''), (''argument'', JInt 14), (''shift_composition'',
     JStr ''024e38 calls 024d43 for 0 to -14, then 0 to 0''), (''rounded_right_shift'',
     JStr ''024d43 uses signed32 shift by 13, adds one, then shifts by one''), (''result'',
     JStr ''clamp((signed32(raw)+8192)>>14, -32767, 32767)''), (''scope'',
     JStr ''Argument-14 source contract only, not other shift arguments, decoder sample correctness or native audio acceptance'')]))"

definition decode_mono_output :: "word_image \<Rightarrow> json res" where
  "decode_mono_output words =
     ensure (need words [(MONO_OUTPUT_BASE, MONO_OUTPUT_WITNESS)] ''original mono output-selection witness changed'') (
     Inr (JObj [(''channel_count'', JStr ''a89c''), (''mono_value'', JInt 1), (''source_stack_word'', JInt 6),
     (''duplicated_stack_word'', JInt 5), (''pinned_words'', JInt (int (length MONO_OUTPUT_WITNESS))), (''scope'',
     JStr ''Mono aliases the second conversion source to the first after the return-pointer observation; not two independently decoded channels'')]))"

definition decode_recorder_stop_frontend :: "word_image \<Rightarrow> json res" where
  "decode_recorder_stop_frontend words =
     ensure (need words RECORDER_STOP_FRONTEND ''recorder stop frontend source changed or absent'') (
     Inr (JObj [(''pinned_words'', JInt (pin_words RECORDER_STOP_FRONTEND)), (''control_case'',
     JStr ''0285dc: clear 3750; continuation 0008 becomes 000a, otherwise 0009; call 0384fc then 0386ec''),
     (''processing_request'', JObj [(''builder'', JStr ''0392ae''), (''words'', JList [JInt 3, JInt 0, JInt 0,
     JInt 1]), (''buffer'', JStr ''fd85..fd88''), (''send'',
     JStr ''0395e6 with four words; downstream processing not closed'')]), (''codec_control'', JObj [(''helper'',
     JStr ''0386ec''), (''words'', JList [JStr ''0580'', JStr ''0a09'']), (''transport'',
     JStr ''0388ad ORs register/data arguments, polls 0049 bit 1 and writes encoded word to 0043''), (''meaning'',
     JStr ''AIC23-family headphone mute/zero-cross simultaneous update; DAC mute and ADC high-pass disable''),
     (''scope'',
     JStr ''Control words and related B-revision register definitions; not analog behavior or a file flush'')]),
     (''completion_consumer'', JObj [(''case'', JStr ''039443''), (''predicate'',
     JStr ''fd85 == 8009 and fd86 == 1''), (''action'',
     JStr ''clear mode 3750; update continuation; state 373e <- 2; codec mute; API 2082 then loader 2080''),
     (''scope'',
     JStr ''Selected consumer block only; producer and successful recording extent not established'')]),
     (''scope'',
     JStr ''Complete stop helper stubs plus selected dispatch/completion blocks; not closure over the processing worker or file-flush policy'')]))"

definition decode_recorder_stop_mailbox :: "word_image \<Rightarrow> json res" where
  "decode_recorder_stop_mailbox words =
     ensure (need words RECORDER_STOP_MAILBOX ''recorder stop mailbox source changed or absent'') (
     Inr (JObj [(''pinned_words'', JInt (pin_words RECORDER_STOP_MAILBOX)), (''publication'',
     JStr ''0395e6 waits for 0080 bit15, writes a zero-extended 16-word record through 0395b5 in descending address order, then calls nonzero EFE6''),
     (''initialization'',
     JStr ''AA88 00708a selects 038c13 through setter 03962f; this is an initialization selection, not lifetime pointer immutability''),
     (''notification'', JStr ''038c13 sets 05cd=1 and INTR 25; vector 2064 branches to 038ad2''), (''selector3'',
     JStr ''038bbf clears 05ea/05ce/05f0; stores (argument == 0) at 05eb; when 05eb!=0 sets 05f3=1''),
     (''immediate_reply'',
     JStr ''038be4 ORs selector with 8000; selector 3 acknowledgement is 8003, distinct from asynchronous 8009''),
     (''deferred'',
     JStr ''038a66 tests 05f3; selected 038a9b tail waits on 05f1 or prepares selector 16/argument 0 and clears 05f3''),
     (''buffer_reset'',
     JStr ''When 05f0==0 and 05eb!=0, 0389ef..038a08 clears 05ed,05ee,05eb; buffer units and file-flush ownership unclassified''),
     (''processing_gate'',
     JStr ''038f52 branches on 05eb to 038ff7: helper 0389cf(0), reset helper 039766(05e6), cleanup helper 03e30c(05f4)''),
     (''scope'',
     JStr ''Selected original-source mailbox/stop paths; no live callback identity, final-flush policy, asynchronous completion producer or intended sample extent proof'')]))"

definition decode_metadata_overwrite_extent :: "word_image \<Rightarrow> word_image \<Rightarrow> json res" where
  "decode_metadata_overwrite_extent resident_words bootstrap_words =
     ensure (need resident_words (span_set METADATA_EXTENT_WITNESSES ''aa22'') ''metadata overwrite extent source changed or absent'') (
     ensure (need bootstrap_words (span_set METADATA_EXTENT_WITNESSES ''aa55'') ''metadata overwrite extent source changed or absent'') (
     Inr (JObj [(''pinned_words'', JInt (sum_list (map (\<lambda>(_,
     spans). pin_words spans) METADATA_EXTENT_WITNESSES))), (''record'',
     JStr ''038eab selects directory record 1444 before updater 028385; byte extent at record+12/+13''),
     (''seeks'', JStr ''0033ea resets cluster/offset fields +14/+15/+16, not extent +12/+13''), (''rewrite'',
     JStr ''028420 seeks zero then old_tag_bytes/2 single-word zero writes; 028455 seeks zero then writes five header words and fifty tag words''),
     (''accounting'',
     JStr ''03c3f6 doubles processed AR7 word count and unconditionally DADDs it into record+12/+13; no position maximum in this tail''),
     (''directory'',
     JStr ''03c421 serializes record+13 then high half of record+12/+13 into the on-disk directory buffer''),
     (''scope'',
     JStr ''Selected source-pinned ID3 rewrite, seek-prefix and writer/accounting blocks; no claim that the extension is desirable, a hardware defect, or valid codec padding'')])))"

definition decode_pocp_buffer_count :: "word_image \<Rightarrow> word_image \<Rightarrow> json res" where
  "decode_pocp_buffer_count rel_words resident_words =
     rbind (pocp_count_words ''aa99'') (\<lambda>rel_spans.
     ensure (need rel_words rel_spans ''aa99 POCP count writer changed or absent'') (
     rbind (pocp_count_words ''aa22'') (\<lambda>resident_spans.
     ensure (need resident_words resident_spans ''aa22 POCP count writer changed or absent'') (
     Inr (JObj [(''pinned_words'', JInt 228), (''source'',
     JStr ''pointer in caller argument at local SP[5d]; dereferenced 16-bit count''), (''minimum'',
     JStr ''unsigned count < 0200: store required 0200 through that pointer and return error''),
     (''serialization'',
     JStr ''mask and shift the count into output byte-valued words 8..11, least significant first''),
     (''next_field'',
     JStr ''normal return from 02adb2 is constant 16; caller serializes it least significant first into output words 12..15''),
     (''source_spans'', JObj [(''aa99'', JList [JStr ''02aea5..02aeb9'', JStr ''02aeff..02af26'',
     JStr ''02adb2..02adbe'', JStr ''02af27..02af4e'']), (''aa22'', JList [JStr ''02a469..02a47d'',
     JStr ''02a4c3..02a4ea'', JStr ''02a376..02a382'', JStr ''02a4eb..02a512''])]), (''scope'',
     JStr ''Four source-pinned writer/helper spans in each overlay; not total track samples, custom-body interpretation or completed recording'')])))))"

definition decode_decoder_input_reserve :: "word_image \<Rightarrow> json res" where
  "decode_decoder_input_reserve words =
     ensure (need words [(DECODER_INPUT_RESERVE_BASE,
       DECODER_INPUT_RESERVE_WITNESS)] ''decoder input reserve witness changed or absent'') (
     Inr (JObj [(''entry'', JStr ''024425''), (''pinned_words'', JInt 19), (''predicate'',
     JStr ''unsigned candidate index > ((b330 - 8) & ffff)''), (''rejected'',
     JStr ''subtract the skipped-word count back out of b331, return zero''), (''accepted'',
     JStr ''branch to 024438, consume residual bits through 02510c''), (''scope'',
     JStr ''Local skip helper reserves eight words for extents >= 8; not a general EOF or short-buffer protocol'')]))"

definition decode_decoder_input_descriptor :: "word_image \<Rightarrow> json res" where
  "decode_decoder_input_descriptor words =
     ensure (need_at words DECODER_INPUT_DESCRIPTOR_WITNESSES ''decoder input descriptor witness changed at '') (
     Inr (JObj [(''pinned_words'', JInt (pin_words DECODER_INPUT_DESCRIPTOR_WITNESSES)), (''descriptor'',
     JStr ''two word pointers: cursor, exclusive end''), (''extent'',
     JStr ''02973c returns end minus cursor; wrapper stores at b330''), (''advancement'',
     JStr ''023def snapshots fetched-word index b331; 023e59 adds it to descriptor cursor''), (''ownership'',
     JStr ''caller supplies window; decoder owns reservoir and advances public cursor''), (''scope'',
     JStr ''Local source spans plus isolated successful-call observations; not original storage refill lifecycle, short-input recovery or EOF'')]))"

definition decode_decoder_mapped_alu :: "word_image \<Rightarrow> json res" where
  "decode_decoder_mapped_alu words =
     ensure (need words [(DECODER_MAPPED_ALU_BASE,
       DECODER_MAPPED_ALU_WITNESS)] ''AA99 mapped-register arithmetic witness changed or absent'') (
     Inr (JObj [(''entry'', JStr ''02558f''), (''pinned_words'', JInt 10), (''first'',
     JStr ''ADD *($0016),0,A,B; STLM B,AR2''), (''second'', JStr ''ADD *($0019),0,A,B; STLM B,AR1''),
     (''register_names'', JObj [(''0016'', JStr ''AR6''), (''0019'', JStr ''BK'')]), (''scope'',
     JStr ''Original arithmetic operands and pointer publication; not admitted staged BK ownership or decoded audio'')]))"

definition decode_decoder_sync :: "word_image \<Rightarrow> json res" where
  "decode_decoder_sync words =
     ensure (need words [(DECODER_SYNC_BASE, DECODER_SYNC_WITNESS)] ''AA99 ADTS sync predicate changed or absent'') (
     Inr (JObj [(''entry'', JStr ''024457''), (''pinned_words'', JInt 15), (''reader_width'', JInt 15), (''expected'',
     JStr ''7ffc''), (''accepted_first_words'', JList [JStr ''fff8'', JStr ''fff9'']), (''interpretation'',
     JStr ''MPEG-2 ADTS ID=1 and layer=0; protection bit is not in this comparison''), (''scope'',
     JStr ''Local sync predicate only; not MPEG-4 payload-tool absence or complete ADTS validation'')]))"

definition decode_catalogue_media_admission :: "word_image \<Rightarrow> json res" where
  "decode_catalogue_media_admission words =
     ensure (need words CATALOGUE_MEDIA_WITNESSES ''AA22 catalogue media-admission witness changed or absent'') (
     Inr (JObj [(''segment'', JStr ''aa22''), (''pinned_words'', JInt 29), (''entry'', JStr ''039494''),
     (''extension_source'', JStr ''local SP+0x28, derived directory descriptor +9''), (''comparisons'',
     JList [JObj [(''literal'', JStr ''bff3''), (''text'', JStr ''REL'')], JObj [(''literal'', JStr ''bff7''),
     (''text'', JStr ''LSE'')]]), (''compare_helper'', JStr ''02e36f''), (''rejection'',
     JStr ''039570: advance directory enumeration''), (''scope'',
     JStr ''Pinned scanner extension filter; not LSE container validity, AAC decoder capability or every media-opening route'')]))"

definition decode_decoder_configuration :: "word_image \<Rightarrow> json res" where
  "decode_decoder_configuration words =
     ensure (need words DECODER_CONFIGURATION_WITNESSES ''AA99 original decoder configuration changed or absent'') (
     Inr (JObj [(''pinned_words'', JInt 30), (''object'', JStr ''aaac''), (''original_upload_configuration'',
     JList [JStr ''d43b..d44b'']), (''caller'', JStr ''02786b -> wrapper 029870 -> virtual method 6''),
     (''stack_arguments'', JList [JStr ''d43d'', JStr ''0000'', JStr ''d43b'']), (''resulting_object_fields'',
     JObj [(''aaad'', JStr ''0000''), (''aaae'', JStr ''e800''), (''aaaf'', JStr ''f000'')]), (''scope'',
     JStr ''Original configuration bytes and call setup; not all caller branches, input refill or complete isolated decoder execution'')]))"

definition decode_decoder_constructor :: "word_image \<Rightarrow> json res" where
  "decode_decoder_constructor words =
     ensure (need words [(DECODER_CONSTRUCTOR_BASE,
       DECODER_CONSTRUCTOR_WITNESS)] ''AA99 decoder constructor witness changed or absent'') (
     ensure (need words [(0xc692, [2, 0x3d27]), (0xc69c, [2,
       0x3d41])] ''AA99 decoder constructor/reset table pointer changed or absent'') (
     Inr (JObj [(''entry'', JStr ''023d27''), (''pinned_words'', JInt 30), (''method_table'', JStr ''c686''),
     (''constructor_method'', JInt 6), (''reset_method'', JInt 11), (''object'', JStr ''A -> AR1''),
     (''configuration_pointers'', JList [JStr ''local SP+4 -> AR2'', JStr ''local SP+6 -> AR3'']), (''copies'',
     JList [JStr ''object[1] = AR3[1]'', JStr ''object[2] = AR2[9]'', JStr ''object[3] = AR2[14]'']), (''tail'',
     JStr ''call original 023d41 with object in A''), (''scope'',
     JStr ''Pinned local constructor ABI and table entries; configuration field meaning and upstream producer remain open'')])))"

definition decode_decoder_channel_reset :: "word_image \<Rightarrow> json res" where
  "decode_decoder_channel_reset words =
     ensure (need words [(DECODER_CHANNEL_RESET_BASE,
       DECODER_CHANNEL_RESET_WITNESS)] ''AA99 channel reset witness changed or absent'') (
     Inr (JObj [(''entry'', JStr ''0245d7''), (''pinned_words'', JInt 57), (''defaults'', JObj [(''a8c7'',
     JStr ''0000''), (''a85e'', JStr ''0001''), (''a85f'', JStr ''ffff''), (''a89d'', JStr ''0001''), (''a89e'',
     JStr ''0003''), (''b333'', JStr ''aaec'')]), (''channel_iterations'', JInt 2), (''channel_stride'', JInt 6),
     (''channel_clears'', JList [JStr ''a89f'', JStr ''a8a5'', JStr ''[b335]+3'', JStr ''[b336]+3'']), (''buffer'',
     JObj [(''first'', JStr ''af30''), (''last'', JStr ''b32f''), (''words'', JInt 1024), (''value'', JInt 0)]),
     (''expected_data_writes'', JInt 1034), (''scope'',
     JStr ''Complete local source footprint with initialized pointers; not runtime retirement or all codec-state construction'')]))"

text \<open>The records of four words: a count, a destination and the values.\<close>

fun pointer_rows :: "int \<Rightarrow> int list \<Rightarrow> json list" where
  "pointer_rows address (amount # destination # v # v' # rest) =
     JObj [(''source'', JStr (fmt_x 6 address)), (''count'', JInt amount), (''destination'', JStr (fmt_x 4 destination)),
           (''values'', JList [JStr (fmt_x 4 v), JStr (fmt_x 4 v')])]
     # pointer_rows (address + 4) rest"
| "pointer_rows address _ = []"

definition decode_decoder_pointer_records :: "word_image \<Rightarrow> json res" where
  "decode_decoder_pointer_records words =
     ensure (need words [(DECODER_POINTER_RECORD_BASE,
       DECODER_POINTER_RECORD_WITNESS)] ''AA99 decoder pointer initialization records changed or absent'') (
     Inr (JObj [(''segment'', JStr ''aa99''), (''pinned_words'', JInt 16), (''records'',
     JList (pointer_rows DECODER_POINTER_RECORD_BASE DECODER_POINTER_RECORD_WITNESS)), (''scope'',
     JStr ''Original count/destination/data records; not all indirect writers or object lifetime ownership'')]))"

end
