(* ===== verification/Mu4_Refill.thy ===== *)
theory Mu4_Refill
  imports Mu4_Decoder
begin

text \<open>
  The checks of \<open>tools/mu4_context_contract.py\<close> on refills and control: the copy adapter, measurement, cleanup ingress, pending words, the senders of inputs 3 and 16, the final input and the comparison of two revisions.
  Each pins spans of the image, may demand a census, and returns its report.
\<close>

definition decode_decoder_reset :: "word_image \<Rightarrow> json res" where
  "decode_decoder_reset words =
     ensure (need words [(DECODER_RESET_BASE, DECODER_RESET_WITNESS)] ''AA99 decoder reset witness changed or absent'') (
     ensure (need words [(DECODER_BIT_RESET_BASE,
       DECODER_BIT_RESET_WITNESS)] ''AA99 bit-reader reset witness changed or absent'') (
     Inr (JObj [(''entry'', JStr ''023d41''), (''pinned_words'', JInt (int (length DECODER_RESET_WITNESS))),
     (''receiver'', JStr ''A -> AR1''), (''calls'', JList [JStr ''0245d7'', JStr ''0256cf'']), (''clears'',
     JList [JStr ''ba50'', JStr ''ba44'', JStr ''receiver+4'', JStr ''receiver+5'',
     JStr ''doubleword receiver+6'']), (''bit_reader_reset'', JObj [(''entry'', JStr ''0256cf''),
     (''pinned_words'', JInt 12), (''clears'', JList [JStr ''doubleword a858'', JStr ''a854'', JStr ''a85a''])]),
     (''scope'',
     JStr ''Complete local reset and bit-reader reset; first callee effects, receiver extent and executable external-input ABI remain open'')])))"

definition decode_decoder_alignment :: "word_image \<Rightarrow> json res" where
  "decode_decoder_alignment words =
     ensure (need words [(DECODER_ALIGNMENT_BASE,
       DECODER_ALIGNMENT_WITNESS)] ''AA99 decoder alignment witness changed or absent'') (
     Inr (JObj [(''entry'', JStr ''02542b''), (''pinned_words'', JInt (int (length DECODER_ALIGNMENT_WITNESS))),
     (''input'', JStr ''a854 remaining-bit count''), (''positive_domain'',
     JStr ''0..31: consume remaining & 7 bits through 02510c''), (''scope'',
     JStr ''Local byte-alignment helper, not a codec initializer or negative-count contract'')]))"

definition decode_decoder_framing :: "word_image \<Rightarrow> json res" where
  "decode_decoder_framing words =
     ensure (need words [(DECODER_FRAMING_BASE,
       DECODER_FRAMING_WITNESS)] ''AA99 decoder framing witness changed or absent'') (
     Inr (JObj [(''segment'', JStr ''aa99''), (''entry'', JStr ''023d73''), (''pinned_words'',
     JInt (int (length DECODER_FRAMING_WITNESS))), (''input_base'',
     JStr ''receiver dereference -> b332; b331 reset to zero''), (''bypass'',
     JStr ''ba50 nonzero skips detection to 023da0''), (''default_flags'', JObj [(''ba4f'', JInt 1), (''ba4e'',
     JInt 0)]), (''adif_signature'', JList [JStr ''4144'', JStr ''4946'']), (''adif_flags'', JObj [(''ba4f'',
     JInt 0), (''ba4e'', JInt 1)]), (''adif_initialization'',
     JStr ''if ba44 is zero: call 0241f2, call 02542b, set ba44=1''), (''scope'',
     JStr ''Pinned local framing branch; not complete ADIF support, initializer ABI or external REL packaging'')]))"

definition decode_decoder_output :: "word_image \<Rightarrow> json res" where
  "decode_decoder_output words =
     ensure (need_at words DECODER_OUTPUT_WITNESSES ''decoder output witness changed or absent at '') (
     Inr (JObj [(''segment'', JStr ''aa99''), (''pinned_words'', JInt (pin_words DECODER_OUTPUT_WITNESSES)),
     (''input_setup'', JStr ''023d73 initializes b332 from the receiver and resets b331''), (''processing_call'',
     JStr ''023de5 -> 024610''), (''processing_result'', JStr ''caller SP+0x0f''), (''nonzero_result_exit'',
     JStr ''023df4 -> 023e59''), (''conversion_loop'', JObj [(''first'', JStr ''023e14''), (''count'', JInt 1024),
     (''helper'', JStr ''0248a6''), (''helper_stack0'', JInt 14), (''destinations'', JList [JStr ''*+AR1'',
     JStr ''*AR1(0x400)'']), (''source_reads'', JList [JStr ''DLD *AR2+'', JStr ''DLD *AR7+''])]), (''scope'',
     JStr ''Pinned candidate processing/conversion boundary, not runtime call-to-packet ownership or correct decoder arithmetic'')]))"

definition decode_copy_adapter :: "word_image \<Rightarrow> json res" where
  "decode_copy_adapter words =
     ensure (need_at words COPY_ADAPTER_WITNESSES ''copy adapter witness changed or absent at '') (
     Inr (JObj [(''segment'', JStr ''aa99''), (''pinned_words'', JInt (pin_words COPY_ADAPTER_WITNESSES)), (''entry'',
     JStr ''02a31f''), (''object_register'', JStr ''AR4''), (''double_fields_compared'', JList [JInt 4, JInt 2]),
     (''unequal_branch'', JStr ''02a369''), (''equal_path'', JObj [(''source'',
     JStr ''object[6] + old(object[8])''), (''source_register'', JStr ''AR3''), (''destination'',
     JStr ''object[10] + old(object[12])''), (''destination_register'', JStr ''AR2''), (''count'',
     JStr ''min(object[7]-old(object[8]), object[11]-old(object[12]))''), (''cursor_update'',
     JStr ''both cursors advance by count before MVDD''), (''source_exhausted'',
     JStr ''set object[9]=1 when source remaining <= destination remaining''), (''destination_full'',
     JStr ''set object[13]=1 when destination remaining <= source remaining''), (''positive_count_required'',
     JBool True), (''body'', JStr ''02a366''), (''operation'', JStr ''MVDD *AR3+,*AR2+'')]), (''scope'',
     JStr ''Pinned equal-field count, old-cursor addressing and advance-before-copy in the nonnegative remaining-count domain; no rate semantics, unequal-field helper, all-alias writer closure or decoded audio'')]))"

definition dma_pause_check :: "(string, word_image) dict \<Rightarrow> unit \<Rightarrow> string \<times> int \<times> int list \<Rightarrow> unit res" where
  "dma_pause_check sources u row = (case row of (segment, base, witness) \<Rightarrow>
     need_at (segment_words sources segment) [(base, witness)]
       (''DMA pause witness changed or absent in '' @ segment @ '' at ''))"

definition decode_dma_pause :: "word_image \<Rightarrow> word_image \<Rightarrow> json res" where
  "decode_dma_pause words rel_words =
     ensure (rfold (dma_pause_check [(''aa22'', words), (''aa99'', rel_words)]) () DMA_PAUSE_WITNESSES) (
     Inr (JObj [(''pinned_words'', JInt 22), (''control_address'', JStr ''0054''), (''channel'', JInt 3),
     (''clear_mask'', JStr ''fff7''), (''set_mask'', JStr ''0008''), (''sequences'', JList (map (\<lambda>(seg,
     base, witness). JObj [(''segment'', JStr seg), (''start'', JStr (fmt_x 6 base)), (''paused_call'',
     JStr (''02'' @ fmt_x 4 (witness ! 6)))]) DMA_PAUSE_WITNESSES)), (''scope'',
     JStr ''Direct DE3 pause/call/resume sequences only; no complete callee effects or PCM interpretation'')]))"

definition decode_measurement_response :: "word_image \<Rightarrow> json res" where
  "decode_measurement_response words =
     ensure (need_at words [(MEASUREMENT_RESPONSE_BASE,
       MEASUREMENT_RESPONSE_WITNESS)] ''measurement response witness changed or absent at '') (
     Inr (JObj [(''segment'', JStr ''aa22''), (''pinned_words'', JInt (int (length MEASUREMENT_RESPONSE_WITNESS))),
     (''selector'', JStr ''68''), (''default_result'', JInt 1), (''threshold'', JInt 10000000), (''left'',
     JObj [(''aggregate'', JStr ''b64a/b64b''), (''below_threshold_result'', JInt 0x1f)]), (''right'',
     JObj [(''aggregate'', JStr ''b64c/b64d''), (''below_threshold_result'', JInt 0x20), (''overrides_left'',
     JBool True)]), (''comparison'',
     JStr ''RSBX C16; DSUB aggregate,A; ALEQ skips result store at equality or above''), (''scope'',
     JStr ''Pinned AA22 response for independently checked nonsaturating energy sums; no decoded music or analog audio claim'')]))"

definition decode_playback_cleanup_ingress :: "word_image \<Rightarrow> json res" where
  "decode_playback_cleanup_ingress words =
     ensure (need_at words PLAYBACK_CLEANUP_INGRESS ''cleanup ingress witness changed at '') (
     Inr (JObj [(''pinned_words'', JInt (pin_words PLAYBACK_CLEANUP_INGRESS)), (''field'', JStr ''aa1a''),
     (''mapped_literal_references'', hex6 (hits 0xaa1a words)), (''initial_store_pattern'', JObj [(''address'',
     JStr ''027887''), (''value'', JInt 1)]), (''input17'', JObj [(''dispatch'', JStr ''029445''), (''store'',
     JStr ''02944b''), (''operation'', JStr ''MVDK local-frame word 5 -> aa1a''), (''reply_word'', JStr ''8017''),
     (''continuation'', JStr ''0295af'')]), (''input11'', JObj [(''entry'', JStr ''029471''), (''reply_word'',
     JStr ''8011''), (''gate'', JStr ''0294fd''), (''predicate'', JStr ''aa1a == 1''), (''taken_target'',
     JStr ''02956f''), (''scope'', JStr ''intervening processing paths are not modeled'')]), (''length_path'',
     JObj [(''source_doubleword'', JStr ''371a''), (''local_full'', JStr ''SP+006a''), (''local_logical_half'',
     JStr ''SP+006c''), (''counter_doubleword'', JStr ''a9f6''), (''compare'', JStr ''0294c3 BGEQ -> 0294ea''),
     (''taken_updates'', JStr ''AR1 = low16(local_half - a9f7); aa1c = 1; counter = local_full''), (''join'',
     JStr ''0294fb -> 0294fd''), (''scope'',
     JStr ''Pinned dataflow; counter units and complete producer contract unvalidated'')]), (''scope'',
     JStr ''Pinned dispatch/store/compare patterns; no runtime message ownership, all-writer closure, EOF meaning or decoder failure claim'')]))"

definition decode_playback_input_units :: "word_image \<Rightarrow> word_image \<Rightarrow> json res" where
  "decode_playback_input_units words bootstrap_words =
     ensure (need_at words PLAYBACK_INPUT_UNITS_AA99 ''input units witness changed at '') (
     ensure (need_at bootstrap_words PLAYBACK_INPUT_UNITS_AA55 ''input units witness changed at '') (
     let descriptor = 0x36b0 + 2 * 0x2c in (
     Inr (JObj [(''pinned_words'', JInt (pin_words PLAYBACK_INPUT_UNITS_AA55 + pin_words PLAYBACK_INPUT_UNITS_AA99)),
     (''descriptor'', JObj [(''base'', JStr ''36b0''), (''stride_words'', JInt 0x2c), (''index'', JInt 2),
     (''address'', JStr (fmt_x 4 (descriptor))), (''size_pair'', JStr (fmt_x 4 ((descriptor + 0x12))))]),
     (''input11'', JObj [(''count'', JStr ''local frame word 7 -> AR1 -> callback word-count argument''),
     (''adapter'', JStr ''0292cc''), (''callbacks'', JList [JStr ''0295cd'', JStr ''0295de'']), (''reader_apis'',
     JList [JStr ''002090'', JStr ''002086''])]), (''reader'', JObj [(''loop'', JStr ''003349..003365''),
     (''destination_stride_words'', JInt 1), (''byte_offset_scale'', JInt 2), (''swapping_api'',
     JStr ''002086'')]), (''limit'', JObj [(''source'', JStr ''371a descriptor size pair''), (''operation'',
     JStr ''logical shift right 1''), (''units'', JStr ''16-bit file words for an even byte extent'')]),
     (''counter_initialization'', JStr ''02788a: zero -> a9f6 doubleword''), (''scope'',
     JStr ''Pinned source argument flow and descriptor arithmetic; not every runtime read/seek retirement, all counter writers, odd-byte tails or decoder drain correctness'')]))))"

definition decode_playback_pending_control :: "word_image \<Rightarrow> json res" where
  "decode_playback_pending_control words =
     ensure (need_at words PLAYBACK_PENDING_CONTROL ''pending-control witness changed at '') (
     Inr (JObj [(''pinned_words'', JInt (pin_words PLAYBACK_PENDING_CONTROL)), (''controller'', JObj [(''entry'',
     JStr ''020742''), (''frame_setup'', JStr ''020769''), (''request'', JStr ''CPL frame word 2 -> AR1''),
     (''input17'', JStr ''0207f5: pending 12fc <- 1''), (''input16'',
     JStr ''0207fa: 12fa <- 1; 15db <- 1; 12fb <- frame word 3'')]), (''receiver16'', JObj [(''entry'',
     JStr ''029458''), (''reply'', JStr ''8016''), (''argument'', JStr ''frame word 5 -> A; CALL 0291d3''),
     (''source_hook'', JStr ''0291d3: NOP; NOP; FRET''), (''continuation'',
     JStr ''LD #3708,A; frame[1] <- 9; frame[0] <- A; A <- AR1 (frame+5); CALL 0299cc; send through 02929c''),
     (''copy'', JStr ''0299cc: nine words from fixed 3708..3710 to reply frame words 5..13''), (''copy_abi'',
     JStr ''destination A -> AR3/AR0; source caller frame[0] -> AR4; count caller frame[1]''), (''copy_direction'',
     JStr ''source AR4 > destination AR0: forward; otherwise backward; zero count skips body'')]),
     (''notification'', JObj [(''initializer'', JStr ''0278cd: callback 02:0981 -> setter 0292f0''), (''pointer'',
     JStr ''aa7e''), (''publisher'', JStr ''0292a7: copy to mailbox 0080; call nonzero aa7e''), (''callback'',
     JStr ''020981: 12f8 <- 1; INTR 25''), (''vector'', JStr ''022064: PSHM XPC; NOP; FB 02:0742''),
     (''pointer_literal_references'', hex6 (hits 0xaa7e words))]), (''scope'',
     JStr ''Pinned source fragments, not live message ownership, runtime execution or hook immutability, an EOF/drain command or an all-producer closure'')]))"

definition decode_playback_pending16_producers :: "(string, word_image) dict \<Rightarrow> json res" where
  "decode_playback_pending16_producers images =
     ensure (demand (set (map fst images) = {''aa55'', ''aa22'', ''aa99'',
       ''aa88''}) ''pending16 census requires all four original mapped images'') (
     let words = segment_words images ''aa99'' in (
     ensure (need words PLAYBACK_PENDING16_PRODUCERS ''pending16 producer/dispatcher source changed'') (
     ensure (demand (literal_inventory images 0x12fb [(''aa55'', []), (''aa22'', []), (''aa99'', [0x2065f, 0x2072f,
       0x20801, 0x208e6, 0x20916, 0x278bb]), (''aa88'',
       [])]) ''pending16 raw literal inventory changed; reclassify added/missing hits'') (
     Inr (JObj [(''mapped_words_scanned'', mapped_counts images), (''raw_literal_hits'', literal_hits images 0x12fb),
     (''pinned_words'', JInt (pin_words PLAYBACK_PENDING16_PRODUCERS)), (''classification'', JObj [(''read'',
     JList [JStr ''02065e'']), (''clear'', JList [JStr ''02072e'', JStr ''0278ba'']), (''frame3_copy'',
     JList [JStr ''020800'']), (''constant3'', JList [JStr ''0208e5'', JStr ''020915'']), (''unclassified'',
     JList [])]), (''routes'', JObj [(''1'', JObj [(''entry'', JStr ''020907''), (''pending'',
     JStr ''12fb <- 3 unconditionally''), (''other'',
     JStr ''clear12fc/15e0/15e1/12fd; initialize15db=1 and AA4C fields; publish reply'')]), (''3'',
     JObj [(''entry'', JStr ''0208ce''), (''pending'', JStr ''12fb <- 3 iff 12fd != 0 and caller frame[3] == 0''),
     (''other'', JStr ''clear15da/12f9; 15db <- (frame[3] == 0), then selected15de; frame[4]==1 sets AR7'')]),
     (''16'', JObj [(''entry'', JStr ''0207fa''), (''pending'', JStr ''12fb <- caller frame[3]'')])]), (''scope'',
     JStr ''Raw mapped-word census plus pinned local routes; not a code/data split, computed-alias/bulk-writer closure, incoming command producer or runtime/EOF acceptance'')])))))"

definition decode_playback_input3_senders :: "(string, word_image) dict \<Rightarrow> json res" where
  "decode_playback_input3_senders images =
     rbind (decode_playback_pending16_producers images) (\<lambda>pending.
     let words = segment_words images ''aa99'' in (
     ensure (need words PLAYBACK_INPUT3_SENDERS ''playback input3 sender/serial selector source changed'') (
     ensure (demand (literal_inventory images 0x905d [(''aa55'', []), (''aa22'', []), (''aa99'', [0x28482, 0x284a5,
       0x2859b]), (''aa88'', [])]) ''input3 builder raw reference inventory changed'') (
     Inr (JObj [(''pinned_words'', JInt (report_int ''pinned_words'' pending + pin_words PLAYBACK_INPUT3_SENDERS)),
     (''mapped_words_scanned'', report_get ''mapped_words_scanned'' pending), (''builder'', JObj [(''entry'',
     JStr ''02905d''), (''record'', JStr ''BA56''), (''input'', JInt 3), (''arguments'',
     JStr ''record[1] <- A; record[2] <- caller SP[0]; record[3] <- caller SP[1]''), (''send'',
     JStr ''029071 -> 0292a7, count4'')]), (''direct_calls'', JList [JStr ''028481'', JStr ''0284a4'',
     JStr ''02859a'']), (''raw_target_words'', literal_hits images 0x905d), (''serial'', JObj [(''selector'',
     JInt 0x30), (''table'', JStr ''023d09''), (''index'', JInt 7), (''entry'', JStr ''023d10''), (''target'',
     JStr ''038d03''), (''parameter3'', JObj [(''call'', JStr ''038d4b -> 02846f''), (''builder_call'',
     JStr ''028481''), (''arguments'', JList [JInt 1, JInt 0, JInt 1]), (''gate'',
     JStr ''A825 == 1; set A825 <- 2 before builder''), (''pending_effect'',
     JStr ''frame3 is1, so the known input3 constant3 predicate is false'')]), (''parameter4'', JObj [(''call'',
     JStr ''038d47 -> 028498''), (''builder_call'', JStr ''0284a4''), (''arguments'', JList [JInt 0, JInt 0,
     JInt 1]), (''pending_effect'', JStr ''frame3 is0; active12fd selects pending3'')]), (''duplicate_guard'',
     JStr ''matching previous class3766/selector3767 with selector>28 exits before dispatch'')]),
     (''additional_call'', JObj [(''site'', JStr ''02859a''), (''entry'', JStr ''028591''), (''arguments'',
     JList [JInt 0, JInt 0, JInt 1]), (''owner'', JStr ''not established by this census'')]), (''scope'',
     JStr ''Pinned source sender/selector route and raw references across all four images; not live serial admission, complete external command grammar, all indirect callers or organic EOF acceptance'')])))))"

definition decode_playback_refill_control :: "word_image \<Rightarrow> json res" where
  "decode_playback_refill_control words =
     ensure (need_at words PLAYBACK_REFILL_CONTROL ''refill control witness changed at '') (
     Inr (JObj [(''pinned_words'', JInt (pin_words PLAYBACK_REFILL_CONTROL)), (''sender'', JObj [(''entry'',
     JStr ''020643''), (''reply_high_bit_gate'', JStr ''02065a''), (''priority'',
     JList [JStr ''12fb nonzero -> input16'', JStr ''12fc nonzero -> input17'']), (''input11_builder'',
     JStr ''020709''), (''input17_builder'', JStr ''02071c''), (''input16_builder'', JStr ''020727''), (''send'',
     JStr ''02073b -> 029629''), (''input17_payload'', JStr ''nonzero pending word in AR1, not literal zero'')]),
     (''receiver_copy'', JObj [(''entry'', JStr ''029264''), (''source_data_words'', JStr ''0090..009f''),
     (''words'', JInt 16), (''direction'', JStr ''RAM mailbox -> local frame'')]), (''alternate_end'',
     JObj [(''entry'', JStr ''029502 when aa1a != 1''), (''conditional_seek'',
     JStr ''AR2 != 0: counter <- 3726; aa1c <- 0; seek 2092''), (''read_callback'', JStr ''02952f -> 0292cc''),
     (''completion_builder'', JStr ''029542: input12''), (''completion_send'', JStr ''029568 -> 0292a7'')]),
     (''scope'',
     JStr ''Pinned software sender and alternate end path, not all producers or pending-word writers; input17 through this prefix cannot clear aa1a to zero; alternate seek/read path is not an established drain-only mode; no runtime forcing'')]))"

definition final_input_spans :: "span list" where
  "final_input_spans = PLAYBACK_FINAL_INPUT_WITNESSES
     @ map (\<lambda>base. (base, span_of PLAYBACK_CLEANUP_INGRESS base)) [0x294bb, 0x294ea, 0x294fd]
     @ [(0x2953e, span_of PLAYBACK_REFILL_CONTROL 0x2953e), (REL_CLEANUP_BASE, REL_CLEANUP_WITNESS)]"

text \<open>One span into the dictionary of expected words: a second, different word for an address is an error.\<close>

fun expect_span :: "word_image \<Rightarrow> int \<Rightarrow> int list \<Rightarrow> word_image res" where
  "expect_span expected a [] = Inr expected"
| "expect_span expected a (w # ws) =
     (case map_of expected a of
        Some v \<Rightarrow> if v \<noteq> w then Inl (ValueError ''conflicting final-input source witnesses'')
                  else expect_span (dict_set a w expected) (a + 1) ws
      | None \<Rightarrow> expect_span (dict_set a w expected) (a + 1) ws)"

definition playback_final_input_words :: "word_image res" where
  "playback_final_input_words = rfold (\<lambda>expected (base, ws). expect_span expected base ws) [] final_input_spans"

definition decode_playback_final_input :: "word_image \<Rightarrow> json res" where
  "decode_playback_final_input words =
     rbind (playback_final_input_words) (\<lambda>expected.
     ensure (demand (list_all (\<lambda>(a,
       w). map_of words a = Some w) expected) ''playback final-input source changed or absent'') (
     Inr (JObj [(''pinned_words'', JInt (word_count expected)), (''terminal_compare'',
     JStr ''0294c3: counter plus signed incoming count >= logical half extent''), (''short_input'',
     JStr ''0294ea: AR1 <- low16(local half - counter low); aa1c <- 1; counter <- local full extent''), (''join'',
     JStr ''0294fb sets AR2=1; 0294fd tests aa1a == 1''), (''one_pass'', JObj [(''branch'',
     JStr ''029500 -> 02956f''), (''bypassed'', JList [JStr ''normal reader callback 0294e0'',
     JStr ''ordinary input-12 completion 029563..029568'']), (''cleanup'',
     JStr ''state 4 follows existing 02956f cleanup and loader call 02959b''), (''notification_in_source'',
     JStr ''02959d: local frame[4]=16, frame[5]=9; send two words through 0292a7''), (''ordering'',
     JStr ''notification follows loader call in the source; reaching loader is not proof that notification executes in the same session'')]),
     (''alternate'', JObj [(''branch'', JStr ''aa1a != 1 -> 029502''), (''behavior'',
     JStr ''nonzero AR2 restores counter from 3726, clears aa1c, calls API 002092 and reader callback 02952f before ordinary completion''),
     (''scope'', JStr ''Not evidence of a decoder-drain command or permission to change aa1a'')]), (''scope'',
     JStr ''Source-selected final-input control flow; not intended track sample count, all live message delivery, or correct whole-file/audio completion'')])))"

text \<open>The report without the entry that counts the mapped words.\<close>

definition without_scan :: "json \<Rightarrow> (string \<times> json) list" where
  "without_scan report = (case report of
     JObj entries \<Rightarrow> filter (\<lambda>(key, _). key \<noteq> ''mapped_words_scanned'') entries | _ \<Rightarrow> [])"

definition revision_checkers :: "(string \<times> (word_image \<Rightarrow> json res)) list" where
  "revision_checkers =
     [(''decode_playback_cleanup_ingress'', decode_playback_cleanup_ingress),
      (''decode_worker_reservation'', decode_worker_reservation), (''decode_context_lanes'', decode_context_lanes),
      (''decode_exchange_publication'', decode_exchange_publication),
      (''decode_decoder_return_dispatch'', decode_decoder_return_dispatch)]"

definition revision_check ::
    "word_image \<Rightarrow> word_image \<Rightarrow> string \<times> (word_image \<Rightarrow> json res) \<Rightarrow> (string \<times> json) res" where
  "revision_check reference candidate entry = (case entry of (name, checker) \<Rightarrow>
     rbind (checker reference) (\<lambda>left.
     rbind (checker candidate) (\<lambda>right.
       if without_scan left \<noteq> without_scan right then Inl (ValueError ''revision contract data or census changed'')
       else Inr (name, JInt (report_int ''pinned_words'' left)))))"

definition revision_differences :: "word_image \<Rightarrow> word_image \<Rightarrow> word_image \<Rightarrow> (int \<times> int option \<times> int option) list" where
  "revision_differences reference candidate expected =
     map (\<lambda>(a, _). (a, map_of reference a, map_of candidate a))
       (filter (\<lambda>(a, _). map_of reference a \<noteq> map_of candidate a) expected)"

definition compare_playback_revision_words :: "word_image \<Rightarrow> word_image \<Rightarrow> json res" where
  "compare_playback_revision_words reference candidate =
     rbind (rmap_list (revision_check reference candidate) revision_checkers) (\<lambda>unchanged.
     rbind (playback_final_input_words) (\<lambda>expected.
     ensure (rmap (\<lambda>_. ()) (decode_playback_final_input reference)) (
     ensure (demand (list_all (\<lambda>(a,
       _). map_of candidate a \<noteq> None) expected) ''revision final-input source incomplete'') (
     ensure (demand (revision_differences reference candidate expected = [(0x2958b, Some 0x9005,
       Some 0x9019)]) ''revision final-input difference changed'') (
     Inr (JObj [(''reference_mapped_words'', JInt (word_count reference)), (''candidate_mapped_words'',
     JInt (word_count candidate)), (''unchanged_contract_checks'', JObj unchanged), (''final_input_words'',
     JInt (word_count expected)), (''final_input_difference'', JObj [(''address'', JStr ''02958b''),
     (''reference'', JStr ''9005''), (''candidate'', JStr ''9019''), (''meaning'',
     JStr ''Operand of far call in control2 cleanup branch; target semantics not compared'')]), (''scope'',
     JStr ''Original AA99 bounded source comparison and exact immediate-call/literal censuses; not other images, all indirect writers, optional callee equivalence, R061 execution or full drain behavior'')]))))))"

definition decode_playback_refill_completion :: "word_image \<Rightarrow> json res" where
  "decode_playback_refill_completion words =
     ensure (need_at words PLAYBACK_REFILL_COMPLETION ''refill completion witness changed at '') (
     Inr (JObj [(''pinned_words'', JInt (pin_words PLAYBACK_REFILL_COMPLETION)), (''input'', JStr ''0012''),
     (''dispatch'', JStr ''0207b5 -> 020862''), (''pending'', JStr ''15e0''), (''inactive'',
     JStr ''local reply <- 8000; skip buffer update''), (''active'', JObj [(''supplied'',
     JStr ''local frame word 3 -> 15df''), (''buffer'', JStr ''object referenced by 15e7''), (''advance'',
     JStr ''02976d: object[6] += supplied modulo 16 bits''), (''pending_clear'', JStr ''020888''),
     (''other_effects'', JStr ''aad0 and object metadata updated; not modeled by cursor reference'')]),
     (''acknowledgement'', JStr ''02093d sets high bit; 020944 -> 02961e''), (''mailbox_copy'',
     JStr ''02960c copies 16 words from data 0080 to local frame''), (''scope'',
     JStr ''Pinned software completion path, not all callers or an EOF/drain protocol; no completion injection, native tail decoding or audio acceptance'')]))"

end
