(* ===== verification/Mu4_Resident.thy ===== *)
theory Mu4_Resident
  imports Mu4_Refill
begin

text \<open>
  The checks of \<open>tools/mu4_context_contract.py\<close> on the resident image \<open>aa22\<close> and the bootstrap \<open>aa55\<close>: repeats, shifted stores, wake, idle, timer and worker routes, restarts, cleanups and the lifecycle census.
  Each pins spans of the image, may demand a census, and returns its report.
\<close>

definition decode_shifted_store :: "word_image \<Rightarrow> int \<Rightarrow> json res" where
  "decode_shifted_store words address =
     rbind (fetch words address (\<lambda>v. v AND 0xFF00 = 0x6F00 \<and> v AND 0xFF \<le> 0xF8) ''expected shifted Smem store opcode at '') (\<lambda>opcode.
     let mode = opcode AND 0xFF in (
     let extended = 0xE0 \<le> mode in (
     let operation_address = address + 1 + of_bool extended in (
     rbind (fetch words operation_address (\<lambda>v. v AND 0xFEE0 \<in> {0x0C60,
       0x0C80}) ''expected STL/STH shift extension at '') (\<lambda>extension.
     rbind (if extended then fetch words (address + 1) (\<lambda>_. True) ''missing address extension at '' else Inr 0) (\<lambda>literal.
     Inr (JObj [(''address'', JStr (fmt_x 6 address)), (''opcode'', JStr (fmt_x 4 opcode)), (''operation'',
     JStr (if extension AND 0xFEE0 = 0x0C60 then ''STH'' else ''STL'')), (''source'',
     JStr (if extension AND 0x100 \<noteq> 0 then ''B'' else ''A'')), (''shift'', JInt (signed_shift extension)),
     (''address_mode'', JStr (fmt_x 2 mode)), (''address_extension'',
     (if extended then JStr (fmt_x 4 literal) else JNull)), (''absolute_destination'',
     (if mode = 0xF8 then JStr (fmt_x 4 literal) else JNull)), (''operation_extension_address'',
     JStr (fmt_x 6 operation_address)), (''operation_extension'', JStr (fmt_x 4 extension)), (''words'',
     JInt ((if extended then 3 else 2))), (''source_reference'',
     JStr ''SPRU172C STL/STH syntax 4; SPRU131G tables 7-5 and 7-7''), (''scope'',
     JStr ''instruction fields only; no mapped-register publication, DAGEN conflict, pipeline execution or audio acceptance'')])))))))"

definition decode_rel_ar_store :: "word_image \<Rightarrow> json res" where
  "decode_rel_ar_store words =
     ensure (need_at words [(REL_AR_STORE_BASE, REL_AR_STORE_WITNESS)] ''REL AR store witness changed or absent at '') (
     rbind (decode_shifted_store words 0x25FDD) (\<lambda>store.
     Inr (JObj [(''segment'', JStr ''aa99''), (''pinned_words'', JInt (int (length REL_AR_STORE_WITNESS))),
     (''preceding_store'', JObj [(''address'', JStr ''025fdc''), (''operation'', JStr ''STLM A,AR4'')]),
     (''store'', store), (''destination_register'', JStr ''AR5''), (''following_instructions'',
     JList [JObj [(''address'', JStr ''025fe0''), (''operation'', JStr ''NOP''), (''words'', JInt 1)],
     JObj [(''address'', JStr ''025fe1''), (''operation'', JStr ''LD *+AR4(-15826),B''), (''words'', JInt 2)],
     JObj [(''address'', JStr ''025fe3''), (''operation'', JStr ''STL B,*AR2+''), (''words'', JInt 1)],
     JObj [(''address'', JStr ''025fe4''), (''operation'', JStr ''DLD *+AR5(-15698),B''), (''words'', JInt 2)]]),
     (''words_before_first_ar5_consumer'', JInt 4), (''ar5_consumer_category'',
     JStr ''I (long-offset indirect DLD)''), (''required_store_latency_cycles'', JInt 2), (''scope'',
     JStr ''13 pinned logical-source words; static local spacing only, not a whole-function census or executed latency/conflict acceptance'')])))"

definition decode_block_repeat_setup :: "int \<Rightarrow> int \<Rightarrow> int \<Rightarrow> json res" where
  "decode_block_repeat_setup opcode literal address =
     ensure (demand (opcode \<in> {0xF072, 0xF272}) ''expected RPTB or RPTBD'') (
     ensure (demand (0 \<le> literal \<and> literal \<le> 0xFFFF \<and> 0 \<le> address \<and> address \<le> 0x7FFFFF) ''block-repeat operand or address out of range'') (
     let delayed = (opcode = 0xF272) in (
     Inr (JObj [(''operation'', JStr (if delayed then ''RPTBD'' else ''RPTB'')), (''rsa'',
     JInt ((address + (if delayed then 4 else 2)) AND 0xFFFF)), (''rea'', JInt (literal)), (''delay_words'',
     JInt ((if delayed then 2 else 0))), (''instruction_words'', JInt 2), (''nominal_cycles'',
     JInt ((if delayed then 2 else 4))), (''interruptible'', JBool True), (''repeatable'', JBool False),
     (''count_rule'', JStr ''BRC+1 block executions''), (''counter_phase'',
     JStr ''last block instruction Decode''), (''source'',
     JStr ''SPRU172C RPTB[D]; SPRU131G sections 6.8 and 7.5.8''), (''scope'',
     JStr ''static architectural contract; no staged execution acceptance'')]))))"

definition decode_rel_repeat_call :: "word_image \<Rightarrow> json res" where
  "decode_rel_repeat_call words =
     ensure (need_at words [(REL_REPEAT_BASE, REL_REPEAT_WITNESS), (REL_CALLEE_BASE,
       REL_CALLEE_WITNESS)] ''REL call witness changed or absent at '') (
     let setup_address = 0x26112 in (
     let call_address = 0x26116 in (
     rbind (word_at words call_address) (\<lambda>opcode.
     rbind (word_at words setup_address) (\<lambda>setup_opcode.
     rbind (word_at words (setup_address + 1)) (\<lambda>setup_literal.
     rbind (decode_block_repeat_setup setup_opcode setup_literal setup_address) (\<lambda>setup.
     rbind (word_at words (call_address + 1)) (\<lambda>target.
     Inr (JObj [(''segment'', JStr ''aa99''), (''pinned_words'',
     JInt ((int (length REL_REPEAT_WITNESS) + int (length REL_CALLEE_WITNESS)))), (''loop'',
     JObj [(''setup_address'', JStr (fmt_x 6 (setup_address))), (''setup'', setup), (''count_initializer'',
     JObj [(''address'', JStr ''02610f''), (''destination'', JStr ''BRC''), (''value'', JInt 6)]),
     (''nominal_body_executions'', JInt 7)]), (''call'', JObj [(''address'', JStr (fmt_x 6 (call_address))),
     (''opcode'', JStr (fmt_x 4 (opcode))), (''target'', JStr (fmt_x 6 (push_bit 16 (opcode AND 0x7f) OR target))),
     (''return_address'', JStr (fmt_x 6 ((call_address + 4)))), (''stack_words'', JInt 2), (''delay_words'',
     JList [JStr ''e801'', JStr ''f495'']), (''argument_a'', JInt 1)]), (''callee'', JObj [(''first_word'',
     JStr ''02510c''), (''last_word'', JStr ''025142''), (''pinned_words'',
     JInt (int (length REL_CALLEE_WITNESS))), (''entry_cpl_required'', JInt 1), (''branch'', JObj [(''address'',
     JStr ''025117''), (''condition'', JStr ''BGT''), (''target'', JStr ''02512e''), (''delay_words'',
     JList [JStr ''7713'', JStr ''a858'']), (''delay_operation'', JStr ''STM #a858,AR3''), (''paths'', JInt 2),
     (''backward_edges'', JInt 0)]), (''calls'', JInt 0), (''repeat_setups'', JInt 0), (''repeat_control_writes'',
     JList []), (''braf_writes'', JInt 0), (''cpl_writes'', JInt 0), (''fixed_ram_writes'',
     JList [JObj [(''instruction'', JStr ''025127''), (''destination'', JStr ''a858''), (''words'', JInt 2)],
     JObj [(''instruction'', JStr ''02512a''), (''destination'', JStr ''b331''), (''words'', JInt 1)],
     JObj [(''instruction'', JStr ''02512d''), (''destination'', JStr ''a854''), (''words'', JInt 1)],
     JObj [(''instruction'', JStr ''025130''), (''destination'', JStr ''a854''), (''words'', JInt 1)]]),
     (''local_stack'', JList [JStr ''PSHM AL at 025111'', JStr ''POPM AR0 at 025131'']), (''return'',
     JObj [(''address'', JStr ''025142''), (''operation'', JStr ''FRET'')])]), (''scope'',
     JStr ''80 pinned logical-source words and two callee paths; no physical mapping, far-call/block-repeat legality, execution completion or audio acceptance'')])))))))))"

definition copy_example :: "int \<Rightarrow> json res" where
  "copy_example bk = rbind (rel_copy_destination 0xAC78 bk) (\<lambda>destination.
     Inr (JObj [(''stack8'', JStr ''ac78''), (''bk'', JStr (fmt_x 4 bk)), (''destination'', JStr (fmt_x 4 destination))]))"

definition decode_rel_copy_loop :: "word_image \<Rightarrow> json res" where
  "decode_rel_copy_loop words =
     ensure (need_at words [(REL_COPY_ENTRY_BASE, REL_COPY_ENTRY_WITNESS), (REL_COPY_DEPENDENCY_BASE,
       REL_COPY_DEPENDENCY_WITNESS), (REL_COPY_BASE,
       REL_COPY_WITNESS)] ''REL copy witness changed or absent at '') (
     rbind (decode_block_repeat_setup 0xF072 0x45B2 0x245AF) (\<lambda>setup.
     rbind (rmap_list copy_example [0x7000, 0xE800]) (\<lambda>examples.
     Inr (JObj [(''segment'', JStr ''aa99''), (''pinned_words'',
     JInt (((int (length REL_COPY_ENTRY_WITNESS) + int (length REL_COPY_DEPENDENCY_WITNESS)) + int (length REL_COPY_WITNESS)))),
     (''entry_cpl_required'', JInt 1), (''frame'', JObj [(''entry'', JStr ''024542''), (''saved_registers'',
     JList [JStr ''AR1'', JStr ''AR6'', JStr ''AR7'']), (''local_words'', JInt 9), (''sp_delta_before_arguments'',
     JInt ((- 12)))]), (''bk_writer'', JObj [(''address'', JStr ''024547''), (''operation'',
     JStr ''MVDK *(SP+14),BK''), (''source_is_mapped_t'', JBool False),
     (''caller_stack_offset_with_two_word_far_frame'', JInt 0)]), (''destination'', JObj [(''save_partial_index'',
     JStr ''STL A,*(SP+8) at 0245a0''), (''base_load'', JStr ''LDM BK,A at 0245a1''), (''arithmetic'',
     JStr ''ADD *(SP+8),1,A at 0245a2''), (''publish'', JStr ''STLM A,AR0 at 0245a4''), (''formula'',
     JStr ''(BK + 2 * stack[SP+8]) & ffff''), (''short_direct_operand_is_mapped_al'', JBool False)]),
     (''dependency'', JObj [(''source_load'', JStr ''MVDK *(SP+6),AR1 at 02459a''), (''copy'',
     JStr ''MVKD $0011,*(SP+8) at 02459c''), (''consumer'', JStr ''LD *(SP+8),A at 02459e''), (''following_add'',
     JStr ''ADD *(SP+7),A at 02459f''), (''copy_source_is_absolute_ar1'', JBool True), (''scope'',
     JStr ''adjacent same-address RAM dependency; retained-copy forwarding has separate CPU acceptance'')]),
     (''loop'', JObj [(''setup_address'', JStr ''0245af''), (''setup'', setup), (''instructions'',
     JList [JStr ''DLD *AR1+,A'', JStr ''DST A,*AR0+'']), (''words_copied_per_iteration'', JInt 2),
     (''source_increment_per_iteration'', JInt 2), (''destination_increment_per_iteration'', JInt 2)]),
     (''examples'', JList examples), (''scope'',
     JStr ''34 pinned logical-source words and CPL=1 address arithmetic; not input validity, physical aliasing or repeat execution acceptance'')]))))"

definition decode_boot_block_repeat :: "word_image \<Rightarrow> json res" where
  "decode_boot_block_repeat words =
     ensure (need_at words [(BOOT_BLOCK_REPEAT_BASE,
       BOOT_BLOCK_REPEAT_WITNESS)] ''boot block-repeat witness changed or absent at '') (
     rbind (decode_block_repeat_setup 0xF072 0x32F4 0x32EE) (\<lambda>setup.
     Inr (JObj [(''store'', JObj [(''address'', JStr ''0032ec''), (''operation'', JStr ''STLM B,BRC''), (''opcode'',
     JStr ''891a'')]), (''latency_word'', JObj [(''address'', JStr ''0032ed''), (''operation'', JStr ''NOP''),
     (''opcode'', JStr ''f495'')]), (''setup'', JObj [(''address'', JStr ''0032ee''), (''operation'',
     JStr ''RPTB''), (''opcode'', JStr ''f072''), (''end_literal'', JStr ''32f4'')]), (''setup_contract'', setup),
     (''block'', JObj [(''first_word'', JStr ''0032f0''), (''last_word'', JStr ''0032f4''), (''words'',
     JList (map (\<lambda>w. JStr (fmt_x 4 w)) (drop 4 BOOT_BLOCK_REPEAT_WITNESS))), (''instructions'',
     JList [JStr ''LDU *AR6,B'', JStr ''SFTA B,-8,A'', JStr ''SFTL B,8,B'', JStr ''OR A,0,B'',
     JStr ''STL B,*AR6+'']), (''data_result'',
     JStr ''swap the two bytes of each unsigned 16-bit source word in place''), (''pointer_result'',
     JStr ''AR6 advances once per block execution''), (''source'',
     JStr ''SPRU172C LDU, SFTA, SFTL, OR syntax 4, STL syntax 1''), (''scope'',
     JStr ''instruction decode and desk arithmetic only; no executed block acceptance'')]), (''scope'',
     JStr ''nine pinned original AA55 words; spacing satisfies SPRU131G table 7-3 category 9; no staged block-repeat execution, iterations, interrupt or endpoint acceptance'')])))"

definition decode_extended_shift_load :: "word_image \<Rightarrow> int \<Rightarrow> json res" where
  "decode_extended_shift_load words address =
     rbind (fetch words address (\<lambda>v. v AND 0xff00 = 0x6f00 \<and> v AND 0xff \<le> 0xf8) ''expected extended Smem opcode at '') (\<lambda>opcode.
     let mode = opcode AND 0xff in (
     let extended = 0xe0 \<le> mode in (
     let operation_address = address + 1 + of_bool extended in (
     rbind (fetch words operation_address (\<lambda>v. v AND 0xfee0 = 0x0c40) ''expected LD shift extension at '') (\<lambda>extension.
     rbind (if extended then fetch words (address + 1) (\<lambda>_. True) ''missing address extension at '' else Inr 0) (\<lambda>literal.
     Inr (JObj [(''address'', JStr (fmt_x 6 address)), (''opcode'', JStr (fmt_x 4 opcode)), (''operation'',
     JStr ''LD Smem,SHIFT,dst''), (''destination'',
     JStr (if extension AND 0x100 \<noteq> 0 then ''B'' else ''A'')), (''shift'', JInt (signed_shift extension)),
     (''address_mode'', JStr (fmt_x 2 mode)), (''address_extension'',
     (if extended then JStr (fmt_x 4 literal) else JNull)), (''operation_extension_address'',
     JStr (fmt_x 6 operation_address)), (''operation_extension'', JStr (fmt_x 4 extension)), (''words'',
     JInt ((if extended then 3 else 2))), (''status'',
     JStr ''SXM extends source; OVM saturates shifted result; OVdst is affected''), (''scope'',
     JStr ''instruction fields only; no DAGEN, sampling, publication or pipeline acceptance'')])))))))"

definition decode_boot_memory_shift :: "word_image \<Rightarrow> json res" where
  "decode_boot_memory_shift words =
     ensure (need_at words [(BOOT_MEMORY_SHIFT_BASE, BOOT_MEMORY_SHIFT_WITNESS)] ''boot memory-shift witness changed or absent at '')
       (decode_extended_shift_load words BOOT_MEMORY_SHIFT_BASE)"

definition decode_bootstrap_repeat :: "word_image \<Rightarrow> json res" where
  "decode_bootstrap_repeat words =
     ensure (need_at words [(BOOTSTRAP_BASE, BOOTSTRAP_WITNESS)] ''bootstrap repeat witness changed or absent at '') (
     let first = BOOTSTRAP_WITNESS ! 7 in (
     let executions = BOOTSTRAP_WITNESS ! 5 + 1 in (
     let final = first + executions - 1 in (
     let known = int (length (filter (\<lambda>a. map_of words a \<noteq> None) [first..final])) in (
     Inr (JObj [(''segment'', JStr ''aa55''), (''matched_word_range'', JList [JStr ''00ff80'', JStr ''00ff8b'']),
     (''matched_words'', JInt (int (length BOOTSTRAP_WITNESS))), (''setup'', JObj [(''pmst_before'',
     JStr ''ffc8''), (''ar0_initial'', JStr ''0060'')]), (''repeat'', JObj [(''address'', JStr ''00ff84''),
     (''opcode'', JStr ''f070''), (''operand'', JStr ''ff20''), (''executions'', JInt (executions)), (''body'',
     JList [JStr ''7c90'', JStr ''0060'']), (''operation'', JStr ''MVPD 0060,*AR0+''), (''program_source_range'',
     JList [JStr (fmt_x 4 first), JStr (fmt_x 4 final)]), (''data_destination_range'', JList [JStr (fmt_x 4 first),
     JStr (fmt_x 4 final)]), (''ar0_after'', JStr (fmt_x 4 (final + 1))), (''source_increment'',
     JStr ''single-repeat implicit program-address increment''), (''destination_increment'',
     JStr ''encoded AR0 postincrement''), (''uploaded_source_words'', JInt (known)),
     (''source_words_not_in_upload'', JInt (executions - known))]), (''continuation'', JObj [(''pmst_after'',
     JStr ''ffe8''), (''branch'', JStr ''FB 00:0e41'')]), (''scope'',
     JStr ''12 pinned original words; TI single-repeat/MVPD address semantics; not source-hole values, staged bus placement or native execution acceptance'')]))))))"

definition decode_resident_wake_tail :: "word_image \<Rightarrow> word_image \<Rightarrow> json res" where
  "decode_resident_wake_tail words bootstrap =
     ensure (need_at words RESIDENT_WAKE_TAIL ''resident wake tail changed at '') (
     ensure (need_at bootstrap RESIDENT_WAKE_DIVIDE ''resident wake tail changed at '') (
     Inr (JObj [(''segment'', JStr ''aa22+aa55''), (''pinned_words'', JInt 52), (''idle_gate'', JObj [(''load'',
     JStr ''03ac03''), (''branch'', JStr ''03ac05: BC ANEQ,03ac11''), (''effect'',
     JStr ''nonzero b582 bypasses resident deep-idle call'')]), (''caller'', JObj [(''entry'', JStr ''03ac0d''),
     (''argument'', JStr ''07d0''), (''call'', JStr ''03ac0f''), (''target'', JStr ''03acdf''),
     (''following_store'', JObj [(''pc'', JStr ''03ac11''), (''address'', JStr ''b558''), (''value'',
     JStr ''0000'')])]), (''helper'', JObj [(''entry'', JStr ''03acdf''), (''last_word'', JStr ''03acf1''),
     (''stack_literal'', JStr ''000a''), (''nested_call'', JStr ''00:2098''), (''read_counter'',
     JStr ''03ace7: MVDM b582,AR0''), (''compare'', JStr ''03acea: CMPR GT,AR1; BC NTC,03acef''),
     (''conditional_update'', JStr ''03aced: MVMD AR1,b582; written only when AR1 > AR0''), (''effect'',
     JStr ''raise b582 to at least the nested helper result; no backward branch'')]), (''divide'', JObj [(''stub'',
     JStr ''002098: B 00352c''), (''body'', JStr ''RSBX SXM; LDM AL,A; RPT #15; SUBC SP(2),A; FRET''),
     (''addressing'', JStr ''ST1.CPL=1 ABI; native wake context ST1=6113''), (''quotient'',
     JStr ''low16 of unsigned low16(A) / SP(2)''), (''caller_result'', JStr ''07d0 / 000a = 00c8'')]),
     (''decrement'', JObj [(''entry'', JStr ''03a8c9''), (''zero_skip'', JStr ''03a8cb: BC AEQ,03a8d0''),
     (''subtract'', JStr ''03a8cd: ADDM ffff,b582''), (''inhibit'', JStr ''03a8d0: BITF bb94,2; BC NTC,03a8da''),
     (''add_back'', JStr ''03a8d5: ADDM 1,b582''), (''scope'',
     JStr ''source prefix only; worker cadence and flag ownership unqualified'')]), (''scope'',
     JStr ''Pinned caller/helper/divide grammar; counter units, physical delay and official command semantics unqualified'')])))"

definition decode_resident_idle3 :: "(string, word_image) dict \<Rightarrow> json res" where
  "decode_resident_idle3 images =
     ensure (demand (set (map fst images) = {''aa55'', ''aa22'', ''aa99'',
       ''aa88''}) ''resident IDLE3 census requires all four images'') (
     let words = segment_words images ''aa22'' in (
     ensure (need_at words RESIDENT_IDLE3 ''resident IDLE3 source changed at '') (
     ensure (demand (call_inventory images [0xf982] 0x8914 [(''aa55'', []), (''aa22'', [0x3ac0b]), (''aa99'', []),
       (''aa88'', [])]) ''resident IDLE3 literal far-call pattern census changed'') (
     rbind (word_at words 0x28917) (\<lambda>mask.
     Inr (JObj [(''segment'', JStr ''aa22''), (''pinned_words'', JInt (pin_words RESIDENT_IDLE3)), (''routine'',
     JList [JStr ''028914'', JStr ''028929'']), (''idle'', JObj [(''address'', JStr ''028922''), (''word'',
     JStr ''f5e1''), (''mode'', JInt 3)]), (''mask'', JObj [(''store'', JStr ''028916''), (''value'', JInt (mask)),
     (''enabled_bits'', JList (map (\<lambda>b. JInt (int b)) (filter (bit mask) [0..<16])))]), (''clock'',
     JList [JObj [(''address'', JStr ''028919''), (''register'', JStr ''CLKMD''), (''value'', JInt 0)],
     JObj [(''address'', JStr ''02891b''), (''operation'', JStr ''BITF CLKMD,1; BC TC,02891b'')],
     JObj [(''address'', JStr ''028920''), (''register'', JStr ''CLKMD''), (''value'', JInt 0)]]), (''tail'',
     JObj [(''ifr'', JStr ''POPM IFR writes saved word through W1C acknowledgement, not a pending-bit restore''),
     (''imr'', JStr ''POPM IMR restores caller mask''), (''return'', JStr ''FRET'')]), (''caller'',
     JObj [(''address'', JStr ''03ac0b''), (''prelude'', JStr ''AR1=0; ORM 4,*AR1 enables IMR bit2'')]),
     (''mapped_words'', mapped_counts images), (''literal_far_calls'', literal_calls images [0xf982] 0x8914),
     (''scope'',
     JStr ''Complete 22-word routine and 10-word caller span; raw adjacent far-call patterns only, not code/data classification, indirect-call closure, MSP430 timing or automatic EOF'')]))))))"

definition decode_idle_contract :: "word_image \<Rightarrow> json res" where
  "decode_idle_contract words =
     ensure (need_at words [(IDLE_BASE, IDLE_WITNESS), (IDLE_WRAPPER_BASE,
       IDLE_WRAPPER_WITNESS)] ''idle lifecycle witness changed or absent at '') (
     rbind (tally idle_route) (\<lambda>counts.
     Inr (JObj [(''matched_word_ranges'', JList [JList [JStr ''0298d0'', JStr ''0298ec''], JList [JStr ''023d2f'',
     JStr ''023d3d'']]), (''matched_words'',
     JInt ((int (length IDLE_WITNESS) + int (length IDLE_WRAPPER_WITNESS)))), (''flag'', JObj [(''address'',
     JStr ''a531''), (''load'', JStr ''10f8 a531''), (''branch'', JStr ''BC ANEQ,98e9''), (''coverage'',
     JObj ((''tested'', JInt 65536) # j_counts counts)), (''local_commit'', JObj [(''address'', JStr ''0298e6''),
     (''value'', JInt 1)])]), (''zero_path'', JList [JObj [(''address'', JStr ''0298d8''), (''register'',
     JStr ''PRD''), (''value'', JStr ''0001'')], JObj [(''address'', JStr ''0298dc''), (''register'',
     JStr ''TCR''), (''value'', JStr ''0020'')], JObj [(''address'', JStr ''0298e0''), (''register'',
     JStr ''IMR''), (''operation'', JStr ''ANDM #fff7'')], JObj [(''address'', JStr ''0298e4''), (''register'',
     JStr ''IMR''), (''operation'', JStr ''ORM #08c0'')], JObj [(''address'', JStr ''0298e6''), (''memory'',
     JStr ''a531''), (''value'', JStr ''0001'')]]), (''common_tail'', JList [JStr ''IDLE 1'', JStr ''FRAME +1'',
     JStr ''POPM AR1'', JStr ''FRET'']), (''wrapper'', JObj [(''alignment'',
     JStr ''save old SP in B; clear SP bit 0''), (''call'', JStr ''FCALL 02:98d0''), (''return'',
     JStr ''clear CPL; POPM SP; two NOPs; RET'')]), (''scope'',
     JStr ''44 original words and exhaustive local predicate; no global flag-writer census, wake source or full runtime acceptance'')])))"

definition decode_timer_wrapper :: "word_image \<Rightarrow> json res" where
  "decode_timer_wrapper words =
     ensure (need_at words [(TIMER_VECTOR_BASE, TIMER_VECTOR_WITNESS)] ''timer vector witness changed or absent at '') (
     ensure (demand (map_of words TIMER_RETURN_BASE = Some 0xF4E5) ''timer return witness changed or absent at 024044'') (
     Inr (JObj [(''uploaded_vector_range'', JList [JStr ''02204c'', JStr ''02204f'']), (''matched_words'', JInt 5),
     (''save'', JObj [(''opcode'', JStr ''4a1e''), (''register'', JStr ''XPC''), (''mmr'', JStr ''001e'')]),
     (''branch'', JObj [(''opcode'', JStr ''f882''), (''operation'', JStr ''FB''), (''target'', JStr ''023d73''),
     (''delayed'', JBool False)]), (''return'', JObj [(''address'', JStr ''024044''), (''opcode'', JStr ''f4e5''),
     (''operation'', JStr ''FRETE''), (''clears_intm'', JBool True)]), (''scope'',
     JStr ''original upload words only; low-vector runtime mapping and complete timer entry/return require execution evidence'')])))"

definition decode_full_worker :: "word_image \<Rightarrow> json res" where
  "decode_full_worker words =
     ensure (need_at words [(WORKER_BASE, FULL_WORKER_WITNESS)] ''complete worker witness changed or absent at '') (
     Inr (JObj [(''matched_word_range'', JList [JStr ''023dbc'', JStr ''023de1'']), (''matched_words'',
     JInt (int (length FULL_WORKER_WITNESS))), (''body_word_range'', JList [JStr ''023dc5'', JStr ''023dda'']),
     (''body_words'', JInt 22), (''body_entry'',
     JStr ''second source word equals zero; other values branch to 023ddb''), (''conditional_store'',
     JStr ''CMPR EQ,AR3 compares against AR0; XC TC controls STL at 023dd2''), (''buffer_publications'',
     JStr ''copied source word followed by high/low B and T''), (''return'',
     JStr ''saved INTM predicate and two-word RETD delay''), (''scope'',
     JStr ''38 original words pinned; no real operand provenance, full IRQ context or native recording proof'')]))"

definition decode_worker_logic :: "word_image \<Rightarrow> json res" where
  "decode_worker_logic words =
     ensure (need_at words [(WORKER_LOGIC_BASE, WORKER_LOGIC_WITNESS)] ''worker logical witness changed or absent at '') (
     Inr (JObj [(''matched_word_range'', JList [JStr ''023dd5'', JStr ''023dda'']), (''matched_words'',
     JInt (int (length WORKER_LOGIC_WITNESS))), (''sequence'', JList [JStr ''ADD #4,A'', JStr ''AND *AR2+,A'',
     JStr ''OR *AR2-,A'', JStr ''MAR *AR2-'', JStr ''STL A,*AR2'']), (''memory_operands'',
     JStr ''AND and OR zero-extend their Smem words independently of SXM''), (''pointer_effect'',
     JStr ''increment, decrement, decrement; final store uses initial AR2 minus one''), (''scope'',
     JStr ''six pinned words; memory meanings and complete worker/recorder behavior unclassified'')]))"

definition decode_worker_copy :: "word_image \<Rightarrow> json res" where
  "decode_worker_copy words =
     ensure (need_at words [(WORKER_COPY_BASE, WORKER_COPY_WITNESS)] ''worker copy witness changed or absent at '') (
     Inr (JObj [(''matched_word_range'', JList [JStr ''023dc5'', JStr ''023dca'']), (''matched_words'',
     JInt (int (length WORKER_COPY_WITNESS))), (''sequence'', JList [JStr ''ADDM #2,*AR2'', JStr ''PSHD *AR2+'',
     JStr ''MVDK *AR2,AR3'', JStr ''POPD *AR3+'']), (''source_update'',
     JStr ''ADDM applies SXM/OVM arithmetic and C/OVA flags''), (''destination_pointer'',
     JStr ''second source word, loaded into AR3''), (''local_stack_effect'', JStr ''one word pushed and popped''),
     (''daram_order'', JStr ''PSHD samples the old source before concurrent ADDM Write''), (''scope'',
     JStr ''six pinned words; operand meanings, real inputs, later body and recorder completion unclassified'')]))"

definition decode_worker_return :: "word_image \<Rightarrow> json res" where
  "decode_worker_return words =
     ensure (need_at words [(WORKER_TAIL_BASE, WORKER_TAIL_WITNESS)] ''worker return witness changed or absent at '') (
     rbind (tally restored_intm) (\<lambda>counts.
     Inr (JObj [(''matched_word_range'', JList [JStr ''023ddb'', JStr ''023de1'']), (''matched_words'',
     JInt (int (length WORKER_TAIL_WITNESS))), (''saved_status_pop'', JObj [(''address'', JStr ''023ddb''),
     (''destination'', JStr ''AL'')]), (''mask'', JStr ''0800''), (''restores'',
     JStr ''INTM only, not all ST1 fields''), (''return'', JObj [(''address'', JStr ''023ddf''), (''opcode'',
     JStr ''fe00''), (''operation'', JStr ''RETD''), (''delay_words'', JList [JStr ''fd45'', JStr ''f6bb'']),
     (''delay_operations'', JList [JStr ''XC 1,AEQ'', JStr ''RSBX INTM''])]), (''clear_intm_when'',
     JStr ''(saved ST1 & 0800) == 0''), (''status_coverage'', JObj ((''tested'', JInt 65536) # j_counts counts)),
     (''scope'',
     JStr ''seven pinned original words and exhaustive INTM predicate; no full worker body or native recorder completion'')])))"

definition decode_worker_entry :: "word_image \<Rightarrow> json res" where
  "decode_worker_entry words =
     ensure (need_at words [(WORKER_BASE, WORKER_WITNESS)] ''worker entry witness changed or absent at '') (
     rbind (tally worker_route) (\<lambda>counts.
     Inr (JObj [(''matched_word_range'', JList [JStr ''023dbc'', JStr ''023dc4'']), (''matched_words'',
     JInt (int (length WORKER_WITNESS))), (''setup'', JObj [(''xc'',
     JStr ''two unconditional XC 1 instructions, each protecting two words''), (''saved_register'', JStr ''ST1''),
     (''status_update'', JStr ''SSBX INTM''), (''first_source'', JStr ''RAM[entry AR2]''), (''first_destination'',
     JStr ''AR0''), (''second_source'', JStr ''RAM[(entry AR2 + 1) & ffff]''), (''second_destination'',
     JStr ''A''), (''final_ar2'', JStr ''(entry AR2 + 2) & ffff'')]), (''branch'', JObj [(''address'',
     JStr ''023dc3''), (''opcode'', JStr ''f844''), (''condition'', JStr ''ANEQ''), (''delayed'', JBool False),
     (''target'', JStr ''023ddb''), (''fallthrough'', JStr ''023dc5''), (''taken_when'',
     JStr ''second source word != 0''), (''documented_cycles'', JObj [(''taken'', JInt 5), (''not_taken'',
     JInt 3)]), (''control_coverage'', JObj ((''tested'', JInt 65536) # j_counts counts))]), (''scope'',
     JStr ''nine pinned original words and exhaustive word predicate; no source-writer census, branch pipeline execution, full worker or recorder completion'')])))"

definition decode_words :: "word_image \<Rightarrow> json res" where
  "decode_words words =
     ensure (need_at words [(BASE, WITNESS)] ''context witness changed or absent at '') (
     rbind (tally route_for_status) (\<lambda>counts.
     Inr (JObj [(''source_sha256'', JStr SOURCE_SHA256), (''segment'', JStr ''aa22''), (''matched_word_range'',
     JList [JStr ''023d73'', JStr ''023da5'']), (''matched_words'', JInt (int (length WITNESS))), (''branch'',
     JObj [(''address'', JStr ''023d88''), (''opcode'', JStr ''fa44''), (''condition'', JStr ''ANEQ''),
     (''delayed'', JBool True), (''target'', JStr ''023d9a''), (''documented_base_cycles'', JInt 3),
     (''status_source'', JStr ''007e''), (''required_mask'', JStr ''c004''), (''taken_when'',
     JStr ''(status & c004) != c004''), (''delay_slots'', JList [JObj [(''address'', JStr ''023d8a''), (''words'',
     JList [JStr ''467f'']), (''operation'', JStr ''LD Smem,DP''), (''source_offset'', JStr ''7f''),
     (''source_dp'', JInt 0), (''documented_base_cycles'', JInt 3)], JObj [(''address'', JStr ''023d8b''),
     (''words'', JList [JStr ''f495'']), (''operation'', JStr ''NOP'')]]), (''status_coverage'', JObj ((''tested'',
     JInt 65536) # j_counts counts))]), (''worker_call'', JObj [(''address'', JStr ''023d92''), (''target'',
     JStr ''023dbc''), (''delayed'', JBool True), (''delay_words'', JList [JStr ''770e'', JStr ''0006'']),
     (''operation'', JStr ''STM #6,T''), (''continuation'', JStr ''023d96''), (''extra_saved_registers'',
     JList [JStr ''AR0'', JStr ''AR2'', JStr ''AR3'', JStr ''T''])]), (''common_tail'', JObj [(''entry'',
     JStr ''023d9a''), (''direct_load_offset'', JStr ''36''), (''addressing_page'',
     JStr ''current DP; skip-worker path uses the delay-slot value; worker effects unclassified''), (''cpl_set'',
     JStr ''023d9b''), (''pop_bl'', JStr ''023d9e''), (''following_compiler_store'', JStr ''023d9f''),
     (''store_offset'', JInt 6), (''return_word'', JObj [(''address'', JStr ''023da5''), (''opcode'',
     JStr ''fc00'')])]), (''scope'',
     JStr ''51 pinned original words and exhaustive status predicate; no complete ISR, worker, writer census or physical pipeline validation'')])))"

definition decode_resident_cleanup_restart :: "word_image \<Rightarrow> json res" where
  "decode_resident_cleanup_restart words =
     ensure (need_at words RESIDENT_RESTART_WITNESS ''resident restart witness changed at '') (
     rbind (resident_cleanup_restart 2 0 1 1) (\<lambda>single.
     Inr (JObj [(''segment'', JStr ''aa22''), (''pinned_words'', JInt (pin_words RESIDENT_RESTART_WITNESS)),
     (''lifecycle_field'', JStr ''373e''), (''selected_lifecycle'', JInt 5), (''entry'', JStr ''03a987''),
     (''mode_field'', JStr ''3740''), (''nonadvance_mode'', JInt 3), (''continuation_field'', JStr ''3762''),
     (''preserved_continuation'', JInt 4), (''other_continuation'', JInt 6), (''track_index_field'',
     JStr ''3765''), (''track_count_field'', JStr ''3768''), (''advance'',
     JStr ''increment index; wrap to 1 when increment equals track count + 1''), (''tail'',
     JStr ''clear 3732 bit 4; lifecycle <- 7; branch 03aacc''), (''single_track_example'', j_restart single),
     (''scope'',
     JStr ''Pinned resident state-5 control path and valid-index arithmetic; not runtime mode ownership, repeat-setting semantics, tail disposition or audio completion'')])))"

definition lifecycle_row :: "word_image \<Rightarrow> int \<times> int \<Rightarrow> string \<times> json" where
  "lifecycle_row words entry = (case entry of (address, v) \<Rightarrow>
     let opcode = map_of words (address - 1); following = map_of words (address + 1);
         row = (\<lambda>class extra. (class, JObj ([(''operand_address'', JStr (fmt_x 6 address)), (''field'', JStr (fmt_x 4 v)),
                  (''preceding_word'', case opcode of None \<Rightarrow> JNull | Some w \<Rightarrow> JStr (fmt_x 4 w)),
                  (''classification'', JStr class)] @ extra))) in
     case (opcode, following) of
       (Some w, Some operand) \<Rightarrow>
         if w = 0x76f8 then row ''absolute_immediate_store_pattern''
           [(''instruction_address'', JStr (fmt_x 6 (address - 1))), (''immediate'', JStr (fmt_x 4 operand))]
         else if w = 0x60f8 then row ''absolute_immediate_compare_pattern'' [(''immediate'', JStr (fmt_x 4 operand))]
         else if w = 0x10f8 then row ''absolute_load_a_pattern'' []
         else if w AND 0xff00 = 0x7100 then row ''mvdk_absolute_destination_pattern''
           [(''instruction_address'', JStr (fmt_x 6 (address - 1))), (''source_smem'', JStr (fmt_x 2 (w AND 0xff)))]
         else row ''unclassified_literal'' []
     | (Some w, None) \<Rightarrow>
         if w = 0x10f8 then row ''absolute_load_a_pattern'' []
         else if w AND 0xff00 = 0x7100 then row ''mvdk_absolute_destination_pattern''
           [(''instruction_address'', JStr (fmt_x 6 (address - 1))), (''source_smem'', JStr (fmt_x 2 (w AND 0xff)))]
         else row ''unclassified_literal'' []
     | (None, _) \<Rightarrow> row ''unclassified_literal'' [])"

definition slash_join :: "string list \<Rightarrow> string" where
  "slash_join parts = concat (case parts of [] \<Rightarrow> [] | p # ps \<Rightarrow> p # map (\<lambda>q. CHR ''/'' # q) ps)"

definition playback_lifecycle_literal_census :: "word_image \<Rightarrow> int list \<Rightarrow> json res" where
  "playback_lifecycle_literal_census words wanted =
     (let targets = remdups wanted in (
     ensure (demand (targets \<noteq> [] \<and> (\<forall>v \<in> set targets. 0 \<le> v \<and> v \<le> 0xffff)) ''literal census targets must be nonempty 16-bit fields'') (
     let rows = map (lifecycle_row words) (sort_key fst (filter (\<lambda>(_, v). v \<in> set targets) words)) in (
     Inr (JObj [(''mapped_words'', JInt (word_count words)), (''literal_references'', JInt (int (length rows))),
     (''classes'', JObj (j_counts (counter (map fst rows)))), (''references'', JList (map snd rows)), (''scope'',
     JStr (''All mapped literal occurrences of '' @ slash_join (map (fmt_x 4) (sort targets)) @ ''; raw patterns only, not instruction-boundary validation, runtime writers, indirect stores or an all-alias ownership/absence proof''))])))))"

definition decode_rel_cleanup :: "word_image \<Rightarrow> word_image \<Rightarrow> json res" where
  "decode_rel_cleanup words bootstrap_words =
     ensure (need_at words [(REL_CLEANUP_BASE, REL_CLEANUP_WITNESS)] ''REL cleanup/API witness changed or absent at '') (
     ensure (need_at bootstrap_words [(0x2080, REL_RELOAD_API)] ''REL cleanup/API witness changed or absent at '') (
     rbind (tally (\<lambda>control_word. rmap cl_state (rel_cleanup_route 4 control_word))) (\<lambda>states.
     rbind (rmap_list (\<lambda>control_word. rmap (\<lambda>r. (fmt_x 4 control_word,
       j_cleanup r)) (rel_cleanup_route 4 control_word)) [0, 1, 2, 3, 0xFFFF]) (\<lambda>examples.
     Inr (JObj [(''segment'', JStr ''aa99''), (''pinned_words'', JInt (int (length REL_CLEANUP_WITNESS))),
     (''aa55_api_words'', JInt 2), (''state_gate'', JObj [(''address'', JStr ''02956f''), (''state_address'',
     JStr ''373e''), (''required'', JInt 4), (''skip'', JStr ''NTC -> 02959d'')]), (''control'',
     JObj [(''address'', JStr ''029575''), (''operation'', JStr ''MVDM $3742,AR2''), (''direction'',
     JStr ''data_to_mmr''), (''is_result_publication'', JBool False)]), (''branch'', JObj [(''address'',
     JStr ''02957d''), (''operation'', JStr ''BANZ 958e,*AR2(-2)''), (''predicate'',
     JStr ''((AR2 - 2) & 0xffff) != 0''), (''ar2_modified'', JBool False), (''precheck'',
     JStr ''AR2 == 1 -> 02958e'')]), (''active_control_partition'', JObj [(''tested'', JInt 0x10000), (''state5'',
     JInt (count_of 5 states)), (''state2'', JInt (count_of 2 states)), (''state2_control'', JInt 2)]),
     (''state2_extra_call'', JObj [(''target'', JStr ''039005''), (''caller_sp0'', JInt 1), (''caller_sp1'',
     JStr ''001a''), (''a'', JStr ''caller_SP + 0x14'')]), (''examples'', JObj examples), (''reload'',
     JObj [(''address'', JStr ''02959b''), (''descriptor'', JInt 0), (''api'', JStr ''002080''), (''aa55_target'',
     JStr ''003538''), (''selected_image'', JStr ''MCUSI16'')]), (''scope'',
     JStr ''Pinned branch and API contract; no EOF/error meaning, worker-completion cause, decoded PCM or analog audio acceptance'')])))))"

end
