(* ===== verification/Mu4_Contract.thy ===== *)
theory Mu4_Contract
  imports Mu4_Resident
begin

text \<open>
  \<open>contract\<close> of \<open>tools/mu4_context_contract.py\<close>: it admits one source file by its digest, reads the four
  uploaded images out of it and collects the reports of all checks, in the order of the source.  The
  first check that fails is the error.
\<close>

text \<open>\<open>result[key] = check(...)\<close>, one after the other.\<close>

definition report_entries :: "(string \<times> json res) list \<Rightarrow> (string \<times> json) list res" where
  "report_entries entries = rmap_list (\<lambda>(key, report). rmap (Pair key) report) entries"

definition object_entries :: "json \<Rightarrow> (string \<times> json) list" where
  "object_entries report = (case report of JObj entries \<Rightarrow> entries | _ \<Rightarrow> [])"

definition four_images :: "word_image \<Rightarrow> word_image \<Rightarrow> word_image \<Rightarrow> word_image \<Rightarrow> (string, word_image) dict" where
  "four_images words bootstrap rel recorder =
     [(''aa55'', bootstrap), (''aa22'', words), (''aa99'', rel), (''aa88'', recorder)]"

definition resident_reports :: "word_image \<Rightarrow> (string \<times> json res) list" where
  "resident_reports words =
    [(''measurement_response'', decode_measurement_response words),
     (''catalogue_media_admission'', decode_catalogue_media_admission words),
     (''worker_entry'', decode_worker_entry words),
     (''worker_return'', decode_worker_return words),
     (''worker_copy'', decode_worker_copy words),
     (''worker_logic'', decode_worker_logic words),
     (''full_worker'', decode_full_worker words),
     (''timer_wrapper'', decode_timer_wrapper words),
     (''idle_lifecycle'', decode_idle_contract words),
     (''resident_cleanup_restart'', decode_resident_cleanup_restart words)]"

definition bootstrap_reports :: "word_image \<Rightarrow> (string \<times> json res) list" where
  "bootstrap_reports bootstrap =
    [(''bootstrap_repeat'', decode_bootstrap_repeat bootstrap),
     (''boot_memory_shift'', decode_boot_memory_shift bootstrap),
     (''boot_block_repeat'', decode_boot_block_repeat bootstrap)]"

definition playback_reports :: "word_image \<Rightarrow> word_image \<Rightarrow> word_image \<Rightarrow> (string \<times> json res) list" where
  "playback_reports words bootstrap rel =
    [(''playback_lifecycle_literals'', rmap JObj (report_entries (map (\<lambda>(marker, image). (marker, playback_lifecycle_literal_census image [0x373e, 0x3742])) [(''aa55'', bootstrap), (''aa99'', rel)]))),
     (''playback_refill_policy_literals'', rmap JObj (report_entries (map (\<lambda>(marker, image). (marker, playback_lifecycle_literal_census image [0xaa1a, 0x12fc])) [(''aa55'', bootstrap), (''aa22'', words), (''aa99'', rel)]))),
     (''playback_cleanup_ingress'', decode_playback_cleanup_ingress rel),
     (''playback_input_units'', decode_playback_input_units rel bootstrap),
     (''playback_refill_control'', decode_playback_refill_control rel),
     (''playback_pending_control'', decode_playback_pending_control rel),
     (''playback_refill_completion'', decode_playback_refill_completion rel),
     (''filter_parent'', decode_filter_parent rel),
     (''output_processing'', decode_output_processing rel),
     (''output_scale'', decode_output_scale rel),
     (''bit_reader'', decode_bit_window rel),
     (''nibble_selector'', decode_nibble_selector rel),
     (''prefix_transform'', decode_prefix_transform rel),
     (''byte_count_prefix'', decode_byte_count_prefix rel),
     (''playback_polynomial_caller'', decode_poly_caller rel),
     (''playback_square_loop'', decode_square_loop rel),
     (''playback_register_product_caller'', decode_register_product_caller rel),
     (''processing_latch_gate'', decode_service_gate rel),
     (''post_publication_flag_branch'', decode_post_flag_branch rel),
     (''post_flag_context'', decode_flag_context rel),
     (''playback_transform_copy'', decode_transform_copy rel ''aa99''),
     (''playback_control_literals'', playback_control_literal_census rel),
     (''copy_adapter'', decode_copy_adapter rel),
     (''decoder_output'', decode_decoder_output rel),
     (''decoder_framing'', decode_decoder_framing rel),
     (''decoder_input_descriptor'', decode_decoder_input_descriptor rel),
     (''decoder_input_reserve'', decode_decoder_input_reserve rel),
     (''playback_info_query'', decode_playback_info_query rel),
     (''playback_buffer_refresh'', decode_playback_buffer_refresh rel),
     (''playback_final_input'', decode_playback_final_input rel),
     (''pocp_buffer_count'', decode_pocp_buffer_count rel words),
     (''metadata_overwrite_extent'', decode_metadata_overwrite_extent words bootstrap),
     (''decoder_alignment'', decode_decoder_alignment rel),
     (''decoder_reset'', decode_decoder_reset rel),
     (''decoder_pointer_records'', decode_decoder_pointer_records rel),
     (''decoder_channel_reset'', decode_decoder_channel_reset rel),
     (''decoder_constructor'', decode_decoder_constructor rel),
     (''decoder_configuration'', decode_decoder_configuration rel),
     (''decoder_sync'', decode_decoder_sync rel),
     (''decoder_mapped_alu'', decode_decoder_mapped_alu rel),
     (''decoder_dispatch'', decode_decoder_dispatch rel),
     (''decoder_return_dispatch'', decode_decoder_return_dispatch rel),
     (''worker_reservation'', decode_worker_reservation rel),
     (''context_lanes'', decode_context_lanes rel),
     (''exchange_publication'', decode_exchange_publication rel),
     (''decoder_method_prefix'', decode_decoder_method_prefix rel),
     (''decoder_info_body'', decode_decoder_info_body rel bootstrap),
     (''decoder_info_helpers'', decode_decoder_info_helpers rel bootstrap),
     (''pcm_conversion'', decode_pcm_conversion rel)]"

definition recorder_reports ::
    "word_image \<Rightarrow> word_image \<Rightarrow> word_image \<Rightarrow> word_image \<Rightarrow> (string \<times> json res) list" where
  "recorder_reports words bootstrap rel recorder =
    [(''playback_pending16_producers'', decode_playback_pending16_producers (four_images words bootstrap rel recorder)),
     (''playback_input3_senders'', decode_playback_input3_senders (four_images words bootstrap rel recorder)),
     (''resident_idle3'', decode_resident_idle3 (four_images words bootstrap rel recorder)),
     (''resident_wake_tail'', decode_resident_wake_tail words bootstrap),
     (''recorder_stop_frontend'', decode_recorder_stop_frontend recorder),
     (''recorder_stop_mailbox'', decode_recorder_stop_mailbox recorder),
     (''recording_escape_store_prefix'', decode_escape_store_prefix recorder),
     (''recording_prefix_transform'', decode_recording_prefix_transform recorder),
     (''recording_header_writer'', decode_recording_header_writer recorder),
     (''recording_window_arguments'', decode_recording_window_arguments recorder),
     (''recording_transform_copy'', decode_transform_copy recorder ''aa88''),
     (''recorder_memory_mac'', decode_recorder_memory_mac recorder),
     (''dma_pause'', decode_dma_pause words rel),
     (''rel_repeat_call'', decode_rel_repeat_call rel),
     (''rel_ar_store'', decode_rel_ar_store rel),
     (''rel_copy_loop'', decode_rel_copy_loop rel),
     (''rel_cleanup'', decode_rel_cleanup rel bootstrap)]"

text \<open>\<open>bytes.fromhex(source.decode('ascii'))\<close>; both failures are a \<open>ValueError\<close>.\<close>

definition source_bytes :: "bytes \<Rightarrow> bytes res" where
  "source_bytes source =
     (if \<exists>b \<in> set source. 128 \<le> b then Inl (ValueError ''ordinal not in range(128)'')
      else case fromhex_ws (map (\<lambda>b. char_of (unat b)) source) of
        None \<Rightarrow> Inl (ValueError ''non-hexadecimal number found in fromhex() arg'') | Some bs \<Rightarrow> Inr bs)"

definition contract_of :: "bytes \<Rightarrow> json res" where
  "contract_of data =
     rbind (uploaded_word_image data ''aa22'') (\<lambda>words.
     rbind (decode_words words) (\<lambda>context_report.
     rbind (report_entries (resident_reports words)) (\<lambda>resident_part.
     rbind (uploaded_word_image data ''aa55'') (\<lambda>bootstrap.
     rbind (report_entries (bootstrap_reports bootstrap)) (\<lambda>bootstrap_part.
     rbind (uploaded_word_image data ''aa99'') (\<lambda>rel.
     rbind (report_entries (playback_reports words bootstrap rel)) (\<lambda>playback_part.
     rbind (uploaded_word_image data ''aa88'') (\<lambda>recorder.
     rbind (report_entries (recorder_reports words bootstrap rel recorder)) (\<lambda>recorder_part.
       Inr (JObj (object_entries context_report @ resident_part @ bootstrap_part @ playback_part @ recorder_part)))))))))))"

definition contract :: "bytes \<Rightarrow> json res" where
  "contract source =
     (if sha256_hex source \<noteq> SOURCE_SHA256 then Inl (ValueError ''expected original R060 InitData source'')
      else rbind (source_bytes source) contract_of)"

end
