(* ===== verification/Mu4_Coverage.thy ===== *)
theory Mu4_Coverage
  imports Mu4_Contract
begin

text \<open>
  The exhaustive predicates of the resident reports: how the 65536 words divide over the routes, found
  without enumerating them.
\<close>

section \<open>Counting the words that contain a mask\<close>

definition superwords :: "nat \<Rightarrow> int \<Rightarrow> int set" where
  "superwords n m = {v. 0 \<le> v \<and> v < 2 ^ n \<and> v AND m = m}"

lemma and_mask_halves: "(v :: int) AND m = m \<longleftrightarrow> (odd m \<longrightarrow> odd v) \<and> (v div 2) AND (m div 2) = m div 2"
proof -
  have "v AND m = of_bool (odd v \<and> odd m) + 2 * ((v div 2) AND (m div 2))" by (rule and_rec)
  moreover have "m = of_bool (odd m) + 2 * (m div 2)" by (simp add: of_bool_def; presburger)
  ultimately show ?thesis by (cases "odd v"; cases "odd m"; simp; presburger)
qed

lemma even_image: "v \<in> (\<lambda>w :: int. 2 * w) ` A \<longleftrightarrow> even v \<and> v div 2 \<in> A"
  by (auto elim!: evenE)

lemma odd_image: "v \<in> (\<lambda>w :: int. 2 * w + 1) ` A \<longleftrightarrow> odd v \<and> v div 2 \<in> A"
  by (auto elim!: oddE)

lemma superwords_Suc:
  "superwords (Suc n) m = (if odd m then {} else (\<lambda>w. 2 * w) ` superwords n (m div 2)) \<union> (\<lambda>w. 2 * w + 1) ` superwords n (m div 2)"
proof (rule set_eqI)
  fix v :: int
  have range: "0 \<le> v \<and> v < 2 ^ Suc n \<longleftrightarrow> 0 \<le> v div 2 \<and> v div 2 < 2 ^ n" by auto
  have "v \<in> superwords (Suc n) m \<longleftrightarrow> (odd m \<longrightarrow> odd v) \<and> v div 2 \<in> superwords n (m div 2)"
    unfolding superwords_def mem_Collect_eq and_mask_halves [of v m] using range by blast
  then show "v \<in> superwords (Suc n) m \<longleftrightarrow> v \<in> (if odd m then {} else (\<lambda>w. 2 * w) ` superwords n (m div 2)) \<union> (\<lambda>w. 2 * w + 1) ` superwords n (m div 2)"
    by (auto simp: even_image odd_image)
qed

lemma superwords_finite: "finite (superwords n m)"
  by (rule finite_subset [of _ "{0..<2 ^ n}"]) (auto simp: superwords_def)

lemma superwords_0: "superwords 0 m = (if m = 0 then {0} else {})"
proof -
  have range: "(0 \<le> v \<and> v < 2 ^ 0 \<and> P) \<longleftrightarrow> v = 0 \<and> P" for v :: int and P by auto
  show ?thesis unfolding superwords_def range by auto
qed

lemma card_superwords_Suc: "card (superwords (Suc n) m) = (if odd m then 1 else 2) * card (superwords n (m div 2))"
proof -
  have even: "card ((\<lambda>w :: int. 2 * w) ` A) = card A" and odd: "card ((\<lambda>w :: int. 2 * w + 1) ` A) = card A" for A
    by (simp_all add: card_image inj_on_def)
  have "(\<lambda>w. 2 * w) ` A \<inter> (\<lambda>w. 2 * w + 1) ` B = {}" for A B :: "int set" by (auto, presburger)
  then show ?thesis
    by (simp add: superwords_Suc card_Un_disjoint superwords_finite even odd)
qed

lemma set_range65536: "set range65536 = {0..<65536}"
proof -
  have "int ` {0..<65536} = {int 0..<int 65536}" by (rule image_int_atLeastLessThan)
  then show ?thesis by (simp add: range65536_def atLeast_upt)
qed

lemma length_range65536: "length range65536 = 65536"
  unfolding range65536_def length_map length_upt by simp

lemma range65536_Cons: "range65536 = 0 # tl range65536"
proof -
  have "[0..<65536] = 0 # [Suc 0..<65536]" by (rule upt_conv_Cons) simp
  then have "range65536 = map int (0 # [Suc 0..<65536])" unfolding range65536_def by (rule arg_cong)
  then have "range65536 = int 0 # map int [Suc 0..<65536]" unfolding list.map .
  then obtain vs where vs: "range65536 = int 0 # vs" by blast
  show ?thesis unfolding vs by simp
qed

lemma distinct_range65536: "distinct range65536"
proof -
  have "distinct (map int ns)" if "distinct ns" for ns using that by (simp add: distinct_map inj_on_def)
  then show ?thesis unfolding range65536_def using distinct_upt by blast
qed

definition contained :: "int \<Rightarrow> nat" where
  "contained m = length (filter (\<lambda>v. v AND m = m) range65536)"

lemma contained_card: "contained m = card (superwords 16 m)"
proof -
  have "distinct (filter (\<lambda>v. v AND m = m) range65536)" by (simp add: range65536_def distinct_map inj_on_def)
  then have "contained m = card (set (filter (\<lambda>v. v AND m = m) range65536))"
    unfolding contained_def by (rule distinct_card [symmetric])
  moreover have "set (filter (\<lambda>v. v AND m = m) range65536) = superwords 16 m"
    by (auto simp: set_range65536 superwords_def)
  ultimately show ?thesis by simp
qed

lemma card_superwords_numeral:
  "card (superwords (numeral k) m) = (if odd m then 1 else 2) * card (superwords (pred_numeral k) (m div 2))"
  using card_superwords_Suc [of "pred_numeral k" m] by (simp only: numeral_eq_Suc)

lemma contained_counts: "contained 0xC004 = 8192" "contained 0x0800 = 32768"
  by (simp_all add: contained_card card_superwords_numeral card_superwords_Suc superwords_0)

section \<open>Tallies of two-way routes\<close>

lemma remdups_snoc: "remdups (zs @ [x]) = filter (\<lambda>z. z \<noteq> x) (remdups zs) @ [x]"
  by (induction zs) auto

lemma counter_Cons: "counter (x # ys) = (x, Suc (count_list ys x)) # filter (\<lambda>(z, n). z \<noteq> x) (counter ys)"
proof -
  have "rev (remdups (rev (x # ys))) = x # filter (\<lambda>z. z \<noteq> x) (rev (remdups (rev ys)))"
    by (simp add: remdups_snoc rev_filter)
  then show ?thesis by (auto simp: counter_def filter_map comp_def intro!: filter_cong)
qed

lemma singleton_list:
  assumes "set zs = {y}" "distinct zs"
  shows "zs = [y]"
proof (cases zs)
  case (Cons a us)
  then show ?thesis using assms by (cases us) auto
qed (use assms in simp)

lemma counter_two:
  assumes "set ys \<subseteq> {x, y}" "y \<in> set ys" "x \<noteq> y"
  shows "counter (x # ys) = [(x, count_list (x # ys) x), (y, count_list (x # ys) y)]"
proof -
  let ?L = "filter (\<lambda>z. z \<noteq> x) (rev (remdups (rev ys)))"
  have "set ?L = {y}" "distinct ?L" using assms by auto
  then have "?L = [y]" by (rule singleton_list)
  moreover have "rev (remdups (rev (x # ys))) = x # ?L" by (simp add: remdups_snoc rev_filter)
  ultimately show ?thesis by (simp add: counter_def)
qed

lemma count_list_map_if:
  "x \<noteq> y \<Longrightarrow> count_list (map (\<lambda>v. if P v then x else y) vs) x = length (filter P vs)"
  "x \<noteq> y \<Longrightarrow> count_list (map (\<lambda>v. if P v then x else y) vs) y = length (filter (\<lambda>v. \<not> P v) vs)"
  by (induction vs) auto

lemma tally_route:
  assumes route: "\<forall>v. 0 \<le> v \<longrightarrow> v < 65536 \<longrightarrow> f v = Inr (if P v then x else y)"
    and "P 0" "\<not> P w" "0 \<le> w" "w < 65536" "x \<noteq> y" "length (filter (\<lambda>v. \<not> P v) range65536) = n"
  shows "tally f = Inr [(x, 65536 - n), (y, n)]"
proof -
  let ?g = "\<lambda>v. if P v then x else y"
  have split: "range65536 = 0 # tl range65536"
    by (rule range65536_Cons)
  have "rmap_list f range65536 = Inr (map ?g range65536)"
    by (rule rmap_list_Inr) (use route in \<open>auto simp: set_range65536\<close>)
  moreover have "counter (map ?g range65536) = [(x, count_list (map ?g range65536) x), (y, count_list (map ?g range65536) y)]"
  proof -
    have "w \<in> set (tl range65536)" using assms(2-5) set_range65536 split
      by (metis atLeastLessThan_iff list.set_intros set_ConsD)
    then have "y \<in> set (map ?g (tl range65536))" using \<open>\<not> P w\<close> by force
    moreover have "map ?g range65536 = x # map ?g (tl range65536)" using arg_cong [OF split, of "map ?g"] \<open>P 0\<close> by simp
    ultimately show ?thesis using counter_two [of "map ?g (tl range65536)" x y] \<open>x \<noteq> y\<close> by auto
  qed
  moreover have "length (filter P range65536) = 65536 - n"
    using sum_length_filter_compl [of P range65536] assms(7) by (simp add: length_range65536)
  ultimately show ?thesis
    using count_list_map_if [OF \<open>x \<noteq> y\<close>, of P range65536] assms(7) by (simp add: tally_def)
qed

lemma one_word_filter: "length (filter (\<lambda>v. \<not> v = w) range65536) = 65535" if "0 \<le> w" "w < 65536"
proof -
  have "length (filter (\<lambda>v. v = w) range65536) = card (set (filter (\<lambda>v. v = w) range65536))"
    by (rule distinct_card [symmetric]) (simp add: distinct_range65536)
  also have "set (filter (\<lambda>v. v = w) range65536) = {w}" using that by (auto simp: set_range65536)
  finally show ?thesis using sum_length_filter_compl [of "\<lambda>v. v = w" range65536, unfolded length_range65536] by simp
qed

lemma xor_eq_0: "(v :: int) XOR m = 0 \<longleftrightarrow> v = m"
  by (metis xor.assoc xor.left_neutral xor.right_neutral xor_self_eq)

lemma status_mask: "(v AND MASK) XOR MASK \<noteq> 0 \<longleftrightarrow> v AND 0xC004 \<noteq> 0xC004"
  by (simp add: MASK_def xor_eq_0)

lemma mask_one_bit: "(v :: int) AND 2 ^ n = (if bit v n then 2 ^ n else 0)"
  by (auto simp: bit_and_iff bit_exp_iff intro!: bit_eqI)

lemma masked_bit: "v AND 0x0800 \<noteq> 0 \<longleftrightarrow> v AND 0x0800 = (0x0800 :: int)"
  using mask_one_bit [of v 11] by (simp split: if_splits)

lemma status_filter: "length (filter (\<lambda>v. v AND 0xC004 = 0xC004) range65536) = 8192"
  using contained_counts(1) by (simp add: contained_def)

lemma masked_filter: "length (filter (\<lambda>v. v AND 0x0800 = 0x0800) range65536) = 32768"
  using contained_counts(2) by (simp add: contained_def)

lemma tally_status: "tally route_for_status = Inr [(''skip_worker'', 57344), (''call_worker'', 8192)]"
proof -
  have "tally route_for_status = Inr [(''skip_worker'', 65536 - 8192), (''call_worker'', 8192)]"
    by (rule tally_route [where P = "\<lambda>v. v AND 0xC004 \<noteq> 0xC004" and w = "0xC004"])
       (simp_all add: route_for_status_def status_mask status_filter)
  then show ?thesis by simp
qed

lemma tally_intm: "tally restored_intm = Inr [(''unmasked'', 32768), (''masked'', 32768)]"
proof -
  have "tally restored_intm = Inr [(''unmasked'', 65536 - 32768), (''masked'', 32768)]"
    by (rule tally_route [where P = "\<lambda>v. v AND 0x0800 \<noteq> 0x0800" and w = "0x0800"])
       (simp_all add: restored_intm_def masked_bit masked_filter)
  then show ?thesis by simp
qed

lemma tally_zero:
  assumes "\<forall>v. 0 \<le> v \<longrightarrow> v < 65536 \<longrightarrow> f v = Inr (if v = 0 then x else y)" "x \<noteq> y"
  shows "tally f = Inr [(x, 1), (y, 65535)]"
proof -
  have "tally f = Inr [(x, 65536 - 65535), (y, 65535)]"
    by (rule tally_route [where P = "\<lambda>v. v = 0" and w = 1, OF assms(1) _ _ _ _ assms(2)])
       (simp_all add: one_word_filter)
  then show ?thesis by simp
qed

lemma tally_idle: "tally idle_route = Inr [(''initialize_before_idle'', 1), (''skip_setup'', 65535)]"
  by (rule tally_zero) (simp_all add: idle_route_def)

lemma tally_worker: "tally worker_route = Inr [(''enter_worker_body'', 1), (''skip_worker_body'', 65535)]"
  by (rule tally_zero) (simp_all add: worker_route_def)

lemma cleanup_state:
  assumes "0 \<le> v" "v < 65536"
  shows "rmap cl_state (rel_cleanup_route 4 v) = Inr (if v \<noteq> 2 then 5 else 2)"
proof -
  have f: "x AND 0xffff = x mod 65536" for x :: int unfolding and_ffff_take by (simp add: take_bit_eq_mod)
  have "(v - 2) mod 65536 = 0 \<longleftrightarrow> v = 2"
  proof
    assume "(v - 2) mod 65536 = 0"
    then obtain k where "v - 2 = 65536 * k" by (auto elim: dvdE simp: mod_eq_0_iff_dvd)
    then show "v = 2" using assms by (cases "k = 0") auto
  qed simp
  then show ?thesis using assms by (simp add: rel_cleanup_route_def f)
qed

lemma tally_cleanup: "tally (\<lambda>v. rmap cl_state (rel_cleanup_route 4 v)) = Inr [(5, 65535), (2, 1)]"
proof -
  have one: "length (filter (\<lambda>v. v = 2) range65536) = 1"
    using one_word_filter [of 2] sum_length_filter_compl [of "\<lambda>v. v = 2" range65536] by (simp add: length_range65536)
  have "tally (\<lambda>v. rmap cl_state (rel_cleanup_route 4 v)) = Inr [(5, 65536 - 1), (2, 1)]"
    by (rule tally_route [where P = "\<lambda>v. v \<noteq> 2" and w = 2]) (simp_all add: cleanup_state one)
  then show ?thesis by simp
qed

text \<open>Over all 65536 words the exhaustive predicates divide as the reports say: exactly
  8192 status words call the worker (those with the three required bits), half of the saved status
  words restore the mask, one control word enters the worker body, one flag initializes before idle,
  and one control word of a lifecycle 4 leads to state 2.\<close>

theorem route_coverage:
  "tally route_for_status = Inr [(''skip_worker'', 57344), (''call_worker'', 8192)]
   \<and> tally restored_intm = Inr [(''unmasked'', 32768), (''masked'', 32768)]
   \<and> tally worker_route = Inr [(''enter_worker_body'', 1), (''skip_worker_body'', 65535)]
   \<and> tally idle_route = Inr [(''initialize_before_idle'', 1), (''skip_setup'', 65535)]
   \<and> tally (\<lambda>control_word. rmap cl_state (rel_cleanup_route 4 control_word)) = Inr [(5, 65535), (2, 1)]"
  by (simp only: tally_status tally_intm tally_worker tally_idle tally_cleanup)

end
