(* ===== verification/Mu4_Audit.thy ===== *)
theory Mu4_Audit
  imports Mu4_Coverage
begin

text \<open>
  What acceptance by the checks means: which words an accepted image must hold, and that nothing else
  about the image reaches the report.
\<close>

section \<open>Checks that are decided by pinned words\<close>

text \<open>A check is pinned by spans when it returns one fixed report for the images that hold them and raises
  for all others.\<close>

definition pinned :: "(word_image \<Rightarrow> 'a res) \<Rightarrow> span list \<Rightarrow> bool" where
  "pinned check spans \<longleftrightarrow>
     (\<exists>report. \<forall>words. (check words = Inr report \<longleftrightarrow> all_hold words spans) \<and> (returns (check words) \<longleftrightarrow> all_hold words spans))"

lemma ensure_cases: "ensure c m = (case c of Inl e \<Rightarrow> Inl e | Inr _ \<Rightarrow> m)"
  by (simp add: ensure_def rbind_def)

lemma pinned_const: "pinned (\<lambda>words. Inr r) []"
  by (auto simp: pinned_def)

lemma pinned_value: "m = Inr x \<Longrightarrow> pinned (\<lambda>words. f x words) spans \<Longrightarrow> pinned (\<lambda>words. rbind m (\<lambda>y. f y words)) spans"
  by simp

lemma pinned_ensure:
  assumes "\<forall>words. c words = Inr () \<longleftrightarrow> all_hold words spans" "pinned check spans'"
  shows "pinned (\<lambda>words. ensure (c words) (check words)) (spans @ spans')"
  using assms by (auto simp: pinned_def)

lemma pinned_need: "pinned check spans' \<Longrightarrow> pinned (\<lambda>words. ensure (need words spans msg) (check words)) (spans @ spans')"
  by (rule pinned_ensure) simp_all

lemma pinned_need_at: "pinned check spans' \<Longrightarrow> pinned (\<lambda>words. ensure (need_at words spans msg) (check words)) (spans @ spans')"
  by (rule pinned_ensure) simp_all

lemma pinned_demand:
  "pinned check spans' \<Longrightarrow> pinned (\<lambda>words. ensure (demand (map_of words a = Some v) msg) (check words)) ([(a, [v])] @ spans')"
  by (rule pinned_ensure) simp_all

lemma pinned_bind:
  assumes "pinned f spans" "\<And>x. pinned (g x) spans'"
  shows "pinned (\<lambda>words. rbind (f words) (\<lambda>x. g x words)) (spans @ spans')"
proof -
  obtain r where r: "\<forall>words. (f words = Inr r \<longleftrightarrow> all_hold words spans) \<and> (returns (f words) \<longleftrightarrow> all_hold words spans)"
    using assms(1) unfolding pinned_def by blast
  obtain s where s: "\<forall>words. (g r words = Inr s \<longleftrightarrow> all_hold words spans') \<and> (returns (g r words) \<longleftrightarrow> all_hold words spans')"
    using assms(2) [of r] unfolding pinned_def by blast
  have "(rbind (f words) (\<lambda>x. g x words) = Inr s \<longleftrightarrow> all_hold words (spans @ spans'))
    \<and> (returns (rbind (f words) (\<lambda>x. g x words)) \<longleftrightarrow> all_hold words (spans @ spans'))" for words
  proof (cases "all_hold words spans")
    case True
    then have "f words = Inr r" using r by blast
    then show ?thesis using s True by simp
  next
    case False
    then have "\<not> returns (f words)" using r by blast
    then show ?thesis using False by (auto simp: rbind_eq_Inr)
  qed
  then show ?thesis unfolding pinned_def by blast
qed

lemma rmap_rbind: "rmap g m = rbind m (\<lambda>x. Inr (g x))"
  by (simp add: rmap_def rbind_def)

lemma pinned_conv: "pinned check spans \<Longrightarrow> spans = spans' \<Longrightarrow> pinned check spans'"
  by simp

lemma pinned_rmap: "pinned f spans \<Longrightarrow> pinned (\<lambda>words. rmap g (f words)) spans"
  using pinned_bind [of f spans, OF _ pinned_const, of g] by (simp add: rmap_rbind)

lemma pinned_entries_Nil: "pinned (\<lambda>words. report_entries []) []"
  by (simp add: report_entries_def pinned_const)

lemma pinned_entries_Cons:
  assumes "pinned check spans" "pinned (\<lambda>words. report_entries (rest words)) spans'"
  shows "pinned (\<lambda>words. report_entries ((key, check words) # rest words)) (spans @ spans')"
proof -
  have "pinned (\<lambda>words. rbind (rmap (Pair key) (check words)) (\<lambda>x. rmap ((#) x) (report_entries (rest words)))) (spans @ spans')"
    by (intro pinned_bind pinned_rmap assms)
  then show ?thesis by (simp add: report_entries_def rmap_def rbind_def cong: sum.case_cong)
qed

named_theorems pins \<open>the spans that pin each check\<close>

lemma decode_words_pins [pins]: "pinned decode_words ([(BASE, WITNESS)] @ [])"
  unfolding decode_words_def by (intro pinned_need_at pinned_value [OF tally_status] pinned_const)

lemma decode_measurement_pins [pins]:
  "pinned decode_measurement_response ([(MEASUREMENT_RESPONSE_BASE, MEASUREMENT_RESPONSE_WITNESS)] @ [])"
  unfolding decode_measurement_response_def by (intro pinned_need_at pinned_const)

lemma decode_catalogue_pins [pins]: "pinned decode_catalogue_media_admission (CATALOGUE_MEDIA_WITNESSES @ [])"
  unfolding decode_catalogue_media_admission_def by (intro pinned_need pinned_const)

lemma decode_worker_entry_pins [pins]: "pinned decode_worker_entry ([(WORKER_BASE, WORKER_WITNESS)] @ [])"
  unfolding decode_worker_entry_def by (intro pinned_need_at pinned_value [OF tally_worker] pinned_const)

lemma decode_worker_return_pins [pins]: "pinned decode_worker_return ([(WORKER_TAIL_BASE, WORKER_TAIL_WITNESS)] @ [])"
  unfolding decode_worker_return_def by (intro pinned_need_at pinned_value [OF tally_intm] pinned_const)

lemma decode_worker_copy_pins [pins]: "pinned decode_worker_copy ([(WORKER_COPY_BASE, WORKER_COPY_WITNESS)] @ [])"
  unfolding decode_worker_copy_def by (intro pinned_need_at pinned_const)

lemma decode_worker_logic_pins [pins]: "pinned decode_worker_logic ([(WORKER_LOGIC_BASE, WORKER_LOGIC_WITNESS)] @ [])"
  unfolding decode_worker_logic_def by (intro pinned_need_at pinned_const)

lemma decode_full_worker_pins [pins]: "pinned decode_full_worker ([(WORKER_BASE, FULL_WORKER_WITNESS)] @ [])"
  unfolding decode_full_worker_def by (intro pinned_need_at pinned_const)

lemma decode_timer_pins [pins]:
  "pinned decode_timer_wrapper ([(TIMER_VECTOR_BASE, TIMER_VECTOR_WITNESS)] @ [(TIMER_RETURN_BASE, [0xF4E5])] @ [])"
  unfolding decode_timer_wrapper_def by (intro pinned_need_at pinned_demand pinned_const)

lemma decode_idle_pins [pins]:
  "pinned decode_idle_contract ([(IDLE_BASE, IDLE_WITNESS), (IDLE_WRAPPER_BASE, IDLE_WRAPPER_WITNESS)] @ [])"
  unfolding decode_idle_contract_def by (intro pinned_need_at pinned_value [OF tally_idle] pinned_const)

lemma restart_example: "\<exists>r. resident_cleanup_restart 2 0 1 1 = Inr r"
  by (simp add: resident_cleanup_restart_def Let_def)

lemma decode_restart_pins [pins]: "pinned decode_resident_cleanup_restart (RESIDENT_RESTART_WITNESS @ [])"
proof -
  obtain r where r: "resident_cleanup_restart 2 0 1 1 = Inr r" using restart_example by blast
  show ?thesis unfolding decode_resident_cleanup_restart_def
    by (intro pinned_need_at pinned_value [OF r] pinned_const)
qed

definition resident_pins :: "span list" where
  "resident_pins =
     [(BASE, WITNESS), (MEASUREMENT_RESPONSE_BASE, MEASUREMENT_RESPONSE_WITNESS)] @ CATALOGUE_MEDIA_WITNESSES @
     [(WORKER_BASE, WORKER_WITNESS), (WORKER_TAIL_BASE, WORKER_TAIL_WITNESS), (WORKER_COPY_BASE, WORKER_COPY_WITNESS),
      (WORKER_LOGIC_BASE, WORKER_LOGIC_WITNESS), (WORKER_BASE, FULL_WORKER_WITNESS),
      (TIMER_VECTOR_BASE, TIMER_VECTOR_WITNESS), (TIMER_RETURN_BASE, [0xF4E5]),
      (IDLE_BASE, IDLE_WITNESS), (IDLE_WRAPPER_BASE, IDLE_WRAPPER_WITNESS)] @ RESIDENT_RESTART_WITNESS"

text \<open>The resident part of \<^const>\<open>contract_of\<close>.\<close>

definition resident_report :: "word_image \<Rightarrow> (string \<times> json) list res" where
  "resident_report words =
     rbind (decode_words words) (\<lambda>context_report.
     rbind (report_entries (resident_reports words)) (\<lambda>resident_part.
       Inr (object_entries context_report @ resident_part)))"

lemma resident_entries_pinned: "\<exists>spans. pinned (\<lambda>words. report_entries (resident_reports words)) spans \<and> spans = tl resident_pins"
  unfolding resident_reports_def
  apply (rule exI, rule conjI)
   apply ((rule pinned_entries_Cons, rule pins)+, rule pinned_entries_Nil)
  apply (simp add: resident_pins_def)
  done

lemma resident_pinned: "pinned resident_report resident_pins"
proof (rule pinned_conv)
  show "pinned resident_report (([(BASE, WITNESS)] @ []) @ tl resident_pins @ [])"
    unfolding resident_report_def
    apply (rule pinned_bind)
    apply (rule pins)
    apply (rule pinned_bind)
    using resident_entries_pinned apply blast
    apply (rule pinned_const)
    done
qed (simp add: resident_pins_def)

section \<open>An accepted image\<close>

text \<open>The image that holds spans and nothing else, and spans of which no two share an address.\<close>

fun span_image :: "span list \<Rightarrow> word_image" where
  "span_image [] = []"
| "span_image ((base, ws) # spans) = zip [base..base + int (length ws) - 1] ws @ span_image spans"

fun apart :: "int \<Rightarrow> int \<Rightarrow> span list \<Rightarrow> bool" where
  "apart start stop [] \<longleftrightarrow> True"
| "apart start stop ((base, ws) # spans) \<longleftrightarrow> (stop \<le> base \<or> base + int (length ws) \<le> start) \<and> apart start stop spans"

fun disjoint_spans :: "span list \<Rightarrow> bool" where
  "disjoint_spans [] \<longleftrightarrow> True"
| "disjoint_spans ((base, ws) # spans) \<longleftrightarrow> apart base (base + int (length ws)) spans \<and> disjoint_spans spans"

lemma map_of_run: "map_of (zip [base..base + int (length ws) - 1] ws) a =
    (if base \<le> a \<and> a < base + int (length ws) then Some (ws ! nat (a - base)) else None)"
proof (induction ws arbitrary: base)
  case (Cons w ws)
  have "[base..base + int (length (w # ws)) - 1] = base # [base + 1..base + 1 + int (length ws) - 1]"
    by (subst upto.simps) simp
  moreover have "nat (a - base) = Suc (nat (a - (base + 1)))" if "base + 1 \<le> a" using that by simp
  ultimately show ?case using Cons.IH [of "base + 1"] by auto
qed simp

lemma apart_lookup:
  "apart start stop spans \<Longrightarrow> start \<le> a \<Longrightarrow> a < stop \<Longrightarrow> map_of (span_image spans) a = None"
  by (induction start stop spans rule: apart.induct) (auto simp: map_add_def map_of_run)

lemma apart_member: "apart start stop spans \<Longrightarrow> (base, ws) \<in> set spans \<Longrightarrow> stop \<le> base \<or> base + int (length ws) \<le> start"
  by (induction start stop spans rule: apart.induct) auto

lemma span_image_holds:
  "disjoint_spans spans \<Longrightarrow> (base, ws) \<in> set spans \<Longrightarrow> holds (span_image spans) base ws"
proof (induction spans rule: disjoint_spans.induct)
  case (2 b us spans)
  show ?case
  proof (cases "(base, ws) = (b, us)")
    case True
    then show ?thesis using 2 apart_lookup [of b "b + int (length us)" spans]
      by (auto simp: holds_iff map_add_def map_of_run)
  next
    case False
    then have m: "(base, ws) \<in> set spans" using 2(3) by auto
    then have "holds (span_image spans) base ws" using 2 by auto
    moreover have "b + int (length us) \<le> base \<or> base + int (length ws) \<le> b"
      using apart_member [OF _ m] 2(2) by auto
    ultimately show ?thesis by (auto simp: holds_iff map_add_def map_of_run split: option.splits)
  qed
qed simp

lemma span_image_all_hold: "disjoint_spans spans \<Longrightarrow> all_hold (span_image spans) spans"
  using span_image_holds by (auto simp: all_hold_def list_all_iff)

definition resident_core :: "span list" where
  "resident_core =
     [(BASE, WITNESS), (MEASUREMENT_RESPONSE_BASE, MEASUREMENT_RESPONSE_WITNESS)] @ CATALOGUE_MEDIA_WITNESSES @
     [(WORKER_BASE, FULL_WORKER_WITNESS), (TIMER_VECTOR_BASE, TIMER_VECTOR_WITNESS), (TIMER_RETURN_BASE, [0xF4E5]),
      (IDLE_BASE, IDLE_WITNESS), (IDLE_WRAPPER_BASE, IDLE_WRAPPER_WITNESS)] @ RESIDENT_RESTART_WITNESS"

lemma resident_core_disjoint: "disjoint_spans resident_core"
  by (simp add: resident_core_def BASE_def WITNESS_def MEASUREMENT_RESPONSE_BASE_def MEASUREMENT_RESPONSE_WITNESS_def
      CATALOGUE_MEDIA_WITNESSES_def WORKER_BASE_def FULL_WORKER_WITNESS_def WORKER_WITNESS_def WORKER_COPY_WITNESS_def
      WORKER_LOGIC_WITNESS_def WORKER_TAIL_WITNESS_def TIMER_VECTOR_BASE_def TIMER_VECTOR_WITNESS_def TIMER_RETURN_BASE_def
      IDLE_BASE_def IDLE_WITNESS_def IDLE_WRAPPER_BASE_def IDLE_WRAPPER_WITNESS_def RESIDENT_RESTART_WITNESS_def)

lemma full_worker_parts:
  assumes "holds words WORKER_BASE FULL_WORKER_WITNESS"
  shows "holds words WORKER_BASE WORKER_WITNESS" "holds words WORKER_COPY_BASE WORKER_COPY_WITNESS"
    "holds words WORKER_LOGIC_BASE WORKER_LOGIC_WITNESS" "holds words WORKER_TAIL_BASE WORKER_TAIL_WITNESS"
  using assms
  by (simp_all add: FULL_WORKER_WITNESS_def holds_append WORKER_BASE_def WORKER_COPY_BASE_def WORKER_LOGIC_BASE_def
      WORKER_TAIL_BASE_def WORKER_WITNESS_def WORKER_COPY_WITNESS_def WORKER_LOGIC_WITNESS_def WORKER_TAIL_WITNESS_def)

lemma resident_pins_core: "all_hold words resident_pins \<longleftrightarrow> all_hold words resident_core"
  unfolding resident_pins_def resident_core_def by (auto dest: full_worker_parts)

text \<open>There is one resident report.  It is returned exactly for the images that
  hold the words of every resident span, whatever else they hold, and every other image is refused; and
  the spans agree with each other, so that some image is accepted.\<close>

theorem resident_report_exact:
  "\<exists>report. (\<forall>words. (resident_report words = Inr report) = all_hold words resident_pins)
    \<and> (\<forall>words. returns (resident_report words) = all_hold words resident_pins)
    \<and> (\<exists>words. resident_report words = Inr report)"
proof -
  obtain r where r: "\<forall>words. (resident_report words = Inr r \<longleftrightarrow> all_hold words resident_pins)
      \<and> (returns (resident_report words) \<longleftrightarrow> all_hold words resident_pins)"
    using resident_pinned unfolding pinned_def by blast
  have "all_hold (span_image resident_core) resident_pins"
    unfolding resident_pins_core by (rule span_image_all_hold [OF resident_core_disjoint])
  then show ?thesis using r by blast
qed

end
