(* ===== verification/Mu4_Revision.thy ===== *)
theory Mu4_Revision
  imports Mu4_Audit
begin

text \<open>
  The comparison of two revisions of the playback image and the words it expects: merging the pinned
  spans never conflicts, and a candidate is accepted only with one changed operand.
\<close>

section \<open>Merging spans into a dictionary\<close>

definition span_addresses :: "span list \<Rightarrow> int set" where
  "span_addresses spans = (\<Union>(base, ws) \<in> set spans. {base..<base + int (length ws)})"

lemma span_addresses_simps [simp]:
  "span_addresses [] = {}"
  "span_addresses ((base, ws) # spans) = {base..<base + int (length ws)} \<union> span_addresses spans"
  by (auto simp: span_addresses_def)

text \<open>A dictionary lies inside an image when the image holds all its entries.\<close>

definition inside :: "word_image \<Rightarrow> word_image \<Rightarrow> bool" where
  "inside expected words \<longleftrightarrow> (\<forall>a w. map_of expected a = Some w \<longrightarrow> map_of words a = Some w)"

lemma inside_set: "inside expected words \<Longrightarrow> map_of words a = Some w \<Longrightarrow> inside (dict_set a w expected) words"
  by (simp add: inside_def)

lemma expect_span_inside:
  assumes "holds words a ws" "inside expected words" "dict_wf expected"
  shows "\<exists>merged. expect_span expected a ws = Inr merged \<and> inside merged words \<and> dict_wf merged
    \<and> fst ` set merged = fst ` set expected \<union> {a..<a + int (length ws)}"
  using assms
proof (induction expected a ws rule: expect_span.induct)
  case (2 expected a w ws)
  have w: "map_of words a = Some w" "holds words (a + 1) ws" using "2.prems"(1) by auto
  have ext: "inside (dict_set a w expected) words" "dict_wf (dict_set a w expected)"
    using inside_set [OF "2.prems"(2) w(1)] "2.prems"(3) by simp_all
  have "\<exists>merged. expect_span (dict_set a w expected) (a + 1) ws = Inr merged \<and> inside merged words \<and> dict_wf merged
    \<and> fst ` set merged = fst ` set (dict_set a w expected) \<union> {a + 1..<a + 1 + int (length ws)}"
  proof (cases "map_of expected a")
    case None
    then show ?thesis using "2.IH"(1) w(2) ext by blast
  next
    case (Some v)
    then have "v = w" using "2.prems"(2) w(1) by (auto simp: inside_def)
    then show ?thesis using "2.IH"(2) Some w(2) ext by blast
  qed
  moreover have "expect_span expected a (w # ws) = expect_span (dict_set a w expected) (a + 1) ws"
    using "2.prems"(2) w(1) by (auto simp: inside_def split: option.splits)
  moreover have "insert a {a + 1..<a + 1 + int (length ws)} = {a..<a + int (length (w # ws))}" by auto
  ultimately show ?case by (auto simp: keys_dict_set)
qed simp

lemma expect_spans_inside:
  assumes "all_hold words spans" "inside expected words" "dict_wf expected"
  shows "\<exists>merged. rfold (\<lambda>expected (base, ws). expect_span expected base ws) expected spans = Inr merged
    \<and> inside merged words \<and> dict_wf merged \<and> fst ` set merged = fst ` set expected \<union> span_addresses spans"
  using assms
proof (induction spans arbitrary: expected)
  case (Cons span spans)
  obtain base ws where s: "span = (base, ws)" by (cases span)
  have hold: "holds words base ws" "all_hold words spans" using Cons.prems(1) s by auto
  obtain merged where m: "expect_span expected base ws = Inr merged" "inside merged words" "dict_wf merged"
      "fst ` set merged = fst ` set expected \<union> {base..<base + int (length ws)}"
    using expect_span_inside [OF hold(1) Cons.prems(2,3)] by blast
  from Cons.IH [OF hold(2) m(2,3)] show ?case using m(1,4) s by (auto simp: Un_assoc)
qed simp

lemma merged_iff:
  assumes "all_hold words spans" "inside merged words" "dict_wf merged" "fst ` set merged = span_addresses spans"
  shows "list_all (\<lambda>(a, w). map_of img a = Some w) merged \<longleftrightarrow> all_hold img spans"
proof -
  have look: "map_of merged a = map_of words a" if "a \<in> span_addresses spans" for a
  proof -
    have "\<exists>w. map_of merged a = Some w" using that assms(4) by (metis map_of_eq_None_iff not_None_eq)
    then show ?thesis using assms(2) by (auto simp: inside_def)
  qed
  have word: "map_of words (base + int i) = Some (ws ! i)" "base + int i \<in> span_addresses spans"
    if "(base, ws) \<in> set spans" "i < length ws" for base ws i
  proof -
    have "holds words base ws" using that(1) assms(1) by (auto simp: all_hold_def list_all_iff)
    then show "map_of words (base + int i) = Some (ws ! i)" using that(2) by (simp add: holds_iff)
    have "base + int i \<in> {base..<base + int (length ws)}" using that(2) by simp
    then show "base + int i \<in> span_addresses spans" using that(1) unfolding span_addresses_def by blast
  qed
  have "list_all (\<lambda>(a, w). map_of img a = Some w) merged \<longleftrightarrow> (\<forall>a \<in> span_addresses spans. map_of img a = map_of merged a)"
    using assms(3,4) by (force simp: list_all_iff dict_wf_iff)
  also have "\<dots> \<longleftrightarrow> (\<forall>(base, ws) \<in> set spans. \<forall>i < length ws. map_of img (base + int i) = Some (ws ! i))"
  proof (intro iffI ballI)
    fix span assume all: "\<forall>a \<in> span_addresses spans. map_of img a = map_of merged a" and "span \<in> set spans"
    then show "case span of (base, ws) \<Rightarrow> \<forall>i < length ws. map_of img (base + int i) = Some (ws ! i)"
      using word look by (cases span) auto
  next
    fix a assume all: "\<forall>(base, ws) \<in> set spans. \<forall>i < length ws. map_of img (base + int i) = Some (ws ! i)"
      and a: "a \<in> span_addresses spans"
    then obtain base ws where b: "(base, ws) \<in> set spans" "base \<le> a" "a < base + int (length ws)"
      by (auto simp: span_addresses_def)
    define i where "i = nat (a - base)"
    have i: "a = base + int i" "i < length ws" using b by (auto simp: i_def)
    then show "map_of img a = map_of merged a" using all b(1) word [OF b(1) i(2)] look [of a] by auto
  qed
  also have "\<dots> \<longleftrightarrow> all_hold img spans" by (auto simp: all_hold_def list_all_iff holds_iff)
  finally show ?thesis .
qed

section \<open>A sample of both revisions\<close>

text \<open>All words that the comparison pins, merged into regions; the operand at \<open>0x2958b\<close> is left open.\<close>

definition revision_regions :: "int \<Rightarrow> span list" where
  "revision_regions operand =
     [(0xc70c, [2, 0xa30b]), (0x20182, [0x6b82, 0xffff, 0x108a, 0xfa45, 0x18f, 0x718a, 0x13, 0x4a12, 0xe734,
      0xf074, 0x478, 0x8a12, 0xf495]), (0x201b3, [0xf7b8, 0x718a, 0x13, 0x6d8a, 0x1a92, 0xf540, 0x8093, 0x8293,
      0x1283, 0x809a, 0x6dea, 3, 0x1292, 0xf845, 0x1c7, 0x4a12, 0x6d8a, 0xf074, 0x198, 0x8a12, 0x7192, 0x13,
      0x6d92, 0x6b83, 1, 0xe723]), (0x2044a, [0xf6be, 0x8812, 0xf495, 0xf495, 0xf274, 0x182, 0x6dea, 0x16,
      0xf7be, 0xf4e4, 0xf6be, 0x8812, 0xf495, 0xf495, 0xf495, 0xf495, 0x6dea, 0x13, 0x4492, 0xf074, 0x1b3,
      0xf7be, 0xf4e4, 0xf6be, 0x8812, 0xf495, 0xf495, 0xf274, 0x182, 0x6dea, 6, 0xf7be, 0xf4e4, 0xf6be, 0x8812,
      0xf495, 0xf495, 0xf495, 0xf495, 0x4482, 0xf274, 0x1b3, 0x6dea, 4, 0xf7be, 0xf4e4]), (0x204a6, [0xf982,
      0x44a]), (0x204bc, [0xf982, 0x46b]), (0x204c1, [0x10e1, 6, 0xf845, 0x4d2, 0x44f8, 0x15d9, 0x3ce1, 0x16,
      0x82f8, 0x12, 0xf495, 0xf495, 0x6c82, 0x4d2, 0x76f8, 0xaa56, 1, 0x10f8, 0xaa56, 0xf845, 0x5ae]),
      (0x20508, [0xf982, 0x461]), (0x20545, [0x10f8, 0xaa5a, 0xf982, 0x989d, 0x10f8, 0xaa5b, 0xf982, 0x989d,
      0x10f8, 0xaa5a, 0xf982, 0x98a6, 0xf495, 0x4808, 0xf845, 0x586, 0x10f8, 0x1310, 0xf845, 0x580, 0x10f8,
      0x15e9, 0xf982, 0x96ac, 0x10f8, 0x15e9, 0x7716, 0, 0xf982, 0x973c, 0x8812, 0xf495, 0xf495, 0x6c82, 0x56a,
      0x7716, 1, 0x11e1, 0x16, 0xe800, 0xf84c, 0x570, 0xe801, 0x4916, 0xf2a0, 0x10f8, 8, 0xf845, 0x580, 0x10f8,
      0x15e7, 0xf982, 0x969e, 0x76f8, 0x1310, 0, 0x76f8, 0x12fa, 1, 0x4811, 0xf982, 0x46b, 0x76f8, 0xaa55, 0]),
      (0x2059c, [0xf982, 0x46b]), (0x205f3, [0xf982, 0x454]), (0x27058, [9, 0xd797, 0, 0, 0x800, 0xaa85, 0xd7b0,
      0, 0, 0xd7ac, 0x54f]), (0x27887, [0x76f8, 0xaa1a, 1]), (0x27a99, [0xf982, 0x44a]), (0x27a9c, [0xf982,
      0x454]), (0x27a9f, [0xf982, 0x461]), (0x28fe6, [0x10f8, 0xaaa2, 0xf845, 0x8fed, 0x4811, 0xf982, 0x46b,
      0x4811, 0xf982, 0x461, 0x76f8, 0xaaa2, 1, 0x76f8, 0xaaa4, 0, 0x76f8, 0xaaa3, 0]), (0x29321, [0x7211,
      0x15d9]), (0x29332, [0xf982, 0x44a, 0x76f8, 0x15d9, 1]), (0x2935a, [0xf982, 0x454, 0x76f8, 0x15d9, 0]),
      (0x293b0, [0x7211, 0x15d9, 0x4811, 0x1ae6, 0x16, 0xf845, 0x940b, 0x10f8, 0x15d8, 0xf844, 0x93be, 0x76f8,
      0x15d8, 1, 0x6c81, 0x93c6, 0x4816, 0xf982, 0x44a, 0x76f8, 0x15d9, 1]), (0x293cf, [0x8811, 0x71e6, 0x12,
      0xba9c, 0xf020, 0x15ee, 0x8000, 0x10f8, 0x15eb, 0xf982, 0x9873, 0x10f8, 0x15f0, 0x6ff8, 0x15f0, 0xc81,
      0x6c81, 0x93f1, 0x76f8, 0x15d9, 0, 0x76f8, 0x15f1, 1, 0x10f8, 0x15ef, 0x6fe6, 0x13, 0xc81, 0x4816, 0xf982,
      0x454, 0xf073, 0x93fe, 0x6ce1, 0xfffe, 0x93fe, 0x10f8, 0x15ea, 0xf982, 0x9885, 0x10f8, 0x15eb, 0xf982,
      0x9876, 0xf982, 0x61e, 0x10f8, 0x15e9, 0xf982, 0x96ac, 0xf073, 0x940b]), (0x29438, [0x1004, 0x11f8, 8,
      0xf310, 0x11, 0xf84d, 0x9471, 0x11f8, 8, 0xf310, 0x16, 0xf84d, 0x9458, 0x10f8, 8, 0xf010, 0x17, 0xf844,
      0x95af, 0x7105, 0xaa1a, 0x7604, 0x8017, 0x4818, 0x7600, 1, 0xf000, 4, 0xf982, 0x929c, 0xf073, 0x95af]),
      (0x29471, [0x1005, 0x8066, 0x7107, 0x11, 0x7108, 0x16, 0x7604, 0x8011, 0x7109, 0xaa1e, 0x7600, 1, 0x4818,
      0xf000, 4, 0xf982, 0x929c, 0x76f8, 0xaa1b, 0]), (0x294a7, [0x56f8, 0x371a, 0x4e6a, 0xf0ff, 0x4e6c, 0x4ef8,
      0xaa22]), (0x294bb, [0x566c, 0xf7b8, 0x11f8, 0x11, 0x53f8, 0xa9f6, 0xf3e0, 0xf520, 0xf84a, 0x94ea, 0xf6b8,
      0xf495, 0x566a, 0x54f8, 0xa9f6, 0xf847, 0x94fb, 0x10f8, 0x3733, 0xf845, 0x94d6, 0xf062, 2, 0xf040, 0x95cd,
      0xf073, 0x94da, 0xf062, 2, 0xf040, 0x95de, 0x1166, 0x7001, 0x11, 0x7602, 0x3aea, 0x8100, 0xf982, 0x92cc,
      0x8812, 0xf020, 0x36b0, 0x806e, 0x6c82, 0x94fd]), (0x294ea, [0x566c, 0x8f8, 0xa9f7, 0x8811, 0x76f8,
      0xaa1c, 1, 0x566a, 0x4ef8, 0xa9f6, 0xf073, 0x94fb, 0x566a, 0x4ef8, 0xa9f6, 0x7711, 0, 0x7712, 1, 0x60f8,
      0xaa1a, 1, 0xf830, 0x956f, 0xf7b8, 0x10f8, 0x11, 0x4e68, 0x10f8, 0x12, 0xf845, 0x953e, 0x56f8, 0x3726,
      0x4ef8, 0xa9f6, 0x76f8, 0xaa1c, 0, 0x7602, 0x3aea, 0x4e00, 0xf020, 0x3708, 0xf980, 0x2092, 0x7166, 0x12,
      0x10f8, 0x3733, 0xf845, 0x9524, 0xf062, 2, 0xf040, 0x95cd, 0xf073, 0x9528, 0xf062, 2, 0xf040, 0x95de,
      0xf120, 0x3aea, 0x7000, 0x12, 0x7001, 0x11, 0x8102, 0xf982, 0x92cc, 0xf120, 0x36b0, 0x816e, 0x10f8, 8,
      0xf845, 0x953e, 0x7600, 0, 0xf020, 0x5a5, 0xf982, 0x91c2, 0x5668, 0x50f8, 0xa9f6, 0x4e68, 0x7604, 0x12,
      0x7005, 0x11, 0x10f8, 0x16, 0xf844, 0x954c, 0x7716, 0xffff, 0x7006, 0x16, 0x7007, 0xaa1d, 0x106e, 0xf000,
      0x7a, 0x7601, 8, 0x8000, 0x4818, 0xf000, 8, 0xf982, 0x99cc, 0x7010, 0xaa1c, 0xf6b8, 0xf495, 0x5668,
      0x8011, 0xf0f0, 0x8012, 0x7600, 0xf, 0x4818, 0xf000, 4, 0xf982, 0x92a7, 0x76f8, 0xaa1d, 0, 0xf073, 0x95a8,
      0x60f8, 0x373e, 4, 0xf820, 0x959d, 0xf7b8, 0x7212, 0x3742, 0x10f8, 0x12, 0xf010, 1, 0xf845, 0x958e,
      0x6ce2, 0xfffe, 0x958e, 0x76f8, 0x373e, 2, 0x4818, 0x7600, 1, 0x7601, 0x1a, 0xf000, 0x14, 0xf983, operand,
      0xf073, 0x9591, 0x76f8, 0x373e, 5, 0xe801, 0xf982, 0x9189, 0x7600, 1, 0xf020, 0x3aea, 0xf980, 0x2082,
      0xe800, 0xf980, 0x2080, 0x7604, 0x16, 0x7605, 9, 0x4818, 0x7600, 2, 0xf000, 4, 0xf982, 0x92a7]),
      (0x2973c, [0x4a11, 0xeeff, 0x8811, 0xf495, 0xf495, 0x10e1, 1, 0x881, 0xee01, 0x8a11, 0xf4e4]),
      (0x29873, [0xe909, 0xf882, 0x98b8, 0xe90b, 0xf882, 0x98b8]), (0x29885, [0xe90c, 0xf882, 0x98b8]),
      (0x2989d, [0xe90b, 0xf882, 0x98b8, 0xe90c, 0xf882, 0x98b8, 0xe90d, 0xf882, 0x98b8, 0xe90e, 0xf882,
      0x98b8]), (0x2a30b, [0x4a11, 0xeeff, 0x8811, 0xf495, 0xf495, 0x10e1, 9, 0xee01, 0x8a11, 0xf4e4])]"

text \<open>A span lies in one of the regions.\<close>

definition covers :: "span list \<Rightarrow> span \<Rightarrow> bool" where
  "covers regions span = (case span of (base, ws) \<Rightarrow>
     list_ex (\<lambda>(start, rs). if start \<le> base \<and> base < start + int (length rs)
       then take (length ws) (drop (nat (base - start)) rs) = ws else False) regions)"

lemma covers_holds:
  assumes "disjoint_spans regions" "covers regions (base, ws)"
  shows "holds (span_image regions) base ws"
proof -
  obtain start rs where r: "(start, rs) \<in> set regions" "start \<le> base"
      "take (length ws) (drop (nat (base - start)) rs) = ws"
    using assms(2) by (auto simp: covers_def list_ex_iff split: if_splits)
  define k where "k = nat (base - start)"
  have ws: "take (length ws) (drop k rs) = ws" using r(3) by (simp add: k_def)
  have len: "length ws \<le> length rs - k" using arg_cong [OF ws, of length] by simp
  have "map_of (span_image regions) (base + int i) = Some (ws ! i)" if "i < length ws" for i
  proof -
    have "k + i < length rs" using that len by simp
    then have "map_of (span_image regions) (start + int (k + i)) = Some (rs ! (k + i))"
      using span_image_holds [OF assms(1) r(1)] unfolding holds_iff by blast
    moreover have a: "start + int (k + i) = base + int i" using r(2) by (simp add: k_def)
    moreover have "ws ! i = rs ! (k + i)" using that len by (subst ws [symmetric]) simp
    ultimately show ?thesis by (simp only: a)
  qed
  then show ?thesis by (simp add: holds_iff)
qed

lemma covers_all_hold: "disjoint_spans regions \<Longrightarrow> list_all (covers regions) spans \<Longrightarrow> all_hold (span_image regions) spans"
  using covers_holds by (fastforce simp: all_hold_def list_all_iff)

lemma revision_disjoint: "disjoint_spans (revision_regions operand)"
  by (simp add: revision_regions_def)

lemmas final_tables = final_input_spans_def PLAYBACK_FINAL_INPUT_WITNESSES_def PLAYBACK_CLEANUP_INGRESS_def
  PLAYBACK_REFILL_CONTROL_def REL_CLEANUP_BASE_def REL_CLEANUP_WITNESS_def span_of_def

lemma final_covered: "list_all (covers (revision_regions 0x9005)) final_input_spans"
  by (simp add: final_tables covers_def revision_regions_def)

lemma final_inside: "all_hold (span_image (revision_regions 0x9005)) final_input_spans"
  by (rule covers_all_hold [OF revision_disjoint final_covered])

lemma final_words:
  obtains expected where "playback_final_input_words = Inr expected" "dict_wf expected"
    "fst ` set expected = span_addresses final_input_spans"
    "\<And>words. list_all (\<lambda>(a, w). map_of words a = Some w) expected \<longleftrightarrow> all_hold words final_input_spans"
proof -
  obtain merged where m: "playback_final_input_words = Inr merged"
      "inside merged (span_image (revision_regions 0x9005))" "dict_wf merged"
      "fst ` set merged = fst ` set [] \<union> span_addresses final_input_spans"
    using expect_spans_inside [OF final_inside, of "[]"] by (auto simp: playback_final_input_words_def inside_def)
  then have keys: "fst ` set merged = span_addresses final_input_spans" by simp
  show thesis by (rule that [OF m(1,3) keys]) (rule merged_iff [OF final_inside m(2,3) keys])
qed

text \<open>The ten spans of the final input, although two pairs of them overlap,
  never conflict: merging them into one dictionary succeeds, with distinct keys, and an image passes the
  test against the dictionary exactly when it holds every span.\<close>

theorem final_input_words_agree:
  "\<exists>expected. playback_final_input_words = Inr expected \<and> dict_wf expected
    \<and> (\<forall>words. list_all (\<lambda>(a, w). map_of words a = Some w) expected = all_hold words final_input_spans)"
  using final_words by metis

section \<open>An accepted candidate\<close>

definition revision_spans :: "span list" where
  "revision_spans = PLAYBACK_CLEANUP_INGRESS @ WORKER_RESERVATION_WITNESSES @ CONTEXT_LANE_WITNESSES
     @ EXCHANGE_PUBLICATION_WITNESSES @ [(DECODER_RETURN_BASE, DECODER_RETURN_WITNESS)] @ DECODER_RETURN_WRAPPERS"

lemma checker_pins:
  "decode_playback_cleanup_ingress words = Inr a \<Longrightarrow> all_hold words PLAYBACK_CLEANUP_INGRESS"
  "decode_worker_reservation words = Inr b \<Longrightarrow> all_hold words WORKER_RESERVATION_WITNESSES"
  "decode_context_lanes words = Inr c \<Longrightarrow> all_hold words CONTEXT_LANE_WITNESSES"
  "decode_exchange_publication words = Inr d \<Longrightarrow> all_hold words EXCHANGE_PUBLICATION_WITNESSES"
  "decode_decoder_return_dispatch words = Inr e \<Longrightarrow>
     all_hold words ([(DECODER_RETURN_BASE, DECODER_RETURN_WITNESS)] @ DECODER_RETURN_WRAPPERS)"
  unfolding decode_playback_cleanup_ingress_def decode_worker_reservation_def decode_context_lanes_def
    decode_exchange_publication_def decode_decoder_return_dispatch_def Let_def
  by (simp_all only: ensure_Inr need_Inr need_at_Inr)

lemma revision_check_each:
  assumes "rmap_list (revision_check reference candidate) checks = Inr unchanged" "(name, checker) \<in> set checks"
  shows "\<exists>l r. checker reference = Inr l \<and> checker candidate = Inr r \<and> without_scan l = without_scan r"
  using assms
proof (induction checks arbitrary: unchanged)
  case (Cons entry entries)
  then show ?case by (auto simp: rbind_eq_Inr revision_check_def split: if_splits)
qed simp

lemma revision_checks:
  assumes "rmap_list (revision_check reference candidate) revision_checkers = Inr unchanged"
  shows "all_hold reference revision_spans" "all_hold candidate revision_spans"
proof -
  note all = revision_check_each [OF assms]
  have "all_hold words revision_spans" if "words \<in> {reference, candidate}" for words
  proof -
    have "\<exists>r. checker words = Inr r" if "(name, checker) \<in> set revision_checkers" for name checker
      using all [OF that] \<open>words \<in> {reference, candidate}\<close> by auto
    note run = this
    have "(''decode_playback_cleanup_ingress'', decode_playback_cleanup_ingress) \<in> set revision_checkers"
      "(''decode_worker_reservation'', decode_worker_reservation) \<in> set revision_checkers"
      "(''decode_context_lanes'', decode_context_lanes) \<in> set revision_checkers"
      "(''decode_exchange_publication'', decode_exchange_publication) \<in> set revision_checkers"
      "(''decode_decoder_return_dispatch'', decode_decoder_return_dispatch) \<in> set revision_checkers"
      unfolding revision_checkers_def by (simp_all only: list.set insert_iff simp_thms)
    note run [OF this(1)] run [OF this(2)] run [OF this(3)] run [OF this(4)] run [OF this(5)]
    then obtain r1 r2 r3 r4 r5 where "decode_playback_cleanup_ingress words = Inr r1" "decode_worker_reservation words = Inr r2"
      "decode_context_lanes words = Inr r3" "decode_exchange_publication words = Inr r4"
      "decode_decoder_return_dispatch words = Inr r5" by blast
    from checker_pins(1) [OF this(1)] checker_pins(2) [OF this(2)] checker_pins(3) [OF this(3)]
      checker_pins(4) [OF this(4)] checker_pins(5) [OF this(5)]
    show ?thesis unfolding revision_spans_def all_hold_simps(3) by blast
  qed
  then show "all_hold reference revision_spans" "all_hold candidate revision_spans" by auto
qed

lemma all_hold_agree:
  assumes "all_hold words spans" "all_hold words' spans" "a \<in> span_addresses spans"
  shows "map_of words a = map_of words' a"
proof -
  obtain base ws where b: "(base, ws) \<in> set spans" "base \<le> a" "a < base + int (length ws)"
    using assms(3) by (auto simp: span_addresses_def)
  define i where "i = nat (a - base)"
  have i: "a = base + int i" "i < length ws" using b by (auto simp: i_def)
  have "holds words base ws" "holds words' base ws" using assms(1,2) b(1) by (auto simp: all_hold_def list_all_iff)
  then show ?thesis using i by (simp add: holds_iff)
qed

lemma single_filter:
  assumes "filter P xs = [x]"
  shows "x \<in> set xs" "y \<in> set xs \<Longrightarrow> P y \<Longrightarrow> y = x" "P x"
proof -
  have "set (filter P xs) = {x}" using assms by simp
  then show "x \<in> set xs" "y \<in> set xs \<Longrightarrow> P y \<Longrightarrow> y = x" "P x" by auto
qed

lemma differences_exact:
  assumes "revision_differences reference candidate expected = [(d, x, y)]" "a \<in> fst ` set expected"
  shows "map_of candidate a = (if a = d then y else map_of reference a)"
proof -
  let ?P = "\<lambda>(a, w :: int). map_of reference a \<noteq> map_of candidate a"
  obtain entry where e: "filter ?P expected = [entry]" "(d, x, y) = (fst entry, map_of reference (fst entry), map_of candidate (fst entry))"
    using assms(1) by (cases "filter ?P expected") (auto simp: revision_differences_def)
  obtain w where w: "(a, w) \<in> set expected" using assms(2) by auto
  show ?thesis
  proof (cases "a = d")
    case False
    then have "(a, w) \<noteq> entry" using e(2) by auto
    then have "\<not> ?P (a, w)" using single_filter(2) [OF e(1) w] by blast
    then show ?thesis using False by simp
  qed (use e(2) in simp)
qed

text \<open>C33: A candidate that the comparison accepts holds the same word as the reference at
  every address that any of the checks pins, except for the operand at \<open>0x2958b\<close>, which must have changed
  from \<open>0x9005\<close> to \<open>0x9019\<close>.\<close>

theorem revision_difference:
  assumes "compare_playback_revision_words reference candidate = Inr report"
    and "a \<in> span_addresses (revision_spans @ final_input_spans)"
  shows "map_of candidate a = (if a = 0x2958b then Some 0x9019 else map_of reference a)"
proof -
  obtain unchanged expected where checks: "rmap_list (revision_check reference candidate) revision_checkers = Inr unchanged"
      and e: "playback_final_input_words = Inr expected"
      and d: "revision_differences reference candidate expected = [(0x2958b, Some 0x9005, Some 0x9019)]"
    using assms(1) unfolding compare_playback_revision_words_def by (auto simp only: rbind_eq_Inr ensure_Inr demand_Inr)
  have keys: "fst ` set expected = span_addresses final_input_spans"
    using final_words e by (metis sum.inject(2))
  show ?thesis
  proof (cases "a \<in> span_addresses final_input_spans")
    case True
    then show ?thesis using differences_exact [OF d] keys by auto
  next
    case False
    then have a: "a \<in> span_addresses revision_spans" using assms(2) by (auto simp: span_addresses_def)
    have "(0x2958b, Some 0x9005, Some 0x9019) \<in> set (revision_differences reference candidate expected)"
      unfolding d by simp
    then have "0x2958b \<in> span_addresses final_input_spans"
      unfolding keys [symmetric] revision_differences_def by (auto intro: rev_image_eqI)
    then have "a \<noteq> 0x2958b" using False by auto
    then show ?thesis using all_hold_agree [OF revision_checks(1) [OF checks] revision_checks(2) [OF checks] a] by simp
  qed
qed

section \<open>A pair of accepted revisions\<close>

lemma apart_keys: "apart start stop spans \<Longrightarrow> fst ` set (span_image spans) \<inter> {start..<stop} = {}"
proof (induction start stop spans rule: apart.induct)
  case (2 start stop base ws spans)
  have "fst ` set (zip [base..base + int (length ws) - 1] ws) \<subseteq> {base..<base + int (length ws)}"
    by (auto dest!: set_zip_leftD)
  then show ?case using 2 by (fastforce simp: image_Un)
qed simp

lemma span_image_wf: "disjoint_spans spans \<Longrightarrow> dict_wf (span_image spans)"
proof (induction spans rule: disjoint_spans.induct)
  case (2 base ws spans)
  have keys: "map fst (zip [base..base + int (length ws) - 1] ws) = [base..base + int (length ws) - 1]"
    by simp
  have "distinct (map fst (span_image spans))" using 2 by (simp add: dict_wf_def)
  moreover have "set [base..base + int (length ws) - 1] \<inter> fst ` set (span_image spans) = {}"
    using apart_keys [of base "base + int (length ws)" spans] 2(2) by auto
  ultimately show ?case unfolding dict_wf_def span_image.simps map_append keys distinct_append by simp
qed simp

text \<open>Immediate calls of a target found through the literal.\<close>

lemma call_hits_via:
  assumes "dict_wf words"
  shows "call_hits ops target words
    = filter (\<lambda>a. \<exists>v \<in> set ops. map_of words a = Some v) (map (\<lambda>a. a - 1) (hits target words))" (is "?l = ?r")
proof (rule sorted_distinct_set_unique)
  have d: "distinct (map fst (filter P words))" for P
    using assms by (auto simp: dict_wf_def intro: distinct_map_filter)
  have mono: "sorted (map (\<lambda>a. a - 1 :: int) xs)" if "sorted xs" for xs :: "int list"
    using that by (induction xs) auto
  show "sorted ?l" by (simp add: call_hits_def)
  show "distinct ?l" by (simp add: call_hits_def d)
  show "sorted ?r" by (intro sorted_wrt_filter mono) (simp add: hits_def)
  have "distinct (hits target words)" by (simp add: hits_def d)
  then show "distinct ?r" by (simp add: distinct_map inj_on_def)
  show "set ?l = set ?r" using assms by (auto simp: call_hits_set hits_set image_iff)
qed

abbreviation r060 :: word_image where "r060 \<equiv> span_image (revision_regions 0x9005)"
abbreviation r061 :: word_image where "r061 \<equiv> span_image (revision_regions 0x9019)"

text \<open>Where a literal occurs in an image of spans, span by span.\<close>

fun run_hits :: "int \<Rightarrow> int \<Rightarrow> int list \<Rightarrow> int list" where
  "run_hits literal a [] = []"
| "run_hits literal a (w # ws) = (if w = literal then a # run_hits literal (a + 1) ws else run_hits literal (a + 1) ws)"

lemma run_hits_zip: "map fst (filter (\<lambda>(a, v). v = literal) (zip [base..base + int (length ws) - 1] ws)) = run_hits literal base ws"
proof (induction ws arbitrary: base)
  case (Cons w ws)
  have "[base..base + int (length (w # ws)) - 1] = base # [base + 1..base + 1 + int (length ws) - 1]"
    by (subst upto.simps) simp
  then show ?case using Cons.IH [of "base + 1"] by simp
qed simp

lemma hits_span_image: "hits literal (span_image spans) = sort (concat (map (\<lambda>(base, ws). run_hits literal base ws) spans))"
proof -
  have "map fst (filter (\<lambda>(a, v). v = literal) (span_image spans)) = concat (map (\<lambda>(base, ws). run_hits literal base ws) spans)"
    by (induction spans rule: span_image.induct) (simp_all add: run_hits_zip)
  then show ?thesis by (simp add: hits_def)
qed

lemma word_count_span_image: "word_count (span_image spans) = pin_words spans"
  by (induction spans rule: span_image.induct) (simp_all add: word_count_def pin_words_def)

lemma revision_literals:
  "hits 0x15d9 r060 = [0x204c6, 0x29322, 0x29335, 0x2935d, 0x293b1, 0x293c4, 0x293e2]"
  "hits 0x15d9 r061 = [0x204c6, 0x29322, 0x29335, 0x2935d, 0x293b1, 0x293c4, 0x293e2]"
  "hits 0xd7ac r060 = [0x27061]" "hits 0xd7ac r061 = [0x27061]"
  "hits 0xaa1a r061 = hits 0xaa1a r060"
  unfolding hits_span_image by (simp_all add: revision_regions_def)

lemma revision_count: "word_count r061 = word_count r060"
  unfolding word_count_span_image by (simp add: pin_words_def revision_regions_def)

lemma revision_targets:
  "hits 0x44a r060 = [0x204a7, 0x27a9a, 0x29333, 0x293c2]" "hits 0x44a r061 = [0x204a7, 0x27a9a, 0x29333, 0x293c2]"
  "hits 0x454 r060 = [0x205f4, 0x27a9d, 0x2935b, 0x293ee]" "hits 0x454 r061 = [0x205f4, 0x27a9d, 0x2935b, 0x293ee]"
  "hits 0x461 r060 = [0x20509, 0x27aa0, 0x28fef]" "hits 0x461 r061 = [0x20509, 0x27aa0, 0x28fef]"
  "hits 0x46b r060 = [0x204bd, 0x20582, 0x2059d, 0x28fec]" "hits 0x46b r061 = [0x204bd, 0x20582, 0x2059d, 0x28fec]"
  unfolding hits_span_image by (simp_all add: revision_regions_def)

lemma revision_covered: "list_all (covers (revision_regions operand)) revision_spans"
  by (simp add: revision_spans_def PLAYBACK_CLEANUP_INGRESS_def WORKER_RESERVATION_WITNESSES_def CONTEXT_LANE_WITNESSES_def
      CONTEXT_LANE_CALLS_def EXCHANGE_PUBLICATION_WITNESSES_def DECODER_RETURN_BASE_def DECODER_RETURN_WITNESS_def
      DECODER_RETURN_WRAPPERS_def SERVICE_GATE_BASE_def SERVICE_GATE_WITNESS_def covers_def revision_regions_def)

lemma revision_holds: "all_hold (span_image (revision_regions operand)) revision_spans"
  by (rule covers_all_hold [OF revision_disjoint revision_covered])

lemma all_hold_subset: "all_hold words spans \<Longrightarrow> set spans' \<subseteq> set spans \<Longrightarrow> all_hold words spans'"
  by (auto simp: all_hold_def list_all_iff)

lemma revision_lane_calls:
  assumes "all_hold words revision_spans" "dict_wf words"
    "hits 0x44a words = [0x204a7, 0x27a9a, 0x29333, 0x293c2]" "hits 0x454 words = [0x205f4, 0x27a9d, 0x2935b, 0x293ee]"
    "hits 0x461 words = [0x20509, 0x27aa0, 0x28fef]" "hits 0x46b words = [0x204bd, 0x20582, 0x2059d, 0x28fec]"
  shows "map (\<lambda>(target, _). (target, call_hits [0xf074, 0xf274, 0xf982, 0xfb82] target words)) CONTEXT_LANE_CALLS
    = CONTEXT_LANE_CALLS"
proof -
  have "all_hold words (concat (map (\<lambda>(target, sites). map (\<lambda>site. (site, [0xf982, target])) sites) CONTEXT_LANE_CALLS))"
    by (rule all_hold_subset [OF assms(1)])
       (unfold revision_spans_def CONTEXT_LANE_WITNESSES_def set_append list.set, blast)
  then show ?thesis
    by (simp add: CONTEXT_LANE_CALLS_def call_hits_via [OF assms(2)] assms(3-))
qed

lemmas revision_calls =
  revision_lane_calls [OF revision_holds span_image_wf [OF revision_disjoint] revision_targets(1,3,5,7)]
  revision_lane_calls [OF revision_holds span_image_wf [OF revision_disjoint] revision_targets(2,4,6,8)]

lemma revision_parts:
  assumes "all_hold words revision_spans"
  shows "all_hold words PLAYBACK_CLEANUP_INGRESS" "all_hold words WORKER_RESERVATION_WITNESSES"
    "all_hold words CONTEXT_LANE_WITNESSES" "all_hold words EXCHANGE_PUBLICATION_WITNESSES"
    "all_hold words ([(DECODER_RETURN_BASE, DECODER_RETURN_WITNESS)] @ DECODER_RETURN_WRAPPERS)"
  by (rule all_hold_subset [OF assms], unfold revision_spans_def set_append, blast)+

lemma need_pass: "all_hold words spans \<Longrightarrow> need words spans msg = Inr ()" "all_hold words spans \<Longrightarrow> need_at words spans msg = Inr ()"
  by simp_all

lemma ensure_pass: "ensure (Inr ()) m = m" "demand True msg = Inr ()"
  by (simp_all add: ensure_def demand_def)

lemmas revision_pass = revision_parts [OF revision_holds, THEN need_pass(1)] revision_parts [OF revision_holds, THEN need_pass(2)]

lemma cleanup_ingress_pass:
  "decode_playback_cleanup_ingress r061 = decode_playback_cleanup_ingress r060" "returns (decode_playback_cleanup_ingress r060)"
  by (simp_all only: decode_playback_cleanup_ingress_def revision_pass ensure_pass revision_literals revision_count sum.inject simp_thms)

lemma worker_reservation_pass:
  "decode_worker_reservation r061 = decode_worker_reservation r060" "returns (decode_worker_reservation r060)"
  by (simp_all only: decode_worker_reservation_def Let_def revision_pass ensure_pass revision_literals revision_count sum.inject simp_thms)

lemma context_lanes_pass:
  "decode_context_lanes r061 = decode_context_lanes r060" "returns (decode_context_lanes r060)"
  by (simp_all only: decode_context_lanes_def Let_def revision_pass ensure_pass revision_literals revision_count revision_calls sum.inject simp_thms)

lemma exchange_publication_pass:
  "decode_exchange_publication r061 = decode_exchange_publication r060" "returns (decode_exchange_publication r060)"
  by (simp_all only: decode_exchange_publication_def revision_pass ensure_pass sum.inject simp_thms)

lemma return_dispatch_pass:
  "decode_decoder_return_dispatch r061 = decode_decoder_return_dispatch r060" "returns (decode_decoder_return_dispatch r060)"
  by (simp_all only: decode_decoder_return_dispatch_def revision_pass ensure_pass sum.inject simp_thms)

lemma revision_checkers_pass: "\<exists>unchanged. rmap_list (revision_check r060 r061) revision_checkers = Inr unchanged"
proof -
  have pass: "\<exists>x. revision_check r060 r061 (name, checker) = Inr x"
    if same: "checker r061 = checker r060" and ret: "returns (checker r060)" for name checker
  proof -
    obtain rep where rep: "checker r060 = Inr rep" using ret by blast
    then have "checker r061 = Inr rep" using same by (simp only:)
    then show ?thesis using rep by (simp only: revision_check_def prod.case rbind_Inr simp_thms if_False) blast
  qed
  have all: "\<exists>x. revision_check r060 r061 entry = Inr x" if "entry \<in> set revision_checkers" for entry
    using that unfolding revision_checkers_def list.set insert_iff empty_iff
    by (elim disjE; (simp only:, intro pass cleanup_ingress_pass worker_reservation_pass context_lanes_pass
          exchange_publication_pass return_dispatch_pass)?; blast?)
  have "\<exists>unchanged. rmap_list f xs = Inr unchanged" if "\<forall>x \<in> set xs. \<exists>y. f x = Inr y"
    for f :: "string \<times> (word_image \<Rightarrow> json res) \<Rightarrow> (string \<times> json) res" and xs
    using that by (induction xs) auto
  then show ?thesis using all by blast
qed

lemma differ_only:
  assumes "dict_wf expected" "d \<in> fst ` set expected" "map_of reference d \<noteq> map_of candidate d"
    and "\<And>a. a \<noteq> d \<Longrightarrow> map_of candidate a = map_of reference a"
  shows "revision_differences reference candidate expected = [(d, map_of reference d, map_of candidate d)]"
proof -
  let ?P = "\<lambda>(a, w :: int). map_of reference a \<noteq> map_of candidate a"
  have "distinct (map fst (filter ?P expected))" using assms(1) by (simp add: dict_wf_def distinct_map_filter)
  moreover have "set (map fst (filter ?P expected)) = {d}" using assms(2,3,4) by force
  ultimately have "map fst (filter ?P expected) = [d]" by (intro singleton_list) auto
  then have "map (\<lambda>a. (a, map_of reference a, map_of candidate a)) (map fst (filter ?P expected))
    = [(d, map_of reference d, map_of candidate d)]" by simp
  then show ?thesis by (simp add: revision_differences_def comp_def case_prod_unfold)
qed

lemma r061_update: "r061 = map (\<lambda>(a, w). (a, if a = 0x2958b then 0x9019 else w)) r060"
  by (simp add: revision_regions_def)

lemma map_of_update_at: "map_of (map (\<lambda>(a, w). (a, if a = d then x else w)) ws) a
    = (if a = d then map_option (\<lambda>_. x) (map_of ws a) else map_of ws a)"
  by (induction ws) auto

lemma r060_operand: "map_of r060 0x2958b = Some 0x9005"
proof -
  have "all_hold r060 [(REL_CLEANUP_BASE, REL_CLEANUP_WITNESS)]"
    by (rule all_hold_subset [OF final_inside]) (unfold final_input_spans_def set_append list.set, blast)
  then show ?thesis by (simp add: REL_CLEANUP_BASE_def REL_CLEANUP_WITNESS_def)
qed

lemma r061_lookup: "map_of r061 a = (if a = 0x2958b then Some 0x9019 else map_of r060 a)"
  unfolding r061_update map_of_update_at
  by (cases "a = 0x2958b") (simp_all only: r060_operand option.map if_True if_False simp_thms)

lemma revisions_accepted: "\<exists>report. compare_playback_revision_words r060 r061 = Inr report"
proof -
  obtain unchanged where u: "rmap_list (revision_check r060 r061) revision_checkers = Inr unchanged"
    using revision_checkers_pass by blast
  obtain expected where e: "playback_final_input_words = Inr expected" "dict_wf expected"
      "fst ` set expected = span_addresses final_input_spans"
      "\<And>words. list_all (\<lambda>(a, w). map_of words a = Some w) expected \<longleftrightarrow> all_hold words final_input_spans"
    using final_words by metis
  have held: "list_all (\<lambda>(a, w). map_of r060 a = Some w) expected" using e(4) final_inside by blast
  then have f: "rmap (\<lambda>_. ()) (decode_playback_final_input r060) = Inr ()"
    unfolding decode_playback_final_input_def e(1) rbind_Inr by (simp only: demand_def if_True ensure_pass rmap_Inr)
  have d: "0x2958b \<in> fst ` set expected"
    unfolding e(3) by (simp add: final_input_spans_def REL_CLEANUP_BASE_def REL_CLEANUP_WITNESS_def span_addresses_def)
  have known: "list_all (\<lambda>(a, _). map_of r061 a \<noteq> None) expected"
    using held unfolding r061_lookup by (auto simp: list_all_iff)
  have diff: "revision_differences r060 r061 expected = [(0x2958b, Some 0x9005, Some 0x9019)]"
    using differ_only [OF e(2) d, of r060 r061] by (simp only: r061_lookup r060_operand if_True if_False) simp
  show ?thesis unfolding compare_playback_revision_words_def u e(1) rbind_Inr f ensure_pass
    using known diff by (simp only: demand_def if_True ensure_pass simp_thms) blast
qed

theorem revision_difference_witness:
  "map_of r061 0x2958b = (if (0x2958b :: int) = 0x2958b then Some 0x9019 else map_of r060 0x2958b)"
proof -
  obtain report where "compare_playback_revision_words r060 r061 = Inr report" using revisions_accepted by blast
  then show ?thesis
    by (rule revision_difference)
       (simp add: final_input_spans_def REL_CLEANUP_BASE_def REL_CLEANUP_WITNESS_def span_addresses_def)
qed

end
