(* ===== verification/Sip_Media.thy ===== *)
theory Sip_Media
  imports Py_Json
begin

text \<open>
  What the SIP bridge of \<open>tools/dct3_sip_bridge.py\<close> is built from: the speech codec of
  \<open>tools/gsm_fr_codec.py\<close> around the foreign library \<open>libgsm\<close>, which is a parameter; the bounded media
  queues between the emulator and the native endpoint; the reading of a caller from a remote URI and
  the messages that report a failed call.  Times are microseconds; the half words of a sample follow
  the little-endian order of the host.
\<close>

section \<open>The speech codec\<close>

text \<open>\<open>libgsm\<close>: whether it is found, \<open>gsm_create\<close> (\<^const>\<open>None\<close> for a null pointer), \<open>gsm_encode\<close> and
  \<open>gsm_decode\<close>, whose nonzero result is \<^const>\<open>None\<close>.\<close>

record 'g libgsm =
  gsm_found :: bool
  gsm_create :: "'g option"
  gsm_encode :: "'g \<Rightarrow> 16 word list \<Rightarrow> 'g \<times> bytes"
  gsm_decode :: "'g \<Rightarrow> bytes \<Rightarrow> 'g \<times> 16 word list option"

record 'g fr_codec =
  fr_encoder :: "'g option"
  fr_decoder :: "'g option"

definition new_codec :: "'g libgsm \<Rightarrow> 'g fr_codec res" where
  "new_codec lib =
     (if \<not> gsm_found lib then Inl (RuntimeError ''libgsm is required for the SIP media bridge'')
      else if gsm_create lib = None then Inl (RuntimeError ''libgsm state allocation failed'')
      else Inr \<lparr>fr_encoder = gsm_create lib, fr_decoder = gsm_create lib\<rparr>)"

definition codec_close :: "'g fr_codec \<Rightarrow> 'g fr_codec" where
  "codec_close c = c\<lparr>fr_encoder := None, fr_decoder := None\<rparr>"

text \<open>\<open>struct.unpack('=160h', pcm)\<close> and \<open>struct.pack('=160h', *samples)\<close>.\<close>

fun unpack_samples :: "bytes \<Rightarrow> 16 word list" where
  "unpack_samples (lo # hi # bs) = (ucast lo OR push_bit 8 (ucast hi)) # unpack_samples bs"
| "unpack_samples _ = []"

definition pack_samples :: "16 word list \<Rightarrow> bytes" where
  "pack_samples samples = concat (map (\<lambda>s. [ucast s, ucast (drop_bit 8 s)]) samples)"

text \<open>An array of \<open>n\<close> elements that the library fills.\<close>

definition filled :: "nat \<Rightarrow> 'a list \<Rightarrow> 'a :: zero list" where
  "filled n xs = take n xs @ replicate (n - length xs) 0"

definition codec_encode :: "'g libgsm \<Rightarrow> 'g fr_codec \<Rightarrow> bytes \<Rightarrow> (bytes \<times> 'g fr_codec) res" where
  "codec_encode lib c pcm =
     (case fr_encoder c of
        None \<Rightarrow> Inl (RuntimeError ''codec is closed'')
      | Some g \<Rightarrow>
          if length pcm \<noteq> 320 then Inl (ValueError ''GSM-FR requires 160 signed 16-bit PCM samples'')
          else let (g, frame) = gsm_encode lib g (unpack_samples pcm) in
            Inr (filled 33 frame, c\<lparr>fr_encoder := Some g\<rparr>))"

definition codec_decode :: "'g libgsm \<Rightarrow> 'g fr_codec \<Rightarrow> bytes \<Rightarrow> (bytes \<times> 'g fr_codec) res" where
  "codec_decode lib c frame =
     (case fr_decoder c of
        None \<Rightarrow> Inl (RuntimeError ''codec is closed'')
      | Some g \<Rightarrow>
          if length frame \<noteq> 33 then Inl (ValueError ''GSM-FR frame must contain 33 bytes'')
          else case gsm_decode lib g frame of
              (g, None) \<Rightarrow> Inl (ValueError ''invalid GSM-FR frame'')
            | (g, Some samples) \<Rightarrow> Inr (pack_samples (filled 160 samples), c\<lparr>fr_decoder := Some g\<rparr>))"

section \<open>The media queues\<close>

record media_queues =
  mq_uplink :: "bytes list"
  mq_downlink :: "bytes list"
  mq_dropped :: int
  mq_transmitted :: int
  mq_received :: int
  mq_next_downlink_at :: int

definition new_queues :: media_queues where
  "new_queues = \<lparr>mq_uplink = [], mq_downlink = [], mq_dropped = 0, mq_transmitted = 0, mq_received = 0,
     mq_next_downlink_at = 0\<rparr>"

text \<open>\<open>put\<close> on a queue of at most eight frames: the new queue and whether the frame was dropped.\<close>

definition queue_put :: "bytes list \<Rightarrow> bytes \<Rightarrow> bytes list \<times> int" where
  "queue_put q pcm =
     (if length pcm \<noteq> 320 then (q, 0) else if length q < 8 then (q @ [pcm], 0) else (q, 1))"

definition put_uplink :: "bytes \<Rightarrow> media_queues \<Rightarrow> media_queues" where
  "put_uplink pcm m = (case queue_put (mq_uplink m) pcm of
     (q, d) \<Rightarrow> m\<lparr>mq_uplink := q, mq_dropped := mq_dropped m + d\<rparr>)"

definition put_downlink :: "bytes \<Rightarrow> media_queues \<Rightarrow> media_queues" where
  "put_downlink pcm m = (case queue_put (mq_downlink m) pcm of
     (q, d) \<Rightarrow> m\<lparr>mq_downlink := q, mq_dropped := mq_dropped m + d\<rparr>)"

definition take_downlink :: "int \<Rightarrow> media_queues \<Rightarrow> (bytes \<times> media_queues) res" where
  "take_downlink now m =
     (if now < mq_next_downlink_at m then Inl QueueEmpty
      else case mq_downlink m of
        [] \<Rightarrow> Inl QueueEmpty
      | pcm # q \<Rightarrow> Inr (pcm, m\<lparr>mq_downlink := q, mq_next_downlink_at := now + 20000\<rparr>))"

text \<open>The callbacks of the native port: a frame is fetched, or silence; a received audio frame is queued.\<close>

definition frame_requested :: "media_queues \<Rightarrow> bytes \<times> media_queues" where
  "frame_requested m = (case mq_uplink m of
     [] \<Rightarrow> (replicate 320 0, m)
   | pcm # q \<Rightarrow> (pcm, m\<lparr>mq_uplink := q, mq_transmitted := mq_transmitted m + 1\<rparr>))"

definition frame_received :: "bool \<Rightarrow> bytes \<Rightarrow> media_queues \<Rightarrow> media_queues" where
  "frame_received audio pcm m =
     (if audio \<and> length pcm = 320
      then let m = put_downlink pcm m in m\<lparr>mq_received := mq_received m + 1\<rparr> else m)"

section \<open>Callers and failures\<close>

definition is_digit_char :: "char \<Rightarrow> bool" where
  "is_digit_char c \<longleftrightarrow> 48 \<le> char_code c \<and> char_code c \<le> 57"

text \<open>\<open>re.fullmatch(r'sip:([0-9]{1,20})@[^<>\s]+', uri)\<close>; the greedy digits stop at the first other
  character, which must be the at sign.\<close>

definition sip_user :: "string \<Rightarrow> string option" where
  "sip_user uri =
     (if \<not> prefix ''sip:'' uri then None
      else let rest = drop 4 uri; number = takeWhile is_digit_char rest in
        case dropWhile is_digit_char rest of
          at # host \<Rightarrow>
            if at = CHR ''@'' \<and> 1 \<le> length number \<and> length number \<le> 20 \<and> host \<noteq> []
               \<and> list_all (\<lambda>c. c \<noteq> CHR ''<'' \<and> c \<noteq> CHR ''>'' \<and> \<not> is_space c) host
            then Some number else None
        | [] \<Rightarrow> None)"

text \<open>\<open>uri.rsplit(c, 1)[1]\<close> when \<open>c\<close> occurs.\<close>

definition after_last :: "char \<Rightarrow> string \<Rightarrow> string" where
  "after_last c s = rev (takeWhile (\<lambda>d. d \<noteq> c) (rev s))"

definition incoming_caller_of :: "string \<Rightarrow> string option" where
  "incoming_caller_of remote_uri =
     (let uri = strip remote_uri;
          uri = (if suffix ''>'' uri \<and> CHR ''<'' \<in> set uri then butlast (after_last CHR ''<'' uri) else uri)
      in sip_user uri)"

type_synonym identity = "json \<times> json"

definition sip_cause :: "int \<Rightarrow> int" where
  "sip_cause status = (case map_of
     [(403, 21), (404, 1), (408, 102), (480, 18), (486, 17), (500, 41), (503, 41), (600, 17), (603, 21), (604, 1)] status of
     Some c \<Rightarrow> c | None \<Rightarrow> 41)"

definition reply_base :: "identity \<Rightarrow> reply" where
  "reply_base identity = [(''epoch'', fst identity), (''request_id'', snd identity)]"

definition failure_messages :: "identity \<Rightarrow> int \<Rightarrow> reply list" where
  "failure_messages identity status =
     (let c = sip_cause status in
      [reply_base identity @ [(''type'', JStr ''outgoing_call_decision''),
         (''decision'', JStr (if c = 17 then ''busy'' else ''no_answer''))]] @
      (if c \<noteq> 17 then [reply_base identity @ [(''type'', JStr ''outgoing_call_terminate''), (''cause'', JInt c)]] else []))"

end
