(* ===== verification/Sip_Bridge.thy ===== *)
theory Sip_Bridge
  imports Sip_Media "HOL-Library.Char_ord" "HOL-Library.List_Lexorder"
begin

text \<open>
  The SIP call bridge of \<open>tools/dct3_sip_bridge.py\<close>.  One iteration of its loop polls the native
  endpoint, whose callbacks come as a list, answers at most one message of the emulator, drains the
  queued call events and pumps the downlink.  What the bridge does to its two sides is recorded, oldest
  first, in \<open>br_out\<close>: the messages sent, the native operations, the recorded samples and, as a record
  of what it was told, the call events it queued.  The native library is its callbacks and, where the
  code asks it, whether the current call is active; its operations and the socket's are taken to
  succeed.  Console output is left out.
\<close>

section \<open>Equality of decoded values\<close>

text \<open>\<open>==\<close> on decoded JSON: numbers compare by value and \<open>bool\<close> is a number, dictionaries compare
  without order.  A float that is no integer is one value here.\<close>

primrec canonical :: "json \<Rightarrow> json" where
  "canonical JNull = JNull"
| "canonical (JBool b) = JInt (of_bool b)"
| "canonical (JInt n) = JInt n"
| "canonical (JFloat f) = (case f of Some n \<Rightarrow> JInt n | None \<Rightarrow> JFloat None)"
| "canonical (JStr s) = JStr s"
| "canonical (JList vs) = JList (map canonical vs)"
| "canonical (JObj kvs) = JObj (sort_key fst (map (map_prod id canonical) kvs))"

definition json_eq :: "json \<Rightarrow> json \<Rightarrow> bool" where
  "json_eq v w \<longleftrightarrow> canonical v = canonical w"

definition same_identity :: "identity \<Rightarrow> identity \<Rightarrow> bool" where
  "same_identity i j \<longleftrightarrow> json_eq (fst i) (fst j) \<and> json_eq (snd i) (snd j)"

text \<open>\<open>identity == other\<close> where \<open>identity\<close> may be \<open>None\<close>.\<close>

definition is_identity :: "identity \<Rightarrow> identity option \<Rightarrow> bool" where
  "is_identity i j = (case j of None \<Rightarrow> False | Some k \<Rightarrow> same_identity i k)"

section \<open>State\<close>

datatype native_event = Invite string | Confirmed int | Disconnected int

datatype effect =
    Send reply
  | Dial string identity
  | Answer int
  | Refuse int
  | Hang_up
  | Record_uplink bytes
  | Record_downlink bytes
  | Queued_event identity native_event

record sip_endpoint =
  ep_events :: "(identity \<times> native_event) list"
  ep_call :: "(nat \<times> identity) option"
  ep_call_identity :: "identity option"
  ep_calls_made :: nat
  ep_media :: media_queues
  ep_incoming_epoch :: json
  ep_incoming_enabled :: bool
  ep_next_incoming_request :: int

record 'g sip_bridge =
  br_endpoint :: sip_endpoint
  br_identity :: "identity option"
  br_direction :: string
  br_epoch :: json
  br_decision :: bool
  br_connected :: bool
  br_blocked :: bool
  br_restored :: "identity option"
  br_restored_direction :: string
  br_registered :: bool
  br_completed :: int
  br_downlink_sequence :: json
  br_uplink_sequence :: int
  br_uplink_frames :: int
  br_downlink_frames :: int
  br_codec :: "'g fr_codec"
  br_out :: "effect list"

record sip_args =
  arg_destination :: string
  arg_once :: bool
  arg_calls :: int
  arg_require_frames :: int
  arg_record_pcm :: bool

definition new_endpoint :: sip_endpoint where
  "new_endpoint = \<lparr>ep_events = [], ep_call = None, ep_call_identity = None, ep_calls_made = 0,
     ep_media = new_queues, ep_incoming_epoch = JNull, ep_incoming_enabled = False,
     ep_next_incoming_request = 1\<rparr>"

text \<open>The recording loop of the source reuses the name \<open>direction\<close> and leaves \<open>'downlink'\<close> in it.\<close>

definition start_bridge :: "sip_args \<Rightarrow> 'g fr_codec \<Rightarrow> 'g sip_bridge" where
  "start_bridge a c = \<lparr>br_endpoint = new_endpoint, br_identity = None,
     br_direction = (if arg_record_pcm a then ''downlink'' else ''outgoing''), br_epoch = JNull,
     br_decision = False, br_connected = False, br_blocked = False, br_restored = None,
     br_restored_direction = '''', br_registered = False, br_completed = 0,
     br_downlink_sequence = JInt 0, br_uplink_sequence = -1, br_uplink_frames = 0,
     br_downlink_frames = 0, br_codec = c, br_out = []\<rparr>"

definition emit :: "effect list \<Rightarrow> 'g sip_bridge \<Rightarrow> 'g sip_bridge" where
  "emit es b = b\<lparr>br_out := br_out b @ es\<rparr>"

definition on_endpoint :: "(sip_endpoint \<Rightarrow> sip_endpoint) \<Rightarrow> 'g sip_bridge \<Rightarrow> 'g sip_bridge" where
  "on_endpoint f b = b\<lparr>br_endpoint := f (br_endpoint b)\<rparr>"

definition enable_incoming :: "bool \<Rightarrow> 'g sip_bridge \<Rightarrow> 'g sip_bridge" where
  "enable_incoming on = on_endpoint (\<lambda>e. e\<lparr>ep_incoming_enabled := on\<rparr>)"

section \<open>The endpoint\<close>

text \<open>\<open>_new_call\<close>: the new call object owns fresh queues and the identity it was created with.\<close>

definition new_call :: "identity \<Rightarrow> sip_endpoint \<Rightarrow> sip_endpoint" where
  "new_call i e = e\<lparr>ep_call := Some (ep_calls_made e, i), ep_calls_made := ep_calls_made e + 1,
     ep_call_identity := Some i, ep_media := new_queues\<rparr>"

definition dial :: "string \<Rightarrow> identity \<Rightarrow> 'g sip_bridge \<Rightarrow> 'g sip_bridge" where
  "dial destination i b = emit [Dial destination i] (on_endpoint (new_call i) b)"

definition answer :: "int \<Rightarrow> 'g sip_bridge \<Rightarrow> 'g sip_bridge res" where
  "answer status b = (case ep_call (br_endpoint b) of
     None \<Rightarrow> Inl AttributeError | Some _ \<Rightarrow> Inr (emit [Answer status] b))"

definition release :: "identity \<Rightarrow> sip_endpoint \<Rightarrow> sip_endpoint" where
  "release i e = (if is_identity i (ep_call_identity e)
     then e\<lparr>ep_call := None, ep_call_identity := None\<rparr> else e)"

definition hangup :: "bool \<Rightarrow> 'g sip_bridge \<Rightarrow> 'g sip_bridge" where
  "hangup is_active b =
     (if ep_call (br_endpoint b) \<noteq> None \<and> is_active then emit [Hang_up] b else b)"

text \<open>The native callbacks: an incoming call with its remote URI, a state change of the call object
  with the given number, and the audio frames of the port of the current call.\<close>

datatype callback =
    Incoming_call string bool
  | Call_state nat "native_event option"
  | Frame_requested
  | Frame_received bool bytes

definition on_incoming_call :: "string \<Rightarrow> bool \<Rightarrow> 'g sip_bridge \<Rightarrow> 'g sip_bridge" where
  "on_incoming_call remote_uri is_active b =
     (let e = br_endpoint b in
      if \<not> ep_incoming_enabled e \<or> ep_incoming_epoch e = JNull \<or> (ep_call e \<noteq> None \<and> is_active)
      then emit [Refuse 486] b
      else
        let i = (ep_incoming_epoch e, JInt (ep_next_incoming_request e));
            b = on_endpoint (new_call i) b in
        case incoming_caller_of remote_uri of
          None \<Rightarrow> emit [Answer 484] b
        | Some caller \<Rightarrow>
            emit [Answer 180, Queued_event i (Invite caller)]
              (on_endpoint (\<lambda>e. e\<lparr>ep_next_incoming_request := ep_next_incoming_request e + 1,
                 ep_incoming_enabled := False, ep_events := ep_events e @ [(i, Invite caller)]\<rparr>) b))"

definition on_call_state :: "nat \<Rightarrow> native_event option \<Rightarrow> 'g sip_bridge \<Rightarrow> 'g sip_bridge" where
  "on_call_state n event b =
     (case ep_call (br_endpoint b) of
        None \<Rightarrow> b
      | Some (m, i) \<Rightarrow>
          if m \<noteq> n then b
          else case event of
              Some ev \<Rightarrow> emit [Queued_event i ev] (on_endpoint (\<lambda>e. e\<lparr>ep_events := ep_events e @ [(i, ev)]\<rparr>) b)
            | None \<Rightarrow> b)"

text \<open>A state change is \<open>CONFIRMED\<close>, \<open>DISCONNECTED\<close> or another state, which the code ignores.\<close>

fun state_event :: "native_event option \<Rightarrow> native_event option" where
  "state_event (Some (Invite _)) = None"
| "state_event ev = ev"

definition on_callback :: "callback \<Rightarrow> 'g sip_bridge \<Rightarrow> 'g sip_bridge" where
  "on_callback cb b = (case cb of
     Incoming_call uri is_active \<Rightarrow> on_incoming_call uri is_active b
   | Call_state n ev \<Rightarrow> on_call_state n (state_event ev) b
   | Frame_requested \<Rightarrow> on_endpoint (\<lambda>e. e\<lparr>ep_media := snd (frame_requested (ep_media e))\<rparr>) b
   | Frame_received audio pcm \<Rightarrow> on_endpoint (\<lambda>e. e\<lparr>ep_media := frame_received audio pcm (ep_media e)\<rparr>) b)"

definition poll :: "callback list \<Rightarrow> 'g sip_bridge \<Rightarrow> 'g sip_bridge" where
  "poll cbs b = fold on_callback cbs b"

section \<open>Messages of the emulator\<close>

text \<open>After a message the iteration goes on, is abandoned (\<open>continue\<close>) or the bridge returns.\<close>

datatype flow = Go_on | Abandon | Finish

type_synonym 'g handled = "('g sip_bridge \<times> flow) res"

definition new_media_state :: "'g libgsm \<Rightarrow> 'g sip_bridge \<Rightarrow> 'g sip_bridge res" where
  "new_media_state lib b = rbind (new_codec lib) (\<lambda>c. Inr (b\<lparr>br_codec := c\<rparr>))"

definition clear_call :: "'g sip_bridge \<Rightarrow> 'g sip_bridge" where
  "clear_call b = b\<lparr>br_identity := None, br_connected := False, br_decision := False,
     br_uplink_sequence := -1, br_uplink_frames := 0, br_downlink_frames := 0\<rparr>"

definition on_ready :: "'g libgsm \<Rightarrow> bool \<Rightarrow> message \<Rightarrow> 'g sip_bridge \<Rightarrow> 'g handled" where
  "on_ready lib is_active m b =
     (if \<not> eq_int (get_key m ''protocol_version'') 1 then Inl (RuntimeError ''unsupported host protocol'')
      else
        let fresh = get_key m ''epoch'';
            b1 = (if br_epoch b = JNull then b\<lparr>br_blocked := get_key m ''calls_idle'' = JBool False\<rparr> else b) in
        rbind (if br_epoch b1 \<noteq> JNull \<and> \<not> json_eq (br_epoch b1) fresh
               then new_media_state lib
                 (clear_call ((hangup is_active b1)\<lparr>br_blocked := get_key m ''calls_idle'' \<noteq> JBool True,
                    br_restored := None, br_restored_direction := ''''\<rparr>))
               else Inr b1)
          (\<lambda>b2. Inr (enable_incoming False
             (on_endpoint (\<lambda>e. e\<lparr>ep_incoming_epoch := fresh\<rparr>) (b2\<lparr>br_epoch := fresh, br_registered := False\<rparr>)), Go_on)))"

definition on_network_state :: "message \<Rightarrow> 'g sip_bridge \<Rightarrow> 'g handled" where
  "on_network_state m b =
     (let b = b\<lparr>br_registered := get_key m ''registered'' = JBool True\<rparr> in
      Inr (enable_incoming (br_registered b \<and> br_identity b = None \<and> \<not> br_blocked b) b, Go_on))"

definition on_outgoing_call :: "sip_args \<Rightarrow> identity \<Rightarrow> message \<Rightarrow> 'g sip_bridge \<Rightarrow> 'g handled" where
  "on_outgoing_call a i m b =
     (if br_blocked b
      then if br_restored b \<noteq> None then Inr (b, Abandon)
        else
          let replies = failure_messages i 503;
              replies = (if get_key m ''decision_pending'' = JBool False then tl replies else replies) in
          Inr (emit (map Send replies) (b\<lparr>br_restored := Some i, br_restored_direction := ''outgoing''\<rparr>), Go_on)
      else if br_identity b = None
      then case as_str (get_key m ''digits'') of
          None \<Rightarrow> Inl (RuntimeError ''invalid outgoing digits'')
        | Some dialled \<Rightarrow>
            if dialled = [] \<or> \<not> list_all is_digit_char dialled
            then Inl (RuntimeError ''invalid outgoing digits'')
            else Inr (dial (arg_destination a) i
                   (enable_incoming False (b\<lparr>br_identity := Some i, br_direction := ''outgoing''\<rparr>)), Go_on)
      else Inr (b, Go_on))"

text \<open>\<open>connected\<close>, \<open>media_closed\<close> and the end of the call the bridge owns.\<close>

definition on_connected :: "message \<Rightarrow> 'g sip_bridge \<Rightarrow> 'g handled" where
  "on_connected m b =
     (case m ''media_downlink_sequence'' of
        None \<Rightarrow> Inl KeyError
      | Some n \<Rightarrow>
          let b = b\<lparr>br_connected := True, br_downlink_sequence := n\<rparr> in
          if br_direction b = ''incoming'' \<and> \<not> br_decision b
          then rbind (answer 200 b) (\<lambda>b. Inr (b\<lparr>br_decision := True\<rparr>, Go_on))
          else Inr (b, Go_on))"

definition fewest_frames :: "'g sip_bridge \<Rightarrow> int" where
  "fewest_frames b = (let m = ep_media (br_endpoint b) in
     min (min (br_uplink_frames b) (br_downlink_frames b)) (min (mq_transmitted m) (mq_received m)))"

definition on_ended :: "sip_args \<Rightarrow> 'g libgsm \<Rightarrow> bool \<Rightarrow> 'g sip_bridge \<Rightarrow> 'g handled" where
  "on_ended a lib is_active b =
     (let b = hangup is_active b; b = b\<lparr>br_completed := br_completed b + 1\<rparr> in
      if fewest_frames b < arg_require_frames a
      then Inl (RuntimeError ''call ended without required bidirectional media'')
      else if arg_once a \<or> (arg_calls a \<noteq> 0 \<and> br_completed b \<ge> arg_calls a) then Inr (b, Finish)
      else rbind (new_media_state lib (clear_call b)) (\<lambda>b.
        Inr (enable_incoming (br_registered b \<and> \<not> br_blocked b) b, Go_on)))"

definition on_own_state :: "sip_args \<Rightarrow> 'g libgsm \<Rightarrow> bool \<Rightarrow> message \<Rightarrow> 'g sip_bridge \<Rightarrow> 'g handled" where
  "on_own_state a lib is_active m b =
     (let phase = get_key m ''phase'' in
      if eq_str phase ''connected'' then on_connected m b
      else if eq_str phase ''media_closed'' then Inr (b\<lparr>br_connected := False\<rparr>, Go_on)
      else if eq_str phase ''ended'' \<or> eq_str phase ''expired'' then on_ended a lib is_active b
      else Inr (b, Go_on))"

definition clear_restored :: "sip_args \<Rightarrow> string \<Rightarrow> identity \<Rightarrow> message \<Rightarrow> 'g sip_bridge \<Rightarrow> 'g handled" where
  "clear_restored a kind i m b =
     (if br_blocked b \<and> eq_str (get_key m ''phase'') ''ended'' \<and> is_identity i (br_restored b)
         \<and> kind = br_restored_direction b @ ''_call_state''
      then let b = b\<lparr>br_blocked := False, br_restored := None, br_restored_direction := ''''\<rparr>;
               b = enable_incoming (br_registered b \<and> br_identity b = None) b in
        Inr (b, if arg_once a then Finish else Go_on)
      else Inr (b, Go_on))"

text \<open>A call of the snapshot is terminated once; the phases of the bridge's own call are followed;
  the end of the call of the snapshot lifts the block.  \<open>direction\<close> is the first word of \<open>kind\<close>.\<close>

definition on_call_phase ::
  "sip_args \<Rightarrow> 'g libgsm \<Rightarrow> bool \<Rightarrow> string \<Rightarrow> identity \<Rightarrow> message \<Rightarrow> 'g sip_bridge \<Rightarrow> 'g handled" where
  "on_call_phase a lib is_active direction i m b =
     (let kind = direction @ ''_call_state'' in
      rbind
        (if br_blocked b \<and> \<not> eq_str (get_key m ''phase'') ''ended''
         then if br_restored b \<noteq> None then Inr (b, Abandon)
           else case m ''request_id'' of
               None \<Rightarrow> Inl KeyError
             | Some r \<Rightarrow> Inr (emit [Send [(''type'', JStr (direction @ ''_call_terminate'')), (''epoch'', br_epoch b),
                   (''request_id'', r), (''cause'', JInt 41)]]
                 (b\<lparr>br_restored := Some i, br_restored_direction := direction\<rparr>), Go_on)
         else if is_identity i (br_identity b) \<and> kind = br_direction b @ ''_call_state''
         then on_own_state a lib is_active m b
         else Inr (b, Go_on))
        (\<lambda>(b, flow). if flow = Go_on then clear_restored a kind i m b else Inr (b, flow)))"

fun int_like :: "json \<Rightarrow> int option" where
  "int_like (JInt n) = Some n"
| "int_like (JBool v) = Some (of_bool v)"
| "int_like _ = None"

definition on_uplink :: "sip_args \<Rightarrow> 'g libgsm \<Rightarrow> message \<Rightarrow> 'g sip_bridge \<Rightarrow> 'g handled" where
  "on_uplink a lib m b =
     (case int_like (get_key m ''sequence'') of
        None \<Rightarrow> Inr (b, Go_on)
      | Some n \<Rightarrow>
          if n \<le> br_uplink_sequence b then Inr (b, Go_on)
          else let b = b\<lparr>br_uplink_sequence := n\<rparr> in
            if get_key m ''good'' \<noteq> JBool True then Inr (b, Go_on)
            else case m ''frame'' of
                None \<Rightarrow> Inl KeyError
              | Some frame \<Rightarrow>
                  (case as_str frame of
                     None \<Rightarrow> Inl TypeError
                   | Some s \<Rightarrow>
                       (case fromhex_ws s of
                          None \<Rightarrow> Inl (ValueError ''non-hexadecimal number found in fromhex() arg'')
                        | Some raw \<Rightarrow>
                            rbind (codec_decode lib (br_codec b) raw) (\<lambda>(pcm, c).
                              Inr (emit (if arg_record_pcm a then [Record_uplink pcm] else [])
                                (on_endpoint (\<lambda>e. e\<lparr>ep_media := put_uplink pcm (ep_media e)\<rparr>)
                                  (b\<lparr>br_codec := c, br_uplink_frames := br_uplink_frames b + 1\<rparr>)), Go_on)))))"

definition on_message :: "sip_args \<Rightarrow> 'g libgsm \<Rightarrow> bool \<Rightarrow> message \<Rightarrow> 'g sip_bridge \<Rightarrow> 'g handled" where
  "on_message a lib is_active m b =
     (let kind = get_key m ''type''; i = (br_epoch b, get_key m ''request_id'') in
      if eq_str kind ''call_adapter_ready'' then on_ready lib is_active m b
      else if \<not> json_eq (get_key m ''epoch'') (br_epoch b) then Inr (b, Go_on)
      else if eq_str kind ''network_state'' then on_network_state m b
      else if eq_str kind ''outgoing_call'' then on_outgoing_call a i m b
      else if eq_str kind ''outgoing_call_state'' then on_call_phase a lib is_active ''outgoing'' i m b
      else if eq_str kind ''incoming_call_state'' then on_call_phase a lib is_active ''incoming'' i m b
      else if eq_str kind (br_direction b @ ''_call_media_uplink'') \<and> br_connected b \<and> is_identity i (br_identity b)
      then on_uplink a lib m b
      else Inr (b, Go_on))"

section \<open>Draining the call events\<close>

definition on_event :: "identity \<times> native_event \<Rightarrow> 'g sip_bridge \<Rightarrow> 'g sip_bridge" where
  "on_event event b =
     (let (i, phase) = event;
          b = (case phase of
                 Disconnected _ \<Rightarrow>
                   let b = on_endpoint (release i) b in
                   if br_identity b = None then enable_incoming (br_registered b \<and> \<not> br_blocked b) b else b
               | _ \<Rightarrow> b) in
      case (phase, br_identity b) of
        (Invite caller, None) \<Rightarrow>
          if br_blocked b then b
          else emit [Send [(''type'', JStr ''incoming_call''), (''epoch'', fst i), (''request_id'', snd i),
                 (''caller'', JStr caller)]] (b\<lparr>br_identity := Some i, br_direction := ''incoming''\<rparr>)
      | (_, own) \<Rightarrow>
          if \<not> is_identity i own \<or> br_blocked b then b
          else case phase of
              Invite _ \<Rightarrow> b
            | Confirmed _ \<Rightarrow>
                if br_direction b = ''incoming'' \<or> br_decision b then b
                else emit [Send (reply_base (the own) @
                       [(''type'', JStr (br_direction b @ ''_call_decision'')), (''decision'', JStr ''connect'')])]
                     (b\<lparr>br_decision := True\<rparr>)
            | Disconnected status \<Rightarrow>
                let b = b\<lparr>br_connected := False\<rparr> in
                if br_decision b \<or> br_direction b = ''incoming''
                then emit [Send (reply_base (the own) @
                       [(''type'', JStr (br_direction b @ ''_call_terminate'')), (''cause'', JInt 16)])] b
                else emit (map Send (failure_messages (the own) status)) (b\<lparr>br_decision := True\<rparr>))"

text \<open>Handling an event queues none, so taking them one by one from the left ends.\<close>

lemma on_event_events [simp]: "ep_events (br_endpoint (on_event ev b)) = ep_events (br_endpoint b)"
  by (auto simp: on_event_def on_endpoint_def emit_def enable_incoming_def release_def Let_def
      split: prod.splits native_event.splits option.splits)

definition pop_event :: "'g sip_bridge \<Rightarrow> 'g sip_bridge" where
  "pop_event = on_endpoint (\<lambda>e. e\<lparr>ep_events := tl (ep_events e)\<rparr>)"

function drain :: "'g sip_bridge \<Rightarrow> 'g sip_bridge" where
  "drain b = (case ep_events (br_endpoint b) of [] \<Rightarrow> b | ev # _ \<Rightarrow> drain (on_event ev (pop_event b)))"
  by pat_completeness auto

termination
  by (relation "measure (\<lambda>b. length (ep_events (br_endpoint b)))") (auto simp: pop_event_def on_endpoint_def)

section \<open>Pumping the downlink\<close>

text \<open>\<open>n + 1\<close> on a decoded value.\<close>

fun json_succ :: "json \<Rightarrow> json res" where
  "json_succ (JInt n) = Inr (JInt (n + 1))"
| "json_succ (JBool v) = Inr (JInt (of_bool v + 1))"
| "json_succ (JFloat f) = Inr (JFloat (map_option (\<lambda>n. n + 1) f))"
| "json_succ _ = Inl TypeError"

definition send_downlink :: "sip_args \<Rightarrow> 'g libgsm \<Rightarrow> int \<Rightarrow> bytes \<Rightarrow> 'g sip_bridge \<Rightarrow> 'g sip_bridge res" where
  "send_downlink a lib source_time pcm b =
     (case br_identity b of
        None \<Rightarrow> Inl TypeError
      | Some i \<Rightarrow>
          rbind (codec_encode lib (br_codec b) pcm) (\<lambda>(frame, c).
          rbind (json_succ (br_downlink_sequence b)) (\<lambda>next.
            Inr (emit ((if arg_record_pcm a then [Record_downlink pcm] else []) @
                  [Send [(''type'', JStr (br_direction b @ ''_call_media_downlink'')), (''epoch'', fst i),
                     (''request_id'', snd i), (''sequence'', br_downlink_sequence b),
                     (''source_time_us'', JInt source_time), (''frame'', JStr (bytes_hex frame))]])
               (b\<lparr>br_codec := c, br_downlink_sequence := next, br_downlink_frames := br_downlink_frames b + 1\<rparr>)))))"

text \<open>\<open>clock k\<close> is the \<open>k\<close>-th pair of readings of the monotonic clock: the time the pump asks for a frame
  and the time since the start that the message carries.\<close>

lemma send_downlink_endpoint: "send_downlink a lib t pcm b = Inr b' \<Longrightarrow> br_endpoint b' = br_endpoint b"
  by (auto simp: send_downlink_def rbind_eq_Inr emit_def split: option.splits)

lemma take_downlink_shorter:
  "take_downlink now m = Inr (pcm, m') \<Longrightarrow> length (mq_downlink m') < length (mq_downlink m)"
  by (auto simp: take_downlink_def split: if_splits list.splits)

function pump :: "sip_args \<Rightarrow> 'g libgsm \<Rightarrow> (nat \<Rightarrow> int \<times> int) \<Rightarrow> nat \<Rightarrow> 'g sip_bridge \<Rightarrow> 'g sip_bridge res" where
  "pump a lib clock k b =
     (if \<not> br_connected b then Inr b
      else case take_downlink (fst (clock k)) (ep_media (br_endpoint b)) of
          Inl _ \<Rightarrow> Inr b
        | Inr (pcm, m) \<Rightarrow>
            (case send_downlink a lib (snd (clock k)) pcm (on_endpoint (\<lambda>e. e\<lparr>ep_media := m\<rparr>) b) of
               Inl err \<Rightarrow> Inl err
             | Inr b \<Rightarrow> pump a lib clock (k + 1) b))"
  by pat_completeness auto

termination
  by (relation "measure (\<lambda>(a, lib, clock, k, b). length (mq_downlink (ep_media (br_endpoint b))))")
    (auto dest!: send_downlink_endpoint take_downlink_shorter simp: on_endpoint_def)

declare drain.simps [simp del] pump.simps [simp del]

section \<open>The loop\<close>

record sip_input =
  in_callbacks :: "callback list"
  in_message :: "message option"
  in_active :: bool
  in_clock :: "nat \<Rightarrow> int \<times> int"

definition iterate :: "sip_args \<Rightarrow> 'g libgsm \<Rightarrow> sip_input \<Rightarrow> 'g sip_bridge \<Rightarrow> ('g sip_bridge \<times> bool) res" where
  "iterate a lib inp b =
     (let b = poll (in_callbacks inp) b in
      rbind (case in_message inp of None \<Rightarrow> Inr (b, Go_on) | Some m \<Rightarrow> on_message a lib (in_active inp) m b)
        (\<lambda>(b, flow). case flow of
             Finish \<Rightarrow> Inr (b, False)
           | Abandon \<Rightarrow> Inr (b, True)
           | Go_on \<Rightarrow> rbind (pump a lib (in_clock inp) 0 (drain b)) (\<lambda>b. Inr (b, True))))"

text \<open>The loop over the iterations of a run, until the bridge returns or raises.\<close>

fun run_sip :: "sip_args \<Rightarrow> 'g libgsm \<Rightarrow> 'g sip_bridge \<Rightarrow> sip_input list \<Rightarrow> ('g sip_bridge \<times> bool) res" where
  "run_sip a lib b [] = Inr (b, True)"
| "run_sip a lib b (inp # inps) =
     rbind (iterate a lib inp b) (\<lambda>(b, more). if more then run_sip a lib b inps else Inr (b, False))"

definition bridge :: "sip_args \<Rightarrow> 'g libgsm \<Rightarrow> sip_input list \<Rightarrow> ('g sip_bridge \<times> bool) res" where
  "bridge a lib inps = rbind (new_codec lib) (\<lambda>c. run_sip a lib (start_bridge a c) inps)"

text \<open>The argument checks of \<open>main\<close>.\<close>

definition check_sip_args :: "sip_args \<Rightarrow> string option" where
  "check_sip_args a =
     (if \<not> prefix ''sip:'' (arg_destination a) \<or> list_ex (\<lambda>c. c = CHR 0x0D \<or> c = CHR 0x0A) (arg_destination a)
      then Some ''--destination must be a SIP URI without line breaks''
      else if arg_require_frames a < 0 then Some ''--require-frames must be nonnegative''
      else if arg_calls a < 0 then Some ''--calls must be nonnegative'' else None)"

end
