(* ===== verification/Sip_Steps.thy ===== *)
theory Sip_Steps
  imports Sip_Bridge
begin

text \<open>
  The bridge as a step relation: a native callback, a message, one queued event and one downlink frame
  are the steps, and an iteration of the loop is a sequence of them.  \<open>okm\<close> limits the messages that
  arrive.  What every step keeps is kept by every run: the locale \<open>sip_invariant\<close>.
\<close>

section \<open>Steps\<close>

inductive sip_step ::
  "(message \<Rightarrow> bool) \<Rightarrow> sip_args \<Rightarrow> 'g libgsm \<Rightarrow> 'g sip_bridge \<Rightarrow> 'g sip_bridge \<Rightarrow> bool" for okm a lib where
  Callback: "sip_step okm a lib b (on_callback cb b)"
| Message: "okm m \<Longrightarrow> on_message a lib is_active m b = Inr (b', flow) \<Longrightarrow> sip_step okm a lib b b'"
| Event: "ep_events (br_endpoint b) = ev # evs \<Longrightarrow> sip_step okm a lib b (on_event ev (pop_event b))"
| Downlink: "br_connected b \<Longrightarrow> take_downlink now (ep_media (br_endpoint b)) = Inr (pcm, m) \<Longrightarrow>
    send_downlink a lib time pcm (on_endpoint (\<lambda>e. e\<lparr>ep_media := m\<rparr>) b) = Inr b' \<Longrightarrow> sip_step okm a lib b b'"

inductive_cases sip_stepE: "sip_step okm a lib b b'"

lemma poll_steps: "(sip_step okm a lib)\<^sup>*\<^sup>* b (poll cbs b)"
proof (induction cbs arbitrary: b)
  case (Cons cb cbs)
  show ?case
    using Cons [of "on_callback cb b"] by (auto simp: poll_def intro: converse_rtranclp_into_rtranclp Callback)
qed (simp add: poll_def)

lemma drain_steps: "(sip_step okm a lib)\<^sup>*\<^sup>* b (drain b)"
proof (induction b rule: drain.induct)
  case (1 b)
  show ?case
  proof (cases "ep_events (br_endpoint b)")
    case Nil
    then show ?thesis by (simp add: drain.simps [of b])
  next
    case (Cons ev evs)
    have "(sip_step okm a lib)\<^sup>*\<^sup>* b (drain (on_event ev (pop_event b)))"
      by (blast intro: converse_rtranclp_into_rtranclp Event [OF Cons] "1.IH" [OF Cons])
    then show ?thesis using Cons by (simp add: drain.simps [of b])
  qed
qed

lemma pump_steps: "pump a lib clock k b = Inr b' \<Longrightarrow> (sip_step okm a lib)\<^sup>*\<^sup>* b b'"
proof (induction a lib clock k b arbitrary: b' rule: pump.induct)
  case (1 a lib clock k b)
  show ?case
  proof (cases "br_connected b \<and> returns (take_downlink (fst (clock k)) (ep_media (br_endpoint b)))")
    case True
    then obtain pcm m where c: "br_connected b" and t: "take_downlink (fst (clock k)) (ep_media (br_endpoint b)) = Inr (pcm, m)"
      by auto
    let ?b = "on_endpoint (\<lambda>e. e\<lparr>ep_media := m\<rparr>) b"
    obtain b1 where s: "send_downlink a lib (snd (clock k)) pcm ?b = Inr b1"
      and r: "pump a lib clock (k + 1) b1 = Inr b'"
      using "1.prems" c t by (subst (asm) pump.simps) (auto split: sum.splits)
    have "(sip_step okm a lib)\<^sup>*\<^sup>* b1 b'" using "1.IH" [OF _ t refl s r] c by simp
    then show ?thesis by (blast intro: converse_rtranclp_into_rtranclp Downlink [OF c t s])
  next
    case False
    then have "pump a lib clock k b = Inr b" by (subst pump.simps) (auto split: sum.splits)
    then show ?thesis using "1.prems" by simp
  qed
qed

text \<open>An iteration whose message, if any, is allowed is a sequence of steps.\<close>

definition input_ok :: "(message \<Rightarrow> bool) \<Rightarrow> sip_input \<Rightarrow> bool" where
  "input_ok okm inp = (case in_message inp of None \<Rightarrow> True | Some m \<Rightarrow> okm m)"

lemma iterate_steps:
  assumes "input_ok okm inp" "iterate a lib inp b = Inr (b', goes_on)"
  shows "(sip_step okm a lib)\<^sup>*\<^sup>* b b'"
proof -
  let ?b = "poll (in_callbacks inp) b"
  obtain b1 flow where h: "(case in_message inp of None \<Rightarrow> Inr (?b, Go_on) | Some m \<Rightarrow> on_message a lib (in_active inp) m ?b) = Inr (b1, flow)"
    and c: "(case flow of Finish \<Rightarrow> Inr (b1, False) | Abandon \<Rightarrow> Inr (b1, True)
       | Go_on \<Rightarrow> rbind (pump a lib (in_clock inp) 0 (drain b1)) (\<lambda>b. Inr (b, True))) = Inr (b', goes_on)"
    using assms(2) by (auto simp: iterate_def Let_def rbind_eq_Inr)
  have "(sip_step okm a lib)\<^sup>*\<^sup>* ?b b1"
    using h assms(1) by (auto simp: input_ok_def split: option.splits intro: Message)
  then have r: "(sip_step okm a lib)\<^sup>*\<^sup>* b b1" by (rule rtranclp_trans [OF poll_steps])
  show ?thesis
  proof (cases "flow = Go_on")
    case True
    then have "pump a lib (in_clock inp) 0 (drain b1) = Inr b'" using c by (auto simp: rbind_eq_Inr)
    then show ?thesis using rtranclp_trans [OF r rtranclp_trans [OF drain_steps pump_steps]] by blast
  next
    case False
    then show ?thesis using c r by (auto split: flow.splits)
  qed
qed

section \<open>Invariants\<close>

locale sip_invariant =
  fixes okm :: "message \<Rightarrow> bool" and a :: sip_args and lib :: "'g libgsm" and P :: "'g sip_bridge \<Rightarrow> bool"
  assumes step_keeps: "P b \<Longrightarrow> sip_step okm a lib b b' \<Longrightarrow> P b'"
begin

lemma iterate_keeps: "P b \<Longrightarrow> input_ok okm inp \<Longrightarrow> iterate a lib inp b = Inr (b', goes_on) \<Longrightarrow> P b'"
proof -
  assume "P b" "input_ok okm inp" "iterate a lib inp b = Inr (b', goes_on)"
  then have "P b \<and> (sip_step okm a lib)\<^sup>*\<^sup>* b b'" using iterate_steps by blast
  then show "P b'" using rtranclp_induct [of "sip_step okm a lib" b b' P] step_keeps by blast
qed

lemma run_keeps: "P b \<Longrightarrow> list_all (input_ok okm) inps \<Longrightarrow> run_sip a lib b inps = Inr (b', goes_on) \<Longrightarrow> P b'"
proof (induction inps arbitrary: b)
  case (Cons inp inps)
  then obtain b1 on where "iterate a lib inp b = Inr (b1, on)"
    "(if on then run_sip a lib b1 inps else Inr (b1, False)) = Inr (b', goes_on)"
    by (auto simp: rbind_eq_Inr)
  moreover from this have "P b1" using Cons.prems by (auto intro: iterate_keeps)
  ultimately show ?case using Cons by (cases on) auto
qed simp

lemma bridge_keeps:
  "(\<And>c. P (start_bridge a c)) \<Longrightarrow> list_all (input_ok okm) inps \<Longrightarrow> bridge a lib inps = Inr (b, goes_on) \<Longrightarrow> P b"
  by (auto simp: bridge_def rbind_eq_Inr intro: run_keeps)

end

end
