(* ===== verification/Sip_Props.thy ===== *)
theory Sip_Props
  imports Sip_Steps
begin

text \<open>
  What the SIP bridge keeps in every state it reaches: the gate for incoming calls, the identity of the
  call it owns, the bounds of the media queues, and what its messages may claim: a connect decision
  answers a call it dialled and the far end confirmed, at most one for each dialled call.
\<close>

section \<open>The invariant\<close>

definition connecting :: "reply \<Rightarrow> bool" where
  "connecting r \<longleftrightarrow> map_of r ''decision'' = Some (JStr ''connect'')"

fun is_connect :: "effect \<Rightarrow> bool" where
  "is_connect (Send r) = connecting r"
| "is_connect _ = False"

fun is_dial :: "effect \<Rightarrow> bool" where
  "is_dial (Dial _ _) = True"
| "is_dial _ = False"

definition connect_justified :: "sip_args \<Rightarrow> effect list \<Rightarrow> reply \<Rightarrow> bool" where
  "connect_justified a out r \<longleftrightarrow> (\<exists>i j status.
     r = reply_base i @ [(''type'', JStr ''outgoing_call_decision''), (''decision'', JStr ''connect'')]
     \<and> Dial (arg_destination a) i \<in> set out \<and> Queued_event j (Confirmed status) \<in> set out \<and> same_identity j i)"

definition connects_ok :: "sip_args \<Rightarrow> effect list \<Rightarrow> bool" where
  "connects_ok a out \<longleftrightarrow> (\<forall>r. Send r \<in> set out \<and> connecting r \<longrightarrow> connect_justified a out r)"

definition queues_ok :: "media_queues \<Rightarrow> bool" where
  "queues_ok m \<longleftrightarrow> length (mq_uplink m) \<le> 8 \<and> length (mq_downlink m) \<le> 8
     \<and> list_all (\<lambda>pcm. length pcm = 320) (mq_uplink m @ mq_downlink m)"

definition awaiting :: "'g sip_bridge \<Rightarrow> bool" where
  "awaiting b \<longleftrightarrow> br_identity b \<noteq> None \<and> br_direction b = ''outgoing'' \<and> \<not> br_decision b"

definition gate_ok :: "'g sip_bridge \<Rightarrow> bool" where
  "gate_ok b \<longleftrightarrow> (ep_incoming_enabled (br_endpoint b) \<longrightarrow> br_registered b \<and> \<not> br_blocked b)"

definition sip_inv :: "sip_args \<Rightarrow> 'g sip_bridge \<Rightarrow> bool" where
  "sip_inv a b \<longleftrightarrow>
     (br_identity b = None \<longrightarrow> \<not> br_decision b \<and> \<not> br_connected b)
     \<and> (br_identity b \<noteq> None \<longrightarrow> br_direction b = ''outgoing'' \<or> br_direction b = ''incoming'')
     \<and> (\<forall>(i, ev) \<in> set (ep_events (br_endpoint b)). Queued_event i ev \<in> set (br_out b))
     \<and> (\<forall>i. br_identity b = Some i \<and> br_direction b = ''outgoing'' \<longrightarrow> Dial (arg_destination a) i \<in> set (br_out b))
     \<and> connects_ok a (br_out b)
     \<and> length (filter is_connect (br_out b)) + of_bool (awaiting b) \<le> length (filter is_dial (br_out b))
     \<and> queues_ok (ep_media (br_endpoint b))"

lemma is_identity_None [simp]: "\<not> is_identity i None"
  by (simp add: is_identity_def)

lemmas sip_updates = emit_def on_endpoint_def enable_incoming_def

lemma connects_ok_append:
  "connects_ok a out \<Longrightarrow> \<forall>r. Send r \<in> set es \<and> connecting r \<longrightarrow> connect_justified a (out @ es) r \<Longrightarrow> connects_ok a (out @ es)"
  unfolding connects_ok_def connect_justified_def by (auto, blast+)

lemma connects_ok_keep:
  "connects_ok a out \<Longrightarrow> list_all (Not \<circ> is_connect) es \<Longrightarrow> connects_ok a (out @ es)"
  by (rule connects_ok_append) (auto simp: list_all_iff)

lemma queues_ok_new [simp]: "queues_ok new_queues"
  by (simp add: queues_ok_def new_queues_def)

lemma queues_ok_put [simp]: "queues_ok m \<Longrightarrow> queues_ok (put_uplink pcm m)" "queues_ok m \<Longrightarrow> queues_ok (put_downlink pcm m)"
  by (auto simp: queues_ok_def put_uplink_def put_downlink_def queue_put_def)

lemma queues_ok_requested [simp]: "queues_ok m \<Longrightarrow> queues_ok (snd (frame_requested m))"
  by (auto simp: queues_ok_def frame_requested_def split: list.splits)

lemma queues_ok_received [simp]: "queues_ok m \<Longrightarrow> queues_ok (frame_received audio pcm m)"
  by (auto simp: frame_received_def queues_ok_def put_downlink_def queue_put_def)

lemma queues_ok_take: "queues_ok m \<Longrightarrow> take_downlink now m = Inr (pcm, m') \<Longrightarrow> queues_ok m' \<and> length pcm = 320"
  by (auto simp: queues_ok_def take_downlink_def split: if_splits list.splits)

lemma failure_not_connecting:
  "r \<in> set (failure_messages i status) \<Longrightarrow> \<not> connecting r"
  by (auto simp: failure_messages_def connecting_def reply_base_def Let_def split: if_splits)

lemma failure_effects [simp]:
  "list_all (Not \<circ> is_connect) (map Send (failure_messages i status))"
  "list_all (Not \<circ> is_connect) (map Send (tl (failure_messages i status)))"
  "filter is_connect (map Send (failure_messages i status)) = []"
  "filter is_connect (map Send (tl (failure_messages i status))) = []"
  "filter is_dial (map Send rs) = []"
  using failure_not_connecting [of _ i status] list.set_sel(2) [of "failure_messages i status"]
  by (auto simp: list_all_iff filter_empty_conv failure_messages_def Let_def)

lemma start_inv: "sip_inv a (start_bridge a c)"
  by (simp add: sip_inv_def start_bridge_def new_endpoint_def connects_ok_def awaiting_def)

section \<open>Every step keeps it\<close>

lemma callback_inv:
  assumes "sip_inv a b"
  shows "sip_inv a (on_callback cb b)"
proof (cases cb)
  case (Incoming_call uri act)
  then show ?thesis using assms
    by (auto simp: on_callback_def on_incoming_call_def sip_updates sip_inv_def Let_def new_call_def awaiting_def
        intro!: connects_ok_keep split: option.splits)
next
  case (Call_state n ev)
  then show ?thesis using assms
    by (auto simp: on_callback_def on_call_state_def sip_updates sip_inv_def Let_def awaiting_def
        intro!: connects_ok_keep split: option.splits)
qed (use assms in \<open>auto simp: on_callback_def sip_updates sip_inv_def awaiting_def\<close>)

lemma downlink_inv:
  assumes "sip_inv a b" "take_downlink now (ep_media (br_endpoint b)) = Inr (pcm, m)"
    "send_downlink a lib time pcm (on_endpoint (\<lambda>e. e\<lparr>ep_media := m\<rparr>) b) = Inr b'"
  shows "sip_inv a b'"
proof -
  have m: "queues_ok m" using queues_ok_take [OF _ assms(2)] assms(1) by (simp add: sip_inv_def)
  show ?thesis using assms(1,3) m
    by (auto simp: send_downlink_def sip_updates sip_inv_def rbind_eq_Inr awaiting_def connecting_def
        intro!: connects_ok_keep split: option.splits)
qed

lemma release_simps [simp]:
  "ep_incoming_enabled (release i e) = ep_incoming_enabled e" "ep_events (release i e) = ep_events e"
  "ep_media (release i e) = ep_media e"
  by (simp_all add: release_def)

lemma pop_inv:
  assumes "sip_inv a b" "ep_events (br_endpoint b) = (i, ev) # evs"
  shows "sip_inv a (pop_event b) \<and> Queued_event i ev \<in> set (br_out (pop_event b))"
  using assms by (auto simp: sip_inv_def pop_event_def on_endpoint_def awaiting_def)

lemma event_inv:
  assumes "sip_inv a b" "Queued_event i ev \<in> set (br_out b)"
  shows "sip_inv a (on_event (i, ev) b)"
proof (cases ev)
  case (Invite caller)
  show ?thesis using assms unfolding Invite
    by (auto simp: on_event_def sip_updates sip_inv_def awaiting_def connecting_def
        intro!: connects_ok_keep split: option.splits)
next
  case (Confirmed status)
  have c: "connects_ok a (br_out b @ [Send (reply_base k @
        [(''type'', JStr ''outgoing_call_decision''), (''decision'', JStr ''connect'')])])"
    if "br_identity b = Some k" "is_identity i (Some k)" "br_direction b = ''outgoing''" for k
  proof (rule connects_ok_append)
    show "connects_ok a (br_out b)" using assms(1) by (simp add: sip_inv_def)
    have "Dial (arg_destination a) k \<in> set (br_out b)" using that assms(1) by (simp add: sip_inv_def)
    then have "connect_justified a (br_out b @ [e]) (reply_base k @
            [(''type'', JStr ''outgoing_call_decision''), (''decision'', JStr ''connect'')])" for e
      unfolding connect_justified_def using assms(2) that(2) unfolding Confirmed is_identity_def
      by (intro exI [of _ k] exI [of _ i] exI [of _ status]) simp
    then show "\<forall>r. Send r \<in> set [Send (reply_base k @ [(''type'', JStr ''outgoing_call_decision''), (''decision'', JStr ''connect'')])]
        \<and> connecting r \<longrightarrow> connect_justified a (br_out b @ [Send (reply_base k @
            [(''type'', JStr ''outgoing_call_decision''), (''decision'', JStr ''connect'')])]) r"
      by simp
  qed
  show ?thesis
  proof (cases "br_identity b")
    case None
    then show ?thesis using assms(1) by (simp add: Confirmed on_event_def is_identity_def)
  next
    case (Some k)
    then have n: "\<not> br_decision b \<Longrightarrow> br_direction b \<noteq> ''incoming'' \<Longrightarrow> awaiting b \<and> br_direction b = ''outgoing''"
      using assms(1) by (auto simp: sip_inv_def awaiting_def)
    have "connecting (reply_base k @ [(''type'', JStr t), (''decision'', JStr ''connect'')])" for t
      by (simp add: connecting_def reply_base_def)
    show ?thesis
    proof (cases "is_identity i (Some k) \<and> \<not> br_blocked b \<and> br_direction b \<noteq> ''incoming'' \<and> \<not> br_decision b")
      case True
      then show ?thesis using assms(1) c [OF Some] Some n
        by (simp add: Confirmed on_event_def emit_def sip_inv_def awaiting_def)
    next
      case False
      then have "on_event (i, ev) b = b" using Some by (auto simp: Confirmed on_event_def)
      then show ?thesis using assms(1) by simp
    qed
  qed
next
  case (Disconnected status)
  show ?thesis using assms unfolding Disconnected
    by (auto simp: on_event_def sip_updates sip_inv_def awaiting_def connecting_def reply_base_def Let_def
        intro!: connects_ok_keep split: option.splits)
qed

lemma sip_inv_updates [simp]:
  "sip_inv a (b\<lparr>br_blocked := x1\<rparr>) = sip_inv a b" "sip_inv a (b\<lparr>br_restored := x2\<rparr>) = sip_inv a b"
  "sip_inv a (b\<lparr>br_restored_direction := x3\<rparr>) = sip_inv a b" "sip_inv a (b\<lparr>br_registered := x4\<rparr>) = sip_inv a b"
  "sip_inv a (b\<lparr>br_epoch := x5\<rparr>) = sip_inv a b" "sip_inv a (b\<lparr>br_completed := x6\<rparr>) = sip_inv a b"
  "sip_inv a (b\<lparr>br_codec := x7\<rparr>) = sip_inv a b" "sip_inv a (b\<lparr>br_uplink_sequence := x6\<rparr>) = sip_inv a b"
  "sip_inv a (b\<lparr>br_downlink_sequence := x5\<rparr>) = sip_inv a b" "sip_inv a (b\<lparr>br_uplink_frames := x6\<rparr>) = sip_inv a b"
  "sip_inv a (enable_incoming x1 b) = sip_inv a b"
  "sip_inv a (on_endpoint (\<lambda>e. e\<lparr>ep_incoming_epoch := x5\<rparr>) b) = sip_inv a b"
  "sip_inv a b \<Longrightarrow> sip_inv a (b\<lparr>br_connected := False\<rparr>)"
  "sip_inv a b \<Longrightarrow> sip_inv a (clear_call b)"
  by (simp_all add: sip_inv_def awaiting_def on_endpoint_def enable_incoming_def clear_call_def)

lemma sip_inv_emit: "sip_inv a b \<Longrightarrow> list_all (Not \<circ> is_connect) es \<Longrightarrow> sip_inv a (emit es b)"
  by (auto simp: sip_inv_def emit_def awaiting_def connects_ok_keep filter_empty_conv list_all_iff)

lemma hangup_inv [simp]: "sip_inv a b \<Longrightarrow> sip_inv a (hangup act b)"
  by (simp add: hangup_def sip_inv_emit)

lemma ready_inv: "sip_inv a b \<Longrightarrow> on_ready lib act m b = Inr (b', flow) \<Longrightarrow> sip_inv a b'"
  by (auto simp: on_ready_def Let_def new_media_state_def rbind_eq_Inr split: if_splits)

lemma network_inv: "sip_inv a b \<Longrightarrow> on_network_state m b = Inr (b', flow) \<Longrightarrow> sip_inv a b'"
  by (auto simp: on_network_state_def Let_def)

lemma dial_inv: "sip_inv a b \<Longrightarrow> br_identity b = None \<Longrightarrow>
    sip_inv a (dial (arg_destination a) i (enable_incoming False (b\<lparr>br_identity := Some i, br_direction := ''outgoing''\<rparr>)))"
  by (auto simp: dial_def sip_updates new_call_def sip_inv_def awaiting_def connects_ok_keep)

lemma outgoing_inv: "sip_inv a b \<Longrightarrow> on_outgoing_call a i m b = Inr (b', flow) \<Longrightarrow> sip_inv a b'"
  by (auto simp: on_outgoing_call_def Let_def dial_inv intro!: sip_inv_emit split: if_splits option.splits)

lemma connected_inv: "sip_inv a b \<Longrightarrow> br_identity b \<noteq> None \<Longrightarrow> on_connected m b = Inr (b', flow) \<Longrightarrow> sip_inv a b'"
  by (auto simp: on_connected_def answer_def Let_def rbind_eq_Inr sip_inv_def emit_def awaiting_def connects_ok_keep
      split: if_splits option.splits)

lemma ended_inv: "sip_inv a b \<Longrightarrow> on_ended a lib act b = Inr (b', flow) \<Longrightarrow> sip_inv a b'"
  by (auto simp: on_ended_def new_media_state_def Let_def rbind_eq_Inr split: if_splits)

lemma own_state_inv: "sip_inv a b \<Longrightarrow> br_identity b \<noteq> None \<Longrightarrow> on_own_state a lib act m b = Inr (b', flow) \<Longrightarrow> sip_inv a b'"
  by (auto simp: on_own_state_def Let_def split: if_splits dest: connected_inv ended_inv)

lemma clear_restored_inv: "sip_inv a b \<Longrightarrow> clear_restored a kind i m b = Inr (b', flow) \<Longrightarrow> sip_inv a b'"
  by (auto simp: clear_restored_def Let_def split: if_splits)

lemma phase_cases:
  assumes "on_call_phase a lib act d i m b = Inr (b', flow)"
  obtains "br_blocked b" "br_restored b \<noteq> None" "b' = b" "flow = Abandon"
  | r where "br_blocked b" "clear_restored a (d @ ''_call_state'') i m
      (emit [Send [(''type'', JStr (d @ ''_call_terminate'')), (''epoch'', br_epoch b), (''request_id'', r), (''cause'', JInt 41)]]
        (b\<lparr>br_restored := Some i, br_restored_direction := d\<rparr>)) = Inr (b', flow)"
  | b1 where "on_own_state a lib act m b = Inr (b1, Go_on)" "is_identity i (br_identity b)" "d = br_direction b"
      "clear_restored a (d @ ''_call_state'') i m b1 = Inr (b', flow)"
  | "on_own_state a lib act m b = Inr (b', flow)" "is_identity i (br_identity b)" "d = br_direction b"
  | "clear_restored a (d @ ''_call_state'') i m b = Inr (b', flow)"
proof -
  let ?own = "is_identity i (br_identity b) \<and> d @ ''_call_state'' = br_direction b @ ''_call_state''"
  let ?snapshot = "br_blocked b \<and> \<not> eq_str (get_key m ''phase'') ''ended''"
  consider "?snapshot" "br_restored b \<noteq> None" | "?snapshot" "br_restored b = None" | "\<not> ?snapshot" ?own | "\<not> ?snapshot" "\<not> ?own"
    by blast
  then show ?thesis
  proof cases
    case 1
    then have "(b', flow) = (b, Abandon)" using assms by (simp add: on_call_phase_def rbind_def)
    then show ?thesis using 1 by (intro that(1)) simp_all
  next
    case 2
    then obtain r where "clear_restored a (d @ ''_call_state'') i m
      (emit [Send [(''type'', JStr (d @ ''_call_terminate'')), (''epoch'', br_epoch b), (''request_id'', r), (''cause'', JInt 41)]]
        (b\<lparr>br_restored := Some i, br_restored_direction := d\<rparr>)) = Inr (b', flow)"
      using assms by (auto simp: on_call_phase_def rbind_def split: option.splits)
    then show ?thesis using 2 by (intro that(2)) simp_all
  next
    case 3
    obtain b1 f1 where "on_own_state a lib act m b = Inr (b1, f1)"
      "(if f1 = Go_on then clear_restored a (d @ ''_call_state'') i m b1 else Inr (b1, f1)) = Inr (b', flow)"
      using assms 3 by (auto simp: on_call_phase_def Let_def rbind_eq_Inr)
    then show ?thesis using 3 by (cases "f1 = Go_on") (simp_all add: that(3,4))
  next
    case 4
    then have "clear_restored a (d @ ''_call_state'') i m b = Inr (b', flow)"
      using assms by (auto simp: on_call_phase_def Let_def rbind_def split: if_splits)
    then show ?thesis by (rule that(5))
  qed
qed

lemma terminate_inv:
  "sip_inv a b \<Longrightarrow> sip_inv a (emit [Send [(''type'', JStr t), (''epoch'', e), (''request_id'', r), (''cause'', c)]]
     (b\<lparr>br_restored := i, br_restored_direction := d\<rparr>))"
  by (rule sip_inv_emit) (simp_all add: connecting_def)

lemma own_identity: "is_identity i own \<Longrightarrow> own \<noteq> None"
  by (cases own) simp_all

lemma phase_inv:
  assumes "sip_inv a b" "on_call_phase a lib act d i m b = Inr (b', flow)"
  shows "sip_inv a b'"
  using assms(2)
proof (cases rule: phase_cases)
  case 1
  then show ?thesis using assms(1) by simp
next
  case (2 r)
  then show ?thesis by (intro clear_restored_inv [OF terminate_inv [OF assms(1)]])
next
  case (3 b1)
  show ?thesis by (rule clear_restored_inv [OF own_state_inv [OF assms(1) own_identity [OF 3(2)] 3(1)] 3(4)])
next
  case 4
  show ?thesis by (rule own_state_inv [OF assms(1) own_identity [OF 4(2)] 4(1)])
next
  case 5
  show ?thesis by (rule clear_restored_inv [OF assms(1) 5])
qed

lemma sip_inv_put: "sip_inv a b \<Longrightarrow> sip_inv a (on_endpoint (\<lambda>e. e\<lparr>ep_media := put_uplink pcm (ep_media e)\<rparr>) b)"
  by (simp add: sip_inv_def on_endpoint_def awaiting_def)

lemma uplink_inv: "sip_inv a b \<Longrightarrow> on_uplink a lib m b = Inr (b', flow) \<Longrightarrow> sip_inv a b'"
  by (auto simp: on_uplink_def Let_def rbind_eq_Inr intro!: sip_inv_emit sip_inv_put split: if_split_asm option.split_asm)

lemma message_inv: "sip_inv a b \<Longrightarrow> on_message a lib act m b = Inr (b', flow) \<Longrightarrow> sip_inv a b'"
  unfolding on_message_def Let_def
  by (simp split: if_split_asm) (blast dest: ready_inv network_inv outgoing_inv phase_inv uplink_inv)+

lemma step_inv: "sip_inv a b \<Longrightarrow> sip_step okm a lib b b' \<Longrightarrow> sip_inv a b'"
  by (elim sip_stepE) (auto intro: callback_inv message_inv downlink_inv event_inv dest: pop_inv simp del: split_paired_All)

interpretation bridge_inv: sip_invariant okm a lib "sip_inv a"
  by unfold_locales (rule step_inv)

section \<open>The gate for incoming calls\<close>

lemma gate_callback: "gate_ok b \<Longrightarrow> gate_ok (on_callback cb b)"
  by (cases cb) (auto simp: gate_ok_def on_callback_def on_incoming_call_def on_call_state_def sip_updates
      new_call_def Let_def split: option.splits)

lemma gate_event: "gate_ok b \<Longrightarrow> gate_ok (on_event (i, ev) b)"
  by (cases ev) (auto simp: gate_ok_def on_event_def sip_updates Let_def split: option.splits)

lemma gate_downlink:
  "gate_ok b \<Longrightarrow> send_downlink a lib time pcm (on_endpoint (\<lambda>e. e\<lparr>ep_media := m\<rparr>) b) = Inr b' \<Longrightarrow> gate_ok b'"
  by (auto simp: gate_ok_def send_downlink_def rbind_eq_Inr sip_updates split: option.splits)

lemma gate_messages:
  "on_ready lib act m b = Inr (b', flow) \<Longrightarrow> gate_ok b'"
  "on_network_state m b = Inr (b', flow) \<Longrightarrow> gate_ok b'"
  "gate_ok b \<Longrightarrow> on_outgoing_call a i m b = Inr (b', flow) \<Longrightarrow> gate_ok b'"
  "gate_ok b \<Longrightarrow> on_own_state a lib act m b = Inr (b', flow) \<Longrightarrow> gate_ok b'"
  "gate_ok b \<Longrightarrow> clear_restored a kind i m b = Inr (b', flow) \<Longrightarrow> gate_ok b'"
  "gate_ok b \<Longrightarrow> on_uplink a lib m b = Inr (b', flow) \<Longrightarrow> gate_ok b'"
  by (auto simp: gate_ok_def on_ready_def on_network_state_def on_outgoing_call_def on_own_state_def on_connected_def
      on_ended_def clear_restored_def on_uplink_def answer_def dial_def new_call_def new_media_state_def clear_call_def hangup_def
      sip_updates Let_def rbind_eq_Inr split: if_split_asm option.split_asm)

lemma gate_emit: "gate_ok (emit es (b\<lparr>br_restored := r, br_restored_direction := d\<rparr>)) = gate_ok b"
  by (simp add: gate_ok_def emit_def)

lemma gate_phase:
  assumes "gate_ok b" "on_call_phase a lib act d i m b = Inr (b', flow)"
  shows "gate_ok b'"
  using assms(2)
proof (cases rule: phase_cases)
  case 1
  then show ?thesis using assms(1) by simp
next
  case (2 r)
  then show ?thesis by (intro gate_messages(5) [OF gate_emit [THEN iffD2, OF assms(1)]])
next
  case (3 b1)
  show ?thesis by (rule gate_messages(5) [OF gate_messages(4) [OF assms(1) 3(1)] 3(4)])
next
  case 4
  show ?thesis by (rule gate_messages(4) [OF assms(1) 4(1)])
next
  case 5
  show ?thesis by (rule gate_messages(5) [OF assms(1) 5])
qed

lemma gate_message: "gate_ok b \<Longrightarrow> on_message a lib act m b = Inr (b', flow) \<Longrightarrow> gate_ok b'"
  unfolding on_message_def Let_def
  by (simp split: if_split_asm) (blast dest: gate_messages gate_phase)+

lemma gate_step: "gate_ok b \<Longrightarrow> sip_step okm a lib b b' \<Longrightarrow> gate_ok b'"
proof (elim sip_stepE)
  fix cb assume "gate_ok b" "b' = on_callback cb b"
  then show ?thesis by (simp add: gate_callback)
next
  fix act m flow assume "gate_ok b" "on_message a lib act m b = Inr (b', flow)"
  then show ?thesis by (rule gate_message)
next
  fix ev evs assume "gate_ok b" "b' = on_event ev (pop_event b)"
  moreover have "gate_ok b \<Longrightarrow> gate_ok (pop_event b)" by (simp add: gate_ok_def pop_event_def on_endpoint_def)
  ultimately show ?thesis by (cases ev) (simp add: gate_event)
qed (rule gate_downlink)

interpretation bridge_gate: sip_invariant okm a lib gate_ok
  by unfold_locales (rule gate_step)

end
