(* ===== verification/Sip_Claims.thy ===== *)
theory Sip_Claims
  imports Sip_Props
begin

text \<open>
  The properties of the SIP bridge, over whole runs where a run is what they are about, with the runs
  that show each can happen.
\<close>

section \<open>A laboratory\<close>

definition silent_gsm :: "unit libgsm" where
  "silent_gsm = \<lparr>gsm_found = True, gsm_create = Some (), gsm_encode = (\<lambda>g _. (g, replicate 33 0)),
     gsm_decode = (\<lambda>g _. (g, Some (replicate 160 0)))\<rparr>"

definition sample_sip_args :: sip_args where
  "sample_sip_args = \<lparr>arg_destination = ''sip:lab@127.0.0.1'', arg_once = False, arg_calls = 0,
     arg_require_frames = 0, arg_record_pcm = False\<rparr>"

definition hearing :: "callback list \<Rightarrow> (string \<times> json) list \<Rightarrow> sip_input" where
  "hearing cbs kvs = \<lparr>in_callbacks = cbs, in_message = (if kvs = [] then None else Some (map_of kvs)),
     in_active = True, in_clock = (\<lambda>_. (0, 0))\<rparr>"

section \<open>Callers\<close>

lemma is_space_marks [simp]: "\<not> is_space CHR ''<''" "\<not> is_space CHR ''>''"
  by (simp_all add: is_space_def)

lemma dropWhile_keep: "\<not> p x \<Longrightarrow> \<exists>pre. dropWhile p (xs @ x # ys) = pre @ x # ys"
  by (induction xs) auto

lemma strip_name_address: "\<exists>pre. strip (display @ CHR ''<'' # uri @ ''>'') = pre @ CHR ''<'' # uri @ ''>''"
proof -
  obtain pre where "dropWhile is_space (display @ CHR ''<'' # (uri @ ''>'')) = pre @ CHR ''<'' # uri @ ''>''"
    using dropWhile_keep [of is_space "CHR ''<''" display "uri @ ''>''"] by auto
  then show ?thesis by (auto simp: strip_def)
qed

lemma after_last_append: "c \<notin> set s \<Longrightarrow> after_last c (pre @ c # s) = s"
proof -
  assume "c \<notin> set s"
  then have t: "takeWhile (\<lambda>d. d \<noteq> c) (rev s) = rev s" by (auto simp: takeWhile_eq_all_conv)
  have "after_last c (pre @ c # s) = rev (takeWhile (\<lambda>d. d \<noteq> c) (rev s))"
    by (simp add: after_last_def takeWhile_tail)
  then show ?thesis by (simp only: t rev_rev_ident)
qed

definition caller_ok :: "string \<Rightarrow> bool" where
  "caller_ok number \<longleftrightarrow> list_all is_digit_char number \<and> 1 \<le> length number \<and> length number \<le> 20"

definition host_ok :: "string \<Rightarrow> bool" where
  "host_ok host \<longleftrightarrow> host \<noteq> [] \<and> list_all (\<lambda>c. c \<noteq> CHR ''<'' \<and> c \<noteq> CHR ''>'' \<and> \<not> is_space c) host"

lemma sip_user_number:
  assumes "caller_ok number" "host_ok host"
  shows "sip_user (''sip:'' @ number @ ''@'' @ host) = Some number"
proof -
  have "\<not> is_digit_char CHR ''@''" by (simp add: is_digit_char_def char_code_def)
  then have "takeWhile is_digit_char (number @ CHR ''@'' # host) = number" "dropWhile is_digit_char (number @ CHR ''@'' # host) = CHR ''@'' # host"
    using assms(1) by (simp_all add: caller_ok_def list_all_iff)
  then show ?thesis using assms by (simp add: sip_user_def caller_ok_def host_ok_def)
qed

lemma digit_not_open: "is_digit_char c \<Longrightarrow> c \<noteq> CHR ''<''"
  by (auto simp: is_digit_char_def char_code_def)

text \<open>The caller of a name-address is the user part of its URI, whatever the display name, even one
  with angle brackets of its own.\<close>
theorem caller_of_name_address:
  assumes "caller_ok number" "host_ok host"
  shows "incoming_caller_of (display @ ''<sip:'' @ number @ ''@'' @ host @ ''>'') = Some number"
proof -
  let ?uri = "''sip:'' @ number @ ''@'' @ host"
  obtain pre where s: "strip (display @ CHR ''<'' # ?uri @ ''>'') = pre @ CHR ''<'' # ?uri @ ''>''"
    using strip_name_address by blast
  have "CHR ''<'' \<notin> set (?uri @ ''>'')"
    using assms digit_not_open by (auto simp: caller_ok_def host_ok_def list_all_iff)
  then have "after_last CHR ''<'' (pre @ CHR ''<'' # ?uri @ ''>'') = ?uri @ ''>''"
    by (rule after_last_append)
  moreover have "suffix ''>'' (pre @ CHR ''<'' # ?uri @ ''>'')"
    by (simp add: suffix_def)
  ultimately have "incoming_caller_of (display @ CHR ''<'' # ?uri @ ''>'') = sip_user (butlast (?uri @ ''>''))"
    by (simp only: incoming_caller_of_def Let_def s) simp
  also have "\<dots> = Some number" using sip_user_number [OF assms] by (simp add: butlast_append)
  finally show ?thesis by simp
qed

theorem caller_of_name_address_witness:
  "incoming_caller_of (''<A> '' @ ''<sip:'' @ ''5551234'' @ ''@'' @ ''host'' @ ''>'') = Some ''5551234''"
  by (rule caller_of_name_address [of "''5551234''" "''host''" "''<A> ''"]; code_simp)

section \<open>The downlink\<close>

lemma send_downlink_counts:
  "send_downlink a lib t pcm b = Inr b' \<Longrightarrow>
    br_downlink_frames b' = br_downlink_frames b + 1 \<and> br_connected b' = br_connected b"
  by (auto simp: send_downlink_def rbind_eq_Inr emit_def split: option.splits)

lemma pump_rate:
  "pump a lib clock k b = Inr b' \<Longrightarrow> s \<le> mq_next_downlink_at (ep_media (br_endpoint b)) \<or> (\<forall>i. s \<le> fst (clock i)) \<Longrightarrow>
   \<forall>i. fst (clock i) < s + 20000 * int n \<Longrightarrow> br_downlink_frames b' \<le> br_downlink_frames b + int n"
proof (induction a lib clock k b arbitrary: b' s n rule: pump.induct)
  case (1 a lib clock k b)
  let ?t = "fst (clock k)"
  show ?case
  proof (cases "br_connected b \<and> returns (take_downlink ?t (ep_media (br_endpoint b)))")
    case True
    then obtain pcm m where c: "br_connected b" and t: "take_downlink ?t (ep_media (br_endpoint b)) = Inr (pcm, m)"
      by auto
    obtain b1 where s: "send_downlink a lib (snd (clock k)) pcm (on_endpoint (\<lambda>e. e\<lparr>ep_media := m\<rparr>) b) = Inr b1"
      and r: "pump a lib clock (k + 1) b1 = Inr b'"
      using "1.prems"(1) c t by (subst (asm) pump.simps) (auto split: sum.splits)
    have m: "mq_next_downlink_at (ep_media (br_endpoint b1)) = ?t + 20000" "mq_next_downlink_at (ep_media (br_endpoint b)) \<le> ?t"
      using t send_downlink_endpoint [OF s] by (auto simp: take_downlink_def on_endpoint_def split: if_splits list.splits)
    have f: "br_downlink_frames b1 = br_downlink_frames b + 1"
      using send_downlink_counts [OF s] by (simp add: on_endpoint_def)
    have "s \<le> ?t" using "1.prems"(2) m(2) by (meson order_trans)
    moreover have "?t < s + 20000 * int n" using "1.prems"(3) by blast
    ultimately have "0 < n" by (cases n) auto
    then obtain n1 where n: "n = Suc n1" by (cases n) auto
    have "br_downlink_frames b' \<le> br_downlink_frames b1 + int n1"
    proof (rule "1.IH" [OF _ t refl s r, of "s + 20000"])
      show "\<not> \<not> br_connected b" using c by simp
      show "s + 20000 \<le> mq_next_downlink_at (ep_media (br_endpoint b1)) \<or> (\<forall>i. s + 20000 \<le> fst (clock i))"
        using \<open>s \<le> ?t\<close> m(1) by simp
      show "\<forall>i. fst (clock i) < s + 20000 + 20000 * int n1" using "1.prems"(3) by (simp add: n algebra_simps)
    qed
    then show ?thesis using f n by simp
  next
    case False
    then have "pump a lib clock k b = Inr b" by (subst pump.simps) (auto split: sum.splits)
    then show ?thesis using "1.prems" by simp
  qed
qed

text \<open>C16: In one pass the pump never bursts buffered audio: while the clock stays within \<open>n\<close> frame times
  of 20 ms from its first reading, at most \<open>n\<close> frames go to the emulator.\<close>
theorem downlink_paced:
  assumes "pump a lib clock 0 b = Inr b'"
    "\<forall>i. s \<le> fst (clock i) \<and> fst (clock i) < s + 20000 * int n"
  shows "br_downlink_frames b' \<le> br_downlink_frames b + int n"
  by (rule pump_rate [OF assms(1), of s]) (use assms(2) in auto)

definition buffered :: "unit sip_bridge" where
  "buffered = (start_bridge sample_sip_args \<lparr>fr_encoder = Some (), fr_decoder = Some ()\<rparr>)
     \<lparr>br_identity := Some (JInt 1, JInt 1), br_connected := True,
      br_endpoint := new_endpoint\<lparr>ep_media := new_queues\<lparr>mq_downlink := replicate 3 (replicate 320 0)\<rparr>\<rparr>\<rparr>"

lemma buffered_pump:
  "case pump sample_sip_args silent_gsm (\<lambda>_. (40000, 0)) 0 buffered of Inl _ \<Rightarrow> False
   | Inr b \<Rightarrow> br_downlink_frames b = 1 \<and> length (mq_downlink (ep_media (br_endpoint b))) = 2"
  by code_simp

theorem downlink_paced_witness:
  "\<exists>b. pump sample_sip_args silent_gsm (\<lambda>_. (40000, 0)) 0 buffered = Inr b
     \<and> br_downlink_frames b \<le> br_downlink_frames buffered + int 1"
proof -
  obtain b where b: "pump sample_sip_args silent_gsm (\<lambda>_. (40000, 0)) 0 buffered = Inr b"
    using buffered_pump by (auto split: sum.splits)
  show ?thesis using downlink_paced [OF b, of 40000 1] b by auto
qed

section \<open>Messages of a run\<close>

text \<open>C14: In every run a connect decision answers a call that the bridge dialled and that the far end
  confirmed, and there are no more of them than dialled calls.\<close>
theorem connect_answers_dial:
  assumes "bridge a lib inps = Inr (b, goes_on)"
  shows "(\<forall>r. Send r \<in> set (br_out b) \<and> connecting r \<longrightarrow> connect_justified a (br_out b) r)
    \<and> length (filter is_connect (br_out b)) \<le> length (filter is_dial (br_out b))"
proof -
  have "sip_inv a b"
    by (rule bridge_inv.bridge_keeps [OF start_inv _ assms, of "\<lambda>_. True"])
      (simp add: input_ok_def list_all_iff split: option.splits)
  then show ?thesis by (simp add: sip_inv_def connects_ok_def)
qed

text \<open>C15: In every state a run reaches, incoming calls are only accepted while the handset is registered
  and no restored call blocks the bridge, the media queues hold at most eight frames of 320 bytes each,
  and a bridge that owns no call is neither connected nor has decided.\<close>
theorem bridge_state_safe:
  assumes "bridge a lib inps = Inr (b, goes_on)"
  shows "(ep_incoming_enabled (br_endpoint b) \<longrightarrow> br_registered b \<and> \<not> br_blocked b)
    \<and> queues_ok (ep_media (br_endpoint b)) \<and> (br_identity b = None \<longrightarrow> \<not> br_decision b \<and> \<not> br_connected b)"
proof -
  have all: "list_all (input_ok (\<lambda>_. True)) inps"
    by (simp add: input_ok_def list_all_iff split: option.splits)
  have "sip_inv a b" by (rule bridge_inv.bridge_keeps [OF start_inv all assms])
  moreover have "gate_ok b"
    by (rule bridge_gate.bridge_keeps [OF _ all assms]) (simp add: gate_ok_def start_bridge_def new_endpoint_def)
  ultimately show ?thesis by (simp add: sip_inv_def gate_ok_def)
qed

section \<open>An invite of an epoch that is over\<close>

definition not_ready :: "message \<Rightarrow> bool" where
  "not_ready m \<longleftrightarrow> \<not> eq_str (get_key m ''type'') ''call_adapter_ready''"

definition stale :: "identity \<Rightarrow> json \<Rightarrow> effect list \<Rightarrow> 'g sip_bridge \<Rightarrow> bool" where
  "stale i e dialled b \<longleftrightarrow> br_identity b = Some i \<and> br_epoch b = e \<and> \<not> json_eq (fst i) e
     \<and> filter is_dial (br_out b) = dialled"

lemma stale_emit: "stale i e ds b \<Longrightarrow> filter is_dial es = [] \<Longrightarrow> stale i e ds (emit es b)"
  by (simp add: stale_def emit_def)

lemma stale_callback: "stale i e ds b \<Longrightarrow> stale i e ds (on_callback cb b)"
  by (cases cb) (auto simp: on_callback_def on_incoming_call_def on_call_state_def sip_updates stale_def Let_def split: option.splits)

lemma stale_event: "stale i e ds b \<Longrightarrow> stale i e ds (on_event (j, ev) b)"
  by (cases ev) (auto simp: on_event_def sip_updates stale_def Let_def split: option.splits)

lemma stale_downlink: "stale i e ds b \<Longrightarrow> send_downlink a lib time pcm (on_endpoint f b) = Inr b' \<Longrightarrow> stale i e ds b'"
  by (auto simp: send_downlink_def rbind_eq_Inr sip_updates stale_def)

lemma stale_foreign: "stale i e ds b \<Longrightarrow> \<not> is_identity (br_epoch b, r) (br_identity b)"
  by (auto simp: stale_def is_identity_def same_identity_def json_eq_def)

lemma stale_message:
  assumes "stale i e ds b" "not_ready m" "on_message a lib act m b = Inr (b', flow)"
  shows "stale i e ds b'"
proof -
  have clear: "stale i e ds b1 \<Longrightarrow> clear_restored a kind j m b1 = Inr (b', flow) \<Longrightarrow> stale i e ds b'" for b1 kind j
    by (auto simp: clear_restored_def stale_def sip_updates Let_def split: if_splits)
  have phase: "stale i e ds b'" if "on_call_phase a lib act d (br_epoch b, get_key m ''request_id'') m b = Inr (b', flow)" for d
    using that
  proof (cases rule: phase_cases)
    case (2 r)
    show ?thesis by (rule clear [OF _ 2(2)], rule stale_emit) (use assms(1) in \<open>simp_all add: stale_def\<close>)
  qed (use assms(1) stale_foreign [OF assms(1)] clear in auto)
  have "on_network_state m b = Inr (b', flow) \<Longrightarrow> stale i e ds b'"
    using assms(1) by (auto simp: on_network_state_def stale_def sip_updates Let_def)
  moreover have "on_outgoing_call a j m b = Inr (b', flow) \<Longrightarrow> stale i e ds b'" for j
    using assms(1) by (auto simp: on_outgoing_call_def stale_def emit_def Let_def split: if_splits)
  moreover have "on_uplink a lib m b = Inr (b', flow) \<Longrightarrow> stale i e ds b'"
    using assms(1) by (auto simp: on_uplink_def stale_def sip_updates Let_def rbind_eq_Inr split: if_splits option.splits)
  ultimately show ?thesis
    using assms phase unfolding on_message_def Let_def not_ready_def by (simp split: if_split_asm)
qed

interpretation stale_epoch: sip_invariant not_ready a lib "stale i e ds"
proof
  fix b b' assume "stale i e ds b" "sip_step not_ready a lib b b'"
  moreover have "stale i e ds b \<Longrightarrow> stale i e ds (pop_event b)"
    by (simp add: stale_def pop_event_def on_endpoint_def)
  moreover have "stale i e ds b \<Longrightarrow> stale i e ds (on_event ev b)" for ev b
    by (cases ev) (simp add: stale_event)
  ultimately show "stale i e ds b'"
    by (elim sip_stepE) (auto intro: stale_callback stale_message stale_downlink simp del: split_paired_All)
qed

definition ready_in :: "int \<Rightarrow> (string \<times> json) list" where
  "ready_in e = [(''type'', JStr ''call_adapter_ready''), (''protocol_version'', JInt 1), (''epoch'', JInt e),
     (''calls_idle'', JBool True)]"

definition registered_in :: "int \<Rightarrow> (string \<times> json) list" where
  "registered_in e = [(''type'', JStr ''network_state''), (''epoch'', JInt e), (''registered'', JBool True)]"

definition stale_start :: "sip_input list" where
  "stale_start = [hearing [] (ready_in 1), hearing [] (registered_in 1),
     hearing [Incoming_call ''<sip:5551234@host>'' False] (ready_in 2)]"

definition stale_rest :: "sip_input list" where
  "stale_rest = [hearing [] (registered_in 2), hearing [Call_state 0 (Some (Disconnected 487))] [],
     hearing [] [(''type'', JStr ''outgoing_call''), (''epoch'', JInt 2), (''request_id'', JInt 9), (''digits'', JStr ''123'')]]"

text \<open>C17: A bridge that owns a call of another epoch than the current one keeps it and dials no outgoing
  call, whatever it hears, until the emulator announces another epoch.  The witness reaches the state:
  an invite and the announcement of a new epoch arrive in the same iteration, the invite is adopted with
  the old epoch, and after the caller hung up an outgoing call of the new epoch is ignored.\<close>
theorem stale_invite_wedges:
  assumes "br_identity b = Some i" "\<not> json_eq (fst i) (br_epoch b)"
    "list_all (input_ok not_ready) inps" "run_sip a lib b inps = Inr (b', goes_on)"
  shows "br_identity b' = Some i \<and> filter is_dial (br_out b') = filter is_dial (br_out b)"
proof -
  have "stale i (br_epoch b) (filter is_dial (br_out b)) b" using assms(1,2) by (simp add: stale_def)
  then have "stale i (br_epoch b) (filter is_dial (br_out b)) b'"
    by (rule stale_epoch.run_keeps [OF _ assms(3,4)])
  then show ?thesis by (simp add: stale_def)
qed

definition stale_adopted :: "unit sip_bridge \<Rightarrow> bool" where
  "stale_adopted b \<longleftrightarrow> br_identity b = Some (JInt 1, JInt 1) \<and> br_epoch b = JInt 2"

lemma stale_run:
  "case bridge sample_sip_args silent_gsm stale_start of Inl _ \<Rightarrow> False
   | Inr (b, goes_on) \<Rightarrow> stale_adopted b \<and>
       (case run_sip sample_sip_args silent_gsm b stale_rest of Inl _ \<Rightarrow> False | Inr _ \<Rightarrow> True)"
  by code_simp

theorem stale_invite_wedges_witness:
  "\<exists>b b' goes_on. bridge sample_sip_args silent_gsm stale_start = Inr (b, goes_on)
     \<and> run_sip sample_sip_args silent_gsm b stale_rest = Inr b' \<and> br_identity (fst b') = Some (JInt 1, JInt 1)
     \<and> filter is_dial (br_out (fst b')) = filter is_dial (br_out b)"
proof -
  obtain b goes_on where r: "bridge sample_sip_args silent_gsm stale_start = Inr (b, goes_on)" "stale_adopted b"
    and q: "case run_sip sample_sip_args silent_gsm b stale_rest of Inl _ \<Rightarrow> False | Inr _ \<Rightarrow> True"
    using stale_run by (auto split: sum.splits)
  obtain b' g where s: "run_sip sample_sip_args silent_gsm b stale_rest = Inr (b', g)"
    using q by (auto split: sum.splits)
  have "list_all (input_ok not_ready) stale_rest"
    by (simp add: stale_rest_def hearing_def registered_in_def input_ok_def not_ready_def get_key_def eq_str_def)
  moreover have "\<not> json_eq (fst (JInt 1, JInt 1)) (br_epoch b)" using r(2) by (simp add: stale_adopted_def json_eq_def)
  moreover have "br_identity b = Some (JInt 1, JInt 1)" using r(2) by (simp add: stale_adopted_def)
  ultimately have "br_identity b' = Some (JInt 1, JInt 1) \<and> filter is_dial (br_out b') = filter is_dial (br_out b)"
    using stale_invite_wedges [OF _ _ _ s] by blast
  then show ?thesis using r s by auto
qed

section \<open>A physical answer after the caller hung up\<close>

text \<open>C18: When the caller gives up before the handset answers, the bridge releases the native call but
  keeps following the handset's; a \<open>connected\<close> phase that was already under way then raises an
  \<open>AttributeError\<close>, which \<open>main\<close> does not catch.\<close>
theorem late_answer_raises:
  assumes "br_identity b = Some i" "br_direction b = ''incoming''" "\<not> br_decision b" "\<not> br_blocked b"
    "ep_call_identity (br_endpoint b) = Some i"
    "get_key m ''type'' = JStr ''incoming_call_state''" "json_eq (get_key m ''epoch'') (br_epoch b)"
    "same_identity (br_epoch b, get_key m ''request_id'') i" "get_key m ''phase'' = JStr ''connected''"
    "m ''media_downlink_sequence'' \<noteq> None"
  shows "on_message a lib act m (on_event (i, Disconnected status) b) = Inl AttributeError"
proof -
  let ?b = "on_event (i, Disconnected status) b"
  have f: "ep_call (br_endpoint ?b) = None" "br_identity ?b = Some i" "br_direction ?b = ''incoming''" "\<not> br_decision ?b"
    "\<not> br_blocked ?b" "br_epoch ?b = br_epoch b"
    using assms by (auto simp: on_event_def sip_updates release_def is_identity_def same_identity_def json_eq_def)
  have "on_connected m ?b = Inl AttributeError"
    using assms(10) f by (auto simp: on_connected_def Let_def answer_def rbind_def)
  then have "on_own_state a lib act m ?b = Inl AttributeError"
    using assms(9) by (simp add: on_own_state_def Let_def eq_str_def)
  then have "on_call_phase a lib act ''incoming'' (br_epoch b, get_key m ''request_id'') m ?b = Inl AttributeError"
    using f assms(8) by (simp add: on_call_phase_def Let_def is_identity_def rbind_def)
  then show ?thesis using assms(6,7) f by (simp add: on_message_def Let_def eq_str_def)
qed

definition ringing :: "unit sip_bridge" where
  "ringing = (case bridge sample_sip_args silent_gsm
       [hearing [] (ready_in 1), hearing [] (registered_in 1), hearing [Incoming_call ''<sip:5551234@host>'' False] []] of
     Inr (b, _) \<Rightarrow> b | Inl _ \<Rightarrow> undefined)"

definition picked_up :: message where
  "picked_up = map_of [(''type'', JStr ''incoming_call_state''), (''epoch'', JInt 1), (''request_id'', JInt 1),
     (''phase'', JStr ''connected''), (''media_downlink_sequence'', JInt 0)]"

lemma ringing_facts:
  "br_identity ringing = Some (JInt 1, JInt 1) \<and> br_direction ringing = ''incoming'' \<and> \<not> br_decision ringing
   \<and> \<not> br_blocked ringing \<and> ep_call_identity (br_endpoint ringing) = Some (JInt 1, JInt 1) \<and> br_epoch ringing = JInt 1"
  by code_simp

theorem late_answer_raises_witness:
  "on_message sample_sip_args silent_gsm False picked_up (on_event ((JInt 1, JInt 1), Disconnected 487) ringing) = Inl AttributeError"
  by (rule late_answer_raises)
    (use ringing_facts in \<open>simp_all add: picked_up_def get_key_def json_eq_def same_identity_def\<close>)

section \<open>Runs that reach the other cases\<close>

definition answered_inputs :: "sip_input list" where
  "answered_inputs = [hearing [] (ready_in 1), hearing [] (registered_in 1),
     hearing [] [(''type'', JStr ''outgoing_call''), (''epoch'', JInt 1), (''request_id'', JInt 9), (''digits'', JStr ''123'')],
     hearing [Call_state 0 (Some (Confirmed 200))] []]"

lemma answered_run:
  "case bridge sample_sip_args silent_gsm answered_inputs of Inl _ \<Rightarrow> False
   | Inr (b, goes_on) \<Rightarrow> length (filter is_connect (br_out b)) = 1"
  by code_simp

theorem connect_answers_dial_witness:
  "\<exists>b goes_on. bridge sample_sip_args silent_gsm answered_inputs = Inr (b, goes_on)
     \<and> 1 = length (filter is_connect (br_out b)) \<and> 1 \<le> length (filter is_dial (br_out b))"
proof -
  obtain b g where b: "bridge sample_sip_args silent_gsm answered_inputs = Inr (b, g)" "length (filter is_connect (br_out b)) = 1"
    using answered_run by (auto split: sum.splits)
  then show ?thesis using connect_answers_dial [OF b(1)] by auto
qed

theorem bridge_state_safe_witness:
  "\<exists>b goes_on. bridge sample_sip_args silent_gsm answered_inputs = Inr (b, goes_on) \<and> queues_ok (ep_media (br_endpoint b))"
proof -
  obtain b g where b: "bridge sample_sip_args silent_gsm answered_inputs = Inr (b, g)"
    using answered_run by (auto split: sum.splits)
  then show ?thesis using bridge_state_safe [OF b] by auto
qed

end
