(* ===== verification/Py_Regex.thy ===== *)
theory Py_Regex
  imports Py_Text
begin

text \<open>
  The part of Python's \<open>re\<close> that the gate tools use: a backtracking matcher over text of characters up
  to U+00FF.  \<open>rx_ends r s p\<close> lists the positions where a match of \<open>r\<close> from \<open>p\<close> may end, in the
  order the backtracking tries them, so that the head of the list is the match Python reports.  A
  pattern is a sequence of expressions, some of them capturing.
\<close>

definition is_word :: "char \<Rightarrow> bool" where
  "is_word c \<longleftrightarrow> (let n = char_code c in
     48 \<le> n \<and> n \<le> 57 \<or> 65 \<le> n \<and> n \<le> 90 \<or> n = 95 \<or> 97 \<le> n \<and> n \<le> 122
     \<or> n \<in> {0xAA, 0xB2, 0xB3, 0xB5, 0xB9, 0xBA, 0xBC, 0xBD, 0xBE} \<or> 0xC0 \<le> n \<and> n \<noteq> 0xD7 \<and> n \<noteq> 0xF7)"

definition char_between :: "char \<Rightarrow> char \<Rightarrow> char \<Rightarrow> bool" where
  "char_between lo hi c \<longleftrightarrow> char_code lo \<le> char_code c \<and> char_code c \<le> char_code hi"

datatype rx =
    Eps
  | One "char \<Rightarrow> bool"
  | Seq rx rx
  | Alt rx rx
  | Many rx
  | Lazily rx
  | Word_edge
  | Not_ahead rx
  | Line_start
  | Text_end

definition lit :: "string \<Rightarrow> rx" where
  "lit s = foldr (\<lambda>c r. Seq (One (\<lambda>d. d = c)) r) s Eps"

definition some :: "rx \<Rightarrow> rx" where
  "some r = Seq r (Many r)"

definition opt :: "rx \<Rightarrow> rx" where
  "opt r = Alt r Eps"

definition any_of :: "rx list \<Rightarrow> rx" where
  "any_of rs = foldr Alt (butlast rs) (last rs)"

definition seq :: "rx list \<Rightarrow> rx" where
  "seq rs = foldr Seq rs Eps"

text \<open>The repetitions of a body that moves on, greedy and lazy; \<open>n\<close> is the text left.\<close>

primrec repeats :: "(nat \<Rightarrow> nat list) \<Rightarrow> nat \<Rightarrow> nat \<Rightarrow> nat list" where
  "repeats f 0 p = [p]"
| "repeats f (Suc n) p = concat (map (repeats f n) (filter (\<lambda>q. p < q) (f p))) @ [p]"

primrec lazy_repeats :: "(nat \<Rightarrow> nat list) \<Rightarrow> nat \<Rightarrow> nat \<Rightarrow> nat list" where
  "lazy_repeats f 0 p = [p]"
| "lazy_repeats f (Suc n) p = p # concat (map (lazy_repeats f n) (filter (\<lambda>q. p < q) (f p)))"

primrec rx_ends :: "rx \<Rightarrow> string \<Rightarrow> nat \<Rightarrow> nat list" where
  "rx_ends Eps s p = [p]"
| "rx_ends (One c) s p = (if p < length s \<and> c (s ! p) then [Suc p] else [])"
| "rx_ends (Seq a b) s p = concat (map (rx_ends b s) (rx_ends a s p))"
| "rx_ends (Alt a b) s p = rx_ends a s p @ rx_ends b s p"
| "rx_ends (Many a) s p = repeats (rx_ends a s) (length s - p) p"
| "rx_ends (Lazily a) s p = lazy_repeats (rx_ends a s) (length s - p) p"
| "rx_ends Word_edge s p =
     (if (0 < p \<and> is_word (s ! (p - 1))) \<noteq> (p < length s \<and> is_word (s ! p)) then [p] else [])"
| "rx_ends (Not_ahead a) s p = (if rx_ends a s p = [] then [p] else [])"
| "rx_ends Line_start s p = (if p = 0 \<or> s ! (p - 1) = CHR 0x0A then [p] else [])"
| "rx_ends Text_end s p = (if p = length s \<or> Suc p = length s \<and> s ! p = CHR 0x0A then [p] else [])"

text \<open>A pattern with its groups: what they captured and where the match ends.\<close>

type_synonym pattern = "(bool \<times> rx) list"

fun match_at :: "pattern \<Rightarrow> string \<Rightarrow> nat \<Rightarrow> (string list \<times> nat) list" where
  "match_at [] s p = [([], p)]"
| "match_at ((captures, r) # rest) s p =
     concat (map (\<lambda>q. map (\<lambda>(groups, e). ((if captures then take (q - p) (drop p s) # groups else groups), e))
       (match_at rest s q)) (rx_ends r s p))"

definition rx_match :: "pattern \<Rightarrow> string \<Rightarrow> string list option" where
  "rx_match pat s = (case match_at pat s 0 of [] \<Rightarrow> None | (groups, _) # _ \<Rightarrow> Some groups)"

text \<open>\<open>re.search\<close> and \<open>re.findall\<close>: the leftmost match from each position on; the search goes on after a
  match, or one character further if the match is empty.\<close>

function rx_findall :: "pattern \<Rightarrow> string \<Rightarrow> nat \<Rightarrow> string list list" where
  "rx_findall pat s p =
     (if length s < p then []
      else case match_at pat s p of
          [] \<Rightarrow> rx_findall pat s (Suc p)
        | (groups, e) # _ \<Rightarrow> groups # rx_findall pat s (if p < e then e else Suc p))"
  by pat_completeness auto
termination
  by (relation "measure (\<lambda>(pat, s, p). Suc (length s) - p)") auto

declare rx_findall.simps [simp del]

definition rx_search :: "pattern \<Rightarrow> string \<Rightarrow> bool" where
  "rx_search pat s \<longleftrightarrow> rx_findall pat s 0 \<noteq> []"

lemma rx_search_iff: "rx_search pat s \<longleftrightarrow> (\<exists>p \<le> length s. match_at pat s p \<noteq> [])"
proof -
  have "rx_findall pat s p \<noteq> [] \<longleftrightarrow> (\<exists>q. p \<le> q \<and> q \<le> length s \<and> match_at pat s q \<noteq> [])" for p
  proof (induction pat s p rule: rx_findall.induct)
    case (1 pat s p)
    show ?case
    proof (cases "length s < p")
      case False
      show ?thesis
      proof (cases "match_at pat s p")
        case Nil
        have "rx_findall pat s p = rx_findall pat s (Suc p)" using False Nil by (simp add: rx_findall.simps [of pat s p])
        moreover have "(\<exists>q. p \<le> q \<and> q \<le> length s \<and> match_at pat s q \<noteq> []) \<longleftrightarrow>
            (\<exists>q. Suc p \<le> q \<and> q \<le> length s \<and> match_at pat s q \<noteq> [])"
          using Nil by (metis Suc_leD Suc_leI le_neq_implies_less)
        ultimately show ?thesis using "1.IH"(1) [OF False Nil] by simp
      next
        case (Cons m ms)
        then have "rx_findall pat s p \<noteq> []" using False
          by (cases m) (simp add: rx_findall.simps [of pat s p])
        then show ?thesis using Cons False by auto
      qed
    qed (auto simp: rx_findall.simps [of pat s p])
  qed
  then show ?thesis by (auto simp: rx_search_def)
qed

text \<open>A match has as many groups as its pattern has capturing parts.\<close>

lemma match_at_groups: "(groups, e) \<in> set (match_at pat s p) \<Longrightarrow> length groups = length (filter fst pat)"
  by (induction pat s p arbitrary: groups e rule: match_at.induct) auto

lemma findall_groups: "groups \<in> set (rx_findall pat s p) \<Longrightarrow> length groups = length (filter fst pat)"
proof (induction pat s p rule: rx_findall.induct)
  case (1 pat s p)
  show ?case
  proof (cases "length s < p")
    case False
    show ?thesis
    proof (cases "match_at pat s p")
      case Nil
      then show ?thesis using 1 False by (simp add: rx_findall.simps [of pat s p])
    next
      case (Cons m ms)
      obtain found e where m: "m = (found, e)" by (cases m)
      have "length found = length (filter fst pat)" by (rule match_at_groups [of _ e _ s p]) (simp add: Cons m)
      moreover have "groups = found \<or> groups \<in> set (rx_findall pat s (if p < e then e else Suc p))"
        using "1.prems" False Cons m by (simp add: rx_findall.simps [of pat s p])
      ultimately show ?thesis using "1.IH"(2) [OF False Cons m [symmetric]] by auto
    qed
  qed (use 1 in \<open>simp add: rx_findall.simps [of pat s p]\<close>)
qed

section \<open>Words\<close>

text \<open>\<open>s.split()\<close>: the runs of characters that are not white space.\<close>

function split_space :: "string \<Rightarrow> string list" where
  "split_space s =
     (case dropWhile is_space s of
        [] \<Rightarrow> []
      | c # cs \<Rightarrow> takeWhile (\<lambda>d. \<not> is_space d) (c # cs) # split_space (dropWhile (\<lambda>d. \<not> is_space d) (c # cs)))"
  by pat_completeness auto
termination
proof (relation "measure length")
  fix s c cs assume h: "dropWhile is_space s = c # cs"
  then have "\<not> is_space c" using hd_dropWhile [of is_space s] by simp
  moreover have "length (c # cs) \<le> length s" using h by (metis length_dropWhile_le)
  ultimately show "(dropWhile (\<lambda>d. \<not> is_space d) (c # cs), s) \<in> measure length"
    using length_dropWhile_le [of "\<lambda>d. \<not> is_space d" cs] by simp
qed simp

declare split_space.simps [simp del]

text \<open>\<open>s.rstrip(x)\<close> and \<open>s.lstrip(x)\<close> of one character.\<close>

definition rstrip_char :: "char \<Rightarrow> string \<Rightarrow> string" where
  "rstrip_char c s = rev (dropWhile (\<lambda>d. d = c) (rev s))"

definition lstrip_char :: "char \<Rightarrow> string \<Rightarrow> string" where
  "lstrip_char c s = dropWhile (\<lambda>d. d = c) s"

text \<open>\<open>sorted(set(xs))\<close> of strings, which compare by code points.\<close>

definition sorted_set :: "'a :: linorder list \<Rightarrow> 'a list" where
  "sorted_set xs = sort (remdups xs)"

lemma set_sorted_set [simp]: "set (sorted_set xs) = set xs"
  by (simp add: sorted_set_def)

lemma sorted_sorted_set [simp]: "sorted (sorted_set xs)" "distinct (sorted_set xs)"
  by (simp_all add: sorted_set_def)

end
