(* ===== verification/Gate_Matrix.thy ===== *)
theory Gate_Matrix
  imports Py_Regex "HOL-Library.List_Lexorder" "HOL-Library.AList"
begin

text \<open>
  The extraction of the acceptance gates from makefile text, \<open>tools/gate_matrix.py\<close>: the split of the
  text into gate blocks and the text between them, the decomposition of a recipe into typed steps, the
  gate records and the rendering back to text.  A dictionary is an association list in its insertion
  order.
\<close>

section \<open>Patterns\<close>

definition lower_digit :: "char \<Rightarrow> bool" where
  "lower_digit c \<longleftrightarrow> char_between CHR ''a'' CHR ''z'' c \<or> char_between CHR ''0'' CHR ''9'' c"

definition target_pattern :: pattern where
  "target_pattern = [(False, Line_start), (True, Seq (lit ''verify'') (Many (One (\<lambda>c. lower_digit c \<or> c = CHR ''-'')))),
     (False, seq [Many (One is_space), lit '':'', Not_ahead (lit ''='')]),
     (True, Many (One (\<lambda>c. c \<noteq> CHR 0x0A))), (False, Text_end)]"

definition upper_name :: rx where
  "upper_name = Seq (One (\<lambda>c. char_between CHR ''A'' CHR ''Z'' c \<or> c = CHR ''_''))
     (Many (One (\<lambda>c. char_between CHR ''A'' CHR ''Z'' c \<or> char_between CHR ''0'' CHR ''9'' c \<or> c = CHR ''_'')))"

definition assign_pattern :: pattern where
  "assign_pattern = [(False, Line_start), (True, upper_name),
     (False, seq [Many (One is_space), lit ''='', Many (One is_space)]),
     (True, Many (One (\<lambda>c. c \<noteq> CHR 0x0A))), (False, Text_end)]"

definition spaces :: rx where
  "spaces = some (One is_space)"

definition shell_control_pattern :: pattern where
  "shell_control_pattern = [(False, any_of
     [seq [Word_edge, lit ''for'', spaces, some (One is_word), spaces, lit ''in'', Word_edge],
      seq [Word_edge, lit ''case'', spaces, lit [CHR 0x22]],
      seq [Word_edge, lit ''trap'', Word_edge],
      seq [Word_edge, lit ''while'', Word_edge],
      seq [Word_edge, lit ''if'', spaces, lit ''[''],
      seq [Word_edge, lit ''set'', spaces, lit ''-e'', Word_edge],
      lit ''$(DCT3_EEPROM_GUARD''])]"

definition run_targets :: "string list" where
  "run_targets = [''run-prebuilt-captured'', ''run-prebuilt'', ''run-captured'', ''run-frontier'', ''run'']"

section \<open>Blocks\<close>

datatype make_segment = Text_lines "string list" | Gate_lines string "string list" "string list"

definition target_of :: "string \<Rightarrow> (string \<times> string) option" where
  "target_of line = (case rx_match target_pattern line of
     Some [name, rest] \<Rightarrow> Some (name, rest) | _ \<Rightarrow> None)"

definition declares :: "string \<Rightarrow> string \<Rightarrow> bool" where
  "declares name line \<longleftrightarrow> map_option fst (target_of line) = Some name"

definition tabbed :: "string \<Rightarrow> bool" where
  "tabbed line \<longleftrightarrow> prefix [CHR 0x09] line"

definition text_segment :: "string list \<Rightarrow> make_segment list" where
  "text_segment buffer = (if buffer = [] then [] else [Text_lines buffer])"

function segments_of :: "string list \<Rightarrow> string list \<Rightarrow> make_segment list" where
  "segments_of buffer [] = text_segment buffer"
| "segments_of buffer (line # rest) =
     (case target_of line of
        None \<Rightarrow> segments_of (buffer @ [line]) rest
      | Some (name, _) \<Rightarrow>
          let declarations = takeWhile (declares name) (line # rest);
              after = dropWhile (declares name) (line # rest);
              recipe = takeWhile tabbed after
          in text_segment buffer @ Gate_lines name declarations recipe # segments_of [] (dropWhile tabbed after))"
  by pat_completeness auto
termination
proof (relation "measure (\<lambda>(buffer, ls). length ls)")
  fix buffer :: "string list" and line and rest :: "string list" and r name rhs x xa xb
  assume h: "target_of line = Some r" "(name, rhs) = r" "x = takeWhile (declares name) (line # rest)"
    "xa = dropWhile (declares name) (line # rest)" "xb = takeWhile tabbed xa"
  then have "declares name line" by (auto simp: declares_def)
  then have "length xa \<le> length rest" using h(4) length_dropWhile_le [of "declares name" rest] by simp
  then show "(([], dropWhile tabbed xa), buffer, line # rest) \<in> measure (\<lambda>(buffer, ls). length ls)"
    using length_dropWhile_le [of tabbed xa] by simp
qed auto

definition split_segments :: "string \<Rightarrow> make_segment list" where
  "split_segments doc = segments_of [] (split_on CHR 0x0A doc)"

fun segment_lines :: "make_segment \<Rightarrow> string list" where
  "segment_lines (Text_lines ls) = ls"
| "segment_lines (Gate_lines _ declarations recipe) = declarations @ recipe"

section \<open>Commands\<close>

text \<open>\<open>_logical_commands\<close>: continuation lines are joined; blank parts are left out of a command.\<close>

definition joined :: "string list \<Rightarrow> string" where
  "joined parts = join_with '' '' (filter (\<lambda>p. p \<noteq> []) parts)"

fun logical_from :: "string list \<Rightarrow> string list \<Rightarrow> string list" where
  "logical_from pending [] = (if pending = [] then [] else [joined pending])"
| "logical_from pending (line # rest) =
     (let body = (if tabbed line then tl line else line) in
      if suffix [CHR 0x5C] body then logical_from (pending @ [strip (butlast body)]) rest
      else joined (pending @ [strip body]) # logical_from [] rest)"

definition logical_commands :: "string list \<Rightarrow> string list" where
  "logical_commands recipe = logical_from [] recipe"

text \<open>\<open>_split_arguments\<close>: the open quote, the depth of \<open>$(\<close> expansions and the token under way.\<close>

definition add_token :: "string \<Rightarrow> string list \<Rightarrow> string list" where
  "add_token current tokens = (if current = [] then tokens else current # tokens)"

function split_from :: "char option \<Rightarrow> nat \<Rightarrow> string \<Rightarrow> string \<Rightarrow> string list" where
  "split_from quote depth current [] = add_token current []"
| "split_from quote depth current (c # cs) =
     (if quote \<noteq> None then split_from (if Some c = quote then None else quote) depth (current @ [c]) cs
      else if c = CHR 0x22 \<or> c = CHR 0x27 then split_from (Some c) depth (current @ [c]) cs
      else if c = CHR ''$'' \<and> prefix ''('' cs then split_from None (depth + 1) (current @ ''$('') (tl cs)
      else if 0 < depth
      then split_from None (if c = CHR ''('' then depth + 1 else if c = CHR '')'' then depth - 1 else depth) (current @ [c]) cs
      else if is_space c then add_token current (split_from None 0 [] cs)
      else split_from None 0 (current @ [c]) cs)"
  by pat_completeness auto
termination by (relation "measure (\<lambda>(quote, depth, current, cs). length cs)") auto

definition split_arguments :: "string \<Rightarrow> string list" where
  "split_arguments command = split_from None 0 [] command"

section \<open>Typed steps\<close>

datatype step =
    Run_step (silent: bool) "string list" string "string list" "(string \<times> string) list"
  | Check_step (silent: bool) string "string list" string "string list" "string list"
  | Capture_step (silent: bool) string
  | Delegate_step (silent: bool) string string
  | Compile_step (silent: bool) "string list" string
  | Execute_step (silent: bool) string
  | Announce_step (silent: bool) string
  | Prepare_step (silent: bool) string
  | Shell_step (silent: bool) string

definition body_of :: "string \<Rightarrow> string" where
  "body_of command = lstrip_char CHR ''@'' command"

definition is_silent :: "string \<Rightarrow> bool" where
  "is_silent command \<longleftrightarrow> prefix ''@'' command"

text \<open>\<open>next((t for t in tokens if ...), None)\<close> with \<open>tokens.index\<close>: the tokens before it, it, those after.\<close>

definition split_at :: "('a \<Rightarrow> bool) \<Rightarrow> 'a list \<Rightarrow> ('a list \<times> 'a \<times> 'a list) option" where
  "split_at p xs = (case dropWhile (\<lambda>x. \<not> p x) xs of
     [] \<Rightarrow> None | x # rest \<Rightarrow> Some (takeWhile (\<lambda>x. \<not> p x) xs, x, rest))"

definition parameter_pattern :: pattern where
  "parameter_pattern = [(False, Line_start), (True, upper_name), (False, lit ''=''),
     (True, Many (One (\<lambda>c. c \<noteq> CHR 0x0A))), (False, Text_end)]"

definition parameters_of :: "string list \<Rightarrow> (string \<times> string) list" where
  "parameters_of tokens = foldl (\<lambda>ps token. case rx_match parameter_pattern token of
     Some [name, v] \<Rightarrow> AList.update name v ps | _ \<Rightarrow> ps) [] tokens"

definition parse_run :: "string \<Rightarrow> step option" where
  "parse_run command =
     (let body = body_of command in
      if \<not> contains_sub ''$(MAKE)'' body then None
      else case split_at (\<lambda>t. t \<in> set run_targets) (split_arguments body) of
          None \<Rightarrow> None
        | Some (before, target, after) \<Rightarrow>
            Some (Run_step (is_silent command) (tl before) target after (parameters_of after)))"

definition interpreter_pattern :: pattern where
  "interpreter_pattern = [(False, Line_start), (True, Alt (lit ''$(PYTHON)'') (lit ''$(VENV)/bin/python''))]"

definition parse_check :: "string \<Rightarrow> step option" where
  "parse_check command =
     (let body = body_of command in
      case rx_match interpreter_pattern body of
        Some [interpreter] \<Rightarrow>
          (case split_at (prefix ''tools/'') (split_arguments body) of
             None \<Rightarrow> None
           | Some (before, script, arguments) \<Rightarrow>
               Some (Check_step (is_silent command) interpreter (tl before) script arguments
                 (sort (filter (prefix ''--'') arguments))))
      | _ \<Rightarrow> None)"

definition parse_capture :: "string \<Rightarrow> step option" where
  "parse_capture command =
     (let body = body_of command in
      if prefix ''cp '' body \<and> contains_sub ''error.log'' body then Some (Capture_step (is_silent command) body) else None)"

definition delegate_targets :: "string list" where
  "delegate_targets = [''eeprom-profile'', ''build'', ''smoke'', ''normalize-3330'', ''normalize-3410'']"

definition parse_delegate :: "string \<Rightarrow> step option" where
  "parse_delegate command =
     (let body = body_of command in
      if \<not> contains_sub ''$(MAKE)'' body then None
      else case split_at (\<lambda>t. prefix ''verify'' t \<or> t \<in> set delegate_targets) (split_arguments body) of
          None \<Rightarrow> None
        | Some (_, target, _) \<Rightarrow> Some (Delegate_step (is_silent command) target body))"

definition parse_compile :: "string \<Rightarrow> step option" where
  "parse_compile command =
     (let body = body_of command in
      if prefix ''$(CXX)'' body
      then Some (Compile_step (is_silent command)
        (filter (\<lambda>t. suffix ''.cpp'' t \<or> suffix ''.c'' t) (split_arguments body)) body)
      else None)"

definition parse_execute :: "string \<Rightarrow> step option" where
  "parse_execute command =
     (let body = body_of command in
      if prefix ''scratchpad/'' body \<or> prefix ''$(LIBGSM_DIR)/'' body
      then Some (Execute_step (is_silent command) body) else None)"

definition parse_announce :: "string \<Rightarrow> step option" where
  "parse_announce command =
     (let body = body_of command in
      if prefix ''echo '' body then Some (Announce_step (is_silent command) body)
      else if prefix ''mkdir -p'' body then Some (Prepare_step (is_silent command) body) else None)"

definition parse_shell :: "string \<Rightarrow> step" where
  "parse_shell command = Shell_step (is_silent command) (body_of command)"

definition parse_command :: "string \<Rightarrow> step" where
  "parse_command command =
     (case List.map_filter (\<lambda>parser. parser command)
        [parse_run, parse_capture, parse_check, parse_delegate, parse_compile, parse_execute, parse_announce] of
        parsed # _ \<Rightarrow> parsed
      | [] \<Rightarrow> parse_shell command)"

text \<open>The steps of a recipe, or why it is left as it is.\<close>

definition newline_joined :: "string list \<Rightarrow> string" where
  "newline_joined ls = join_with [CHR 0x0A] ls"

definition parse_recipe :: "string list \<Rightarrow> step list \<times> string option" where
  "parse_recipe recipe =
     (if recipe = [] then ([], Some ''empty recipe'')
      else if rx_search shell_control_pattern (newline_joined recipe) then ([], Some ''embedded shell control flow'')
      else (map parse_command (filter (\<lambda>c. c \<noteq> []) (logical_commands recipe)), None))"

section \<open>Gate records\<close>

definition script_pattern :: pattern where
  "script_pattern = [(True, seq [lit ''tools/'', some (One (\<lambda>c. lower_digit c \<or> c = CHR ''_'')), lit ''.'',
     Alt (lit ''py'') (lit ''sh'')])]"

definition call_pattern :: pattern where
  "call_pattern = [(False, Seq (lit ''$(call'') spaces), (True, some (One (\<lambda>c. lower_digit c \<or> c = CHR ''_'')))]"

definition define_pattern :: pattern where
  "define_pattern = [(False, seq [Line_start, lit ''define'', spaces]),
     (True, some (One (\<lambda>c. lower_digit c \<or> c = CHR ''_''))), (False, Seq (Many (One is_space)) Text_end)]"

definition shell_assertion_pattern :: pattern where
  "shell_assertion_pattern = [(False, any_of
     [seq [Word_edge, lit ''exit 1'', Word_edge], seq [lit ''||'', Many (One is_space), lit ''{''], lit ''grep -Fqx''])]"

definition findall1 :: "pattern \<Rightarrow> string \<Rightarrow> string list" where
  "findall1 pat s = map hd (rx_findall pat s 0)"

definition macro_line ::
  "(string \<times> string list) list \<times> string option \<times> string list \<Rightarrow> string \<Rightarrow>
   (string \<times> string list) list \<times> string option \<times> string list" where
  "macro_line = (\<lambda>(bodies, name, body) line.
     case name of
       None \<Rightarrow> (case rx_match define_pattern line of
           Some [found] \<Rightarrow> (bodies, Some found, []) | _ \<Rightarrow> (bodies, None, body))
     | Some n \<Rightarrow>
         if strip line = ''endef'' then (AList.update n body bodies, None, body)
         else (bodies, Some n, body @ [line]))"

definition macro_bodies :: "string \<Rightarrow> (string \<times> string list) list" where
  "macro_bodies doc = fst (foldl macro_line ([], None, []) (split_on CHR 0x0A doc))"

definition parse_declarations :: "string list \<Rightarrow> string list \<times> (string \<times> string) list" where
  "parse_declarations declarations = foldl (\<lambda>(prerequisites, variables) line.
     case target_of line of
       None \<Rightarrow> (prerequisites, variables)
     | Some (_, rest) \<Rightarrow>
         let rhs = strip rest in
         if rhs = [] then (prerequisites, variables)
         else case rx_match assign_pattern rhs of
             Some [name, v] \<Rightarrow> (prerequisites, AList.update name v variables)
           | _ \<Rightarrow> (prerequisites @ split_space rhs, variables)) ([], []) declarations"

record gate =
  gt_name :: string
  gt_prerequisites :: "string list"
  gt_variables :: "(string \<times> string) list"
  gt_steps :: "step list"
  gt_declarations :: "string list"
  gt_recipe :: "string list"
  gt_macros :: "string list"
  gt_scripts :: "string list"
  gt_asserts_via :: "string list"
  gt_unstructured :: "string option"

fun is_check :: "step \<Rightarrow> bool" where
  "is_check (Check_step _ _ _ _ _ _) = True" | "is_check _ = False"

fun is_delegate :: "step \<Rightarrow> bool" where
  "is_delegate (Delegate_step _ _ _) = True" | "is_delegate _ = False"

fun is_execute :: "step \<Rightarrow> bool" where
  "is_execute (Execute_step _ _) = True" | "is_execute _ = False"

definition assertion_kinds :: "gate \<Rightarrow> string list" where
  "assertion_kinds g = sorted_set
     ((if list_ex is_check (gt_steps g) then [''checker''] else []) @
      (if list_ex is_delegate (gt_steps g) then [''delegate''] else []) @
      (if list_ex is_execute (gt_steps g) then [''native_test''] else []) @
      (if gt_scripts g \<noteq> [] then [''script''] else []) @
      (if gt_macros g \<noteq> [] then [''macro''] else []) @
      (if gt_prerequisites g \<noteq> [] \<and> gt_steps g = [] then [''prerequisite''] else []) @
      (if rx_search shell_assertion_pattern (newline_joined (gt_recipe g)) then [''shell_assertion''] else []))"

definition gate_of :: "(string \<times> string list) list \<Rightarrow> string \<Rightarrow> string list \<Rightarrow> string list \<Rightarrow> gate" where
  "gate_of macros name declarations recipe =
     (let (prerequisites, variables) = parse_declarations declarations;
          (steps, unstructured) = parse_recipe recipe;
          recipe_text = newline_joined recipe;
          called = sorted_set (findall1 call_pattern recipe_text);
          scripts = findall1 script_pattern recipe_text @ concat (map (\<lambda>macro. findall1 script_pattern
            (newline_joined (case map_of macros macro of None \<Rightarrow> [] | Some body \<Rightarrow> body))) called);
          g = \<lparr>gt_name = name, gt_prerequisites = prerequisites, gt_variables = variables, gt_steps = steps,
            gt_declarations = declarations, gt_recipe = recipe, gt_macros = called,
            gt_scripts = sorted_set scripts, gt_asserts_via = [], gt_unstructured = unstructured\<rparr>
      in g\<lparr>gt_asserts_via := assertion_kinds g\<rparr>)"

fun segment_gates :: "(string \<times> string list) list \<Rightarrow> make_segment \<Rightarrow> gate list" where
  "segment_gates macros (Text_lines _) = []"
| "segment_gates macros (Gate_lines name declarations recipe) = [gate_of macros name declarations recipe]"

text \<open>The matrix; the profiles, runs and guards are those of authored data, which an extraction has not.\<close>

record matrix =
  mx_gates :: "gate list"
  mx_segments :: "make_segment list"
  mx_press_profiles :: "(string \<times> string) list"
  mx_product_runs :: "(string \<times> string) list"
  mx_shell_guards :: "(string \<times> string) list"

text \<open>The first name that an earlier gate has already.\<close>

fun repeated_name :: "string list \<Rightarrow> string list \<Rightarrow> string option" where
  "repeated_name seen [] = None"
| "repeated_name seen (name # names) = (if name \<in> set seen then Some name else repeated_name (name # seen) names)"

definition extract_gates :: "string \<Rightarrow> matrix res" where
  "extract_gates doc =
     (let segs = split_segments doc; macros = macro_bodies doc;
          gates = concat (map (segment_gates macros) segs) in
      case repeated_name [] (map gt_name gates) of
        Some name \<Rightarrow> Inl (ValueError (''non-contiguous declarations for '' @ name))
      | None \<Rightarrow> Inr \<lparr>mx_gates = gates, mx_segments = segs, mx_press_profiles = [], mx_product_runs = [],
          mx_shell_guards = []\<rparr>)"

definition render_matrix :: "matrix \<Rightarrow> string" where
  "render_matrix m = newline_joined (concat (map segment_lines (mx_segments m)))"

definition check_round_trip :: "string \<Rightarrow> matrix res" where
  "check_round_trip doc = rbind (extract_gates doc) (\<lambda>m.
     if render_matrix m \<noteq> doc
     then if list_ex (\<lambda>(l, r). l \<noteq> r) (zip (split_on CHR 0x0A doc) (split_on CHR 0x0A (render_matrix m)))
       then Inl (RoundTripError ''line differs'') else Inl (RoundTripError ''length differs'')
     else Inr m)"

section \<open>The round trip\<close>

lemma segments_lines: "concat (map segment_lines (segments_of buffer ls)) = buffer @ ls"
proof (induction buffer ls rule: segments_of.induct)
  case (2 buffer line rest)
  show ?case
  proof (cases "target_of line")
    case None
    then show ?thesis using "2.IH"(1) by simp
  next
    case (Some r)
    obtain name rhs where r: "r = (name, rhs)" by (cases r)
    have "concat (map segment_lines (text_segment buffer)) = buffer" by (simp add: text_segment_def)
    then show ?thesis using "2.IH"(2) [OF Some r [symmetric] refl refl refl] Some r
      by (simp add: Let_def takeWhile_dropWhile_id)
  qed
qed (simp add: text_segment_def)

lemma repeated_name_None: "repeated_name seen names = None \<longleftrightarrow> distinct names \<and> set seen \<inter> set names = {}"
  by (induction names arbitrary: seen) auto

lemma repeated_name_Some: "repeated_name seen names = Some n \<Longrightarrow> n \<in> set names"
  by (induction names arbitrary: seen) (auto split: if_splits)

definition gate_names :: "string \<Rightarrow> string list" where
  "gate_names doc = concat (map (\<lambda>s. case s of Text_lines _ \<Rightarrow> [] | Gate_lines name _ _ \<Rightarrow> [name]) (split_segments doc))"

lemma gate_of_name [simp]: "gt_name (gate_of macros name ds rs) = name"
  by (simp add: gate_of_def Let_def split: prod.splits)

lemma extracted_names: "map gt_name (concat (map (segment_gates macros) segs)) =
    concat (map (\<lambda>s. case s of Text_lines _ \<Rightarrow> [] | Gate_lines name _ _ \<Rightarrow> [name]) segs)"
  by (induction segs) (auto split: make_segment.splits)

lemma extracted_gate_names:
  "map gt_name (concat (map (segment_gates macros) (split_segments doc))) = gate_names doc"
  by (simp only: extracted_names gate_names_def)

lemma render_extracted: "extract_gates doc = Inr m \<Longrightarrow> render_matrix m = doc"
  by (auto simp: extract_gates_def render_matrix_def split_segments_def segments_lines newline_joined_def join_split_on
      Let_def split: option.splits)

text \<open>C19: For every makefile text the matrix renders back to the text, byte for byte, and the only way the
  round-trip check can fail is a gate declared in two places.\<close>
theorem gate_round_trip:
  "if distinct (gate_names doc)
   then \<exists>m. check_round_trip doc = Inr m \<and> render_matrix m = doc \<and> map gt_name (mx_gates m) = gate_names doc
   else \<exists>name. name \<in> set (gate_names doc)
     \<and> check_round_trip doc = Inl (ValueError (''non-contiguous declarations for '' @ name))"
proof (cases "repeated_name [] (gate_names doc)")
  case None
  then have "distinct (gate_names doc)" by (simp add: repeated_name_None)
  moreover have "\<exists>m. extract_gates doc = Inr m \<and> map gt_name (mx_gates m) = gate_names doc"
    using None extracted_gate_names[of "macro_bodies doc" doc] by (auto simp: extract_gates_def Let_def simp del: map_concat)
  ultimately show ?thesis using render_extracted by (auto simp: check_round_trip_def rbind_def)
next
  case (Some name)
  then have "\<not> distinct (gate_names doc)" using repeated_name_None [of "[]" "gate_names doc"] by auto
  moreover have "check_round_trip doc = Inl (ValueError (''non-contiguous declarations for '' @ name))"
    using Some extracted_gate_names[of "macro_bodies doc" doc]
    by (auto simp: check_round_trip_def extract_gates_def Let_def rbind_def simp del: map_concat)
  ultimately show ?thesis using repeated_name_Some [OF Some] by auto
qed

end
