(* ===== verification/Gate_Render.thy ===== *)
theory Gate_Render
  imports Gate_Matrix
begin

text \<open>
  Commands from typed steps, \<open>tools/gate_render.py\<close>: the text of a step, the recipe of a gate and its
  comparison with the original commands.  The lemmas show that arguments split again to themselves.
\<close>

section \<open>Commands of steps\<close>

definition silent_prefix :: "step \<Rightarrow> string" where
  "silent_prefix st = (if silent st then ''@'' else '''')"

definition spaced :: "string list \<Rightarrow> string" where
  "spaced parts = join_with '' '' parts"

fun step_text :: "step \<Rightarrow> string" where
  "step_text (Run_step _ flags target tokens _) = spaced (''$(MAKE)'' # flags @ target # tokens)"
| "step_text (Check_step _ interpreter before script arguments _) = spaced (interpreter # before @ script # arguments)"
| "step_text (Capture_step _ c) = c"
| "step_text (Delegate_step _ _ c) = c"
| "step_text (Compile_step _ _ c) = c"
| "step_text (Execute_step _ c) = c"
| "step_text (Announce_step _ c) = c"
| "step_text (Prepare_step _ c) = c"
| "step_text (Shell_step _ c) = c"

definition render_step :: "step \<Rightarrow> string" where
  "render_step st = silent_prefix st @ step_text st"

definition render_gate :: "gate \<Rightarrow> string list" where
  "render_gate g = map render_step (gt_steps g)"

definition original_commands :: "gate \<Rightarrow> string list" where
  "original_commands g = filter (\<lambda>c. c \<noteq> []) (logical_commands (gt_recipe g))"

definition count_text :: "nat \<Rightarrow> string" where
  "count_text n = ''<'' @ digits 10 n @ '' commands>''"

definition check_gate :: "gate \<Rightarrow> (string \<times> string) list" where
  "check_gate g =
     (let expected = original_commands g; rendered = render_gate g in
      if expected = rendered then []
      else filter (\<lambda>(l, r). l \<noteq> r) (zip expected rendered) @
        (if length expected \<noteq> length rendered then [(count_text (length expected), count_text (length rendered))] else []))"

definition structured_gates :: "matrix \<Rightarrow> gate list" where
  "structured_gates m = filter (\<lambda>g. gt_unstructured g = None) (mx_gates m)"

record render_report =
  rr_structured :: nat
  rr_unstructured :: nat
  rr_reproduced :: int
  rr_failures :: "(string \<times> (string \<times> string) list) list"

definition check_all :: "matrix \<Rightarrow> render_report" where
  "check_all m =
     (let structured = structured_gates m;
          failures = foldl (\<lambda>fs g. if check_gate g = [] then fs else AList.update (gt_name g) (check_gate g) fs) [] structured
      in \<lparr>rr_structured = length structured, rr_unstructured = length (mx_gates m) - length structured,
          rr_reproduced = int (length structured) - int (length failures), rr_failures = failures\<rparr>)"

section \<open>Splitting again\<close>

lemma spaced_Cons: "spaced (t # ts) = (if ts = [] then t else t @ '' '' @ spaced ts)"
  by (cases ts) (simp_all add: spaced_def)

text \<open>With a token under way the joined tokens begin with it, and what follows is read from the same
  state to the same tokens; at the start the joined tokens are.\<close>

lemma split_joined:
  "(current \<noteq> [] \<longrightarrow> (\<exists>rest. spaced (split_from q d current cs) = current @ rest
      \<and> split_from q d current rest = split_from q d current cs \<and> (prefix ''('' rest \<longrightarrow> prefix ''('' cs)))
   \<and> (current = [] \<and> q = None \<and> d = 0 \<longrightarrow>
      split_from None 0 [] (spaced (split_from None 0 [] cs)) = split_from None 0 [] cs)"
proof (induction q d current cs rule: split_from.induct)
  case (1 q d current)
  show ?case by (intro conjI impI exI [of _ "[]"]) (simp_all add: add_token_def spaced_Cons spaced_def)
next
  case (2 q d current c cs)
  let ?T = "split_from q d current (c # cs)"
  have move: ?case
    if parts: "c # cs = chunk @ rest0" "chunk \<noteq> []"
      and step: "\<And>r. (prefix ''('' r \<longrightarrow> prefix ''('' rest0) \<Longrightarrow>
        split_from q d current (chunk @ r) = split_from q' d' (current @ chunk) r"
      and ih: "\<exists>rest. spaced (split_from q' d' (current @ chunk) rest0) = (current @ chunk) @ rest
        \<and> split_from q' d' (current @ chunk) rest = split_from q' d' (current @ chunk) rest0
        \<and> (prefix ''('' rest \<longrightarrow> prefix ''('' rest0)"
    for chunk rest0 q' d'
  proof -
    obtain r where r: "spaced (split_from q' d' (current @ chunk) rest0) = (current @ chunk) @ r"
      "split_from q' d' (current @ chunk) r = split_from q' d' (current @ chunk) rest0" "prefix ''('' r \<longrightarrow> prefix ''('' rest0"
      using ih by blast
    have e: "?T = split_from q' d' (current @ chunk) rest0" using step [of rest0] parts(1) by simp
    have "spaced ?T = current @ (chunk @ r)" "split_from q d current (chunk @ r) = ?T"
      using r e step [OF r(3)] by simp_all
    moreover have "prefix ''('' (chunk @ r) \<longrightarrow> prefix ''('' (c # cs)"
      using parts by (cases chunk) auto
    ultimately show ?thesis by (metis append_Nil)
  qed
  consider (quoted) "q \<noteq> None" | (quote) "q = None" "c = CHR 0x22 \<or> c = CHR 0x27"
    | (expansion) "q = None" "c = CHR ''$''" "prefix ''('' cs"
    | (deep) "q = None" "\<not> (c = CHR 0x22 \<or> c = CHR 0x27)" "\<not> (c = CHR ''$'' \<and> prefix ''('' cs)" "0 < d"
    | (space) "q = None" "\<not> (c = CHR 0x22 \<or> c = CHR 0x27)" "\<not> (c = CHR ''$'' \<and> prefix ''('' cs)" "d = 0" "is_space c"
    | (plain) "q = None" "\<not> (c = CHR 0x22 \<or> c = CHR 0x27)" "\<not> (c = CHR ''$'' \<and> prefix ''('' cs)" "d = 0" "\<not> is_space c"
    by blast
  then show ?case
  proof cases
    case quoted
    show ?thesis
      by (rule move [of "[c]" cs "if Some c = q then None else q" d]) (use "2.IH"(1) [OF quoted] quoted in auto)
  next
    case quote
    show ?thesis
      by (rule move [of "[c]" cs "Some c" d]) (use "2.IH"(2) quote in auto)
  next
    case expansion
    then obtain cs' where "cs = CHR ''('' # cs'" by (auto simp: prefix_def)
    then show ?thesis
      by (intro move [of "''$(''" cs' None "d + 1"]) (use "2.IH"(3) expansion in auto)
  next
    case deep
    show ?thesis
      by (rule move [of "[c]" cs None "if c = CHR ''('' then d + 1 else if c = CHR '')'' then d - 1 else d"])
        (use "2.IH"(4) deep in auto)
  next
    case plain
    show ?thesis
      by (rule move [of "[c]" cs None 0]) (use "2.IH"(6) plain in auto)
  next
    case space
    let ?U = "split_from None 0 [] cs"
    have u: "split_from None 0 [] (spaced ?U) = ?U" using "2.IH"(5) space by auto
    have t: "?T = add_token current ?U" using space by auto
    have sp: "is_space CHR '' ''" by (simp add: is_space_def)
    show ?thesis
    proof (cases "?U = []")
      case True
      then show ?thesis using t u space
        by (cases "current = []") (auto simp: add_token_def spaced_Cons spaced_def intro!: exI [of _ "[]"])
    next
      case False
      then show ?thesis using t u space sp
        by (cases "current = []") (auto simp: add_token_def spaced_Cons intro!: exI [of _ "'' '' @ spaced ?U"])
    qed
  qed
qed

text \<open>Splitting a command into arguments is stable: the tokens joined by single blanks split into the
  same tokens, whatever quotes and expansions they contain, closed or not.\<close>
theorem split_arguments_stable:
  "split_arguments (spaced (split_arguments command)) = split_arguments command"
  using split_joined [of "[]" None 0 command] by (simp add: split_arguments_def)

section \<open>Which commands their steps reproduce\<close>

lemma zip_differ: "length xs = length ys \<Longrightarrow> xs \<noteq> ys \<Longrightarrow> filter (\<lambda>(l, r). l \<noteq> r) (zip xs ys) \<noteq> []"
  by (induction xs ys rule: list_induct2) auto

lemma check_gate_iff: "check_gate g = [] \<longleftrightarrow> render_gate g = original_commands g"
proof (cases "render_gate g = original_commands g")
  case False
  then have "original_commands g \<noteq> render_gate g" by metis
  then show ?thesis using zip_differ [of "original_commands g" "render_gate g"] False
    by (cases "length (original_commands g) = length (render_gate g)") (simp_all add: check_gate_def Let_def)
qed (simp add: check_gate_def Let_def)

lemma split_at_append: "split_at p xs = Some (before, x, after) \<Longrightarrow> xs = before @ x # after \<and> p x"
proof -
  assume h: "split_at p xs = Some (before, x, after)"
  then have d: "dropWhile (\<lambda>x. \<not> p x) xs = x # after" "before = takeWhile (\<lambda>x. \<not> p x) xs"
    by (auto simp: split_at_def split: list.splits)
  then show ?thesis using takeWhile_dropWhile_id [of "\<lambda>x. \<not> p x" xs] hd_dropWhile [of "\<lambda>x. \<not> p x" xs] by auto
qed

lemma body_of_split: "\<not> prefix ''@@'' c \<Longrightarrow> (if is_silent c then ''@'' else '''') @ body_of c = c"
  by (cases c rule: list.exhaust; cases "tl c" rule: list.exhaust)
    (auto simp: is_silent_def body_of_def lstrip_char_def prefix_def)

text \<open>A command is in normal form when single blanks separate its tokens, it has at most one silencing
  mark, and a token that names a run or a script is not its first: a run starts with \<open>$(MAKE)\<close>, a check
  with its interpreter.\<close>

definition starts_spaced :: "string \<Rightarrow> string \<Rightarrow> bool" where
  "starts_spaced first body \<longleftrightarrow> (let tokens = split_arguments body in
     tokens \<noteq> [] \<and> hd tokens = first \<and> spaced tokens = body)"

definition normal_command :: "string \<Rightarrow> bool" where
  "normal_command c \<longleftrightarrow> \<not> prefix ''@@'' c \<and>
     (case parse_run c of
        Some _ \<Rightarrow> starts_spaced ''$(MAKE)'' (body_of c)
      | None \<Rightarrow>
          (case rx_match interpreter_pattern (body_of c) of
             Some [interpreter] \<Rightarrow> \<not> prefix ''tools/'' interpreter \<and> starts_spaced interpreter (body_of c)
           | _ \<Rightarrow> True))"

lemma starts_spacedE:
  assumes "starts_spaced first body"
  obtains rest where "split_arguments body = first # rest" "spaced (first # rest) = body"
  using assms by (cases "split_arguments body") (auto simp: starts_spaced_def Let_def)

lemma parse_run_text:
  assumes "parse_run c = Some st" "starts_spaced ''$(MAKE)'' (body_of c)"
  shows "step_text st = body_of c \<and> silent st = is_silent c"
proof -
  obtain before target after where s: "split_at (\<lambda>t. t \<in> set run_targets) (split_arguments (body_of c)) = Some (before, target, after)"
    and st: "st = Run_step (is_silent c) (tl before) target after (parameters_of after)"
    using assms(1) by (auto simp: parse_run_def Let_def split: if_splits option.splits)
  obtain rest where r: "split_arguments (body_of c) = ''$(MAKE)'' # rest" "spaced (''$(MAKE)'' # rest) = body_of c"
    using assms(2) by (rule starts_spacedE)
  have a: "''$(MAKE)'' # rest = before @ target # after" "target \<in> set run_targets"
    using split_at_append [OF s] r(1) by auto
  then have "before \<noteq> []" by (auto simp: run_targets_def)
  then obtain before' where "before = ''$(MAKE)'' # before'" using a(1) by (cases before) auto
  then show ?thesis using r(2) a(1) st by simp
qed

lemma parse_check_text:
  assumes "parse_check c = Some st" "rx_match interpreter_pattern (body_of c) = Some [interpreter]" "\<not> prefix ''tools/'' interpreter"
    "split_arguments (body_of c) = interpreter # rest" "spaced (interpreter # rest) = body_of c"
  shows "step_text st = body_of c \<and> silent st = is_silent c"
proof -
  obtain before script after where s: "split_at (prefix ''tools/'') (interpreter # rest) = Some (before, script, after)"
    and st: "st = Check_step (is_silent c) interpreter (tl before) script after (sort (filter (prefix ''--'') after))"
    using assms(1,2,4) by (auto simp: parse_check_def Let_def split: option.splits)
  have a: "interpreter # rest = before @ script # after" "prefix ''tools/'' script"
    using split_at_append [OF s] by auto
  then have "before \<noteq> []" using assms(3) by auto
  then obtain before' where "before = interpreter # before'" using a(1) by (cases before) auto
  then show ?thesis using assms(5) a(1) st by simp
qed

lemma other_steps_text:
  "parse_capture c = Some st \<Longrightarrow> step_text st = body_of c \<and> silent st = is_silent c"
  "parse_delegate c = Some st \<Longrightarrow> step_text st = body_of c \<and> silent st = is_silent c"
  "parse_compile c = Some st \<Longrightarrow> step_text st = body_of c \<and> silent st = is_silent c"
  "parse_execute c = Some st \<Longrightarrow> step_text st = body_of c \<and> silent st = is_silent c"
  "parse_announce c = Some st \<Longrightarrow> step_text st = body_of c \<and> silent st = is_silent c"
  by (auto simp: parse_capture_def parse_delegate_def parse_compile_def parse_execute_def parse_announce_def Let_def
      split: if_splits option.splits)

lemma parse_check_interpreter:
  "parse_check c = Some st \<Longrightarrow> \<exists>interpreter. rx_match interpreter_pattern (body_of c) = Some [interpreter]"
  by (auto simp: parse_check_def Let_def split: option.splits list.splits)

lemma normal_command_text:
  assumes "normal_command c"
  shows "step_text (parse_command c) = body_of c \<and> silent (parse_command c) = is_silent c"
proof (cases "parse_run c")
  case (Some st)
  then have "parse_command c = st" by (simp add: parse_command_def map_filter_simps)
  moreover have "starts_spaced ''$(MAKE)'' (body_of c)"
    using assms Some unfolding normal_command_def by simp
  ultimately show ?thesis using parse_run_text [OF Some] by simp
next
  case None
  note no_run = this
  have chk: "step_text st = body_of c \<and> silent st = is_silent c" if p: "parse_check c = Some st" for st
  proof -
    obtain i where i: "rx_match interpreter_pattern (body_of c) = Some [i]" using parse_check_interpreter [OF p] by blast
    then have "\<not> prefix ''tools/'' i" "starts_spaced i (body_of c)"
      using assms no_run unfolding normal_command_def by simp_all
    then show ?thesis using parse_check_text [OF p i] by (blast elim: starts_spacedE)
  qed
  show ?thesis
    using no_run chk other_steps_text [of c]
    by (cases "parse_capture c"; cases "parse_check c"; cases "parse_delegate c"; cases "parse_compile c";
        cases "parse_execute c"; cases "parse_announce c")
      (simp_all add: parse_command_def map_filter_simps parse_shell_def)
qed

lemma render_normal: "normal_command c \<Longrightarrow> render_step (parse_command c) = c"
  using normal_command_text [of c] body_of_split [of c]
  by (simp add: render_step_def silent_prefix_def normal_command_def)

lemma extracted_gate: "extract_gates doc = Inr m \<Longrightarrow> g \<in> set (mx_gates m) \<Longrightarrow>
    \<exists>macros name ds rs. g = gate_of macros name ds rs"
proof -
  assume e: "extract_gates doc = Inr m" "g \<in> set (mx_gates m)"
  then have "g \<in> set (concat (map (segment_gates (macro_bodies doc)) (split_segments doc)))"
    by (auto simp: extract_gates_def Let_def split: option.splits)
  then obtain s where "g \<in> set (segment_gates (macro_bodies doc) s)" by auto
  then show ?thesis by (cases s) auto
qed

lemma gate_of_steps:
  "gt_unstructured (gate_of macros name ds rs) = None \<Longrightarrow>
   gt_steps (gate_of macros name ds rs) = map parse_command (original_commands (gate_of macros name ds rs))"
  by (auto simp: gate_of_def parse_recipe_def original_commands_def Let_def split: prod.splits if_splits)

text \<open>C20: A structured gate whose commands are in normal form is reproduced from its typed steps alone:
  the check finds no difference.\<close>
theorem structured_gates_reproduced:
  assumes "extract_gates doc = Inr m" "g \<in> set (structured_gates m)" "list_all normal_command (original_commands g)"
  shows "check_gate g = []"
proof -
  obtain macros name ds rs where g: "g = gate_of macros name ds rs"
    using extracted_gate [OF assms(1), of g] assms(2) by (auto simp: structured_gates_def)
  have "render_gate g = map render_step (map parse_command (original_commands g))"
    using gate_of_steps assms(2) unfolding render_gate_def g structured_gates_def by simp
  also have "\<dots> = original_commands g"
    using assms(3) by (simp add: list_all_iff map_idI render_normal)
  finally show ?thesis by (simp add: check_gate_iff)
qed

definition demo_makefile :: string where
  "demo_makefile = ''all:'' @ [CHR 0x0A] @ ''verify-a: build'' @ [CHR 0x0A] @ [CHR 0x09] @ ''$(MAKE) run B=1'' @ [CHR 0x0A]
     @ [CHR 0x09] @ ''@$(PYTHON) tools/c.py --x'' @ [CHR 0x0A]"

definition demo_check :: "matrix \<Rightarrow> bool" where
  "demo_check m \<longleftrightarrow> (case structured_gates m of
     [g] \<Rightarrow> original_commands g = [''$(MAKE) run B=1'', ''@$(PYTHON) tools/c.py --x'']
       \<and> list_all normal_command (original_commands g)
   | _ \<Rightarrow> False)"

lemma demo_extracts: "case extract_gates demo_makefile of Inl _ \<Rightarrow> False | Inr m \<Rightarrow> demo_check m"
  by code_simp

theorem structured_gates_reproduced_witness:
  "\<exists>m g. extract_gates demo_makefile = Inr m \<and> structured_gates m = [g] \<and> length (original_commands g) = 2 \<and> check_gate g = []"
proof -
  obtain m where m: "extract_gates demo_makefile = Inr m" "demo_check m"
    using demo_extracts by (auto split: sum.splits)
  then obtain g where g: "structured_gates m = [g]" "length (original_commands g) = 2" "list_all normal_command (original_commands g)"
    by (auto simp: demo_check_def split: list.splits)
  show ?thesis using structured_gates_reproduced [OF m(1) _ g(3)] g(1,2) m(1) by simp
qed

end
