(* ===== verification/Gate_Generate.thy ===== *)
theory Gate_Generate
  imports Gate_Render
begin

text \<open>
  The generated gate rules, \<open>tools/gate_generate.py\<close>: the authored records, the text of \<open>gates.mk\<close>, the
  makefile without its gates and the comparison of the generated rules with the original ones.
\<close>

section \<open>Authored records\<close>

datatype data_body = Typed "step list" | Verbatim string "string list"

record data_gate =
  dg_name :: string
  dg_prerequisites :: "string list"
  dg_variables :: "(string \<times> string) list"
  dg_body :: data_body

record gate_data =
  gd_press_profiles :: "(string \<times> string) list"
  gd_product_runs :: "(string \<times> string) list"
  gd_shell_guards :: "(string \<times> string) list"
  gd_gates :: "data_gate list"

definition to_record :: "gate \<Rightarrow> data_gate" where
  "to_record g = \<lparr>dg_name = gt_name g, dg_prerequisites = gt_prerequisites g, dg_variables = gt_variables g,
     dg_body = (case gt_unstructured g of Some reason \<Rightarrow> Verbatim reason (gt_recipe g) | None \<Rightarrow> Typed (gt_steps g))\<rparr>"

definition to_data :: "matrix \<Rightarrow> gate_data" where
  "to_data m = \<lparr>gd_press_profiles = mx_press_profiles m, gd_product_runs = mx_product_runs m,
     gd_shell_guards = mx_shell_guards m, gd_gates = map to_record (mx_gates m)\<rparr>"

text \<open>A gate rebuilt from its record has no macros or scripts of its own; nothing here reads them.\<close>

definition from_record :: "data_gate \<Rightarrow> gate" where
  "from_record r = \<lparr>gt_name = dg_name r, gt_prerequisites = dg_prerequisites r, gt_variables = dg_variables r,
     gt_steps = (case dg_body r of Typed steps \<Rightarrow> steps | Verbatim _ _ \<Rightarrow> []), gt_declarations = [],
     gt_recipe = (case dg_body r of Typed _ \<Rightarrow> [] | Verbatim _ recipe \<Rightarrow> recipe), gt_macros = [], gt_scripts = [],
     gt_asserts_via = [], gt_unstructured = (case dg_body r of Typed _ \<Rightarrow> None | Verbatim reason _ \<Rightarrow> Some reason)\<rparr>"

definition from_data :: "gate_data \<Rightarrow> matrix" where
  "from_data d = \<lparr>mx_gates = map from_record (gd_gates d), mx_segments = [],
     mx_press_profiles = gd_press_profiles d, mx_product_runs = gd_product_runs d,
     mx_shell_guards = gd_shell_guards d\<rparr>"

section \<open>The text of the rules\<close>

fun phony_from :: "string \<Rightarrow> string list \<Rightarrow> string list" where
  "phony_from current [] = [current]"
| "phony_from current (name # names) =
     (if 78 < length current + length name + 1
      then (current @ '' '' @ [CHR 0x5C]) # phony_from (CHR 0x09 # name) names
      else phony_from (current @ '' '' @ name) names)"

definition phony_lines :: "string list \<Rightarrow> string list" where
  "phony_lines names = phony_from ''.PHONY:'' names"

definition declaration_lines :: "gate \<Rightarrow> string list" where
  "declaration_lines g =
     map (\<lambda>(name, v). gt_name g @ '': '' @ name @ ''='' @ v) (gt_variables g) @
     [gt_name g @ '':'' @ (if spaced (gt_prerequisites g) = [] then []
        else '' '' @ spaced (gt_prerequisites g))]"

definition render_gate_rule :: "gate \<Rightarrow> string list" where
  "render_gate_rule g = declaration_lines g @
     (if gt_unstructured g \<noteq> None then gt_recipe g else map (\<lambda>c. CHR 0x09 # c) (render_gate g))"

definition shell_guard_lines :: "(string \<times> string) list \<Rightarrow> string list" where
  "shell_guard_lines guards =
     (if guards = [] then []
      else [''# Shell guards shared by gates that rewrite provisioned state.'', ''#'',
        ''# Deferred (`=`), not immediate (`:=`). The guard names'',
        ''# $(EEPROM_BASENAME), which itself selects a filename from $(BIOS), and'',
        ''# gates set BIOS per target. Expanding at definition time would freeze'',
        ''# the default revision's EEPROM into every gate, so a v5.01 gate would'',
        ''# restore the v6.00 file.'', '''']
        @ map (\<lambda>(name, v). name @ '' = '' @ v) guards @ [''''])"

definition padded :: "nat \<Rightarrow> string \<Rightarrow> string" where
  "padded w s = s @ replicate (w - length s) CHR '' ''"

definition assignment_lines :: "(string \<times> string) list \<Rightarrow> string list" where
  "assignment_lines values =
     (let w = Max (set (map (length \<circ> fst) values)) in map (\<lambda>(name, v). padded w name @ '' := '' @ v) values @ [''''])"

definition product_run_lines :: "(string \<times> string) list \<Rightarrow> string list" where
  "product_run_lines runs =
     (if runs = [] then []
      else [''# Product run identities: which handset and firmware a gate runs.'', ''''] @ assignment_lines runs)"

definition press_profile_lines :: "(string \<times> string) list \<Rightarrow> string list" where
  "press_profile_lines profiles =
     (if profiles = [] then []
      else [''# Key press shapes, named by value. A DURATION setting with no'',
        ''# paired GAP is a different shape and is left inline.'', ''''] @ assignment_lines profiles)"

definition gate_count_line :: "gate list \<Rightarrow> string" where
  "gate_count_line gates =
     ''# '' @ digits 10 (length gates) @ '' gates: '' @ digits 10 (length (filter (\<lambda>g. gt_unstructured g = None) gates))
     @ '' generated from typed steps, '' @ digits 10 (length (filter (\<lambda>g. gt_unstructured g \<noteq> None) gates))
     @ '' copied verbatim (shell).''"

definition generated_gate :: "gate \<Rightarrow> string list" where
  "generated_gate g =
     (case gt_unstructured g of None \<Rightarrow> [] | Some reason \<Rightarrow> [''# shell: '' @ reason]) @ render_gate_rule g @ ['''']"

definition generate :: "string \<Rightarrow> matrix \<Rightarrow> string" where
  "generate header m = newline_joined
     ([rstrip_char CHR 0x0A header, '''', gate_count_line (mx_gates m), ''''] @
      shell_guard_lines (mx_shell_guards m) @ product_run_lines (mx_product_runs m) @
      press_profile_lines (mx_press_profiles m) @ phony_lines (map gt_name (mx_gates m)) @ [''''] @
      concat (map generated_gate (mx_gates m)))"

section \<open>The makefile without its gates\<close>

definition blank :: "string \<Rightarrow> bool" where
  "blank line \<longleftrightarrow> strip line = []"

text \<open>Of a run of blank lines the first two stay; blank lines at the end go.\<close>

fun collapse :: "nat \<Rightarrow> string list \<Rightarrow> string list" where
  "collapse blanks [] = []"
| "collapse blanks (line # rest) =
     (if \<not> blank line then line # collapse 0 rest
      else if blanks + 1 \<le> 2 then line # collapse (blanks + 1) rest else collapse (blanks + 1) rest)"

definition kept_lines :: "make_segment list \<Rightarrow> string list" where
  "kept_lines segs = concat (map (\<lambda>s. case s of Text_lines ls \<Rightarrow> ls | Gate_lines _ _ _ \<Rightarrow> []) segs)"

definition trimmed_lines :: "string list \<Rightarrow> string list" where
  "trimmed_lines ls = rev (dropWhile blank (rev (collapse 0 ls)))"

definition include_lines :: "string list" where
  "include_lines = ['''',
     ''# Acceptance gates are generated from gates.json; see tools/gate_generate.py.'',
     ''# The rule below lets make rebuild gates.mk and restart when it is missing or'',
     ''# stale. `-include` is required for that: a mandatory `include` fails during'',
     ''# parsing, before any rule could run.'',
     ''gates.mk: gates.json tools/gate_generate.py tools/gate_render.py tools/gate_matrix.py'',
     CHR 0x09 # ''$(PYTHON) tools/gate_generate.py --from-data'', '''', ''-include gates.mk'', '''']"

definition makefile_without_gates :: "matrix \<Rightarrow> string" where
  "makefile_without_gates m = newline_joined (trimmed_lines (kept_lines (mx_segments m)) @ include_lines)"

section \<open>The comparison\<close>

definition differences :: "string list \<Rightarrow> (string \<Rightarrow> string list option) \<Rightarrow> (string \<Rightarrow> string list option) \<Rightarrow>
    (string \<times> string) list" where
  "differences names before after = List.map_filter (\<lambda>name.
     if after name = None then Some (name, ''missing from generated rules'')
     else if before name = None then Some (name, ''unexpected extra gate'')
     else if before name \<noteq> after name then Some (name, ''command sequence differs'') else None) names"

definition commands_of :: "gate list \<Rightarrow> string \<Rightarrow> string list option" where
  "commands_of gates = map_of (rev (map (\<lambda>g. (gt_name g, original_commands g)) gates))"

text \<open>Two dictionaries of variables are equal when they hold the same values.\<close>

definition same_declarations :: "gate \<Rightarrow> gate \<Rightarrow> bool" where
  "same_declarations g h \<longleftrightarrow> sort (gt_prerequisites g) = sort (gt_prerequisites h)
     \<and> list_all (\<lambda>n. map_of (gt_variables g) n = map_of (gt_variables h) n)
         (map fst (gt_variables g) @ map fst (gt_variables h))"

definition gate_named :: "gate list \<Rightarrow> string \<Rightarrow> gate option" where
  "gate_named gates = map_of (rev (map (\<lambda>g. (gt_name g, g)) gates))"

definition verify_equivalence :: "matrix \<Rightarrow> string \<Rightarrow> string \<Rightarrow> (nat \<times> (string \<times> string) list) res" where
  "verify_equivalence original generated_text makefile_text =
     rbind (extract_gates (makefile_text @ [CHR 0x0A] @ generated_text)) (\<lambda>combined.
       let before = mx_gates original; after = mx_gates combined;
           names = sorted_set (map gt_name before @ map gt_name after);
           problems = differences names (commands_of before) (commands_of after);
           shared = filter (\<lambda>n. gate_named before n \<noteq> None \<and> gate_named after n \<noteq> None) names;
           extra = List.map_filter (\<lambda>n. if same_declarations (the (gate_named before n)) (the (gate_named after n))
              \<or> map_of problems n \<noteq> None then None else Some (n, ''prerequisites or variables differ'')) shared
       in Inr (length (remdups (map gt_name before)), problems @ extra))"

section \<open>Properties\<close>

lemma from_to_record:
  "gt_name (from_record (to_record g)) = gt_name g"
  "gt_unstructured (from_record (to_record g)) = gt_unstructured g"
  by (simp_all add: from_record_def to_record_def split: option.splits)

lemma rule_from_to_record: "render_gate_rule (from_record (to_record g)) = render_gate_rule g"
  by (simp add: from_record_def to_record_def render_gate_rule_def declaration_lines_def render_gate_def split: option.splits)

text \<open>C21: The rules generated from the authored records of a matrix are the rules generated from the matrix
  itself: \<open>gates.json\<close> loses nothing that \<open>gates.mk\<close> shows.\<close>
theorem records_regenerate: "generate header (from_data (to_data m)) = generate header m"
proof -
  have g: "map generated_gate (map from_record (map to_record gs)) = map generated_gate gs" for gs
    by (simp add: generated_gate_def from_to_record rule_from_to_record)
  have c: "gate_count_line (map from_record (map to_record gs)) = gate_count_line gs" for gs
    by (simp add: gate_count_line_def filter_map comp_def from_to_record)
  have n: "map gt_name (map from_record (map to_record gs)) = map gt_name gs" for gs
    by (simp add: from_to_record)
  show ?thesis
    unfolding generate_def from_data_def to_data_def
    by (simp only: matrix.simps gate_data.simps g c n)
qed

text \<open>No more than two blank lines in a row, \<open>k\<close> of them before the list.\<close>

fun few_blanks :: "nat \<Rightarrow> string list \<Rightarrow> bool" where
  "few_blanks k [] = True"
| "few_blanks k (line # rest) = (if blank line then k + 1 \<le> 2 \<and> few_blanks (k + 1) rest else few_blanks 0 rest)"

lemma few_blanks_prefix: "few_blanks k (xs @ ys) \<Longrightarrow> few_blanks k xs"
  by (induction xs arbitrary: k) (auto split: if_splits)

lemma few_blanks_run: "few_blanks k (xs @ [a, b, c] @ ys) \<Longrightarrow> \<not> (blank a \<and> blank b \<and> blank c)"
  by (induction xs arbitrary: k) (auto split: if_splits)

lemma collapse_few: "k \<le> 2 \<Longrightarrow> few_blanks k (collapse k ls)" "2 \<le> k \<Longrightarrow> few_blanks 2 (collapse k ls)"
proof (induction ls arbitrary: k)
  case (Cons line rest)
  {
    case 1
    then show ?case using Cons.IH(1) [of "k + 1"] Cons.IH(2) [of "k + 1"] Cons.IH(1) [of 0]
      by (cases "k = 2") (auto simp del: add_2_eq_Suc')
  next
    case 2
    then show ?case using Cons.IH(1) [of 0] Cons.IH(2) [of "k + 1"] by auto
  }
qed auto

lemma collapse_nonblank: "filter (\<lambda>l. \<not> blank l) (collapse k ls) = filter (\<lambda>l. \<not> blank l) ls"
  by (induction k ls rule: collapse.induct) auto

lemma trimmed_collapse: "\<exists>zs. collapse 0 ls = trimmed_lines ls @ zs \<and> list_all blank zs"
proof (intro exI conjI)
  let ?r = "rev (collapse 0 ls)"
  show "collapse 0 ls = trimmed_lines ls @ rev (takeWhile blank ?r)"
    by (metis rev_append rev_rev_ident takeWhile_dropWhile_id trimmed_lines_def)
  show "list_all blank (rev (takeWhile blank ?r))"
    by (auto simp: list_all_iff dest: set_takeWhileD)
qed

text \<open>The makefile without its gates keeps every other line with content, in order; it has no three
  blank lines in a row and its own part does not end in a blank line.\<close>
lemma trimmed_makefile:
  "filter (\<lambda>l. \<not> blank l) (trimmed_lines ls) = filter (\<lambda>l. \<not> blank l) ls
   \<and> (\<nexists>xs a b c ys. trimmed_lines ls = xs @ [a, b, c] @ ys \<and> blank a \<and> blank b \<and> blank c)
   \<and> (trimmed_lines ls = [] \<or> \<not> blank (last (trimmed_lines ls)))"
proof (intro conjI)
  obtain zs where z: "collapse 0 ls = trimmed_lines ls @ zs" "list_all blank zs" using trimmed_collapse by blast
  have "filter (\<lambda>l. \<not> blank l) zs = []" using z(2) by (auto simp: list_all_iff filter_empty_conv)
  then show "filter (\<lambda>l. \<not> blank l) (trimmed_lines ls) = filter (\<lambda>l. \<not> blank l) ls"
    using collapse_nonblank [of 0 ls] by (simp add: z(1))
  have "few_blanks 0 (trimmed_lines ls)" using collapse_few(1) [of 0 ls] few_blanks_prefix by (simp add: z(1))
  then show "\<nexists>xs a b c ys. trimmed_lines ls = xs @ [a, b, c] @ ys \<and> blank a \<and> blank b \<and> blank c"
    using few_blanks_run [of 0] by metis
  have "dropWhile blank xs = [] \<or> \<not> blank (hd (dropWhile blank xs))" for xs using hd_dropWhile by blast
  from this [of "rev (collapse 0 ls)"] show "trimmed_lines ls = [] \<or> \<not> blank (last (trimmed_lines ls))"
    by (simp add: trimmed_lines_def last_rev del: dropWhile_eq_Nil_conv)
qed

end
