(* ===== verification/Gate_Audit.thy ===== *)
theory Gate_Audit
  imports Gate_Matrix
begin

text \<open>
  The parity audit of sibling gates, \<open>tools/gate_parity_audit.py\<close>: capability families and their
  differences, what the normalisation targets produce, and the search through the gate dependencies for
  gates that use a ROM without reaching the step that builds it.  The products are an argument: the tool
  reads them from the driver source.  The report text is left out.
\<close>

section \<open>Families\<close>

definition family_pattern :: pattern where
  "family_pattern = [(False, Seq Line_start (lit ''verify-'')),
     (True, Seq (some (One (char_between CHR ''0'' CHR ''9''))) (Many (One (char_between CHR ''a'' CHR ''z'')))),
     (False, lit ''-''), (True, some (One (\<lambda>c. c \<noteq> CHR 0x0A))), (False, Text_end)]"

definition family_of :: "string list \<Rightarrow> string \<Rightarrow> (string \<times> string) option" where
  "family_of products name =
     (let body = (if prefix ''verify-'' name then drop 7 name else name);
          fallback = (if body = [] \<or> prefix ''gsm-'' body then None else Some (''3210'', body)) in
      case rx_match family_pattern name of
        Some [product, family] \<Rightarrow> if product \<in> set products then Some (product, family) else fallback
      | _ \<Rightarrow> fallback)"

type_synonym families = "(string \<times> (string \<times> gate) list) list"

definition add_member :: "string list \<Rightarrow> families \<Rightarrow> gate \<Rightarrow> families" where
  "add_member products fs g =
     (case family_of products (gt_name g) of
        None \<Rightarrow> fs
      | Some (product, family) \<Rightarrow>
          let members = (case map_of fs family of None \<Rightarrow> [] | Some ms \<Rightarrow> ms) in
          AList.update family (AList.update product g members) fs)"

definition build_families :: "string list \<Rightarrow> gate list \<Rightarrow> families" where
  "build_families products gates = foldl (add_member products) [] gates"

definition scripts_of :: "gate \<Rightarrow> string list" where
  "scripts_of g = filter (\<lambda>s. s \<noteq> ''tools/run_mame_isolated.py'') (gt_scripts g)"

definition seconds_of :: "gate \<Rightarrow> string list" where
  "seconds_of g = sorted_set (List.map_filter (\<lambda>st. case st of
     Run_step _ _ _ _ parameters \<Rightarrow> map_of parameters ''SECONDS'' | _ \<Rightarrow> None) (gt_steps g))"

definition options_for :: "string \<Rightarrow> gate \<Rightarrow> string list" where
  "options_for script g = sorted_set (concat (map (\<lambda>st. case st of
     Check_step _ _ _ s _ options \<Rightarrow> if s = script then options else [] | _ \<Rightarrow> []) (gt_steps g)))"

section \<open>Findings\<close>

type_synonym detail = "(string \<times> string list) list"

datatype finding =
    Checker_set string detail "string list"
  | Not_comparable string "(string \<times> string) list"
  | Checker_options string string detail "string list"
  | Seconds_differ string detail
  | Prerequisites_differ string detail

definition common :: "string list list \<Rightarrow> string list" where
  "common xss = (case xss of [] \<Rightarrow> [] | xs # rest \<Rightarrow> sorted_set (filter (\<lambda>x. list_all (\<lambda>ys. x \<in> set ys) rest) xs))"

definition without :: "string list \<Rightarrow> string list \<Rightarrow> string list" where
  "without shared xs = sorted_set (filter (\<lambda>x. x \<notin> set shared) xs)"

definition differ :: "detail \<Rightarrow> bool" where
  "differ values \<longleftrightarrow> length (remdups (map snd values)) > 1"

definition script_findings :: "string \<Rightarrow> (string \<times> gate) list \<Rightarrow> finding list" where
  "script_findings family members =
     (let sets = map (\<lambda>(p, g). (p, scripts_of g)) members; shared = common (map snd sets);
          union = sorted_set (concat (map snd sets)) in
      if set shared \<noteq> set union
      then [Checker_set family (map (\<lambda>(p, xs). (p, without shared xs)) sets) shared] else [])"

definition option_findings :: "string \<Rightarrow> (string \<times> gate) list \<Rightarrow> finding list" where
  "option_findings family members =
     concat (map (\<lambda>script.
        let per_product = map (\<lambda>(p, g). (p, options_for script g)) members in
        if list_all (\<lambda>(_, options). options = []) per_product \<or> \<not> differ per_product then []
        else let shared = common (map snd per_product) in
          [Checker_options family script (map (\<lambda>(p, xs). (p, without shared xs)) per_product) shared])
      (common (map (\<lambda>(_, g). scripts_of g) members)))"

definition seconds_findings :: "string \<Rightarrow> (string \<times> gate) list \<Rightarrow> finding list" where
  "seconds_findings family members =
     (let seconds = map (\<lambda>(p, g). (p, seconds_of g)) members in
      if differ seconds \<and> list_ex (\<lambda>(_, v). v \<noteq> []) seconds then [Seconds_differ family seconds] else [])"

definition prerequisite_findings :: "string \<Rightarrow> (string \<times> gate) list \<Rightarrow> finding list" where
  "prerequisite_findings family members =
     (let prerequisites = map (\<lambda>(p, g). (p, sort (filter (\<lambda>item. item \<noteq> ''normalize-'' @ p) (gt_prerequisites g)))) members in
      if differ prerequisites then [Prerequisites_differ family prerequisites] else [])"

definition family_findings :: "string \<times> (string \<times> gate) list \<Rightarrow> finding list" where
  "family_findings = (\<lambda>(family, unsorted).
     if length unsorted < 2 then []
     else
       let members = sort_key fst unsorted;
           opaque = filter (\<lambda>(_, g). gt_unstructured g \<noteq> None) members in
       script_findings family members @
       (if opaque \<noteq> []
        then [Not_comparable family (map (\<lambda>(p, g). (p, if gt_unstructured g \<noteq> None then ''shell'' else ''structured'')) members)]
        else option_findings family members @ seconds_findings family members) @
       prerequisite_findings family members)"

section \<open>What the normalisation targets produce\<close>

definition output_pattern :: pattern where
  "output_pattern = [(False, seq [lit ''--'', Alt (lit ''flash'') (lit ''eeprom''), lit ''-output'', spaces, opt (lit [CHR 0x22])]),
     (True, Seq (lit ''roms/'') (some (One (\<lambda>c. \<not> is_space c \<and> c \<noteq> CHR 0x22 \<and> c \<noteq> CHR 0x5C))))]"

definition rom_name :: rx where
  "rom_name = Seq (lit ''nok'') (some (One lower_digit))"

definition destination_pattern :: pattern where
  "destination_pattern = [(False, lit ''roms/''), (True, rom_name), (False, Seq (opt (lit ''/'')) Text_end)]"

definition classify_outputs :: "string list \<Rightarrow> string list \<times> string list" where
  "classify_outputs body =
     (let files = sorted_set (findall1 output_pattern (newline_joined body));
          copied = List.map_filter (\<lambda>line.
            let stripped = strip (rstrip_char CHR 0x5C (strip line)) in
            if \<not> prefix ''cp '' stripped then None
            else case rx_match destination_pattern (last (split_space stripped)) of
                Some [directory] \<Rightarrow> Some directory | _ \<Rightarrow> None) body
      in (files, map (\<lambda>path. split_on CHR ''/'' path ! 1) files @ copied))"

definition normalize_pattern :: pattern where
  "normalize_pattern = [(False, Line_start), (True, Seq (lit ''normalize-'') (some (One (\<lambda>c. lower_digit c \<or> c = CHR ''-'')))),
     (False, Seq (Many (One is_space)) (lit '':''))]"

type_synonym outputs = "(string \<times> (string list \<times> string list)) list"

definition close_target :: "outputs \<Rightarrow> string option \<Rightarrow> string list \<Rightarrow> outputs" where
  "close_target outs current body = (case current of None \<Rightarrow> outs | Some t \<Rightarrow> AList.update t (classify_outputs body) outs)"

definition output_line :: "outputs \<times> string option \<times> string list \<Rightarrow> string \<Rightarrow> outputs \<times> string option \<times> string list" where
  "output_line = (\<lambda>(outs, current, body) line.
     case rx_match normalize_pattern line of
       Some [t] \<Rightarrow> (close_target outs current body, Some t, [])
     | _ \<Rightarrow>
         if current = None then (outs, current, body)
         else if tabbed line then (outs, current, body @ [line])
         else (close_target outs current body, None, []))"

definition normalisation_outputs :: "string \<Rightarrow> outputs" where
  "normalisation_outputs doc =
     (case foldl output_line ([], None, []) (split_on CHR 0x0A doc) of
        (outs, current, body) \<Rightarrow> close_target outs current body)"

section \<open>Reachability\<close>

definition make_target_pattern :: pattern where
  "make_target_pattern = [(False, seq [lit ''$(MAKE)'', Lazily (One (\<lambda>c. c \<noteq> CHR 0x0A)), Word_edge]),
     (True, seq [Alt (lit ''verify'') (lit ''normalize''), lit ''-'', some (One (\<lambda>c. lower_digit c \<or> c = CHR ''-''))])]"

definition dependencies :: "gate \<Rightarrow> string list" where
  "dependencies g = gt_prerequisites g @
     List.map_filter (\<lambda>st. case st of Delegate_step _ target _ \<Rightarrow> Some target | _ \<Rightarrow> None) (gt_steps g) @
     findall1 make_target_pattern (newline_joined (gt_recipe g))"

text \<open>\<open>any(dependency == target or reaches(dependency, target, seen) ...)\<close>, the visited names threaded
  through the calls.\<close>

type_synonym gate_table = "(string \<times> gate) list"

function search :: "gate_table \<Rightarrow> string \<Rightarrow> string list \<Rightarrow> string list \<Rightarrow> bool \<times> string list" where
  "search gates target [] seen = (False, seen)"
| "search gates target (d # ds) seen =
     (if d = target then (True, seen)
      else if d \<in> set seen then search gates target ds seen
      else case map_of gates d of
          None \<Rightarrow> search gates target ds (d # seen)
        | Some g \<Rightarrow>
            let r = search gates target (dependencies g) (d # seen) in
            if fst r then r else search gates target ds (snd r))"
  by pat_completeness auto

termination
proof (relation "inv_image (finite_psubset <*lex*> less_than)
    (\<lambda>(gates, target, ds, seen). (set (map fst gates) - set seen, length ds))", goal_cases)
  case (4 gates target d ds seen g)
  then have "d \<in> set (map fst gates)" by (auto dest: map_of_SomeD intro: rev_image_eqI)
  then show ?case using 4 by (auto simp: finite_psubset_def)
next
  case (5 gates target d ds seen g r)
  have grows: "set seen \<subseteq> set (snd (search gates target ds seen))" if "search_dom (gates, target, ds, seen)"
    for gates target ds seen
    using that
  proof (induction gates target ds seen rule: search.pinduct)
    case (2 gates target d ds seen)
    show ?case
    proof (cases "map_of gates d")
      case None
      then show ?thesis using 2 by (auto simp: search.psimps(2) [OF 2(1)])
    next
      case (Some g)
      let ?r = "search gates target (dependencies g) (d # seen)"
      show ?thesis
      proof (cases "d = target \<or> d \<in> set seen")
        case True
        then show ?thesis using 2 by (auto simp: search.psimps(2) [OF 2(1)])
      next
        case False
        then have n: "d \<noteq> target" "d \<notin> set seen" by simp_all
        have r: "set seen \<subseteq> set (snd ?r)" using "2.IH"(3) [OF n Some] by simp
        show ?thesis
        proof (cases "fst ?r")
          case True
          then show ?thesis using r n Some by (simp add: search.psimps(2) [OF 2(1)] Let_def)
        next
          case False
          then show ?thesis using r "2.IH"(4) [OF n Some refl False] n Some
            by (auto simp: search.psimps(2) [OF 2(1)] Let_def)
        qed
      qed
    qed
  qed (simp add: search.psimps)
  have "d \<in> set (map fst gates)" using 5 by (auto dest: map_of_SomeD intro: rev_image_eqI)
  moreover have "set (d # seen) \<subseteq> set (snd r)" using grows [of gates target "dependencies g" "d # seen"] 5 by simp
  ultimately show ?case using 5 by (auto simp: finite_psubset_def)
qed (auto simp: map_of_eq_None_iff)

definition reaches :: "gate_table \<Rightarrow> string \<Rightarrow> string \<Rightarrow> bool" where
  "reaches gates name target = (case map_of gates name of
     None \<Rightarrow> name = target | Some g \<Rightarrow> fst (search gates target (dependencies g) [name]))"

definition rom_path_pattern :: pattern where
  "rom_path_pattern = [(False, lit ''roms/''), (True, rom_name), (False, lit ''/''),
     (True, some (One (\<lambda>c. \<not> is_space c \<and> c \<noteq> CHR 0x27 \<and> c \<noteq> CHR 0x22 \<and> c \<noteq> CHR 0x5C)))]"

definition phone_pattern :: pattern where
  "phone_pattern = [(False, lit ''PHONE=''), (True, rom_name)]"

definition required_steps :: "outputs \<Rightarrow> gate \<Rightarrow> string list" where
  "required_steps outs g =
     (let recipe = newline_joined (gt_recipe g);
          needed_files = map (\<lambda>groups. ''roms/'' @ groups ! 0 @ ''/'' @ groups ! 1) (rx_findall rom_path_pattern recipe 0);
          needed_sets = findall1 phone_pattern recipe in
      sorted_set (map fst (filter (\<lambda>(_, files, directories).
        list_ex (\<lambda>f. f \<in> set files) needed_files \<or> list_ex (\<lambda>s. s \<in> set directories) needed_sets) outs)))"

definition gate_table_of :: "gate list \<Rightarrow> gate_table" where
  "gate_table_of gates = foldl (\<lambda>t g. AList.update (gt_name g) g t) [] gates"

definition gate_gaps :: "gate_table \<Rightarrow> outputs \<Rightarrow> string \<times> gate \<Rightarrow> (string \<times> string) list" where
  "gate_gaps gates outs = (\<lambda>(name, g).
     let required = required_steps outs g in
     if list_ex (reaches gates name) required then [] else map (\<lambda>step. (step, name)) required)"

definition normalisation_gaps :: "gate list \<Rightarrow> string \<Rightarrow> (string \<times> string list) list" where
  "normalisation_gaps gates doc =
     (let table = gate_table_of gates; outs = normalisation_outputs doc;
          gaps = concat (map (gate_gaps table outs) table) in
      map (\<lambda>step. (step, sort (map snd (filter (\<lambda>(s, _). s = step) gaps)))) (sorted_set (map fst gaps)))"

record audit_result =
  au_products :: "string list"
  au_gaps :: "(string \<times> string list) list"
  au_families :: "(string \<times> string list) list"
  au_multi_product :: "string list"
  au_membership :: "(string \<times> (string \<times> bool) list) list"
  au_findings :: "finding list"

definition audit :: "string list \<Rightarrow> matrix \<Rightarrow> string \<Rightarrow> audit_result" where
  "audit product_ids m doc =
     (let families = sort_key fst (build_families product_ids (mx_gates m));
          products = sorted_set (concat (map (\<lambda>(_, members). map fst members) families));
          shared = filter (\<lambda>(_, members). length members > 1) families in
      \<lparr>au_products = products, au_gaps = normalisation_gaps (mx_gates m) doc,
        au_families = map (\<lambda>(f, members). (f, sort (map fst members))) families,
        au_multi_product = map fst shared,
        au_membership = map (\<lambda>(f, members). (f, map (\<lambda>p. (p, p \<in> set (map fst members))) products)) shared,
        au_findings = concat (map family_findings families)\<rparr>)"

text \<open>\<open>main\<close> also requires that every declared target was extracted.\<close>

definition declared_pattern :: pattern where
  "declared_pattern = [(False, Line_start), (True, Seq (lit ''verify'') (Many (One (\<lambda>c. lower_digit c \<or> c = CHR ''-'')))),
     (False, seq [Many (One is_space), lit '':'', Not_ahead (lit ''='')])]"

definition audited :: "string list \<Rightarrow> string \<Rightarrow> audit_result res" where
  "audited product_ids doc = rbind (check_round_trip doc) (\<lambda>m.
     if set (findall1 declared_pattern doc) \<noteq> set (map gt_name (mx_gates m))
     then Inl (ValueError ''acceptance targets omitted'') else Inr (audit product_ids m doc))"

section \<open>The search is exact\<close>

definition depends :: "gate_table \<Rightarrow> (string \<times> string) set" where
  "depends gates = {(u, v). \<exists>g. map_of gates u = Some g \<and> v \<in> set (dependencies g)}"

lemma search_sound: "fst (search gates target ds seen) \<Longrightarrow> \<exists>d \<in> set ds. (d, target) \<in> (depends gates)\<^sup>*"
proof (induction gates target ds seen rule: search.induct)
  case (2 gates target d ds seen)
  show ?case
  proof (cases "d = target \<or> d \<in> set seen \<or> map_of gates d = None")
    case True
    then show ?thesis using 2 by (auto split: if_splits)
  next
    case False
    then obtain g where g: "map_of gates d = Some g" by auto
    let ?r = "search gates target (dependencies g) (d # seen)"
    show ?thesis
    proof (cases "fst ?r")
      case True
      then obtain e where "e \<in> set (dependencies g)" "(e, target) \<in> (depends gates)\<^sup>*"
        using "2.IH"(3) [OF _ _ g] False by auto
      moreover from this have "(d, e) \<in> depends gates" using g by (auto simp: depends_def)
      ultimately show ?thesis by (auto intro: converse_rtrancl_into_rtrancl)
    next
      case no: False
      then have "fst (search gates target ds (snd ?r))" using "2.prems" False g by (simp add: Let_def)
      then show ?thesis using "2.IH"(4) [OF _ _ g refl no] False by auto
    qed
  qed
qed simp

lemma search_complete:
  "\<not> fst (search gates target ds seen) \<Longrightarrow>
   set seen \<subseteq> set (snd (search gates target ds seen)) \<and> set ds \<subseteq> set (snd (search gates target ds seen)) \<and> target \<notin> set ds
   \<and> (\<forall>u \<in> set (snd (search gates target ds seen)) - set seen. \<forall>v. (u, v) \<in> depends gates \<longrightarrow>
        v \<noteq> target \<and> v \<in> set (snd (search gates target ds seen)))"
proof (induction gates target ds seen rule: search.induct)
  case (2 gates target d ds seen)
  have n: "d \<noteq> target" using "2.prems" by auto
  consider "d \<in> set seen" | "d \<notin> set seen" "map_of gates d = None" | g where "d \<notin> set seen" "map_of gates d = Some g"
    by (cases "map_of gates d") auto
  then show ?case
  proof cases
    case 1
    have e: "search gates target (d # ds) seen = search gates target ds seen" using n 1 by simp
    show ?thesis using "2.IH"(1) [OF n 1] "2.prems" 1 n unfolding e by auto
  next
    case 2
    have e: "search gates target (d # ds) seen = search gates target ds (d # seen)" using n 2 by simp
    let ?z = "snd (search gates target ds (d # seen))"
    have d: "(d, v) \<notin> depends gates" for v using 2(2) by (auto simp: depends_def)
    have "\<not> fst (search gates target ds (d # seen))" using "2.prems" e by simp
    note h = "2.IH"(2) [OF n 2 this]
    have z: "set (d # seen) \<subseteq> set ?z" "set ds \<subseteq> set ?z" "target \<notin> set ds"
      "\<And>u v. u \<in> set ?z \<Longrightarrow> u \<notin> set (d # seen) \<Longrightarrow> (u, v) \<in> depends gates \<Longrightarrow> v \<noteq> target \<and> v \<in> set ?z"
      using h by (simp_all only: Diff_iff Ball_def) blast+
    have "v \<noteq> target \<and> v \<in> set ?z" if "u \<in> set ?z" "u \<notin> set seen" "(u, v) \<in> depends gates" for u v
      using z(4) [OF that(1) _ that(3)] that(2,3) d by (cases "u = d") auto
    then show ?thesis unfolding e using z(1-3) n by auto
  next
    case (3 g)
    let ?r = "search gates target (dependencies g) (d # seen)"
    have r: "\<not> fst ?r" using "2.prems" n 3 by (auto simp: Let_def)
    have e: "search gates target (d # ds) seen = search gates target ds (snd ?r)" using n 3 r by (simp add: Let_def)
    note nested = "2.IH"(3) [OF n 3 r]
    have first: "set (d # seen) \<subseteq> set (snd ?r)" "set (dependencies g) \<subseteq> set (snd ?r)" "target \<notin> set (dependencies g)"
      "\<And>u v. u \<in> set (snd ?r) \<Longrightarrow> u \<notin> set (d # seen) \<Longrightarrow> (u, v) \<in> depends gates \<Longrightarrow> v \<noteq> target \<and> v \<in> set (snd ?r)"
      using nested by (simp_all only: Diff_iff Ball_def) blast+
    have "\<not> fst (search gates target ds (snd ?r))" using "2.prems" e by simp
    note second = "2.IH"(4) [OF n 3 refl r this]
    have d: "(d, v) \<in> depends gates \<Longrightarrow> v \<noteq> target \<and> v \<in> set (snd ?r)" for v
      using first(2,3) 3(2) by (auto simp: depends_def)
    let ?z = "snd (search gates target ds (snd ?r))"
    have z: "set (snd ?r) \<subseteq> set ?z" "set ds \<subseteq> set ?z" "target \<notin> set ds"
      "\<And>u v. u \<in> set ?z \<Longrightarrow> u \<notin> set (snd ?r) \<Longrightarrow> (u, v) \<in> depends gates \<Longrightarrow> v \<noteq> target \<and> v \<in> set ?z"
      using second by blast+
    have "v \<noteq> target \<and> v \<in> set ?z" if "u \<in> set ?z" "u \<notin> set seen" "(u, v) \<in> depends gates" for u v
    proof (cases "u = d \<or> u \<notin> set (snd ?r)")
      case True
      then show ?thesis using d z that by blast
    next
      case False
      then show ?thesis using first(4) z(1) that by auto
    qed
    then show ?thesis unfolding e using z(1-3) first(1) n by auto
  qed
qed simp

text \<open>The search for a target answers exactly whether the dependencies of the gate lead to it; on a
  name that is no gate it compares the names.\<close>

lemma reaches_iff:
  "reaches gates name target = (if map_of gates name = None then name = target else (name, target) \<in> (depends gates)\<^sup>+)"
proof (cases "map_of gates name")
  case (Some g)
  let ?s = "search gates target (dependencies g) [name]"
  have "fst ?s \<longleftrightarrow> (name, target) \<in> (depends gates)\<^sup>+"
  proof
    assume "fst ?s"
    then obtain d where "d \<in> set (dependencies g)" "(d, target) \<in> (depends gates)\<^sup>*" using search_sound by blast
    moreover from this have "(name, d) \<in> depends gates" using Some by (auto simp: depends_def)
    ultimately show "(name, target) \<in> (depends gates)\<^sup>+" by (auto intro: rtrancl_into_trancl2)
  next
    assume t: "(name, target) \<in> (depends gates)\<^sup>+"
    show "fst ?s"
    proof (rule ccontr)
      assume "\<not> fst ?s"
      note c = search_complete [OF this]
      have closed: "v \<noteq> target \<and> v \<in> set (snd ?s)" if "u \<in> set (snd ?s)" "(u, v) \<in> depends gates" for u v
        using c that Some by (cases "u = name") (auto simp: depends_def)
      have start: "name \<in> set (snd ?s)" using c by auto
      have "v \<noteq> target \<and> v \<in> set (snd ?s)" if "(name, v) \<in> (depends gates)\<^sup>+" for v
        using that closed start by (induction rule: trancl_induct) blast+
      then show False using t by blast
    qed
  qed
  then show ?thesis using Some by (simp add: reaches_def)
qed (simp add: reaches_def)

lemma distinct_table: "distinct (map fst (gate_table_of gates))"
proof -
  have "distinct (map fst t) \<Longrightarrow> distinct (map fst (foldl (\<lambda>t g. AList.update (gt_name g) g t) t gs))" for t gs
    by (induction gs arbitrary: t) (simp_all add: distinct_update)
  from this [of "[]" gates] show ?thesis by (simp add: gate_table_of_def)
qed

lemma gaps_of_gate:
  "map_of gates name = Some g \<Longrightarrow> (step, name) \<in> set (gate_gaps gates outs (name, g)) \<longleftrightarrow>
     step \<in> set (required_steps outs g) \<and> set (required_steps outs g) \<inter> (depends gates)\<^sup>+ `` {name} = {}"
  by (auto simp: gate_gaps_def Let_def list_ex_iff reaches_iff split: if_splits)

lemma gate_gaps_name: "(step, n) \<in> set (gate_gaps gates outs (name, g)) \<Longrightarrow> n = name"
  by (auto simp: gate_gaps_def Let_def split: if_splits)

lemma grouped_gaps:
  "(\<exists>names. (step \<in> fst ` set gaps \<and> names = sort (map snd (filter (\<lambda>(s, _). s = step) gaps))) \<and> name \<in> set names) \<longleftrightarrow>
   (step, name) \<in> set gaps"
  by (auto simp: image_iff) force


end
