(* ===== verification/Trace_Checks.thy ===== *)
theory Trace_Checks
  imports Py_Regex Rom4_Inverse Journal
begin

text \<open>
  The checks of logged observations against the word arithmetic: the trace checks of
  \<open>tools/nse5_transform_trace_check.py\<close> and the cache snapshots of \<open>tools/nse5_pmm_journal.py\<close>.  The
  patterns run on the matcher of \<open>Py_Regex\<close>; \<open>re.finditer\<close> gives the groups of each match in order.
\<close>

section \<open>Patterns and numbers\<close>

definition hex_digit :: "char \<Rightarrow> bool" where
  "hex_digit c \<longleftrightarrow> char_between CHR ''0'' CHR ''9'' c \<or> char_between CHR ''a'' CHR ''f'' c"

definition word_list :: rx where
  "word_list = some (One (\<lambda>c. hex_digit c \<or> c = CHR '':''))"

definition hex4 :: rx where
  "hex4 = seq (replicate 4 (One hex_digit))"

definition clock_text :: rx where
  "clock_text = some (One (\<lambda>c. char_between CHR ''0'' CHR ''9'' c \<or> c = CHR ''.''))"

definition field :: "string \<Rightarrow> rx \<Rightarrow> pattern" where
  "field name r = [(False, lit name), (True, r)]"

definition rotation_pattern :: pattern where
  "rotation_pattern = field ''nse5_compat_rotation: base='' hex4 @ field '' input='' word_list @ field '' output='' word_list
     @ field '' other='' hex4 @ field '' other_input='' word_list @ field '' other_output='' word_list @ field '' t='' clock_text"

definition mix_pattern :: pattern where
  "mix_pattern = field ''nse5_compat_mix: input='' word_list @ field '' output='' word_list @ field '' t='' clock_text"

definition reverse_pattern :: pattern where
  "reverse_pattern = field ''nse5_compat_reverse: base='' hex4 @ field '' input='' word_list @ field '' output='' word_list
     @ field '' t='' clock_text"

definition rounds_pattern :: pattern where
  "rounds_pattern = field ''nse5_compat_rounds: count='' (some (One (char_between CHR ''0'' CHR ''9'')))
     @ field '' schedule='' hex4 @ field '' base='' hex4 @ field '' t='' clock_text"

definition nonlinear_pattern :: pattern where
  "nonlinear_pattern = field ''nse5_compat_nonlinear: input='' word_list @ field '' output='' word_list @ field '' t='' clock_text"

definition codec_pattern :: pattern where
  "codec_pattern = field ''nse5_compat_codec: input='' word_list @ field '' table='' word_list @ field '' schedule='' word_list
     @ field '' output='' word_list @ field '' t='' clock_text"

text \<open>\<open>tuple(int(word, 16) for word in group.split(":"))\<close>.\<close>

definition hex_words :: "string \<Rightarrow> int list res" where
  "hex_words s = rmap_list (int_of 16) (split_on CHR '':'' s)"

text \<open>A loop over the matches that counts them; the first failure of the body is raised.\<close>

definition count_matches :: "(string list \<Rightarrow> unit res) \<Rightarrow> pattern \<Rightarrow> string \<Rightarrow> nat res" where
  "count_matches check_match pat src =
     rbind (rmap_list check_match (rx_findall pat src 0)) (\<lambda>us. Inr (length us))"

definition counted :: "string \<Rightarrow> nat res \<Rightarrow> nat res" where
  "counted missing n = rbind n (\<lambda>n. if n = 0 then Inl (ValueError missing) else Inr n)"

definition expect :: "bool \<Rightarrow> string \<Rightarrow> unit res" where
  "expect ok message = (if ok then Inr () else Inl (ValueError message))"

section \<open>The checks\<close>

definition codec_match :: "string list \<Rightarrow> unit res" where
  "codec_match groups =
     rbind (hex_words (groups ! 0)) (\<lambda>words. rbind (hex_words (groups ! 1)) (\<lambda>table.
     rbind (hex_words (groups ! 2)) (\<lambda>schedule. rbind (hex_words (groups ! 3)) (\<lambda>output.
     rbind (transform_words words table schedule) (\<lambda>expected.
       expect (expected = output) (''complete transform mismatch at t='' @ groups ! 4))))))"

definition check_codec :: "string \<Rightarrow> nat res" where
  "check_codec src = counted ''no complete transform observations'' (count_matches codec_match codec_pattern src)"

definition nonlinear_match :: "string list \<Rightarrow> unit res" where
  "nonlinear_match groups =
     rbind (hex_words (groups ! 0)) (\<lambda>before. rbind (hex_words (groups ! 1)) (\<lambda>after.
     rbind (nonlinear_words before) (\<lambda>expected.
       expect (after = expected) (''nonlinear mismatch at t='' @ groups ! 2))))"

definition check_nonlinear :: "string \<Rightarrow> nat res" where
  "check_nonlinear src =
     counted ''no observed nonlinear stage records'' (count_matches nonlinear_match nonlinear_pattern src)"

definition mix_match :: "string list \<Rightarrow> unit res" where
  "mix_match groups =
     rbind (hex_words (groups ! 0)) (\<lambda>before. rbind (hex_words (groups ! 1)) (\<lambda>after.
     rbind (mix_words before) (\<lambda>(a, b). expect (after = [a, b]) (''mix mismatch at t='' @ groups ! 2))))"

definition check_mix :: "string \<Rightarrow> nat res" where
  "check_mix src = counted ''no observed mixing helper records'' (count_matches mix_match mix_pattern src)"

text \<open>\<open>int(f"{word:016b}"[::-1], 2)\<close> of a word of any length.\<close>

definition binary_reversed :: "int \<Rightarrow> int res" where
  "binary_reversed w = int_of 2 (rev (zfill 16 (digits 2 (nat w))))"

definition reverse_match :: "string list \<Rightarrow> unit res" where
  "reverse_match groups =
     rbind (hex_words (groups ! 1)) (\<lambda>before. rbind (hex_words (groups ! 2)) (\<lambda>after.
       if length before \<noteq> 6 \<or> length after \<noteq> 6 then Inl (ValueError ''reversal requires six words per operand'')
       else rbind (rmap_list binary_reversed (rev before)) (\<lambda>expected.
         expect (after = expected) (''bit reversal mismatch at t='' @ groups ! 3))))"

definition check_structure :: "string \<Rightarrow> (nat \<times> nat) res" where
  "check_structure src =
     rbind (count_matches reverse_match reverse_pattern src) (\<lambda>reversals.
       let rounds = rx_findall rounds_pattern src 0 in
       if reversals = 0 \<or> rounds = [] then Inl (ValueError ''missing reversal or round observations'')
       else if list_ex (\<lambda>groups. int_of 10 (groups ! 0) \<noteq> Inr 11) rounds
       then Inl (ValueError ''round loop must execute eleven iterations before its final mix'')
       else Inr (reversals, length rounds))"

definition rotation_match :: "string list \<Rightarrow> unit res" where
  "rotation_match groups =
     rbind (hex_words (groups ! 1)) (\<lambda>before. rbind (hex_words (groups ! 2)) (\<lambda>after.
     rbind (hex_words (groups ! 4)) (\<lambda>other_before. rbind (hex_words (groups ! 5)) (\<lambda>other_after.
       if list_ex (\<lambda>words. length words \<noteq> 2) [before, after, other_before, other_after]
       then Inl (ValueError ''rotation record requires two words per operand'')
       else let (h, l) = rotate32 (before ! 0) (before ! 1) 10; (oh, ol) = rotate32 (other_before ! 0) (other_before ! 1) 31 in
         expect (after = [h, l] \<and> other_after = [oh, ol])
           (''rotation mismatch at '' @ groups ! 0 @ '', t='' @ groups ! 6)))))"

definition check_rotations :: "string \<Rightarrow> nat res" where
  "check_rotations src = counted ''no observed rotation helper records'' (count_matches rotation_match rotation_pattern src)"

record trace_report =
  tr_rotations :: nat
  tr_mixes :: nat
  tr_reversals :: nat
  tr_rounds :: nat
  tr_nonlinear :: nat
  tr_codec :: nat

text \<open>\<open>main\<close>, with the text of the trace read once.\<close>

definition check_transform_trace :: "string \<Rightarrow> trace_report res" where
  "check_transform_trace src =
     rbind (check_rotations src) (\<lambda>rotations. rbind (check_mix src) (\<lambda>mixes.
     rbind (check_structure src) (\<lambda>(reversals, rounds). rbind (check_nonlinear src) (\<lambda>nonlinear.
     rbind (check_codec src) (\<lambda>codec.
       Inr \<lparr>tr_rotations = rotations, tr_mixes = mixes, tr_reversals = reversals, tr_rounds = rounds,
         tr_nonlinear = nonlinear, tr_codec = codec\<rparr>)))))"

section \<open>Cache snapshots\<close>

definition snapshot_pattern :: pattern where
  "snapshot_pattern = field ''nse5_compat_storage_cache_snapshot: bytes='' (some (One hex_digit))"

definition check_snapshots :: "bytes \<Rightarrow> string \<Rightarrow> nat res" where
  "check_snapshots cache src =
     (let snapshots = map hd (rx_findall snapshot_pattern src 0) in
      if snapshots = [] then Inl (ValueError ''no loader-completion cache snapshot'')
      else rbind (rmap_list (\<lambda>v. rbind (from_hex v) (\<lambda>bs.
          expect (bs = cache) ''loader-completion cache differs from independent replay'')) snapshots)
        (\<lambda>us. Inr (length us)))"

section \<open>What an accepted trace shows\<close>

lemma expect_Inr [simp]: "expect ok message = Inr () \<longleftrightarrow> ok"
  by (simp add: expect_def)

lemma counted_iff: "counted missing (count_matches f pat src) = Inr n \<longleftrightarrow>
    n = length (rx_findall pat src 0) \<and> 0 < n \<and> list_all (\<lambda>groups. f groups = Inr ()) (rx_findall pat src 0)"
proof -
  have l: "(\<exists>us. rmap_list f xs = Inr us \<and> length us = k) \<longleftrightarrow> k = length xs \<and> list_all (\<lambda>x. f x = Inr ()) xs" for xs k
  proof (induction xs arbitrary: k)
    case (Cons x xs)
    have "(\<exists>us. rmap_list f (x # xs) = Inr us \<and> length us = k) \<longleftrightarrow>
        f x = Inr () \<and> (\<exists>us. rmap_list f xs = Inr us \<and> Suc (length us) = k)"
      by (auto simp: rbind_eq_Inr)
    also have "\<dots> \<longleftrightarrow> f x = Inr () \<and> (\<exists>j. k = Suc j \<and> (\<exists>us. rmap_list f xs = Inr us \<and> length us = j))" by auto
    finally show ?case using Cons.IH by auto
  qed auto
  have "counted missing (count_matches f pat src) = Inr n \<longleftrightarrow>
      (\<exists>us. rmap_list f (rx_findall pat src 0) = Inr us \<and> length us = n) \<and> 0 < n"
    by (auto simp: counted_def count_matches_def rbind_eq_Inr split: if_splits)
  then show ?thesis by (auto simp: l)
qed

text \<open>A trace passes the check of complete transforms with the count \<open>n\<close> exactly when it holds
  \<open>n\<close> observations, at least one, and each observed output is the transform of the observed input.\<close>
theorem codec_trace_accepted:
  "check_codec src = Inr n \<longleftrightarrow> n = length (rx_findall codec_pattern src 0) \<and> 0 < n
   \<and> list_all (\<lambda>groups. \<exists>words table schedule output. map hex_words (take 4 groups) = [Inr words, Inr table, Inr schedule, Inr output]
        \<and> transform_words words table schedule = Inr output) (rx_findall codec_pattern src 0)"
proof -
  have "length (filter fst codec_pattern) = 5" by (simp add: codec_pattern_def field_def)
  then have "groups \<in> set (rx_findall codec_pattern src 0) \<Longrightarrow> codec_match groups = Inr () \<longleftrightarrow>
      (\<exists>words table schedule output. map hex_words (take 4 groups) = [Inr words, Inr table, Inr schedule, Inr output]
        \<and> transform_words words table schedule = Inr output)" for groups
    using findall_groups [of groups codec_pattern src 0]
    by (auto simp: codec_match_def rbind_eq_Inr length_Suc_conv numeral_eq_Suc)
  then show ?thesis unfolding check_codec_def counted_iff list_all_iff by (simp cong: ball_cong)
qed

end
