(* ===== verification/A00_Main.thy ===== *)
theory A00_Main
  imports A00_Container Py_Json
begin

text \<open>
  The command line of \<open>tools/noki5510_a00_inventory.py\<close>: which reader runs for which options, which
  combinations are refused, and which exceptions end in an exit.  The file's bytes and whether the
  output exists are arguments; what would be printed or written is the result.
\<close>

record a00_args =
  ar_image :: "bytes option"
  ar_extract_section :: "int option"
  ar_cinit_section :: "int option"
  ar_program_cinit :: "int option"
  ar_segment :: "string option"
  ar_extract_segment :: bool
  ar_extract_container :: bool
  ar_output :: "bool option"
  ar_program_range :: "(int \<times> int) option"
  ar_call_census :: "(int \<times> int) option"
  ar_little_endian :: bool

datatype a00_report =
    Program_cinit program_cinit_report
  | Call_census call_census
  | Range_written bytes
  | Data_written bytes
  | Cinit_report cinit_report
  | Boot_report boot_report
  | Container_report container

text \<open>A usage error exits with status 2, an \<open>OSError\<close> or \<open>ValueError\<close> with a message and status 1; any
  other exception is not caught.\<close>

datatype a00_outcome =
    Report a00_report
  | Usage string
  | Failed string "string option"
  | Uncaught exn

text \<open>\<open>args.segment\<close> as a condition: an empty marker counts as none.\<close>

definition no_segment :: "a00_args \<Rightarrow> bool" where
  "no_segment a \<longleftrightarrow> ar_segment a = None \<or> ar_segment a = Some ''''"

definition marker_of :: "a00_args \<Rightarrow> string" where
  "marker_of a = (case ar_segment a of None \<Rightarrow> '''' | Some s \<Rightarrow> s)"

text \<open>\<open>bytes.fromhex(source.decode('ascii'))\<close>.\<close>

definition ascii_hex :: "bytes \<Rightarrow> bytes res" where
  "ascii_hex source =
     (if list_ex (\<lambda>b. 128 \<le> uint b) source then Inl (ValueError ''ordinal not in range(128)'')
      else case fromhex_ws (map (\<lambda>b. char_of (unat b)) source) of
          None \<Rightarrow> Inl (ValueError ''non-hexadecimal number found in fromhex() arg'')
        | Some bs \<Rightarrow> Inr bs)"

text \<open>Reading the image and running \<open>f\<close> under \<open>except (OSError, ValueError)\<close>; \<open>Inr None\<close> is an \<open>OSError\<close>.\<close>

definition guarded :: "string \<Rightarrow> a00_args \<Rightarrow> (bytes \<Rightarrow> a00_report option res) \<Rightarrow> a00_outcome" where
  "guarded message a f =
     (case ar_image a of
        None \<Rightarrow> Failed message None
      | Some source \<Rightarrow>
          (case rbind (ascii_hex source) f of
             Inr (Some r) \<Rightarrow> Report r
           | Inr None \<Rightarrow> Failed message None
           | Inl (ValueError m) \<Rightarrow> Failed message (Some m)
           | Inl e \<Rightarrow> Uncaught e))"

text \<open>\<open>open('xb')\<close> refuses to overwrite.\<close>

definition written :: "a00_args \<Rightarrow> a00_report \<Rightarrow> a00_report option res" where
  "written a r = Inr (if ar_output a = Some True then None else Some r)"

definition exports :: "a00_args \<Rightarrow> bool" where
  "exports a \<longleftrightarrow> ar_extract_section a \<noteq> None \<or> ar_extract_segment a \<or> ar_extract_container a \<or> ar_cinit_section a \<noteq> None"

definition export_data :: "a00_args \<Rightarrow> bytes \<Rightarrow> bytes res" where
  "export_data a img =
     rbind (if ar_extract_container a
        then rbind (inventory img) (\<lambda>report.
          if list_all (\<lambda>s. ig_matches (sg_integrity s)) (ct_segments report) then Inr ()
          else Inl (ValueError ''original container payload checksum mismatch''))
        else Inr ()) (\<lambda>_.
       if ar_extract_container a then Inr img
       else if ar_extract_segment a then extract_segment img (ar_segment a)
       else case ar_extract_section a of
           Some address \<Rightarrow> extract_section img address (ar_segment a)
         | None \<Rightarrow> Inl (ValueError ''select exactly one section destination word address''))"

definition plain_report :: "a00_args \<Rightarrow> bytes \<Rightarrow> a00_report option res" where
  "plain_report a img =
     (case ar_cinit_section a of
        Some address \<Rightarrow> rmap (Some \<circ> Cinit_report) (rbind (extract_section img address (ar_segment a)) cinit_inventory)
      | None \<Rightarrow>
          if boot_signature img then rmap (Some \<circ> Boot_report) (serial_boot_inventory img)
          else rmap (Some \<circ> Container_report) (inventory img))"

definition usage_of :: "a00_args \<Rightarrow> string option" where
  "usage_of a =
     (if ar_little_endian a then Some ''--disassembler-little-endian requires --extract-program-range''
      else if ar_extract_container a \<and> (ar_segment a \<noteq> None \<or> ar_extract_segment a \<or> ar_extract_section a \<noteq> None \<or> ar_cinit_section a \<noteq> None)
      then Some ''--extract-container excludes segment and section operations''
      else if ar_extract_segment a \<and> (ar_segment a = None \<or> ar_extract_section a \<noteq> None \<or> ar_cinit_section a \<noteq> None)
      then Some ''--extract-segment requires --segment and excludes section operations''
      else if ar_cinit_section a \<noteq> None \<and> (ar_extract_section a \<noteq> None \<or> ar_output a \<noteq> None)
      then Some ''--cinit-section cannot be combined with section export''
      else if (ar_extract_section a = None \<and> \<not> ar_extract_segment a \<and> \<not> ar_extract_container a) \<noteq> (ar_output a = None)
      then Some ''--extract-section and --output must be used together''
      else if ar_segment a \<noteq> None \<and> ar_output a = None \<and> ar_cinit_section a = None
      then Some ''--segment requires section extraction or C initialization inspection''
      else None)"

definition a00_main :: "a00_args \<Rightarrow> a00_outcome" where
  "a00_main a =
     (case (ar_program_cinit a, ar_call_census a, ar_program_range a) of
        (Some address, census, limits) \<Rightarrow>
          if no_segment a \<or> ar_output a \<noteq> None \<or> limits \<noteq> None \<or> census \<noteq> None \<or> exports a \<or> ar_little_endian a
          then Usage ''--program-cinit-address requires --segment and excludes export operations''
          else guarded ''A00 C initialization inventory: '' a
            (\<lambda>img. rmap (Some \<circ> Program_cinit) (program_cinit_inventory img address (marker_of a)))
      | (None, Some (start, stop), limits) \<Rightarrow>
          if no_segment a \<or> ar_output a \<noteq> None \<or> limits \<noteq> None \<or> exports a \<or> ar_little_endian a
          then Usage ''--program-call-census requires --segment and excludes export operations''
          else guarded ''A00 call census: '' a
            (\<lambda>img. rmap (Some \<circ> Call_census) (program_call_census img start stop (marker_of a)))
      | (None, None, Some (start, stop)) \<Rightarrow>
          if no_segment a \<or> ar_output a = None \<or> exports a
          then Usage ''--extract-program-range requires --segment/--output and excludes other exports''
          else guarded '''' a (\<lambda>img. rbind (extract_program_range img start stop (marker_of a) (ar_little_endian a))
            (\<lambda>data. written a (Range_written data)))
      | (None, None, None) \<Rightarrow>
          (case usage_of a of
             Some message \<Rightarrow> Usage message
           | None \<Rightarrow>
               guarded ''A00 inventory: '' a (\<lambda>img.
                 if ar_output a \<noteq> None then rbind (export_data a img) (\<lambda>data. written a (Data_written data))
                 else plain_report a img)))"

section \<open>Exports\<close>

text \<open>The last case of \<open>export_data\<close> never runs: an output without an export operation is a usage error.\<close>

lemma export_needs_operation:
  "usage_of a = None \<Longrightarrow> ar_output a \<noteq> None \<Longrightarrow>
   ar_extract_section a \<noteq> None \<or> ar_extract_segment a \<or> ar_extract_container a"
  by (auto simp: usage_of_def split: if_splits)

lemma guarded_Report: "guarded message a f = Report r \<longleftrightarrow>
    (\<exists>source img. ar_image a = Some source \<and> ascii_hex source = Inr img \<and> f img = Inr (Some r))"
  by (auto simp: guarded_def rbind_def split: option.splits sum.splits exn.splits)

text \<open>The command line never overwrites an artifact, and an export is always the whole image with valid
  payload checksums, one segment with a valid checksum, one section with a valid hash or a program range.\<close>
theorem export_never_overwrites:
  assumes "a00_main a = Report (Data_written data) \<or> a00_main a = Report (Range_written data)"
  shows "ar_output a = Some False \<and> (\<exists>source img. ar_image a = Some source \<and> ascii_hex source = Inr img
    \<and> (export_data a img = Inr data \<or>
       (\<exists>start stop. extract_program_range img start stop (marker_of a) (ar_little_endian a) = Inr data)))"
  using assms
  by (auto simp: a00_main_def guarded_Report written_def rmap_eq_Inr rbind_eq_Inr plain_report_def
      split: option.splits if_splits prod.splits)

end
