(* ===== verification/Gensio.thy ===== *)
theory Gensio
  imports Py_Regex Py_Dict
begin

text \<open>
  The check of serial traffic with the power controller, \<open>tools/gensio_trace_check.py\<close>: register
  accesses read from a log, their decoding into CCONT transactions, and the contracts on the decoded
  transactions.  The grammar of legal conversations is an inductive step relation; the decoder reports
  no error exactly on the traces that the relation accepts.
\<close>

section \<open>Accesses\<close>

datatype direction = Rd | Wr

type_synonym access = "direction \<times> int \<times> int"
type_synonym transaction = "direction \<times> int \<times> int"

definition hex_any :: "char \<Rightarrow> bool" where
  "hex_any c \<longleftrightarrow> char_between CHR ''0'' CHR ''9'' c \<or> char_between CHR ''a'' CHR ''f'' c \<or> char_between CHR ''A'' CHR ''F'' c"

definition hex2 :: rx where
  "hex2 = seq [One hex_any, One hex_any]"

definition access_pattern :: pattern where
  "access_pattern = [(False, seq [lit ''gensio'', opt (lit ''_select''), lit '': '']),
     (True, One (\<lambda>c. c = CHR ''R'' \<or> c = CHR ''W'')), (False, lit '' off=''), (True, hex2), (False, lit '' data=''), (True, hex2)]"

definition access_of :: "string list \<Rightarrow> access res" where
  "access_of groups =
     rbind (int_of 16 (groups ! 1)) (\<lambda>offset. rbind (int_of 16 (groups ! 2)) (\<lambda>data.
       Inr (if groups ! 0 = ''R'' then Rd else Wr, offset, data)))"

definition parse_accesses :: "string \<Rightarrow> access list res" where
  "parse_accesses src = rmap_list access_of (rx_findall access_pattern src 0)"

section \<open>Transactions\<close>

datatype phase = Command_phase | Data_phase

record gensio_state =
  gs_errors :: "string list"
  gs_selected :: "int option"
  gs_phase :: "phase option"
  gs_pending :: bool
  gs_ready :: bool
  gs_reads :: nat
  gs_writes :: nat
  gs_transactions :: "transaction list"
  gs_command :: "int option"

definition gensio_start :: gensio_state where
  "gensio_start = \<lparr>gs_errors = [], gs_selected = None, gs_phase = None, gs_pending = False, gs_ready = False,
     gs_reads = 0, gs_writes = 0, gs_transactions = [], gs_command = None\<rparr>"

definition gensio_error :: "string \<Rightarrow> gensio_state \<Rightarrow> gensio_state" where
  "gensio_error message s = s\<lparr>gs_errors := gs_errors s @ [message]\<rparr>"

text \<open>\<open>(command >> 3) & 0x0F\<close> with the direction and the data, when a command byte was seen.\<close>

definition add_transaction :: "direction \<Rightarrow> int \<Rightarrow> gensio_state \<Rightarrow> gensio_state" where
  "add_transaction d data s =
     (case gs_command s of
        None \<Rightarrow> s
      | Some command \<Rightarrow> s\<lparr>gs_transactions := gs_transactions s @ [(d, drop_bit 3 command AND 0x0F, data)]\<rparr>)"

definition on_select :: "int \<Rightarrow> gensio_state \<Rightarrow> gensio_state" where
  "on_select data s =
     (let s = s\<lparr>gs_selected := Some data\<rparr> in
      if data = 0x25 then s\<lparr>gs_phase := Some Command_phase, gs_pending := False, gs_ready := False, gs_command := None\<rparr>
      else s)"

definition on_status :: "int \<Rightarrow> gensio_state \<Rightarrow> gensio_state" where
  "on_status data s = (if gs_pending s \<and> data = 0x07 then s\<lparr>gs_ready := True\<rparr> else s)"

definition on_byte :: "int \<Rightarrow> gensio_state \<Rightarrow> gensio_state" where
  "on_byte data s =
     (case gs_phase s of
        Some Command_phase \<Rightarrow>
          s\<lparr>gs_command := Some data, gs_pending := (data AND 0x04 \<noteq> 0), gs_ready := False, gs_phase := Some Data_phase\<rparr>
      | Some Data_phase \<Rightarrow>
          (let s = (if gs_pending s then gensio_error ''CCONT read command was followed by a data write'' s else s);
               s = add_transaction Wr data s
           in s\<lparr>gs_writes := gs_writes s + 1, gs_phase := Some Command_phase\<rparr>)
      | None \<Rightarrow> gensio_error ''CCONT byte observed without endpoint selection'' s)"

definition on_data :: "int \<Rightarrow> gensio_state \<Rightarrow> gensio_state" where
  "on_data data s =
     (let s = (if gs_phase s \<noteq> Some Data_phase \<or> \<not> gs_pending s
               then gensio_error ''CCONT data read without a pending read command'' s else s);
          s = (if \<not> gs_ready s then gensio_error ''CCONT data consumed before GENSIO status 0x07'' s else s);
          s = add_transaction Rd data s
      in s\<lparr>gs_reads := gs_reads s + 1, gs_pending := False, gs_ready := False, gs_phase := Some Command_phase\<rparr>)"

definition gensio_step :: "gensio_state \<Rightarrow> access \<Rightarrow> gensio_state" where
  "gensio_step s a =
     (case a of (direction, offset, data) \<Rightarrow>
        if direction = Wr \<and> offset = 0x2D then on_select data s
        else if gs_selected s \<noteq> Some 0x25 then s
        else if direction = Rd \<and> offset = 0x6D then on_status data s
        else if direction = Wr \<and> offset = 0x2C then on_byte data s
        else if direction = Rd \<and> offset = 0x6C then on_data data s
        else s)"

definition decode_transactions :: "access list \<Rightarrow> string list \<times> (nat \<times> nat \<times> nat) \<times> transaction list" where
  "decode_transactions accesses =
     (let s = foldl gensio_step gensio_start accesses;
          errors = gs_errors s
            @ (if accesses = [] then [''no GENSIO trace records found''] else [])
            @ (if gs_reads s = 0 then [''no complete CCONT read transactions found''] else [])
            @ (if gs_writes s = 0 then [''no complete CCONT write transactions found''] else [])
      in (errors, (length accesses, gs_reads s, gs_writes s), gs_transactions s))"

definition check_accesses :: "access list \<Rightarrow> string list \<times> (nat \<times> nat \<times> nat)" where
  "check_accesses accesses = (case decode_transactions accesses of (errors, counts, _) \<Rightarrow> (errors, counts))"

section \<open>The register contract\<close>

definition select_init :: "(int \<times> int) list" where
  "select_init = [(0x6F, 0x00), (0xAD, 0xC4), (0xAE, 0x20), (0xAF, 0x00), (0xED, 0x21), (0xEE, 0x80), (0xEF, 0x00)]"

definition select_access :: "(int, int list) dict \<times> int set \<Rightarrow> access \<Rightarrow> (int, int list) dict \<times> int set" where
  "select_access st a =
     (case (st, a) of ((writes, reads), (direction, offset, data)) \<Rightarrow>
        if map_of select_init offset = None then (writes, reads)
        else if direction = Wr
        then (dict_set offset ((case map_of writes offset of None \<Rightarrow> [] | Some vs \<Rightarrow> vs) @ [data]) writes, reads)
        else (writes, insert offset reads))"

definition values_at :: "(int, int list) dict \<Rightarrow> int \<Rightarrow> int list" where
  "values_at writes offset = (case map_of writes offset of None \<Rightarrow> [] | Some vs \<Rightarrow> vs)"

definition check_select_contract :: "access list \<Rightarrow> string list \<times> (nat \<times> nat)" where
  "check_select_contract accesses =
     (case foldl select_access ([], {}) accesses of (writes, reads) \<Rightarrow>
        (concat (map (\<lambda>(offset, expected). if expected \<in> set (values_at writes offset) then []
            else [''SELECT register 0x'' @ fmt_x 2 offset @ '' never received 0x'' @ fmt_x 2 expected]) select_init)
          @ (if 0xAF \<notin> reads then [''SELECT2 control register 0xaf was never read back''] else [])
          @ (if 0x6F \<notin> reads \<or> 0x01 \<notin> set (values_at writes 0x6F)
             then [''SELECT1 control register 0x6f did not perform its bit-0 update''] else []),
         (length writes, card reads)))"

section \<open>Converter results\<close>

definition adc_sane :: "int list" where
  "adc_sane = [0x2C0, 0x2C0, 508, 575, 327, 0x000, 0x200, 0x000]"

record adc_state =
  ad_errors :: "string list"
  ad_selector :: "int option"
  ad_lsb_seen :: bool
  ad_observed :: "int set"
  ad_reads :: nat

definition adc_wanted :: "int \<Rightarrow> int \<Rightarrow> int" where
  "adc_wanted address expected = (if address = 2 then expected AND 0xFF else 0xB0 OR (drop_bit 8 expected AND 0x03))"

definition adc_error :: "int \<Rightarrow> int \<Rightarrow> int \<Rightarrow> int \<Rightarrow> string" where
  "adc_error selector address data wanted =
     ''ADC selector '' @ fmt_d selector @ '' register '' @ fmt_d address @ '' returned 0x'' @ fmt_x 2 data
     @ '', expected 0x'' @ fmt_x 2 wanted"

definition adc_step :: "int list \<Rightarrow> adc_state \<Rightarrow> transaction \<Rightarrow> adc_state res" where
  "adc_step values s t =
     (case t of (direction, address, data) \<Rightarrow>
        if direction = Wr \<and> address = 0 then
          let selector = drop_bit 4 data AND 0x07 in
          Inr (s\<lparr>ad_selector := Some selector, ad_observed := insert selector (ad_observed s), ad_lsb_seen := False\<rparr>)
        else if direction = Rd \<and> (address = 2 \<or> address = 3) then
          (case ad_selector s of
             None \<Rightarrow> Inr s
           | Some selector \<Rightarrow>
               if address = 3 \<and> \<not> ad_lsb_seen s then Inr s
               else rbind (item values (nat selector)) (\<lambda>expected.
                 let wanted = adc_wanted address expected in
                 Inr (s\<lparr>ad_errors := ad_errors s @ (if data \<noteq> wanted then [adc_error selector address data wanted] else []),
                        ad_reads := ad_reads s + 1, ad_lsb_seen := (address = 2)\<rparr>)))
        else Inr s)"

definition check_adc :: "transaction list \<Rightarrow> int list \<Rightarrow> (string list \<times> nat \<times> nat) res" where
  "check_adc transactions values =
     rbind (rfold (adc_step values)
        \<lparr>ad_errors = [], ad_selector = None, ad_lsb_seen = False, ad_observed = {}, ad_reads = 0\<rparr> transactions) (\<lambda>s.
       let missing = filter (\<lambda>i. i \<notin> ad_observed s) (map int [0..<length values]) in
       Inr (ad_errors s
         @ (if missing \<noteq> [] then [''ADC selectors not exercised: '' @ join_with '', '' (map fmt_d missing)] else [])
         @ (if ad_reads s = 0 then [''no ADC result reads found''] else []),
         ad_reads s, card (ad_observed s)))"

section \<open>The charger interrupt\<close>

record charger_state =
  cg_status :: bool
  cg_ack :: bool
  cg_clear :: bool
  cg_unmasked :: bool
  cg_selector :: "int option"
  cg_low :: "int option"
  cg_samples :: "int list"

definition charger_start :: charger_state where
  "charger_start = \<lparr>cg_status = False, cg_ack = False, cg_clear = False, cg_unmasked = False, cg_selector = None,
     cg_low = None, cg_samples = []\<rparr>"

definition charger_step :: "charger_state \<Rightarrow> transaction \<Rightarrow> charger_state" where
  "charger_step s t =
     (case t of (direction, address, data) \<Rightarrow>
        if direction = Wr \<and> address = 0 then s\<lparr>cg_selector := Some (drop_bit 4 data AND 0x07), cg_low := None\<rparr>
        else if direction = Rd \<and> address = 2 \<and> cg_selector s = Some 5 then s\<lparr>cg_low := Some data\<rparr>
        else if direction = Rd \<and> address = 3 \<and> cg_selector s = Some 5 \<and> cg_low s \<noteq> None
        then s\<lparr>cg_samples := cg_samples s @ [the (cg_low s) OR push_bit 8 (data AND 0x03)], cg_low := None\<rparr>
        else if direction = Wr \<and> address = 0x0F \<and> data AND 0x08 = 0 then s\<lparr>cg_unmasked := True\<rparr>
        else if direction = Rd \<and> address = 0x0E
        then (if data AND 0x08 \<noteq> 0 then s\<lparr>cg_status := True\<rparr> else if cg_ack s then s\<lparr>cg_clear := True\<rparr> else s)
        else if direction = Wr \<and> address = 0x0E \<and> cg_status s \<and> data AND 0x08 \<noteq> 0 then s\<lparr>cg_ack := True\<rparr>
        else s)"

text \<open>A line \<open>name=hh\<close> of the summary; \<open>$\<close> matches before a line feed and at the end.\<close>

definition line_end :: rx where
  "line_end = Not_ahead (One (\<lambda>c. c \<noteq> CHR 0x0A))"

definition summary_byte :: "string \<Rightarrow> string \<Rightarrow> int option res" where
  "summary_byte name summary =
     (case rx_findall [(False, Seq Line_start (lit (name @ ''=''))), (True, hex2), (False, line_end)] summary 0 of
        [] \<Rightarrow> Inr None
      | groups # _ \<Rightarrow> rmap Some (int_of 16 (groups ! 0)))"

definition when_error :: "bool \<Rightarrow> string \<Rightarrow> string list" where
  "when_error b message = (if b then [message] else [])"

definition check_charger_irq :: "transaction list \<Rightarrow> string \<Rightarrow> bool \<Rightarrow> (string list \<times> bool \<times> bool \<times> bool \<times> nat) res" where
  "check_charger_irq transactions summary require_absent =
     (let s = foldl charger_step charger_start transactions in
      rbind (summary_byte ''irq_seen'' summary) (\<lambda>irq_seen. rbind (summary_byte ''final_irq_status'' summary) (\<lambda>final_irq.
        Inr (when_error (\<not> cg_unmasked s) ''CCONT charger source was never observed unmasked''
          @ when_error (case irq_seen of None \<Rightarrow> True | Some v \<Rightarrow> v AND 0x04 = 0) ''MAD2 IRQ2 was not observed''
          @ when_error (case final_irq of None \<Rightarrow> True | Some v \<Rightarrow> v AND 0x04 \<noteq> 0) ''MAD2 IRQ2 did not deassert''
          @ when_error (\<not> cg_status s) ''firmware did not read the asserted CCONT charger source''
          @ when_error (\<not> cg_ack s) ''firmware did not acknowledge CCONT charger source bit 3''
          @ when_error (\<not> cg_clear s) ''CCONT charger source did not read clear after acknowledgement''
          @ when_error (\<not> list_ex (\<lambda>v. 0x64 < v) (cg_samples s)) ''firmware never observed charger-present VCHAR on ADC selector 5''
          @ when_error (require_absent \<and> \<not> list_ex (\<lambda>v. v \<le> 0x64) (cg_samples s))
              ''firmware never observed charger-absent VCHAR on ADC selector 5'',
          cg_status s, cg_ack s, cg_clear s, length (cg_samples s)))))"

definition check_ccont_boot_status :: "transaction list \<Rightarrow> string list \<times> nat" where
  "check_ccont_boot_status transactions =
     (let status_reads = map (\<lambda>(direction, address, data). data)
            (filter (\<lambda>(direction, address, data). direction = Rd \<and> address = 0x0E) transactions)
      in (case status_reads of
            [] \<Rightarrow> [''CCONT reset status register was not read'']
          | status # _ \<Rightarrow> when_error (status \<noteq> 0x03) (''CCONT reset status was 0x'' @ fmt_x 2 status @ '', expected 0x03''),
          length status_reads))"

section \<open>Command line\<close>

record gensio_args =
  ga_log :: string
  ga_adc_profile :: bool
  ga_require_charger :: bool
  ga_present_only :: bool
  ga_summary :: "string option"
  ga_require_select :: bool
  ga_require_boot_status :: bool

text \<open>The errors printed, if any make the status 1; a missing summary is a usage error.\<close>

datatype gensio_outcome = Gensio_usage | Gensio_errors "string list"

definition gensio_main :: "gensio_args \<Rightarrow> gensio_outcome res" where
  "gensio_main args =
     rbind (parse_accesses (ga_log args)) (\<lambda>accesses.
       case decode_transactions accesses of (errors, counts, transactions) \<Rightarrow>
       rbind (if ga_adc_profile args then rmap fst (check_adc transactions adc_sane) else Inr []) (\<lambda>adc_errors.
       if ga_require_charger args \<and> ga_summary args = None then Inr Gensio_usage
       else rbind (if ga_require_charger args
            then rmap fst (check_charger_irq transactions (the (ga_summary args)) (\<not> ga_present_only args)) else Inr []) (\<lambda>irq_errors.
         Inr (Gensio_errors (errors @ adc_errors @ irq_errors
           @ (if ga_require_select args then fst (check_select_contract accesses) else [])
           @ (if ga_require_boot_status args then fst (check_ccont_boot_status transactions) else []))))))"

section \<open>The grammar of conversations\<close>

text \<open>What the endpoint may see next: nothing while another one is selected, a command byte, the data of
  a write command, or, after a read command, the ready status and then one read of the data.\<close>

datatype conversation = Elsewhere | Await_command | Await_write int | Await_ready int | Await_read int

fun awaits_ready :: "conversation \<Rightarrow> bool" where
  "awaits_ready (Await_ready _) = True"
| "awaits_ready _ = False"

inductive serial_step :: "conversation \<Rightarrow> access \<Rightarrow> transaction list \<Rightarrow> conversation \<Rightarrow> bool" where
  select: "serial_step q (Wr, 0x2D, 0x25) [] Await_command"
| leave: "d \<noteq> 0x25 \<Longrightarrow> serial_step q (Wr, 0x2D, d) [] Elsewhere"
| unselected: "(dir, offset) \<noteq> (Wr, 0x2D) \<Longrightarrow> serial_step Elsewhere (dir, offset, d) [] Elsewhere"
| other: "q \<noteq> Elsewhere \<Longrightarrow> (dir, offset) \<notin> {(Wr, 0x2D), (Wr, 0x2C), (Rd, 0x6C), (Rd, 0x6D)}
    \<Longrightarrow> serial_step q (dir, offset, d) [] q"
| ready: "serial_step (Await_ready c) (Rd, 0x6D, 0x07) [] (Await_read c)"
| not_ready: "q \<noteq> Elsewhere \<Longrightarrow> \<not> awaits_ready q \<or> d \<noteq> 0x07 \<Longrightarrow> serial_step q (Rd, 0x6D, d) [] q"
| read_command: "c AND 0x04 \<noteq> 0 \<Longrightarrow> serial_step Await_command (Wr, 0x2C, c) [] (Await_ready c)"
| write_command: "c AND 0x04 = 0 \<Longrightarrow> serial_step Await_command (Wr, 0x2C, c) [] (Await_write c)"
| write_data: "serial_step (Await_write c) (Wr, 0x2C, d) [(Wr, drop_bit 3 c AND 0x0F, d)] Await_command"
| read_data: "serial_step (Await_read c) (Rd, 0x6C, d) [(Rd, drop_bit 3 c AND 0x0F, d)] Await_command"

inductive serial_run :: "conversation \<Rightarrow> access list \<Rightarrow> transaction list \<Rightarrow> conversation \<Rightarrow> bool" where
  run_start: "serial_run q [] [] q"
| run_step: "serial_run q as ts q1 \<Longrightarrow> serial_step q1 a us q2 \<Longrightarrow> serial_run q (as @ [a]) (ts @ us) q2"

inductive_simps serial_step_simps: "serial_step q (dir, offset, d) us q2"
inductive_simps serial_run_Nil: "serial_run q [] ts q2"
inductive_simps serial_run_snoc: "serial_run q (as @ [a]) ts q2"

text \<open>The decoder's variables in each state of the conversation.\<close>

fun at_state :: "gensio_state \<Rightarrow> conversation \<Rightarrow> bool" where
  "at_state s Elsewhere \<longleftrightarrow> gs_selected s \<noteq> Some 0x25"
| "at_state s Await_command \<longleftrightarrow> gs_selected s = Some 0x25 \<and> gs_phase s = Some Command_phase \<and> \<not> gs_pending s \<and> \<not> gs_ready s"
| "at_state s (Await_write c) \<longleftrightarrow> gs_selected s = Some 0x25 \<and> gs_phase s = Some Data_phase \<and> gs_command s = Some c
     \<and> \<not> gs_pending s \<and> \<not> gs_ready s"
| "at_state s (Await_ready c) \<longleftrightarrow> gs_selected s = Some 0x25 \<and> gs_phase s = Some Data_phase \<and> gs_command s = Some c
     \<and> gs_pending s \<and> \<not> gs_ready s"
| "at_state s (Await_read c) \<longleftrightarrow> gs_selected s = Some 0x25 \<and> gs_phase s = Some Data_phase \<and> gs_command s = Some c
     \<and> gs_pending s \<and> gs_ready s"

definition counted_transactions :: "direction \<Rightarrow> transaction list \<Rightarrow> nat" where
  "counted_transactions d ts = length (filter (\<lambda>t. fst t = d) ts)"

lemma counted_transactions_simps [simp]:
  "counted_transactions d [] = 0"
  "counted_transactions d (t # ts) = (if fst t = d then 1 else 0) + counted_transactions d ts"
  "counted_transactions d (ts @ us) = counted_transactions d ts + counted_transactions d us"
  by (simp_all add: counted_transactions_def)

lemma gensio_error_fields [simp]:
  "gs_errors (gensio_error m s) = gs_errors s @ [m]"
  "gs_selected (gensio_error m s) = gs_selected s" "gs_phase (gensio_error m s) = gs_phase s" "gs_pending (gensio_error m s) = gs_pending s" "gs_ready (gensio_error m s) = gs_ready s" "gs_reads (gensio_error m s) = gs_reads s" "gs_writes (gensio_error m s) = gs_writes s" "gs_command (gensio_error m s) = gs_command s" "gs_transactions (gensio_error m s) = gs_transactions s"
  by (simp_all add: gensio_error_def)

lemma add_transaction_fields [simp]:
  "gs_transactions (add_transaction d v s) = gs_transactions s
     @ (case gs_command s of None \<Rightarrow> [] | Some c \<Rightarrow> [(d, drop_bit 3 c AND 0x0F, v)])"
  "gs_selected (add_transaction d v s) = gs_selected s" "gs_phase (add_transaction d v s) = gs_phase s" "gs_pending (add_transaction d v s) = gs_pending s" "gs_ready (add_transaction d v s) = gs_ready s" "gs_reads (add_transaction d v s) = gs_reads s" "gs_writes (add_transaction d v s) = gs_writes s" "gs_command (add_transaction d v s) = gs_command s" "gs_errors (add_transaction d v s) = gs_errors s"
  by (simp_all add: add_transaction_def split: option.splits)

lemmas gensio_step_defs = gensio_step_def on_select_def on_status_def on_byte_def on_data_def Let_def

lemma step_errors: "\<exists>more. gs_errors (gensio_step s a) = gs_errors s @ more"
  by (auto simp: gensio_step_defs split: prod.splits option.splits phase.splits)

lemma legal_step:
  assumes "at_state s q" "serial_step q a us q2"
  shows "at_state (gensio_step s a) q2 \<and> gs_errors (gensio_step s a) = gs_errors s
    \<and> gs_transactions (gensio_step s a) = gs_transactions s @ us
    \<and> gs_reads (gensio_step s a) = gs_reads s + counted_transactions Rd us
    \<and> gs_writes (gensio_step s a) = gs_writes s + counted_transactions Wr us"
  using assms(2,1)
proof cases
  case (other dir offset d)
  then show ?thesis using assms(1) by (cases q) (auto simp: gensio_step_def)
next
  case (not_ready d)
  then show ?thesis using assms(1) by (cases q) (auto simp: gensio_step_def on_status_def)
qed (auto simp: gensio_step_defs)

lemma illegal_step:
  assumes "at_state s q" "\<nexists>us q2. serial_step q (dir, offset, d) us q2"
  shows "gs_errors (gensio_step s (dir, offset, d)) \<noteq> gs_errors s"
proof -
  have w: "(dir, offset) \<noteq> (Wr, 0x2D)" using assms(2) serial_step.select [of q] serial_step.leave [of d q] by (cases "d = 0x25") auto
  then have q: "q \<noteq> Elsewhere" using assms(2) serial_step.unselected [of dir offset d] by auto
  then consider "(dir, offset) = (Rd, 0x6D)" | "(dir, offset) = (Wr, 0x2C)" | "(dir, offset) = (Rd, 0x6C)"
    using w q assms(2) serial_step.other [of q dir offset d] by auto
  then show ?thesis
  proof cases
    case 1
    then show ?thesis using assms(2) q serial_step.ready serial_step.not_ready [of q d] by (cases q; cases "d = 7") auto
  next
    case 2
    then show ?thesis using assms q serial_step.read_command [of d] serial_step.write_command [of d] serial_step.write_data
      by (cases q) (auto simp: gensio_step_def on_byte_def)
  next
    case 3
    then show ?thesis using assms q serial_step.read_data
      by (cases q) (auto simp: gensio_step_def on_data_def)
  qed
qed

lemma run_decodes:
  assumes "serial_run Elsewhere as ts q"
  shows "at_state (foldl gensio_step gensio_start as) q \<and> gs_errors (foldl gensio_step gensio_start as) = []
    \<and> gs_transactions (foldl gensio_step gensio_start as) = ts
    \<and> gs_reads (foldl gensio_step gensio_start as) = counted_transactions Rd ts
    \<and> gs_writes (foldl gensio_step gensio_start as) = counted_transactions Wr ts"
  using assms
proof (induction Elsewhere as ts q)
  case (run_step as ts q1 a us q2)
  then show ?case using legal_step [OF _ run_step.hyps(3)] by simp
qed (simp add: gensio_start_def)

lemma decodes_run:
  "gs_errors (foldl gensio_step gensio_start as) = [] \<Longrightarrow> \<exists>ts q. serial_run Elsewhere as ts q"
proof (induction as rule: rev_induct)
  case (snoc a as)
  obtain dir offset d where a: "a = (dir, offset, d)" by (metis surj_pair)
  have none: "gs_errors (foldl gensio_step gensio_start as) = []"
    using snoc.prems step_errors [of "foldl gensio_step gensio_start as" a] by auto
  then obtain ts q where r: "serial_run Elsewhere as ts q" using snoc.IH by blast
  then have "\<exists>us q2. serial_step q a us q2"
    using illegal_step [of "foldl gensio_step gensio_start as" q dir offset d] run_decodes [OF r] snoc.prems none
    unfolding a by auto
  then show ?case using run_step [OF r] by blast
qed (use run_start in blast)

text \<open>C7: The decoder of serial accesses reports no error exactly when the accesses are a
  legal conversation that completes a read and a write, and then its transactions and counts are those of
  the conversation.\<close>
theorem serial_grammar_exact:
  "decode_transactions accesses = ([], (n, r, w), ts) \<longleftrightarrow>
     (\<exists>q. serial_run Elsewhere accesses ts q) \<and> n = length accesses
     \<and> r = counted_transactions Rd ts \<and> w = counted_transactions Wr ts \<and> 0 < r \<and> 0 < w"
proof
  assume d: "decode_transactions accesses = ([], (n, r, w), ts)"
  then have "gs_errors (foldl gensio_step gensio_start accesses) = []" by (simp add: decode_transactions_def Let_def)
  then obtain us q where u: "serial_run Elsewhere accesses us q" using decodes_run by blast
  then show "(\<exists>q. serial_run Elsewhere accesses ts q) \<and> n = length accesses
     \<and> r = counted_transactions Rd ts \<and> w = counted_transactions Wr ts \<and> 0 < r \<and> 0 < w"
    using d run_decodes [OF u] by (auto simp: decode_transactions_def Let_def split: if_splits)
next
  assume h: "(\<exists>q. serial_run Elsewhere accesses ts q) \<and> n = length accesses
     \<and> r = counted_transactions Rd ts \<and> w = counted_transactions Wr ts \<and> 0 < r \<and> 0 < w"
  then obtain q where q: "serial_run Elsewhere accesses ts q" by blast
  have "accesses \<noteq> []" using q h serial_run_Nil by force
  then show "decode_transactions accesses = ([], (n, r, w), ts)"
    using h run_decodes [OF q] by (simp add: decode_transactions_def Let_def)
qed

text \<open>The branch of a byte without a selected endpoint never runs: a selection sets the phase.\<close>

lemma phase_when_selected:
  "gs_selected (foldl gensio_step gensio_start as) = Some 0x25 \<Longrightarrow> gs_phase (foldl gensio_step gensio_start as) \<noteq> None"
proof (induction as rule: rev_induct)
  case (snoc a as)
  obtain dir offset d where a: "a = (dir, offset, d)" by (metis surj_pair)
  show ?case using snoc unfolding a
    by (auto simp: gensio_step_defs split: if_splits phase.splits option.splits)
qed (simp add: gensio_start_def)

text \<open>The two result registers the converter contract demands assemble to the value that the charger
  contract samples.\<close>

lemma adc_registers_assemble:
  assumes "0 \<le> v" "v < 1024"
  shows "adc_wanted 2 v OR push_bit 8 (adc_wanted 3 v AND 0x03) = v"
proof -
  have b: "\<not> bit (0xB0 :: int) k" if "k < 2" for k using that by (auto simp: less_Suc_eq numeral_2_eq_2 bit_iff_odd)
  have c: "(0xB0 OR (drop_bit 8 v AND mask 2)) AND mask 2 = drop_bit 8 v AND mask 2"
    by (rule bit_eqI) (use b in \<open>auto simp: bit_simps\<close>)
  have v: "take_bit 10 v = v" using assms by (simp add: take_bit_int_eq_self)
  have "adc_wanted 2 v OR push_bit 8 (adc_wanted 3 v AND 0x03) 
      = (v AND mask 8) OR push_bit 8 ((0xB0 OR (drop_bit 8 v AND mask 2)) AND mask 2)"
    by (simp add: adc_wanted_def mask_eq_exp_minus_1)
  also have "\<dots> = (v AND mask 8) OR push_bit 8 (drop_bit 8 v AND mask 2)" by (simp only: c)
  also have "\<dots> = take_bit 10 v" by (rule bit_eqI) (auto simp: bit_simps)
  finally show ?thesis by (simp add: v)
qed

end
