(* ===== verification/Mbus.thy ===== *)
theory Mbus
  imports Interfaces
begin

text \<open>
  M2BUS frames, \<open>tools/mbus_protocol.py\<close>: \<open>Frame.encode\<close> and \<open>decode\<close>.  Every frame the encoder
  accepts is restored by the decoder and every message the decoder accepts is the encoding of its frame;
  the checksum detects any change of one byte.
\<close>

record frame =
  fr_destination :: int
  fr_source :: int
  fr_kind :: int
  fr_sequence :: int
  fr_payload :: bytes

definition xor_all :: "bytes \<Rightarrow> byte" where
  "xor_all bs = foldr (XOR) bs 0"

lemma xor_all_simps:
  "xor_all [] = 0" "xor_all (b # bs) = b XOR xor_all bs" "xor_all (bs @ cs) = xor_all bs XOR xor_all cs"
  by (simp_all add: xor_all_def) (induction bs; simp add: xor.assoc)

text \<open>A message with its checksum appended sums to zero.\<close>

lemma xor_all_checksum: "xor_all (bs @ [xor_all bs]) = 0"
  by (simp add: xor_all_simps)

definition in_byte :: "int \<Rightarrow> bool" where
  "in_byte v \<longleftrightarrow> 0 \<le> v \<and> v \<le> 255"

definition encode_frame :: "frame \<Rightarrow> bytes res" where
  "encode_frame f =
     (if \<not> list_all in_byte [fr_destination f, fr_source f, fr_kind f, fr_sequence f]
      then Inl (ValueError ''M2BUS header field outside byte range'')
      else if 65535 < length (fr_payload f) \<or> (fr_kind f = 0x7f \<and> fr_payload f \<noteq> [])
      then Inl (ValueError ''invalid M2BUS payload extent'')
      else rbind (if fr_kind f = 0x7f then Inr [] else rmap (\<lambda>l. l @ fr_payload f) (to_be 2 (int (length (fr_payload f))))) (\<lambda>tail.
        let header = [0x1f, word_of_int (fr_destination f), word_of_int (fr_source f), word_of_int (fr_kind f)];
            body = header @ tail @ [word_of_int (fr_sequence f)]
        in Inr (body @ [xor_all body])))"

definition decode_frame :: "bytes \<Rightarrow> frame res" where
  "decode_frame bs =
     (if length bs < 6 \<or> bs ! 0 \<noteq> 0x1f \<or> xor_all bs \<noteq> 0 then Inl (ValueError ''invalid M2BUS marker/checksum'')
      else rbind (if bs ! 3 = 0x7f then Inr (6, [])
          else if length bs < 8 then Inl (ValueError ''short M2BUS frame'')
          else Inr (8 + nat (from_be (slice 4 6 bs)), slice 6 (length bs - 2) bs)) (\<lambda>(expected, payload).
        if length bs \<noteq> expected then Inl (ValueError ''M2BUS length mismatch'')
        else Inr \<lparr>fr_destination = uint (bs ! 1), fr_source = uint (bs ! 2), fr_kind = uint (bs ! 3),
               fr_sequence = uint (bs ! (length bs - 2)), fr_payload = payload\<rparr>))"

definition frame_ok :: "frame \<Rightarrow> bool" where
  "frame_ok f \<longleftrightarrow> list_all in_byte [fr_destination f, fr_source f, fr_kind f, fr_sequence f]
     \<and> length (fr_payload f) \<le> 65535 \<and> (fr_kind f = 0x7f \<longrightarrow> fr_payload f = [])"

lemma uint_word_byte: "in_byte v \<Longrightarrow> uint (word_of_int v :: byte) = v"
  by (simp add: in_byte_def uint_word_of_int)

lemma in_byte_7f: "in_byte 0x7f" "uint (0x7f :: byte) = 0x7f"
  by (simp_all add: in_byte_def)

lemma word_7f: "in_byte v \<Longrightarrow> (word_of_int v :: byte) = 0x7f \<longleftrightarrow> v = 0x7f"
proof
  assume v: "in_byte v" and e: "(word_of_int v :: byte) = 0x7f"
  have "uint (word_of_int v :: byte) = 0x7f" by (simp add: e)
  then show "v = 0x7f" by (simp add: uint_word_byte v)
qed simp

text \<open>The parts of a frame between the marker and the checksum.\<close>

lemma encode_parts:
  assumes "frame_ok f"
  obtains tail where "encode_frame f = Inr (([0x1f, word_of_int (fr_destination f), word_of_int (fr_source f),
      word_of_int (fr_kind f)] @ tail @ [word_of_int (fr_sequence f)])
      @ [xor_all ([0x1f, word_of_int (fr_destination f), word_of_int (fr_source f),
      word_of_int (fr_kind f)] @ tail @ [word_of_int (fr_sequence f)])])"
    "if fr_kind f = 0x7f then tail = [] else \<exists>h l. tail = h # l # fr_payload f \<and> from_be [h, l] = int (length (fr_payload f))"
proof (cases "fr_kind f = 0x7f")
  case True
  show ?thesis by (rule that [of "[]"]) (use assms True in \<open>simp_all add: frame_ok_def encode_frame_def\<close>)
next
  case False
  have "returns (to_be 2 (int (length (fr_payload f))))" using assms by (simp add: frame_ok_def to_be_def)
  then obtain bs where bs: "to_be 2 (int (length (fr_payload f))) = Inr bs" by blast
  then have "from_be bs = int (length (fr_payload f))" "length bs = 2" using from_be_to_be by blast+
  then obtain h l where "bs = [h, l]" "from_be [h, l] = int (length (fr_payload f))"
    by (auto simp: length_Suc_conv numeral_2_eq_2)
  then show ?thesis using that [of "h # l # fr_payload f"] assms False bs
    by (simp add: frame_ok_def encode_frame_def)
qed

lemma frame_encode_decode:
  assumes "frame_ok f"
  shows "\<exists>bs. encode_frame f = Inr bs \<and> returns (decode_frame bs) \<and> decode_frame bs = Inr f"
proof -
  obtain tail where tail: "encode_frame f = Inr (([0x1f, word_of_int (fr_destination f), word_of_int (fr_source f),
      word_of_int (fr_kind f)] @ tail @ [word_of_int (fr_sequence f)])
      @ [xor_all ([0x1f, word_of_int (fr_destination f), word_of_int (fr_source f),
      word_of_int (fr_kind f)] @ tail @ [word_of_int (fr_sequence f)])])"
    "if fr_kind f = 0x7f then tail = [] else \<exists>h l. tail = h # l # fr_payload f \<and> from_be [h, l] = int (length (fr_payload f))"
    using encode_parts [OF assms] .
  define body where "body = [0x1f, word_of_int (fr_destination f), word_of_int (fr_source f),
      word_of_int (fr_kind f)] @ tail @ [word_of_int (fr_sequence f)]"
  have e: "encode_frame f = Inr (body @ [xor_all body])" by (simp only: tail(1) body_def)
  define s where "s = xor_all body"
  have z: "xor_all (body @ [s]) = 0" by (simp only: s_def xor_all_checksum)
  have bytes: "in_byte (fr_destination f)" "in_byte (fr_source f)" "in_byte (fr_kind f)" "in_byte (fr_sequence f)"
    using assms by (simp_all add: frame_ok_def)
  have "decode_frame (body @ [s]) = Inr f"
  proof (cases "fr_kind f = 0x7f")
    case True
    then show ?thesis using tail(2) z assms bytes unfolding decode_frame_def body_def
      by (cases f) (simp add: frame_ok_def uint_word_byte)
  next
    case False
    then obtain h l where t: "tail = h # l # fr_payload f" "from_be [h, l] = int (length (fr_payload f))"
      using tail(2) by auto
    show ?thesis using t False z bytes unfolding decode_frame_def body_def
      by (cases f) (simp add: uint_word_byte word_7f slice_def nth_append)
  qed
  then show ?thesis using e by (simp add: s_def)
qed

text \<open>A message that sums to zero ends in the checksum of the bytes before it.\<close>

lemma checksum_last: "xor_all (bs @ [c]) = 0 \<longleftrightarrow> c = xor_all bs"
proof
  assume "xor_all (bs @ [c]) = 0"
  then have "xor_all bs XOR c = 0" by (simp add: xor_all_simps)
  then have "xor_all bs XOR (xor_all bs XOR c) = xor_all bs" by simp
  then show "c = xor_all bs" by (simp only: xor.assoc [symmetric] xor_self_eq xor.left_neutral)
qed (simp only: xor_all_checksum)

lemma decode_frame_encode:
  assumes "decode_frame bs = Inr f"
  shows "frame_ok f \<and> encode_frame f = Inr bs"
proof -
  have len: "6 \<le> length bs" and marker: "bs ! 0 = 0x1f" and zero: "xor_all bs = 0"
    using assms by (auto simp: decode_frame_def split: if_splits)
  have ne: "bs \<noteq> []" "butlast bs \<noteq> []" using len by (cases bs rule: rev_cases; auto)+
  obtain start q where s: "butlast bs = start @ [q]" using ne(2) by (metis append_butlast_last_id)
  then obtain c where bs: "bs = start @ [q, c]" using ne(1) append_butlast_last_id [of bs] by (metis append.assoc append_Cons append_Nil)
  then have l4: "4 \<le> length start" using len by simp
  then obtain m d s k mid where start: "start = m # d # s # k # mid"
    by (auto simp: Suc_le_length_iff numeral_eq_Suc)
  have m: "m = 0x1f" using marker by (simp add: bs start)
  have c: "c = xor_all (start @ [q])" using zero checksum_last [of "start @ [q]" c] by (simp add: bs)
  show ?thesis
  proof (cases "k = 0x7f")
    case True
    then have mid: "mid = []" and f: "f = \<lparr>fr_destination = uint d, fr_source = uint s, fr_kind = 0x7f, fr_sequence = uint q, fr_payload = []\<rparr>"
      using assms zero by (auto simp: decode_frame_def bs start m split: if_splits)
    show ?thesis using byte_bound [of d] byte_bound [of s] byte_bound [of q] unfolding f bs c start m mid True
      by (simp add: frame_ok_def encode_frame_def in_byte_def)
  next
    case False
    then have "2 \<le> length mid" using assms by (auto simp: decode_frame_def bs start split: if_splits)
    then obtain h l payload where mid: "mid = h # l # payload"
      by (metis (no_types, lifting) One_nat_def Suc_le_length_iff numeral_2_eq_2)
    have n: "int (length payload) = from_be [h, l]"
      and f: "f = \<lparr>fr_destination = uint d, fr_source = uint s, fr_kind = uint k, fr_sequence = uint q, fr_payload = payload\<rparr>"
      using assms zero False from_be_bound [of "[h, l]"]
      by (auto simp: decode_frame_def bs start mid slice_def nth_append split: if_splits)
    have be: "to_be 2 (int (length payload)) = Inr [h, l]" using to_be_from_be [of "[h, l]"] by (simp add: n numeral_2_eq_2)
    have "length payload \<le> 65535" using from_be_bound [of "[h, l]"] n by simp
    moreover have "uint k \<noteq> 0x7f" using False in_byte_7f(2) by (metis word_uint_eqI)
    ultimately show ?thesis
      using byte_bound [of d] byte_bound [of s] byte_bound [of q] byte_bound [of k] be unfolding f bs c start m mid
      by (simp add: frame_ok_def encode_frame_def in_byte_def)
  qed
qed

interpretation m2bus: record_bijection frame_ok "\<lambda>bs. returns (decode_frame bs)" encode_frame decode_frame
  by unfold_locales (use frame_encode_decode decode_frame_encode in blast)+

lemma encode_frame_ok: "encode_frame f = Inr bs \<Longrightarrow> frame_ok f"
  by (auto simp: encode_frame_def frame_ok_def split: if_splits)

text \<open>C38: Encoding and decoding of M2BUS frames are inverse: a frame encodes to a message exactly
  when the message decodes to the frame.\<close>
theorem mbus_frames_exact: "encode_frame f = Inr bs \<longleftrightarrow> decode_frame bs = Inr f"
  using m2bus.encode_iff_decode m2bus.decode_of_encoding encode_frame_ok decode_frame_encode by metis

lemma xor_all_update: "i < length bs \<Longrightarrow> xor_all (bs[i := b]) = xor_all bs XOR bs ! i XOR b"
proof (induction bs arbitrary: i)
  case (Cons x bs)
  then show ?case by (cases i) (simp_all add: xor_all_simps ac_simps)
qed simp

text \<open>A message with one byte changed is refused.\<close>

lemma mbus_byte_detected:
  assumes "decode_frame bs = Inr f" "i < length bs" "b \<noteq> bs ! i"
  shows "decode_frame (bs[i := b]) = Inl (ValueError ''invalid M2BUS marker/checksum'')"
proof -
  have "xor_all bs = 0" using assms(1) by (auto simp: decode_frame_def split: if_splits)
  then have "xor_all (bs[i := b]) = bs ! i XOR b" using xor_all_update [OF assms(2)] by simp
  moreover have "bs ! i XOR b \<noteq> 0"
  proof
    assume "bs ! i XOR b = 0"
    then have "bs ! i XOR (bs ! i XOR b) = bs ! i" by simp
    then show False using assms(3) by (simp only: xor.assoc [symmetric] xor_self_eq xor.left_neutral)
  qed
  ultimately show ?thesis by (simp add: decode_frame_def)
qed

end
