(* ===== verification/Wintesla.thy ===== *)
theory Wintesla
  imports Py_Dict
begin

text \<open>
  Flash regions from Wintesla record streams, \<open>tools/extract_dct3_wintesla.py\<close>: the reader of a stream
  and the layout of the flash, the gap and the PMM region.  The specification of the reader is the
  format: it returns exactly when the stream is a sequence of well-formed contiguous records.  The file
  contents are arguments, the files written are the result, and SHA-1 of \<open>hashlib\<close> is written out.
\<close>

section \<open>SHA-1\<close>

fun sha1_round :: "32 word list \<Rightarrow> nat \<times> 32 word \<Rightarrow> 32 word list" where
  "sha1_round [a, b, c, d, e] (t, w) = (let
       (f, k) = (if t < 20 then ((b AND c) OR (NOT b AND d), 0x5a827999)
         else if t < 40 then (b XOR c XOR d, 0x6ed9eba1)
         else if t < 60 then ((b AND c) OR (b AND d) OR (c AND d), 0x8f1bbcdc)
         else (b XOR c XOR d, 0xca62c1d6))
     in [word_rotl 5 a + f + e + k + w, a, word_rotl 30 b, c, d])"
| "sha1_round s _ = s"

text \<open>The message schedule, newest word first.\<close>

definition sha1_next :: "32 word list \<Rightarrow> 32 word list" where
  "sha1_next ws = word_rotl 1 (ws ! 2 XOR ws ! 7 XOR ws ! 13 XOR ws ! 15) # ws"

definition sha1_schedule :: "bytes \<Rightarrow> 32 word list" where
  "sha1_schedule block = rev ((sha1_next ^^ 64) (rev (sha_words block)))"

definition sha1_block :: "32 word list \<Rightarrow> bytes \<Rightarrow> 32 word list" where
  "sha1_block s block = map2 (+) s (foldl sha1_round s (zip [0..<80] (sha1_schedule block)))"

definition sha1_hex :: "bytes \<Rightarrow> string" where
  "sha1_hex m = (let p = sha_pad m in bytes_hex
     (concat (map (\<lambda>w. rev (le_bytes 4 (uint w)))
       (foldl sha1_block [0x67452301, 0xefcdab89, 0x98badcfe, 0x10325476, 0xc3d2e1f0] (chunks64 (length p div 64) p)))))"

section \<open>Record streams\<close>

definition hex_pos :: "int \<Rightarrow> string" where
  "hex_pos v = (if v < 0 then ''-0x'' @ digits 16 (nat (- v)) else ''0x'' @ digits 16 (nat v))"

function decode_from :: "string \<Rightarrow> bytes \<Rightarrow> nat \<Rightarrow> int option \<Rightarrow> int option \<Rightarrow> bytes \<Rightarrow> (int \<times> bytes) res" where
  "decode_from path source offset first expected result =
     (if offset < length source then
        if length source - offset < 9 then Inl (ValueError (path @ '': truncated header at '' @ hex_pos (int offset)))
        else let header = slice offset (offset + 9) source;
                 address = from_be (slice 1 4 header);
                 extent = nat (from_be (slice 5 8 header))
          in if header ! 0 \<noteq> 0x0B \<or> \<not> (0 < extent \<and> extent \<le> 0x2000)
             then Inl (ValueError (path @ '': unsupported record at '' @ hex_pos (int offset) @ '': type='' @ hex_pos (uint (header ! 0))
               @ '', length='' @ hex_pos (int extent)))
             else let record_end = offset + 9 + extent in
               if length source < record_end
               then Inl (ValueError (path @ '': truncated payload at '' @ hex_pos (int offset) @ '': length='' @ hex_pos (int extent)
                 @ '', remaining='' @ hex_pos (int (length source - offset - 9))))
               else if expected \<noteq> None \<and> Some address \<noteq> expected
               then Inl (ValueError (path @ '': non-contiguous record at '' @ hex_pos (int offset) @ '': expected ''
                 @ hex_pos (the expected) @ '', got '' @ hex_pos address))
               else decode_from path source record_end (if first = None then Some address else first)
                 (Some (address + int extent)) (result @ slice (offset + 9) record_end source)
      else case first of None \<Rightarrow> Inl AssertionError | Some address \<Rightarrow> Inr (address, result))"
  by pat_completeness auto
termination by (relation "measure (\<lambda>(path, source, offset, first, expected, result). length source - offset)") auto

declare decode_from.simps [simp del]

definition decode_records :: "bytes \<Rightarrow> string \<Rightarrow> (int \<times> bytes) res" where
  "decode_records source path =
     (if source = [] then Inl (ValueError (path @ '': empty Wintesla record stream''))
      else decode_from path source 0 None None [])"

section \<open>Flash layout\<close>

record layout_args =
  la_mcu :: "(string \<times> bytes) option"
  la_ppm :: "(string \<times> bytes) option"
  la_full :: "(string \<times> bytes) option"
  la_pmm :: "(string \<times> bytes) option"
  la_eeprom_output :: bool
  la_combined_output :: bool
  la_expect_flash :: "string option"
  la_expect_eeprom :: "string option"

record layout_files =
  lf_flash :: bytes
  lf_eeprom :: "bytes option"
  lf_combined :: "bytes option"

datatype layout_outcome = Layout_usage string | Layout_files layout_files

text \<open>\<open>s.lower()\<close> of characters up to U+00FF.\<close>

definition lower_char :: "char \<Rightarrow> char" where
  "lower_char c = (let n = char_code c in
     if 65 \<le> n \<and> n \<le> 90 \<or> 0xC0 \<le> n \<and> n \<le> 0xDE \<and> n \<noteq> 0xD7 then char_of (n + 32) else c)"

text \<open>An expected digest that is missing or empty is not compared.\<close>

definition digest_differs :: "string option \<Rightarrow> bytes \<Rightarrow> bool" where
  "digest_differs expect bs \<longleftrightarrow>
     (case expect of None \<Rightarrow> False | Some e \<Rightarrow> e \<noteq> [] \<and> sha1_hex bs \<noteq> map lower_char e)"

definition digest_message :: "string \<Rightarrow> string option \<Rightarrow> bytes \<Rightarrow> string" where
  "digest_message name expect bs = name @ '' SHA-1 mismatch: expected '' @ the expect @ '', got '' @ sha1_hex bs"

definition given :: "string option \<Rightarrow> bool" where
  "given s \<longleftrightarrow> s \<noteq> None \<and> s \<noteq> Some []"

definition layout_error :: "layout_args \<Rightarrow> string option" where
  "layout_error a =
     (if la_full a \<noteq> None \<and> (la_mcu a \<noteq> None \<or> la_ppm a \<noteq> None \<or> la_pmm a \<noteq> None)
      then Some ''--full cannot be combined with --mcu, --ppm or --pmm''
      else if la_full a = None \<and> (la_mcu a = None \<or> la_ppm a = None)
      then Some ''--mcu and --ppm are required unless --full is supplied''
      else if (la_pmm a \<noteq> None) \<noteq> la_eeprom_output a then Some ''--pmm and --eeprom-output must be supplied together''
      else if given (la_expect_eeprom a) \<and> la_pmm a = None then Some ''--expect-eeprom-sha1 requires --pmm''
      else if la_combined_output a \<and> la_pmm a = None then Some ''--combined-output requires --pmm''
      else None)"

definition extract_records :: "string \<times> bytes \<Rightarrow> (int \<times> bytes) res" where
  "extract_records file = decode_records (snd file) (fst file)"

definition erased :: "int \<Rightarrow> bytes" where
  "erased n = replicate (nat n) 0xff"

text \<open>The flash, and the address and length of the region it ends with.\<close>

definition flash_region :: "layout_args \<Rightarrow> (bytes \<times> int \<times> int) res" where
  "flash_region a =
     (case la_full a of
        Some file \<Rightarrow> rbind (extract_records file) (\<lambda>(full_address, flash).
          if full_address \<noteq> 0x200000
          then Inl (ValueError (''full-flash layout is invalid: expected 0x200000, got '' @ hex_pos full_address))
          else Inr (flash, full_address, int (length flash)))
      | None \<Rightarrow> rbind (extract_records (the (la_mcu a))) (\<lambda>(mcu_address, mcu).
          rbind (extract_records (the (la_ppm a))) (\<lambda>(ppm_address, ppm).
            let mcu_end = mcu_address + int (length mcu) in
            if mcu_address \<noteq> 0x200000 \<or> ppm_address < mcu_end
            then Inl (ValueError (''MCU/PPM layout is invalid from 0x200000: MCU='' @ hex_pos mcu_address @ ''+''
              @ hex_pos (int (length mcu)) @ '', PPM='' @ hex_pos ppm_address))
            else Inr (mcu @ erased (ppm_address - mcu_end) @ ppm, ppm_address, int (length ppm)))))"

definition extract_flash :: "layout_args \<Rightarrow> layout_outcome res" where
  "extract_flash a =
     (case layout_error a of
        Some message \<Rightarrow> Inr (Layout_usage message)
      | None \<Rightarrow> rbind (flash_region a) (\<lambda>(flash, ppm_address, ppm_length).
          if digest_differs (la_expect_flash a) flash
          then Inl (ValueError (digest_message ''flash'' (la_expect_flash a) flash))
          else case la_pmm a of
              None \<Rightarrow> Inr (Layout_files \<lparr>lf_flash = flash, lf_eeprom = None, lf_combined = None\<rparr>)
            | Some file \<Rightarrow> rbind (extract_records file) (\<lambda>(pmm_address, pmm).
                if pmm_address < ppm_address + ppm_length
                then Inl (ValueError (''PMM overlaps MCU/PPM: PPM='' @ hex_pos ppm_address @ ''+'' @ hex_pos ppm_length
                  @ '', PMM='' @ hex_pos pmm_address))
                else if digest_differs (la_expect_eeprom a) pmm
                then Inl (ValueError (digest_message ''EEPROM'' (la_expect_eeprom a) pmm))
                else Inr (Layout_files \<lparr>lf_flash = flash, lf_eeprom = Some pmm,
                  lf_combined = (if la_combined_output a then Some (flash @ erased (pmm_address - (ppm_address + ppm_length)) @ pmm) else None)\<rparr>))))"

section \<open>The format\<close>

text \<open>A record on the wire: two bytes of its header are not read.\<close>

record wire_record =
  wr_address :: int
  wr_unread1 :: byte
  wr_unread2 :: byte
  wr_payload :: bytes

definition record_ok :: "wire_record \<Rightarrow> bool" where
  "record_ok r \<longleftrightarrow> 0 \<le> wr_address r \<and> wr_address r < 0x1000000 \<and> wr_payload r \<noteq> [] \<and> length (wr_payload r) \<le> 0x2000"

definition record_bytes :: "wire_record \<Rightarrow> bytes" where
  "record_bytes r = 0x0B # rev (le_bytes 3 (wr_address r)) @ wr_unread1 r
     # rev (le_bytes 3 (int (length (wr_payload r)))) @ wr_unread2 r # wr_payload r"

text \<open>Each record starts where the one before it ends.\<close>

fun contiguous :: "int option \<Rightarrow> wire_record list \<Rightarrow> bool" where
  "contiguous expected [] = True"
| "contiguous expected (r # rs) \<longleftrightarrow>
     (case expected of None \<Rightarrow> True | Some a \<Rightarrow> wr_address r = a)
     \<and> contiguous (Some (wr_address r + int (length (wr_payload r)))) rs"

lemma rev3: "length bs = 3 \<Longrightarrow> \<exists>x y z. bs = [x, y, z]"
  by (auto simp: numeral_3_eq_3 length_Suc_conv)

lemma from_be_rev_le: "0 \<le> v \<Longrightarrow> v < 256 ^ n \<Longrightarrow> from_be (rev (le_bytes n v)) = v"
  by (simp add: from_be_rev from_le_bytes)

lemma record_fields:
  assumes "record_ok r"
  shows "from_be (slice 1 4 (record_bytes r)) = wr_address r"
    "nat (from_be (slice 5 8 (record_bytes r))) = length (wr_payload r)"
    "record_bytes r ! 0 = 0x0B" "length (record_bytes r) = 9 + length (wr_payload r)"
    "drop 9 (record_bytes r) = wr_payload r"
proof -
  obtain a b c where a: "rev (le_bytes 3 (wr_address r)) = [a, b, c]" using rev3 [of "rev (le_bytes 3 (wr_address r))"] by auto
  obtain x y z where l: "rev (le_bytes 3 (int (length (wr_payload r)))) = [x, y, z]"
    using rev3 [of "rev (le_bytes 3 (int (length (wr_payload r))))"] by auto
  have "from_be [a, b, c] = wr_address r" using from_be_rev_le [of "wr_address r" 3] assms by (simp add: a record_ok_def)
  moreover have "from_be [x, y, z] = int (length (wr_payload r))"
    using from_be_rev_le [of "int (length (wr_payload r))" 3] assms by (simp add: l record_ok_def)
  ultimately show "from_be (slice 1 4 (record_bytes r)) = wr_address r"
    "nat (from_be (slice 5 8 (record_bytes r))) = length (wr_payload r)"
    "record_bytes r ! 0 = 0x0B" "length (record_bytes r) = 9 + length (wr_payload r)"
    "drop 9 (record_bytes r) = wr_payload r"
    by (simp_all add: record_bytes_def a l slice_def)
qed

lemma record_parts:
  assumes "9 + n \<le> length bs" "bs ! 0 = 0x0B" "nat (from_be (slice 5 8 bs)) = n" "0 < n" "n \<le> 0x2000"
  shows "\<exists>r. record_ok r \<and> take (9 + n) bs = record_bytes r \<and> wr_address r = from_be (slice 1 4 bs)
    \<and> wr_payload r = slice 9 (9 + n) bs"
proof -
  obtain t a b c u x y z v rest where bs: "bs = t # a # b # c # u # x # y # z # v # rest"
    using assms(1) by (auto simp: Suc_le_length_iff numeral_eq_Suc)
  have n: "from_be [x, y, z] = int n" using assms(3,4) from_be_bound [of "[x, y, z]"] by (simp add: bs slice_def)
  have "rev (le_bytes 3 (from_be [a, b, c])) = [a, b, c]" "rev (le_bytes 3 (int n)) = [x, y, z]"
    using to_be_from_be [of "[a, b, c]"] to_be_from_be [of "[x, y, z]"] n
    by (auto simp: to_be_def numeral_3_eq_3 split: if_splits)
  moreover have "take (9 + n) (t # a # b # c # u # x # y # z # v # rest) = t # a # b # c # u # x # y # z # v # take n rest"
    by (simp add: numeral_eq_Suc)
  moreover have "take n rest \<noteq> []" "length (take n rest) = n" using assms(1,4) by (auto simp: bs)
  moreover have "from_be [a, b, c] < 0x1000000" "0 \<le> from_be [a, b, c]" using from_be_bound [of "[a, b, c]"] by auto
  ultimately show ?thesis using assms(1,2,4,5)
    by (intro exI [of _ "\<lparr>wr_address = from_be [a, b, c], wr_unread1 = u, wr_unread2 = v, wr_payload = take n rest\<rparr>"])
      (simp add: record_ok_def record_bytes_def bs slice_def)
qed

lemma slice_of_drop: "slice a b (slice offset (offset + n) xs) = slice a b (drop offset xs)" if "b \<le> n"
  using that by (simp add: slice_def drop_take take_take min_def)

lemma decode_from_record:
  assumes "record_ok r" "drop offset source = record_bytes r @ rest" "expected = None \<or> expected = Some (wr_address r)"
  shows "decode_from path source offset first expected result =
    decode_from path source (offset + length (record_bytes r)) (if first = None then Some (wr_address r) else first)
      (Some (wr_address r + int (length (wr_payload r)))) (result @ wr_payload r)"
proof -
  note f = record_fields [OF assms(1)]
  have len: "offset + length (record_bytes r) + length rest = length source" "offset < length source"
    using arg_cong [OF assms(2), of length] f(4) by auto
  have take: "slice a b (drop offset source) = slice a b (record_bytes r)" if "b \<le> 9" for a b
    using that f(4) by (simp add: assms(2) slice_def)
  have "slice offset (offset + 9) source ! 0 = drop offset source ! 0" using len f(4) by (simp add: slice_def)
  also have "\<dots> = 0x0B" using f(3,4) by (simp add: assms(2) nth_append)
  finally have t: "slice offset (offset + 9) source ! 0 = 0x0B" .
  have p: "slice (offset + 9) (offset + length (record_bytes r)) source = wr_payload r"
  proof -
    have "drop (offset + 9) source = drop 9 (record_bytes r @ rest)" using assms(2) by (metis add.commute drop_drop)
    then show ?thesis using f(4,5) by (simp add: slice_def)
  qed
  have ok: "wr_payload r \<noteq> []" "length (wr_payload r) \<le> 0x2000" using assms(1) by (simp_all add: record_ok_def)
  have h: "from_be (slice 1 4 (slice offset (offset + 9) source)) = wr_address r"
    "nat (from_be (slice 5 8 (slice offset (offset + 9) source))) = length (wr_payload r)"
    using f(1,2) by (simp_all add: slice_of_drop take)
  have e: "\<not> (expected \<noteq> None \<and> Some (wr_address r) \<noteq> expected)" using assms(3) by auto
  have l: "\<not> length source - offset < 9" "\<not> length source < offset + 9 + length (wr_payload r)" using len f(4) by linarith+
  have q: "offset + length (record_bytes r) = offset + 9 + length (wr_payload r)" using f(4) by simp
  show ?thesis unfolding decode_from.simps [of path source offset first expected result] Let_def h t
    using len(2) l e ok p unfolding q by (simp only: if_True if_False simp_thms length_greater_0_conv)
qed

lemma guards_passed:
  "(if b1 then Inl e1 else if b2 then Inl e2 else if b3 then Inl e3 else if b4 then Inl e4 else m) = Inr x
   \<Longrightarrow> \<not> b1 \<and> \<not> b2 \<and> \<not> b3 \<and> \<not> b4"
  by (auto split: if_splits)

lemma decode_from_Inr:
  assumes "decode_from path source offset first expected result = Inr (a, data)" "offset < length source"
  shows "\<exists>r rest. record_ok r \<and> drop offset source = record_bytes r @ rest \<and> (expected = None \<or> expected = Some (wr_address r))"
proof -
  define header where "header = slice offset (offset + 9) source"
  define extent where "extent = nat (from_be (slice 5 8 header))"
  have "9 \<le> length source - offset \<and> header ! 0 = 0x0B \<and> 0 < extent \<and> extent \<le> 0x2000 \<and> offset + 9 + extent \<le> length source
      \<and> (expected = None \<or> Some (from_be (slice 1 4 header)) = expected)"
    using guards_passed [OF trans [OF sym [OF decode_from.simps [of path source offset first expected result,
        unfolded Let_def if_P [OF assms(2)], folded header_def, folded extent_def]] assms(1)]]
    unfolding not_less by blast
  moreover have "slice 1 4 header = slice 1 4 (drop offset source)" "slice 5 8 header = slice 5 8 (drop offset source)"
    unfolding header_def by (simp_all add: slice_of_drop)
  ultimately have c: "offset + 9 \<le> length source" "slice offset (offset + 9) source ! 0 = 0x0B" "0 < extent" "extent \<le> 0x2000"
    "offset + 9 + extent \<le> length source" "expected = None \<or> expected = Some (from_be (slice 1 4 (drop offset source)))"
    "extent = nat (from_be (slice 5 8 (drop offset source)))"
    by (auto simp: header_def extent_def)
  have l: "9 + extent \<le> length (drop offset source)" using c(5) by simp
  have "drop offset source ! 0 = 0x0B" using c(1,2) by (simp add: slice_def)
  then obtain r where r: "record_ok r" "take (9 + extent) (drop offset source) = record_bytes r"
    "wr_address r = from_be (slice 1 4 (drop offset source))"
    using record_parts [OF l \<open>drop offset source ! 0 = 0x0B\<close> c(7) [symmetric] c(3,4)] by blast
  have "drop offset source = record_bytes r @ drop (9 + extent) (drop offset source)"
    unfolding r(2) [symmetric] by (rule append_take_drop_id [symmetric])
  then show ?thesis using r c(6) by metis
qed

lemma record_bytes_nonempty [simp]: "record_bytes r \<noteq> []"
  by (simp add: record_bytes_def)

lemma decode_from_iff:
  "offset \<le> length source \<Longrightarrow> decode_from path source offset first expected result = Inr (a, data) \<longleftrightarrow>
     (\<exists>rs. list_all record_ok rs \<and> drop offset source = concat (map record_bytes rs) \<and> contiguous expected rs
        \<and> data = result @ concat (map wr_payload rs)
        \<and> (case first of Some f \<Rightarrow> a = f | None \<Rightarrow> rs \<noteq> [] \<and> a = wr_address (hd rs)))"
proof (induction "length source - offset" arbitrary: offset first expected result rule: less_induct)
  case less
  show ?case
  proof (cases "offset < length source")
    case False
    then have "drop offset source = concat (map record_bytes rs) \<longleftrightarrow> rs = []" for rs by (cases rs) auto
    then show ?thesis using False by (subst decode_from.simps) (auto split: option.splits)
  next
    case True
    have step: "decode_from path source offset first expected result = Inr (a, data) \<longleftrightarrow>
        (\<exists>rs. list_all record_ok rs \<and> rest = concat (map record_bytes rs)
          \<and> contiguous (Some (wr_address r + int (length (wr_payload r)))) rs
          \<and> data = result @ wr_payload r @ concat (map wr_payload rs)
          \<and> a = (case first of Some f \<Rightarrow> f | None \<Rightarrow> wr_address r))"
      if r: "record_ok r" "drop offset source = record_bytes r @ rest" "expected = None \<or> expected = Some (wr_address r)" for r rest
    proof -
      have len: "length source = offset + length (record_bytes r) + length rest"
        using arg_cong [OF r(2), of length] True by simp
      have d: "drop (offset + length (record_bytes r)) source = rest" using r(2) by (metis add.commute append_eq_conv_conj drop_drop)
      have "0 < length (record_bytes r)" by simp
      then show ?thesis
        unfolding decode_from_record [OF r]
        using less.hyps [of "offset + length (record_bytes r)" "if first = None then Some (wr_address r) else first"
            "Some (wr_address r + int (length (wr_payload r)))" "result @ wr_payload r"] len True d
        by (auto split: option.splits)
    qed
    show ?thesis
    proof
      assume run: "decode_from path source offset first expected result = Inr (a, data)"
      then obtain r rest where r: "record_ok r" "drop offset source = record_bytes r @ rest"
        "expected = None \<or> expected = Some (wr_address r)" using decode_from_Inr True by blast
      obtain rs where "list_all record_ok rs" "rest = concat (map record_bytes rs)"
        "contiguous (Some (wr_address r + int (length (wr_payload r)))) rs"
        "data = result @ wr_payload r @ concat (map wr_payload rs)" "a = (case first of Some f \<Rightarrow> f | None \<Rightarrow> wr_address r)"
        using step [OF r] run by blast
      then show "\<exists>rs. list_all record_ok rs \<and> drop offset source = concat (map record_bytes rs) \<and> contiguous expected rs
        \<and> data = result @ concat (map wr_payload rs)
        \<and> (case first of Some f \<Rightarrow> a = f | None \<Rightarrow> rs \<noteq> [] \<and> a = wr_address (hd rs))"
        using r by (intro exI [of _ "r # rs"]) (auto split: option.splits)
    next
      assume "\<exists>rs. list_all record_ok rs \<and> drop offset source = concat (map record_bytes rs) \<and> contiguous expected rs
        \<and> data = result @ concat (map wr_payload rs)
        \<and> (case first of Some f \<Rightarrow> a = f | None \<Rightarrow> rs \<noteq> [] \<and> a = wr_address (hd rs))"
      then obtain rs where rs: "list_all record_ok rs" "drop offset source = concat (map record_bytes rs)" "contiguous expected rs"
        "data = result @ concat (map wr_payload rs)" "case first of Some f \<Rightarrow> a = f | None \<Rightarrow> rs \<noteq> [] \<and> a = wr_address (hd rs)"
        by blast
      then obtain r rest where "rs = r # rest" using True by (cases rs) auto
      then show "decode_from path source offset first expected result = Inr (a, data)"
        using step [of r "concat (map record_bytes rest)"] rs by (auto split: option.splits)
    qed
  qed
qed

text \<open>C34: The reader of a Wintesla stream returns an address and data exactly when the stream is a
  nonempty sequence of well-formed records, each starting where the one before it ends, and then they are the
  first record's address and the payloads in order.\<close>
theorem wintesla_stream_exact:
  "decode_records source path = Inr (a, data) \<longleftrightarrow>
     (\<exists>r rs. list_all record_ok (r # rs) \<and> contiguous None (r # rs) \<and> source = concat (map record_bytes (r # rs))
        \<and> a = wr_address r \<and> data = concat (map wr_payload (r # rs)))"
proof (cases "source = []")
  case False
  then have "(\<exists>rs. list_all record_ok rs \<and> source = concat (map record_bytes rs) \<and> contiguous None rs
      \<and> data = concat (map wr_payload rs) \<and> rs \<noteq> [] \<and> a = wr_address (hd rs)) \<longleftrightarrow>
      (\<exists>r rs. list_all record_ok (r # rs) \<and> contiguous None (r # rs) \<and> source = concat (map record_bytes (r # rs))
        \<and> a = wr_address r \<and> data = concat (map wr_payload (r # rs)))"
    by (metis list.exhaust_sel list.sel(1) list.discI)
  then show ?thesis using False decode_from_iff [of 0 source path None None "[]" a data] by (simp add: decode_records_def)
qed (simp add: decode_records_def)

section \<open>Placement\<close>

text \<open>The byte of the first region that covers an address; elsewhere the flash is erased.\<close>

fun region_byte :: "(int \<times> bytes) list \<Rightarrow> int \<Rightarrow> byte" where
  "region_byte [] x = 0xff"
| "region_byte ((address, data) # regions) x =
     (if address \<le> x \<and> x < address + int (length data) then data ! nat (x - address) else region_byte regions x)"

definition region_bytes :: "(int \<times> bytes) list \<Rightarrow> int \<Rightarrow> int \<Rightarrow> bytes" where
  "region_bytes regions start stop = map (\<lambda>i. region_byte regions (start + int i)) [0..<nat (stop - start)]"

lemma length_erased [simp]: "length (erased n) = nat n"
  by (simp add: erased_def)

lemma placed_three:
  assumes "a + int (length xs) \<le> b" "b + int (length ys) \<le> c"
  shows "xs @ erased (b - (a + int (length xs))) @ ys @ erased (c - (b + int (length ys))) @ zs
    = region_bytes [(a, xs), (b, ys), (c, zs)] a (c + int (length zs))" (is "?l = _")
proof (rule nth_equalityI)
  show "length ?l = length (region_bytes [(a, xs), (b, ys), (c, zs)] a (c + int (length zs)))"
    using assms by (simp add: region_bytes_def)
  fix i assume "i < length ?l"
  then have i: "int i < c + int (length zs) - a" using assms by simp
  have n: "nat (a + int i - a) = i" by simp
  have erase: "erased k ! j = 0xff" if "j < nat k" for k j using that by (simp add: erased_def)
  define g1 g2 where "g1 = nat (b - (a + int (length xs)))" and "g2 = nat (c - (b + int (length ys)))"
  have g: "b = a + int (length xs) + int g1" "c = b + int (length ys) + int g2" using assms by (auto simp: g1_def g2_def)
  consider "i < length xs" | "length xs \<le> i" "i < length xs + g1"
    | "length xs + g1 \<le> i" "i < length xs + g1 + length ys"
    | "length xs + g1 + length ys \<le> i" "i < length xs + g1 + length ys + g2"
    | "length xs + g1 + length ys + g2 \<le> i" by linarith
  then have "?l ! i = region_byte [(a, xs), (b, ys), (c, zs)] (a + int i)"
  proof cases
    case 2
    then obtain j where "i = length xs + j" "j < g1" by (metis add_less_cancel_left le_Suc_ex)
    then show ?thesis using g erase by (simp add: nth_append g1_def [symmetric] g2_def [symmetric])
  next
    case 4
    then obtain j where "i = length xs + g1 + length ys + j" "j < g2" by (metis add_less_cancel_left le_Suc_ex)
    then show ?thesis using g erase by (simp add: nth_append g1_def [symmetric] g2_def [symmetric])
  next
    case 3
    then obtain j where "i = length xs + g1 + j" "j < length ys" by (metis add_less_cancel_left le_Suc_ex)
    then show ?thesis using g by (simp add: nth_append g1_def [symmetric] g2_def [symmetric])
  next
    case 5
    then obtain j where j: "i = length xs + g1 + length ys + g2 + j" by (metis le_Suc_ex)
    then have "j < length zs" using g i by linarith
    then show ?thesis using g j by (simp add: nth_append g1_def [symmetric] g2_def [symmetric])
  qed (use g erase in \<open>simp_all add: nth_append g1_def [symmetric] g2_def [symmetric]\<close>)
  then show "?l ! i = region_bytes [(a, xs), (b, ys), (c, zs)] a (c + int (length zs)) ! i"
    using i by (simp add: region_bytes_def)
qed

text \<open>A combined image holds the MCU, PPM and PMM regions at their own addresses from 0x200000 on and
  erased flash between them.\<close>
theorem combined_image_exact:
  assumes "extract_flash a = Inr (Layout_files f)" "lf_combined f = Some c"
  shows "\<exists>mcu ppm q pmm. map (extract_records \<circ> the) [la_mcu a, la_ppm a, la_pmm a] = [Inr (0x200000, mcu), Inr ppm, Inr (q, pmm)]
    \<and> c = region_bytes [(0x200000, mcu), ppm, (q, pmm)] 0x200000 (q + int (length pmm))"
proof -
  have none: "layout_error a = None" using assms(1) by (auto simp: extract_flash_def split: option.splits)
  then obtain stream where stream: "la_pmm a = Some stream" using assms
    by (auto simp: extract_flash_def rbind_eq_Inr split: option.splits if_splits)
  then have full: "la_full a = None" using none by (cases "la_full a") (auto simp: layout_error_def split: if_splits)
  obtain flash p n q pmm where r: "flash_region a = Inr (flash, p, n)" "extract_records stream = Inr (q, pmm)" "p + n \<le> q"
    "c = flash @ erased (q - (p + n)) @ pmm"
    using assms none stream by (auto simp: extract_flash_def rbind_eq_Inr split: if_splits)
  obtain mcu ppm where m: "extract_records (the (la_mcu a)) = Inr (0x200000, mcu)" "extract_records (the (la_ppm a)) = Inr (p, ppm)"
    "0x200000 + int (length mcu) \<le> p" "flash = mcu @ erased (p - (0x200000 + int (length mcu))) @ ppm" "n = int (length ppm)"
    using r(1) full by (auto simp: flash_region_def rbind_eq_Inr Let_def not_less split: if_splits)
  have "c = region_bytes [(0x200000, mcu), (p, ppm), (q, pmm)] 0x200000 (q + int (length pmm))"
    using placed_three [OF m(3), of ppm q pmm] r(3,4) m(4,5) by simp
  then show ?thesis using m(1,2) r(2) stream by (intro exI [of _ mcu] exI [of _ "(p, ppm)"] exI [of _ q] exI [of _ pmm]) simp
qed

definition sample_layout :: layout_args where
  "sample_layout = \<lparr>la_mcu = Some (''mcu'', record_bytes \<lparr>wr_address = 0x200000, wr_unread1 = 0, wr_unread2 = 7, wr_payload = [1, 2]\<rparr>),
     la_ppm = Some (''ppm'', record_bytes \<lparr>wr_address = 0x200004, wr_unread1 = 0, wr_unread2 = 7, wr_payload = [3]\<rparr>),
     la_full = None,
     la_pmm = Some (''pmm'', record_bytes \<lparr>wr_address = 0x200006, wr_unread1 = 0, wr_unread2 = 7, wr_payload = [4]\<rparr>),
     la_eeprom_output = True, la_combined_output = True, la_expect_flash = None, la_expect_eeprom = None\<rparr>"

lemma sample_layout_files: "extract_flash sample_layout =
    Inr (Layout_files \<lparr>lf_flash = [1, 2, 0xff, 0xff, 3], lf_eeprom = Some [4], lf_combined = Some [1, 2, 0xff, 0xff, 3, 0xff, 4]\<rparr>)"
  by code_simp

lemma combined_image_exact_witness:
  "\<exists>mcu ppm q pmm. map (extract_records \<circ> the) [la_mcu sample_layout, la_ppm sample_layout, la_pmm sample_layout]
      = [Inr (0x200000, mcu), Inr ppm, Inr (q, pmm)]
    \<and> [1, 2, 0xff, 0xff, 3, 0xff, 4] = region_bytes [(0x200000, mcu), ppm, (q, pmm)] 0x200000 (q + int (length pmm))"
  by (rule combined_image_exact [OF sample_layout_files]) simp

end
