(* ===== verification/Gate_Database.thy ===== *)
theory Gate_Database
  imports Py_Regex Py_Dict "HOL-Library.List_Lexorder" "HOL-Library.Multiset"
begin

text \<open>
  The comparison of make's own rule databases, \<open>tools/gate_database_diff.py\<close>: targets with their
  prerequisites, recipes and phony marks from the output of \<open>make -p\<close>, logical commands, the expansion
  of plain variable references and the differences between two databases.  The tool joins commands with
  its own copy of the splitting code, so the model has its own too.
\<close>

section \<open>The database\<close>

record make_target =
  mt_prerequisites :: "string list"
  mt_recipe :: "string list"
  mt_phony :: bool

type_synonym database = "(string, make_target) dict"

definition name_char :: "char \<Rightarrow> bool" where
  "name_char c \<longleftrightarrow> char_between CHR ''a'' CHR ''z'' c \<or> char_between CHR ''A'' CHR ''Z'' c \<or> char_between CHR ''0'' CHR ''9'' c
     \<or> c \<in> {CHR ''_'', CHR ''.'', CHR ''/'', CHR ''-''}"

definition not_newline :: "char \<Rightarrow> bool" where
  "not_newline c \<longleftrightarrow> c \<noteq> CHR 0x0A"

definition rule_pattern :: pattern where
  "rule_pattern = [(True, some (One name_char)), (False, lit '':''), (True, Many (One not_newline)), (False, Text_end)]"

definition indented :: "string \<Rightarrow> bool" where
  "indented line \<longleftrightarrow> prefix [CHR 0x09] line"

definition comment_line :: "string \<Rightarrow> bool" where
  "comment_line line \<longleftrightarrow> prefix ''#'' line"

text \<open>The lines after a rule: recipe lines are kept, comments may mark it phony, anything else ends it.\<close>

fun rule_body :: "string list \<Rightarrow> string list \<times> bool \<times> string list" where
  "rule_body [] = ([], False, [])"
| "rule_body (line # rest) =
     (if indented line then case rule_body rest of (recipe, phony, after) \<Rightarrow> (line # recipe, phony, after)
      else if comment_line line
      then case rule_body rest of (recipe, phony, after) \<Rightarrow> (recipe, in_text ''Phony target'' line \<or> phony, after)
      else ([], False, line # rest))"

lemma rule_body_shorter: "length (snd (snd (rule_body ls))) \<le> length ls"
  by (induction ls) (auto split: prod.splits)

function parse_lines :: "database \<Rightarrow> string list \<Rightarrow> database" where
  "parse_lines targets [] = targets"
| "parse_lines targets (line # rest) =
     (case rx_match rule_pattern line of
        Some [name, names] \<Rightarrow>
          if indented line then parse_lines targets rest
          else (case rule_body rest of (recipe, phony, after) \<Rightarrow>
            parse_lines (if map_of targets name \<noteq> None \<and> recipe = [] then targets
              else dict_set name \<lparr>mt_prerequisites = split_space names, mt_recipe = recipe, mt_phony = phony\<rparr> targets) after)
      | _ \<Rightarrow> parse_lines targets rest)"
  by pat_completeness auto
termination
proof (relation "measure (\<lambda>(targets, ls). length ls)")
  fix targets :: database and line name names recipe phony after and rest :: "string list" and x2 x21 x22 x21a x22a y
  assume "(recipe, y) = rule_body rest" "(phony, after) = y"
  then have "length after \<le> length rest" using rule_body_shorter [of rest] by (metis snd_conv)
  then show "((if map_of targets name \<noteq> None \<and> recipe = [] then targets
      else dict_set name \<lparr>mt_prerequisites = split_space names, mt_recipe = recipe, mt_phony = phony\<rparr> targets, after), targets, line # rest)
      \<in> measure (\<lambda>(targets, ls). length ls)" by simp
qed auto

definition parse_database :: "string \<Rightarrow> database" where
  "parse_database src = parse_lines [] (split_on CHR 0x0A src)"

section \<open>Commands and variables\<close>

definition shell_joined :: "string list \<Rightarrow> string list" where
  "shell_joined pending = (let joined = join_with '' '' (filter (\<lambda>part. part \<noteq> []) pending) in if joined = [] then [] else [joined])"

fun shell_from :: "string list \<Rightarrow> string list \<Rightarrow> string list" where
  "shell_from pending [] = (if pending = [] then [] else shell_joined pending)"
| "shell_from pending (line # rest) =
     (let body = (if indented line then tl line else line) in
      if suffix [CHR 0x5C] body then shell_from (pending @ [strip (butlast body)]) rest
      else shell_joined (pending @ [strip body]) @ shell_from [] rest)"

definition shell_commands :: "string list \<Rightarrow> string list" where
  "shell_commands recipe = shell_from [] recipe"

definition name_start :: "char \<Rightarrow> bool" where
  "name_start c \<longleftrightarrow> char_between CHR ''A'' CHR ''Z'' c \<or> char_between CHR ''a'' CHR ''z'' c \<or> c = CHR ''_''"

definition variable_name :: rx where
  "variable_name = Seq (One name_start) (Many (One (\<lambda>c. name_start c \<or> char_between CHR ''0'' CHR ''9'' c)))"

definition definition_pattern :: pattern where
  "definition_pattern = [(True, variable_name),
     (False, seq [Many (One is_space), opt (One (\<lambda>c. c \<in> {CHR '':'', CHR ''?'', CHR ''+''})), lit ''='', opt (One is_space)]),
     (True, Many (One not_newline)), (False, Text_end)]"

text \<open>\<open>setdefault\<close> keeps the first definition of a variable.\<close>

definition add_variable :: "(string, string) dict \<Rightarrow> string \<Rightarrow> (string, string) dict" where
  "add_variable variables line =
     (if indented line \<or> comment_line line then variables
      else case rx_match definition_pattern line of
          Some [name, v] \<Rightarrow> if map_of variables name = None then dict_set name v variables else variables
        | _ \<Rightarrow> variables)"

definition parse_variables :: "string \<Rightarrow> (string, string) dict" where
  "parse_variables src = foldl add_variable [] (split_on CHR 0x0A src)"

definition reference_pattern :: pattern where
  "reference_pattern = [(False, lit ''$(''), (True, variable_name), (False, lit '')'')]"

text \<open>\<open>re.sub\<close> of a pattern that never matches the empty text, from a position on: the replacement has the
  groups and the text of the match.\<close>

function rx_sub :: "pattern \<Rightarrow> (string list \<Rightarrow> string \<Rightarrow> string) \<Rightarrow> string \<Rightarrow> nat \<Rightarrow> string" where
  "rx_sub pat f s p =
     (if length s \<le> p then []
      else case match_at pat s p of
          [] \<Rightarrow> s ! p # rx_sub pat f s (Suc p)
        | (groups, e) # _ \<Rightarrow>
            if p < e then f groups (slice p e s) @ rx_sub pat f s e else s ! p # rx_sub pat f s (Suc p))"
  by pat_completeness auto
termination by (relation "measure (\<lambda>(pat, f, s, p). length s - p)") auto

declare rx_sub.simps [simp del]

definition substitute :: "(string, string) dict \<Rightarrow> string list \<Rightarrow> string \<Rightarrow> string" where
  "substitute variables groups whole = (case map_of variables (groups ! 0) of None \<Rightarrow> whole | Some v \<Rightarrow> v)"

definition expand_once :: "(string, string) dict \<Rightarrow> string \<Rightarrow> string" where
  "expand_once variables command = rx_sub reference_pattern (substitute variables) command 0"

primrec expand :: "nat \<Rightarrow> (string, string) dict \<Rightarrow> string \<Rightarrow> string" where
  "expand 0 variables command = command"
| "expand (Suc depth) variables command =
     (let expanded = expand_once variables command in
      if expanded = command then expanded else expand depth variables expanded)"

section \<open>Comparison\<close>

text \<open>\<open>repr\<close> of a string of characters up to U+00FF, and of a list of strings.\<close>

definition escaped :: "char \<Rightarrow> char \<Rightarrow> string" where
  "escaped quote c = (let n = char_code c in
     if c = quote \<or> c = CHR 0x5C then [CHR 0x5C, c]
     else if n = 9 then [CHR 0x5C, CHR ''t''] else if n = 10 then [CHR 0x5C, CHR ''n''] else if n = 13 then [CHR 0x5C, CHR ''r'']
     else if n < 32 \<or> 127 \<le> n \<and> n \<le> 160 \<or> n = 173 then CHR 0x5C # ''x'' @ fmt_x 2 (int n)
     else [c])"

definition py_repr :: "string \<Rightarrow> string" where
  "py_repr s = (let quote = (if CHR 0x27 \<in> set s \<and> CHR 0x22 \<notin> set s then CHR 0x22 else CHR 0x27)
     in [quote] @ concat (map (escaped quote) s) @ [quote])"

definition names_text :: "string list \<Rightarrow> string" where
  "names_text names = ''['' @ join_with '', '' (map py_repr names) @ '']''"

definition flag_text :: "bool \<Rightarrow> string" where
  "flag_text b = (if b then ''True'' else ''False'')"

definition gate_commands :: "(string, string) dict option \<Rightarrow> bool \<Rightarrow> make_target \<Rightarrow> string list" where
  "gate_commands variables both t =
     (let commands = shell_commands (mt_recipe t) in
      case variables of Some vs \<Rightarrow> if both then map (expand 12 vs) commands else commands | None \<Rightarrow> commands)"

definition command_issues :: "string list \<Rightarrow> string list \<Rightarrow> string list" where
  "command_issues before after =
     (if before = after then []
      else (case filter (\<lambda>(l, r). l \<noteq> r) (zip before after) of
              [] \<Rightarrow> []
            | (l, r) # _ \<Rightarrow> [''command differs:'' @ [CHR 0x0A] @ ''      before: '' @ l @ [CHR 0x0A] @ ''      after:  '' @ r])
        @ (if length before \<noteq> length after
           then [''command count '' @ digits 10 (length before) @ '' -> '' @ digits 10 (length after)] else []))"

definition target_issues :: "(string, string) dict option \<Rightarrow> (string, string) dict option \<Rightarrow> make_target \<Rightarrow> make_target \<Rightarrow> string list" where
  "target_issues variables_before variables_after b a =
     (let both = (variables_before \<noteq> None \<and> variables_after \<noteq> None) in
      command_issues (gate_commands variables_before both b) (gate_commands variables_after both a)
      @ (if sort (mt_prerequisites b) \<noteq> sort (mt_prerequisites a)
         then [''prerequisites differ: '' @ names_text (mt_prerequisites b) @ '' -> '' @ names_text (mt_prerequisites a)] else [])
      @ (if mt_phony b \<noteq> mt_phony a
         then [''phony differs: '' @ flag_text (mt_phony b) @ '' -> '' @ flag_text (mt_phony a)] else []))"

definition gates_of :: "string \<Rightarrow> database \<Rightarrow> string list" where
  "gates_of pre db = sorted_set (filter (prefix pre) (map fst db))"

record database_comparison =
  dc_compared :: nat
  dc_before_only :: "string list"
  dc_after_only :: "string list"
  dc_problems :: "(string, string list) dict"

definition compare_databases ::
  "database \<Rightarrow> database \<Rightarrow> string \<Rightarrow> (string, string) dict option \<Rightarrow> (string, string) dict option \<Rightarrow> database_comparison" where
  "compare_databases before after pre variables_before variables_after =
     (let names_before = gates_of pre before; names_after = gates_of pre after;
          before_only = filter (\<lambda>n. n \<notin> set names_after) names_before;
          after_only = filter (\<lambda>n. n \<notin> set names_before) names_after;
          common = filter (\<lambda>n. n \<in> set names_after) names_before;
          issues = (\<lambda>n. target_issues variables_before variables_after (the (map_of before n)) (the (map_of after n)))
      in \<lparr>dc_compared = length common, dc_before_only = before_only, dc_after_only = after_only,
          dc_problems = map (\<lambda>n. (n, [''missing after the change''])) before_only
            @ map (\<lambda>n. (n, [''unexpectedly added''])) after_only
            @ map (\<lambda>n. (n, issues n)) (filter (\<lambda>n. issues n \<noteq> []) common)\<rparr>)"

definition compare_texts :: "string \<Rightarrow> string \<Rightarrow> string \<Rightarrow> bool \<Rightarrow> database_comparison" where
  "compare_texts before after pre expanding =
     compare_databases (parse_database before) (parse_database after) pre
       (if expanding then Some (parse_variables before) else None) (if expanding then Some (parse_variables after) else None)"

section \<open>What agreement means\<close>

lemma same_or_differing: "length xs = length ys \<Longrightarrow> filter (\<lambda>(l, r). l \<noteq> r) (zip xs ys) = [] \<longleftrightarrow> xs = ys"
  by (induction xs ys rule: list_induct2) auto

lemma command_issues_iff: "command_issues xs ys = [] \<longleftrightarrow> xs = ys"
  using same_or_differing [of xs ys] by (auto simp: command_issues_def split: list.splits if_splits)

lemma sort_eq_iff: "sort xs = sort ys \<longleftrightarrow> mset xs = mset ys"
  by (metis mset_sort properties_for_sort sorted_sort)

lemma gates_of_eq: "gates_of pre before = gates_of pre after \<longleftrightarrow> set (gates_of pre before) = set (gates_of pre after)"
  unfolding gates_of_def by (metis sorted_distinct_set_unique sorted_sorted_set)

text \<open>C39: Two databases are reported identical exactly when they have the same gates, and each gate the same
  shell commands, the same prerequisites in any order and the same phony mark.\<close>
theorem databases_agree:
  "dc_problems (compare_databases before after pre vb va) = [] \<longleftrightarrow>
     gates_of pre before = gates_of pre after \<and>
     list_all (\<lambda>n. case (the (map_of before n), the (map_of after n)) of (b, a) \<Rightarrow>
        gate_commands vb (vb \<noteq> None \<and> va \<noteq> None) b = gate_commands va (vb \<noteq> None \<and> va \<noteq> None) a
        \<and> mset (mt_prerequisites b) = mset (mt_prerequisites a) \<and> mt_phony b = mt_phony a) (gates_of pre before)"
proof -
  have issues: "target_issues vb va b a = [] \<longleftrightarrow>
      gate_commands vb (vb \<noteq> None \<and> va \<noteq> None) b = gate_commands va (vb \<noteq> None \<and> va \<noteq> None) a
      \<and> mset (mt_prerequisites b) = mset (mt_prerequisites a) \<and> mt_phony b = mt_phony a" for b a
    by (simp add: target_issues_def Let_def command_issues_iff sort_eq_iff)
  show ?thesis unfolding gates_of_eq compare_databases_def Let_def
    by (auto simp: filter_empty_conv list_all_iff issues)
qed

text \<open>Stopping at a command that no longer changes does not change the result of the twelve rounds.\<close>

lemma expand_rounds: "expand depth variables command = (expand_once variables ^^ depth) command"
proof (induction depth arbitrary: command)
  case (Suc depth)
  show ?case
  proof (cases "expand_once variables command = command")
    case True
    have "(expand_once variables ^^ n) command = command" for n by (induction n) (simp_all add: True)
    then show ?thesis using True by (simp add: Let_def)
  qed (simp add: Suc funpow_swap1 Let_def)
qed simp

text \<open>A later declaration without a recipe does not erase an entry.\<close>

lemma phony_mention_keeps:
  assumes "map_of targets name = Some t" "rx_match rule_pattern line = Some [name, names]" "\<not> indented line"
    "rule_body rest = ([], phony, after)"
  shows "parse_lines targets (line # rest) = parse_lines targets after"
  using assms by simp

end
