(* ===== verification/Gsm_Sch.thy ===== *)
theory Gsm_Sch
  imports Byte_Vectors
begin

text \<open>
  The synchronisation channel of \<open>tools/gsm_sch_signal.py\<close>: the packing of frame number and BSIC, the
  parity, the convolutional code and the burst.  Bits are the integers 0 and 1.  Beside the code stand
  the receivers' side of each layer, with the proofs that nothing is lost, and the algebra of the parity:
  the loop computes a linear map, every coded block has the remainder 0x3ff and no burst of ten bits
  escapes it.  The modulator works on floating-point numbers and is not modelled.
\<close>

section \<open>Bits\<close>

definition is_bit :: "int \<Rightarrow> bool" where
  "is_bit b \<longleftrightarrow> b = 0 \<or> b = 1"

definition bit_at :: "int \<Rightarrow> nat \<Rightarrow> int" where
  "bit_at v k = drop_bit k v AND 1"

lemma bit_at_of_bool: "bit_at v k = of_bool (bit v k)"
  by (simp add: bit_at_def drop_bit_and_1)

function bit_length :: "int \<Rightarrow> nat" where
  "bit_length v = (if v \<le> 0 then 0 else Suc (bit_length (v div 2)))"
  by pat_completeness auto
termination by (relation "measure nat") auto

declare bit_length.simps [simp del]

lemma bit_length_0 [simp]: "bit_length 0 = 0"
  by (simp add: bit_length.simps)

lemma bit_length_less: "0 \<le> v \<Longrightarrow> bit_length v \<le> n \<longleftrightarrow> v < 2 ^ n"
proof (induction n arbitrary: v)
  case 0
  then show ?case by (auto simp: bit_length.simps)
next
  case (Suc n)
  show ?case
  proof (cases "v = 0")
    case False
    then have "bit_length v = Suc (bit_length (v div 2))" using Suc.prems by (simp add: bit_length.simps [of v])
    moreover have "v div 2 < 2 ^ n \<longleftrightarrow> v < 2 ^ Suc n" by auto
    ultimately show ?thesis using Suc.IH [of "v div 2"] Suc.prems by simp
  qed simp
qed

section \<open>Frame number and BSIC\<close>

definition hyperframe :: int where
  "hyperframe = 26 * 51 * 2048"

definition sch_octets :: "int \<Rightarrow> int \<Rightarrow> int list" where
  "sch_octets frame bsic =
     (let t1 = frame div (26 * 51); t2 = frame mod 26; t3 = (frame mod 51 - 1) div 10
      in [push_bit 2 bsic OR drop_bit 9 t1, drop_bit 1 t1 AND 255, push_bit 7 (t1 AND 1) OR push_bit 2 t2 OR drop_bit 1 t3, t3 AND 1])"

definition sch_information_bits :: "int \<Rightarrow> int \<Rightarrow> int list res" where
  "sch_information_bits frame bsic =
     (if \<not> (0 \<le> frame \<and> frame < hyperframe) \<or> frame mod 51 \<notin> {1, 11, 21, 31, 41} \<or> \<not> (0 \<le> bsic \<and> bsic < 64)
      then Inl (ValueError ''SCH requires a scheduled hyperframe position and six-bit BSIC'')
      else Inr (map (\<lambda>i. bit_at (sch_octets frame bsic ! (i div 8)) (i mod 8)) [0..<25]))"

section \<open>Parity\<close>

definition sch_polynomial :: int where
  "sch_polynomial = 0x575"

lemma top_bit_cleared:
  assumes "0 \<le> v" "11 \<le> bit_length v"
  shows "0 \<le> v XOR push_bit (bit_length v - 11) sch_polynomial"
    "bit_length (v XOR push_bit (bit_length v - 11) sch_polynomial) < bit_length v"
proof -
  define n w where "n = bit_length v - 11" and "w = v XOR push_bit n sch_polynomial"
  have len: "bit_length v = n + 11" using assms(2) by (simp add: n_def)
  then have v: "v < 2 ^ (n + 11)" "\<not> v < 2 ^ (n + 10)"
    using bit_length_less [OF assms(1), of "n + 11"] bit_length_less [OF assms(1), of "n + 10"] by auto
  have "(2 :: int) ^ (n + 11) = 2 ^ (n + 10) + 2 ^ (n + 10)" by (simp add: power_add)
  then have v: "v < 2 ^ (n + 10) + 2 ^ (n + 10)" "2 ^ (n + 10) \<le> v" "v < 2 ^ (n + 11)" using v by auto
  have top: "bit v (n + 10)"
  proof -
    have "v div 2 ^ (n + 10) = 1" by (rule int_div_pos_eq [of _ _ _ "v - 2 ^ (n + 10)"]) (use v in auto)
    then show ?thesis by (simp add: bit_iff_odd)
  qed
  have high: "\<not> bit v k" if "n + 11 \<le> k" for k
    using v assms(1) that by (metis bit_take_bit_iff not_le take_bit_int_eq_self)
  show nonneg: "0 \<le> v XOR push_bit (bit_length v - 11) sch_polynomial"
    using assms(1) by (simp add: sch_polynomial_def)
  have p: "bit (0x575 :: int) 10" "\<not> bit (0x575 :: int) j" if "11 \<le> j" for j
  proof -
    show "bit (0x575 :: int) 10" by (simp add: bit_iff_odd)
    have "(0x575 :: int) < 2 ^ 11" by simp
    then show "\<not> bit (0x575 :: int) j" using that by (metis bit_take_bit_iff not_le take_bit_int_eq_self zero_le_numeral)
  qed
  have "take_bit (n + 10) w = w"
  proof (rule bit_eqI)
    fix k
    show "bit (take_bit (n + 10) w) k = bit w k"
      using top high [of k] p(1) p(2) [of "k - n"]
      by (cases "k < n + 10"; cases "k = n + 10") (auto simp: w_def bit_simps sch_polynomial_def)
  qed
  then have "w < 2 ^ (n + 10)" by (metis take_bit_int_less_exp)
  then have "bit_length w \<le> n + 10" using nonneg unfolding n_def [symmetric] w_def [symmetric] by (simp only: bit_length_less)
  then have "bit_length w < bit_length v" using len by linarith
  then show "bit_length (v XOR push_bit (bit_length v - 11) sch_polynomial) < bit_length v"
    by (simp only: w_def n_def)
qed

text \<open>\<open>while remainder.bit_length() >= 11: remainder ^= 0x575 << (remainder.bit_length() - 11)\<close>.\<close>

function sch_remainder :: "int \<Rightarrow> int" where
  "sch_remainder v =
     (if 0 \<le> v \<and> 11 \<le> bit_length v then sch_remainder (v XOR push_bit (bit_length v - 11) sch_polynomial) else v)"
  by pat_completeness auto
termination
proof (relation "measure bit_length", rule wf_measure)
  fix v :: int assume h: "0 \<le> v \<and> 11 \<le> bit_length v"
  show "(v XOR push_bit (bit_length v - 11) sch_polynomial, v) \<in> measure bit_length"
    unfolding in_measure using h by (intro top_bit_cleared(2)) blast+
qed

declare sch_remainder.simps [simp del]

definition bits_value :: "int list \<Rightarrow> int" where
  "bits_value bs = foldl (\<lambda>p b. push_bit 1 p OR b) 0 bs"

definition sch_parity :: "int list \<Rightarrow> int" where
  "sch_parity information = sch_remainder (push_bit 10 (bits_value information)) XOR 0x3ff"

definition sch_uncoded_bits :: "int list \<Rightarrow> int list res" where
  "sch_uncoded_bits information =
     (if length information \<noteq> 25 \<or> \<not> list_all is_bit information
      then Inl (ValueError ''SCH requires exactly 25 binary information bits'')
      else Inr (information @ map (bit_at (sch_parity information)) (rev [0..<10]) @ replicate 4 0))"

section \<open>Convolutional code and burst\<close>

definition delayed :: "int list \<Rightarrow> nat \<Rightarrow> nat \<Rightarrow> int" where
  "delayed uncoded index distance = (if distance \<le> index then uncoded ! (index - distance) else 0)"

definition sch_coded_bits :: "int list \<Rightarrow> int list res" where
  "sch_coded_bits information =
     rmap (\<lambda>uncoded. concat (map (\<lambda>index. let b = uncoded ! index; d = delayed uncoded index in
         [b XOR d 3 XOR d 4, b XOR d 1 XOR d 3 XOR d 4]) [0..<length uncoded])) (sch_uncoded_bits information)"

definition training :: "int list" where
  "training = map (bit_at 0xb962040f2d45761b) (rev [0..<64])"

definition sch_burst_bits :: "int list \<Rightarrow> int list res" where
  "sch_burst_bits information =
     rmap (\<lambda>coded. replicate 3 0 @ take 39 coded @ training @ drop 39 coded @ replicate 3 0) (sch_coded_bits information)"

section \<open>The algebra of the parity\<close>

text \<open>The remainder as a shift register: one bit at a time, most significant bit first.\<close>

definition shift_in :: "int \<Rightarrow> bool \<Rightarrow> int" where
  "shift_in r b = (let v = 2 * r + of_bool b in if bit v 10 then v XOR sch_polynomial else v)"

function register :: "int \<Rightarrow> int" where
  "register v = (if v \<le> 0 then 0 else shift_in (register (v div 2)) (odd v))"
  by pat_completeness auto
termination by (relation "measure nat") auto

declare register.simps [simp del]

lemma register_0 [simp]: "register 0 = 0"
  by (simp add: register.simps)

lemma bit_double_plus: "bit (2 * x + of_bool b) n \<longleftrightarrow> (if n = 0 then b else bit x (n - 1))" for x :: int
  by (cases n; cases b) (auto simp: bit_0 bit_Suc)

lemma twice_xor: "2 * (x XOR y) + of_bool (b \<noteq> c) = (2 * x + of_bool b) XOR (2 * y + of_bool c)" for x y :: int
  by (rule bit_eqI) (auto simp: bit_xor_iff bit_double_plus)

lemma shift_in_xor: "shift_in (r XOR s) (b \<noteq> c) = shift_in r b XOR shift_in s c"
proof -
  have "(if bit (p XOR q) 10 then (p XOR q) XOR g else p XOR q) = (if bit p 10 then p XOR g else p) XOR (if bit q 10 then q XOR g else q)"
    for p q g :: int by (rule bit_eqI) (auto simp: bit_xor_iff)
  then show ?thesis unfolding shift_in_def Let_def twice_xor .
qed

lemma register_xor: "0 \<le> v \<Longrightarrow> 0 \<le> w \<Longrightarrow> register (v XOR w) = register v XOR register w"
proof (induction "nat (v + w)" arbitrary: v w rule: less_induct)
  case less
  show ?case
  proof (cases "v + w = 0")
    case True
    then have "v = 0" "w = 0" using less.prems by auto
    then show ?thesis by simp
  next
    case False
    have split: "register u = shift_in (register (u div 2)) (odd u)" if "0 \<le> u" for u
      using that by (cases "u = 0") (auto simp: register.simps [of u] shift_in_def)
    have d: "(v XOR w) div 2 = (v div 2) XOR (w div 2)"
      by (rule bit_eqI) (simp only: bit_xor_iff bit_Suc [symmetric])
    have o': "odd (v XOR w) \<longleftrightarrow> (odd v \<noteq> odd w)" by (auto simp: even_xor_iff)
    have "nat (v div 2 + w div 2) < nat (v + w)" using less.prems False by linarith
    then have "register (v div 2 XOR w div 2) = register (v div 2) XOR register (w div 2)"
      using less.hyps less.prems by simp
    moreover have "register (v XOR w) = shift_in (register (v div 2 XOR w div 2)) (odd v \<noteq> odd w)"
      using split [of "v XOR w"] less.prems unfolding d o' by simp
    ultimately show ?thesis unfolding split [OF less.prems(1)] split [OF less.prems(2)] by (simp only: shift_in_xor)
  qed
qed

lemma polynomial_facts:
  "0 \<le> sch_polynomial" "odd sch_polynomial" "bit sch_polynomial 10" "10 < j \<Longrightarrow> \<not> bit sch_polynomial j"
proof -
  show "0 \<le> sch_polynomial" "odd sch_polynomial" "bit sch_polynomial 10" by (simp_all add: sch_polynomial_def bit_iff_odd)
  have "take_bit 11 sch_polynomial = sch_polynomial" by (simp add: sch_polynomial_def take_bit_int_eq_self)
  then show "10 < j \<Longrightarrow> \<not> bit sch_polynomial j" by (metis Suc_leI bit_take_bit_iff eval_nat_numeral(3) not_less semiring_norm(26) semiring_norm(27) numeral_eq_Suc)
qed

lemma take_bit_self: "0 \<le> v \<Longrightarrow> v < 2 ^ n \<longleftrightarrow> take_bit n v = v" for v :: int
  by (auto simp: take_bit_int_eq_self_iff)

lemma shift_in_bound: "0 \<le> r \<Longrightarrow> r < 2 ^ 10 \<Longrightarrow> 0 \<le> shift_in r b \<and> shift_in r b < 2 ^ 10"
proof -
  assume r: "0 \<le> r" "r < 2 ^ 10"
  have n: "0 \<le> shift_in r b" using r polynomial_facts(1) by (simp add: shift_in_def Let_def)
  have b9: "\<not> bit r j" if "10 \<le> j" for j using r that by (metis bit_take_bit_iff not_le take_bit_int_eq_self)
  have "\<not> bit (shift_in r b) j" if "10 \<le> j" for j
    using that b9 [of "j - 1"] polynomial_facts(3) polynomial_facts(4) [of j] unfolding shift_in_def Let_def
    by (cases "j = 10") (auto simp: bit_xor_iff bit_double_plus)
  then have "take_bit 10 (shift_in r b) = shift_in r b" by (intro bit_eqI) (metis bit_take_bit_iff not_le)
  then show ?thesis using n take_bit_self by blast
qed

lemma register_bound: "0 \<le> register v \<and> register v < 2 ^ 10"
proof (induction v rule: register.induct)
  case (1 v)
  then show ?case using shift_in_bound [of "register (v div 2)" "odd v"] by (auto simp: register.simps [of v])
qed

lemma register_step: "0 \<le> v \<Longrightarrow> register v = shift_in (register (v div 2)) (odd v)"
  by (cases "v = 0") (auto simp: register.simps [of v] shift_in_def)

lemma register_small: "0 \<le> v \<Longrightarrow> v < 2 ^ 10 \<Longrightarrow> register v = v"
proof (induction v rule: register.induct)
  case (1 v)
  show ?case
  proof (cases "v \<le> 0")
    case False
    have "register (v div 2) = v div 2" using 1 False by auto
    moreover have "2 * (v div 2) + of_bool (odd v) = v" by (cases "odd v") auto
    moreover have "\<not> bit v 10" using 1(2,3) by (metis bit_take_bit_iff less_irrefl take_bit_int_eq_self)
    ultimately show ?thesis using 1(2) by (simp add: register_step [of v] shift_in_def Let_def)
  qed (use 1 in simp)
qed

lemma register_double: "0 \<le> v \<Longrightarrow> register (2 * v) = shift_in (register v) False"
  by (simp add: register_step [of "2 * v"])

lemma register_multiple: "register (push_bit k sch_polynomial) = 0"
proof (induction k)
  case 0
  have "register (sch_polynomial div 2) = sch_polynomial div 2" by (rule register_small) (simp_all add: sch_polynomial_def)
  moreover have "2 * (sch_polynomial div 2) + of_bool (odd sch_polynomial) = sch_polynomial" by (simp add: sch_polynomial_def)
  ultimately show ?case using polynomial_facts by (simp add: register_step [of sch_polynomial] shift_in_def)
next
  case (Suc k)
  then show ?case using register_double [of "push_bit k sch_polynomial"] polynomial_facts(1)
    by (simp add: push_bit_eq_mult shift_in_def mult.assoc [symmetric] mult.commute)
qed

lemma sch_remainder_register: "0 \<le> v \<Longrightarrow> sch_remainder v = register v"
proof (induction v rule: sch_remainder.induct)
  case (1 v)
  show ?case
  proof (cases "11 \<le> bit_length v")
    case True
    have "register (v XOR push_bit (bit_length v - 11) sch_polynomial) = register v"
      using 1(2) polynomial_facts(1) by (subst register_xor) (simp_all add: register_multiple)
    then show ?thesis using 1 True top_bit_cleared(1) [of v] by (simp add: sch_remainder.simps [of v])
  next
    case False
    then have "v < 2 ^ 10" using 1(2) bit_length_less [of v 10] by simp
    then show ?thesis using False 1(2) by (simp add: sch_remainder.simps [of v] register_small)
  qed
qed

text \<open>The register keeps every difference: a zero bit shifted into a register that is not zero leaves it so.\<close>

lemma shift_in_nonzero: "0 \<le> r \<Longrightarrow> shift_in r False = 0 \<Longrightarrow> r = 0"
proof -
  assume r: "0 \<le> r" "shift_in r False = 0"
  have "odd ((2 * r) XOR sch_polynomial)" using polynomial_facts(2) by (simp add: even_xor_iff)
  then have "\<not> bit (2 * r) 10" using r(2) by (auto simp: shift_in_def)
  then show ?thesis using r(2) by (simp add: shift_in_def)
qed

lemma register_burst: "0 \<le> e \<Longrightarrow> e < 2 ^ 10 \<Longrightarrow> register (push_bit k e) = 0 \<longleftrightarrow> e = 0"
proof (induction k)
  case 0
  then show ?case by (simp add: register_small)
next
  case (Suc k)
  have "register (push_bit (Suc k) e) = shift_in (register (push_bit k e)) False"
    using register_double [of "push_bit k e"] Suc.prems by (simp add: push_bit_eq_mult mult.assoc [symmetric] mult.commute)
  moreover have "shift_in 0 False = 0" by (simp add: shift_in_def)
  ultimately show ?case using Suc shift_in_nonzero register_bound by metis
qed

section \<open>Coded blocks\<close>

lemma bits_value_snoc [simp]: "bits_value (bs @ [b]) = push_bit 1 (bits_value bs) OR b"
  by (simp add: bits_value_def)

lemma bits_value_nonneg: "list_all is_bit bs \<Longrightarrow> 0 \<le> bits_value bs"
  by (induction bs rule: rev_induct) (auto simp: bits_value_def is_bit_def)

lemma bits_value_bits:
  "bits_value (bs @ map (bit_at p) (rev [0..<n])) = push_bit n (bits_value bs) OR take_bit n p"
proof (induction n arbitrary: bs)
  case (Suc n)
  have "bits_value (bs @ map (bit_at p) (rev [0..<Suc n])) = bits_value ((bs @ [bit_at p n]) @ map (bit_at p) (rev [0..<n]))" by simp
  also have "\<dots> = push_bit n (push_bit 1 (bits_value bs) OR bit_at p n) OR take_bit n p" unfolding Suc.IH bits_value_snoc ..
  also have "\<dots> = push_bit (Suc n) (bits_value bs) OR take_bit (Suc n) p"
    by (rule bit_eqI) (auto simp: bit_simps bit_at_of_bool less_Suc_eq Suc_le_eq)
  finally show ?case .
qed simp

lemma parity_range: "list_all is_bit bs \<Longrightarrow> take_bit 10 (sch_parity bs) = sch_parity bs"
proof -
  assume "list_all is_bit bs"
  then have "sch_remainder (push_bit 10 (bits_value bs)) = register (push_bit 10 (bits_value bs))"
    using bits_value_nonneg by (simp add: sch_remainder_register)
  then have "take_bit 10 (sch_remainder (push_bit 10 (bits_value bs))) = sch_remainder (push_bit 10 (bits_value bs))"
    using register_bound [of "push_bit 10 (bits_value bs)"] take_bit_self by metis
  then show ?thesis by (simp add: sch_parity_def)
qed

lemma block_register:
  assumes "list_all is_bit bs"
  shows "0 \<le> bits_value (bs @ map (bit_at (sch_parity bs)) (rev [0..<10]))"
    "register (bits_value (bs @ map (bit_at (sch_parity bs)) (rev [0..<10]))) = 0x3ff"
proof -
  define v where "v = push_bit 10 (bits_value bs)"
  have v: "0 \<le> v" using bits_value_nonneg [OF assms] by (simp add: v_def)
  have p: "0 \<le> sch_parity bs" "sch_parity bs < 2 ^ 10" using parity_range [OF assms]
    by (metis take_bit_nonnegative, metis take_bit_int_less_exp)
  have "bits_value (bs @ map (bit_at (sch_parity bs)) (rev [0..<10])) = v OR sch_parity bs"
    by (simp only: bits_value_bits parity_range [OF assms] v_def)
  also have "\<dots> = v XOR sch_parity bs"
  proof (rule bit_eqI)
    fix k
    show "bit (v OR sch_parity bs) k = bit (v XOR sch_parity bs) k"
      using arg_cong [OF parity_range [OF assms], of "\<lambda>u. bit u k"]
      by (auto simp: v_def bit_simps)
  qed
  finally have b: "bits_value (bs @ map (bit_at (sch_parity bs)) (rev [0..<10])) = v XOR sch_parity bs" .
  show "0 \<le> bits_value (bs @ map (bit_at (sch_parity bs)) (rev [0..<10]))" using b v p(1) by simp
  have "register (v XOR sch_parity bs) = register v XOR sch_parity bs"
    using v p by (simp only: register_xor register_small)
  also have "\<dots> = 0x3ff" using v by (simp add: sch_parity_def v_def [symmetric] sch_remainder_register xor.assoc [symmetric])
  finally show "register (bits_value (bs @ map (bit_at (sch_parity bs)) (rev [0..<10]))) = 0x3ff" by (simp only: b)
qed

text \<open>C5: A coded SCH block has the remainder 0x3ff, and no error confined to ten neighbouring bits
  keeps that remainder.\<close>
theorem sch_burst_error_detected:
  assumes "sch_uncoded_bits information = Inr uncoded" "0 \<le> e" "e < 2 ^ 10"
  shows "sch_remainder (bits_value (take 35 uncoded) XOR push_bit k e) = 0x3ff \<longleftrightarrow> e = 0"
proof -
  have i: "length information = 25" "list_all is_bit information"
    and u: "uncoded = information @ map (bit_at (sch_parity information)) (rev [0..<10]) @ replicate 4 0"
    using assms(1) by (auto simp: sch_uncoded_bits_def split: if_splits)
  have t: "take 35 uncoded = information @ map (bit_at (sch_parity information)) (rev [0..<10])" using i(1) by (simp add: u)
  note b = block_register [OF i(2), folded t]
  have "sch_remainder (bits_value (take 35 uncoded) XOR push_bit k e)
      = register (bits_value (take 35 uncoded)) XOR register (push_bit k e)"
    using b(1) assms(2) by (simp add: sch_remainder_register register_xor)
  also have "\<dots> = 0x3ff XOR register (push_bit k e)" by (simp only: b(2))
  finally have r: "sch_remainder (bits_value (take 35 uncoded) XOR push_bit k e) = 0x3ff XOR register (push_bit k e)" .
  have x: "a XOR c = a \<longleftrightarrow> c = 0" for a c :: int by (metis xor.assoc xor.right_neutral xor_self_eq xor.left_neutral)
  show ?thesis unfolding r x by (rule register_burst [OF assms(2,3)])
qed

lemma sch_burst_error_detected_witness:
  "\<exists>uncoded. sch_uncoded_bits (replicate 24 0 @ [1]) = Inr uncoded
     \<and> (sch_remainder (bits_value (take 35 uncoded) XOR push_bit 20 0x205) = 0x3ff \<longleftrightarrow> (0x205 :: int) = 0)"
proof -
  have "list_all is_bit (replicate 24 0 @ [1])" by (simp add: is_bit_def list_all_iff)
  then obtain uncoded where u: "sch_uncoded_bits (replicate 24 0 @ [1]) = Inr uncoded" by (simp add: sch_uncoded_bits_def)
  show ?thesis using u sch_burst_error_detected [OF u, of "0x205" 20] by simp
qed

section \<open>The receiver of a burst\<close>

text \<open>The two bits of a step differ by the bit before: the 25 information bits come back from the burst alone.\<close>

definition sch_recover :: "int list \<Rightarrow> int list" where
  "sch_recover burst =
     (let coded = slice 3 42 burst @ slice 106 145 burst
      in map (\<lambda>i. coded ! (2 * Suc i) XOR coded ! (2 * Suc i + 1)) [0..<25])"

lemma is_bit_xor: "is_bit a \<Longrightarrow> is_bit b \<Longrightarrow> is_bit (a XOR b)"
  by (auto simp: is_bit_def)

lemma is_bit_at [simp]: "is_bit (bit_at v k)"
  by (simp add: bit_at_of_bool is_bit_def)

text \<open>C6: The burst of 25 binary information bits has 148 binary bits and determines them; anything else
  is refused.\<close>
theorem sch_burst_recoverable:
  "case sch_burst_bits information of
     Inr burst \<Rightarrow> length burst = 148 \<and> list_all is_bit burst \<and> sch_recover burst = information
   | Inl e \<Rightarrow> \<not> (length information = 25 \<and> list_all is_bit information)"
proof (cases "sch_uncoded_bits information")
  case (Inl e)
  then show ?thesis by (auto simp: sch_burst_bits_def sch_coded_bits_def sch_uncoded_bits_def split: if_splits)
next
  case (Inr u)
  then have len: "length information = 25" "length u = 39" and bits: "list_all is_bit u" and start: "take 25 u = information"
    by (auto simp: sch_uncoded_bits_def list_all_iff is_bit_def[of 0] split: if_splits)
  define f where "f = (\<lambda>i. u ! i XOR delayed u i 3 XOR delayed u i 4)"
  define g where "g = (\<lambda>i. u ! i XOR delayed u i 1 XOR delayed u i 3 XOR delayed u i 4)"
  define coded where "coded = concat (map (\<lambda>i. [f i, g i]) [0..<39])"
  have run: "sch_coded_bits information = Inr coded"
    using Inr len(2) by (simp add: sch_coded_bits_def coded_def f_def g_def Let_def)
  have cl: "length coded = 78" by (simp only: coded_def length_concat_pairs) simp
  have d: "is_bit (delayed u i k)" "is_bit (u ! i)" if "i < 39" for i k
    using bits len(2) that by (auto simp: delayed_def list_all_length is_bit_def [of 0])
  have cb: "list_all is_bit coded" unfolding coded_def f_def g_def using d by (auto simp: list_all_iff intro!: is_bit_xor)
  define burst where "burst = replicate 3 0 @ take 39 coded @ training @ drop 39 coded @ replicate 3 (0 :: int)"
  have tl: "length training = 64" "list_all is_bit training" by (simp_all add: training_def list_all_iff)
  have "slice 3 42 burst = take 39 coded" "slice 106 145 burst = drop 39 coded"
    using cl tl(1) by (simp_all add: burst_def slice_def)
  then have "slice 3 42 burst @ slice 106 145 burst = coded" by simp
  then have "sch_recover burst = map (\<lambda>i. coded ! (2 * Suc i) XOR coded ! (2 * Suc i + 1)) [0..<25]"
    unfolding sch_recover_def Let_def by (simp only:)
  also have "\<dots> = map (\<lambda>i. u ! i) [0..<25]"
  proof (rule map_cong [OF refl])
    fix i assume "i \<in> set [0..<25]"
    then have i: "Suc i < length [0..<39]" "i < 25" by auto
    have "coded ! (2 * Suc i) = f (Suc i)" "coded ! (2 * Suc i + 1) = g (Suc i)"
      using concat_pairs_nth [OF i(1), of f g] i unfolding coded_def by (simp_all only: nth_upt add_0)
    moreover have "f (Suc i) XOR g (Suc i) = u ! i"
      by (rule bit_eqI) (auto simp: f_def g_def delayed_def bit_xor_iff)
    ultimately show "coded ! (2 * Suc i) XOR coded ! (2 * Suc i + 1) = u ! i" by (simp only:)
  qed
  also have "\<dots> = information" using len start by (metis length_take map_nth min.absorb2 nat_le_linear nth_take map_eq_conv set_upt atLeastLessThan_iff take_all_iff)
  finally have r: "sch_recover burst = information" .
  have "length burst = 148" "list_all is_bit burst"
    using cl cb tl by (auto simp: burst_def list_all_iff is_bit_def [of 0] dest: in_set_takeD in_set_dropD)
  then show ?thesis using r run by (simp add: sch_burst_bits_def burst_def)
qed

section \<open>The receiver of the information bits\<close>

definition lsb_value :: "int list \<Rightarrow> int" where
  "lsb_value bs = foldr (\<lambda>b v. b OR push_bit 1 v) bs 0"

lemma bit_at_Suc: "bit_at v (Suc k) = bit_at (drop_bit 1 v) k"
  by (simp only: bit_at_of_bool bit_drop_bit_eq comp_def plus_1_eq_Suc)

lemma lsb_value_bits: "lsb_value (map (bit_at v) [0..<n]) = take_bit n v"
proof (induction n arbitrary: v)
  case (Suc n)
  have "map (bit_at v) [0..<Suc n] = bit_at v 0 # map (bit_at (drop_bit 1 v)) [0..<n]"
    unfolding upt_conv_Cons [OF zero_less_Suc] map_Suc_upt [symmetric] by (simp add: bit_at_Suc)
  then have "lsb_value (map (bit_at v) [0..<Suc n]) = bit_at v 0 OR push_bit 1 (take_bit n (drop_bit 1 v))"
    using Suc [of "drop_bit 1 v"] by (simp add: lsb_value_def)
  also have "\<dots> = 2 * take_bit n (drop_bit 1 v) + of_bool (bit v 0)"
    by (rule bit_eqI) (auto simp: bit_or_iff bit_push_bit_iff bit_double_plus bit_at_of_bool bit_simps simp del: push_bit_Suc One_nat_def)
  also have "\<dots> = take_bit (Suc n) v" by (simp add: take_bit_Suc bit_0 mod_2_eq_odd drop_bit_eq_div)
  finally show ?case .
qed (simp add: lsb_value_def)

text \<open>The positions of BSIC, T1, T2 and T3' in the bits, and the frame number they stand for.\<close>

definition sch_fields :: "int list \<Rightarrow> int \<times> int" where
  "sch_fields bits =
     (let bsic = lsb_value (slice 2 8 bits);
          t1 = lsb_value ([bits ! 23] @ slice 8 16 bits @ slice 0 2 bits);
          t2 = lsb_value (slice 18 23 bits);
          t3 = 10 * lsb_value ([bits ! 24] @ slice 16 18 bits) + 1
      in (51 * ((t3 - t2) mod 26) + t3 + 26 * 51 * t1, bsic))"

lemma frame_from_counters:
  assumes "0 \<le> (frame :: int)"
  shows "51 * ((frame mod 51 - frame mod 26) mod 26) + frame mod 51 + 26 * 51 * (frame div (26 * 51)) = frame"
proof -
  define r q t where "r = frame mod 1326" and "q = r div 51" and "t = r mod 51"
  have r: "r = 51 * q + t" "0 \<le> t" "t < 51" by (auto simp: q_def t_def)
  have "0 \<le> r" "r < 1326" by (auto simp: r_def)
  then have q: "0 \<le> q" "q < 26" using r by linarith+
  have "frame mod 51 = t" unfolding t_def r_def by (simp add: mod_mod_cancel)
  moreover have "frame mod 26 = r mod 26" unfolding r_def by (simp add: mod_mod_cancel)
  moreover have "(t - r mod 26) mod 26 = q"
  proof -
    have "(t - r mod 26) mod 26 = (t - r) mod 26" by (simp add: mod_simps)
    also have "t - r = q + 26 * (- 2 * q + 0) + q * 0" using r(1) by simp
    also have "\<dots> mod 26 = q mod 26" by (simp only: mult_zero_right add_0_right mod_mult_self2)
    finally show ?thesis using q by simp
  qed
  moreover have "frame = r + 1326 * (frame div 1326)" by (simp add: r_def)
  ultimately show ?thesis using r(1) by simp
qed

text \<open>The 25 information bits of a scheduled frame and a BSIC are binary and determine both; any other
  position or BSIC is refused.\<close>
theorem sch_information_exact:
  "case sch_information_bits frame bsic of
     Inr bits \<Rightarrow> length bits = 25 \<and> list_all is_bit bits \<and> sch_fields bits = (frame, bsic)
   | Inl e \<Rightarrow> \<not> (0 \<le> frame \<and> frame < 26 * 51 * 2048 \<and> frame mod 51 \<in> {1, 11, 21, 31, 41} \<and> 0 \<le> bsic \<and> bsic < 64)"
proof (cases "sch_information_bits frame bsic")
  case (Inl e)
  then show ?thesis by (auto simp: sch_information_bits_def hyperframe_def split: if_splits)
next
  case (Inr bits)
  then have f: "0 \<le> frame" "frame < 26 * 51 * 2048" "frame mod 51 \<in> {1, 11, 21, 31, 41}" "0 \<le> bsic" "bsic < 64"
    and bits: "bits = map (\<lambda>i. bit_at (sch_octets frame bsic ! (i div 8)) (i mod 8)) [0..<25]"
    by (auto simp: sch_information_bits_def hyperframe_def split: if_splits)
  define t1 t2 t3 where "t1 = frame div (26 * 51)" and "t2 = frame mod 26" and "t3 = (frame mod 51 - 1) div 10"
  have "0 \<le> t1" "t1 < 2048" using f(1,2) unfolding t1_def by (simp_all add: pos_imp_zdiv_nonneg_iff)
  moreover have "0 \<le> t2" "t2 < 32" using pos_mod_bound [of 26 frame] by (simp_all add: t2_def)
  moreover have "0 \<le> t3 \<and> t3 < 8 \<and> 10 * t3 + 1 = frame mod 51" using f(3) unfolding t3_def by auto
  ultimately have fit: "take_bit 11 t1 = t1" "take_bit 5 t2 = t2" "take_bit 3 t3 = t3" "take_bit 6 bsic = bsic"
    and mod: "10 * t3 + 1 = frame mod 51"
    using f(4,5) by (simp_all add: take_bit_int_eq_self)
  have high: "\<not> bit t1 k" if "11 \<le> k" for k using fit(1) that by (metis bit_take_bit_iff not_le)
  have high2: "\<not> bit t2 k" if "5 \<le> k" for k using fit(2) that by (metis bit_take_bit_iff not_le)
  have high3: "\<not> bit t3 k" if "3 \<le> k" for k using fit(3) that by (metis bit_take_bit_iff not_le)
  define o0 o1 o2 o3 where "o0 = push_bit 2 bsic OR drop_bit 9 t1" and "o1 = drop_bit 1 t1 AND 255"
    and "o2 = push_bit 7 (t1 AND 1) OR push_bit 2 t2 OR drop_bit 1 t3" and "o3 = t3 AND 1"
  have upts: "[0..<25] = [0, 1, 2, 3, 4, 5, 6, 7, 8, 9, 10, 11, 12, 13, 14, 15, 16, 17, 18, 19, 20, 21, 22, 23, 24]"
    "[0..<11] = [0, 1, 2, 3, 4, 5, 6, 7, 8, 9, 10]"
    "[0..<8] = [0, 1, 2, 3, 4, 5, 6, 7]"
    "[0..<6] = [0, 1, 2, 3, 4, 5]"
    "[0..<5] = [0, 1, 2, 3, 4]"
    "[0..<3] = [0, 1, 2]"
    by code_simp+
  have b: "bits = map (bit_at o0) [0..<8] @ map (bit_at o1) [0..<8] @ map (bit_at o2) [0..<8] @ [bit_at o3 0]"
    unfolding bits sch_octets_def Let_def t1_def [symmetric] t2_def [symmetric] t3_def [symmetric]
      o0_def [symmetric] o1_def [symmetric] o2_def [symmetric] o3_def [symmetric]
    by (simp add: upts)
  have 255: "bit (255 :: int) k \<longleftrightarrow> k < 8" for k using bit_mask_iff [of 8 k, where ?'a = int] by (simp add: mask_eq_exp_minus_1)
  have o0: "bit_at o0 k = bit_at t1 (k + 9)" if "k < 2" for k using that by (auto simp: o0_def bit_at_of_bool bit_simps add.commute)
  have o0': "bit_at o0 (k + 2) = bit_at bsic k" for k using high [of "k + 11"] by (auto simp: o0_def bit_at_of_bool bit_simps add.commute)
  have o1: "bit_at o1 k = bit_at t1 (k + 1)" if "k < 8" for k using that by (simp add: o1_def bit_at_of_bool bit_simps 255)
  have o2: "bit_at o2 k = bit_at t3 (k + 1)" if "k < 2" for k using that by (auto simp: o2_def bit_at_of_bool bit_simps)
  have o2': "bit_at o2 (k + 2) = bit_at t2 k" if "k < 5" for k
    using that high3 [of "Suc (k + 2)"] by (auto simp: o2_def bit_at_of_bool bit_or_iff bit_push_bit_iff bit_drop_bit_eq bit_and_iff)
  have o2'': "bit_at o2 7 = bit_at t1 0" using high2 [of 5] high3 [of 8] by (auto simp: o2_def bit_at_of_bool bit_simps)
  have o3: "bit_at o3 0 = bit_at t3 0" by (simp add: o3_def bit_at_of_bool bit_simps)
  have len: "length bits = 25" by (simp add: bits)
  have p0: "bit_at o0 (2 + k) = bit_at bsic k" for k using o0' [of k] by (simp only: add.commute)
  have p2: "bit_at o2 (2 + k) = bit_at t2 k" if "k < 5" for k using o2' [OF that] by (simp only: add.commute)
  have q0: "bit_at o0 k = bit_at t1 (9 + k)" if "k < 2" for k using o0 [OF that] by (simp only: add.commute)
  have p1: "bit_at o1 k = bit_at t1 (1 + k)" if "k < 8" for k using o1 [OF that] by (simp only: add.commute)
  note lists = b slice_def nth_append upts
  have "slice 2 8 bits = map (bit_at bsic) [0..<6]"
    using p0 [of 0] p0 [of 1] p0 [of 2] p0 [of 3] p0 [of 4] p0 [of 5] by (simp add: lists)
  moreover have "[bits ! 23] @ slice 8 16 bits @ slice 0 2 bits = map (bit_at t1) [0..<11]"
    unfolding One_nat_def [symmetric] using o2'' p1 [of 0] p1 [of 1] p1 [of 2] p1 [of 3] p1 [of 4] p1 [of 5] p1 [of 6] p1 [of 7] q0 [of 0] q0 [of 1] by (simp add: lists) (simp add: eval_nat_numeral)
  moreover have "slice 18 23 bits = map (bit_at t2) [0..<5]"
    using p2 [of 0] p2 [of 1] p2 [of 2] p2 [of 3] p2 [of 4] by (simp add: lists)
  moreover have "[bits ! 24] @ slice 16 18 bits = map (bit_at t3) [0..<3]"
    using o3 o2 [of 0] o2 [of 1] by (simp add: lists) (simp add: eval_nat_numeral)
  ultimately have "sch_fields bits = (frame, bsic)"
    using frame_from_counters [OF f(1), folded t1_def t2_def]
    unfolding sch_fields_def Let_def by (simp only: lsb_value_bits fit mod)
  then show ?thesis using Inr len by (simp add: bits list_all_iff)
qed

end
