(* ===== verification/Call_Closure.thy ===== *)
theory Call_Closure
  imports Py_Regex Py_Json Py_Dict "HOL-Library.Product_Lexorder"
begin

text \<open>
  The static call graph of \<open>tools/call_closure.py\<close>: the scan for Thumb-1 branch-and-link pairs, the
  function that owns a call site, and the closure of a worklist of roots, which descends into functions
  inside given address ranges only.  The specification of the closure is reachability in the call graph.
  Numbers on the command line and in the entry list are digits with an optional prefix.
\<close>

section \<open>Calls\<close>

definition graph_flash :: int where
  "graph_flash = 0x200000"

text \<open>Half words in little-endian order; an odd last byte is left out.\<close>

fun thumb_half_words :: "bytes \<Rightarrow> int list" where
  "thumb_half_words (l # h # bs) = from_le [l, h] # thumb_half_words bs"
| "thumb_half_words _ = []"

definition bl_offset :: "int \<Rightarrow> int \<Rightarrow> int" where
  "bl_offset h l =
     (let off = push_bit 12 (h AND 0x7FF) OR push_bit 1 (l AND 0x7FF) in if off AND 0x400000 \<noteq> 0 then off - 0x800000 else off)"

definition bl_at :: "int list \<Rightarrow> int \<Rightarrow> nat \<Rightarrow> (int \<times> int) list" where
  "bl_at hw size_of i =
     (let h = hw ! i; l = hw ! Suc i in
      if 0xF000 \<le> h \<and> h \<le> 0xF7FF \<and> 0xF800 \<le> l \<and> l \<le> 0xFFFF then
        let t = graph_flash + int i * 2 + 4 + bl_offset h l in
        if graph_flash \<le> t \<and> t < graph_flash + size_of then [(graph_flash + int i * 2, t)] else []
      else [])"

definition scan_bl :: "bytes \<Rightarrow> (int, int) dict" where
  "scan_bl data = (let hw = thumb_half_words data in concat (map (bl_at hw (int (length data))) [0..<length hw - 1]))"

text \<open>\<open>bisect_right\<close> on the sorted entries, and the entries by owner.\<close>

definition owner :: "int list \<Rightarrow> int \<Rightarrow> int option" where
  "owner entries site = (let n = length (takeWhile (\<lambda>e. e \<le> site) entries) in if n = 0 then None else Some (entries ! (n - 1)))"

definition add_call :: "int list \<Rightarrow> (int, (int \<times> int) list) dict \<Rightarrow> int \<times> int \<Rightarrow> (int, (int \<times> int) list) dict" where
  "add_call entries by_fn call =
     (case owner entries (fst call) of
        None \<Rightarrow> by_fn
      | Some f \<Rightarrow> dict_set f ((case map_of by_fn f of None \<Rightarrow> [] | Some calls \<Rightarrow> calls) @ [call]) by_fn)"

definition calls_by_owner :: "bytes \<Rightarrow> int list \<Rightarrow> (int, (int \<times> int) list) dict" where
  "calls_by_owner data entries = foldl (add_call entries) [] (scan_bl data)"

section \<open>Closure\<close>

definition in_ranges :: "(int \<times> int) list \<Rightarrow> int \<Rightarrow> bool" where
  "in_ranges ranges a \<longleftrightarrow> list_ex (\<lambda>(lo, hi). lo \<le> a \<and> a < hi) ranges"

definition calls_of :: "(int, (int \<times> int) list) dict \<Rightarrow> int \<Rightarrow> int list" where
  "calls_of by_fn f = (case map_of by_fn f of None \<Rightarrow> [] | Some calls \<Rightarrow> map snd (sort calls))"

record fn_record =
  fn_callees :: "int list"
  fn_callers :: "int list"
  fn_boundary :: bool

type_synonym fn_dict = "(int, fn_record) dict"

definition targets_of :: "(int, (int \<times> int) list) dict \<Rightarrow> int set" where
  "targets_of by_fn = (\<Union>f. set (calls_of by_fn f))"

lemma calls_of_targets: "set (calls_of by_fn f) \<subseteq> targets_of by_fn"
  by (auto simp: targets_of_def)

lemma targets_finite: "finite (targets_of by_fn)"
proof -
  have "targets_of by_fn \<subseteq> (\<Union>entry \<in> set by_fn. snd ` set (snd entry))"
  proof
    fix t assume "t \<in> targets_of by_fn"
    then obtain f where f: "t \<in> set (calls_of by_fn f)" by (auto simp: targets_of_def)
    then obtain calls where "map_of by_fn f = Some calls" "t \<in> snd ` set calls"
      by (cases "map_of by_fn f") (auto simp: calls_of_def)
    then have "(f, calls) \<in> set by_fn" by (simp add: map_of_SomeD)
    then show "t \<in> (\<Union>entry \<in> set by_fn. snd ` set (snd entry))" using \<open>t \<in> snd ` set calls\<close> by force
  qed
  then show ?thesis by (rule finite_subset) auto
qed

text \<open>What is left to visit: the work and every call target, less the functions recorded.\<close>

definition unvisited :: "(int, (int \<times> int) list) dict \<Rightarrow> int list \<Rightarrow> fn_dict \<Rightarrow> int set" where
  "unvisited by_fn work fns = (set work \<union> targets_of by_fn) - fst ` set fns"

definition new_fn :: "(int, (int \<times> int) list) dict \<Rightarrow> (int \<times> int) list \<Rightarrow> int \<Rightarrow> fn_record" where
  "new_fn by_fn inner f =
     (let inside = in_ranges inner f in
      \<lparr>fn_callees = (if inside then calls_of by_fn f else []), fn_callers = [], fn_boundary = \<not> inside\<rparr>)"

text \<open>The work is a stack whose top is its last element.\<close>

function closure_loop :: "(int, (int \<times> int) list) dict \<Rightarrow> (int \<times> int) list \<Rightarrow> int list \<Rightarrow> fn_dict \<Rightarrow> fn_dict" where
  "closure_loop by_fn inner work fns =
     (if work = [] then fns
      else let f = last work; rest = butlast work in
        if map_of fns f \<noteq> None then closure_loop by_fn inner rest fns
        else closure_loop by_fn inner (rest @ fn_callees (new_fn by_fn inner f)) (dict_set f (new_fn by_fn inner f) fns))"
  by pat_completeness auto
termination
proof (relation "measures [\<lambda>(by_fn, inner, work, fns). card (unvisited by_fn work fns), \<lambda>(by_fn, inner, work, fns). length work]", rule wf_measures)
  fix by_fn :: "(int, (int \<times> int) list) dict" and inner :: "(int \<times> int) list" and fns :: fn_dict and f rest and work :: "int list"
  assume h: "work \<noteq> []" "f = last work" "rest = butlast work"
  have fin: "finite (unvisited by_fn ws gs)" for ws gs by (simp add: unvisited_def targets_finite)
  {
    assume "map_of fns f \<noteq> None"
    have "unvisited by_fn rest fns \<subseteq> unvisited by_fn work fns"
      using h in_set_butlastD by (fastforce simp: unvisited_def)
    then have "card (unvisited by_fn rest fns) \<le> card (unvisited by_fn work fns)" by (intro card_mono fin)
    then show "((by_fn, inner, rest, fns), by_fn, inner, work, fns)
      \<in> measures [\<lambda>(by_fn, inner, work, fns). card (unvisited by_fn work fns), \<lambda>(by_fn, inner, work, fns). length work]"
      using h by (cases work rule: rev_cases) (auto simp: le_less)
  next
    assume new: "\<not> map_of fns f \<noteq> None"
    let ?w = "rest @ fn_callees (new_fn by_fn inner f)" and ?g = "dict_set f (new_fn by_fn inner f) fns"
    have "f \<in> unvisited by_fn work fns" using h new by (simp add: unvisited_def map_of_eq_None_iff)
    moreover have "unvisited by_fn ?w ?g \<subseteq> unvisited by_fn work fns - {f}"
      using h calls_of_targets [of by_fn f] in_set_butlastD
      by (fastforce simp: unvisited_def keys_dict_set new_fn_def Let_def)
    ultimately have "unvisited by_fn ?w ?g \<subset> unvisited by_fn work fns" by blast
    then have "card (unvisited by_fn ?w ?g) < card (unvisited by_fn work fns)" by (intro psubset_card_mono fin)
    then show "((by_fn, inner, ?w, ?g), by_fn, inner, work, fns)
      \<in> measures [\<lambda>(by_fn, inner, work, fns). card (unvisited by_fn work fns), \<lambda>(by_fn, inner, work, fns). length work]"
      by simp
  }
qed

declare closure_loop.simps [simp del]

text \<open>Every recorded callee learns its callers, each once.\<close>

definition add_caller :: "int \<Rightarrow> fn_dict \<Rightarrow> int \<Rightarrow> fn_dict" where
  "add_caller f fns t =
     (case map_of fns t of
        None \<Rightarrow> fns
      | Some r \<Rightarrow> if f \<in> set (fn_callers r) then fns else dict_set t (r\<lparr>fn_callers := fn_callers r @ [f]\<rparr>) fns)"

definition add_callers :: "fn_dict \<Rightarrow> fn_dict" where
  "add_callers fns = foldl (\<lambda>acc (f, r). foldl (add_caller f) acc (fn_callees r)) fns fns"

definition build_graph :: "bytes \<Rightarrow> int list \<Rightarrow> int list \<Rightarrow> (int \<times> int) list \<Rightarrow> fn_dict" where
  "build_graph data entries roots inner = add_callers (closure_loop (calls_by_owner data entries) inner roots [])"

section \<open>Command line\<close>

text \<open>\<open>int(s, 0)\<close> and \<open>int(s, 16)\<close>.\<close>

definition prefixed :: "string \<Rightarrow> bool" where
  "prefixed s \<longleftrightarrow> prefix ''0x'' s \<or> prefix ''0X'' s"

definition int_base16 :: "string \<Rightarrow> int res" where
  "int_base16 s = int_of 16 (if prefixed s then drop 2 s else s)"

definition int_base0 :: "string \<Rightarrow> int res" where
  "int_base0 s =
     (if prefixed s then int_of 16 (drop 2 s)
      else if prefix ''0o'' s \<or> prefix ''0O'' s then int_of 8 (drop 2 s)
      else if prefix ''0b'' s \<or> prefix ''0B'' s then int_of 2 (drop 2 s)
      else if prefix ''0'' s \<and> \<not> list_all (\<lambda>c. c = CHR ''0'') s then Inl (ValueError ''invalid literal for int()'')
      else int_of 10 s)"

definition load_entries :: "string \<Rightarrow> int list res" where
  "load_entries src =
     rmap sort (rmap_list (\<lambda>l. int_base16 (hd (split_space l))) (filter (\<lambda>l. strip l \<noteq> []) (splitlines src)))"

definition parse_range :: "string \<Rightarrow> (int \<times> int) res" where
  "parse_range part =
     (case split_on CHR ''-'' part of
        [a, b] \<Rightarrow> rbind (int_base0 a) (\<lambda>lo. rbind (int_base0 b) (\<lambda>hi. Inr (lo, hi)))
      | _ \<Rightarrow> Inl (ValueError ''expected two values to unpack''))"

definition parse_ranges :: "string \<Rightarrow> (int \<times> int) list res" where
  "parse_ranges s = rmap_list parse_range (split_on CHR '','' s)"

definition address_text :: "int \<Rightarrow> json" where
  "address_text v = JStr (fmt_x 8 v)"

definition graph_json :: "string \<Rightarrow> int list \<Rightarrow> fn_dict \<Rightarrow> json" where
  "graph_json inner_text roots fns =
     JObj [(''inner_ranges'', JStr inner_text), (''roots'', JList (map address_text roots)),
       (''functions'', JObj (map (\<lambda>(f, r). (fmt_x 8 f, JObj [(''callees'', JList (map address_text (fn_callees r))),
           (''callers'', JList (map address_text (fn_callers r))), (''boundary'', JBool (fn_boundary r))]))
         (sort_key fst fns))),
       (''boundary'', JList (map address_text (sort (map fst (filter (\<lambda>(f, r). fn_boundary r) fns)))))]"

definition closure_main :: "bytes \<Rightarrow> string \<Rightarrow> string list \<Rightarrow> string \<Rightarrow> json res" where
  "closure_main data entries_text roots_given inner_text =
     rbind (parse_ranges inner_text) (\<lambda>inner. rbind (load_entries entries_text) (\<lambda>entries.
     rbind (if roots_given \<noteq> [] then rmap_list int_base0 roots_given else Inr (filter (in_ranges inner) entries)) (\<lambda>roots.
       Inr (graph_json inner_text roots (build_graph data entries roots inner)))))"

section \<open>Reachability\<close>

text \<open>The functions a call chain leads to from the roots, through functions inside the ranges.\<close>

inductive reached :: "(int, (int \<times> int) list) dict \<Rightarrow> (int \<times> int) list \<Rightarrow> int list \<Rightarrow> int \<Rightarrow> bool"
  for by_fn inner roots where
  root: "f \<in> set roots \<Longrightarrow> reached by_fn inner roots f"
| call: "reached by_fn inner roots f \<Longrightarrow> in_ranges inner f \<Longrightarrow> t \<in> set (calls_of by_fn f) \<Longrightarrow> reached by_fn inner roots t"

lemma new_fn_simps [simp]:
  "fn_callees (new_fn by_fn inner f) = (if in_ranges inner f then calls_of by_fn f else [])"
  "fn_callers (new_fn by_fn inner f) = []" "fn_boundary (new_fn by_fn inner f) = (\<not> in_ranges inner f)"
  by (simp_all add: new_fn_def Let_def)

text \<open>Between two iterations: what is recorded or waiting is reached, and what a recorded function calls is
  recorded or waiting.\<close>

definition closure_inv :: "(int, (int \<times> int) list) dict \<Rightarrow> (int \<times> int) list \<Rightarrow> int list \<Rightarrow> int list \<Rightarrow> fn_dict \<Rightarrow> bool" where
  "closure_inv by_fn inner roots work fns \<longleftrightarrow>
     dict_wf fns \<and> (\<forall>f \<in> set work \<union> dom (map_of fns). reached by_fn inner roots f)
     \<and> (\<forall>f r. map_of fns f = Some r \<longrightarrow> r = new_fn by_fn inner f \<and> set (fn_callees r) \<subseteq> set work \<union> dom (map_of fns))"

lemma closure_loop_inv:
  "closure_inv by_fn inner roots work fns \<Longrightarrow>
   closure_inv by_fn inner roots [] (closure_loop by_fn inner work fns)
   \<and> set work \<union> dom (map_of fns) \<subseteq> dom (map_of (closure_loop by_fn inner work fns))"
proof (induction by_fn inner work fns rule: closure_loop.induct)
  case (1 by_fn inner work fns)
  show ?case
  proof (cases "work = []")
    case True
    then show ?thesis using 1(3) by (simp add: closure_loop.simps)
  next
    case False
    define f rest where "f = last work" and "rest = butlast work"
    have work: "set work = insert f (set rest)"
      using False by (cases work rule: rev_cases) (auto simp: f_def rest_def)
    show ?thesis
    proof (cases "map_of fns f")
      case (Some r)
      then have "closure_inv by_fn inner roots rest fns" using 1(3) work by (auto simp: closure_inv_def) blast+
      then show ?thesis using 1(1) [OF False f_def rest_def] Some False work
        by (auto simp: closure_loop.simps [of by_fn inner work fns] f_def [symmetric] rest_def [symmetric])
    next
      case None
      let ?n = "new_fn by_fn inner f"
      have "reached by_fn inner roots f" using 1(3) work by (auto simp: closure_inv_def)
      then have "closure_inv by_fn inner roots (rest @ fn_callees ?n) (dict_set f ?n fns)"
        using 1(3) work reached.call by (auto simp: closure_inv_def split: if_splits) blast+
      moreover have "closure_loop by_fn inner work fns = closure_loop by_fn inner (rest @ fn_callees ?n) (dict_set f ?n fns)"
        using None False by (subst closure_loop.simps) (simp add: f_def rest_def Let_def)
      moreover have "dom (map_of (dict_set f ?n fns)) = insert f (dom (map_of fns))" by simp
      ultimately show ?thesis using 1(2) [OF False f_def rest_def] None work by (simp del: map_of_dict_set new_fn_simps)
    qed
  qed
qed

lemma closure_exact:
  "map_of (closure_loop by_fn inner roots []) f =
     (if reached by_fn inner roots f then Some (new_fn by_fn inner f) else None)" "dict_wf (closure_loop by_fn inner roots [])"
proof -
  let ?res = "closure_loop by_fn inner roots []"
  have "closure_inv by_fn inner roots roots []" by (auto simp: closure_inv_def intro: root)
  then have inv: "closure_inv by_fn inner roots [] ?res" and keep: "set roots \<subseteq> dom (map_of ?res)"
    using closure_loop_inv by fastforce+
  then show "dict_wf ?res" by (simp add: closure_inv_def)
  have "reached by_fn inner roots g \<Longrightarrow> g \<in> dom (map_of ?res)" for g
  proof (induction rule: reached.induct)
    case (call g t)
    then obtain r where "map_of ?res g = Some r" by auto
    then have "r = new_fn by_fn inner g" "set (fn_callees r) \<subseteq> dom (map_of ?res)" using inv by (auto simp: closure_inv_def)
    then show ?case using call.hyps(2,3) by auto
  qed (use keep in auto)
  then show "map_of ?res f = (if reached by_fn inner roots f then Some (new_fn by_fn inner f) else None)"
    using inv by (cases "map_of ?res f") (auto simp: closure_inv_def)
qed

lemma add_caller_map:
  "map_of (add_caller f fns t) u =
     (if u = t then map_option (\<lambda>r. if f \<in> set (fn_callers r) then r else r\<lparr>fn_callers := fn_callers r @ [f]\<rparr>) (map_of fns t)
      else map_of fns u)"
  by (auto simp: add_caller_def split: option.splits)

lemma add_all_callers:
  "map_of fns u = Some r \<Longrightarrow> distinct (fn_callers r) \<Longrightarrow>
     \<exists>cs. map_of (foldl (\<lambda>acc (f, t). add_caller f acc t) fns ps) u = Some (r\<lparr>fn_callers := cs\<rparr>)
       \<and> distinct cs \<and> set cs = set (fn_callers r) \<union> {f. (f, u) \<in> set ps}"
proof (induction ps arbitrary: fns r)
  case (Cons p ps)
  obtain f t where p: "p = (f, t)" by force
  define r1 where "r1 = (if u = t \<and> f \<notin> set (fn_callers r) then r\<lparr>fn_callers := fn_callers r @ [f]\<rparr> else r)"
  have "map_of (add_caller f fns t) u = Some r1" "distinct (fn_callers r1)"
    using Cons.prems by (auto simp: add_caller_map r1_def)
  then obtain cs where "map_of (foldl (\<lambda>acc (f, t). add_caller f acc t) (add_caller f fns t) ps) u = Some (r1\<lparr>fn_callers := cs\<rparr>)"
    "distinct cs" "set cs = set (fn_callers r1) \<union> {f. (f, u) \<in> set ps}" using Cons.IH by blast
  then show ?case by (intro exI [of _ cs]) (auto simp: p r1_def split: if_splits)
next
  case Nil
  then show ?case by (intro exI [of _ "fn_callers r"]) simp
qed

lemma add_callers_none: "map_of fns u = None \<Longrightarrow> map_of (foldl (\<lambda>acc (f, t). add_caller f acc t) fns ps) u = None"
proof (induction ps arbitrary: fns)
  case (Cons p ps)
  obtain f t where p: "p = (f, t)" by force
  have "map_of (add_caller f fns t) u = None" using Cons.prems by (auto simp: add_caller_map)
  then show ?case using Cons.IH by (simp add: p)
qed simp

lemma add_callers_pairs:
  "add_callers fns = foldl (\<lambda>acc (f, t). add_caller f acc t) fns (concat (map (\<lambda>(f, r). map (Pair f) (fn_callees r)) fns))"
proof -
  have inner: "foldl (add_caller f) acc ts = foldl (\<lambda>acc (f, t). add_caller f acc t) acc (map (Pair f) ts)" for f acc ts
    by (induction ts arbitrary: acc) auto
  have "foldl (\<lambda>acc (f, r). foldl (add_caller f) acc (fn_callees r)) acc gs
      = foldl (\<lambda>acc (f, t). add_caller f acc t) acc (concat (map (\<lambda>(f, r). map (Pair f) (fn_callees r)) gs))" for acc gs
    by (induction gs arbitrary: acc) (auto simp: inner)
  then show ?thesis by (simp add: add_callers_def)
qed

text \<open>C8: The call graph holds exactly the functions reached from the roots through functions inside the
  ranges; each is marked as a boundary outside them, lists its calls inside them, and lists each caller once.\<close>
theorem call_graph_exact:
  "case map_of (build_graph data entries roots inner) f of
     None \<Rightarrow> \<not> reached (calls_by_owner data entries) inner roots f
   | Some r \<Rightarrow> reached (calls_by_owner data entries) inner roots f \<and> fn_boundary r = (\<not> in_ranges inner f)
       \<and> fn_callees r = (if in_ranges inner f then calls_of (calls_by_owner data entries) f else [])
       \<and> distinct (fn_callers r)
       \<and> set (fn_callers r) = {g. reached (calls_by_owner data entries) inner roots g \<and> in_ranges inner g
            \<and> f \<in> set (calls_of (calls_by_owner data entries) g)}"
proof -
  let ?b = "calls_by_owner data entries"
  define fns where "fns = closure_loop ?b inner roots []"
  note exact = closure_exact [of ?b inner roots, folded fns_def]
  have g: "build_graph data entries roots inner = foldl (\<lambda>acc (f, t). add_caller f acc t) fns
      (concat (map (\<lambda>(f, r). map (Pair f) (fn_callees r)) fns))"
    by (simp add: build_graph_def fns_def add_callers_pairs)
  have pairs: "(h, f) \<in> set (concat (map (\<lambda>(f, r). map (Pair f) (fn_callees r)) fns)) \<longleftrightarrow>
      reached ?b inner roots h \<and> in_ranges inner h \<and> f \<in> set (calls_of ?b h)" for h
  proof -
    have "(h, f) \<in> set (concat (map (\<lambda>(f, r). map (Pair f) (fn_callees r)) fns)) \<longleftrightarrow> (\<exists>r. (h, r) \<in> set fns \<and> f \<in> set (fn_callees r))"
      by (auto 4 3)
    also have "\<dots> \<longleftrightarrow> (\<exists>r. map_of fns h = Some r \<and> f \<in> set (fn_callees r))" by (simp add: dict_wf_iff [OF exact(2)])
    finally show ?thesis by (auto simp: exact(1) split: if_splits)
  qed
  show ?thesis
  proof (cases "reached ?b inner roots f")
    case True
    then have "map_of fns f = Some (new_fn ?b inner f)" by (simp add: exact(1))
    from add_all_callers [OF this, of "concat (map (\<lambda>(f, r). map (Pair f) (fn_callees r)) fns)"]
    obtain cs where "map_of (build_graph data entries roots inner) f = Some (new_fn ?b inner f\<lparr>fn_callers := cs\<rparr>)" "distinct cs"
      "set cs = {h. (h, f) \<in> set (concat (map (\<lambda>(f, r). map (Pair f) (fn_callees r)) fns))}"
      unfolding g by auto
    then show ?thesis using True unfolding pairs by simp
  next
    case False
    then have "map_of fns f = None" by (simp add: exact(1))
    from add_callers_none [OF this] show ?thesis using False unfolding g by simp
  qed
qed

end
