(* ===== verification/Mu4_Fft.thy ===== *)
theory Mu4_Fft
  imports Mu4_Reference
begin

text \<open>
  The fixed-point arithmetic of the MU4 decoder as its tools recompute it: the transform stages, the
  rotations and the snapshot hash of \<open>tools/mu4_transform_check.py\<close>, the scaling and the window of
  \<open>tools/mu4_window_check.py\<close>, the overlap carry of \<open>tools/mu4_overlap_check.py\<close> and the filter iteration
  of \<open>tools/mu4_filter_arithmetic_check.py\<close>.  A vector of complex numbers is the list of their real and
  imaginary parts in turn; a component is a signed 32-bit integer, coefficients are 32-bit words.
\<close>

section \<open>Transform stages\<close>

definition wrap32 :: "int \<Rightarrow> int" where
  "wrap32 value = (value + push_bit 31 1) mod push_bit 32 1 - push_bit 31 1"

definition radix4_group :: "int list \<Rightarrow> int list" where
  "radix4_group v = (let r0 = v ! 0; i0 = v ! 1; r1 = v ! 2; i1 = v ! 3; r2 = v ! 4; i2 = v ! 5; r3 = v ! 6; i3 = v ! 7;
     rd = drop_bit 2 (r0 - r1);
     idiff = i2 - i3;
     r23 = drop_bit 2 (r2 - r3);
     isum = drop_bit 2 (i2 + i3)
   in [drop_bit 2 (r0 + r1 + r2 + r3), drop_bit 2 (i0 + i1 + 4 * isum),
       rd - drop_bit 2 idiff, drop_bit 2 (i0 - i1 + 4 * r23),
       drop_bit 2 (r0 + r1 - r2 - r3), drop_bit 2 (i0 + i1 - 4 * isum),
       rd - drop_bit 2 idiff + drop_bit 1 idiff, drop_bit 2 (i0 - i1 - 4 * r23)])"

definition radix4 :: "int list \<Rightarrow> int list res" where
  "radix4 values =
     (if values = [] \<or> length values mod 8 \<noteq> 0 then Inl (ValueError ''radix-4 stage requires complete four-complex groups'')
      else Inr (map wrap32 (concat (map (\<lambda>k. radix4_group (slice (8 * k) (8 * k + 8) values)) [0..<length values div 8]))))"

definition partial_product :: "int \<Rightarrow> int \<Rightarrow> int" where
  "partial_product value coefficient = (let
     coefficient = wrap32 coefficient;
     high = drop_bit 16 value; low = value AND 0xffff;
     chi = drop_bit 16 coefficient; clo = coefficient AND 0xffff
   in push_bit 3 (drop_bit 16 (clo * high + low * chi) + high * chi))"

definition stage3_twiddle :: "nat \<Rightarrow> int \<Rightarrow> int \<Rightarrow> int \<Rightarrow> int \<times> int" where
  "stage3_twiddle j coefficient qR qI =
     (if j = 0 then (qR, qI)
      else if j = 2 then (- qI, qR)
      else let a = partial_product qR coefficient; b = partial_product qI coefficient
        in if j = 1 then (a - b, a + b) else (- a - b, a - b))"

text \<open>The four assignments that both butterfly stages end with.\<close>

definition butterfly :: "int list \<Rightarrow> nat \<Rightarrow> nat \<Rightarrow> int \<times> int \<Rightarrow> int \<times> int \<Rightarrow> int list" where
  "butterfly out at other x w = (case (x, w) of ((xr, xi), (real, imag)) \<Rightarrow>
     out[at := wrap32 (drop_bit 1 (xr + real)), at + 1 := wrap32 (drop_bit 1 (xi + imag)),
         other := wrap32 (drop_bit 1 (xr - real)), other + 1 := wrap32 (drop_bit 1 (xi - imag))])"

definition stage3 :: "int list \<Rightarrow> int \<Rightarrow> int list res" where
  "stage3 values coefficient =
     (if values = [] \<or> length values mod 16 \<noteq> 0 then Inl (ValueError ''stage 3 requires complete eight-complex groups'')
      else Inr (foldl (\<lambda>out base. foldl (\<lambda>out j.
          butterfly out (base + 2 * j) (base + 8 + 2 * j) (values ! (base + 2 * j), values ! (base + 2 * j + 1))
            (stage3_twiddle j coefficient (values ! (base + 8 + 2 * j)) (values ! (base + 8 + 2 * j + 1)))) out [0..<4])
        values (map (\<lambda>k. 16 * k) [0..<length values div 16])))"

definition product_parts :: "int \<Rightarrow> int \<Rightarrow> int \<times> int" where
  "product_parts value coefficient =
     ((coefficient AND 0xffff) * drop_bit 16 value + (value AND 0xffff) * drop_bit 16 coefficient,
      drop_bit 16 value * drop_bit 16 coefficient)"

definition weighted_twiddle :: "int list \<Rightarrow> nat \<Rightarrow> nat \<Rightarrow> int \<Rightarrow> int \<Rightarrow> int \<times> int" where
  "weighted_twiddle coefficients width j qr qi =
     (if j = 0 then (qr, qi)
      else let index = 512 * j div width - 1;
          cr = coefficients ! index; ci = coefficients ! (index + 128);
          a = product_parts qr cr; b = product_parts qi ci;
          real = push_bit 3 (drop_bit 16 (fst a + fst b) + snd a + snd b);
          a = product_parts qi cr; b = product_parts qr ci;
          imag = push_bit 3 ((drop_bit 16 (fst a) + snd a) - (drop_bit 16 (fst b) + snd b))
        in (real, imag))"

definition weighted_stage :: "int list \<Rightarrow> int list \<Rightarrow> nat \<Rightarrow> int list res" where
  "weighted_stage values coefficients width =
     (if width \<notin> {16, 32, 64, 128, 256, 512} \<or> values = [] \<or> length values mod (2 * width) \<noteq> 0 \<or> length coefficients \<noteq> 512
      then Inl (ValueError ''weighted stage requires complete supported groups and coefficient table'')
      else Inr (foldl (\<lambda>out base. foldl (\<lambda>out j.
          butterfly out (base + 2 * j) (base + width + 2 * j) (values ! (base + 2 * j), values ! (base + 2 * j + 1))
            (weighted_twiddle coefficients width j (values ! (base + width + 2 * j)) (values ! (base + width + 2 * j + 1))))
          out [0..<width div 2])
        values (map (\<lambda>k. 2 * width * k) [0..<length values div (2 * width)])))"

definition fnv :: "bytes \<Rightarrow> int" where
  "fnv data = foldl (\<lambda>result b. ((result XOR uint b) * 16777619) AND 0xffffffff) 2166136261 data"

definition posttransform :: "int list \<Rightarrow> int list \<Rightarrow> int list res" where
  "posttransform values coefficients =
     (if length values \<notin> {128, 1024} \<or> length coefficients \<noteq> length values
      then Inl (ValueError ''post-transform requires complete short/long vector and coefficient halves'')
      else let half = length values div 2;
          real = map (\<lambda>i. wrap32 (partial_product (values ! (2 * i)) (coefficients ! i)
            - partial_product (values ! (2 * i + 1)) (coefficients ! (half + i)))) [0..<half];
          imag = map (\<lambda>i. wrap32 (partial_product (values ! (2 * i)) (coefficients ! (half + i))
            + partial_product (values ! (2 * i + 1)) (coefficients ! i))) [0..<half]
        in Inr (concat (map (\<lambda>(x, y). [x, y]) (zip real (rev imag)))))"

definition pretransform :: "int list \<Rightarrow> int list \<Rightarrow> int list res" where
  "pretransform values coefficients =
     (if length values \<notin> {128, 1024} \<or> length coefficients \<noteq> length values
      then Inl (ValueError ''pre-transform requires complete short/long vector and coefficient halves'')
      else let half = length values div 2
        in Inr (concat (map (\<lambda>i. let
            x = values ! (2 * i); y = values ! (length values - 1 - 2 * i);
            c = coefficients ! i; d = coefficients ! (half + i);
            real = drop_bit 1 (- drop_bit 3 (partial_product x c)) - drop_bit 1 (drop_bit 3 (partial_product y d));
            imag = drop_bit 1 (drop_bit 3 (partial_product y c)) - drop_bit 1 (drop_bit 3 (partial_product x d))
          in [wrap32 (push_bit 3 real), wrap32 (push_bit 3 imag)]) [0..<half])))"

definition reversed_index :: "nat \<Rightarrow> nat \<Rightarrow> nat" where
  "reversed_index bits i = nat (sum_list (map (\<lambda>b. push_bit (bits - 1 - b) (drop_bit b (int i) AND 1)) [0..<bits]))"

text \<open>\<open>(len(values) // 2).bit_length() - 1\<close> for the two lengths that pass the check.\<close>

definition complex_bits :: "int list \<Rightarrow> nat" where
  "complex_bits values = (if length values = 128 then 6 else 9)"

definition bit_reverse_complex :: "int list \<Rightarrow> int list res" where
  "bit_reverse_complex values =
     (if length values \<notin> {128, 1024} then Inl (ValueError ''bit reversal requires a complete supported complex vector'')
      else let bits = complex_bits values
        in Inr (concat (map (\<lambda>i. let r = reversed_index bits i in slice (2 * r) (2 * r + 2) values)
             [0..<length values div 2])))"

section \<open>Scaling and window\<close>

definition scale_vector :: "int list \<Rightarrow> int \<Rightarrow> int \<Rightarrow> int list res" where
  "scale_vector values first second =
     (if length values \<notin> {128, 1024} \<or> \<not> (u16 first \<and> u16 second)
      then Inl (ValueError ''scale requires a complete vector and two 16-bit arguments'')
      else let delta = signed16 first - signed16 second
        in Inr (map (\<lambda>value. wrap32 (if 0 \<le> delta then drop_bit (nat delta) value else push_bit (nat (- delta)) value)) values))"

definition window_pair :: "int list \<Rightarrow> int list \<Rightarrow> nat \<Rightarrow> int list \<Rightarrow> nat \<Rightarrow> int list" where
  "window_pair values coefficients half out i = (let
     left = values ! (half - 1 - i); right = values ! (half + i);
     c = coefficients ! i; d = coefficients ! (length coefficients - 1 - i)
   in out[half - 1 - i := wrap32 (partial_product left d - partial_product right c),
          half + i := wrap32 (partial_product right d + partial_product left c)])"

definition window_products :: "int list \<Rightarrow> int list \<Rightarrow> int list res" where
  "window_products values coefficients =
     (if length values \<notin> {128, 1024} \<or> length coefficients \<noteq> length values
      then Inl (ValueError ''window helper requires complete short/long operands'')
      else let half = length values div 2;
          out = foldl (window_pair values coefficients half) values [0..<half]
        in Inr (rev (take half out) @ rev (drop half out)))"

section \<open>Overlap\<close>

text \<open>The keys of \<open>TARGETS\<close>.\<close>

definition window_modes :: "int list" where
  "window_modes = [0, 1, 2, 3]"

definition history_word :: "int \<Rightarrow> int" where
  "history_word value = drop_bit 16 (value + 0x8000) AND 0xffff"

definition exchange :: "int list \<Rightarrow> int list \<Rightarrow> int \<Rightarrow> (int list \<times> int list) res" where
  "exchange values history mode = (let half = (if mode = 2 then 64 else 512) in
     if mode \<notin> set window_modes \<or> length history \<noteq> half \<or> length values \<noteq> 2 * half
     then Inl (ValueError ''unsupported callback buffer geometry'')
     else if \<not> list_all u16 history then Inl (ValueError ''history must contain 16-bit words'')
     else let carried = (\<lambda>w. push_bit 16 (signed16 w));
         saved = map history_word (take half values);
         out = (if mode = 3
           then slice_set 0 half (map carried history) (slice_set 896 960 (map carried (take 64 (rev history))) values)
           else slice_set 0 half (map carried (rev history)) values)
       in Inr (out, rev saved))"

definition final_tail :: "int list \<Rightarrow> int list \<Rightarrow> int list \<Rightarrow> int \<Rightarrow> (int list \<times> int list \<times> int list) res" where
  "final_tail raw history saved mode =
     (if length raw \<noteq> 1024 \<or> length history \<noteq> 512 \<or> length saved \<noteq> 128 \<or> mode \<notin> set window_modes
      then Inl (ValueError ''unsupported final-tail geometry'')
      else if mode = 2
      then let new_history = map history_word (drop 576 raw) @ drop 448 history
        in Inr (map (\<lambda>w. push_bit 16 (signed16 w)) (take 448 history) @ take 576 raw, new_history, take 128 raw)
      else if mode = 3
      then let new_saved = drop 896 raw;
          shifted = slice 512 896 raw @ take 64 saved;
          raw = slice_set 576 (length raw) (rev shifted) raw;
          raw = slice_set 448 576 new_saved raw
        in Inr (raw, history, new_saved)
      else Inr (raw, history, saved))"

section \<open>Filter iteration\<close>

definition wrap40 :: "int \<Rightarrow> int" where
  "wrap40 value = (value + push_bit 39 1) mod push_bit 40 1 - push_bit 39 1"

definition stored32 :: "int \<Rightarrow> int" where
  "stored32 value = max (- push_bit 31 1) (min (push_bit 31 1 - 1) value) AND 0xffffffff"

definition reference_iteration :: "int list \<Rightarrow> bool \<Rightarrow> int list res" where
  "reference_iteration r fractional =
     (if length r \<noteq> 25 \<or> \<not> list_all u16 r then Inl (ValueError ''filter iteration requires 25 16-bit bus operands'')
      else let factor = (if fractional then 2 else 1);
        a = push_bit 14 (signed16 (r ! 0));
        a = wrap40 (a + signed16 (r ! 1) * signed16 (r ! 2) * factor);
        b = wrap40 (r ! 3 * signed16 (r ! 4) * factor);
        a = wrap40 (a + signed16 (r ! 5) * signed16 (r ! 6) * factor);
        b = wrap40 (b + r ! 7 * signed16 (r ! 8) * factor);
        a = drop_bit 1 a; b = drop_bit 1 b;
        b = wrap40 (b + r ! 9 * signed16 (r ! 10) * factor);
        a = wrap40 (a + signed16 (r ! 11) * signed16 (r ! 12) * factor);
        b = wrap40 (b + r ! 13 * signed16 (r ! 14) * factor);
        b = wrap40 (b + r ! 15 * signed16 (r ! 16) * factor);
        a = wrap40 (a + signed16 (r ! 17) * signed16 (r ! 18) * factor);
        b = wrap40 (b + r ! 19 * signed16 (r ! 20) * factor);
        a = wrap40 (push_bit 2 (wrap40 (a + drop_bit 16 b)));
        state = stored32 (wrap40 (- a));
        low = state AND 0xffff; high = drop_bit 16 state
      in if r ! 22 \<noteq> low then Inl (ValueError ''actual low-state read differs from independent state update'')
        else let
          b = wrap40 (signed16 (r ! 21) * signed16 high * factor);
          a = wrap40 (a + push_bit 4 b);
          b = wrap40 (r ! 21 * r ! 22 * factor);
          a = wrap40 (a + drop_bit 12 b);
          a = wrap40 (a + push_bit 15 (signed16 (r ! 23)));
          b = wrap40 (signed16 (r ! 21) * signed16 (r ! 24) * factor);
          a = wrap40 (a + push_bit 3 b)
        in Inr [r ! 1, low, high, drop_bit 16 (stored32 a)])"

section \<open>Wrap-around\<close>

lemma wrap32_mod: "wrap32 v = (v + 2 ^ 31) mod 2 ^ 32 - 2 ^ 31"
  by (simp add: wrap32_def push_bit_eq_mult)

lemma wrap32_id: "- (2 ^ 31) \<le> v \<Longrightarrow> v < 2 ^ 31 \<Longrightarrow> wrap32 v = v"
  by (simp add: wrap32_mod)

lemma wrap32_range: "- (2 ^ 31) \<le> wrap32 v \<and> wrap32 v < 2 ^ 31"
  using pos_mod_bound [of "2 ^ 32" "v + 2 ^ 31"] by (simp add: wrap32_mod)

section \<open>The radix-4 stage\<close>

text \<open>Four times the inverse transform of four points in bit-reversed order, without rounding.\<close>

definition exact_dft4 :: "int list \<Rightarrow> int list" where
  "exact_dft4 v = (let r0 = v ! 0; i0 = v ! 1; r1 = v ! 2; i1 = v ! 3; r2 = v ! 4; i2 = v ! 5; r3 = v ! 6; i3 = v ! 7
   in [r0 + r1 + r2 + r3, i0 + i1 + i2 + i3, r0 - r1 - i2 + i3, i0 - i1 + r2 - r3,
       r0 + r1 - r2 - r3, i0 + i1 - i2 - i3, r0 - r1 + i2 - i3, i0 - i1 - r2 + r3])"

lemma drop_2_bounds: "x - 3 \<le> 4 * drop_bit 2 x \<and> 4 * drop_bit 2 x \<le> x" for x :: int
  by (simp add: drop_bit_eq_div) presburger

lemma drop_1_bounds: "x - 1 \<le> 2 * drop_bit 1 x \<and> 2 * drop_bit 1 x \<le> x" for x :: int
  by (simp add: drop_bit_eq_div) presburger

definition near_quarter :: "int \<Rightarrow> int \<Rightarrow> bool" where
  "near_quarter q exact \<longleftrightarrow> \<bar>4 * q - exact\<bar> \<le> 6"

lemma near_quarter_wrap:
  "near_quarter q exact \<Longrightarrow> \<bar>exact\<bar> \<le> 4 * (2 ^ 31 - 2) \<Longrightarrow> near_quarter (wrap32 q) exact"
  by (subst wrap32_id) (auto simp: near_quarter_def)

lemma near_quarter_rules:
  "e = a \<Longrightarrow> near_quarter (drop_bit 2 a) e"
  "e = a + b \<Longrightarrow> near_quarter (drop_bit 2 (a + 4 * drop_bit 2 b)) e"
  "e = a - b \<Longrightarrow> near_quarter (drop_bit 2 (a - 4 * drop_bit 2 b)) e"
  "e = a - b \<Longrightarrow> near_quarter (drop_bit 2 a - drop_bit 2 b) e"
  "e = a + b \<Longrightarrow> near_quarter (drop_bit 2 a - drop_bit 2 b + drop_bit 1 b) e"
  using drop_2_bounds [of a] drop_2_bounds [of b] drop_2_bounds [of "a + 4 * drop_bit 2 b"]
    drop_2_bounds [of "a - 4 * drop_bit 2 b"] drop_1_bounds [of b]
  by (simp_all only: near_quarter_def abs_le_iff right_diff_distrib distrib_left) (elim conjE; intro conjI; linarith)+

lemma radix4_group_near:
  assumes "\<And>k. k < 8 \<Longrightarrow> \<bar>v ! k\<bar> \<le> 2 ^ 31 - 2"
  shows "list_all2 near_quarter (map wrap32 (radix4_group v)) (exact_dft4 v)"
proof -
  have "list_all2 near_quarter (radix4_group v) (exact_dft4 v)"
    unfolding radix4_group_def exact_dft4_def Let_def list_all2_Cons list_all2_Nil
    by (intro conjI refl near_quarter_rules(5) near_quarter_rules(4) near_quarter_rules(3) near_quarter_rules(2)
      near_quarter_rules(1) | simp)+
  moreover have "list_all (\<lambda>e. \<bar>e\<bar> \<le> 4 * (2 ^ 31 - 2)) (exact_dft4 v)"
    using assms [of 0] assms [of 1] assms [of 2] assms [of 3] assms [of 4] assms [of 5] assms [of 6] assms [of 7]
    unfolding exact_dft4_def Let_def list.pred_inject abs_le_iff by (intro conjI TrueI; simp)
  ultimately show ?thesis
    by (auto simp: list_all2_conv_all_nth list_all_length intro!: near_quarter_wrap)
qed

lemma list_all2_concat_map:
  "(\<And>x. x \<in> set xs \<Longrightarrow> list_all2 R (f x) (g x)) \<Longrightarrow> list_all2 R (concat (map f xs)) (concat (map g xs))"
  by (induction xs) (auto intro!: list_all2_appendI)

text \<open>C29: The radix-4 stage computes the inverse transform of every group of four points, divided by
  four: no component of a vector of 32-bit integers wraps around unless it is at the very end of the range,
  and the four truncations cost less than two units.\<close>
theorem radix4_accurate:
  assumes "values \<noteq> []" and "length values mod 8 = 0" and "list_all (\<lambda>v. \<bar>v\<bar> \<le> 2 ^ 31 - 2) values"
  shows "\<exists>out. radix4 values = Inr out \<and>
    list_all2 near_quarter out (concat (map (\<lambda>k. exact_dft4 (slice (8 * k) (8 * k + 8) values)) [0..<length values div 8]))"
proof -
  have "\<bar>slice (8 * k) (8 * k + 8) values ! i\<bar> \<le> 2 ^ 31 - 2" if "k < length values div 8" "i < 8" for k i
  proof -
    have "8 * Suc k \<le> 8 * (length values div 8)" using that(1) by (intro mult_le_mono2) simp
    then have "8 * k + i < length values" using that(2) times_div_less_eq_dividend [of 8 "length values"] unfolding mult_Suc_right by linarith
    then show ?thesis using that(2) assms(3) by (simp add: nth_slice list_all_length)
  qed
  then have "list_all2 near_quarter (concat (map (\<lambda>k. map wrap32 (radix4_group (slice (8 * k) (8 * k + 8) values))) [0..<length values div 8]))
      (concat (map (\<lambda>k. exact_dft4 (slice (8 * k) (8 * k + 8) values)) [0..<length values div 8]))"
    by (intro list_all2_concat_map radix4_group_near) auto
  then show ?thesis using assms(1,2) by (simp add: radix4_def map_concat comp_def)
qed

lemma radix4_accurate_witness:
  "\<exists>out. radix4 [2147483646, -5, 2147483646, 7, 2147483646, 0, 2147483646, -2147483646] = Inr out \<and>
    list_all2 near_quarter out (concat (map (\<lambda>k. exact_dft4 (slice (8 * k) (8 * k + 8)
      [2147483646, -5, 2147483646, 7, 2147483646, 0, 2147483646, -2147483646])) [0..<1]))"
  using radix4_accurate [of "[2147483646, -5, 2147483646, 7, 2147483646, 0, 2147483646, -2147483646]"] by simp

section \<open>The snapshot hash\<close>

abbreviation fnv_step :: "int \<Rightarrow> byte \<Rightarrow> int" where
  "fnv_step result b \<equiv> ((result XOR uint b) * 16777619) AND 0xffffffff"

lemma and_32: "x AND 0xffffffff = x mod 2 ^ 32" for x :: int
  using take_bit_eq_mask [of 32 x] by (simp add: take_bit_eq_mod mask_eq_exp_minus_1)

lemma xor_byte_range: "0 \<le> r \<Longrightarrow> r < 2 ^ 32 \<Longrightarrow> 0 \<le> r XOR uint (b :: byte) \<and> r XOR uint b < 2 ^ 32"
  using byte_bound [of b] XOR_upper [of r 32 "uint b"] XOR_lower [of r "uint b"] by simp

lemma fnv_step_range: "0 \<le> fnv_step r b \<and> fnv_step r b < 2 ^ 32"
  unfolding and_32 by simp

text \<open>The prime is odd, so multiplying by it modulo \<open>2\<^sup>3\<^sup>2\<close> loses nothing: 899433627 undoes it.\<close>

lemma fnv_prime_inverse:
  assumes "0 \<le> x" "x < 2 ^ 32"
  shows "((x * 16777619) mod 2 ^ 32 * 899433627) mod 2 ^ 32 = (x :: int)"
proof -
  have "((x * 16777619) mod 2 ^ 32 * 899433627) mod 2 ^ 32 = (x * (16777619 * 899433627 mod 2 ^ 32)) mod 2 ^ 32"
    by (simp only: mod_mult_left_eq mod_mult_right_eq mult.assoc)
  also have "\<dots> = x" using assms by simp
  finally show ?thesis .
qed

lemma fnv_step_inj:
  assumes "0 \<le> r" "r < 2 ^ 32" "0 \<le> s" "s < 2 ^ 32" "fnv_step r b = fnv_step s c"
  shows "r XOR uint b = s XOR uint c"
  using assms(5) fnv_prime_inverse [of "r XOR uint b"] fnv_prime_inverse [of "s XOR uint c"]
    xor_byte_range [OF assms(1,2), of b] xor_byte_range [OF assms(3,4), of c]
  unfolding and_32 by metis

lemma fnv_tail_inj:
  "0 \<le> r \<Longrightarrow> r < 2 ^ 32 \<Longrightarrow> 0 \<le> s \<Longrightarrow> s < 2 ^ 32 \<Longrightarrow> foldl fnv_step r ys = foldl fnv_step s ys \<Longrightarrow> r = s"
proof (induction ys arbitrary: r s)
  case (Cons y ys)
  have "fnv_step r y = fnv_step s y"
    using Cons.IH [of "fnv_step r y" "fnv_step s y"] Cons.prems(5) fnv_step_range [of r y] fnv_step_range [of s y] by simp
  then have "r XOR uint y = s XOR uint y" using fnv_step_inj Cons.prems(1-4) by blast
  then show ?case by (metis xor.assoc xor.right_neutral xor_self_eq)
qed simp

text \<open>The hash of a snapshot tells two snapshots apart that differ in one byte, wherever it is.\<close>
theorem fnv_detects_byte: "fnv (xs @ b # ys) = fnv (xs @ c # ys) \<longleftrightarrow> b = c"
proof
  assume eq: "fnv (xs @ b # ys) = fnv (xs @ c # ys)"
  define r where "r = foldl fnv_step 2166136261 xs"
  have r: "0 \<le> r" "r < 2 ^ 32" unfolding r_def
    by (cases xs rule: rev_cases; simp only: foldl_Nil foldl_append foldl_Cons fnv_step_range; simp)+
  have "fnv_step r b = fnv_step r c"
    using eq fnv_tail_inj [of "fnv_step r b" "fnv_step r c" ys] fnv_step_range [of r b] fnv_step_range [of r c]
    by (simp add: fnv_def r_def)
  then have "r XOR uint b = r XOR uint c" using fnv_step_inj [OF r r] by blast
  then have "uint b = uint c" by (metis xor.assoc xor.left_neutral xor_self_eq)
  then show "b = c" by (rule word_uint_eqI)
qed simp

section \<open>Bit reversal\<close>

lemma rev_upt_0: "rev [0..<n] = map (\<lambda>k. n - 1 - k) [0..<n]"
  by (rule nth_equalityI) (simp_all add: rev_nth)

lemma int_reversed_index: "int (reversed_index n i) = from_bits n (\<lambda>k. bit i (n - 1 - k))"
proof -
  have "sum_list (map (\<lambda>b. push_bit (n - 1 - b) (drop_bit b (int i) AND 1)) [0..<n]) =
      sum_list (rev (map (\<lambda>b. push_bit (n - 1 - b) (of_bool (bit i b))) [0..<n]))"
    by (simp only: sum_list_rev drop_bit_and_1 bit_of_nat_iff_bit)
  also have "\<dots> = from_bits n (\<lambda>k. bit i (n - 1 - k))"
    unfolding from_bits_def rev_map rev_upt_0 by (intro arg_cong [where f = sum_list]) auto
  finally show ?thesis using from_bits_take_bit [of n] by (metis take_bit_nonnegative int_nat_eq reversed_index_def)
qed

lemma reversed_index_involution:
  assumes "i < 2 ^ n"
  shows "reversed_index n i < 2 ^ n" "reversed_index n (reversed_index n i) = i"
proof -
  have b: "bit (reversed_index n j) k \<longleftrightarrow> k < n \<and> bit j (n - 1 - k)" for j k
    using int_reversed_index [of n j] by (metis bit_from_bits bit_of_nat_iff_bit)
  have i: "k < n" if "bit i k" for k
    using that assms by (metis bit_take_bit_iff take_bit_nat_eq_self_iff)
  show "reversed_index n i < 2 ^ n"
    by (metis b bit_take_bit_iff bit_eqI take_bit_nat_eq_self_iff)
  show "reversed_index n (reversed_index n i) = i"
  proof (rule bit_eqI)
    fix k
    show "bit (reversed_index n (reversed_index n i)) k \<longleftrightarrow> bit i k"
      using i [of k] by (cases "k < n") (auto simp: b)
  qed
qed

definition permuted_pairs :: "(nat \<Rightarrow> nat) \<Rightarrow> int list \<Rightarrow> int list" where
  "permuted_pairs f values = concat (map (\<lambda>i. slice (2 * f i) (2 * f i + 2) values) [0..<length values div 2])"

lemma slice_pair: "2 * r + 1 < length v \<Longrightarrow> slice (2 * r) (2 * r + 2) v = [v ! (2 * r), v ! (2 * r + 1)]"
  by (rule nth_equalityI) (auto simp: nth_slice less_Suc_eq numeral_2_eq_2)

lemma permuted_pairs_nth:
  assumes "even (length v)" "\<And>i. i < length v div 2 \<Longrightarrow> f i < length v div 2"
  shows "length (permuted_pairs f v) = length v"
    and "i < length v div 2 \<Longrightarrow> permuted_pairs f v ! (2 * i) = v ! (2 * f i)"
    and "i < length v div 2 \<Longrightarrow> permuted_pairs f v ! (2 * i + 1) = v ! (2 * f i + 1)"
proof -
  have "2 * f i + 1 < length v" if "i < length v div 2" for i
    using assms(1) assms(2) [OF that] by presburger
  then have eq: "permuted_pairs f v = concat (map (\<lambda>i. [v ! (2 * f i), v ! (2 * f i + 1)]) [0..<length v div 2])"
    unfolding permuted_pairs_def by (intro arg_cong [where f = concat] map_cong refl slice_pair) auto
  show "length (permuted_pairs f v) = length v"
    unfolding eq length_concat_pairs using assms(1) by simp
  show "i < length v div 2 \<Longrightarrow> permuted_pairs f v ! (2 * i) = v ! (2 * f i)"
    "i < length v div 2 \<Longrightarrow> permuted_pairs f v ! (2 * i + 1) = v ! (2 * f i + 1)"
    using concat_pairs_nth [of i "[0..<length v div 2]" "\<lambda>i. v ! (2 * f i)" "\<lambda>i. v ! (2 * f i + 1)"]
    unfolding eq by simp_all
qed

lemma permuted_pairs_twice:
  assumes "even (length v)" "\<And>i. i < length v div 2 \<Longrightarrow> f i < length v div 2 \<and> f (f i) = i"
  shows "permuted_pairs f (permuted_pairs f v) = v"
proof (rule nth_equalityI)
  note p = permuted_pairs_nth [OF assms(1), of f]
  have l: "length (permuted_pairs f v) = length v" using p(1) assms(2) by blast
  have l2: "length (permuted_pairs f (permuted_pairs f v)) = length v"
    using permuted_pairs_nth(1) [of "permuted_pairs f v" f] assms l by simp
  then show "length (permuted_pairs f (permuted_pairs f v)) = length v" .
  note q = permuted_pairs_nth [of "permuted_pairs f v" f, unfolded l, OF assms(1)]
  fix k assume "k < length (permuted_pairs f (permuted_pairs f v))"
  then have k: "k < length v" using l2 by simp
  show "permuted_pairs f (permuted_pairs f v) ! k = v ! k"
  proof (cases "even k")
    case True
    then obtain i where i: "k = 2 * i" by blast
    have "i < length v div 2" using k i assms(1) by presburger
    then show ?thesis using q(2) [of i] p(2) [of "f i"] assms(2) i by simp
  next
    case False
    then obtain i where i: "k = 2 * i + 1" by (rule oddE)
    have "i < length v div 2" using k i assms(1) by presburger
    then show ?thesis using q(3) [of i] p(3) [of "f i"] assms(2) i by simp
  qed
qed

text \<open>Reversing the bits of the positions twice gives the vector back, for the short and the long
  transform; any other length is refused.\<close>
theorem bit_reversal_involution:
  "rbind (bit_reverse_complex values) bit_reverse_complex =
     (if length values = 128 \<or> length values = 1024 then Inr values
      else Inl (ValueError ''bit reversal requires a complete supported complex vector''))"
proof -
  define f where "f = reversed_index (complex_bits values)"
  have rev_eq: "bit_reverse_complex v = Inr (permuted_pairs f v)"
    if "length v = length values" "length values = 128 \<or> length values = 1024" for v
    using that by (auto simp: bit_reverse_complex_def permuted_pairs_def f_def complex_bits_def Let_def)
  have ok: "f i < length values div 2 \<and> f (f i) = i"
    if "length values = 128 \<or> length values = 1024" "i < length values div 2" for i
    using that reversed_index_involution [of i 6] reversed_index_involution [of i 9] by (auto simp: f_def complex_bits_def)
  show ?thesis
  proof (cases "length values = 128 \<or> length values = 1024")
    case True
    then have ev: "even (length values)" by auto
    have "length (permuted_pairs f values) = length values"
      using permuted_pairs_nth(1) [OF ev] ok [OF True] by blast
    then show ?thesis using True rev_eq [OF refl True] rev_eq [OF _ True] permuted_pairs_twice [OF ev] ok [OF True] by simp
  qed (simp add: bit_reverse_complex_def)
qed

section \<open>The overlap carry\<close>

lemma sign_bit_16: "0 \<le> x \<Longrightarrow> x < 65536 \<Longrightarrow> x AND 0x8000 \<noteq> 0 \<longleftrightarrow> 0x8000 \<le> x" for x :: int
proof -
  assume x: "0 \<le> x" "x < 65536"
  have "x AND 0x8000 \<noteq> 0 \<longleftrightarrow> odd (x div 32768)"
    using bit_and_nonzero [of x 15] by (simp add: push_bit_eq_mult bit_iff_odd)
  moreover have "x div 32768 = (if 0x8000 \<le> x then 1 else 0)"
    using x int_div_pos_eq [of x 32768 1 "x - 32768"] by simp
  ultimately have "x AND 0x8000 \<noteq> 0 \<longleftrightarrow> 0x8000 \<le> x" by simp
  then show "x AND 0x8000 \<noteq> 0 \<longleftrightarrow> 0x8000 \<le> x" .
qed

lemma signed16_history: "push_bit 16 (signed16 (history_word v)) = wrap32 (65536 * ((v + 0x8000) div 65536))"
proof -
  define q where "q = (v + 0x8000) div 65536"
  have h: "history_word v = q mod 65536"
    using take_bit_eq_mask [of 16 q]
    by (simp add: history_word_def q_def drop_bit_eq_div take_bit_eq_mod mask_eq_exp_minus_1)
  have sign: "(q mod 65536) AND 0x8000 \<noteq> 0 \<longleftrightarrow> 0x8000 \<le> q mod 65536" by (rule sign_bit_16) simp_all
  have "(65536 * q + 2 ^ 31) mod 2 ^ 32 = 65536 * ((q + 0x8000) mod 65536)"
    using mult_mod_right [of 65536 "q + 0x8000" 65536] by (simp add: algebra_simps)
  moreover have "(q + 0x8000) mod 65536 = (if 0x8000 \<le> q mod 65536 then q mod 65536 - 0x8000 else q mod 65536 + 0x8000)"
    using mod_add_left_eq [of q 65536 "0x8000"] mod_add_self2 [of "q mod 65536 - 0x8000" 65536]
      pos_mod_bound [of 65536 q] pos_mod_sign [of 65536 q] by (auto simp: add.commute)
  ultimately show ?thesis
    by (simp add: signed16_def h sign wrap32_mod push_bit_eq_mult flip: q_def)
qed

lemma history_word_u16: "u16 (history_word v)"
  using take_bit_eq_mask [of 16 "drop_bit 16 (v + 0x8000)"] take_bit_int_less_exp [of 16 "drop_bit 16 (v + 0x8000)"]
  by (simp add: history_word_def mask_eq_exp_minus_1)

text \<open>The geometry of a window callback: the mode chooses how much history there is.\<close>

definition exchange_ok :: "int list \<Rightarrow> int list \<Rightarrow> int \<Rightarrow> bool" where
  "exchange_ok values history mode \<longleftrightarrow> mode \<in> {0, 1, 2, 3} \<and> length history = (if mode = 2 then 64 else 512)
     \<and> length values = 2 * length history \<and> list_all u16 history"

lemma exchange_Inr:
  "exchange_ok values history mode \<Longrightarrow> exchange values history mode = (let half = length history in
     Inr (slice_set 0 half (map (\<lambda>w. push_bit 16 (signed16 w)) (if mode = 3 then history else rev history))
            (if mode = 3 then slice_set 896 960 (map (\<lambda>w. push_bit 16 (signed16 w)) (take 64 (rev history))) values else values),
          rev (map history_word (take half values))))"
  by (auto simp: exchange_def exchange_ok_def window_modes_def Let_def)

lemma exchange_Inl: "\<not> exchange_ok values history mode \<Longrightarrow> \<exists>e. exchange values history mode = Inl e"
  by (auto simp: exchange_def exchange_ok_def window_modes_def Let_def)

text \<open>The exchange of a window callback delays the first half of a block by one call: the next call of the
  same mode puts it back, each component rounded to a multiple of 65536 and wrapped to 32 bits, in order (in mode 3
  reversed), and an exchange is refused only for a geometry that is not supported.\<close>
theorem exchange_delays_block:
  "case exchange v h mode of
     Inl _ \<Rightarrow> \<not> exchange_ok v h mode
   | Inr (out, h') \<Rightarrow> (case exchange v' h' mode of
       Inl _ \<Rightarrow> length v' \<noteq> length v
     | Inr (out', h'') \<Rightarrow> take (length h) out' =
         (if mode = 3 then rev else id) (map (\<lambda>x. wrap32 (65536 * ((x + 0x8000) div 65536))) (take (length h) v)))"
proof (cases "exchange_ok v h mode")
  case True
  define h' where "h' = rev (map history_word (take (length h) v))"
  obtain out where first: "exchange v h mode = Inr (out, h')"
    using exchange_Inr [OF True] by (auto simp: Let_def h'_def)
  have len: "length h' = length h" using True by (simp add: h'_def exchange_ok_def)
  have u: "list_all u16 h'" using history_word_u16 by (auto simp: h'_def list_all_iff)
  show ?thesis
  proof (cases "length v' = length v")
    case same: True
    have ok: "exchange_ok v' h' mode" using True len u same unfolding exchange_ok_def by simp
    have "map (\<lambda>w. push_bit 16 (signed16 w)) h' = rev (map (\<lambda>x. wrap32 (65536 * ((x + 0x8000) div 65536))) (take (length h) v))"
      by (simp add: h'_def rev_map comp_def signed16_history)
    moreover have "take (length h) (slice_set 0 (length h) (map f (if mode = 3 then h' else rev h')) xs)
        = (if mode = 3 then map f h' else rev (map f h'))" for f :: "int \<Rightarrow> int" and xs
      using len by (simp add: slice_set_def rev_map)
    ultimately show ?thesis by (simp add: first exchange_Inr [OF ok] Let_def len)
  next
    case False
    then have "\<not> exchange_ok v' h' mode" using True len unfolding exchange_ok_def by auto
    then show ?thesis using first False exchange_Inl by fastforce
  qed
next
  case False
  then show ?thesis using exchange_Inl [OF False] by auto
qed

end
