(* ===== verification/Record_Profiles.thy ===== *)
theory Record_Profiles
  imports Rom4_Records Py_Dict
begin

text \<open>
  Diagnostic storage images around the published lock records of \<open>tools/dct3_lock_record_example.py\<close>: the
  NSK-1 profile (\<open>tools/nsk1_record_profile.py\<close>), the NSK-3 repair and record profile
  (\<open>tools/make_nsk3_checksum_profile.py\<close>, \<open>tools/make_nsk3_record_profile.py\<close>), the NSM-1 record profile
  (\<open>tools/make_nsm1_record_profile.py\<close>), the NSE-6 integrity fixture (\<open>tools/nse6_integrity_fixture.py\<close>) and
  the EEPROM descriptor (\<open>tools/dct3_eeprom_descriptor.py\<close>).
\<close>

section \<open>The published records\<close>

definition EXAMPLE_RECORDS :: bytes where
  "EXAMPLE_RECORDS =
     [0x00, 0x10, 0x10, 0x00, 0x00, 0x00, 0x00, 0x10, 0x00, 0x79, 0x54, 0xc2,
      0x00, 0x00, 0x00, 0x00, 0x29, 0x00, 0x00, 0x00, 0x00, 0x00, 0x54, 0xc2]"

text \<open>\<open>b''.join(encode_record(EXAMPLE_RECORDS[i:i+12], chip) for i in (0, 12))\<close>, which three tools compute.\<close>

definition encoded_example :: "bytes \<Rightarrow> bytes res" where
  "encoded_example chip = rmap concat (rmap_list (\<lambda>i. encode_record (slice i (i + 12) EXAMPLE_RECORDS) chip) [0, 12])"

definition low_block_sum :: "bytes \<Rightarrow> bytes res" where
  "low_block_sum img = to_be 4 (byte_sum (take 0x3c img) AND 0xffff)"

section \<open>NSK-1\<close>

definition repair_security_checksum :: "bytes \<Rightarrow> bytes res" where
  "repair_security_checksum img =
     (if length img \<noteq> 2048 then Inl (ValueError ''security checksum requires own 2048-byte EEPROM'')
      else rbind (to_be 2 ((byte_sum (slice 0x40 0x11e img) - byte_sum (slice 0x74 0x76 img)) AND 0xffff)) (\<lambda>checksum.
        Inr (slice_set 0x11e 0x120 checksum img)))"

definition nsk1_build_profile :: "bytes \<Rightarrow> bytes res" where
  "nsk1_build_profile chip = (let img = replicate 2048 255 in
     rbind (encoded_example chip) (\<lambda>encoded.
     rbind (retained_record_transform encoded (take 12 img)) (\<lambda>records.
       let img = slice_set 0x20 0x38 records img in
     rbind (low_block_sum img) (\<lambda>checksum. Inr (slice_set 0x3c 0x40 checksum img)))))"

text \<open>The retry contract of the flash image: the offsets that it reads and checks.\<close>

record phone_code =
  pc_validator :: int
  pc_retry_gate :: int
  pc_retry_read :: int
  pc_retry_ram :: int
  pc_retry_eeprom :: nat
  pc_code_eeprom :: nat

definition flash_word :: "bytes \<Rightarrow> int \<Rightarrow> int \<Rightarrow> int res" where
  "flash_word img shift address = (let offset = address + shift - 0x200000 in
     if offset < 0 \<or> int (length img) < offset + 4 then Inl (ValueError ''phone-code literal outside image'')
     else Inr (from_be (slice (nat offset) (nat offset + 4) img)))"

definition code_record :: "bytes \<Rightarrow> nat \<Rightarrow> int \<Rightarrow> nat \<Rightarrow> (nat \<times> nat) res" where
  "code_record img base index extent = (let at = base + nat index * 8;
       identifier = from_be (slice at (at + 4) img);
       offset = nat (from_be (slice (at + 4) (at + 6) img));
       len = nat (from_be (slice (at + 6) (at + 8) img))
     in if identifier \<noteq> 0x700 + index \<or> len \<noteq> extent \<or> 2048 < offset + len
        then Inl (ValueError ''own security record identity or extent differs'') else Inr (offset, len))"

definition phonecode_contract :: "bytes \<Rightarrow> string \<Rightarrow> phone_code res" where
  "phonecode_contract img variant =
     rbind (if variant = ''standard'' then Inr 0 else if variant = ''2915'' then Inr (- 0x10) else Inl KeyError) (\<lambda>shift.
     let start = nat (0x8f4e0 + shift) in
     if slice start (start + 12) img \<noteq> [0xb5, 0x10, 0x49, 0x3e, 0x78, 0x09, 0x29, 0x05, 0xdb, 0x05, 0x20, 0x2c]
     then Inl (ValueError ''own phone-code retry gate differs'')
     else rbind (flash_word img shift 0x28f5e8) (\<lambda>identifier.
     if identifier \<noteq> 0x709 then Inl (ValueError ''own retry record identifier differs'')
     else rbind (flash_word img shift 0x28ca64) (\<lambda>directory.
     let group = directory - 0x200000 + 7 * 8 in
     if group < 0 \<or> int (length img) < group + 8 then Inl (ValueError ''own security directory outside image'')
     else let at = nat group; pointer = from_be (slice at (at + 4) img);
         limit = from_be (slice (at + 4) (at + 6) img); base = pointer - 0x200000 in
     if limit < 9 \<or> base < 0 \<or> int (length img) < base + (limit + 1) * 8
     then Inl (ValueError ''own security records outside image'')
     else rbind (code_record img (nat base) 1 8) (\<lambda>r1.
     rbind (code_record img (nat base) 8 4) (\<lambda>r8.
     rbind (code_record img (nat base) 9 1) (\<lambda>r9.
     rbind (flash_word img shift 0x28f5d4) (\<lambda>context.
     rbind (flash_word img shift 0x28f5dc) (\<lambda>retry.
     if \<not> (0x100000 \<le> context \<and> context \<le> 0x110000 - 8) \<or> retry \<noteq> context + 4 \<or> fst r8 \<noteq> fst r1 \<or> fst r9 \<noteq> fst r1 + 4
     then Inl (ValueError ''own retry field does not match security context'')
     else Inr \<lparr>pc_validator = 0x28f534 + shift, pc_retry_gate = 0x28f4e0 + shift, pc_retry_read = 0x28f4e4 + shift,
       pc_retry_ram = retry, pc_retry_eeprom = fst r9, pc_code_eeprom = fst r8\<rparr>))))))))"

definition initialize_phone_retry :: "bytes \<Rightarrow> bytes \<Rightarrow> bytes res" where
  "initialize_phone_retry img flash =
     (if length img \<noteq> 2048 then Inl (ValueError ''phone retry fixture requires own 2048-byte EEPROM'')
      else rbind (phonecode_contract flash ''standard'') (\<lambda>contract. Inr (img[pc_retry_eeprom contract := 0])))"

section \<open>NSK-3\<close>

definition NATIVE_EEPROM :: string where
  "NATIVE_EEPROM = ''f38a6e39f434ba557fd9e38419cef6bbcc5eead70211175091fb8254c55b7130''"

definition nsk3_repair :: "bytes \<Rightarrow> bool \<Rightarrow> bytes res" where
  "nsk3_repair img low_block =
     (if length img \<noteq> 8192 \<or> sha256_hex img \<noteq> NATIVE_EEPROM
      then Inl (ValueError ''requires qualified own erased-source NSK-3 initialized EEPROM'')
      else rbind (to_be 2 ((byte_sum (slice 0x40 0x11e img) - byte_sum (slice 0x74 0x76 img)) AND 0xffff)) (\<lambda>checksum.
        let result = slice_set 0x11e 0x120 checksum img in
        if low_block then rbind (low_block_sum img) (\<lambda>low. Inr (slice_set 0x3c 0x40 low result)) else Inr result))"

text \<open>What \<open>build\<close> writes over the repaired img.\<close>

definition nsk3_build :: "bytes \<Rightarrow> bytes \<Rightarrow> bytes res" where
  "nsk3_build img chip =
     rbind (nsk3_repair img True) (\<lambda>result.
     rbind (encoded_example chip) (\<lambda>encoded.
     rbind (retained_record_transform encoded (take 12 img)) (\<lambda>records.
       let result = slice_set 0x20 0x38 records result in
     rbind (low_block_sum result) (\<lambda>checksum. Inr (slice_set 0x3c 0x40 checksum result)))))"

section \<open>NSM-1\<close>

definition nsm1_build :: "bytes \<Rightarrow> bytes \<Rightarrow> bytes res" where
  "nsm1_build before chip =
     (if length before \<noteq> 0x4000 then Inl (ValueError ''NSM-1 EEPROM extent differs'')
      else if chip \<noteq> [0x00, 0x16, 0x00, 0x10] then Inl (ValueError ''unexpected measured compatibility chip field'')
      else rbind (encoded_example chip) (\<lambda>encoded.
        rbind (retained_record_transform encoded (take 12 before)) (\<lambda>records.
          let result = slice_set 0x20 0x38 records before in
        rbind (low_block_sum result) (\<lambda>checksum. Inr (slice_set 0x3c 0x40 checksum result)))))"

section \<open>NSE-6\<close>

definition integrity_arithmetic :: "bytes \<Rightarrow> int \<Rightarrow> int res" where
  "integrity_arithmetic block excluded_word =
     (if length block \<notin> {0xDE, 0x9E} \<or> \<not> u16 excluded_word then Inl (ValueError ''unsupported NSE-6 integrity arithmetic input'')
      else Inr ((byte_sum block - drop_bit 8 excluded_word - (excluded_word AND 0xFF)) AND 0xFFFF))"

definition nse6_fixture :: "bool \<Rightarrow> bool \<Rightarrow> bytes res" where
  "nse6_fixture config_integrity initialized_retry = (let img = replicate 0x8000 0xff in
     rbind (integrity_arithmetic (slice 0x40 0x11E img) (from_be (slice 0x74 0x76 img))) (\<lambda>checksum.
     rbind (to_be 2 checksum) (\<lambda>field. let img = slice_set 0x11E 0x120 field img in
     rbind (if config_integrity then rmap (\<lambda>low. slice_set 0x3C 0x40 low img) (to_be 4 (byte_sum (take 0x3C img))) else Inr img) (\<lambda>img.
     Inr (if initialized_retry then img[0x17F8 := 0] else img)))))"

section \<open>The EEPROM descriptor\<close>

record eeprom_shape =
  es_address_bytes :: nat
  es_page_bytes :: nat
  es_capacity_bytes :: nat

definition eeprom_geometry :: "int \<Rightarrow> eeprom_shape res" where
  "eeprom_geometry descriptor =
     (if \<not> (0 \<le> descriptor \<and> descriptor \<le> 0xff) then Inl (ValueError ''EEPROM descriptor must be one byte'')
      else let page_shift = (drop_bit 3 descriptor AND 7) - 1 in
        if page_shift < 0 then Inl (ValueError ''EEPROM descriptor has an invalid page shift'')
        else Inr \<lparr>es_address_bytes = (if descriptor AND 0x40 \<noteq> 0 then 2 else 1),
          es_page_bytes = push_bit (nat page_shift) 1, es_capacity_bytes = push_bit (nat ((descriptor AND 7) + 9)) 1\<rparr>)"

section \<open>The low block\<close>

text \<open>How a handset reads the low block of an image: the BE32 checksum field is the sum below it, and the two
  records, without the retained pad of the first twelve bytes, decode with the chip field to the given records.\<close>

definition low_block_valid :: "bytes \<Rightarrow> bool" where
  "low_block_valid img \<longleftrightarrow> from_be (slice 0x3c 0x40 img) = byte_sum (take 0x3c img) AND 0xffff"

definition lock_records_of :: "bytes \<Rightarrow> bytes \<Rightarrow> bytes res" where
  "lock_records_of img chip =
     rbind (retained_record_transform (slice 0x20 0x38 img) (take 12 img)) (\<lambda>records.
       rmap concat (rmap_list (\<lambda>i. decode_record (slice i (i + 12) records) chip) [0, 12]))"

text \<open>What all three tools do with an image of at least 64 bytes: the records go to \<open>20..37\<close> under the pad, the
  checksum to \<open>3c..3f\<close>.\<close>

definition provision_low_block :: "bytes \<Rightarrow> bytes \<Rightarrow> bytes res" where
  "provision_low_block img chip =
     rbind (encoded_example chip) (\<lambda>encoded.
     rbind (retained_record_transform encoded (take 12 img)) (\<lambda>records.
       let result = slice_set 0x20 0x38 records img in
     rbind (low_block_sum result) (\<lambda>checksum. Inr (slice_set 0x3c 0x40 checksum result))))"

lemma slice_0 [simp]: "slice 0 n xs = take n xs"
  by (simp add: slice_def)

lemma and_16: "0 \<le> x AND 0xffff" "x AND 0xffff < 0x10000" for x :: int
  using take_bit_eq_mask [of 16 x] take_bit_nonnegative [of 16 x] take_bit_int_less_exp [of 16 x]
  by (simp_all add: mask_eq_exp_minus_1)

lemma low_block_sum_Inr: "\<exists>low. low_block_sum img = Inr low \<and> length low = 4 \<and> from_be low = byte_sum (take 0x3c img) AND 0xffff"
proof -
  have "byte_sum (take 0x3c img) AND 0xffff < 256 ^ 4" using and_16(2) [of "byte_sum (take 0x3c img)"] by simp
  then obtain low where l: "low_block_sum img = Inr low" using and_16(1) by (auto simp: low_block_sum_def to_be_def)
  then show ?thesis using from_be_to_be by (auto simp: low_block_sum_def)
qed

lemma encoded_example_Inr:
  assumes "length chip = 4"
  obtains e1 e2 where "encoded_example chip = Inr (e1 @ e2)" "length e1 = 12" "length e2 = 12"
    "decode_record e1 chip = Inr (take 12 EXAMPLE_RECORDS)" "decode_record e2 chip = Inr (drop 12 EXAMPLE_RECORDS)"
proof -
  have l: "length (take 12 EXAMPLE_RECORDS) = 12" "length (drop 12 EXAMPLE_RECORDS) = 12" "slice 12 24 EXAMPLE_RECORDS = drop 12 EXAMPLE_RECORDS"
    by (simp_all add: EXAMPLE_RECORDS_def slice_def)
  obtain e1 e2 where "encode_record (take 12 EXAMPLE_RECORDS) chip = Inr e1" "length e1 = 12" "decode_record e1 chip = Inr (take 12 EXAMPLE_RECORDS)"
    "encode_record (drop 12 EXAMPLE_RECORDS) chip = Inr e2" "length e2 = 12" "decode_record e2 chip = Inr (drop 12 EXAMPLE_RECORDS)"
    using record_code_forward [OF assms l(1)] record_code_forward [OF assms l(2)] by blast
  then show thesis using that [of e1 e2] l by (simp add: encoded_example_def)
qed

lemma provisioned:
  assumes "length chip = 4" "64 \<le> length img"
  shows "\<exists>out. provision_low_block img chip = Inr out \<and> length out = length img \<and> low_block_valid out \<and>
    lock_records_of out chip = Inr EXAMPLE_RECORDS \<and>
    (\<forall>i < length img. i < 0x20 \<or> 0x38 \<le> i \<and> i < 0x3c \<or> 0x40 \<le> i \<longrightarrow> out ! i = img ! i)"
proof -
  obtain e1 e2 where e: "encoded_example chip = Inr (e1 @ e2)" "length e1 = 12" "length e2 = 12"
    "decode_record e1 chip = Inr (take 12 EXAMPLE_RECORDS)" "decode_record e2 chip = Inr (drop 12 EXAMPLE_RECORDS)"
    by (rule encoded_example_Inr [OF assms(1)])
  define pad where "pad = map reversed_complement (rev (pair_products (take 12 img) @ pair_products (take 12 img)))"
  have pad: "length pad = 24" using assms(2) by (simp add: pad_def)
  have ret: "retained_record_transform r (take 12 img) = Inr (xor_bytes r pad)" if "length r = 24" for r
    using that assms(2) by (simp add: retained_eq pad_def)
  define records where "records = xor_bytes (e1 @ e2) pad"
  have r: "retained_record_transform (e1 @ e2) (take 12 img) = Inr records" "length records = 24"
    using e pad by (simp_all add: ret records_def)
  define mid where "mid = slice_set 0x20 0x38 records img"
  have m: "length mid = length img" "take 12 mid = take 12 img" using r assms(2) by (simp_all add: mid_def slice_set_def)
  obtain low where low: "low_block_sum mid = Inr low" "length low = 4" "from_be low = byte_sum (take 0x3c mid) AND 0xffff"
    using low_block_sum_Inr [of mid] by blast
  define out where "out = slice_set 0x3c 0x40 low mid"
  have out: "provision_low_block img chip = Inr out" "length out = length img"
    using e r low m assms by (simp_all add: provision_low_block_def out_def flip: mid_def)
  have below: "take n out = take n mid" if "n \<le> 0x3c" for n
    using that m assms(2) by (simp add: out_def slice_set_def)
  have "low_block_valid out"
    using low m assms(2) below [of 60] by (simp add: low_block_valid_def out_def slice_slice_set_same)
  moreover have "slice 0x20 0x38 out = records"
  proof -
    have "slice 0x20 0x38 out = slice 0x20 0x38 mid" using below [of 56] by (simp add: slice_def take_drop)
    then show ?thesis using r assms(2) by (simp add: mid_def slice_slice_set_same)
  qed
  then have "retained_record_transform (slice 0x20 0x38 out) (take 12 out) = Inr (e1 @ e2)"
    using e r(2) pad below [of 12] m by (simp add: ret) (simp add: records_def xor_bytes_involution)
  then have "lock_records_of out chip = Inr EXAMPLE_RECORDS"
    using e by (simp add: lock_records_of_def slice_def)
  moreover have "out ! i = img ! i" if "i < length img" "i < 0x20 \<or> 0x38 \<le> i \<and> i < 0x3c \<or> 0x40 \<le> i" for i
    using that assms(2) m r low(2) by (auto simp: out_def mid_def nth_slice_set)
  ultimately show ?thesis using out by blast
qed

section \<open>What the tools promise\<close>

definition security_sum_valid :: "bytes \<Rightarrow> bool" where
  "security_sum_valid img \<longleftrightarrow>
     from_be (slice 0x11e 0x120 img) = (byte_sum (slice 0x40 0x11e img) - byte_sum (slice 0x74 0x76 img)) AND 0xffff"

definition unchanged_outside :: "(nat \<times> nat) list \<Rightarrow> bytes \<Rightarrow> bytes \<Rightarrow> bool" where
  "unchanged_outside ranges img out \<longleftrightarrow> length out = length img \<and>
     list_all (\<lambda>i. list_ex (\<lambda>(a, b). a \<le> i \<and> i < b) ranges \<or> out ! i = img ! i) [0..<length img]"

definition carries_example :: "bytes \<Rightarrow> bytes \<Rightarrow> bool" where
  "carries_example out chip \<longleftrightarrow> low_block_valid out \<and> lock_records_of out chip = Inr EXAMPLE_RECORDS"

lemma provision_low_block_ok:
  "length chip = 4 \<Longrightarrow> 64 \<le> length img \<Longrightarrow>
   \<exists>out. provision_low_block img chip = Inr out \<and> carries_example out chip \<and> unchanged_outside [(0x20, 0x38), (0x3c, 0x40)] img out"
  using provisioned [of chip img] by (fastforce simp: carries_example_def unchanged_outside_def list_all_iff not_less)

lemma encoded_example_Inl: "length chip \<noteq> 4 \<Longrightarrow> \<exists>e. encoded_example chip = Inl e"
  by (simp add: encoded_example_def encode_record_def)

lemma sum_field_Inr: "\<exists>field. to_be 2 (v AND 0xffff) = Inr field \<and> length field = 2 \<and> from_be field = v AND 0xffff"
proof -
  obtain field where "to_be 2 (v AND 0xffff) = Inr field" using and_16 [of v] by (auto simp: to_be_def)
  then show ?thesis using from_be_to_be by blast
qed

lemma security_field:
  assumes "0x120 \<le> length img" "length field = 2"
    "from_be field = (byte_sum (slice 0x40 0x11e img) - byte_sum (slice 0x74 0x76 img)) AND 0xffff"
  shows "security_sum_valid (slice_set 0x11e 0x120 field img)" "unchanged_outside [(0x11e, 0x120)] img (slice_set 0x11e 0x120 field img)"
  using assms by (auto simp: security_sum_valid_def slice_slice_set_same slice_slice_set_disjoint unchanged_outside_def
    list_all_iff nth_slice_set)

text \<open>The repaired security block of an NSK-1 image has the sum that the firmware compares, only the two
  bytes of the field changed, and any other extent is refused.\<close>
theorem security_repair_exact:
  "case repair_security_checksum img of
     Inl _ \<Rightarrow> length img \<noteq> 2048
   | Inr out \<Rightarrow> length img = 2048 \<and> security_sum_valid out \<and> unchanged_outside [(0x11e, 0x120)] img out
       \<and> repair_security_checksum out = Inr out"
proof (cases "length img = 2048")
  case True
  let ?sum = "byte_sum (slice 0x40 0x11e img) - byte_sum (slice 0x74 0x76 img)"
  obtain field where f: "to_be 2 (?sum AND 0xffff) = Inr field" "length field = 2" "from_be field = ?sum AND 0xffff"
    using sum_field_Inr [of ?sum] by blast
  let ?out = "slice_set 0x11e 0x120 field img"
  have "slice 0x40 0x11e ?out = slice 0x40 0x11e img" "slice 0x74 0x76 ?out = slice 0x74 0x76 img"
    using True f(2) by (simp_all add: slice_slice_set_disjoint)
  then have "repair_security_checksum ?out = Inr (slice_set 0x11e 0x120 field ?out)"
    using True f by (simp add: repair_security_checksum_def)
  moreover have "slice_set 0x11e 0x120 field ?out = ?out"
    using True f(2) by (simp add: slice_set_def)
  ultimately show ?thesis
    using True f security_field [of img field] by (simp add: repair_security_checksum_def)
qed (simp add: repair_security_checksum_def)

lemma provision_low_block_Inl: "length chip \<noteq> 4 \<Longrightarrow> \<exists>e. provision_low_block img chip = Inl e"
  using encoded_example_Inl [of chip] by (auto simp: provision_low_block_def)

lemma security_sum_beyond:
  assumes "drop 0x40 out = drop 0x40 img" shows "security_sum_valid out \<longleftrightarrow> security_sum_valid img"
proof -
  have "slice a b xs = slice (a - 0x40) (b - 0x40) (drop 0x40 xs)" if "0x40 \<le> a" for a b and xs :: bytes
    using that by (simp add: slice_def)
  then show ?thesis using assms by (simp add: security_sum_valid_def)
qed

lemma unchanged_drop: "unchanged_outside rs img out \<Longrightarrow> list_all (\<lambda>(a, b). b \<le> n) rs \<Longrightarrow> drop n out = drop n img"
proof (rule nth_equalityI)
  assume u: "unchanged_outside rs img out" and rs: "list_all (\<lambda>(a, b). b \<le> n) rs"
  then show "length (drop n out) = length (drop n img)" by (simp add: unchanged_outside_def)
  fix i assume "i < length (drop n out)"
  then have i: "n + i < length img" using u by (simp add: unchanged_outside_def)
  moreover have "\<not> list_ex (\<lambda>(a, b). a \<le> n + i \<and> n + i < b) rs"
    using rs by (fastforce simp: list_all_iff list_ex_iff)
  ultimately have "out ! (n + i) = img ! (n + i)" using u by (fastforce simp: unchanged_outside_def list_all_iff)
  then show "drop n out ! i = drop n img ! i" using i u by (simp add: unchanged_outside_def)
qed

lemma unchanged_trans:
  "unchanged_outside rs img mid \<Longrightarrow> unchanged_outside ss mid out \<Longrightarrow> unchanged_outside (ss @ rs) img out"
  by (fastforce simp: unchanged_outside_def list_all_iff)

lemma nsk3_build_cases:
  "case nsk3_build img chip of
     Inl _ \<Rightarrow> \<not> (length img = 8192 \<and> sha256_hex img = NATIVE_EEPROM \<and> length chip = 4)
   | Inr out \<Rightarrow> carries_example out chip \<and> security_sum_valid out \<and>
       unchanged_outside [(0x20, 0x38), (0x3c, 0x40), (0x3c, 0x40), (0x11e, 0x120)] img out"
proof (cases "length img = 8192 \<and> sha256_hex img = NATIVE_EEPROM")
  case True
  let ?sum = "byte_sum (slice 0x40 0x11e img) - byte_sum (slice 0x74 0x76 img)"
  obtain field where f: "to_be 2 (?sum AND 0xffff) = Inr field" "length field = 2" "from_be field = ?sum AND 0xffff"
    using sum_field_Inr [of ?sum] by blast
  obtain low where l: "low_block_sum img = Inr low" "length low = 4" using low_block_sum_Inr [of img] by blast
  define fixed where "fixed = slice_set 0x11e 0x120 field img"
  define mid where "mid = slice_set 0x3c 0x40 low fixed"
  have fixed: "security_sum_valid fixed" "unchanged_outside [(0x11e, 0x120)] img fixed"
    using security_field [of img field] True f by (simp_all add: fixed_def)
  then have len: "length fixed = 8192" using True by (simp add: unchanged_outside_def)
  then have mid: "unchanged_outside [(0x3c, 0x40)] fixed mid"
    using l by (auto simp: mid_def unchanged_outside_def list_all_iff nth_slice_set)
  have valid: "security_sum_valid mid"
    using fixed(1) security_sum_beyond [OF unchanged_drop [OF mid]] by simp
  have same: "nsk3_build img chip = provision_low_block mid chip"
  proof -
    have "take 12 mid = take 12 img" using len True by (simp add: mid_def fixed_def slice_set_def)
    then show ?thesis using True f l
      by (simp add: nsk3_build_def nsk3_repair_def provision_low_block_def flip: fixed_def mid_def)
  qed
  have all: "unchanged_outside [(0x3c, 0x40), (0x11e, 0x120)] img mid" using unchanged_trans [OF fixed(2) mid] by simp
  show ?thesis
  proof (cases "length chip = 4")
    case chip: True
    obtain out where o: "provision_low_block mid chip = Inr out" "carries_example out chip"
        "unchanged_outside [(0x20, 0x38), (0x3c, 0x40)] mid out"
      using provision_low_block_ok [OF chip, of mid] mid len by (auto simp: unchanged_outside_def)
    then have "security_sum_valid out" using valid security_sum_beyond [OF unchanged_drop [OF o(3)]] by simp
    then show ?thesis using o same unchanged_trans [OF all o(3)] by simp
  qed (use same provision_low_block_Inl [of chip mid] in auto)
qed (auto simp: nsk3_build_def nsk3_repair_def)

text \<open>C3: The three record profiles put the published lock records into an image so that a handset with the
  chip field finds them: the low block has its sum, and unpadding and decoding give the records; nothing else
  changes.  NSK-3 also repairs the security block; NSM-1 takes one chip field only.\<close>
theorem record_profiles_readable:
  "(case nsk1_build_profile chip of
      Inl _ \<Rightarrow> length chip \<noteq> 4
    | Inr out \<Rightarrow> carries_example out chip \<and> unchanged_outside [(0x20, 0x38), (0x3c, 0x40)] (replicate 2048 255) out)
   \<and> (case nsm1_build img chip of
      Inl _ \<Rightarrow> \<not> (length img = 0x4000 \<and> chip = [0x00, 0x16, 0x00, 0x10])
    | Inr out \<Rightarrow> carries_example out chip \<and> unchanged_outside [(0x20, 0x38), (0x3c, 0x40)] img out)
   \<and> (case nsk3_build img chip of
      Inl _ \<Rightarrow> \<not> (length img = 8192 \<and> sha256_hex img = NATIVE_EEPROM \<and> length chip = 4)
    | Inr out \<Rightarrow> carries_example out chip \<and> security_sum_valid out \<and>
        unchanged_outside [(0x20, 0x38), (0x3c, 0x40), (0x11e, 0x120)] img out)"
proof (intro conjI)
  have same: "nsk1_build_profile chip = provision_low_block (replicate 2048 255) chip"
    by (simp add: nsk1_build_profile_def provision_low_block_def Let_def)
  show "case nsk1_build_profile chip of
      Inl _ \<Rightarrow> length chip \<noteq> 4
    | Inr out \<Rightarrow> carries_example out chip \<and> unchanged_outside [(0x20, 0x38), (0x3c, 0x40)] (replicate 2048 255) out"
    using provision_low_block_ok [of chip "replicate 2048 255"] provision_low_block_Inl [of chip "replicate 2048 255"]
    unfolding same by (cases "length chip = 4") auto
next
  have "nsm1_build img chip = provision_low_block img chip" if "length img = 0x4000" "chip = [0x00, 0x16, 0x00, 0x10]"
    using that by (simp add: nsm1_build_def provision_low_block_def)
  then show "case nsm1_build img chip of
      Inl _ \<Rightarrow> \<not> (length img = 0x4000 \<and> chip = [0x00, 0x16, 0x00, 0x10])
    | Inr out \<Rightarrow> carries_example out chip \<and> unchanged_outside [(0x20, 0x38), (0x3c, 0x40)] img out"
    using provision_low_block_ok [of chip img]
    by (cases "length img = 0x4000 \<and> chip = [0x00, 0x16, 0x00, 0x10]") (auto simp: nsm1_build_def)
next
  show "case nsk3_build img chip of
      Inl _ \<Rightarrow> \<not> (length img = 8192 \<and> sha256_hex img = NATIVE_EEPROM \<and> length chip = 4)
    | Inr out \<Rightarrow> carries_example out chip \<and> security_sum_valid out \<and>
        unchanged_outside [(0x20, 0x38), (0x3c, 0x40), (0x11e, 0x120)] img out"
    using nsk3_build_cases [of img chip] by (auto simp: unchanged_outside_def split: sum.splits)
qed

lemma eeprom_geometry_exact:
  "eeprom_geometry d = (if 0 \<le> d \<and> d \<le> 0xff \<and> (d div 8) mod 8 \<noteq> 0
     then Inr \<lparr>es_address_bytes = (if d AND 0x40 \<noteq> 0 then 2 else 1), es_page_bytes = 2 ^ (nat ((d div 8) mod 8) - 1),
       es_capacity_bytes = 2 ^ (9 + nat (d mod 8))\<rparr>
     else Inl (ValueError (if 0 \<le> d \<and> d \<le> 0xff then ''EEPROM descriptor has an invalid page shift''
       else ''EEPROM descriptor must be one byte'')))"
proof -
  have a: "x AND 7 = x mod 8" for x :: int using take_bit_eq_mask [of 3 x] by (simp add: take_bit_eq_mod mask_eq_exp_minus_1)
  have "nat (d mod 8 + 9) = 9 + nat (d mod 8)" by (simp add: nat_add_distrib)
  moreover have "nat ((d div 8) mod 8 - 1) = nat ((d div 8) mod 8) - 1" by simp
  moreover have "(d div 8) mod 8 - 1 < 0 \<longleftrightarrow> (d div 8) mod 8 = 0" using pos_mod_sign [of 8 "d div 8"] by linarith
  ultimately show ?thesis by (simp add: eeprom_geometry_def Let_def a drop_bit_eq_div push_bit_eq_mult)
qed

lemma code_record_bound: "code_record img base index extent = Inr (offset, len) \<Longrightarrow> offset + extent \<le> 2048 \<and> len = extent"
  by (auto simp: code_record_def Let_def split: if_splits)

lemma phonecode_contract_bounds:
  "phonecode_contract img variant = Inr c \<Longrightarrow>
   pc_retry_eeprom c < 2048 \<and> pc_retry_eeprom c = pc_code_eeprom c + 4 \<and> 0x100004 \<le> pc_retry_ram c"
  by (auto simp: phonecode_contract_def Let_def rbind_eq_Inr dest!: code_record_bound split: if_splits)

text \<open>Whatever flash image the offset comes from, the retry fixture changes one byte of the image.\<close>

lemma retry_fixture_exact:
  assumes "initialize_phone_retry img flash = Inr out"
  shows "\<exists>c. phonecode_contract flash ''standard'' = Inr c \<and> pc_retry_eeprom c < length img
     \<and> out = img[pc_retry_eeprom c := 0] \<and> unchanged_outside [(pc_retry_eeprom c, pc_retry_eeprom c + 1)] img out"
proof -
  obtain c where c: "phonecode_contract flash ''standard'' = Inr c" "length img = 2048" "out = img[pc_retry_eeprom c := 0]"
    using assms by (auto simp: initialize_phone_retry_def rbind_eq_Inr split: if_splits)
  have "unchanged_outside [(k, k + 1)] xs (xs[k := 0])" for k and xs :: bytes
    by (simp add: unchanged_outside_def list_all_iff) (metis le_refl lessI nth_list_update_neq)
  then show ?thesis using c phonecode_contract_bounds [OF c(1), THEN conjunct1] by metis
qed

text \<open>The erased NSE-6 image has no special bytes: its sums are multiples of 255.\<close>

lemma byte_sum_erased: "byte_sum (replicate n 255) = 255 * int n"
  by (induction n) simp_all

lemma slice_replicate: "slice a b (replicate n x) = replicate (min (b - a) (n - a)) x"
  by (simp add: slice_def)

lemma slice_update: "b \<le> k \<Longrightarrow> slice a b (xs[k := v]) = slice a b xs"
  by (rule nth_equalityI) (auto simp: nth_slice)

lemma nse6_fixture_valid:
  "\<exists>out. nse6_fixture config_integrity initialized_retry = Inr out \<and> length out = 0x8000 \<and>
     integrity_arithmetic (slice 0x40 0x11E out) (from_be (slice 0x74 0x76 out)) = Inr (from_be (slice 0x11E 0x120 out)) \<and>
     (config_integrity \<longrightarrow> low_block_valid out) \<and> (initialized_retry \<longrightarrow> out ! 0x17F8 = 0)"
proof -
  define img :: bytes where "img = replicate 0x8000 255"
  have two: "replicate 2 (255 :: byte) = [255, 255]" by (simp add: numeral_2_eq_2)
  have arith: "integrity_arithmetic (slice 0x40 0x11E img) (from_be (slice 0x74 0x76 img)) = Inr 0xdb24"
    by (simp add: img_def integrity_arithmetic_def slice_replicate byte_sum_erased from_be_def two)
  have field: "to_be 2 0xdb24 = Inr [0xdb, 0x24]" by code_simp
  define img2 where "img2 = slice_set 0x11E 0x120 [0xdb, 0x24] img"
  have i2: "take 0x3C img2 = replicate 0x3C 255" "length img2 = 0x8000"
    "slice 0x40 0x11E img2 = slice 0x40 0x11E img" "slice 0x74 0x76 img2 = slice 0x74 0x76 img" "slice 0x11E 0x120 img2 = [0xdb, 0x24]"
    by (simp_all add: img2_def img_def slice_slice_set_disjoint slice_slice_set_same) (simp add: slice_set_def)
  have low: "to_be 4 (byte_sum (take 0x3C img2)) = Inr [0, 0, 0x3b, 0xc4]"
  proof -
    have "byte_sum (take 0x3C img2) = 15300" by (simp add: i2 byte_sum_erased)
    moreover have "to_be 4 15300 = Inr [0, 0, 0x3b, 0xc4]" by code_simp
    ultimately show ?thesis by simp
  qed
  define img3 where "img3 = (if config_integrity then slice_set 0x3C 0x40 [0, 0, 0x3b, 0xc4] img2 else img2)"
  have i3: "length img3 = 0x8000" "take 0x3C img3 = take 0x3C img2"
    "0x40 \<le> a \<Longrightarrow> b \<le> 0x8000 \<Longrightarrow> slice a b img3 = slice a b img2" for a b
    using i2 by (simp_all add: img3_def slice_slice_set_disjoint) (simp add: slice_set_def)
  have low3: "config_integrity \<Longrightarrow> slice 0x3C 0x40 img3 = [0, 0, 0x3b, 0xc4]"
    using i2 by (simp add: img3_def slice_slice_set_same)
  define out where "out = (if initialized_retry then img3[0x17F8 := 0] else img3)"
  have run: "nse6_fixture config_integrity initialized_retry = Inr out"
    unfolding nse6_fixture_def Let_def img_def [symmetric] arith rbind_Inr field img2_def [symmetric] low rmap_Inr
    by (simp add: out_def img3_def)
  have o: "slice a b out = slice a b img3" if "b \<le> 0x17F8" for a b
    using that by (simp add: out_def slice_update)
  have "low_block_valid out" if config_integrity
    using o [of 60 0] o [of 64 60] low3 [OF that] i3(2) i2(1) by (simp add: low_block_valid_def byte_sum_erased from_be_def)
  moreover have "integrity_arithmetic (slice 0x40 0x11E out) (from_be (slice 0x74 0x76 out)) = Inr (from_be (slice 0x11E 0x120 out))"
    using arith i2(3-5) i3(3) by (simp add: o from_be_def)
  ultimately show ?thesis using run i3(1) by (auto simp: out_def)
qed

end
