(* ===== verification/Pmm_Profiles.thy ===== *)
theory Pmm_Profiles
  imports Journal Wintesla
begin

text \<open>
  Repairs of acquired flash images: the NAM-2 product state (\<open>tools/make_2100_pmm_profile.py\<close>), the NHM-6
  settled security verifier (\<open>tools/make_3330_pmm_profile.py\<close>) and the 7110 checksum fixture, which patches
  the last writer of a journal (\<open>tools/nse5_checksum_fixture.py\<close>).
\<close>

section \<open>NAM-2\<close>

definition eeprom_magic :: bytes where "eeprom_magic = [0x45, 0x45, 0x50, 0x52, 0x4f, 0x4d]"
definition nam2_flash_size :: nat where "nam2_flash_size = 0x200000"
definition nam2_pmm_offset :: nat where "nam2_pmm_offset = 0x1F0000"
definition LOGICAL_DATA_OFFSET :: nat where "LOGICAL_DATA_OFFSET = 0x26"
definition IDENTITY_BLOCK_SIZE :: nat where "IDENTITY_BLOCK_SIZE = 0x120"
definition IDENTITY_CHECKSUM_OFFSET :: nat where "IDENTITY_CHECKSUM_OFFSET = 0x11C"
definition VERSION_REFERENCE_OFFSET :: nat where "VERSION_REFERENCE_OFFSET = 0x270"
definition V521_SHA1 :: string where "V521_SHA1 = ''b7e30deb4393a76d509f843d25ecf20881bc25bb''"

definition qualifies :: "bytes \<Rightarrow> nat \<Rightarrow> bool" where
  "qualifies img magic \<longleftrightarrow> (let candidate = magic - 6 + LOGICAL_DATA_OFFSET in
     nam2_pmm_offset + 6 \<le> magic \<and> candidate + VERSION_REFERENCE_OFFSET + 2 \<le> length img
     \<and> slice (candidate + VERSION_REFERENCE_OFFSET) (candidate + VERSION_REFERENCE_OFFSET + 2) img = [0x93, 0x3d])"

text \<open>The loop over the occurrences of the magic; a qualified one gives the offset of the logical data.\<close>

function logical_data :: "bytes \<Rightarrow> nat \<Rightarrow> nat option" where
  "logical_data img search = (case find_sub eeprom_magic img search of
     None \<Rightarrow> None
   | Some magic \<Rightarrow> if qualifies img magic then Some (magic - 6 + LOGICAL_DATA_OFFSET) else logical_data img (magic + 1))"
  by pat_completeness auto
termination
  by (relation "measure (\<lambda>(img, search). length img - search)") (auto dest!: find_sub_bounds simp: eeprom_magic_def)

declare logical_data.simps [simp del]

definition nam2_make_profile :: "bytes \<Rightarrow> bytes \<Rightarrow> bytes res" where
  "nam2_make_profile base donor =
     (if length base \<noteq> nam2_pmm_offset then Inl (ValueError ''expected a 0x1f0000-byte MCU/PPM base'')
      else if length donor \<noteq> nam2_flash_size then Inl (ValueError ''expected a 0x200000-byte full-flash donor'')
      else let result = base @ drop nam2_pmm_offset donor in
        case logical_data result nam2_pmm_offset of
          None \<Rightarrow> Inl (ValueError ''expected v5.21 EEPROM catalog reference 0x933d is absent'')
        | Some logical \<Rightarrow>
            let checksum = byte_sum (slice logical (logical + IDENTITY_CHECKSUM_OFFSET) result) AND 0xffffffff in
            rbind (to_be 4 checksum) (\<lambda>field.
              Inr (slice_set (logical + IDENTITY_CHECKSUM_OFFSET) (logical + IDENTITY_BLOCK_SIZE) field result)))"

definition changed_indexes :: "bytes \<Rightarrow> bytes \<Rightarrow> nat list" where
  "changed_indexes before after = map fst (filter (\<lambda>(i, a, b). a \<noteq> b) (enumerate 0 (zip before after)))"

definition make_own_v521_profile :: "bytes \<Rightarrow> bytes res" where
  "make_own_v521_profile img =
     (if sha1_hex img \<noteq> V521_SHA1 then Inl (ValueError ''expected the unchanged acquired NAM-2 v5.21 full image'')
      else rbind (nam2_make_profile (take nam2_pmm_offset img) img) (\<lambda>result.
        if changed_indexes img result \<noteq> [0x1FC144, 0x1FC145]
        then Inl (ValueError ''own v5.21 repair changes bytes outside the two checksum bytes'')
        else Inr result))"

section \<open>NHM-6\<close>

definition nhm6_flash_size :: nat where "nhm6_flash_size = 0x400000"
definition nhm6_pmm_offset :: nat where "nhm6_pmm_offset = 0x3F0000"
definition nhm6_pmm_size :: nat where "nhm6_pmm_size = 0x10000"
definition SECURITY_VERIFIER_OFFSET :: nat where "SECURITY_VERIFIER_OFFSET = 0x069A"
definition VIRGIN_SECURITY_VERIFIER :: bytes where "VIRGIN_SECURITY_VERIFIER = [0xd4, 0x35, 0x37, 0xdc]"
definition SETTLED_SECURITY_VERIFIER :: bytes where "SETTLED_SECURITY_VERIFIER = [0xd8, 0x3b, 0x30, 0xd8]"

definition nhm6_make_profile :: "bytes \<Rightarrow> bytes \<Rightarrow> string option \<Rightarrow> bytes res" where
  "nhm6_make_profile base pmm expected =
     (if length base \<noteq> 0x350000 then Inl (ValueError ''expected a 0x350000-byte NHM-6 MCU/PPM image'')
      else if length pmm \<noteq> nhm6_pmm_size then Inl (ValueError ''expected a 0x10000-byte NHM-6 PMM image'')
      else if (case expected of None \<Rightarrow> False | Some e \<Rightarrow> sha256_hex pmm \<noteq> e)
      then Inl (ValueError (''NHM-6 PMM SHA-256 mismatch: expected '' @ the expected @ '', got '' @ sha256_hex pmm))
      else let actual = slice SECURITY_VERIFIER_OFFSET (SECURITY_VERIFIER_OFFSET + length VIRGIN_SECURITY_VERIFIER) pmm in
        if actual \<noteq> VIRGIN_SECURITY_VERIFIER
        then Inl (ValueError (''unexpected virgin security verifier at PMM offset 0x69a: '' @ bytes_hex actual))
        else let result = replicate nhm6_flash_size 0xff;
            result = slice_set 0 (length base) base result;
            result = slice_set nhm6_pmm_offset (nhm6_pmm_offset + nhm6_pmm_size) pmm result;
            start = nhm6_pmm_offset + SECURITY_VERIFIER_OFFSET
          in Inr (slice_set start (start + length SETTLED_SECURITY_VERIFIER) SETTLED_SECURITY_VERIFIER result))"

section \<open>The 7110 checksum fixture\<close>

definition SECTOR :: nat where "SECTOR = 0x3fc000"

definition full_501d_sha256 :: string where
  "full_501d_sha256 = ''da259e776feea05d905399a644f3e4f9ed2862f591e8f3cd8dbc8d05884a5deb''"

definition owners :: "journal_write list \<Rightarrow> nat \<Rightarrow> journal_write list" where
  "owners writes address = filter (\<lambda>row. write_destination row \<le> address \<and> address < write_destination row + write_length row) writes"

text \<open>The loop over the four checksum bytes: the file offset of each in its last writer.\<close>

definition patch_byte :: "journal_write list \<Rightarrow> bytes \<times> nat list \<Rightarrow> nat \<times> byte \<Rightarrow> (bytes \<times> nat list) res" where
  "patch_byte writes = (\<lambda>(result, sources) (address, v).
     if owners writes address = [] then Inl (ValueError ''checksum byte has no qualified journal writer'')
     else let row = last (owners writes address);
         source = SECTOR + write_source row + address - write_destination row
       in if source < length result then Inr (result[source := v], sources @ [source]) else Inl IndexError)"

definition journal_sector :: "bytes \<Rightarrow> bytes" where
  "journal_sector img = slice SECTOR (SECTOR + 0x2000) img"

text \<open>\<open>replay\<close> with its default arguments.\<close>

definition replay_default :: "bytes \<Rightarrow> (bytes \<times> journal_write list \<times> nat) res" where
  "replay_default img = replay img 0x898 0x2000 1"

definition derive :: "bytes \<Rightarrow> bytes res" where
  "derive img =
     (if sha256_hex img \<noteq> full_501d_sha256 then Inl (ValueError ''requires unchanged acquired v5.01 whole backup'')
      else rbind (replay_default (journal_sector img)) (\<lambda>(cache, writes, _).
        let computed = byte_sum (take 0x3c cache) AND 0xffff; stored = from_be (slice 0x3c 0x40 cache) in
        if (computed, stored) \<noteq> (0x18e0, 0x18ed) then Inl (ValueError ''own measured checksum premise differs'')
        else rbind (to_be 4 computed) (\<lambda>field.
          rbind (rfold (patch_byte writes) (img, []) (zip [0x3c, 0x3d, 0x3e, 0x3f] field)) (\<lambda>(result, sources).
          if sources \<noteq> [0x3fcdb0, 0x3fcdb1, 0x3fcdb2, 0x3fcdb3] \<or> changed_indexes img result \<noteq> [0x3fcdb3]
          then Inl (ValueError ''fixture is not the single qualified checksum-byte change'')
          else rbind (replay_default (journal_sector result)) (\<lambda>(cache', _).
            if cache' \<noteq> slice_set 0x3c 0x40 field cache then Inl (ValueError ''fixture altered logical content outside the checksum'')
            else Inr result)))))"

section \<open>Patching a journal\<close>

lemma slice_update_outside: "p < a \<or> b \<le> p \<Longrightarrow> slice a b (xs[p := v]) = slice a b xs"
  by (rule nth_equalityI) (auto simp: nth_slice)

lemma slice_update_inside: "a \<le> p \<Longrightarrow> p < b \<Longrightarrow> slice a b (xs[p := v]) = (slice a b xs)[p - a := v]"
  by (simp add: slice_def drop_update_swap take_update_swap)

lemma read_be16_patch: "p < q \<or> q + 2 \<le> p \<Longrightarrow> read_be16 (img[p := v]) q = read_be16 img q"
  by (simp add: read_be16_def slice_update_outside)

lemma journal_record_patch:
  assumes "journal_record img cs ss (cache, ws, cursor) = Inr (Some (c1, ws1, cursor1))"
  shows "\<exists>r. ws1 = ws @ [r] \<and> write_record r = cursor \<and> cursor + 4 \<le> write_source r \<and>
    (p < cursor \<or> write_source r \<le> p \<longrightarrow>
       journal_record (img[p := v]) cs ss (cache', ws, cursor) = Inr (Some (apply_write (img[p := v]) cache' r, ws @ [r], cursor1)))"
proof -
  obtain len c where l: "journal_length img ss (read_be16 img cursor) (cursor + 2) = Inr (len, c)"
    using assms by (auto simp: journal_record_def Let_def rbind_eq_Inr split: if_splits)
  define r where "r = \<lparr> write_record = cursor, write_source = c + 2, write_destination = read_be16 img c, write_length = len \<rparr>"
  have c: "cursor + 2 \<le> c" using journal_length_forward [OF l] .
  have ws1: "ws1 = ws @ [r]" "c1 = apply_write img cache r" "cursor1 = c + 2 + even_length len"
    using assms l by (auto simp: journal_record_def Let_def r_def apply_write_def split: if_splits)
  have "journal_record (img[p := v]) cs ss (cache', ws, cursor) = Inr (Some (apply_write (img[p := v]) cache' r, ws @ [r], cursor1))"
    if p: "p < cursor \<or> write_source r \<le> p"
  proof -
    have reads: "read_be16 (img[p := v]) q = read_be16 img q" if "cursor \<le> q" "q + 2 \<le> c + 2" for q
      using that p by (intro read_be16_patch) (auto simp: r_def)
    have "journal_length (img[p := v]) ss (read_be16 img cursor) (cursor + 2) = Inr (len, c)"
      using l reads [of "cursor + 2"] c by (auto simp: journal_length_def Let_def split: if_splits)
    then show ?thesis
      using assms l reads [of cursor] reads [of c] c
      by (auto simp: journal_record_def Let_def r_def apply_write_def split: if_splits)
  qed
  then show ?thesis using ws1 c by (intro exI [of _ r]) (simp add: r_def)
qed

lemma journal_end_patch:
  assumes "journal_record img cs ss (cache, ws, cursor) = Inr None" "p < cursor"
  shows "journal_record (img[p := v]) cs ss (cache', ws, cursor) = Inr None"
  using assms read_be16_patch [of p cursor img v]
  by (auto simp: journal_record_def Let_def rbind_eq_Inr split: if_splits)

lemma replay_loop_patch:
  assumes "replay_loop img cs ss s = Inr (c, ws, e)" "s = (cache, ws0, cursor)" "p < e"
    and "\<And>r. r \<in> set ws \<Longrightarrow> \<not> (write_record r \<le> p \<and> p < write_source r)"
  shows "\<exists>d. ws = ws0 @ d \<and> (\<forall>r \<in> set d. cursor \<le> write_record r) \<and>
    replay_loop (img[p := v]) cs ss (cache', ws0, cursor) = Inr (foldl (apply_write (img[p := v])) cache' d, ws, e)"
  using assms
proof (induction img cs ss s arbitrary: cache ws0 cursor cache' rule: replay_loop.induct)
  case (1 img cs ss cache0 writes0 cursor0)
  then have s: "cache0 = cache" "writes0 = ws0" "cursor0 = cursor" by simp_all
  note prem = "1.prems"(1) [unfolded s]
  have fits: "cursor + 2 \<le> ss" using prem by (auto simp: replay_loop.simps split: if_splits)
  consider e' where "journal_record img cs ss (cache, ws0, cursor) = Inl e'"
    | "journal_record img cs ss (cache, ws0, cursor) = Inr None"
    | c1 ws1 cursor1 where "journal_record img cs ss (cache, ws0, cursor) = Inr (Some (c1, ws1, cursor1))"
    by (cases "journal_record img cs ss (cache, ws0, cursor)") (auto, metis option.exhaust surj_pair)
  then show ?case
  proof cases
    case (1 e')
    then show ?thesis using prem fits by (simp add: replay_loop.simps)
  next
    case 2
    then have "ws = ws0" "e = cursor" using prem fits by (simp_all add: replay_loop.simps)
    then show ?thesis using journal_end_patch [OF 2] "1.prems"(3) fits by (simp add: replay_loop.simps)
  next
    case (3 c1 ws1 cursor1)
    obtain r where r: "ws1 = ws0 @ [r]" "write_record r = cursor" "cursor + 4 \<le> write_source r"
      "p < cursor \<or> write_source r \<le> p \<Longrightarrow>
       journal_record (img[p := v]) cs ss (cache', ws0, cursor) = Inr (Some (apply_write (img[p := v]) cache' r, ws0 @ [r], cursor1))"
      using journal_record_patch [OF 3, of p v cache'] by blast
    have rest: "replay_loop img cs ss (c1, ws1, cursor1) = Inr (c, ws, e)"
      using prem fits 3 by (simp add: replay_loop.simps [of img cs ss cache])
    from "1.IH" [unfolded s, OF fits 3 refl rest refl "1.prems"(3,4)]
    obtain d where d: "ws = ws1 @ d" "\<forall>r \<in> set d. cursor1 \<le> write_record r"
      "replay_loop (img[p := v]) cs ss (apply_write (img[p := v]) cache' r, ws1, cursor1) =
         Inr (foldl (apply_write (img[p := v])) (apply_write (img[p := v]) cache' r) d, ws, e)" by blast
    have "\<not> (write_record r \<le> p \<and> p < write_source r)" using "1.prems"(4) d(1) r(1) by simp
    then have "journal_record (img[p := v]) cs ss (cache', ws0, cursor) = Inr (Some (apply_write (img[p := v]) cache' r, ws1, cursor1))"
      using r by (auto simp: not_less)
    then have "replay_loop (img[p := v]) cs ss (cache', ws0, cursor) = Inr (foldl (apply_write (img[p := v])) cache' (r # d), ws, e)"
      using fits d(3) by (simp add: replay_loop.simps [of "img[p := v]" cs ss cache'])
    moreover have "cursor \<le> cursor1" using journal_record_forward [OF 3] by simp
    ultimately show ?thesis using d r by (intro exI [of _ "r # d"]) auto
  qed
qed

definition reads_source :: "nat \<Rightarrow> journal_write \<Rightarrow> bool" where
  "reads_source p w \<longleftrightarrow> write_source w \<le> p \<and> p < write_source w + write_length w"

lemma apply_write_other: "\<not> reads_source p w \<Longrightarrow> apply_write (img[p := v]) cache w = apply_write img cache w"
  by (simp add: apply_write_def reads_source_def slice_update_outside not_le not_less)

lemma foldl_apply_other:
  "\<forall>w \<in> set ws. \<not> reads_source p w \<Longrightarrow> foldl (apply_write (img[p := v])) cache ws = foldl (apply_write img) cache ws"
  by (induction ws arbitrary: cache) (simp_all add: apply_write_other)

lemma slice_set_update_outside:
  "i < a \<or> b \<le> i \<Longrightarrow> a \<le> b \<Longrightarrow> b \<le> length xs \<Longrightarrow> length ys = b - a \<Longrightarrow> slice_set a b ys (xs[i := v]) = (slice_set a b ys xs)[i := v]"
  by (rule nth_equalityI) (simp, case_tac "ia = i", auto simp: nth_slice_set)

lemma slice_set_update_inside:
  "a \<le> i \<Longrightarrow> i < b \<Longrightarrow> b \<le> length xs \<Longrightarrow> length ys = b - a \<Longrightarrow> slice_set a b (ys[i - a := v]) xs = (slice_set a b ys xs)[i := v]"
  by (rule nth_equalityI) (auto simp: nth_slice_set nth_list_update)

lemma length_foldl_apply:
  "\<forall>w \<in> set ws. write_ok cs ss w \<Longrightarrow> ss \<le> length img \<Longrightarrow> length cache = cs \<Longrightarrow> length (foldl (apply_write img) cache ws) = cs"
  by (induction ws arbitrary: cache) (auto simp: apply_write_def write_ok_def)

text \<open>The patched byte reaches the cache once, at the address whose last writer reads it.\<close>

lemma foldl_apply_patch:
  assumes "\<forall>w \<in> set ws. write_ok cs ss w" "ss \<le> length img" "length cache = cs" "distinct ws"
    "\<forall>r \<in> set ws. reads_source p r \<longrightarrow> r = w" "owners ws a \<noteq> []" "w = last (owners ws a)"
    "p = write_source w + a - write_destination w"
  shows "foldl (apply_write (img[p := v])) cache ws = (foldl (apply_write img) cache ws)[a := v]"
  using assms(1,4-7)
proof (induction ws rule: rev_induct)
  case (snoc r ws)
  have len: "length (foldl (apply_write img) cache ws) = cs" using length_foldl_apply [OF _ assms(2,3)] snoc.prems(1) by simp
  have ok: "write_ok cs ss r" using snoc.prems(1) by simp
  then have sl: "length (slice (write_source r) (write_source r + write_length r) img) = write_length r"
    using assms(2) by (auto simp: write_ok_def min_def)
  show ?case
  proof (cases "write_destination r \<le> a \<and> a < write_destination r + write_length r")
    case True
    then have w: "w = r" using snoc.prems(5) by (simp add: owners_def)
    then have p: "write_source r \<le> p" "p < write_source r + write_length r" "p - write_source r = a - write_destination r"
      using True by (auto simp: assms(8))
    have "\<forall>w' \<in> set ws. \<not> reads_source p w'" using snoc.prems(2,3) w by auto
    then have "foldl (apply_write (img[p := v])) cache ws = foldl (apply_write img) cache ws" by (rule foldl_apply_other)
    then show ?thesis
      using True p ok len sl slice_set_update_inside [of "write_destination r" a "write_destination r + write_length r"
        "foldl (apply_write img) cache ws" "slice (write_source r) (write_source r + write_length r) img" v]
      by (simp add: apply_write_def [of _ _ r] slice_update_inside write_ok_def)
  next
    case False
    then have o: "owners (ws @ [r]) a = owners ws a" by (auto simp: owners_def)
    have "w \<in> set ws" using snoc.prems(4,5) last_in_set [of "owners ws a"] unfolding o by (auto simp: owners_def)
    then have "\<not> reads_source p r" using snoc.prems(2,3) by auto
    then show ?thesis
      using False snoc len ok slice_set_update_outside [of a "write_destination r" "write_destination r + write_length r"
        "foldl (apply_write img) cache ws" "slice (write_source r) (write_source r + write_length r) img" v] sl
      by (simp add: o apply_write_other) (auto simp: apply_write_def write_ok_def)
  qed
qed (simp add: owners_def)

lemma sorted_writes_unique:
  assumes "sorted_wrt (\<lambda>v w. write_source v + write_length v \<le> write_record w) ws" "\<forall>w \<in> set ws. write_ok cs ss w"
    "r \<in> set ws" "w \<in> set ws" "reads_source p r \<or> write_record r \<le> p \<and> p < write_source r" "reads_source p w"
  shows "r = w \<and> \<not> (write_record r \<le> p \<and> p < write_source r)"
proof -
  obtain i j where ij: "i < length ws" "j < length ws" "r = ws ! i" "w = ws ! j" using assms(3,4) by (auto simp: in_set_conv_nth)
  have ok: "write_record r < write_source r" "write_record w < write_source w" using assms(2,3,4) by (auto simp: write_ok_def)
  have "i < j \<Longrightarrow> write_source r + write_length r \<le> write_record w" "j < i \<Longrightarrow> write_source w + write_length w \<le> write_record r"
    using assms(1) ij by (auto simp: sorted_wrt_iff_nth_less)
  then show ?thesis using ij ok assms(5,6) by (cases i j rule: linorder_cases) (auto simp: reads_source_def)
qed

lemma sorted_writes_distinct:
  "sorted_wrt (\<lambda>v w. write_source v + write_length v \<le> write_record w) ws \<Longrightarrow> \<forall>w \<in> set ws. write_ok cs ss w \<Longrightarrow> distinct ws"
proof (induction ws)
  case (Cons w ws)
  have "w \<notin> set ws"
  proof
    assume "w \<in> set ws"
    then have "write_source w + write_length w \<le> write_record w" using Cons.prems(1) by simp
    moreover have "write_record w < write_source w" using Cons.prems(2) by (simp add: write_ok_def)
    ultimately show False by simp
  qed
  then show ?case using Cons by simp
qed simp

lemma last_writer_patch:
  assumes "replay img cache_size sector_size version = Inr (cache, writes, stop)" and "owners writes a \<noteq> []"
  shows "replay (img[write_source (last (owners writes a)) + a - write_destination (last (owners writes a)) := v])
    cache_size sector_size version = Inr (cache[a := v], writes, stop)"
proof -
  define w where "w = last (owners writes a)"
  define p where "p = write_source w + a - write_destination w"
  have "w \<in> set (owners writes a)" using assms(2) by (simp add: w_def)
  then have w: "w \<in> set writes" "reads_source p w" by (auto simp: owners_def reads_source_def p_def)
  note f = replay_facts [OF assms(1)]
  have ok: "\<forall>w \<in> set writes. write_ok cache_size sector_size w" using f by blast
  have sorted: "sorted_wrt (\<lambda>v w. write_source v + write_length v \<le> write_record w) writes" using f by blast
  have loop: "replay_loop img cache_size sector_size (replicate cache_size 0, [], 0x20) = Inr (cache, writes, stop)"
    using assms(1) by (auto simp: replay_def split: if_splits)
  have "p < stop" using w f by (fastforce simp: reads_source_def)
  moreover have "\<not> (write_record r \<le> p \<and> p < write_source r)" if "r \<in> set writes" for r
    using sorted_writes_unique [OF sorted ok that w(1) _ w(2)] by blast
  ultimately obtain d where d: "writes = d" "\<forall>r \<in> set d. 0x20 \<le> write_record r"
    "replay_loop (img[p := v]) cache_size sector_size (replicate cache_size 0, [], 0x20) =
       Inr (foldl (apply_write (img[p := v])) (replicate cache_size 0) d, writes, stop)"
    using replay_loop_patch [OF loop refl, of p v "replicate cache_size 0"] by auto
  have "0x20 \<le> p" using d(1,2) w ok by (fastforce simp: reads_source_def write_ok_def)
  then have head: "slice 6 12 (img[p := v]) = slice 6 12 img" "read_be16 (img[p := v]) 0x18 = read_be16 img 0x18"
    by (simp_all add: slice_update_outside read_be16_patch)
  have "foldl (apply_write (img[p := v])) (replicate cache_size 0) writes = cache[a := v]"
    using foldl_apply_patch [OF ok _ _ sorted_writes_distinct [OF sorted ok] _ assms(2) w_def p_def, of img "replicate cache_size 0" v]
      sorted_writes_unique [OF sorted ok _ w(1) _ w(2)] f by auto
  then have "replay (img[p := v]) cache_size sector_size version = Inr (cache[a := v], writes, stop)"
    using assms(1) d head by (auto simp: replay_def split: if_splits)
  then show ?thesis by (simp add: p_def w_def)
qed

text \<open>C11: Writing one byte into the last writer of an address changes that byte of the replayed contents and
  nothing else: the journal keeps its records, and no other address follows.\<close>
theorem last_writer_patched:
  assumes "replay img cache_size sector_size version = Inr (cache, writes, stop)" and "owners writes a \<noteq> []"
  shows "replay (img[write_source (last (owners writes a)) + a - write_destination (last (owners writes a)) := v])
    cache_size sector_size version = Inr (cache[a := v], writes, stop)"
  by (rule last_writer_patch [OF assms])

lemma last_writer_patched_witness:
  "replay (sample_journal[0x25 := 0x77]) 16 0x30 1 = Inr ((slice_set 5 8 [0xaa, 0xbb, 0xcc] (replicate 16 0))[6 := 0x77],
     [\<lparr> write_record = 0x20, write_source = 0x24, write_destination = 5, write_length = 3 \<rparr>], 0x28)"
  using last_writer_patched [OF sample_journal_replay, of 6 "0x77"] by (simp add: owners_def)

lemma patch_byte_step:
  assumes "replay_default (journal_sector img) = Inr (cache, ws, stop)"
  shows "case patch_byte ws (img, srcs) (a, v) of
      Inl e \<Rightarrow> e = ValueError ''checksum byte has no qualified journal writer''
    | Inr (res, _) \<Rightarrow> length res = length img \<and> replay_default (journal_sector res) = Inr (cache[a := v], ws, stop)"
proof (cases "owners ws a = []")
  case False
  define w where "w = last (owners ws a)"
  define p where "p = write_source w + a - write_destination w"
  have "w \<in> set (owners ws a)" using False by (simp add: w_def)
  then have w: "w \<in> set ws" "write_destination w \<le> a" "a < write_destination w + write_length w" by (auto simp: owners_def)
  note f = replay_facts [OF assms [unfolded replay_default_def]]
  have p: "p < 0x2000" using w f by (fastforce simp: p_def write_ok_def)
  have src: "SECTOR + write_source w + a - write_destination w = SECTOR + p" using w(2) by (simp add: p_def)
  have len: "SECTOR + 0x2000 \<le> length img" using f by (auto simp: journal_sector_def SECTOR_def)
  have "journal_sector (img[SECTOR + p := v]) = (journal_sector img)[p := v]"
    using p by (simp add: journal_sector_def slice_update_inside)
  then have "replay_default (journal_sector (img[SECTOR + p := v])) = Inr (cache[a := v], ws, stop)"
    using last_writer_patch [OF assms [unfolded replay_default_def] False, of v]
    by (simp add: replay_default_def flip: p_def w_def)
  then show ?thesis using False p len src by (simp add: patch_byte_def Let_def flip: w_def)
qed (simp add: patch_byte_def)

lemma patch_fold:
  assumes "replay_default (journal_sector img) = Inr (cache, ws, stop)"
  shows "case rfold (patch_byte ws) (img, srcs) zs of
      Inl e \<Rightarrow> e = ValueError ''checksum byte has no qualified journal writer''
    | Inr (res, _) \<Rightarrow> replay_default (journal_sector res) = Inr (foldl (\<lambda>c (a, v). c[a := v]) cache zs, ws, stop)"
  using assms
proof (induction zs arbitrary: img cache srcs)
  case (Cons z zs)
  obtain a v where z: "z = (a, v)" by fastforce
  show ?case
  proof (cases "patch_byte ws (img, srcs) (a, v)")
    case (Inr r)
    obtain res srcs' where r: "r = (res, srcs')" by fastforce
    have "replay_default (journal_sector res) = Inr (cache[a := v], ws, stop)"
      using patch_byte_step [OF Cons.prems, where srcs = srcs and a = a and v = v] Inr r by simp
    from Cons.IH [OF this, of srcs'] show ?thesis using Inr r z by (auto split: sum.splits prod.splits)
  qed (use patch_byte_step [OF Cons.prems, where srcs = srcs and a = a and v = v] z in simp)
qed simp

definition altered :: exn where
  "altered = ValueError ''fixture altered logical content outside the checksum''"

lemma replay_loop_error: "replay_loop img cs ss s = Inl e \<Longrightarrow> e \<noteq> altered"
proof (induction img cs ss s rule: replay_loop.induct)
  case (1 img cs ss cache writes cursor)
  have rec: "journal_record img cs ss (cache, writes, cursor) = Inl e \<Longrightarrow> e \<noteq> altered"
    by (auto simp: journal_record_def journal_length_def altered_def Let_def rbind_eq_Inl split: if_splits)
  show ?case using "1.prems" "1.IH" rec
    by (subst (asm) replay_loop.simps) (auto simp: altered_def split: if_splits sum.splits option.splits)
qed

lemma replay_error: "replay_default img = Inl e \<Longrightarrow> e \<noteq> altered"
  using replay_loop_error by (auto simp: replay_default_def replay_def altered_def split: if_splits)

text \<open>The 7110 fixture changes one byte of the image and, in the contents that the firmware replays, the
  checksum field and nothing else; its last check, on the replay of the result, can never fail.\<close>
theorem fixture_last_check_redundant:
  "case derive img of
     Inl e \<Rightarrow> e \<noteq> ValueError ''fixture altered logical content outside the checksum''
   | Inr out \<Rightarrow> changed_indexes img out = [0x3fcdb3] \<and> (\<exists>cache writes stop.
       replay_default (journal_sector img) = Inr (cache, writes, stop) \<and>
       replay_default (journal_sector out) = Inr (slice_set 0x3c 0x40 [0, 0, 0x18, 0xe0] cache, writes, stop))"
proof (cases "sha256_hex img = full_501d_sha256 \<and> returns (replay_default (journal_sector img))")
  case True
  obtain cache ws stop where r: "replay_default (journal_sector img) = Inr (cache, ws, stop)" using True by auto
  let ?computed = "byte_sum (take 0x3c cache) AND 0xffff" and ?stored = "from_be (slice 0x3c 0x40 cache)"
  have field: "to_be 4 0x18e0 = Inr [0, 0, 0x18, 0xe0]" by code_simp
  have len: "length cache = 0x898" using replay_facts [OF r [unfolded replay_default_def]] by blast
  have upd: "foldl (\<lambda>c (a, v). c[a := v]) cache (zip [0x3c, 0x3d, 0x3e, 0x3f] [0, 0, 0x18, 0xe0]) = slice_set 0x3c 0x40 [0, 0, 0x18, 0xe0] cache"
    by (rule nth_equalityI) (use len in \<open>auto simp: nth_slice_set nth_list_update nth_Cons'\<close>)
  show ?thesis
    using True r field patch_fold [OF r, where srcs = "[]" and zs = "zip [0x3c, 0x3d, 0x3e, 0x3f] [0, 0, 0x18, 0xe0]", unfolded upd]
    by (cases "(?computed, ?stored) = (0x18e0, 0x18ed)") (auto simp: derive_def Let_def split: sum.splits if_splits)
next
  case False
  then show ?thesis
    using replay_error [of "journal_sector img"] by (cases "replay_default (journal_sector img)") (auto simp: derive_def altered_def)
qed

section \<open>The two image repairs\<close>

lemma logical_data_Some:
  "logical_data img search = Some l \<Longrightarrow> nam2_pmm_offset + LOGICAL_DATA_OFFSET \<le> l \<and> l + VERSION_REFERENCE_OFFSET + 2 \<le> length img
     \<and> slice (l + VERSION_REFERENCE_OFFSET) (l + VERSION_REFERENCE_OFFSET + 2) img = [0x93, 0x3d]"
proof (induction img search rule: logical_data.induct)
  case (1 img search)
  show ?case using "1.prems" "1.IH"
    by (subst (asm) logical_data.simps) (auto simp: qualifies_def Let_def split: option.splits if_splits)
qed

text \<open>The NAM-2 profile keeps the firmware of the base, takes the product state of the donor and gives its
  identity block the sum that it must have; only the four bytes of that sum are its own.\<close>

lemma nam2_profile_exact:
  "case nam2_make_profile base donor of
     Inl _ \<Rightarrow> \<not> (length base = nam2_pmm_offset \<and> length donor = nam2_flash_size
       \<and> logical_data (base @ drop nam2_pmm_offset donor) nam2_pmm_offset \<noteq> None)
   | Inr out \<Rightarrow> length out = nam2_flash_size \<and> take nam2_pmm_offset out = base \<and>
       (\<exists>l. logical_data (base @ drop nam2_pmm_offset donor) nam2_pmm_offset = Some l
         \<and> from_be (slice (l + IDENTITY_CHECKSUM_OFFSET) (l + IDENTITY_BLOCK_SIZE) out)
             = byte_sum (slice l (l + IDENTITY_CHECKSUM_OFFSET) out) AND 0xffffffff
         \<and> take (l + IDENTITY_CHECKSUM_OFFSET) out = take (l + IDENTITY_CHECKSUM_OFFSET) (base @ drop nam2_pmm_offset donor)
         \<and> drop (l + IDENTITY_BLOCK_SIZE) out = drop (l + IDENTITY_BLOCK_SIZE) (base @ drop nam2_pmm_offset donor))"
proof (cases "length base = nam2_pmm_offset \<and> length donor = nam2_flash_size
    \<and> logical_data (base @ drop nam2_pmm_offset donor) nam2_pmm_offset \<noteq> None")
  case True
  define img where "img = base @ drop nam2_pmm_offset donor"
  obtain l where l: "logical_data img nam2_pmm_offset = Some l" using True by (auto simp: img_def)
  have len: "length img = nam2_flash_size" using True by (simp add: img_def nam2_pmm_offset_def nam2_flash_size_def)
  define v where "v = byte_sum (slice l (l + IDENTITY_CHECKSUM_OFFSET) img) AND 0xffffffff"
  have "v = take_bit 32 (byte_sum (slice l (l + IDENTITY_CHECKSUM_OFFSET) img))"
    by (simp add: v_def take_bit_eq_mask mask_eq_exp_minus_1)
  then have "0 \<le> v \<and> v < 256 ^ 4"
    using take_bit_int_less_exp [of 32 "byte_sum (slice l (l + IDENTITY_CHECKSUM_OFFSET) img)"] by simp
  then obtain field where f: "to_be 4 v = Inr field" "length field = 4" "from_be field = v"
    using from_be_to_be [of 4 v] by (auto simp: to_be_def)
  define out where "out = slice_set (l + IDENTITY_CHECKSUM_OFFSET) (l + IDENTITY_BLOCK_SIZE) field img"
  have run: "nam2_make_profile base donor = Inr out"
    using True l f by (simp add: nam2_make_profile_def out_def v_def flip: img_def)
  note b = logical_data_Some [OF l, unfolded IDENTITY_CHECKSUM_OFFSET_def IDENTITY_BLOCK_SIZE_def VERSION_REFERENCE_OFFSET_def LOGICAL_DATA_OFFSET_def]
  have t: "take n out = take n img" if "n \<le> l + IDENTITY_CHECKSUM_OFFSET" for n
    using that b by (simp add: out_def slice_set_def IDENTITY_CHECKSUM_OFFSET_def)
  have d: "drop (l + IDENTITY_BLOCK_SIZE) out = drop (l + IDENTITY_BLOCK_SIZE) img"
    using b f(2) by (simp add: out_def slice_set_def IDENTITY_CHECKSUM_OFFSET_def IDENTITY_BLOCK_SIZE_def)
  have "slice (l + IDENTITY_CHECKSUM_OFFSET) (l + IDENTITY_BLOCK_SIZE) out = field"
    using b f(2) by (simp add: out_def slice_slice_set_same IDENTITY_CHECKSUM_OFFSET_def IDENTITY_BLOCK_SIZE_def)
  moreover have "slice l (l + IDENTITY_CHECKSUM_OFFSET) out = slice l (l + IDENTITY_CHECKSUM_OFFSET) img"
    using t [of "l + IDENTITY_CHECKSUM_OFFSET"] by (simp add: slice_def take_drop add.commute)
  moreover have "length out = nam2_flash_size"
    using b f(2) len by (simp add: out_def IDENTITY_CHECKSUM_OFFSET_def IDENTITY_BLOCK_SIZE_def)
  moreover have "take nam2_pmm_offset out = base"
    using t [of nam2_pmm_offset] b True by (simp add: img_def)
  ultimately show ?thesis using run l f(3) t d by (simp add: v_def flip: img_def)
next
  case False
  then show ?thesis by (auto simp: nam2_make_profile_def Let_def split: option.splits)
qed

lemma nhm6_profile_exact:
  "case nhm6_make_profile base pmm expected of
     Inl _ \<Rightarrow> \<not> (length base = 0x350000 \<and> length pmm = nhm6_pmm_size \<and> expected \<in> {None, Some (sha256_hex pmm)}
       \<and> slice 0x69A 0x69E pmm = VIRGIN_SECURITY_VERIFIER)
   | Inr out \<Rightarrow> length out = nhm6_flash_size \<and> take 0x350000 out = base \<and>
       slice 0x350000 nhm6_pmm_offset out = replicate 0xa0000 0xff \<and>
       drop nhm6_pmm_offset out = slice_set 0x69A 0x69E SETTLED_SECURITY_VERIFIER pmm"
proof (cases "length base = 0x350000 \<and> length pmm = nhm6_pmm_size \<and> expected \<in> {None, Some (sha256_hex pmm)}
    \<and> slice 0x69A 0x69E pmm = VIRGIN_SECURITY_VERIFIER")
  case True
  define erased :: bytes where "erased = replicate 0xa0000 0xff"
  have e: "length erased = 0xa0000" by (simp add: erased_def)
  have base: "slice_set 0 (length base) base (replicate nhm6_flash_size 0xff) = base @ replicate 0xb0000 0xff"
    using True by (simp add: slice_set_def nhm6_flash_size_def)
  have pmm: "slice_set nhm6_pmm_offset (nhm6_pmm_offset + nhm6_pmm_size) pmm (base @ replicate 0xb0000 0xff) = base @ erased @ pmm"
    using True by (simp add: slice_set_def nhm6_pmm_offset_def nhm6_pmm_size_def erased_def)
  have last: "slice_set (nhm6_pmm_offset + SECURITY_VERIFIER_OFFSET) (nhm6_pmm_offset + SECURITY_VERIFIER_OFFSET + length SETTLED_SECURITY_VERIFIER)
      SETTLED_SECURITY_VERIFIER (base @ erased @ pmm) = base @ erased @ slice_set 0x69A 0x69E SETTLED_SECURITY_VERIFIER pmm"
    using True e by (simp add: slice_set_def nhm6_pmm_offset_def SECURITY_VERIFIER_OFFSET_def SETTLED_SECURITY_VERIFIER_def nhm6_pmm_size_def)
  have "nhm6_make_profile base pmm expected = Inr (base @ erased @ slice_set 0x69A 0x69E SETTLED_SECURITY_VERIFIER pmm)"
  proof -
    have "slice SECURITY_VERIFIER_OFFSET (SECURITY_VERIFIER_OFFSET + length VIRGIN_SECURITY_VERIFIER) pmm = VIRGIN_SECURITY_VERIFIER"
      using True by (simp add: SECURITY_VERIFIER_OFFSET_def VIRGIN_SECURITY_VERIFIER_def)
    then show ?thesis unfolding nhm6_make_profile_def Let_def base pmm last using True by auto
  qed
  moreover have "length (slice_set 0x69A 0x69E SETTLED_SECURITY_VERIFIER pmm) = 0x10000"
    using True by (simp add: nhm6_pmm_size_def SETTLED_SECURITY_VERIFIER_def)
  ultimately show ?thesis
    using True e by (simp add: nhm6_pmm_offset_def nhm6_flash_size_def slice_def erased_def)
next
  case False
  then show ?thesis
    by (auto simp: nhm6_make_profile_def Let_def SECURITY_VERIFIER_OFFSET_def VIRGIN_SECURITY_VERIFIER_def split: option.splits)
qed

end
