(* ===== verification/Media_Volume.thy ===== *)
theory Media_Volume
  imports Py_Dict
begin

text \<open>
  Inventories and authoring of recorder media: candidate ADTS headers, byte deltas of files, ID3v2.3 tags and
  the single partition of the NAND fixture (\<open>tools/mu4_recorder_media_inventory.py\<close>), and the writer that
  tags a track and puts a volume back into the NAND image (\<open>tools/mu4_generated_aac_fixture.py\<close>).
\<close>

section \<open>ADTS headers\<close>

record adts =
  ad_offset :: nat
  ad_header :: bytes
  ad_header_bytes :: nat
  ad_mpeg_version :: nat
  ad_profile_bits :: int
  ad_sampling_index :: int
  ad_channel_configuration :: int
  ad_frame_bytes :: nat
  ad_buffer_fullness :: int
  ad_raw_data_blocks_minus_one :: int
  ad_frame_within_file :: bool

definition adts_header :: "bytes \<Rightarrow> nat \<Rightarrow> adts option" where
  "adts_header source offset =
     (if length source < offset + 7 then None
      else let h = map uint (slice offset (offset + 7) source) in
        if h ! 0 \<noteq> 0xff \<or> h ! 1 AND 0xf6 \<noteq> 0xf0 then None
        else let header_bytes = (if h ! 1 AND 1 \<noteq> 0 then 7 else 9);
            frame_bytes = nat (push_bit 11 (h ! 3 AND 3) OR push_bit 3 (h ! 4) OR drop_bit 5 (h ! 5))
          in if frame_bytes < header_bytes \<or> length source < offset + header_bytes then None
          else Some \<lparr>ad_offset = offset, ad_header = slice offset (offset + 7) source, ad_header_bytes = header_bytes,
            ad_mpeg_version = (if h ! 1 AND 8 \<noteq> 0 then 2 else 4), ad_profile_bits = drop_bit 6 (h ! 2),
            ad_sampling_index = drop_bit 2 (h ! 2) AND 15,
            ad_channel_configuration = push_bit 2 (h ! 2 AND 1) OR drop_bit 6 (h ! 3), ad_frame_bytes = frame_bytes,
            ad_buffer_fullness = push_bit 6 (h ! 5 AND 31) OR drop_bit 2 (h ! 6),
            ad_raw_data_blocks_minus_one = h ! 6 AND 3,
            ad_frame_within_file = (offset + frame_bytes \<le> length source)\<rparr>)"

record adts_report =
  ar_candidates :: "adts list"
  ar_chain :: "nat list"
  ar_stop :: "nat option"
  ar_reason :: string

text \<open>The dictionary of headers by offset, in the order of the offsets.\<close>

definition adts_headers :: "bytes \<Rightarrow> (nat, adts) dict" where
  "adts_headers source = List.map_filter (\<lambda>offset.
     if source ! offset = 0xff then map_option (\<lambda>h. (offset, h)) (adts_header source offset) else None) [0..<length source - 6]"

lemma adts_headers_Some:
  assumes "map_of (adts_headers source) offset = Some h"
  shows "adts_header source offset = Some h" "offset < length source" "7 \<le> ad_frame_bytes h"
    "ad_frame_within_file h \<longleftrightarrow> offset + ad_frame_bytes h \<le> length source"
proof -
  have "(offset, h) \<in> set (adts_headers source)" using assms by (rule map_of_SomeD)
  then show h: "adts_header source offset = Some h" and "offset < length source"
    by (auto simp: adts_headers_def map_filter_def split: if_splits)
  show "7 \<le> ad_frame_bytes h" "ad_frame_within_file h \<longleftrightarrow> offset + ad_frame_bytes h \<le> length source"
    using h by (auto simp: adts_header_def Let_def split: if_splits)
qed

lemma adts_step: "map_of (adts_headers source) stop = Some h \<Longrightarrow> length source - (stop + ad_frame_bytes h) < length source - stop"
  using adts_headers_Some(2,3) [of source stop h] by simp

function adts_chain :: "bytes \<Rightarrow> nat list \<Rightarrow> nat \<Rightarrow> nat list \<times> nat \<times> string" where
  "adts_chain source chain stop = (case map_of (adts_headers source) stop of
     None \<Rightarrow> (chain, stop, if stop = length source then ''exact_eof'' else ''missing_header_at_declared_end'')
   | Some header \<Rightarrow>
       if \<not> ad_frame_within_file header then (chain @ [stop], stop, ''truncated_frame'')
       else adts_chain source (chain @ [stop]) (stop + ad_frame_bytes header))"
  by pat_completeness auto

termination
  by (relation "measure (\<lambda>(source, chain, stop). length source - stop)") (auto simp: adts_step)

declare adts_chain.simps [simp del]

definition adts_inventory :: "bytes \<Rightarrow> adts_report" where
  "adts_inventory source = (let headers = adts_headers source in
     if headers = [] then \<lparr>ar_candidates = [], ar_chain = [], ar_stop = None, ar_reason = ''no_candidate''\<rparr>
     else let (chain, stop, reason) = adts_chain source [] (Min (set (map fst headers)))
       in \<lparr>ar_candidates = map snd headers, ar_chain = chain, ar_stop = Some stop, ar_reason = reason\<rparr>)"

section \<open>Byte deltas\<close>

text \<open>The ranges of differing bytes, as the loop extends the last one or opens the next.\<close>

definition add_position :: "(nat \<times> nat) list \<Rightarrow> nat \<Rightarrow> (nat \<times> nat) list" where
  "add_position ranges offset =
     (if ranges \<noteq> [] \<and> snd (last ranges) = offset then butlast ranges @ [(fst (last ranges), offset + 1)]
      else ranges @ [(offset, offset + 1)])"

definition changed_ranges :: "bytes \<Rightarrow> bytes \<Rightarrow> (nat \<times> nat) list" where
  "changed_ranges source endpoint =
     foldl (\<lambda>ranges (offset, old, new). if old = new then ranges else add_position ranges offset) []
       (enumerate 0 (zip source endpoint))"

record file_delta =
  fd_source_bytes :: nat
  fd_endpoint_bytes :: nat
  fd_common :: nat
  fd_changed :: nat
  fd_ranges :: "(nat \<times> nat) list"
  fd_added :: "(byte \<times> nat) list"
  fd_removed :: "(byte \<times> nat) list"

definition byte_counts :: "bytes \<Rightarrow> (byte \<times> nat) list" where
  "byte_counts bs = map (\<lambda>b. (b, count_list bs b)) (filter (\<lambda>b. b \<in> set bs) (map word_of_nat [0..<256]))"

definition file_inventory :: "bytes \<Rightarrow> bytes \<Rightarrow> file_delta" where
  "file_inventory source endpoint = (let common = min (length source) (length endpoint) in
     \<lparr>fd_source_bytes = length source, fd_endpoint_bytes = length endpoint, fd_common = common,
      fd_changed = length (filter (\<lambda>(old, new). old \<noteq> new) (zip source endpoint)),
      fd_ranges = changed_ranges source endpoint,
      fd_added = byte_counts (drop common endpoint), fd_removed = byte_counts (drop common source)\<rparr>)"

section \<open>ID3v2.3 tags\<close>

record id3_frame =
  if_id :: bytes
  if_bytes :: nat
  if_prefix :: bytes

record id3_report =
  ir_size :: nat
  ir_end :: nat
  ir_frames :: "id3_frame list"
  ir_padding :: nat
  ir_duration :: "int option"
  ir_post :: bytes

definition frame_id_byte :: "byte \<Rightarrow> bool" where
  "frame_id_byte b \<longleftrightarrow> 65 \<le> uint b \<and> uint b \<le> 90 \<or> 48 \<le> uint b \<and> uint b \<le> 57"

text \<open>\<open>TLEN\<close>: the digits behind the encoding byte, without trailing zeros.\<close>

definition id3_digits :: "bytes \<Rightarrow> bytes" where
  "id3_digits payload = rev (dropWhile (\<lambda>b. b = 0) (rev (drop 1 payload)))"

definition id3_duration :: "int option \<Rightarrow> bytes \<Rightarrow> int res" where
  "id3_duration duration payload = (let digits = id3_digits payload in
     if duration \<noteq> None \<or> payload ! 0 \<noteq> 0 \<or> digits = [] \<or> \<not> list_all (\<lambda>b. 48 \<le> uint b \<and> uint b \<le> 57) digits
     then Inl (ValueError ''unsupported, duplicate or malformed ID3 length frame'')
     else Inr (foldl (\<lambda>acc b. acc * 10 + (uint b - 48)) 0 digits))"

definition id3_frame_at :: "bytes \<Rightarrow> nat \<Rightarrow> nat \<Rightarrow> (bytes \<times> bytes) res" where
  "id3_frame_at source stop cursor =
     (if stop < cursor + 10 then Inl (ValueError ''truncated ID3 frame header'')
      else let name = slice cursor (cursor + 4) source; len = nat (from_be (slice (cursor + 4) (cursor + 8) source)) in
        if \<not> list_all frame_id_byte name \<or> slice (cursor + 8) (cursor + 10) source \<noteq> [0, 0] \<or> len = 0 \<or> stop < cursor + 10 + len
        then Inl (ValueError ''unsupported or truncated ID3 frame'')
        else Inr (name, slice (cursor + 10) (cursor + 10 + len) source))"

lemma id3_frame_at_forward: "id3_frame_at source stop cursor = Inr (name, payload) \<Longrightarrow> cursor < stop"
  by (auto simp: id3_frame_at_def Let_def split: if_splits)

function id3_frames :: "bytes \<Rightarrow> nat \<Rightarrow> id3_frame list \<Rightarrow> int option \<Rightarrow> nat \<Rightarrow> (id3_frame list \<times> int option \<times> nat) res" where
  "id3_frames source stop frames duration cursor =
     (if \<not> cursor < stop then Inr (frames, duration, cursor)
      else if source ! cursor = 0
      then (if list_ex (\<lambda>b. b \<noteq> 0) (slice cursor stop source) then Inl (ValueError ''nonzero ID3 padding'')
            else Inr (frames, duration, cursor))
      else case id3_frame_at source stop cursor of
          Inl e \<Rightarrow> Inl e
        | Inr (name, payload) \<Rightarrow>
            (case (if name = [0x54, 0x4c, 0x45, 0x4e] then rmap Some (id3_duration duration payload) else Inr duration) of
               Inl e \<Rightarrow> Inl e
             | Inr duration' \<Rightarrow> id3_frames source stop
                 (frames @ [\<lparr>if_id = name, if_bytes = length payload, if_prefix = take 32 payload\<rparr>])
                 duration' (cursor + 10 + length payload)))"
  by pat_completeness auto
termination
  by (relation "measure (\<lambda>(source, stop, frames, duration, cursor). stop - cursor)") (auto dest: id3_frame_at_forward)

declare id3_frames.simps [simp del]

definition id3v23_inventory :: "bytes \<Rightarrow> id3_report res" where
  "id3v23_inventory source =
     (if length source < 10 \<or> take 6 source \<noteq> [0x49, 0x44, 0x33, 3, 0, 0] \<or> list_ex (\<lambda>b. uint b AND 0x80 \<noteq> 0) (slice 6 10 source)
      then Inl (ValueError ''requires a complete flag-free ID3v2.3.0 tag'')
      else let extent = nat (foldl (\<lambda>s b. push_bit 7 s OR uint b) 0 (slice 6 10 source)); stop = 10 + extent in
        if length source < stop then Inl (ValueError ''truncated ID3 tag extent'')
        else rbind (id3_frames source stop [] None 10) (\<lambda>(frames, duration, cursor).
          Inr \<lparr>ir_size = extent, ir_end = stop, ir_frames = frames, ir_padding = stop - cursor, ir_duration = duration,
               ir_post = slice stop (stop + 16) source\<rparr>))"

definition titled_track :: "bytes \<Rightarrow> bytes res" where
  "titled_track payload =
     rbind (rfold (\<lambda>frames (tag, value). let content = 0 # value in
        rbind (to_be 4 (int (length content))) (\<lambda>size4. Inr (frames @ tag @ size4 @ [0, 0] @ content))) []
       [([0x54, 0x49, 0x54, 0x32], [0x4d, 0x41, 0x4d, 0x45]), ([0x54, 0x50, 0x45, 0x31], [0x54, 0x45, 0x53, 0x54])]) (\<lambda>frames.
     Inr ([0x49, 0x44, 0x33, 3, 0, 0, 0, 0, 0, 0x64] @ (frames @ replicate (100 - length frames) 0) @ payload))"

section \<open>The fixture volume\<close>

record volume_map =
  vm_partition_lba :: nat
  vm_partition_sectors :: nat
  vm_first_page :: nat
  vm_hidden_sectors :: nat
  vm_sectors :: nat

definition le_field :: "nat \<Rightarrow> nat \<Rightarrow> bytes \<Rightarrow> nat" where
  "le_field offset n bs = nat (from_le (slice offset (offset + n) bs))"

definition page_data :: "bytes \<Rightarrow> nat \<Rightarrow> bytes" where
  "page_data img page = slice (page * 528) (page * 528 + 512) img"

definition fixture_volume :: "bytes \<Rightarrow> (volume_map \<times> bytes) res" where
  "fixture_volume img =
     (if length img < 528 * 2 \<or> length img mod 528 \<noteq> 0 then Inl (ValueError ''volume export requires complete 528-byte NAND pages'')
      else let mbr = page_data img 1 in
        if drop 510 mbr \<noteq> [0x55, 0xaa] then Inl (ValueError ''missing fixture MBR signature at physical page 1'')
        else let entries = map (\<lambda>i. slice (446 + i * 16) (462 + i * 16) mbr) [0..<4];
            populated = filter (\<lambda>entry. entry ! 4 \<noteq> 0) entries in
          if length populated \<noteq> 1 \<or> populated ! 0 \<noteq> entries ! 0 \<or> entries ! 0 ! 4 \<noteq> 6
          then Inl (ValueError ''expected the fixture single first partition with type 06'')
          else let lba = le_field 8 4 (entries ! 0); partition_sectors = le_field 12 4 (entries ! 0); first_page = lba + 1 in
            if lba = 0 \<or> partition_sectors = 0 \<or> length img div 528 \<le> first_page
            then Inl (ValueError ''fixture partition begins outside the NAND capture'')
            else let boot = page_data img first_page in
              if drop 510 boot \<noteq> [0x55, 0xaa] \<or> le_field 11 2 boot \<noteq> 512
              then Inl (ValueError ''fixture volume needs a signed 512-byte boot sector'')
              else let sectors = (if le_field 19 2 boot \<noteq> 0 then le_field 19 2 boot else le_field 32 4 boot) in
                if \<not> (0 < sectors \<and> sectors \<le> partition_sectors) \<or> length img div 528 < first_page + sectors
                then Inl (ValueError ''fixture volume extent exceeds its partition or NAND capture'')
                else Inr (\<lparr>vm_partition_lba = lba, vm_partition_sectors = partition_sectors, vm_first_page = first_page,
                    vm_hidden_sectors = le_field 28 4 boot, vm_sectors = sectors\<rparr>,
                  concat (map (page_data img) [first_page..<first_page + sectors])))"

definition write_sector :: "nat \<Rightarrow> bytes \<Rightarrow> bytes \<Rightarrow> bytes \<times> nat \<Rightarrow> nat \<Rightarrow> bytes \<times> nat" where
  "write_sector first_page volume original = (\<lambda>(result, changed) sector.
     let start = sector * 512; block = slice start (start + 512) volume; page = first_page + sector
     in (slice_set (page * 528) (page * 528 + 512) block result,
         if block \<noteq> slice start (start + 512) original then changed + 1 else changed))"

definition embed_fixture_volume :: "bytes \<Rightarrow> bytes \<Rightarrow> (bytes \<times> nat \<times> volume_map) res" where
  "embed_fixture_volume img volume =
     rbind (fixture_volume img) (\<lambda>(metadata, original).
     if length volume \<noteq> length original \<or> take 512 volume \<noteq> take 512 original
     then Inl (ValueError ''authored volume changed the fixture extent or boot sector'')
     else let (out, changed) = foldl (write_sector (vm_first_page metadata) volume original) (img, 0) [0..<vm_sectors metadata] in
       rbind (fixture_volume out) (\<lambda>(_, readback).
       if readback \<noteq> volume then Inl (ValueError ''authored NAND did not preserve the checked volume mapping'')
       else Inr (out, changed, metadata)))"

definition fixture_authoring_policy :: "bytes \<Rightarrow> bool res" where
  "fixture_authoring_policy volume =
     (if length volume < 512 then Inl (ValueError ''incomplete fixture boot sector'')
      else let sector_bytes = le_field 11 2 volume; reserved = le_field 14 2 volume;
          cluster = nat (uint (volume ! 13)); fats = nat (uint (volume ! 16));
          roots = le_field 17 2 volume; fat_sectors = le_field 22 2 volume;
          sectors = (if le_field 19 2 volume \<noteq> 0 then le_field 19 2 volume else le_field 32 4 volume);
          first_fat = reserved * sector_bytes
        in if sector_bytes \<noteq> 512 \<or> cluster = 0 \<or> length volume < first_fat + 3 then Inl (ValueError ''unsupported fixture FAT geometry'')
        else if volume ! first_fat = volume ! 21 then Inr False
        else let clusters = (int sectors - int reserved - int fats * int fat_sectors - (int roots * 32 + 511) div 512) div int cluster
          in if \<not> (0 < clusters \<and> clusters < 4085) \<or> volume ! 21 \<noteq> 0xf8 \<or> slice first_fat (first_fat + 3) volume \<noteq> [0xff, 0xff, 0xff]
          then Inl (ValueError ''unrecognized fixture media-byte mismatch; refusing broad compatibility override'')
          else Inr True)"

section \<open>NAND deltas\<close>

record nand_delta =
  nd_changed :: "nat list"
  nd_ranges :: "(nat \<times> nat) list"
  nd_spare :: "nat list"
  nd_signatures :: "(bytes \<times> nat \<times> nat \<times> nat) list"

definition delta_page :: "bytes \<Rightarrow> bytes \<Rightarrow> nat \<Rightarrow> nat \<Rightarrow> nand_delta \<Rightarrow> nat \<Rightarrow> nand_delta" where
  "delta_page source endpoint page_bytes data_bytes d page = (let start = page * page_bytes;
       old = slice start (start + page_bytes) source; new = slice start (start + page_bytes) endpoint
     in if old = new then d
     else d\<lparr>nd_changed := nd_changed d @ [page],
         nd_spare := nd_spare d @ (if drop data_bytes old \<noteq> drop data_bytes new then [page] else []),
         nd_ranges := add_position (nd_ranges d) page,
         nd_signatures := nd_signatures d @ List.map_filter (\<lambda>signature.
           map_option (\<lambda>offset. (signature, page, offset, start + offset)) (find_sub signature (take data_bytes new) 0))
           [[0x52, 0x45, 0x4c, 0x5f, 0x30, 0x30, 0x31, 0x20], [0x49, 0x44, 0x33], [0x50, 0x4f, 0x43, 0x50]]\<rparr>)"

definition nand_inventory :: "bytes \<Rightarrow> bytes \<Rightarrow> nat \<Rightarrow> nat \<Rightarrow> nand_delta res" where
  "nand_inventory source endpoint page_bytes data_bytes =
     (if \<not> (0 < data_bytes \<and> data_bytes \<le> page_bytes) then Inl (ValueError ''invalid NAND geometry'')
      else if length source \<noteq> length endpoint \<or> source = [] \<or> length source mod page_bytes \<noteq> 0
      then Inl (ValueError ''images must have equal nonzero whole-page lengths'')
      else Inr (foldl (delta_page source endpoint page_bytes data_bytes)
        \<lparr>nd_changed = [], nd_ranges = [], nd_spare = [], nd_signatures = []\<rparr> [0..<length source div page_bytes]))"

definition validate_generated_headers :: "adts_report \<Rightarrow> unit res" where
  "validate_generated_headers headers = (let chain = ar_chain headers in
     if chain = [] \<or> hd chain \<noteq> 0 \<or> ar_reason headers \<noteq> ''exact_eof''
     then Inl (ValueError ''generated AAC does not have a complete declared-length header chain'')
     else let candidates = map (\<lambda>row. (ad_offset row, row)) (ar_candidates headers) in
       rfold (\<lambda>_ offset. case map_of candidates offset of
           None \<Rightarrow> Inl KeyError
         | Some row \<Rightarrow> if (ad_mpeg_version row, ad_profile_bits row, ad_sampling_index row, ad_channel_configuration row,
               ad_raw_data_blocks_minus_one row) \<noteq> (2, 1, 4, 2, 0)
             then Inl (ValueError ''generated AAC chain differs from the requested control configuration'') else Inr ()) () chain)"

section \<open>A titled track reads back\<close>

definition track_head :: bytes where
  "track_head = [0x49, 0x44, 0x33, 3, 0, 0, 0, 0, 0, 0x64,
     0x54, 0x49, 0x54, 0x32, 0, 0, 0, 5, 0, 0, 0, 0x4d, 0x41, 0x4d, 0x45,
     0x54, 0x50, 0x45, 0x31, 0, 0, 0, 5, 0, 0, 0, 0x54, 0x45, 0x53, 0x54] @ replicate 70 0"

lemma titled_track_eq: "titled_track payload = Inr (track_head @ payload)"
proof -
  have "to_be 4 5 = Inr [0, 0, 0, 5]" by code_simp
  then show ?thesis by (simp add: titled_track_def track_head_def)
qed

lemma length_track_head: "length track_head = 110" by (simp add: track_head_def)

lemma slice_append_left: "b \<le> length xs \<Longrightarrow> slice a b (xs @ ys) = slice a b xs"
  by (simp add: slice_def)

lemma track_head_slices:
  "take 6 track_head = [0x49, 0x44, 0x33, 3, 0, 0]" "slice 6 10 track_head = [0, 0, 0, 0x64]"
  "slice 10 14 track_head = [0x54, 0x49, 0x54, 0x32]" "slice 14 18 track_head = [0, 0, 0, 5]" "slice 18 20 track_head = [0, 0]"
  "slice 20 25 track_head = [0, 0x4d, 0x41, 0x4d, 0x45]"
  "slice 25 29 track_head = [0x54, 0x50, 0x45, 0x31]" "slice 29 33 track_head = [0, 0, 0, 5]" "slice 33 35 track_head = [0, 0]"
  "slice 35 40 track_head = [0, 0x54, 0x45, 0x53, 0x54]" "slice 40 110 track_head = replicate 70 0"
  by (simp_all add: track_head_def slice_def)

lemma track_head_bytes: "track_head ! 10 = 0x54" "track_head ! 25 = 0x54" "track_head ! 40 = 0"
  by (simp_all add: track_head_def nth_append)

lemma track_frames:
  "id3_frame_at (track_head @ payload) 110 10 = Inr ([0x54, 0x49, 0x54, 0x32], [0, 0x4d, 0x41, 0x4d, 0x45])"
  "id3_frame_at (track_head @ payload) 110 25 = Inr ([0x54, 0x50, 0x45, 0x31], [0, 0x54, 0x45, 0x53, 0x54])"
  by (simp_all add: id3_frame_at_def slice_append_left length_track_head track_head_slices from_be_def frame_id_byte_def)

text \<open>Whatever the audio is, the tag of a generated track reads back as its title and artist with 70 bytes
  of padding, and the audio begins where the tag ends.\<close>
theorem titled_track_reads_back:
  "rbind (titled_track payload) id3v23_inventory = Inr \<lparr>ir_size = 100, ir_end = 110,
     ir_frames = [\<lparr>if_id = [0x54, 0x49, 0x54, 0x32], if_bytes = 5, if_prefix = [0, 0x4d, 0x41, 0x4d, 0x45]\<rparr>,
       \<lparr>if_id = [0x54, 0x50, 0x45, 0x31], if_bytes = 5, if_prefix = [0, 0x54, 0x45, 0x53, 0x54]\<rparr>],
     ir_padding = 70, ir_duration = None, ir_post = take 16 payload\<rparr>"
proof -
  let ?f1 = "\<lparr>if_id = [0x54, 0x49, 0x54, 0x32], if_bytes = 5, if_prefix = [0, 0x4d, 0x41, 0x4d, 0x45]\<rparr>"
  let ?f2 = "\<lparr>if_id = [0x54, 0x50, 0x45, 0x31], if_bytes = 5, if_prefix = [0, 0x54, 0x45, 0x53, 0x54]\<rparr>"
  have five: "Suc (Suc (Suc (Suc (Suc 0)))) = 5" by simp
  have nth: "(track_head @ payload) ! i = track_head ! i" if "i < 110" for i
    using that by (simp add: nth_append length_track_head)
  have "id3_frames (track_head @ payload) 110 [?f1, ?f2] None 40 = Inr ([?f1, ?f2], None, 40)"
    by (subst id3_frames.simps) (simp add: nth track_head_bytes slice_append_left length_track_head track_head_slices list_ex_iff)
  then have "id3_frames (track_head @ payload) 110 [?f1] None 25 = Inr ([?f1, ?f2], None, 40)"
    by (subst id3_frames.simps) (simp add: nth track_head_bytes track_frames five)
  then have "id3_frames (track_head @ payload) 110 [] None 10 = Inr ([?f1, ?f2], None, 40)"
    by (subst id3_frames.simps) (simp add: nth track_head_bytes track_frames five)
  moreover have "slice 110 126 (track_head @ payload) = take 16 payload"
    by (simp add: slice_def length_track_head)
  moreover have "foldl (\<lambda>s b. push_bit 7 s OR uint b) 0 [0, 0, 0, 0x64 :: byte] = 100" by simp
  ultimately show ?thesis
    by (simp add: titled_track_eq id3v23_inventory_def slice_append_left length_track_head track_head_slices)
qed

section \<open>A chain of headers tiles the file\<close>

definition declared_bytes :: "bytes \<Rightarrow> nat \<Rightarrow> nat" where
  "declared_bytes source offset = (case adts_header source offset of None \<Rightarrow> 0 | Some h \<Rightarrow> ad_frame_bytes h)"

definition complete_frames :: "nat list \<Rightarrow> string \<Rightarrow> nat list" where
  "complete_frames chain reason = (if reason = ''truncated_frame'' then butlast chain else chain)"

lemma slice_extend: "a \<le> b \<Longrightarrow> b \<le> c \<Longrightarrow> c \<le> length xs \<Longrightarrow> slice a b xs @ slice b c xs = slice a c xs"
proof -
  assume "a \<le> b" "b \<le> c" "c \<le> length xs"
  then have "c - a = (b - a) + (c - b)" "drop (b - a) (drop a xs) = drop b xs" by simp_all
  then show "slice a b xs @ slice b c xs = slice a c xs" by (simp only: slice_def take_add)
qed

lemma adts_chain_tiles:
  "adts_chain source chain start = (chain', stop, reason) \<Longrightarrow> start \<le> length source \<Longrightarrow>
   \<exists>d. chain' = chain @ d \<and> start \<le> stop \<and> stop \<le> length source \<and> (reason = ''truncated_frame'' \<longrightarrow> d \<noteq> []) \<and>
     concat (map (\<lambda>offset. slice offset (offset + declared_bytes source offset) source) (complete_frames d reason)) = slice start stop source \<and>
     (reason = ''exact_eof'' \<longrightarrow> stop = length source)"
proof (induction source chain start rule: adts_chain.induct)
  case (1 source chain start)
  show ?case
  proof (cases "map_of (adts_headers source) start")
    case None
    then show ?thesis using "1.prems" by (auto simp: adts_chain.simps complete_frames_def slice_def split: if_splits)
  next
    case (Some h)
    note h = adts_headers_Some [OF Some]
    show ?thesis
    proof (cases "ad_frame_within_file h")
      case False
      then show ?thesis using "1.prems" Some by (auto simp: adts_chain.simps [of source chain] complete_frames_def slice_def)
    next
      case True
      have run: "adts_chain source (chain @ [start]) (start + ad_frame_bytes h) = (chain', stop, reason)"
        using "1.prems"(1) Some True by (simp add: adts_chain.simps [of source chain])
      obtain d where d: "chain' = (chain @ [start]) @ d" "start + ad_frame_bytes h \<le> stop" "stop \<le> length source"
        "reason = ''truncated_frame'' \<longrightarrow> d \<noteq> []"
        "concat (map (\<lambda>offset. slice offset (offset + declared_bytes source offset) source) (complete_frames d reason))
           = slice (start + ad_frame_bytes h) stop source"
        "reason = ''exact_eof'' \<longrightarrow> stop = length source"
        using "1.IH" [OF Some _ run] True h(4) by auto
      have "complete_frames (start # d) reason = start # complete_frames d reason" using d(4) by (auto simp: complete_frames_def)
      moreover have "declared_bytes source start = ad_frame_bytes h" using h(1) by (simp add: declared_bytes_def)
      ultimately show ?thesis
        using d by (intro exI [of _ "start # d"]) (auto simp: slice_extend)
    qed
  qed
qed

text \<open>The complete frames of a chain are the file from the first candidate to where the chain stops, each as
  long as its header declares; a chain that ends exactly at the end of the file covers all of it.\<close>
theorem adts_chain_covers:
  "case ar_stop (adts_inventory source) of
     None \<Rightarrow> list_all (\<lambda>offset. source ! offset \<noteq> 0xff \<or> adts_header source offset = None) [0..<length source - 6]
   | Some stop \<Rightarrow> let report = adts_inventory source; start = Min (set (map fst (adts_headers source))) in
       concat (map (\<lambda>offset. slice offset (offset + declared_bytes source offset) source)
         (complete_frames (ar_chain report) (ar_reason report))) = slice start stop source \<and>
       (if ar_reason report = ''exact_eof'' then slice start stop source = drop start source else True)"
proof (cases "adts_headers source = []")
  case True
  then show ?thesis
    by (auto simp: adts_inventory_def adts_headers_def map_filter_def list_all_iff filter_empty_conv split: if_splits)
next
  case False
  define start where "start = Min (set (map fst (adts_headers source)))"
  obtain chain stop reason where run: "adts_chain source [] start = (chain, stop, reason)" by (metis surj_pair)
  have "start \<in> set (map fst (adts_headers source))" unfolding start_def using False by (intro Min_in) auto
  then obtain h where "(start, h) \<in> set (adts_headers source)" by auto
  then have "start < length source" by (auto simp: adts_headers_def map_filter_def split: if_splits)
  then obtain d where "chain = d" "start \<le> stop" "concat (map (\<lambda>offset. slice offset (offset + declared_bytes source offset) source)
      (complete_frames d reason)) = slice start stop source" "reason = ''exact_eof'' \<longrightarrow> stop = length source"
    using adts_chain_tiles [OF run] by auto
  moreover have "adts_inventory source = \<lparr>ar_candidates = map snd (adts_headers source), ar_chain = chain, ar_stop = Some stop, ar_reason = reason\<rparr>"
    using False run unfolding adts_inventory_def Let_def start_def by simp
  moreover have "Min (fst ` set (adts_headers source)) = start" by (simp add: start_def)
  ultimately show ?thesis by (simp add: slice_def)
qed

section \<open>Ranges of differing positions\<close>

definition in_ranges_of :: "(nat \<times> nat) list \<Rightarrow> nat \<Rightarrow> bool" where
  "in_ranges_of ranges i \<longleftrightarrow> list_ex (\<lambda>(a, b). a \<le> i \<and> i < b) ranges"

definition ranges_ok :: "nat \<Rightarrow> (nat \<times> nat) list \<Rightarrow> bool" where
  "ranges_ok n ranges \<longleftrightarrow> list_all (\<lambda>(a, b). a < b \<and> b \<le> n) ranges \<and> sorted_wrt (\<lambda>r s. snd r < fst s) ranges"

lemma add_position_ok:
  assumes "ranges_ok n ranges"
  shows "ranges_ok (Suc n) (add_position ranges n)" "in_ranges_of (add_position ranges n) i \<longleftrightarrow> i = n \<or> in_ranges_of ranges i"
proof -
  have "ranges_ok (Suc n) (add_position ranges n) \<and> (in_ranges_of (add_position ranges n) i \<longleftrightarrow> i = n \<or> in_ranges_of ranges i)"
  proof (cases "ranges \<noteq> [] \<and> snd (last ranges) = n")
    case True
    then obtain rs a where "ranges = rs @ [(a, n)]" by (cases ranges rule: rev_cases) auto
    then show ?thesis using assms
      by (auto simp: add_position_def ranges_ok_def in_ranges_of_def sorted_wrt_append list_all_iff)
  next
    case 2: False
    have "snd r < n" if "r \<in> set ranges" for r
    proof -
      have "r = last ranges \<or> snd r < fst (last ranges)" "fst (last ranges) < snd (last ranges)" "snd (last ranges) \<le> n"
        using assms that by (cases ranges rule: rev_cases; fastforce simp: ranges_ok_def sorted_wrt_append list_all_iff)+
      then show ?thesis using 2 that by auto
    qed
    then show ?thesis using assms 2
      by (auto simp: add_position_def ranges_ok_def in_ranges_of_def sorted_wrt_append list_all_iff)
  qed
  then show "ranges_ok (Suc n) (add_position ranges n)" "in_ranges_of (add_position ranges n) i \<longleftrightarrow> i = n \<or> in_ranges_of ranges i"
    by blast+
qed

lemma changed_ranges_upto:
  assumes "k \<le> min (length xs) (length ys)"
  shows "let ranges = foldl (\<lambda>ranges (offset, old, new). if old = new then ranges else add_position ranges offset) []
      (enumerate 0 (take k (zip xs ys)))
    in ranges_ok k ranges \<and> (\<forall>i. in_ranges_of ranges i \<longleftrightarrow> i < k \<and> xs ! i \<noteq> ys ! i)"
  using assms
proof (induction k)
  case 0
  then show ?case by (simp add: ranges_ok_def in_ranges_of_def)
next
  case (Suc k)
  then have k: "k < length (zip xs ys)" by simp
  then have "enumerate 0 (take (Suc k) (zip xs ys)) = enumerate 0 (take k (zip xs ys)) @ [(k, xs ! k, ys ! k)]"
    by (simp add: take_Suc_conv_app_nth enumerate_append_eq)
  moreover have "ranges_ok (Suc k) rs" if "ranges_ok k rs" for rs
    using that by (auto simp: ranges_ok_def list_all_iff)
  ultimately show ?case using Suc add_position_ok
    by (auto simp: Let_def less_Suc_eq)
qed

text \<open>The reported ranges of a file comparison cover exactly the positions where the common parts differ;
  they are nonempty, in order and never touch, so each is as long as it can be.\<close>
theorem changed_ranges_exact:
  "(\<forall>i. in_ranges_of (fd_ranges (file_inventory source endpoint)) i \<longleftrightarrow>
     i < length source \<and> i < length endpoint \<and> source ! i \<noteq> endpoint ! i) \<and>
   ranges_ok (min (length source) (length endpoint)) (fd_ranges (file_inventory source endpoint))"
  using changed_ranges_upto [of "min (length source) (length endpoint)" source endpoint]
  by (auto simp: file_inventory_def changed_ranges_def Let_def)

section \<open>The volume in the NAND image\<close>

lemma fixture_volume_facts:
  assumes "fixture_volume img = Inr (m, v)"
  shows "2 \<le> vm_first_page m" "0 < vm_sectors m" "(vm_first_page m + vm_sectors m) * 528 \<le> length img"
    "v = concat (map (page_data img) [vm_first_page m..<vm_first_page m + vm_sectors m])"
proof -
  have "vm_first_page m + vm_sectors m \<le> length img div 528" "2 \<le> vm_first_page m" "0 < vm_sectors m"
    "v = concat (map (page_data img) [vm_first_page m..<vm_first_page m + vm_sectors m])"
    using assms by (auto simp: fixture_volume_def Let_def split: if_splits)
  then show "2 \<le> vm_first_page m" "0 < vm_sectors m" "(vm_first_page m + vm_sectors m) * 528 \<le> length img"
    "v = concat (map (page_data img) [vm_first_page m..<vm_first_page m + vm_sectors m])"
    by (simp_all add: less_eq_div_iff_mult_less_eq)
qed

text \<open>The reader looks at the two pages of the partition table and the boot sector only.\<close>

lemma fixture_volume_cong:
  assumes "fixture_volume img = Inr (m, v)" "length img' = length img" "page_data img' 1 = page_data img 1"
    "page_data img' (vm_first_page m) = page_data img (vm_first_page m)"
  shows "fixture_volume img' = Inr (m, concat (map (page_data img') [vm_first_page m..<vm_first_page m + vm_sectors m]))"
  using assms unfolding fixture_volume_def Let_def by (auto split: if_splits)

lemma length_pages:
  "(a + n) * 528 \<le> length img \<Longrightarrow> length (concat (map (page_data img) [a..<a + n])) = 512 * n"
proof (induction n)
  case (Suc n)
  then have "(a + n) * 528 + 528 \<le> length img" by simp
  then show ?case using Suc by (simp add: page_data_def)
qed simp

lemma concat_chunks: "length v = 512 * n \<Longrightarrow> concat (map (\<lambda>k. slice (k * 512) (k * 512 + 512) v) [0..<n]) = v"
proof (induction n arbitrary: v rule: nat.induct)
  case (Suc n)
  have "concat (map (\<lambda>k. slice (k * 512) (k * 512 + 512) v) [0..<n]) = concat (map (\<lambda>k. slice (k * 512) (k * 512 + 512) (take (512 * n) v)) [0..<n])"
    by (rule arg_cong [where f = concat], rule map_cong) (auto simp: slice_def take_drop min_def)
  also have "\<dots> = take (512 * n) v" using Suc by (intro Suc.IH) simp
  finally show ?case using Suc.prems by (simp add: slice_def mult.commute)
qed simp

definition written_byte :: "nat \<Rightarrow> nat \<Rightarrow> nat \<Rightarrow> bool" where
  "written_byte first n i \<longleftrightarrow> i mod 528 < 512 \<and> first \<le> i div 528 \<and> i div 528 < first + n"

lemma page_disjoint: "p \<noteq> q \<Longrightarrow> p * 528 + 512 \<le> q * 528 \<or> q * 528 + 512 \<le> p * 528" for p q :: nat
proof -
  assume "p \<noteq> q"
  then have "p + 1 \<le> q \<or> q + 1 \<le> p" by auto
  then have "(p + 1) * 528 \<le> q * 528 \<or> (q + 1) * 528 \<le> p * 528" by (metis mult_le_mono1)
  then show "p * 528 + 512 \<le> q * 528 \<or> q * 528 + 512 \<le> p * 528" unfolding add_mult_distrib by linarith
qed

lemma write_sectors:
  assumes "(first + n) * 528 \<le> length img" "length volume = 512 * n" "k \<le> n"
  shows "let out = fst (foldl (write_sector first volume original) (img, 0) [0..<k]) in
    length out = length img
    \<and> (\<forall>p. page_data out p = (if first \<le> p \<and> p < first + k then slice ((p - first) * 512) ((p - first) * 512 + 512) volume
         else if (p + 1) * 528 \<le> length img then page_data img p else page_data out p))
    \<and> (\<forall>i < length img. written_byte first k i \<or> out ! i = img ! i)"
  using assms(3)
proof (induction k)
  case (Suc k)
  define out where "out = fst (foldl (write_sector first volume original) (img, 0) [0..<k])"
  define block where "block = slice (k * 512) (k * 512 + 512) volume"
  define out' where "out' = slice_set ((first + k) * 528) ((first + k) * 528 + 512) block out"
  have next': "fst (foldl (write_sector first volume original) (img, 0) [0..<Suc k]) = out'"
    by (simp add: out'_def out_def block_def write_sector_def Let_def split: prod.splits)
  have ih: "length out = length img"
    "\<And>p. page_data out p = (if first \<le> p \<and> p < first + k then slice ((p - first) * 512) ((p - first) * 512 + 512) volume
         else if (p + 1) * 528 \<le> length img then page_data img p else page_data out p)"
    "\<And>i. i < length img \<Longrightarrow> written_byte first k i \<or> out ! i = img ! i"
    using Suc by (auto simp: Let_def simp flip: out_def)
  have fits: "(first + k) * 528 + 528 \<le> length img" using assms(1) Suc.prems by (simp add: algebra_simps)
  have block: "length block = 512" using assms(2) Suc.prems by (simp add: block_def)
  have len: "length out' = length img" using ih(1) fits block by (simp add: out'_def)
  have "page_data out' p = (if first \<le> p \<and> p < first + Suc k then slice ((p - first) * 512) ((p - first) * 512 + 512) volume
         else if (p + 1) * 528 \<le> length img then page_data img p else page_data out' p)" for p
  proof (cases "p = first + k")
    case True
    then show ?thesis using ih(1) fits block
      by (simp add: page_data_def out'_def slice_slice_set_same) (simp add: block_def)
  next
    case False
    show ?thesis
    proof (cases "(p + 1) * 528 \<le> length img")
      case True
      then have "page_data out' p = page_data out p"
        using page_disjoint [OF False] ih(1) fits block unfolding page_data_def out'_def
        by (intro slice_slice_set_disjoint) auto
      then show ?thesis using ih(2) [of p] False True by auto
    next
      case out: False
      then have "\<not> p < first + Suc k" using fits by auto
      then show ?thesis using out by simp
    qed
  qed
  moreover have "written_byte first (Suc k) i \<or> out' ! i = img ! i" if "i < length img" for i
  proof (cases "(first + k) * 528 \<le> i \<and> i < (first + k) * 528 + 512")
    case True
    then obtain r where "i = (first + k) * 528 + r" "r < 512" using le_Suc_ex by fastforce
    moreover have "(q * 528 + r) div 528 = q" "(q * 528 + r) mod 528 < 512" if "r < 512" for q r :: nat
      using that by simp_all
    ultimately have "i div 528 = first + k" "i mod 528 < 512" by blast+
    then show ?thesis by (simp add: written_byte_def)
  next
    case False
    then have "out' ! i = out ! i" using that ih(1) fits block by (auto simp: out'_def nth_slice_set)
    then show ?thesis using ih(3) [OF that] by (auto simp: written_byte_def)
  qed
  ultimately show ?case unfolding Let_def next' using len by blast
qed (auto simp: Let_def)

text \<open>C35: Putting a volume with the boot sector and the length of the fixture's into the NAND image always
  succeeds: the volume reads back, the image keeps its length, and no byte outside the data areas of the
  partition's pages changes; the check on the readback can never fail.\<close>
theorem embedded_volume_reads_back:
  "case embed_fixture_volume img volume of
     Inl _ \<Rightarrow> \<not> (case fixture_volume img of Inl _ \<Rightarrow> False
       | Inr (m, original) \<Rightarrow> length volume = length original \<and> take 512 volume = take 512 original)
   | Inr (out, changed, m) \<Rightarrow> fixture_volume out = Inr (m, volume) \<and> length out = length img \<and>
       list_all (\<lambda>i. written_byte (vm_first_page m) (vm_sectors m) i \<or> out ! i = img ! i) [0..<length img]"
proof (cases "fixture_volume img")
  case (Inr r)
  obtain m original where fv: "fixture_volume img = Inr (m, original)" using Inr by (cases r) auto
  note f = fixture_volume_facts [OF fv]
  show ?thesis
  proof (cases "length volume = length original \<and> take 512 volume = take 512 original")
    case True
    let ?first = "vm_first_page m" and ?n = "vm_sectors m"
    obtain out changed where run: "foldl (write_sector ?first volume original) (img, 0) [0..<?n] = (out, changed)" by (metis surj_pair)
    have vol: "length volume = 512 * ?n" using True f(4) length_pages [OF f(3)] by simp
    have w: "length out = length img" "\<And>i. i < length img \<Longrightarrow> written_byte ?first ?n i \<or> out ! i = img ! i"
      "\<And>p. page_data out p = (if ?first \<le> p \<and> p < ?first + ?n then slice ((p - ?first) * 512) ((p - ?first) * 512 + 512) volume
         else if (p + 1) * 528 \<le> length img then page_data img p else page_data out p)"
      using write_sectors [OF f(3) vol order_refl, of original] by (auto simp: run Let_def)
    have boot: "page_data out ?first = page_data img ?first"
    proof -
      have "page_data out ?first = take 512 volume" using w(3) [of ?first] f(2) by (simp add: slice_def)
      moreover have "page_data img ?first = take 512 original"
        using f(2,3,4) by (simp add: upt_conv_Cons page_data_def)
      ultimately show ?thesis using True by simp
    qed
    have mbr: "page_data out 1 = page_data img 1" using w(3) [of 1] f(1,2,3) by simp
    have "page_data out (?first + i) = slice (i * 512) (i * 512 + 512) volume" if "i < ?n" for i
      using w(3) [of "?first + i"] that by simp
    then have "map (page_data out) [?first..<?first + ?n] = map (\<lambda>k. slice (k * 512) (k * 512 + 512) volume) [0..<?n]"
      by (intro nth_equalityI) auto
    then have "fixture_volume out = Inr (m, volume)"
      using fixture_volume_cong [OF fv w(1) mbr boot] concat_chunks [OF vol] by simp
    moreover have "embed_fixture_volume img volume = Inr (out, changed, m)"
      using fv True run calculation by (simp add: embed_fixture_volume_def)
    ultimately show ?thesis using w(1,2) by (simp add: list_all_iff)
  qed (use fv in \<open>auto simp: embed_fixture_volume_def\<close>)
qed (simp add: embed_fixture_volume_def)

end
