(* ===== verification/Sim_Draft.thy ===== *)
theory Sim_Draft
  imports Sim_Card
begin

text \<open>
  The card with an unsent draft of one letter, \<open>tools/sim_sms_draft.py\<close>: the check of the saved card, its erasure and
  the check of the erased card.
\<close>

definition sms_offset :: nat where
  "sms_offset = adn_size + loci_size + kc_size + bcch_size"

definition DRAFT :: bytes where
  "DRAFT = (let head = [0x07, 0x02, 0x81, 0xf0, 0x01, 0xff, 0x00, 0x81, 0x00, 0x00, 0x01, 0x41]
     in head @ replicate (sms_record_size - length head) 0xff)"

definition check_draft_card :: "bytes \<Rightarrow> unit res" where
  "check_draft_card nvram = (let empty = 0 # replicate (sms_record_size - 1) 0xff in
     if length nvram \<noteq> current_nvram_length \<or> take adn_size nvram \<noteq> replicate adn_size 0xff
       \<or> slice sms_offset (sms_offset + sms_record_size) nvram \<noteq> DRAFT
       \<or> slice (sms_offset + sms_record_size) (sms_offset + sms_records * sms_record_size) nvram \<noteq> concat (replicate (sms_records - 1) empty)
     then Inl (ValueError ''exact unsent A record/empty remainder or ADN differs'') else Inr ())"

definition deleted_card :: "bytes \<Rightarrow> bytes res" where
  "deleted_card saved = rbind (check_draft_card saved) (\<lambda>_. Inr (saved[sms_offset := 0]))"

definition check_deleted_card :: "bytes \<Rightarrow> unit res" where
  "check_deleted_card nvram =
     (if length nvram \<noteq> current_nvram_length \<or> nvram ! sms_offset \<noteq> 0
      then Inl (ValueError ''erased A draft must retain a free status byte'')
      else check_draft_card (nvram[sms_offset := 7]))"

lemma draft_status: "check_draft_card nvram = Inr () \<Longrightarrow> sms_offset < length nvram \<and> nvram ! sms_offset = 7"
proof -
  assume "check_draft_card nvram = Inr ()"
  then have c: "length nvram = current_nvram_length" "slice sms_offset (sms_offset + sms_record_size) nvram = DRAFT"
    by (auto simp: check_draft_card_def Let_def split: if_splits)
  have "sms_offset < current_nvram_length"
    by (simp add: sms_offset_def adn_size_def loci_size_def kc_size_def bcch_size_def current_nvram_length_def
      pre_aoc_nvram_length_def pre_smss_nvram_length_def pre_plmn_nvram_length_def pre_acm_nvram_length_def pre_chv_nvram_length_def pre_sms_nvram_length_def
      adn_length_def record_length_def record_count_def sms_records_def sms_record_size_def)
  moreover have "slice sms_offset (sms_offset + sms_record_size) nvram ! 0 = 7"
    unfolding c(2) by (simp add: DRAFT_def Let_def)
  ultimately show "sms_offset < length nvram \<and> nvram ! sms_offset = 7"
    using c(1) by (simp add: nth_slice sms_record_size_def)
qed

text \<open>The check of an erased card accepts exactly the cards that erasing the draft of an accepted nvram gives,
  and from an erased card the saved one is known.\<close>
theorem erased_draft_exact:
  "check_deleted_card nvram = Inr () \<longleftrightarrow> deleted_card (nvram[sms_offset := 7]) = Inr nvram"
proof
  assume "check_deleted_card nvram = Inr ()"
  then have c: "nvram ! sms_offset = 0" "check_draft_card (nvram[sms_offset := 7]) = Inr ()"
    by (auto simp: check_deleted_card_def split: if_splits)
  have "sms_offset < length nvram" using draft_status [OF c(2)] by simp
  then have "nvram[sms_offset := 0] = nvram" using c(1) by (metis list_update_id)
  then show "deleted_card (nvram[sms_offset := 7]) = Inr nvram" using c(2) by (simp add: deleted_card_def)
next
  assume "deleted_card (nvram[sms_offset := 7]) = Inr nvram"
  then have c: "check_draft_card (nvram[sms_offset := 7]) = Inr ()" "nvram[sms_offset := 0] = nvram"
    by (auto simp: deleted_card_def rbind_eq_Inr)
  then have "nvram ! sms_offset = 0" using draft_status [OF c(1)] by (metis length_list_update nth_list_update_eq)
  moreover have "length nvram = current_nvram_length"
    using c(1) by (auto simp: check_draft_card_def Let_def split: if_splits)
  ultimately show "check_deleted_card nvram = Inr ()" using c(1) by (simp add: check_deleted_card_def)
qed

end
