(* ===== verification/Image_Search.thy ===== *)
theory Image_Search
  imports Py_Core
begin

text \<open>
  Searches in firmware images: Thumb-1 literal loads of a value (\<open>tools/find_literal_loads.py\<close>), relocated
  copies of a function (\<open>tools/find_thumb_signature.py\<close>) and candidate entry points
  (\<open>tools/thumb_entries.py\<close>).  An image holds halfwords in the order of the processor (big) or with the bytes
  of each swapped (swap16).
\<close>

definition FLASH_BASE :: nat where "FLASH_BASE = 0x200000"

datatype encoding = Swap16 | Big

text \<open>\<open>int.from_bytes(\<dots>, byteorder)\<close> with the byte order of the encoding.\<close>

definition read_image :: "encoding \<Rightarrow> bytes \<Rightarrow> nat \<Rightarrow> nat \<Rightarrow> int" where
  "read_image enc img a b = (case enc of Swap16 \<Rightarrow> from_le (slice a b img) | Big \<Rightarrow> from_be (slice a b img))"

record literal_load =
  li_address :: nat
  li_register :: int
  li_immediate :: nat
  li_pool :: nat
  li_loaded :: int

definition literal_at :: "encoding \<Rightarrow> bytes \<Rightarrow> int \<Rightarrow> nat \<Rightarrow> literal_load option" where
  "literal_at enc img target address = (let offset = address - FLASH_BASE; word = read_image enc img offset (offset + 2) in
     if word AND 0xf800 \<noteq> 0x4800 then None
     else let immediate = nat (word AND 0xff) * 4; pool = (address + 4) div 4 * 4 + immediate in
       if pool < FLASH_BASE \<or> length img < pool - FLASH_BASE + 4 then None
       else let loaded = read_image enc img (pool - FLASH_BASE) (pool - FLASH_BASE + 4) in
         if loaded = target
         then Some \<lparr>li_address = address, li_register = drop_bit 8 word AND 7, li_immediate = immediate, li_pool = pool, li_loaded = loaded\<rparr>
         else None)"

definition swapped_halves :: "int \<Rightarrow> int" where
  "swapped_halves v = (push_bit 16 v OR drop_bit 16 v) AND 0xffffffff"

text \<open>\<open>(start + 1) & ~1\<close> and \<open>range(\<dots>, end - 1, 2)\<close>.\<close>

definition halfwords :: "nat \<Rightarrow> nat \<Rightarrow> nat list" where
  "halfwords start stop = filter (\<lambda>a. even a) [start..<stop - 1]"

definition literal_loads :: "bytes \<Rightarrow> int \<Rightarrow> nat \<Rightarrow> nat option \<Rightarrow> encoding \<Rightarrow> bool \<Rightarrow> literal_load list" where
  "literal_loads img v start stop enc raw = (let
     target = (if enc = Swap16 \<and> \<not> raw then swapped_halves v else v);
     start = max start FLASH_BASE;
     stop = min (case stop of None \<Rightarrow> FLASH_BASE + length img | Some e \<Rightarrow> e) (FLASH_BASE + length img)
   in List.map_filter (literal_at enc img target) (halfwords start stop))"

definition call_pair :: "encoding \<Rightarrow> bytes \<Rightarrow> nat \<Rightarrow> bool" where
  "call_pair enc bs offset \<longleftrightarrow> read_image enc bs offset (offset + 2) AND 0xf800 = 0xf000
     \<and> read_image enc bs (offset + 2) (offset + 4) AND 0xe800 = 0xe800"

definition relocation_mask :: "bytes \<Rightarrow> encoding \<Rightarrow> bool list" where
  "relocation_mask bs enc = foldl (\<lambda>mask offset. if call_pair enc bs offset
       then slice_set offset (offset + 4) [False, False, False, False] mask else mask)
     (replicate (length bs) True) (map (\<lambda>k. 2 * k) [0..<(length bs - 2) div 2])"

definition signature_matches :: "bytes \<Rightarrow> bytes \<Rightarrow> nat \<Rightarrow> nat \<Rightarrow> encoding \<Rightarrow> nat list res" where
  "signature_matches reference_img target_img address len enc =
     (if address < FLASH_BASE \<or> length reference_img < address - FLASH_BASE + len
      then Inl (SystemExit ''reference region is outside the image'')
      else let offset = address - FLASH_BASE; signature = slice offset (offset + len) reference_img;
          mask = relocation_mask signature enc
        in Inr (map (\<lambda>candidate. FLASH_BASE + candidate) (filter (\<lambda>candidate.
          list_all (\<lambda>index. \<not> mask ! index \<or> target_img ! (candidate + index) = signature ! index) [0..<len])
          (filter even [0..<length target_img + 1 - len]))))"

section \<open>Entry points\<close>

definition entry_in :: "nat \<Rightarrow> int \<times> string \<Rightarrow> (int \<times> string) option" where
  "entry_in n = (\<lambda>(address, tag). let a = address AND NOT 1 in
     if int FLASH_BASE \<le> a \<and> a < int (FLASH_BASE + n) then Some (a, tag) else None)"

definition image_halfwords :: "bytes \<Rightarrow> int list" where
  "image_halfwords data = map (\<lambda>k. from_le (slice (2 * k) (2 * k + 2) data)) [0..<length data div 2]"

definition bl_entries :: "int list \<Rightarrow> (int \<times> string) list" where
  "bl_entries hw = List.map_filter (\<lambda>i. let h = hw ! i; l = hw ! (i + 1) in
     if 0xF000 \<le> h \<and> h \<le> 0xF7FF \<and> 0xF800 \<le> l \<and> l \<le> 0xFFFF
     then let off = push_bit 12 (h AND 0x7FF) OR push_bit 1 (l AND 0x7FF);
         off = (if off AND 0x400000 \<noteq> 0 then off - 0x800000 else off);
         pc = int FLASH_BASE + int i * 2 + 4
       in Some (pc + off, ''bl'')
     else None) [0..<length hw - 1]"

definition pointer_entries :: "bytes \<Rightarrow> (int \<times> string) list" where
  "pointer_entries data = List.map_filter (\<lambda>k. let raw = from_le (slice (2 * k) (2 * k + 4) data);
       word = push_bit 16 (raw AND 0xFFFF) OR drop_bit 16 raw
     in if word AND 1 \<noteq> 0 \<and> int FLASH_BASE \<le> word \<and> word < int (FLASH_BASE + length data) then Some (word, ''ptr'') else None)
     [0..<(length data - 2) div 2]"

text \<open>The addresses with their tags; the symbol table's function addresses are an argument.\<close>

definition tagged_entries :: "bytes \<Rightarrow> int list \<Rightarrow> bool \<Rightarrow> (int \<times> string) list" where
  "tagged_entries data symbols no_push = (let hw = image_halfwords data in
     List.map_filter (entry_in (length data)) (bl_entries hw @ pointer_entries data @ map (\<lambda>a. (a, ''sym'')) symbols
       @ (if no_push then [] else List.map_filter (\<lambda>i. if hw ! i AND 0xFF00 = 0xB500 then Some (int FLASH_BASE + int i * 2, ''push'') else None)
           [0..<length hw])))"

text \<open>One line for each address, in order, with its tags in alphabetical order.\<close>

definition entry_candidates :: "bytes \<Rightarrow> int list \<Rightarrow> bool \<Rightarrow> (int \<times> string list) list" where
  "entry_candidates data symbols no_push = (let tags = tagged_entries data symbols no_push in
     map (\<lambda>a. (a, filter (\<lambda>tag. (a, tag) \<in> set tags) [''bl'', ''ptr'', ''push'', ''sym''])) (sorted_list_of_set (set (map fst tags))))"

lemma entry_in_even: "entry_in n x = Some (a, tag) \<Longrightarrow> even a \<and> int FLASH_BASE \<le> a \<and> a < int (FLASH_BASE + n)"
  by (auto simp: entry_in_def Let_def even_and_iff even_not_iff split: if_splits prod.splits)

lemma in_map_filter: "y \<in> set (List.map_filter f xs) \<longleftrightarrow> (\<exists>x \<in> set xs. f x = Some y)"
  by (induction xs) (auto simp: map_filter_simps split: option.splits)

lemma tagged_entries_even: "(a, tag) \<in> set (tagged_entries data symbols no_push) \<Longrightarrow>
    even a \<and> int FLASH_BASE \<le> a \<and> a < int (FLASH_BASE + length data)"
  unfolding tagged_entries_def Let_def in_map_filter by (blast dest: entry_in_even)

lemma entry_in_tag: "entry_in n x = Some (a, tag) \<Longrightarrow> tag = snd x"
  by (auto simp: entry_in_def Let_def split: if_splits prod.splits)

lemma source_tags:
  "x \<in> set (bl_entries hw) \<Longrightarrow> snd x = ''bl''" "x \<in> set (pointer_entries data) \<Longrightarrow> snd x = ''ptr''"
  by (auto simp: bl_entries_def pointer_entries_def in_map_filter Let_def split: if_splits)

lemma tagged_entries_tags: "(a, tag) \<in> set (tagged_entries data symbols no_push) \<Longrightarrow> tag \<in> {''bl'', ''ptr'', ''push'', ''sym''}"
  unfolding tagged_entries_def Let_def in_map_filter
  by (auto dest!: entry_in_tag dest: source_tags simp: in_map_filter split: if_splits)

text \<open>Every listed candidate is an even address of the image with at least one tag, and they are listed in order.\<close>

lemma entry_candidates_ok:
  "list_all (\<lambda>(a, tags). even a \<and> int FLASH_BASE \<le> a \<and> a < int (FLASH_BASE + length data) \<and> tags \<noteq> [])
     (entry_candidates data symbols no_push)
   \<and> sorted_wrt (<) (map fst (entry_candidates data symbols no_push))"
proof -
  have "tags \<noteq> [] \<and> even a \<and> int FLASH_BASE \<le> a \<and> a < int (FLASH_BASE + length data)"
    if "(a, tags) \<in> set (entry_candidates data symbols no_push)" for a tags
  proof -
    have tags: "tags = filter (\<lambda>tag. (a, tag) \<in> set (tagged_entries data symbols no_push)) [''bl'', ''ptr'', ''push'', ''sym'']"
      and "a \<in> fst ` set (tagged_entries data symbols no_push)"
      using that unfolding entry_candidates_def Let_def by auto
    then obtain tag where t: "(a, tag) \<in> set (tagged_entries data symbols no_push)" by auto
    have "tag \<in> set tags" using t tagged_entries_tags [OF t] unfolding tags by auto
    then show ?thesis using tagged_entries_even [OF t] by auto
  qed
  moreover have "map fst (entry_candidates data symbols no_push) = sorted_list_of_set (set (map fst (tagged_entries data symbols no_push)))"
    by (simp add: entry_candidates_def Let_def comp_def)
  ultimately show ?thesis using strict_sorted_list_of_set [of "set (map fst (tagged_entries data symbols no_push))"]
    by (auto simp: list_all_iff)
qed

section \<open>The two encodings\<close>

fun swap16 :: "bytes \<Rightarrow> bytes" where
  "swap16 (a # b # bs) = b # a # swap16 bs"
| "swap16 bs = bs"

lemma length_swap16 [simp]: "length (swap16 bs) = length bs"
  by (induction bs rule: swap16.induct) auto

lemma swap16_nth: "2 * k + 1 < length bs \<Longrightarrow> swap16 bs ! (2 * k) = bs ! (2 * k + 1) \<and> swap16 bs ! (2 * k + 1) = bs ! (2 * k)"
proof (induction bs arbitrary: k rule: swap16.induct)
  case (1 a b bs)
  then show ?case by (cases k) auto
qed auto

lemma slice_2: "a + 2 \<le> length bs \<Longrightarrow> slice a (a + 2) bs = [bs ! a, bs ! (a + 1)]"
  by (rule nth_equalityI) (auto simp: nth_slice less_Suc_eq numeral_2_eq_2)

lemma slice_4: "a + 4 \<le> length bs \<Longrightarrow> slice a (a + 4) bs = [bs ! a, bs ! (a + 1), bs ! (a + 2), bs ! (a + 3)]"
  by (rule nth_equalityI) (auto simp: nth_slice less_Suc_eq numeral_eq_Suc)

lemma halves:
  assumes "0 \<le> h" "h < 65536" "0 \<le> l" "l < 65536"
  shows "swapped_halves (h * 65536 + l) = l * 65536 + h"
proof -
  have "(h * 65536 + l) div 65536 = h" using assms by simp
  then have d: "drop_bit 16 (h * 65536 + l) = h" by (simp add: drop_bit_eq_div)
  have "push_bit 16 (h * 65536 + l) OR h = push_bit 16 (h * 65536 + l) + h"
    using u16_bit [of h] assms(1,2) by (intro disjunctive_add [symmetric]) (auto simp: bit_push_bit_iff)
  moreover have "(push_bit 16 (h * 65536 + l) + h) AND 0xffffffff = (push_bit 16 (h * 65536 + l) + h) mod 2 ^ 32"
    using take_bit_eq_mask [of 32 "push_bit 16 (h * 65536 + l) + h"] by (simp add: take_bit_eq_mod mask_eq_exp_minus_1)
  moreover have "push_bit 16 (h * 65536 + l) + h = (l * 65536 + h) + h * 2 ^ 32" by (simp add: push_bit_eq_mult)
  ultimately show ?thesis using assms by (simp only: swapped_halves_def d mod_mult_self1) simp
qed

lemma halves_of: "0 \<le> v \<Longrightarrow> v < 2 ^ 32 \<Longrightarrow> \<exists>h l. v = h * 65536 + l \<and> 0 \<le> h \<and> h < 65536 \<and> 0 \<le> l \<and> l < (65536 :: int)"
  by (rule exI [of _ "v div 65536"], rule exI [of _ "v mod 65536"]) auto

lemma swapped_twice: "0 \<le> x \<Longrightarrow> x < 2 ^ 32 \<Longrightarrow> swapped_halves (swapped_halves x) = x"
proof -
  assume "0 \<le> x" "x < 2 ^ 32"
  then obtain h l where "x = h * 65536 + l" "0 \<le> h" "h < 65536" "0 \<le> l" "l < 65536" using halves_of by blast
  then show ?thesis using halves [of h l] halves [of l h] by simp
qed

lemma swapped_halves_inj:
  "0 \<le> v \<Longrightarrow> v < 2 ^ 32 \<Longrightarrow> 0 \<le> w \<Longrightarrow> w < 2 ^ 32 \<Longrightarrow> swapped_halves v = swapped_halves w \<longleftrightarrow> v = w"
  using swapped_twice by metis

lemma read_swapped_2:
  assumes "even a" "a + 2 \<le> length img"
  shows "read_image Swap16 (swap16 img) a (a + 2) = read_image Big img a (a + 2)"
proof -
  obtain k where "a = 2 * k" using assms(1) by blast
  then have "swap16 img ! a = img ! (a + 1)" "swap16 img ! (a + 1) = img ! a" using assms(2) swap16_nth [of k img] by simp_all
  then have "slice a (a + 2) (swap16 img) = [img ! (a + 1), img ! a]" using slice_2 [of a "swap16 img"] assms(2) by simp
  then show ?thesis using slice_2 [OF assms(2)] by (simp add: read_image_def from_be_def)
qed

lemma read_swapped_4:
  assumes "even a" "a + 4 \<le> length img"
  shows "read_image Swap16 (swap16 img) a (a + 4) = swapped_halves (read_image Big img a (a + 4))"
proof -
  obtain k where a: "a = 2 * k" using assms(1) by blast
  define h where "h = uint (img ! a) * 256 + uint (img ! (a + 1))"
  define l where "l = uint (img ! (a + 2)) * 256 + uint (img ! (a + 3))"
  have b: "0 \<le> h" "h < 65536" "0 \<le> l" "l < 65536"
    using byte_bound [of "img ! a"] byte_bound [of "img ! (a + 1)"] byte_bound [of "img ! (a + 2)"] byte_bound [of "img ! (a + 3)"]
    by (simp_all add: h_def l_def)
  have n: "swap16 img ! a = img ! (a + 1)" "swap16 img ! (a + 1) = img ! a"
      "swap16 img ! (a + 2) = img ! (a + 3)" "swap16 img ! (a + 3) = img ! (a + 2)"
    using assms(2) swap16_nth [of k img] swap16_nth [of "k + 1" img] by (simp_all add: a numeral_3_eq_3)
  have "read_image Big img a (a + 4) = h * 65536 + l"
    using assms(2) by (simp add: read_image_def slice_4 from_be_def h_def l_def)
  moreover have "read_image Swap16 (swap16 img) a (a + 4) = l * 65536 + h"
  proof -
    have "slice a (a + 4) (swap16 img) = [img ! (a + 1), img ! a, img ! (a + 3), img ! (a + 2)]"
      using slice_4 [of a "swap16 img"] assms(2) by (simp only: length_swap16 n)
    then show ?thesis by (simp add: read_image_def h_def l_def)
  qed
  ultimately show ?thesis using halves [OF b] by simp
qed

definition place_of :: "literal_load \<Rightarrow> nat \<times> int \<times> nat \<times> nat" where
  "place_of x = (li_address x, li_register x, li_immediate x, li_pool x)"

lemma literal_at_swapped:
  assumes "even address" "FLASH_BASE \<le> address" "address + 2 \<le> FLASH_BASE + length img" "0 \<le> v" "v < 2 ^ 32"
  shows "map_option place_of (literal_at Swap16 (swap16 img) (swapped_halves v) address) =
    map_option place_of (literal_at Big img v address)"
proof -
  define offset where "offset = address - FLASH_BASE"
  have o: "even offset" "offset + 2 \<le> length img" using assms by (auto simp: offset_def FLASH_BASE_def)
  define word where "word = read_image Big img offset (offset + 2)"
  define pool where "pool = (address + 4) div 4 * 4 + nat (word AND 0xff) * 4"
  have p: "even (pool - FLASH_BASE)" by (simp add: pool_def FLASH_BASE_def)
  have w: "read_image Swap16 (swap16 img) offset (offset + 2) = word" using read_swapped_2 [OF o] by (simp add: word_def)
  let ?big = "read_image Big img (pool - FLASH_BASE) (pool - FLASH_BASE + 4)"
  have big: "0 \<le> ?big" "?big < 2 ^ 32" if "pool - FLASH_BASE + 4 \<le> length img"
  proof -
    have "length (slice (pool - FLASH_BASE) (pool - FLASH_BASE + 4) img) = 4" using that by simp
    then show "0 \<le> ?big" "?big < 2 ^ 32"
      using from_be_bound [of "slice (pool - FLASH_BASE) (pool - FLASH_BASE + 4) img"] by (simp_all add: read_image_def)
  qed
  show ?thesis
  proof (cases "pool < FLASH_BASE \<or> length img < pool - FLASH_BASE + 4")
    case True
    then show ?thesis unfolding literal_at_def Let_def offset_def [symmetric] w word_def [symmetric] pool_def [symmetric] by simp
  next
    case False
    then have le: "pool - FLASH_BASE + 4 \<le> length img" by linarith
    have "read_image Swap16 (swap16 img) (pool - FLASH_BASE) (pool - FLASH_BASE + 4) = swapped_halves ?big"
      by (rule read_swapped_4 [OF p le])
    then show ?thesis using False swapped_halves_inj [OF big [OF le] assms(4,5)]
      unfolding literal_at_def Let_def offset_def [symmetric] w word_def [symmetric] pool_def [symmetric]
      by (simp add: place_of_def)
  qed
qed

lemma map_filter_cong_option:
  "(\<And>x. x \<in> set xs \<Longrightarrow> map_option g (f x) = map_option g (f' x)) \<Longrightarrow> map g (List.map_filter f xs) = map g (List.map_filter f' xs)"
proof (induction xs)
  case (Cons x xs)
  have "map_option g (f x) = map_option g (f' x)" using Cons.prems by simp
  then show ?case using Cons by (cases "f x"; cases "f' x") (auto simp: map_filter_simps)
qed (simp add: map_filter_simps)

text \<open>C36: The search finds the same loads of a value in an image in processor order and in the image with the bytes of
  every halfword swapped: the swap of the halves of the value makes up for the order of the bytes.\<close>
theorem literal_search_encoding_free:
  assumes "0 \<le> v" "v < 2 ^ 32"
  shows "map place_of (literal_loads (swap16 img) v start stop Swap16 False) = map place_of (literal_loads img v start stop Big raw)"
proof -
  let ?places = "halfwords (max start FLASH_BASE)
    (min (case stop of None \<Rightarrow> FLASH_BASE + length img | Some e \<Rightarrow> e) (FLASH_BASE + length img))"
  have "even address \<and> FLASH_BASE \<le> address \<and> address + 2 \<le> FLASH_BASE + length img" if "address \<in> set ?places" for address
    using that by (auto simp: halfwords_def less_diff_conv)
  then have "map place_of (List.map_filter (literal_at Swap16 (swap16 img) (swapped_halves v)) ?places) =
      map place_of (List.map_filter (literal_at Big img v) ?places)"
    using assms by (intro map_filter_cong_option literal_at_swapped) auto
  then show ?thesis unfolding literal_loads_def Let_def length_swap16 by simp
qed

lemma literal_search_encoding_free_witness:
  "map place_of (literal_loads (swap16 [0x48, 0x00, 0xb5, 0x10, 0x12, 0x34, 0x56, 0x78]) 0x12345678 0x200000 None Swap16 False) =
     [(0x200000, 0, 0, 0x200004)]"
proof -
  have "map place_of (literal_loads [0x48, 0x00, 0xb5, 0x10, 0x12, 0x34, 0x56, 0x78] 0x12345678 0x200000 None Big False) =
     [(0x200000, 0, 0, 0x200004)]"
    by (simp add: literal_loads_def halfwords_def upt_rec_numeral map_filter_def literal_at_def FLASH_BASE_def read_image_def
      slice_def from_be_def place_of_def)
  then show ?thesis
    using literal_search_encoding_free [of "0x12345678" "[0x48, 0x00, 0xb5, 0x10, 0x12, 0x34, 0x56, 0x78]" "0x200000" None False] by simp
qed

end
