(* ===== verification/Dispatch_Reader.thy ===== *)
theory Dispatch_Reader
  imports Py_Regex Py_Dict
begin

text \<open>
  The statement reader of the dispatch census, \<open>tools/c54x_dispatch_audit.py\<close>: tokens of C++ text, their
  delimiters, the statement tree with its token spans, and the guards of the conditions.  The tokens come
  from libclang and are an argument; the compiled guard tables come from the C++ compiler and are one too.
\<close>

section \<open>Tokens and statements\<close>

record token =
  tk_text :: string
  tk_start :: nat
  tk_end :: nat

datatype node = Node
  (nd_kind: string)
  (nd_start: nat)
  (nd_end: nat)
  (nd_expression: string)
  (nd_children: "node list")
  (nd_otherwise: "node option")

record reader =
  rd_tokens :: "token list"
  rd_words :: "string list"
  rd_pairs :: "(nat, nat) dict"

definition opens :: "string \<Rightarrow> bool" where
  "opens word \<longleftrightarrow> word \<in> {''('', ''['', ''{''}"

definition closes :: "string \<Rightarrow> bool" where
  "closes word \<longleftrightarrow> word \<in> {'')'', '']'', ''}''}"

definition opener :: "string \<Rightarrow> string" where
  "opener word = (if word = '')'' then ''('' else if word = '']'' then ''['' else ''{'')"

text \<open>The loop over the words with its stack; the dictionary is filled as delimiters close.\<close>

fun match_delimiters :: "string list \<Rightarrow> nat \<Rightarrow> nat list \<Rightarrow> string list \<Rightarrow> (nat, nat) dict \<Rightarrow> (nat, nat) dict res" where
  "match_delimiters ws i stack [] pairs =
     (if stack = [] then Inr pairs else Inl (ValueError ''unfinished C++ token delimiters''))"
| "match_delimiters ws i stack (word # rest) pairs =
     (if opens word then match_delimiters ws (Suc i) (i # stack) rest pairs
      else if closes word then
        (case stack of
           [] \<Rightarrow> Inl (ValueError ''unbalanced C++ token delimiters'')
         | first # stack' \<Rightarrow>
             if ws ! first = opener word then match_delimiters ws (Suc i) stack' rest (dict_set first i pairs)
             else Inl (ValueError ''unbalanced C++ token delimiters''))
      else match_delimiters ws (Suc i) stack rest pairs)"

definition make_reader :: "token list \<Rightarrow> reader res" where
  "make_reader tokens = (let words = map tk_text tokens in
     rmap (\<lambda>pairs. \<lparr>rd_tokens = tokens, rd_words = words, rd_pairs = pairs\<rparr>) (match_delimiters words 0 [] words []))"

text \<open>\<open>self.words[i]\<close> and \<open>self.pairs[i]\<close>.  A delimiter closes after it opens, so the second case of the
  test on \<open>j\<close> does not arise (\<open>pairs_increase\<close>); it makes the recursions below end by their definition.\<close>

definition token_at :: "reader \<Rightarrow> nat \<Rightarrow> string res" where
  "token_at rd i = item (rd_words rd) i"

definition pair_at :: "reader \<Rightarrow> nat \<Rightarrow> nat res" where
  "pair_at rd i = (case map_of (rd_pairs rd) i of Some j \<Rightarrow> if i < j then Inr j else Inl KeyError | None \<Rightarrow> Inl KeyError)"

definition expression :: "reader \<Rightarrow> nat \<Rightarrow> nat \<Rightarrow> string" where
  "expression rd a b = join_with '' '' (slice a b (rd_words rd))"

text \<open>The end of an expression or declaration statement: the next semicolon outside delimiters.\<close>

function statement_end :: "reader \<Rightarrow> nat \<Rightarrow> nat res" where
  "statement_end rd i =
     (if i < length (rd_words rd) then
        let word = rd_words rd ! i in
        if word = '';'' then Inr i
        else if opens word then
          (case pair_at rd i of Inl e \<Rightarrow> Inl e | Inr j \<Rightarrow> if i < j then statement_end rd (Suc j) else Inl KeyError)
        else if word = ''}'' then Inl (ValueError ''statement lacks a terminator'')
        else statement_end rd (Suc i)
      else Inl IndexError)"
  by pat_completeness auto
termination
  by (relation "measure (\<lambda>(rd, i). length (rd_words rd) - i)") auto

declare statement_end.simps [simp del]

text \<open>The colon of a label.\<close>

function label_end :: "reader \<Rightarrow> nat \<Rightarrow> nat res" where
  "label_end rd i =
     (if i < length (rd_words rd) then if rd_words rd ! i = '':'' then Inr i else label_end rd (Suc i)
      else Inl IndexError)"
  by pat_completeness auto
termination
  by (relation "measure (\<lambda>(rd, i). length (rd_words rd) - i)") auto

declare label_end.simps [simp del]

definition unsupported_words :: "string list" where
  "unsupported_words = [''goto'', ''try'', ''catch'', ''do'', ''co_return'', ''__asm'', ''asm'']"

text \<open>\<open>statement\<close> and the loop over the children of a block.  A statement ends after its first token
  (\<open>statement_advances\<close>), so the block loop always moves on and its guard against standing still is
  never the reason for an error.\<close>

function (sequential) statement :: "reader \<Rightarrow> nat \<Rightarrow> (node \<times> nat) res"
  and statements :: "reader \<Rightarrow> nat \<Rightarrow> nat \<Rightarrow> node list res" where
  "statement rd i =
     (if length (rd_words rd) \<le> i then Inl IndexError
      else let word = rd_words rd ! i in
      if word = ''#'' then Inl (ValueError ''conditional preprocessing in an audited body is unsupported'')
      else if word \<in> set unsupported_words then Inl (ValueError (''unsupported control-flow statement: '' @ word))
      else if word = ''{'' then
        rbind (pair_at rd i) (\<lambda>stop.
        rbind (statements rd (Suc i) stop) (\<lambda>children.
          Inr (Node ''block'' i (Suc stop) '''' children None, Suc stop)))
      else if word = ''if'' then
        rbind (token_at rd (Suc i)) (\<lambda>paren.
        if paren \<noteq> ''('' then Inl (ValueError ''unsupported if form'') else
        (case pair_at rd (Suc i) of Inl e \<Rightarrow> Inl e | Inr close \<Rightarrow>
        if close \<le> i then Inl KeyError else
        (case statement rd (Suc close) of Inl e \<Rightarrow> Inl e | Inr (thn, end) \<Rightarrow>
        (case token_at rd end of Inl e \<Rightarrow> Inl e | Inr next_word \<Rightarrow>
        if next_word = ''else'' then
          if end \<le> i then Inl KeyError else
          rbind (statement rd (Suc end)) (\<lambda>(els, end').
            Inr (Node ''if'' i end' (expression rd (i + 2) close) [thn] (Some els), end'))
        else Inr (Node ''if'' i end (expression rd (i + 2) close) [thn] None, end)))))
      else if word \<in> {''switch'', ''for'', ''while''} then
        (case pair_at rd (Suc i) of Inl e \<Rightarrow> Inl e | Inr close \<Rightarrow>
        if close \<le> i then Inl KeyError else
        rbind (statement rd (Suc close)) (\<lambda>(body, end).
          Inr (Node word i end (expression rd (i + 2) close) [body] None, end)))
      else if word \<in> {''case'', ''default''} then
        rbind (label_end rd (Suc i)) (\<lambda>end.
          Inr (Node ''label'' i (Suc end) (if word = ''case'' then expression rd (Suc i) end else ''default'') [] None, Suc end))
      else
        rbind (statement_end rd i) (\<lambda>end.
          Inr (Node (if word \<in> {''return'', ''break'', ''continue''} then word else ''simple'') i (Suc end) '''' [] None, Suc end)))"
| "statements rd i stop =
     (if i < stop then
        (case statement rd i of Inl e \<Rightarrow> Inl e | Inr (child, j) \<Rightarrow>
          if j \<le> i \<or> length (rd_words rd) \<le> i then Inl KeyError
          else rmap (\<lambda>rest. child # rest) (statements rd j stop))
      else Inr [])"
  by pat_completeness auto
termination
  by (relation "measure (\<lambda>x. case x of Inl (rd, i) \<Rightarrow> 2 * (length (rd_words rd) - i)
      | Inr (rd, i, stop) \<Rightarrow> 2 * (length (rd_words rd) - i) + 1)") auto

declare statement.simps [simp del] statements.simps [simp del]

section \<open>Functions, walks and calls\<close>

definition is_definition :: "reader \<Rightarrow> string \<Rightarrow> bool \<Rightarrow> nat \<Rightarrow> bool res" where
  "is_definition rd name qualified i =
     (if rd_words rd ! i \<noteq> name \<or> i = 0 \<or> qualified \<and> rd_words rd ! (i - 1) \<noteq> ''::'' then Inr False
      else rbind (token_at rd (Suc i)) (\<lambda>paren.
        if paren \<noteq> ''('' then Inr False
        else rbind (pair_at rd (Suc i)) (\<lambda>close.
          rmap (\<lambda>word. word = ''{'' \<or> word = ''const'') (token_at rd (Suc close)))))"

definition definition_sites :: "reader \<Rightarrow> string \<Rightarrow> bool \<Rightarrow> nat list res" where
  "definition_sites rd name qualified =
     rmap (\<lambda>oks. map fst (filter snd (enumerate 0 oks))) (rmap_list (is_definition rd name qualified) [0..<length (rd_words rd)])"

definition function_body :: "reader \<Rightarrow> string \<Rightarrow> bool \<Rightarrow> node res" where
  "function_body rd name qualified =
     rbind (definition_sites rd name qualified) (\<lambda>candidates.
     case candidates of
       [candidate] \<Rightarrow>
         rbind (pair_at rd (Suc candidate)) (\<lambda>close.
         rbind (token_at rd (Suc close)) (\<lambda>word.
         let start = (if word = ''const'' then close + 2 else close + 1) in
         rbind (token_at rd start) (\<lambda>brace.
         if brace \<noteq> ''{'' then Inl (ValueError (''unsupported declaration of '' @ name))
         else rmap fst (statement rd start))))
     | _ \<Rightarrow> Inl (ValueError (''expected one definition of '' @ name @ '', found '' @ fmt_d (int (length candidates)))))"

fun walk :: "node \<Rightarrow> node list" where
  "walk (Node kind a b x children otherwise) =
     Node kind a b x children otherwise # concat (map walk children) @ (case otherwise of None \<Rightarrow> [] | Some n \<Rightarrow> walk n)"

definition call_count :: "string list \<Rightarrow> node \<Rightarrow> string \<Rightarrow> nat" where
  "call_count words n name = length (filter (\<lambda>i. slice i (i + 2) words = [name, ''('']) [nd_start n..<nd_end n - 1])"

fun index_of :: "'a \<Rightarrow> 'a list \<Rightarrow> nat option" where
  "index_of x [] = None"
| "index_of x (y # ys) = (if x = y then Some 0 else map_option Suc (index_of x ys))"

definition alias_candidate :: "reader \<Rightarrow> string \<Rightarrow> node \<Rightarrow> (string \<times> string) option" where
  "alias_candidate rd name n = (let words = slice (nd_start n) (nd_end n) (rd_words rd) in
     case index_of name words of
       None \<Rightarrow> None
     | Some i \<Rightarrow>
         if nd_kind n = ''simple'' \<and> slice (i + 1) (i + 2) words = [''=''] \<and> ''const'' \<in> set (take i words)
         then Some (expression rd (nd_start n) (nd_end n), join_with '' '' (slice (i + 2) (length words - 1) words))
         else None)"

definition constant_alias :: "reader \<Rightarrow> node \<Rightarrow> string \<Rightarrow> (string \<times> string \<times> string) res" where
  "constant_alias rd n name =
     (case List.map_filter (alias_candidate rd name) (nd_children n) of
        [(declaration, value)] \<Rightarrow> Inr (name, declaration, value)
      | _ \<Rightarrow> Inl (ValueError (''expected one constant opcode alias '' @ name)))"

section \<open>Guards\<close>

text \<open>The maximal runs of word characters of a text, which is what a pattern between two word boundaries
  sees: a substitution replaces whole runs.\<close>

function word_runs :: "string \<Rightarrow> string list" where
  "word_runs s =
     (case dropWhile (\<lambda>c. \<not> is_word c) s of
        [] \<Rightarrow> []
      | c # cs \<Rightarrow> takeWhile is_word (c # cs) # word_runs (dropWhile is_word (c # cs)))"
  by pat_completeness auto
termination
proof (relation "measure length")
  fix s c cs assume h: "dropWhile (\<lambda>c. \<not> is_word c) s = c # cs"
  then have "is_word c" using hd_dropWhile [of "\<lambda>c. \<not> is_word c" s] by simp
  moreover have "length (c # cs) \<le> length s" using h by (metis length_dropWhile_le)
  ultimately show "(dropWhile is_word (c # cs), s) \<in> measure length"
    using length_dropWhile_le [of is_word cs] by simp
qed simp

declare word_runs.simps [simp del]

function rename_words :: "string list \<Rightarrow> string \<Rightarrow> string \<Rightarrow> string" where
  "rename_words names new s =
     (case s of
        [] \<Rightarrow> []
      | c # cs \<Rightarrow>
          if is_word c then
            (let run = takeWhile is_word (c # cs) in
             (if run \<in> set names then new else run) @ rename_words names new (dropWhile is_word (c # cs)))
          else c # rename_words names new cs)"
  by pat_completeness auto
termination
proof (relation "measure (\<lambda>(names, new, s). length s)")
  fix names :: "string list" and new s c cs
  assume "s = c # cs" "is_word c"
  then show "((names, new, dropWhile is_word (c # cs)), names, new, s) \<in> measure (\<lambda>(names, new, s). length s)"
    using length_dropWhile_le [of is_word cs] by simp
qed auto

declare rename_words.simps [simp del]

definition normalize :: "string \<Rightarrow> string" where
  "normalize e = rename_words [''m_op'', ''m_pipeline_repeat_word''] ''op'' e"

definition digit :: "char \<Rightarrow> bool" where
  "digit c \<longleftrightarrow> char_between CHR ''0'' CHR ''9'' c"

definition cpp_hex_digit :: "char \<Rightarrow> bool" where
  "cpp_hex_digit c \<longleftrightarrow> digit c \<or> char_between CHR ''a'' CHR ''f'' c \<or> char_between CHR ''A'' CHR ''F'' c"

definition number_suffix :: "string \<Rightarrow> bool" where
  "number_suffix s \<longleftrightarrow> list_all (\<lambda>c. c \<in> set ''uUlL'') s"

text \<open>\<open>0[xX][0-9a-fA-F]+[uUlL]*\<close> or \<open>\d+[uUlL]*\<close> of a whole run.\<close>

definition numeric :: "string \<Rightarrow> bool" where
  "numeric run \<longleftrightarrow>
     (case run of
        c # x # rest \<Rightarrow> c = CHR ''0'' \<and> (x = CHR ''x'' \<or> x = CHR ''X'')
          \<and> takeWhile cpp_hex_digit rest \<noteq> [] \<and> number_suffix (dropWhile cpp_hex_digit rest)
      | _ \<Rightarrow> False)
     \<or> takeWhile digit run \<noteq> [] \<and> number_suffix (dropWhile digit run)"

definition identifier_start :: "char \<Rightarrow> bool" where
  "identifier_start c \<longleftrightarrow> char_between CHR ''A'' CHR ''Z'' c \<or> char_between CHR ''a'' CHR ''z'' c \<or> c = CHR ''_''"

definition identifiers :: "string \<Rightarrow> string list" where
  "identifiers s = filter (\<lambda>run. \<not> numeric run \<and> identifier_start (hd run)) (word_runs s)"

record guards =
  gd_names :: "string list"
  gd_expressions :: "string list"
  gd_bits :: "(string, int) dict"
  gd_aliases :: "string list"

definition builtin_names :: "string list" where
  "builtin_names = [''op'', ''BIT'', ''bool'', ''u8'', ''u16'', ''u32'', ''u64'', ''s8'', ''s16'', ''s32'', ''true'', ''false'']"

definition declared_name :: pattern where
  "declared_name = [(False, seq [Word_edge, any_of [lit ''bool'', lit ''u8'', lit ''u16'', lit ''u32''], some (One is_space)]),
     (True, some (One is_word)), (False, seq [Many (One is_space), lit ''('']) ]"

definition collect_guard :: "string \<Rightarrow> guards \<Rightarrow> bool \<times> guards" where
  "collect_guard e g = (let e = normalize e in
     if \<not> set (identifiers e) \<subseteq> set (gd_names g) then (False, g)
     else (True, if e \<in> set (gd_expressions g) then g else g\<lparr>gd_expressions := gd_expressions g @ [e]\<rparr>))"

definition add_alias :: "guards \<Rightarrow> string \<times> string \<times> string \<Rightarrow> guards res" where
  "add_alias g a = (case a of (name, declaration, e) \<Rightarrow>
     (case collect_guard e g of
        (False, _) \<Rightarrow> Inl (ValueError (''alias '' @ name @ '' is not opcode-only''))
      | (True, g) \<Rightarrow> Inr (g\<lparr>gd_aliases := gd_aliases g @ [normalize declaration], gd_names := gd_names g @ [name]\<rparr>)))"

definition make_guards :: "string \<Rightarrow> (string \<times> string \<times> string) list \<Rightarrow> guards res" where
  "make_guards header aliases =
     rfold add_alias \<lparr>gd_names = map hd (rx_findall declared_name header 0) @ builtin_names, gd_expressions = [],
       gd_bits = [], gd_aliases = []\<rparr> aliases"

text \<open>What \<open>compile\<close> makes of the output of the compiled program: \<open>rows\<close> holds one table of 65536 bits for
  each collected expression and the two of the admission masks.\<close>

definition compiled_guards :: "int list \<Rightarrow> guards \<Rightarrow> (int list \<times> guards) res" where
  "compiled_guards rows g =
     (if length rows \<noteq> length (gd_expressions g) + 2 then Inl (ValueError ''incomplete compiled guard census'')
      else Inr (drop (length (gd_expressions g)) rows, g\<lparr>gd_bits := zip (gd_expressions g) rows\<rparr>))"

definition guard_bits :: "guards \<Rightarrow> string \<Rightarrow> int option" where
  "guard_bits g e = map_of (gd_bits g) (normalize e)"

section \<open>Ranges of words\<close>

definition range_step :: "int \<Rightarrow> (nat \<times> nat) list \<times> nat option \<times> nat option \<Rightarrow> nat \<Rightarrow> (nat \<times> nat) list \<times> nat option \<times> nat option" where
  "range_step bits s word = (case s of (result, start, previous) \<Rightarrow>
     if drop_bit word bits AND 1 \<noteq> 0 then
       (case (start, previous) of
          (Some a, Some p) \<Rightarrow> if word \<noteq> p + 1 then (result @ [(a, p)], Some word, Some word) else (result, start, Some word)
        | _ \<Rightarrow> (result, Some word, Some word))
     else s)"

definition ranges_upto :: "nat \<Rightarrow> int \<Rightarrow> (nat \<times> nat) list" where
  "ranges_upto n bits =
     (case foldl (range_step bits) ([], None, None) [0..<n] of
        (result, Some a, Some p) \<Rightarrow> result @ [(a, p)]
      | (result, _, _) \<Rightarrow> result)"

definition ranges :: "int \<Rightarrow> (string \<times> string) list" where
  "ranges bits = map (\<lambda>(a, b). (fmt_x 4 (int a), fmt_x 4 (int b))) (ranges_upto 65536 bits)"

text \<open>\<open>bits.bit_count()\<close> of a table, which is not negative.\<close>

definition table_count :: "int \<Rightarrow> nat" where
  "table_count bits = length (filter (bit bits) [0..<65536])"

section \<open>The reader moves forward\<close>

lemma match_delimiters_increase:
  assumes "match_delimiters ws i stack rest pairs = Inr ps" and "\<forall>t \<in> set stack. t < i"
    and "\<forall>a b. map_of pairs a = Some b \<longrightarrow> a < b"
  shows "\<forall>a b. map_of ps a = Some b \<longrightarrow> a < b"
  using assms
proof (induction ws i stack rest pairs rule: match_delimiters.induct)
  case (2 ws i stack word rest pairs)
  show ?case
  proof (cases "opens word")
    case True
    then show ?thesis using 2 by (simp add: less_Suc_eq)
  next
    case o: False
    show ?thesis
    proof (cases "closes word")
      case True
      then obtain t ts where "stack = t # ts" using o "2.prems"(1) by (cases stack) auto
      then show ?thesis using o True 2 by (fastforce split: if_splits)
    next
      case False
      then show ?thesis using o 2 by (simp add: less_Suc_eq)
    qed
  qed
qed (auto split: if_splits)

lemma pairs_increase: "make_reader tokens = Inr rd \<Longrightarrow> map_of (rd_pairs rd) a = Some b \<Longrightarrow> a < b"
  using match_delimiters_increase [of _ 0 "[]" _ "[]"] by (auto simp: make_reader_def rmap_eq_Inr Let_def)

lemma pair_at_exact: "make_reader tokens = Inr rd \<Longrightarrow>
    pair_at rd i = (case map_of (rd_pairs rd) i of Some j \<Rightarrow> Inr j | None \<Rightarrow> Inl KeyError)"
  using pairs_increase by (auto simp: pair_at_def split: option.splits)

lemma pair_at_less: "pair_at rd i = Inr j \<Longrightarrow> i < j"
  by (auto simp: pair_at_def split: option.splits if_splits)

lemma statement_end_advances: "statement_end rd i = Inr j \<Longrightarrow> i \<le> j"
proof (induction "length (rd_words rd) - i" arbitrary: i rule: less_induct)
  case less
  have ih: "k \<le> j" if "statement_end rd k = Inr j" "i < k" "i < length (rd_words rd)" for k
    using less.hyps [of k] that by auto
  from less.prems [unfolded statement_end.simps [of rd i]]
  show ?case by (auto simp: Let_def split: if_splits sum.splits dest!: ih)
qed

lemma label_end_advances: "label_end rd i = Inr j \<Longrightarrow> i \<le> j"
proof (induction "length (rd_words rd) - i" arbitrary: i rule: less_induct)
  case less
  have ih: "Suc i \<le> j" if "label_end rd (Suc i) = Inr j" "i < length (rd_words rd)"
    using less.hyps [of "Suc i"] that by auto
  from less.prems [unfolded label_end.simps [of rd i]] show ?case by (auto split: if_splits dest!: ih)
qed

lemma statement_advances: "statement rd i = Inr (n, j) \<Longrightarrow> i < j"
proof (induction "length (rd_words rd) - i" arbitrary: i n j rule: less_induct)
  case less
  have ih: "k < j" if "statement rd k = Inr (n, j)" "i < k" "i < length (rd_words rd)" for k n j
    using less.hyps [of k] that by auto
  from less.prems [unfolded statement.simps [of rd i]]
  show ?case
    by (auto simp: Let_def rbind_eq_Inr rmap_eq_Inr split: if_splits sum.splits
        dest!: pair_at_less statement_end_advances label_end_advances ih)
qed

text \<open>The loop over a block therefore is the loop of the code.\<close>

lemma statements_exact:
  "statements rd i stop =
     (if i < stop then rbind (statement rd i) (\<lambda>(child, j). rmap (\<lambda>rest. child # rest) (statements rd j stop)) else Inr [])"
proof (cases "i < stop")
  case True
  show ?thesis
  proof (cases "statement rd i")
    case (Inr x)
    obtain n j where x: "x = (n, j)" by (cases x)
    have "i < length (rd_words rd)" using Inr by (subst (asm) statement.simps) (auto split: if_splits)
    then show ?thesis using True Inr x statement_advances [of rd i n j] by (subst statements.simps) auto
  qed (use True in \<open>subst statements.simps, auto\<close>)
qed (subst statements.simps, simp)

section \<open>Ranges hold exactly the words of a table\<close>

definition within_ranges :: "(nat \<times> nat) list \<Rightarrow> nat \<Rightarrow> bool" where
  "within_ranges rs w \<longleftrightarrow> (\<exists>(a, b) \<in> set rs. a \<le> w \<and> w \<le> b)"

definition range_state :: "int \<Rightarrow> nat \<Rightarrow> (nat \<times> nat) list \<times> nat option \<times> nat option \<Rightarrow> bool" where
  "range_state bits n s \<longleftrightarrow> (case s of
     (result, None, None) \<Rightarrow> result = [] \<and> (\<forall>w < n. \<not> bit bits w)
   | (result, Some a, Some p) \<Rightarrow> a \<le> p \<and> p < n \<and> (\<forall>w < n. bit bits w \<longleftrightarrow> within_ranges (result @ [(a, p)]) w)
       \<and> list_all (\<lambda>(c, d). c \<le> d \<and> d + 1 < a) result \<and> sorted_wrt (\<lambda>r s. snd r + 1 < fst s) result
   | _ \<Rightarrow> False)"

lemma range_step_state:
  assumes "range_state bits n s"
  shows "range_state bits (Suc n) (range_step bits s n)"
proof -
  obtain result start previous where s: "s = (result, start, previous)" by (cases s)
  show ?thesis
  proof (cases "bit bits n")
    case False
    then show ?thesis using assms unfolding s
      by (auto simp: range_state_def range_step_def drop_bit_and_1 within_ranges_def less_Suc_eq list_all_iff split: option.splits)
  next
    case bit: True
    show ?thesis
    proof (cases start)
      case None
      then have "previous = None" "result = []" "\<forall>w < n. \<not> bit bits w"
        using assms unfolding s range_state_def by (auto split: option.splits)
      then show ?thesis using None bit unfolding s
        by (auto simp: range_state_def range_step_def drop_bit_and_1 within_ranges_def less_Suc_eq)
    next
      case (Some a)
      then obtain p where p: "previous = Some p" using assms unfolding s range_state_def by (auto split: option.splits)
      have h: "a \<le> p" "p < n" "\<forall>w < n. bit bits w \<longleftrightarrow> within_ranges (result @ [(a, p)]) w"
          "list_all (\<lambda>(c, d). c \<le> d \<and> d + 1 < a) result" "sorted_wrt (\<lambda>r s. snd r + 1 < fst s) result"
        using assms unfolding s range_state_def Some p by auto
      have old: "\<not> within_ranges (result @ [(a, p)]) n" using h(1,2,4) by (fastforce simp: within_ranges_def list_all_iff)
      show ?thesis
      proof (cases "n = p + 1")
        case True
        have "within_ranges (result @ [(a, n)]) w \<longleftrightarrow> within_ranges (result @ [(a, p)]) w \<or> w = n" for w
          using True h(1) by (auto simp: within_ranges_def)
        then show ?thesis using True h bit unfolding s Some p
          by (auto simp: range_state_def range_step_def drop_bit_and_1 less_Suc_eq)
      next
        case False
        have "within_ranges ((result @ [(a, p)]) @ [(n, n)]) w \<longleftrightarrow> within_ranges (result @ [(a, p)]) w \<or> w = n" for w
          by (auto simp: within_ranges_def)
        then show ?thesis using False h old bit unfolding s Some p
          by (auto simp: range_state_def range_step_def drop_bit_and_1 less_Suc_eq list_all_iff sorted_wrt_append)
      qed
    qed
  qed
qed

lemma range_state_foldl: "range_state bits n (foldl (range_step bits) ([], None, None) [0..<n])"
  by (induction n) (auto simp: range_step_state, simp add: range_state_def)

lemma ranges_upto_exact:
  "(\<forall>w < n. within_ranges (ranges_upto n bits) w \<longleftrightarrow> bit bits w)
   \<and> list_all (\<lambda>(a, b). a \<le> b \<and> b < n) (ranges_upto n bits)
   \<and> sorted_wrt (\<lambda>r s. snd r + 1 < fst s) (ranges_upto n bits)"
proof -
  obtain result start previous where s: "foldl (range_step bits) ([], None, None) [0..<n] = (result, start, previous)"
    by (metis prod_cases3)
  have st: "range_state bits n (result, start, previous)" using range_state_foldl [of bits n] s by simp
  show ?thesis
  proof (cases start)
    case None
    then show ?thesis using st s by (auto simp: range_state_def ranges_upto_def within_ranges_def split: option.splits)
  next
    case (Some a)
    then obtain p where p: "previous = Some p" using st unfolding range_state_def by (auto split: option.splits)
    then show ?thesis using st s Some
      by (fastforce simp: range_state_def ranges_upto_def list_all_iff sorted_wrt_append)
  qed
qed

end
