(* ===== verification/Dispatch_Flow.thy ===== *)
theory Dispatch_Flow
  imports Dispatch_Reader
begin

text \<open>
  The flow analysis of the dispatch census, \<open>tools/c54x_dispatch_audit.py\<close>: sets of opcodes, as bit
  tables, pushed through the statement tree.  A condition with a table splits the set, one without a table
  sends it both ways.  The concrete behaviour of a statement for one opcode is an inductive relation, and
  the analysis over-approximates it, but for the set of the returns, from which it drops those inside loops.
\<close>

section \<open>The analysis\<close>

record flow_context =
  fl_words :: "string list"
  fl_get :: "string \<Rightarrow> int option"
  fl_callee :: string

record handler =
  hd_node :: node
  hd_expression :: string
  hd_incoming :: int
  hd_matched :: int
  hd_depth :: nat

record flow_state =
  fs_calls :: "(node \<times> int) list"
  fs_handlers :: "handler list"

definition record_handler :: "node \<Rightarrow> string \<Rightarrow> int \<Rightarrow> int \<Rightarrow> nat \<Rightarrow> flow_state \<Rightarrow> flow_state" where
  "record_handler n e incoming matched depth st =
     st\<lparr>fs_handlers := fs_handlers st @ [\<lparr>hd_node = n, hd_expression = e, hd_incoming = incoming, hd_matched = matched, hd_depth = depth\<rparr>]\<rparr>"

type_synonym group = "node list \<times> node list"

text \<open>The labels and statements of a switch body, in groups.\<close>

definition group_step :: "group list \<times> node list \<times> node list \<Rightarrow> node \<Rightarrow> (group list \<times> node list \<times> node list) res" where
  "group_step s child = (case s of (groups, labels, children) \<Rightarrow>
     if nd_kind child = ''label'' then
       (if children \<noteq> [] then Inr (groups @ [(labels, children)], [child], []) else Inr (groups, labels @ [child], children))
     else if labels = [] then Inl (ValueError ''switch body precedes its labels'')
     else Inr (groups, labels, children @ [child]))"

definition switch_groups :: "node list \<Rightarrow> group list res" where
  "switch_groups body = rmap (\<lambda>(groups, labels, children). if labels \<noteq> [] then groups @ [(labels, children)] else groups)
     (rfold group_step ([], [], []) body)"

definition case_guard :: "string \<Rightarrow> node \<Rightarrow> string" where
  "case_guard e label = ''('' @ e @ '') == ('' @ nd_expression label @ '')''"

definition is_default :: "node \<Rightarrow> bool" where
  "is_default label \<longleftrightarrow> nd_expression label = ''default''"

definition explicit_words :: "flow_context \<Rightarrow> string \<Rightarrow> group list \<Rightarrow> int res" where
  "explicit_words fl e groups =
     rfold (\<lambda>explicit label. if is_default label then Inr explicit else
         (case fl_get fl (case_guard e label) of
            None \<Rightarrow> Inl (ValueError ''switch selector is not opcode-only'')
          | Some bits \<Rightarrow> Inr (explicit OR bits)))
       0 (concat (map fst groups))"

definition selected_words :: "flow_context \<Rightarrow> string \<Rightarrow> int \<Rightarrow> int \<Rightarrow> node list \<Rightarrow> int res" where
  "selected_words fl e incoming explicit labels =
     rfold (\<lambda>selected label. if is_default label then Inr (selected OR incoming AND NOT explicit) else
         (case fl_get fl (case_guard e label) of None \<Rightarrow> Inl TypeError | Some bits \<Rightarrow> Inr (selected OR incoming AND bits)))
       0 labels"

definition arm_node :: "group \<Rightarrow> node" where
  "arm_node g = (case g of (labels, children) \<Rightarrow>
     Node ''arm'' (nd_start (hd labels)) (nd_end (last children)) (join_with '','' (map nd_expression labels)) children None)"

definition condition_kind :: "node \<Rightarrow> bool" where
  "condition_kind n \<longleftrightarrow> nd_kind n = ''if'' \<or> nd_kind n = ''switch''"

lemma rbind_cong [fundef_cong]: "m = n \<Longrightarrow> (\<And>x. n = Inr x \<Longrightarrow> f x = g x) \<Longrightarrow> rbind m f = rbind n g"
  by (cases n) auto

lemma rfold_cong: "(\<And>s x. x \<in> set xs \<Longrightarrow> f s x = g s x) \<Longrightarrow> rfold f s xs = rfold g s xs"
  by (induction xs arbitrary: s) (simp_all cong: rbind_cong)

lemma group_step_parts:
  "rfold group_step (gs, ls, cs) body = Inr (gs', ls', cs') \<Longrightarrow>
   set (concat (map snd gs')) \<union> set cs' \<subseteq> set (concat (map snd gs)) \<union> set cs \<union> set body"
proof (induction body arbitrary: gs ls cs)
  case (Cons b body)
  obtain g l c where st: "group_step (gs, ls, cs) b = Inr (g, l, c)" "rfold group_step (g, l, c) body = Inr (gs', ls', cs')"
    using Cons.prems by (auto simp: rbind_eq_Inr)
  have "set (concat (map snd g)) \<union> set c \<subseteq> set (concat (map snd gs)) \<union> set cs \<union> {b}"
    using st(1) by (auto simp: group_step_def split: if_splits)
  then show ?case using Cons.IH [OF st(2)] unfolding list.set by blast
qed simp

lemma switch_groups_parts:
  assumes "switch_groups body = Inr groups"
  shows "set (concat (map snd groups)) \<subseteq> set body"
proof -
  obtain gs ls cs where r: "rfold group_step ([], [], []) body = Inr (gs, ls, cs)"
      "groups = (if ls \<noteq> [] then gs @ [(ls, cs)] else gs)"
    using assms by (auto simp: switch_groups_def rmap_eq_Inr)
  show ?thesis using group_step_parts [OF r(1)] unfolding r(2) by auto
qed

type_synonym flow_sets = "int \<times> int \<times> int"
type_synonym flow_result = "(flow_sets \<times> flow_state) res"

definition leaf_flow :: "flow_context \<Rightarrow> node \<Rightarrow> int \<Rightarrow> flow_state \<Rightarrow> flow_sets \<times> flow_state" where
  "leaf_flow fl n incoming st =
     (if nd_kind n = ''return'' then ((0, incoming, 0), st)
      else if nd_kind n = ''break'' then ((0, 0, incoming), st)
      else if nd_kind n = ''continue'' then ((incoming, 0, 0), st)
      else ((incoming, 0, 0), if call_count (fl_words fl) n (fl_callee fl) \<noteq> 0
            then st\<lparr>fs_calls := fs_calls st @ [(n, incoming)]\<rparr> else st))"

text \<open>The loop over the children of a block, and over the arms of a switch; \<open>f\<close> is the recursive call.\<close>

definition child_step :: "(node \<Rightarrow> int \<Rightarrow> flow_state \<Rightarrow> flow_result) \<Rightarrow> flow_sets \<times> flow_state \<Rightarrow> node \<Rightarrow> flow_result" where
  "child_step f s child = (case s of ((normal, returned, broken), st) \<Rightarrow>
     rmap (\<lambda>((nrm, ret, brk), st). ((nrm, returned OR ret, broken OR brk), st)) (f child normal st))"

definition flow_children :: "(node \<Rightarrow> int \<Rightarrow> flow_state \<Rightarrow> flow_result) \<Rightarrow> node list \<Rightarrow> int \<Rightarrow> flow_state \<Rightarrow> flow_result" where
  "flow_children f cs incoming st = rfold (child_step f) ((incoming, 0, 0), st) cs"

definition flow_arm :: "(node \<Rightarrow> int \<Rightarrow> flow_state \<Rightarrow> flow_result) \<Rightarrow> flow_context \<Rightarrow> string \<Rightarrow> int \<Rightarrow> int \<Rightarrow> nat
    \<Rightarrow> flow_sets \<times> flow_state \<Rightarrow> group \<Rightarrow> flow_result" where
  "flow_arm f fl x incoming explicit depth s g = (case (s, g) of (((fall, after, returned), st), (labels, children)) \<Rightarrow>
     rbind (selected_words fl x incoming explicit labels) (\<lambda>selected.
     if children = [] then Inl IndexError else
     let arm = arm_node g; entering = selected OR fall;
         st = record_handler arm (''switch ('' @ x @ ''): '' @ nd_expression arm) incoming entering depth st in
     rmap (\<lambda>((nrm, ret, brk), st). ((nrm, after OR brk, returned OR ret), st))
       (if entering = 0 then Inr ((0, 0, 0), st) else flow_children f children entering st)))"

definition flow_arms :: "(node \<Rightarrow> int \<Rightarrow> flow_state \<Rightarrow> flow_result) \<Rightarrow> flow_context \<Rightarrow> string \<Rightarrow> int \<Rightarrow> int \<Rightarrow> nat
    \<Rightarrow> group list \<Rightarrow> flow_state \<Rightarrow> flow_result" where
  "flow_arms f fl x incoming explicit depth groups st =
     rfold (flow_arm f fl x incoming explicit depth) ((0, 0, 0), st) groups"

lemma flow_children_cong [fundef_cong]:
  assumes "cs = ds" "i = j" "st = u" "\<And>y n v. y \<in> set ds \<Longrightarrow> f y n v = g y n v"
  shows "flow_children f cs i st = flow_children g ds j u"
  unfolding flow_children_def assms(1-3) using assms(4) by (intro rfold_cong) (simp add: child_step_def split: prod.splits)

lemma flow_arms_cong [fundef_cong]:
  assumes "fl = fm" "x = y" "i = j" "e = e'" "d = d'" "gs = hs" "st = u"
    "\<And>y n v. y \<in> set (concat (map snd hs)) \<Longrightarrow> f y n v = g y n v"
  shows "flow_arms f fl x i e d gs st = flow_arms g fm y j e' d' hs u"
  unfolding flow_arms_def assms(1-7)
proof (rule rfold_cong)
  fix s h assume h: "h \<in> set hs"
  obtain labels children where p: "h = (labels, children)" by (cases h)
  have eq: "flow_children f children = flow_children g children"
    using h p assms(8) by (intro ext flow_children_cong) force+
  show "flow_arm f fm y j e' d' s h = flow_arm g fm y j e' d' s h"
    unfolding flow_arm_def p prod.case eq ..
qed

text \<open>\<open>run\<close>: the words that fall through, return and break out of a switch.\<close>

function run_flow :: "flow_context \<Rightarrow> nat \<Rightarrow> node \<Rightarrow> int \<Rightarrow> flow_state \<Rightarrow> flow_result" where
  "run_flow fl depth (Node kind a b x cs otherwise) incoming st = (let n = Node kind a b x cs otherwise in
     if incoming = 0 then Inr ((0, 0, 0), if condition_kind n then record_handler n x 0 0 depth st else st)
     else if kind = ''block'' then flow_children (\<lambda>child i st. run_flow fl (depth + 1) child i st) cs incoming st
     else if kind = ''if'' then
       (let (yes, no) = (case fl_get fl x of None \<Rightarrow> (incoming, incoming) | Some bits \<Rightarrow> (incoming AND bits, incoming AND NOT bits));
            st = record_handler n x incoming yes depth st in
        case cs of [] \<Rightarrow> Inl IndexError | thn # _ \<Rightarrow>
        rbind (run_flow fl (depth + 1) thn yes st) (\<lambda>((n1, r1, b1), st).
        (case otherwise of
           None \<Rightarrow> Inr ((n1 OR no, r1, b1), st)
         | Some els \<Rightarrow> rmap (\<lambda>((n2, r2, b2), st). ((n1 OR n2, r1 OR r2, b1 OR b2), st)) (run_flow fl (depth + 1) els no st))))
     else if kind = ''switch'' then
       (case cs of [] \<Rightarrow> Inl IndexError | body # _ \<Rightarrow>
        rbind (switch_groups (nd_children body)) (\<lambda>groups.
        rbind (explicit_words fl x groups) (\<lambda>explicit.
        rmap (\<lambda>((fall, after, returned), st).
            ((after OR fall OR (if list_ex is_default (concat (map fst groups)) then 0 else incoming AND NOT explicit), returned, 0), st))
          (flow_arms (\<lambda>child i st. run_flow fl (depth + 2) child i st) fl x incoming explicit depth groups st))))
     else if kind = ''for'' \<or> kind = ''while'' then
       (case cs of [] \<Rightarrow> Inl IndexError | body # _ \<Rightarrow>
        rmap (\<lambda>(_, st). ((incoming, 0, 0), st)) (run_flow fl (depth + 1) body incoming st))
     else Inr (leaf_flow fl n incoming st))"
  by pat_completeness auto
termination
proof (relation "measure (\<lambda>(fl, depth, n, incoming, st). size n)", goal_cases)
  case (2 fl depth kind a b x cs otherwise incoming st n child)
  then show ?case using size_list_estimation' [of child cs "size child" size] by auto
next
  case (5 fl depth kind a b x cs otherwise incoming st n body rest groups explicit child)
  then have "child \<in> set (nd_children body)" using switch_groups_parts by blast
  then have "size child \<le> size body"
    using size_list_estimation' [of child "nd_children body" "size child" size] by (cases body) auto
  then show ?case using 5 by auto
qed auto

declare run_flow.simps [simp del]

section \<open>What a statement does for one word\<close>

text \<open>A condition with a table takes the way the table says; the others may go either way, and a loop may
  make any number of rounds.  A return from inside a loop ends the function like any other, but is told apart
  (\<open>Loop_Returns\<close>), because the analysis drops it.  The trace lists the plain statements reached and the
  conditions and arms whose body is entered.\<close>

datatype outcome = Falls | Returns | Loop_Returns | Breaks | Continues

datatype event = Reached node | Entered node

definition takes :: "flow_context \<Rightarrow> string \<Rightarrow> nat \<Rightarrow> bool \<Rightarrow> bool" where
  "takes fl x w way \<longleftrightarrow> (case fl_get fl x of None \<Rightarrow> True | Some bits \<Rightarrow> way = bit bits w)"

definition label_matches :: "flow_context \<Rightarrow> string \<Rightarrow> nat \<Rightarrow> node \<Rightarrow> bool" where
  "label_matches fl x w label \<longleftrightarrow> \<not> is_default label
     \<and> (case fl_get fl (case_guard x label) of None \<Rightarrow> False | Some bits \<Rightarrow> bit bits w)"

definition group_selected :: "flow_context \<Rightarrow> string \<Rightarrow> nat \<Rightarrow> group list \<Rightarrow> group \<Rightarrow> bool" where
  "group_selected fl x w groups g \<longleftrightarrow>
     list_ex (label_matches fl x w) (fst g)
     \<or> list_ex is_default (fst g) \<and> \<not> list_ex (label_matches fl x w) (concat (map fst groups))"

definition compound_kinds :: "string list" where
  "compound_kinds = [''block'', ''if'', ''switch'', ''for'', ''while'', ''return'', ''break'', ''continue'']"

inductive exec :: "flow_context \<Rightarrow> nat \<Rightarrow> node \<Rightarrow> outcome \<Rightarrow> event list \<Rightarrow> bool"
  and exec_list :: "flow_context \<Rightarrow> nat \<Rightarrow> node list \<Rightarrow> outcome \<Rightarrow> event list \<Rightarrow> bool"
  and exec_arms :: "flow_context \<Rightarrow> nat \<Rightarrow> group list \<Rightarrow> outcome \<Rightarrow> event list \<Rightarrow> bool"
  for fl :: flow_context and w :: nat where
  plain: "nd_kind n \<notin> set compound_kinds \<Longrightarrow> exec fl w n Falls [Reached n]"
| return: "nd_kind n = ''return'' \<Longrightarrow> exec fl w n Returns []"
| break: "nd_kind n = ''break'' \<Longrightarrow> exec fl w n Breaks []"
| continue: "nd_kind n = ''continue'' \<Longrightarrow> exec fl w n Continues []"
| block: "exec_list fl w cs out tr \<Longrightarrow> exec fl w (Node ''block'' a b x cs els) out tr"
| if_yes: "takes fl x w True \<Longrightarrow> exec fl w thn out tr \<Longrightarrow>
    exec fl w (Node ''if'' a b x (thn # rest) els) out (Entered (Node ''if'' a b x (thn # rest) els) # tr)"
| if_no: "takes fl x w False \<Longrightarrow> exec fl w (Node ''if'' a b x cs None) Falls []"
| if_else: "takes fl x w False \<Longrightarrow> exec fl w els out tr \<Longrightarrow> exec fl w (Node ''if'' a b x cs (Some els)) out tr"
| switch: "switch_groups (nd_children body) = Inr groups \<Longrightarrow>
    exec_arms fl w (dropWhile (\<lambda>g. \<not> group_selected fl x w groups g) groups) out tr \<Longrightarrow>
    exec fl w (Node ''switch'' a b x (body # rest) els) (if out = Breaks then Falls else out) tr"
| loop_stop: "k = ''for'' \<or> k = ''while'' \<Longrightarrow> exec fl w (Node k a b x (body # rest) els) Falls []"
| loop_round: "k = ''for'' \<or> k = ''while'' \<Longrightarrow> exec fl w body out1 tr1 \<Longrightarrow> out1 = Falls \<or> out1 = Continues \<Longrightarrow>
    exec fl w (Node k a b x (body # rest) els) out2 tr2 \<Longrightarrow> exec fl w (Node k a b x (body # rest) els) out2 (tr1 @ tr2)"
| loop_exit: "k = ''for'' \<or> k = ''while'' \<Longrightarrow> exec fl w body out tr \<Longrightarrow> out = Breaks \<or> out = Returns \<or> out = Loop_Returns \<Longrightarrow>
    exec fl w (Node k a b x (body # rest) els) (if out = Breaks then Falls else Loop_Returns) tr"
| nil: "exec_list fl w [] Falls []"
| go: "exec fl w c Falls tr1 \<Longrightarrow> exec_list fl w cs out tr2 \<Longrightarrow> exec_list fl w (c # cs) out (tr1 @ tr2)"
| leave: "exec fl w c out tr \<Longrightarrow> out \<noteq> Falls \<Longrightarrow> exec_list fl w (c # cs) out tr"
| no_arm: "exec_arms fl w [] Falls []"
| next_arm: "exec_list fl w (snd g) Falls tr1 \<Longrightarrow> exec_arms fl w gs out tr2 \<Longrightarrow>
    exec_arms fl w (g # gs) out (Entered (arm_node g) # tr1 @ tr2)"
| last_arm: "exec_list fl w (snd g) out tr \<Longrightarrow> out \<noteq> Falls \<Longrightarrow> exec_arms fl w (g # gs) out (Entered (arm_node g) # tr)"

definition event_covered :: "flow_context \<Rightarrow> nat \<Rightarrow> flow_state \<Rightarrow> event \<Rightarrow> bool" where
  "event_covered fl w st ev \<longleftrightarrow> (case ev of
     Reached n \<Rightarrow> call_count (fl_words fl) n (fl_callee fl) = 0 \<or> (\<exists>i. (n, i) \<in> set (fs_calls st) \<and> bit i w)
   | Entered n \<Rightarrow> \<exists>h \<in> set (fs_handlers st). hd_node h = n \<and> bit (hd_matched h) w)"

section \<open>Results only grow\<close>

definition state_extends :: "flow_state \<Rightarrow> flow_state \<Rightarrow> bool" where
  "state_extends st st' \<longleftrightarrow> set (fs_calls st) \<subseteq> set (fs_calls st') \<and> set (fs_handlers st) \<subseteq> set (fs_handlers st')"

lemma state_extends_refl [simp]: "state_extends st st"
  by (simp add: state_extends_def)

lemma state_extends_trans: "state_extends st u \<Longrightarrow> state_extends u v \<Longrightarrow> state_extends st v"
  by (auto simp: state_extends_def)

lemma record_extends [simp]: "state_extends st (record_handler n e i m d st)"
  by (auto simp: state_extends_def record_handler_def)

lemma covered_extends: "event_covered fl w st ev \<Longrightarrow> state_extends st st' \<Longrightarrow> event_covered fl w st' ev"
  by (auto simp: event_covered_def state_extends_def split: event.splits)

lemma flow_children_Nil [simp]: "flow_children f [] i st = Inr ((i, 0, 0), st)"
  by (simp add: flow_children_def)

lemma flow_bind: "rbind m (\<lambda>((n, r, b), st). F n r b st) = Inr y \<longleftrightarrow> (\<exists>n r b st. m = Inr ((n, r, b), st) \<and> F n r b st = Inr y)"
  for m :: flow_result
  by (cases m) auto

lemma flow_map: "rmap (\<lambda>((n, r, b), st). F n r b st) m = Inr y \<longleftrightarrow> (\<exists>n r b st. m = Inr ((n, r, b), st) \<and> F n r b st = y)"
  for m :: flow_result
  by (cases m) auto

lemma child_step_acc:
  "rfold (child_step f) ((i, r, b), st) cs = rmap (\<lambda>((n, r', b'), st). ((n, r OR r', b OR b'), st)) (flow_children f cs i st)"
proof (induction cs arbitrary: i r b st)
  case (Cons c cs)
  show ?case
  proof (cases "f c i st")
    case (Inr y)
    obtain n r' b' st' where y: "y = ((n, r', b'), st')" by (metis prod_cases3 surj_pair)
    have step: "child_step f ((i, r, b), st) c = Inr ((n, r OR r', b OR b'), st')" for r b
      using Inr y by (simp add: child_step_def)
    have l: "rfold (child_step f) ((i, r, b), st) (c # cs)
        = rmap (\<lambda>((n, s', c'), st). ((n, (r OR r') OR s', (b OR b') OR c'), st)) (flow_children f cs n st')" for r b
      using Cons [of n "r OR r'" "b OR b'" st'] by (simp add: step)
    show ?thesis unfolding l using l [of 0 0, folded flow_children_def]
      by (cases "flow_children f cs n st'") (auto simp: ac_simps)
  qed (simp add: flow_children_def child_step_def)
qed (simp add: flow_children_def)

lemma flow_children_Cons:
  "flow_children f (c # cs) i st = rbind (f c i st) (\<lambda>((n, r, b), st).
     rmap (\<lambda>((n', r', b'), st). ((n', r OR r', b OR b'), st)) (flow_children f cs n st))"
proof (cases "f c i st")
  case (Inr y)
  obtain n r' b' st' where y: "y = ((n, r', b'), st')" by (metis prod_cases3 surj_pair)
  show ?thesis using Inr y child_step_acc [of f n r' b' st' cs] by (simp add: flow_children_def child_step_def)
qed (simp add: flow_children_def child_step_def)

lemma flow_children_extends:
  assumes "\<And>c i st r st'. c \<in> set cs \<Longrightarrow> f c i st = Inr (r, st') \<Longrightarrow> state_extends st st'"
    and "flow_children f cs i st = Inr (r, st')"
  shows "state_extends st st'"
  using assms
proof (induction cs arbitrary: i st r)
  case (Cons c cs)
  obtain n r' b' u v where "f c i st = Inr ((n, r', b'), u)" "flow_children f cs n u = Inr (v, st')"
    using Cons.prems(2) unfolding flow_children_Cons flow_bind flow_map by auto
  moreover have "state_extends u st'" using Cons.IH [of n u v] Cons.prems(1) calculation(2) by (meson list.set_intros(2))
  ultimately show ?case using Cons.prems(1) [of c] by (meson list.set_intros(1) state_extends_trans)
qed simp

lemma rfold_extends:
  assumes "\<And>g s r st'. g \<in> set gs \<Longrightarrow> step s g = Inr (r, st') \<Longrightarrow> state_extends (snd s) st'" and "rfold step s gs = Inr (r, st')"
  shows "state_extends (snd s) st'"
  using assms
proof (induction gs arbitrary: s)
  case (Cons g gs)
  obtain t where t: "step s g = Inr t" "rfold step t gs = Inr (r, st')" using Cons.prems(2) by (auto simp: rbind_eq_Inr)
  have "state_extends (snd s) (snd t)" using Cons.prems(1) [of g s "fst t" "snd t"] t(1) by simp
  moreover have "state_extends (snd t) st'" using Cons.IH [OF _ t(2)] Cons.prems(1) by (meson list.set_intros(2))
  ultimately show ?case by (rule state_extends_trans)
qed simp

lemma flow_arm_elim:
  assumes "flow_arm f fl x inc explicit d ((fall, after, returned), st) g = Inr ((fall', after', returned'), st')"
  obtains selected r b e where "selected_words fl x inc explicit (fst g) = Inr selected" "snd g \<noteq> []"
    "after' = after OR b" "returned' = returned OR r"
    "(if selected OR fall = 0 then Inr ((0, 0, 0), record_handler (arm_node g) e inc (selected OR fall) d st)
      else flow_children f (snd g) (selected OR fall) (record_handler (arm_node g) e inc (selected OR fall) d st)) = Inr ((fall', r, b), st')"
proof -
  obtain labels children where g: "g = (labels, children)" by (cases g)
  let ?e = "''switch ('' @ x @ ''): '' @ nd_expression (arm_node g)"
  obtain sel where sel: "selected_words fl x inc explicit (fst g) = Inr sel" "snd g \<noteq> []"
      "rmap (\<lambda>((nrm, ret, brk), st). ((nrm, after OR brk, returned OR ret), st))
        (if sel OR fall = 0 then Inr ((0, 0, 0), record_handler (arm_node g) ?e inc (sel OR fall) d st)
         else flow_children f (snd g) (sel OR fall) (record_handler (arm_node g) ?e inc (sel OR fall) d st))
       = Inr ((fall', after', returned'), st')"
    using assms unfolding g flow_arm_def prod.case rbind_eq_Inr Let_def by (auto split: if_split_asm)
  then obtain r b where "after' = after OR b" "returned' = returned OR r"
      "(if sel OR fall = 0 then Inr ((0, 0, 0), record_handler (arm_node g) ?e inc (sel OR fall) d st)
        else flow_children f (snd g) (sel OR fall) (record_handler (arm_node g) ?e inc (sel OR fall) d st)) = Inr ((fall', r, b), st')"
    unfolding flow_map by blast
  then show thesis using that [OF sel(1,2)] by blast
qed

lemma flow_arm_extends:
  assumes "\<And>c i st r st'. c \<in> set (snd g) \<Longrightarrow> f c i st = Inr (r, st') \<Longrightarrow> state_extends st st'"
    and "flow_arm f fl x inc explicit d s g = Inr (r, st')"
  shows "state_extends (snd s) st'"
proof -
  obtain fall after returned st fall' after' returned' where s: "s = ((fall, after, returned), st)" "r = (fall', after', returned')"
    by (metis prod_cases3 surj_pair)
  obtain u i y where u: "state_extends st u" "(if i = 0 then Inr ((0, 0, 0), u) else flow_children f (snd g) i u) = Inr (y, st')"
    using assms(2) unfolding s by (rule flow_arm_elim) (metis record_extends)
  have "state_extends u st'" using u(2) flow_children_extends [OF assms(1), of "snd g"] by (cases "i = 0") auto
  then show ?thesis using u(1) s by (auto intro: state_extends_trans)
qed

lemma flow_arms_extends:
  assumes "\<And>c i st r st'. c \<in> set (concat (map snd gs)) \<Longrightarrow> f c i st = Inr (r, st') \<Longrightarrow> state_extends st st'"
    and "rfold (flow_arm f fl x inc explicit d) s gs = Inr (r, st')"
  shows "state_extends (snd s) st'"
proof (rule rfold_extends [OF _ assms(2)])
  fix g s r st' assume g: "g \<in> set gs" "flow_arm f fl x inc explicit d s g = Inr (r, st')"
  have c: "c \<in> set (concat (map snd gs))" if "c \<in> set (snd g)" for c using g(1) that by auto
  show "state_extends (snd s) st'" by (rule flow_arm_extends [OF assms(1) [OF c] g(2)])
qed

text \<open>\<open>run\<close> by the kind of its node.\<close>

lemma run_zero: "run_flow fl d n 0 st = Inr ((0, 0, 0), if condition_kind n then record_handler n (nd_expression n) 0 0 d st else st)"
  by (cases n) (simp add: run_flow.simps)

lemma run_block: "inc \<noteq> 0 \<Longrightarrow> run_flow fl d (Node ''block'' a b x cs els) inc st = flow_children (run_flow fl (d + 1)) cs inc st"
  by (simp add: run_flow.simps)

lemma run_loop: "inc \<noteq> 0 \<Longrightarrow> k = ''for'' \<or> k = ''while'' \<Longrightarrow> run_flow fl d (Node k a b x (body # cs) els) inc st =
    rmap (\<lambda>(_, st). ((inc, 0, 0), st)) (run_flow fl (d + 1) body inc st)"
  by (auto simp: run_flow.simps)

lemma run_leaf: "inc \<noteq> 0 \<Longrightarrow> nd_kind n \<notin> {''block'', ''if'', ''switch'', ''for'', ''while''} \<Longrightarrow> run_flow fl d n inc st = Inr (leaf_flow fl n inc st)"
  by (cases n) (simp add: run_flow.simps)

lemma run_if_elim:
  assumes "run_flow fl d (Node ''if'' a b x (thn # cs) els) inc st = Inr ((n, r, k), st')" and "inc \<noteq> 0"
  obtains yes no n1 r1 k1 u n2 r2 k2 where
    "(yes, no) = (case fl_get fl x of None \<Rightarrow> (inc, inc) | Some bits \<Rightarrow> (inc AND bits, inc AND NOT bits))"
    "run_flow fl (d + 1) thn yes (record_handler (Node ''if'' a b x (thn # cs) els) x inc yes d st) = Inr ((n1, r1, k1), u)"
    "(case els of None \<Rightarrow> Inr ((no, 0, 0), u) | Some e \<Rightarrow> run_flow fl (d + 1) e no u) = Inr ((n2, r2, k2), st')"
    "n = n1 OR n2" "r = r1 OR r2" "k = k1 OR k2"
proof -
  obtain yes no where y: "(yes, no) = (case fl_get fl x of None \<Rightarrow> (inc, inc) | Some bits \<Rightarrow> (inc AND bits, inc AND NOT bits))"
    by (metis surj_pair)
  obtain n1 r1 k1 u where u: "run_flow fl (d + 1) thn yes (record_handler (Node ''if'' a b x (thn # cs) els) x inc yes d st) = Inr ((n1, r1, k1), u)"
      "(case els of None \<Rightarrow> Inr ((n1 OR no, r1, k1), u)
        | Some e \<Rightarrow> rmap (\<lambda>((n2, r2, b2), st). ((n1 OR n2, r1 OR r2, k1 OR b2), st)) (run_flow fl (d + 1) e no u)) = Inr ((n, r, k), st')"
    using assms unfolding run_flow.simps Let_def y [symmetric] by (auto simp: flow_bind)
  show thesis
  proof (cases els)
    case None
    then show thesis using that [OF y u(1), of no 0 0] u(2) by auto
  next
    case (Some e)
    then obtain n2 r2 k2 where "run_flow fl (d + 1) e no u = Inr ((n2, r2, k2), st')" "n = n1 OR n2" "r = r1 OR r2" "k = k1 OR k2"
      using u(2) by (auto simp: flow_map)
    then show thesis using that [OF y u(1), of n2 r2 k2] Some by simp
  qed
qed

lemma run_switch_elim:
  assumes "run_flow fl d (Node ''switch'' a b x (body # cs) els) inc st = Inr ((n, r, k), st')" and "inc \<noteq> 0"
  obtains groups explicit fall after where "switch_groups (nd_children body) = Inr groups" "explicit_words fl x groups = Inr explicit"
    "flow_arms (run_flow fl (d + 2)) fl x inc explicit d groups st = Inr ((fall, after, r), st')" "k = 0"
    "n = after OR fall OR (if list_ex is_default (concat (map fst groups)) then 0 else inc AND NOT explicit)"
  using assms that unfolding run_flow.simps Let_def by (auto simp: rbind_eq_Inr flow_map)

lemma run_flow_extends: "run_flow fl d n inc st = Inr (r, st') \<Longrightarrow> state_extends st st'"
proof (induction n arbitrary: d inc st r st' rule: measure_induct_rule [of size])
  case (less n)
  obtain kind a b x cs els where n: "n = Node kind a b x cs els" by (cases n)
  show ?case
  proof (cases "inc = 0")
    case True
    then show ?thesis using less.prems run_zero [of fl d n st] by (auto split: if_splits)
  next
    case False
    consider "kind = ''block''" | "kind = ''if''" | "kind = ''switch''" | "kind = ''for'' \<or> kind = ''while''"
      | "kind \<notin> {''block'', ''if'', ''switch'', ''for'', ''while''}" by auto
    then show ?thesis
    proof cases
      case 1
      have "size c < size n" if "c \<in> set cs" for c
        using that size_list_estimation' [of c cs "size c" size] unfolding n by auto
      then show ?thesis
        using less.prems less.IH flow_children_extends [of cs "run_flow fl (d + 1)" inc st r st']
        unfolding n 1 run_block [OF False] by blast
    next
      case 2
      obtain thn rest where cs: "cs = thn # rest" using less.prems False unfolding n 2 run_flow.simps
        by (cases cs) (auto simp: Let_def split: prod.splits)
      obtain n' r' k' where r: "r = (n', r', k')" by (metis prod_cases3)
      from less.prems [unfolded n 2 cs r] False show ?thesis
      proof (rule run_if_elim)
        fix yes n1 r1 k1 u no n2 r2 k2
        let ?n = "Node ''if'' a b x (thn # rest) els"
        assume h: "run_flow fl (d + 1) thn yes (record_handler ?n x inc yes d st) = Inr ((n1, r1, k1), u)"
          "(case els of None \<Rightarrow> Inr ((no, 0, 0), u) | Some e \<Rightarrow> run_flow fl (d + 1) e no u) = Inr ((n2, r2, k2), st')"
        have "state_extends u st'" using h(2) less.IH [of "the els"] unfolding n by (cases els) auto
        moreover have "state_extends (record_handler ?n x inc yes d st) u" using less.IH [OF _ h(1)] unfolding n cs by simp
        ultimately show ?thesis by (meson record_extends state_extends_trans)
      qed
    next
      case 3
      obtain body rest where cs: "cs = body # rest" using less.prems False unfolding n 3 run_flow.simps
        by (cases cs) (auto simp: Let_def)
      obtain n' r' k' where r: "r = (n', r', k')" by (metis prod_cases3)
      from less.prems [unfolded n 3 cs r] False show ?thesis
      proof (rule run_switch_elim)
        fix groups explicit fall after
        assume h: "switch_groups (nd_children body) = Inr groups"
          "flow_arms (run_flow fl (d + 2)) fl x inc explicit d groups st = Inr ((fall, after, r'), st')"
        have "size c < size n" if "c \<in> set (concat (map snd groups))" for c
          using that switch_groups_parts [OF h(1)] size_list_estimation' [of c "nd_children body" "size c" size]
          unfolding n cs by (cases body) fastforce
        then have "state_extends u v" if "c \<in> set (concat (map snd groups))" "run_flow fl (d + 2) c i u = Inr (y, v)" for c i u y v
          using less.IH that by blast
        from flow_arms_extends [OF this h(2) [unfolded flow_arms_def]] show ?thesis by simp
      qed
    next
      case 4
      obtain body rest where cs: "cs = body # rest" using less.prems False 4 unfolding n run_flow.simps
        by (cases cs) (auto simp: Let_def)
      obtain r' where "run_flow fl (d + 1) body inc st = Inr (r', st')"
        using less.prems unfolding n cs run_loop [OF False 4] by (auto simp: rmap_eq_Inr)
      then show ?thesis using less.IH [of body] unfolding n cs by simp
    next
      case 5
      have "nd_kind n \<notin> {''block'', ''if'', ''switch'', ''for'', ''while''}" using 5 n by simp
      then show ?thesis using less.prems run_leaf [OF False, of n fl d st]
        by (auto simp: leaf_flow_def state_extends_def split: if_splits)
    qed
  qed
qed

section \<open>The analysis covers every run\<close>

lemma explicit_words_bit:
  assumes "explicit_words fl x groups = Inr e"
  shows "bit e w \<longleftrightarrow> list_ex (label_matches fl x w) (concat (map fst groups))"
proof -
  have "bit e w \<longleftrightarrow> bit e0 w \<or> list_ex (label_matches fl x w) ls"
    if "rfold (\<lambda>explicit label. if is_default label then Inr explicit else
         (case fl_get fl (case_guard x label) of
            None \<Rightarrow> Inl (ValueError ''switch selector is not opcode-only'')
          | Some bits \<Rightarrow> Inr (explicit OR bits))) e0 ls = Inr e" for e0 ls
    using that
  proof (induction ls arbitrary: e0)
    case (Cons l ls)
    then show ?case
      by (cases "is_default l"; cases "fl_get fl (case_guard x l)") (auto simp: label_matches_def bit_or_iff)
  qed simp
  from this [OF assms [unfolded explicit_words_def]] show ?thesis by simp
qed

lemma selected_words_bit:
  assumes "selected_words fl x inc explicit labels = Inr s"
  shows "bit s w \<longleftrightarrow> bit inc w \<and> (list_ex (label_matches fl x w) labels \<or> list_ex is_default labels \<and> \<not> bit explicit w)"
proof -
  have "bit s w \<longleftrightarrow> bit s0 w \<or> bit inc w \<and> (list_ex (label_matches fl x w) ls \<or> list_ex is_default ls \<and> \<not> bit explicit w)"
    if "rfold (\<lambda>selected label. if is_default label then Inr (selected OR inc AND NOT explicit) else
         (case fl_get fl (case_guard x label) of None \<Rightarrow> Inl TypeError | Some bits \<Rightarrow> Inr (selected OR inc AND bits))) s0 ls = Inr s" for s0 ls
    using that
  proof (induction ls arbitrary: s0)
    case (Cons l ls)
    then show ?case
      by (cases "is_default l"; cases "fl_get fl (case_guard x l)")
        (auto simp: label_matches_def bit_or_iff bit_and_iff bit_not_iff)
  qed simp
  from this [OF assms [unfolded selected_words_def]] show ?thesis by simp
qed

lemma selected_group_bit:
  assumes "explicit_words fl x groups = Inr e" "selected_words fl x inc e (fst g) = Inr s" "bit inc w"
  shows "bit s w \<longleftrightarrow> group_selected fl x w groups g"
  using selected_words_bit [OF assms(2)] explicit_words_bit [OF assms(1)] assms(3) by (simp add: group_selected_def)

text \<open>What the relation promises of a result.\<close>

definition result_sound :: "flow_context \<Rightarrow> nat \<Rightarrow> outcome \<Rightarrow> event list \<Rightarrow> int \<Rightarrow> int \<Rightarrow> int \<Rightarrow> flow_state \<Rightarrow> bool" where
  "result_sound fl w out tr f r k st \<longleftrightarrow>
     (out = Falls \<longrightarrow> bit f w) \<and> (out = Returns \<longrightarrow> bit r w) \<and> (out = Breaks \<longrightarrow> bit k w) \<and> (\<forall>ev \<in> set tr. event_covered fl w st ev)"

definition node_sound :: "flow_context \<Rightarrow> nat \<Rightarrow> node \<Rightarrow> outcome \<Rightarrow> event list \<Rightarrow> bool" where
  "node_sound fl w n out tr \<longleftrightarrow> (\<forall>d inc st f r k st'. run_flow fl d n inc st = Inr ((f, r, k), st') \<longrightarrow> bit inc w \<longrightarrow>
     result_sound fl w out tr f r k st')"

definition list_sound :: "flow_context \<Rightarrow> nat \<Rightarrow> node list \<Rightarrow> outcome \<Rightarrow> event list \<Rightarrow> bool" where
  "list_sound fl w cs out tr \<longleftrightarrow> (\<forall>d inc st f r k st'. flow_children (run_flow fl d) cs inc st = Inr ((f, r, k), st') \<longrightarrow> bit inc w \<longrightarrow>
     result_sound fl w out tr f r k st')"

definition arms_sound :: "flow_context \<Rightarrow> nat \<Rightarrow> group list \<Rightarrow> outcome \<Rightarrow> event list \<Rightarrow> bool" where
  "arms_sound fl w gs out tr \<longleftrightarrow> (\<forall>x inc e d fall after ret st f a r st'.
     rfold (flow_arm (run_flow fl (d + 2)) fl x inc e d) ((fall, after, ret), st) gs = Inr ((f, a, r), st') \<longrightarrow>
     (case gs of [] \<Rightarrow> bit fall w | g # _ \<Rightarrow> bit fall w \<or> (\<forall>s. selected_words fl x inc e (fst g) = Inr s \<longrightarrow> bit s w)) \<longrightarrow>
     result_sound fl w out tr f r a st')"

lemma bit_nonzero: "bit i w \<Longrightarrow> i \<noteq> 0" for i :: int
  by auto

lemma children_extend: "flow_children (run_flow fl d) cs i st = Inr (r, st') \<Longrightarrow> state_extends st st'"
  by (rule flow_children_extends [OF run_flow_extends])

lemma arms_extend: "rfold (flow_arm (run_flow fl d') fl x inc e d) s gs = Inr (r, st') \<Longrightarrow> state_extends (snd s) st'"
  by (rule flow_arms_extends [OF run_flow_extends])

lemma arms_keep:
  assumes "rfold (flow_arm f fl x inc e d) ((fall, after, ret), st) gs = Inr ((fall', after', ret'), st')"
  shows "(bit after w \<longrightarrow> bit after' w) \<and> (bit ret w \<longrightarrow> bit ret' w)"
  using assms
proof (induction gs arbitrary: fall after ret st)
  case (Cons g gs)
  obtain f1 a1 r1 u where u: "flow_arm f fl x inc e d ((fall, after, ret), st) g = Inr ((f1, a1, r1), u)"
      "rfold (flow_arm f fl x inc e d) ((f1, a1, r1), u) gs = Inr ((fall', after', ret'), st')"
    using Cons.prems by (auto simp: rbind_eq_Inr)
  from u(1) have "(bit after w \<longrightarrow> bit a1 w) \<and> (bit ret w \<longrightarrow> bit r1 w)" by (rule flow_arm_elim) (auto simp: bit_or_iff)
  then show ?case using Cons.IH [OF u(2)] by blast
qed simp

lemma arm_entered:
  assumes "flow_arm (run_flow fl (d + 2)) fl x inc e d ((fall, after, ret), st) g = Inr ((f, a, r), st')"
    and "bit fall w \<or> (\<forall>s. selected_words fl x inc e (fst g) = Inr s \<longrightarrow> bit s w)"
  obtains i b r' u where "flow_children (run_flow fl (d + 2)) (snd g) i u = Inr ((f, r', b), st')" "bit i w"
    "a = after OR b" "r = ret OR r'" "event_covered fl w u (Entered (arm_node g))"
  using assms(1)
proof (rule flow_arm_elim)
  fix sel rr b x'
  let ?u = "record_handler (arm_node g) x' inc (sel OR fall) d st"
  assume h: "selected_words fl x inc e (fst g) = Inr sel" "a = after OR b" "r = ret OR rr"
    "(if sel OR fall = 0 then Inr ((0, 0, 0), ?u) else flow_children (run_flow fl (d + 2)) (snd g) (sel OR fall) ?u) = Inr ((f, rr, b), st')"
  have i: "bit (sel OR fall) w" using assms(2) h(1) by (auto simp: bit_or_iff)
  moreover have "event_covered fl w ?u (Entered (arm_node g))" using i by (simp add: event_covered_def record_handler_def)
  ultimately show thesis using that h bit_nonzero [OF i] by auto
qed

lemma sound_next_arm:
  assumes "list_sound fl w (snd g) Falls tr1" and "arms_sound fl w gs out tr2"
  shows "arms_sound fl w (g # gs) out (Entered (arm_node g) # tr1 @ tr2)"
  unfolding arms_sound_def
proof (intro allI impI)
  fix x inc e d fall after ret st f a r st'
  assume run: "rfold (flow_arm (run_flow fl (d + 2)) fl x inc e d) ((fall, after, ret), st) (g # gs) = Inr ((f, a, r), st')"
    and pre: "case g # gs of [] \<Rightarrow> bit fall w | g # _ \<Rightarrow> bit fall w \<or> (\<forall>s. selected_words fl x inc e (fst g) = Inr s \<longrightarrow> bit s w)"
  obtain f1 a1 r1 u where u: "flow_arm (run_flow fl (d + 2)) fl x inc e d ((fall, after, ret), st) g = Inr ((f1, a1, r1), u)"
      "rfold (flow_arm (run_flow fl (d + 2)) fl x inc e d) ((f1, a1, r1), u) gs = Inr ((f, a, r), st')"
    using run by (auto simp: rbind_eq_Inr)
  from u(1) pre [unfolded list.case] obtain i b r' v where
    v: "flow_children (run_flow fl (d + 2)) (snd g) i v = Inr ((f1, r', b), u)" "bit i w" "event_covered fl w v (Entered (arm_node g))"
    by (rule arm_entered)
  have 1: "bit f1 w" "\<forall>ev \<in> set tr1. event_covered fl w u ev"
    using assms(1) v(1,2) unfolding list_sound_def result_sound_def by blast+
  have 2: "result_sound fl w out tr2 f r a st'"
    using assms(2) u(2) 1(1) unfolding arms_sound_def by (auto split: list.splits)
  have "state_extends v u" "state_extends u st'" using children_extend [OF v(1)] arms_extend [OF u(2)] by auto
  then show "result_sound fl w out (Entered (arm_node g) # tr1 @ tr2) f r a st'"
    using 1(2) 2 v(3) by (auto simp: result_sound_def intro: covered_extends state_extends_trans)
qed

lemma sound_last_arm:
  assumes "list_sound fl w (snd g) out tr" and "out \<noteq> Falls"
  shows "arms_sound fl w (g # gs) out (Entered (arm_node g) # tr)"
  unfolding arms_sound_def
proof (intro allI impI)
  fix x inc e d fall after ret st f a r st'
  assume run: "rfold (flow_arm (run_flow fl (d + 2)) fl x inc e d) ((fall, after, ret), st) (g # gs) = Inr ((f, a, r), st')"
    and pre: "case g # gs of [] \<Rightarrow> bit fall w | g # _ \<Rightarrow> bit fall w \<or> (\<forall>s. selected_words fl x inc e (fst g) = Inr s \<longrightarrow> bit s w)"
  obtain f1 a1 r1 u where u: "flow_arm (run_flow fl (d + 2)) fl x inc e d ((fall, after, ret), st) g = Inr ((f1, a1, r1), u)"
      "rfold (flow_arm (run_flow fl (d + 2)) fl x inc e d) ((f1, a1, r1), u) gs = Inr ((f, a, r), st')"
    using run by (auto simp: rbind_eq_Inr)
  from u(1) pre [unfolded list.case] obtain i b r' v where
    v: "flow_children (run_flow fl (d + 2)) (snd g) i v = Inr ((f1, r', b), u)" "bit i w" "a1 = after OR b" "r1 = ret OR r'"
      "event_covered fl w v (Entered (arm_node g))"
    by (rule arm_entered)
  have 1: "result_sound fl w out tr f1 r' b u"
    using assms(1) v(1,2) unfolding list_sound_def by blast
  have "(bit a1 w \<longrightarrow> bit a w) \<and> (bit r1 w \<longrightarrow> bit r w)" using arms_keep [OF u(2)] .
  moreover have "state_extends v u" "state_extends u st'" using children_extend [OF v(1)] arms_extend [OF u(2)] by auto
  ultimately show "result_sound fl w out (Entered (arm_node g) # tr) f r a st'"
    using 1 v(3-) assms(2) by (auto simp: result_sound_def bit_or_iff intro: covered_extends state_extends_trans)
qed

lemma sound_go:
  assumes "node_sound fl w c Falls tr1" and "list_sound fl w cs out tr2"
  shows "list_sound fl w (c # cs) out (tr1 @ tr2)"
  unfolding list_sound_def
proof (intro allI impI)
  fix d inc st f r k st'
  assume run: "flow_children (run_flow fl d) (c # cs) inc st = Inr ((f, r, k), st')" and i: "bit inc w"
  obtain n1 r1 k1 u r2 k2 where u: "run_flow fl d c inc st = Inr ((n1, r1, k1), u)" "flow_children (run_flow fl d) cs n1 u = Inr ((f, r2, k2), st')"
      "r = r1 OR r2" "k = k1 OR k2"
    using run unfolding flow_children_Cons flow_bind flow_map by auto
  have 1: "bit n1 w" "\<forall>ev \<in> set tr1. event_covered fl w u ev"
    using assms(1) u(1) i unfolding node_sound_def result_sound_def by blast+
  have "result_sound fl w out tr2 f r2 k2 st'" using assms(2) u(2) 1(1) unfolding list_sound_def by blast
  then show "result_sound fl w out (tr1 @ tr2) f r k st'"
    using 1(2) u(3,4) children_extend [OF u(2)] by (auto simp: result_sound_def bit_or_iff intro: covered_extends)
qed

lemma sound_leave:
  assumes "node_sound fl w c out tr" and "out \<noteq> Falls"
  shows "list_sound fl w (c # cs) out tr"
  unfolding list_sound_def
proof (intro allI impI)
  fix d inc st f r k st'
  assume run: "flow_children (run_flow fl d) (c # cs) inc st = Inr ((f, r, k), st')" and i: "bit inc w"
  obtain n1 r1 k1 u r2 k2 where u: "run_flow fl d c inc st = Inr ((n1, r1, k1), u)" "flow_children (run_flow fl d) cs n1 u = Inr ((f, r2, k2), st')"
      "r = r1 OR r2" "k = k1 OR k2"
    using run unfolding flow_children_Cons flow_bind flow_map by auto
  have "result_sound fl w out tr n1 r1 k1 u" using assms(1) u(1) i unfolding node_sound_def by blast
  then show "result_sound fl w out tr f r k st'"
    using assms(2) u(3,4) children_extend [OF u(2)] by (auto simp: result_sound_def bit_or_iff intro: covered_extends)
qed

lemma sound_block: "list_sound fl w cs out tr \<Longrightarrow> node_sound fl w (Node ''block'' a b x cs els) out tr"
  unfolding node_sound_def list_sound_def
proof (intro allI impI)
  fix d inc st f r k st'
  assume l: "\<forall>d inc st f r k st'. flow_children (run_flow fl d) cs inc st = Inr ((f, r, k), st') \<longrightarrow> bit inc w \<longrightarrow>
       result_sound fl w out tr f r k st'"
    and run: "run_flow fl d (Node ''block'' a b x cs els) inc st = Inr ((f, r, k), st')" and i: "bit inc w"
  show "result_sound fl w out tr f r k st'"
    using l run i unfolding run_block [OF bit_nonzero [OF i]] by blast
qed

lemma sound_if_yes:
  assumes "takes fl x w True" and "node_sound fl w thn out tr"
  shows "node_sound fl w (Node ''if'' a b x (thn # cs) els) out (Entered (Node ''if'' a b x (thn # cs) els) # tr)"
  unfolding node_sound_def
proof (intro allI impI)
  fix d inc st f r k st'
  let ?n = "Node ''if'' a b x (thn # cs) els"
  assume run: "run_flow fl d ?n inc st = Inr ((f, r, k), st')" and i: "bit inc w"
  from run bit_nonzero [OF i] show "result_sound fl w out (Entered ?n # tr) f r k st'"
  proof (rule run_if_elim)
    fix yes no n1 r1 k1 u n2 r2 k2
    let ?u = "record_handler ?n x inc yes d st"
    assume h: "(yes, no) = (case fl_get fl x of None \<Rightarrow> (inc, inc) | Some bits \<Rightarrow> (inc AND bits, inc AND NOT bits))"
      "run_flow fl (d + 1) thn yes ?u = Inr ((n1, r1, k1), u)"
      "(case els of None \<Rightarrow> Inr ((no, 0, 0), u) | Some e \<Rightarrow> run_flow fl (d + 1) e no u) = Inr ((n2, r2, k2), st')"
      "f = n1 OR n2" "r = r1 OR r2" "k = k1 OR k2"
    have y: "bit yes w" using h(1) assms(1) i by (auto simp: takes_def bit_and_iff split: option.splits)
    have 1: "result_sound fl w out tr n1 r1 k1 u" using assms(2) h(2) y unfolding node_sound_def by blast
    have e: "state_extends u st'" using h(3) run_flow_extends [of fl "d + 1" "the els" no u] by (cases els) auto
    have "event_covered fl w ?u (Entered ?n)" using y by (simp add: event_covered_def record_handler_def)
    then have "event_covered fl w st' (Entered ?n)" using e run_flow_extends [OF h(2)] by (meson covered_extends)
    then show ?thesis using 1 e h(4-6) by (auto simp: result_sound_def bit_or_iff intro: covered_extends)
  qed
qed

lemma sound_if_no:
  assumes "takes fl x w False"
  shows "node_sound fl w (Node ''if'' a b x cs None) Falls []"
    and "node_sound fl w els out tr \<Longrightarrow> node_sound fl w (Node ''if'' a b x cs (Some els)) out tr"
proof -
  have else_way: "\<exists>no u n2 r2 k2 n1 r1 k1. bit no w
      \<and> (case e of None \<Rightarrow> Inr ((no, 0, 0), u) | Some e \<Rightarrow> run_flow fl (d + 1) e no u) = Inr ((n2, r2, k2), st')
      \<and> f = n1 OR n2 \<and> r = r1 OR r2 \<and> k = k1 OR k2"
    if run: "run_flow fl d (Node ''if'' a b x cs e) inc st = Inr ((f, r, k), st')" and i: "bit inc w" for d e inc st f r k st'
  proof -
    obtain thn rest where cs: "cs = thn # rest" using run bit_nonzero [OF i] unfolding run_flow.simps
      by (cases cs) (auto simp: Let_def split: prod.splits)
    from run [unfolded cs] bit_nonzero [OF i] show ?thesis
    proof (rule run_if_elim)
      fix yes no n1 r1 k1 u n2 r2 k2
      assume h: "(yes, no) = (case fl_get fl x of None \<Rightarrow> (inc, inc) | Some bits \<Rightarrow> (inc AND bits, inc AND NOT bits))"
        "(case e of None \<Rightarrow> Inr ((no, 0, 0), u) | Some e \<Rightarrow> run_flow fl (d + 1) e no u) = Inr ((n2, r2, k2), st')"
        "f = n1 OR n2" "r = r1 OR r2" "k = k1 OR k2"
      have "bit no w" using h(1) assms(1) i by (auto simp: takes_def bit_and_iff bit_not_iff split: option.splits)
      then show ?thesis using h(2-) by blast
    qed
  qed
  show "node_sound fl w (Node ''if'' a b x cs None) Falls []"
    unfolding node_sound_def by (fastforce simp: result_sound_def bit_or_iff dest!: else_way [of _ None])
  show "node_sound fl w (Node ''if'' a b x cs (Some els)) out tr" if s: "node_sound fl w els out tr"
    unfolding node_sound_def
  proof (intro allI impI)
    fix d inc st f r k st'
    assume run: "run_flow fl d (Node ''if'' a b x cs (Some els)) inc st = Inr ((f, r, k), st')" and i: "bit inc w"
    obtain no u n2 r2 k2 n1 r1 k1 where h: "bit no w" "run_flow fl (d + 1) els no u = Inr ((n2, r2, k2), st')"
        "f = n1 OR n2" "r = r1 OR r2" "k = k1 OR k2"
      using else_way [OF run i] by auto
    have "result_sound fl w out tr n2 r2 k2 st'" using s h(1,2) unfolding node_sound_def by blast
    then show "result_sound fl w out tr f r k st'"
      using h(3-) by (auto simp: result_sound_def bit_or_iff)
  qed
qed

lemma sound_switch:
  assumes groups: "switch_groups (nd_children body) = Inr groups"
    and arms: "arms_sound fl w (dropWhile (\<lambda>g. \<not> group_selected fl x w groups g) groups) out tr"
    and idle: "dropWhile (\<lambda>g. \<not> group_selected fl x w groups g) groups = [] \<Longrightarrow> out = Falls \<and> tr = []"
  shows "node_sound fl w (Node ''switch'' a b x (body # rest) els) (if out = Breaks then Falls else out) tr"
  unfolding node_sound_def
proof (intro allI impI)
  fix d inc st f r k st'
  let ?n = "Node ''switch'' a b x (body # rest) els" and ?p = "\<lambda>g. \<not> group_selected fl x w groups g"
  assume run: "run_flow fl d ?n inc st = Inr ((f, r, k), st')" and i: "bit inc w"
  from run bit_nonzero [OF i] obtain explicit fall after where
    h: "explicit_words fl x groups = Inr explicit" "flow_arms (run_flow fl (d + 2)) fl x inc explicit d groups st = Inr ((fall, after, r), st')"
      "f = after OR fall OR (if list_ex is_default (concat (map fst groups)) then 0 else inc AND NOT explicit)"
    using groups by (auto elim: run_switch_elim)
  obtain f0 a0 r0 u where u: "rfold (flow_arm (run_flow fl (d + 2)) fl x inc explicit d) ((f0, a0, r0), u) (dropWhile ?p groups)
      = Inr ((fall, after, r), st')"
    using h(2) unfolding flow_arms_def by (subst (asm) takeWhile_dropWhile_id [symmetric, of groups ?p])
      (auto simp: rfold_append rbind_eq_Inr simp del: takeWhile_dropWhile_id)
  show "result_sound fl w (if out = Breaks then Falls else out) tr f r k st'"
  proof (cases "dropWhile ?p groups")
    case Nil
    then have none: "\<forall>g \<in> set groups. \<not> group_selected fl x w groups g" by simp
    have "\<not> list_ex (label_matches fl x w) (concat (map fst groups))"
      using none by (auto simp: list_ex_iff group_selected_def)
    moreover from this have "\<not> list_ex is_default (concat (map fst groups))"
      using none by (auto simp: list_ex_iff group_selected_def)
    moreover have "out = Falls \<and> tr = []" by (rule idle [OF Nil])
    ultimately show ?thesis using h(3) explicit_words_bit [OF h(1), of w] i
      by (simp add: result_sound_def bit_or_iff bit_and_iff bit_not_iff)
  next
    case (Cons g gs)
    have "group_selected fl x w groups g" using Cons by (metis dropWhile_eq_Cons_conv)
    then have "\<forall>s. selected_words fl x inc explicit (fst g) = Inr s \<longrightarrow> bit s w"
      using selected_group_bit [OF h(1) _ i] by blast
    then have "result_sound fl w out tr fall r after st'"
      using arms [unfolded arms_sound_def, rule_format, OF u] unfolding Cons by simp
    then show ?thesis using h(3) by (auto simp: result_sound_def bit_or_iff)
  qed
qed

lemma sound_loop:
  assumes "k = ''for'' \<or> k = ''while''"
    and "\<And>ev. ev \<in> set tr \<Longrightarrow> \<exists>out tr. node_sound fl w body out tr \<and> ev \<in> set tr"
    and "out \<noteq> Breaks" "out \<noteq> Returns"
  shows "node_sound fl w (Node k a b x (body # rest) els) out tr"
  unfolding node_sound_def
proof (intro allI impI)
  fix d inc st f r q st'
  let ?n = "Node k a b x (body # rest) els"
  assume run: "run_flow fl d ?n inc st = Inr ((f, r, q), st')" and i: "bit inc w"
  have "rmap (\<lambda>(_, st). ((inc, 0, 0), st)) (run_flow fl (d + 1) body inc st) = Inr ((f, r, q), st')"
    using run run_loop [OF bit_nonzero [OF i] assms(1)] by simp
  then obtain f' r' q' where h: "run_flow fl (d + 1) body inc st = Inr ((f', r', q'), st')" "f = inc" "r = 0" "q = 0"
    by (cases "run_flow fl (d + 1) body inc st") auto
  have "event_covered fl w st' ev" if t: "ev \<in> set tr" for ev
  proof -
    obtain out' tr' where o: "node_sound fl w body out' tr'" "ev \<in> set tr'" using assms(2) [OF t] by blast
    then show ?thesis using o(1) [unfolded node_sound_def, rule_format, OF h(1) i] by (simp add: result_sound_def)
  qed
  then show "result_sound fl w out tr f r q st'"
    using i h(2) assms(3,4) by (auto simp: result_sound_def)
qed

lemma sound_round:
  assumes k: "k = ''for'' \<or> k = ''while''" and body: "node_sound fl w body out1 tr1"
    and rest: "node_sound fl w (Node k a b x (body # rest) els) out tr2"
  shows "node_sound fl w (Node k a b x (body # rest) els) out (tr1 @ tr2)"
  unfolding node_sound_def
proof (intro allI impI)
  fix d inc st f r q st'
  let ?n = "Node k a b x (body # rest) els"
  assume run: "run_flow fl d ?n inc st = Inr ((f, r, q), st')" and i: "bit inc w"
  have "node_sound fl w ?n Falls tr1" by (rule sound_loop [OF k]) (use body in auto)
  then show "result_sound fl w out (tr1 @ tr2) f r q st'"
    using rest run i unfolding node_sound_def result_sound_def by (metis Un_iff set_append)
qed

lemma sound_leaf:
  assumes "nd_kind n \<notin> {''block'', ''if'', ''switch'', ''for'', ''while''}"
    and "(out, tr) = (if nd_kind n = ''return'' then (Returns, []) else if nd_kind n = ''break'' then (Breaks, [])
      else if nd_kind n = ''continue'' then (Continues, []) else (Falls, [Reached n]))"
  shows "node_sound fl w n out tr"
  unfolding node_sound_def
proof (intro allI impI)
  fix d inc st f r k st'
  assume run: "run_flow fl d n inc st = Inr ((f, r, k), st')" and i: "bit inc w"
  show "result_sound fl w out tr f r k st'"
    using run assms(2) i unfolding run_leaf [OF bit_nonzero [OF i] assms(1)]
    by (auto simp: leaf_flow_def result_sound_def event_covered_def split: if_splits)
qed

lemma exec_sound:
  "exec fl w n out tr \<Longrightarrow> node_sound fl w n out tr"
  "exec_list fl w cs out tr \<Longrightarrow> list_sound fl w cs out tr"
  "exec_arms fl w gs out tr \<Longrightarrow> arms_sound fl w gs out tr \<and> (gs = [] \<longrightarrow> out = Falls \<and> tr = [])"
proof (induction rule: exec_exec_list_exec_arms.inducts)
  case (switch body groups x out tr a b rest els)
  then show ?case using sound_switch [of body groups fl w x out tr a b rest els] by blast
next
  case (loop_stop k a b x body rest els)
  then show ?case by (intro sound_loop) auto
next
  case (loop_round k body out1 tr1 a b x rest els out2 tr2)
  then show ?case by (intro sound_round)
next
  case (loop_exit k body out tr a b x rest els)
  then show ?case by (intro sound_loop) auto
next
  case nil
  show ?case by (auto simp: list_sound_def result_sound_def)
next
  case no_arm
  show ?case by (auto simp: arms_sound_def result_sound_def)
qed (auto simp: compound_kinds_def intro: sound_leaf sound_block sound_if_yes sound_if_no sound_go sound_leave sound_next_arm sound_last_arm)

section \<open>No word is lost\<close>

lemma children_keep:
  assumes "\<And>c i st f r k st'. c \<in> set cs \<Longrightarrow> g c i st = Inr ((f, r, k), st') \<Longrightarrow> bit i w \<Longrightarrow> bit f w \<or> bit r w \<or> bit k w"
    and "flow_children g cs inc st = Inr ((f, r, k), st')" "bit inc w"
  shows "bit f w \<or> bit r w \<or> bit k w"
  using assms
proof (induction cs arbitrary: inc st f r k)
  case (Cons c cs)
  obtain n1 r1 k1 u r2 k2 where u: "g c inc st = Inr ((n1, r1, k1), u)" "flow_children g cs n1 u = Inr ((f, r2, k2), st')"
      "r = r1 OR r2" "k = k1 OR k2"
    using Cons.prems(2) unfolding flow_children_Cons flow_bind flow_map by auto
  have "bit n1 w \<or> bit r1 w \<or> bit k1 w" using Cons.prems(1) [of c] u(1) Cons.prems(3) by simp
  moreover have "bit n1 w \<Longrightarrow> bit f w \<or> bit r2 w \<or> bit k2 w"
    using Cons.IH [OF _ u(2)] Cons.prems(1) by (meson list.set_intros(2))
  ultimately show ?case using u(3,4) by (auto simp: bit_or_iff)
qed simp

lemma arms_keep_word:
  assumes "\<And>c i st f r k st'. c \<in> set (concat (map snd gs)) \<Longrightarrow> F c i st = Inr ((f, r, k), st') \<Longrightarrow> bit i w \<Longrightarrow> bit f w \<or> bit r w \<or> bit k w"
    and "rfold (flow_arm F fl x inc e d) ((fall, after, ret), st) gs = Inr ((f, a, r), st')"
    and "bit fall w \<or> bit after w \<or> bit ret w \<or> (\<exists>g \<in> set gs. \<forall>s. selected_words fl x inc e (fst g) = Inr s \<longrightarrow> bit s w)"
  shows "bit f w \<or> bit a w \<or> bit r w"
  using assms
proof (induction gs arbitrary: fall after ret st)
  case (Cons g gs)
  obtain f1 a1 r1 u where u: "flow_arm F fl x inc e d ((fall, after, ret), st) g = Inr ((f1, a1, r1), u)"
      "rfold (flow_arm F fl x inc e d) ((f1, a1, r1), u) gs = Inr ((f, a, r), st')"
    using Cons.prems(2) by (auto simp: rbind_eq_Inr)
  have now: "bit f1 w \<or> bit a1 w \<or> bit r1 w \<or> (\<exists>g \<in> set gs. \<forall>s. selected_words fl x inc e (fst g) = Inr s \<longrightarrow> bit s w)"
    using u(1)
  proof (rule flow_arm_elim)
    fix sel rr b y
    let ?u = "record_handler (arm_node g) y inc (sel OR fall) d st"
    assume h: "selected_words fl x inc e (fst g) = Inr sel" "a1 = after OR b" "r1 = ret OR rr"
      "(if sel OR fall = 0 then Inr ((0, 0, 0), ?u) else flow_children F (snd g) (sel OR fall) ?u) = Inr ((f1, rr, b), u)"
    show ?thesis
    proof (cases "bit (sel OR fall) w")
      case True
      have run: "flow_children F (snd g) (sel OR fall) ?u = Inr ((f1, rr, b), u)"
        using h(4) unfolding if_not_P [OF bit_nonzero [OF True]] .
      have "bit f1 w \<or> bit rr w \<or> bit b w"
        by (rule children_keep [OF _ run True]) (rule Cons.prems(1), auto)
      then show ?thesis using h(2,3) by (auto simp: bit_or_iff)
    next
      case False
      then show ?thesis using Cons.prems(3) h(1-3) by (auto simp: bit_or_iff)
    qed
  qed
  show ?case by (rule Cons.IH [OF _ u(2) now]) (rule Cons.prems(1), auto)
qed simp

lemma run_flow_keeps:
  "run_flow fl d n inc st = Inr ((f, r, k), st') \<Longrightarrow> bit inc w \<Longrightarrow> bit f w \<or> bit r w \<or> bit k w"
proof (induction n arbitrary: d inc st f r k st' rule: measure_induct_rule [of size])
  case (less n)
  obtain kind a b x cs els where n: "n = Node kind a b x cs els" by (cases n)
  note nz = bit_nonzero [OF less.prems(2)]
  consider "kind = ''block''" | "kind = ''if''" | "kind = ''switch''" | "kind = ''for'' \<or> kind = ''while''"
    | "kind \<notin> {''block'', ''if'', ''switch'', ''for'', ''while''}" by auto
  then show ?case
  proof cases
    case 1
    have "size c < size n" if "c \<in> set cs" for c
      using that size_list_estimation' [of c cs "size c" size] unfolding n by auto
    then have keep: "bit f w \<or> bit r w \<or> bit k w"
      if "c \<in> set cs" "run_flow fl (d + 1) c i st = Inr ((f, r, k), st')" "bit i w" for c i st f r k st'
      using less.IH [OF _ that(2,3)] that(1) by blast
    show ?thesis
      by (rule children_keep [OF _ less.prems(1) [unfolded n 1 run_block [OF nz]] less.prems(2)]) (rule keep)
  next
    case 2
    obtain thn rest where cs: "cs = thn # rest" using less.prems(1) nz unfolding n 2 run_flow.simps
      by (cases cs) (auto simp: Let_def split: prod.splits)
    from less.prems(1) [unfolded n 2 cs] nz show ?thesis
    proof (rule run_if_elim)
      fix yes no n1 r1 k1 u n2 r2 k2
      assume h: "(yes, no) = (case fl_get fl x of None \<Rightarrow> (inc, inc) | Some bits \<Rightarrow> (inc AND bits, inc AND NOT bits))"
        "run_flow fl (d + 1) thn yes (record_handler (Node ''if'' a b x (thn # rest) els) x inc yes d st) = Inr ((n1, r1, k1), u)"
        "(case els of None \<Rightarrow> Inr ((no, 0, 0), u) | Some e \<Rightarrow> run_flow fl (d + 1) e no u) = Inr ((n2, r2, k2), st')"
        "f = n1 OR n2" "r = r1 OR r2" "k = k1 OR k2"
      have "bit yes w \<or> bit no w" using h(1) less.prems(2) by (auto simp: bit_and_iff bit_not_iff split: option.splits)
      moreover have "bit yes w \<Longrightarrow> bit n1 w \<or> bit r1 w \<or> bit k1 w" using less.IH [OF _ h(2)] unfolding n cs by simp
      moreover have "bit no w \<Longrightarrow> bit n2 w \<or> bit r2 w \<or> bit k2 w" using h(3) less.IH [of "the els"] unfolding n by (cases els) auto
      ultimately show ?thesis using h(4-6) by (auto simp: bit_or_iff)
    qed
  next
    case 3
    obtain body rest where cs: "cs = body # rest" using less.prems(1) nz unfolding n 3 run_flow.simps
      by (cases cs) (auto simp: Let_def)
    from less.prems(1) [unfolded n 3 cs] nz show ?thesis
    proof (rule run_switch_elim)
      fix groups explicit fall after
      assume h: "switch_groups (nd_children body) = Inr groups" "explicit_words fl x groups = Inr explicit"
        "flow_arms (run_flow fl (d + 2)) fl x inc explicit d groups st = Inr ((fall, after, r), st')"
        "f = after OR fall OR (if list_ex is_default (concat (map fst groups)) then 0 else inc AND NOT explicit)"
      have "size c < size n" if "c \<in> set (concat (map snd groups))" for c
        using that switch_groups_parts [OF h(1)] size_list_estimation' [of c "nd_children body" "size c" size]
        unfolding n cs by (cases body) fastforce
      then have keep: "bit f w \<or> bit r w \<or> bit k w"
        if "c \<in> set (concat (map snd groups))" "run_flow fl (d + 2) c i st = Inr ((f, r, k), st')" "bit i w" for c i st f r k st'
        using less.IH [OF _ that(2,3)] that(1) by blast
      have arms: "bit fall w \<or> bit after w \<or> bit r w"
        if "\<exists>g \<in> set groups. \<forall>s. selected_words fl x inc explicit (fst g) = Inr s \<longrightarrow> bit s w"
        by (rule arms_keep_word [OF _ h(3) [unfolded flow_arms_def]]) (use keep that in blast)+
      show ?thesis
      proof (cases "\<exists>g \<in> set groups. group_selected fl x w groups g")
        case True
        then have "\<exists>g \<in> set groups. \<forall>s. selected_words fl x inc explicit (fst g) = Inr s \<longrightarrow> bit s w"
          using selected_group_bit [OF h(2) _ less.prems(2)] by blast
        from arms [OF this] show ?thesis unfolding h(4) by (auto simp: bit_or_iff)
      next
        case False
        have "\<not> list_ex (label_matches fl x w) (concat (map fst groups))"
          using False by (auto simp: list_ex_iff group_selected_def)
        moreover from this have "\<not> list_ex is_default (concat (map fst groups))"
          using False by (auto simp: list_ex_iff group_selected_def)
        ultimately show ?thesis unfolding h(4) using explicit_words_bit [OF h(2), of w] less.prems(2)
          by (simp add: bit_or_iff bit_and_iff bit_not_iff)
      qed
    qed
  next
    case 4
    obtain body rest where cs: "cs = body # rest" using less.prems(1) nz 4 unfolding n run_flow.simps
      by (cases cs) (auto simp: Let_def)
    have "f = inc" using less.prems(1) unfolding n cs run_loop [OF nz 4] by (auto simp: rmap_eq_Inr)
    then show ?thesis using less.prems(2) by simp
  next
    case 5
    have "nd_kind n \<notin> {''block'', ''if'', ''switch'', ''for'', ''while''}" using 5 n by simp
    then show ?thesis using less.prems run_leaf [OF nz, of n fl d st] by (auto simp: leaf_flow_def split: if_splits)
  qed
qed


definition sample_call :: node where
  "sample_call = Node ''simple'' 0 3 [] [] None"

definition sample_node :: node where
  "sample_node = Node ''switch'' 0 9 ''op'' [Node ''block'' 0 9 [] [Node ''label'' 0 1 ''1'' [] None, sample_call,
     Node ''label'' 3 4 ''default'' [] None, Node ''break'' 4 5 [] [] None] None] None"

definition sample_switch :: flow_context where
  "sample_switch = \<lparr>fl_words = [''f'', ''('', '')''], fl_get = (\<lambda>e. if e = ''(op) == (1)'' then Some 2 else None), fl_callee = ''f''\<rparr>"


text \<open>The set of the returns is not complete for the returns inside loops, though the code says that it is:
  a loop drops what its body returned.  Here every run of the loop returns at once or falls through, and the
  set of the returns is empty.\<close>

theorem loop_return_lost:
  "exec fl w (Node ''for'' a b x [Node ''return'' c e [] [] None] None) Loop_Returns []
   \<and> run_flow fl d (Node ''for'' a b x [Node ''return'' c e [] [] None] None) inc st = Inr ((inc, 0, 0), st)"
proof -
  have "exec fl w (Node ''for'' a b x [Node ''return'' c e [] [] None] None) (if Returns = Breaks then Falls else Loop_Returns) []"
    by (intro exec_exec_list_exec_arms.loop_exit exec_exec_list_exec_arms.return) simp_all
  then show ?thesis by (cases "inc = 0") (simp_all add: run_flow.simps condition_kind_def leaf_flow_def)
qed

end
