(* ===== verification/Dispatch_Audit.thy ===== *)
theory Dispatch_Audit
  imports Dispatch_Flow
begin

text \<open>
  The census itself, \<open>tools/c54x_dispatch_audit.py\<close>: the routes into the residual dispatcher, the checks of
  its callers, the rows of the report and the comparison with the reviewed contract.  What the analysis
  covers (\<open>Dispatch_Flow\<close>) makes the rows mean what they say: a shadowed condition is never entered.
\<close>

section \<open>Routes into the dispatcher\<close>

text \<open>The \<open>while\<close> loop over the chain of conditions.\<close>

fun route_chain :: "flow_context \<Rightarrow> node \<Rightarrow> int \<Rightarrow> (string, int) dict \<Rightarrow> (string, int) dict res" where
  "route_chain fl (Node kind a b x cs otherwise) remaining routes =
     (case (if kind \<noteq> ''if'' then None else fl_get fl x) of
        None \<Rightarrow> Inl (ValueError ''Execute dispatch condition is not opcode-only'')
      | Some bits \<Rightarrow> (case cs of [] \<Rightarrow> Inl IndexError | thn # _ \<Rightarrow>
          let calls = call_count (fl_words fl) thn (fl_callee fl) in
          if 1 < calls then Inl (ValueError ''ambiguous Execute caller'')
          else let routes = (if calls = 0 then routes else dict_set x (remaining AND bits) routes) in
            (case otherwise of None \<Rightarrow> Inr routes | Some n \<Rightarrow> route_chain fl n (remaining AND NOT bits) routes)))"

definition chain_start :: string where "chain_start = ''staged_immediate_repeat (''"

definition execute_routes :: "flow_context \<Rightarrow> node \<Rightarrow> int \<Rightarrow> (string, int) dict res" where
  "execute_routes fl n admitted =
     (case filter (\<lambda>c. nd_kind c = ''if'' \<and> prefix chain_start (nd_expression c)) (nd_children n) of
        [c] \<Rightarrow> route_chain fl c admitted []
      | _ \<Rightarrow> Inl (ValueError ''cannot identify the ordered Execute dispatch chain''))"

section \<open>The set-up: functions, aliases and guards\<close>

record audit_setup =
  su_reader :: reader
  su_execute :: node
  su_step :: node
  su_repeat :: node
  su_residual :: node
  su_guards :: guards
  su_admitted :: "int list"

definition admission_gate :: string where
  "admission_gate = ''m_pipeline_valid [ 2 ] && ! BIT ( staged_opcode_descriptor [ word ] , ''
     @ ''m_extended_program ? 5 : 4 ) && ! staged_bus_control ( word )''"

definition only_node :: "string \<Rightarrow> node list \<Rightarrow> node res" where
  "only_node message ns = (case ns of [n] \<Rightarrow> Inr n | _ \<Rightarrow> Inl (ValueError message))"

definition first_child :: "node \<Rightarrow> node res" where
  "first_child n = (case nd_children n of [] \<Rightarrow> Inl IndexError | c # _ \<Rightarrow> Inr c)"

definition alias_names :: "string list" where
  "alias_names = [''low'', ''short_preincrement'', ''mmr_source'']"

definition hex_literal :: "string \<Rightarrow> bool" where
  "hex_literal run \<longleftrightarrow> (case run of c # x # rest \<Rightarrow> c = CHR ''0'' \<and> x = CHR ''x'' \<and> rest \<noteq> [] \<and> list_all cpp_hex_digit rest | _ \<Rightarrow> False)"

definition bus_names :: "string list" where
  "bus_names = [''op'', ''software_wait_enabled'', ''m_c5416_bus_profile'', ''true'', ''false'']"

text \<open>The bus admission of the header must be one pure return of known names.\<close>

definition check_bus :: "reader \<Rightarrow> unit res" where
  "check_bus hr = rbind (function_body hr ''staged_bus_control'' False) (\<lambda>bus.
     case nd_children bus of
       [r] \<Rightarrow>
         if nd_kind r \<noteq> ''return'' then Inl (ValueError ''bus admission is not a single pure return expression'')
         else let e = expression hr (nd_start r + 1) (nd_end r - 1);
                  names = filter (\<lambda>run. \<not> hex_literal run \<and> identifier_start (hd run)) (word_runs e) in
           if \<not> set names \<subseteq> set bus_names then Inl (ValueError ''unmodeled configuration in bus admission'') else Inr ()
     | _ \<Rightarrow> Inl (ValueError ''bus admission is not a single pure return expression''))"

definition collect_node :: "guards \<Rightarrow> node \<Rightarrow> guards res" where
  "collect_node g n =
     (if nd_kind n = ''if'' then Inr (snd (collect_guard (nd_expression n) g))
      else if nd_kind n = ''switch'' then
        rmap (\<lambda>body. fold (\<lambda>label g. snd (collect_guard (case_guard (nd_expression n) label) g))
            (filter (\<lambda>label. nd_kind label = ''label'' \<and> \<not> is_default label) (nd_children body)) g)
          (first_child n)
      else Inr g)"

text \<open>\<open>header_tokens\<close> and \<open>tokens\<close> are what libclang reads, \<open>decode\<close> is the text of the decode header and
  \<open>rows\<close> the output of the compiled guard program.\<close>

definition dispatch_setup :: "token list \<Rightarrow> token list \<Rightarrow> string \<Rightarrow> int list \<Rightarrow> string \<Rightarrow> audit_setup res" where
  "dispatch_setup tokens header_tokens decode rows callee =
     rbind (make_reader tokens) (\<lambda>rd. let words = rd_words rd in
     if \<not> list_ex (\<lambda>i. slice i (i + 8) words = [''::'', callee, ''('', ''u16'', ''const'', ''op'', '')'', ''{'']) [0..<length words - 7]
     then Inl (ValueError ''the residual opcode parameter must be const for this proof'') else
     rbind (function_body rd ''pipeline_execute'' True) (\<lambda>execute.
     rbind (function_body rd ''pipeline_step'' True) (\<lambda>step.
     rbind (function_body rd callee True) (\<lambda>residual.
     rbind (only_node ''the reviewed base/extended Decode admission gate changed''
       (filter (\<lambda>n. nd_kind n = ''if'' \<and> nd_expression n = admission_gate) (walk step))) (\<lambda>gate.
     rbind (first_child gate) (\<lambda>gate_body.
     if \<not> in_text ''m_illegal = true ; return ;'' (expression rd (nd_start gate_body) (nd_end gate_body))
     then Inl (ValueError ''Decode admission does not reject before execution'') else
     rbind (only_node ''expected one accelerated repeat scope''
       (filter (\<lambda>n. nd_kind n = ''if'' \<and> nd_expression n = ''m_pipeline_repeat_stream'') (nd_children step))) (\<lambda>repeat_if.
     rbind (rmap_list (constant_alias rd residual)
       (filter (\<lambda>name. name \<in> set (slice (nd_start residual) (nd_end residual) words)) alias_names)) (\<lambda>aliases.
     rbind (first_child repeat_if) (\<lambda>rep.
     rbind (constant_alias rd rep ''immediate_store'') (\<lambda>store.
     rbind (make_reader header_tokens) (\<lambda>hr.
     rbind (check_bus hr) (\<lambda>_.
     rbind (make_guards decode (aliases @ [store])) (\<lambda>g.
     rbind (rfold collect_node g (walk execute @ walk rep @ walk residual)) (\<lambda>g.
     rbind (compiled_guards rows g) (\<lambda>(admitted, g).
       Inr \<lparr>su_reader = rd, su_execute = execute, su_step = step, su_repeat = rep, su_residual = residual,
         su_guards = g, su_admitted = admitted\<rparr>)))))))))))))))"

definition setup_flow :: "audit_setup \<Rightarrow> string \<Rightarrow> flow_context" where
  "setup_flow su callee = \<lparr>fl_words = rd_words (su_reader su), fl_get = guard_bits (su_guards su), fl_callee = callee\<rparr>"

section \<open>The report\<close>

record route_row =
  rt_words :: nat
  rt_ranges :: "(string \<times> string) list"

record handler_row =
  hr_kind :: string
  hr_line :: nat
  hr_begin :: nat
  hr_end :: nat
  hr_depth :: nat
  hr_expression :: string
  hr_status :: string
  hr_words :: nat
  hr_incoming_words :: nat
  hr_has_else :: bool

record report =
  rp_guard_count :: nat
  rp_routes :: "(string, (string, route_row) dict) dict"
  rp_combined :: int
  rp_combined_words :: nat
  rp_combined_ranges :: "(string \<times> string) list"
  rp_unhandled_words :: nat
  rp_handlers :: "handler_row list"

definition flow_start :: flow_state where
  "flow_start = \<lparr>fs_calls = [], fs_handlers = []\<rparr>"

definition mode_routes :: "flow_context \<Rightarrow> audit_setup \<Rightarrow> int \<Rightarrow> (string, int) dict res" where
  "mode_routes fl su words =
     rbind (execute_routes fl (su_execute su) words) (\<lambda>routes.
     rbind (run_flow fl 0 (su_repeat su) words flow_start) (\<lambda>(_, st).
     case fs_calls st of
       [(_, bits)] \<Rightarrow> Inr (dict_set ''accelerated_repeat'' bits routes)
     | _ \<Rightarrow> Inl (ValueError ''expected one repeat caller'')))"

definition route_rows :: "(string, int) dict \<Rightarrow> (string, route_row) dict" where
  "route_rows = map (\<lambda>(name, bits). (name, \<lparr>rt_words = table_count bits, rt_ranges = ranges bits\<rparr>))"

definition row_status :: "flow_context \<Rightarrow> handler \<Rightarrow> string" where
  "row_status fl h = (if hd_matched h = 0 then ''shadowed''
     else if nd_kind (hd_node h) = ''if'' \<and> fl_get fl (nd_expression (hd_node h)) = None then ''unresolved'' else ''live'')"

definition handler_row_of :: "flow_context \<Rightarrow> token list \<Rightarrow> bytes \<Rightarrow> handler \<Rightarrow> handler_row res" where
  "handler_row_of fl tokens source h =
     rbind (item tokens (nd_start (hd_node h))) (\<lambda>first.
     rbind (item tokens (nd_end (hd_node h) - 1)) (\<lambda>final.
       Inr \<lparr>hr_kind = nd_kind (hd_node h), hr_line = length (filter (\<lambda>c. c = 10) (take (tk_start first) source)) + 1,
         hr_begin = tk_start first, hr_end = tk_end final, hr_depth = hd_depth h, hr_expression = hd_expression h,
         hr_status = row_status fl h, hr_words = table_count (hd_matched h), hr_incoming_words = table_count (hd_incoming h),
         hr_has_else = (nd_otherwise (hd_node h) \<noteq> None)\<rparr>))"

definition call_sites_ok :: "audit_setup \<Rightarrow> string \<Rightarrow> bool res" where
  "call_sites_ok su callee = (let words = rd_words (su_reader su);
       references = filter (\<lambda>i. words ! i = callee) [0..<length words] in
     if length references \<noteq> 4 then Inr False
     else rfold (\<lambda>ok i. if \<not> ok then Inr False else rmap (\<lambda>word. word = ''('') (item words (Suc i))) True references)"

definition dispatch_report :: "audit_setup \<Rightarrow> bytes \<Rightarrow> string \<Rightarrow> report res" where
  "dispatch_report su source callee = (let fl = setup_flow su callee; words = rd_words (su_reader su) in
     rbind (rmap_list (\<lambda>(mode, bits). rmap (\<lambda>routes. (mode, routes)) (mode_routes fl su bits))
       (zip [''base'', ''extended''] (su_admitted su))) (\<lambda>modes.
     let combined = fold (\<lambda>(_, routes) acc. fold (\<lambda>(_, bits) acc. acc OR bits) routes acc) modes 0 in
     if call_count words (su_execute su) callee \<noteq> 2 \<or> call_count words (su_step su) callee \<noteq> 1
     then Inl (ValueError ''caller inventory changed; review all call sites'') else
     rbind (call_sites_ok su callee) (\<lambda>ok.
     if \<not> ok then Inl (ValueError ''unclassified dispatcher definition/caller'') else
     rbind (run_flow fl 0 (su_residual su) combined flow_start) (\<lambda>((fallthrough, _, _), st).
     rbind (rmap_list (handler_row_of fl (rd_tokens (su_reader su)) source) (fs_handlers st)) (\<lambda>rows.
       Inr \<lparr>rp_guard_count = length (gd_expressions (su_guards su)), rp_routes = map (\<lambda>(mode, routes). (mode, route_rows routes)) modes,
         rp_combined = combined, rp_combined_words = table_count combined, rp_combined_ranges = ranges combined,
         rp_unhandled_words = table_count fallthrough, rp_handlers = rows\<rparr>)))))"

definition dispatch_audit :: "token list \<Rightarrow> token list \<Rightarrow> string \<Rightarrow> int list \<Rightarrow> bytes \<Rightarrow> string \<Rightarrow> report res" where
  "dispatch_audit tokens header_tokens decode rows source callee =
     rbind (dispatch_setup tokens header_tokens decode rows callee) (\<lambda>su. dispatch_report su source callee)"

section \<open>The reviewed contract\<close>

record dispatch_contract =
  ct_profiles :: "string list"
  ct_routes :: "(string, route_row) dict"
  ct_combined_words :: nat
  ct_combined_ranges :: "(string \<times> string) list"
  ct_unhandled_words :: nat

definition check_contract :: "dispatch_contract \<Rightarrow> report \<Rightarrow> unit res" where
  "check_contract c rp =
     (if set (ct_profiles c) \<noteq> set (map fst (rp_routes rp)) then Inl (ValueError ''reviewed dispatch profiles differ'')
      else if list_ex (\<lambda>p. case map_of (rp_routes rp) p of None \<Rightarrow> True | Some routes \<Rightarrow> set routes \<noteq> set (ct_routes c)) (ct_profiles c)
      then Inl (ValueError ''reviewed caller opcode sets differ'')
      else if ct_combined_words c \<noteq> rp_combined_words rp then Inl (ValueError ''reviewed dispatch contract differs: combined_words'')
      else if ct_combined_ranges c \<noteq> rp_combined_ranges rp then Inl (ValueError ''reviewed dispatch contract differs: combined_ranges'')
      else if ct_unhandled_words c \<noteq> rp_unhandled_words rp then Inl (ValueError ''reviewed dispatch contract differs: unhandled_words'')
      else Inr ())"

section \<open>Each word takes the first condition that holds\<close>

fun chain :: "node \<Rightarrow> node list" where
  "chain (Node kind a b x cs otherwise) =
     Node kind a b x cs otherwise # (case otherwise of None \<Rightarrow> [] | Some n \<Rightarrow> chain n)"

definition holds_for :: "flow_context \<Rightarrow> nat \<Rightarrow> node \<Rightarrow> bool" where
  "holds_for fl w n \<longleftrightarrow> (case fl_get fl (nd_expression n) of None \<Rightarrow> False | Some bits \<Rightarrow> bit bits w)"

definition calls_from :: "flow_context \<Rightarrow> node \<Rightarrow> nat" where
  "calls_from fl n = (case nd_children n of [] \<Rightarrow> 0 | thn # _ \<Rightarrow> call_count (fl_words fl) thn (fl_callee fl))"

definition routed :: "flow_context \<Rightarrow> nat \<Rightarrow> node \<Rightarrow> string \<Rightarrow> bool" where
  "routed fl w n x \<longleftrightarrow> (case List.find (holds_for fl w) (chain n) of
     None \<Rightarrow> False | Some c \<Rightarrow> nd_expression c = x \<and> calls_from fl c \<noteq> 0)"

lemma route_chain_step:
  assumes "route_chain fl (Node kind a b x cs otherwise) remaining routes = Inr routes'"
  obtains bits where "fl_get fl x = Some bits" "cs \<noteq> []"
    "(case otherwise of None \<Rightarrow> Inr (if calls_from fl (Node kind a b x cs otherwise) = 0 then routes else dict_set x (remaining AND bits) routes)
      | Some n \<Rightarrow> route_chain fl n (remaining AND NOT bits)
          (if calls_from fl (Node kind a b x cs otherwise) = 0 then routes else dict_set x (remaining AND bits) routes)) = Inr routes'"
  using assms by (auto simp: calls_from_def Let_def split: if_splits option.splits list.splits)

lemma route_chain_others:
  "route_chain fl n remaining routes = Inr routes' \<Longrightarrow> x \<notin> nd_expression ` set (chain n) \<Longrightarrow> map_of routes' x = map_of routes x"
proof (induction n arbitrary: remaining routes rule: measure_induct_rule [of size])
  case (less n)
  obtain kind a b y cs otherwise where n: "n = Node kind a b y cs otherwise" by (cases n)
  from less.prems(1) [unfolded n] show ?case
  proof (rule route_chain_step)
    fix bits
    assume h: "(case otherwise of None \<Rightarrow> Inr (if calls_from fl (Node kind a b y cs otherwise) = 0 then routes else dict_set y (remaining AND bits) routes)
      | Some n \<Rightarrow> route_chain fl n (remaining AND NOT bits)
          (if calls_from fl (Node kind a b y cs otherwise) = 0 then routes else dict_set y (remaining AND bits) routes)) = Inr routes'"
    have same: "map_of (if calls_from fl (Node kind a b y cs otherwise) = 0 then routes else dict_set y (remaining AND bits) routes) x = map_of routes x"
      using less.prems(2) unfolding n by simp
    show ?thesis
    proof (cases otherwise)
      case (Some m)
      have "size m < size n" "x \<notin> nd_expression ` set (chain m)" using Some less.prems(2) unfolding n by auto
      from less.IH [OF this(1) _ this(2)] show ?thesis using h same Some by fastforce
    qed (use h same in simp)
  qed
qed

lemma route_chain_bits:
  "route_chain fl n remaining routes = Inr routes' \<Longrightarrow> distinct (map nd_expression (chain n)) \<Longrightarrow> map_of routes x = None \<Longrightarrow>
   (\<exists>bits. map_of routes' x = Some bits \<and> bit bits w) \<longleftrightarrow> bit remaining w \<and> routed fl w n x"
proof (induction n arbitrary: remaining routes rule: measure_induct_rule [of size])
  case (less n)
  obtain kind a b y cs otherwise where n: "n = Node kind a b y cs otherwise" by (cases n)
  from less.prems(1) [unfolded n] show ?case
  proof (rule route_chain_step)
    fix bits
    let ?routes = "if calls_from fl (Node kind a b y cs otherwise) = 0 then routes else dict_set y (remaining AND bits) routes"
    assume get: "fl_get fl y = Some bits"
      and h: "(case otherwise of None \<Rightarrow> Inr ?routes | Some n \<Rightarrow> route_chain fl n (remaining AND NOT bits) ?routes) = Inr routes'"
    have holds: "holds_for fl w n \<longleftrightarrow> bit bits w" by (simp add: holds_for_def n get)
    show ?thesis
    proof (cases "x = y")
      case True
      have keep: "map_of routes' x = map_of ?routes x"
        using h less.prems(2) route_chain_others [of fl "the otherwise" _ ?routes routes' x] True unfolding n
        by (cases otherwise) auto
      have rest: "c \<in> set (chain n) \<Longrightarrow> nd_expression c = y \<Longrightarrow> c = n" for c
        using less.prems(2) unfolding n by (cases otherwise) (auto split: option.splits)
      have "routed fl w n x \<longleftrightarrow> bit bits w \<and> calls_from fl n \<noteq> 0"
      proof (cases "bit bits w")
        case True
        then have "List.find (holds_for fl w) (chain n) = Some n" using holds unfolding n by simp
        then show ?thesis using \<open>x = y\<close> True by (simp add: routed_def n)
      next
        case False
        then have "\<not> routed fl w n x" using rest holds \<open>x = y\<close>
          by (auto simp: routed_def find_Some_iff split: option.splits) (metis nth_mem)
        then show ?thesis using False by simp
      qed
      then show ?thesis using keep True less.prems(3) by (auto simp: n bit_and_iff)
    next
      case False
      show ?thesis
      proof (cases otherwise)
        case None
        then have "map_of routes' x = None" using h False less.prems(3) by (auto split: if_splits)
        then show ?thesis using None False unfolding n by (auto simp: routed_def)
      next
        case (Some m)
        have "(\<exists>bits. map_of routes' x = Some bits \<and> bit bits w) \<longleftrightarrow> bit (remaining AND NOT bits) w \<and> routed fl w m x"
          using less.IH [of m "remaining AND NOT bits" ?routes] less.prems(2,3) h Some False unfolding n by auto
        moreover have "routed fl w n x \<longleftrightarrow> \<not> bit bits w \<and> routed fl w m x"
          using holds Some False unfolding n by (auto simp: routed_def)
        ultimately show ?thesis by (auto simp: bit_and_iff bit_not_iff)
      qed
    qed
  qed
qed

section \<open>What the report says\<close>

lemma table_count_zero: "table_count bits = 0 \<longleftrightarrow> (\<forall>w < 65536. \<not> bit bits w)"
  by (auto simp: table_count_def filter_empty_conv)

lemma report_rows:
  assumes "dispatch_report su source callee = Inr rp"
  obtains fall ret brk st where
    "run_flow (setup_flow su callee) 0 (su_residual su) (rp_combined rp) flow_start = Inr ((fall, ret, brk), st)"
    "rmap_list (handler_row_of (setup_flow su callee) (rd_tokens (su_reader su)) source) (fs_handlers st) = Inr (rp_handlers rp)"
    "rp_unhandled_words rp = table_count fall"
  using assms unfolding dispatch_report_def Let_def
  by (auto simp: rbind_eq_Inr split: if_splits)

lemma rmap_list_member: "rmap_list f xs = Inr ys \<Longrightarrow> x \<in> set xs \<Longrightarrow> \<exists>y \<in> set ys. f x = Inr y"
  by (induction xs arbitrary: ys) (auto simp: rbind_eq_Inr)

text \<open>The route tables partition the admitted words by the first condition of the
  Execute chain that holds: a word is in the table of a condition exactly if it is admitted, that condition
  is the first to hold for it, and its branch calls the dispatcher.\<close>

theorem routes_first_match:
  assumes "route_chain fl n admitted [] = Inr routes" and "distinct (map nd_expression (chain n))"
  shows "(\<exists>bits. map_of routes x = Some bits \<and> bit bits w) \<longleftrightarrow> bit admitted w \<and> routed fl w n x"
  using route_chain_bits [OF assms] by simp

definition sample_chain :: node where
  "sample_chain = Node ''if'' 0 12 ''a ( op )'' [Node ''block'' 4 8 [] [] None]
     (Some (Node ''if'' 9 20 ''b ( op )'' [Node ''block'' 13 19 [] [] None] None))"

definition sample_flow :: flow_context where
  "sample_flow = \<lparr>fl_words = replicate 14 [] @ [''f'', ''('', ''op'', '')'', '';'', ''}''],
     fl_get = (\<lambda>e. if e = ''a ( op )'' then Some 6 else if e = ''b ( op )'' then Some 12 else None), fl_callee = ''f''\<rparr>"

theorem routes_first_match_witness:
  "(\<exists>bits. map_of [(''b ( op )'', 8 :: int)] ''b ( op )'' = Some bits \<and> bit bits 3) \<longleftrightarrow> bit (15::int) 3 \<and> routed sample_flow 3 sample_chain ''b ( op )''"
  by (rule routes_first_match [of sample_flow sample_chain 15]) code_simp+

text \<open>C32: The report of the census is right about every run of the residual dispatcher on
  an admitted word: whatever condition or arm the run enters has a row that is not shadowed and counts that
  word, and if the report counts no unhandled words, no run falls through.\<close>

theorem shadowed_rows_dead:
  assumes "dispatch_report su source callee = Inr rp" and "w < 65536" and "bit (rp_combined rp) w"
    and "exec (setup_flow su callee) w (su_residual su) out tr"
  shows "(out = Falls \<longrightarrow> 0 < rp_unhandled_words rp)
    \<and> (\<forall>n. Entered n \<in> set tr \<longrightarrow> (\<exists>h row. hd_node h = n \<and> row \<in> set (rp_handlers rp)
          \<and> handler_row_of (setup_flow su callee) (rd_tokens (su_reader su)) source h = Inr row
          \<and> hr_status row \<noteq> ''shadowed'' \<and> 0 < hr_words row))"
proof -
  let ?fl = "setup_flow su callee"
  from assms(1) obtain fall ret brk st where
    run: "run_flow ?fl 0 (su_residual su) (rp_combined rp) flow_start = Inr ((fall, ret, brk), st)"
    and rows: "rmap_list (handler_row_of ?fl (rd_tokens (su_reader su)) source) (fs_handlers st) = Inr (rp_handlers rp)"
    and count: "rp_unhandled_words rp = table_count fall"
    by (rule report_rows)
  have sound: "result_sound ?fl w out tr fall ret brk st"
    using exec_sound(1) [OF assms(4)] run assms(3) unfolding node_sound_def by blast
  have "\<exists>h row. hd_node h = n \<and> row \<in> set (rp_handlers rp) \<and> handler_row_of ?fl (rd_tokens (su_reader su)) source h = Inr row
      \<and> hr_status row \<noteq> ''shadowed'' \<and> 0 < hr_words row" if n: "Entered n \<in> set tr" for n
  proof -
    obtain h where h: "h \<in> set (fs_handlers st)" "hd_node h = n" "bit (hd_matched h) w"
      using sound n by (fastforce simp: result_sound_def event_covered_def)
    obtain row where row: "row \<in> set (rp_handlers rp)" "handler_row_of ?fl (rd_tokens (su_reader su)) source h = Inr row"
      using rmap_list_member [OF rows h(1)] by blast
    have "hr_status row \<noteq> ''shadowed''" "hr_words row = table_count (hd_matched h)"
      using row(2) h(3) by (auto simp: handler_row_of_def rbind_eq_Inr row_status_def split: if_splits)
    moreover have "table_count (hd_matched h) \<noteq> 0" using h(3) assms(2) by (auto simp: table_count_zero)
    ultimately show ?thesis using h(2) row by auto
  qed
  moreover have "out = Falls \<Longrightarrow> table_count fall \<noteq> 0" using sound assms(2) by (auto simp: result_sound_def table_count_zero)
  ultimately show ?thesis using count by auto
qed

text \<open>A small unit: the dispatcher answers the words of its one condition, and every admitted word is one.\<close>

definition sample_condition :: node where
  "sample_condition = Node ''if'' 0 2 ''a'' [Node ''return'' 1 2 [] [] None] None"

definition sample_setup :: audit_setup where
  "sample_setup = (let words = [''f'', ''('', ''f'', ''('', ''f'', ''('', ''f'', ''('']; b = (\<lambda>x y. Node ''block'' x y [] [] None) in
     \<lparr>su_reader = \<lparr>rd_tokens = map (\<lambda>t. \<lparr>tk_text = t, tk_start = 0, tk_end = 1\<rparr>) words, rd_words = words, rd_pairs = []\<rparr>,
      su_execute = Node ''block'' 2 6 [] [Node ''if'' 2 6 ''staged_immediate_repeat ( op )'' [b 2 4]
        (Some (Node ''if'' 4 6 ''true'' [b 4 6] None))] None,
      su_step = b 6 8, su_repeat = Node ''simple'' 6 8 [] [] None, su_residual = Node ''block'' 0 2 [] [sample_condition] None,
      su_guards = \<lparr>gd_names = [], gd_expressions = [], gd_bits = [(''a'', 6), (''true'', 255), (''staged_immediate_repeat ( op )'', 8)],
        gd_aliases = []\<rparr>,
      su_admitted = [2, 4]\<rparr>)"

definition sample_rows :: "handler list" where
  "sample_rows = [\<lparr>hd_node = sample_condition, hd_expression = ''a'', hd_incoming = 6, hd_matched = 6, hd_depth = 1\<rparr>]"

lemma sample_report: "\<exists>rp. dispatch_report sample_setup [] ''f'' = Inr rp \<and> rp_combined rp = 6 \<and> rp_unhandled_words rp = table_count 0"
proof -
  have modes: "rmap_list (\<lambda>(mode, bits). rmap (\<lambda>routes. (mode, routes)) (mode_routes (setup_flow sample_setup ''f'') sample_setup bits))
      (zip [''base'', ''extended''] (su_admitted sample_setup))
    = Inr [(''base'', [(''staged_immediate_repeat ( op )'', 0), (''true'', 2), (''accelerated_repeat'', 2)]),
           (''extended'', [(''staged_immediate_repeat ( op )'', 0), (''true'', 4), (''accelerated_repeat'', 4)])]"
    by code_simp
  have run: "run_flow (setup_flow sample_setup ''f'') 0 (su_residual sample_setup) 6 flow_start = Inr ((0, 6, 0), \<lparr>fs_calls = [], fs_handlers = sample_rows\<rparr>)"
    by code_simp
  have counts: "call_count (rd_words (su_reader sample_setup)) (su_execute sample_setup) ''f'' = 2"
      "call_count (rd_words (su_reader sample_setup)) (su_step sample_setup) ''f'' = 1"
      "call_sites_ok sample_setup ''f'' = Inr True"
    by code_simp+
  have "returns (rmap_list (handler_row_of (setup_flow sample_setup ''f'') (rd_tokens (su_reader sample_setup)) []) sample_rows)"
    by (simp add: sample_rows_def handler_row_of_def sample_condition_def sample_setup_def item_def)
  then show ?thesis unfolding dispatch_report_def Let_def modes by (auto simp: counts run)
qed

theorem shadowed_rows_dead_witness:
  "\<exists>rp. dispatch_report sample_setup [] ''f'' = Inr rp
     \<and> (Returns = Falls \<longrightarrow> 0 < rp_unhandled_words rp)
     \<and> (\<forall>n. Entered n \<in> set [Entered sample_condition] \<longrightarrow> (\<exists>h row. hd_node h = n \<and> row \<in> set (rp_handlers rp)
          \<and> handler_row_of (setup_flow sample_setup ''f'') (rd_tokens (su_reader sample_setup)) [] h = Inr row
          \<and> hr_status row \<noteq> ''shadowed'' \<and> 0 < hr_words row))"
proof -
  obtain rp where rp: "dispatch_report sample_setup [] ''f'' = Inr rp" "rp_combined rp = 6" using sample_report by blast
  have "takes (setup_flow sample_setup ''f'') ''a'' 2 True" by code_simp
  then have "exec (setup_flow sample_setup ''f'') 2 sample_condition Returns [Entered sample_condition]"
    unfolding sample_condition_def by (intro exec_exec_list_exec_arms.if_yes exec_exec_list_exec_arms.return) simp_all
  then have "exec (setup_flow sample_setup ''f'') 2 (su_residual sample_setup) Returns [Entered sample_condition]"
    by (simp add: sample_setup_def exec_exec_list_exec_arms.block exec_exec_list_exec_arms.leave)
  then show ?thesis using rp shadowed_rows_dead [OF rp(1), of 2 Returns "[Entered sample_condition]"] by simp
qed

end
