(* ===== verification/Dispatch_Syntax.thy ===== *)
theory Dispatch_Syntax
  imports Dispatch_Reader
begin

text \<open>
  The statements that the reader of the dispatch census accepts, as syntax of their own with a function that
  writes them as tokens.  Reading what was written gives the statement back, with the spans of its tokens.
\<close>

section \<open>Statements and their tokens\<close>

datatype cstmt =
    Plain "string list"
  | Jump string "string list"
  | Label "string list"
  | Default_label
  | Block "cstmt list"
  | If "string list" cstmt "cstmt option"
  | Loop string "string list" cstmt

fun statement_tokens :: "cstmt \<Rightarrow> string list" where
  "statement_tokens (Plain ts) = ts @ ['';'']"
| "statement_tokens (Jump keyword ts) = keyword # ts @ ['';'']"
| "statement_tokens (Label ts) = ''case'' # ts @ ['':'']"
| "statement_tokens Default_label = [''default'', '':'']"
| "statement_tokens (Block ss) = ''{'' # concat (map statement_tokens ss) @ [''}'']"
| "statement_tokens (If c s els) = ''if'' # ''('' # c @ '')'' # statement_tokens s @ (case els of None \<Rightarrow> [] | Some e \<Rightarrow> ''else'' # statement_tokens e)"
| "statement_tokens (Loop keyword c s) = keyword # ''('' # c @ '')'' # statement_tokens s"

text \<open>Tokens with matching delimiters, and those of a plain statement, which has no semicolon outside them.\<close>

inductive balanced :: "string list \<Rightarrow> bool" where
  nil: "balanced []"
| word: "\<not> opens w \<Longrightarrow> \<not> closes w \<Longrightarrow> balanced ws \<Longrightarrow> balanced (w # ws)"
| delimited: "opens a \<Longrightarrow> closes b \<Longrightarrow> opener b = a \<Longrightarrow> balanced xs \<Longrightarrow> balanced ys \<Longrightarrow> balanced (a # xs @ b # ys)"

inductive flat :: "string list \<Rightarrow> bool" where
  nil: "flat []"
| word: "\<not> opens w \<Longrightarrow> \<not> closes w \<Longrightarrow> w \<noteq> '';'' \<Longrightarrow> flat ws \<Longrightarrow> flat (w # ws)"
| delimited: "opens a \<Longrightarrow> closes b \<Longrightarrow> opener b = a \<Longrightarrow> balanced xs \<Longrightarrow> flat ys \<Longrightarrow> flat (a # xs @ b # ys)"

definition statement_words :: "string list" where
  "statement_words = [''#'', ''{'', ''if'', ''else'', ''switch'', ''for'', ''while'', ''case'', ''default'', ''return'', ''break'', ''continue'']
     @ unsupported_words"

text \<open>A statement whose end a following \<open>else\<close> would extend.\<close>

fun ends_open :: "cstmt \<Rightarrow> bool" where
  "ends_open (If c s None) = True"
| "ends_open (If c s (Some e)) = ends_open e"
| "ends_open (Loop keyword c s) = ends_open s"
| "ends_open _ = False"

fun well_formed :: "cstmt \<Rightarrow> bool" where
  "well_formed (Plain ts) \<longleftrightarrow> flat ts \<and> hd (ts @ ['';'']) \<notin> set statement_words"
| "well_formed (Jump keyword ts) \<longleftrightarrow> keyword \<in> {''return'', ''break'', ''continue''} \<and> flat ts"
| "well_formed (Label ts) \<longleftrightarrow> balanced ts \<and> '':'' \<notin> set ts"
| "well_formed Default_label \<longleftrightarrow> True"
| "well_formed (Block ss) \<longleftrightarrow> list_all well_formed ss"
| "well_formed (If c s els) \<longleftrightarrow> balanced c \<and> well_formed s
     \<and> (case els of None \<Rightarrow> True | Some e \<Rightarrow> well_formed e \<and> \<not> ends_open s)"
| "well_formed (Loop keyword c s) \<longleftrightarrow> keyword \<in> {''switch'', ''for'', ''while''} \<and> balanced c \<and> well_formed s"

text \<open>The node of a statement whose first token is the \<open>i\<close>-th.\<close>

definition spread :: "(nat \<Rightarrow> cstmt \<Rightarrow> node) \<Rightarrow> nat \<Rightarrow> cstmt list \<Rightarrow> node list" where
  "spread f i ss = map (\<lambda>k. f (i + length (concat (map statement_tokens (take k ss)))) (ss ! k)) [0..<length ss]"

lemma spread_cong [fundef_cong]: "i = j \<Longrightarrow> ss = ts \<Longrightarrow> (\<And>k s. s \<in> set ts \<Longrightarrow> f k s = g k s) \<Longrightarrow> spread f i ss = spread g j ts"
  by (auto simp: spread_def)

fun node_at :: "nat \<Rightarrow> cstmt \<Rightarrow> node" where
  "node_at i (Plain ts) = Node ''simple'' i (i + length ts + 1) [] [] None"
| "node_at i (Jump keyword ts) = Node keyword i (i + length ts + 2) [] [] None"
| "node_at i (Label ts) = Node ''label'' i (i + length ts + 2) (join_with '' '' ts) [] None"
| "node_at i Default_label = Node ''label'' i (i + 2) ''default'' [] None"
| "node_at i (Block ss) = Node ''block'' i (i + length (concat (map statement_tokens ss)) + 2) [] (spread (\<lambda>k s. node_at k s) (i + 1) ss) None"
| "node_at i (If c s els) = (let body = i + length c + 3; rest = body + length (statement_tokens s) in
     Node ''if'' i (case els of None \<Rightarrow> rest | Some e \<Rightarrow> rest + 1 + length (statement_tokens e)) (join_with '' '' c) [node_at body s]
       (case els of None \<Rightarrow> None | Some e \<Rightarrow> Some (node_at (rest + 1) e)))"
| "node_at i (Loop keyword c s) = (let body = i + length c + 3 in
     Node keyword i (body + length (statement_tokens s)) (join_with '' '' c) [node_at body s] None)"

section \<open>Delimiters\<close>

lemma balanced_append: "balanced xs \<Longrightarrow> balanced ys \<Longrightarrow> balanced (xs @ ys)"
  by (induction rule: balanced.induct) (auto intro: balanced.intros)

lemma flat_balanced: "flat ts \<Longrightarrow> balanced ts"
  by (induction rule: flat.induct) (auto intro: balanced.intros)

lemma delimiters [simp]:
  "opens ''(''" "opens ''{''" "closes '')''" "closes ''}''" "opener '')'' = ''(''" "opener ''}'' = ''{''"
  "\<not> closes ''(''" "\<not> closes ''{''" "\<not> opens '')''" "\<not> opens ''}''"
  by (simp_all add: opens_def closes_def opener_def)

lemma plain_words: "w \<in> {'';'', '':'', ''if'', ''else'', ''switch'', ''for'', ''while'', ''case'', ''default'', ''return'', ''break'', ''continue''}
    \<Longrightarrow> \<not> opens w \<and> \<not> closes w"
  by (auto simp: opens_def closes_def)

lemma balanced_word: "\<not> opens w \<and> \<not> closes w \<Longrightarrow> balanced [w]"
  by (auto intro: balanced.intros)

lemma balanced_parens: "balanced c \<Longrightarrow> balanced s \<Longrightarrow> balanced (''('' # c @ '')'' # s)"
  by (intro balanced.delimited) simp_all

lemma balanced_cons: "\<not> opens w \<and> \<not> closes w \<Longrightarrow> balanced ws \<Longrightarrow> balanced (w # ws)"
  by (auto intro: balanced.intros)

lemma balanced_concat: "\<forall>xs \<in> set xss. balanced xs \<Longrightarrow> balanced (concat xss)"
  by (induction xss) (auto intro: balanced.nil balanced_append)

lemma written_balanced: "well_formed s \<Longrightarrow> balanced (statement_tokens s)"
proof (induction s rule: statement_tokens.induct)
  case (5 ss)
  then have "balanced (concat (map statement_tokens ss))" by (intro balanced_concat) (auto simp: list_all_iff)
  then have "balanced (''{'' # concat (map statement_tokens ss) @ ''}'' # [])" by (intro balanced.delimited) (simp_all add: balanced.nil)
  then show ?case by simp
next
  case (6 c s els)
  then have "balanced (statement_tokens s @ (case els of None \<Rightarrow> [] | Some e \<Rightarrow> ''else'' # statement_tokens e))"
    by (auto intro!: balanced_append balanced_cons plain_words balanced.nil split: option.splits)
  then show ?case using 6 by (auto intro!: balanced_cons plain_words balanced_parens)
qed (auto intro!: balanced_cons balanced_append balanced_parens plain_words balanced.nil dest: flat_balanced)

text \<open>How the stack behaves, and that an entry of the dictionary stays.\<close>

lemma match_prefix:
  "match_delimiters ws i stack (pre @ rest) pairs = Inr ps \<Longrightarrow> \<forall>t \<in> set stack. t < i \<Longrightarrow>
   \<exists>stack' pairs'. match_delimiters ws (i + length pre) stack' rest pairs' = Inr ps \<and> (\<forall>t \<in> set stack'. t < i + length pre)"
proof (induction pre arbitrary: i stack pairs)
  case (Cons w pre)
  from Cons.prems(1) obtain stack1 pairs1 where "match_delimiters ws (Suc i) stack1 (pre @ rest) pairs1 = Inr ps" "\<forall>t \<in> set stack1. t < Suc i"
    using Cons.prems(2) by (auto simp: less_Suc_eq split: if_splits list.splits)
  from Cons.IH [OF this] show ?case by simp
qed auto

lemma match_balanced:
  "balanced mid \<Longrightarrow> match_delimiters ws i stack (mid @ rest) pairs = Inr ps \<Longrightarrow>
   \<exists>pairs'. match_delimiters ws (i + length mid) stack rest pairs' = Inr ps"
proof (induction mid arbitrary: i stack rest pairs rule: balanced.induct)
  case (word w xs)
  have "match_delimiters ws (Suc i) stack (xs @ rest) pairs = Inr ps" using word.prems word.hyps by simp
  from word.IH [OF this] show ?case by simp
next
  case (delimited a b xs ys)
  have "match_delimiters ws (Suc i) (i # stack) (xs @ b # ys @ rest) pairs = Inr ps" using delimited.prems delimited.hyps(1) by simp
  then obtain pairs1 where "match_delimiters ws (Suc i + length xs) (i # stack) (b # ys @ rest) pairs1 = Inr ps"
    using delimited.IH(1) by blast
  moreover have "\<not> opens b" using delimited.hyps(2) by (auto simp: opens_def closes_def)
  ultimately obtain pairs2 where "match_delimiters ws (Suc (Suc i + length xs)) stack (ys @ rest) pairs2 = Inr ps"
    using delimited.hyps(2) by (auto split: if_splits)
  from delimited.IH(2) [OF this] show ?case by (simp add: add.assoc)
qed auto

lemma match_keeps:
  "match_delimiters ws i stack rest pairs = Inr ps \<Longrightarrow> k \<notin> set stack \<Longrightarrow> k < i \<Longrightarrow> map_of ps k = map_of pairs k"
proof (induction ws i stack rest pairs rule: match_delimiters.induct)
  case (2 ws i stack word rest pairs)
  then show ?case by (cases stack) (auto split: if_splits)
qed (auto split: if_splits)

lemma pair_found:
  assumes "make_reader tokens = Inr rd" and "rd_words rd = pre @ a # mid @ b # post"
    and "balanced mid" and "opens a" and "closes b"
  shows "pair_at rd (length pre) = Inr (length pre + 1 + length mid)"
proof -
  obtain ps where ps: "match_delimiters (rd_words rd) 0 [] (pre @ a # mid @ b # post) [] = Inr ps" "rd_pairs rd = ps"
    using assms(1,2) by (auto simp: make_reader_def Let_def rmap_eq_Inr)
  obtain stack pairs where st: "match_delimiters (rd_words rd) (length pre) stack (a # mid @ b # post) pairs = Inr ps"
      "\<forall>t \<in> set stack. t < length pre"
    using match_prefix [OF ps(1)] by auto
  have "match_delimiters (rd_words rd) (Suc (length pre)) (length pre # stack) (mid @ b # post) pairs = Inr ps"
    using st(1) assms(4) by simp
  then obtain pairs' where "match_delimiters (rd_words rd) (Suc (length pre) + length mid) (length pre # stack) (b # post) pairs' = Inr ps"
    using match_balanced [OF assms(3)] by blast
  moreover have "\<not> opens b" using assms(5) by (auto simp: opens_def closes_def)
  ultimately have "match_delimiters (rd_words rd) (Suc (Suc (length pre) + length mid)) stack post
      (dict_set (length pre) (Suc (length pre) + length mid) pairs') = Inr ps"
    using assms(5) by (auto split: if_splits)
  from match_keeps [OF this, of "length pre"] st(2) have "map_of ps (length pre) = Some (Suc (length pre) + length mid)" by auto
  then show ?thesis using ps(2) by (simp add: pair_at_def)
qed

section \<open>Reading what was written\<close>

lemma token_at_found: "rd_words rd = pre @ w # rest \<Longrightarrow> token_at rd (length pre) = Inr w"
  by (simp add: token_at_def item_def)

lemma expression_at: "rd_words rd = pre @ c @ post \<Longrightarrow> i = length pre \<Longrightarrow> j = i + length c \<Longrightarrow> expression rd i j = join_with '' '' c"
  by (simp add: expression_def slice_def)

lemma label_end_at:
  "rd_words rd = pre @ ts @ '':'' # post \<Longrightarrow> '':'' \<notin> set ts \<Longrightarrow> label_end rd (length pre) = Inr (length pre + length ts)"
proof (induction ts arbitrary: pre)
  case Nil
  then show ?case by (subst label_end.simps) simp
next
  case (Cons t ts)
  then show ?case using Cons.IH [of "pre @ [t]"] by (subst label_end.simps) auto
qed

lemma statement_end_at:
  assumes "make_reader tokens = Inr rd" and "flat ts" and "rd_words rd = pre @ ts @ '';'' # post"
  shows "statement_end rd (length pre) = Inr (length pre + length ts)"
  using assms(2,3)
proof (induction ts arbitrary: pre rule: flat.induct)
  case nil
  then show ?case by (subst statement_end.simps) simp
next
  case (word w ws)
  then show ?case using word.IH [of "pre @ [w]"] by (subst statement_end.simps) (auto simp: closes_def)
next
  case (delimited a b xs ys)
  have "pair_at rd (length pre) = Inr (length pre + 1 + length xs)"
    by (rule pair_found [OF assms(1)]) (use delimited in auto)
  moreover have "a \<noteq> '';''" using delimited.hyps(1) by (auto simp: opens_def)
  ultimately show ?case using delimited.IH [of "pre @ a # xs @ [b]"] delimited.prems delimited.hyps(1)
    by (subst statement_end.simps) simp
qed

lemma spread_Cons: "spread f i (s # ss) = f i s # spread f (i + length (statement_tokens s)) ss"
  by (simp add: spread_def upt_conv_Cons map_Suc_upt [symmetric] add.assoc del: upt_Suc)

lemma written_start: "well_formed s \<Longrightarrow> statement_tokens s \<noteq> [] \<and> hd (statement_tokens s) \<noteq> ''else''"
  by (cases s) (auto simp: statement_words_def)

definition reads :: "reader \<Rightarrow> cstmt \<Rightarrow> bool" where
  "reads rd s \<longleftrightarrow> (\<forall>pre post. rd_words rd = pre @ statement_tokens s @ post \<longrightarrow> (ends_open s \<longrightarrow> post \<noteq> [] \<and> hd post \<noteq> ''else'') \<longrightarrow>
     statement rd (length pre) = Inr (node_at (length pre) s, length pre + length (statement_tokens s)))"

lemma readsD:
  "reads rd s \<Longrightarrow> rd_words rd = pre @ statement_tokens s @ post \<Longrightarrow> (ends_open s \<Longrightarrow> post \<noteq> [] \<and> hd post \<noteq> ''else'') \<Longrightarrow>
   statement rd (length pre) = Inr (node_at (length pre) s, length pre + length (statement_tokens s))"
  by (simp add: reads_def)

lemma reads_block:
  assumes "\<forall>s \<in> set ss. reads rd s \<and> well_formed s" and "rd_words rd = pre @ concat (map statement_tokens ss) @ ''}'' # post"
  shows "statements rd (length pre) (length pre + length (concat (map statement_tokens ss))) = Inr (spread node_at (length pre) ss)"
  using assms
proof (induction ss arbitrary: pre)
  case Nil
  then show ?case by (simp add: statements_exact spread_def)
next
  case (Cons s ss)
  let ?rest = "concat (map statement_tokens ss) @ ''}'' # post"
  have "?rest \<noteq> [] \<and> hd ?rest \<noteq> ''else''" using written_start Cons.prems(1) by (cases ss) auto
  then have st: "statement rd (length pre) = Inr (node_at (length pre) s, length pre + length (statement_tokens s))"
    using Cons.prems unfolding reads_def by auto
  have "statements rd (length (pre @ statement_tokens s)) (length (pre @ statement_tokens s) + length (concat (map statement_tokens ss)))
      = Inr (spread node_at (length (pre @ statement_tokens s)) ss)"
    using Cons.prems by (intro Cons.IH) auto
  moreover have "statement_tokens s \<noteq> []" using Cons.prems(1) written_start by simp
  ultimately show ?case using st by (subst statements_exact) (simp add: spread_Cons add.assoc)
qed

lemma statement_other:
  assumes "rd_words rd = pre @ w # rest"
    and "w \<notin> set ([''#'', ''{'', ''if'', ''switch'', ''for'', ''while'', ''case'', ''default''] @ unsupported_words)"
  shows "statement rd (length pre) = rbind (statement_end rd (length pre)) (\<lambda>end.
    Inr (Node (if w \<in> {''return'', ''break'', ''continue''} then w else ''simple'') (length pre) (Suc end) [] [] None, Suc end))"
  using assms by (subst statement.simps) (simp add: Let_def)

lemma reads_plain:
  assumes "make_reader tokens = Inr rd" and "well_formed (Plain ts)"
  shows "reads rd (Plain ts)"
  unfolding reads_def
proof (intro allI impI)
  fix pre post assume w: "rd_words rd = pre @ statement_tokens (Plain ts) @ post"
  have "statement_end rd (length pre) = Inr (length pre + length ts)"
    using statement_end_at [OF assms(1), of ts pre post] assms(2) w by simp
  moreover obtain w' rest where "ts @ '';'' # post = w' # rest" "w' = hd (ts @ ['';''])" by (cases ts) auto
  ultimately show "statement rd (length pre) = Inr (node_at (length pre) (Plain ts), length pre + length (statement_tokens (Plain ts)))"
    using assms(2) w statement_other [of rd pre w' rest] by (auto simp: statement_words_def)
qed

lemma reads_jump:
  assumes "make_reader tokens = Inr rd" and "well_formed (Jump keyword ts)"
  shows "reads rd (Jump keyword ts)"
  unfolding reads_def
proof (intro allI impI)
  fix pre post assume w: "rd_words rd = pre @ statement_tokens (Jump keyword ts) @ post"
  have k: "keyword \<in> {''return'', ''break'', ''continue''}" "flat ts" using assms(2) by simp_all
  have "flat (keyword # ts)" using k plain_words [of keyword] by (auto intro: flat.word)
  then have "statement_end rd (length pre) = Inr (length pre + length (keyword # ts))"
    using statement_end_at [OF assms(1), of "keyword # ts" pre post] w by simp
  then show "statement rd (length pre) = Inr (node_at (length pre) (Jump keyword ts), length pre + length (statement_tokens (Jump keyword ts)))"
    using k w statement_other [of rd pre keyword "ts @ '';'' # post"] by (auto simp: unsupported_words_def)
qed

lemma reads_condition:
  assumes "make_reader tokens = Inr rd" and "balanced c" and "rd_words rd = pre @ keyword # ''('' # c @ '')'' # rest"
  shows "pair_at rd (Suc (length pre)) = Inr (length pre + 2 + length c)"
    and "expression rd (length pre + 2) (length pre + 2 + length c) = join_with '' '' c"
  using pair_found [OF assms(1), of "pre @ [keyword]" "''(''" c "'')''" rest] assms(2,3)
    expression_at [of rd "pre @ [keyword, ''('']" c "'')'' # rest"]
  by simp_all

lemma statement_label:
  assumes "rd_words rd = pre @ w # rest" and "w = ''case'' \<or> w = ''default''"
  shows "statement rd (length pre) = rbind (label_end rd (Suc (length pre))) (\<lambda>end.
    Inr (Node ''label'' (length pre) (Suc end) (if w = ''case'' then expression rd (Suc (length pre)) end else ''default'') [] None, Suc end))"
  using assms by (subst statement.simps) (elim disjE; simp add: Let_def unsupported_words_def)

lemma statement_brace:
  assumes "rd_words rd = pre @ ''{'' # rest"
  shows "statement rd (length pre) = rbind (pair_at rd (length pre)) (\<lambda>stop. rbind (statements rd (Suc (length pre)) stop) (\<lambda>children.
    Inr (Node ''block'' (length pre) (Suc stop) [] children None, Suc stop)))"
  using assms by (subst statement.simps) (simp add: Let_def unsupported_words_def)

lemma statement_loop:
  assumes "rd_words rd = pre @ w # rest" and "w = ''switch'' \<or> w = ''for'' \<or> w = ''while''" and "pair_at rd (Suc (length pre)) = Inr close"
  shows "statement rd (length pre) = rbind (statement rd (Suc close)) (\<lambda>(body, end).
    Inr (Node w (length pre) end (expression rd (length pre + 2) close) [body] None, end))"
  using assms pair_at_less [OF assms(3)] by (subst statement.simps) (elim disjE; simp add: Let_def unsupported_words_def)

lemma statement_if:
  assumes "rd_words rd = pre @ ''if'' # ''('' # rest" and "pair_at rd (Suc (length pre)) = Inr close"
    and "statement rd (Suc close) = Inr (thn, end)" and "token_at rd end = Inr w"
  shows "statement rd (length pre) =
    (if w = ''else'' then rbind (statement rd (Suc end)) (\<lambda>(els, end').
       Inr (Node ''if'' (length pre) end' (expression rd (length pre + 2) close) [thn] (Some els), end'))
     else Inr (Node ''if'' (length pre) end (expression rd (length pre + 2) close) [thn] None, end))"
proof -
  have "token_at rd (Suc (length pre)) = Inr ''(''" using token_at_found [of rd "pre @ [''if'']" "''(''" rest] assms(1) by simp
  then show ?thesis using assms pair_at_less [OF assms(2)] statement_advances [OF assms(3)]
    by (subst statement.simps) (simp add: Let_def unsupported_words_def)
qed

lemma reads_label:
  assumes "well_formed (Label ts)"
  shows "reads rd (Label ts)"
  unfolding reads_def
proof (intro allI impI)
  fix pre post assume w: "rd_words rd = pre @ statement_tokens (Label ts) @ post"
  have "label_end rd (Suc (length pre)) = Inr (Suc (length pre) + length ts)"
    using label_end_at [of rd "pre @ [''case'']" ts post] w assms by simp
  moreover have "expression rd (Suc (length pre)) (Suc (length pre) + length ts) = join_with '' '' ts"
    using expression_at [of rd "pre @ [''case'']" ts "'':'' # post"] w by simp
  ultimately show "statement rd (length pre) = Inr (node_at (length pre) (Label ts), length pre + length (statement_tokens (Label ts)))"
    using statement_label [of rd pre "''case''" "ts @ '':'' # post"] w by simp
qed

lemma reads_default: "reads rd Default_label"
  unfolding reads_def
proof (intro allI impI)
  fix pre post assume w: "rd_words rd = pre @ statement_tokens Default_label @ post"
  have "label_end rd (Suc (length pre)) = Inr (Suc (length pre))"
    using label_end_at [of rd "pre @ [''default'']" "[]" post] w by simp
  then show "statement rd (length pre) = Inr (node_at (length pre) Default_label, length pre + length (statement_tokens Default_label))"
    using statement_label [of rd pre "''default''" "'':'' # post"] w by simp
qed

lemma reads_braces:
  assumes "make_reader tokens = Inr rd" and "well_formed (Block ss)" and "\<forall>s \<in> set ss. reads rd s"
  shows "reads rd (Block ss)"
  unfolding reads_def
proof (intro allI impI)
  fix pre post assume w: "rd_words rd = pre @ statement_tokens (Block ss) @ post"
  let ?body = "concat (map statement_tokens ss)"
  have "balanced ?body" using assms(2) written_balanced by (intro balanced_concat) (auto simp: list_all_iff)
  then have pair: "pair_at rd (length pre) = Inr (length pre + 1 + length ?body)"
    using w by (intro pair_found [OF assms(1), of pre "''{''" _ "''}''" post]) simp_all
  have "statements rd (length (pre @ [''{''])) (length (pre @ [''{'']) + length ?body) = Inr (spread node_at (length (pre @ [''{''])) ss)"
    using assms(2,3) w by (intro reads_block [of ss rd _ post]) (auto simp: list_all_iff)
  then show "statement rd (length pre) = Inr (node_at (length pre) (Block ss), length pre + length (statement_tokens (Block ss)))"
    using pair statement_brace [of rd pre "?body @ ''}'' # post"] w by simp
qed

lemma reads_loop:
  assumes "make_reader tokens = Inr rd" and "well_formed (Loop keyword c s)" and "reads rd s"
  shows "reads rd (Loop keyword c s)"
  unfolding reads_def
proof (intro allI impI)
  fix pre post
  assume w: "rd_words rd = pre @ statement_tokens (Loop keyword c s) @ post" and e: "ends_open (Loop keyword c s) \<longrightarrow> post \<noteq> [] \<and> hd post \<noteq> ''else''"
  have w': "rd_words rd = pre @ keyword # ''('' # c @ '')'' # statement_tokens s @ post" using w by simp
  have c: "balanced c" using assms(2) by simp
  note cond = reads_condition [OF assms(1) c w']
  have "rd_words rd = (pre @ keyword # ''('' # c @ ['')'']) @ statement_tokens s @ post" using w' by simp
  then have "statement rd (length (pre @ keyword # ''('' # c @ ['')'']))
      = Inr (node_at (length (pre @ keyword # ''('' # c @ ['')''])) s, length (pre @ keyword # ''('' # c @ ['')'']) + length (statement_tokens s))"
    by (rule readsD [OF assms(3)]) (use e in simp)
  then show "statement rd (length pre) = Inr (node_at (length pre) (Loop keyword c s), length pre + length (statement_tokens (Loop keyword c s)))"
    using statement_loop [OF w' _ cond(1)] cond(2) assms(2) by (simp add: Let_def ac_simps eval_nat_numeral)
qed

lemma reads_if:
  assumes "make_reader tokens = Inr rd" and "well_formed (If c s els)" and "reads rd s" and "\<forall>e. els = Some e \<longrightarrow> reads rd e"
  shows "reads rd (If c s els)"
  unfolding reads_def
proof (intro allI impI)
  fix pre post
  assume w: "rd_words rd = pre @ statement_tokens (If c s els) @ post" and e: "ends_open (If c s els) \<longrightarrow> post \<noteq> [] \<and> hd post \<noteq> ''else''"
  let ?tail = "(case els of None \<Rightarrow> [] | Some e \<Rightarrow> ''else'' # statement_tokens e) @ post"
  let ?pre = "pre @ ''if'' # ''('' # c @ ['')'']"
  have w': "rd_words rd = pre @ ''if'' # ''('' # c @ '')'' # statement_tokens s @ ?tail" using w by simp
  have c: "balanced c" using assms(2) by simp
  note cond = reads_condition [OF assms(1) c w']
  have "ends_open s \<longrightarrow> ?tail \<noteq> [] \<and> hd ?tail \<noteq> ''else''" using assms(2) e by (cases els) auto
  moreover have "rd_words rd = ?pre @ statement_tokens s @ ?tail" using w' by simp
  ultimately have st: "statement rd (length ?pre) = Inr (node_at (length ?pre) s, length ?pre + length (statement_tokens s))"
    using assms(3) unfolding reads_def by blast
  have "length ?pre = Suc (length pre + 2 + length c)" by simp
  note if_rule = statement_if [OF w' cond(1) st [unfolded this]]
  show "statement rd (length pre) = Inr (node_at (length pre) (If c s els), length pre + length (statement_tokens (If c s els)))"
  proof (cases els)
    case None
    then obtain w0 rest where "post = w0 # rest" "w0 \<noteq> ''else''" using e by (cases post) auto
    moreover have "token_at rd (length (?pre @ statement_tokens s)) = Inr w0"
      using w' None calculation(1) by (intro token_at_found [of _ _ _ rest]) simp
    ultimately show ?thesis using if_rule [of w0] cond(2) None by (simp add: Let_def ac_simps eval_nat_numeral)
  next
    case (Some els')
    have "token_at rd (length (?pre @ statement_tokens s)) = Inr ''else''" using w' Some by (intro token_at_found [of _ _ _ "statement_tokens els' @ post"]) simp
    moreover have "rd_words rd = (?pre @ statement_tokens s @ [''else'']) @ statement_tokens els' @ post" using w' Some by simp
    then have "statement rd (length (?pre @ statement_tokens s @ [''else'']))
        = Inr (node_at (length (?pre @ statement_tokens s @ [''else''])) els', length (?pre @ statement_tokens s @ [''else'']) + length (statement_tokens els'))"
      by (rule readsD [OF assms(4) [rule_format, OF Some]]) (use e Some in simp)
    ultimately show ?thesis using if_rule [of "''else''"] cond(2) Some by (simp add: Let_def ac_simps eval_nat_numeral)
  qed
qed

lemma reads_all: "make_reader tokens = Inr rd \<Longrightarrow> well_formed s \<Longrightarrow> reads rd s"
proof (induction s)
  case (If c s els)
  then show ?case by (intro reads_if) (auto split: option.splits)
next
  case (Block ss)
  then show ?case by (intro reads_braces) (auto simp: list_all_iff)
qed (simp_all add: reads_plain reads_jump reads_label reads_default reads_loop del: well_formed.simps, auto intro: reads_loop)

text \<open>C37: The statement reader inverts the writing of statements: wherever a statement of
  C++ stands in the token stream of a file, reading from its first token gives its tree, the token span of
  every part and the text of every condition, and stops right behind it.\<close>

theorem statement_read_back:
  assumes "make_reader tokens = Inr rd" and "rd_words rd = pre @ statement_tokens s @ post" and "well_formed s"
    and "ends_open s \<longrightarrow> post \<noteq> [] \<and> hd post \<noteq> ''else''"
  shows "statement rd (length pre) = Inr (node_at (length pre) s, length pre + length (statement_tokens s))"
  using readsD [OF reads_all [OF assms(1,3)] assms(2)] assms(4) by blast

definition sample_statement :: cstmt where
  "sample_statement = Block [Loop ''switch'' [''op''] (Block [Label [''1''], Jump ''break'' [], Default_label, Plain [''f'', ''('', ''op'', '')'']]),
     If [''op'', ''=='', ''2''] (Jump ''return'' []) None, Plain []]"

definition sample_tokens :: "token list" where
  "sample_tokens = map (\<lambda>t. \<lparr>tk_text = t, tk_start = 0, tk_end = 0\<rparr>) (''x'' # statement_tokens sample_statement)"

lemma sample_statement_ok: "well_formed sample_statement"
proof -
  have "flat [''f'', ''('', ''op'', '')'']"
    using flat.delimited [of "''(''" "'')''" "[''op'']" "[]"]
    by (auto intro!: flat.word simp: flat.nil opens_def closes_def opener_def balanced.nil balanced.word)
  moreover have "balanced [''op'']" "balanced [''op'', ''=='', ''2'']" "balanced [''1'']"
    by (simp_all add: balanced.nil balanced.word opens_def closes_def)
  ultimately show ?thesis by (simp add: sample_statement_def flat.nil statement_words_def unsupported_words_def)
qed

theorem statement_read_back_witness:
  "\<exists>rd. make_reader sample_tokens = Inr rd \<and> statement rd 1 = Inr (node_at 1 sample_statement, 1 + length (statement_tokens sample_statement))"
proof -
  have "case make_reader sample_tokens of Inl _ \<Rightarrow> False | Inr _ \<Rightarrow> True" by code_simp
  then obtain rd where rd: "make_reader sample_tokens = Inr rd" by (auto split: sum.splits)
  then have "rd_words rd = map tk_text sample_tokens" by (auto simp: make_reader_def Let_def rmap_eq_Inr)
  then have "rd_words rd = [''x''] @ statement_tokens sample_statement @ []" by (simp add: sample_tokens_def o_def)
  then show ?thesis using statement_read_back [OF rd, of "[''x'']" sample_statement "[]"] rd sample_statement_ok
    by (simp add: sample_statement_def)
qed

end
